(* ===== verification/Go_Prelude.thy ===== *)
theory Go_Prelude
  imports Main "HOL-Library.Word" "HOL-Library.AList" "HOL-Library.Sublist"
    "HOL-Library.Char_ord" "HOL-Library.List_Lexorder" "HOL-Library.Multiset"
begin

text \<open>
  Shared prelude: the pieces of the Go language and of its \<open>strings\<close>, \<open>sort\<close> and \<open>strconv\<close>
  packages that the agent's code uses, the generic lemmas the components share, and the
  contracts (locales) several components implement.

  Go strings are byte strings: a \<^typ>\<open>string\<close> here is a list of 8-bit characters and its
  \<open>length\<close> is Go's \<open>len\<close>. Case mapping and white space are the ASCII ones; bytes above 127
  are left alone. A Go map is an association list with distinct keys (\<open>gomap\<close>), read with
  \<open>map_of\<close>; the order of the list plays the part of Go's unspecified iteration order.
\<close>

subsection \<open>Types\<close>

type_synonym byte = "8 word"
type_synonym bytes = "byte list"
type_synonym ('k, 'v) gomap = "('k \<times> 'v) list"

named_theorems go_simps \<open>unfolding rules of the Go library model\<close>

subsection \<open>The strings package\<close>

definition is_space :: "char \<Rightarrow> bool" where
  "is_space c \<longleftrightarrow> c = CHR 0x20 \<or> c = CHR 0x09 \<or> c = CHR 0x0A \<or> c = CHR 0x0B \<or> c = CHR 0x0C \<or> c = CHR 0x0D"

definition trim_left :: "(char \<Rightarrow> bool) \<Rightarrow> string \<Rightarrow> string" where
  "trim_left p s = dropWhile p s"

definition trim_right :: "(char \<Rightarrow> bool) \<Rightarrow> string \<Rightarrow> string" where
  "trim_right p s = rev (dropWhile p (rev s))"

definition trim_space :: "string \<Rightarrow> string" where
  "trim_space s = trim_right is_space (trim_left is_space s)"

definition has_prefix :: "string \<Rightarrow> string \<Rightarrow> bool" where
  "has_prefix s p \<longleftrightarrow> take (length p) s = p"

definition has_suffix :: "string \<Rightarrow> string \<Rightarrow> bool" where
  "has_suffix s p \<longleftrightarrow> length p \<le> length s \<and> drop (length s - length p) s = p"

definition trim_prefix :: "string \<Rightarrow> string \<Rightarrow> string" where
  "trim_prefix s p = (if has_prefix s p then drop (length p) s else s)"

definition trim_suffix :: "string \<Rightarrow> string \<Rightarrow> string" where
  "trim_suffix s p = (if has_suffix s p then take (length s - length p) s else s)"

text \<open>\<open>strings.Split\<close> and \<open>strings.Cut\<close> with a one-character separator.\<close>

fun split_on :: "char \<Rightarrow> string \<Rightarrow> string list" where
  "split_on c [] = [[]]"
| "split_on c (x # xs) =
     (if x = c then [] # split_on c xs
      else (case split_on c xs of [] \<Rightarrow> [[x]] | y # ys \<Rightarrow> (x # y) # ys))"

definition cut_on :: "char \<Rightarrow> string \<Rightarrow> string \<times> string \<times> bool" where
  "cut_on c s = (takeWhile (\<lambda>x. x \<noteq> c) s, drop 1 (dropWhile (\<lambda>x. x \<noteq> c) s), c \<in> set s)"

fun contains_sub :: "string \<Rightarrow> string \<Rightarrow> bool" where
  "contains_sub [] p \<longleftrightarrow> p = []"
| "contains_sub (x # xs) p \<longleftrightarrow> has_prefix (x # xs) p \<or> contains_sub xs p"

definition contains_any :: "string \<Rightarrow> string \<Rightarrow> bool" where
  "contains_any s cs \<longleftrightarrow> (\<exists>c \<in> set s. c \<in> set cs)"

definition is_digit :: "char \<Rightarrow> bool" where
  "is_digit c \<longleftrightarrow> CHR ''0'' \<le> c \<and> c \<le> CHR ''9''"

definition is_upper :: "char \<Rightarrow> bool" where
  "is_upper c \<longleftrightarrow> CHR ''A'' \<le> c \<and> c \<le> CHR ''Z''"

definition is_lower :: "char \<Rightarrow> bool" where
  "is_lower c \<longleftrightarrow> CHR ''a'' \<le> c \<and> c \<le> CHR ''z''"

definition lower_char :: "char \<Rightarrow> char" where
  "lower_char c = (if is_upper c then char_of (of_char c + 32 :: nat) else c)"

definition upper_char :: "char \<Rightarrow> char" where
  "upper_char c = (if is_lower c then char_of (of_char c - 32 :: nat) else c)"

definition to_lower :: "string \<Rightarrow> string" where
  "to_lower s = map lower_char s"

definition to_upper :: "string \<Rightarrow> string" where
  "to_upper s = map upper_char s"

text \<open>\<open>strings.EqualFold\<close> on ASCII.\<close>

definition equal_fold :: "string \<Rightarrow> string \<Rightarrow> bool" where
  "equal_fold a b \<longleftrightarrow> to_lower a = to_lower b"

text \<open>The text after the last separator (the whole string when there is none).\<close>

definition after_last :: "char \<Rightarrow> string \<Rightarrow> string" where
  "after_last c s = rev (takeWhile (\<lambda>x. x \<noteq> c) (rev s))"

text \<open>\<open>strings.Fields\<close>.\<close>

fun fields_aux :: "string \<Rightarrow> string \<Rightarrow> string list" where
  "fields_aux acc [] = (if acc = [] then [] else [rev acc])"
| "fields_aux acc (x # xs) =
     (if is_space x then (if acc = [] then fields_aux [] xs else rev acc # fields_aux [] xs)
      else fields_aux (x # acc) xs)"

definition fields :: "string \<Rightarrow> string list" where
  "fields s = fields_aux [] s"

lemma has_prefix_iff [simp]: "has_prefix s p \<longleftrightarrow> prefix p s"
  by (auto simp: has_prefix_def prefix_def) (metis append_take_drop_id)

lemma has_suffix_append [simp]: "has_suffix (s @ p) p"
  by (simp add: has_suffix_def)

lemma trim_prefix_append [simp]: "trim_prefix (p @ s) p = s"
  by (simp add: trim_prefix_def)

lemma split_on_nonempty [simp]: "split_on c s \<noteq> []"
  by (cases s) (auto split: list.splits)

lemma cut_on_append:
  assumes "c \<notin> set s"
  shows "cut_on c (s @ c # t) = (s, t, True)"
proof -
  from assms have "\<And>x. x \<in> set s \<Longrightarrow> x \<noteq> c" by auto
  then show ?thesis by (simp add: cut_on_def takeWhile_append dropWhile_append3)
qed

lemma cut_on_none: "c \<notin> set s \<Longrightarrow> cut_on c s = (s, [], False)"
proof -
  assume "c \<notin> set s"
  then have "dropWhile (\<lambda>x. x \<noteq> c) s = []" and "takeWhile (\<lambda>x. x \<noteq> c) s = s"
    by (auto simp: takeWhile_eq_all_conv)
  with \<open>c \<notin> set s\<close> show ?thesis by (simp add: cut_on_def del: dropWhile_eq_Nil_conv takeWhile_eq_all_conv)
qed

lemma split_on_none: "c \<notin> set s \<Longrightarrow> split_on c s = [s]"
  by (induction s) auto

lemma split_on_append: "c \<notin> set s \<Longrightarrow> split_on c (s @ c # t) = s # split_on c t"
  by (induction s) auto

lemma split_on_snoc: "c \<notin> set t \<Longrightarrow> split_on c (s @ c # t) = split_on c s @ [t]"
  by (induction s) (auto simp: split_on_none split: list.splits)

lemma split_on_no_sep: "p \<in> set (split_on c s) \<Longrightarrow> c \<notin> set p"
  by (induction s arbitrary: p) (auto split: if_splits list.splits)

lemma trim_space_empty [simp]: "trim_space [] = []"
  by (simp add: trim_space_def trim_left_def trim_right_def)

lemma dropWhile_id: "(s = [] \<or> \<not> p (hd s)) \<Longrightarrow> dropWhile p s = s"
  by (cases s) auto

lemma trim_space_idem [simp]: "trim_space (trim_space s) = trim_space s"
proof -
  let ?t = "dropWhile is_space s"
  let ?u = "dropWhile is_space (rev ?t)"
  have u: "?u = [] \<or> \<not> is_space (hd ?u)"
    using hd_dropWhile by blast
  have "dropWhile is_space (rev ?u) = rev ?u"
  proof (cases "?u = []")
    case True then show ?thesis by (simp only: True rev.simps dropWhile.simps)
  next
    case False
    obtain pre where pre: "rev ?t = pre @ ?u"
      by (metis takeWhile_dropWhile_id)
    then have t: "?t = rev ?u @ rev pre" by (metis rev_append rev_rev_ident)
    have "?t \<noteq> []" using False by (metis dropWhile.simps(1) rev.simps(1))
    then have "\<not> is_space (hd ?t)" by (rule hd_dropWhile)
    moreover have "hd ?t = hd (rev ?u)" using t False by (metis hd_append rev_is_Nil_conv)
    ultimately show ?thesis using False by (simp add: dropWhile_id)
  qed
  moreover have "dropWhile is_space ?u = ?u" using u by (rule dropWhile_id)
  ultimately show ?thesis unfolding trim_space_def trim_left_def trim_right_def by (simp only: rev_rev_ident)
qed

subsection \<open>Decimal and base-36 formatting\<close>

definition digit_char :: "nat \<Rightarrow> char" where
  "digit_char d = (if d < 10 then char_of (48 + d) else char_of (87 + d))"

function fmt_uint :: "nat \<Rightarrow> nat \<Rightarrow> string" where
  "fmt_uint b n = (if b < 2 \<or> n < b then [digit_char n] else fmt_uint b (n div b) @ [digit_char (n mod b)])"
  by pat_completeness auto
termination by (relation "measure snd") (auto intro: div_less_dividend)

declare fmt_uint.simps [simp del]

lemma of_char_char_of_small: "n < 256 \<Longrightarrow> (of_char (char_of n) :: nat) = n"
  by (simp add: of_char_of)

lemma digit_char_inj: "d < 36 \<Longrightarrow> e < 36 \<Longrightarrow> digit_char d = digit_char e \<Longrightarrow> d = e"
  by (auto simp: digit_char_def split: if_splits dest!: arg_cong [where f = "of_char :: char \<Rightarrow> nat"]
      simp: of_char_char_of_small)

lemma fmt_uint_nonempty [simp]: "fmt_uint b n \<noteq> []"
  by (subst fmt_uint.simps) simp

lemma fmt_uint_single: "2 \<le> b \<Longrightarrow> length (fmt_uint b n) = 1 \<longleftrightarrow> n < b"
  by (subst fmt_uint.simps) auto

lemma fmt_uint_inj:
  assumes b: "2 \<le> b" "b \<le> 36" and eq: "fmt_uint b m = fmt_uint b n"
  shows "m = n"
  using eq
proof (induction m arbitrary: n rule: less_induct)
  case (less m)
  show ?case
  proof (cases "m < b")
    case True
    then have "n < b" using b less.prems fmt_uint_single by metis
    then show ?thesis using True b less.prems
      by (metis digit_char_inj fmt_uint.simps list.inject order_less_le_trans)
  next
    case False
    then have nb: "\<not> n < b" using b less.prems fmt_uint_single by metis
    from False nb b less.prems have
      "fmt_uint b (m div b) @ [digit_char (m mod b)] = fmt_uint b (n div b) @ [digit_char (n mod b)]"
      by (metis fmt_uint.simps not_le)
    then have d: "fmt_uint b (m div b) = fmt_uint b (n div b)" "digit_char (m mod b) = digit_char (n mod b)"
      by auto
    have "m div b < m" using False b by (auto intro: div_less_dividend)
    then have "m div b = n div b" using less.IH d(1) by blast
    moreover have "m mod b = n mod b"
      using d(2) b by (intro digit_char_inj) (auto intro: order_less_le_trans [OF mod_less_divisor])
    ultimately show ?thesis by (metis div_mod_decomp)
  qed
qed

subsection \<open>Byte order\<close>

definition be16 :: "nat \<Rightarrow> bytes" where
  "be16 n = [word_of_nat (n div 256), word_of_nat n]"

definition be32 :: "nat \<Rightarrow> bytes" where
  "be32 n = [word_of_nat (n div 2 ^ 24), word_of_nat (n div 2 ^ 16), word_of_nat (n div 256), word_of_nat n]"

definition be64 :: "nat \<Rightarrow> bytes" where
  "be64 n = be32 (n div 2 ^ 32) @ be32 n"

fun be_nat :: "nat \<Rightarrow> bytes \<Rightarrow> nat" where
  "be_nat acc [] = acc"
| "be_nat acc (b # bs) = be_nat (acc * 256 + unat b) bs"

lemma be16_length [simp]: "length (be16 n) = 2" by (simp add: be16_def)
lemma be32_length [simp]: "length (be32 n) = 4" by (simp add: be32_def)
lemma be64_length [simp]: "length (be64 n) = 8" by (simp add: be64_def)

lemma unat_byte [simp]: "unat (word_of_nat n :: byte) = n mod 256"
  by (simp add: unat_of_nat)

lemma be_nat_be16_acc: "be_nat acc (be16 n) = acc * 65536 + n mod 65536"
  using mod_mult2_eq [of n 256 256] by (simp add: be16_def)

lemma be_nat_be16 [simp]: "n < 65536 \<Longrightarrow> be_nat 0 (be16 n) = n"
  by (simp add: be_nat_be16_acc)

lemma be32_be16: "be32 n = be16 (n div 65536) @ be16 n"
  by (simp add: be32_def be16_def div_mult2_eq [symmetric])

lemma be_nat_append: "be_nat acc (xs @ ys) = be_nat (be_nat acc xs) ys"
  by (induction xs arbitrary: acc) auto

lemma be_nat_be32_acc: "be_nat acc (be32 n) = acc * 4294967296 + n mod 4294967296"
  using mod_mult2_eq [of n 65536 65536] by (simp add: be32_be16 be_nat_append be_nat_be16_acc algebra_simps)

lemma be_nat_be32 [simp]: "n < 4294967296 \<Longrightarrow> be_nat 0 (be32 n) = n"
  by (simp add: be_nat_be32_acc)

lemma be_nat_be64 [simp]: "n < 18446744073709551616 \<Longrightarrow> be_nat 0 (be64 n) = n"
  using mod_mult2_eq [of n 4294967296 4294967296] by (simp add: be64_def be_nat_append be_nat_be32_acc)

lemma unat_byte_less: "unat (b :: byte) < 256"
proof -
  have "unat b < 2 ^ LENGTH(8)" by (rule unsigned_less)
  then show ?thesis by simp
qed

lemma word_of_nat_byte: "word_of_nat (x * 256 + unat b) = (b :: byte)"
proof -
  have "unat (word_of_nat (x * 256 + unat b) :: byte) = (x * 256 + unat b) mod 256" by (rule unat_byte)
  also have "\<dots> = unat b" using unat_byte_less [of b] by simp
  finally show ?thesis by (rule word_unat_eq_iff [THEN iffD2])
qed

lemma be32_be_nat: "length bs = 4 \<Longrightarrow> be32 (be_nat 0 bs) = bs"
proof -
  assume "length bs = 4"
  then obtain a b c d where bs: "bs = [a, b, c, d]" by (auto simp: numeral_eq_Suc length_Suc_conv)
  have q: "(x * 256 + unat (z :: byte)) div 256 = x" for x z using unat_byte_less [of z] by simp
  have e: "y div 2 ^ 24 = y div 256 div 256 div 256" "y div 2 ^ 16 = y div 256 div 256" for y :: nat
    by (simp_all add: div_mult2_eq [symmetric])
  have v: "be_nat 0 [a, b, c, d] = (((0 * 256 + unat a) * 256 + unat b) * 256 + unat c) * 256 + unat d"
    by (simp only: be_nat.simps)
  show ?thesis unfolding bs v be32_def e q word_of_nat_byte ..
qed

lemma be_nat_bound: "be_nat acc bs < (acc + 1) * 256 ^ length bs"
proof (induction bs arbitrary: acc)
  case Nil then show ?case by simp
next
  case (Cons b bs)
  have "unat b < 2 ^ LENGTH(8)" by (rule unsigned_less)
  then have "unat b < 256" by simp
  then have "(acc * 256 + unat b + 1) * 256 ^ length bs \<le> ((acc + 1) * 256) * 256 ^ length bs"
    by (intro mult_le_mono1) simp
  from order_less_le_trans [OF Cons.IH this] show ?case by (simp add: algebra_simps)
qed

text \<open>A Go string's bytes, and back.\<close>

definition bytes_of :: "string \<Rightarrow> bytes" where
  "bytes_of s = map (\<lambda>c. word_of_nat (of_char c)) s"

definition string_of :: "bytes \<Rightarrow> string" where
  "string_of bs = map (\<lambda>b. char_of (unat b)) bs"

lemma bytes_of_length [simp]: "length (bytes_of s) = length s"
  by (simp add: bytes_of_def)

lemma string_of_bytes_of [simp]: "string_of (bytes_of s) = s"
  by (simp add: string_of_def bytes_of_def comp_def)

lemma bytes_of_string_of [simp]: "bytes_of (string_of bs) = bs"
  by (simp add: bytes_of_def string_of_def comp_def of_char_char_of_small unat_byte_less map_idI)

subsection \<open>Calls that may panic\<close>

datatype 'a go_call = Returned 'a | Failed string | Panicked

subsection \<open>Go maps\<close>

definition well_keyed :: "('k, 'v) gomap \<Rightarrow> bool" where
  "well_keyed m \<longleftrightarrow> distinct (map fst m)"

lemma well_keyed_Nil [simp]: "well_keyed []"
  by (simp add: well_keyed_def)

lemma well_keyed_update [simp]: "well_keyed m \<Longrightarrow> well_keyed (AList.update k v m)"
  by (simp add: well_keyed_def distinct_update)

lemma well_keyed_delete [simp]: "well_keyed m \<Longrightarrow> well_keyed (AList.delete k m)"
  by (simp add: well_keyed_def distinct_delete)

lemma well_keyed_filter [simp]: "well_keyed m \<Longrightarrow> well_keyed (filter P m)"
  by (simp add: well_keyed_def distinct_map_filter)

lemma map_of_update [simp]: "map_of (AList.update k v m) = (map_of m)(k \<mapsto> v)"
  by (simp add: update_conv')

lemma map_of_delete [simp]: "map_of (AList.delete k m) = (map_of m)(k := None)"
  by (simp add: delete_conv')

lemma map_of_filter_keyed:
  "well_keyed m \<Longrightarrow> map_of (filter P m) k = (case map_of m k of None \<Rightarrow> None | Some v \<Rightarrow> if P (k, v) then Some v else None)"
  by (induction m) (auto simp: well_keyed_def map_of_eq_None_iff split: option.splits)

lemma set_AList_update: "set (AList.update k v m) \<subseteq> insert (k, v) (set m)"
  by (induction m) auto

lemma set_AList_delete: "set (AList.delete k m) \<subseteq> set m"
  by (induction m) auto

lemma keys_update: "fst ` set (AList.update k v m) = insert k (fst ` set m)"
  by (induction m) auto

lemma update_fresh: "k \<notin> fst ` set m \<Longrightarrow> AList.update k v m = m @ [(k, v)]"
  by (induction m) auto

lemma length_update_le: "length (AList.update k v m) \<le> Suc (length m)"
  by (induction m) auto

lemma length_delete_le: "length (AList.delete k m) \<le> length m"
  by (induction m) auto

subsection \<open>Machines: runs of a step function and their invariants\<close>

text \<open>
  The contract between a stateful component and its clients: every operation a client may
  legally ask for keeps the component's invariant. A client (any sequence of such requests) then
  keeps it too.
\<close>

locale invariant_machine =
  fixes step :: "'s \<Rightarrow> 'e \<Rightarrow> 's"
    and legal :: "'e \<Rightarrow> bool"
    and good :: "'s \<Rightarrow> bool"
  assumes step_good: "good s \<Longrightarrow> legal e \<Longrightarrow> good (step s e)"
begin

lemma run_good: "good s \<Longrightarrow> list_all legal es \<Longrightarrow> good (foldl step s es)"
  by (induction es arbitrary: s) (auto simp: step_good)

end

text \<open>
  Concurrent components: the states reachable by actions, each of which may be impossible in a state
  (None). A client of the contract proves its invariant for the start and for one action.
\<close>

inductive reachable :: "('s \<Rightarrow> bool) \<Rightarrow> ('a \<Rightarrow> 's \<Rightarrow> 's option) \<Rightarrow> 's \<Rightarrow> bool" for init act where
  start: "init s \<Longrightarrow> reachable init act s"
| action: "reachable init act s \<Longrightarrow> act a s = Some s' \<Longrightarrow> reachable init act s'"

fun run_actions :: "('a \<Rightarrow> 's \<Rightarrow> 's option) \<Rightarrow> 'a list \<Rightarrow> 's \<Rightarrow> 's option" where
  "run_actions act [] s = Some s"
| "run_actions act (a # rest) s = (case act a s of None \<Rightarrow> None | Some s' \<Rightarrow> run_actions act rest s')"

lemma reachable_run: "reachable init act s \<Longrightarrow> run_actions act as s = Some s' \<Longrightarrow> reachable init act s'"
  by (induction as arbitrary: s) (auto split: option.splits intro: reachable.action)

locale action_system =
  fixes init :: "'s \<Rightarrow> bool"
    and act :: "'a \<Rightarrow> 's \<Rightarrow> 's option"
    and inv :: "'s \<Rightarrow> bool"
  assumes inv_init: "init s \<Longrightarrow> inv s"
    and inv_act: "inv s \<Longrightarrow> act a s = Some s' \<Longrightarrow> inv s'"
begin

lemma reachable_inv: "reachable init act s \<Longrightarrow> inv s"
  by (induction rule: reachable.induct) (auto intro: inv_init inv_act)

end

text \<open>
  The contract of a self-delimiting encoding: decoding what was encoded gives the value back and
  leaves the rest of the stream alone. Its clients get injectivity, prefix-freedom and the decoding
  of whole streams.
\<close>

fun decode_many :: "(bytes \<Rightarrow> ('a \<times> bytes) option) \<Rightarrow> nat \<Rightarrow> bytes \<Rightarrow> ('a list \<times> bytes) option" where
  "decode_many dec 0 bs = Some ([], bs)"
| "decode_many dec (Suc n) bs =
     (case dec bs of
        None \<Rightarrow> None
      | Some (x, rest) \<Rightarrow> map_option (\<lambda>(xs, r). (x # xs, r)) (decode_many dec n rest))"

locale prefix_codec =
  fixes enc :: "'a \<Rightarrow> bytes"
    and dec :: "bytes \<Rightarrow> ('a \<times> bytes) option"
    and valid :: "'a \<Rightarrow> bool"
  assumes dec_enc: "valid x \<Longrightarrow> dec (enc x @ rest) = Some (x, rest)"
begin

lemma prefix_free: "valid x \<Longrightarrow> valid y \<Longrightarrow> enc x @ r = enc y @ r' \<Longrightarrow> x = y \<and> r = r'"
  by (metis dec_enc option.inject prod.inject)

lemma enc_inj: "valid x \<Longrightarrow> valid y \<Longrightarrow> enc x = enc y \<Longrightarrow> x = y"
  using prefix_free [of x y "[]" "[]"] by auto

lemma decode_stream:
  "list_all valid xs \<Longrightarrow> decode_many dec (length xs) (concat (map enc xs) @ rest) = Some (xs, rest)"
  by (induction xs) (auto simp: dec_enc)

lemma stream_inj:
  "list_all valid xs \<Longrightarrow> list_all valid ys \<Longrightarrow> length xs = length ys \<Longrightarrow>
     concat (map enc xs) @ r = concat (map enc ys) @ r' \<Longrightarrow> xs = ys \<and> r = r'"
  by (metis decode_stream option.inject prod.inject)

end

text \<open>Cutting a byte string into pieces of at most \<open>n\<close> bytes.\<close>

function chunks :: "nat \<Rightarrow> 'a list \<Rightarrow> 'a list list" where
  "chunks n xs = (if n = 0 \<or> xs = [] then [] else take n xs # chunks n (drop n xs))"
  by pat_completeness auto
termination by (relation "measure (\<lambda>(n, xs). length xs)") auto

declare chunks.simps [simp del]

lemma chunks_Nil [simp]: "chunks n [] = []"
  by (simp add: chunks.simps)

lemma chunks_step: "0 < n \<Longrightarrow> xs \<noteq> [] \<Longrightarrow> chunks n xs = take n xs # chunks n (drop n xs)"
  by (subst chunks.simps) simp

lemma concat_chunks: "0 < n \<Longrightarrow> concat (chunks n xs) = xs"
proof (induction "length xs" arbitrary: xs rule: less_induct)
  case less
  then show ?case by (cases "xs = []") (simp_all add: chunks_step)
qed

lemma length_chunks: "0 < n \<Longrightarrow> length (chunks n xs) = (length xs + n - 1) div n"
proof (induction "length xs" arbitrary: xs rule: less_induct)
  case less
  show ?case
  proof (cases "xs = []")
    case False
    then have "length (chunks n xs) = Suc ((length (drop n xs) + n - 1) div n)"
      using less by (simp add: chunks_step)
    also have "\<dots> = (length xs + n - 1) div n"
    proof (cases "length xs \<le> n")
      case True
      moreover obtain k where "length xs = Suc k" using False by (cases xs) auto
      ultimately have "(length xs + n - 1) div n = 1" using less.prems by (simp add: div_add_self2)
      then show ?thesis using True less.prems by simp
    next
      case gt: False
      then have "length xs + n - 1 = (length xs - n + n - 1) + n" using less.prems by simp
      then show ?thesis using gt less.prems by (metis add.commute div_add_self1 length_drop neq0_conv plus_1_eq_Suc)
    qed
    finally show ?thesis .
  qed (use less.prems in simp)
qed

lemma chunks_bound: "0 < n \<Longrightarrow> c \<in> set (chunks n xs) \<Longrightarrow> c \<noteq> [] \<and> length c \<le> n"
proof (induction "length xs" arbitrary: xs rule: less_induct)
  case less
  show ?case
  proof (cases "xs = []")
    case False
    with less.prems consider "c = take n xs" | "c \<in> set (chunks n (drop n xs))" by (auto simp: chunks_step)
    then show ?thesis
    proof cases
      case 1
      with False less.prems show ?thesis by simp
    next
      case 2
      with False less.prems less.hyps [of "drop n xs"] show ?thesis by simp
    qed
  qed (use less.prems in simp)
qed

lemma chunks_nth: "0 < n \<Longrightarrow> i < length (chunks n xs) \<Longrightarrow> chunks n xs ! i = take n (drop (i * n) xs)"
proof (induction i arbitrary: xs)
  case 0
  then show ?case by (cases "xs = []") (auto simp: chunks_step)
next
  case (Suc i)
  then show ?case by (cases "xs = []") (auto simp: chunks_step add.commute)
qed

end
