(* ===== verification/Any_Value.thy ===== *)
theory Any_Value
  imports Complex_Main Go_Prelude
begin

text \<open>
  Decoded JSON values (Go's \<open>any\<close>) and the argument helpers of \<open>internal/agentutil\<close>.
  A JSON number is a rational; objects are association lists with distinct keys. The
  parameter \<open>sprint\<close> is \<open>fmt.Sprint\<close>, used only on values that are neither nil nor strings.
\<close>

datatype any = NilV | BoolV bool | NumV rat | StrV string | ArrV "any list" | ObjV "(string \<times> any) list"

type_synonym obj = "(string, any) gomap"

text \<open>Reading a Go map: a missing key is the nil interface.\<close>

definition obj_get :: "obj \<Rightarrow> string \<Rightarrow> any" where
  "obj_get m k = (case map_of m k of None \<Rightarrow> NilV | Some v \<Rightarrow> v)"

definition as_obj :: "any \<Rightarrow> obj option" where
  "as_obj v = (case v of ObjV m \<Rightarrow> Some m | _ \<Rightarrow> None)"

definition as_arr :: "any \<Rightarrow> any list option" where
  "as_arr v = (case v of ArrV xs \<Rightarrow> Some xs | _ \<Rightarrow> None)"

definition as_str :: "any \<Rightarrow> string option" where
  "as_str v = (case v of StrV s \<Rightarrow> Some s | _ \<Rightarrow> None)"

definition as_num :: "any \<Rightarrow> rat option" where
  "as_num v = (case v of NumV r \<Rightarrow> Some r | _ \<Rightarrow> None)"

definition ObjectArg :: "any list \<Rightarrow> nat \<Rightarrow> obj" where
  "ObjectArg args index =
     (if index < length args then (case as_obj (args ! index) of Some m \<Rightarrow> m | None \<Rightarrow> []) else [])"

definition SliceArg :: "any list \<Rightarrow> nat \<Rightarrow> any list" where
  "SliceArg args index =
     (if index < length args then (case as_arr (args ! index) of Some xs \<Rightarrow> xs | None \<Rightarrow> []) else [])"

definition trunc_rat :: "rat \<Rightarrow> int" where
  "trunc_rat r = (if 0 \<le> r then floor r else ceiling r)"

definition NumberArg :: "any list \<Rightarrow> nat \<Rightarrow> int \<Rightarrow> int \<Rightarrow> int" where
  "NumberArg args index fallback maximum =
     (if length args \<le> index then fallback
      else (case as_num (args ! index) of
        None \<Rightarrow> fallback
      | Some value \<Rightarrow>
          if value < 0 then fallback
          else if value > of_int maximum then maximum
          else trunc_rat value))"

definition StringArg :: "any list \<Rightarrow> nat \<Rightarrow> string" where
  "StringArg args index =
     (if length args \<le> index then [] else (case as_str (args ! index) of Some s \<Rightarrow> s | None \<Rightarrow> []))"

definition BoolArg :: "any list \<Rightarrow> nat \<Rightarrow> bool" where
  "BoolArg args index =
     (if length args \<le> index then False else (case args ! index of BoolV b \<Rightarrow> b | _ \<Rightarrow> False))"

definition StringValue :: "(any \<Rightarrow> string) \<Rightarrow> any \<Rightarrow> string" where
  "StringValue sprint value =
     (case value of NilV \<Rightarrow> [] | StrV s \<Rightarrow> s | _ \<Rightarrow> sprint value)"

definition safe_char :: "char \<Rightarrow> bool" where
  "safe_char r \<longleftrightarrow> r = CHR ''-'' \<or> r = CHR ''_'' \<or> r = CHR ''.'' \<or> is_digit r \<or> is_upper r \<or> is_lower r"

definition SafeName :: "string \<Rightarrow> string" where
  "SafeName value = map (\<lambda>r. if safe_char r then r else CHR ''_'') value"

lemma safe_char_underscore [simp]: "safe_char (CHR ''_'')"
  by (simp add: safe_char_def)

lemma SafeName_fixed: "SafeName s = s \<longleftrightarrow> list_all safe_char s"
  by (induction s) (auto simp: SafeName_def)

lemma SafeName_safe: "list_all safe_char (SafeName s)"
  by (induction s) (auto simp: SafeName_def)

lemma NumberArg_bounds:
  "0 \<le> fallback \<Longrightarrow> fallback \<le> maximum \<Longrightarrow>
   0 \<le> NumberArg args i fallback maximum \<and> NumberArg args i fallback maximum \<le> maximum"
  by (auto simp: NumberArg_def trunc_rat_def split: option.splits) linarith+

text \<open>\<open>integer64\<close> (\<open>shellagent/bridges.go\<close>) on a decoded number: Go converts by truncation, and the
  language leaves the result open when it does not fit \<open>int64\<close> (the parameter \<open>ovf\<close>).\<close>

definition integer64 :: "(rat \<Rightarrow> int) \<Rightarrow> any \<Rightarrow> int" where
  "integer64 ovf value =
     (case value of
        NumV r \<Rightarrow> (let t = trunc_rat r in if -(2 ^ 63) \<le> t \<and> t < 2 ^ 63 then t else ovf r)
      | _ \<Rightarrow> 0)"

text \<open>\<open>stringList\<close> (\<open>shellagent/app_resolution.go\<close>): the string members of a list.\<close>

definition stringList :: "any \<Rightarrow> string list" where
  "stringList value = (case value of ArrV xs \<Rightarrow> List.map_filter as_str xs | _ \<Rightarrow> [])"

end
