(* ===== verification/Cap_Sets.thy ===== *)
theory Cap_Sets
  imports Any_Value
begin

text \<open>
  Permission sets as the agent keeps them: sorted string slices without duplicates
  (\<open>shellagent/catalog/permission_catalog.go\<close>, \<open>shellagent/browser_identity.go\<close>,
  \<open>shellagent/agent.go\<close>, \<open>shellagent/app_resolution.go\<close>). A nil slice and an empty slice are
  the same list here; the two places where the code tells them apart carry an option.
\<close>

fun dedup_keep :: "(string \<Rightarrow> string) \<Rightarrow> (string \<Rightarrow> bool) \<Rightarrow> string list \<Rightarrow> string list \<Rightarrow> string list" where
  "dedup_keep f skip seen [] = []"
| "dedup_keep f skip seen (p # ps) =
     (let q = f p in
      if skip q \<or> q \<in> set seen then dedup_keep f skip seen ps
      else q # dedup_keep f skip (q # seen) ps)"

lemma set_dedup_keep: "set (dedup_keep f skip seen ps) = {q \<in> f ` set ps. \<not> skip q} - set seen"
  by (induction ps arbitrary: seen) (auto simp: Let_def)

lemma distinct_dedup_keep: "distinct (dedup_keep f skip seen ps)"
  by (induction ps arbitrary: seen) (auto simp: Let_def set_dedup_keep)

definition normalizePermissionSet :: "string list \<Rightarrow> string list" where
  "normalizePermissionSet permissions = sort (dedup_keep trim_space (\<lambda>q. q = []) [] permissions)"

definition unionStrings :: "string list \<Rightarrow> string list \<Rightarrow> string list" where
  "unionStrings left right = sort (dedup_keep id (\<lambda>q. q = []) [] (left @ right))"

definition subtractStrings :: "string list \<Rightarrow> string list \<Rightarrow> string list" where
  "subtractStrings vals remove = sort (filter (\<lambda>v. v \<notin> set remove) vals)"

definition intersectStrings :: "string list \<Rightarrow> string list \<Rightarrow> string list" where
  "intersectStrings left right = filter (\<lambda>v. v \<in> set right) left"

definition sameCapabilitySet :: "string list \<Rightarrow> string list \<Rightarrow> bool" where
  "sameCapabilitySet left right \<longleftrightarrow>
     (let normalize = (\<lambda>vals. sort (dedup_keep id (\<lambda>_. False) [] vals)) in normalize left = normalize right)"

text \<open>\<open>normalizePermissionList\<close>: the manifest's declared permissions, given as strings or as
  objects with a \<open>permission\<close> field; over-long ids and ids with blanks, quotes or backslashes
  are dropped.\<close>

definition permission_entry :: "(any \<Rightarrow> string) \<Rightarrow> any \<Rightarrow> string" where
  "permission_entry sprint value =
     (case value of
        StrV s \<Rightarrow> s
      | ObjV m \<Rightarrow> StringValue sprint (obj_get m ''permission'')
      | _ \<Rightarrow> [])"

definition bad_permission_id :: "string \<Rightarrow> bool" where
  "bad_permission_id i \<longleftrightarrow>
     i = [] \<or> length i > 80 \<or> contains_any i [CHR '' '', CHR 0x09, CHR 0x0A, CHR 0x22, CHR 0x27, CHR 0x5C]"

definition normalizePermissionList :: "(any \<Rightarrow> string) \<Rightarrow> any list \<Rightarrow> string list" where
  "normalizePermissionList sprint vals =
     sort (dedup_keep trim_space bad_permission_id [] (map (permission_entry sprint) vals))"

text \<open>\<open>storeSlug\<close> and \<open>appIDMatches\<close>.\<close>

definition storeSlug :: "string \<Rightarrow> string" where
  "storeSlug storeID = (if CHR ''/'' \<in> set storeID then after_last (CHR ''/'') storeID else storeID)"

definition appIDMatches :: "string \<Rightarrow> string \<Rightarrow> bool" where
  "appIDMatches boundStoreID frameAppID \<longleftrightarrow>
     (if frameAppID = [] then True
      else if boundStoreID = [] then False
      else frameAppID = boundStoreID \<or> equal_fold frameAppID (storeSlug boundStoreID))"

subsection \<open>The normal form\<close>

text \<open>
  What every caller relies on: the result is strictly sorted and is determined by the set of
  names it stands for. The contract is stated once and met by the three normalisers.
\<close>

locale set_normaliser =
  fixes norm :: "string list \<Rightarrow> string list"
    and meaning :: "string list \<Rightarrow> string set"
  assumes norm_set: "set (norm xs) = meaning xs"
    and norm_sorted: "sorted (norm xs)"
    and norm_distinct: "distinct (norm xs)"
begin

lemma norm_eq_iff: "norm xs = norm ys \<longleftrightarrow> meaning xs = meaning ys"
proof
  assume "meaning xs = meaning ys"
  then have "set (norm xs) = set (norm ys)" by (simp add: norm_set)
  then show "norm xs = norm ys"
    by (intro sorted_distinct_set_unique norm_sorted norm_distinct)
qed (metis norm_set)

lemma norm_canonical: "norm xs = sorted_list_of_set (meaning xs)"
  by (metis norm_distinct norm_set norm_sorted sorted_list_of_set.idem_if_sorted_distinct)

lemma norm_length: "length (norm xs) = card (meaning xs)"
  by (metis distinct_card norm_distinct norm_set)

end

locale idempotent_normaliser = set_normaliser +
  assumes meaning_norm: "meaning (norm xs) = meaning xs"
begin

lemma norm_idem: "norm (norm xs) = norm xs"
  by (simp add: norm_eq_iff meaning_norm)

end

interpretation permission_set: idempotent_normaliser normalizePermissionSet "\<lambda>ps. trim_space ` set ps - {[]}"
  by (unfold_locales, auto simp: normalizePermissionSet_def set_dedup_keep distinct_dedup_keep image_iff)
    (metis trim_space_idem)

interpretation string_set: idempotent_normaliser "unionStrings []" "\<lambda>ps. set ps - {[]}"
  by unfold_locales (auto simp: unionStrings_def set_dedup_keep distinct_dedup_keep)

interpretation union_left: set_normaliser "\<lambda>xs. unionStrings xs r" "\<lambda>ps. (set ps \<union> set r) - {[]}" for r
  by unfold_locales (auto simp: unionStrings_def set_dedup_keep distinct_dedup_keep)

interpretation capability_set: set_normaliser "\<lambda>vals. sort (dedup_keep id (\<lambda>_. False) [] vals)" set
  by unfold_locales (auto simp: set_dedup_keep distinct_dedup_keep)

lemma set_normalizePermissionSet [simp]: "set (normalizePermissionSet ps) = trim_space ` set ps - {[]}"
  by (rule permission_set.norm_set)

lemma set_unionStrings [simp]: "set (unionStrings l r) = (set l \<union> set r) - {[]}"
  by (rule union_left.norm_set)

lemma set_subtractStrings [simp]: "set (subtractStrings v r) = set v - set r"
  by (auto simp: subtractStrings_def)

lemma set_intersectStrings [simp]: "set (intersectStrings l r) = set l \<inter> set r"
  by (auto simp: intersectStrings_def)

lemma sameCapabilitySet_iff: "sameCapabilitySet l r \<longleftrightarrow> set l = set r"
  by (simp add: sameCapabilitySet_def capability_set.norm_eq_iff)

lemma normalizePermissionSet_mem_trimmed:
  "p \<in> set (normalizePermissionSet ps) \<Longrightarrow> trim_space p = p \<and> p \<noteq> []"
  by auto

lemma set_normalizePermissionList:
  "set (normalizePermissionList sprint vals) =
     {q \<in> (\<lambda>v. trim_space (permission_entry sprint v)) ` set vals. \<not> bad_permission_id q}"
  by (auto simp: normalizePermissionList_def set_dedup_keep)

lemma normalizePermissionList_trimmed:
  "p \<in> set (normalizePermissionList sprint vals) \<Longrightarrow> trim_space p = p \<and> p \<noteq> []"
  by (auto simp: set_normalizePermissionList bad_permission_id_def)

end
