(* ===== verification/Go_Url.thy ===== *)
theory Go_Url
  imports Go_Prelude
begin

text \<open>
  The parts of Go's \<open>net/url\<close> and \<open>net\<close> packages the agent decides with: \<open>url.Parse\<close>,
  \<open>PathUnescape\<close>, \<open>Hostname\<close>, \<open>SplitHostPort\<close>, \<open>ParseIP\<close> and the address classes. These
  are the standard library's rules (Go 1.25), not code of the repository. Errors carry no text
  here: the callers only test for them.
\<close>

subsection \<open>Percent escapes\<close>

datatype url_mode = PathMode | HostMode | ZoneMode | UserMode | FragmentMode

definition is_alnum :: "char \<Rightarrow> bool" where
  "is_alnum c \<longleftrightarrow> is_digit c \<or> is_upper c \<or> is_lower c"

definition hex_value :: "char \<Rightarrow> nat option" where
  "hex_value c =
     (if is_digit c then Some (of_char c - 48)
      else if CHR ''a'' \<le> c \<and> c \<le> CHR ''f'' then Some (of_char c - 87)
      else if CHR ''A'' \<le> c \<and> c \<le> CHR ''F'' then Some (of_char c - 55)
      else None)"

definition host_escapes :: "char \<Rightarrow> bool" where
  "host_escapes c \<longleftrightarrow> \<not> (is_alnum c \<or> c \<in> set ''!$&()*+,;=:[]<>-_.~'' \<or> c = CHR 0x27 \<or> c = CHR 0x22)"

definition bad_escape :: "url_mode \<Rightarrow> char \<Rightarrow> char \<Rightarrow> nat \<Rightarrow> nat \<Rightarrow> bool" where
  "bad_escape mode a b x y \<longleftrightarrow>
     (mode = HostMode \<and> x < 8 \<and> \<not> (a = CHR ''2'' \<and> b = CHR ''5''))
     \<or> (mode = ZoneMode \<and> \<not> (a = CHR ''2'' \<and> b = CHR ''5'') \<and> x * 16 + y \<noteq> 32
        \<and> host_escapes (char_of (x * 16 + y)))"

fun unescape :: "url_mode \<Rightarrow> string \<Rightarrow> string option" where
  "unescape mode [] = Some []"
| "unescape mode (c # cs) =
     (if c = CHR ''%'' then
        (case cs of
           a # b # rest \<Rightarrow>
             (case (hex_value a, hex_value b) of
                (Some x, Some y) \<Rightarrow>
                  if bad_escape mode a b x y then None
                  else map_option (\<lambda>r. char_of (x * 16 + y) # r) (unescape mode rest)
              | _ \<Rightarrow> None)
         | _ \<Rightarrow> None)
      else if (mode = HostMode \<or> mode = ZoneMode) \<and> of_char c < (128 :: nat) \<and> host_escapes c then None
      else map_option (\<lambda>r. c # r) (unescape mode cs))"

subsection \<open>Parsing a URL\<close>

record url =
  u_Scheme :: string
  u_Opaque :: string
  u_HasUser :: bool
  u_Host :: string
  u_Path :: string
  u_RawQuery :: string
  u_Fragment :: string

definition empty_url :: url where
  "empty_url = \<lparr>u_Scheme = [], u_Opaque = [], u_HasUser = False, u_Host = [], u_Path = [], u_RawQuery = [], u_Fragment = []\<rparr>"

text \<open>\<open>getScheme\<close>: the letters before the first colon; None is the missing-scheme error.\<close>

fun get_scheme :: "string \<Rightarrow> string \<Rightarrow> string \<Rightarrow> (string \<times> string) option" where
  "get_scheme raw acc [] = Some ([], raw)"
| "get_scheme raw acc (c # cs) =
     (if is_upper c \<or> is_lower c then get_scheme raw (c # acc) cs
      else if is_digit c \<or> c \<in> set ''+-.'' then
        (if acc = [] then Some ([], raw) else get_scheme raw (c # acc) cs)
      else if c = CHR '':'' then (if acc = [] then None else Some (rev acc, cs))
      else Some ([], raw))"

definition valid_optional_port :: "string \<Rightarrow> bool" where
  "valid_optional_port p \<longleftrightarrow> (case p of [] \<Rightarrow> True | c # ds \<Rightarrow> c = CHR '':'' \<and> list_all is_digit ds)"

definition before_last :: "char \<Rightarrow> string \<Rightarrow> string" where
  "before_last c s = rev (drop 1 (dropWhile (\<lambda>x. x \<noteq> c) (rev s)))"

fun cut_sub :: "string \<Rightarrow> string \<Rightarrow> string \<Rightarrow> (string \<times> string) option" where
  "cut_sub p acc s =
     (if has_prefix s p then Some (rev acc, s)
      else (case s of [] \<Rightarrow> None | x # xs \<Rightarrow> cut_sub p (x # acc) xs))"

definition parse_host :: "string \<Rightarrow> string option" where
  "parse_host host =
     (if has_prefix host ''['' then
        (if CHR '']'' \<notin> set host then None
         else if \<not> valid_optional_port (after_last (CHR '']'') host) then None
         else
           (let inner = before_last (CHR '']'') host; tail = CHR '']'' # after_last (CHR '']'') host in
            case cut_sub ''%25'' [] inner of
              Some (h, z) \<Rightarrow>
                (case (unescape HostMode h, unescape ZoneMode z, unescape HostMode tail) of
                   (Some a, Some b, Some c) \<Rightarrow> Some (a @ b @ c) | _ \<Rightarrow> None)
            | None \<Rightarrow> unescape HostMode host))
      else if CHR '':'' \<in> set host \<and> \<not> valid_optional_port (CHR '':'' # after_last (CHR '':'') host) then None
      else unescape HostMode host)"

definition valid_userinfo :: "string \<Rightarrow> bool" where
  "valid_userinfo s \<longleftrightarrow>
     list_all (\<lambda>c. is_alnum c \<or> c \<in> set ''-._:~!$&()*+,;=%@'' \<or> c = CHR 0x27) s"

definition parse_authority :: "string \<Rightarrow> (bool \<times> string) option" where
  "parse_authority authority =
     (if CHR ''@'' \<notin> set authority then map_option (\<lambda>h. (False, h)) (parse_host authority)
      else (case parse_host (after_last (CHR ''@'') authority) of
              None \<Rightarrow> None
            | Some h \<Rightarrow>
                (let userinfo = before_last (CHR ''@'') authority in
                 if \<not> valid_userinfo userinfo then None
                 else (let (name, password, _) = cut_on (CHR '':'') userinfo in
                       case (unescape UserMode name, unescape UserMode password) of
                         (Some _, Some _) \<Rightarrow> Some (True, h) | _ \<Rightarrow> None))))"

definition has_ctl_byte :: "string \<Rightarrow> bool" where
  "has_ctl_byte s \<longleftrightarrow> (\<exists>c \<in> set s. of_char c < (32 :: nat) \<or> c = CHR 0x7F)"

definition cut_query :: "string \<Rightarrow> string \<times> string" where
  "cut_query rest = (let (r, q, _) = cut_on (CHR ''?'') rest in (r, q))"

definition parse_hierarchical :: "string \<Rightarrow> string \<Rightarrow> string \<Rightarrow> url option" where
  "parse_hierarchical scheme query rest =
     (if \<not> has_prefix rest ''/'' \<and> scheme \<noteq> [] then
        Some (empty_url\<lparr>u_Scheme := scheme, u_Opaque := rest, u_RawQuery := query\<rparr>)
      else if \<not> has_prefix rest ''/'' \<and> CHR '':'' \<in> set (fst (cut_on (CHR ''/'') rest)) then None
      else if (scheme \<noteq> [] \<or> \<not> has_prefix rest ''///'') \<and> has_prefix rest ''//'' then
        (let authority = takeWhile (\<lambda>c. c \<noteq> CHR ''/'') (drop 2 rest);
             path = dropWhile (\<lambda>c. c \<noteq> CHR ''/'') (drop 2 rest)
         in case parse_authority authority of
              None \<Rightarrow> None
            | Some (user, host) \<Rightarrow>
                map_option (\<lambda>p. empty_url\<lparr>u_Scheme := scheme, u_HasUser := user, u_Host := host,
                                          u_Path := p, u_RawQuery := query\<rparr>)
                  (unescape PathMode path))
      else map_option (\<lambda>p. empty_url\<lparr>u_Scheme := scheme, u_Path := p, u_RawQuery := query\<rparr>)
             (unescape PathMode rest))"

definition parse_no_fragment :: "string \<Rightarrow> url option" where
  "parse_no_fragment raw =
     (if has_ctl_byte raw then None
      else if raw = ''*'' then Some (empty_url\<lparr>u_Path := ''*''\<rparr>)
      else (case get_scheme raw [] raw of
              None \<Rightarrow> None
            | Some (scheme, rest0) \<Rightarrow>
                (let (rest, query) = cut_query rest0 in
                 parse_hierarchical (to_lower scheme) query rest)))"

definition url_parse :: "string \<Rightarrow> url option" where
  "url_parse raw =
     (let (u, frag, _) = cut_on (CHR ''#'') raw in
      case parse_no_fragment u of
        None \<Rightarrow> None
      | Some p \<Rightarrow>
          if frag = [] then Some p
          else map_option (\<lambda>f. p\<lparr>u_Fragment := f\<rparr>) (unescape FragmentMode frag))"

definition path_unescape :: "string \<Rightarrow> string option" where
  "path_unescape s = unescape PathMode s"

text \<open>\<open>URL.Hostname\<close>: the host without a valid port and without brackets.\<close>

definition strip_port :: "string \<Rightarrow> string" where
  "strip_port h =
     (if CHR '':'' \<in> set h \<and> valid_optional_port (CHR '':'' # after_last (CHR '':'') h)
      then before_last (CHR '':'') h else h)"

definition url_hostname :: "url \<Rightarrow> string" where
  "url_hostname u =
     (let h = strip_port (u_Host u) in
      if has_prefix h ''['' \<and> has_suffix h '']'' then butlast (drop 1 h) else h)"

definition url_port :: "url \<Rightarrow> string" where
  "url_port u =
     (let h = u_Host u in
      if CHR '':'' \<in> set h \<and> valid_optional_port (CHR '':'' # after_last (CHR '':'') h)
      then after_last (CHR '':'') h else [])"

subsection \<open>SplitHostPort and addresses\<close>

definition split_host_port :: "string \<Rightarrow> (string \<times> string) option" where
  "split_host_port hp =
     (if CHR '':'' \<notin> set hp then None
      else if has_prefix hp ''['' then
        (if CHR '']'' \<notin> set hp then None
         else
           (let host = takeWhile (\<lambda>c. c \<noteq> CHR '']'') (drop 1 hp);
                rest = drop 1 (dropWhile (\<lambda>c. c \<noteq> CHR '']'') hp)
            in if \<not> has_prefix rest '':'' \<or> CHR '':'' \<in> set (drop 1 rest) then None
               else if CHR ''['' \<in> set (drop 1 hp) \<or> CHR '']'' \<in> set rest then None
               else Some (host, drop 1 rest)))
      else
        (let host = before_last (CHR '':'') hp in
         if CHR '':'' \<in> set host \<or> CHR ''['' \<in> set hp \<or> CHR '']'' \<in> set hp then None
         else Some (host, after_last (CHR '':'') hp)))"

fun dec_value :: "nat \<Rightarrow> string \<Rightarrow> nat" where
  "dec_value acc [] = acc"
| "dec_value acc (c # cs) = dec_value (acc * 10 + (of_char c - 48)) cs"

definition parse_octet :: "string \<Rightarrow> nat option" where
  "parse_octet s =
     (if s = [] \<or> \<not> list_all is_digit s \<or> (length s > 1 \<and> hd s = CHR ''0'') \<or> dec_value 0 s > 255 then None
      else Some (dec_value 0 s))"

definition parse_ipv4 :: "string \<Rightarrow> nat list option" where
  "parse_ipv4 s =
     (case map parse_octet (split_on (CHR ''.'') s) of
        [Some a, Some b, Some c, Some d] \<Rightarrow> Some [a, b, c, d]
      | _ \<Rightarrow> None)"

definition hex_run :: "string \<Rightarrow> string" where
  "hex_run s = takeWhile (\<lambda>c. hex_value c \<noteq> None) s"

definition hex_field :: "string \<Rightarrow> nat" where
  "hex_field s = foldl (\<lambda>acc c. acc * 16 + (case hex_value c of Some v \<Rightarrow> v | None \<Rightarrow> 0)) 0 s"

text \<open>
  The field loop of \<open>parseIPv6\<close>: \<open>k\<close> bounds the remaining two-byte fields, \<open>out\<close> holds the
  bytes so far and \<open>ell\<close> the position of the double colon.
\<close>

fun ipv6_fields :: "nat \<Rightarrow> string \<Rightarrow> nat list \<Rightarrow> nat option \<Rightarrow> (nat list \<times> nat option \<times> string) option" where
  "ipv6_fields 0 s out ell = Some (out, ell, s)"
| "ipv6_fields (Suc k) s out ell =
     (let run = hex_run s; rest = drop (length run) s in
      if run = [] \<or> length run > 4 then None
      else if has_prefix rest ''.'' then
        (if ell = None \<and> length out \<noteq> 12 then None
         else if length out + 4 > 16 then None
         else map_option (\<lambda>q. (out @ q, ell, [])) (parse_ipv4 s))
      else
        (let out' = out @ [hex_field run div 256, hex_field run mod 256] in
         case rest of
           [] \<Rightarrow> Some (out', ell, [])
         | c # rest1 \<Rightarrow>
             if c \<noteq> CHR '':'' \<or> rest1 = [] then None
             else if has_prefix rest1 '':'' then
               (if ell \<noteq> None then None
                else if drop 1 rest1 = [] then Some (out', Some (length out'), [])
                else ipv6_fields k (drop 1 rest1) out' (Some (length out')))
             else ipv6_fields k rest1 out' ell))"

definition expand_ellipsis :: "nat list \<Rightarrow> nat option \<Rightarrow> nat list option" where
  "expand_ellipsis out ell =
     (if length out < 16 then
        (case ell of None \<Rightarrow> None
         | Some e \<Rightarrow> Some (take e out @ replicate (16 - length out) 0 @ drop e out))
      else if ell \<noteq> None then None else Some out)"

definition parse_ipv6 :: "string \<Rightarrow> nat list option" where
  "parse_ipv6 s =
     (if CHR ''%'' \<in> set s then None
      else if s = ''::'' then Some (replicate 16 0)
      else (let (body, ell) = (if has_prefix s ''::'' then (drop 2 s, Some 0) else (s, None)) in
            case ipv6_fields 8 body [] ell of
              None \<Rightarrow> None
            | Some (out, ell', rest) \<Rightarrow> if rest \<noteq> [] then None else expand_ellipsis out ell'))"

text \<open>\<open>net.ParseIP\<close>: the sixteen-byte form, IPv4 mapped. The first of dot, colon or percent
  decides which form is parsed.\<close>

definition map_v4 :: "nat list \<Rightarrow> nat list" where
  "map_v4 q = replicate 10 0 @ [255, 255] @ q"

definition parse_ip :: "string \<Rightarrow> nat list option" where
  "parse_ip s =
     (case dropWhile (\<lambda>c. c \<notin> set ''.:%'') s of
        [] \<Rightarrow> None
      | c # _ \<Rightarrow>
          if c = CHR ''.'' then map_option map_v4 (parse_ipv4 s)
          else if c = CHR '':'' then parse_ipv6 s else None)"

definition to4 :: "nat list \<Rightarrow> nat list option" where
  "to4 ip = (if take 12 ip = replicate 10 0 @ [255, 255] then Some (drop 12 ip) else None)"

definition ip_is_loopback :: "nat list \<Rightarrow> bool" where
  "ip_is_loopback ip =
     (case to4 ip of Some q \<Rightarrow> q ! 0 = 127 | None \<Rightarrow> ip = replicate 15 0 @ [1])"

definition ip_is_private :: "nat list \<Rightarrow> bool" where
  "ip_is_private ip =
     (case to4 ip of
        Some q \<Rightarrow> q ! 0 = 10 \<or> (q ! 0 = 172 \<and> q ! 1 div 16 = 1) \<or> (q ! 0 = 192 \<and> q ! 1 = 168)
      | None \<Rightarrow> ip ! 0 div 2 = 126)"

definition ip_is_link_local :: "nat list \<Rightarrow> bool" where
  "ip_is_link_local ip =
     (case to4 ip of
        Some q \<Rightarrow> q ! 0 = 169 \<and> q ! 1 = 254
      | None \<Rightarrow> ip ! 0 = 254 \<and> ip ! 1 div 64 = 2)"

text \<open>Every address the parser returns has sixteen bytes, so the class tests never read past the end.\<close>

lemma parse_ipv4_length: "parse_ipv4 s = Some q \<Longrightarrow> length q = 4"
  by (auto simp: parse_ipv4_def split: list.splits option.splits)

lemma ipv6_fields_length:
  "ipv6_fields k s out ell = Some (out', ell', rest) \<Longrightarrow> length out + 2 * k = 16 \<Longrightarrow>
   length out' \<le> 16"
  by (induction k s out ell rule: ipv6_fields.induct)
    (auto simp: Let_def dest: parse_ipv4_length split: if_splits list.splits)

lemma expand_ellipsis_length:
  "expand_ellipsis out ell = Some ip \<Longrightarrow> length out \<le> 16 \<Longrightarrow> length ip = 16"
  by (auto simp: expand_ellipsis_def split: if_splits option.splits)

lemma parse_ip_length: "parse_ip s = Some ip \<Longrightarrow> length ip = 16"
proof -
  have v6: "parse_ipv6 s = Some ip \<Longrightarrow> length ip = 16"
    by (auto simp: parse_ipv6_def split: if_splits option.splits prod.splits
        dest!: ipv6_fields_length expand_ellipsis_length)
  show "parse_ip s = Some ip \<Longrightarrow> length ip = 16"
    by (auto simp: parse_ip_def map_v4_def v6 dest: parse_ipv4_length split: list.splits if_splits)
qed

end
