(* ===== verification/Connect.thy ===== *)
theory Connect
  imports Cap_Sets Go_Url
begin

text \<open>
  The HTTP connect allowlist (\<open>shellagent/connect/http_connect.go\<close>): parsing an app's declared
  patterns, and the test an outgoing URL has to pass.
\<close>

definition pattern_error :: string where
  "pattern_error = ''HTTP connect pattern is invalid''"

definition undeclared_error :: string where
  "undeclared_error = ''HTTP destination is not in the app's declared connect list''"

definition decoded_path :: "url \<Rightarrow> string option" where
  "decoded_path parsed =
     map_option (\<lambda>d. if has_prefix d ''/'' then d else CHR ''/'' # d)
       (path_unescape (if u_Path parsed = [] then ''/'' else u_Path parsed))"

definition has_dotdot :: "string \<Rightarrow> bool" where
  "has_dotdot decoded \<longleftrightarrow> ''..'' \<in> set (split_on (CHR ''/'') decoded)"

definition url_origin :: "url \<Rightarrow> string" where
  "url_origin u = u_Scheme u @ ''://'' @ u_Host u"

definition parseHTTPConnectPattern :: "string \<Rightarrow> string \<Rightarrow> string + string" where
  "parseHTTPConnectPattern val expectedScheme =
     (case url_parse (trim_space val) of
        None \<Rightarrow> Inl pattern_error
      | Some parsed \<Rightarrow>
          if u_Scheme parsed @ '':'' \<noteq> expectedScheme \<or> u_Host parsed = [] \<or> u_HasUser parsed
             \<or> u_RawQuery parsed \<noteq> [] \<or> u_Fragment parsed \<noteq> [] then Inl pattern_error
          else if CHR ''*'' \<in> set (url_hostname parsed) then Inl pattern_error
          else (case decoded_path parsed of
                  None \<Rightarrow> Inl pattern_error
                | Some decoded \<Rightarrow>
                    if contains_any decoded ''?*'' then Inl pattern_error
                    else if has_dotdot decoded then Inl pattern_error
                    else Inr (u_Scheme parsed @ ''://'' @ u_Host parsed @ decoded)))"

text \<open>\<open>httpConnectEntries\<close>: a JSON list's members, non-strings read as empty strings.\<close>

definition httpConnectEntries :: "any \<Rightarrow> string list" where
  "httpConnectEntries v =
     (case v of ArrV xs \<Rightarrow> map (\<lambda>e. case as_str e of Some s \<Rightarrow> s | None \<Rightarrow> []) xs | _ \<Rightarrow> [])"

fun pattern_loop :: "string \<Rightarrow> string list \<Rightarrow> string list \<Rightarrow> string + string list" where
  "pattern_loop scheme seen [] = Inr []"
| "pattern_loop scheme seen (text # rest) =
     (case parseHTTPConnectPattern text (scheme @ '':'') of
        Inl e \<Rightarrow> Inl e
      | Inr pat \<Rightarrow>
          if pat \<in> set seen then pattern_loop scheme seen rest
          else (case pattern_loop scheme (pat # seen) rest of
                  Inl e \<Rightarrow> Inl e | Inr ps \<Rightarrow> Inr (pat # ps)))"

definition httpConnectPatterns :: "string list \<Rightarrow> string \<Rightarrow> string + string list" where
  "httpConnectPatterns lst scheme =
     (if lst = [] then Inl undeclared_error
      else (case pattern_loop scheme [] lst of Inl e \<Rightarrow> Inl e | Inr ps \<Rightarrow> Inr (sort ps)))"

text \<open>The test of one pattern inside \<open>urlAllowedByHTTPConnect\<close>.\<close>

definition path_matches :: "string \<Rightarrow> string \<Rightarrow> bool" where
  "path_matches decoded pfx \<longleftrightarrow>
     (if pfx = ''/'' \<or> decoded = pfx then True
      else if has_suffix pfx ''/'' \<and> decoded = trim_suffix pfx ''/'' then True
      else has_prefix decoded (if has_suffix pfx ''/'' then pfx else pfx @ ''/''))"

definition pattern_allows :: "string \<Rightarrow> string \<Rightarrow> string \<Rightarrow> bool" where
  "pattern_allows origin decoded pat \<longleftrightarrow>
     (case url_parse pat of
        None \<Rightarrow> False
      | Some allowed \<Rightarrow>
          url_origin allowed = origin \<and>
          path_matches decoded (if u_Path allowed = [] then ''/'' else u_Path allowed))"

definition urlAllowedByHTTPConnect :: "string \<Rightarrow> string list \<Rightarrow> bool" where
  "urlAllowedByHTTPConnect raw patterns \<longleftrightarrow>
     (case url_parse raw of
        None \<Rightarrow> False
      | Some parsed \<Rightarrow>
          if u_HasUser parsed then False
          else (case decoded_path parsed of
                  None \<Rightarrow> False
                | Some decoded \<Rightarrow>
                    if has_dotdot decoded then False
                    else (\<exists>pat \<in> set patterns. pattern_allows (url_origin parsed) decoded pat)))"

definition assertURLAllowedByHTTPConnect :: "string \<Rightarrow> string list \<Rightarrow> string + unit" where
  "assertURLAllowedByHTTPConnect raw patterns =
     (if urlAllowedByHTTPConnect raw patterns then Inr ()
      else Inl (undeclared_error @ '': '' @ raw))"

text \<open>\<open>connectFromInit\<close> (\<open>shellagent/app_resolution.go\<close>): the lists of a development app.\<close>

type_synonym connect_map = "(string, string list) gomap"

fun connect_schemes :: "obj \<Rightarrow> string list \<Rightarrow> connect_map \<Rightarrow> string + connect_map" where
  "connect_schemes v [] res = Inr res"
| "connect_schemes v (scheme # rest) res =
     (let entries = httpConnectEntries (obj_get v scheme) in
      if entries = [] then connect_schemes v rest res
      else (case httpConnectPatterns entries scheme of
              Inl e \<Rightarrow> Inl e
            | Inr patterns \<Rightarrow> connect_schemes v rest (AList.update scheme patterns res)))"

definition connectFromInit :: "obj \<Rightarrow> string + connect_map" where
  "connectFromInit v = connect_schemes v [''http'', ''https''] []"

subsection \<open>Declared patterns\<close>

lemma pattern_loop_set:
  "pattern_loop scheme seen ls = Inr ps \<Longrightarrow>
     set ps \<union> set seen = {p. \<exists>t \<in> set ls. parseHTTPConnectPattern t (scheme @ '':'') = Inr p} \<union> set seen
     \<and> (\<forall>t \<in> set ls. \<exists>p. parseHTTPConnectPattern t (scheme @ '':'') = Inr p)"
proof (induction scheme seen ls arbitrary: ps rule: pattern_loop.induct)
  case (1 scheme seen)
  then show ?case by simp
next
  case (2 scheme seen t rest)
  from "2.prems" obtain pat where pat: "parseHTTPConnectPattern t (scheme @ '':'') = Inr pat"
    by (auto split: sum.splits)
  show ?case
  proof (cases "pat \<in> set seen")
    case True
    with 2 pat show ?thesis by fastforce
  next
    case False
    with "2.prems" pat obtain qs where qs: "pattern_loop scheme (pat # seen) rest = Inr qs" "ps = pat # qs"
      by (auto split: sum.splits)
    from "2.IH"(2) [OF pat False qs(1)] qs(2) pat show ?thesis by auto
  qed
qed

lemma pattern_loop_distinct:
  "pattern_loop scheme seen ls = Inr ps \<Longrightarrow> distinct ps \<and> set ps \<inter> set seen = {}"
  by (induction scheme seen ls arbitrary: ps rule: pattern_loop.induct)
    (auto split: sum.splits if_splits, blast)

lemma parse_pattern_shape:
  assumes "parseHTTPConnectPattern t (scheme @ '':'') = Inr pat"
  shows "\<exists>host path. pat = scheme @ ''://'' @ host @ path \<and> host \<noteq> [] \<and> has_prefix path ''/''
      \<and> \<not> has_dotdot path \<and> CHR ''*'' \<notin> set path \<and> CHR ''?'' \<notin> set path"
  using assms
  by (fastforce simp: parseHTTPConnectPattern_def decoded_path_def contains_any_def
      split: option.splits if_splits)

subsection \<open>Allowed destinations\<close>

text \<open>What a match means on path segments: the declared path itself or something below it.\<close>

definition path_below :: "string \<Rightarrow> string \<Rightarrow> bool" where
  "path_below decoded pfx \<longleftrightarrow>
     (\<exists>base rest. (pfx = base \<or> pfx = base @ ''/'') \<and> (decoded = base \<or> decoded = base @ ''/'' @ rest))"

lemma path_matches_below:
  assumes "has_prefix decoded ''/''" and "path_matches decoded pfx"
  shows "path_below decoded pfx"
proof -
  consider "pfx = ''/''" | "decoded = pfx" | "has_suffix pfx ''/''" "decoded = trim_suffix pfx ''/''"
    | "has_suffix pfx ''/''" "has_prefix decoded pfx" | "has_prefix decoded (pfx @ ''/'')"
    using assms(2) by (auto simp: path_matches_def split: if_splits)
  then show ?thesis
  proof cases
    case 1
    from assms(1) obtain rest where "decoded = [] @ ''/'' @ rest" by (auto simp: prefix_def)
    with 1 show ?thesis unfolding path_below_def by blast
  next
    case 2
    then show ?thesis unfolding path_below_def by blast
  next
    case 3
    then have "pfx = trim_suffix pfx ''/'' @ ''/''"
      by (metis append_take_drop_id has_suffix_def trim_suffix_def)
    with 3 show ?thesis unfolding path_below_def by blast
  next
    case 4
    then have "pfx = trim_suffix pfx ''/'' @ ''/''"
      by (metis append_take_drop_id has_suffix_def trim_suffix_def)
    with 4 show ?thesis unfolding path_below_def by (metis append.assoc has_prefix_iff prefixE)
  next
    case 5
    then show ?thesis unfolding path_below_def by (metis append.assoc has_prefix_iff prefixE)
  qed
qed

lemma url_allowed_unfold:
  "urlAllowedByHTTPConnect raw patterns \<longleftrightarrow>
     (\<exists>u d. url_parse raw = Some u \<and> \<not> u_HasUser u \<and> decoded_path u = Some d \<and> \<not> has_dotdot d
        \<and> (\<exists>pat \<in> set patterns. pattern_allows (url_origin u) d pat))"
  by (auto simp: urlAllowedByHTTPConnect_def split: option.splits)

lemma decoded_path_slash: "decoded_path u = Some d \<Longrightarrow> has_prefix d ''/''"
  by (auto simp: decoded_path_def split: if_splits)

end
