(* ===== verification/Frames.thy ===== *)
theory Frames
  imports Any_Value
begin

text \<open>
  Wire messages (\<open>message\<close> in \<open>shellagent/agent.go\<close>), the authenticated socket, and the replies
  the agent sends. A reply is kept as the record the code marshals: its type, the request id
  and the fields it carries.
\<close>

record message =
  m_Type :: string
  m_ID :: string
  m_Protocol :: any
  m_Method :: string
  m_Service :: string
  m_AppID :: string
  m_Args :: "any list"
  m_File :: string
  m_Command :: string
  m_Cwd :: string
  m_Action :: string
  m_Stream :: bool
  m_Stdin :: string
  m_Mode :: string
  m_Cols :: int
  m_Rows :: int
  m_Term :: string
  m_Env :: "(string, any) gomap option"
  m_ProcessID :: string
  m_Data :: string
  m_Signal :: string
  m_BridgeID :: string
  m_Kind :: string
  m_Host :: string
  m_Port :: int
  m_LocalPort :: int

definition blank_message :: message where
  "blank_message = \<lparr>m_Type = [], m_ID = [], m_Protocol = NilV, m_Method = [], m_Service = [], m_AppID = [],
     m_Args = [], m_File = [], m_Command = [], m_Cwd = [], m_Action = [], m_Stream = False, m_Stdin = [],
     m_Mode = [], m_Cols = 0, m_Rows = 0, m_Term = [], m_Env = None, m_ProcessID = [], m_Data = [],
     m_Signal = [], m_BridgeID = [], m_Kind = [], m_Host = [], m_Port = 0, m_LocalPort = 0\<rparr>"

text \<open>\<open>protocolNumber\<close> and \<open>protocolString\<close>: the field read as an int or as a string, else zero/empty.\<close>

definition protocolNumber :: "any \<Rightarrow> int" where
  "protocolNumber v = (case v of NumV r \<Rightarrow> if of_int (floor r) = r \<and> - (2 ^ 63) \<le> floor r \<and> floor r < 2 ^ 63 then floor r else 0 | _ \<Rightarrow> 0)"

definition protocolString :: "any \<Rightarrow> string" where
  "protocolString v = (case v of StrV s \<Rightarrow> s | _ \<Rightarrow> [])"

record socketAuthentication =
  sa_capabilities :: "string list"
  sa_stored :: "string list"
  sa_declared :: "string list"
  sa_connect :: "(string, string list) gomap"
  sa_keyID :: string
  sa_origin :: string
  sa_storeID :: string
  sa_appName :: string
  sa_development :: bool
  sa_ok :: bool

definition no_auth :: socketAuthentication where
  "no_auth = \<lparr>sa_capabilities = [], sa_stored = [], sa_declared = [], sa_connect = [], sa_keyID = [],
     sa_origin = [], sa_storeID = [], sa_appName = [], sa_development = False, sa_ok = False\<rparr>"

text \<open>What the agent writes to a socket. \<open>FsError\<close> is \<open>sendError\<close>, \<open>RpcError\<close> is \<open>rpcError\<close>.\<close>

datatype reply =
    Pong string
  | FsError string string
  | ExecError string string
  | RpcError string string string
  | NetError string string
  | ChannelResult string string

end
