(* ===== verification/Gate.thy ===== *)
theory Gate
  imports Frames Cap_Sets Go_Url
begin

text \<open>
  The capability gate of an authenticated socket (\<open>shellagent/agent.go\<close>): which permission a
  frame needs, whether the socket's set grants it, and the frame loop that asks before it
  dispatches.
\<close>

definition permissionsManage :: string where
  "permissionsManage = ''permissions.manage''"

definition permissionDeniedError :: "string \<Rightarrow> string" where
  "permissionDeniedError permission =
     ''Permission '' @ permission @ '' is not granted for this app. Review it in Dyner '' @
     [CHR 0xE2, CHR 0x86, CHR 0x92] @ '' Permissions.''"

definition fsRemoteExcluded :: "string list" where
  "fsRemoteExcluded = [''fs.exec'', ''fs.execFile'', ''fs.execTerminal'', ''fs.openPath'', ''fs.openWith'']"

fun allows_loop :: "string list \<Rightarrow> string \<Rightarrow> bool" where
  "allows_loop [] required = False"
| "allows_loop (v # vs) required =
     (if v = required then True
      else if v = ''fs.remote'' \<and> has_prefix required ''fs.'' \<and> required \<notin> set fsRemoteExcluded then True
      else allows_loop vs required)"

definition socketAllows :: "string list \<Rightarrow> string \<Rightarrow> bool" where
  "socketAllows allowed required \<longleftrightarrow> (if required = [] then True else allows_loop allowed required)"

definition filesystemCapability :: "string \<Rightarrow> string" where
  "filesystemCapability method =
     (if method = ''readChunkBinary'' then ''fs.readChunk''
      else if method = ''writeChunkBinary'' then ''fs.writeChunk''
      else if method = ''packZip'' then ''fs.pack''
      else if method = ''openWithOptions'' then ''fs.openWith''
      else if method = ''watchSnapshot'' then ''fs.watch''
      else ''fs.'' @ method)"

definition networkCapability :: "string \<Rightarrow> string" where
  "networkCapability protocol =
     (if protocol = ''tcp'' \<or> protocol = ''udp'' then ''net.'' @ protocol @ ''.connect''
      else ''net.protocol.'' @ protocol)"

definition rpcCapability :: "(any \<Rightarrow> string) \<Rightarrow> message \<Rightarrow> string" where
  "rpcCapability sprint request =
     (let service = m_Service request; method = m_Method request in
      if service = ''screen'' then ''screen.capture''
      else if service = ''tray'' then ''tray.manage''
      else if service = ''globalShortcut'' then ''globalShortcut''
      else if service = ''agent'' then ''agent.session''
      else if service = ''calendar'' then ''calendar.read''
      else if service = ''fileSearch'' then ''search.files''
      else if service = ''secrets'' then ''secrets.manage''
      else if service = ''ftp'' \<or> service = ''sftp'' then ''net.protocol.'' @ service
      else if service = ''sessions'' then ''sessions.manage''
      else if service = ''system'' then
        (if method = ''terminate'' then ''system.processes.terminate'' else ''system.ports.read'')
      else if service = ''http'' then
        (case url_parse (StringValue sprint (obj_get (ObjectArg (m_Args request) 0) ''url'')) of
           Some parsed \<Rightarrow> ''net.protocol.'' @ u_Scheme parsed
         | None \<Rightarrow> ''net.protocol.https'')
      else if service = ''associations'' then ''fileAssociations.manage''
      else if service = ''fileImport'' then ''file.import''
      else if service = ''clipboard'' then
        (if method = ''readText'' \<or> method = ''readImage'' \<or> method = ''readFiles'' then ''clipboard.read''
         else ''clipboard.write'')
      else if service = ''drag'' then ''drag.files''
      else if service = ''dropTarget'' then ''drop.files''
      else if service = ''externalOpen'' then ''externalOpen.files''
      else if service = ''apps'' then (if method = ''publish'' then ''apps.publish'' else ''apps.manage'')
      else if service = ''lan'' then ''remoteEnv.manage''
      else if service = ''permissions'' then permissionsManage
      else service)"

text \<open>\<open>capabilities\<close>: the ceiling the agent announces; the flags are the platform's answers
  (\<open>runtime.GOOS\<close>, \<open>presentationSupported\<close>, \<open>screenCaptureSupported\<close>).\<close>

definition capabilities :: "string \<Rightarrow> bool \<Rightarrow> bool \<Rightarrow> string list" where
  "capabilities goos presentation screenCapture =
     [''fs.remote'', ''fs.exec'', ''fs.execFile'', ''fs.home'', ''fs.roots'', ''fs.list'', ''fs.stat'', ''fs.readText'',
      ''fs.writeText'', ''fs.readBase64'', ''fs.writeBase64'', ''fs.mkdir'', ''fs.copy'', ''fs.move'', ''fs.remove'',
      ''fs.dirSize'', ''fs.diskUsage'', ''fs.readChunk'', ''fs.writeChunk'', ''fs.trash'', ''fs.openPath'', ''fs.openWith'',
      ''fs.execTerminal'', ''fs.pack'', ''fs.watch'',
      ''net.tcp.connect'', ''net.udp.connect'', ''net.protocol.http'', ''net.protocol.https'', ''net.protocol.ftp'',
      ''net.protocol.sftp'', ''net.protocol.rdp'', ''agent.session'', ''calendar.read'', ''search.files'',
      ''secrets.manage'', ''sessions.manage'', ''system.ports.read'', ''system.processes.terminate'',
      ''fileAssociations.manage'', ''externalOpen.files'', ''file.import'', ''clipboard.read'', ''clipboard.write'',
      ''apps.manage'', ''apps.publish'']
     @ (if goos = ''darwin'' then [''drag.files''] else [])
     @ (if presentation then [''tray.manage'', ''globalShortcut''] @
          (if goos = ''windows'' \<or> goos = ''darwin'' then [''drop.files''] else []) else [])
     @ (if screenCapture then [''screen.capture''] else [])"

text \<open>\<open>sendFrameError\<close>.\<close>

definition frame_error :: "message \<Rightarrow> string \<Rightarrow> reply" where
  "frame_error request text =
     (if m_Type request = ''exec'' then ExecError (m_ID request) text
      else if m_Type request = ''rpc'' then RpcError (m_ID request) (m_Service request) text
      else if m_Type request = ''net'' then NetError (m_ID request) text
      else FsError (m_ID request) text)"

subsection \<open>The frame loop\<close>

text \<open>
  One turn of the loop in \<open>serveAuthenticatedSocket\<close>. Its inputs are the decoded frame (None when
  decoding failed), whether the identity is still stored (\<open>hasBrowserIdentity\<close>) and the answer
  of \<open>bindDatagrams\<close>. Its result is what the turn does: a reply, closing the socket, or handing
  the request, with the bound app id, to a service.
\<close>

datatype turn =
    Answer reply
  | CloseSocket nat string
  | Silent
  | ToFilesystem message
  | ToExec message
  | ToProcess message
  | ToPresentation message
  | ToRPC message
  | ToNetwork message string bool

definition closePairingDeclined :: nat where
  "closePairingDeclined = 4403"

definition ProtocolVersion :: int where
  "ProtocolVersion = 2"

definition presentation_services :: "string list" where
  "presentation_services = [''tray'', ''globalShortcut'', ''screen'', ''dropTarget'']"

definition dispatch_frame ::
  "(any \<Rightarrow> string) \<Rightarrow> socketAuthentication \<Rightarrow> (string \<Rightarrow> bool) \<Rightarrow> message \<Rightarrow> turn" where
  "dispatch_frame sprint authentication bindDatagrams request =
     (let caps = sa_capabilities authentication; ty = m_Type request; i = m_ID request;
          protocolName = protocolString (m_Protocol request) in
      if ty = ''ping'' then Answer (Pong i)
      else if ty = ''fs'' then
        (let required = filesystemCapability (m_Method request) in
         if \<not> socketAllows caps required then Answer (FsError i (permissionDeniedError required))
         else ToFilesystem request)
      else if ty = ''exec'' then
        (let required = (if m_Command request \<noteq> [] then ''fs.exec'' else ''fs.execFile'') in
         if \<not> socketAllows caps required then Answer (ExecError i (permissionDeniedError required))
         else ToExec request)
      else if ty = ''process'' then ToProcess request
      else if ty = ''rpc'' then
        (let required = rpcCapability sprint request in
         if \<not> socketAllows caps required then
           Answer (RpcError i (m_Service request) (permissionDeniedError required))
         else if m_Service request \<in> set presentation_services then ToPresentation request
         else ToRPC request)
      else if ty = ''net'' then
        (if \<not> socketAllows caps (''net.'' @ protocolName @ ''.connect'')
            \<and> \<not> socketAllows caps (''net.protocol.'' @ protocolName)
         then Answer (FsError i (permissionDeniedError (networkCapability protocolName)))
         else ToNetwork request protocolName True)
      else if ty = ''net-data'' then
        ToNetwork (blank_message\<lparr>m_Action := ''data'', m_BridgeID := m_BridgeID request\<rparr>) [] True
      else if ty = ''net-close'' then
        ToNetwork (blank_message\<lparr>m_Action := ''close'', m_BridgeID := m_BridgeID request\<rparr>) [] False
      else if ty = ''channel'' then
        (if m_Action request \<noteq> ''bind'' \<or> m_Kind request \<noteq> ''datagram''
            \<or> protocolNumber (m_Protocol request) \<noteq> ProtocolVersion \<or> \<not> bindDatagrams (m_BridgeID request)
         then Answer (FsError i ''Remote datagram channel is invalid'')
         else if i \<noteq> [] then Answer (ChannelResult i (m_BridgeID request))
         else Silent)
      else Answer (FsError i ''Unknown remote request''))"

definition serve_frame ::
  "(any \<Rightarrow> string) \<Rightarrow> socketAuthentication \<Rightarrow> bool \<Rightarrow> (string \<Rightarrow> bool) \<Rightarrow> message option \<Rightarrow> turn" where
  "serve_frame sprint authentication hasIdentity bindDatagrams incoming =
     (case incoming of
        None \<Rightarrow> Answer (FsError [] ''Remote message is invalid'')
      | Some request \<Rightarrow>
          if sa_keyID authentication \<noteq> [] \<and> \<not> hasIdentity then CloseSocket closePairingDeclined ''Pairing revoked''
          else if sa_storeID authentication \<noteq> [] then
            (if \<not> appIDMatches (sa_storeID authentication) (m_AppID request)
             then Answer (frame_error request ''Frame app id does not match the paired app'')
             else dispatch_frame sprint authentication bindDatagrams
                    (request\<lparr>m_AppID := sa_storeID authentication\<rparr>))
          else dispatch_frame sprint authentication bindDatagrams request)"

text \<open>\<open>handleFilesystemChannel\<close>: the checks of a filesystem stream before it serves its one request.\<close>

definition fs_channel_methods :: "string list" where
  "fs_channel_methods = [''readChunk'', ''readChunkBinary'', ''writeChunk'', ''writeChunkBinary'']"

definition handleFilesystemChannel :: "socketAuthentication \<Rightarrow> message \<Rightarrow> message option \<Rightarrow> turn" where
  "handleFilesystemChannel authentication bind incoming =
     (case incoming of
        None \<Rightarrow> Answer (FsError (m_ID bind) ''Remote filesystem stream is invalid'')
      | Some request \<Rightarrow>
          if m_Type request \<noteq> ''fs'' \<or> m_ID request = [] \<or> m_ID request \<noteq> m_ID bind
             \<or> m_Method request \<notin> set fs_channel_methods
          then Answer (FsError (m_ID bind) ''Remote filesystem stream is invalid'')
          else if \<not> socketAllows (sa_capabilities authentication) (filesystemCapability (m_Method request))
          then Answer (FsError (m_ID request) (permissionDeniedError (filesystemCapability (m_Method request))))
          else if sa_storeID authentication \<noteq> [] then
            (if \<not> appIDMatches (sa_storeID authentication) (m_AppID request)
             then Answer (FsError (m_ID request) ''Frame app id does not match the paired app'')
             else ToFilesystem (request\<lparr>m_AppID := sa_storeID authentication\<rparr>))
          else ToFilesystem request)"

subsection \<open>What a capability set grants\<close>

lemma allows_loop_iff:
  "allows_loop caps required \<longleftrightarrow>
     required \<in> set caps \<or> (''fs.remote'' \<in> set caps \<and> has_prefix required ''fs.'' \<and> required \<notin> set fsRemoteExcluded)"
  by (induction caps) auto

lemma socketAllows_iff:
  "socketAllows caps required \<longleftrightarrow>
     required = [] \<or> required \<in> set caps
     \<or> (''fs.remote'' \<in> set caps \<and> has_prefix required ''fs.'' \<and> required \<notin> set fsRemoteExcluded)"
  by (auto simp: socketAllows_def allows_loop_iff)

lemma socketAllows_mono: "set caps \<subseteq> set caps' \<Longrightarrow> socketAllows caps r \<Longrightarrow> socketAllows caps' r"
  by (auto simp: socketAllows_iff)

text \<open>The names a request has to be granted before it may reach a service.\<close>

definition frame_needs :: "(any \<Rightarrow> string) \<Rightarrow> message \<Rightarrow> string list" where
  "frame_needs sprint request =
     (let ty = m_Type request in
      if ty = ''fs'' then [filesystemCapability (m_Method request)]
      else if ty = ''exec'' then [if m_Command request \<noteq> [] then ''fs.exec'' else ''fs.execFile'']
      else if ty = ''rpc'' then [rpcCapability sprint request]
      else if ty = ''net'' then
        [''net.'' @ protocolString (m_Protocol request) @ ''.connect'',
         ''net.protocol.'' @ protocolString (m_Protocol request)]
      else [])"

lemma rpcCapability_appid [simp]: "rpcCapability sprint (r\<lparr>m_AppID := a\<rparr>) = rpcCapability sprint r"
  by (simp add: rpcCapability_def Let_def cong: if_cong)

lemma frame_needs_appid [simp]: "frame_needs sprint (r\<lparr>m_AppID := a\<rparr>) = frame_needs sprint r"
  by (simp add: frame_needs_def Let_def cong: if_cong)

lemma dispatch_served:
  "dispatch_frame sprint auth bindDg r = t \<Longrightarrow>
   t \<in> {ToFilesystem q, ToExec q, ToPresentation q, ToRPC q} \<Longrightarrow>
   q = r \<and> (\<exists>cap \<in> set (frame_needs sprint r). socketAllows (sa_capabilities auth) cap)"
  by (auto simp: dispatch_frame_def frame_needs_def Let_def split: if_splits)

lemma dispatch_net:
  "dispatch_frame sprint auth bindDg r = ToNetwork q p b \<Longrightarrow>
   (m_Type r = ''net'' \<and> q = r \<and> (\<exists>cap \<in> set (frame_needs sprint r). socketAllows (sa_capabilities auth) cap))
   \<or> (m_Type r \<in> {''net-data'', ''net-close''} \<and> m_Action q \<in> {''data'', ''close''} \<and> m_BridgeID q = m_BridgeID r)"
  by (auto simp: dispatch_frame_def frame_needs_def Let_def split: if_splits)

end
