(* ===== verification/Config.thy ===== *)
theory Config
  imports Connect Gate
begin

text \<open>
  The agent's configuration (\<open>shellagent/config.go\<close>, origins from
  \<open>shellagent/app_resolution.go\<close> and \<open>shellagent/lan.go\<close>): stored identities, validation,
  listener defaults, and the origins that may connect or decide permissions.
\<close>

record browserClient =
  bc_Browser :: string
  bc_Version :: string
  bc_Platform :: string
  bc_Mobile :: bool
  bc_Mode :: string
  bc_Label :: string

definition empty_client :: browserClient where
  "empty_client = \<lparr>bc_Browser = [], bc_Version = [], bc_Platform = [], bc_Mobile = False, bc_Mode = [], bc_Label = []\<rparr>"

record browserIdentity =
  bi_KeyID :: string
  bi_KTY :: string
  bi_CRV :: string
  bi_X :: string
  bi_Y :: string
  bi_Origin :: string
  bi_Capabilities :: "string list"
  bi_StoreID :: string
  bi_Connect :: connect_map
  bi_ApprovedAt :: int
  bi_Declared :: "string list"
  bi_Authority :: bool
  bi_Client :: browserClient

record nativeApp =
  na_StoreID :: string
  na_Name :: string
  na_Origin :: string
  na_URL :: string
  na_Path :: string
  na_Executable :: string
  na_CDHash :: string
  na_BundleID :: string
  na_InstalledAt :: int
  na_Capabilities :: "string list"
  na_Declared :: "string list"
  na_Connect :: connect_map
  na_ApprovedAt :: int
  na_Authority :: bool
  na_Orientation :: string

record config =
  cf_SchemaVersion :: int
  cf_DynerBaseURL :: string
  cf_EnvironmentID :: string
  cf_DeviceCredential :: string
  cf_ListenerName :: string
  cf_ListenerMode :: string
  cf_RelayEnabled :: bool
  cf_LANEnabled :: bool
  cf_LANAddress :: string
  cf_HostedEnvironmentID :: string
  cf_HostedDeviceCredential :: string
  cf_HostedName :: string
  cf_BrowserIdentities :: "browserIdentity list"
  cf_AppDomain :: string
  cf_AuthorityOrigins :: "string list"
  cf_CatalogAppID :: string
  cf_NativeApps :: "nativeApp list"
  cf_NativeAppsEnabled :: bool

definition ConfigSchemaVersion :: int where
  "ConfigSchemaVersion = 1"

definition compiledDynerBaseURL :: string where
  "compiledDynerBaseURL = ''https://dynapp.io''"

definition DefaultCatalogAppID :: string where
  "DefaultCatalogAppID = ''amit-bet/dyner''"

subsection \<open>Store ids\<close>

text \<open>The regular expression \<open>^[a-z0-9][a-z0-9._-]*/[a-z0-9][a-z0-9._-]*$\<close>.\<close>

definition store_part :: "string \<Rightarrow> bool" where
  "store_part s \<longleftrightarrow>
     (case s of [] \<Rightarrow> False
      | c # cs \<Rightarrow> (is_lower c \<or> is_digit c) \<and> list_all (\<lambda>x. is_lower x \<or> is_digit x \<or> x \<in> set ''._-'') cs)"

definition validStoreID :: "string \<Rightarrow> bool" where
  "validStoreID v \<longleftrightarrow>
     length v \<le> 160 \<and> (case split_on (CHR ''/'') v of [owner, slug] \<Rightarrow> store_part owner \<and> store_part slug | _ \<Rightarrow> False)"

definition catalogAppID :: "config \<Rightarrow> string" where
  "catalogAppID c =
     (if validStoreID (trim_space (cf_CatalogAppID c)) then trim_space (cf_CatalogAppID c) else DefaultCatalogAppID)"

subsection \<open>Hosts and origins\<close>

definition trim_set :: "string \<Rightarrow> string \<Rightarrow> string" where
  "trim_set cutset s = trim_right (\<lambda>c. c \<in> set cutset) (trim_left (\<lambda>c. c \<in> set cutset) s)"

definition isLocalNetworkHost :: "string \<Rightarrow> bool" where
  "isLocalNetworkHost hostname =
     (let host = to_lower (trim_set ''[]'' hostname) in
      if host = ''localhost'' \<or> has_suffix host ''.localhost'' \<or> has_suffix host ''.local'' then True
      else if host = ''::1'' \<or> host = ''0.0.0.0'' then True
      else (case parse_ip host of
              None \<Rightarrow> False
            | Some ip \<Rightarrow> ip_is_loopback ip \<or> ip_is_private ip \<or> ip_is_link_local ip))"

definition loopbackHostname :: "string \<Rightarrow> bool" where
  "loopbackHostname hostname =
     (let host = to_lower (trim_set ''[]'' (trim_space hostname)) in
      if host = ''localhost'' then True
      else (case parse_ip host of None \<Rightarrow> False | Some ip \<Rightarrow> ip_is_loopback ip))"

definition loopbackHostHeader :: "string \<Rightarrow> bool" where
  "loopbackHostHeader host0 =
     (let host = trim_space host0 in
      if host = [] then False
      else (case split_host_port host of
              Some (hostname, _) \<Rightarrow> loopbackHostname hostname
            | None \<Rightarrow> loopbackHostname host))"

definition privateOrLoopbackHost :: "string \<Rightarrow> bool" where
  "privateOrLoopbackHost host =
     (let trimmed = trim_space host in
      if equal_fold trimmed ''localhost'' then True
      else (case parse_ip trimmed of
              None \<Rightarrow> False
            | Some ip \<Rightarrow>
                ip_is_loopback ip \<or> ip_is_private ip \<or>
                (case to4 ip of Some v4 \<Rightarrow> v4 ! 0 = 100 \<and> v4 ! 1 \<ge> 64 \<and> v4 ! 1 \<le> 127 | None \<Rightarrow> False)))"

definition parseOrigin :: "string \<Rightarrow> url option" where
  "parseOrigin v =
     (case url_parse (trim_space v) of
        None \<Rightarrow> None
      | Some parsed \<Rightarrow>
          if u_Host parsed = [] \<or> u_Path parsed \<noteq> [] \<or> u_RawQuery parsed \<noteq> [] \<or> u_Fragment parsed \<noteq> [] \<or> u_HasUser parsed
          then None
          else if u_Scheme parsed \<noteq> ''https'' \<and> u_Scheme parsed \<noteq> ''http'' then None
          else Some parsed)"

definition validIdentityOrigin :: "string \<Rightarrow> bool" where
  "validIdentityOrigin origin =
     (case url_parse origin of
        None \<Rightarrow> False
      | Some parsed \<Rightarrow>
          if u_Host parsed = [] \<or> u_Path parsed \<noteq> [] \<or> u_RawQuery parsed \<noteq> [] \<or> u_Fragment parsed \<noteq> [] \<or> u_HasUser parsed
          then False
          else if u_Scheme parsed = ''https'' then True
          else u_Scheme parsed = ''http'' \<and> loopbackHostname (url_hostname parsed))"

definition canonical_origin :: "url \<Rightarrow> string" where
  "canonical_origin u = to_lower (u_Scheme u @ ''://'' @ u_Host u)"

definition base_url :: "config \<Rightarrow> string" where
  "base_url c = (let base = trim_space (cf_DynerBaseURL c) in if base = [] then compiledDynerBaseURL else base)"

definition dynerBaseOrigin :: "config \<Rightarrow> string" where
  "dynerBaseOrigin c =
     (case url_parse (base_url c) of
        None \<Rightarrow> []
      | Some parsed \<Rightarrow> if u_Host parsed = [] then [] else canonical_origin parsed)"

definition appDomain :: "config \<Rightarrow> string" where
  "appDomain c =
     (let domain = to_lower (trim_space (cf_AppDomain c)) in
      if domain \<noteq> [] then trim_prefix domain ''.''
      else (case url_parse (base_url c) of
              None \<Rightarrow> ''dynapp.io''
            | Some parsed \<Rightarrow>
                (let host = to_lower (url_hostname parsed) in
                 if host = [] \<or> isLocalNetworkHost host \<or> parse_ip host \<noteq> None then []
                 else trim_prefix host ''www.'')))"

definition remove_char :: "char \<Rightarrow> string \<Rightarrow> string" where
  "remove_char x s = filter (\<lambda>c. c \<noteq> x) s"

definition hosted_host :: "string \<Rightarrow> string \<Rightarrow> string \<Rightarrow> string" where
  "hosted_host owner slug domain = remove_char (CHR ''-'') owner @ ''-'' @ slug @ ''.'' @ domain"

definition catalogHostedOrigin :: "config \<Rightarrow> string" where
  "catalogHostedOrigin c =
     (let domain = appDomain c in
      if domain = [] then []
      else (let (owner, slug, found) = cut_on (CHR ''/'') (catalogAppID c) in
            if \<not> found \<or> owner = [] \<or> slug = [] then []
            else ''https://'' @ to_lower (hosted_host owner slug domain)))"

definition isAuthorityOrigin :: "config \<Rightarrow> string \<Rightarrow> bool" where
  "isAuthorityOrigin c origin =
     (case parseOrigin origin of
        None \<Rightarrow> False
      | Some parsed \<Rightarrow>
          (let canonical = canonical_origin parsed in
           if dynerBaseOrigin c \<noteq> [] \<and> canonical = dynerBaseOrigin c then True
           else if catalogHostedOrigin c \<noteq> [] \<and> canonical = catalogHostedOrigin c then True
           else (\<exists>candidate \<in> set (cf_AuthorityOrigins c).
                   case parseOrigin candidate of None \<Rightarrow> False | Some extra \<Rightarrow> canonical_origin extra = canonical)))"

definition originEquivalent :: "string \<Rightarrow> string \<Rightarrow> bool" where
  "originEquivalent identityOrigin candidate =
     (if identityOrigin = candidate then True
      else (case (url_parse identityOrigin, url_parse candidate) of
              (Some iu, Some cu) \<Rightarrow>
                u_Host iu = u_Host cu \<and> u_Scheme iu = ''https'' \<and> u_Scheme cu = ''http''
                \<and> privateOrLoopbackHost (url_hostname cu)
            | _ \<Rightarrow> False))"

datatype originKind = OriginRejected | OriginDevelopment | OriginHosted | OriginIdentity

definition classifyOrigin :: "config \<Rightarrow> browserIdentity list \<Rightarrow> string \<Rightarrow> originKind" where
  "classifyOrigin c identities origin =
     (case parseOrigin origin of
        None \<Rightarrow> OriginRejected
      | Some parsed \<Rightarrow>
          (let host = to_lower (url_hostname parsed); canonical = canonical_origin parsed; domain = appDomain c in
           if loopbackHostname host then OriginDevelopment
           else if isAuthorityOrigin c canonical then OriginHosted
           else if u_Scheme parsed = ''https'' \<and> domain \<noteq> [] \<and> (host = domain \<or> has_suffix host (''.'' @ domain)) then OriginHosted
           else if (\<exists>i \<in> set identities. bi_Origin i = canonical \<or> originEquivalent (bi_Origin i) canonical) then OriginIdentity
           else OriginRejected))"

definition legacyHostedOriginMatches :: "config \<Rightarrow> string \<Rightarrow> string \<Rightarrow> bool" where
  "legacyHostedOriginMatches c origin storeID =
     (if dynerBaseOrigin c \<noteq> [] \<and> origin = dynerBaseOrigin c then True
      else (case parseOrigin origin of
              None \<Rightarrow> False
            | Some parsed \<Rightarrow>
                if u_Scheme parsed \<noteq> ''https'' then False
                else if appDomain c = [] then False
                else (let (owner, slug, _) = cut_on (CHR ''/'') storeID in
                      equal_fold (url_hostname parsed) (hosted_host owner slug (appDomain c)))))"

subsection \<open>Validation\<close>

text \<open>\<open>BrowserKeyID\<close> hashes the key (\<open>key_hash\<close> is base64url of SHA-256).\<close>

definition BrowserKeyID :: "(string \<Rightarrow> string) \<Rightarrow> browserIdentity \<Rightarrow> string" where
  "BrowserKeyID key_hash i = key_hash (bi_X i @ ''.'' @ bi_Y i)"

definition validate_identity :: "(string \<Rightarrow> string) \<Rightarrow> browserIdentity \<Rightarrow> string + unit" where
  "validate_identity key_hash i =
     (if bi_KTY i \<noteq> ''EC'' \<or> bi_CRV i \<noteq> ''P-256'' \<or> length (bi_X i) \<noteq> 43 \<or> length (bi_Y i) \<noteq> 43
         \<or> length (bi_KeyID i) \<noteq> 43 \<or> \<not> validIdentityOrigin (bi_Origin i)
      then Inl ''invalid browser identity''
      else if bi_StoreID i \<noteq> [] \<and> \<not> validStoreID (bi_StoreID i) then Inl ''browser identity store id is invalid''
      else if BrowserKeyID key_hash i \<noteq> bi_KeyID i then Inl ''browser identity key id does not match its public key''
      else Inr ())"

definition validateDeviceCredential :: "string \<Rightarrow> string \<Rightarrow> string + unit" where
  "validateDeviceCredential environmentID credential =
     (if credential = [] \<and> environmentID = [] then Inr ()
      else (case split_on (CHR ''.'') credential of
              [a, b] \<Rightarrow> if a \<noteq> environmentID \<or> length b < 40 then Inl ''invalid DynApp device credential'' else Inr ()
            | _ \<Rightarrow> Inl ''invalid DynApp device credential''))"

definition AllowedDynerBaseURL :: "string \<Rightarrow> bool" where
  "AllowedDynerBaseURL v =
     (case url_parse (trim_space v) of
        None \<Rightarrow> False
      | Some parsed \<Rightarrow>
          if u_Host parsed = [] then False
          else if u_Scheme parsed = ''https'' then True
          else u_Scheme parsed = ''http'' \<and> isLocalNetworkHost (url_hostname parsed))"

fun validate_identities :: "(string \<Rightarrow> string) \<Rightarrow> browserIdentity list \<Rightarrow> string + unit" where
  "validate_identities key_hash [] = Inr ()"
| "validate_identities key_hash (i # rest) =
     (case validate_identity key_hash i of Inl e \<Rightarrow> Inl e | Inr _ \<Rightarrow> validate_identities key_hash rest)"

definition validate_config :: "(string \<Rightarrow> string) \<Rightarrow> config \<Rightarrow> string + unit" where
  "validate_config key_hash c =
     (if cf_SchemaVersion c \<noteq> ConfigSchemaVersion then Inl ''unsupported shell-agent configuration version''
      else if cf_ListenerMode c \<notin> {'''', ''off'', ''local'', ''lan''} then Inl ''listener mode must be off, local, or lan''
      else if (cf_LANEnabled c \<or> cf_ListenerMode c = ''local'' \<or> cf_ListenerMode c = ''lan'') \<and> cf_LANAddress c = []
      then Inl ''listener address is required when the local listener is enabled''
      else (case validate_identities key_hash (cf_BrowserIdentities c) of
              Inl e \<Rightarrow> Inl e
            | Inr _ \<Rightarrow>
                if cf_DynerBaseURL c \<noteq> [] \<and> \<not> AllowedDynerBaseURL (cf_DynerBaseURL c)
                then Inl ''Dyner base URL must use HTTPS (or HTTP on a private/local host)''
                else (case validateDeviceCredential (cf_EnvironmentID c) (cf_DeviceCredential c) of
                        Inl e \<Rightarrow> Inl e
                      | Inr _ \<Rightarrow>
                          (case validateDeviceCredential (cf_HostedEnvironmentID c) (cf_HostedDeviceCredential c) of
                             Inl e \<Rightarrow> Inl e
                           | Inr _ \<Rightarrow>
                               if (cf_DeviceCredential c \<noteq> [] \<or> cf_HostedDeviceCredential c \<noteq> []) \<and> cf_DynerBaseURL c = []
                               then Inl ''Dyner base URL is required when a device credential is stored''
                               else Inr ()))))"

definition validate_native :: "nativeApp \<Rightarrow> string + unit" where
  "validate_native app =
     (if \<not> validStoreID (na_StoreID app) then Inl ''native app store id is invalid''
      else (case parseOrigin (na_Origin app) of
              None \<Rightarrow> Inl ''native app origin is invalid''
            | Some parsed \<Rightarrow>
                if u_Scheme parsed \<noteq> ''https'' \<and> \<not> (u_Scheme parsed = ''http'' \<and> loopbackHostname (url_hostname parsed))
                then Inl ''native app origin is invalid''
                else if trim_space (na_Path app) = [] then Inl ''native app path is required''
                else Inr ()))"

subsection \<open>Listener defaults\<close>

definition resolvedListenerMode :: "config \<Rightarrow> string" where
  "resolvedListenerMode c =
     (if cf_ListenerMode c \<noteq> [] then cf_ListenerMode c else if cf_LANEnabled c then ''lan'' else ''local'')"

text \<open>\<open>portFromAddress\<close>: \<open>strconv.Atoi\<close> of the URL's port, which is all digits or empty; a value
  outside \<open>int\<close> comes back saturated.\<close>

definition portFromAddress :: "string \<Rightarrow> int" where
  "portFromAddress address =
     (case url_parse (''udp://'' @ address) of
        None \<Rightarrow> 9011
      | Some parsed \<Rightarrow>
          (let number = min (int (dec_value 0 (url_port parsed))) (2 ^ 63 - 1) in
           if number = 0 then 9011 else number))"

definition loopbackAddressForPort :: "int \<Rightarrow> string" where
  "loopbackAddressForPort port = ''127.0.0.1:'' @ fmt_uint 10 (nat port)"

definition lanAddressForPort :: "int \<Rightarrow> string" where
  "lanAddressForPort port = ''0.0.0.0:'' @ fmt_uint 10 (nat port)"

definition trim_right_slash :: "string \<Rightarrow> string" where
  "trim_right_slash s = trim_right (\<lambda>c. c = CHR ''/'') s"

text \<open>The environment's answers \<open>DefaultDynerBaseURL\<close> and \<open>DefaultListenerName\<close> are arguments.\<close>

definition ApplyListenerDefaults :: "string \<Rightarrow> string \<Rightarrow> string \<Rightarrow> bool \<Rightarrow> config \<Rightarrow> config" where
  "ApplyListenerDefaults defaultURL defaultName loopbackAddress enableLAN c0 =
     (let c1 = (if trim_space (cf_DynerBaseURL c0) = [] then c0\<lparr>cf_DynerBaseURL := defaultURL\<rparr>
                else c0\<lparr>cf_DynerBaseURL := trim_right_slash (trim_space (cf_DynerBaseURL c0))\<rparr>);
          c2 = (if trim_space (cf_ListenerName c1) = [] then c1\<lparr>cf_ListenerName := defaultName\<rparr> else c1);
          c3 = (if cf_ListenerMode c2 = [] then
                  (if cf_LANEnabled c2 then c2\<lparr>cf_ListenerMode := ''lan''\<rparr> else c2\<lparr>cf_ListenerMode := ''local''\<rparr>)
                else c2);
          c4 = (if enableLAN then c3\<lparr>cf_ListenerMode := ''lan''\<rparr> else c3);
          port = (if loopbackAddress \<noteq> [] then portFromAddress loopbackAddress else 9011)
      in if cf_ListenerMode c4 = ''lan'' then c4\<lparr>cf_LANEnabled := True, cf_LANAddress := lanAddressForPort port\<rparr>
         else if cf_ListenerMode c4 = ''off'' then c4\<lparr>cf_LANEnabled := False\<rparr>
         else c4\<lparr>cf_ListenerMode := ''local'', cf_LANEnabled := True, cf_LANAddress := loopbackAddressForPort port\<rparr>)"

definition relayTicketConfig :: "config \<Rightarrow> config" where
  "relayTicketConfig c =
     (if cf_HostedDeviceCredential c \<noteq> [] then
        c\<lparr>cf_DeviceCredential := cf_HostedDeviceCredential c, cf_EnvironmentID := cf_HostedEnvironmentID c\<rparr>
      else c)"

text \<open>\<open>EnvEnabled\<close> on the variable's value.\<close>

definition EnvEnabled :: "string \<Rightarrow> bool" where
  "EnvEnabled v0 =
     (let v = trim_space v0 in
      if v = [] then False else to_lower v \<notin> {''0'', ''false'', ''no'', ''off''})"

end
