(* ===== verification/App_Resolution.thy ===== *)
theory App_Resolution
  imports Config
begin

text \<open>
  What the agent learns about a connecting app (\<open>shellagent/app_resolution.go\<close>): the manifest
  record Dyner returns, the hosted-origin test, and the classes of origins that may pair. The
  HTTP request to Dyner is the parameter \<open>fetch\<close> (store id to an error or the decoded record).
\<close>

record directLocalApp =
  dla_StoreID :: string
  dla_DeclaredPermissions :: "any list"
  dla_Connect :: obj

record browserJWK =
  jwk_KTY :: string
  jwk_CRV :: string
  jwk_X :: string
  jwk_Y :: string

record directLocalInit =
  dli_Type :: string
  dli_Version :: int
  dli_PublicKeyJWK :: "browserJWK option"
  dli_App :: "directLocalApp option"
  dli_Client :: "browserClient option"

text \<open>\<open>ra_Connect\<close> is never a nil map: both constructors of the record start from an empty map.\<close>

record resolvedApp =
  ra_StoreID :: string
  ra_Name :: string
  ra_Development :: bool
  ra_Declared :: "string list"
  ra_Connect :: connect_map

type_synonym dyner = "string \<Rightarrow> string + obj"

subsection \<open>Manifests\<close>

definition add_entries :: "string \<Rightarrow> string list \<Rightarrow> connect_map \<Rightarrow> connect_map" where
  "add_entries scheme es raw =
     AList.update scheme ((case map_of raw scheme of None \<Rightarrow> [] | Some xs \<Rightarrow> xs) @ es) raw"

definition raw_connect_entry :: "(any \<Rightarrow> string) \<Rightarrow> connect_map \<Rightarrow> any \<Rightarrow> connect_map" where
  "raw_connect_entry sprint raw val =
     (case as_obj val of
        None \<Rightarrow> raw
      | Some entry \<Rightarrow>
          (let permission = trim_space (StringValue sprint (obj_get entry ''permission'')) in
           if permission \<noteq> ''net.protocol.http'' \<and> permission \<noteq> ''net.protocol.https'' then raw
           else add_entries (trim_prefix permission ''net.protocol.'') (httpConnectEntries (obj_get entry ''connect'')) raw))"

definition raw_connect_net :: "obj \<Rightarrow> connect_map \<Rightarrow> string \<Rightarrow> connect_map" where
  "raw_connect_net network raw scheme =
     (let raw1 = (case as_obj (obj_get network ''protocol'') of
                    None \<Rightarrow> raw
                  | Some protocol \<Rightarrow>
                      (case as_obj (obj_get protocol scheme) of
                         None \<Rightarrow> raw
                       | Some item \<Rightarrow> add_entries scheme (httpConnectEntries (obj_get item ''connect'')) raw))
      in (case as_obj (obj_get network (''protocol.'' @ scheme)) of
            None \<Rightarrow> raw1
          | Some item \<Rightarrow> add_entries scheme (httpConnectEntries (obj_get item ''connect'')) raw1))"

fun connect_of_raw :: "connect_map \<Rightarrow> connect_map \<Rightarrow> string + connect_map" where
  "connect_of_raw [] connect = Inr connect"
| "connect_of_raw ((scheme, entries) # rest) connect =
     (if entries = [] then connect_of_raw rest connect
      else (case httpConnectPatterns entries scheme of
              Inl _ \<Rightarrow> Inl (''manifest connect list for '' @ scheme @ '' is invalid'')
            | Inr patterns \<Rightarrow> connect_of_raw rest (AList.update scheme patterns connect)))"

definition manifestBackendPermissions ::
  "(any \<Rightarrow> string) \<Rightarrow> obj \<Rightarrow> string + (string list \<times> connect_map)" where
  "manifestBackendPermissions sprint manifest =
     (let entries = (case as_arr (obj_get manifest ''backendPermissions'') of None \<Rightarrow> [] | Some es \<Rightarrow> es);
          declared = normalizePermissionList sprint entries;
          raw = foldl (raw_connect_entry sprint) [] entries;
          raw1 = (case as_obj (obj_get manifest ''net'') of
                    None \<Rightarrow> raw
                  | Some network \<Rightarrow> foldl (raw_connect_net network) raw [''http'', ''https''])
      in (case connect_of_raw raw1 [] of
            Inl e \<Rightarrow> Inl e
          | Inr connect \<Rightarrow> Inr (declared, connect)))"

definition latest_revision :: "obj \<Rightarrow> obj option" where
  "latest_revision detail =
     (case as_obj (obj_get detail ''latestRevision'') of
        Some revision \<Rightarrow> Some revision
      | None \<Rightarrow> (case as_arr (obj_get detail ''revisions'') of
                   Some (r # _) \<Rightarrow> as_obj r
                 | _ \<Rightarrow> None))"

definition appFromDynerManifest :: "(any \<Rightarrow> string) \<Rightarrow> string \<Rightarrow> obj \<Rightarrow> string + resolvedApp" where
  "appFromDynerManifest sprint storeID detail =
     (case latest_revision detail of
        None \<Rightarrow> Inl ''this app has no published revision''
      | Some revision \<Rightarrow>
          (case as_obj (obj_get revision ''manifest'') of
             None \<Rightarrow> Inl ''this app's revision has no manifest''
           | Some manifest \<Rightarrow>
               (let name0 = trim_space (StringValue sprint (obj_get manifest ''name''));
                    name1 = (case as_obj (obj_get detail ''app'') of
                               None \<Rightarrow> name0
                             | Some app \<Rightarrow>
                                 (let v = trim_space (StringValue sprint (obj_get app ''name'')) in
                                  if v \<noteq> [] then v else name0));
                    name = (if name1 = [] then storeSlug storeID else name1)
                in (case manifestBackendPermissions sprint manifest of
                      Inl e \<Rightarrow> Inl e
                    | Inr (declared, connect) \<Rightarrow>
                        Inr \<lparr>ra_StoreID = storeID, ra_Name = name, ra_Development = False,
                             ra_Declared = declared, ra_Connect = connect\<rparr>))))"

text \<open>\<open>hostedOrigins\<close> of the record, or of its \<open>app\<close> member when that list is empty.\<close>

definition hosted_origins :: "obj \<Rightarrow> string list" where
  "hosted_origins detail =
     (let hosted = stringList (obj_get detail ''hostedOrigins'') in
      if hosted = [] then
        (case as_obj (obj_get detail ''app'') of
           None \<Rightarrow> []
         | Some app \<Rightarrow> stringList (obj_get app ''hostedOrigins''))
      else hosted)"

definition appFromDynerDetail ::
  "(any \<Rightarrow> string) \<Rightarrow> config \<Rightarrow> string \<Rightarrow> string \<Rightarrow> obj \<Rightarrow> string + resolvedApp" where
  "appFromDynerDetail sprint c origin storeID detail =
     (let canonical = to_lower (trim_space origin); hosted = hosted_origins detail in
      if hosted \<noteq> [] then
        (if \<exists>candidate \<in> set hosted. to_lower (trim_right_slash (trim_space candidate)) = canonical
         then appFromDynerManifest sprint storeID detail
         else Inl ''origin is not a hosted origin of this app'')
      else if \<not> legacyHostedOriginMatches c canonical storeID
      then Inl ''origin does not match this app's hosted origin''
      else appFromDynerManifest sprint storeID detail)"

definition resolveHostedApp ::
  "(any \<Rightarrow> string) \<Rightarrow> dyner \<Rightarrow> config \<Rightarrow> string \<Rightarrow> string \<Rightarrow> string + resolvedApp" where
  "resolveHostedApp sprint fetch c origin storeID =
     (case fetch storeID of Inl e \<Rightarrow> Inl e | Inr detail \<Rightarrow> appFromDynerDetail sprint c origin storeID detail)"

definition resolveManifestApp :: "(any \<Rightarrow> string) \<Rightarrow> dyner \<Rightarrow> string \<Rightarrow> string + resolvedApp" where
  "resolveManifestApp sprint fetch storeID =
     (if \<not> validStoreID storeID then Inl ''an app store id is required''
      else (case fetch storeID of Inl e \<Rightarrow> Inl e | Inr detail \<Rightarrow> appFromDynerManifest sprint storeID detail))"

definition resolveApp ::
  "(any \<Rightarrow> string) \<Rightarrow> dyner \<Rightarrow> config \<Rightarrow> string \<Rightarrow> directLocalInit \<Rightarrow> string + resolvedApp" where
  "resolveApp sprint fetch c origin ini =
     (case dli_App ini of
        None \<Rightarrow> Inl ''an app store id is required''
      | Some app \<Rightarrow>
          if \<not> validStoreID (trim_space (dla_StoreID app)) then Inl ''an app store id is required''
          else
            (let storeID = trim_space (dla_StoreID app) in
             case classifyOrigin c (cf_BrowserIdentities c) origin of
               OriginDevelopment \<Rightarrow>
                 (case connectFromInit (dla_Connect app) of
                    Inl e \<Rightarrow> Inl e
                  | Inr connect \<Rightarrow>
                      Inr \<lparr>ra_StoreID = storeID, ra_Name = storeSlug storeID, ra_Development = True,
                           ra_Declared = normalizePermissionList sprint (dla_DeclaredPermissions app),
                           ra_Connect = connect\<rparr>)
             | OriginHosted \<Rightarrow> resolveHostedApp sprint fetch c origin storeID
             | _ \<Rightarrow> Inl ''origin is not allowed to pair''))"

subsection \<open>What a resolved app is\<close>

lemma manifest_app_shape:
  assumes "appFromDynerManifest sprint i d = Inr r"
  shows "ra_StoreID r = i \<and> \<not> ra_Development r
    \<and> (\<exists>es. ra_Declared r = normalizePermissionList sprint es)"
  using assms
  by (auto simp: appFromDynerManifest_def manifestBackendPermissions_def Let_def split: option.splits sum.splits)

lemma detail_app_shape:
  assumes "appFromDynerDetail sprint c origin i d = Inr r"
  shows "appFromDynerManifest sprint i d = Inr r"
  using assms by (auto simp: appFromDynerDetail_def Let_def split: if_splits)

lemma resolved_shape:
  assumes "resolveApp sprint fetch c origin ini = Inr r"
  shows "validStoreID (ra_StoreID r) \<and> (\<exists>es. ra_Declared r = normalizePermissionList sprint es)
    \<and> (\<exists>app. dli_App ini = Some app \<and> ra_StoreID r = trim_space (dla_StoreID app))"
  using assms
  by (auto simp: resolveApp_def resolveHostedApp_def Let_def
      split: option.splits if_splits originKind.splits sum.splits dest!: detail_app_shape manifest_app_shape)

lemma resolved_declared_trimmed:
  assumes "resolveApp sprint fetch c origin ini = Inr r" and "p \<in> set (ra_Declared r)"
  shows "trim_space p = p \<and> p \<noteq> []"
  using assms resolved_shape normalizePermissionList_trimmed by metis

lemma manifest_declared_trimmed:
  assumes "resolveManifestApp sprint fetch i = Inr r" and "p \<in> set (ra_Declared r)"
  shows "trim_space p = p \<and> p \<noteq> []"
proof -
  have "\<exists>es. ra_Declared r = normalizePermissionList sprint es"
    using assms(1) by (auto simp: resolveManifestApp_def split: if_splits sum.splits dest!: manifest_app_shape)
  with assms(2) show ?thesis using normalizePermissionList_trimmed by metis
qed

end
