(* ===== verification/Catalog.thy ===== *)
theory Catalog
  imports Cap_Sets
begin

text \<open>
  The permission catalog (\<open>shellagent/catalog/permission_catalog.go\<close>): danger tiers, groups,
  titles, and the grouped summary shown on the permission screen.
\<close>

definition DangerousPermissions :: "string list" where
  "DangerousPermissions = [''secrets.manage'', ''agent.session'', ''apps.publish'']"

definition dangerousPermission :: "string \<Rightarrow> bool" where
  "dangerousPermission permission \<longleftrightarrow> (\<exists>v \<in> set DangerousPermissions. v = permission)"

definition suggestedPermissions :: "string list \<Rightarrow> string list" where
  "suggestedPermissions declared = sort (filter (\<lambda>p. \<not> dangerousPermission p) declared)"

record permissionGroup =
  grp_ID :: string
  grp_Title :: string
  grp_Summary :: string

definition permissionGroups :: "permissionGroup list" where
  "permissionGroups =
    [\<lparr>grp_ID = ''files'', grp_Title = ''Files you choose'', grp_Summary = ''Open and save files through the system picker. The app only sees what you pick.''\<rparr>,
     \<lparr>grp_ID = ''filesystem'', grp_Title = ''Files on this computer'', grp_Summary = ''Read and change files and folders without asking each time.''\<rparr>,
     \<lparr>grp_ID = ''execute'', grp_Title = ''Run programs'', grp_Summary = ''Start other programs or stop processes on this computer.''\<rparr>,
     \<lparr>grp_ID = ''network'', grp_Title = ''Network'', grp_Summary = ''Talk to servers, websites, and devices on the network.''\<rparr>,
     \<lparr>grp_ID = ''workspaces'', grp_Title = ''Workspaces'', grp_Summary = ''Keep documents on this device and optionally share them with your other devices.''\<rparr>,
     \<lparr>grp_ID = ''remote'', grp_Title = ''Remote environments'', grp_Summary = ''Use a paired computer for files, network, and tools.''\<rparr>,
     \<lparr>grp_ID = ''store'', grp_Title = ''Apps and account'', grp_Summary = ''Browse, install, launch, and publish DynApps with your Dyner account.''\<rparr>,
     \<lparr>grp_ID = ''agent'', grp_Title = ''Coding agent'', grp_Summary = ''Let an assistant inspect and change this app on your behalf.''\<rparr>,
     \<lparr>grp_ID = ''secrets'', grp_Title = ''Secrets'', grp_Summary = ''Read and store credentials for this app.''\<rparr>,
     \<lparr>grp_ID = ''device'', grp_Title = ''This device'', grp_Summary = ''Clipboard, notifications, shortcuts, calendar, and window controls.''\<rparr>]"

definition veryHighPermissions :: "string list" where
  "veryHighPermissions =
    [''screen.capture'', ''secrets.manage'', ''apps.publish'', ''apps.detach'', ''agent.session'',
     ''system.processes.terminate'', ''workspaces.shared.manage'', ''permissions.manage'']"

definition highPermissions :: "string list" where
  "highPermissions =
    [''fs.exec'', ''fs.execFile'', ''fs.execTerminal'', ''net.tcp.connect'', ''net.udp.connect'',
     ''net.tcp.listen'', ''net.udp.bind'', ''globalShortcut'', ''tray.manage'']"

definition highPermissionPrefixes :: "string list" where
  "highPermissionPrefixes =
    [''fs.write'', ''fs.copy'', ''fs.pack'', ''fs.move'', ''fs.trash'', ''fs.remove'', ''fs.mkdir'', ''dialog.save'',
     ''apps.install'', ''apps.uninstall'', ''workspaces.shared.write'', ''shortcut.'', ''fileAssociations.'']"

definition mediumPermissionPrefixes :: "string list" where
  "mediumPermissionPrefixes =
    [''fs.'', ''file.'', ''externalOpen.'', ''sessions.'', ''workspaces.'', ''remoteEnv.'', ''search.'', ''clipboard.'',
     ''calendar.'', ''system.ports.'', ''net.'', ''web.'', ''drag.'', ''drop.'', ''dialog.open'', ''dialog.pick'']"

text \<open>\<open>dangerRank\<close>: a map read, 0 for a missing key.\<close>

definition dangerRank :: "string \<Rightarrow> nat" where
  "dangerRank d =
     (if d = ''medium'' then 1 else if d = ''high'' then 2 else if d = ''very-high'' then 3 else 0)"

definition permissionDanger :: "string \<Rightarrow> string" where
  "permissionDanger permission =
     (if permission \<in> set veryHighPermissions then ''very-high''
      else if permission \<in> set highPermissions then ''high''
      else if (\<exists>p \<in> set highPermissionPrefixes. has_prefix permission p) then ''high''
      else if (\<exists>p \<in> set mediumPermissionPrefixes. has_prefix permission p) then ''medium''
      else ''low'')"

definition permissionGroupID :: "string \<Rightarrow> string" where
  "permissionGroupID permission =
     (if permission \<in> {''fs.exec'', ''fs.execFile'', ''fs.execTerminal'', ''system.processes.terminate''} then ''execute''
      else if permission = ''dialog.pickPath'' then ''filesystem''
      else if has_prefix permission ''fs.'' \<or> has_prefix permission ''search.'' then ''filesystem''
      else if has_prefix permission ''dialog.open'' \<or> has_prefix permission ''dialog.save''
            \<or> has_prefix permission ''file.'' \<or> has_prefix permission ''externalOpen.'' then ''files''
      else if has_prefix permission ''net.'' then ''network''
      else if has_prefix permission ''workspaces.'' then ''workspaces''
      else if has_prefix permission ''remoteEnv.'' then ''remote''
      else if has_prefix permission ''apps.'' \<or> has_prefix permission ''oauth.''
            \<or> has_prefix permission ''permissions.'' then ''store''
      else if has_prefix permission ''agent.'' then ''agent''
      else if has_prefix permission ''secrets.'' then ''secrets''
      else ''device'')"

text \<open>\<open>permissionTitle\<close>: a blank for each dot and before each capital after a lower-case letter;
  the first letter of each word is raised. The state is (previousLower, startOfWord).\<close>

fun title_loop :: "bool \<Rightarrow> bool \<Rightarrow> string \<Rightarrow> string" where
  "title_loop previousLower startOfWord [] = []"
| "title_loop previousLower startOfWord (r # rs) =
     (if r = CHR ''.'' then CHR '' '' # title_loop False True rs
      else
        (let split = is_upper r \<and> previousLower;
             start = (startOfWord \<or> split);
             r' = (if start \<and> is_lower r then upper_char r else r)
         in (if split then [CHR '' ''] else []) @ r' # title_loop (is_lower r') False rs))"

definition permissionTitle :: "string \<Rightarrow> string" where
  "permissionTitle permission = title_loop False True permission"

record permissionDescriptor =
  pd_Permission :: string
  pd_Group :: string
  pd_Danger :: string
  pd_Description :: string

text \<open>The inner loop of \<open>describePermissions\<close> overwrites the description at every matching group.\<close>

definition group_description :: "string \<Rightarrow> string \<Rightarrow> string" where
  "group_description groupID permission =
     foldl (\<lambda>description g. if grp_ID g = groupID
              then permissionTitle permission @ ''. '' @ grp_Summary g else description)
       (permissionTitle permission) permissionGroups"

definition describePermissions :: "string list \<Rightarrow> permissionDescriptor list" where
  "describePermissions permissions =
     map (\<lambda>permission. \<lparr>pd_Permission = permission, pd_Group = permissionGroupID permission,
            pd_Danger = permissionDanger permission,
            pd_Description = group_description (permissionGroupID permission) permission\<rparr>)
       (normalizePermissionSet permissions)"

record permissionGroupSummary =
  sum_ID :: string
  sum_Title :: string
  sum_Summary :: string
  sum_Danger :: string
  sum_Permissions :: "string list"

type_synonym buckets = "(string, permissionGroupSummary) gomap"

definition new_bucket :: "string \<Rightarrow> permissionGroupSummary option" where
  "new_bucket groupID =
     foldl (\<lambda>bucket g. if grp_ID g = groupID
              then Some \<lparr>sum_ID = grp_ID g, sum_Title = grp_Title g, sum_Summary = grp_Summary g,
                         sum_Danger = ''low'', sum_Permissions = []\<rparr>
              else bucket)
       None permissionGroups"

text \<open>One pass of the loop of \<open>groupPermissions\<close> (the body from \<open>TrimSpace\<close> to the append).\<close>

definition group_step :: "buckets \<Rightarrow> string \<Rightarrow> buckets" where
  "group_step buckets permission0 =
     (let permission = trim_space permission0 in
      if permission = [] then buckets
      else
        (let groupID = permissionGroupID permission;
             bucket = (case map_of buckets groupID of Some b \<Rightarrow> Some b | None \<Rightarrow> new_bucket groupID)
         in case bucket of
              None \<Rightarrow> buckets
            | Some b \<Rightarrow>
                (let danger = permissionDanger permission;
                     b1 = (if dangerRank danger > dangerRank (sum_Danger b) then b\<lparr>sum_Danger := danger\<rparr> else b)
                 in AList.update groupID (b1\<lparr>sum_Permissions := sum_Permissions b1 @ [permission]\<rparr>) buckets)))"

definition groupPermissions :: "string list \<Rightarrow> permissionGroupSummary list" where
  "groupPermissions permissions =
     (let buckets = foldl group_step [] permissions in
      List.map_filter
        (\<lambda>g. map_option (\<lambda>b. b\<lparr>sum_Permissions := sort (sum_Permissions b)\<rparr>) (map_of buckets (grp_ID g)))
        permissionGroups)"

subsection \<open>Group identifiers\<close>

lemma permissionGroupID_known: "permissionGroupID p \<in> grp_ID ` set permissionGroups"
  by (simp add: permissionGroupID_def permissionGroups_def)

lemma distinct_group_ids: "distinct (map grp_ID permissionGroups)"
  by (simp add: permissionGroups_def)

lemma foldl_last_match:
  "distinct (map f gs) \<Longrightarrow>
   foldl (\<lambda>acc g. if f g = x then h g else acc) d gs =
     (case find (\<lambda>g. f g = x) gs of None \<Rightarrow> d | Some g \<Rightarrow> h g)"
proof (induction gs arbitrary: d)
  case Nil
  then show ?case by simp
next
  case (Cons g gs)
  have "f g = x \<Longrightarrow> find (\<lambda>g. f g = x) gs = None"
    using Cons.prems by (auto simp: find_None_iff image_iff)
  with Cons show ?case by auto
qed

lemma new_bucket_find:
  "new_bucket i = map_option (\<lambda>g. \<lparr>sum_ID = grp_ID g, sum_Title = grp_Title g, sum_Summary = grp_Summary g,
     sum_Danger = ''low'', sum_Permissions = []\<rparr>) (find (\<lambda>g. grp_ID g = i) permissionGroups)"
  unfolding new_bucket_def by (subst foldl_last_match [OF distinct_group_ids]) (simp split: option.split)

lemma find_group: "\<exists>g. find (\<lambda>g. grp_ID g = permissionGroupID p) permissionGroups = Some g"
proof (cases "find (\<lambda>g. grp_ID g = permissionGroupID p) permissionGroups")
  case None
  then have "\<forall>g \<in> set permissionGroups. grp_ID g \<noteq> permissionGroupID p" unfolding find_None_iff by blast
  with permissionGroupID_known [of p] show ?thesis by (metis (no_types, lifting) imageE)
qed simp

lemma new_bucket_Some: "\<exists>b. new_bucket (permissionGroupID p) = Some b \<and> sum_Permissions b = [] \<and> sum_Danger b = ''low''"
  using find_group [of p] by (auto simp: new_bucket_find)

subsection \<open>Buckets\<close>

text \<open>
  The reference description of the grouping: the trimmed, non-blank names, those of one group
  in their order, the worst tier among them, and the summary of one group.
\<close>

definition clean_permissions :: "string list \<Rightarrow> string list" where
  "clean_permissions ps = filter (\<lambda>p. p \<noteq> []) (map trim_space ps)"

definition group_members :: "string list \<Rightarrow> string \<Rightarrow> string list" where
  "group_members ps i = filter (\<lambda>p. permissionGroupID p = i) (clean_permissions ps)"

definition raise_danger :: "string \<Rightarrow> string \<Rightarrow> string" where
  "raise_danger d p = (if dangerRank (permissionDanger p) > dangerRank d then permissionDanger p else d)"

definition worst_danger :: "string list \<Rightarrow> string" where
  "worst_danger ps = foldl raise_danger ''low'' ps"

definition group_summary :: "string list \<Rightarrow> permissionGroup \<Rightarrow> permissionGroupSummary" where
  "group_summary ps g = \<lparr>sum_ID = grp_ID g, sum_Title = grp_Title g, sum_Summary = grp_Summary g,
     sum_Danger = worst_danger (group_members ps (grp_ID g)),
     sum_Permissions = sort (group_members ps (grp_ID g))\<rparr>"

lemma clean_permissions_snoc:
  "clean_permissions (ps @ [p]) = clean_permissions ps @ (if trim_space p = [] then [] else [trim_space p])"
  by (simp add: clean_permissions_def)

lemma group_members_snoc:
  "group_members (ps @ [p]) i =
     group_members ps i @ (if trim_space p = [] \<or> permissionGroupID (trim_space p) \<noteq> i then [] else [trim_space p])"
  by (simp add: group_members_def clean_permissions_snoc)

lemma worst_danger_snoc: "worst_danger (ps @ [p]) = raise_danger (worst_danger ps) p"
  by (simp add: worst_danger_def)

lemma worst_danger_Nil [simp]: "worst_danger [] = ''low''"
  by (simp add: worst_danger_def)

lemma rank_raise_danger: "dangerRank (raise_danger d p) = max (dangerRank d) (dangerRank (permissionDanger p))"
  by (auto simp: raise_danger_def)

lemma rank_worst_danger: "dangerRank (worst_danger ps) = Max (insert 0 ((\<lambda>p. dangerRank (permissionDanger p)) ` set ps))"
proof (induction ps rule: rev_induct)
  case Nil
  then show ?case by (simp add: dangerRank_def)
next
  case (snoc p ps)
  let ?r = "\<lambda>p. dangerRank (permissionDanger p)"
  have "Max (insert (?r p) (insert 0 (?r ` set ps))) = max (?r p) (Max (insert 0 (?r ` set ps)))"
    by (rule Max_insert) auto
  then show ?case
    by (simp only: worst_danger_snoc rank_raise_danger snoc.IH set_append image_Un list.set image_insert
        image_empty Un_insert_right Un_empty_right insert_commute max.commute)
qed

definition open_bucket :: "string list \<Rightarrow> string \<Rightarrow> permissionGroupSummary option" where
  "open_bucket ps i =
     (if group_members ps i = [] then None
      else map_option (\<lambda>g. \<lparr>sum_ID = grp_ID g, sum_Title = grp_Title g, sum_Summary = grp_Summary g,
             sum_Danger = worst_danger (group_members ps i), sum_Permissions = group_members ps i\<rparr>)
           (find (\<lambda>g. grp_ID g = i) permissionGroups))"

lemma group_step_open:
  assumes "map_of bs = open_bucket ps"
  shows "map_of (group_step bs p) = open_bucket (ps @ [p])"
proof (cases "trim_space p = []")
  case True
  then show ?thesis using assms
    by (simp add: group_step_def open_bucket_def group_members_snoc fun_eq_iff)
next
  case False
  define q where "q = trim_space p"
  define i where "i = permissionGroupID q"
  obtain g where g: "find (\<lambda>g. grp_ID g = i) permissionGroups = Some g"
    unfolding i_def using find_group by blast
  have others: "open_bucket (ps @ [p]) j = open_bucket ps j" if "j \<noteq> i" for j
    using that by (auto simp: open_bucket_def group_members_snoc q_def i_def)
  show ?thesis
  proof (cases "group_members ps i = []")
    case True
    then have "map_of bs i = None" using assms by (simp add: open_bucket_def)
    with False g True others assms show ?thesis
      by (auto simp: group_step_def Let_def fun_eq_iff new_bucket_find q_def [symmetric] i_def [symmetric]
          open_bucket_def [of _ i] group_members_snoc worst_danger_def raise_danger_def)
  next
    case nonempty: False
    with False g others assms show ?thesis
      by (auto simp: group_step_def Let_def fun_eq_iff q_def [symmetric] i_def [symmetric]
          open_bucket_def [of _ i] group_members_snoc worst_danger_snoc raise_danger_def)
  qed
qed

lemma buckets_open: "map_of (foldl group_step [] ps) = open_bucket ps"
proof (induction ps rule: rev_induct)
  case Nil
  then show ?case by (simp add: open_bucket_def group_members_def clean_permissions_def fun_eq_iff)
next
  case (snoc p ps)
  then show ?case by (simp add: group_step_open)
qed

lemma find_distinct_key: "distinct (map f gs) \<Longrightarrow> g \<in> set gs \<Longrightarrow> find (\<lambda>h. f h = f g) gs = Some g"
  by (induction gs) auto

lemma find_own_group: "g \<in> set permissionGroups \<Longrightarrow> find (\<lambda>h. grp_ID h = grp_ID g) permissionGroups = Some g"
  by (rule find_distinct_key [OF distinct_group_ids])

lemma map_filter_cong:
  "(\<And>x. x \<in> set xs \<Longrightarrow> f x = g x) \<Longrightarrow> List.map_filter f xs = List.map_filter g xs"
  by (induction xs) (auto split: option.split)

lemma map_filter_if: "List.map_filter (\<lambda>x. if P x then Some (f x) else None) xs = map f (filter P xs)"
  by (induction xs) (auto simp: List.map_filter_simps)

lemma groupPermissions_summaries:
  "groupPermissions ps = map (group_summary ps) (filter (\<lambda>g. group_members ps (grp_ID g) \<noteq> []) permissionGroups)"
proof -
  have "map_option (\<lambda>b. b\<lparr>sum_Permissions := sort (sum_Permissions b)\<rparr>) (open_bucket ps (grp_ID g)) =
      (if group_members ps (grp_ID g) \<noteq> [] then Some (group_summary ps g) else None)"
    if "g \<in> set permissionGroups" for g
    using find_own_group [OF that] by (simp add: open_bucket_def group_summary_def)
  then have "groupPermissions ps = List.map_filter
      (\<lambda>g. if group_members ps (grp_ID g) \<noteq> [] then Some (group_summary ps g) else None) permissionGroups"
    unfolding groupPermissions_def Let_def buckets_open by (rule map_filter_cong)
  then show ?thesis by (simp only: map_filter_if)
qed

lemma mset_by_key:
  assumes "distinct ks" and "\<And>x. x \<in> set xs \<Longrightarrow> f x \<in> set ks"
  shows "mset (concat (map (\<lambda>k. filter (\<lambda>x. f x = k) xs) ks)) = mset xs"
  using assms(2)
proof (induction xs)
  case Nil
  then show ?case by (induction ks) auto
next
  case (Cons x xs)
  have "mset (concat (map (\<lambda>k. filter (\<lambda>y. f y = k) (x # xs)) ks')) =
      mset (concat (map (\<lambda>k. filter (\<lambda>y. f y = k) xs) ks')) + (if f x \<in> set ks' then {#x#} else {#})"
    if "distinct ks'" for ks'
    using that by (induction ks') auto
  with assms(1) Cons show ?case by auto
qed

end
