(* ===== verification/Registry.thy ===== *)
theory Registry
  imports App_Resolution Catalog
begin

text \<open>
  The permission registry (\<open>shellagent/permissions.go\<close>) and the grants of natively installed apps
  (\<open>shellagent/native_apps.go\<close>): pending decisions, pre-approvals, the live sockets bound to an
  identity, and the operations of the \<open>permissions\<close> service.

  One record holds the server's shared state; an operation takes it and returns it changed. Each
  operation runs its locked sections in one go. Time is nanoseconds since the epoch. Not in the
  state: the file \<open>SaveConfig\<close> writes and the change event sent to the subscribers.
\<close>

record pendingRequest =
  pr_ID :: string
  pr_Code :: string
  pr_Kind :: string
  pr_StoreID :: string
  pr_AppName :: string
  pr_Origin :: string
  pr_Development :: bool
  pr_Declared :: "string list"
  pr_CreatedAt :: int
  pr_ExpiresAt :: int
  pr_decision :: "string list option option"
  pr_resolved :: bool

record preApproval =
  pa_StoreID :: string
  pa_Capabilities :: "string list"
  pa_ExpiresAt :: int

type_synonym socket = nat

record server =
  sv_Config :: config
  sv_pending :: "(string, pendingRequest) gomap"
  sv_preapproved :: "(string, preApproval) gomap"
  sv_subscribers :: "socket list"
  sv_live :: "(socket, socketAuthentication) gomap"
  sv_autoApprove :: bool
  sv_closed :: "(socket \<times> nat \<times> string) list"

definition pendingRequestTTL :: int where
  "pendingRequestTTL = 10 * 60 * 1000000000"

definition defaultPreApprovalTTL :: int where
  "defaultPreApprovalTTL = 10 * 60 * 1000000000"

definition maxPreApprovalTTL :: int where
  "maxPreApprovalTTL = 60 * 60 * 1000000000"

definition statusServiceRestart :: nat where
  "statusServiceRestart = 1012"

definition unix_milli :: "int \<Rightarrow> int" where
  "unix_milli t = t div 1000000"

text \<open>Signed 64-bit wrap-around.\<close>

definition wrap64 :: "int \<Rightarrow> int" where
  "wrap64 x = (x + 2 ^ 63) mod 2 ^ 64 - 2 ^ 63"

subsection \<open>Pending decisions\<close>

text \<open>\<open>resolve\<close> runs once; a nil granted set and an empty one are the same approval.\<close>

definition resolve_pending :: "string list \<Rightarrow> bool \<Rightarrow> pendingRequest \<Rightarrow> pendingRequest" where
  "resolve_pending granted approved p =
     (if pr_resolved p then p
      else p\<lparr>pr_resolved := True, pr_decision := Some (if approved then Some granted else None)\<rparr>)"

definition wasResolved :: "pendingRequest \<Rightarrow> bool" where
  "wasResolved p = pr_resolved p"

text \<open>\<open>%06d\<close> of a number below one million, and the id made of twelve random bytes.\<close>

definition approvalCode :: "nat \<Rightarrow> string" where
  "approvalCode v = (let s = fmt_uint 10 v in replicate (6 - length s) (CHR ''0'') @ s)"

definition requestID :: "(bytes \<Rightarrow> string) \<Rightarrow> bytes \<Rightarrow> string" where
  "requestID b64 raw = ''req_'' @ b64 raw"

definition purge_pending :: "int \<Rightarrow> server \<Rightarrow> server" where
  "purge_pending now s = s\<lparr>sv_pending := filter (\<lambda>(_, p). \<not> pr_ExpiresAt p < now) (sv_pending s)\<rparr>"

text \<open>The attempts of \<open>registerPending\<close>; each draw is the number and the bytes read from the
  random source, or None when reading it failed.\<close>

fun register_attempts ::
  "(bytes \<Rightarrow> string) \<Rightarrow> int \<Rightarrow> pendingRequest \<Rightarrow> (nat \<times> bytes) option list \<Rightarrow> server \<Rightarrow> server \<times> (string + pendingRequest)" where
  "register_attempts b64 now request [] s = (s, Inl ''could not allocate a permission request code'')"
| "register_attempts b64 now request (None # draws) s = (s, Inl ''random source failed'')"
| "register_attempts b64 now request (Some (v, raw) # draws) s =
     (let code = approvalCode v; i = requestID b64 raw in
      if \<exists>(_, p) \<in> set (sv_pending s). pr_Code p = code \<or> pr_ID p = i
      then register_attempts b64 now request draws s
      else
        (let declared = normalizePermissionSet (pr_Declared request);
             p = request\<lparr>pr_ID := i, pr_Code := code, pr_CreatedAt := now, pr_ExpiresAt := now + pendingRequestTTL,
                   pr_Declared := declared, pr_decision := None\<rparr>;
             q = (if sv_autoApprove s then resolve_pending declared True p else p)
         in (s\<lparr>sv_pending := AList.update i q (sv_pending s)\<rparr>, Inr q)))"

definition registerPending ::
  "(bytes \<Rightarrow> string) \<Rightarrow> int \<Rightarrow> (nat \<Rightarrow> (nat \<times> bytes) option) \<Rightarrow> pendingRequest \<Rightarrow> server \<Rightarrow> server \<times> (string + pendingRequest)" where
  "registerPending b64 now draw request s =
     (let s1 = purge_pending now s in
      if length (sv_pending s1) \<ge> 32 then (s1, Inl ''too many pending permission requests'')
      else register_attempts b64 now request (map draw [0..<16]) s1)"

definition unregisterPending :: "string \<Rightarrow> server \<Rightarrow> server" where
  "unregisterPending i s = s\<lparr>sv_pending := AList.delete i (sv_pending s)\<rparr>"

text \<open>What wakes the waiting handshake, and \<open>awaitDecision\<close>'s answer for it: None means the select
  has nothing to take, Some None that the request was denied or is gone.\<close>

datatype wake = WakeDecision | WakeTimer | WakeContext

definition awaitDecision :: "wake \<Rightarrow> string \<Rightarrow> server \<Rightarrow> (server \<times> string list option) option" where
  "awaitDecision w i s =
     (case w of
        WakeDecision \<Rightarrow>
          (case map_of (sv_pending s) i of
             None \<Rightarrow> None
           | Some p \<Rightarrow> (case pr_decision p of None \<Rightarrow> None | Some d \<Rightarrow> Some (unregisterPending i s, d)))
      | WakeTimer \<Rightarrow> Some (unregisterPending i s, None)
      | WakeContext \<Rightarrow> Some (unregisterPending i s, None))"

subsection \<open>Live sockets\<close>

definition trackLiveSocket :: "socket \<Rightarrow> socketAuthentication \<Rightarrow> server \<Rightarrow> server" where
  "trackLiveSocket k auth s = s\<lparr>sv_live := AList.update k auth (sv_live s)\<rparr>"

definition untrackLiveSocket :: "socket \<Rightarrow> server \<Rightarrow> server" where
  "untrackLiveSocket k s =
     s\<lparr>sv_live := AList.delete k (sv_live s), sv_subscribers := removeAll k (sv_subscribers s)\<rparr>"

definition bound_to :: "browserIdentity \<Rightarrow> socketAuthentication \<Rightarrow> bool" where
  "bound_to identity auth \<longleftrightarrow>
     sa_keyID auth = bi_KeyID identity \<and> sa_origin auth = bi_Origin identity
     \<and> (bi_StoreID identity = [] \<or> sa_storeID auth = bi_StoreID identity)"

definition closeSocketsBoundTo :: "browserIdentity \<Rightarrow> nat \<Rightarrow> string \<Rightarrow> server \<Rightarrow> server" where
  "closeSocketsBoundTo identity code reason s =
     (let targets = map fst (filter (\<lambda>(_, auth). bound_to identity auth) (sv_live s)) in
      s\<lparr>sv_closed := sv_closed s @ map (\<lambda>k. (k, code, reason)) targets\<rparr>)"

subsection \<open>Stored identities\<close>

definition same_identity :: "string \<Rightarrow> string \<Rightarrow> string \<Rightarrow> browserIdentity \<Rightarrow> bool" where
  "same_identity k origin store i \<longleftrightarrow> bi_KeyID i = k \<and> bi_Origin i = origin \<and> bi_StoreID i = store"

definition set_identities :: "browserIdentity list \<Rightarrow> server \<Rightarrow> server" where
  "set_identities ids s = s\<lparr>sv_Config := (sv_Config s)\<lparr>cf_BrowserIdentities := ids\<rparr>\<rparr>"

definition upsert_by :: "('a \<Rightarrow> 'a \<Rightarrow> bool) \<Rightarrow> 'a \<Rightarrow> 'a list \<Rightarrow> 'a list" where
  "upsert_by same x xs = (if \<exists>y \<in> set xs. same x y then map (\<lambda>y. if same x y then x else y) xs else xs @ [x])"

definition upsertBrowserIdentity :: "browserIdentity \<Rightarrow> server \<Rightarrow> server" where
  "upsertBrowserIdentity i s =
     set_identities
       (upsert_by (\<lambda>x y. same_identity (bi_KeyID x) (bi_Origin x) (bi_StoreID x) y) i (cf_BrowserIdentities (sv_Config s))) s"

definition findIdentity :: "string \<Rightarrow> string \<Rightarrow> string \<Rightarrow> server \<Rightarrow> browserIdentity option" where
  "findIdentity k origin store s = find (same_identity k origin store) (cf_BrowserIdentities (sv_Config s))"

subsection \<open>Native apps\<close>

definition nativeKeyPrefix :: string where
  "nativeKeyPrefix = ''native:''"

definition nativeKeyID :: "string \<Rightarrow> string" where
  "nativeKeyID storeID = nativeKeyPrefix @ storeID"

definition nativeApp_lookup :: "string \<Rightarrow> server \<Rightarrow> nativeApp option" where
  "nativeApp_lookup storeID s = find (\<lambda>a. na_StoreID a = storeID) (cf_NativeApps (sv_Config s))"

definition set_native :: "nativeApp list \<Rightarrow> server \<Rightarrow> server" where
  "set_native apps s = s\<lparr>sv_Config := (sv_Config s)\<lparr>cf_NativeApps := apps\<rparr>\<rparr>"

definition upsertNativeApp :: "nativeApp \<Rightarrow> server \<Rightarrow> server" where
  "upsertNativeApp app s =
     (case validate_native app of
        Inl _ \<Rightarrow> s
      | Inr _ \<Rightarrow> set_native (upsert_by (\<lambda>x y. na_StoreID y = na_StoreID x) app (cf_NativeApps (sv_Config s))) s)"

definition removeNativeApp :: "string \<Rightarrow> server \<Rightarrow> server" where
  "removeNativeApp storeID s = set_native (filter (\<lambda>a. na_StoreID a \<noteq> storeID) (cf_NativeApps (sv_Config s))) s"

definition closeNativeSockets :: "nativeApp \<Rightarrow> nat \<Rightarrow> string \<Rightarrow> server \<Rightarrow> server" where
  "closeNativeSockets app code reason s =
     closeSocketsBoundTo
       \<lparr>bi_KeyID = nativeKeyID (na_StoreID app), bi_KTY = [], bi_CRV = [], bi_X = [], bi_Y = [],
        bi_Origin = na_Origin app, bi_Capabilities = [], bi_StoreID = na_StoreID app, bi_Connect = [],
        bi_ApprovedAt = 0, bi_Declared = [], bi_Authority = False, bi_Client = empty_client\<rparr> code reason s"

definition hasNativeGrant :: "socketAuthentication \<Rightarrow> server \<Rightarrow> bool" where
  "hasNativeGrant auth s =
     (case nativeApp_lookup (trim_prefix (sa_keyID auth) nativeKeyPrefix) s of
        None \<Rightarrow> False
      | Some app \<Rightarrow> na_Origin app = sa_origin auth \<and> sameCapabilitySet (na_Capabilities app) (sa_stored auth))"

definition authForNative :: "nativeApp \<Rightarrow> resolvedApp option \<Rightarrow> socketAuthentication" where
  "authForNative app resolved =
     (let declared0 = normalizePermissionSet (na_Declared app);
          (declared, connect, name) =
            (case resolved of
               None \<Rightarrow> (declared0, na_Connect app, na_Name app)
             | Some r \<Rightarrow> (if na_Authority app then unionStrings (ra_Declared r) [permissionsManage] else ra_Declared r,
                          ra_Connect r, if ra_Name r \<noteq> [] then ra_Name r else na_Name app));
          effective0 = intersectStrings (na_Capabilities app) declared;
          effective1 = (if na_Authority app then unionStrings effective0 [permissionsManage]
                        else subtractStrings effective0 [permissionsManage])
      in \<lparr>sa_capabilities = normalizePermissionSet effective1, sa_stored = na_Capabilities app,
          sa_declared = declared, sa_connect = connect, sa_keyID = nativeKeyID (na_StoreID app),
          sa_origin = na_Origin app, sa_storeID = na_StoreID app, sa_appName = name,
          sa_development = False, sa_ok = True\<rparr>)"

subsection \<open>Payloads\<close>

definition strs :: "string list \<Rightarrow> any" where
  "strs xs = ArrV (map StrV xs)"

definition num :: "int \<Rightarrow> any" where
  "num n = NumV (of_int n)"

definition client_fields :: "browserClient \<Rightarrow> obj" where
  "client_fields c =
     filter (\<lambda>(_, v). v \<noteq> StrV [] \<and> v \<noteq> BoolV False)
       [(''browser'', StrV (bc_Browser c)), (''version'', StrV (bc_Version c)), (''platform'', StrV (bc_Platform c)),
        (''mobile'', BoolV (bc_Mobile c)), (''mode'', StrV (bc_Mode c)), (''label'', StrV (bc_Label c))]"

definition grantPayload :: "browserIdentity \<Rightarrow> any" where
  "grantPayload i =
     ObjV ([(''keyId'', StrV (bi_KeyID i)), (''origin'', StrV (bi_Origin i)), (''storeId'', StrV (bi_StoreID i)),
            (''appName'', StrV (storeSlug (bi_StoreID i))), (''capabilities'', strs (bi_Capabilities i)),
            (''approvedAt'', num (bi_ApprovedAt i)), (''authority'', BoolV (bi_Authority i)),
            (''declared'', strs (normalizePermissionSet (bi_Declared i)))]
       @ (if bi_Client i = empty_client then [] else [(''client'', ObjV (client_fields (bi_Client i)))]))"

definition nativeGrantPayload :: "string \<Rightarrow> nativeApp \<Rightarrow> any" where
  "nativeGrantPayload goos app =
     ObjV [(''keyId'', StrV (nativeKeyID (na_StoreID app))), (''origin'', StrV (na_Origin app)),
           (''storeId'', StrV (na_StoreID app)), (''appName'', StrV (na_Name app)),
           (''capabilities'', strs (na_Capabilities app)), (''approvedAt'', num (na_ApprovedAt app)),
           (''authority'', BoolV (na_Authority app)), (''declared'', strs (normalizePermissionSet (na_Declared app))),
           (''client'', ObjV (client_fields (empty_client\<lparr>bc_Platform := goos, bc_Mode := ''native'', bc_Label := ''Installed app''\<rparr>))),
           (''native'', BoolV True)]"

definition descriptor_payload :: "permissionDescriptor \<Rightarrow> any" where
  "descriptor_payload d =
     ObjV [(''permission'', StrV (pd_Permission d)), (''group'', StrV (pd_Group d)),
           (''danger'', StrV (pd_Danger d)), (''description'', StrV (pd_Description d))]"

definition pending_payload :: "pendingRequest \<Rightarrow> any" where
  "pending_payload p =
     ObjV [(''id'', StrV (pr_ID p)), (''code'', StrV (pr_Code p)), (''kind'', StrV (pr_Kind p)),
           (''storeId'', StrV (pr_StoreID p)), (''appName'', StrV (pr_AppName p)), (''origin'', StrV (pr_Origin p)),
           (''development'', BoolV (pr_Development p)),
           (''declared'', ArrV (map descriptor_payload (describePermissions (pr_Declared p)))),
           (''suggested'', strs (suggestedPermissions (pr_Declared p))),
           (''expiresAt'', num (unix_milli (pr_ExpiresAt p)))]"

definition ok_reply :: "obj \<Rightarrow> any" where
  "ok_reply kvs = ObjV ((''ok'', BoolV True) # kvs)"

subsection \<open>The permissions service\<close>

text \<open>\<open>capabilityArg\<close>: None for a missing or null list (a denial).\<close>

definition capabilityArg :: "obj \<Rightarrow> string list option" where
  "capabilityArg args =
     (case map_of args ''capabilities'' of
        None \<Rightarrow> None
      | Some v \<Rightarrow> if v = NilV then None else Some (normalizePermissionSet (stringList v)))"

definition decidePermissions :: "(any \<Rightarrow> string) \<Rightarrow> int \<Rightarrow> obj \<Rightarrow> server \<Rightarrow> server \<times> (string + any)" where
  "decidePermissions sprint now args s =
     (let i = trim_space (StringValue sprint (obj_get args ''id'')) in
      if i = [] then (s, Inl ''a pending request id is required'')
      else (case map_of (sv_pending s) i of
              None \<Rightarrow> (s, Inl ''no pending permission request has that id'')
            | Some p \<Rightarrow>
                if pr_ExpiresAt p < now then (s, Inl ''no pending permission request has that id'')
                else
                  (let req = capabilityArg args;
                       granted = (case req of None \<Rightarrow> [] | Some caps \<Rightarrow> sort (intersectStrings caps (pr_Declared p)))
                   in (s\<lparr>sv_pending := AList.update i (resolve_pending granted (req \<noteq> None) p) (sv_pending s)\<rparr>,
                       Inr (ok_reply [(''id'', StrV i), (''approved'', BoolV (req \<noteq> None)), (''granted'', strs granted)])))))"

definition grantSelector :: "(any \<Rightarrow> string) \<Rightarrow> obj \<Rightarrow> string + (string \<times> string \<times> string)" where
  "grantSelector sprint args =
     (let k = trim_space (StringValue sprint (obj_get args ''keyId''));
          origin = trim_space (StringValue sprint (obj_get args ''origin''));
          store = trim_space (StringValue sprint (obj_get args ''storeId''))
      in if k = [] \<or> origin = [] then Inl ''keyId and origin are required'' else Inr (k, origin, store))"

definition declaredCeiling :: "(any \<Rightarrow> string) \<Rightarrow> dyner \<Rightarrow> string \<Rightarrow> string list \<Rightarrow> string list" where
  "declaredCeiling sprint fetch storeID stored =
     (let limits = normalizePermissionSet stored in
      if \<not> validStoreID storeID then limits
      else (case resolveManifestApp sprint fetch storeID of
              Inl _ \<Rightarrow> limits
            | Inr r \<Rightarrow> normalizePermissionSet (unionStrings limits (ra_Declared r))))"

text \<open>The clamp \<open>updateGrant\<close> and \<open>updateNativeGrant\<close> share.\<close>

definition clamp_grant :: "string list \<Rightarrow> bool \<Rightarrow> string list \<Rightarrow> string list" where
  "clamp_grant limits authority requested0 =
     (let requested1 = (if limits \<noteq> [] then intersectStrings requested0 limits else requested0);
          requested2 = (if authority then unionStrings requested1 [permissionsManage]
                        else subtractStrings requested1 [permissionsManage])
      in normalizePermissionSet requested2)"

definition updateNativeGrant ::
  "(any \<Rightarrow> string) \<Rightarrow> dyner \<Rightarrow> string \<Rightarrow> int \<Rightarrow> string \<Rightarrow> string list \<Rightarrow> server \<Rightarrow> server \<times> (string + any)" where
  "updateNativeGrant sprint fetch goos now storeID requested s =
     (case nativeApp_lookup storeID s of
        None \<Rightarrow> (s, Inl ''no grant matches that identity'')
      | Some app \<Rightarrow>
          (let limits = declaredCeiling sprint fetch storeID (na_Declared app);
               caps = clamp_grant limits (na_Authority app) requested;
               app1 = app\<lparr>na_Capabilities := caps, na_Declared := unionStrings limits caps,
                        na_ApprovedAt := (if na_ApprovedAt app = 0 then unix_milli now else na_ApprovedAt app)\<rparr>;
               s1 = closeNativeSockets app1 statusServiceRestart ''Permissions changed'' (upsertNativeApp app1 s)
           in (s1, Inr (ok_reply [(''grant'', nativeGrantPayload goos app1)]))))"

definition revokeNativeGrant :: "string \<Rightarrow> server \<Rightarrow> server \<times> (string + any)" where
  "revokeNativeGrant storeID s =
     (case nativeApp_lookup storeID s of
        None \<Rightarrow> (s, Inl ''no grant matches that identity'')
      | Some app \<Rightarrow>
          (let app1 = app\<lparr>na_Capabilities := (if na_Authority app then [permissionsManage] else []),
                        na_Declared := [], na_ApprovedAt := 0\<rparr>
           in (closeNativeSockets app1 closePairingDeclined ''Pairing revoked'' (upsertNativeApp app1 s), Inr (ok_reply []))))"

definition updateGrant ::
  "(any \<Rightarrow> string) \<Rightarrow> dyner \<Rightarrow> string \<Rightarrow> int \<Rightarrow> obj \<Rightarrow> server \<Rightarrow> server \<times> (string + any)" where
  "updateGrant sprint fetch goos now args s =
     (case grantSelector sprint args of
        Inl e \<Rightarrow> (s, Inl e)
      | Inr (k, origin, store) \<Rightarrow>
          if has_prefix k nativeKeyPrefix then
            (case capabilityArg args of
               None \<Rightarrow> (s, Inl ''capabilities must be a list'')
             | Some requested \<Rightarrow>
                 updateNativeGrant sprint fetch goos now (if store = [] then trim_prefix k nativeKeyPrefix else store) requested s)
          else (case findIdentity k origin store s of
                  None \<Rightarrow> (s, Inl ''no grant matches that identity'')
                | Some identity \<Rightarrow>
                    (case capabilityArg args of
                       None \<Rightarrow> (s, Inl ''capabilities must be a list'')
                     | Some requested \<Rightarrow>
                         (let limits = declaredCeiling sprint fetch store (bi_Declared identity);
                              caps = clamp_grant limits (bi_Authority identity) requested;
                              identity1 = identity\<lparr>bi_Capabilities := caps, bi_Declared := unionStrings limits caps,
                                bi_ApprovedAt := (if bi_ApprovedAt identity = 0 then unix_milli now else bi_ApprovedAt identity)\<rparr>;
                              s1 = closeSocketsBoundTo identity1 statusServiceRestart ''Permissions changed''
                                     (upsertBrowserIdentity identity1 s)
                          in (s1, Inr (ok_reply [(''grant'', grantPayload identity1)]))))))"

definition revokeGrant :: "(any \<Rightarrow> string) \<Rightarrow> obj \<Rightarrow> server \<Rightarrow> server \<times> (string + any)" where
  "revokeGrant sprint args s =
     (case grantSelector sprint args of
        Inl e \<Rightarrow> (s, Inl e)
      | Inr (k, origin, store) \<Rightarrow>
          if has_prefix k nativeKeyPrefix then
            revokeNativeGrant (if store = [] then trim_prefix k nativeKeyPrefix else store) s
          else (case findIdentity k origin store s of
                  None \<Rightarrow> (s, Inl ''no grant matches that identity'')
                | Some identity \<Rightarrow>
                    (let s1 = set_identities (filter (\<lambda>i. \<not> same_identity k origin store i) (cf_BrowserIdentities (sv_Config s))) s
                     in (closeSocketsBoundTo identity closePairingDeclined ''Pairing revoked'' s1, Inr (ok_reply [])))))"

text \<open>The requested time to live: a positive JSON number of milliseconds, truncated to \<open>int64\<close> and
  multiplied in \<open>int64\<close> nanoseconds, capped at one hour. \<open>ovf\<close> is the conversion of a number that
  does not fit.\<close>

definition preapproval_ttl :: "(rat \<Rightarrow> int) \<Rightarrow> obj \<Rightarrow> int" where
  "preapproval_ttl ovf args =
     (let ttl = (case obj_get args ''expiresInMs'' of
                   NumV r \<Rightarrow> if r > 0 then wrap64 (integer64 ovf (NumV r) * 1000000) else defaultPreApprovalTTL
                 | _ \<Rightarrow> defaultPreApprovalTTL)
      in if ttl > maxPreApprovalTTL then maxPreApprovalTTL else ttl)"

definition preapprovePermissions ::
  "(any \<Rightarrow> string) \<Rightarrow> (rat \<Rightarrow> int) \<Rightarrow> int \<Rightarrow> obj \<Rightarrow> server \<Rightarrow> server \<times> (string + any)" where
  "preapprovePermissions sprint ovf now args s =
     (let storeID = trim_space (StringValue sprint (obj_get args ''storeId'')) in
      if \<not> validStoreID storeID then (s, Inl ''a valid app store id is required'')
      else (case capabilityArg args of
              None \<Rightarrow> (s, Inl ''capabilities must be a list'')
            | Some requested \<Rightarrow>
                (let caps = subtractStrings requested [permissionsManage];
                     approval = \<lparr>pa_StoreID = storeID, pa_Capabilities = caps, pa_ExpiresAt = now + preapproval_ttl ovf args\<rparr>
                 in (s\<lparr>sv_preapproved := AList.update storeID approval (sv_preapproved s)\<rparr>,
                     Inr (ok_reply [(''storeId'', StrV storeID), (''capabilities'', strs caps),
                                    (''expiresAt'', num (unix_milli (pa_ExpiresAt approval)))])))))"

definition consumePreApproval :: "int \<Rightarrow> string \<Rightarrow> server \<Rightarrow> server \<times> preApproval option" where
  "consumePreApproval now storeID s =
     (case map_of (sv_preapproved s) storeID of
        None \<Rightarrow> (s, None)
      | Some approval \<Rightarrow>
          (s\<lparr>sv_preapproved := AList.delete storeID (sv_preapproved s)\<rparr>,
           if pa_ExpiresAt approval > now then Some approval else None))"

definition livePreApprovals :: "int \<Rightarrow> server \<Rightarrow> server \<times> preApproval list" where
  "livePreApprovals now s =
     (let live = filter (\<lambda>(_, a). pa_ExpiresAt a > now) (sv_preapproved s) in
      (s\<lparr>sv_preapproved := live\<rparr>, sort_key pa_StoreID (map snd live)))"

definition listPermissions :: "string \<Rightarrow> int \<Rightarrow> server \<Rightarrow> server \<times> any" where
  "listPermissions goos now s =
     (let requests = sort_key pr_CreatedAt (filter (\<lambda>p. pr_ExpiresAt p > now) (map snd (sv_pending s)));
          (s1, approvals) = livePreApprovals now s
      in (s1, ObjV [(''pending'', ArrV (map pending_payload requests)),
                    (''grants'', ArrV (map grantPayload (cf_BrowserIdentities (sv_Config s))
                                       @ map (nativeGrantPayload goos) (cf_NativeApps (sv_Config s)))),
                    (''preapproved'', ArrV (map (\<lambda>a. ObjV [(''storeId'', StrV (pa_StoreID a)),
                        (''capabilities'', strs (pa_Capabilities a)),
                        (''expiresAt'', num (unix_milli (pa_ExpiresAt a)))]) approvals))]))"

text \<open>\<open>handlePermissionsRPC\<close>; the request's socket and its authentication (None when the frame loop
  bound none) come with the call.\<close>

definition handlePermissionsRPC ::
  "(any \<Rightarrow> string) \<Rightarrow> (rat \<Rightarrow> int) \<Rightarrow> dyner \<Rightarrow> string \<Rightarrow> int \<Rightarrow> socket \<Rightarrow> socketAuthentication option \<Rightarrow> message \<Rightarrow> server
     \<Rightarrow> server \<times> (string + any)" where
  "handlePermissionsRPC sprint ovf fetch goos now k auth request s =
     (if auth = None \<or> \<not> socketAllows (sa_capabilities (the auth)) permissionsManage
      then (s, Inl (permissionDeniedError permissionsManage))
      else
        (let args = ObjectArg (m_Args request) 0; method = m_Method request in
         if method = ''list'' then (case listPermissions goos now s of (s1, v) \<Rightarrow> (s1, Inr v))
         else if method = ''decide'' then decidePermissions sprint now args s
         else if method = ''update'' then updateGrant sprint fetch goos now args s
         else if method = ''revoke'' then revokeGrant sprint args s
         else if method = ''preapprove'' then preapprovePermissions sprint ovf now args s
         else if method = ''subscribe'' then
           (s\<lparr>sv_subscribers := List.insert k (sv_subscribers s)\<rparr>, Inr (ok_reply [(''subscribed'', BoolV True)]))
         else (s, Inl ''unsupported permissions method'')))"

end
