(* ===== verification/Native_Apps.thy ===== *)
theory Native_Apps
  imports Registry
begin

text \<open>
  Natively installed apps (\<open>shellagent/native_apps.go\<close>) and their host channel
  (\<open>shellagent/native_host.go\<close>): install, uninstall and review of grants, the permission question
  an app's own window is asked, and the length-prefixed frames of the channel.

  The operating system's part (installing, launching and removing an app, fetching its icon and
  its start URL) is the record \<open>nativePlatform\<close> of answers. Waiting for the user is split: an
  operation that waits is given the state and the answer it finds when it resumes.
\<close>

record nativeInstallResult =
  nr_Path :: string
  nr_Executable :: string
  nr_CDHash :: string
  nr_BundleID :: string

record nativePlatform =
  np_supported :: "bool \<times> string"
  np_requiresOptIn :: bool
  np_name :: string
  np_startURL :: "string \<Rightarrow> string"
  np_icon :: "string \<Rightarrow> string \<Rightarrow> string + bytes"
  np_install :: "string \<Rightarrow> string \<Rightarrow> string \<Rightarrow> string \<Rightarrow> bytes \<Rightarrow> string + nativeInstallResult"
  np_uninstall :: "nativeApp \<Rightarrow> string + unit"
  np_launch :: "nativeApp \<Rightarrow> string + unit"

record nativeManifest =
  nm_app :: resolvedApp
  nm_origin :: string
  nm_revision :: string
  nm_reasons :: "(string, string) gomap"
  nm_orientation :: string

text \<open>\<open>UnmarshalJSON\<close> of the list: entries that do not parse (None) or validate are dropped.\<close>

definition native_list_decode :: "nativeApp option list \<Rightarrow> nativeApp list" where
  "native_list_decode raw =
     List.map_filter
       (\<lambda>e. case e of None \<Rightarrow> None | Some a \<Rightarrow> (case validate_native a of Inl _ \<Rightarrow> None | Inr _ \<Rightarrow> Some a)) raw"

definition nativeAvailable :: "nativePlatform \<Rightarrow> string \<Rightarrow> server \<Rightarrow> bool \<times> string" where
  "nativeAvailable np env s =
     (if np_requiresOptIn np \<and> \<not> cf_NativeAppsEnabled (sv_Config s) \<and> \<not> EnvEnabled env
      then (False, ''native apps on '' @ np_name np @
        '' are in preview; set DYNAPP_NATIVE_APPS=1 or nativeAppsEnabled in the agent config to try them'')
      else np_supported np)"

subsection \<open>The manifest\<close>

definition legacyHostedOrigin :: "config \<Rightarrow> string \<Rightarrow> string" where
  "legacyHostedOrigin c storeID =
     (if storeID = catalogAppID c \<and> catalogHostedOrigin c \<noteq> [] then catalogHostedOrigin c
      else
        (let (owner, slug, found) = cut_on (CHR ''/'') storeID in
         if appDomain c = [] \<or> \<not> found then []
         else ''https://'' @ to_lower (hosted_host owner slug (appDomain c))))"

definition truncateText :: "string \<Rightarrow> nat \<Rightarrow> string" where
  "truncateText v limit =
     (if length v \<le> limit then v else take limit v @ [CHR 0xE2, CHR 0x80, CHR 0xA6])"

definition obj_field :: "obj \<Rightarrow> string \<Rightarrow> obj" where
  "obj_field m k = (case as_obj (obj_get m k) of None \<Rightarrow> [] | Some v \<Rightarrow> v)"

definition detail_manifest :: "obj \<Rightarrow> obj" where
  "detail_manifest detail =
     obj_field (case latest_revision detail of None \<Rightarrow> [] | Some revision \<Rightarrow> revision) ''manifest''"

definition reason_step :: "(any \<Rightarrow> string) \<Rightarrow> (string, string) gomap \<Rightarrow> any \<Rightarrow> (string, string) gomap" where
  "reason_step sprint reasons entry =
     (case as_obj entry of
        None \<Rightarrow> reasons
      | Some m \<Rightarrow>
          (let permission = trim_space (StringValue sprint (obj_get m ''permission''));
               reason = trim_space (StringValue sprint (obj_get m ''reason''))
           in if permission \<noteq> [] \<and> reason \<noteq> [] then AList.update permission (truncateText reason 400) reasons
              else reasons))"

definition manifestPermissionReasons :: "(any \<Rightarrow> string) \<Rightarrow> obj \<Rightarrow> (string, string) gomap" where
  "manifestPermissionReasons sprint detail =
     foldl (reason_step sprint) []
       (case as_arr (obj_get (detail_manifest detail) ''backendPermissions'') of None \<Rightarrow> [] | Some es \<Rightarrow> es)"

definition validOrientation :: "string \<Rightarrow> string" where
  "validOrientation v = (if v = ''landscape'' \<or> v = ''portrait'' then v else [])"

definition manifestOrientation :: "obj \<Rightarrow> string" where
  "manifestOrientation detail =
     validOrientation
       (case as_str (obj_get (obj_field (detail_manifest detail) ''display'') ''orientation'') of
          None \<Rightarrow> [] | Some v \<Rightarrow> v)"

definition hosted_candidate :: "string \<Rightarrow> string option" where
  "hosted_candidate candidate =
     (case parseOrigin (trim_right_slash (trim_space candidate)) of
        None \<Rightarrow> None
      | Some parsed \<Rightarrow>
          if u_Scheme parsed = ''https'' \<or> u_Scheme parsed = ''http'' \<and> loopbackHostname (url_hostname parsed)
          then Some (canonical_origin parsed) else None)"

definition resolveNativeManifest ::
  "(any \<Rightarrow> string) \<Rightarrow> dyner \<Rightarrow> config \<Rightarrow> string \<Rightarrow> string + nativeManifest" where
  "resolveNativeManifest sprint fetch c storeID =
     (case fetch storeID of
        Inl e \<Rightarrow> Inl e
      | Inr detail \<Rightarrow>
          (case appFromDynerManifest sprint storeID detail of
             Inl e \<Rightarrow> Inl e
           | Inr resolved \<Rightarrow>
               (let origin0 = (case List.map_filter hosted_candidate (hosted_origins detail) of
                                 [] \<Rightarrow> [] | origin # _ \<Rightarrow> origin);
                    origin = (if origin0 = [] then legacyHostedOrigin c storeID else origin0)
                in if origin = [] then Inl ''Dyner did not report a hosted origin for this app''
                   else Inr \<lparr>nm_app = resolved, nm_origin = origin,
                             nm_revision = StringValue sprint (obj_get (obj_field detail ''latestRevision'') ''id''),
                             nm_reasons = manifestPermissionReasons sprint detail,
                             nm_orientation = manifestOrientation detail\<rparr>)))"

definition native_group_payload ::
  "string list \<Rightarrow> string list \<Rightarrow> (string, string) gomap \<Rightarrow> permissionGroupSummary \<Rightarrow> any" where
  "native_group_payload suggested granted reasons g =
     (let reason = (\<lambda>p. case map_of reasons p of None \<Rightarrow> [] | Some r \<Rightarrow> r) in
      ObjV [(''id'', StrV (sum_ID g)), (''title'', StrV (sum_Title g)), (''summary'', StrV (sum_Summary g)),
            (''danger'', StrV (sum_Danger g)), (''permissions'', strs (sum_Permissions g)),
            (''reasons'', strs (dedup_keep reason (\<lambda>r. r = []) [] (sum_Permissions g))),
            (''granted'', BoolV (list_all (\<lambda>p. p \<in> set granted) (sum_Permissions g))),
            (''suggested'', BoolV (list_ex (\<lambda>p. p \<in> set suggested) (sum_Permissions g) \<and> sum_Danger g \<noteq> ''very-high''))])"

definition nativePermissionGroups :: "string list \<Rightarrow> string list \<Rightarrow> (string, string) gomap \<Rightarrow> any list" where
  "nativePermissionGroups ask granted reasons =
     map (native_group_payload (suggestedPermissions ask) granted reasons) (groupPermissions ask)"

subsection \<open>Install and uninstall\<close>

definition installed_app ::
  "config \<Rightarrow> string \<Rightarrow> string list \<Rightarrow> nativeManifest \<Rightarrow> string \<Rightarrow> nativeInstallResult \<Rightarrow> int \<Rightarrow> nativeApp option \<Rightarrow> nativeApp" where
  "installed_app c storeID requested manifest startURL result now previous =
     (let declared = subtractStrings (ra_Declared (nm_app manifest)) [permissionsManage];
          app = \<lparr>na_StoreID = storeID, na_Name = ra_Name (nm_app manifest), na_Origin = nm_origin manifest,
                 na_URL = startURL, na_Path = nr_Path result, na_Executable = nr_Executable result,
                 na_CDHash = nr_CDHash result, na_BundleID = nr_BundleID result,
                 na_InstalledAt = (case previous of
                    Some p \<Rightarrow> if na_InstalledAt p \<noteq> 0 then na_InstalledAt p else unix_milli now
                  | None \<Rightarrow> unix_milli now),
                 na_Capabilities = normalizePermissionSet (intersectStrings requested declared),
                 na_Declared = normalizePermissionSet declared, na_Connect = ra_Connect (nm_app manifest),
                 na_ApprovedAt = unix_milli now, na_Authority = False, na_Orientation = nm_orientation manifest\<rparr>
      in if storeID = catalogAppID c
         then (let caps = normalizePermissionSet (unionStrings declared [permissionsManage]) in
               app\<lparr>na_Authority := True, na_Capabilities := caps, na_Declared := caps\<rparr>)
         else app)"

definition installNativeApp ::
  "(any \<Rightarrow> string) \<Rightarrow> dyner \<Rightarrow> nativePlatform \<Rightarrow> string \<Rightarrow> int \<Rightarrow> obj \<Rightarrow> server \<Rightarrow> server \<times> (string + any)" where
  "installNativeApp sprint fetch np env now args s =
     (case nativeAvailable np env s of (supported, reason) \<Rightarrow>
       if \<not> supported then (s, Inl (''native apps are not available here: '' @ reason))
       else
        (let storeID = trim_space (StringValue sprint (obj_get args ''storeId''));
             requested = (case capabilityArg args of None \<Rightarrow> [] | Some caps \<Rightarrow> caps);
             c = sv_Config s
         in if \<not> validStoreID storeID then (s, Inl ''a valid app store id is required'')
            else (case resolveNativeManifest sprint fetch c storeID of
                    Inl e \<Rightarrow> (s, Inl e)
                  | Inr manifest \<Rightarrow>
                      (case np_icon np (nm_origin manifest) (nm_revision manifest) of
                         Inl e \<Rightarrow> (s, Inl e)
                       | Inr icon \<Rightarrow>
                           (case np_install np storeID (ra_Name (nm_app manifest)) (nm_origin manifest)
                                   (np_startURL np (nm_origin manifest)) icon of
                              Inl e \<Rightarrow> (s, Inl e)
                            | Inr result \<Rightarrow>
                                (let app = installed_app c storeID requested manifest (np_startURL np (nm_origin manifest))
                                             result now (nativeApp_lookup storeID s);
                                     s1 = closeNativeSockets app statusServiceRestart ''Permissions changed'' (upsertNativeApp app s);
                                     reply = (\<lambda>launched. Inr (ObjV [(''storeId'', StrV storeID), (''name'', StrV (na_Name app)),
                                                (''path'', StrV (na_Path app)), (''launched'', BoolV launched)]))
                                 in if obj_get args ''launch'' = BoolV True
                                    then (case np_launch np app of
                                            Inl e \<Rightarrow> (s1, Inl (''installed '' @ na_Name app @ '' but could not open it: '' @ e))
                                          | Inr _ \<Rightarrow> (s1, reply True))
                                    else (s1, reply False)))))))"

definition uninstallNativeApp ::
  "(any \<Rightarrow> string) \<Rightarrow> nativePlatform \<Rightarrow> obj \<Rightarrow> server \<Rightarrow> server \<times> (string + any)" where
  "uninstallNativeApp sprint np args s =
     (let storeID = trim_space (StringValue sprint (obj_get args ''storeId'')) in
      case nativeApp_lookup storeID s of
        None \<Rightarrow> (s, Inl ''this app is not installed as a native app'')
      | Some app \<Rightarrow>
          (case np_uninstall np app of
             Inl e \<Rightarrow> (s, Inl e)
           | Inr _ \<Rightarrow> (closeNativeSockets app closePairingDeclined ''App uninstalled'' (removeNativeApp storeID s),
                       Inr (ObjV [(''removed'', BoolV True)]))))"

definition native_list_payload :: "nativeApp \<Rightarrow> any" where
  "native_list_payload app =
     ObjV [(''storeId'', StrV (na_StoreID app)), (''name'', StrV (na_Name app)), (''origin'', StrV (na_Origin app)),
           (''path'', StrV (na_Path app)), (''installedAt'', num (na_InstalledAt app)),
           (''capabilities'', strs (normalizePermissionSet (na_Capabilities app)))]"

definition handleNativeAppsRPC ::
  "(any \<Rightarrow> string) \<Rightarrow> dyner \<Rightarrow> nativePlatform \<Rightarrow> string \<Rightarrow> int \<Rightarrow> socketAuthentication option \<Rightarrow> message \<Rightarrow> server
     \<Rightarrow> server \<times> (string + any)" where
  "handleNativeAppsRPC sprint fetch np env now auth request s =
     (if auth = None \<or> \<not> socketAllows (sa_capabilities (the auth)) permissionsManage
      then (s, Inl (permissionDeniedError permissionsManage))
      else
        (let args = ObjectArg (m_Args request) 0; method = m_Method request in
         if method = ''nativeSupport'' then
           (case nativeAvailable np env s of (supported, reason) \<Rightarrow>
             (s, Inr (ObjV ([(''supported'', BoolV supported), (''platform'', StrV (np_name np))]
                        @ (if reason \<noteq> [] then [(''reason'', StrV reason)] else [])))))
         else if method = ''listNative'' then
           (s, Inr (ObjV [(''apps'', ArrV (map native_list_payload (sort_key na_StoreID (cf_NativeApps (sv_Config s)))))]))
         else if method = ''installNative'' then installNativeApp sprint fetch np env now args s
         else if method = ''uninstallNative'' then uninstallNativeApp sprint np args s
         else if method = ''launchNative'' then
           (case nativeApp_lookup (trim_space (StringValue sprint (obj_get args ''storeId''))) s of
              None \<Rightarrow> (s, Inl ''this app is not installed as a native app'')
            | Some app \<Rightarrow> (case np_launch np app of
                             Inl e \<Rightarrow> (s, Inl e)
                           | Inr _ \<Rightarrow> (s, Inr (ObjV [(''launched'', BoolV True)]))))
         else (s, Inl ''unsupported apps method'')))"

definition refreshNativeOrientation :: "dyner \<Rightarrow> string \<Rightarrow> server \<Rightarrow> server \<times> string \<times> bool" where
  "refreshNativeOrientation fetch storeID s =
     (case fetch storeID of
        Inl _ \<Rightarrow> (s, [], False)
      | Inr detail \<Rightarrow>
          (let orientation = manifestOrientation detail in
           case nativeApp_lookup storeID s of
             None \<Rightarrow> (s, [], False)
           | Some app \<Rightarrow>
               if na_Orientation app = orientation then (s, [], False)
               else (upsertNativeApp (app\<lparr>na_Orientation := orientation\<rparr>) s, orientation, True)))"

subsection \<open>Asking in the app's own window\<close>

text \<open>The question \<open>authorizeNativeApp\<close> puts: its kind (empty when there is none) and the permissions.\<close>

definition native_question :: "nativeApp \<Rightarrow> string list \<Rightarrow> string \<times> string list" where
  "native_question app declared =
     (if na_ApprovedAt app = 0 then (''pairing'', declared)
      else (let fresh = subtractStrings declared (na_Declared app) in
            if fresh \<noteq> [] then (''delta'', normalizePermissionSet fresh) else ('''', [])))"

definition native_decided ::
  "int \<Rightarrow> string \<Rightarrow> string list \<Rightarrow> string list \<Rightarrow> resolvedApp \<Rightarrow> string list \<Rightarrow> nativeApp \<Rightarrow> nativeApp" where
  "native_decided now kind ask declared resolved decision updated =
     (let granted = intersectStrings decision ask in
      updated\<lparr>na_Capabilities := (if kind = ''pairing'' then normalizePermissionSet granted
                                  else normalizePermissionSet (unionStrings (na_Capabilities updated) granted)),
              na_Declared := normalizePermissionSet (unionStrings (na_Declared updated) declared),
              na_ApprovedAt := (if na_ApprovedAt updated = 0 then unix_milli now else na_ApprovedAt updated),
              na_Connect := ra_Connect resolved\<rparr>)"

text \<open>The zero value Go returns for an app that is gone.\<close>

definition zero_native :: nativeApp where
  "zero_native = \<lparr>na_StoreID = [], na_Name = [], na_Origin = [], na_URL = [], na_Path = [], na_Executable = [],
     na_CDHash = [], na_BundleID = [], na_InstalledAt = 0, na_Capabilities = [], na_Declared = [], na_Connect = [],
     na_ApprovedAt = 0, na_Authority = False, na_Orientation = []\<rparr>"

text \<open>What \<open>authorizeNativeApp\<close> does with the outcome of \<open>awaitNativeDecision\<close>: an error, or the granted list and
  whether somebody decided. \<open>app\<close> is the record that was read before the question, \<open>s\<close> the state when the answer
  is there.\<close>

definition native_answered ::
  "int \<Rightarrow> nativeApp \<Rightarrow> resolvedApp \<Rightarrow> string \<Rightarrow> string list \<Rightarrow> string list \<Rightarrow> string + (string list \<times> bool)
     \<Rightarrow> server \<Rightarrow> server \<times> (string + socketAuthentication)" where
  "native_answered now app resolved kind ask declared answer s =
     (case answer of
        Inl e \<Rightarrow> (s, Inl e)
      | Inr (granted, decided) \<Rightarrow>
          if decided then
            (let current = (case nativeApp_lookup (na_StoreID app) s of None \<Rightarrow> zero_native | Some a \<Rightarrow> a);
                 updated = native_decided now kind ask declared resolved granted current
             in (upsertNativeApp updated s, Inr (authForNative updated (Some resolved))))
          else (s, Inr (authForNative app (Some resolved))))"

text \<open>The start of \<open>authorizeNativeApp\<close>, up to \<open>awaitNativeDecision\<close>: either the handshake is settled without a
  question (Inl), or the question is put (Inr), with the resolved app, its kind, the permissions asked for and those
  declared.\<close>

definition native_begin ::
  "(any \<Rightarrow> string) \<Rightarrow> dyner \<Rightarrow> int \<Rightarrow> nativeApp \<Rightarrow> server
     \<Rightarrow> server \<times> (socketAuthentication + resolvedApp \<times> string \<times> string list \<times> string list)" where
  "native_begin sprint fetch now app s =
     (case resolveNativeManifest sprint fetch (sv_Config s) (na_StoreID app) of
        Inl _ \<Rightarrow> (s, Inl (authForNative app None))
      | Inr manifest \<Rightarrow>
          if na_Authority app then (s, Inl (authForNative app (Some (nm_app manifest))))
          else
            (let declared = normalizePermissionSet (subtractStrings (ra_Declared (nm_app manifest)) [permissionsManage]);
                 (kind, ask) = native_question app declared
             in if kind \<noteq> [] \<and> ask \<noteq> [] then (s, Inr (nm_app manifest, kind, ask, declared))
                else if kind = ''pairing'' then
                  (let app1 = app\<lparr>na_ApprovedAt := unix_milli now, na_Declared := declared\<rparr>
                   in (upsertNativeApp app1 s, Inl (authForNative app1 (Some (nm_app manifest)))))
                else (s, Inl (authForNative app (Some (nm_app manifest))))))"

text \<open>\<open>authorizeNativeApp\<close>. \<open>await\<close> is \<open>awaitNativeDecision\<close>: given the question and the state, the state
  at the time it returns and the outcome.\<close>

definition authorizeNativeApp ::
  "(any \<Rightarrow> string) \<Rightarrow> dyner \<Rightarrow> (string \<Rightarrow> string list \<Rightarrow> server \<Rightarrow> server \<times> (string + (string list \<times> bool)))
     \<Rightarrow> int \<Rightarrow> nativeApp \<Rightarrow> server \<Rightarrow> server \<times> (string + socketAuthentication)" where
  "authorizeNativeApp sprint fetch await now app s =
     (case native_begin sprint fetch now app s of
        (s0, Inl auth) \<Rightarrow> (s0, Inr auth)
      | (s0, Inr (resolved, kind, ask, declared)) \<Rightarrow>
          (case await kind ask s0 of (s1, answer) \<Rightarrow> native_answered now app resolved kind ask declared answer s1))"

text \<open>What \<open>reviewNativeApp\<close> does with the host's answer (None is a cancelled review). The app is the
  record read before the question was asked.\<close>

definition review_declared :: "(any \<Rightarrow> string) \<Rightarrow> dyner \<Rightarrow> config \<Rightarrow> nativeApp \<Rightarrow> string list" where
  "review_declared sprint fetch c app =
     subtractStrings
       (case resolveNativeManifest sprint fetch c (na_StoreID app) of
          Inl _ \<Rightarrow> normalizePermissionSet (na_Declared app)
        | Inr manifest \<Rightarrow> normalizePermissionSet (unionStrings (normalizePermissionSet (na_Declared app)) (ra_Declared (nm_app manifest))))
       [permissionsManage]"

definition review_answer ::
  "int \<Rightarrow> string list \<Rightarrow> string list option \<Rightarrow> nativeApp \<Rightarrow> server \<Rightarrow> server \<times> bool \<times> string list" where
  "review_answer now declared answer app s =
     (case answer of
        None \<Rightarrow> (s, False, normalizePermissionSet (na_Capabilities app))
      | Some caps \<Rightarrow>
          (let granted0 = normalizePermissionSet (intersectStrings caps declared);
               granted = (if na_Authority app then unionStrings granted0 [permissionsManage] else granted0);
               app1 = app\<lparr>na_Capabilities := granted,
                        na_Declared := normalizePermissionSet (unionStrings (na_Declared app) declared),
                        na_ApprovedAt := (if na_ApprovedAt app = 0 then unix_milli now else na_ApprovedAt app)\<rparr>
           in (upsertNativeApp app1 s, \<not> sameCapabilitySet granted (na_Capabilities app), granted)))"

text \<open>The checks of \<open>queueNativeOpenFiles\<close> and \<open>validateNativeDropFiles\<close>; \<open>is_abs\<close> and \<open>clean\<close> are the
  platform's \<open>filepath.IsAbs\<close> and \<open>filepath.Clean\<close>.\<close>

definition queueNativeOpenFiles ::
  "(string \<Rightarrow> bool) \<Rightarrow> (string \<Rightarrow> string) \<Rightarrow> string \<Rightarrow> string list \<Rightarrow> server \<Rightarrow> (string, string list) gomap
     \<Rightarrow> string + (string, string list) gomap" where
  "queueNativeOpenFiles is_abs clean storeID paths s opens =
     (case nativeApp_lookup storeID s of
        None \<Rightarrow> Inl ''native app is no longer installed''
      | Some app \<Rightarrow>
          if ''externalOpen.files'' \<notin> set (sa_capabilities (authForNative app None))
          then Inl ''Allow opening external files in this app's permissions first''
          else if paths = [] \<or> length paths > 64 then Inl ''invalid number of files''
          else if \<not> list_all is_abs paths then Inl ''file path must be absolute''
          else Inr (AList.update storeID
                 ((case map_of opens storeID of None \<Rightarrow> [] | Some xs \<Rightarrow> xs) @ map clean paths) opens))"

definition validateNativeDropFiles :: "(string \<Rightarrow> bool) \<Rightarrow> string \<Rightarrow> string list \<Rightarrow> server \<Rightarrow> string + string list" where
  "validateNativeDropFiles is_abs storeID paths s =
     (case nativeApp_lookup storeID s of
        None \<Rightarrow> Inl ''native app is no longer installed''
      | Some app \<Rightarrow>
          if ''drop.files'' \<notin> set (sa_capabilities (authForNative app None))
          then Inl ''drop.files permission is required''
          else if paths = [] \<or> length paths > 128 then Inl ''invalid dropped file count (maximum 128)''
          else if \<not> list_all is_abs paths then Inl ''dropped file path must be absolute''
          else Inr paths)"

end
