(* ===== verification/Identity.thy ===== *)
theory Identity
  imports Native_Apps
begin

text \<open>
  Browser identities (\<open>shellagent/browser_identity.go\<close>, \<open>shellagent/browser_client.go\<close>): the
  challenge-response handshake of the local carriers, the reuse of stored grants, pairing of an
  unknown key, and the identity behind a live socket.

  The cryptographic check is the parameter \<open>ecdsa\<close> (curve membership, hashing and P-256
  verification of the 32-byte coordinates and the 64-byte signature) and \<open>b64d\<close> is unpadded
  base64url decoding. Waiting for the authority splits \<open>pairUnknownIdentity\<close> in two: what runs up
  to the wait, and what runs when it ends.
\<close>

definition newline :: char where
  "newline = CHR 0x0A"

definition directLocalPayload :: "string \<Rightarrow> string \<Rightarrow> string \<Rightarrow> string" where
  "directLocalPayload nonce origin keyID =
     ''dynapp-direct-local-v1'' @ newline # nonce @ newline # origin @ newline # keyID"

datatype directLocalOutcome =
    DirectLocalOK
  | DirectLocalProbe
  | DirectLocalAborted
  | DirectLocalRejected
  | DirectLocalDeclined
  | DirectLocalApprovalRequired

record directLocalProof =
  dlp_Type :: string
  dlp_Version :: int
  dlp_KeyID :: string
  dlp_Origin :: string
  dlp_Signature :: string

subsection \<open>The browser's description\<close>

text \<open>\<open>clipBrowserClientField\<close>: at most 80 runes without control characters. The text comes from
  decoded JSON, so it is valid UTF-8 and a rune is a byte followed by its continuation bytes.\<close>

definition is_continuation :: "char \<Rightarrow> bool" where
  "is_continuation c \<longleftrightarrow> 128 \<le> (of_char c :: nat) \<and> (of_char c :: nat) < 192"

fun clip_loop :: "nat \<Rightarrow> string \<Rightarrow> string" where
  "clip_loop n [] = []"
| "clip_loop n (c # cs) =
     (if (of_char c :: nat) < 32 \<or> (of_char c :: nat) = 127 then clip_loop n cs
      else if is_continuation c then c # clip_loop n cs
      else (case n of 0 \<Rightarrow> [] | Suc m \<Rightarrow> c # clip_loop m cs))"

definition clipBrowserClientField :: "string \<Rightarrow> string" where
  "clipBrowserClientField v = trim_space (clip_loop 80 (trim_space v))"

definition client_empty :: "browserClient \<Rightarrow> bool" where
  "client_empty c \<longleftrightarrow> bc_Browser c = [] \<and> bc_Version c = [] \<and> bc_Platform c = [] \<and> \<not> bc_Mobile c \<and> bc_Mode c = [] \<and> bc_Label c = []"

definition middle_dot :: string where
  "middle_dot = [CHR '' '', CHR 0xC2, CHR 0xB7, CHR '' '']"

definition formatBrowserClientLabel :: "browserClient \<Rightarrow> string" where
  "formatBrowserClientLabel c =
     (let name = trim_space (bc_Browser c @ '' '' @ bc_Version c);
          platform = trim_space (bc_Platform c);
          parts = (if platform = [] then (if name = [] then [] else [name])
                   else if name \<noteq> [] then [name @ '' on '' @ platform] else [platform]);
          parts1 = parts @ (if bc_Mode c = ''pwa'' then [''installed app'']
                            else if bc_Mode c = ''tab'' then [''browser tab''] else [])
      in (case parts1 of [] \<Rightarrow> [] | p # ps \<Rightarrow> p @ concat (map (\<lambda>q. middle_dot @ q) ps)))"

definition normalizeBrowserClient :: "browserClient option \<Rightarrow> browserClient" where
  "normalizeBrowserClient incoming =
     (case incoming of
        None \<Rightarrow> empty_client
      | Some c \<Rightarrow>
          (let mode0 = to_lower (trim_space (bc_Mode c));
               n = \<lparr>bc_Browser = clipBrowserClientField (bc_Browser c), bc_Version = clipBrowserClientField (bc_Version c),
                    bc_Platform = clipBrowserClientField (bc_Platform c), bc_Mobile = bc_Mobile c,
                    bc_Mode = (if mode0 = ''pwa'' \<or> mode0 = ''tab'' then mode0 else []),
                    bc_Label = clipBrowserClientField (bc_Label c)\<rparr>
           in if client_empty n then empty_client
              else if bc_Label n = [] then n\<lparr>bc_Label := formatBrowserClientLabel n\<rparr>
              else n))"

definition applyBrowserClient :: "browserIdentity \<Rightarrow> browserClient option \<Rightarrow> browserIdentity \<times> bool" where
  "applyBrowserClient i incoming =
     (let n = normalizeBrowserClient incoming in
      if client_empty n \<or> n = bi_Client i then (i, False) else (i\<lparr>bi_Client := n\<rparr>, True))"

subsection \<open>Effective capabilities\<close>

definition authForIdentity :: "browserIdentity \<Rightarrow> resolvedApp option \<Rightarrow> socketAuthentication" where
  "authForIdentity i app =
     (case app of
        None \<Rightarrow>
          \<lparr>sa_capabilities = normalizePermissionSet (bi_Capabilities i), sa_stored = bi_Capabilities i,
           sa_declared = bi_Capabilities i, sa_connect = bi_Connect i, sa_keyID = bi_KeyID i, sa_origin = bi_Origin i,
           sa_storeID = bi_StoreID i, sa_appName = storeSlug (bi_StoreID i), sa_development = False, sa_ok = True\<rparr>
      | Some a \<Rightarrow>
          \<lparr>sa_capabilities = normalizePermissionSet (intersectStrings (bi_Capabilities i) (ra_Declared a)),
           sa_stored = bi_Capabilities i, sa_declared = ra_Declared a, sa_connect = ra_Connect a,
           sa_keyID = bi_KeyID i, sa_origin = bi_Origin i,
           sa_storeID = (if bi_StoreID i = [] then ra_StoreID a else bi_StoreID i),
           sa_appName = ra_Name a, sa_development = ra_Development a, sa_ok = True\<rparr>)"

definition sameIdentityOrigin :: "string \<Rightarrow> string \<Rightarrow> bool" where
  "sameIdentityOrigin l r \<longleftrightarrow> l = r \<or> originEquivalent l r \<or> originEquivalent r l"

text \<open>The priority of an identity for reuse; None is the loop's \<open>continue\<close>.\<close>

definition grant_priority :: "string \<Rightarrow> string \<Rightarrow> browserIdentity \<Rightarrow> nat option" where
  "grant_priority origin storeID i =
     (if bi_Authority i \<or> \<not> sameIdentityOrigin (bi_Origin i) origin then None
      else if bi_StoreID i = storeID \<and> bi_ApprovedAt i > 0 then Some 2
      else if bi_StoreID i = [] \<and> bi_Capabilities i \<noteq> [] then Some 1
      else None)"

fun approved_loop :: "string \<Rightarrow> string \<Rightarrow> (browserIdentity \<times> nat) option \<Rightarrow> browserIdentity list \<Rightarrow> browserIdentity option" where
  "approved_loop origin storeID best [] = map_option fst best"
| "approved_loop origin storeID best (i # is) =
     approved_loop origin storeID
       (case grant_priority origin storeID i of
          None \<Rightarrow> best
        | Some p \<Rightarrow>
            (case best of
               None \<Rightarrow> Some (i, p)
             | Some (b, bp) \<Rightarrow> if p > bp \<or> p = bp \<and> bi_ApprovedAt i > bi_ApprovedAt b then Some (i, p) else best)) is"

definition findApprovedAppGrant :: "browserIdentity list \<Rightarrow> string \<Rightarrow> string \<Rightarrow> browserIdentity option" where
  "findApprovedAppGrant ids origin storeID = approved_loop origin storeID None ids"

definition verifyBrowserProof ::
  "(string \<Rightarrow> bytes option) \<Rightarrow> (bytes \<Rightarrow> bytes \<Rightarrow> string \<Rightarrow> bytes \<Rightarrow> bool) \<Rightarrow> browserIdentity \<Rightarrow> string \<Rightarrow> string \<Rightarrow> string \<Rightarrow> bool" where
  "verifyBrowserProof b64d ecdsa i nonce signedOrigin signature =
     (if bi_Origin i \<noteq> signedOrigin \<and> \<not> originEquivalent (bi_Origin i) signedOrigin then False
      else (case (b64d (bi_X i), b64d (bi_Y i), b64d signature) of
              (Some x, Some y, Some sig) \<Rightarrow>
                length x = 32 \<and> length y = 32 \<and> length sig = 64
                \<and> ecdsa x y (directLocalPayload nonce signedOrigin (bi_KeyID i)) sig
            | _ \<Rightarrow> False))"

definition identity_matches ::
  "(browserIdentity \<Rightarrow> string \<Rightarrow> string \<Rightarrow> string \<Rightarrow> bool) \<Rightarrow> directLocalInit \<Rightarrow> directLocalProof \<Rightarrow> string \<Rightarrow> string \<Rightarrow> browserIdentity \<Rightarrow> bool" where
  "identity_matches verify ini pf nonce requestOrigin i \<longleftrightarrow>
     bi_KeyID i = dlp_KeyID pf \<and> originEquivalent (bi_Origin i) (dlp_Origin pf)
     \<and> originEquivalent (bi_Origin i) requestOrigin
     \<and> \<not> (bi_StoreID i \<noteq> [] \<and> \<not> bi_Authority i
          \<and> (case dli_App ini of None \<Rightarrow> False | Some a \<Rightarrow> bi_StoreID i \<noteq> dla_StoreID a))
     \<and> verify i nonce (dlp_Origin pf) (dlp_Signature pf)"

definition matchDirectLocalIdentity ::
  "(browserIdentity \<Rightarrow> string \<Rightarrow> string \<Rightarrow> string \<Rightarrow> bool) \<Rightarrow> browserIdentity list \<Rightarrow> directLocalInit \<Rightarrow> directLocalProof \<Rightarrow> string \<Rightarrow> string
     \<Rightarrow> browserIdentity option" where
  "matchDirectLocalIdentity verify ids ini pf nonce requestOrigin =
     find (identity_matches verify ini pf nonce requestOrigin) ids"

subsection \<open>The stored list\<close>

definition identity_key :: "browserIdentity \<Rightarrow> string" where
  "identity_key i = bi_KeyID i @ newline # bi_Origin i @ newline # bi_StoreID i"

fun normalize_loop :: "(string \<Rightarrow> string) \<Rightarrow> string list \<Rightarrow> browserIdentity list \<Rightarrow> string + browserIdentity list" where
  "normalize_loop key_hash seen [] = Inr []"
| "normalize_loop key_hash seen (i # is) =
     (case validate_identity key_hash i of
        Inl e \<Rightarrow> Inl e
      | Inr _ \<Rightarrow>
          if identity_key i \<in> set seen then normalize_loop key_hash seen is
          else (case normalize_loop key_hash (identity_key i # seen) is of
                  Inl e \<Rightarrow> Inl e | Inr r \<Rightarrow> Inr (i # r)))"

definition normalizeBrowserIdentities :: "(string \<Rightarrow> string) \<Rightarrow> browserIdentity list \<Rightarrow> string + browserIdentity list" where
  "normalizeBrowserIdentities key_hash ids = normalize_loop key_hash [] ids"

definition mergeSyncedIdentities :: "(string \<Rightarrow> string) \<Rightarrow> browserIdentity list \<Rightarrow> browserIdentity list \<Rightarrow> browserIdentity list" where
  "mergeSyncedIdentities key_hash existing fresh =
     (let merged = filter (\<lambda>i. bi_ApprovedAt i > 0) existing @ fresh in
      case normalizeBrowserIdentities key_hash merged of Inl _ \<Rightarrow> merged | Inr n \<Rightarrow> n)"

definition hasBrowserIdentity :: "socketAuthentication \<Rightarrow> server \<Rightarrow> bool" where
  "hasBrowserIdentity auth s \<longleftrightarrow>
     (if has_prefix (sa_keyID auth) nativeKeyPrefix then hasNativeGrant auth s
      else (\<exists>i \<in> set (cf_BrowserIdentities (sv_Config s)).
              bi_KeyID i = sa_keyID auth \<and> bi_Origin i = sa_origin auth
              \<and> (bi_StoreID i = [] \<or> bi_StoreID i = sa_storeID auth)
              \<and> sameCapabilitySet (bi_Capabilities i) (sa_stored auth)))"

subsection \<open>Handshakes of known keys\<close>

definition granted_identity :: "int \<Rightarrow> string list \<Rightarrow> string list \<Rightarrow> resolvedApp \<Rightarrow> browserIdentity \<Rightarrow> browserIdentity" where
  "granted_identity now caps declared app i =
     i\<lparr>bi_Capabilities := normalizePermissionSet caps, bi_Declared := normalizePermissionSet declared,
       bi_Connect := ra_Connect app, bi_ApprovedAt := unix_milli now\<rparr>"

definition persist_if :: "bool \<Rightarrow> browserIdentity \<Rightarrow> server \<Rightarrow> server" where
  "persist_if changed i s = (if changed then upsertBrowserIdentity i s else s)"

definition continuePairedIdentity ::
  "(any \<Rightarrow> string) \<Rightarrow> dyner \<Rightarrow> int \<Rightarrow> config \<Rightarrow> browserIdentity \<Rightarrow> directLocalInit \<Rightarrow> string \<Rightarrow> server
     \<Rightarrow> server \<times> socketAuthentication \<times> directLocalOutcome" where
  "continuePairedIdentity sprint fetch now c identity0 ini requestOrigin s =
     (case applyBrowserClient identity0 (dli_Client ini) of (identity, changed) \<Rightarrow>
       if bi_Authority identity then
         (let (identity1, changed1) =
            (case resolveManifestApp sprint fetch (catalogAppID c) of
               Inl _ \<Rightarrow> (identity, changed)
             | Inr r \<Rightarrow>
                 (let declared = unionStrings (ra_Declared r) [permissionsManage] in
                  if subtractStrings declared (bi_Capabilities identity) \<noteq> []
                  then (identity\<lparr>bi_Capabilities := unionStrings (bi_Capabilities identity) declared,
                          bi_Declared := unionStrings (bi_Declared identity) declared, bi_Connect := ra_Connect r\<rparr>, True)
                  else (identity, changed)))
          in (persist_if changed1 identity1 s, authForIdentity identity1 None, DirectLocalOK))
       else if dli_Version ini \<ge> 2 \<and> dli_App ini \<noteq> None then
         (case resolveApp sprint fetch (sv_Config s) requestOrigin ini of
            Inl _ \<Rightarrow> (persist_if changed identity s, authForIdentity identity None, DirectLocalOK)
          | Inr r \<Rightarrow>
              (case consumePreApproval now (ra_StoreID r) s of
                 (s1, Some approval) \<Rightarrow>
                   (let i1 = granted_identity now (intersectStrings (pa_Capabilities approval) (ra_Declared r)) (ra_Declared r) r identity;
                        i2 = (if bi_StoreID i1 = [] then i1\<lparr>bi_StoreID := ra_StoreID r\<rparr> else i1)
                    in (upsertBrowserIdentity i2 s1, authForIdentity i2 (Some r), DirectLocalOK))
               | (s1, None) \<Rightarrow>
                   (let expanded = normalizePermissionSet (unionStrings (bi_Declared identity) (ra_Declared r)) in
                    if subtractStrings expanded (bi_Declared identity) \<noteq> []
                    then (let i1 = identity\<lparr>bi_Declared := expanded, bi_Connect := ra_Connect r\<rparr>
                          in (upsertBrowserIdentity i1 s1, authForIdentity i1 (Some r), DirectLocalOK))
                    else (persist_if changed identity s1, authForIdentity identity (Some r), DirectLocalOK))))
       else (persist_if changed identity s, authForIdentity identity None, DirectLocalOK))"

subsection \<open>Pairing an unknown key\<close>

definition recordAuthorityIdentity ::
  "(any \<Rightarrow> string) \<Rightarrow> dyner \<Rightarrow> int \<Rightarrow> config \<Rightarrow> browserIdentity \<Rightarrow> directLocalInit \<Rightarrow> server \<Rightarrow> server \<times> socketAuthentication" where
  "recordAuthorityIdentity sprint fetch now c identity ini s =
     (let catalogID = catalogAppID c;
          (declared, connect) =
            (case resolveManifestApp sprint fetch catalogID of
               Inr r \<Rightarrow> (ra_Declared r, ra_Connect r)
             | Inl _ \<Rightarrow>
                 (case dli_App ini of
                    None \<Rightarrow> ([], [])
                  | Some a \<Rightarrow> (normalizePermissionList sprint (dla_DeclaredPermissions a),
                               case connectFromInit (dla_Connect a) of Inl _ \<Rightarrow> [] | Inr m \<Rightarrow> m)));
          caps = unionStrings declared [permissionsManage];
          i = identity\<lparr>bi_Authority := True, bi_StoreID := catalogID, bi_Capabilities := caps, bi_Declared := caps,
                bi_Connect := connect, bi_ApprovedAt := unix_milli now\<rparr>
      in (upsertBrowserIdentity i s, authForIdentity i None))"

datatype pairing =
    Settled socketAuthentication directLocalOutcome
  | Waiting browserIdentity resolvedApp pendingRequest

definition new_identity :: "browserJWK \<Rightarrow> directLocalProof \<Rightarrow> browserIdentity" where
  "new_identity jwk pf =
     \<lparr>bi_KeyID = dlp_KeyID pf, bi_KTY = jwk_KTY jwk, bi_CRV = jwk_CRV jwk, bi_X = jwk_X jwk, bi_Y = jwk_Y jwk,
      bi_Origin = dlp_Origin pf, bi_Capabilities = [], bi_StoreID = [], bi_Connect = [], bi_ApprovedAt = 0,
      bi_Declared = [], bi_Authority = False, bi_Client = empty_client\<rparr>"

definition pairing_request :: "browserIdentity \<Rightarrow> resolvedApp \<Rightarrow> pendingRequest" where
  "pairing_request i r =
     \<lparr>pr_ID = [], pr_Code = [], pr_Kind = ''pairing'', pr_StoreID = ra_StoreID r, pr_AppName = ra_Name r,
      pr_Origin = bi_Origin i, pr_Development = ra_Development r, pr_Declared = ra_Declared r,
      pr_CreatedAt = 0, pr_ExpiresAt = 0, pr_decision = None, pr_resolved = False\<rparr>"

text \<open>An app identity granted \<open>caps\<close> with ceiling \<open>declared\<close>, stored and turned into the socket's
  authentication: the tail every branch of \<open>pairUnknownIdentity\<close> shares.\<close>

definition store_grant ::
  "int \<Rightarrow> string list \<Rightarrow> string list \<Rightarrow> resolvedApp \<Rightarrow> browserIdentity \<Rightarrow> server \<Rightarrow> server \<times> socketAuthentication" where
  "store_grant now caps declared r identity s =
     (let i = granted_identity now caps declared r (identity\<lparr>bi_StoreID := ra_StoreID r\<rparr>)
      in (upsertBrowserIdentity i s, authForIdentity i (Some r)))"

definition settle :: "server \<times> socketAuthentication \<Rightarrow> server \<times> pairing" where
  "settle r = (fst r, Settled (snd r) DirectLocalOK)"

text \<open>The part of \<open>pairUnknownIdentity\<close> for an app key, from the resolved app on; \<open>sent\<close> tells whether
  the pending notice could be written to the socket.\<close>

definition pair_app ::
  "(bytes \<Rightarrow> string) \<Rightarrow> (nat \<Rightarrow> (nat \<times> bytes) option) \<Rightarrow> bool \<Rightarrow> int \<Rightarrow> browserIdentity \<Rightarrow> string \<Rightarrow> resolvedApp \<Rightarrow> server
     \<Rightarrow> server \<times> pairing" where
  "pair_app b64 draw sent now identity origin resolved0 s =
     (let r = resolved0\<lparr>ra_Declared := subtractStrings (ra_Declared resolved0) [permissionsManage]\<rparr> in
      case consumePreApproval now (ra_StoreID r) s of
        (s1, Some approval) \<Rightarrow>
          settle (store_grant now (intersectStrings (pa_Capabilities approval) (ra_Declared r)) (ra_Declared r) r identity s1)
      | (s1, None) \<Rightarrow>
          (case findApprovedAppGrant (cf_BrowserIdentities (sv_Config s1)) origin (ra_StoreID r) of
             Some existing \<Rightarrow>
               settle (store_grant now (intersectStrings (bi_Capabilities existing) (ra_Declared r))
                         (unionStrings (bi_Declared existing) (ra_Declared r)) r identity s1)
           | None \<Rightarrow>
               if sv_autoApprove s1 then settle (store_grant now (ra_Declared r) (ra_Declared r) r identity s1)
               else (case registerPending b64 now draw (pairing_request identity r) s1 of
                       (s2, Inl _) \<Rightarrow> (s2, Settled no_auth DirectLocalRejected)
                     | (s2, Inr p) \<Rightarrow>
                         if \<not> sent then (unregisterPending (pr_ID p) s2, Settled no_auth DirectLocalAborted)
                         else (s2, Waiting identity r p))))"

definition pairUnknownIdentity ::
  "(any \<Rightarrow> string) \<Rightarrow> (string \<Rightarrow> string) \<Rightarrow> (browserIdentity \<Rightarrow> string \<Rightarrow> string \<Rightarrow> string \<Rightarrow> bool) \<Rightarrow> dyner
     \<Rightarrow> (bytes \<Rightarrow> string) \<Rightarrow> (nat \<Rightarrow> (nat \<times> bytes) option) \<Rightarrow> bool \<Rightarrow> int \<Rightarrow> config \<Rightarrow> directLocalInit \<Rightarrow> directLocalProof
     \<Rightarrow> string \<Rightarrow> string \<Rightarrow> server \<Rightarrow> server \<times> pairing" where
  "pairUnknownIdentity sprint key_hash verify fetch b64 draw sent now c ini pf nonce requestOrigin s =
     (case dli_PublicKeyJWK ini of
        None \<Rightarrow> (s, Settled no_auth DirectLocalRejected)
      | Some jwk \<Rightarrow>
          if dli_Version ini < 2 then (s, Settled no_auth DirectLocalRejected)
          else
            (let identity = fst (applyBrowserClient (new_identity jwk pf) (dli_Client ini)) in
             if validate_identity key_hash identity \<noteq> Inr ()
                \<or> \<not> verify identity nonce (dlp_Origin pf) (dlp_Signature pf)
             then (s, Settled no_auth DirectLocalRejected)
             else if isAuthorityOrigin c requestOrigin
             then settle (recordAuthorityIdentity sprint fetch now c identity ini s)
             else if dli_App ini = None then (s, Settled no_auth DirectLocalRejected)
             else (case resolveApp sprint fetch (sv_Config s) requestOrigin ini of
                     Inl _ \<Rightarrow> (s, Settled no_auth DirectLocalRejected)
                   | Inr resolved \<Rightarrow> pair_app b64 draw sent now identity (dlp_Origin pf) resolved s)))"

text \<open>The end of the wait: \<open>answer\<close> is what \<open>awaitDecision\<close> returned.\<close>

definition finish_pairing ::
  "int \<Rightarrow> browserIdentity \<Rightarrow> resolvedApp \<Rightarrow> string list option \<Rightarrow> server \<Rightarrow> server \<times> socketAuthentication \<times> directLocalOutcome" where
  "finish_pairing now identity r answer s =
     (case answer of
        None \<Rightarrow> (s, no_auth, DirectLocalDeclined)
      | Some granted \<Rightarrow>
          (case store_grant now (intersectStrings granted (ra_Declared r)) (ra_Declared r) r identity s of
             (s1, auth) \<Rightarrow> (s1, auth, DirectLocalOK)))"

text \<open>
  \<open>authenticateDirectLocal\<close> from the two records read off the socket (None when reading or decoding
  failed; \<open>written\<close> is whether the challenge could be sent). \<open>synced\<close> is the list
  \<open>SyncBrowserIdentities\<close> returns, None on error.
\<close>

definition authenticateDirectLocal ::
  "(any \<Rightarrow> string) \<Rightarrow> (string \<Rightarrow> string) \<Rightarrow> (browserIdentity \<Rightarrow> string \<Rightarrow> string \<Rightarrow> string \<Rightarrow> bool) \<Rightarrow> dyner
     \<Rightarrow> (bytes \<Rightarrow> string) \<Rightarrow> (nat \<Rightarrow> (nat \<times> bytes) option) \<Rightarrow> bool \<Rightarrow> int \<Rightarrow> browserIdentity list option
     \<Rightarrow> directLocalInit option option \<Rightarrow> bool \<Rightarrow> directLocalProof option option \<Rightarrow> string \<Rightarrow> string \<Rightarrow> server
     \<Rightarrow> server \<times> pairing" where
  "authenticateDirectLocal sprint key_hash verify fetch b64 draw sent now synced initial written wire nonce requestOrigin s =
     (case initial of
        None \<Rightarrow> (s, Settled no_auth DirectLocalAborted)
      | Some None \<Rightarrow> (s, Settled no_auth DirectLocalRejected)
      | Some (Some ini) \<Rightarrow>
          if dli_Version ini \<noteq> 1 \<and> dli_Version ini \<noteq> 2 then (s, Settled no_auth DirectLocalRejected)
          else if \<not> written then (s, Settled no_auth DirectLocalAborted)
          else if dli_Type ini = ''dynapp-direct-local-probe'' then (s, Settled no_auth DirectLocalProbe)
          else if dli_Type ini \<noteq> ''dynapp-direct-local-init'' then (s, Settled no_auth DirectLocalRejected)
          else (case wire of
                  None \<Rightarrow> (s, Settled no_auth DirectLocalAborted)
                | Some None \<Rightarrow> (s, Settled no_auth DirectLocalRejected)
                | Some (Some pf) \<Rightarrow>
                    if dlp_Type pf \<noteq> ''dynapp-direct-local-auth'' \<or> dlp_Version pf \<noteq> 1
                    then (s, Settled no_auth DirectLocalRejected)
                    else if parseOrigin (dlp_Origin pf) = None
                            \<or> \<not> originEquivalent (dlp_Origin pf) requestOrigin \<and> dlp_Origin pf \<noteq> requestOrigin
                    then (s, Settled no_auth DirectLocalRejected)
                    else
                      (let c = sv_Config s;
                           continue = (\<lambda>i s'. case continuePairedIdentity sprint fetch now c i ini requestOrigin s' of
                                         (s1, auth, oc) \<Rightarrow> (s1, Settled auth oc));
                           pair = pairUnknownIdentity sprint key_hash verify fetch b64 draw sent now c ini pf nonce requestOrigin
                       in case matchDirectLocalIdentity verify (cf_BrowserIdentities c) ini pf nonce requestOrigin of
                            Some i \<Rightarrow> continue i s
                          | None \<Rightarrow>
                              (case synced of
                                 None \<Rightarrow> pair s
                               | Some fresh \<Rightarrow>
                                   (let merged = mergeSyncedIdentities key_hash (cf_BrowserIdentities c) fresh;
                                        s1 = set_identities merged s
                                    in case matchDirectLocalIdentity verify merged ini pf nonce requestOrigin of
                                         Some i \<Rightarrow> continue i s1
                                       | None \<Rightarrow> pair s1)))))"

end
