(* ===== verification/Access.thy ===== *)
theory Access
  imports Identity
begin

text \<open>
  The access-control system as a whole: sockets connect and are challenged, wait for the
  authority, send frames through the gate to the \<open>permissions\<close> and \<open>apps\<close> services, and go away,
  in any order. The lemmas establish who can hold \<open>permissions.manage\<close> and who can change the
  permission state.
\<close>

record env =
  ev_sprint :: "any \<Rightarrow> string"
  ev_ovf :: "rat \<Rightarrow> int"
  ev_fetch :: dyner
  ev_goos :: string
  ev_b64 :: "bytes \<Rightarrow> string"
  ev_key_hash :: "string \<Rightarrow> string"
  ev_verify :: "browserIdentity \<Rightarrow> string \<Rightarrow> string \<Rightarrow> string \<Rightarrow> bool"
  ev_platform :: nativePlatform
  ev_optIn :: string

record system =
  sy_server :: server
  sy_waiting :: "(string, socket \<times> browserIdentity \<times> resolvedApp) gomap"
  sy_asking :: "(socket, nativeApp \<times> resolvedApp \<times> string \<times> string list \<times> string list) gomap"

text \<open>What a carrier hands to the handshake.\<close>

record attempt =
  at_draw :: "nat \<Rightarrow> (nat \<times> bytes) option"
  at_sent :: bool
  at_synced :: "browserIdentity list option"
  at_initial :: "directLocalInit option option"
  at_written :: bool
  at_wire :: "directLocalProof option option"
  at_nonce :: string
  at_origin :: string

datatype event =
    Connect_socket socket int attempt
  | Wake_pairing wake string int
  | Frame socket int message
  | Native_socket socket int nativeApp
  | Native_answer socket int "string + string list \<times> bool"
  | Disconnect socket

text \<open>Only authenticated keys are tracked (\<open>serveAuthenticatedSocket\<close>).\<close>

definition go_live :: "socket \<Rightarrow> socketAuthentication \<Rightarrow> server \<Rightarrow> server" where
  "go_live k auth s = (if sa_ok auth \<and> sa_keyID auth \<noteq> [] then trackLiveSocket k auth s else s)"

definition connect_socket :: "env \<Rightarrow> socket \<Rightarrow> int \<Rightarrow> attempt \<Rightarrow> system \<Rightarrow> system" where
  "connect_socket ev k now a sy =
     (case authenticateDirectLocal (ev_sprint ev) (ev_key_hash ev) (ev_verify ev) (ev_fetch ev) (ev_b64 ev)
             (at_draw a) (at_sent a) now (at_synced a) (at_initial a) (at_written a) (at_wire a) (at_nonce a)
             (at_origin a) (sy_server sy) of
        (s, Settled auth oc) \<Rightarrow> sy\<lparr>sy_server := (if oc = DirectLocalOK then go_live k auth s else s)\<rparr>
      | (s, Waiting i r p) \<Rightarrow> sy\<lparr>sy_server := s, sy_waiting := AList.update (pr_ID p) (k, i, r) (sy_waiting sy)\<rparr>)"

definition wake_pairing :: "wake \<Rightarrow> string \<Rightarrow> int \<Rightarrow> system \<Rightarrow> system" where
  "wake_pairing w i now sy =
     (case map_of (sy_waiting sy) i of
        None \<Rightarrow> sy
      | Some (k, identity, r) \<Rightarrow>
          (case awaitDecision w i (sy_server sy) of
             None \<Rightarrow> sy
           | Some (s, answer) \<Rightarrow>
               (case finish_pairing now identity r answer s of
                  (s1, auth, oc) \<Rightarrow>
                    sy\<lparr>sy_server := (if oc = DirectLocalOK then go_live k auth s1 else s1),
                       sy_waiting := AList.delete i (sy_waiting sy)\<rparr>)))"

definition native_methods :: "string list" where
  "native_methods = [''nativeSupport'', ''listNative'', ''installNative'', ''uninstallNative'', ''launchNative'']"

text \<open>A frame on a live socket: the gate first, then the two services that change the permission
  state. The other services of \<open>handleRPC\<close> and the native methods' siblings leave it alone.\<close>

definition serve_rpc :: "env \<Rightarrow> socket \<Rightarrow> int \<Rightarrow> socketAuthentication \<Rightarrow> message \<Rightarrow> server \<Rightarrow> server" where
  "serve_rpc ev k now auth request s =
     (if m_Service request = ''permissions'' then
        fst (handlePermissionsRPC (ev_sprint ev) (ev_ovf ev) (ev_fetch ev) (ev_goos ev) now k (Some auth) request s)
      else if m_Service request = ''apps'' \<and> m_Method request \<in> set native_methods then
        fst (handleNativeAppsRPC (ev_sprint ev) (ev_fetch ev) (ev_platform ev) (ev_optIn ev) now (Some auth) request s)
      else s)"

definition frame_step :: "env \<Rightarrow> socket \<Rightarrow> int \<Rightarrow> message \<Rightarrow> system \<Rightarrow> system" where
  "frame_step ev k now request sy =
     (case map_of (sv_live (sy_server sy)) k of
        None \<Rightarrow> sy
      | Some auth \<Rightarrow>
          (case serve_frame (ev_sprint ev) auth (hasBrowserIdentity auth (sy_server sy)) (\<lambda>_. False) (Some request) of
             ToRPC r \<Rightarrow> sy\<lparr>sy_server := serve_rpc ev k now auth r (sy_server sy)\<rparr>
           | _ \<Rightarrow> sy))"

text \<open>A host process of an installed app connects: it is let in at once or its question is put. The outcome of the
  question, a failure or the permissions granted and whether anybody decided, comes with a later event, after any
  events of others. (The entry the question has in the registry of pending requests is not modelled here.)\<close>

definition native_socket :: "env \<Rightarrow> socket \<Rightarrow> int \<Rightarrow> nativeApp \<Rightarrow> system \<Rightarrow> system" where
  "native_socket ev k now app sy =
     (case nativeApp_lookup (na_StoreID app) (sy_server sy) of
        None \<Rightarrow> sy
      | Some current \<Rightarrow>
          (case native_begin (ev_sprint ev) (ev_fetch ev) now current (sy_server sy) of
             (s, Inl auth) \<Rightarrow> sy\<lparr>sy_server := go_live k auth s\<rparr>
           | (s, Inr question) \<Rightarrow> sy\<lparr>sy_server := s, sy_asking := AList.update k (current, question) (sy_asking sy)\<rparr>))"

definition native_answer :: "socket \<Rightarrow> int \<Rightarrow> string + string list \<times> bool \<Rightarrow> system \<Rightarrow> system" where
  "native_answer k now answer sy =
     (case map_of (sy_asking sy) k of
        None \<Rightarrow> sy
      | Some (app, resolved, kind, ask, declared) \<Rightarrow>
          (let sy1 = sy\<lparr>sy_asking := AList.delete k (sy_asking sy)\<rparr> in
           case native_answered now app resolved kind ask declared answer (sy_server sy) of
             (s, Inl _) \<Rightarrow> sy1\<lparr>sy_server := s\<rparr>
           | (s, Inr auth) \<Rightarrow> sy1\<lparr>sy_server := go_live k auth s\<rparr>))"

definition system_step :: "env \<Rightarrow> system \<Rightarrow> event \<Rightarrow> system" where
  "system_step ev sy e =
     (case e of
        Connect_socket k now a \<Rightarrow> connect_socket ev k now a sy
      | Wake_pairing w i now \<Rightarrow> wake_pairing w i now sy
      | Frame k now request \<Rightarrow> frame_step ev k now request sy
      | Native_socket k now app \<Rightarrow> native_socket ev k now app sy
      | Native_answer k now answer \<Rightarrow> native_answer k now answer sy
      | Disconnect k \<Rightarrow> sy\<lparr>sy_server := untrackLiveSocket k (sy_server sy)\<rparr>)"

subsection \<open>Sets without the authority's permission\<close>

definition plain :: "string list \<Rightarrow> bool" where
  "plain caps \<longleftrightarrow> permissionsManage \<notin> trim_space ` set caps"

lemma pm_trim [simp]: "trim_space permissionsManage = permissionsManage"
  by code_simp

lemma pm_nonempty [simp]: "permissionsManage \<noteq> []" "[] \<noteq> permissionsManage"
  by (simp_all add: permissionsManage_def)

lemma plain_Nil [simp]: "plain []"
  by (simp add: plain_def)

lemma normalize_not_plain: "permissionsManage \<in> set (normalizePermissionSet caps) \<longleftrightarrow> \<not> plain caps"
  by (auto simp: plain_def)

lemma plain_normalize [simp]: "plain (normalizePermissionSet caps) \<longleftrightarrow> plain caps"
proof -
  have "trim_space ` set (normalizePermissionSet caps) = set (normalizePermissionSet caps)"
    using normalizePermissionSet_mem_trimmed [of _ caps] by (metis (no_types, lifting) image_cong image_ident)
  then show ?thesis
    using normalize_not_plain [of caps] unfolding plain_def [of "normalizePermissionSet caps"] by (simp only:) blast
qed

lemma plain_subset: "plain b \<Longrightarrow> set a \<subseteq> set b \<Longrightarrow> plain a"
  by (auto simp: plain_def)

lemma plain_intersect1: "plain a \<Longrightarrow> plain (intersectStrings a b)"
  by (erule plain_subset) auto

lemma plain_intersect2: "plain b \<Longrightarrow> plain (intersectStrings a b)"
  by (erule plain_subset) auto

lemma plain_union: "plain a \<Longrightarrow> plain b \<Longrightarrow> plain (unionStrings a b)"
  by (auto simp: plain_def)

lemma plain_subtract: "(\<And>p. p \<in> set a \<Longrightarrow> trim_space p = p) \<Longrightarrow> plain (subtractStrings a [permissionsManage])"
  by (auto simp: plain_def)

lemma plain_subtract_normal [simp]: "plain (subtractStrings (normalizePermissionSet a) [permissionsManage])"
  by (rule plain_subtract) auto

lemmas plain_intros = plain_intersect1 plain_intersect2 plain_union plain_subtract

lemma capabilityArg_trimmed: "capabilityArg args = Some caps \<Longrightarrow> p \<in> set caps \<Longrightarrow> trim_space p = p"
  by (auto simp: capabilityArg_def split: option.splits if_splits)

lemma plain_clamp:
  assumes "\<And>p. p \<in> set requested \<Longrightarrow> trim_space p = p"
  shows "plain (clamp_grant limits False requested)"
  using assms by (auto simp: clamp_grant_def Let_def intro!: plain_subtract)

lemma clamp_authority: "permissionsManage \<in> set (clamp_grant limits True requested)"
proof -
  have "permissionsManage \<in> set (unionStrings x [permissionsManage])" for x by simp
  then have "trim_space permissionsManage \<in> trim_space ` set (unionStrings x [permissionsManage])" for x
    by (rule imageI)
  then show ?thesis by (simp add: clamp_grant_def Let_def del: set_unionStrings)
qed

subsection \<open>The invariant\<close>

definition identity_ok :: "string set \<Rightarrow> browserIdentity \<Rightarrow> bool" where
  "identity_ok K i \<longleftrightarrow> bi_Authority i \<or> plain (bi_Capabilities i) \<or> bi_KeyID i \<in> K"

definition native_ok :: "string \<Rightarrow> nativeApp \<Rightarrow> bool" where
  "native_ok n a \<longleftrightarrow>
     (na_Authority a \<longleftrightarrow> na_StoreID a = n)
     \<and> (if na_Authority a then permissionsManage \<in> set (na_Capabilities a) else plain (na_Capabilities a))"

definition auth_ok :: "socketAuthentication \<Rightarrow> bool" where
  "auth_ok auth \<longleftrightarrow> sa_keyID auth \<noteq> [] \<and> (permissionsManage \<in> set (sa_capabilities auth) \<longrightarrow> \<not> plain (sa_stored auth))"

definition server_ok :: "string set \<Rightarrow> string \<Rightarrow> server \<Rightarrow> bool" where
  "server_ok K n s \<longleftrightarrow>
     catalogAppID (sv_Config s) = n
     \<and> (\<forall>i \<in> set (cf_BrowserIdentities (sv_Config s)). identity_ok K i)
     \<and> (\<forall>a \<in> set (cf_NativeApps (sv_Config s)). native_ok n a)
     \<and> (\<forall>(_, a) \<in> set (sv_preapproved s). plain (pa_Capabilities a))
     \<and> (\<forall>(_, auth) \<in> set (sv_live s). auth_ok auth)"

definition asking_ok :: "string \<Rightarrow> (socket, nativeApp \<times> resolvedApp \<times> string \<times> string list \<times> string list) gomap \<Rightarrow> bool" where
  "asking_ok n m \<longleftrightarrow> (\<forall>(_, app, _, _, ask, _) \<in> set m. \<not> na_Authority app \<and> native_ok n app \<and> plain ask)"

definition system_ok :: "string set \<Rightarrow> string \<Rightarrow> system \<Rightarrow> bool" where
  "system_ok K n sy \<longleftrightarrow>
     server_ok K n (sy_server sy)
     \<and> (\<forall>(_, _, i, r) \<in> set (sy_waiting sy). \<not> bi_Authority i \<and> plain (ra_Declared r))
     \<and> asking_ok n (sy_asking sy)"

lemma asking_ok_delete: "asking_ok n m \<Longrightarrow> asking_ok n (AList.delete k m)"
  using set_AList_delete [of k m] by (auto simp: asking_ok_def)

lemma asking_ok_update:
  "asking_ok n m \<Longrightarrow> \<not> na_Authority app \<Longrightarrow> native_ok n app \<Longrightarrow> plain ask \<Longrightarrow>
     asking_ok n (AList.update k (app, r, kind, ask, declared) m)"
  unfolding asking_ok_def by (auto dest!: subsetD [OF set_AList_update])

lemma asking_ok_lookup:
  "asking_ok n m \<Longrightarrow> map_of m k = Some (app, r, kind, ask, declared) \<Longrightarrow>
     \<not> na_Authority app \<and> native_ok n app \<and> plain ask"
  unfolding asking_ok_def by (auto dest!: map_of_SomeD)

lemma catalogAppID_fields [simp]:
  "catalogAppID (c\<lparr>cf_BrowserIdentities := ids\<rparr>) = catalogAppID c"
  "catalogAppID (c\<lparr>cf_NativeApps := apps\<rparr>) = catalogAppID c"
  by (simp_all add: catalogAppID_def)

lemma native_ok_fields [simp]:
  "native_ok n (a\<lparr>na_Declared := d\<rparr>) = native_ok n a"
  "native_ok n (a\<lparr>na_ApprovedAt := t\<rparr>) = native_ok n a"
  "native_ok n (a\<lparr>na_Connect := c\<rparr>) = native_ok n a"
  "native_ok n (a\<lparr>na_Orientation := o'\<rparr>) = native_ok n a"
  by (simp_all add: native_ok_def)

lemma identity_ok_fields [simp]:
  "identity_ok K (i\<lparr>bi_Declared := d\<rparr>) = identity_ok K i"
  "identity_ok K (i\<lparr>bi_ApprovedAt := t\<rparr>) = identity_ok K i"
  "identity_ok K (i\<lparr>bi_Connect := c\<rparr>) = identity_ok K i"
  "identity_ok K (i\<lparr>bi_StoreID := n\<rparr>) = identity_ok K i"
  "identity_ok K (i\<lparr>bi_Client := b\<rparr>) = identity_ok K i"
  by (simp_all add: identity_ok_def)

text \<open>An identity Dyner sends may hold \<open>permissions.manage\<close> without being marked as an authority; its key is then in \<open>K\<close>.\<close>

definition legal_event :: "string set \<Rightarrow> event \<Rightarrow> bool" where
  "legal_event K e \<longleftrightarrow>
     (case e of
        Connect_socket k now a \<Rightarrow> (case at_synced a of None \<Rightarrow> True | Some fresh \<Rightarrow> list_all (identity_ok K) fresh)
      | _ \<Rightarrow> True)"

lemma find_in: "find P xs = Some x \<Longrightarrow> x \<in> set xs"
  by (metis find_Some_iff nth_mem)

lemma set_upsert_by: "set (upsert_by same x xs) \<subseteq> insert x (set xs)"
  by (auto simp: upsert_by_def)

lemma server_ok_identities:
  "server_ok K n s \<Longrightarrow> (\<And>i. i \<in> set ids \<Longrightarrow> identity_ok K i) \<Longrightarrow> server_ok K n (set_identities ids s)"
  by (simp add: server_ok_def set_identities_def)

lemma server_ok_identity: "server_ok K n s \<Longrightarrow> i \<in> set (cf_BrowserIdentities (sv_Config s)) \<Longrightarrow> identity_ok K i"
  by (simp add: server_ok_def)

lemma server_ok_native: "server_ok K n s \<Longrightarrow> nativeApp_lookup i s = Some a \<Longrightarrow> native_ok n a"
  by (auto simp: server_ok_def nativeApp_lookup_def dest: find_in)

lemma server_ok_upsert [intro]: "server_ok K n s \<Longrightarrow> identity_ok K i \<Longrightarrow> server_ok K n (upsertBrowserIdentity i s)"
  unfolding upsertBrowserIdentity_def
  using set_upsert_by server_ok_identity by (intro server_ok_identities) fastforce+

lemma server_ok_set_native: "server_ok K n s \<Longrightarrow> (\<And>a. a \<in> set apps \<Longrightarrow> native_ok n a) \<Longrightarrow> server_ok K n (set_native apps s)"
  by (simp add: server_ok_def set_native_def)

lemma server_ok_upsert_native [intro]:
  assumes "server_ok K n s" and "native_ok n a"
  shows "server_ok K n (upsertNativeApp a s)"
proof -
  have "native_ok n b" if "b \<in> set (upsert_by (\<lambda>x y. na_StoreID y = na_StoreID x) a (cf_NativeApps (sv_Config s)))" for b
    using that set_upsert_by [of _ a "cf_NativeApps (sv_Config s)"] assms by (fastforce simp: server_ok_def)
  with assms(1) show ?thesis
    by (auto simp: upsertNativeApp_def intro!: server_ok_set_native split: sum.splits)
qed

lemma server_ok_close [simp]: "server_ok K n (closeSocketsBoundTo i c r s) \<longleftrightarrow> server_ok K n s"
  by (simp add: closeSocketsBoundTo_def server_ok_def)

lemma server_ok_close_native [simp]: "server_ok K n (closeNativeSockets a c r s) \<longleftrightarrow> server_ok K n s"
  by (simp add: closeNativeSockets_def)

lemma server_ok_go_live [intro]:
  assumes "server_ok K n s" and "sa_ok auth \<Longrightarrow> sa_keyID auth \<noteq> [] \<Longrightarrow> auth_ok auth"
  shows "server_ok K n (go_live k auth s)"
proof -
  have "auth_ok b" if "(j, b) \<in> set (AList.update k auth (sv_live s))" "sa_ok auth" "sa_keyID auth \<noteq> []" for j b
    using that set_AList_update [of k auth "sv_live s"] assms by (fastforce simp: server_ok_def)
  with assms(1) show ?thesis by (auto simp: go_live_def trackLiveSocket_def server_ok_def)
qed

lemma server_ok_untrack [simp, intro]: "server_ok K n s \<Longrightarrow> server_ok K n (untrackLiveSocket k s)"
  using set_AList_delete [of k "sv_live s"] by (auto simp: untrackLiveSocket_def server_ok_def)

subsection \<open>Every operation keeps it\<close>

lemma server_ok_config_only:
  assumes "server_ok K n s" and "sv_Config s' = sv_Config s" and "sv_live s' = sv_live s"
    and "set (sv_preapproved s') \<subseteq> set (sv_preapproved s)"
  shows "server_ok K n s'"
  using assms by (auto simp: server_ok_def)

lemma server_ok_unregister: "server_ok K n s \<Longrightarrow> server_ok K n (unregisterPending i s)"
  by (erule server_ok_config_only) (auto simp: unregisterPending_def)

lemma register_attempts_frame:
  "register_attempts b64 now p draws s = (s', res) \<Longrightarrow>
     sv_Config s' = sv_Config s \<and> sv_live s' = sv_live s \<and> sv_preapproved s' = sv_preapproved s"
  by (induction b64 now p draws s rule: register_attempts.induct) (auto simp: Let_def split: if_splits)

lemma server_ok_register: "server_ok K n s \<Longrightarrow> registerPending b64 now draw p s = (s', res) \<Longrightarrow> server_ok K n s'"
  by (erule server_ok_config_only)
    (auto simp: registerPending_def purge_pending_def Let_def split: if_splits dest!: register_attempts_frame)

lemma server_ok_consume:
  assumes "server_ok K n s" and "consumePreApproval now i s = (s', res)"
  shows "server_ok K n s'"
  using assms(2)
  by (intro server_ok_config_only [OF assms(1)])
    (auto simp: consumePreApproval_def split: option.splits dest: subsetD [OF set_AList_delete])

lemma consume_plain:
  assumes "server_ok K n s" and "consumePreApproval now i s = (s', Some approval)"
  shows "plain (pa_Capabilities approval)"
  using assms by (auto simp: consumePreApproval_def server_ok_def split: option.splits if_splits dest!: map_of_SomeD)

lemma server_ok_await: "server_ok K n s \<Longrightarrow> awaitDecision w i s = Some (s', d) \<Longrightarrow> server_ok K n s'"
  by (auto simp: awaitDecision_def server_ok_unregister split: wake.splits option.splits)

lemma server_ok_decide: "server_ok K n s \<Longrightarrow> server_ok K n (fst (decidePermissions sprint now args s))"
  by (erule server_ok_config_only) (auto simp: decidePermissions_def Let_def split: option.splits)

lemma server_ok_preapprove: "server_ok K n s \<Longrightarrow> server_ok K n (fst (preapprovePermissions sprint ovf now args s))"
proof -
  assume ok: "server_ok K n s"
  have "plain (subtractStrings caps [permissionsManage])" if "capabilityArg args = Some caps" for caps
    using capabilityArg_trimmed [OF that] by (rule plain_subtract)
  with ok show ?thesis
    by (auto simp: preapprovePermissions_def Let_def server_ok_def split: option.splits
        dest!: subsetD [OF set_AList_update])
qed

lemma server_ok_list: "server_ok K n s \<Longrightarrow> server_ok K n (fst (listPermissions goos now s))"
  by (erule server_ok_config_only) (auto simp: listPermissions_def livePreApprovals_def Let_def)

lemma native_ok_clamp:
  assumes "\<And>p. p \<in> set requested \<Longrightarrow> trim_space p = p" and "native_ok n a"
  shows "native_ok n (a\<lparr>na_Capabilities := clamp_grant limits (na_Authority a) requested\<rparr>)"
  using plain_clamp [OF assms(1)] clamp_authority assms(2) by (auto simp: native_ok_def)

lemma server_ok_update_native:
  assumes "server_ok K n s" and "\<And>p. p \<in> set requested \<Longrightarrow> trim_space p = p"
  shows "server_ok K n (fst (updateNativeGrant sprint fetch goos now i requested s))"
  using assms(1) native_ok_clamp [OF assms(2) server_ok_native [OF assms(1)]]
  by (auto simp: updateNativeGrant_def Let_def split: option.splits)

lemma server_ok_revoke_native:
  assumes "server_ok K n s"
  shows "server_ok K n (fst (revokeNativeGrant i s))"
proof (cases "nativeApp_lookup i s")
  case (Some a)
  then have "native_ok n (a\<lparr>na_Capabilities := if na_Authority a then [permissionsManage] else []\<rparr>)"
    using server_ok_native [OF assms Some] by (auto simp: native_ok_def)
  with assms Some show ?thesis by (simp add: revokeNativeGrant_def Let_def server_ok_upsert_native)
qed (simp add: revokeNativeGrant_def assms)

lemma identity_ok_clamp:
  assumes "\<And>p. p \<in> set requested \<Longrightarrow> trim_space p = p"
  shows "identity_ok K (i\<lparr>bi_Capabilities := clamp_grant limits (bi_Authority i) requested\<rparr>)"
  using plain_clamp [OF assms] by (cases "bi_Authority i") (auto simp: identity_ok_def)

lemma server_ok_update:
  assumes "server_ok K n s"
  shows "server_ok K n (fst (updateGrant sprint fetch goos now args s))"
proof (cases "capabilityArg args")
  case None
  with assms show ?thesis by (auto simp: updateGrant_def split: sum.splits option.splits)
next
  case (Some requested)
  from capabilityArg_trimmed [OF this] have t: "\<And>p. p \<in> set requested \<Longrightarrow> trim_space p = p" .
  from assms Some server_ok_update_native [OF assms t] identity_ok_clamp [of requested, OF t] show ?thesis
    by (auto simp: updateGrant_def Let_def split: sum.splits option.splits)
qed

lemma server_ok_revoke: "server_ok K n s \<Longrightarrow> server_ok K n (fst (revokeGrant sprint args s))"
  by (auto simp: revokeGrant_def Let_def server_ok_revoke_native split: sum.splits option.splits
      intro!: server_ok_identities dest: server_ok_identity)

lemma server_ok_permissions:
  assumes "server_ok K n s"
  shows "server_ok K n (fst (handlePermissionsRPC sprint ovf fetch goos now k auth request s))"
proof -
  have "server_ok K n (s\<lparr>sv_subscribers := List.insert k (sv_subscribers s)\<rparr>)"
    using assms by (rule server_ok_config_only) auto
  with assms server_ok_decide [OF assms] server_ok_preapprove [OF assms] server_ok_update [OF assms]
    server_ok_revoke [OF assms] server_ok_list [OF assms] show ?thesis
    by (auto simp: handlePermissionsRPC_def Let_def split: prod.splits)
      (metis fst_conv server_ok_list)+
qed

lemma normalized_declared_plain:
  "resolveNativeManifest sprint fetch c i = Inr m \<Longrightarrow> p \<in> set (ra_Declared (nm_app m)) \<Longrightarrow> trim_space p = p"
proof -
  assume *: "resolveNativeManifest sprint fetch c i = Inr m" "p \<in> set (ra_Declared (nm_app m))"
  then have "\<exists>es. ra_Declared (nm_app m) = normalizePermissionList sprint es"
    by (auto simp: resolveNativeManifest_def Let_def split: sum.splits if_splits list.splits dest!: manifest_app_shape)
  with *(2) show ?thesis using normalizePermissionList_trimmed by metis
qed

lemma installed_ok:
  assumes "\<And>p. p \<in> set (ra_Declared (nm_app m)) \<Longrightarrow> trim_space p = p"
  shows "native_ok (catalogAppID c) (installed_app c i requested m url result now prev)"
proof -
  let ?d = "subtractStrings (ra_Declared (nm_app m)) [permissionsManage]"
  have "permissionsManage \<in> set (normalizePermissionSet (unionStrings ?d [permissionsManage]))"
    unfolding normalize_not_plain plain_def set_unionStrings by (metis DiffI UnCI empty_iff imageI insert_iff list.set(2) pm_nonempty(1) pm_trim)
  moreover have "plain (intersectStrings requested ?d)"
    by (intro plain_intersect2 plain_subtract assms)
  ultimately show ?thesis by (simp add: installed_app_def Let_def native_ok_def)
qed

lemma server_ok_remove_native [intro]: "server_ok K n s \<Longrightarrow> server_ok K n (removeNativeApp i s)"
  unfolding removeNativeApp_def by (rule server_ok_set_native) (auto simp: server_ok_def)

lemma server_ok_install:
  assumes "server_ok K n s"
  shows "server_ok K n (fst (installNativeApp sprint fetch np e now args s))"
proof -
  have "native_ok n (installed_app (sv_Config s) i requested m url result now prev)"
    if "resolveNativeManifest sprint fetch (sv_Config s) i = Inr m" for i requested m url result prev
  proof -
    have "catalogAppID (sv_Config s) = n" using assms by (simp add: server_ok_def)
    with installed_ok [OF normalized_declared_plain [OF that], where c = "sv_Config s"] show ?thesis by blast
  qed
  with assms show ?thesis
    by (auto simp: installNativeApp_def Let_def split: prod.splits sum.splits option.splits)
qed

lemma server_ok_native_rpc:
  assumes "server_ok K n s"
  shows "server_ok K n (fst (handleNativeAppsRPC sprint fetch np e now auth request s))"
  using assms server_ok_install [OF assms]
  by (auto simp: handleNativeAppsRPC_def uninstallNativeApp_def Let_def split: prod.splits option.splits sum.splits)

subsection \<open>Handshakes\<close>

lemma auth_identity_fields [simp]:
  "sa_keyID (authForIdentity i app) = bi_KeyID i"
  "sa_origin (authForIdentity i app) = bi_Origin i"
  "sa_stored (authForIdentity i app) = bi_Capabilities i"
  "sa_ok (authForIdentity i app)"
  by (simp_all add: authForIdentity_def split: option.split)

lemma auth_identity_ok [simp]: "auth_ok (authForIdentity i app) \<longleftrightarrow> bi_KeyID i \<noteq> []"
  using plain_intersect1 [of "bi_Capabilities i"]
  by (auto simp: auth_ok_def authForIdentity_def normalize_not_plain simp del: set_normalizePermissionSet split: option.splits)

lemma identity_ok_granted:
  "plain caps \<Longrightarrow> identity_ok K (granted_identity now caps declared r i)"
  by (simp add: granted_identity_def identity_ok_def)

lemma granted_fields [simp]:
  "bi_KeyID (granted_identity now caps declared r i) = bi_KeyID i"
  "bi_Origin (granted_identity now caps declared r i) = bi_Origin i"
  "bi_StoreID (granted_identity now caps declared r i) = bi_StoreID i"
  "bi_Authority (granted_identity now caps declared r i) = bi_Authority i"
  by (simp_all add: granted_identity_def)

lemma apply_client_fields [simp]:
  "identity_ok K (fst (applyBrowserClient i c)) = identity_ok K i"
  "bi_KeyID (fst (applyBrowserClient i c)) = bi_KeyID i"
  "bi_Origin (fst (applyBrowserClient i c)) = bi_Origin i"
  "bi_StoreID (fst (applyBrowserClient i c)) = bi_StoreID i"
  "bi_Authority (fst (applyBrowserClient i c)) = bi_Authority i"
  "bi_Capabilities (fst (applyBrowserClient i c)) = bi_Capabilities i"
  by (simp_all add: applyBrowserClient_def Let_def)

lemma server_ok_persist [intro]: "server_ok K n s \<Longrightarrow> identity_ok K i \<Longrightarrow> server_ok K n (persist_if b i s)"
  by (auto simp: persist_if_def)

text \<open>A handshake either refuses the socket or binds it to an identity with the key's id.\<close>

lemma store_grant_ok:
  assumes "server_ok K n s" and "plain caps" and "store_grant now caps d r i s = (s', auth)"
  shows "server_ok K n s' \<and> sa_keyID auth = bi_KeyID i \<and> (bi_KeyID i \<noteq> [] \<longrightarrow> auth_ok auth)"
  using assms identity_ok_granted by (auto simp: store_grant_def Let_def)

lemma continue_ok:
  assumes ok: "server_ok K n s" and i: "identity_ok K i0"
    and run: "continuePairedIdentity sprint fetch now c i0 ini origin s = (s', auth, oc)"
  shows "server_ok K n s' \<and> (sa_keyID auth \<noteq> [] \<longrightarrow> auth_ok auth)"
proof -
  obtain i ch where ap: "applyBrowserClient i0 (dli_Client ini) = (i, ch)" by fastforce
  with i have i1: "identity_ok K i" using apply_client_fields(1) [of K i0 "dli_Client ini"] by simp
  have granted: "identity_ok K (granted_identity now (intersectStrings (pa_Capabilities a) x) x r i)"
    if "consumePreApproval now k s = (t, Some a)" for a x r t k
    using that consume_plain [OF ok] by (intro identity_ok_granted plain_intersect1) auto
  show ?thesis
  proof (cases "bi_Authority i")
    case True
    then have "identity_ok K (i\<lparr>bi_Capabilities := cs\<rparr>)" for cs by (simp add: identity_ok_def)
    with True run ok i1 ap show ?thesis
      by (auto simp: continuePairedIdentity_def Let_def split: sum.splits if_splits)
  next
    case False
    with run ok i1 ap granted server_ok_consume [OF ok] show ?thesis
      by (fastforce simp: continuePairedIdentity_def Let_def split: sum.splits if_splits prod.splits option.splits)
  qed
qed

lemma authority_ok:
  assumes "server_ok K n s" and "recordAuthorityIdentity sprint fetch now c i ini s = (s', auth)"
  shows "server_ok K n s' \<and> sa_keyID auth = bi_KeyID i \<and> (bi_KeyID i \<noteq> [] \<longrightarrow> auth_ok auth)"
  using assms by (auto simp: recordAuthorityIdentity_def Let_def identity_ok_def split: prod.splits)

lemma find_approved_not_authority:
  "approved_loop origin n best ids = Some i \<Longrightarrow>
     (case best of None \<Rightarrow> False | Some (b, _) \<Rightarrow> i = b) \<or> (i \<in> set ids \<and> \<not> bi_Authority i)"
  by (induction origin n best ids rule: approved_loop.induct)
    (fastforce simp: grant_priority_def split: option.splits if_splits prod.splits)+

text \<open>What a handshake leaves: a good server, and an answer that is good in turn.\<close>

definition outcome_ok :: "string set \<Rightarrow> string \<Rightarrow> server \<times> pairing \<Rightarrow> bool" where
  "outcome_ok K n x \<longleftrightarrow> server_ok K n (fst x) \<and>
    (case snd x of Settled auth oc \<Rightarrow> sa_keyID auth \<noteq> [] \<longrightarrow> auth_ok auth
     | Waiting j r p \<Rightarrow> \<not> bi_Authority j \<and> plain (ra_Declared r))"

lemma no_auth_key [simp]: "sa_keyID no_auth = []"
  by (simp add: no_auth_def)

lemma outcome_refused [simp]: "outcome_ok K n (s, Settled no_auth oc) \<longleftrightarrow> server_ok K n s"
  by (simp add: outcome_ok_def)

lemma outcome_settle: "outcome_ok K n (settle x) \<longleftrightarrow> server_ok K n (fst x) \<and> (sa_keyID (snd x) \<noteq> [] \<longrightarrow> auth_ok (snd x))"
  by (simp add: outcome_ok_def settle_def)

lemma outcome_store_grant: "server_ok K n s \<Longrightarrow> plain caps \<Longrightarrow> outcome_ok K n (settle (store_grant now caps d r i s))"
  using store_grant_ok [of K n s caps now d r i] by (cases "store_grant now caps d r i s") (simp add: outcome_settle)

lemma pair_app_ok:
  assumes ok: "server_ok K n s" and decl: "\<And>p. p \<in> set (ra_Declared r0) \<Longrightarrow> trim_space p = p"
    and i: "\<not> bi_Authority i"
  shows "outcome_ok K n (pair_app b64 draw sent now i origin r0 s)"
proof -
  define r where "r = r0\<lparr>ra_Declared := subtractStrings (ra_Declared r0) [permissionsManage]\<rparr>"
  have r: "plain (ra_Declared r)" unfolding r_def using plain_subtract [OF decl] by simp
  obtain s1 ap where c: "consumePreApproval now (ra_StoreID r) s = (s1, ap)" by fastforce
  have ok1: "server_ok K n s1" using server_ok_consume [OF ok c] .
  have reg: "server_ok K n s2" if "registerPending b64 now draw p s1 = (s2, res)" for p s2 res
    using server_ok_register [OF ok1 that] .
  have wait: "outcome_ok K n (s2, Waiting i r p)" if "server_ok K n s2" for s2 p
    using that i r by (simp add: outcome_ok_def)
  show ?thesis
    unfolding pair_app_def r_def [symmetric] Let_def c
    by (auto simp: server_ok_unregister wait intro!: outcome_store_grant ok1 plain_intersect2 r dest: reg
        split: option.splits sum.splits prod.splits)
qed

lemma pair_unknown_ok:
  assumes ok: "server_ok K n s"
  shows "outcome_ok K n (pairUnknownIdentity sprint key_hash verify fetch b64 draw sent now c ini pf nonce origin s)"
proof -
  have na: "\<not> bi_Authority (fst (applyBrowserClient (new_identity jwk pf) cl))" for jwk cl
    by (simp add: new_identity_def)
  have rec: "outcome_ok K n (settle (recordAuthorityIdentity sprint fetch now c i ini s))" for i
    using authority_ok [OF ok] by (cases "recordAuthorityIdentity sprint fetch now c i ini s") (fastforce simp: outcome_settle)
  have app: "outcome_ok K n (pair_app b64 draw sent now (fst (applyBrowserClient (new_identity jwk pf) cl)) o' r s)"
    if "resolveApp sprint fetch (sv_Config s) origin ini = Inr r" for r jwk cl o'
    using that resolved_declared_trimmed na ok by (intro pair_app_ok) blast+
  show ?thesis
    by (simp add: pairUnknownIdentity_def Let_def ok rec app split: option.split sum.split)
qed

lemma normalize_loop_subset: "normalize_loop h seen ids = Inr r \<Longrightarrow> set r \<subseteq> set ids"
proof (induction h seen ids arbitrary: r rule: normalize_loop.induct)
  case (1 h seen)
  then show ?case by simp
next
  case (2 h seen i "is")
  then show ?case by (fastforce split: sum.splits if_splits)
qed

lemma merge_subset: "set (mergeSyncedIdentities h old fresh) \<subseteq> set old \<union> set fresh"
  by (auto simp: mergeSyncedIdentities_def normalizeBrowserIdentities_def Let_def split: sum.splits
      dest!: normalize_loop_subset)

lemma match_in: "matchDirectLocalIdentity verify ids ini pf nonce origin = Some i \<Longrightarrow> i \<in> set ids"
  unfolding matchDirectLocalIdentity_def by (rule find_in)

lemma authenticate_ok:
  assumes ok: "server_ok K n s" and sync: "case synced of None \<Rightarrow> True | Some fresh \<Rightarrow> list_all (identity_ok K) fresh"
  shows "outcome_ok K n (authenticateDirectLocal sprint key_hash verify fetch b64 draw sent now synced initial written wire nonce origin s)"
proof -
  have cont: "outcome_ok K n (case continuePairedIdentity sprint fetch now c i ini origin t of (s1, auth, oc) \<Rightarrow> (s1, Settled auth oc))"
    if "server_ok K n t" "i \<in> set (cf_BrowserIdentities (sv_Config t))" for c i ini t
    using continue_ok [OF that(1) server_ok_identity [OF that]]
    by (auto simp: outcome_ok_def split: prod.split)
  have ids: "cf_BrowserIdentities (sv_Config (set_identities l t)) = l" for l t
    by (simp add: set_identities_def)
  have ok1: "server_ok K n (set_identities (mergeSyncedIdentities key_hash (cf_BrowserIdentities (sv_Config s)) fresh) s)"
    if "synced = Some fresh" for fresh
    using that merge_subset [of key_hash "cf_BrowserIdentities (sv_Config s)" fresh] sync server_ok_identity [OF ok]
    by (intro server_ok_identities ok) (auto simp: list_all_iff)
  show ?thesis
    unfolding authenticateDirectLocal_def Let_def
    by (simp add: ok pair_unknown_ok [OF ok] pair_unknown_ok [OF ok1] cont [OF ok match_in] cont [OF ok1, unfolded ids, OF _ match_in]
        split: option.split)
qed

subsection \<open>The system keeps the invariant\<close>

lemma native_auth_ok [intro]:
  assumes "native_ok n a"
  shows "auth_ok (authForNative a r)"
proof -
  have k: "nativeKeyID i \<noteq> []" for i by (simp add: nativeKeyID_def nativeKeyPrefix_def)
  show ?thesis
  proof (cases "na_Authority a")
    case True
    with assms have "\<not> plain (na_Capabilities a)"
      by (auto simp: native_ok_def plain_def image_iff) (metis pm_trim)
    with k show ?thesis by (auto simp: auth_ok_def authForNative_def Let_def split: option.split)
  next
    case False
    with assms have "plain (na_Capabilities a)" by (simp add: native_ok_def)
    then have "plain (subtractStrings (intersectStrings (na_Capabilities a) d) [permissionsManage])" for d
      by (rule plain_subset) auto
    with False k show ?thesis
      by (auto simp: auth_ok_def authForNative_def Let_def normalize_not_plain
          simp del: set_normalizePermissionSet split: option.split)
  qed
qed

lemma connect_ok:
  assumes ok: "system_ok K n sy" and legal: "legal_event K (Connect_socket k now a)"
  shows "system_ok K n (connect_socket ev k now a sy)"
proof -
  obtain s res where run: "authenticateDirectLocal (ev_sprint ev) (ev_key_hash ev) (ev_verify ev) (ev_fetch ev) (ev_b64 ev)
      (at_draw a) (at_sent a) now (at_synced a) (at_initial a) (at_written a) (at_wire a) (at_nonce a)
      (at_origin a) (sy_server sy) = (s, res)" by fastforce
  have "outcome_ok K n (s, res)"
    unfolding run [symmetric] using ok legal
    by (intro authenticate_ok) (auto simp: system_ok_def legal_event_def)
  then have out: "server_ok K n s"
      "case res of Settled auth oc \<Rightarrow> sa_keyID auth \<noteq> [] \<longrightarrow> auth_ok auth
       | Waiting j r p \<Rightarrow> \<not> bi_Authority j \<and> plain (ra_Declared r)"
    by (auto simp: outcome_ok_def)
  show ?thesis
  proof (cases res)
    case (Settled auth oc)
    with out ok show ?thesis
      by (auto simp: connect_socket_def run system_ok_def)
  next
    case (Waiting j r p)
    with out ok show ?thesis
      by (auto simp: connect_socket_def run system_ok_def dest!: subsetD [OF set_AList_update])
  qed
qed

lemma wake_ok:
  assumes "system_ok K n sy"
  shows "system_ok K n (wake_pairing w i now sy)"
proof (cases "map_of (sy_waiting sy) i")
  case None
  with assms show ?thesis by (simp add: wake_pairing_def)
next
  case (Some e)
  obtain k identity r where e: "e = (k, identity, r)" by (cases e) auto
  from Some e assms have plain: "plain (ra_Declared r)"
    by (auto simp: system_ok_def dest: map_of_SomeD)
  show ?thesis
  proof (cases "awaitDecision w i (sy_server sy)")
    case None
    with Some e assms show ?thesis by (simp add: wake_pairing_def)
  next
    case aw: (Some x)
    obtain s d where x: "x = (s, d)" by (cases x) auto
    have s: "server_ok K n s" using assms aw x server_ok_await by (auto simp: system_ok_def)
    have fin: "server_ok K n s1 \<and> (sa_keyID auth \<noteq> [] \<longrightarrow> auth_ok auth)"
      if "finish_pairing now identity r d s = (s1, auth, oc)" for s1 auth oc
      using that s store_grant_ok [OF s plain_intersect2 [OF plain]]
      by (fastforce simp: finish_pairing_def split: option.splits prod.splits)
    have "\<And>j k' i' r'. (j, k', i', r') \<in> set (AList.delete i (sy_waiting sy)) \<Longrightarrow> \<not> bi_Authority i' \<and> plain (ra_Declared r')"
      using assms set_AList_delete [of i "sy_waiting sy"] by (fastforce simp: system_ok_def)
    moreover have "asking_ok n (sy_asking sy)" using assms by (simp add: system_ok_def)
    ultimately show ?thesis
      using Some e aw x fin by (auto simp: wake_pairing_def system_ok_def split: prod.split)
  qed
qed

lemma serve_rpc_ok: "server_ok K n s \<Longrightarrow> server_ok K n (serve_rpc ev k now auth r s)"
  by (simp add: serve_rpc_def server_ok_permissions server_ok_native_rpc)

lemma frame_ok: "system_ok K n sy \<Longrightarrow> system_ok K n (frame_step ev k now request sy)"
  by (auto simp: frame_step_def system_ok_def serve_rpc_ok split: option.split turn.split)

lemma native_decided_ok:
  assumes "native_ok n a" "\<not> na_Authority a" "plain ask"
  shows "native_ok n (native_decided now kind ask declared r granted a)"
proof -
  have "plain (intersectStrings granted ask)" using assms(3) by (rule plain_intersect2)
  moreover have "plain (na_Capabilities a)" using assms(1,2) by (simp add: native_ok_def)
  ultimately show ?thesis using assms(1,2) by (simp add: native_ok_def native_decided_def Let_def plain_union)
qed

lemma native_question_plain:
  assumes "native_question app declared = (kind, ask)" "plain declared"
  shows "plain ask"
  using assms plain_subset [OF assms(2)] by (auto simp: native_question_def Let_def split: if_splits)

lemma native_begin_ok:
  assumes ok: "server_ok K n s" and a: "native_ok n app"
    and run: "native_begin sprint fetch now app s = (s', res)"
  shows "server_ok K n s' \<and> (case res of Inl auth \<Rightarrow> auth_ok auth | Inr (r, kind, ask, declared) \<Rightarrow> \<not> na_Authority app \<and> plain ask)"
proof (cases "resolveNativeManifest sprint fetch (sv_Config s) (na_StoreID app)")
  case (Inl e)
  then show ?thesis using run ok a by (auto simp: native_begin_def)
next
  case (Inr m)
  have fields: "native_ok n (app\<lparr>na_ApprovedAt := t, na_Declared := d\<rparr>)" for t d using a by simp
  have "plain ask"
    if "native_question app (normalizePermissionSet (subtractStrings (ra_Declared (nm_app m)) [permissionsManage])) = (kind, ask)"
    for kind ask
    using native_question_plain [OF that] plain_subtract [of "ra_Declared (nm_app m)"] normalized_declared_plain [OF Inr] by auto
  then show ?thesis
    using run ok a fields native_auth_ok [OF fields] Inr by (auto simp: native_begin_def Let_def split: if_splits prod.splits)
qed

lemma catalog_not_empty: "server_ok K n s \<Longrightarrow> n \<noteq> []"
  by (auto simp: server_ok_def catalogAppID_def DefaultCatalogAppID_def validStoreID_def split: if_splits)

lemma native_answered_ok:
  assumes ok: "server_ok K n s" and a: "native_ok n app" "\<not> na_Authority app" "plain ask"
    and run: "native_answered now app r kind ask declared answer s = (s', Inr auth)"
  shows "server_ok K n s' \<and> auth_ok auth"
proof -
  let ?current = "case nativeApp_lookup (na_StoreID app) s of None \<Rightarrow> zero_native | Some b \<Rightarrow> b"
  have "native_ok n ?current \<and> \<not> na_Authority ?current"
  proof (cases "nativeApp_lookup (na_StoreID app) s")
    case None
    then show ?thesis using catalog_not_empty [OF ok] by (simp add: zero_native_def native_ok_def)
  next
    case (Some b)
    then have "na_StoreID b = na_StoreID app" by (auto simp: nativeApp_lookup_def find_Some_iff)
    then show ?thesis using Some server_ok_native [OF ok Some] a(1,2) by (simp add: native_ok_def)
  qed
  then have "native_ok n (native_decided now kind ask declared r granted ?current)" for granted
    using a(3) by (blast intro: native_decided_ok)
  then show ?thesis
    using run ok a(1) native_auth_ok [where n = n] by (auto simp: native_answered_def Let_def split: sum.splits if_splits prod.splits)
qed

lemma native_answered_failed: "native_answered now app r kind ask declared answer s = (s', Inl e) \<Longrightarrow> s' = s"
  by (auto simp: native_answered_def Let_def split: sum.splits if_splits prod.splits)

lemma native_socket_ok:
  assumes ok: "system_ok K n sy"
  shows "system_ok K n (native_socket ev k now app sy)"
proof (cases "nativeApp_lookup (na_StoreID app) (sy_server sy)")
  case None
  with ok show ?thesis by (simp add: native_socket_def)
next
  case (Some a)
  from ok have s: "server_ok K n (sy_server sy)" by (simp add: system_ok_def)
  have a: "native_ok n a" by (rule server_ok_native [OF s Some])
  obtain s' res where run: "native_begin (ev_sprint ev) (ev_fetch ev) now a (sy_server sy) = (s', res)" by fastforce
  show ?thesis
    using native_begin_ok [OF s a run] ok Some run a
    by (cases res) (auto simp: native_socket_def system_ok_def intro: asking_ok_update)
qed

lemma native_answer_ok:
  assumes ok: "system_ok K n sy"
  shows "system_ok K n (native_answer k now answer sy)"
proof (cases "map_of (sy_asking sy) k")
  case None
  with ok show ?thesis by (simp add: native_answer_def)
next
  case (Some q)
  obtain app r kind ask declared where q: "q = (app, r, kind, ask, declared)" by (cases q) auto
  from ok have s: "server_ok K n (sy_server sy)" by (simp add: system_ok_def)
  from ok Some q have a: "native_ok n app" "\<not> na_Authority app" "plain ask"
    using asking_ok_lookup by (auto simp: system_ok_def)
  obtain s' res where run: "native_answered now app r kind ask declared answer (sy_server sy) = (s', res)" by fastforce
  have rest: "asking_ok n (AList.delete k (sy_asking sy))" using ok asking_ok_delete by (simp add: system_ok_def)
  show ?thesis
  proof (cases res)
    case (Inl e)
    with native_answered_failed run have "s' = sy_server sy" by blast
    with ok Some q run Inl rest show ?thesis by (auto simp: native_answer_def system_ok_def Let_def)
  next
    case (Inr auth)
    with native_answered_ok [OF s a] run have "server_ok K n s' \<and> auth_ok auth" by blast
    with ok Some q run Inr rest show ?thesis by (auto simp: native_answer_def system_ok_def Let_def)
  qed
qed

interpretation access: invariant_machine "system_step ev" "legal_event K" "system_ok K n" for ev K n
proof
  fix sy e
  assume ok: "system_ok K n sy" and legal: "legal_event K e"
  show "system_ok K n (system_step ev sy e)"
  proof (cases e)
    case (Disconnect k)
    with ok show ?thesis by (auto simp: system_step_def system_ok_def)
  qed (use ok legal in \<open>simp_all add: system_step_def connect_ok wake_ok frame_ok native_socket_ok native_answer_ok\<close>)
qed

subsection \<open>Who may change permissions\<close>

text \<open>The key behind a live socket belongs to a stored authority: a browser identity or an installed app.\<close>

definition authority_key :: "server \<Rightarrow> string \<Rightarrow> bool" where
  "authority_key s k \<longleftrightarrow>
     (\<exists>i \<in> set (cf_BrowserIdentities (sv_Config s)). bi_Authority i \<and> bi_KeyID i = k)
     \<or> (\<exists>a \<in> set (cf_NativeApps (sv_Config s)). na_Authority a \<and> nativeKeyID (na_StoreID a) = k)"

lemma plain_same_set: "sameCapabilitySet a b \<Longrightarrow> plain a \<longleftrightarrow> plain b"
  by (simp add: sameCapabilitySet_iff plain_def)

lemma manage_needs_authority:
  assumes ok: "server_ok K n s" and auth: "auth_ok auth" and has: "hasBrowserIdentity auth s"
    and pm: "permissionsManage \<in> set (sa_capabilities auth)"
  shows "authority_key s (sa_keyID auth) \<or> sa_keyID auth \<in> K"
proof -
  from auth pm have np: "\<not> plain (sa_stored auth)" by (simp add: auth_ok_def)
  show ?thesis
  proof (cases "has_prefix (sa_keyID auth) nativeKeyPrefix")
    case True
    with has obtain a where a: "nativeApp_lookup (trim_prefix (sa_keyID auth) nativeKeyPrefix) s = Some a"
        "sameCapabilitySet (na_Capabilities a) (sa_stored auth)"
      by (auto simp: hasBrowserIdentity_def hasNativeGrant_def split: option.splits)
    then have "na_Authority a"
      using server_ok_native [OF ok a(1)] np plain_same_set by (auto simp: native_ok_def split: if_splits)
    moreover from True have "nativeKeyID (trim_prefix (sa_keyID auth) nativeKeyPrefix) = sa_keyID auth"
      by (auto simp: nativeKeyID_def trim_prefix_def prefix_def)
    moreover from a(1) have "a \<in> set (cf_NativeApps (sv_Config s))" "na_StoreID a = trim_prefix (sa_keyID auth) nativeKeyPrefix"
      by (auto simp: nativeApp_lookup_def find_Some_iff)
    ultimately show ?thesis by (auto simp: authority_key_def)
  next
    case False
    with has obtain i where i: "i \<in> set (cf_BrowserIdentities (sv_Config s))" "bi_KeyID i = sa_keyID auth"
        "sameCapabilitySet (bi_Capabilities i) (sa_stored auth)"
      by (auto simp: hasBrowserIdentity_def)
    then have "bi_Authority i \<or> bi_KeyID i \<in> K"
      using server_ok_identity [OF ok i(1)] np plain_same_set by (auto simp: identity_ok_def)
    with i show ?thesis by (auto simp: authority_key_def)
  qed
qed

lemma allows_manage: "socketAllows caps permissionsManage \<longleftrightarrow> permissionsManage \<in> set caps"
  by (simp add: socketAllows_iff permissionsManage_def)

lemma serve_rpc_changes:
  "serve_rpc ev k now auth r s \<noteq> s \<Longrightarrow> permissionsManage \<in> set (sa_capabilities auth)"
  by (auto simp: serve_rpc_def handlePermissionsRPC_def handleNativeAppsRPC_def allows_manage split: if_splits)

lemma frame_changes:
  assumes ok: "system_ok K n sy" and ch: "frame_step ev k now request sy \<noteq> sy"
  shows "\<exists>auth. map_of (sv_live (sy_server sy)) k = Some auth \<and> hasBrowserIdentity auth (sy_server sy)
    \<and> permissionsManage \<in> set (sa_capabilities auth) \<and> (authority_key (sy_server sy) (sa_keyID auth) \<or> sa_keyID auth \<in> K)"
proof -
  from ch obtain auth r where live: "map_of (sv_live (sy_server sy)) k = Some auth"
    and turn: "serve_frame (ev_sprint ev) auth (hasBrowserIdentity auth (sy_server sy)) (\<lambda>_. False) (Some request) = ToRPC r"
    and new: "serve_rpc ev k now auth r (sy_server sy) \<noteq> sy_server sy"
    by (fastforce simp: frame_step_def split: option.splits turn.splits)
  from live ok have auth: "auth_ok auth"
    by (auto simp: system_ok_def server_ok_def dest: map_of_SomeD)
  then have has: "hasBrowserIdentity auth (sy_server sy)"
    using turn by (auto simp: serve_frame_def auth_ok_def split: if_splits)
  from serve_rpc_changes [OF new] manage_needs_authority [OF _ auth has] live has ok
  show ?thesis by (auto simp: system_ok_def)
qed

subsection \<open>Where authority comes from\<close>

definition auth_within :: "string set \<Rightarrow> server \<Rightarrow> bool" where
  "auth_within A s \<longleftrightarrow> (\<forall>i \<in> set (cf_BrowserIdentities (sv_Config s)). bi_Authority i \<longrightarrow> bi_KeyID i \<in> A)"

lemma within_config: "auth_within A s \<Longrightarrow> sv_Config s' = sv_Config s \<Longrightarrow> auth_within A s'"
  by (simp add: auth_within_def)

lemma within_ids:
  "(\<And>i. i \<in> set ids \<Longrightarrow> bi_Authority i \<Longrightarrow> bi_KeyID i \<in> A) \<Longrightarrow> auth_within A (set_identities ids s)"
  by (auto simp: auth_within_def set_identities_def)

lemma within_upsert:
  "auth_within A s \<Longrightarrow> (bi_Authority i \<Longrightarrow> bi_KeyID i \<in> A) \<Longrightarrow> auth_within A (upsertBrowserIdentity i s)"
  unfolding upsertBrowserIdentity_def using set_upsert_by [of _ i "cf_BrowserIdentities (sv_Config s)"]
  by (intro within_ids) (fastforce simp: auth_within_def)

lemma within_persist:
  "auth_within A s \<Longrightarrow> (bi_Authority i \<Longrightarrow> bi_KeyID i \<in> A) \<Longrightarrow> auth_within A (persist_if b i s)"
  by (simp add: persist_if_def within_upsert)

lemma consume_config: "consumePreApproval now k s = (s', r) \<Longrightarrow> sv_Config s' = sv_Config s"
  by (auto simp: consumePreApproval_def split: option.splits)

lemma register_config: "registerPending b64 now draw p s = (s', res) \<Longrightarrow> sv_Config s' = sv_Config s"
  by (auto simp: registerPending_def purge_pending_def Let_def split: if_splits dest!: register_attempts_frame)

lemma within_store_grant:
  "auth_within A s \<Longrightarrow> \<not> bi_Authority i \<Longrightarrow> auth_within A (fst (store_grant now caps d r i s))"
  by (auto simp: store_grant_def Let_def intro!: within_upsert)

lemma within_settle [simp]: "fst (settle x) = fst x"
  by (simp add: settle_def)

lemma within_continue:
  assumes w: "auth_within A s" and i: "bi_Authority i0 \<Longrightarrow> bi_KeyID i0 \<in> A"
    and run: "continuePairedIdentity sprint fetch now c i0 ini origin s = (s', auth, oc)"
  shows "auth_within A s'"
proof -
  obtain i ch where ap: "applyBrowserClient i0 (dli_Client ini) = (i, ch)" by fastforce
  with i have i1: "bi_Authority i \<Longrightarrow> bi_KeyID i \<in> A"
    using apply_client_fields(2,5) [of i0 "dli_Client ini"] by simp
  have cons: "auth_within A s1" if "consumePreApproval now k s = (s1, r)" for k s1 r
    using that w consume_config within_config by blast
  show ?thesis
  proof (cases "bi_Authority i")
    case True
    with run w i1 ap show ?thesis
      by (auto simp: continuePairedIdentity_def Let_def split: sum.splits if_splits intro!: within_persist)
  next
    case False
    with run w ap cons show ?thesis
      by (auto simp: continuePairedIdentity_def Let_def split: sum.splits if_splits prod.splits option.splits
          intro!: within_persist within_upsert)
  qed
qed

lemma within_pair_app:
  assumes w: "auth_within A s" and i: "\<not> bi_Authority i"
  shows "auth_within A (fst (pair_app b64 draw sent now i origin r0 s))"
proof -
  have cons: "auth_within A s1" if "consumePreApproval now k s = (s1, r)" for k s1 r
    using that w consume_config within_config by blast
  have reg: "auth_within A s2" if "registerPending b64 now draw p s1 = (s2, res)" "auth_within A s1" for s1 s2 p res
    using that register_config within_config by blast
  have unreg: "auth_within A t \<Longrightarrow> auth_within A (unregisterPending j t)" for j t
    by (erule within_config) (simp add: unregisterPending_def)
  show ?thesis
    unfolding pair_app_def Let_def
    by (auto simp: within_store_grant [OF cons i] intro: unreg reg cons split: option.splits sum.splits prod.splits)
qed

lemma within_pair_unknown:
  assumes w: "auth_within A s" and origin: "\<not> isAuthorityOrigin c origin"
  shows "auth_within A (fst (pairUnknownIdentity sprint key_hash verify fetch b64 draw sent now c ini pf nonce origin s))"
proof -
  have na: "\<not> bi_Authority (fst (applyBrowserClient (new_identity jwk pf) cl))" for jwk cl
    by (simp add: new_identity_def)
  show ?thesis
    using origin by (simp add: pairUnknownIdentity_def Let_def w within_pair_app [OF w na] split: option.split sum.split)
qed

definition authority_keys :: "browserIdentity list \<Rightarrow> string set" where
  "authority_keys ids = {bi_KeyID i | i. i \<in> set ids \<and> bi_Authority i}"

lemma authenticate_within:
  assumes origin: "\<not> isAuthorityOrigin (sv_Config s) origin" and w: "auth_within A s"
    and sync: "\<And>fresh i. synced = Some fresh \<Longrightarrow> i \<in> set fresh \<Longrightarrow> bi_Authority i \<Longrightarrow> bi_KeyID i \<in> A"
  shows "auth_within A
    (fst (authenticateDirectLocal sprint key_hash verify fetch b64 draw sent now synced initial written wire nonce origin s))"
proof -
  have w1: "auth_within A (set_identities (mergeSyncedIdentities key_hash (cf_BrowserIdentities (sv_Config s)) fresh) s)"
    if "synced = Some fresh" for fresh
    using that merge_subset [of key_hash "cf_BrowserIdentities (sv_Config s)" fresh] w sync [OF that]
    by (intro within_ids) (auto simp: auth_within_def)
  have cont: "auth_within A (fst (case continuePairedIdentity sprint fetch now c i ini origin t of (s1, auth, oc) \<Rightarrow> (s1, Settled auth oc)))"
    if "auth_within A t" "i \<in> set (cf_BrowserIdentities (sv_Config t))" for c i ini t
  proof -
    have "bi_Authority i \<Longrightarrow> bi_KeyID i \<in> A" using that unfolding auth_within_def by blast
    then have "continuePairedIdentity sprint fetch now c i ini origin t = (s1, auth, oc) \<Longrightarrow> auth_within A s1" for s1 auth oc
      by (rule within_continue [OF that(1)])
    then show ?thesis by (auto split: prod.split)
  qed
  have ids: "cf_BrowserIdentities (sv_Config (set_identities l t)) = l" for l t
    by (simp add: set_identities_def)
  show ?thesis
    unfolding authenticateDirectLocal_def Let_def
    by (simp add: w within_pair_unknown [OF w origin] within_pair_unknown [OF w1 origin] cont [OF w match_in]
        cont [OF w1, unfolded ids, OF _ match_in] split: option.split)
qed

subsection \<open>Grants\<close>

lemma trim_image_id: "(\<And>p. p \<in> S \<Longrightarrow> trim_space p = p) \<Longrightarrow> trim_space ` S = S"
  by force

lemma set_capabilityArg: "capabilityArg args = Some caps \<Longrightarrow> p \<in> set caps \<Longrightarrow> trim_space p = p \<and> p \<noteq> []"
  by (auto simp: capabilityArg_def split: option.splits if_splits)

lemma set_clamp:
  assumes "\<And>p. p \<in> set requested \<Longrightarrow> trim_space p = p \<and> p \<noteq> []"
  shows "set (clamp_grant limits authority requested) =
    (let base = (if limits \<noteq> [] then set requested \<inter> set limits else set requested)
     in if authority then base \<union> {permissionsManage} else base - {permissionsManage})"
proof -
  define base where "base = (if limits \<noteq> [] then set requested \<inter> set limits else set requested)"
  have "trim_space p = p \<and> p \<noteq> []" if "p \<in> base" for p using that assms by (auto simp: base_def split: if_splits)
  then have a: "trim_space ` (base \<union> {permissionsManage}) - {[]} = base \<union> {permissionsManage}"
    "trim_space ` (base - {permissionsManage}) - {[]} = base - {permissionsManage}"
    by (force simp: image_iff)+
  have "set (if limits \<noteq> [] then intersectStrings requested limits else requested) = base"
    by (simp add: base_def)
  moreover have "[] \<notin> base" using \<open>\<And>p. p \<in> base \<Longrightarrow> _\<close> by blast
  ultimately show ?thesis
    using a by (simp add: clamp_grant_def Let_def base_def [symmetric])
qed

lemma upsert_stores: "j \<in> set (upsert_by same x xs) \<Longrightarrow> j = x \<or> (j \<in> set xs \<and> \<not> same x j)"
  by (auto simp: upsert_by_def split: if_splits)

lemma upsert_in: "x \<in> set (upsert_by same x xs)"
  by (auto simp: upsert_by_def image_iff)

lemma upsert_identity_in: "i \<in> set (cf_BrowserIdentities (sv_Config (upsertBrowserIdentity i s)))"
  by (simp add: upsertBrowserIdentity_def set_identities_def upsert_in)

lemma findIdentity_same: "findIdentity k origin store s = Some i \<Longrightarrow>
    i \<in> set (cf_BrowserIdentities (sv_Config s)) \<and> bi_KeyID i = k \<and> bi_Origin i = origin \<and> bi_StoreID i = store"
  by (auto simp: findIdentity_def find_Some_iff same_identity_def)

lemma grantSelector_nonempty: "grantSelector sprint args = Inr (k, origin, store) \<Longrightarrow> k \<noteq> [] \<and> origin \<noteq> []"
  by (auto simp: grantSelector_def Let_def split: if_splits)

end
