(* ===== verification/Access_Properties.thy ===== *)
theory Access_Properties
  imports Access
begin

text \<open>
  What the access-control system guarantees, over the definitions of \<open>Registry\<close>, \<open>Identity\<close>,
  \<open>Native_Apps\<close> and \<open>Access\<close>, with concrete states on which the theorems are applied.
\<close>

subsection \<open>Concrete states\<close>

definition sample_identity :: "string \<Rightarrow> string \<Rightarrow> string list \<Rightarrow> bool \<Rightarrow> browserIdentity" where
  "sample_identity k store caps auth =
     \<lparr>bi_KeyID = k, bi_KTY = ''EC'', bi_CRV = ''P-256'', bi_X = ''x'', bi_Y = ''y'', bi_Origin = ''https://o.dynapp.io'',
      bi_Capabilities = caps, bi_StoreID = store, bi_Connect = [], bi_ApprovedAt = 5, bi_Declared = caps,
      bi_Authority = auth, bi_Client = empty_client\<rparr>"

definition sample_config :: "browserIdentity list \<Rightarrow> config" where
  "sample_config ids =
     \<lparr>cf_SchemaVersion = 1, cf_DynerBaseURL = [], cf_EnvironmentID = [], cf_DeviceCredential = [],
      cf_ListenerName = [], cf_ListenerMode = ''local'', cf_RelayEnabled = False, cf_LANEnabled = False,
      cf_LANAddress = [], cf_HostedEnvironmentID = [], cf_HostedDeviceCredential = [], cf_HostedName = [],
      cf_BrowserIdentities = ids, cf_AppDomain = [], cf_AuthorityOrigins = [], cf_CatalogAppID = [],
      cf_NativeApps = [], cf_NativeAppsEnabled = False\<rparr>"

definition sample_server :: "browserIdentity list \<Rightarrow> (socket, socketAuthentication) gomap \<Rightarrow> server" where
  "sample_server ids live =
     \<lparr>sv_Config = sample_config ids, sv_pending = [], sv_preapproved = [], sv_subscribers = [], sv_live = live,
      sv_autoApprove = False, sv_closed = []\<rparr>"

definition dyner_identity :: browserIdentity where
  "dyner_identity = sample_identity ''kd'' ''amit-bet/dyner'' [''permissions.manage''] True"

definition app_identity :: browserIdentity where
  "app_identity = sample_identity ''ka'' ''a/b'' [''fs.list''] False"

definition sample_platform :: nativePlatform where
  "sample_platform =
     \<lparr>np_supported = (False, ''no''), np_requiresOptIn = False, np_name = ''linux'', np_startURL = id,
      np_icon = (\<lambda>_ _. Inl ''no''), np_install = (\<lambda>_ _ _ _ _. Inl ''no''), np_uninstall = (\<lambda>_. Inl ''no''),
      np_launch = (\<lambda>_. Inl ''no'')\<rparr>"

definition sample_env :: env where
  "sample_env =
     \<lparr>ev_sprint = (\<lambda>_. []), ev_ovf = (\<lambda>_. 0), ev_fetch = (\<lambda>_. Inl ''offline''), ev_goos = ''linux'',
      ev_b64 = (\<lambda>_. ''id''), ev_key_hash = id, ev_verify = (\<lambda>_ _ _ _. True), ev_platform = sample_platform,
      ev_optIn = []\<rparr>"

definition sample_system :: system where
  "sample_system =
     \<lparr>sy_server = sample_server [dyner_identity, app_identity] [(1, authForIdentity dyner_identity None)], sy_waiting = [], sy_asking = []\<rparr>"

definition obj_request :: "string \<Rightarrow> string \<Rightarrow> obj \<Rightarrow> message" where
  "obj_request service method args =
     blank_message\<lparr>m_Type := ''rpc'', m_ID := ''1'', m_Service := service, m_Method := method, m_Args := [ObjV args]\<rparr>"

definition preapprove_request :: message where
  "preapprove_request =
     obj_request ''permissions'' ''preapprove'' [(''storeId'', StrV ''a/b''), (''capabilities'', ArrV [StrV ''fs.list''])]"

subsection \<open>The authority's monopoly\<close>

lemma identity_ok_mono: "identity_ok K i \<Longrightarrow> K \<subseteq> L \<Longrightarrow> identity_ok L i"
  by (auto simp: identity_ok_def)

lemma system_ok_mono: "system_ok K n sy \<Longrightarrow> K \<subseteq> L \<Longrightarrow> system_ok L n sy"
  by (auto simp: system_ok_def server_ok_def intro: identity_ok_mono)

text \<open>The keys of identities Dyner sent with \<open>permissions.manage\<close> and without the authority mark.\<close>

definition sent_with_manage :: "event list \<Rightarrow> string set" where
  "sent_with_manage es =
     {bi_KeyID i | i k now a fresh. Connect_socket k now a \<in> set es \<and> at_synced a = Some fresh \<and> i \<in> set fresh
        \<and> \<not> bi_Authority i \<and> \<not> plain (bi_Capabilities i)}"

lemma sent_legal: "list_all (legal_event (sent_with_manage es)) es"
proof -
  have "legal_event (sent_with_manage es) e" if "e \<in> set es" for e
  proof (cases e)
    case (Connect_socket k now a)
    have "identity_ok (sent_with_manage es) i" if "at_synced a = Some fresh" "i \<in> set fresh" for fresh i
      using \<open>e \<in> set es\<close> that unfolding Connect_socket identity_ok_def sent_with_manage_def by blast
    then show ?thesis by (simp add: Connect_socket legal_event_def list_all_iff split: option.split)
  qed (simp_all add: legal_event_def)
  then show ?thesis by (simp add: list_all_iff)
qed

text \<open>
  C1: Only the permission authority changes the permission state through requests, unless Dyner itself makes a
  browser an authority. Take any state in which the stored identities, native apps, pre-approvals, waiting pairings,
  open questions and live sockets give \<open>permissions.manage\<close> to authorities only and the one native authority is the
  catalog's app, and let sockets connect, pair, wait, send frames and disconnect, native apps connect and the
  questions put to them be answered, in any order. A frame that then changes anything came from a live socket whose
  grant holds \<open>permissions.manage\<close>, whose pairing is still stored, and whose key is that of a stored authority
  identity, of an installed authority app, or of an identity Dyner sent with \<open>permissions.manage\<close> and without the mark
  of an authority.
\<close>

theorem only_authority_changes_permissions:
  assumes "system_ok {} catalog sy0" and "sy = foldl (system_step ev) sy0 es"
    and "frame_step ev k now request sy \<noteq> sy"
  shows "\<exists>auth. map_of (sv_live (sy_server sy)) k = Some auth \<and> hasBrowserIdentity auth (sy_server sy)
    \<and> permissionsManage \<in> set (sa_capabilities auth)
    \<and> (authority_key (sy_server sy) (sa_keyID auth) \<or> sa_keyID auth \<in> sent_with_manage es)"
proof -
  have "system_ok (sent_with_manage es) catalog sy"
    unfolding assms(2) by (rule access.run_good [OF system_ok_mono [OF assms(1) empty_subsetI] sent_legal])
  from frame_changes [OF this assms(3)] show ?thesis .
qed

lemma sample_system_ok: "system_ok {} ''amit-bet/dyner'' sample_system"
  by code_simp

theorem only_authority_changes_permissions_witness:
  "authority_key (sy_server (foldl (system_step sample_env) sample_system [Disconnect 7])) ''kd''"
proof -
  let ?sy = "foldl (system_step sample_env) sample_system [Disconnect 7]"
  have ch: "frame_step sample_env 1 0 preapprove_request ?sy \<noteq> ?sy"
  proof
    assume "frame_step sample_env 1 0 preapprove_request ?sy = ?sy"
    then have "map fst (sv_preapproved (sy_server (frame_step sample_env 1 0 preapprove_request ?sy))) =
        map fst (sv_preapproved (sy_server ?sy))" by simp
    moreover have "map fst (sv_preapproved (sy_server (frame_step sample_env 1 0 preapprove_request ?sy))) = [''a/b'']"
      by code_simp
    moreover have "map fst (sv_preapproved (sy_server ?sy)) = []" by code_simp
    ultimately show False by simp
  qed
  have live: "map_of (sv_live (sy_server ?sy)) 1 = Some (authForIdentity dyner_identity None)"
    by (simp add: system_step_def sample_system_def sample_server_def untrackLiveSocket_def)
  from only_authority_changes_permissions [OF sample_system_ok refl ch] live
  show ?thesis by (simp add: dyner_identity_def sample_identity_def sent_with_manage_def)
qed

text \<open>
  C2: A handshake creates authority only at the authority's own origins. If the request's origin is
  not the Dyner origin, the catalog's hosted origin or a configured authority origin, then every
  authority identity stored after \<open>authenticateDirectLocal\<close> has a key that was an authority's before,
  or that Dyner's synchronised list marks as one.
\<close>

theorem authority_needs_authority_origin:
  assumes "\<not> isAuthorityOrigin (sv_Config s) origin"
    and "authenticateDirectLocal sprint key_hash verify fetch b64 draw sent now synced initial written wire nonce origin s = (s', r)"
    and "i \<in> set (cf_BrowserIdentities (sv_Config s'))" and "bi_Authority i"
  shows "bi_KeyID i \<in> authority_keys (cf_BrowserIdentities (sv_Config s))
    \<or> (\<exists>fresh. synced = Some fresh \<and> bi_KeyID i \<in> authority_keys fresh)"
proof -
  let ?A = "authority_keys (cf_BrowserIdentities (sv_Config s)) \<union> {k. \<exists>fresh. synced = Some fresh \<and> k \<in> authority_keys fresh}"
  have "auth_within ?A s'"
    using authenticate_within [OF assms(1), of ?A synced sprint key_hash verify fetch b64 draw sent now initial written wire nonce]
      assms(2) by (auto simp: auth_within_def authority_keys_def)
  with assms(3,4) show ?thesis by (auto simp: auth_within_def)
qed

definition key43 :: string where
  "key43 = replicate 43 (CHR ''k'')"

definition dev_init :: directLocalInit where
  "dev_init =
     \<lparr>dli_Type = ''dynapp-direct-local-init'', dli_Version = 2,
      dli_PublicKeyJWK = Some \<lparr>jwk_KTY = ''EC'', jwk_CRV = ''P-256'', jwk_X = key43, jwk_Y = key43\<rparr>,
      dli_App = Some \<lparr>dla_StoreID = ''a/b'', dla_DeclaredPermissions = [StrV ''fs.list'', StrV ''permissions.manage'', StrV ''fs.exec''],
                      dla_Connect = []\<rparr>, dli_Client = None\<rparr>"

definition dev_proof :: directLocalProof where
  "dev_proof =
     \<lparr>dlp_Type = ''dynapp-direct-local-auth'', dlp_Version = 1, dlp_KeyID = key43,
      dlp_Origin = ''http://localhost:3000'', dlp_Signature = ''s''\<rparr>"

definition dev_handshake :: "int \<Rightarrow> server \<Rightarrow> server \<times> pairing" where
  "dev_handshake now s =
     authenticateDirectLocal (\<lambda>_. []) (\<lambda>_. key43) (\<lambda>_ _ _ _. True) (\<lambda>_. Inl ''offline'') (\<lambda>_. ''id'')
       (\<lambda>n. Some (n, [])) True now None (Some (Some dev_init)) True (Some (Some dev_proof)) ''n''
       ''http://localhost:3000'' s"

definition preapproved_server :: server where
  "preapproved_server =
     fst (preapprovePermissions (\<lambda>_. []) (\<lambda>_. 0) 0
       [(''storeId'', StrV ''a/b''), (''capabilities'', ArrV [StrV ''fs.list'', StrV ''permissions.manage''])]
       (sample_server [dyner_identity] []))"

theorem authority_needs_authority_origin_witness:
  "map bi_KeyID (cf_BrowserIdentities (sv_Config (fst (dev_handshake 1 preapproved_server)))) = [''kd'', key43]
   \<and> \<not> isAuthorityOrigin (sv_Config preapproved_server) ''http://localhost:3000''
   \<and> bi_KeyID dyner_identity \<in> authority_keys (cf_BrowserIdentities (sv_Config preapproved_server))"
proof -
  have no: "\<not> isAuthorityOrigin (sv_Config preapproved_server) ''http://localhost:3000''" by code_simp
  have keys: "map bi_KeyID (cf_BrowserIdentities (sv_Config (fst (dev_handshake 1 preapproved_server)))) = [''kd'', key43]"
    by code_simp
  have "list_ex (\<lambda>i. i = dyner_identity) (cf_BrowserIdentities (sv_Config (fst (dev_handshake 1 preapproved_server))))"
    by code_simp
  then have "dyner_identity \<in> set (cf_BrowserIdentities (sv_Config (fst (dev_handshake 1 preapproved_server))))"
    by (auto simp: list_ex_iff)
  moreover have "bi_Authority dyner_identity" by (simp add: dyner_identity_def sample_identity_def)
  moreover have "authenticateDirectLocal (\<lambda>_. []) (\<lambda>_. key43) (\<lambda>_ _ _ _. True) (\<lambda>_. Inl ''offline'') (\<lambda>_. ''id'')
       (\<lambda>n. Some (n, [])) True 1 None (Some (Some dev_init)) True (Some (Some dev_proof)) ''n''
       ''http://localhost:3000'' preapproved_server
      = (fst (dev_handshake 1 preapproved_server), snd (dev_handshake 1 preapproved_server))"
    by (simp add: dev_handshake_def)
  ultimately show ?thesis
    using authority_needs_authority_origin [OF no] no keys by blast
qed

subsection \<open>Decisions\<close>

lemma trimmed_strip: "(\<And>p. p \<in> S \<Longrightarrow> trim_space p = p \<and> p \<noteq> []) \<Longrightarrow> trim_space ` S - {[]} = S"
  by (force simp: image_iff)

lemma register_attempts_result:
  "register_attempts b64 now req draws s = (s', Inr p) \<Longrightarrow>
     map_of (sv_pending s') (pr_ID p) = Some p \<and> sv_Config s' = sv_Config s
     \<and> pr_ExpiresAt p = now + pendingRequestTTL \<and> pr_Declared p = normalizePermissionSet (pr_Declared req)
     \<and> (\<not> sv_autoApprove s \<longrightarrow> pr_resolved p = pr_resolved req \<and> pr_decision p = None)"
  by (induction b64 now req draws s rule: register_attempts.induct)
    (auto simp: Let_def resolve_pending_def split: if_splits)

lemma registerPending_result:
  "registerPending b64 now draw req s = (s', Inr p) \<Longrightarrow> \<not> sv_autoApprove s \<Longrightarrow>
     map_of (sv_pending s') (pr_ID p) = Some p
     \<and> pr_ExpiresAt p = now + pendingRequestTTL \<and> pr_Declared p = normalizePermissionSet (pr_Declared req)
     \<and> pr_resolved p = pr_resolved req \<and> pr_decision p = None"
  by (auto simp: registerPending_def Let_def purge_pending_def split: if_splits dest!: register_attempts_result)

lemma consume_auto: "consumePreApproval now k s = (s', r) \<Longrightarrow> sv_autoApprove s' = sv_autoApprove s"
  by (auto simp: consumePreApproval_def split: option.splits)

lemma pair_app_waiting:
  assumes "pair_app b64 draw sent now identity origin r0 s = (s1, Waiting j r p)"
  shows "map_of (sv_pending s1) (pr_ID p) = Some p \<and> pr_ExpiresAt p = now + pendingRequestTTL
    \<and> pr_Declared p = normalizePermissionSet (ra_Declared r) \<and> \<not> pr_resolved p \<and> pr_decision p = None
    \<and> j = identity \<and> r = r0\<lparr>ra_Declared := subtractStrings (ra_Declared r0) [permissionsManage]\<rparr>"
  using assms
  by (auto simp: pair_app_def Let_def settle_def pairing_request_def split: option.splits if_splits sum.splits prod.splits
      dest!: registerPending_result)

lemma hasBrowserIdentity_stored:
  assumes "i \<in> set (cf_BrowserIdentities (sv_Config s))" and "\<not> has_prefix (bi_KeyID i) nativeKeyPrefix"
  shows "hasBrowserIdentity (authForIdentity i app) s"
  using assms
  by (auto simp: hasBrowserIdentity_def sameCapabilitySet_iff authForIdentity_def split: option.split intro!: bexI [of _ i])

lemma store_grant_result:
  assumes "store_grant now caps d r i s = (s', auth)" and "\<not> has_prefix (bi_KeyID i) nativeKeyPrefix"
    and "\<And>p. p \<in> set caps \<Longrightarrow> trim_space p = p \<and> p \<noteq> []" and "set caps \<subseteq> set (ra_Declared r)"
  shows "hasBrowserIdentity auth s' \<and> set (sa_capabilities auth) = set caps \<and> sa_ok auth"
proof -
  let ?i = "granted_identity now caps d r (i\<lparr>bi_StoreID := ra_StoreID r\<rparr>)"
  have s': "s' = upsertBrowserIdentity ?i s" and auth: "auth = authForIdentity ?i (Some r)"
    using assms(1) by (auto simp: store_grant_def Let_def)
  have "hasBrowserIdentity auth s'"
    unfolding s' auth by (rule hasBrowserIdentity_stored [OF upsert_identity_in]) (use assms(2) in simp)
  moreover have "set (sa_capabilities auth) = trim_space ` ((trim_space ` set caps - {[]}) \<inter> set (ra_Declared r)) - {[]}"
    by (simp add: auth authForIdentity_def granted_identity_def)
  moreover have "(trim_space ` set caps - {[]}) \<inter> set (ra_Declared r) = set caps"
    using trimmed_strip [of "set caps"] assms(3,4) by blast
  ultimately show ?thesis using trimmed_strip [of "set caps"] assms(3) by (simp add: auth)
qed

text \<open>
  C3: An app gets exactly what the authority granted out of what it declared. When \<open>pairUnknownIdentity\<close>
  leaves a request waiting and the authority decides it before it expires, the waiting handshake
  wakes up with that decision; finishing the handshake, in whatever state the server is by then,
  yields a live grant with the decided permissions that the app declares, never
  \<open>permissions.manage\<close>, and the new identity is stored.
\<close>

theorem pairing_grants_the_decision:
  assumes wait: "pair_app b64 draw sent now identity origin r0 s = (s1, Waiting j r p)"
    and decl: "\<And>q. q \<in> set (ra_Declared r0) \<Longrightarrow> trim_space q = q \<and> q \<noteq> []"
    and key: "\<not> has_prefix (bi_KeyID identity) nativeKeyPrefix"
    and id: "trim_space (StringValue sprint (obj_get args ''id'')) = pr_ID p" "pr_ID p \<noteq> []"
    and caps: "capabilityArg args = Some caps"
    and time: "t \<le> now + pendingRequestTTL"
  shows "\<exists>s2 g. awaitDecision WakeDecision (pr_ID p) (fst (decidePermissions sprint t args s1)) = Some (s2, Some g)
    \<and> (\<forall>t' s3. \<exists>s4 auth. finish_pairing t' j r (Some g) s3 = (s4, auth, DirectLocalOK)
         \<and> set (sa_capabilities auth) = set caps \<inter> set (ra_Declared r0) - {permissionsManage}
         \<and> hasBrowserIdentity auth s4)"
proof -
  note w = pair_app_waiting [OF wait]
  have rd: "trim_space q = q \<and> q \<noteq> []" if "q \<in> set (ra_Declared r)" for q using that w decl by auto
  let ?g = "sort (intersectStrings caps (pr_Declared p))"
  have g: "set ?g = set caps \<inter> set (ra_Declared r)"
    using w trimmed_strip [of "set (ra_Declared r)"] rd by auto
  have "awaitDecision WakeDecision (pr_ID p) (fst (decidePermissions sprint t args s1))
      = Some (unregisterPending (pr_ID p) (fst (decidePermissions sprint t args s1)), Some ?g)"
    using w id caps time by (simp add: decidePermissions_def Let_def awaitDecision_def resolve_pending_def)
  moreover have "\<exists>s4 auth. finish_pairing t' j r (Some ?g) s3 = (s4, auth, DirectLocalOK)
         \<and> set (sa_capabilities auth) = set caps \<inter> set (ra_Declared r0) - {permissionsManage}
         \<and> hasBrowserIdentity auth s4" for t' s3
  proof -
    let ?c = "intersectStrings ?g (ra_Declared r)"
    have c: "set ?c = set caps \<inter> set (ra_Declared r0) - {permissionsManage}" using g w by auto
    obtain s4 auth where sg: "store_grant t' ?c (ra_Declared r) r j s3 = (s4, auth)" by fastforce
    have "hasBrowserIdentity auth s4 \<and> set (sa_capabilities auth) = set ?c \<and> sa_ok auth"
      by (rule store_grant_result [OF sg]) (use key w rd g in auto)
    with c sg show ?thesis by (auto simp: finish_pairing_def)
  qed
  ultimately show ?thesis by blast
qed

definition dev_app :: resolvedApp where
  "dev_app = \<lparr>ra_StoreID = ''a/b'', ra_Name = ''b'', ra_Development = True,
     ra_Declared = [''fs.exec'', ''fs.list'', ''permissions.manage''], ra_Connect = []\<rparr>"

definition dev_identity :: browserIdentity where
  "dev_identity = sample_identity ''ka'' [] [] False"

definition dev_wait :: "server \<times> pairing" where
  "dev_wait = pair_app (\<lambda>_. ''id'') (\<lambda>n. Some (n, [])) True 1 dev_identity ''https://o.dynapp.io'' dev_app
     (sample_server [dyner_identity] [])"

theorem pairing_grants_the_decision_witness:
  "\<exists>s1 j r p. dev_wait = (s1, Waiting j r p) \<and>
     (\<exists>s2 g. awaitDecision WakeDecision ''req_id''
         (fst (decidePermissions (\<lambda>_. []) 5 [(''id'', StrV ''req_id''), (''capabilities'', ArrV [StrV ''fs.list'', StrV ''net.tcp.connect''])] s1))
        = Some (s2, Some g)
      \<and> (\<forall>t' s3. \<exists>s4 auth. finish_pairing t' j r (Some g) s3 = (s4, auth, DirectLocalOK)
         \<and> set (sa_capabilities auth) = {''fs.list''} \<and> hasBrowserIdentity auth s4))"
proof -
  have c: "case snd dev_wait of Waiting j r p \<Rightarrow> pr_ID p = ''req_id'' | _ \<Rightarrow> False" by code_simp
  obtain s1 res where w0: "dev_wait = (s1, res)" by fastforce
  from c have "case res of Waiting j r p \<Rightarrow> pr_ID p = ''req_id'' | _ \<Rightarrow> False" unfolding w0 by simp
  with w0 obtain j r p where w: "dev_wait = (s1, Waiting j r p)" and i: "pr_ID p = ''req_id''"
    by (cases res) simp_all
  let ?args = "[(''id'', StrV ''req_id''), (''capabilities'', ArrV [StrV ''fs.list'', StrV ''net.tcp.connect''])]"
  have caps: "capabilityArg ?args = Some [''fs.list'', ''net.tcp.connect'']" by code_simp
  have decl: "list_all (\<lambda>q. trim_space q = q \<and> q \<noteq> []) (ra_Declared dev_app)" by code_simp
  have key: "\<not> has_prefix (bi_KeyID dev_identity) nativeKeyPrefix" by code_simp
  have "trim_space (StringValue (\<lambda>_. []) (obj_get ?args ''id'')) = ''req_id''" by code_simp
  then have idt: "trim_space (StringValue (\<lambda>_. []) (obj_get ?args ''id'')) = pr_ID p" "pr_ID p \<noteq> []" using i by simp_all
  have decl': "\<And>q. q \<in> set (ra_Declared dev_app) \<Longrightarrow> trim_space q = q \<and> q \<noteq> []" using decl by (simp add: list_all_iff)
  have time: "(5::int) \<le> 1 + pendingRequestTTL" by (simp add: pendingRequestTTL_def)
  have set: "set [''fs.list'', ''net.tcp.connect''] \<inter> set (ra_Declared dev_app) - {permissionsManage} = {''fs.list''}"
    by (simp add: dev_app_def permissionsManage_def)
  show ?thesis
    by (rule exI [of _ s1], rule exI [of _ j], rule exI [of _ r], rule exI [of _ p], rule conjI [OF w],
        rule pairing_grants_the_decision [OF w [unfolded dev_wait_def] decl' key idt caps time, unfolded i set])
qed

text \<open>
  A decision is taken once. After a pending request has been resolved, no sequence of further
  \<open>decide\<close> calls changes its recorded decision.
\<close>

theorem decision_is_final:
  assumes "map_of (sv_pending s) i = Some p" and "wasResolved p"
  shows "map_of (sv_pending (foldl (\<lambda>s (now, args). fst (decidePermissions sprint now args s)) s calls)) i = Some p"
  using assms
proof (induction calls arbitrary: s)
  case Nil
  then show ?case by simp
next
  case (Cons c calls)
  obtain now args where c: "c = (now, args)" by fastforce
  have "map_of (sv_pending (fst (decidePermissions sprint now args s))) i = Some p"
    using Cons.prems
    by (auto simp: decidePermissions_def Let_def resolve_pending_def wasResolved_def split: option.splits)
  with Cons c show ?case by simp
qed

definition decided_server :: server where
  "decided_server = fst (decidePermissions (\<lambda>_. []) 5 [(''id'', StrV ''req_id''), (''capabilities'', NilV)] (fst dev_wait))"

theorem decision_is_final_witness:
  "map_option pr_decision (map_of (sv_pending (foldl (\<lambda>s (now, args). fst (decidePermissions (\<lambda>_. []) now args s))
     decided_server [(6, [(''id'', StrV ''req_id''), (''capabilities'', ArrV [StrV ''fs.exec''])])])) ''req_id'') = Some (Some None)"
proof -
  have "case map_of (sv_pending decided_server) ''req_id'' of Some p \<Rightarrow> wasResolved p \<and> pr_decision p = Some None | None \<Rightarrow> False"
    by code_simp
  then obtain p where "map_of (sv_pending decided_server) ''req_id'' = Some p" "wasResolved p" "pr_decision p = Some None"
    by (auto split: option.splits)
  with decision_is_final [OF this(1,2)] show ?thesis by (simp only: option.map)
qed

subsection \<open>Revocation\<close>

text \<open>
  C5: Revoking a grant takes effect on the next frame. After a successful \<open>revoke\<close> of a browser
  grant (with no older origin-wide record of the same key), every live socket bound to it has been
  told to close with \<open>Pairing revoked\<close>, and any further frame on such a socket closes it instead of
  being served.
\<close>

theorem revoked_sockets_are_refused:
  assumes sel: "grantSelector sprint args = Inr (k, origin, store)" and nat: "\<not> has_prefix k nativeKeyPrefix"
    and found: "findIdentity k origin store s = Some i"
    and legacy: "\<And>j. j \<in> set (cf_BrowserIdentities (sv_Config s)) \<Longrightarrow> bi_KeyID j = k \<Longrightarrow> bi_Origin j = origin \<Longrightarrow>
      bi_StoreID j = [] \<Longrightarrow> store = []"
    and auth: "sa_keyID auth = k" "sa_origin auth = origin" "sa_storeID auth = store"
    and s': "s' = fst (revokeGrant sprint args s)"
  shows "((c, auth) \<in> set (sv_live s) \<longrightarrow> (c, closePairingDeclined, ''Pairing revoked'') \<in> set (sv_closed s'))
    \<and> serve_frame sp auth (hasBrowserIdentity auth s') bd (Some request) = CloseSocket closePairingDeclined ''Pairing revoked''"
proof -
  note i = findIdentity_same [OF found]
  have "bound_to i auth" using auth i by (simp add: bound_to_def)
  then have live: "(c, auth) \<in> set (sv_live s) \<longrightarrow> (c, closePairingDeclined, ''Pairing revoked'') \<in> set (sv_closed s')"
    using sel nat found
    by (force simp: s' revokeGrant_def closeSocketsBoundTo_def set_identities_def image_iff)
  have "cf_BrowserIdentities (sv_Config s') = filter (\<lambda>i. \<not> same_identity k origin store i) (cf_BrowserIdentities (sv_Config s))"
    using sel nat found by (simp add: s' revokeGrant_def closeSocketsBoundTo_def set_identities_def)
  then have "\<not> hasBrowserIdentity auth s'"
    using nat auth legacy by (auto simp: hasBrowserIdentity_def same_identity_def)
  moreover have "sa_keyID auth \<noteq> []" using grantSelector_nonempty [OF sel] auth by simp
  ultimately show ?thesis using live by (simp add: serve_frame_def)
qed

theorem revoked_sockets_are_refused_witness:
  "serve_frame (\<lambda>_. []) (authForIdentity app_identity None)
     (hasBrowserIdentity (authForIdentity app_identity None)
       (fst (revokeGrant (\<lambda>_. []) [(''keyId'', StrV ''ka''), (''origin'', StrV ''https://o.dynapp.io''), (''storeId'', StrV ''a/b'')]
          (sy_server sample_system)))) (\<lambda>_. False) (Some blank_message)
   = CloseSocket closePairingDeclined ''Pairing revoked''"
proof -
  let ?args = "[(''keyId'', StrV ''ka''), (''origin'', StrV ''https://o.dynapp.io''), (''storeId'', StrV ''a/b'')]"
  have sel: "grantSelector (\<lambda>_. []) ?args = Inr (''ka'', ''https://o.dynapp.io'', ''a/b'')" by code_simp
  have nat: "\<not> has_prefix ''ka'' nativeKeyPrefix" by code_simp
  have found: "findIdentity ''ka'' ''https://o.dynapp.io'' ''a/b'' (sy_server sample_system) = Some app_identity" by code_simp
  have legacy: "bi_StoreID j \<noteq> []" if "j \<in> set (cf_BrowserIdentities (sv_Config (sy_server sample_system)))" for j
    using that by (auto simp: sample_system_def sample_server_def sample_config_def dyner_identity_def app_identity_def sample_identity_def)
  have auth: "sa_keyID (authForIdentity app_identity None) = ''ka''" "sa_origin (authForIdentity app_identity None) = ''https://o.dynapp.io''"
    "sa_storeID (authForIdentity app_identity None) = ''a/b''" by code_simp+
  show ?thesis
    using revoked_sockets_are_refused [OF sel nat found _ auth refl] legacy by blast
qed

lemma revoked_is_gone:
  assumes "grantSelector sprint args = Inr (bi_KeyID i, bi_Origin i, bi_StoreID i)" "\<not> has_prefix (bi_KeyID i) nativeKeyPrefix"
    and "i \<in> set (cf_BrowserIdentities (sv_Config s))"
  shows "findIdentity (bi_KeyID i) (bi_Origin i) (bi_StoreID i) s \<noteq> None
    \<and> findIdentity (bi_KeyID i) (bi_Origin i) (bi_StoreID i) (fst (revokeGrant sprint args s)) = None"
proof -
  obtain j where j: "findIdentity (bi_KeyID i) (bi_Origin i) (bi_StoreID i) s = Some j"
    using assms(3) by (cases "findIdentity (bi_KeyID i) (bi_Origin i) (bi_StoreID i) s")
      (auto simp: findIdentity_def find_None_iff same_identity_def)
  then show ?thesis using assms(1,2)
    by (simp add: revokeGrant_def Let_def closeSocketsBoundTo_def set_identities_def) (simp add: findIdentity_def find_None_iff)
qed

text \<open>
  C8: A handshake that read a grant before it was revoked stores it again. Let a hello match a stored identity that is
  neither an authority's nor a native app's, let the authority then revoke exactly this identity, and let the
  handshake go on, with a hello that names no app and a browser description that differs from the stored one.
  The revocation removed the identity, and after the handshake one of its key, origin and app is stored again, with
  the revoked permissions, and the socket counts as paired.
\<close>

theorem revoked_grant_is_written_back:
  assumes "matchDirectLocalIdentity verify (cf_BrowserIdentities (sv_Config s)) ini pf nonce origin = Some i"
    and "grantSelector sprint args = Inr (bi_KeyID i, bi_Origin i, bi_StoreID i)"
    and "\<not> bi_Authority i" and "dli_App ini = None" and "\<not> has_prefix (bi_KeyID i) nativeKeyPrefix"
    and "snd (applyBrowserClient i (dli_Client ini))"
    and "continuePairedIdentity sprint fetch now (sv_Config s) i ini origin (fst (revokeGrant sprint args s)) = (s', auth, oc)"
  shows "findIdentity (bi_KeyID i) (bi_Origin i) (bi_StoreID i) (fst (revokeGrant sprint args s)) = None
    \<and> (\<exists>j. findIdentity (bi_KeyID i) (bi_Origin i) (bi_StoreID i) s' = Some j \<and> bi_Capabilities j = bi_Capabilities i)
    \<and> hasBrowserIdentity auth s' \<and> sa_stored auth = bi_Capabilities i"
proof -
  let ?r = "fst (revokeGrant sprint args s)"
  let ?i = "fst (applyBrowserClient i (dli_Client ini))"
  have gone: "findIdentity (bi_KeyID i) (bi_Origin i) (bi_StoreID i) ?r = None"
    using revoked_is_gone [OF assms(2,5) match_in [OF assms(1)]] by simp
  have ap: "applyBrowserClient i (dli_Client ini) = (?i, True)" using assms(6) by (metis prod.collapse)
  have "\<not> bi_Authority ?i" using assms(3) by simp
  then have run: "s' = upsertBrowserIdentity ?i ?r" "auth = authForIdentity ?i None"
    using assms(4,7) unfolding continuePairedIdentity_def persist_if_def by (subst (asm) ap, simp)+
  then have mem: "?i \<in> set (cf_BrowserIdentities (sv_Config s'))" by (simp add: upsert_identity_in)
  have "hasBrowserIdentity auth s'"
    unfolding run(2) by (rule hasBrowserIdentity_stored [OF mem]) (use assms(5) in simp)
  moreover have "same_identity (bi_KeyID i) (bi_Origin i) (bi_StoreID i) ?i" by (simp add: same_identity_def)
  then obtain j where j: "findIdentity (bi_KeyID i) (bi_Origin i) (bi_StoreID i) s' = Some j"
    using mem unfolding findIdentity_def by (metis find_None_iff option.exhaust)
  moreover have "j = ?i"
  proof -
    have "j \<in> set (cf_BrowserIdentities (sv_Config s'))" "same_identity (bi_KeyID i) (bi_Origin i) (bi_StoreID i) j"
      using j by (auto simp: findIdentity_def find_Some_iff)
    moreover have "\<not> same_identity (bi_KeyID i) (bi_Origin i) (bi_StoreID i) x" if "x \<in> set (cf_BrowserIdentities (sv_Config ?r))" for x
      using gone that by (simp add: findIdentity_def find_None_iff)
    ultimately show ?thesis
      using set_upsert_by [of _ ?i "cf_BrowserIdentities (sv_Config ?r)"]
      by (auto simp: run(1) upsertBrowserIdentity_def set_identities_def)
  qed
  ultimately show ?thesis using gone by (simp add: run(2))
qed

definition client_init :: directLocalInit where
  "client_init = dev_init\<lparr>dli_App := None, dli_Client := Some (empty_client\<lparr>bc_Browser := ''Firefox''\<rparr>)\<rparr>"

theorem revoked_grant_is_written_back_witness:
  "\<exists>j. findIdentity ''ka'' ''https://o.dynapp.io'' ''a/b''
     (fst (continuePairedIdentity (\<lambda>_. []) (\<lambda>_. Inl ''offline'') 9 (sv_Config (sample_server [app_identity] [])) app_identity client_init
        ''https://o.dynapp.io''
        (fst (revokeGrant (\<lambda>_. []) [(''keyId'', StrV ''ka''), (''origin'', StrV ''https://o.dynapp.io''), (''storeId'', StrV ''a/b'')]
           (sample_server [app_identity] []))))) = Some j \<and> bi_Capabilities j = [''fs.list'']"
proof -
  let ?pf = "dev_proof\<lparr>dlp_KeyID := ''ka'', dlp_Origin := ''https://o.dynapp.io''\<rparr>"
  have h: "matchDirectLocalIdentity (\<lambda>_ _ _ _. True) (cf_BrowserIdentities (sv_Config (sample_server [app_identity] []))) client_init ?pf ''n''
      ''https://o.dynapp.io'' = Some app_identity"
    "grantSelector (\<lambda>_. []) [(''keyId'', StrV ''ka''), (''origin'', StrV ''https://o.dynapp.io''), (''storeId'', StrV ''a/b'')]
      = Inr (bi_KeyID app_identity, bi_Origin app_identity, bi_StoreID app_identity)"
    "\<not> bi_Authority app_identity" "dli_App client_init = None" "\<not> has_prefix (bi_KeyID app_identity) nativeKeyPrefix"
    "snd (applyBrowserClient app_identity (dli_Client client_init))"
    by code_simp+
  have n: "bi_KeyID app_identity = ''ka''" "bi_Origin app_identity = ''https://o.dynapp.io''" "bi_StoreID app_identity = ''a/b''"
    "bi_Capabilities app_identity = [''fs.list'']"
    by code_simp+
  show ?thesis
    using revoked_grant_is_written_back [OF h, unfolded n] by (metis prod.collapse)
qed

subsection \<open>Updates\<close>

text \<open>
  \<open>updateGrant\<close> stores what was asked for, clamped to the reviewed ceiling. After a successful
  update the stored identity holds the requested permissions that lie within the ceiling (all of
  them when no ceiling is known), without \<open>permissions.manage\<close>, or with it when the identity is the
  authority's; every socket bound to the identity has been told to reconnect.
\<close>

theorem update_clamps_to_the_ceiling:
  assumes sel: "grantSelector sprint args = Inr (k, origin, store)" and nat: "\<not> has_prefix k nativeKeyPrefix"
    and found: "findIdentity k origin store s = Some i" and caps: "capabilityArg args = Some requested"
    and limits: "limits = declaredCeiling sprint fetch store (bi_Declared i)"
    and s': "s' = fst (updateGrant sprint fetch goos now args s)"
  shows "\<exists>j \<in> set (cf_BrowserIdentities (sv_Config s')). same_identity k origin store j
    \<and> set (bi_Capabilities j) =
       (let base = (if limits \<noteq> [] then set requested \<inter> set limits else set requested)
        in if bi_Authority i then base \<union> {permissionsManage} else base - {permissionsManage})
    \<and> (\<forall>(c, auth) \<in> set (sv_live s). bound_to i auth \<longrightarrow>
         (c, statusServiceRestart, ''Permissions changed'') \<in> set (sv_closed s'))"
proof -
  note i = findIdentity_same [OF found]
  let ?caps = "clamp_grant limits (bi_Authority i) requested"
  let ?j = "i\<lparr>bi_Capabilities := ?caps, bi_Declared := unionStrings limits ?caps,
              bi_ApprovedAt := (if bi_ApprovedAt i = 0 then unix_milli now else bi_ApprovedAt i)\<rparr>"
  have s'': "s' = closeSocketsBoundTo ?j statusServiceRestart ''Permissions changed'' (upsertBrowserIdentity ?j s)"
    using sel nat found caps limits by (simp add: s' updateGrant_def Let_def del: if_split_asm split del: if_split)
  have "?j \<in> set (cf_BrowserIdentities (sv_Config s'))"
    using upsert_identity_in [of ?j s] by (simp add: s'' closeSocketsBoundTo_def split del: if_split)
  moreover have "same_identity k origin store ?j" using i by (simp add: same_identity_def split del: if_split)
  moreover have "set (bi_Capabilities ?j) =
       (let base = (if limits \<noteq> [] then set requested \<inter> set limits else set requested)
        in if bi_Authority i then base \<union> {permissionsManage} else base - {permissionsManage})"
    using set_clamp [OF set_capabilityArg [OF caps]] by simp
  moreover have "\<forall>(c, auth) \<in> set (sv_live s). bound_to i auth \<longrightarrow>
         (c, statusServiceRestart, ''Permissions changed'') \<in> set (sv_closed s')"
    by (force simp: s'' closeSocketsBoundTo_def upsertBrowserIdentity_def set_identities_def bound_to_def image_iff)
  ultimately show ?thesis by blast
qed

definition update_args :: obj where
  "update_args = [(''keyId'', StrV ''ka''), (''origin'', StrV ''https://o.dynapp.io''), (''storeId'', StrV ''a/b''),
     (''capabilities'', ArrV [StrV ''fs.list'', StrV ''fs.exec'', StrV ''permissions.manage''])]"

theorem update_clamps_to_the_ceiling_witness:
  "\<exists>j \<in> set (cf_BrowserIdentities (sv_Config (fst (updateGrant (\<lambda>_. []) (\<lambda>_. Inl ''offline'') ''linux'' 0 update_args (sy_server sample_system))))).
     same_identity ''ka'' ''https://o.dynapp.io'' ''a/b'' j \<and> set (bi_Capabilities j) = {''fs.list''}"
proof -
  have sel: "grantSelector (\<lambda>_. []) update_args = Inr (''ka'', ''https://o.dynapp.io'', ''a/b'')" by code_simp
  have nat: "\<not> has_prefix ''ka'' nativeKeyPrefix" by code_simp
  have found: "findIdentity ''ka'' ''https://o.dynapp.io'' ''a/b'' (sy_server sample_system) = Some app_identity" by code_simp
  have caps: "capabilityArg update_args = Some [''fs.exec'', ''fs.list'', ''permissions.manage'']" by code_simp
  have limits: "[''fs.list''] = declaredCeiling (\<lambda>_. []) (\<lambda>_. Inl ''offline'') ''a/b'' (bi_Declared app_identity)" by code_simp
  have na: "bi_Authority app_identity = False" by code_simp
  have set: "(let base = (if [''fs.list''] \<noteq> [] then set [''fs.exec'', ''fs.list'', ''permissions.manage''] \<inter> set [''fs.list'']
                else set [''fs.exec'', ''fs.list'', ''permissions.manage''])
        in if False then base \<union> {permissionsManage} else base - {permissionsManage}) = {''fs.list''}"
    by (simp add: permissionsManage_def)
  show ?thesis
    using update_clamps_to_the_ceiling [where goos = "''linux''" and now = 0, OF sel nat found caps limits refl, unfolded na set]
    by (elim bexE conjE) (rule bexI, rule conjI)
qed

subsection \<open>The registry\<close>

datatype registry_event =
    Register int "nat \<Rightarrow> (nat \<times> bytes) option" pendingRequest
  | Unregister string
  | Decide int obj

definition registry_step :: "(any \<Rightarrow> string) \<Rightarrow> (bytes \<Rightarrow> string) \<Rightarrow> server \<Rightarrow> registry_event \<Rightarrow> server" where
  "registry_step sprint b64 s e =
     (case e of
        Register now draw request \<Rightarrow> fst (registerPending b64 now draw request s)
      | Unregister i \<Rightarrow> unregisterPending i s
      | Decide now args \<Rightarrow> fst (decidePermissions sprint now args s))"

definition entry_ok :: "string \<times> pendingRequest \<Rightarrow> bool" where
  "entry_ok e \<longleftrightarrow> pr_ID (snd e) = fst e
     \<and> (\<forall>g. pr_decision (snd e) = Some (Some g) \<longrightarrow> set g \<subseteq> set (pr_Declared (snd e)))"

definition registry_ok :: "server \<Rightarrow> bool" where
  "registry_ok s \<longleftrightarrow>
     well_keyed (sv_pending s) \<and> length (sv_pending s) \<le> 32
     \<and> distinct (map (\<lambda>(_, p). pr_Code p) (sv_pending s))
     \<and> (\<forall>e \<in> set (sv_pending s). entry_ok e)"

lemma distinct_map_filter_keep: "distinct (map f xs) \<Longrightarrow> distinct (map f (filter P xs))"
  by (induction xs) auto

lemma registry_purge: "registry_ok s \<Longrightarrow> registry_ok (purge_pending now s)"
  by (auto simp: registry_ok_def purge_pending_def distinct_map_filter_keep
      intro: order_trans [OF length_filter_le])

lemma registry_attempts:
  assumes "registry_ok s" and "length (sv_pending s) < 32" and "pr_resolved request = False"
  shows "registry_ok (fst (register_attempts b64 now request draws s))"
  using assms
proof (induction b64 now request draws s rule: register_attempts.induct)
  case (3 b64 now request v raw draws s)
  show ?case
  proof (cases "\<exists>(_, p) \<in> set (sv_pending s). pr_Code p = approvalCode v \<or> pr_ID p = requestID b64 raw")
    case True
    with 3 show ?thesis by (auto simp: Let_def)
  next
    case False
    then have "requestID b64 raw \<notin> fst ` set (sv_pending s)" "approvalCode v \<notin> (\<lambda>(_, p). pr_Code p) ` set (sv_pending s)"
      using "3.prems"(1) by (force simp: registry_ok_def entry_ok_def)+
    with False "3.prems" show ?thesis
      by (auto simp: Let_def registry_ok_def update_fresh well_keyed_def resolve_pending_def entry_ok_def)
  qed
qed (auto simp: registry_ok_def)

lemma registry_register:
  assumes "registry_ok s" and "\<not> pr_resolved request"
  shows "registry_ok (fst (registerPending b64 now draw request s))"
  using registry_purge [OF assms(1)] registry_attempts assms(2) by (simp add: registerPending_def Let_def)

lemma distinct_map_delete: "distinct (map f m) \<Longrightarrow> distinct (map f (AList.delete k m))"
  by (simp add: AList.delete_eq distinct_map_filter_keep)

lemma registry_unregister: "registry_ok s \<Longrightarrow> registry_ok (unregisterPending i s)"
  using set_AList_delete [of i "sv_pending s"] length_delete_le [of i "sv_pending s"]
  by (auto simp: registry_ok_def unregisterPending_def distinct_map_delete dest: subsetD)

lemma update_replace_map:
  "map_of m k = Some v \<Longrightarrow> well_keyed m \<Longrightarrow> f (k, v') = f (k, v) \<Longrightarrow> map f (AList.update k v' m) = map f m"
  by (induction m) (auto simp: well_keyed_def split: if_splits)

lemma registry_replace:
  assumes ok: "registry_ok s" and p: "map_of (sv_pending s) i = Some p"
    and q: "pr_ID q = pr_ID p" "pr_Code q = pr_Code p"
      "\<And>g. pr_decision q = Some (Some g) \<Longrightarrow> set g \<subseteq> set (pr_Declared q)"
  shows "registry_ok (s\<lparr>sv_pending := AList.update i q (sv_pending s)\<rparr>)"
proof -
  have wk: "well_keyed (sv_pending s)" using ok by (simp add: registry_ok_def)
  have "map (\<lambda>(_, p). pr_Code p) (AList.update i q (sv_pending s)) = map (\<lambda>(_, p). pr_Code p) (sv_pending s)"
    by (rule update_replace_map [OF p wk]) (simp add: q)
  moreover have "length (AList.update i q (sv_pending s)) = length (sv_pending s)"
    using update_replace_map [OF p wk, of "\<lambda>_. ()" q] by (metis length_map)
  moreover have "entry_ok (i, q)" using ok p q by (force simp: registry_ok_def entry_ok_def dest: map_of_SomeD)
  ultimately show ?thesis
    using ok set_AList_update [of i q "sv_pending s"] by (auto simp: registry_ok_def)
qed

lemma registry_decide: "registry_ok s \<Longrightarrow> registry_ok (fst (decidePermissions sprint now args s))"
proof -
  assume ok: "registry_ok s"
  have "set g \<subseteq> set (pr_Declared p)"
    if "map_of (sv_pending s) i = Some p" "pr_decision p = Some (Some g)" for i p g
    using ok that by (fastforce simp: registry_ok_def entry_ok_def dest: map_of_SomeD)
  with ok show ?thesis
    by (auto simp: decidePermissions_def Let_def resolve_pending_def split: option.split
        intro!: registry_replace)
qed

definition legal_registration :: "registry_event \<Rightarrow> bool" where
  "legal_registration e \<longleftrightarrow> (case e of Register now draw request \<Rightarrow> \<not> pr_resolved request | _ \<Rightarrow> True)"

interpretation registry: invariant_machine "registry_step sprint b64" legal_registration registry_ok for sprint b64
  by unfold_locales
    (simp add: registry_step_def legal_registration_def registry_register registry_unregister registry_decide
      split: registry_event.splits)

text \<open>
  C7: The registry of pending requests stays small and unambiguous: after any sequence of
  registrations, decisions and removals from a fresh server there are at most 32 requests, each
  filed under its own id, no two with the same code, and every granted set is within the set that
  was declared.
\<close>

theorem registry_stays_bounded:
  assumes "sv_pending s0 = []" and "list_all legal_registration es"
  shows "registry_ok (foldl (registry_step sprint b64) s0 es)"
  by (rule registry.run_good [OF _ assms(2)]) (simp add: assms(1) registry_ok_def)

theorem registry_stays_bounded_witness:
  "registry_ok (foldl (registry_step (\<lambda>_. []) (\<lambda>_. ''id'')) (sample_server [] [])
     [Register 0 (\<lambda>n. Some (n, [])) (pairing_request dev_identity dev_app), Decide 1 [(''id'', StrV ''req_id'')]])"
  by (rule registry_stays_bounded)
    (simp_all add: sample_server_def legal_registration_def pairing_request_def)

end
