(* ===== verification/Identity_Properties.thy ===== *)
theory Identity_Properties
  imports Access_Properties
begin

text \<open>
  Properties of single operations on identities, pre-approvals and native grants
  (\<open>Registry\<close>, \<open>Identity\<close>, \<open>Native_Apps\<close>): which stored grant is reused, what a pre-approval is
  worth, what the signed payload binds, and how stored lists are merged.
\<close>

subsection \<open>Reusing a grant\<close>

definition better :: "browserIdentity \<times> nat \<Rightarrow> browserIdentity \<times> nat \<Rightarrow> bool" where
  "better b i \<longleftrightarrow> snd i < snd b \<or> snd i = snd b \<and> bi_ApprovedAt (fst i) \<le> bi_ApprovedAt (fst b)"

lemma better_trans: "better a b \<Longrightarrow> better b c \<Longrightarrow> better a c"
  by (auto simp: better_def)

lemma approved_loop_best:
  assumes "approved_loop origin n best ids = Some b"
    and "\<And>i p. best = Some (i, p) \<Longrightarrow> grant_priority origin n i = Some p"
  shows "\<exists>p. grant_priority origin n b = Some p \<and> (b \<in> set ids \<or> best = Some (b, p))
    \<and> (\<forall>e. best = Some e \<longrightarrow> better (b, p) e)
    \<and> (\<forall>i \<in> set ids. \<forall>q. grant_priority origin n i = Some q \<longrightarrow> better (b, p) (i, q))"
  using assms
proof (induction origin n best ids rule: approved_loop.induct)
  case (1 origin n best)
  then show ?case by (auto simp: better_def)
next
  case (2 origin n best i "is")
  let ?next = "case grant_priority origin n i of None \<Rightarrow> best
    | Some p \<Rightarrow> (case best of None \<Rightarrow> Some (i, p)
        | Some (b, bp) \<Rightarrow> if p > bp \<or> p = bp \<and> bi_ApprovedAt i > bi_ApprovedAt b then Some (i, p) else best)"
  have nx: "\<And>j p. ?next = Some (j, p) \<Longrightarrow> grant_priority origin n j = Some p"
    using "2.prems"(2) by (auto split: option.splits if_splits)
  from "2.prems"(1) have "approved_loop origin n ?next is = Some b" by simp
  from "2.IH" [OF this nx] obtain p where p: "grant_priority origin n b = Some p" "b \<in> set is \<or> ?next = Some (b, p)"
      "\<forall>e. ?next = Some e \<longrightarrow> better (b, p) e"
      "\<forall>i \<in> set is. \<forall>q. grant_priority origin n i = Some q \<longrightarrow> better (b, p) (i, q)" by blast
  have "b \<in> set (i # is) \<or> best = Some (b, p)"
    using p(2) by (auto split: option.splits if_splits prod.splits)
  moreover have "better (b, p) e" if "best = Some e" for e
    using p(3) that by (auto simp: better_def split: option.splits if_splits prod.splits)
  moreover have "better (b, p) (i, q)" if "grant_priority origin n i = Some q" for q
    using p(3) that by (auto simp: better_def split: option.splits if_splits prod.splits)
  ultimately show ?case using p(1,4) by auto
qed

lemma approved_loop_none:
  "approved_loop origin n best ids = None \<longleftrightarrow> best = None \<and> (\<forall>i \<in> set ids. grant_priority origin n i = None)"
  by (induction origin n best ids rule: approved_loop.induct) (auto split: option.splits if_splits prod.splits)

text \<open>
  \<open>findApprovedAppGrant\<close> picks the best stored grant for an origin and app: one that is not the
  authority's, whose origin is equivalent, that is app-scoped if any app-scoped grant qualifies
  and origin-wide otherwise, and among those the most recently approved. It finds nothing exactly
  when no stored identity qualifies.
\<close>

theorem approved_grant_is_the_best:
  "case findApprovedAppGrant ids origin n of
     None \<Rightarrow> (\<forall>i \<in> set ids. grant_priority origin n i = None)
   | Some b \<Rightarrow> b \<in> set ids \<and> \<not> bi_Authority b \<and> sameIdentityOrigin (bi_Origin b) origin
       \<and> (\<exists>p. grant_priority origin n b = Some p
            \<and> (\<forall>i \<in> set ids. \<forall>q. grant_priority origin n i = Some q \<longrightarrow>
                 q < p \<or> q = p \<and> bi_ApprovedAt i \<le> bi_ApprovedAt b))"
proof (cases "findApprovedAppGrant ids origin n")
  case None
  then have "\<forall>i \<in> set ids. grant_priority origin n i = None"
    by (simp add: findApprovedAppGrant_def approved_loop_none)
  with None show ?thesis by simp
next
  case (Some b)
  then obtain p where p: "grant_priority origin n b = Some p" "b \<in> set ids"
      "\<forall>i \<in> set ids. \<forall>q. grant_priority origin n i = Some q \<longrightarrow> better (b, p) (i, q)"
    using approved_loop_best [of origin n None ids b] by (auto simp: findApprovedAppGrant_def)
  then have "\<not> bi_Authority b \<and> sameIdentityOrigin (bi_Origin b) origin"
    by (auto simp: grant_priority_def split: if_splits)
  with Some p show ?thesis by (auto simp: better_def)
qed

definition old_identity :: browserIdentity where
  "old_identity = (sample_identity ''ko'' [] [''fs.stat''] False)\<lparr>bi_ApprovedAt := 0\<rparr>"

theorem approved_grant_is_the_best_witness:
  "findApprovedAppGrant [old_identity, dyner_identity, app_identity] ''https://o.dynapp.io'' ''a/b'' = Some app_identity
   \<and> (\<exists>p. grant_priority ''https://o.dynapp.io'' ''a/b'' app_identity = Some p)"
proof -
  have "findApprovedAppGrant [old_identity, dyner_identity, app_identity] ''https://o.dynapp.io'' ''a/b'' = Some app_identity"
    by code_simp
  with approved_grant_is_the_best [of "[old_identity, dyner_identity, app_identity]" "''https://o.dynapp.io''" "''a/b''"]
  show ?thesis by auto
qed

subsection \<open>Pre-approvals\<close>

text \<open>
  A pre-approval is worth exactly one handshake. After the authority pre-approved a store id,
  consuming it before it expires returns the approved permissions without \<open>permissions.manage\<close>,
  consuming it later returns nothing, and after either there is nothing left to consume.
\<close>

theorem preapproval_round_trip:
  assumes "validStoreID i" and "trim_space (StringValue sprint (obj_get args ''storeId'')) = i"
    and "capabilityArg args = Some caps"
  shows "\<exists>s2 r. consumePreApproval t i (fst (preapprovePermissions sprint ovf now args s)) = (s2, r)
    \<and> (if t < now + preapproval_ttl ovf args
       then \<exists>a. r = Some a \<and> set (pa_Capabilities a) = set caps - {permissionsManage}
       else r = None)
    \<and> (\<forall>t'. snd (consumePreApproval t' i s2) = None)"
  using assms by (simp add: preapprovePermissions_def Let_def consumePreApproval_def)

theorem preapproval_round_trip_witness:
  "snd (consumePreApproval 5 ''a/b'' preapproved_server) \<noteq> None"
proof -
  let ?args = "[(''storeId'', StrV ''a/b''), (''capabilities'', ArrV [StrV ''fs.list'', StrV ''permissions.manage''])]"
  have h: "validStoreID ''a/b''" "trim_space (StringValue (\<lambda>_. []) (obj_get ?args ''storeId'')) = ''a/b''"
    "capabilityArg ?args = Some [''fs.list'', ''permissions.manage'']" by code_simp+
  have "5 < (0::int) + preapproval_ttl (\<lambda>_. 0) ?args" by code_simp
  with preapproval_round_trip [OF h, of 5 "\<lambda>_. 0" 0 "sample_server [dyner_identity] []"] show ?thesis
    by (auto simp: preapproved_server_def)
qed

text \<open>
  The time to live of a pre-approval is the requested number of milliseconds, truncated, and at
  most one hour, as long as the request is below about 292 years.
\<close>

theorem preapproval_ttl_in_range:
  assumes "obj_get args ''expiresInMs'' = NumV r" and "0 < r" and "r < 9223372036855"
  shows "preapproval_ttl ovf args = min (trunc_rat r * 1000000) maxPreApprovalTTL"
proof -
  have "0 \<le> floor r" "floor r \<le> 9223372036854" using assms(2,3) by (simp_all add: floor_less_iff)
  then have b: "0 \<le> trunc_rat r" "trunc_rat r \<le> 9223372036854" using assms(2) by (simp_all add: trunc_rat_def)
  then have "integer64 ovf (NumV r) = trunc_rat r" by (simp add: integer64_def Let_def)
  moreover have "wrap64 (trunc_rat r * 1000000) = trunc_rat r * 1000000"
    using b by (simp add: wrap64_def)
  ultimately show ?thesis using assms by (simp add: preapproval_ttl_def Let_def min_def)
qed

theorem preapproval_ttl_in_range_witness:
  "preapproval_ttl (\<lambda>_. 0) [(''expiresInMs'', NumV 2500)] = 2500000000"
  using preapproval_ttl_in_range [of "[(''expiresInMs'', NumV 2500)]" 2500 "\<lambda>_. 0"]
  by (simp add: obj_get_def trunc_rat_def maxPreApprovalTTL_def)

text \<open>
  Beyond that range the product wraps: a pre-approval asked to live ten trillion milliseconds is
  accepted, expires before it was made, and is refused at the first launch.
\<close>

theorem huge_preapproval_is_dead:
  assumes "validStoreID i" and "trim_space (StringValue sprint (obj_get args ''storeId'')) = i"
    and "capabilityArg args = Some caps" and "obj_get args ''expiresInMs'' = NumV 10000000000000"
  shows "snd (preapprovePermissions sprint ovf now args s) \<noteq> Inl e
    \<and> snd (consumePreApproval now i (fst (preapprovePermissions sprint ovf now args s))) = None"
proof -
  have "trunc_rat 10000000000000 = 10000000000000" by (simp add: trunc_rat_def)
  then have "preapproval_ttl ovf args < 0"
    by (simp add: preapproval_ttl_def assms(4) integer64_def wrap64_def maxPreApprovalTTL_def)
  with assms(1-3) show ?thesis
    by (simp add: preapprovePermissions_def Let_def consumePreApproval_def)
qed

theorem huge_preapproval_is_dead_witness:
  "snd (consumePreApproval 0 ''a/b'' (fst (preapprovePermissions (\<lambda>_. []) (\<lambda>_. 0) 0
     [(''storeId'', StrV ''a/b''), (''capabilities'', ArrV []), (''expiresInMs'', NumV 10000000000000)]
     (sample_server [] [])))) = None"
proof -
  let ?args = "[(''storeId'', StrV ''a/b''), (''capabilities'', ArrV []), (''expiresInMs'', NumV 10000000000000)]"
  have h: "validStoreID ''a/b''" "trim_space (StringValue (\<lambda>_. []) (obj_get ?args ''storeId'')) = ''a/b''"
    "capabilityArg ?args = Some []" by code_simp+
  have "obj_get ?args ''expiresInMs'' = NumV 10000000000000" by (simp add: obj_get_def)
  from huge_preapproval_is_dead [OF h this] show ?thesis by simp
qed

subsection \<open>The signed payload\<close>

lemma append_newline_inj:
  assumes "a @ newline # b = c @ newline # d" and "newline \<notin> set a" and "newline \<notin> set c"
  shows "a = c \<and> b = d"
proof -
  have "takeWhile (\<lambda>x. x \<noteq> newline) (a @ newline # b) = a" using assms(2) by (auto simp: takeWhile_append)
  moreover have "takeWhile (\<lambda>x. x \<noteq> newline) (c @ newline # d) = c" using assms(3) by (auto simp: takeWhile_append)
  ultimately show ?thesis using assms(1) by simp
qed

text \<open>
  The bytes a browser signs bind the challenge, the origin and the key: two payloads with equal
  bytes have the same nonce, origin and key id (the nonce and the origin contain no newline).
\<close>

theorem signed_payload_binds:
  assumes "directLocalPayload n o1 k = directLocalPayload n' o2 k'"
    and "newline \<notin> set n" "newline \<notin> set n'" "newline \<notin> set o1" "newline \<notin> set o2"
  shows "n = n' \<and> o1 = o2 \<and> k = k'"
proof -
  from assms(1) have "n @ newline # (o1 @ newline # k) = n' @ newline # (o2 @ newline # k')"
    by (simp add: directLocalPayload_def)
  then have "n = n'" "o1 @ newline # k = o2 @ newline # k'" using append_newline_inj assms(2,3) by blast+
  with append_newline_inj assms(4,5) show ?thesis by blast
qed

theorem signed_payload_binds_witness:
  "''x'' = (''x''::string) \<and> ''http://localhost'' = (''http://localhost''::string) \<and> ''k'' = (''k''::string)"
  by (rule signed_payload_binds) (simp_all add: newline_def)

subsection \<open>Stored lists\<close>

lemma normalize_loop_result:
  "normalize_loop h seen ids = Inr r \<Longrightarrow>
     distinct (map identity_key r) \<and> identity_key ` set r \<inter> set seen = {} \<and> subseq r ids
     \<and> identity_key ` set r \<union> set seen = identity_key ` set ids \<union> set seen
     \<and> (\<forall>i \<in> set ids. validate_identity h i = Inr ())"
proof (induction h seen ids arbitrary: r rule: normalize_loop.induct)
  case (1 h seen)
  then show ?case by simp
next
  case (2 h seen i "is")
  from "2.prems" have v: "validate_identity h i = Inr ()" by (cases "validate_identity h i") auto
  show ?case
  proof (cases "identity_key i \<in> set seen")
    case True
    with "2.prems" v have "normalize_loop h seen is = Inr r" by simp
    from "2.IH"(1) [OF v True this] v True show ?thesis by auto
  next
    case False
    with "2.prems" v obtain q where q: "normalize_loop h (identity_key i # seen) is = Inr q" "r = i # q"
      by (auto split: sum.splits)
    from "2.IH"(2) [OF v False q(1)] q(2) v False show ?thesis by auto
  qed
qed

lemma normalize_loop_total:
  "(\<forall>i \<in> set ids. validate_identity h i = Inr ()) \<Longrightarrow> \<exists>r. normalize_loop h seen ids = Inr r"
proof (induction h seen ids rule: normalize_loop.induct)
  case (1 h seen)
  then show ?case by simp
next
  case (2 h seen i "is")
  then have v: "validate_identity h i = Inr ()" by simp
  show ?case
  proof (cases "identity_key i \<in> set seen")
    case True
    have "\<forall>j \<in> set is. validate_identity h j = Inr ()" using "2.prems" by simp
    from "2.IH"(1) [OF v True this] v True show ?thesis by simp
  next
    case False
    have "\<forall>j \<in> set is. validate_identity h j = Inr ()" using "2.prems" by simp
    from "2.IH"(2) [OF v False this] obtain r where "normalize_loop h (identity_key i # seen) is = Inr r" ..
    with v False show ?thesis by simp
  qed
qed

text \<open>
  A synchronised list keeps local approvals. When all identities are valid,
  \<open>mergeSyncedIdentities\<close> yields a list without two entries for the same key, origin and app; an
  identity approved on this machine is in it unless an earlier entry has its key; every entry
  approved here before or sent by Dyner is represented; entries only an older sync had are gone.
\<close>

theorem merge_keeps_local_approvals:
  assumes "\<forall>i \<in> set existing \<union> set fresh. validate_identity h i = Inr ()"
  shows "distinct (map identity_key (mergeSyncedIdentities h existing fresh))
    \<and> subseq (mergeSyncedIdentities h existing fresh) (filter (\<lambda>i. bi_ApprovedAt i > 0) existing @ fresh)
    \<and> identity_key ` set (mergeSyncedIdentities h existing fresh) =
        identity_key ` ({i \<in> set existing. bi_ApprovedAt i > 0} \<union> set fresh)"
proof -
  let ?m = "filter (\<lambda>i. bi_ApprovedAt i > 0) existing @ fresh"
  have "\<forall>i \<in> set ?m. validate_identity h i = Inr ()" using assms by auto
  then obtain r where r: "normalize_loop h [] ?m = Inr r" using normalize_loop_total by blast
  then have "mergeSyncedIdentities h existing fresh = r"
    by (simp add: mergeSyncedIdentities_def normalizeBrowserIdentities_def)
  moreover have "set ?m = {i \<in> set existing. bi_ApprovedAt i > 0} \<union> set fresh" by auto
  ultimately show ?thesis using normalize_loop_result [OF r] by simp
qed

definition valid_identity :: "string \<Rightarrow> int \<Rightarrow> browserIdentity" where
  "valid_identity origin approved =
     (sample_identity key43 ''a/b'' [] False)\<lparr>bi_X := key43, bi_Y := key43, bi_Origin := origin, bi_ApprovedAt := approved\<rparr>"

theorem merge_keeps_local_approvals_witness:
  "distinct (map identity_key (mergeSyncedIdentities (\<lambda>_. key43)
     [valid_identity ''https://x.io'' 3, valid_identity ''https://y.io'' 0] [valid_identity ''https://x.io'' 0]))"
proof -
  have "validate_identity (\<lambda>_. key43) (valid_identity ''https://x.io'' 3) = Inr ()"
    "validate_identity (\<lambda>_. key43) (valid_identity ''https://y.io'' 0) = Inr ()"
    "validate_identity (\<lambda>_. key43) (valid_identity ''https://x.io'' 0) = Inr ()" by code_simp+
  then show ?thesis
    using merge_keeps_local_approvals [of "[valid_identity ''https://x.io'' 3, valid_identity ''https://y.io'' 0]" "[valid_identity ''https://x.io'' 0]"]
    by simp
qed

subsection \<open>Native grants\<close>

lemma find_append_none: "find P xs = None \<Longrightarrow> find P (xs @ [x]) = (if P x then Some x else None)"
  by (induction xs) auto

text \<open>
  An installed app's connection holds what was granted to it and is still declared: with the
  current manifest, the effective set is the stored grant cut down to the manifest's permissions,
  with \<open>permissions.manage\<close> exactly for the authority app.
\<close>

theorem native_effective_set:
  assumes "\<And>p. p \<in> set (ra_Declared r) \<Longrightarrow> trim_space p = p \<and> p \<noteq> []"
  shows "set (sa_capabilities (authForNative app (Some r))) =
    (if na_Authority app then (set (na_Capabilities app) \<inter> set (ra_Declared r)) \<union> {permissionsManage}
     else (set (na_Capabilities app) \<inter> set (ra_Declared r)) - {permissionsManage})"
proof -
  let ?b = "set (na_Capabilities app) \<inter> set (ra_Declared r)"
  have strip: "trim_space ` S - {[]} = S" if "S \<subseteq> set (ra_Declared r) \<union> {permissionsManage}" for S
  proof (rule trimmed_strip)
    fix p
    assume "p \<in> S"
    with that consider "p \<in> set (ra_Declared r)" | "p = permissionsManage" by blast
    then show "trim_space p = p \<and> p \<noteq> []" using assms by cases auto
  qed
  have ne: "[] \<notin> ?b" using assms by blast
  show ?thesis
  proof (cases "na_Authority app")
    case True
    let ?c = "insert permissionsManage (set (na_Capabilities app) \<inter> (insert permissionsManage (set (ra_Declared r)) - {[]})) - {[]}"
    have "set (sa_capabilities (authForNative app (Some r))) = trim_space ` ?c - {[]}"
      using True by (simp add: authForNative_def Let_def)
    also have "?c = ?b \<union> {permissionsManage}" using ne by auto
    also have "trim_space ` (?b \<union> {permissionsManage}) - {[]} = ?b \<union> {permissionsManage}"
      by (rule strip) auto
    finally show ?thesis using True by simp
  next
    case False
    with strip [of "?b - {permissionsManage}"] show ?thesis by (simp add: authForNative_def Let_def subset_iff)
  qed
qed

definition sample_native :: nativeApp where
  "sample_native = \<lparr>na_StoreID = ''a/b'', na_Name = ''b'', na_Origin = ''https://o.dynapp.io'', na_URL = [], na_Path = ''/p'',
     na_Executable = [], na_CDHash = [], na_BundleID = [], na_InstalledAt = 1, na_Capabilities = [''fs.list'', ''fs.exec''],
     na_Declared = [''fs.list''], na_Connect = [], na_ApprovedAt = 1, na_Authority = False, na_Orientation = []\<rparr>"

theorem native_effective_set_witness:
  "set (sa_capabilities (authForNative sample_native (Some dev_app))) = {''fs.list'', ''fs.exec''}"
proof -
  have "list_all (\<lambda>p. trim_space p = p \<and> p \<noteq> []) (ra_Declared dev_app)" by code_simp
  then have "\<And>p. p \<in> set (ra_Declared dev_app) \<Longrightarrow> trim_space p = p \<and> p \<noteq> []" by (simp add: list_all_iff)
  note eff = native_effective_set [OF this, where app = sample_native]
  have f: "na_Authority sample_native = False" "set (na_Capabilities sample_native) \<inter> set (ra_Declared dev_app) - {permissionsManage} = {''fs.list'', ''fs.exec''}"
    by (auto simp: sample_native_def dev_app_def permissionsManage_def)
  show ?thesis using eff by (simp only: f if_False)
qed

text \<open>
  A review that was on the screen while its app was uninstalled brings the app back. The answer
  is stored into the record read before the question, so after \<open>removeNativeApp\<close> the app and its new
  grant are in the configuration again.
\<close>

theorem review_restores_uninstalled_app:
  assumes "validate_native app = Inr ()"
  shows "nativeApp_lookup (na_StoreID app) (removeNativeApp (na_StoreID app) s) = None
    \<and> (\<exists>a. nativeApp_lookup (na_StoreID app)
            (fst (review_answer now declared (Some caps) app (removeNativeApp (na_StoreID app) s))) = Some a
          \<and> set (normalizePermissionSet (intersectStrings caps declared)) \<subseteq> set (na_Capabilities a))"
proof -
  let ?n = "na_StoreID app" and ?s = "removeNativeApp (na_StoreID app) s"
  have gone: "nativeApp_lookup ?n ?s = None"
    by (simp add: nativeApp_lookup_def removeNativeApp_def set_native_def find_None_iff)
  have valid: "validate_native (app\<lparr>na_Capabilities := cs, na_Declared := d, na_ApprovedAt := t\<rparr>) = Inr ()" for cs d t
  proof -
    have "validate_native (app\<lparr>na_Capabilities := cs, na_Declared := d, na_ApprovedAt := t\<rparr>) = validate_native app"
      by (simp add: validate_native_def cong: if_cong option.case_cong)
    with assms show ?thesis by simp
  qed
  have "nativeApp_lookup ?n (upsertNativeApp (app\<lparr>na_Capabilities := cs, na_Declared := d, na_ApprovedAt := t\<rparr>) ?s)
      = Some (app\<lparr>na_Capabilities := cs, na_Declared := d, na_ApprovedAt := t\<rparr>)" for cs d t
    using gone by (simp add: upsertNativeApp_def valid nativeApp_lookup_def set_native_def upsert_by_def find_None_iff
        find_append_none)
  with gone show ?thesis by (auto simp: review_answer_def Let_def)
qed

theorem review_restores_uninstalled_app_witness:
  "\<exists>a. nativeApp_lookup ''a/b'' (fst (review_answer 0 [''fs.list''] (Some [''fs.list'']) sample_native
     (removeNativeApp ''a/b'' (sample_server [] [])))) = Some a \<and> set [''fs.list''] \<subseteq> set (na_Capabilities a)"
proof -
  have v: "validate_native sample_native = Inr ()" by code_simp
  have n: "na_StoreID sample_native = ''a/b''" by code_simp
  have i: "normalizePermissionSet (intersectStrings [''fs.list''] [''fs.list'']) = [''fs.list'']" by code_simp
  from review_restores_uninstalled_app [OF v, of "sample_server [] []" 0 "[''fs.list'']" "[''fs.list'']", unfolded n i]
  show ?thesis by blast
qed

end
