(* ===== verification/Gate_Properties.thy ===== *)
theory Gate_Properties
  imports Config Catalog
begin

text \<open>
  Properties of the capability gate, the HTTP allowlist, the permission catalog and the listener
  configuration (\<open>Gate\<close>, \<open>Connect\<close>, \<open>Catalog\<close>, \<open>Config\<close>).
\<close>

subsection \<open>The gate\<close>

definition sample_auth :: socketAuthentication where
  "sample_auth = no_auth\<lparr>sa_capabilities := [''fs.remote''], sa_keyID := ''k'', sa_storeID := ''a/b'', sa_ok := True\<rparr>"

definition list_request :: message where
  "list_request = blank_message\<lparr>m_Type := ''fs'', m_ID := ''1'', m_Method := ''list'', m_AppID := ''b''\<rparr>"

text \<open>
  C4: No frame reaches a service without its permission. Whenever the frame loop hands a request to
  the filesystem, a command, the presentation or an RPC service, or opens a network bridge, the
  socket's pairing is still stored, the frame named the bound app or none, the request the
  service sees carries the bound app id, and one of the permissions the request needs is granted.
\<close>

theorem served_frames_are_granted:
  assumes "serve_frame sprint auth has bd (Some request) = t"
    and "t \<in> {ToFilesystem q, ToExec q, ToPresentation q, ToRPC q, ToNetwork q p True}"
    and "m_Type request \<notin> {''net-data'', ''net-close''}"
  shows "(sa_keyID auth \<noteq> [] \<longrightarrow> has)
    \<and> (sa_storeID auth \<noteq> [] \<longrightarrow> appIDMatches (sa_storeID auth) (m_AppID request) \<and> m_AppID q = sa_storeID auth)
    \<and> (\<exists>cap \<in> set (frame_needs sprint request). socketAllows (sa_capabilities auth) cap)"
proof -
  let ?r = "if sa_storeID auth \<noteq> [] then request\<lparr>m_AppID := sa_storeID auth\<rparr> else request"
  have gate: "(sa_keyID auth \<noteq> [] \<longrightarrow> has) \<and> (sa_storeID auth \<noteq> [] \<longrightarrow> appIDMatches (sa_storeID auth) (m_AppID request))
      \<and> dispatch_frame sprint auth bd ?r = t"
    using assms(1,2) by (auto simp: serve_frame_def split: if_splits)
  have needs: "frame_needs sprint ?r = frame_needs sprint request" and ty: "m_Type ?r = m_Type request" by simp_all
  have "q = ?r \<and> (\<exists>cap \<in> set (frame_needs sprint ?r). socketAllows (sa_capabilities auth) cap)"
  proof (cases "t = ToNetwork q p True")
    case True
    with gate dispatch_net [of sprint auth bd ?r q p True] assms(3) ty show ?thesis by auto
  next
    case False
    with gate dispatch_served [of sprint auth bd ?r t q] assms(2) show ?thesis by auto
  qed
  with gate needs show ?thesis by auto
qed

theorem served_frames_are_granted_witness:
  "m_AppID (list_request\<lparr>m_AppID := ''a/b''\<rparr>) = ''a/b''
   \<and> (\<exists>cap \<in> set (frame_needs (\<lambda>_. []) list_request). socketAllows (sa_capabilities sample_auth) cap)"
proof -
  have "serve_frame (\<lambda>_. []) sample_auth True (\<lambda>_. False) (Some list_request) = ToFilesystem (list_request\<lparr>m_AppID := ''a/b''\<rparr>)"
    by code_simp
  from served_frames_are_granted [OF this, of "list_request\<lparr>m_AppID := ''a/b''\<rparr>" "[]"] show ?thesis
    by (simp add: list_request_def blank_message_def)
qed

text \<open>
  The broad \<open>fs.remote\<close> grant covers files and nothing else: a permission it does not name is
  granted only when it is listed itself, or when it is an \<open>fs.\<close> name other than running commands
  and opening files with other programs.
\<close>

theorem remote_files_never_run_programs:
  "socketAllows caps required \<longleftrightarrow>
     required = [] \<or> required \<in> set caps
     \<or> (''fs.remote'' \<in> set caps \<and> has_prefix required ''fs.''
        \<and> required \<notin> {''fs.exec'', ''fs.execFile'', ''fs.execTerminal'', ''fs.openPath'', ''fs.openWith''})"
  by (auto simp: socketAllows_iff fsRemoteExcluded_def)

subsection \<open>HTTP destinations\<close>

text \<open>
  C6: A URL passes the allowlist only at a declared destination: some declared pattern has exactly
  its scheme and host, its decoded path has no \<open>..\<close> segment and is the pattern's path or lies
  below it on a segment boundary.
\<close>

theorem allowed_urls_are_declared:
  assumes "assertURLAllowedByHTTPConnect raw patterns = Inr ()"
  shows "\<exists>u d. url_parse raw = Some u \<and> \<not> u_HasUser u \<and> decoded_path u = Some d \<and> \<not> has_dotdot d
    \<and> (\<exists>pat \<in> set patterns. \<exists>a. url_parse pat = Some a \<and> url_origin a = url_origin u
         \<and> path_below d (if u_Path a = [] then ''/'' else u_Path a))"
proof -
  from assms have "urlAllowedByHTTPConnect raw patterns"
    by (simp add: assertURLAllowedByHTTPConnect_def split: if_splits)
  then obtain u d pat where u: "url_parse raw = Some u" "\<not> u_HasUser u" "decoded_path u = Some d" "\<not> has_dotdot d"
      and pat: "pat \<in> set patterns" "pattern_allows (url_origin u) d pat"
    by (auto simp: url_allowed_unfold)
  from pat(2) obtain a where a: "url_parse pat = Some a" "url_origin a = url_origin u"
      "path_matches d (if u_Path a = [] then ''/'' else u_Path a)"
    by (auto simp: pattern_allows_def split: option.splits)
  with path_matches_below [OF decoded_path_slash [OF u(3)] a(3)] u pat(1) show ?thesis by blast
qed

theorem allowed_urls_are_declared_witness:
  "\<exists>u d. url_parse ''https://api.io/v1/x'' = Some u \<and> decoded_path u = Some d \<and> \<not> has_dotdot d
    \<and> (\<exists>a. url_parse ''https://api.io/v1/'' = Some a \<and> path_below d (if u_Path a = [] then ''/'' else u_Path a))"
proof -
  have "assertURLAllowedByHTTPConnect ''https://api.io/v1/x'' [''https://api.io/v1/''] = Inr ()" by code_simp
  from allowed_urls_are_declared [OF this] show ?thesis by (fastforce simp del: if_split_asm split del: if_split)
qed

text \<open>
  The stored allowlist is a normal form: \<open>httpConnectPatterns\<close> succeeds only when every entry of a
  non-empty list is a valid pattern, and returns the strictly sorted list of the canonical forms,
  each with the expected scheme, a host, an absolute path without \<open>..\<close> and without wildcards.
\<close>

theorem connect_patterns_normal_form:
  assumes "httpConnectPatterns ls scheme = Inr ps"
  shows "sorted ps \<and> distinct ps \<and> ls \<noteq> []
    \<and> set ps = {p. \<exists>t \<in> set ls. parseHTTPConnectPattern t (scheme @ '':'') = Inr p}
    \<and> (\<forall>p \<in> set ps. \<exists>host path. p = scheme @ ''://'' @ host @ path \<and> host \<noteq> [] \<and> has_prefix path ''/''
         \<and> \<not> has_dotdot path \<and> CHR ''*'' \<notin> set path \<and> CHR ''?'' \<notin> set path)"
proof -
  from assms obtain qs where q: "pattern_loop scheme [] ls = Inr qs" "ps = sort qs" "ls \<noteq> []"
    by (auto simp: httpConnectPatterns_def split: if_splits sum.splits)
  have set: "set ps = {p. \<exists>t \<in> set ls. parseHTTPConnectPattern t (scheme @ '':'') = Inr p}"
    using pattern_loop_set [OF q(1)] q(2) by simp
  with pattern_loop_distinct [OF q(1)] q parse_pattern_shape show ?thesis by simp blast
qed

theorem connect_patterns_normal_form_witness:
  "sorted [''https://a.io/x'', ''https://b.io/''] \<and> distinct [''https://a.io/x'', ''https://b.io/'']"
proof -
  have "httpConnectPatterns [''https://b.io'', ''https://a.io/x'', ''https://b.io/''] ''https''
      = Inr [''https://a.io/x'', ''https://b.io/'']" by code_simp
  from connect_patterns_normal_form [OF this] show ?thesis by blast
qed

text \<open>
  Percent-encoding is decoded twice on the way to the comparison, so a request whose path is not
  below the declared one can pass: \<open>/pub%252Fsecret\<close> names the single segment \<open>pub%2Fsecret\<close>, yet it is
  allowed by a pattern for \<open>/pub/\<close>.
\<close>

theorem double_decoding_widens_the_allowlist:
  "httpConnectPatterns [''https://a.io/pub/''] ''https'' = Inr [''https://a.io/pub/'']
   \<and> urlAllowedByHTTPConnect ''https://a.io/pub%252Fsecret'' [''https://a.io/pub/'']
   \<and> (\<exists>u. url_parse ''https://a.io/pub%252Fsecret'' = Some u \<and> u_Path u = ''/pub%2Fsecret''
        \<and> length (filter (\<lambda>c. c = CHR ''/'') (u_Path u)) = 1)"
proof -
  have "case url_parse ''https://a.io/pub%252Fsecret'' of None \<Rightarrow> False
      | Some u \<Rightarrow> u_Path u = ''/pub%2Fsecret'' \<and> length (filter (\<lambda>c. c = CHR ''/'') (u_Path u)) = 1" by code_simp
  moreover have "httpConnectPatterns [''https://a.io/pub/''] ''https'' = Inr [''https://a.io/pub/'']" by code_simp
  moreover have "urlAllowedByHTTPConnect ''https://a.io/pub%252Fsecret'' [''https://a.io/pub/'']" by code_simp
  ultimately show ?thesis by (auto split: option.splits)
qed

subsection \<open>The permission catalog\<close>

lemma sort_eq_Nil: "sort xs = [] \<longleftrightarrow> xs = []" for xs :: "string list"
  by (metis set_empty set_sort)

text \<open>
  Grouping the permissions for the consent screen loses nothing and invents nothing: the groups
  come in catalog order, each non-empty group once, with its permissions sorted and rated by the
  worst of them, and the groups together hold exactly the trimmed, non-blank names that were
  asked for, repetitions included.
\<close>

theorem grouping_is_a_partition:
  "groupPermissions ps = map (group_summary ps) (filter (\<lambda>g. group_members ps (grp_ID g) \<noteq> []) permissionGroups)
   \<and> mset (concat (map sum_Permissions (groupPermissions ps))) = mset (clean_permissions ps)
   \<and> (\<forall>g \<in> set (groupPermissions ps). sum_Permissions g \<noteq> [] \<and> sorted (sum_Permissions g)
        \<and> dangerRank (sum_Danger g) = Max ((\<lambda>p. dangerRank (permissionDanger p)) ` set (sum_Permissions g)))"
proof -
  let ?gs = "filter (\<lambda>g. group_members ps (grp_ID g) \<noteq> []) permissionGroups"
  have g: "groupPermissions ps = map (group_summary ps) ?gs" by (rule groupPermissions_summaries)
  have drop: "concat (map f (filter P xs)) = concat (map f xs)" if "\<And>x. \<not> P x \<Longrightarrow> f x = []" for f :: "permissionGroup \<Rightarrow> string list" and P xs
    using that by (induction xs) auto
  have "mset (concat (map sum_Permissions (groupPermissions ps)))
      = mset (concat (map (\<lambda>x. sort (group_members ps (grp_ID x))) ?gs))"
    by (simp add: g group_summary_def comp_def)
  also have "\<dots> = mset (concat (map (\<lambda>x. sort (group_members ps (grp_ID x))) permissionGroups))"
    by (subst drop) auto
  also have "\<dots> = mset (concat (map (\<lambda>i. filter (\<lambda>p. permissionGroupID p = i) (clean_permissions ps)) (map grp_ID permissionGroups)))"
    by (simp add: mset_concat comp_def group_members_def)
  also have "\<dots> = mset (clean_permissions ps)"
    by (rule mset_by_key [OF distinct_group_ids]) (use permissionGroupID_known in auto)
  finally have m: "mset (concat (map sum_Permissions (groupPermissions ps))) = mset (clean_permissions ps)" .
  have "dangerRank (worst_danger qs) = Max ((\<lambda>p. dangerRank (permissionDanger p)) ` set qs)" if "qs \<noteq> []" for qs
  proof -
    have "Max (insert 0 ((\<lambda>p. dangerRank (permissionDanger p)) ` set qs)) = Max ((\<lambda>p. dangerRank (permissionDanger p)) ` set qs)"
      using that by (subst Max_insert) auto
    then show ?thesis by (simp only: rank_worst_danger)
  qed
  then have "\<forall>x \<in> set (groupPermissions ps). sum_Permissions x \<noteq> [] \<and> sorted (sum_Permissions x)
        \<and> dangerRank (sum_Danger x) = Max ((\<lambda>p. dangerRank (permissionDanger p)) ` set (sum_Permissions x))"
    by (auto simp: g group_summary_def sort_eq_Nil)
  with g m show ?thesis by blast
qed

theorem grouping_is_a_partition_witness:
  "mset (concat (map sum_Permissions (groupPermissions ['' fs.list'', ''fs.exec'', ''fs.list'']))) = {#''fs.list'', ''fs.exec'', ''fs.list''#}"
proof -
  have "clean_permissions ['' fs.list'', ''fs.exec'', ''fs.list''] = [''fs.list'', ''fs.exec'', ''fs.list'']" by code_simp
  moreover have "mset (concat (map sum_Permissions (groupPermissions ['' fs.list'', ''fs.exec'', ''fs.list''])))
      = mset (clean_permissions ['' fs.list'', ''fs.exec'', ''fs.list''])"
    using grouping_is_a_partition [of "['' fs.list'', ''fs.exec'', ''fs.list'']"] by blast
  ultimately show ?thesis by (simp only: mset.simps)
qed

subsection \<open>The listener\<close>

definition listener_settled :: "config \<Rightarrow> bool" where
  "listener_settled c \<longleftrightarrow>
     (cf_ListenerMode c = ''off'' \<and> \<not> cf_LANEnabled c)
     \<or> (cf_ListenerMode c = ''local'' \<and> cf_LANEnabled c \<and> has_prefix (cf_LANAddress c) ''127.0.0.1:'')
     \<or> (cf_ListenerMode c = ''lan'' \<and> cf_LANEnabled c \<and> has_prefix (cf_LANAddress c) ''0.0.0.0:'')"

text \<open>
  After the defaults are applied the listener's mode, switch and address agree: a local listener
  is bound to the loopback address, an open one to all addresses, and one that is off is off. A
  mode the agent does not know becomes a local listener, and a second pass changes nothing of it.
\<close>

theorem listener_defaults_agree:
  "listener_settled (ApplyListenerDefaults url name addr lan c)
   \<and> cf_ListenerMode (ApplyListenerDefaults url name addr lan (ApplyListenerDefaults url name addr lan c))
     = cf_ListenerMode (ApplyListenerDefaults url name addr lan c)
   \<and> cf_LANAddress (ApplyListenerDefaults url name addr lan (ApplyListenerDefaults url name addr lan c))
     = cf_LANAddress (ApplyListenerDefaults url name addr lan c)
   \<and> (cf_ListenerMode (ApplyListenerDefaults url name addr lan c) = ''lan''
        \<longleftrightarrow> lan \<or> cf_ListenerMode c = ''lan'' \<or> cf_ListenerMode c = [] \<and> cf_LANEnabled c)"
proof -
  let ?A = "ApplyListenerDefaults url name addr lan"
  let ?p = "if addr \<noteq> [] then portFromAddress addr else 9011"
  have lan: "cf_ListenerMode (?A c) = ''lan'' \<and> cf_LANEnabled (?A c) \<and> cf_LANAddress (?A c) = lanAddressForPort ?p"
    if "lan \<or> cf_ListenerMode c = ''lan'' \<or> cf_ListenerMode c = [] \<and> cf_LANEnabled c" for c
    using that by (auto simp: ApplyListenerDefaults_def Let_def)
  have off: "cf_ListenerMode (?A c) = ''off'' \<and> \<not> cf_LANEnabled (?A c) \<and> cf_LANAddress (?A c) = cf_LANAddress c"
    if "\<not> lan" "cf_ListenerMode c = ''off''" for c
    using that by (auto simp: ApplyListenerDefaults_def Let_def)
  have loc: "cf_ListenerMode (?A c) = ''local'' \<and> cf_LANEnabled (?A c) \<and> cf_LANAddress (?A c) = loopbackAddressForPort ?p"
    if "\<not> (lan \<or> cf_ListenerMode c = ''lan'' \<or> cf_ListenerMode c = [] \<and> cf_LANEnabled c)" "cf_ListenerMode c \<noteq> ''off''" for c
    using that by (auto simp: ApplyListenerDefaults_def Let_def)
  consider "lan \<or> cf_ListenerMode c = ''lan'' \<or> cf_ListenerMode c = [] \<and> cf_LANEnabled c"
    | "\<not> lan" "cf_ListenerMode c = ''off''"
    | "\<not> (lan \<or> cf_ListenerMode c = ''lan'' \<or> cf_ListenerMode c = [] \<and> cf_LANEnabled c)" "cf_ListenerMode c \<noteq> ''off''"
    by blast
  then show ?thesis
  proof cases
    case 1
    with lan [OF 1] lan [of "?A c"] show ?thesis by (simp add: listener_settled_def lanAddressForPort_def)
  next
    case 2
    with off [OF 2] off [of "?A c"] show ?thesis by (simp add: listener_settled_def)
  next
    case 3
    with loc [OF 3] loc [of "?A c"] show ?thesis by (simp add: listener_settled_def loopbackAddressForPort_def)
  qed
qed

end
