(* ===== verification/Wire.thy ===== *)
theory Wire
  imports Frames
begin

text \<open>
  Framing on the agent's carriers: the native host channel (\<open>shellagent/native_host.go\<close>), the
  WebTransport records (\<open>shellagent/lan.go\<close>), the binary envelope \<open>DFB1\<close> (\<open>shellagent/agent.go\<close>), and
  the WebRTC fragments and candidate exchange (\<open>shellagent/ice.go\<close>). A stream is the list of bytes
  that remain to be read; a read returns the rest of the stream, or an error.
\<close>

datatype kind = TextFrame | BinaryFrame

definition maxReadBytes :: nat where
  "maxReadBytes = 20 * 1024 * 1024"

definition maxNativeFrame :: nat where
  "maxNativeFrame = maxReadBytes + 1024 * 1024"

subsection \<open>The native host channel\<close>

text \<open>\<open>nativeFrameSocket.Write\<close> and \<open>Read\<close> on the stream.\<close>

definition native_write :: "kind \<times> bytes \<Rightarrow> string + bytes" where
  "native_write m =
     (if length (snd m) + 1 > maxNativeFrame then Inl ''native frame is too large''
      else Inr (be32 (length (snd m) + 1) @ (if fst m = BinaryFrame then 2 else 1) # snd m))"

definition native_read :: "bytes \<Rightarrow> string + ((kind \<times> bytes) \<times> bytes)" where
  "native_read stream =
     (if length stream < 5 then Inl ''unexpected EOF''
      else
        (let len = be_nat 0 (take 4 stream); rest = drop 5 stream in
         if len < 1 \<or> len > maxNativeFrame then Inl ''native frame length is invalid''
         else if length rest < len - 1 then Inl ''unexpected EOF''
         else if stream ! 4 = 1 then Inr ((TextFrame, take (len - 1) rest), drop (len - 1) rest)
         else if stream ! 4 = 2 then Inr ((BinaryFrame, take (len - 1) rest), drop (len - 1) rest)
         else Inl ''native frame kind is invalid''))"

definition result_option :: "'e + 'a \<Rightarrow> 'a option" where
  "result_option r = (case r of Inl _ \<Rightarrow> None | Inr x \<Rightarrow> Some x)"

definition native_bytes :: "kind \<times> bytes \<Rightarrow> bytes" where
  "native_bytes m = (case native_write m of Inl _ \<Rightarrow> [] | Inr w \<Rightarrow> w)"

definition native_fits :: "kind \<times> bytes \<Rightarrow> bool" where
  "native_fits m \<longleftrightarrow> length (snd m) + 1 \<le> maxNativeFrame"

lemma native_read_written:
  assumes "native_fits m"
  shows "native_read (native_bytes m @ rest) = Inr (m, rest)"
proof -
  obtain k p where m: "m = (k, p)" by fastforce
  have len: "length p + 1 \<le> maxNativeFrame" using assms by (simp add: native_fits_def m)
  then have "Suc (length p) < 4294967296" by (simp add: maxNativeFrame_def maxReadBytes_def)
  then have "be_nat 0 (be32 (Suc (length p))) = Suc (length p)" by (rule be_nat_be32)
  with len show ?thesis
    by (cases k) (simp_all add: native_read_def native_bytes_def native_write_def m Let_def nth_append)
qed

interpretation native_frames: prefix_codec native_bytes "\<lambda>bs. result_option (native_read bs)" native_fits
  by unfold_locales (simp add: native_read_written result_option_def)

subsection \<open>WebTransport records\<close>

definition dfb1 :: bytes where
  "dfb1 = bytes_of ''DFB1''"

definition record_write :: "bytes \<Rightarrow> bytes" where
  "record_write payload = be32 (length payload) @ payload"

definition record_read :: "bytes \<Rightarrow> string + ((kind \<times> bytes) \<times> bytes)" where
  "record_read stream =
     (if length stream < 4 then Inl ''unexpected EOF''
      else
        (let size = be_nat 0 (take 4 stream); rest = drop 4 stream in
         if size > 21 * 1024 * 1024 then Inl ''remote transport record is too large''
         else if length rest < size then Inl ''unexpected EOF''
         else
           (let payload = take size rest in
            Inr ((if length payload \<ge> 4 \<and> take 4 payload = dfb1 then BinaryFrame else TextFrame, payload),
                 drop size rest))))"

lemma record_read_written:
  assumes "length p \<le> 21 * 1024 * 1024"
  shows "record_read (record_write p @ rest) =
    Inr ((if length p \<ge> 4 \<and> take 4 p = dfb1 then BinaryFrame else TextFrame, p), rest)"
proof -
  have "be_nat 0 (be32 (length p)) = length p" using assms by (intro be_nat_be32) simp
  with assms show ?thesis by (simp add: record_read_def record_write_def Let_def)
qed

interpretation records: prefix_codec record_write
  "\<lambda>bs. map_option (\<lambda>((_, p), r). (p, r)) (result_option (record_read bs))" "\<lambda>p. length p \<le> 21 * 1024 * 1024"
  by unfold_locales (simp add: record_read_written result_option_def)

subsection \<open>The binary envelope\<close>

text \<open>\<open>sendBinary\<close> without encryption: the header is the marshalled JSON (None when marshalling
  fails); \<open>decodeBinaryFrame\<close> up to unmarshalling the header, which is the parameter \<open>unmarshal\<close>.\<close>

definition sendBinary_frame :: "bytes option \<Rightarrow> bytes \<Rightarrow> bytes option" where
  "sendBinary_frame headerJSON body =
     (case headerJSON of
        None \<Rightarrow> None
      | Some h \<Rightarrow> if length h > 512 * 1024 then None else Some (dfb1 @ be32 (length h) @ h @ body))"

definition decodeBinaryFrame :: "(bytes \<Rightarrow> string + 'm) \<Rightarrow> bytes \<Rightarrow> string + ('m \<times> bytes)" where
  "decodeBinaryFrame unmarshal frame =
     (if length frame < 8 \<or> take 4 frame \<noteq> dfb1 then Inl ''invalid binary frame''
      else
        (let headerLength = be_nat 0 (take 4 (drop 4 frame)) in
         if headerLength < 1 \<or> headerLength > length frame - 8 then Inl ''invalid binary frame''
         else (case unmarshal (take headerLength (drop 8 frame)) of
                 Inl e \<Rightarrow> Inl e
               | Inr header \<Rightarrow> Inr (header, drop (8 + headerLength) frame))))"

lemma dfb1_length [simp]: "length dfb1 = 4"
  by (simp add: dfb1_def)

lemma decode_sent_binary:
  assumes "sendBinary_frame (Some h) body = Some frame" and "h \<noteq> []"
  shows "decodeBinaryFrame unmarshal frame = map_sum id (\<lambda>m. (m, body)) (unmarshal h)"
proof -
  from assms have f: "frame = dfb1 @ be32 (length h) @ h @ body" and len: "length h \<le> 512 * 1024"
    by (auto simp: sendBinary_frame_def split: if_splits)
  from len have "be_nat 0 (be32 (length h)) = length h" by (intro be_nat_be32) simp
  with assms(2) show ?thesis
    by (cases "unmarshal h") (simp_all add: decodeBinaryFrame_def f Let_def Suc_le_eq)
qed

subsection \<open>WebRTC fragments\<close>

definition webRTCFragmentThreshold :: nat where
  "webRTCFragmentThreshold = 60000"

definition fragment_frame :: "bool \<Rightarrow> nat \<Rightarrow> nat \<Rightarrow> bytes \<Rightarrow> bytes" where
  "fragment_frame text cnt index chunk =
     bytes_of ''DFRG'' @ (if text then 1 else 0) # be16 index @ be16 cnt @ chunk"

text \<open>\<open>webRTCFragments\<close>; None is Go's nil slice. The chunks are \<open>payload[i*threshold : end]\<close>.\<close>

definition webRTCFragments :: "bytes \<Rightarrow> bool \<Rightarrow> bytes list option" where
  "webRTCFragments payload text =
     (let cnt = (length payload + webRTCFragmentThreshold - 1) div webRTCFragmentThreshold in
      if cnt = 0 \<or> cnt > 0xffff then None
      else Some (map (\<lambda>index.
             let end = min (length payload) ((index + 1) * webRTCFragmentThreshold);
                 start = index * webRTCFragmentThreshold
             in fragment_frame text cnt index (take (end - start) (drop start payload))) [0..<cnt]))"

text \<open>What \<open>writeMessage\<close> puts on the channel: a text or binary message, or an error. A failing
  \<open>Send\<close> is the channel's.\<close>

datatype channel_message = ChannelText bytes | ChannelBinary bytes

definition writeMessage :: "bool \<Rightarrow> bytes \<Rightarrow> bool \<Rightarrow> string + channel_message list" where
  "writeMessage fragments payload text =
     (if length payload > webRTCFragmentThreshold \<and> fragments then
        (case webRTCFragments payload text of
           None \<Rightarrow> Inl ''WebRTC message is too large to fragment''
         | Some frames \<Rightarrow> Inr (map ChannelBinary frames))
      else if text then Inr [ChannelText payload]
      else Inr [ChannelBinary payload])"

text \<open>The receiver's side of the envelope, for stating what the fragments carry.\<close>

definition fragment_payload :: "bytes \<Rightarrow> bytes" where
  "fragment_payload frame = drop 9 frame"

lemma fragments_chunks:
  assumes "webRTCFragments payload text = Some frames"
  shows "frames = map (\<lambda>(i, c). fragment_frame text (length (chunks webRTCFragmentThreshold payload)) i c)
      (enumerate 0 (chunks webRTCFragmentThreshold payload))"
proof -
  let ?t = webRTCFragmentThreshold
  let ?n = "(length payload + ?t - 1) div ?t"
  have t: "0 < ?t" by (simp add: webRTCFragmentThreshold_def)
  have n: "length (chunks ?t payload) = ?n" by (rule length_chunks [OF t])
  have piece: "take (min (length payload) ((i + 1) * ?t) - i * ?t) (drop (i * ?t) payload) = chunks ?t payload ! i"
    if "i < ?n" for i
  proof -
    have "chunks ?t payload ! i = take ?t (drop (i * ?t) payload)" using that n by (intro chunks_nth [OF t]) simp
    moreover have "min (length payload) ((i + 1) * ?t) - i * ?t = min (length payload - i * ?t) ?t" by auto
    ultimately show ?thesis by (simp add: min_def)
  qed
  from assms have "frames = map (\<lambda>i. fragment_frame text ?n i
      (take (min (length payload) ((i + 1) * ?t) - i * ?t) (drop (i * ?t) payload))) [0..<?n]"
    by (auto simp: webRTCFragments_def Let_def split: if_splits)
  also have "\<dots> = map (\<lambda>i. fragment_frame text ?n i (chunks ?t payload ! i)) [0..<?n]"
    using piece by (intro map_cong) auto
  also have "\<dots> = map (\<lambda>(i, c). fragment_frame text (length (chunks ?t payload)) i c) (enumerate 0 (chunks ?t payload))"
    unfolding n by (intro nth_equalityI) (auto simp: n nth_enumerate_eq)
  finally show ?thesis .
qed

subsection \<open>Raw reads\<close>

text \<open>\<open>ReadRaw\<close> with a buffer of \<open>n\<close> bytes: the bytes left over from the last message come first; \<open>next_message\<close> is the
  channel's next message, None at its end.\<close>

definition readRaw :: "nat \<Rightarrow> bytes \<times> bytes list \<Rightarrow> (bytes \<times> (bytes \<times> bytes list)) option" where
  "readRaw n s =
     (case s of (rawBytes, incoming) \<Rightarrow>
        if rawBytes = [] then
          (case incoming of
             [] \<Rightarrow> None
           | m # rest \<Rightarrow> Some (take n m, (drop n m, rest)))
        else Some (take n rawBytes, (drop n rawBytes, incoming)))"

definition raw_pending :: "bytes \<times> bytes list \<Rightarrow> bytes" where
  "raw_pending s = fst s @ concat (snd s)"

fun read_all :: "nat \<Rightarrow> nat \<Rightarrow> bytes \<times> bytes list \<Rightarrow> bytes \<times> (bytes \<times> bytes list)" where
  "read_all 0 n s = ([], s)"
| "read_all (Suc k) n s =
     (case readRaw n s of
        None \<Rightarrow> ([], s)
      | Some (got, s1) \<Rightarrow> (case read_all k n s1 of (later, s2) \<Rightarrow> (got @ later, s2)))"

lemma readRaw_pending: "readRaw n s = Some (got, s') \<Longrightarrow> raw_pending s = got @ raw_pending s'"
  by (cases s) (auto simp: readRaw_def raw_pending_def split: if_splits list.splits)

lemma read_all_pending: "fst (read_all k n s) @ raw_pending (snd (read_all k n s)) = raw_pending s"
proof (induction k arbitrary: s)
  case (Suc k)
  show ?case
  proof (cases "readRaw n s")
    case (Some x)
    obtain got s1 where x: "x = (got, s1)" by (rule prod.exhaust)
    from Suc [of s1] readRaw_pending [OF Some [unfolded x]] Some x
    show ?thesis by (cases "read_all k n s1") auto
  qed simp
qed simp

end
