(* ===== verification/Datagrams.thy ===== *)
theory Datagrams
  imports Wire
begin

text \<open>
  UDP bridge packets over an unreliable carrier (\<open>shellagent/network_bridge.go\<close>): a packet is cut
  into \<open>DGD1\<close> frames of at most 1000 bytes, frames may be lost, repeated or reordered, and the
  receiver reassembles the packets it has all fragments of.
\<close>

definition bridgeDatagramBytes :: nat where
  "bridgeDatagramBytes = 1000"

definition bridgeDatagramHeaderBytes :: nat where
  "bridgeDatagramHeaderBytes = 14"

definition maxPendingBridgeDatagrams :: nat where
  "maxPendingBridgeDatagrams = 256"

definition dgd1 :: bytes where
  "dgd1 = bytes_of ''DGD1''"

definition datagram_frame :: "nat \<Rightarrow> nat \<Rightarrow> nat \<Rightarrow> bytes \<Rightarrow> bytes \<Rightarrow> bytes" where
  "datagram_frame messageID index cnt i part =
     dgd1 @ be32 messageID @ be16 index @ be16 cnt @ be16 (length i) @ i @ part"

text \<open>\<open>encodeBridgeDatagrams\<close>; the message id is the counter's next value (a 32-bit counter).\<close>

definition encodeBridgeDatagrams :: "nat \<Rightarrow> bytes \<Rightarrow> bytes \<Rightarrow> bytes list" where
  "encodeBridgeDatagrams messageID i body =
     (let fragmentBytes = int bridgeDatagramBytes - int bridgeDatagramHeaderBytes - int (length i) in
      if i = [] \<or> length i > 0xffff \<or> length body > 65535 \<or> fragmentBytes < 1 then []
      else
        (let f = nat fragmentBytes; fragmentCount = max 1 ((length body + f - 1) div f) in
         if fragmentCount > 0xffff then []
         else map (\<lambda>k. let start = k * f; end = min (length body) (start + f)
                       in datagram_frame messageID k fragmentCount i (take (end - start) (drop start body)))
                [0..<fragmentCount]))"

record fragment =
  fr_bridgeID :: bytes
  fr_messageID :: nat
  fr_index :: nat
  fr_count :: nat
  fr_body :: bytes

definition decodeBridgeDatagram :: "bytes \<Rightarrow> fragment option" where
  "decodeBridgeDatagram frame =
     (if length frame < bridgeDatagramHeaderBytes \<or> length frame > bridgeDatagramBytes \<or> take 4 frame \<noteq> dgd1 then None
      else
        (let fragmentIndex = be_nat 0 (take 2 (drop 8 frame));
             fragmentCount = be_nat 0 (take 2 (drop 10 frame));
             idLength = be_nat 0 (take 2 (drop 12 frame))
         in if fragmentCount = 0 \<or> fragmentCount > 128 \<or> fragmentIndex \<ge> fragmentCount \<or> idLength = 0
               \<or> bridgeDatagramHeaderBytes + idLength > length frame then None
            else Some \<lparr>fr_bridgeID = take idLength (drop 14 frame), fr_messageID = be_nat 0 (take 4 (drop 4 frame)),
                       fr_index = fragmentIndex, fr_count = fragmentCount, fr_body = drop (14 + idLength) frame\<rparr>))"

text \<open>Reassembly. A slot is None until its fragment arrives; the code's copy of an empty fragment is a
  nil slice, which counts as missing. Keys are the text \<open>bridge:message\<close>; times are nanoseconds.\<close>

record assembly =
  as_fragments :: "bytes option list"
  as_updatedAt :: int

type_synonym assemblies = "(string, assembly) gomap"

definition slot_of :: "bytes \<Rightarrow> bytes option" where
  "slot_of body = (if body = [] then None else Some body)"

definition assembly_key :: "fragment \<Rightarrow> string" where
  "assembly_key f = string_of (fr_bridgeID f) @ '':'' @ fmt_uint 10 (fr_messageID f)"

fun oldest_loop :: "(string \<times> int) option \<Rightarrow> assemblies \<Rightarrow> string option" where
  "oldest_loop best [] = map_option fst best"
| "oldest_loop best ((k, a) # rest) =
     oldest_loop
       (case best of
          None \<Rightarrow> Some (k, as_updatedAt a)
        | Some (_, t) \<Rightarrow> if as_updatedAt a < t then Some (k, as_updatedAt a) else best) rest"

definition expire_assemblies :: "int \<Rightarrow> assemblies \<Rightarrow> assemblies" where
  "expire_assemblies now pending = filter (\<lambda>(_, a). \<not> now - as_updatedAt a > 2000000000) pending"

text \<open>The assembly a fragment goes to: the one with its key and count, else a new one, which evicts
  the oldest when the table is full and the key is new.\<close>

definition open_assembly :: "fragment \<Rightarrow> int \<Rightarrow> assemblies \<Rightarrow> assemblies \<times> assembly" where
  "open_assembly f now pending =
     (let key = assembly_key f; fresh = \<lparr>as_fragments = replicate (fr_count f) None, as_updatedAt = 0\<rparr> in
      case map_of pending key of
        Some a \<Rightarrow> if length (as_fragments a) = fr_count f then (pending, a) else (AList.update key fresh pending, fresh)
      | None \<Rightarrow>
          (let pending1 = (if length pending \<ge> maxPendingBridgeDatagrams
                           then (case oldest_loop None pending of None \<Rightarrow> pending | Some k \<Rightarrow> AList.delete k pending)
                           else pending)
           in (AList.update key fresh pending1, fresh)))"

text \<open>The loop that adds up the parts: None at the first missing one, Some False when the sum exceeds
  the packet limit before that, Some True when all are there.\<close>

fun parts_complete :: "nat \<Rightarrow> bytes option list \<Rightarrow> bool option" where
  "parts_complete acc [] = Some True"
| "parts_complete acc (None # ps) = None"
| "parts_complete acc (Some b # ps) =
     (if acc + length b > 65535 then Some False else parts_complete (acc + length b) ps)"

definition decodeCompleteBridgeDatagram ::
  "int \<Rightarrow> bytes \<Rightarrow> assemblies \<Rightarrow> assemblies \<times> (bytes \<times> bytes) option" where
  "decodeCompleteBridgeDatagram now frame pending0 =
     (case decodeBridgeDatagram frame of
        None \<Rightarrow> (pending0, None)
      | Some f \<Rightarrow>
          if fr_count f = 1 then (pending0, Some (fr_bridgeID f, fr_body f))
          else
            (let key = assembly_key f;
                 (pending, a0) = open_assembly f now (expire_assemblies now pending0);
                 a = a0\<lparr>as_fragments := (as_fragments a0)[fr_index f := slot_of (fr_body f)], as_updatedAt := now\<rparr>;
                 pending1 = AList.update key a pending
             in case parts_complete 0 (as_fragments a) of
                  None \<Rightarrow> (pending1, None)
                | Some False \<Rightarrow> (AList.delete key pending1, None)
                | Some True \<Rightarrow> (AList.delete key pending1,
                     Some (fr_bridgeID f, concat (map (\<lambda>p. case p of None \<Rightarrow> [] | Some b \<Rightarrow> b) (as_fragments a))))))"

subsection \<open>One frame\<close>

lemma dgd1_length [simp]: "length dgd1 = 4"
  by (simp add: dgd1_def)

lemma decode_frame:
  assumes "i \<noteq> []" "length i + length part \<le> 986" "0 < cnt" "cnt \<le> 128" "k < cnt" "m < 2 ^ 32"
  shows "decodeBridgeDatagram (datagram_frame m k cnt i part) =
    Some \<lparr>fr_bridgeID = i, fr_messageID = m, fr_index = k, fr_count = cnt, fr_body = part\<rparr>"
proof -
  have li: "be_nat 0 (be16 (length i)) = length i" using assms(2) by (intro be_nat_be16) simp
  have lk: "be_nat 0 (be16 k) = k" "be_nat 0 (be16 cnt) = cnt" using assms(3-5) by (intro be_nat_be16; simp)+
  have lm: "be_nat 0 (be32 m) = m" using assms(6) by (intro be_nat_be32) simp
  have f: "datagram_frame m k cnt i part = dgd1 @ be32 m @ be16 k @ be16 cnt @ be16 (length i) @ i @ part"
    by (simp add: datagram_frame_def)
  have t: "take 4 (datagram_frame m k cnt i part) = dgd1" "take 4 (drop 4 (datagram_frame m k cnt i part)) = be32 m"
    "take 2 (drop 8 (datagram_frame m k cnt i part)) = be16 k" "take 2 (drop 10 (datagram_frame m k cnt i part)) = be16 cnt"
    "take 2 (drop 12 (datagram_frame m k cnt i part)) = be16 (length i)"
    "drop 14 (datagram_frame m k cnt i part) = i @ part" "length (datagram_frame m k cnt i part) = 14 + length i + length part"
    by (simp_all add: f)
  have d: "drop (14 + n) (datagram_frame m k cnt i part) = drop n (i @ part)" for n
    by (simp add: t(6) [symmetric] add.commute)
  show ?thesis
    unfolding decodeBridgeDatagram_def Let_def t li lk lm d
    using assms by (simp add: bridgeDatagramHeaderBytes_def bridgeDatagramBytes_def)
qed

subsection \<open>A whole packet\<close>

definition fragment_size :: "bytes \<Rightarrow> nat" where
  "fragment_size i = 986 - length i"

lemma length_le_concat: "(\<And>c. c \<in> set xs \<Longrightarrow> c \<noteq> []) \<Longrightarrow> length xs \<le> length (concat xs)"
proof (induction xs)
  case (Cons c xs)
  then have "1 \<le> length c" by (cases c) auto
  with Cons show ?case by simp
qed simp

lemma encode_frames:
  assumes "i \<noteq> []" "length i < 986" "body \<noteq> []" "length body \<le> 65535"
  shows "encodeBridgeDatagrams m i body =
    map (\<lambda>k. datagram_frame m k (length (chunks (fragment_size i) body)) i (chunks (fragment_size i) body ! k))
      [0..<length (chunks (fragment_size i) body)]"
proof -
  let ?f = "fragment_size i" and ?cs = "chunks (fragment_size i) body"
  have f: "0 < ?f" using assms(2) by (simp add: fragment_size_def)
  have n: "length ?cs = (length body + ?f - 1) div ?f" by (rule length_chunks [OF f])
  have pos: "0 < length ?cs" using chunks_step [OF f assms(3)] by simp
  have piece: "take (min (length body) (k * ?f + ?f) - k * ?f) (drop (k * ?f) body) = ?cs ! k" if "k < length ?cs" for k
  proof -
    have "?cs ! k = take ?f (drop (k * ?f) body)" by (rule chunks_nth [OF f that])
    moreover have "min (length body) (k * ?f + ?f) - k * ?f = min (length body - k * ?f) ?f" by auto
    ultimately show ?thesis by (simp add: min_def)
  qed
  have fb: "int bridgeDatagramBytes - int bridgeDatagramHeaderBytes - int (length i) = int ?f"
    using assms(2) by (simp add: bridgeDatagramBytes_def bridgeDatagramHeaderBytes_def fragment_size_def)
  have "length ?cs \<le> length (concat ?cs)"
    using chunks_bound [OF f] by (intro length_le_concat) blast
  then have lim: "length ?cs \<le> 0xffff" using concat_chunks [OF f, of body] assms(4) by simp
  have count: "max 1 ((length body + ?f - 1) div ?f) = length ?cs" using n pos by simp
  have ok: "\<not> (i = [] \<or> length i > 0xffff \<or> length body > 65535 \<or> int ?f < 1)" "nat (int ?f) = ?f"
    "\<not> length ?cs > 0xffff"
    using assms(1,2,4) f lim by simp_all
  show ?thesis
    unfolding encodeBridgeDatagrams_def fb Let_def ok(2) count if_not_P [OF ok(1)] if_not_P [OF ok(3)]
    by (intro map_cong refl) (use piece in \<open>simp\<close>)
qed

lemma encode_single:
  assumes "i \<noteq> []" "length i < 986" "length body \<le> 65535" "length (encodeBridgeDatagrams m i body) = 1"
  shows "length body \<le> 986 - length i \<and> encodeBridgeDatagrams m i body = [datagram_frame m 0 1 i body]"
proof (cases "body = []")
  case True
  then show ?thesis using assms(1,2)
    by (simp add: encodeBridgeDatagrams_def Let_def bridgeDatagramBytes_def bridgeDatagramHeaderBytes_def)
next
  case False
  let ?f = "fragment_size i"
  have f: "0 < ?f" using assms(2) by (simp add: fragment_size_def)
  note enc = encode_frames [OF assms(1,2) False assms(3), of m]
  then have one: "length (chunks ?f body) = 1" using assms(4) by simp
  then have "drop ?f body = []" using chunks_step [OF f False] chunks_step [OF f, of "drop ?f body"] by auto
  then have "chunks ?f body = [body]" "length body \<le> ?f" using chunks_step [OF f False] by simp_all
  then show ?thesis by (simp add: enc fragment_size_def)
qed

lemma encode_nonempty:
  assumes "encodeBridgeDatagrams m i body \<noteq> []"
  shows "i \<noteq> []" "length i < 986" "length body \<le> 65535"
proof -
  have "\<not> (i = [] \<or> length i > 0xffff \<or> length body > 65535
      \<or> int bridgeDatagramBytes - int bridgeDatagramHeaderBytes - int (length i) < 1)"
    using assms by (intro notI) (simp add: encodeBridgeDatagrams_def Let_def)
  then show "i \<noteq> []" "length i < 986" "length body \<le> 65535"
    by (auto simp: bridgeDatagramBytes_def bridgeDatagramHeaderBytes_def)
qed

lemma encode_empty: "length (encodeBridgeDatagrams m i []) \<le> 1"
  by (simp add: encodeBridgeDatagrams_def Let_def)

subsection \<open>Reassembly\<close>

text \<open>The receive loop of \<open>handleBridgeDatagrams\<close> on the frames that arrive, with their times: the
  packets it completes, in order.\<close>

fun receive_datagrams :: "assemblies \<Rightarrow> (int \<times> bytes) list \<Rightarrow> assemblies \<times> (bytes \<times> bytes) list" where
  "receive_datagrams pending [] = (pending, [])"
| "receive_datagrams pending ((now, frame) # rest) =
     (case decodeCompleteBridgeDatagram now frame pending of
        (pending1, r) \<Rightarrow>
          (case receive_datagrams pending1 rest of
             (pending2, rs) \<Rightarrow> (pending2, (case r of None \<Rightarrow> rs | Some x \<Rightarrow> x # rs))))"

lemma parts_complete_sum:
  "acc + length (concat (map (\<lambda>p. case p of None \<Rightarrow> [] | Some b \<Rightarrow> b) ps)) \<le> 65535 \<Longrightarrow>
     parts_complete acc ps = (if None \<in> set ps then None else Some True)"
  by (induction acc ps rule: parts_complete.induct) auto

definition slots :: "bytes list \<Rightarrow> nat set \<Rightarrow> bytes option list" where
  "slots cs S = map (\<lambda>j. if j \<in> S then Some (cs ! j) else None) [0..<length cs]"

lemma slots_update: "k < length cs \<Longrightarrow> (slots cs S)[k := Some (cs ! k)] = slots cs (insert k S)"
  by (rule nth_equalityI) (auto simp: slots_def nth_list_update)

lemma slots_empty: "slots cs {} = replicate (length cs) None"
  by (simp add: slots_def map_replicate_const)

lemma slots_missing: "None \<in> set (slots cs S) \<longleftrightarrow> \<not> {..<length cs} \<subseteq> S"
  by (auto simp: slots_def)

lemma slots_full: "{..<length cs} \<subseteq> S \<Longrightarrow> slots cs S = map Some cs"
  by (rule nth_equalityI) (auto simp: slots_def)

lemma slots_length: "length (concat (map (\<lambda>p. case p of None \<Rightarrow> [] | Some b \<Rightarrow> b) (slots cs S))) \<le> length (concat cs)"
proof -
  have "length (concat (map (\<lambda>p. case p of None \<Rightarrow> [] | Some b \<Rightarrow> b) (map (\<lambda>j. if j \<in> S then Some (cs ! j) else None) js)))
      \<le> length (concat (map (\<lambda>j. cs ! j) js))" for js
    by (induction js) auto
  from this [of "[0..<length cs]"] show ?thesis by (simp add: slots_def map_nth)
qed

text \<open>A packet cut into at least two parts; what the receiver's table holds of it when the parts in a
  set have arrived; the frames it is sent as; arrivals at most two seconds apart.\<close>

definition packet :: "bytes \<Rightarrow> bytes list \<Rightarrow> nat \<Rightarrow> bool" where
  "packet i cs m \<longleftrightarrow> i \<noteq> [] \<and> m < 2 ^ 32 \<and> 2 \<le> length cs \<and> length cs \<le> 128 \<and>
     (\<forall>c \<in> set cs. c \<noteq> [] \<and> length i + length c \<le> 986) \<and> length (concat cs) \<le> 65535"

lemma packetD:
  assumes "packet i cs m"
  shows "i \<noteq> []" "m < 2 ^ 32" "2 \<le> length cs" "length cs \<le> 128"
    "c \<in> set cs \<Longrightarrow> c \<noteq> [] \<and> length i + length c \<le> 986" "length (concat cs) \<le> 65535"
  using assms by (simp_all add: packet_def)


definition packet_key :: "bytes \<Rightarrow> nat \<Rightarrow> string" where
  "packet_key i m = string_of i @ '':'' @ fmt_uint 10 m"

definition packet_table :: "bytes \<Rightarrow> bytes list \<Rightarrow> nat \<Rightarrow> nat set \<Rightarrow> int \<Rightarrow> assemblies" where
  "packet_table i cs m S t = (if S = {} then [] else [(packet_key i m, \<lparr>as_fragments = slots cs S, as_updatedAt = t\<rparr>)])"

definition packet_frame :: "bytes \<Rightarrow> bytes list \<Rightarrow> nat \<Rightarrow> nat \<Rightarrow> bytes" where
  "packet_frame i cs m k = datagram_frame m k (length cs) i (cs ! k)"

fun timely :: "int \<Rightarrow> (int \<times> 'a) list \<Rightarrow> bool" where
  "timely t [] \<longleftrightarrow> True"
| "timely t ((now, k) # rest) \<longleftrightarrow> now - t \<le> 2000000000 \<and> timely now rest"

lemma packet_step:
  assumes P: "packet i cs m" and k: "k < length cs" and S: "\<not> {..<length cs} \<subseteq> S" and t: "now - t \<le> 2000000000"
  shows "decodeCompleteBridgeDatagram now (packet_frame i cs m k) (packet_table i cs m S t) =
    (if {..<length cs} \<subseteq> insert k S then ([], Some (i, concat cs)) else (packet_table i cs m (insert k S) now, None))"
proof -
  note i = packetD(1) [OF P] and m = packetD(2) [OF P] and cnt = packetD(3,4) [OF P]
    and part = packetD(5) [OF P] and body = packetD(6) [OF P]
  have dec: "decodeBridgeDatagram (packet_frame i cs m k) =
      Some \<lparr>fr_bridgeID = i, fr_messageID = m, fr_index = k, fr_count = length cs, fr_body = cs ! k\<rparr>"
    unfolding packet_frame_def using i m cnt part k by (intro decode_frame) auto
  have ex: "expire_assemblies now (packet_table i cs m S t) = packet_table i cs m S t"
    using t by (simp add: expire_assemblies_def packet_table_def)
  have slot: "slot_of (cs ! k) = Some (cs ! k)" using part k by (simp add: slot_of_def)
  have sum: "parts_complete 0 (slots cs T) = (if None \<in> set (slots cs T) then None else Some True)" for T
    using slots_length [of cs T] body by (intro parts_complete_sum) simp
  have len: "length (slots cs T) = length cs" for T by (simp add: slots_def)
  have "(\<lambda>p. case p of None \<Rightarrow> [] | Some b \<Rightarrow> b) \<circ> Some = (\<lambda>c. c :: bytes)" by (simp add: fun_eq_iff)
  then have cat: "concat (map ((\<lambda>p. case p of None \<Rightarrow> [] | Some b \<Rightarrow> b) \<circ> Some) cs) = concat cs" by (simp only: list.map_ident)
  have upd: "(slots cs S)[k := Some (cs ! k)] = slots cs (insert k S)" by (rule slots_update [OF k])
  have upd0: "(replicate (length cs) None)[k := Some (cs ! k)] = slots cs {k}"
    using slots_update [OF k, of "{}"] by (simp add: slots_empty)
  let ?g = "\<lparr>fr_bridgeID = i, fr_messageID = m, fr_index = k, fr_count = length cs, fr_body = cs ! k\<rparr>"
  define f where "f = ?g"
  have g: "fr_bridgeID f = i" "fr_index f = k" "fr_count f = length cs" "fr_body f = cs ! k" by (simp_all add: f_def)
  have fk: "assembly_key f = packet_key i m" by (simp add: assembly_key_def packet_key_def f_def)
  have full: "slots cs T = map Some cs" if "{..<length cs} \<subseteq> T" for T using slots_full [OF that] .
  obtain a0 p where op: "open_assembly f now (packet_table i cs m S t) = (p, a0)"
    and a0: "(as_fragments a0)[k := Some (cs ! k)] = slots cs (insert k S)"
    and p: "\<And>a. AList.update (packet_key i m) a p = [((packet_key i m), a)]"
  proof (cases "S = {}")
    case True
    then show ?thesis
      by (intro that) (simp add: open_assembly_def fk g packet_table_def maxPendingBridgeDatagrams_def Let_def, simp_all add: upd0)
  next
    case False
    then show ?thesis
      by (intro that) (simp add: open_assembly_def fk g packet_table_def len Let_def, simp_all add: upd)
  qed
  have body_eq: "decodeCompleteBridgeDatagram now (packet_frame i cs m k) (packet_table i cs m S t) =
    (let a = a0\<lparr>as_fragments := slots cs (insert k S), as_updatedAt := now\<rparr>; pending1 = [((packet_key i m), a)]
     in case parts_complete 0 (slots cs (insert k S)) of
          None \<Rightarrow> (pending1, None)
        | Some False \<Rightarrow> ([], None)
        | Some True \<Rightarrow> ([], Some (i, concat (map (\<lambda>p. case p of None \<Rightarrow> [] | Some b \<Rightarrow> b) (slots cs (insert k S))))))"
    if "length cs \<noteq> Suc 0"
    using that by (simp add: decodeCompleteBridgeDatagram_def dec f_def [symmetric] g fk ex op slot a0 p Let_def
        split: option.split bool.split)
  have tab: "packet_table i cs m (insert k S) now = [((packet_key i m), a0\<lparr>as_fragments := slots cs (insert k S), as_updatedAt := now\<rparr>)]"
    by (cases a0) (simp add: packet_table_def)
  have ne: "length cs \<noteq> Suc 0" using cnt by simp
  show ?thesis
  proof (cases "{..<length cs} \<subseteq> insert k S")
    case True
    then have s: "slots cs (insert k S) = map Some cs" "parts_complete 0 (map Some cs) = Some True"
      using full sum [of "insert k S"] slots_missing [of cs "insert k S"] by simp_all
    show ?thesis using True
      by (simp add: body_eq [OF ne] s cat Let_def)
  next
    case False
    then have s: "parts_complete 0 (slots cs (insert k S)) = None"
      using sum [of "insert k S"] slots_missing [of cs "insert k S"] by simp
    show ?thesis using False
      by (simp add: body_eq [OF ne] s Let_def tab)
  qed
qed

lemma packet_arrivals:
  assumes P: "packet i cs m" and "timely t (es @ [(now, k)])" and "\<forall>(_, j) \<in> set es. j < length cs" and "k < length cs"
    and "S \<union> snd ` set es \<union> {k} = {..<length cs}" and "k \<notin> S \<union> snd ` set es"
  shows "receive_datagrams (packet_table i cs m S t) (map (\<lambda>(n, j). (n, packet_frame i cs m j)) (es @ [(now, k)])) = ([], [(i, concat cs)])"
  using assms(2-)
proof (induction es arbitrary: S t)
  case Nil
  then have "\<not> {..<length cs} \<subseteq> S" "{..<length cs} \<subseteq> insert k S" by auto
  with Nil packet_step [OF P, of k S now t] show ?case by simp
next
  case (Cons e es)
  obtain n j where e: "e = (n, j)" by fastforce
  have S: "\<not> {..<length cs} \<subseteq> insert j S" using Cons.prems(3,5) e by auto
  then have "\<not> {..<length cs} \<subseteq> S" by blast
  from packet_step [OF P _ this, of j n t] S Cons.prems e
  have one: "decodeCompleteBridgeDatagram n (packet_frame i cs m j) (packet_table i cs m S t) = (packet_table i cs m (insert j S) n, None)" by auto
  have "receive_datagrams (packet_table i cs m (insert j S) n) (map (\<lambda>(n, j). (n, packet_frame i cs m j)) (es @ [(now, k)])) = ([], [(i, concat cs)])"
    using Cons.prems e by (intro Cons.IH) auto
  with one e show ?case by simp
qed

end
