(* ===== verification/Wire_Properties.thy ===== *)
theory Wire_Properties
  imports Datagrams
begin

text \<open>
  What the carriers promise: the messages that were written are the ones that are read, whole and in
  order, for the native host channel and the WebTransport records; the binary envelope gives back its
  header and body; a large WebRTC message is cut into frames the channel accepts which together hold
  the message; raw reads hand out the channel's bytes in order; a UDP packet survives reordering and
  repetition of its frames.
\<close>

subsection \<open>Streams\<close>

text \<open>
  Native messages that were accepted for writing are read back from the stream one by one, same
  kind and payload and in order, and reading leaves exactly the bytes after them.
\<close>

theorem native_stream_round_trip:
  "list_all native_fits ms \<Longrightarrow>
     decode_many (\<lambda>bs. result_option (native_read bs)) (length ms) (concat (map native_bytes ms) @ rest) = Some (ms, rest)"
  by (rule native_frames.decode_stream)

theorem native_stream_round_trip_witness:
  "decode_many (\<lambda>bs. result_option (native_read bs)) (length [(TextFrame, bytes_of ''hi''), (BinaryFrame, [])])
     (concat (map native_bytes [(TextFrame, bytes_of ''hi''), (BinaryFrame, [])]) @ [7]) =
     Some ([(TextFrame, bytes_of ''hi''), (BinaryFrame, [])], [7])"
  by (rule native_stream_round_trip) (simp add: native_fits_def maxNativeFrame_def maxReadBytes_def)

text \<open>
  Whatever bytes arrive, a native message that is read has a payload below the frame limit,
  consumes exactly its header and payload, and is the message whose encoding was at the front.
\<close>

theorem native_read_is_exact:
  assumes "native_read stream = Inr (m, rest)"
  shows "stream = native_bytes m @ rest \<and> native_fits m"
proof -
  let ?n = "be_nat 0 (take 4 stream)"
  from assms have n: "\<not> length stream < 5" "1 \<le> ?n" "?n \<le> maxNativeFrame" "\<not> length (drop 5 stream) < ?n - 1"
    and m: "snd m = take (?n - 1) (drop 5 stream)" "rest = drop (?n - 1) (drop 5 stream)"
      "stream ! 4 = (if fst m = BinaryFrame then 2 else 1)"
    by (auto simp: native_read_def Let_def split: if_splits)
  have len: "length (snd m) + 1 = ?n" using n m(1) by simp
  have h: "be32 ?n = take 4 stream" using n(1) by (intro be32_be_nat) simp
  have "drop 4 stream = stream ! 4 # drop 5 stream" using n(1) Cons_nth_drop_Suc [of 4 stream] by simp
  then have "stream = take 4 stream @ stream ! 4 # snd m @ rest" using m(1,2) append_take_drop_id by metis
  moreover have "native_bytes m = be32 ?n @ stream ! 4 # snd m"
    using n(3) m(3) by (cases m) (simp add: native_bytes_def native_write_def len [symmetric])
  ultimately show ?thesis using n(3) h len by (simp add: native_fits_def)
qed

theorem native_read_is_exact_witness:
  "[0, 0, 0, 2, 1, 65, 9] = native_bytes (TextFrame, [65]) @ [9] \<and> native_fits (TextFrame, [65])"
  by (rule native_read_is_exact) (simp add: native_read_def maxNativeFrame_def maxReadBytes_def)

text \<open>
  Records of at most 21 MiB come back whole and in order on the WebTransport stream, and each is
  classified as binary exactly when it starts with the envelope's magic bytes.
\<close>

theorem record_stream_round_trip:
  assumes "list_all (\<lambda>p. length p \<le> 21 * 1024 * 1024) ps"
  shows "decode_many (\<lambda>bs. map_option (\<lambda>((_, p), r). (p, r)) (result_option (record_read bs))) (length ps)
       (concat (map record_write ps) @ rest) = Some (ps, rest)
     \<and> (\<forall>p \<in> set ps. \<exists>k. record_read (record_write p) = Inr ((k, p), []) \<and> (k = BinaryFrame \<longleftrightarrow> take 4 p = dfb1))"
proof (intro conjI ballI)
  fix p
  assume "p \<in> set ps"
  with assms have "length p \<le> 21 * 1024 * 1024" by (simp add: list_all_iff)
  from record_read_written [OF this, of "[]"]
  have r: "record_read (record_write p) =
    Inr ((if length p \<ge> 4 \<and> take 4 p = dfb1 then BinaryFrame else TextFrame, p), [])" by simp
  have "length p \<ge> 4" if "take 4 p = dfb1" using arg_cong [OF that, of length] by (simp add: min_def split: if_splits)
  with r show "\<exists>k. record_read (record_write p) = Inr ((k, p), []) \<and> (k = BinaryFrame \<longleftrightarrow> take 4 p = dfb1)" by auto
qed (rule records.decode_stream [OF assms])

theorem record_stream_round_trip_witness:
  "decode_many (\<lambda>bs. map_option (\<lambda>((_, p), r). (p, r)) (result_option (record_read bs)))
       (length [dfb1 @ [0], [65]]) (concat (map record_write [dfb1 @ [0], [65]]) @ []) = Some ([dfb1 @ [0], [65]], [])"
  by (rule record_stream_round_trip [THEN conjunct1]) simp

subsection \<open>Envelopes\<close>

text \<open>
  A binary frame built by the sender from a non-empty header decodes to that header and body for
  every header decoder; the sender refuses a header over 512 KiB and the decoder refuses a frame that
  is shorter than its header claims.
\<close>

theorem binary_envelope_round_trip:
  assumes "h \<noteq> []"
  shows "case sendBinary_frame (Some h) body of
      Some frame \<Rightarrow> length h \<le> 512 * 1024 \<and> decodeBinaryFrame unmarshal frame = map_sum id (\<lambda>m. (m, body)) (unmarshal h)
        \<and> (\<forall>n < 8 + length h. decodeBinaryFrame unmarshal (take n frame) = Inl ''invalid binary frame'')
    | None \<Rightarrow> length h > 512 * 1024"
proof (cases "sendBinary_frame (Some h) body")
  case None
  then show ?thesis by (auto simp: sendBinary_frame_def split: if_splits)
next
  case (Some frame)
  then have f: "frame = dfb1 @ be32 (length h) @ h @ body" and len: "length h \<le> 512 * 1024"
    by (auto simp: sendBinary_frame_def split: if_splits)
  have be: "be_nat 0 (be32 (length h)) = length h" using len by (intro be_nat_be32) simp
  have "decodeBinaryFrame unmarshal (take n frame) = Inl ''invalid binary frame''" if "n < 8 + length h" for n
  proof (cases "n < 8")
    case False
    then have "take 4 (drop 4 (take n frame)) = be32 (length h)" "length (take n frame) = n"
      using that by (simp_all add: f take_drop min_def)
    moreover have "length h > n - 8" using that False by linarith
    ultimately show ?thesis using False be by (simp add: decodeBinaryFrame_def Let_def)
  next
    case True
    then have "length (take n frame) < 8" by simp
    then show ?thesis by (simp only: decodeBinaryFrame_def if_True simp_thms)
  qed
  with len decode_sent_binary [OF Some assms] show ?thesis by (simp add: Some)
qed

theorem binary_envelope_round_trip_witness:
  "\<exists>frame. sendBinary_frame (Some [123, 125]) [1, 2] = Some frame \<and>
     decodeBinaryFrame (Inr :: bytes \<Rightarrow> string + bytes) frame = Inr ([123, 125], [1, 2])"
proof -
  have "\<exists>frame. sendBinary_frame (Some [123, 125]) [1, 2] = Some frame" by (simp add: sendBinary_frame_def)
  then obtain frame where f: "sendBinary_frame (Some [123, 125]) [1, 2] = Some frame" ..
  from binary_envelope_round_trip [where h = "[123, 125]" and body = "[1, 2]" and unmarshal = "Inr :: bytes \<Rightarrow> string + bytes", unfolded f] f show ?thesis by simp
qed

text \<open>
  What is written to a WebRTC channel as fragments holds the message: the payloads behind the
  nine byte headers concatenate to it, no frame carries more than the threshold, and frame number k
  says that it is k of all; only a message of more than 65535 fragments is refused.
\<close>

theorem fragments_hold_the_message:
  assumes "length payload > webRTCFragmentThreshold"
  shows "case writeMessage True payload text of
      Inl e \<Rightarrow> length payload > 0xffff * webRTCFragmentThreshold
    | Inr ms \<Rightarrow> (\<exists>frames. ms = map ChannelBinary frames \<and> concat (map fragment_payload frames) = payload
        \<and> (\<forall>f \<in> set frames. length f \<le> 9 + webRTCFragmentThreshold \<and> take 4 f = bytes_of ''DFRG'')
        \<and> (\<forall>k < length frames. be_nat 0 (take 2 (drop 5 (frames ! k))) = k
             \<and> be_nat 0 (take 2 (drop 7 (frames ! k))) = length frames))"
proof -
  let ?t = webRTCFragmentThreshold and ?cs = "chunks webRTCFragmentThreshold payload"
  have t: "0 < ?t" by (simp add: webRTCFragmentThreshold_def)
  have n: "length ?cs = (length payload + ?t - 1) div ?t" by (rule length_chunks [OF t])
  show ?thesis
  proof (cases "webRTCFragments payload text")
    case None
    then have "(length payload + ?t - 1) div ?t = 0 \<or> (length payload + ?t - 1) div ?t > 0xffff"
      by (auto simp: webRTCFragments_def Let_def split: if_splits)
    moreover have "(length payload + ?t - 1) div ?t \<noteq> 0" using assms t by (simp add: div_eq_0_iff)
    ultimately have "length payload > 0xffff * ?t" by (simp add: webRTCFragmentThreshold_def)
    with None assms show ?thesis by (simp add: writeMessage_def)
  next
    case (Some frames)
    then have lim: "length ?cs \<le> 0xffff" unfolding n by (auto simp: webRTCFragments_def Let_def split: if_splits)
    note fr = fragments_chunks [OF Some]
    then have len: "length frames = length ?cs" by simp
    have nth: "frames ! k = fragment_frame text (length ?cs) k (?cs ! k)" if "k < length ?cs" for k
      using that by (simp add: fr nth_enumerate_eq)
    have "map fragment_payload frames = ?cs"
      by (rule nth_equalityI) (simp_all add: len nth fragment_payload_def fragment_frame_def)
    then have "concat (map fragment_payload frames) = payload" using concat_chunks [OF t] by simp
    moreover have "length f \<le> 9 + ?t \<and> take 4 f = bytes_of ''DFRG''" if "f \<in> set frames" for f
    proof -
      from that obtain k where k: "k < length ?cs" "f = frames ! k" by (auto simp: in_set_conv_nth len)
      then have "length (?cs ! k) \<le> ?t" using chunks_bound [OF t, of "?cs ! k" payload] by simp
      with k show ?thesis by (simp add: nth fragment_frame_def)
    qed
    moreover have "be_nat 0 (take 2 (drop 5 (frames ! k))) = k \<and> be_nat 0 (take 2 (drop 7 (frames ! k))) = length frames"
      if "k < length frames" for k
      using that lim be_nat_be16 [of k] be_nat_be16 [of "length ?cs"] by (simp add: nth fragment_frame_def len)
    ultimately show ?thesis using Some assms by (auto simp: writeMessage_def)
  qed
qed

theorem fragments_hold_the_message_witness:
  "\<exists>frames. writeMessage True (replicate 60001 7) False = Inr (map ChannelBinary frames)
     \<and> concat (map fragment_payload frames) = replicate 60001 7"
proof -
  have "length (replicate 60001 (7 :: byte)) > webRTCFragmentThreshold" by (simp add: webRTCFragmentThreshold_def)
  from fragments_hold_the_message [OF this, of False] show ?thesis
    by (auto simp: webRTCFragmentThreshold_def split: sum.splits)
qed

subsection \<open>Raw reads and packets\<close>

text \<open>
  Any number of raw reads with any buffer size hands out a prefix of the channel's bytes in order:
  nothing is lost or repeated between messages, and what is left over is still pending.
\<close>

theorem raw_reads_are_in_order:
  "fst (read_all k n s) @ raw_pending (snd (read_all k n s)) = raw_pending s"
  by (rule read_all_pending)

text \<open>
  C9: When the frames of an encoded packet (at most 128) arrive in any order, with repetitions before
  the last missing one and never two seconds apart, the receiver delivers exactly one packet, with the
  bridge id and the bytes that were sent, and keeps nothing of it.
\<close>

theorem datagram_packet_reassembled:
  assumes m: "m < 2 ^ 32" and count: "frames = encodeBridgeDatagrams m i body" "frames \<noteq> []" "length frames \<le> 128"
    and arrive: "timely (fst (hd (es @ [(now, k)]))) (es @ [(now, k)])" "set (map snd es) = {..<length frames} - {k}"
      "k < length frames"
  shows "receive_datagrams [] (map (\<lambda>(t, j). (t, frames ! j)) (es @ [(now, k)])) = ([], [(i, body)])"
proof -
  note lens = encode_nonempty [OF count(2) [unfolded count(1)]]
  let ?cs = "chunks (fragment_size i) body"
  have f: "0 < fragment_size i" using lens by (simp add: fragment_size_def)
  show ?thesis
  proof (cases "length frames = 1")
    case True
    have "length body \<le> 986 - length i" and fr: "frames = [datagram_frame m 0 1 i body]"
      using encode_single [OF lens True [unfolded count(1)]] count(1) by simp_all
    moreover have "k = 0" using arrive(3) True by simp
    moreover have "set (map snd es) = {}" using arrive(2) \<open>k = 0\<close> True by (simp add: lessThan_Suc)
    then have "es = []" by simp
    ultimately show ?thesis using lens m
      by (simp add: fr decodeCompleteBridgeDatagram_def decode_frame)
  next
    case False
    have "length frames \<noteq> 0" using count(2) by simp
    then have body: "body \<noteq> []" using False count(1) encode_empty [of m i] by (metis One_nat_def le_Suc_eq le_zero_eq)
    have fr: "frames = map (packet_frame i ?cs m) [0..<length ?cs]"
      unfolding count(1) encode_frames [OF lens(1,2) body lens(3)] by (simp add: packet_frame_def)
    have len: "length frames = length ?cs" by (simp add: fr)
    have two: "2 \<le> length ?cs" using False count(2) unfolding len [symmetric] by (cases frames) (auto simp: Suc_le_eq)
    have part: "c \<noteq> [] \<and> length i + length c \<le> 986" if "c \<in> set ?cs" for c
      using chunks_bound [OF f that] lens(2) by (auto simp: fragment_size_def)
    have P: "packet i ?cs m"
      unfolding packet_def concat_chunks [OF f]
      using lens(1,3) m two count(3) len part by simp
    have bound: "\<forall>(t, j) \<in> set es. j < length ?cs"
    proof
      fix e assume "e \<in> set es"
      then have "snd e \<in> set (map snd es)" by simp
      then show "case e of (t, j) \<Rightarrow> j < length ?cs" unfolding arrive(2) len by (cases e) simp
    qed
    have "receive_datagrams (packet_table i ?cs m {} (fst (hd (es @ [(now, k)]))))
        (map (\<lambda>(t, j). (t, packet_frame i ?cs m j)) (es @ [(now, k)])) = ([], [(i, concat ?cs)])"
      using arrive bound unfolding len by (intro packet_arrivals [OF P]) auto
    moreover have "map (\<lambda>(t, j). (t, frames ! j)) (es @ [(now, k)]) =
        map (\<lambda>(t, j). (t, packet_frame i ?cs m j)) (es @ [(now, k)])"
      using arrive(3) bound unfolding len by (intro map_cong refl) (auto simp: fr)
    ultimately show ?thesis by (simp only: concat_chunks [OF f] packet_table_def simp_thms if_True)
  qed
qed

theorem datagram_packet_reassembled_witness:
  "receive_datagrams [] (map (\<lambda>(t, j). (t, encodeBridgeDatagrams 5 (bytes_of ''b1'') (replicate 2000 9) ! j))
     ([(0, 2), (10, 0), (20, 2)] @ [(30, 1)])) = ([], [(bytes_of ''b1'', replicate 2000 9)])"
proof (rule datagram_packet_reassembled [OF _ refl])
  show "(5 :: nat) < 2 ^ 32" by simp
  have "length (encodeBridgeDatagrams 5 (bytes_of ''b1'') (replicate 2000 9)) = 3"
    by (simp add: encodeBridgeDatagrams_def Let_def bridgeDatagramBytes_def bridgeDatagramHeaderBytes_def bytes_of_def)
  then show "encodeBridgeDatagrams 5 (bytes_of ''b1'') (replicate 2000 9) \<noteq> []"
    "length (encodeBridgeDatagrams 5 (bytes_of ''b1'') (replicate 2000 9)) \<le> 128"
    "set (map snd [(0 :: int, 2 :: nat), (10, 0), (20, 2)]) = {..<length (encodeBridgeDatagrams 5 (bytes_of ''b1'') (replicate 2000 9))} - {1}"
    "1 < length (encodeBridgeDatagrams 5 (bytes_of ''b1'') (replicate 2000 9))"
    by auto
qed simp_all

end
