(* ===== verification/Exec.thy ===== *)
theory Exec
  imports Frames
begin

text \<open>
  Programs the agent runs for an app (\<open>shellagent/proc/process.go\<close>, \<open>proc/types.go\<close>, and \<open>handleExec\<close>
  in \<open>shellagent/agent.go\<close>): the environment a program gets, the budget on its output, and the table
  of running programs of one socket. What the operating system answers (starting, writing, resizing,
  signalling, exiting) is an argument of each operation.
\<close>

definition MaxArgs :: nat where "MaxArgs = 128"
definition MaxArgumentBytes :: nat where "MaxArgumentBytes = 4096"
definition MaxEnvVars :: nat where "MaxEnvVars = 64"
definition MaxEnvBytes :: nat where "MaxEnvBytes = 16 * 1024"
definition MaxOutputBytes :: nat where "MaxOutputBytes = 8 * 1024 * 1024"

subsection \<open>The environment\<close>

definition execEnvNamePattern :: "string \<Rightarrow> bool" where
  "execEnvNamePattern s \<longleftrightarrow>
     (case s of [] \<Rightarrow> False
      | c # cs \<Rightarrow> (is_upper c \<or> is_lower c \<or> c = CHR ''_'') \<and>
          list_all (\<lambda>d. is_upper d \<or> is_lower d \<or> is_digit d \<or> d = CHR ''_'') cs)"

definition entry_name :: "string \<Rightarrow> string" where
  "entry_name entry = fst (cut_on (CHR ''='') entry)"

definition has_name :: "string \<Rightarrow> bool" where
  "has_name entry \<longleftrightarrow> snd (snd (cut_on (CHR ''='') entry))"

type_synonym environment = "string list \<times> (string, nat) gomap"

fun index_entries :: "nat \<Rightarrow> (string, nat) gomap \<Rightarrow> string list \<Rightarrow> (string, nat) gomap" where
  "index_entries i index [] = index"
| "index_entries i index (entry # rest) =
     index_entries (i + 1) (if has_name entry then AList.update (entry_name entry) i index else index) rest"

definition set_env :: "string \<Rightarrow> string \<Rightarrow> environment \<Rightarrow> environment" where
  "set_env name text e =
     (case e of (env, index) \<Rightarrow>
        let entry = name @ ''='' @ text in
        case map_of index name of
          Some i \<Rightarrow> (env[i := entry], index)
        | None \<Rightarrow> (env @ [entry], AList.update name (length env) index))"

definition unset_env :: "string \<Rightarrow> environment \<Rightarrow> environment" where
  "unset_env name e =
     (case e of (env, index) \<Rightarrow>
        case map_of index name of
          None \<Rightarrow> (env, index)
        | Some i \<Rightarrow>
            let last_i = length env - 1; moved = env ! last_i;
                env1 = take last_i (env[i := moved]); index1 = AList.delete name index
            in (env1, if i < last_i then AList.update (entry_name moved) i index1 else index1))"

definition invalid_exec :: string where
  "invalid_exec = ''Executable request is invalid''"

fun apply_extra :: "(string, any) gomap \<Rightarrow> environment \<Rightarrow> string + environment" where
  "apply_extra [] e = Inr e"
| "apply_extra ((name, raw) # rest) e =
     (if \<not> execEnvNamePattern name then Inl invalid_exec
      else (case raw of
              NilV \<Rightarrow> apply_extra rest (unset_env name e)
            | StrV text \<Rightarrow> if length text > MaxEnvBytes then Inl invalid_exec else apply_extra rest (set_env name text e)
            | _ \<Rightarrow> Inl invalid_exec))"

text \<open>\<open>execEnvironment\<close>: None is the nil map, and the nil environment that inherits the agent's.\<close>

definition execEnvironment :: "string list \<Rightarrow> (string, any) gomap option \<Rightarrow> string + string list option" where
  "execEnvironment environ extra =
     (case extra of
        None \<Rightarrow> Inr None
      | Some m \<Rightarrow>
          if length m > MaxEnvVars then Inl invalid_exec
          else map_sum id (\<lambda>e. Some (fst e)) (apply_extra m (environ, index_entries 0 [] environ)))"

definition ptyEnvironment :: "string list \<Rightarrow> (string, any) gomap option \<Rightarrow> string \<Rightarrow> string + string list option" where
  "ptyEnvironment environ extra term =
     (let merged = (case extra of None \<Rightarrow> [] | Some m \<Rightarrow> m) in
      execEnvironment environ
        (Some (if map_of merged ''TERM'' = None
               then AList.update ''TERM'' (StrV (let name = trim_space term in if name = [] then ''xterm-256color'' else name)) merged
               else merged)))"

subsection \<open>The output budget\<close>

definition budget_take :: "int \<Rightarrow> int \<Rightarrow> int \<times> int" where
  "budget_take remaining cnt =
     (if remaining \<le> 0 then (remaining, 0)
      else let n = (if cnt > remaining then remaining else cnt) in (remaining - n, n))"

text \<open>The reads of a program's streams, in the order they take from the budget they share, and what
  \<open>copyOutput\<close> sends for each.\<close>

fun copy_outputs :: "int \<Rightarrow> (string \<times> bytes) list \<Rightarrow> (string \<times> bytes) list" where
  "copy_outputs remaining [] = []"
| "copy_outputs remaining ((stream, data) # rest) =
     (if data = [] then copy_outputs remaining rest
      else (case budget_take remaining (int (length data)) of
              (left, allowed) \<Rightarrow>
                if allowed > 0 then (stream, take (nat allowed) data) # copy_outputs left rest
                else copy_outputs left rest))"

text \<open>\<open>BoundedBuffer.Write\<close>: the buffer after the write, and the count it reports.\<close>

definition bounded_write :: "nat \<Rightarrow> bytes \<Rightarrow> bytes \<Rightarrow> bytes \<times> nat" where
  "bounded_write limit buffer data =
     (let remaining = int limit - int (length buffer) in
      (if remaining > 0
       then (if int (length data) > remaining then buffer @ take (nat remaining) data else buffer @ data)
       else buffer, length data))"

subsection \<open>Running programs\<close>

record managedProcess =
  mp_pid :: int
  mp_stdin :: bool
  mp_terminal :: bool

record process_set =
  ps_next :: "64 word"
  ps_records :: "(string, managedProcess) gomap"

definition newProcessSet :: process_set where
  "newProcessSet = \<lparr>ps_next = 0, ps_records = []\<rparr>"

datatype exec_message =
    ExecFailed string string
  | ExecStarted string string
  | ExecOutput string string string
  | ExecExited string string int
  | ExecEventError string string
  | ProcessError string string string
  | ProcessStatus string string int
  | ProcessResult string string bool

text \<open>The operating system's part of a start: the error of opening or sizing a terminal, the error of
  the pipes, and the start itself (an error, or the process id).\<close>

record os_start =
  os_terminal :: "string option"
  os_pipes :: "string option"
  os_process :: "string + int"

definition normalizeTerminalSize :: "int \<Rightarrow> int \<Rightarrow> int \<Rightarrow> int \<Rightarrow> int" where
  "normalizeTerminalSize v fallback minimum maximum = (if v < minimum \<or> v > maximum then fallback else v)"

text \<open>The environment and process a validated start gives: an error, or the record it adds.\<close>

definition launch :: "string list \<Rightarrow> message \<Rightarrow> os_start \<Rightarrow> string + managedProcess" where
  "launch environ request os =
     (if m_Mode request = ''pty'' then
        (case os_terminal os of
           Some e \<Rightarrow> Inl e
         | None \<Rightarrow>
             (case ptyEnvironment environ (m_Env request) (m_Term request) of
                Inl e \<Rightarrow> Inl e
              | Inr _ \<Rightarrow> map_sum id (\<lambda>pid. \<lparr>mp_pid = pid, mp_stdin = True, mp_terminal = True\<rparr>) (os_process os)))
      else
        (case execEnvironment environ (m_Env request) of
           Inl e \<Rightarrow> Inl e
         | Inr _ \<Rightarrow>
             (case os_pipes os of
                Some e \<Rightarrow> Inl e
              | None \<Rightarrow> map_sum id (\<lambda>pid. \<lparr>mp_pid = pid, mp_stdin = m_Stdin request \<noteq> ''ignore'', mp_terminal = False\<rparr>)
                  (os_process os))))"

definition processStart :: "string list \<Rightarrow> message \<Rightarrow> string list \<Rightarrow> os_start \<Rightarrow> process_set \<Rightarrow> process_set \<times> exec_message list" where
  "processStart environ request args os p =
     (if length (m_File request) > MaxArgumentBytes \<or> length (m_Cwd request) > MaxArgumentBytes \<or> length args > MaxArgs
         \<or> (\<exists>a \<in> set args. length a > MaxArgumentBytes)
      then (p, [ExecFailed (m_ID request) invalid_exec])
      else
        (let next = ps_next p + 1; i = ''proc_'' @ fmt_uint 36 (unat next); p1 = p\<lparr>ps_next := next\<rparr> in
         case launch environ request os of
           Inl e \<Rightarrow> (p1, [ExecFailed (m_ID request) e])
         | Inr r \<Rightarrow> (p1\<lparr>ps_records := AList.update i r (ps_records p1)\<rparr>, [ExecStarted (m_ID request) i])))"

text \<open>The goroutine that waits for the program: the error it reports, the exit code, and the removal.\<close>

definition processExit :: "string \<Rightarrow> string \<Rightarrow> string option \<Rightarrow> int \<Rightarrow> process_set \<Rightarrow> process_set \<times> exec_message list" where
  "processExit request i err code p =
     (p\<lparr>ps_records := AList.delete i (ps_records p)\<rparr>,
      (case err of None \<Rightarrow> [] | Some e \<Rightarrow> [ExecEventError i e]) @ [ExecExited request i code])"

definition knownSignals :: "string list" where
  "knownSignals = [''SIGINT'', ''SIGTERM'', ''SIGKILL'', ''SIGHUP'']"

definition processHandle :: "message \<Rightarrow> string option \<Rightarrow> process_set \<Rightarrow> exec_message list" where
  "processHandle request os p =
     (let i = m_ID request; pid = m_ProcessID request; answer = (case os of None \<Rightarrow> ProcessResult i pid True | Some e \<Rightarrow> ProcessError i pid e) in
      case map_of (ps_records p) pid of
        None \<Rightarrow> [ProcessError i pid ''Unknown process handle'']
      | Some r \<Rightarrow>
          if m_Action request = ''status'' then [ProcessStatus i pid (mp_pid r)]
          else if m_Action request = ''write'' then
            (if \<not> mp_stdin r then [ProcessError i pid ''Process stdin is not writable'']
             else if length (m_Data request) > 1000000 then [ProcessError i pid ''Process input is too large'']
             else [answer])
          else if m_Action request = ''resize'' then
            (if \<not> mp_terminal r then [ProcessResult i pid False] else [answer])
          else if m_Action request = ''signal'' \<or> m_Action request = ''close'' then
            (let signal = (if m_Action request = ''close'' \<or> to_upper (m_Signal request) = [] then ''SIGTERM''
                           else to_upper (m_Signal request))
             in if signal \<notin> set knownSignals then [ProcessError i pid ''Unsupported process signal''] else [answer])
          else [ProcessError i pid ''Unsupported process request''])"

definition processCloseAll :: "process_set \<Rightarrow> process_set \<times> int list" where
  "processCloseAll p = (p\<lparr>ps_records := []\<rparr>, map (mp_pid \<circ> snd) (ps_records p))"

subsection \<open>The exec request\<close>

definition shell_command :: "string \<Rightarrow> message \<Rightarrow> message" where
  "shell_command goos request =
     (if trim_space (m_Command request) = [] then request
      else if goos = ''windows'' then
        request\<lparr>m_File := ''cmd.exe'', m_Args := [StrV ''/d'', StrV ''/s'', StrV ''/c'', StrV (m_Command request)]\<rparr>
      else if goos = ''android'' then
        request\<lparr>m_File := ''/system/bin/sh'', m_Args := [StrV ''-c'', StrV (m_Command request)]\<rparr>
      else request\<lparr>m_File := ''/bin/sh'', m_Args := [StrV ''-c'', StrV (m_Command request)]\<rparr>)"

fun exec_args :: "any list \<Rightarrow> string list option" where
  "exec_args [] = Some []"
| "exec_args (v # vs) =
     (case v of
        StrV text \<Rightarrow> if length text > MaxArgumentBytes then None else map_option (Cons text) (exec_args vs)
      | _ \<Rightarrow> None)"

text \<open>A run to completion: what the program wrote, whether it ran out of time, and how it ended (an
  exit code, or another error).\<close>

record os_run =
  run_stdout :: "bytes list"
  run_stderr :: "bytes list"
  run_timeout :: bool
  run_end :: "string + int"

definition captured :: "bytes list \<Rightarrow> bytes" where
  "captured writes = foldl (\<lambda>buffer data. fst (bounded_write MaxOutputBytes buffer data)) [] writes"

definition handleExec ::
  "string \<Rightarrow> string list \<Rightarrow> message \<Rightarrow> os_start \<Rightarrow> os_run \<Rightarrow> process_set \<Rightarrow> process_set \<times> exec_message list" where
  "handleExec goos environ request0 os run p =
     (let request = shell_command goos request0; i = m_ID request in
      if i = [] \<or> trim_space (m_File request) = [] \<or> length (m_File request) > MaxArgumentBytes
         \<or> length (m_Command request) > MaxArgumentBytes \<or> length (m_Cwd request) > MaxArgumentBytes
         \<or> length (m_Args request) > MaxArgs
      then (p, [ExecFailed i invalid_exec])
      else
        (case exec_args (m_Args request) of
           None \<Rightarrow> (p, [ExecFailed i invalid_exec])
         | Some args \<Rightarrow>
             if m_Stream request then processStart environ request args os p
             else
               (case execEnvironment environ (m_Env request) of
                  Inl e \<Rightarrow> (p, [ExecFailed i e])
                | Inr _ \<Rightarrow>
                    (let out = captured (run_stdout run); err = captured (run_stderr run) in
                     (p, [ExecStarted i []]
                         @ (if out = [] then [] else [ExecOutput i ''stdout'' (string_of out)])
                         @ (if err = [] then [] else [ExecOutput i ''stderr'' (string_of err)])
                         @ (if run_timeout run then [ExecFailed i ''Remote command timed out'']
                            else (case run_end run of Inl e \<Rightarrow> [ExecFailed i e] | Inr code \<Rightarrow> [ExecExited i [] code])))))))"

end
