(* ===== verification/Exec_Properties.thy ===== *)
theory Exec_Properties
  imports Exec
begin

text \<open>
  What the program runner promises: a program's environment is the agent's one overridden by the
  request, whatever the order the request is read in; its output is cut to the budget and is a prefix
  of what it wrote; a program handle is never given out twice and a dead handle does nothing.
\<close>

subsection \<open>The environment as a map\<close>

definition entry_value :: "string \<Rightarrow> string" where
  "entry_value entry = fst (snd (cut_on (CHR ''='') entry))"

definition env_of :: "string list \<Rightarrow> string \<Rightarrow> string option" where
  "env_of env = map_of (map (\<lambda>e. (entry_name e, entry_value e)) env)"

definition overridden :: "(string \<Rightarrow> string option) \<Rightarrow> (string, any) gomap \<Rightarrow> string \<Rightarrow> string option" where
  "overridden base extra n =
     (case map_of extra n of
        None \<Rightarrow> base n
      | Some NilV \<Rightarrow> None
      | Some (StrV text) \<Rightarrow> Some text
      | _ \<Rightarrow> base n)"

definition env_inv :: "environment \<Rightarrow> bool" where
  "env_inv e \<longleftrightarrow> (\<forall>n i. map_of (snd e) n = Some i \<longleftrightarrow> i < length (fst e) \<and> entry_name (fst e ! i) = n)"

lemma env_invI: "(\<And>n i. map_of ix n = Some i \<longleftrightarrow> i < length env \<and> entry_name (env ! i) = n) \<Longrightarrow> env_inv (env, ix)"
  by (simp add: env_inv_def)

lemma env_invD: "env_inv (env, ix) \<Longrightarrow> map_of ix n = Some i \<longleftrightarrow> i < length env \<and> entry_name (env ! i) = n"
  by (simp add: env_inv_def)

lemma entry_of [simp]:
  assumes "CHR ''='' \<notin> set n"
  shows "entry_name (n @ CHR ''='' # v) = n" "entry_value (n @ CHR ''='' # v) = v"
  using cut_on_append [OF assms] by (simp_all add: entry_name_def entry_value_def)

lemma pattern_no_equals: "execEnvNamePattern n \<Longrightarrow> CHR ''='' \<notin> set n"
  by (cases n) (auto simp: execEnvNamePattern_def list_all_iff is_upper_def is_lower_def is_digit_def)

lemma index_entries_inv:
  assumes "env_inv (pre, ix)" and "distinct (map entry_name (pre @ es))" and "list_all has_name es"
  shows "env_inv (pre @ es, index_entries (length pre) ix es)"
  using assms
proof (induction es arbitrary: pre ix)
  case (Cons e es)
  have new: "entry_name e \<notin> entry_name ` set pre" using Cons.prems(2) by auto
  have "env_inv (pre @ [e], AList.update (entry_name e) (length pre) ix)"
  proof (rule env_invI)
    fix n i
    have "entry_name (pre ! i) \<noteq> entry_name e" if "i < length pre" using new that by (metis image_eqI nth_mem)
    then show "map_of (AList.update (entry_name e) (length pre) ix) n = Some i \<longleftrightarrow>
        i < length (pre @ [e]) \<and> entry_name ((pre @ [e]) ! i) = n"
      using env_invD [OF Cons.prems(1), of n i]
      by (cases "i = length pre") (auto simp: update_conv' nth_append)
  qed
  from Cons.IH [OF this] Cons.prems(2,3) show ?case by simp
qed simp

lemma env_of_index:
  assumes "env_inv (env, ix)"
  shows "env_of env n = map_option (\<lambda>i. entry_value (env ! i)) (map_of ix n)"
proof -
  have "distinct (map entry_name env)"
    unfolding distinct_conv_nth using env_invD [OF assms] by (metis length_map nth_map option.inject)
  then have d: "distinct (map fst (map (\<lambda>e. (entry_name e, entry_value e)) env))" by (simp add: comp_def)
  show ?thesis
  proof (cases "map_of ix n")
    case None
    then have "n \<notin> entry_name ` set env" using env_invD [OF assms] by (metis imageE in_set_conv_nth option.distinct(1))
    then have "env_of env n = None" by (simp add: env_of_def map_of_eq_None_iff image_image)
    with None show ?thesis by simp
  next
    case (Some i)
    with env_invD [OF assms] have "i < length env" "entry_name (env ! i) = n" by blast+
    then have "(n, entry_value (env ! i)) \<in> set (map (\<lambda>e. (entry_name e, entry_value e)) env)"
      by (auto simp: in_set_conv_nth intro!: exI [of _ i])
    then have "env_of env n = Some (entry_value (env ! i))" using d by (simp add: env_of_def del: set_map)
    with Some show ?thesis by simp
  qed
qed

lemma set_env_inv:
  assumes "env_inv e" and "CHR ''='' \<notin> set name"
  shows "env_inv (set_env name text e) \<and> env_of (fst (set_env name text e)) = (env_of (fst e))(name \<mapsto> text)"
proof -
  obtain env ix where e: "e = (env, ix)" by (rule prod.exhaust)
  note inv = env_invD [OF assms(1) [unfolded e]] and old = env_of_index [OF assms(1) [unfolded e]]
  let ?entry = "name @ ''='' @ text"
  have nm: "entry_name ?entry = name" "entry_value ?entry = text" using assms(2) by simp_all
  show ?thesis
  proof (cases "map_of ix name")
    case None
    let ?env = "env @ [?entry]" and ?ix = "AList.update name (length env) ix"
    have r: "set_env name text e = (?env, ?ix)" using None by (simp add: set_env_def e)
    have other: "entry_name (env ! j) \<noteq> name" if "j < length env" for j
      using inv [of name j] None that by auto
    have I: "env_inv (?env, ?ix)"
    proof (rule env_invI)
      fix n j
      consider "j < length env" | "j = length env" | "j > length env" by linarith
      then show "map_of ?ix n = Some j \<longleftrightarrow> j < length ?env \<and> entry_name (?env ! j) = n"
        by cases (use inv [of n j] other [of j] nm in \<open>auto simp: update_conv' nth_append\<close>)
    qed
    have "env_of ?env n = ((env_of env)(name \<mapsto> text)) n" for n
    proof (cases "n = name")
      case True
      then show ?thesis unfolding env_of_index [OF I] using nm by (simp add: update_conv')
    next
      case False
      then show ?thesis unfolding env_of_index [OF I] using inv [of n] old [of n]
        by (cases "map_of ix n") (auto simp: update_conv' nth_append)
    qed
    then show ?thesis unfolding r using I by (simp add: e fun_eq_iff)
  next
    case (Some i)
    then have i: "i < length env" "entry_name (env ! i) = name" using inv [of name i] by auto
    let ?env = "env[i := ?entry]"
    have r: "set_env name text e = (?env, ix)" using Some by (simp add: set_env_def e)
    have I: "env_inv (?env, ix)"
    proof (rule env_invI)
      fix n j
      show "map_of ix n = Some j \<longleftrightarrow> j < length ?env \<and> entry_name (?env ! j) = n"
        using inv [of n j] i nm by (cases "j = i") auto
    qed
    have "env_of ?env n = ((env_of env)(name \<mapsto> text)) n" for n
    proof (cases "n = name")
      case True
      then show ?thesis unfolding env_of_index [OF I] using Some i nm by simp
    next
      case False
      then have "map_of ix n \<noteq> Some i" using inv [of n i] i by auto
      then show ?thesis unfolding env_of_index [OF I] using False old [of n] by (cases "map_of ix n") auto
    qed
    then show ?thesis unfolding r using I by (simp add: e fun_eq_iff)
  qed
qed

lemma unset_env_present:
  assumes I: "env_inv (env, ix)" and i: "map_of ix name = Some i"
  obtains env' ix' where "unset_env name (env, ix) = (env', ix')" "length env' = length env - 1"
    "\<And>j. j < length env - 1 \<Longrightarrow> env' ! j = (if j = i then env ! (length env - 1) else env ! j)"
    "map_of ix' = (if i < length env - 1 then (map_of ix)(name := None, entry_name (env ! (length env - 1)) \<mapsto> i)
                   else (map_of ix)(name := None))"
proof
  let ?l = "length env - 1"
  let ?ix = "if i < ?l then AList.update (entry_name (env ! ?l)) i (AList.delete name ix) else AList.delete name ix"
  show "unset_env name (env, ix) = (take ?l (env[i := env ! ?l]), ?ix)" using i by (simp add: unset_env_def Let_def)
  show "length (take ?l (env[i := env ! ?l])) = ?l" by simp
  show "take ?l (env[i := env ! ?l]) ! j = (if j = i then env ! ?l else env ! j)" if "j < ?l" for j
    using that by (simp add: nth_list_update)
  show "map_of ?ix = (if i < ?l then (map_of ix)(name := None, entry_name (env ! ?l) \<mapsto> i) else (map_of ix)(name := None))"
    by (simp add: update_conv' delete_conv')
qed

lemma unset_env_inv:
  assumes "env_inv e"
  shows "env_inv (unset_env name e) \<and> env_of (fst (unset_env name e)) = (env_of (fst e))(name := None)"
proof -
  obtain env ix where e: "e = (env, ix)" by (rule prod.exhaust)
  note inv = env_invD [OF assms [unfolded e]] and old = env_of_index [OF assms [unfolded e]]
  show ?thesis
  proof (cases "map_of ix name")
    case None
    then have "env_of env name = None" using old [of name] by simp
    with None assms show ?thesis by (auto simp: unset_env_def e)
  next
    case (Some i)
    then have i: "i < length env" "entry_name (env ! i) = name" using inv [of name i] by auto
    let ?l = "length env - 1"
    let ?m = "entry_name (env ! ?l)"
    obtain env' ix' where r: "unset_env name (env, ix) = (env', ix')" and len: "length env' = ?l"
      and nth: "\<And>j. j < ?l \<Longrightarrow> env' ! j = (if j = i then env ! ?l else env ! j)"
      and ix': "map_of ix' = (if i < ?l then (map_of ix)(name := None, ?m \<mapsto> i) else (map_of ix)(name := None))"
      using unset_env_present [OF assms [unfolded e] Some] by metis
    have l: "?l < length env" using i(1) by simp
    have inj: "j = k" if "j < length env" "k < length env" "entry_name (env ! j) = entry_name (env ! k)" for j k
      using inv [of "entry_name (env ! j)" j] inv [of "entry_name (env ! j)" k] that by auto
    have I: "env_inv (env', ix')"
    proof (rule env_invI)
      fix n j
      have mi: "?m \<noteq> name" if "i < ?l" using inj [of i ?l] i l that by force
      have ml: "n = ?m \<longrightarrow> j = ?l" if "j < length env" "entry_name (env ! j) = n" using inj [of j ?l] that l by auto
      have ni: "n = name \<longrightarrow> j = i" if "j < length env" "entry_name (env ! j) = n" using inj [of j i] that i by auto
      show "map_of ix' n = Some j \<longleftrightarrow> j < length env' \<and> entry_name (env' ! j) = n"
      proof (cases "j < ?l")
        case True
        show ?thesis
        proof (cases "j = i")
          case j: True
          then have "entry_name (env' ! j) = ?m" "i < ?l" using nth [OF True] True by simp_all
          moreover have "map_of ix' n = Some i \<longleftrightarrow> n = ?m"
            using inv [of n i] i \<open>i < ?l\<close> by (auto simp: ix')
          ultimately show ?thesis using j len by auto
        next
          case ne: False
          then have "env' ! j = env ! j" using nth [OF True] by simp
          moreover have "map_of ix' n = Some j \<longleftrightarrow> map_of ix n = Some j"
            using inv [of n j] ml ni True ne by (auto simp: ix')
          ultimately show ?thesis using inv [of n j] True len l by auto
        qed
      next
        case False
        have "map_of ix' n \<noteq> Some j"
        proof
          assume a: "map_of ix' n = Some j"
          show False
          proof (cases "i < ?l \<and> n = ?m")
            case True
            then show False using a False by (simp add: ix')
          next
            case other: False
            then have "n \<noteq> name" "map_of ix n = Some j" using a by (auto simp: ix' split: if_splits)
            moreover from this have "j = ?l" using inv [of n j] False by auto
            moreover from calculation have "n = ?m" using inv [of n j] by simp
            moreover from this have "i = ?l" using other i by simp
            ultimately show False using i by simp
          qed
        qed
        then show ?thesis using False len by simp
      qed
    qed
    have "env_of env' n = ((env_of env)(name := None)) n" for n
    proof (cases "n = name")
      case True
      have "?m \<noteq> name" if "i < ?l" using inj [of i ?l] i l that by force
      then have "map_of ix' name = None" using ix' by auto
      with True env_of_index [OF I, of n] show ?thesis by simp
    next
      case False
      show ?thesis
      proof (cases "i < ?l \<and> n = ?m")
        case True
        moreover from this have "map_of ix n = Some ?l" using inv [of n ?l] l by simp
        ultimately show ?thesis using False nth [of i] env_of_index [OF I, of n] old [of n] ix' by simp
      next
        case other: False
        then have m: "map_of ix' n = map_of ix n" using False ix' by auto
        have "env' ! j = env ! j" if "map_of ix n = Some j" for j
          using that nth [of j] inv [of n j] i False env_invD [OF I, of n j] len m by auto
        with m False show ?thesis
          using env_of_index [OF I, of n] old [of n] by (cases "map_of ix n") auto
      qed
    qed
    with I r e show ?thesis by auto
  qed
qed

lemma set_env_named: "list_all has_name (fst e) \<Longrightarrow> CHR ''='' \<notin> set name \<Longrightarrow> list_all has_name (fst (set_env name text e))"
  by (cases e) (auto simp: set_env_def Let_def list_all_iff has_name_def cut_on_def dest!: set_update_subset_insert [THEN subsetD] split: option.split)

lemma unset_env_named: "list_all has_name (fst e) \<Longrightarrow> env_inv e \<Longrightarrow> list_all has_name (fst (unset_env name e))"
  by (cases e)
    (auto simp: unset_env_def Let_def list_all_length nth_list_update env_inv_def split: option.split)

text \<open>A value the request may give a variable.\<close>

definition extra_ok :: "string \<times> any \<Rightarrow> bool" where
  "extra_ok p \<longleftrightarrow> execEnvNamePattern (fst p) \<and>
     (case snd p of NilV \<Rightarrow> True | StrV text \<Rightarrow> length text \<le> MaxEnvBytes | _ \<Rightarrow> False)"

lemma overridden_null: "map_of rest name = None \<Longrightarrow> overridden (base(name := None)) rest = overridden base ((name, NilV) # rest)"
  by (auto simp: overridden_def fun_eq_iff split: option.split any.split)

lemma overridden_text: "map_of rest name = None \<Longrightarrow> overridden (base(name \<mapsto> t)) rest = overridden base ((name, StrV t) # rest)"
  by (auto simp: overridden_def fun_eq_iff split: option.split any.split)

lemma apply_extra_correct:
  assumes "env_inv e" and "list_all has_name (fst e)" and "distinct (map fst extra)"
  shows "case apply_extra extra e of
      Inl err \<Rightarrow> err = invalid_exec \<and> \<not> list_all extra_ok extra
    | Inr e' \<Rightarrow> list_all extra_ok extra \<and> env_of (fst e') = overridden (env_of (fst e)) extra"
  using assms
proof (induction extra e rule: apply_extra.induct)
  case (1 e)
  then show ?case by (simp add: overridden_def fun_eq_iff)
next
  case (2 name raw rest e)
  show ?case
  proof (cases "extra_ok (name, raw)")
    case False
    then show ?thesis by (auto simp: extra_ok_def split: any.splits)
  next
    case True
    then have n: "execEnvNamePattern name" and eq: "CHR ''='' \<notin> set name"
      by (auto simp: extra_ok_def pattern_no_equals)
    have fresh: "map_of rest name = None" using "2.prems"(3) by (simp add: map_of_eq_None_iff)
    from True consider "raw = NilV" | t where "raw = StrV t" "length t \<le> MaxEnvBytes"
      by (auto simp: extra_ok_def split: any.splits)
    then show ?thesis
    proof cases
      case 1
      note u = unset_env_inv [OF "2.prems"(1), of name]
      have a: "apply_extra ((name, raw) # rest) e = apply_extra rest (unset_env name e)" using n 1 by simp
      have o: "overridden (env_of (fst (unset_env name e))) rest = overridden (env_of (fst e)) ((name, raw) # rest)"
        unfolding u [THEN conjunct2] unfolding 1 by (rule overridden_null [OF fresh])
      show ?thesis
        using "2.IH"(1) [OF _ 1 u [THEN conjunct1] unset_env_named [OF "2.prems"(2,1)]] n True "2.prems"(3)
        unfolding a o by (cases "apply_extra rest (unset_env name e)") auto
    next
      case (2 t)
      note u = set_env_inv [OF "2.prems"(1) eq, of t]
      have a: "apply_extra ((name, raw) # rest) e = apply_extra rest (set_env name t e)" using n 2 by simp
      have o: "overridden (env_of (fst (set_env name t e))) rest = overridden (env_of (fst e)) ((name, raw) # rest)"
        unfolding u [THEN conjunct2] unfolding 2(1) by (rule overridden_text [OF fresh])
      show ?thesis
        using "2.IH"(2) [OF _ 2(1) _ u [THEN conjunct1] set_env_named [OF "2.prems"(2) eq]] n True 2(2) "2.prems"(3)
        unfolding a o by (cases "apply_extra rest (set_env name t e)") auto
    qed
  qed
qed

text \<open>
  The environment a program gets is the agent's own one overridden by the request: a variable the
  request sets has its text, one it sets to null is gone, every other is untouched, whatever order the
  request is read in. A request is refused exactly when it has more than 64 variables or one whose name
  or value is not allowed.
\<close>

theorem exec_environment_overrides:
  assumes "distinct (map entry_name environ)" and "list_all has_name environ" and "distinct (map fst extra)"
  shows "case execEnvironment environ (Some extra) of
      Inl err \<Rightarrow> err = invalid_exec \<and> (length extra > MaxEnvVars \<or> \<not> list_all extra_ok extra)
    | Inr r \<Rightarrow> length extra \<le> MaxEnvVars \<and> list_all extra_ok extra \<and>
        (\<exists>env. r = Some env \<and> env_of env = overridden (env_of environ) extra)"
proof -
  have "env_inv ([], [])" by (simp add: env_inv_def)
  from index_entries_inv [OF this, of environ] assms(1,2)
  have "env_inv (environ, index_entries 0 [] environ)" by simp
  from apply_extra_correct [OF this _ assms(3)] assms(2) show ?thesis
    by (auto simp: execEnvironment_def split: sum.splits)
qed

theorem exec_environment_overrides_witness:
  "\<exists>env. execEnvironment [''A=1'', ''B=2''] (Some [(''A'', NilV), (''C'', StrV ''3'')]) = Inr (Some env)
     \<and> env_of env = overridden (env_of [''A=1'', ''B=2'']) [(''A'', NilV), (''C'', StrV ''3'')]"
proof -
  have "distinct (map entry_name [''A=1'', ''B=2''])" "list_all has_name [''A=1'', ''B=2'']" by code_simp+
  moreover have "\<exists>r. execEnvironment [''A=1'', ''B=2''] (Some [(''A'', NilV), (''C'', StrV ''3'')]) = Inr r"
  proof (rule exI)
    show "execEnvironment [''A=1'', ''B=2''] (Some [(''A'', NilV), (''C'', StrV ''3'')]) = Inr (Some [''B=2'', ''C=3''])"
      by code_simp
  qed
  ultimately show ?thesis
    using exec_environment_overrides [of "[''A=1'', ''B=2'']" "[(''A'', NilV), (''C'', StrV ''3'')]"] by auto
qed

subsection \<open>Output\<close>

definition stream_data :: "string \<Rightarrow> (string \<times> bytes) list \<Rightarrow> bytes" where
  "stream_data s rs = concat (map snd (filter (\<lambda>r. fst r = s) rs))"

lemma copy_outputs_exhausted: "r \<le> 0 \<Longrightarrow> copy_outputs r reads = []"
  by (induction r reads rule: copy_outputs.induct) (auto simp: budget_take_def)

lemma copy_outputs_correct:
  "length (concat (map snd (copy_outputs r reads))) = min (nat r) (length (concat (map snd reads)))
   \<and> prefix (stream_data s (copy_outputs r reads)) (stream_data s reads)"
proof (induction r reads rule: copy_outputs.induct)
  case (2 r stream data rest)
  show ?case
  proof (cases "data = [] \<or> r \<le> 0")
    case True
    with 2(1) show ?thesis by (auto simp: copy_outputs_exhausted stream_data_def budget_take_def split: if_splits)
  next
    case False
    show ?thesis
    proof (cases "int (length data) > r")
      case True
      then show ?thesis using False
        by (auto simp: budget_take_def copy_outputs_exhausted stream_data_def take_is_prefix intro: prefix_order.trans)
    next
      case le: False
      then have "budget_take r (int (length data)) = (r - int (length data), int (length data))" "0 < length data"
        using False by (auto simp: budget_take_def Let_def)
      with 2(2) [OF _ this(1) [symmetric]] False le show ?thesis
        by (auto simp: stream_data_def nat_diff_distrib)
    qed
  qed
qed (simp add: stream_data_def)

lemma bounded_write_take: "fst (bounded_write n (take n buffer) data) = take n (buffer @ data)"
  by (cases "length buffer \<le> n") (auto simp: bounded_write_def Let_def min_def nat_diff_distrib)

lemma captured_take: "captured writes = take MaxOutputBytes (concat writes)"
proof -
  have "foldl (\<lambda>buffer data. fst (bounded_write n buffer data)) (take n buffer) writes = take n (buffer @ concat writes)" for n buffer
    by (induction writes arbitrary: buffer) (simp_all add: bounded_write_take del: take_append)
  from this [of MaxOutputBytes "[]"] show ?thesis by (simp add: captured_def)
qed

text \<open>
  C10: Output is cut, never altered, before it is put into JSON (whose encoder replaces bytes that are no UTF-8). Of a
  program that is streamed, however the reads of its streams are interleaved, what is sent is exactly the first bytes up
  to the budget of 8 MiB in total, and on each stream a prefix of what was read from it. Of a program that is run
  to its end, each of the two streams is kept, whatever the single writes were, up to its first 8 MiB.
\<close>

theorem output_is_a_bounded_prefix:
  "length (concat (map snd (copy_outputs (int MaxOutputBytes) reads))) = min MaxOutputBytes (length (concat (map snd reads)))
   \<and> prefix (stream_data s (copy_outputs (int MaxOutputBytes) reads)) (stream_data s reads)
   \<and> captured writes = take MaxOutputBytes (concat writes)"
  using copy_outputs_correct [of "int MaxOutputBytes" reads s] captured_take by simp

subsection \<open>Handles\<close>

datatype exec_event =
    StartRequest "string list" message "string list" os_start
  | ProgramExit string string "string option" int
  | SocketClosed

fun exec_step :: "process_set \<Rightarrow> exec_event \<Rightarrow> process_set \<times> exec_message list" where
  "exec_step p (StartRequest environ request args os) = processStart environ request args os p"
| "exec_step p (ProgramExit request i err code) = processExit request i err code p"
| "exec_step p SocketClosed = (fst (processCloseAll p), [])"

fun exec_run :: "process_set \<Rightarrow> exec_event list \<Rightarrow> process_set \<times> exec_message list" where
  "exec_run p [] = (p, [])"
| "exec_run p (e # es) =
     (let (p1, ms) = exec_step p e; (p2, ms') = exec_run p1 es in (p2, ms @ ms'))"

definition started :: "exec_message list \<Rightarrow> string list" where
  "started ms = concat (map (\<lambda>m. case m of ExecStarted _ i \<Rightarrow> [i] | _ \<Rightarrow> []) ms)"

definition handle_name :: "nat \<Rightarrow> string" where
  "handle_name k = ''proc_'' @ fmt_uint 36 k"

lemma started_append [simp]: "started (ms @ ms') = started ms @ started ms'"
  by (simp add: started_def)

definition live_handles :: "process_set \<Rightarrow> string set" where
  "live_handles p = fst ` set (ps_records p)"

lemma live_records [simp]:
  "live_handles (p\<lparr>ps_next := n\<rparr>) = live_handles p"
  "live_handles (p\<lparr>ps_records := AList.update i r rs\<rparr>) = insert i (fst ` set rs)"
  "live_handles (p\<lparr>ps_records := []\<rparr>) = {}"
  "live_handles (p\<lparr>ps_records := AList.delete i rs\<rparr>) \<subseteq> fst ` set rs"
  by (simp_all add: live_handles_def keys_update) (auto simp: delete_conv' AList.delete_eq)

lemma live_handles_of: "fst ` set (ps_records p) = live_handles p"
  by (simp add: live_handles_def)

lemma handle_name_inj: "handle_name j = handle_name k \<Longrightarrow> j = k"
  using fmt_uint_inj [of 36] by (auto simp: handle_name_def inj_def)

text \<open>What one step does to the handles: it starts none and frees some, or starts the next one.\<close>

lemma exec_step_handles:
  assumes "exec_step p e = (p', ms)" and "unat (ps_next p) < 2 ^ 64 - 1"
  shows "(ps_next p \<le> ps_next p' \<and> unat (ps_next p') \<le> unat (ps_next p) + 1 \<and> started ms = []
            \<and> live_handles p' \<subseteq> live_handles p)
       \<or> (unat (ps_next p') = unat (ps_next p) + 1 \<and> started ms = [handle_name (unat (ps_next p'))]
            \<and> live_handles p' \<subseteq> insert (handle_name (unat (ps_next p'))) (live_handles p))"
proof -
  have next_id: "unat (ps_next p + 1) = unat (ps_next p) + 1"
    using assms(2) by (simp add: unat_plus_if')
  then have le: "ps_next p \<le> ps_next p + 1" by (simp add: word_le_nat_alt)
  show ?thesis
  proof (cases e)
    case (StartRequest environ request args os)
    then show ?thesis using assms(1) next_id le
      by (auto simp: processStart_def Let_def started_def handle_name_def live_handles_of split: if_splits sum.splits)
  next
    case (ProgramExit request i err code)
    then show ?thesis using assms(1)
      using live_records(4) [where p = p and i = i and rs = "ps_records p"]
      by (auto simp: processExit_def started_def live_handles_of split: option.splits)
  next
    case SocketClosed
    then show ?thesis using assms(1) by (auto simp: processCloseAll_def started_def)
  qed
qed

lemma exec_run_handles:
  assumes "exec_run p es = (p', ms)" and "unat (ps_next p) + length es < 2 ^ 64"
  shows "ps_next p \<le> ps_next p' \<and> unat (ps_next p') \<le> unat (ps_next p) + length es
     \<and> distinct (started ms) \<and> set (started ms) \<subseteq> handle_name ` {unat (ps_next p)<..unat (ps_next p')}
     \<and> live_handles p' \<subseteq> live_handles p \<union> set (started ms)"
  using assms
proof (induction es arbitrary: p p' ms)
  case Nil
  then show ?case by (simp add: started_def)
next
  case (Cons e es)
  obtain p1 ms1 where 1: "exec_step p e = (p1, ms1)" by fastforce
  obtain p2 ms2 where 2: "exec_run p1 es = (p2, ms2)" by fastforce
  have r: "p' = p2" "ms = ms1 @ ms2" using Cons.prems(1) 1 2 by auto
  from Cons.prems(2) have "unat (ps_next p) < 2 ^ 64 - 1" by simp
  note step = exec_step_handles [OF 1 this]
  then have "unat (ps_next p1) + length es < 2 ^ 64" using Cons.prems(2) by auto
  note ih = Cons.IH [OF 2 this]
  have le: "unat (ps_next p) \<le> unat (ps_next p1)" using step by (auto simp: word_le_nat_alt)
  have sub: "handle_name ` {unat (ps_next p1)<..unat (ps_next p2)} \<subseteq> handle_name ` {unat (ps_next p)<..unat (ps_next p2)}"
    using le by (intro image_mono) auto
  have new: "handle_name (unat (ps_next p1)) \<notin> handle_name ` {unat (ps_next p1)<..unat (ps_next p2)}"
    by (auto dest: handle_name_inj)
  have ord: "ps_next p \<le> ps_next p2" "unat (ps_next p2) \<le> unat (ps_next p) + length (e # es)"
    using step ih by (auto simp: word_le_nat_alt)
  from step show ?case
  proof
    assume "ps_next p \<le> ps_next p1 \<and> unat (ps_next p1) \<le> unat (ps_next p) + 1 \<and> started ms1 = []
      \<and> live_handles p1 \<subseteq> live_handles p"
    then show ?thesis using ih ord sub unfolding r by auto
  next
    assume s: "unat (ps_next p1) = unat (ps_next p) + 1 \<and> started ms1 = [handle_name (unat (ps_next p1))]
      \<and> live_handles p1 \<subseteq> insert (handle_name (unat (ps_next p1))) (live_handles p)"
    moreover have "handle_name (unat (ps_next p1)) \<in> handle_name ` {unat (ps_next p)<..unat (ps_next p2)}"
      using s ih by (intro imageI) (auto simp: word_le_nat_alt)
    ultimately show ?thesis using ih ord sub new unfolding r by auto
  qed
qed

lemma exec_run_append: "exec_run p (es @ fs) =
    (let (p1, ms) = exec_run p es; (p2, ms') = exec_run p1 fs in (p2, ms @ ms'))"
  by (induction es arbitrary: p) (auto split: prod.splits)

text \<open>
  In any run of at most 2^64 - 1 steps of one socket no process handle is given out twice and only
  handles that were given out are live; once a handle's program has exited (or the table was closed),
  every later request on it is answered with \<open>Unknown process handle\<close>, whatever starts in between.
\<close>

theorem dead_handles_stay_dead:
  assumes "exec_run newProcessSet es = (p, ms)" and "exec_run p fs = (p', ms')"
    and "length es + length fs < 2 ^ 64"
    and "m_ProcessID request \<in> set (started ms)" and "map_of (ps_records p) (m_ProcessID request) = None"
  shows "distinct (started (ms @ ms')) \<and> live_handles p' \<subseteq> set (started (ms @ ms'))
    \<and> processHandle request os p' = [ProcessError (m_ID request) (m_ProcessID request) ''Unknown process handle'']"
proof -
  let ?i = "m_ProcessID request"
  have run: "exec_run newProcessSet (es @ fs) = (p', ms @ ms')" using assms(1,2) by (simp add: exec_run_append)
  note all = exec_run_handles [OF run]
  have a: "distinct (started (ms @ ms'))" "live_handles p' \<subseteq> set (started (ms @ ms'))"
    using all assms(3) by (simp_all add: newProcessSet_def live_handles_def)
  have first: "unat (ps_next p) \<le> length es" using exec_run_handles [OF assms(1)] assms(3) by (simp add: newProcessSet_def)
  have "live_handles p' \<subseteq> live_handles p \<union> set (started ms')"
    using exec_run_handles [OF assms(2)] first assms(3) by simp
  moreover have "?i \<notin> set (started ms')" using a(1) assms(4) by auto
  moreover have "?i \<notin> live_handles p" using assms(5) by (simp add: live_handles_def map_of_eq_None_iff)
  ultimately have "map_of (ps_records p') ?i = None" by (auto simp: live_handles_def map_of_eq_None_iff)
  with a show ?thesis by (simp add: processHandle_def Let_def)
qed

definition sample_start :: "exec_event" where
  "sample_start = StartRequest [''A=1''] (blank_message\<lparr>m_ID := ''r1'', m_File := ''ls''\<rparr>) []
     \<lparr>os_terminal = None, os_pipes = None, os_process = Inr 42\<rparr>"

theorem dead_handles_stay_dead_witness:
  "\<exists>p'. processHandle (blank_message\<lparr>m_ProcessID := ''proc_1''\<rparr>) None p' =
       [ProcessError (m_ID (blank_message\<lparr>m_ProcessID := ''proc_1''\<rparr>)) ''proc_1'' ''Unknown process handle'']"
proof -
  let ?req = "blank_message\<lparr>m_ProcessID := ''proc_1''\<rparr>"
  obtain p ms where 1: "exec_run newProcessSet [sample_start, ProgramExit ''r1'' ''proc_1'' None 0] = (p, ms)" by fastforce
  obtain p' ms' where 2: "exec_run p [sample_start] = (p', ms')" by fastforce
  have "''proc_1'' \<in> set (started (snd (exec_run newProcessSet [sample_start, ProgramExit ''r1'' ''proc_1'' None 0])))"
    "map_of (ps_records (fst (exec_run newProcessSet [sample_start, ProgramExit ''r1'' ''proc_1'' None 0]))) ''proc_1'' = None"
    by code_simp+
  then have h0: "''proc_1'' \<in> set (started ms)" "map_of (ps_records p) ''proc_1'' = None" unfolding 1 by simp_all
  then have h: "m_ProcessID ?req \<in> set (started ms)" "map_of (ps_records p) (m_ProcessID ?req) = None" by simp_all
  have "length [sample_start, ProgramExit ''r1'' ''proc_1'' None 0] + length [sample_start] < 2 ^ 64" by simp
  from dead_handles_stay_dead [OF 1 2 this h] show ?thesis by (intro exI [of _ p']) simp
qed

end
