(* ===== verification/Json.thy ===== *)
theory Json
  imports Any_Value
begin

text \<open>
  What the agent uses of \<open>encoding/json\<close> on decoded values: the length of \<open>json.Marshal\<close>'s text and
  \<open>json.Unmarshal\<close> of a value into strings, booleans and structs. The text of a number is a parameter
  (\<open>num_text\<close>). Texts are ASCII: a byte above 127 counts as itself. Unmarshalling matches an object's keys to the
  fields without regard to case, in the order of the marshalled object, and null leaves a field alone.
\<close>

definition json_char_size :: "char \<Rightarrow> nat" where
  "json_char_size c =
     (if c \<in> {CHR 0x22, CHR 0x5C, CHR 0x08, CHR 0x09, CHR 0x0A, CHR 0x0C, CHR 0x0D} then 2
      else if c < CHR 0x20 \<or> c \<in> {CHR ''<'', CHR ''>'', CHR ''&''} then 6 else 1)"

definition json_string_size :: "string \<Rightarrow> nat" where
  "json_string_size s = 2 + sum_list (map json_char_size s)"

text \<open>Elements are separated by commas.\<close>

definition json_joined :: "nat list \<Rightarrow> nat" where
  "json_joined sizes = 2 + sum_list sizes + (length sizes - 1)"

fun json_size :: "(rat \<Rightarrow> string) \<Rightarrow> any \<Rightarrow> nat" where
  "json_size num_text NilV = 4"
| "json_size num_text (BoolV b) = (if b then 4 else 5)"
| "json_size num_text (NumV r) = length (num_text r)"
| "json_size num_text (StrV s) = json_string_size s"
| "json_size num_text (ArrV xs) = json_joined (map (json_size num_text) xs)"
| "json_size num_text (ObjV m) = json_joined (map (\<lambda>(k, v). json_string_size k + 1 + json_size num_text v) m)"

type_synonym 'a decoder = "any \<Rightarrow> 'a \<Rightarrow> string + 'a"

definition json_mismatch :: string where
  "json_mismatch = ''json: cannot unmarshal value''"

definition decode_string :: "string decoder" where
  "decode_string v old = (case v of StrV s \<Rightarrow> Inr s | NilV \<Rightarrow> Inr old | _ \<Rightarrow> Inl json_mismatch)"

definition decode_bool :: "bool decoder" where
  "decode_bool v old = (case v of BoolV b \<Rightarrow> Inr b | NilV \<Rightarrow> Inr old | _ \<Rightarrow> Inl json_mismatch)"

definition decode_bool_pointer :: "bool option decoder" where
  "decode_bool_pointer v old = (case v of BoolV b \<Rightarrow> Inr (Some b) | NilV \<Rightarrow> Inr None | _ \<Rightarrow> Inl json_mismatch)"

definition decode_number :: "rat decoder" where
  "decode_number v old = (case v of NumV r \<Rightarrow> Inr r | NilV \<Rightarrow> Inr old | _ \<Rightarrow> Inl json_mismatch)"

text \<open>The elements of a list are decoded in turn, up to the first failure.\<close>

fun collect :: "('e + 'a) list \<Rightarrow> 'e + 'a list" where
  "collect [] = Inr []"
| "collect (Inl e # rest) = Inl e"
| "collect (Inr x # rest) = map_sum id (Cons x) (collect rest)"

text \<open>A struct: every key of the object goes through \<open>field\<close>, which knows the fields by lower-case name.\<close>

fun decode_fields :: "(string \<Rightarrow> any \<Rightarrow> 'a \<Rightarrow> string + 'a) \<Rightarrow> obj \<Rightarrow> 'a \<Rightarrow> string + 'a" where
  "decode_fields field [] old = Inr old"
| "decode_fields field ((k, v) # m) old =
     (case field (to_lower k) v old of Inl e \<Rightarrow> Inl e | Inr new \<Rightarrow> decode_fields field m new)"

definition decode_struct :: "(string \<Rightarrow> any \<Rightarrow> 'a \<Rightarrow> string + 'a) \<Rightarrow> 'a decoder" where
  "decode_struct field v old =
     (case v of ObjV m \<Rightarrow> decode_fields field m old | NilV \<Rightarrow> Inr old | _ \<Rightarrow> Inl json_mismatch)"

lemma decode_string_StrV [simp]: "decode_string (StrV s) old = Inr s"
  by (simp add: decode_string_def)

end
