(* ===== verification/Presentation.thy ===== *)
theory Presentation
  imports Json
begin

text \<open>
  The presentation helper (\<open>shellagent/desktop/presentation_model.go\<close>): tray menus, global shortcuts
  and drop targets of one app. The native side is its answers (an argument of each command) and the
  calls it receives (a log the command returns).
\<close>

subsection \<open>Data\<close>

datatype trayItem = TrayItem
  (ti_ID: string) (ti_Label: string) (ti_Type: string) (ti_Enabled: "bool option") (ti_Checked: bool)
  (ti_Submenu: "trayItem list")

record trayOptions =
  to_Tooltip :: string
  to_Title :: string
  to_Menu :: "trayItem list"

definition emptyTray :: trayOptions where
  "emptyTray = \<lparr>to_Tooltip = [], to_Title = [], to_Menu = []\<rparr>"

record presentationKey =
  pk_Code :: nat
  pk_Modifiers :: "32 word"

text \<open>Bounds decoded from JSON are finite numbers, so the code's NaN and infinity tests cannot fire.\<close>

record dropTargetBounds =
  db_ID :: string
  db_X :: rat
  db_Y :: rat
  db_Width :: rat
  db_Height :: rat
  db_Scale :: rat

definition validateDropTargetBounds :: "dropTargetBounds \<Rightarrow> string option" where
  "validateDropTargetBounds b =
     (if db_ID b = [] \<or> length (db_ID b) > 128 then Some ''drop target id is invalid''
      else if db_Width b < 1 \<or> db_Height b < 1 \<or> db_Width b > 100000 \<or> db_Height b > 100000
              \<or> db_Scale b < 1 / 4 \<or> db_Scale b > 8 then Some ''drop target bounds are invalid''
      else None)"

subsection \<open>Shortcuts\<close>

definition modifier_bit :: "string \<Rightarrow> string \<Rightarrow> 32 word option" where
  "modifier_bit platform part =
     (let m = to_lower (trim_space part) in
      if m \<in> {''alt'', ''option''} then Some 1
      else if m \<in> {''ctrl'', ''control''} then Some 2
      else if m = ''shift'' then Some 4
      else if m \<in> {''cmd'', ''command'', ''super'', ''meta''} then Some 8
      else if m \<in> {''commandorcontrol'', ''cmdorctrl''} then Some (if platform = ''darwin'' then 8 else 2)
      else None)"

fun parse_modifiers :: "string \<Rightarrow> 32 word \<Rightarrow> string list \<Rightarrow> string + 32 word" where
  "parse_modifiers platform acc [] = Inr acc"
| "parse_modifiers platform acc (part # parts) =
     (case modifier_bit platform part of
        None \<Rightarrow> Inl (''unsupported shortcut modifier: '' @ part)
      | Some b \<Rightarrow> parse_modifiers platform (or acc b) parts)"

definition named_keys :: "(string \<times> nat) list" where
  "named_keys = [(''SPACE'', 32), (''TAB'', 9), (''ENTER'', 13), (''RETURN'', 13), (''ESC'', 27), (''ESCAPE'', 27),
     (''BACKSPACE'', 8), (''DELETE'', 46), (''INSERT'', 45), (''HOME'', 36), (''END'', 35), (''PAGEUP'', 33),
     (''PAGEDOWN'', 34), (''LEFT'', 37), (''UP'', 38), (''RIGHT'', 39), (''DOWN'', 40), (''PLUS'', 187),
     (''MINUS'', 189), (''COMMA'', 188), (''PERIOD'', 190)]"

text \<open>\<open>strconv.Atoi\<close> where a result between 1 and 20 matters: an optional sign and digits.\<close>

definition small_atoi :: "string \<Rightarrow> int" where
  "small_atoi s =
     (let (sign, ds) = (case s of CHR ''-'' # r \<Rightarrow> (- 1, r) | CHR ''+'' # r \<Rightarrow> (1, r) | _ \<Rightarrow> (1, s)) in
      if ds = [] \<or> \<not> list_all is_digit ds then 0
      else sign * int (foldl (\<lambda>n c. n * 10 + (of_char c - 48)) 0 ds))"

definition key_code :: "string \<Rightarrow> nat" where
  "key_code key =
     (case key of
        [c] \<Rightarrow> if is_upper c \<or> is_digit c then of_char c else (case map_of named_keys key of None \<Rightarrow> 0 | Some n \<Rightarrow> n)
      | _ \<Rightarrow>
          (let code = (case map_of named_keys key of None \<Rightarrow> 0 | Some n \<Rightarrow> n) in
           if has_prefix key ''F'' \<and> 1 \<le> small_atoi (drop 1 key) \<and> small_atoi (drop 1 key) \<le> 20
           then nat (111 + small_atoi (drop 1 key)) else code))"

definition parsePresentationKey :: "string \<Rightarrow> string \<Rightarrow> string + presentationKey" where
  "parsePresentationKey platform accelerator =
     (let parts = split_on (CHR ''+'') accelerator in
      if length parts < 2 \<or> length accelerator > 128 then Inl ''shortcut must contain a modifier and one key''
      else
        (case parse_modifiers platform 0 (butlast parts) of
           Inl e \<Rightarrow> Inl e
         | Inr mods \<Rightarrow>
             (let key = to_upper (trim_space (last parts)); code = key_code key in
              if code = 0 then Inl (''unsupported shortcut key: '' @ key)
              else Inr \<lparr>pk_Code = code, pk_Modifiers = mods\<rparr>)))"

subsection \<open>Arguments\<close>

definition decodePresentationArg :: "(rat \<Rightarrow> string) \<Rightarrow> 'a decoder \<Rightarrow> any list \<Rightarrow> 'a \<Rightarrow> string + 'a" where
  "decodePresentationArg num_text dec args target =
     (case args of
        [arg] \<Rightarrow> if json_size num_text arg > 64 * 1024 then Inl ''presentation argument exceeds 64 KiB'' else dec arg target
      | _ \<Rightarrow> Inl ''expected one argument'')"

text \<open>A menu item is decoded from its object; a missing or null field keeps its zero value.\<close>

definition item_field :: "(any \<Rightarrow> string + trayItem list) \<Rightarrow> string \<Rightarrow> any \<Rightarrow> trayItem \<Rightarrow> string + trayItem" where
  "item_field menu k v item =
     (case item of TrayItem i l t e c sub \<Rightarrow>
        if k = ''id'' then map_sum id (\<lambda>x. TrayItem x l t e c sub) (decode_string v i)
        else if k = ''label'' then map_sum id (\<lambda>x. TrayItem i x t e c sub) (decode_string v l)
        else if k = ''type'' then map_sum id (\<lambda>x. TrayItem i l x e c sub) (decode_string v t)
        else if k = ''enabled'' then map_sum id (\<lambda>x. TrayItem i l t x c sub) (decode_bool_pointer v e)
        else if k = ''checked'' then map_sum id (\<lambda>x. TrayItem i l t e x sub) (decode_bool v c)
        else if k = ''submenu'' then map_sum id (\<lambda>x. TrayItem i l t e c x) (menu v)
        else Inr item)"

text \<open>Nested menus; \<open>depth\<close> bounds the recursion, and a JSON value is never deeper than its size.\<close>

fun decode_menu :: "nat \<Rightarrow> any \<Rightarrow> string + trayItem list" where
  "decode_menu 0 v = Inl json_mismatch"
| "decode_menu (Suc depth) v =
     (case v of
        ArrV xs \<Rightarrow> collect (map (\<lambda>x. decode_struct (item_field (decode_menu depth)) x (TrayItem [] [] [] None False [])) xs)
      | NilV \<Rightarrow> Inr []
      | _ \<Rightarrow> Inl json_mismatch)"

definition tray_field :: "string \<Rightarrow> any \<Rightarrow> trayOptions \<Rightarrow> string + trayOptions" where
  "tray_field k v t =
     (if k = ''tooltip'' then map_sum id (\<lambda>x. t\<lparr>to_Tooltip := x\<rparr>) (decode_string v (to_Tooltip t))
      else if k = ''title'' then map_sum id (\<lambda>x. t\<lparr>to_Title := x\<rparr>) (decode_string v (to_Title t))
      else if k = ''menu'' then map_sum id (\<lambda>x. t\<lparr>to_Menu := x\<rparr>) (decode_menu (size v) v)
      else Inr t)"

definition bounds_field :: "string \<Rightarrow> any \<Rightarrow> dropTargetBounds \<Rightarrow> string + dropTargetBounds" where
  "bounds_field k v b =
     (if k = ''id'' then map_sum id (\<lambda>x. b\<lparr>db_ID := x\<rparr>) (decode_string v (db_ID b))
      else if k = ''x'' then map_sum id (\<lambda>x. b\<lparr>db_X := x\<rparr>) (decode_number v (db_X b))
      else if k = ''y'' then map_sum id (\<lambda>x. b\<lparr>db_Y := x\<rparr>) (decode_number v (db_Y b))
      else if k = ''width'' then map_sum id (\<lambda>x. b\<lparr>db_Width := x\<rparr>) (decode_number v (db_Width b))
      else if k = ''height'' then map_sum id (\<lambda>x. b\<lparr>db_Height := x\<rparr>) (decode_number v (db_Height b))
      else if k = ''scale'' then map_sum id (\<lambda>x. b\<lparr>db_Scale := x\<rparr>) (decode_number v (db_Scale b))
      else Inr b)"

definition balloon_field :: "string \<Rightarrow> any \<Rightarrow> string \<times> string \<Rightarrow> string + string \<times> string" where
  "balloon_field k v b =
     (if k = ''title'' then map_sum id (\<lambda>x. (x, snd b)) (decode_string v (fst b))
      else if k = ''content'' then map_sum id (\<lambda>x. (fst b, x)) (decode_string v (snd b))
      else Inr b)"

subsection \<open>Tray validation\<close>

definition tray_types :: "string list" where
  "tray_types = [[], ''normal'', ''separator'', ''checkbox'', ''radio'']"

text \<open>\<open>visit\<close>: the items of one level from some point on; the state is the count and the ids seen.\<close>

fun visit_items :: "nat \<Rightarrow> nat \<times> string list \<Rightarrow> trayItem list \<Rightarrow> string + nat \<times> string list" where
  "visit_items depth (cnt, ids) [] = Inr (cnt, ids)"
| "visit_items depth (cnt, ids) (TrayItem i l t e c sub # rest) =
     (if cnt + 1 > 128 then Inl ''tray menu exceeds 128 items''
      else if length l > 512 \<or> length i > 128 then Inl ''tray menu text is too long''
      else if t \<notin> set tray_types then Inl ''unsupported tray menu item type''
      else if i \<noteq> [] \<and> i \<in> set ids then Inl ''tray menu ids must be unique''
      else if depth + 1 > 5 then Inl ''tray menu is too deeply nested''
      else
        (case visit_items (depth + 1) (cnt + 1, if i = [] then ids else i # ids) sub of
           Inl err \<Rightarrow> Inl err
         | Inr st \<Rightarrow> visit_items depth st rest))"

definition validateTray :: "trayOptions \<Rightarrow> string option" where
  "validateTray t =
     (if length (to_Tooltip t) > 1024 \<or> length (to_Title t) > 256 then Some ''tray text is too long''
      else (case visit_items 0 (0, []) (to_Menu t) of Inl e \<Rightarrow> Some e | Inr _ \<Rightarrow> None))"

subsection \<open>The controller\<close>

datatype native_call =
    SetTray trayOptions
  | DestroyTray
  | Balloon string string
  | RegisterKey "32 word" presentationKey
  | UnregisterKey "32 word"
  | ArmDrop dropTargetBounds
  | HideDrop
  | ScreenCall string "any list"

record native_answers =
  na_setTray :: "string option"
  na_balloon :: bool
  na_register :: bool
  na_armDrop :: "string option"
  na_screen :: "string + any"

record controller =
  pc_tray :: "trayOptions option"
  pc_shortcuts :: "(string, 32 word) gomap"
  pc_keys :: "(presentationKey, string) gomap"
  pc_nextID :: "32 word"

definition newController :: controller where
  "newController = \<lparr>pc_tray = None, pc_shortcuts = [], pc_keys = [], pc_nextID = 0\<rparr>"

record command =
  cm_Service :: string
  cm_Method :: string
  cm_Args :: "any list"

type_synonym outcome = "controller \<times> native_call list \<times> (string + any)"

definition presentation_close :: "controller \<Rightarrow> native_call list" where
  "presentation_close p = [HideDrop, DestroyTray] @ map (UnregisterKey \<circ> snd) (pc_shortcuts p)"

definition handle_drop :: "(rat \<Rightarrow> string) \<Rightarrow> native_answers \<Rightarrow> command \<Rightarrow> controller \<Rightarrow> outcome" where
  "handle_drop num_text os c p =
     (if cm_Method c = ''arm'' then
        (case decodePresentationArg num_text (decode_struct bounds_field) (cm_Args c)
                \<lparr>db_ID = [], db_X = 0, db_Y = 0, db_Width = 0, db_Height = 0, db_Scale = 0\<rparr> of
           Inl e \<Rightarrow> (p, [], Inl e)
         | Inr b \<Rightarrow>
             (case validateDropTargetBounds b of
                Some e \<Rightarrow> (p, [], Inl e)
              | None \<Rightarrow> (p, [ArmDrop b], (case na_armDrop os of Some e \<Rightarrow> Inl e | None \<Rightarrow> Inr (BoolV True)))))
      else if cm_Method c = ''disarm'' then (p, [HideDrop], Inr (BoolV True))
      else (p, [], Inl ''unsupported drop-target method''))"

definition register_shortcut :: "native_answers \<Rightarrow> string \<Rightarrow> presentationKey \<Rightarrow> controller \<Rightarrow> outcome" where
  "register_shortcut os accelerator key p =
     (if map_of (pc_keys p) key \<noteq> None then (p, [], Inr (BoolV False))
      else if length (pc_shortcuts p) \<ge> 64 then (p, [], Inl ''an app may register at most 64 shortcuts'')
      else
        (let n = pc_nextID p + 1; p1 = p\<lparr>pc_nextID := n\<rparr> in
         if n > 0xbfff then (p1, [], Inl ''shortcut id limit reached; reconnect the app'')
         else if \<not> na_register os then (p1, [RegisterKey n key], Inr (BoolV False))
         else (p1\<lparr>pc_shortcuts := AList.update accelerator n (pc_shortcuts p1),
                   pc_keys := AList.update key accelerator (pc_keys p1)\<rparr>, [RegisterKey n key], Inr (BoolV True))))"

definition unregister_shortcut :: "presentationKey \<Rightarrow> controller \<Rightarrow> outcome" where
  "unregister_shortcut key p =
     (case map_of (pc_keys p) key of
        None \<Rightarrow> (p, [], Inr (BoolV True))
      | Some original \<Rightarrow>
          (p\<lparr>pc_shortcuts := AList.delete original (pc_shortcuts p), pc_keys := AList.delete key (pc_keys p)\<rparr>,
           [UnregisterKey (case map_of (pc_shortcuts p) original of None \<Rightarrow> 0 | Some n \<Rightarrow> n)], Inr (BoolV True)))"

definition handle_shortcut :: "(rat \<Rightarrow> string) \<Rightarrow> string \<Rightarrow> native_answers \<Rightarrow> command \<Rightarrow> controller \<Rightarrow> outcome" where
  "handle_shortcut num_text platform os c p =
     (if cm_Method c = ''unregisterAll'' then
        (p\<lparr>pc_shortcuts := [], pc_keys := []\<rparr>, map (UnregisterKey \<circ> snd) (pc_shortcuts p), Inr (BoolV True))
      else
        (case decodePresentationArg num_text decode_string (cm_Args c) [] of
           Inl e \<Rightarrow> (p, [], Inl e)
         | Inr accelerator \<Rightarrow>
             (case parsePresentationKey platform accelerator of
                Inl e \<Rightarrow> (p, [], Inl e)
              | Inr key \<Rightarrow>
                  if cm_Method c = ''register'' then register_shortcut os accelerator key p
                  else if cm_Method c = ''unregister'' then unregister_shortcut key p
                  else (p, [], Inl ''unsupported presentation method''))))"

text \<open>The new tray options a tray method asks for.\<close>

definition tray_request :: "(rat \<Rightarrow> string) \<Rightarrow> command \<Rightarrow> trayOptions \<Rightarrow> string + trayOptions" where
  "tray_request num_text c options =
     (if cm_Method c = ''create'' then
        (if cm_Args c = [] then Inr emptyTray
         else decodePresentationArg num_text (decode_struct tray_field) (cm_Args c) emptyTray)
      else if cm_Method c = ''setToolTip'' then
        map_sum id (\<lambda>x. options\<lparr>to_Tooltip := x\<rparr>) (decodePresentationArg num_text decode_string (cm_Args c) (to_Tooltip options))
      else if cm_Method c = ''setTitle'' then
        map_sum id (\<lambda>x. options\<lparr>to_Title := x\<rparr>) (decodePresentationArg num_text decode_string (cm_Args c) (to_Title options))
      else if cm_Method c = ''setMenu'' then
        map_sum id (\<lambda>x. options\<lparr>to_Menu := x\<rparr>) (decodePresentationArg num_text (\<lambda>v _. decode_menu (size v) v) (cm_Args c) [])
      else Inl ''unsupported tray method'')"

definition handle_tray :: "(rat \<Rightarrow> string) \<Rightarrow> native_answers \<Rightarrow> command \<Rightarrow> controller \<Rightarrow> outcome" where
  "handle_tray num_text os c p =
     (if cm_Method c = ''destroy'' then (p\<lparr>pc_tray := None\<rparr>, [DestroyTray], Inr (BoolV True))
      else if cm_Method c = ''displayBalloon'' then
        (case decodePresentationArg num_text (decode_struct balloon_field) (cm_Args c) ([], []) of
           Inl e \<Rightarrow> (p, [], Inl e)
         | Inr (title, content) \<Rightarrow>
             (case pc_tray p of
                None \<Rightarrow> (p, [], Inr (BoolV False))
              | Some _ \<Rightarrow> (p, [Balloon title content], Inr (BoolV (na_balloon os)))))
      else
        (case tray_request num_text c (case pc_tray p of Some t \<Rightarrow> t | None \<Rightarrow> emptyTray) of
           Inl e \<Rightarrow> (p, [], Inl e)
         | Inr options \<Rightarrow>
             (case validateTray options of
                Some e \<Rightarrow> (p, [], Inl e)
              | None \<Rightarrow>
                  if cm_Method c \<noteq> ''create'' \<and> pc_tray p = None then (p, [], Inr (BoolV True))
                  else
                    (case na_setTray os of
                       Some e \<Rightarrow> (p, [SetTray options], Inl e)
                     | None \<Rightarrow> (p\<lparr>pc_tray := Some options\<rparr>, [SetTray options], Inr (BoolV True))))))"

definition presentation_handle :: "(rat \<Rightarrow> string) \<Rightarrow> string \<Rightarrow> native_answers \<Rightarrow> command \<Rightarrow> controller \<Rightarrow> outcome" where
  "presentation_handle num_text platform os c p =
     (if cm_Service c = ''dropTarget'' then handle_drop num_text os c p
      else if cm_Service c = ''screen'' then (p, [ScreenCall (cm_Method c) (cm_Args c)], na_screen os)
      else if cm_Service c = ''globalShortcut'' then handle_shortcut num_text platform os c p
      else if cm_Service c = ''tray'' then handle_tray num_text os c p
      else (p, [], Inl ''unsupported presentation method''))"

definition presentation_hotkey :: "32 word \<Rightarrow> controller \<Rightarrow> string option" where
  "presentation_hotkey i p = map_option fst (find (\<lambda>(_, registered). registered = i) (pc_shortcuts p))"

subsection \<open>Menu clicks\<close>

text \<open>The radio items next to position \<open>i\<close> of a level: the run it belongs to, walked both ways.\<close>

definition in_run :: "trayItem list \<Rightarrow> nat \<Rightarrow> nat \<Rightarrow> bool" where
  "in_run items i j \<longleftrightarrow> (\<forall>k \<in> {min i j..max i j}. k < length items \<and> ti_Type (items ! k) = ''radio'')"

definition set_checked :: "bool \<Rightarrow> trayItem \<Rightarrow> trayItem" where
  "set_checked b item = (case item of TrayItem i l t e c sub \<Rightarrow> TrayItem i l t e b sub)"

definition click_at :: "trayItem list \<Rightarrow> nat \<Rightarrow> trayItem list" where
  "click_at items i =
     (let item = items ! i in
      if ti_Type item = ''checkbox'' then items[i := set_checked (\<not> ti_Checked item) item]
      else if ti_Type item = ''radio'' then
        map (\<lambda>j. if in_run items i j then set_checked (j = i) (items ! j) else items ! j) [0..<length items]
      else items)"

text \<open>\<open>visit\<close> of \<open>menuClick\<close>: the items before the current one, the rest, and the answer: the
  event's checked flag and the level afterwards.\<close>

fun click_visit :: "string \<Rightarrow> trayItem list \<Rightarrow> trayItem list \<Rightarrow> (bool \<times> trayItem list) option" where
  "click_visit i before [] = None"
| "click_visit i before (TrayItem i' l t e c sub # rest) =
     (let item = TrayItem i' l t e c sub; items = before @ item # rest in
      if i' = i \<and> i \<noteq> [] \<and> e \<noteq> Some False then
        (let items' = click_at items (length before) in Some (ti_Checked (items' ! length before), items'))
      else
        (case click_visit i [] sub of
           Some (checked, sub') \<Rightarrow> Some (checked, before @ TrayItem i' l t e c sub' # rest)
         | None \<Rightarrow> click_visit i (before @ [item]) rest))"

definition menuClick :: "string \<Rightarrow> controller \<Rightarrow> controller \<times> (string \<times> bool) option" where
  "menuClick i p =
     (case pc_tray p of
        None \<Rightarrow> (p, None)
      | Some t \<Rightarrow>
          (case click_visit i [] (to_Menu t) of
             None \<Rightarrow> (p, None)
           | Some (checked, menu) \<Rightarrow> (p\<lparr>pc_tray := Some (t\<lparr>to_Menu := menu\<rparr>)\<rparr>, Some (i, checked))))"

end
