(* ===== verification/Presentation_Properties.thy ===== *)
theory Presentation_Properties
  imports Presentation
begin

text \<open>
  What the presentation helper promises: the shortcuts the operating system holds for an app are the
  ones the controller knows, each hotkey leads back to its accelerator and closing frees them all; the
  tray on screen is always a valid one; a click on a radio item checks it and unchecks its neighbours.
\<close>

subsection \<open>Shortcuts and the operating system\<close>

text \<open>The hotkey ids the operating system holds: a successful registration adds one.\<close>

definition native_effect :: "native_answers \<Rightarrow> native_call \<Rightarrow> 32 word set \<Rightarrow> 32 word set" where
  "native_effect os call H =
     (case call of RegisterKey n _ \<Rightarrow> if na_register os then insert n H else H
      | UnregisterKey n \<Rightarrow> H - {n}
      | _ \<Rightarrow> H)"

definition held_after :: "native_answers \<Rightarrow> native_call list \<Rightarrow> 32 word set \<Rightarrow> 32 word set" where
  "held_after os calls H = fold (native_effect os) calls H"

definition presentation_ok :: "string \<Rightarrow> controller \<times> 32 word set \<Rightarrow> bool" where
  "presentation_ok platform s =
     (case s of (p, H) \<Rightarrow>
        distinct (map fst (pc_shortcuts p)) \<and> distinct (map snd (pc_shortcuts p)) \<and> length (pc_shortcuts p) \<le> 64
        \<and> distinct (map fst (pc_keys p))
        \<and> (\<forall>k a. (k, a) \<in> set (pc_keys p) \<longleftrightarrow> a \<in> fst ` set (pc_shortcuts p) \<and> parsePresentationKey platform a = Inr k)
        \<and> (\<forall>a \<in> fst ` set (pc_shortcuts p). \<exists>k. parsePresentationKey platform a = Inr k)
        \<and> (\<forall>n \<in> snd ` set (pc_shortcuts p). n \<le> pc_nextID p)
        \<and> H = snd ` set (pc_shortcuts p)
        \<and> (\<forall>t. pc_tray p = Some t \<longrightarrow> validateTray t = None))"

lemma presentation_okD:
  assumes "presentation_ok platform (p, H)"
  shows "distinct (map fst (pc_shortcuts p))" "distinct (map snd (pc_shortcuts p))" "length (pc_shortcuts p) \<le> 64"
    "distinct (map fst (pc_keys p))"
    "(k, a) \<in> set (pc_keys p) \<longleftrightarrow> a \<in> fst ` set (pc_shortcuts p) \<and> parsePresentationKey platform a = Inr k"
    "a \<in> fst ` set (pc_shortcuts p) \<Longrightarrow> \<exists>k. parsePresentationKey platform a = Inr k"
    "n \<in> snd ` set (pc_shortcuts p) \<Longrightarrow> n \<le> pc_nextID p"
    "H = snd ` set (pc_shortcuts p)" "pc_tray p = Some t \<Longrightarrow> validateTray t = None"
  using assms unfolding presentation_ok_def prod.case by blast+

lemma presentation_okI:
  assumes "distinct (map fst (pc_shortcuts p))" "distinct (map snd (pc_shortcuts p))" "length (pc_shortcuts p) \<le> 64"
    "distinct (map fst (pc_keys p))"
    "\<And>k a. (k, a) \<in> set (pc_keys p) \<longleftrightarrow> a \<in> fst ` set (pc_shortcuts p) \<and> parsePresentationKey platform a = Inr k"
    "\<And>a. a \<in> fst ` set (pc_shortcuts p) \<Longrightarrow> \<exists>k. parsePresentationKey platform a = Inr k"
    "\<And>n. n \<in> snd ` set (pc_shortcuts p) \<Longrightarrow> n \<le> pc_nextID p"
    "H = snd ` set (pc_shortcuts p)" "\<And>t. pc_tray p = Some t \<Longrightarrow> validateTray t = None"
  shows "presentation_ok platform (p, H)"
  using assms unfolding presentation_ok_def prod.case by blast

lemma held_after_simps [simp]:
  "held_after os [] H = H"
  "held_after os (c # cs) H = held_after os cs (native_effect os c H)"
  by (simp_all add: held_after_def)

lemma held_unregister: "held_after os (map (UnregisterKey \<circ> snd) S) H = H - snd ` set S"
  by (induction S arbitrary: H) (auto simp: native_effect_def)

lemma map_of_distinct_iff: "distinct (map fst al) \<Longrightarrow> map_of al k = Some v \<longleftrightarrow> (k, v) \<in> set al"
  by (rule map_of_eq_Some_iff)

lemma register_ok:
  assumes ok: "presentation_ok platform (p, H)" and k: "parsePresentationKey platform a = Inr key"
    and wrap: "unat (pc_nextID p) + 1 < 2 ^ 32" and r: "register_shortcut os a key p = (p', calls, out)"
  shows "presentation_ok platform (p', held_after os calls H)"
proof -
  let ?n = "pc_nextID p + 1"
  have n: "unat ?n = unat (pc_nextID p) + 1" using wrap by (simp add: unat_plus_if')
  then have lt: "pc_nextID p < ?n" by (simp add: word_less_nat_alt)
  note D = presentation_okD [OF ok]
  have fresh: "?n \<notin> snd ` set (pc_shortcuts p)" using D(7) [of ?n] lt by (meson leD)
  have grown: "m \<le> ?n" if "m \<in> snd ` set (pc_shortcuts p)" for m using D(7) [OF that] lt by (meson le_less_trans less_imp_le)
  consider "p' = p" "calls = []" | "p' = p\<lparr>pc_nextID := ?n\<rparr>" "held_after os calls H = H"
    | "map_of (pc_keys p) key = None" "length (pc_shortcuts p) < 64" "na_register os" "calls = [RegisterKey ?n key]"
      "p' = p\<lparr>pc_nextID := ?n, pc_shortcuts := AList.update a ?n (pc_shortcuts p), pc_keys := AList.update key a (pc_keys p)\<rparr>"
    using r by (auto simp: register_shortcut_def Let_def native_effect_def split: if_splits)
  then show ?thesis
  proof cases
    case 1
    then show ?thesis using ok by simp
  next
    case 2
    show ?thesis unfolding 2 by (rule presentation_okI) (use D grown in simp_all)
  next
    case 3
    have key: "key \<notin> fst ` set (pc_keys p)" using 3(1) by (simp add: map_of_eq_None_iff)
    have a: "a \<notin> fst ` set (pc_shortcuts p)"
    proof
      assume "a \<in> fst ` set (pc_shortcuts p)"
      then have "(key, a) \<in> set (pc_keys p)" using D(5) k by blast
      then show False using key by force
    qed
    have S: "pc_shortcuts p' = pc_shortcuts p @ [(a, ?n)]" "pc_keys p' = pc_keys p @ [(key, a)]"
      "pc_nextID p' = ?n" "pc_tray p' = pc_tray p"
      by (simp_all add: 3(5) update_fresh a key)
    have H: "held_after os calls H = insert ?n H" using 3(3,4) by (simp add: native_effect_def)
    show ?thesis
    proof (rule presentation_okI)
      show "(k', b) \<in> set (pc_keys p') \<longleftrightarrow> b \<in> fst ` set (pc_shortcuts p') \<and> parsePresentationKey platform b = Inr k'" for k' b
        using D(5) [of k' b] k by (auto simp: S)
      show "\<exists>k. parsePresentationKey platform b = Inr k" if "b \<in> fst ` set (pc_shortcuts p')" for b
        using that D(6) [of b] k by (cases "b = a") (auto simp: S)
      show "m \<le> pc_nextID p'" if "m \<in> snd ` set (pc_shortcuts p')" for m
        using that grown [of m] by (cases "m = ?n") (auto simp: S)
      show "held_after os calls H = snd ` set (pc_shortcuts p')" unfolding H using D(8) by (simp add: S)
    qed (use D(1,2,3,4,9) fresh a key 3(2) in \<open>simp_all add: S\<close>)
  qed
qed

lemma unregister_ok:
  assumes ok: "presentation_ok platform (p, H)" and r: "unregister_shortcut key p = (p', calls, out)"
  shows "presentation_ok platform (p', held_after os calls H)"
proof (cases "map_of (pc_keys p) key")
  case None
  then show ?thesis using ok r by (auto simp: unregister_shortcut_def)
next
  case (Some a)
  note D = presentation_okD [OF ok]
  have "(key, a) \<in> set (pc_keys p)" by (rule map_of_SomeD [OF Some])
  then have k: "a \<in> fst ` set (pc_shortcuts p)" "parsePresentationKey platform a = Inr key" using D(5) by blast+
  then obtain n where n: "(a, n) \<in> set (pc_shortcuts p)" by auto
  then have m: "map_of (pc_shortcuts p) a = Some n" using D(1) by simp
  have p': "p' = p\<lparr>pc_shortcuts := AList.delete a (pc_shortcuts p), pc_keys := AList.delete key (pc_keys p)\<rparr>"
    and c: "calls = [UnregisterKey n]" using r Some m by (auto simp: unregister_shortcut_def)
  have del: "AList.delete a (pc_shortcuts p) = filter (\<lambda>q. fst q \<noteq> a) (pc_shortcuts p)"
    "AList.delete key (pc_keys p) = filter (\<lambda>q. fst q \<noteq> key) (pc_keys p)"
    by (auto simp: AList.delete_eq intro: filter_cong)
  have uniq: "fst q = a \<longleftrightarrow> snd q = n" if "q \<in> set (pc_shortcuts p)" for q
  proof -
    have "inj_on fst (set (pc_shortcuts p))" "inj_on snd (set (pc_shortcuts p))" using D(1,2) by (simp_all add: distinct_map)
    from this(1) [THEN inj_onD, OF _ that n] this(2) [THEN inj_onD, OF _ that n] show ?thesis by (cases q) auto
  qed
  have ids: "snd ` set (pc_shortcuts p') = H - {n}"
    unfolding D(8) using uniq by (auto simp: p' del image_iff)
  have sub: "set (pc_shortcuts p') \<subseteq> set (pc_shortcuts p)" by (auto simp: p' del)
  show ?thesis
  proof (rule presentation_okI)
    show "(k', b) \<in> set (pc_keys p') \<longleftrightarrow> b \<in> fst ` set (pc_shortcuts p') \<and> parsePresentationKey platform b = Inr k'" for k' b
    proof -
      have acc: "fst ` set (pc_shortcuts p') = fst ` set (pc_shortcuts p) - {a}" by (force simp: p' del)
      have key: "b = a \<longleftrightarrow> k' = key" if "(k', b) \<in> set (pc_keys p)"
      proof
        assume "b = a"
        moreover have "parsePresentationKey platform b = Inr k'" using that D(5) [of k' b] by blast
        ultimately show "k' = key" using k(2) by simp
      next
        assume "k' = key"
        with that have "(key, b) \<in> set (pc_keys p)" by simp
        from eq_key_imp_eq_value [OF D(4) this \<open>(key, a) \<in> set (pc_keys p)\<close>] show "b = a" .
      qed
      have "(k', b) \<in> set (pc_keys p') \<longleftrightarrow> (k', b) \<in> set (pc_keys p) \<and> b \<noteq> a" using key by (auto simp: p' del)
      then show ?thesis unfolding acc using D(5) [of k' b] by blast
    qed
    show "held_after os calls H = snd ` set (pc_shortcuts p')" by (simp add: c ids native_effect_def)
    show "length (pc_shortcuts p') \<le> 64"
      unfolding p' using le_trans [OF length_filter_le [of "\<lambda>q. fst q \<noteq> a"] D(3)] by (simp add: del)
  qed (use D(1,2,4,6,7,9) sub in \<open>auto simp: p' del distinct_map_filter\<close>)
qed

lemma same_shortcuts_ok:
  assumes "presentation_ok platform (p, H)" and "pc_shortcuts p' = pc_shortcuts p" "pc_keys p' = pc_keys p"
    "pc_nextID p' = pc_nextID p" and "\<And>t. pc_tray p' = Some t \<Longrightarrow> validateTray t = None"
  shows "presentation_ok platform (p', H)"
  using assms by (auto simp: presentation_ok_def)

lemma handle_ok:
  assumes ok: "presentation_ok platform (p, H)" and wrap: "unat (pc_nextID p) + 1 < 2 ^ 32"
    and r: "presentation_handle num_text platform os c p = (p', calls, out)"
  shows "presentation_ok platform (p', held_after os calls H) \<and> unat (pc_nextID p') \<le> unat (pc_nextID p) + 1"
proof -
  note D = presentation_okD [OF ok]
  have n: "unat (pc_nextID p + 1) = unat (pc_nextID p) + 1" using wrap by (simp add: unat_plus_if')
  have other: "presentation_ok platform (p', held_after os calls H) \<and> unat (pc_nextID p') \<le> unat (pc_nextID p) + 1"
    if "pc_shortcuts p' = pc_shortcuts p" "pc_keys p' = pc_keys p" "pc_nextID p' = pc_nextID p"
      "held_after os calls H = H" "\<And>t. pc_tray p' = Some t \<Longrightarrow> validateTray t = None"
    using same_shortcuts_ok [OF ok that(1-3,5)] that(3,4) by simp
  show ?thesis
  proof (cases "cm_Service c = ''globalShortcut''")
    case False
    with r show ?thesis
      by (intro other)
        (auto simp: presentation_handle_def handle_drop_def handle_tray_def native_effect_def D(9)
          split: if_splits sum.splits option.splits prod.splits)
  next
    case True
    have all: "presentation_ok platform (p\<lparr>pc_shortcuts := [], pc_keys := []\<rparr>, held_after os (map (UnregisterKey \<circ> snd) (pc_shortcuts p)) H)"
      using D(8,9) by (intro presentation_okI) (auto simp: held_unregister)
    show ?thesis
    proof (cases "\<exists>a key. cm_Method c = ''register'' \<and> parsePresentationKey platform a = Inr key \<and> register_shortcut os a key p = (p', calls, out)")
      case reg: True
      then obtain a key where a: "parsePresentationKey platform a = Inr key" "register_shortcut os a key p = (p', calls, out)" by blast
      then have "unat (pc_nextID p') \<le> unat (pc_nextID p) + 1"
        using n by (auto simp: register_shortcut_def Let_def split: if_splits)
      with register_ok [OF ok a(1) wrap a(2)] show ?thesis by simp
    next
      case False
      consider "p' = p" "calls = []" | "p' = p\<lparr>pc_shortcuts := [], pc_keys := []\<rparr>" "calls = map (UnregisterKey \<circ> snd) (pc_shortcuts p)"
        | key where "unregister_shortcut key p = (p', calls, out)"
        using r True False
        by (auto simp: presentation_handle_def handle_shortcut_def split: if_splits sum.splits)
      then show ?thesis
      proof cases
        case 1
        then show ?thesis using ok by simp
      next
        case 2
        show ?thesis unfolding 2 using all by simp
      next
        case (3 key)
        then have "pc_nextID p' = pc_nextID p" by (auto simp: unregister_shortcut_def split: option.splits)
        with unregister_ok [OF ok 3] show ?thesis by simp
      qed
    qed
  qed
qed

subsection \<open>Menu clicks\<close>

text \<open>A menu with every check mark removed: a click leaves it alone.\<close>

fun bare :: "trayItem \<Rightarrow> trayItem" where
  "bare (TrayItem i l t e c sub) = TrayItem i l t e False (map bare sub)"

lemma bare_set [simp]: "bare (set_checked b item) = bare item"
  by (cases item) (simp add: set_checked_def)

lemma bare_update: "bare (items[i := set_checked b (items ! i)] ! j) = bare (items ! j)"
  by (cases "i < length items"; cases "i = j") (simp_all add: list_update_beyond)

lemma click_at_bare: "map bare (click_at items i) = map bare items"
proof (rule nth_equalityI)
  have len: "length (click_at items i) = length items" by (simp add: click_at_def Let_def)
  then show "length (map bare (click_at items i)) = length (map bare items)" by simp
  fix j
  assume "j < length (map bare (click_at items i))"
  then have "j < length items" by (simp add: len)
  then have "bare (click_at items i ! j) = bare (items ! j)" by (simp add: click_at_def Let_def bare_update)
  with \<open>j < length items\<close> show "map bare (click_at items i) ! j = map bare items ! j" by (simp add: len)
qed

lemma click_visit_bare:
  "click_visit i before items = Some (b, items') \<Longrightarrow> map bare items' = map bare (before @ items)"
proof (induction i before items arbitrary: b items' rule: click_visit.induct)
  case (2 i before i' l t e c sub rest)
  show ?case
  proof (cases "i' = i \<and> i \<noteq> [] \<and> e \<noteq> Some False")
    case True
    with "2.prems" have "items' = click_at (before @ TrayItem i' l t e c sub # rest) (length before)"
      by (simp add: Let_def)
    then show ?thesis by (simp only: click_at_bare)
  next
    case False
    show ?thesis
    proof (cases "click_visit i [] sub")
      case None
      with "2.IH"(2) [OF refl refl False None] "2.prems" False show ?thesis by (auto simp: Let_def)
    next
      case (Some x)
      with "2.IH"(1) [OF refl refl False] "2.prems" False show ?thesis by (cases x) (auto simp: Let_def)
    qed
  qed
qed simp

lemma visit_bare: "visit_items depth st items = visit_items depth st (map bare items)"
  by (induction depth st items rule: visit_items.induct) (auto split: sum.split)

lemma menuClick_ok:
  assumes "presentation_ok platform (p, H)" and "menuClick i p = (p', r)"
  shows "presentation_ok platform (p', H) \<and> pc_nextID p' = pc_nextID p"
proof (cases "p' = p")
  case True
  then show ?thesis using assms by simp
next
  case False
  then obtain t checked menu where t: "pc_tray p = Some t" and c: "click_visit i [] (to_Menu t) = Some (checked, menu)"
    and p': "p' = p\<lparr>pc_tray := Some (t\<lparr>to_Menu := menu\<rparr>)\<rparr>"
    using assms(2) by (auto simp: menuClick_def split: option.splits prod.splits)
  have "map bare menu = map bare (to_Menu t)" using click_visit_bare [OF c] by simp
  then have "visit_items 0 (0, []) menu = visit_items 0 (0, []) (to_Menu t)" using visit_bare by metis
  then have "validateTray (t\<lparr>to_Menu := menu\<rparr>) = validateTray t" by (simp add: validateTray_def)
  then show ?thesis
    using presentation_okD(9) [OF assms(1) t] p' by (intro conjI same_shortcuts_ok [OF assms(1)]) auto
qed

lemma find_distinct_snd:
  "distinct (map snd al) \<Longrightarrow> (a, n) \<in> set al \<Longrightarrow> find (\<lambda>(_, m). m = n) al = Some (a, n)"
  by (induction al) (force split: if_splits)+

subsection \<open>Runs\<close>

datatype presentation_event = Command native_answers command | MenuClick string

fun presentation_step :: "(rat \<Rightarrow> string) \<Rightarrow> string \<Rightarrow> controller \<times> 32 word set \<Rightarrow> presentation_event \<Rightarrow> controller \<times> 32 word set" where
  "presentation_step num_text platform (p, H) (Command os c) =
     (case presentation_handle num_text platform os c p of (p', calls, _) \<Rightarrow> (p', held_after os calls H))"
| "presentation_step num_text platform (p, H) (MenuClick i) = (fst (menuClick i p), H)"

lemma presentation_run_ok:
  assumes "presentation_ok platform s" and "unat (pc_nextID (fst s)) + length es < 2 ^ 32"
  shows "presentation_ok platform (foldl (presentation_step num_text platform) s es)"
  using assms
proof (induction es arbitrary: s)
  case (Cons e es)
  obtain p H where s: "s = (p, H)" by (rule prod.exhaust)
  let ?s' = "presentation_step num_text platform s e"
  have "presentation_ok platform ?s' \<and> unat (pc_nextID (fst ?s')) \<le> unat (pc_nextID p) + 1"
  proof (cases e)
    case (Command os c)
    obtain p' calls out where h: "presentation_handle num_text platform os c p = (p', calls, out)" by (metis prod_cases3)
    show ?thesis using handle_ok [OF _ _ h, of H] Cons.prems by (simp add: s Command h)
  next
    case (MenuClick i)
    obtain p' r where h: "menuClick i p = (p', r)" by (rule prod.exhaust)
    show ?thesis using menuClick_ok [OF _ h, of platform H] Cons.prems by (simp add: s MenuClick h)
  qed
  with Cons show ?case by (simp add: s)
qed simp

text \<open>
  C11: After any fewer than 2^32 commands and clicks, whatever the operating system answered, the hotkey
  ids it holds for the app are exactly those of the controller's shortcuts, at most 64 of them; each one
  leads back to its accelerator; the tray on screen is a valid one; and closing the app frees every id.
\<close>

theorem shortcuts_match_the_system:
  assumes "length es < 2 ^ 32"
    and "foldl (presentation_step num_text platform) (newController, {}) es = (p, H)"
  shows "H = snd ` set (pc_shortcuts p) \<and> card H \<le> 64
    \<and> (\<forall>a n. map_of (pc_shortcuts p) a = Some n \<longrightarrow> presentation_hotkey n p = Some a)
    \<and> (\<forall>t. pc_tray p = Some t \<longrightarrow> validateTray t = None)
    \<and> held_after os (presentation_close p) H = {}"
proof -
  have "presentation_ok platform (newController, {})" by (rule presentation_okI) (simp_all add: newController_def)
  from presentation_run_ok [OF this, of es num_text] assms have ok: "presentation_ok platform (p, H)"
    by (simp add: newController_def)
  note D = presentation_okD [OF ok]
  have card: "card H \<le> 64"
    unfolding D(8) using D(3) card_length [of "map snd (pc_shortcuts p)"] by simp
  have hot: "presentation_hotkey n p = Some a" if "map_of (pc_shortcuts p) a = Some n" for a n
    using find_distinct_snd [OF D(2) map_of_SomeD [OF that]] by (simp add: presentation_hotkey_def)
  show ?thesis using D(8,9) card hot by (simp add: presentation_close_def held_unregister native_effect_def)
qed

definition sample_answers :: native_answers where
  "sample_answers = \<lparr>na_setTray = None, na_balloon = True, na_register = True, na_armDrop = None, na_screen = Inr NilV\<rparr>"

definition sample_shortcut :: "string \<Rightarrow> presentation_event" where
  "sample_shortcut a = Command sample_answers \<lparr>cm_Service = ''globalShortcut'', cm_Method = ''register'', cm_Args = [StrV a]\<rparr>"

theorem shortcuts_match_the_system_witness:
  "\<exists>p H. foldl (presentation_step (\<lambda>_. []) ''linux'') (newController, {}) [sample_shortcut ''Ctrl+F5'', sample_shortcut ''Alt+x''] = (p, H)
     \<and> H = snd ` set (pc_shortcuts p) \<and> card H \<le> 64 \<and> held_after sample_answers (presentation_close p) H = {}"
proof -
  let ?es = "[sample_shortcut ''Ctrl+F5'', sample_shortcut ''Alt+x'']"
  obtain p H where r: "foldl (presentation_step (\<lambda>_. []) ''linux'') (newController, {}) ?es = (p, H)" by (rule prod.exhaust)
  have "length ?es < 2 ^ 32" by simp
  from shortcuts_match_the_system [OF this r, of sample_answers] r show ?thesis by blast
qed

subsection \<open>Ids and clicks\<close>

text \<open>The ids of a menu, top to bottom.\<close>

fun item_ids :: "trayItem \<Rightarrow> string list" where
  "item_ids (TrayItem i l t e c sub) = (if i = [] then [] else [i]) @ concat (map item_ids sub)"

definition menu_ids :: "trayItem list \<Rightarrow> string list" where
  "menu_ids items = concat (map item_ids items)"

lemma visit_ids:
  "visit_items depth st items = Inr st' \<Longrightarrow> distinct (snd st) \<Longrightarrow>
     set (snd st') = set (menu_ids items) \<union> set (snd st) \<and> distinct (menu_ids items) \<and> set (menu_ids items) \<inter> set (snd st) = {}
     \<and> distinct (snd st')"
proof (induction depth st items arbitrary: st' rule: visit_items.induct)
  case (2 depth cnt ids i l t e c sub rest)
  let ?ids = "if i = [] then ids else i # ids"
  from "2.prems"(1) obtain st1 where g: "\<not> cnt + 1 > 128" "\<not> (length l > 512 \<or> length i > 128)" "t \<in> set tray_types"
      "\<not> (i \<noteq> [] \<and> i \<in> set ids)" "\<not> depth + 1 > 5"
    and v: "visit_items (depth + 1) (cnt + 1, ?ids) sub = Inr st1" "visit_items depth st1 rest = Inr st'"
    by (auto split: if_splits sum.splits)
  have d: "distinct (snd (cnt + 1, ?ids))" using g(4) "2.prems"(2) by auto
  have s: "set (snd st1) = set (menu_ids sub) \<union> set ?ids \<and> distinct (menu_ids sub) \<and> set (menu_ids sub) \<inter> set ?ids = {} \<and> distinct (snd st1)"
    using "2.IH"(1) [OF g(1,2) _ g(4,5) v(1) d] g(3) by auto
  have r: "set (snd st') = set (menu_ids rest) \<union> set (snd st1) \<and> distinct (menu_ids rest) \<and> set (menu_ids rest) \<inter> set (snd st1) = {}
     \<and> distinct (snd st')"
    using "2.IH"(2) [OF g(1,2) _ g(4,5) v(1) v(2)] g(3) s by auto
  show ?case using s r g(4) by (cases "i = []") (auto simp: menu_ids_def)
qed (auto simp: menu_ids_def)

lemma click_visit_none: "i \<notin> set (menu_ids items) \<Longrightarrow> click_visit i before items = None"
proof (induction i before items rule: click_visit.induct)
  case (2 i before i' l t e c sub rest)
  then show ?case by (auto simp: menu_ids_def Let_def split: if_splits)
qed simp

lemma click_visit_skip:
  "i \<notin> set (menu_ids items) \<Longrightarrow> click_visit i before (items @ rest) = click_visit i (before @ items) rest"
proof (induction items arbitrary: before)
  case (Cons item items)
  obtain i' l t e c sub where item: "item = TrayItem i' l t e c sub" by (cases item)
  have "i \<notin> set (menu_ids sub)" "i' \<noteq> i \<or> i = []" using Cons.prems by (auto simp: item menu_ids_def split: if_splits)
  then have "click_visit i before (item # items @ rest) = click_visit i (before @ [item]) (items @ rest)"
    using click_visit_none [of i sub "[]"] by (auto simp: item Let_def)
  with Cons show ?case by (simp add: menu_ids_def)
qed simp

text \<open>
  A click on an enabled radio item of a valid tray's top level is answered as checked, checks that
  item and unchecks exactly the other items of its unbroken run of radio items; every item outside the
  run, every other part of the tray and its validity stay as they were.
\<close>

theorem radio_click_is_exclusive:
  assumes t: "pc_tray p = Some t" "validateTray t = None" and k: "k < length (to_Menu t)"
    and item: "ti_ID (to_Menu t ! k) = i" "i \<noteq> []" "ti_Type (to_Menu t ! k) = ''radio''" "ti_Enabled (to_Menu t ! k) \<noteq> Some False"
    and r: "menuClick i p = (p', out)"
  shows "out = Some (i, True) \<and> (\<exists>menu. p' = p\<lparr>pc_tray := Some (t\<lparr>to_Menu := menu\<rparr>)\<rparr> \<and> length menu = length (to_Menu t)
      \<and> validateTray (t\<lparr>to_Menu := menu\<rparr>) = None
      \<and> (\<forall>j < length menu. menu ! j = (if in_run (to_Menu t) k j then set_checked (j = k) (to_Menu t ! j) else to_Menu t ! j)))"
proof -
  let ?m = "to_Menu t"
  obtain st where "visit_items 0 (0, []) ?m = Inr st"
    using t(2) by (auto simp: validateTray_def split: if_splits sum.splits)
  from visit_ids [OF this] have dist: "distinct (menu_ids ?m)" by simp
  have m: "?m = take k ?m @ ?m ! k # drop (Suc k) ?m" using k by (rule id_take_nth_drop)
  obtain l ty e c sub where it: "?m ! k = TrayItem i l ty e c sub" using item(1) by (cases "?m ! k") auto
  have "distinct (menu_ids (take k ?m) @ menu_ids (?m ! k # drop (Suc k) ?m))"
    using dist by (subst (asm) m) (simp add: menu_ids_def)
  then have skip: "i \<notin> set (menu_ids (take k ?m))" using item(2) by (auto simp: it menu_ids_def)
  let ?new = "click_at ?m k"
  have ty: "ty = ''radio''" "e \<noteq> Some False" using item(3,4) by (simp_all add: it)
  have new: "?new = map (\<lambda>j. if in_run ?m k j then set_checked (j = k) (?m ! j) else ?m ! j) [0..<length ?m]"
    using item(3) by (simp add: click_at_def)
  have self: "in_run ?m k k" using k item(3) by (simp add: in_run_def)
  have "click_visit i [] ?m = click_visit i (take k ?m) (?m ! k # drop (Suc k) ?m)"
    by (subst m) (simp only: click_visit_skip [OF skip] append_Nil)
  also have "\<dots> = Some (ti_Checked (?new ! k), ?new)"
  proof -
    have "take k ?m @ TrayItem i l ty e c sub # drop (Suc k) ?m = ?m" using m it by simp
    then show ?thesis using item(2) ty(2) k by (simp add: it Let_def)
  qed
  also have "ti_Checked (?new ! k) = True" using k self by (cases "?m ! k") (simp add: new set_checked_def)
  finally have c: "click_visit i [] ?m = Some (True, ?new)" .
  have "visit_items 0 (0, []) ?new = visit_items 0 (0, []) ?m" using visit_bare click_at_bare by metis
  then have "validateTray (t\<lparr>to_Menu := ?new\<rparr>) = validateTray t" by (simp add: validateTray_def)
  with t(2) have "validateTray (t\<lparr>to_Menu := ?new\<rparr>) = None" by simp
  then show ?thesis using r c t(1) by (auto simp: menuClick_def new intro!: exI [of _ ?new])
qed

definition sample_menu :: "trayItem list" where
  "sample_menu = [TrayItem ''a'' ''A'' ''radio'' None True [], TrayItem ''b'' ''B'' ''radio'' None False []]"

theorem radio_click_is_exclusive_witness:
  "snd (menuClick ''b'' (newController\<lparr>pc_tray := Some (emptyTray\<lparr>to_Menu := sample_menu\<rparr>)\<rparr>)) = Some (''b'', True)"
proof -
  let ?t = "emptyTray\<lparr>to_Menu := sample_menu\<rparr>"
  let ?p = "newController\<lparr>pc_tray := Some ?t\<rparr>"
  obtain p' out where r: "menuClick ''b'' ?p = (p', out)" by (rule prod.exhaust)
  have v: "validateTray ?t = None" by code_simp
  from radio_click_is_exclusive [OF _ v _ _ _ _ _ r, of 1] r show ?thesis by (simp add: sample_menu_def)
qed

end
