(* ===== verification/Bridges.thy ===== *)
theory Bridges
  imports Frames
begin

text \<open>
  Network bridges (\<open>shellagent/network_bridge.go\<close>) and the update gate they share with the updater
  (\<open>shellagent/agent.go\<close>): the tables of open connections, the requests that open, use and close
  them, the goroutines that forward them, and the lock that keeps an update and an opening bridge apart.
  A connection and a carrier are numbers; a bridge table is numbered and holds its bridges by id.
\<close>

subsection \<open>The tables\<close>

record bridgeRecord =
  br_connection :: nat
  br_carrier :: nat
  br_protocol :: string
  br_mode :: string

record net =
  nt_items :: "(nat \<times> string, bridgeRecord) gomap"
  nt_counted :: "nat list"
  nt_active :: int
  nt_counter :: nat
  nt_fresh :: nat
  nt_open :: "nat set"
  nt_pending :: "bool option"

text \<open>\<open>nt_counted\<close> lists the tables made with the counter of active bridges; \<open>nt_counter\<close> is the last
  bridge number, \<open>nt_fresh\<close> the next connection, \<open>nt_open\<close> the connections that are open;
  \<open>nt_pending\<close> is the pending update, with whether it ignored active bridges.\<close>

definition protocol_of :: "string \<Rightarrow> string" where
  "protocol_of i = fst (cut_on (CHR ''_'') i)"

definition bridge_put :: "nat \<Rightarrow> string \<Rightarrow> nat \<Rightarrow> nat \<Rightarrow> net \<Rightarrow> net" where
  "bridge_put t i connection carrier n =
     n\<lparr>nt_items := AList.update (t, i)
        \<lparr>br_connection = connection, br_carrier = carrier, br_protocol = protocol_of i, br_mode = []\<rparr> (nt_items n)\<rparr>"

definition bridge_count :: "nat \<Rightarrow> int \<Rightarrow> net \<Rightarrow> net" where
  "bridge_count t k n = (if t \<in> set (nt_counted n) then n\<lparr>nt_active := nt_active n + k\<rparr> else n)"

definition bridge_get :: "nat \<Rightarrow> string \<Rightarrow> net \<Rightarrow> nat option" where
  "bridge_get t i n = map_option br_connection (map_of (nt_items n) (t, i))"

definition bridge_bind :: "nat \<Rightarrow> string \<Rightarrow> nat \<Rightarrow> string \<Rightarrow> net \<Rightarrow> (net \<times> bool)" where
  "bridge_bind t i carrier mode n =
     (case map_of (nt_items n) (t, i) of
        Some r \<Rightarrow> (n\<lparr>nt_items := AList.update (t, i) (r\<lparr>br_carrier := carrier, br_mode := mode\<rparr>) (nt_items n)\<rparr>, True)
      | None \<Rightarrow> (n, False))"

definition bridge_bindDatagrams :: "nat \<Rightarrow> string \<Rightarrow> net \<Rightarrow> (net \<times> bool)" where
  "bridge_bindDatagrams t i n =
     (case map_of (nt_items n) (t, i) of
        Some r \<Rightarrow>
          if br_protocol r = ''udp''
          then (n\<lparr>nt_items := AList.update (t, i) (r\<lparr>br_mode := ''datagram''\<rparr>) (nt_items n)\<rparr>, True)
          else (n, False)
      | None \<Rightarrow> (n, False))"

definition bridge_delivery :: "nat \<Rightarrow> string \<Rightarrow> net \<Rightarrow> (nat \<times> string) option" where
  "bridge_delivery t i n = map_option (\<lambda>r. (br_carrier r, br_mode r)) (map_of (nt_items n) (t, i))"

definition bridge_take :: "nat \<Rightarrow> string \<Rightarrow> net \<Rightarrow> net \<times> nat option" where
  "bridge_take t i n =
     (case map_of (nt_items n) (t, i) of
        None \<Rightarrow> (n, None)
      | Some r \<Rightarrow> (bridge_count t (- 1) (n\<lparr>nt_items := AList.delete (t, i) (nt_items n)\<rparr>), Some (br_connection r)))"

definition table_items :: "nat \<Rightarrow> net \<Rightarrow> bridgeRecord list" where
  "table_items t n = map snd (filter (\<lambda>((t', _), _). t' = t) (nt_items n))"

text \<open>\<open>closeAll\<close>, first part: the connections that were in the table, and the emptied table.\<close>

definition bridge_clear :: "nat \<Rightarrow> net \<Rightarrow> net \<times> nat list" where
  "bridge_clear t n =
     (n\<lparr>nt_items := filter (\<lambda>((t', _), _). t' \<noteq> t) (nt_items n)\<rparr>, map br_connection (table_items t n))"

definition close_connections :: "nat list \<Rightarrow> net \<Rightarrow> net" where
  "close_connections cs n = n\<lparr>nt_open := nt_open n - set cs\<rparr>"

subsection \<open>The update gate\<close>

definition lockBridgeOpen :: "net \<Rightarrow> bool" where
  "lockBridgeOpen n \<longleftrightarrow> nt_pending n = None"

definition tryBeginUpdate :: "bool \<Rightarrow> net \<Rightarrow> net \<times> bool" where
  "tryBeginUpdate ignore n =
     (if nt_pending n \<noteq> None \<or> (\<not> ignore \<and> nt_active n \<noteq> 0) then (n, False)
      else (n\<lparr>nt_pending := Some ignore\<rparr>, True))"

definition cancelUpdate :: "net \<Rightarrow> net" where
  "cancelUpdate n = n\<lparr>nt_pending := None\<rparr>"

definition ActiveBridges :: "net \<Rightarrow> nat" where
  "ActiveBridges n = (if nt_active n < 0 then 0 else nat (nt_active n))"

subsection \<open>Requests\<close>

definition net_open_ok :: "message \<Rightarrow> bool" where
  "net_open_ok r \<longleftrightarrow>
     (let p = protocolString (m_Protocol r) in
      \<not> (m_ID r = [] \<or> (p \<noteq> ''tcp'' \<and> p \<noteq> ''udp'' \<and> p \<noteq> ''rdp'') \<or> trim_space (m_Host r) = []
         \<or> m_Port r < 1 \<or> m_Port r > 65535 \<or> m_LocalPort r < 0 \<or> m_LocalPort r > 65535
         \<or> (m_LocalPort r \<noteq> 0 \<and> p \<noteq> ''udp'')))"

text \<open>A goroutine and where it is. The numbers are its table and, after the bridge id, its connection
  or carrier. From \<open>Dialing\<close> to its end an opening request holds the update lock for reading.\<close>

datatype thread =
    Opening nat string nat
  | Dialing nat string nat
  | Dialed nat string nat nat
  | Inserted nat string nat nat
  | Answering nat string nat nat
  | AnswerFailed nat string
  | Forwarding nat string nat
  | HasRead nat string nat
  | Delivering nat string nat string
  | ReadEnded nat string
  | Writing nat string nat
  | WriteFailed nat string
  | Channel nat string
  | ChannelEnding nat string
  | ClosingAll nat
  | ClosingConnections nat int "nat list"
  | Finished
  | Crashed

definition holds_lock :: "thread \<Rightarrow> bool" where
  "holds_lock t \<longleftrightarrow>
     (case t of Dialing _ _ _ \<Rightarrow> True | Dialed _ _ _ _ \<Rightarrow> True | Inserted _ _ _ _ \<Rightarrow> True
      | Answering _ _ _ _ \<Rightarrow> True | AnswerFailed _ _ \<Rightarrow> True | _ \<Rightarrow> False)"

text \<open>What a frame starts: a reply at once, or a goroutine (the frame loop's own step is one too). The
  raw channel's bind message is \<open>handleReliableChannel\<close> up to its loop.\<close>

definition handleNetwork :: "nat \<Rightarrow> nat \<Rightarrow> message \<Rightarrow> bytes \<Rightarrow> net \<Rightarrow> reply + thread" where
  "handleNetwork t carrier r body n =
     (if m_Action r = ''open'' then
        (if \<not> net_open_ok r then Inl (NetError (m_ID r) ''Remote network request is invalid'')
         else Inr (Opening t (protocolString (m_Protocol r)) carrier))
      else if m_Action r = ''data'' then
        (case bridge_get t (m_BridgeID r) n of
           None \<Rightarrow> Inr Finished
         | Some c \<Rightarrow> Inr (if body = [] then Finished else Writing t (m_BridgeID r) c))
      else if m_Action r = ''close'' then Inr (ChannelEnding t (m_BridgeID r))
      else Inl (NetError (m_ID r) ''Remote network request is invalid''))"

definition handleReliableChannel_bind :: "nat \<Rightarrow> nat \<Rightarrow> message \<Rightarrow> bool \<Rightarrow> net \<Rightarrow> net \<times> thread" where
  "handleReliableChannel_bind t carrier bind_message raw_capable n =
     (if m_Type bind_message \<noteq> ''channel'' \<or> m_Action bind_message \<noteq> ''bind'' \<or> protocolNumber (m_Protocol bind_message) \<noteq> 2
         \<or> m_Kind bind_message = ''fs'' \<or> (m_Mode bind_message = ''raw'' \<and> \<not> raw_capable)
      then (n, Finished)
      else
        (case bridge_bind t (m_BridgeID bind_message) carrier (if m_Mode bind_message = ''raw'' then ''raw'' else []) n of
           (n1, True) \<Rightarrow> (n1, Channel t (m_BridgeID bind_message))
         | (n1, False) \<Rightarrow> (n1, Finished)))"

text \<open>\<open>bridges.take(id).Close()\<close>: closing the nil interface panics.\<close>

definition take_and_close :: "nat \<Rightarrow> string \<Rightarrow> net \<Rightarrow> net \<times> thread" where
  "take_and_close t i n =
     (case bridge_take t i n of
        (n1, Some c) \<Rightarrow> (close_connections [c] n1, Finished)
      | (n1, None) \<Rightarrow> (n1, Crashed))"

text \<open>An opening request that finds an update pending is refused with \<open>The agent is preparing an
  update\<close>; the replies of goroutines are not kept. One step of a goroutine; \<open>ok\<close> is the answer of the connection or carrier it uses. The result:
  the state, the goroutine after it, and the goroutine it started.\<close>

fun thread_step :: "bool \<Rightarrow> thread \<Rightarrow> net \<Rightarrow> (net \<times> thread \<times> thread list) option" where
  "thread_step ok (Opening t p carrier) n =
     Some (n, if lockBridgeOpen n then Dialing t p carrier else Finished, [])"
| "thread_step ok (Dialing t p carrier) n =
     Some (if ok then (n\<lparr>nt_fresh := nt_fresh n + 1, nt_open := insert (nt_fresh n) (nt_open n)\<rparr>,
                       Dialed t p carrier (nt_fresh n), [])
           else (n, Finished, []))"
| "thread_step ok (Dialed t p carrier c) n =
     (let k = nt_counter n + 1; i = p @ ''_'' @ fmt_uint 10 k in
      Some (bridge_put t i c carrier (n\<lparr>nt_counter := k\<rparr>), Inserted t i carrier c, []))"
| "thread_step ok (Inserted t i carrier c) n = Some (bridge_count t 1 n, Answering t i carrier c, [])"
| "thread_step ok (Answering t i carrier c) n =
     Some (if ok then (n, Finished, [Forwarding t i c]) else (n, AnswerFailed t i, []))"
| "thread_step ok (AnswerFailed t i) n = (case take_and_close t i n of (n1, th) \<Rightarrow> Some (n1, th, []))"
| "thread_step ok (Forwarding t i c) n = Some (n, if ok then HasRead t i c else ReadEnded t i, [])"
| "thread_step ok (HasRead t i c) n =
     Some (n, (case bridge_delivery t i n of None \<Rightarrow> Finished | Some (carrier, mode) \<Rightarrow> Delivering t i c mode), [])"
| "thread_step ok (Delivering t i c mode) n =
     Some (n, if mode = ''raw'' \<and> \<not> ok then WriteFailed t i else Forwarding t i c, [])"
| "thread_step ok (ReadEnded t i) n = Some (fst (bridge_take t i n), Finished, [])"
| "thread_step ok (Writing t i c) n = Some (n, if ok then Finished else WriteFailed t i, [])"
| "thread_step ok (WriteFailed t i) n = (case take_and_close t i n of (n1, th) \<Rightarrow> Some (n1, th, []))"
| "thread_step ok (Channel t i) n = Some (n, if ok then Channel t i else ChannelEnding t i, [])"
| "thread_step ok (ChannelEnding t i) n =
     (case bridge_take t i n of
        (n1, None) \<Rightarrow> Some (n1, Finished, [])
      | (n1, Some c) \<Rightarrow> Some (close_connections [c] n1, Finished, []))"
| "thread_step ok (ClosingAll t) n =
     (case bridge_clear t n of (n1, cs) \<Rightarrow> Some (n1, ClosingConnections t (int (length cs)) cs, []))"
| "thread_step ok (ClosingConnections t k cs) n =
     Some (close_connections cs (if k > 0 then bridge_count t (- k) n else n), Finished, [])"
| "thread_step ok Finished n = None"
| "thread_step ok Crashed n = None"

subsection \<open>The agent\<close>

datatype net_action =
    Run nat bool
  | Frame nat nat message bytes
  | Bind nat nat message bool
  | BindDatagrams nat string
  | SocketEnd nat
  | BeginUpdate bool
  | CancelUpdate

type_synonym net_system = "net \<times> thread list"

fun net_act :: "net_action \<Rightarrow> net_system \<Rightarrow> net_system option" where
  "net_act (Run k ok) (n, ts) =
     (if k < length ts
      then (case thread_step ok (ts ! k) n of None \<Rightarrow> None | Some (n1, th, new) \<Rightarrow> Some (n1, ts[k := th] @ new))
      else None)"
| "net_act (Frame t carrier r body) (n, ts) =
     (case handleNetwork t carrier r body n of Inl _ \<Rightarrow> Some (n, ts) | Inr th \<Rightarrow> Some (n, ts @ [th]))"
| "net_act (Bind t carrier r raw_capable) (n, ts) =
     (case handleReliableChannel_bind t carrier r raw_capable n of (n1, th) \<Rightarrow> Some (n1, ts @ [th]))"
| "net_act (BindDatagrams t i) (n, ts) = Some (fst (bridge_bindDatagrams t i n), ts)"
| "net_act (SocketEnd t) (n, ts) = Some (n, ts @ [ClosingAll t])"
| "net_act (BeginUpdate ignore) (n, ts) =
     (if list_all (\<lambda>th. \<not> holds_lock th) ts then Some (fst (tryBeginUpdate ignore n), ts) else None)"
| "net_act CancelUpdate (n, ts) = Some (cancelUpdate n, ts)"

text \<open>The start: no bridge, no goroutine. Only the tables the code makes with the counter are counted.\<close>

definition net_init :: "net_system \<Rightarrow> bool" where
  "net_init s \<longleftrightarrow>
     nt_items (fst s) = [] \<and> nt_active (fst s) = 0 \<and> nt_open (fst s) = {} \<and> nt_pending (fst s) = None \<and> snd s = []"

end
