(* ===== verification/Bridge_Properties.thy ===== *)
theory Bridge_Properties
  imports Bridges
begin

text \<open>
  What the bridge tables and the update gate promise under every interleaving of the goroutines: the
  counter of active bridges is exact whenever nothing is in flight, a pending update that waited for the
  bridges sees none and none opens meanwhile; and how two goroutines that give up on one bridge crash
  the agent.
\<close>

subsection \<open>The counter\<close>

definition is_counted :: "net \<Rightarrow> nat \<Rightarrow> bool" where
  "is_counted n t \<longleftrightarrow> t \<in> set (nt_counted n)"

definition counted_items :: "net \<Rightarrow> int" where
  "counted_items n = int (length (filter (\<lambda>((t, _), _). is_counted n t) (nt_items n)))"

text \<open>What a goroutine in flight still has to add to the counter.\<close>

definition owed :: "net \<Rightarrow> thread \<Rightarrow> int" where
  "owed n th =
     (case th of
        Inserted t _ _ _ \<Rightarrow> if is_counted n t then 1 else 0
      | ClosingConnections t k _ \<Rightarrow> if is_counted n t \<and> k > 0 then - k else 0
      | _ \<Rightarrow> 0)"

definition keys_ok :: "net \<Rightarrow> bool" where
  "keys_ok n \<longleftrightarrow> distinct (map fst (nt_items n)) \<and>
     (\<forall>q \<in> set (nt_items n). \<exists>p k. snd (fst q) = p @ ''_'' @ fmt_uint 10 k \<and> k \<le> nt_counter n)"

lemma fmt_uint_digits: "CHR ''_'' \<notin> set (fmt_uint 10 n)"
proof (induction n rule: less_induct)
  case (less n)
  have d: "digit_char m \<noteq> CHR ''_''" if "m < 10" for m
    using that by (auto simp: digit_char_def dest!: arg_cong [where f = "of_char :: char \<Rightarrow> nat"] simp: of_char_char_of_small)
  show ?case
  proof (cases "n < 10")
    case True
    then show ?thesis using d [OF True] by (subst fmt_uint.simps) auto
  next
    case False
    then show ?thesis using less [of "n div 10"] d [of "n mod 10"] by (subst fmt_uint.simps) auto
  qed
qed

lemma bridge_id_inj:
  assumes "p @ ''_'' @ fmt_uint 10 j = q @ ''_'' @ fmt_uint 10 k"
  shows "j = k"
proof -
  have last: "rev (takeWhile (\<lambda>c. c \<noteq> CHR ''_'') (rev (r @ ''_'' @ fmt_uint 10 m))) = fmt_uint 10 m" for r m
  proof -
    have "\<And>c. c \<in> set (rev (fmt_uint 10 m)) \<Longrightarrow> c \<noteq> CHR ''_''" using fmt_uint_digits [of m] by auto
    then show ?thesis by (simp add: takeWhile_append)
  qed
  have "fmt_uint 10 j = fmt_uint 10 k" using last [of p j, unfolded assms] last [of q k] by (rule trans [OF sym])
  then show ?thesis using fmt_uint_inj [of 10] by simp
qed

lemma delete_new: "k \<notin> fst ` set al \<Longrightarrow> AList.delete k al = al"
  by (induction al) auto

lemma filter_delete_length:
  "distinct (map fst al) \<Longrightarrow> map_of al k = Some v \<Longrightarrow>
     int (length (filter P (AList.delete k al))) = int (length (filter P al)) - (if P (k, v) then 1 else 0)"
proof (induction al)
  case (Cons q al)
  show ?case
  proof (cases "fst q = k")
    case True
    with Cons.prems(1) have "AList.delete k al = al" by (intro delete_new) auto
    then show ?thesis using True Cons.prems(2) by (cases q) auto
  next
    case False
    then show ?thesis using Cons by (cases q) auto
  qed
qed simp

lemma update_new: "k \<notin> fst ` set al \<Longrightarrow> AList.update k v al = al @ [(k, v)]"
  by (induction al) auto

lemma delete_keys: "q \<in> set (AList.delete k al) \<Longrightarrow> q \<in> set al"
  by (auto simp: AList.delete_eq)

lemma map_of_In: "map_of al k = Some v \<Longrightarrow> (k, v) \<in> set al"
  by (rule map_of_SomeD)

lemma count_simps [simp]:
  "nt_items (bridge_count t k n) = nt_items n" "nt_counter (bridge_count t k n) = nt_counter n"
  "nt_counted (bridge_count t k n) = nt_counted n" "nt_pending (bridge_count t k n) = nt_pending n"
  "nt_active (bridge_count t k n) = nt_active n + (if is_counted n t then k else 0)"
  by (simp_all add: bridge_count_def is_counted_def)

lemma close_simps [simp]:
  "nt_items (close_connections cs n) = nt_items n" "nt_counter (close_connections cs n) = nt_counter n"
  "nt_counted (close_connections cs n) = nt_counted n" "nt_pending (close_connections cs n) = nt_pending n"
  "nt_active (close_connections cs n) = nt_active n"
  by (simp_all add: close_connections_def)

text \<open>The balance of the counter with one goroutine's debt.\<close>

definition balance :: "net \<Rightarrow> thread \<Rightarrow> int" where
  "balance n th = nt_active n + owed n th - counted_items n"

definition fits :: "net \<Rightarrow> net \<Rightarrow> bool" where
  "fits n n' \<longleftrightarrow> nt_counted n' = nt_counted n \<and> nt_pending n' = nt_pending n \<and> keys_ok n'"

lemma take_fits:
  assumes "keys_ok n" and "bridge_take t i n = (n', r)"
  shows "fits n n' \<and> nt_active n' - counted_items n' = nt_active n - counted_items n \<and> counted_items n' \<le> counted_items n"
proof (cases "map_of (nt_items n) (t, i)")
  case None
  then show ?thesis using assms by (auto simp: bridge_take_def fits_def)
next
  case (Some b)
  then have n': "n' = bridge_count t (- 1) (n\<lparr>nt_items := AList.delete (t, i) (nt_items n)\<rparr>)"
    using assms(2) by (auto simp: bridge_take_def)
  have c: "is_counted n' = is_counted n" "is_counted (n\<lparr>nt_items := x\<rparr>) = is_counted n" for x
    by (auto simp: n' is_counted_def fun_eq_iff)
  have "counted_items n' = counted_items n - (if is_counted n t then 1 else 0)"
    unfolding counted_items_def c using filter_delete_length [OF _ Some, of "\<lambda>((t, _), _). is_counted n t"] assms(1)
    by (simp add: n' keys_ok_def)
  moreover have "keys_ok n'" using assms(1) by (auto simp: keys_ok_def n' distinct_delete dest: delete_keys)
  ultimately show ?thesis by (auto simp: fits_def n' c)
qed

lemma put_fits:
  assumes "keys_ok n"
    and i_def: "i = p @ ''_'' @ fmt_uint 10 (nt_counter n + 1)"
    and n'_def: "n' = bridge_put t i c carrier (n\<lparr>nt_counter := nt_counter n + 1\<rparr>)"
  shows "fits n n' \<and> nt_active n' = nt_active n \<and> counted_items n' = counted_items n + (if is_counted n t then 1 else 0)"
proof -
  let ?r = "\<lparr>br_connection = c, br_carrier = carrier, br_protocol = protocol_of i, br_mode = []\<rparr>"
  have fresh: "(t, i) \<notin> fst ` set (nt_items n)"
  proof
    assume "(t, i) \<in> fst ` set (nt_items n)"
    then obtain p' k where "i = p' @ ''_'' @ fmt_uint 10 k" "k \<le> nt_counter n" using assms(1) by (force simp: keys_ok_def)
    then show False using bridge_id_inj [of p "nt_counter n + 1" p' k] by (simp add: i_def)
  qed
  have upd: "AList.update (t, i) ?r (nt_items n) = nt_items n @ [((t, i), ?r)]"
    by (rule update_new [OF fresh])
  have items: "nt_items n' = nt_items n @ [((t, i), ?r)]" by (simp add: n'_def bridge_put_def upd)
  have c: "is_counted n' = is_counted n" by (auto simp: n'_def bridge_put_def is_counted_def fun_eq_iff)
  have cnt: "nt_counter n' = nt_counter n + 1" by (simp add: n'_def bridge_put_def)
  have old: "\<exists>p k. snd (fst q) = p @ ''_'' @ fmt_uint 10 k \<and> k \<le> nt_counter n + 1" if "q \<in> set (nt_items n)" for q
    using assms(1) that unfolding keys_ok_def by (meson le_SucI Suc_eq_plus1 trans_le_add1)
  have "keys_ok n'"
    unfolding keys_ok_def items cnt
  proof (intro conjI ballI)
    show "distinct (map fst (nt_items n @ [((t, i), ?r)]))" using assms(1) fresh by (simp add: keys_ok_def)
    show "\<exists>p k. snd (fst q) = p @ ''_'' @ fmt_uint 10 k \<and> k \<le> nt_counter n + 1"
      if "q \<in> set (nt_items n @ [((t, i), ?r)])" for q
      using that old [of q] by (cases "q \<in> set (nt_items n)") (auto simp: i_def)
  qed
  then show ?thesis unfolding counted_items_def items c by (simp add: fits_def n'_def bridge_put_def)
qed

lemma clear_fits:
  assumes "keys_ok n" and "bridge_clear t n = (n', cs)"
  shows "fits n n' \<and> nt_active n' = nt_active n
    \<and> counted_items n' = counted_items n - (if is_counted n t then int (length cs) else 0) \<and> counted_items n' \<le> counted_items n"
proof -
  have n': "n' = n\<lparr>nt_items := filter (\<lambda>((t', _), _). t' \<noteq> t) (nt_items n)\<rparr>"
    and cs: "cs = map br_connection (table_items t n)" using assms(2) by (auto simp: bridge_clear_def)
  have c: "is_counted n' = is_counted n" by (auto simp: n' is_counted_def fun_eq_iff)
  have split_len: "length (filter (\<lambda>((t', _), _). P t') (al :: ((nat \<times> string) \<times> bridgeRecord) list)) =
      length (filter (\<lambda>((t', _), _). P t') (filter (\<lambda>((t', _), _). t' \<noteq> t) al))
      + (if P t then length (filter (\<lambda>((t', _), _). t' = t) al) else 0)" for P al
    by (induction al) auto
  have "counted_items n' = counted_items n - (if is_counted n t then int (length cs) else 0)"
    unfolding counted_items_def c using split_len [of "is_counted n" "nt_items n"]
    by (simp add: n' cs table_items_def)
  moreover have "keys_ok n'" using assms(1) by (auto simp: keys_ok_def n' distinct_map_filter)
  ultimately show ?thesis by (auto simp: fits_def n')
qed

lemma bind_fits:
  assumes "keys_ok n" and "map_of (nt_items n) (t, i) = Some r"
  shows "fits n (n\<lparr>nt_items := AList.update (t, i) r' (nt_items n)\<rparr>)
    \<and> counted_items (n\<lparr>nt_items := AList.update (t, i) r' (nt_items n)\<rparr>) = counted_items n"
proof -
  have mem: "(t, i) \<in> fst ` set (nt_items n)" using map_of_In [OF assms(2)] by force
  have keys: "map fst (AList.update k v al) = map fst al" if "k \<in> fst ` set al" for k v and al :: "('x \<times> 'y) list"
    using that by (induction al) auto
  have len: "length (filter (\<lambda>((t, _), _). P t) al) = length (filter (\<lambda>(t, _). P t) (map fst al))"
    for P and al :: "((nat \<times> string) \<times> bridgeRecord) list"
    by (induction al) auto
  have same: "fst ` set (AList.update (t, i) r' (nt_items n)) = fst ` set (nt_items n)"
    using arg_cong [OF keys [OF mem, of r'], of set] by simp
  have "keys_ok (n\<lparr>nt_items := AList.update (t, i) r' (nt_items n)\<rparr>)"
    unfolding keys_ok_def
  proof (intro conjI ballI)
    fix q
    assume "q \<in> set (nt_items (n\<lparr>nt_items := AList.update (t, i) r' (nt_items n)\<rparr>))"
    then have "fst q \<in> fst ` set (nt_items n)" using same by force
    then show "\<exists>p k. snd (fst q) = p @ ''_'' @ fmt_uint 10 k \<and> k \<le> nt_counter (n\<lparr>nt_items := AList.update (t, i) r' (nt_items n)\<rparr>)"
      using assms(1) by (force simp: keys_ok_def)
  qed (use keys [OF mem] assms(1) in \<open>simp add: keys_ok_def\<close>)
  then show ?thesis
    by (simp add: fits_def counted_items_def len keys [OF mem] is_counted_def)
qed

subsection \<open>Every step\<close>

definition net_ok :: "net_system \<Rightarrow> bool" where
  "net_ok s \<longleftrightarrow>
     (case s of (n, ts) \<Rightarrow>
        keys_ok n \<and> nt_active n + sum_list (map (owed n) ts) = counted_items n
        \<and> (nt_pending n \<noteq> None \<longrightarrow> list_all (\<lambda>th. \<not> holds_lock th) ts)
        \<and> (nt_pending n = Some False \<longrightarrow> counted_items n = 0))"

lemma owed_fits: "fits n n' \<Longrightarrow> owed n' = owed n"
  by (auto simp: fits_def owed_def is_counted_def fun_eq_iff split: thread.split)

lemma fits_refl: "keys_ok n \<Longrightarrow> fits n n"
  by (simp add: fits_def)

lemma fits_close: "fits n n' \<Longrightarrow> fits n (close_connections cs n')"
  by (simp add: fits_def keys_ok_def)

lemma counted_close [simp]: "counted_items (close_connections cs n) = counted_items n"
  by (simp add: counted_items_def is_counted_def)

lemma counted_count [simp]: "counted_items (bridge_count t k n) = counted_items n"
  by (simp add: counted_items_def is_counted_def)

lemma fits_count: "fits n n' \<Longrightarrow> fits n (bridge_count t k n')"
  by (simp add: fits_def keys_ok_def)

lemma take_and_close_fits:
  assumes "keys_ok n" and "take_and_close t i n = (n', th)"
  shows "fits n n' \<and> nt_active n' - counted_items n' = nt_active n - counted_items n \<and> counted_items n' \<le> counted_items n
    \<and> owed n th = 0 \<and> \<not> holds_lock th"
proof -
  obtain n1 r where t: "bridge_take t i n = (n1, r)" by (rule prod.exhaust)
  show ?thesis
    using take_fits [OF assms(1) t] assms(2) t
    by (cases r) (auto simp: take_and_close_def owed_def holds_lock_def fits_close)
qed

lemma thread_step_ok:
  assumes keys: "keys_ok n" and st: "thread_step ok th n = Some (n', th', new)"
  shows "fits n n' \<and> balance n' th' = balance n th \<and> (\<forall>x \<in> set new. owed n x = 0 \<and> \<not> holds_lock x)
    \<and> (holds_lock th' \<longrightarrow> holds_lock th \<or> nt_pending n = None) \<and> (\<not> holds_lock th \<longrightarrow> counted_items n' \<le> counted_items n)"
proof -
  have same: ?thesis if "n' = n" "owed n th = 0" "owed n th' = 0" "\<forall>x \<in> set new. owed n x = 0 \<and> \<not> holds_lock x"
      "holds_lock th' \<longrightarrow> holds_lock th \<or> nt_pending n = None"
    using that fits_refl [OF keys] by (simp add: balance_def)
  show ?thesis
  proof (cases th)
    case (Dialing t p carrier)
    have "fits n (n\<lparr>nt_fresh := nt_fresh n + 1, nt_open := insert (nt_fresh n) (nt_open n)\<rparr>)"
      using keys by (simp add: fits_def keys_ok_def)
    then show ?thesis using st Dialing fits_refl [OF keys]
      by (auto simp: balance_def owed_def holds_lock_def counted_items_def is_counted_def split: if_splits)
  next
    case (Dialed t p carrier c)
    let ?i = "p @ ''_'' @ fmt_uint 10 (nt_counter n + 1)"
    have n': "n' = bridge_put t ?i c carrier (n\<lparr>nt_counter := nt_counter n + 1\<rparr>)" and rest: "th' = Inserted t ?i carrier c" "new = []"
      using st Dialed by (auto simp: Let_def)
    note p = put_fits [OF keys refl n']
    show ?thesis using p owed_fits [of n n'] by (auto simp: rest Dialed balance_def owed_def holds_lock_def)
  next
    case (Inserted t i carrier c)
    have n': "n' = bridge_count t 1 n" and rest: "th' = Answering t i carrier c" "new = []" using st Inserted by auto
    show ?thesis using fits_count [OF fits_refl [OF keys], of t 1]
      by (auto simp: n' rest Inserted balance_def owed_def holds_lock_def)
  next
    case (AnswerFailed t i)
    then obtain x where x: "take_and_close t i n = (n', x)" "th' = x" "new = []" using st by (auto split: prod.splits)
    note f = take_and_close_fits [OF keys x(1)]
    with owed_fits [of n n'] show ?thesis by (auto simp: x AnswerFailed balance_def owed_def)
  next
    case (WriteFailed t i)
    then obtain x where x: "take_and_close t i n = (n', x)" "th' = x" "new = []" using st by (auto split: prod.splits)
    note f = take_and_close_fits [OF keys x(1)]
    with owed_fits [of n n'] show ?thesis by (auto simp: x WriteFailed balance_def owed_def)
  next
    case (ReadEnded t i)
    obtain n1 r where t: "bridge_take t i n = (n1, r)" by (rule prod.exhaust)
    then show ?thesis using take_fits [OF keys t] st ReadEnded by (auto simp: balance_def owed_def holds_lock_def)
  next
    case (ChannelEnding t i)
    obtain n1 r where t: "bridge_take t i n = (n1, r)" by (rule prod.exhaust)
    then show ?thesis using take_fits [OF keys t] st ChannelEnding
      by (cases r) (auto simp: balance_def owed_def holds_lock_def fits_close)
  next
    case (ClosingAll t)
    obtain n1 cs where t: "bridge_clear t n = (n1, cs)" by (rule prod.exhaust)
    then have r: "n' = n1" "th' = ClosingConnections t (int (length cs)) cs" "new = []" using st ClosingAll by auto
    note c = clear_fits [OF keys t]
    then have "is_counted n1 = is_counted n" by (auto simp: fits_def is_counted_def fun_eq_iff)
    then show ?thesis using c by (auto simp: r ClosingAll balance_def owed_def holds_lock_def)
  next
    case (ClosingConnections t k cs)
    then have r: "n' = close_connections cs (if k > 0 then bridge_count t (- k) n else n)" "th' = Finished" "new = []" using st by auto
    have "fits n (close_connections cs n)" "fits n (close_connections cs (bridge_count t (- k) n))"
      using fits_close [OF fits_refl [OF keys]] fits_close [OF fits_count [OF fits_refl [OF keys]]] by auto
    then show ?thesis by (auto simp: r ClosingConnections balance_def owed_def holds_lock_def)
  qed (rule same; use st in \<open>auto simp: owed_def holds_lock_def lockBridgeOpen_def split: if_splits option.splits\<close>)+
qed

lemma sum_owed_update:
  "k < length ts \<Longrightarrow> sum_list (map f (ts[k := x])) = sum_list (map f ts) - f (ts ! k) + (f x :: int)"
  by (induction ts arbitrary: k) (auto split: nat.split)

lemma sum_owed_zero: "\<forall>x \<in> set xs. f x = (0 :: int) \<Longrightarrow> sum_list (map f xs) = 0"
  by (induction xs) auto

lemma idle_threads_owe_nothing: "list_all (\<lambda>th. \<not> holds_lock th) ts \<Longrightarrow> sum_list (map (owed n) ts) \<le> 0"
  by (induction ts) (auto simp: owed_def holds_lock_def split: thread.splits)

lemma keys_pending [simp]: "keys_ok (n\<lparr>nt_pending := x\<rparr>) = keys_ok n"
  by (simp add: keys_ok_def)

lemma net_run_ok:
  assumes "net_ok (n, ts)" and "net_act (Run k ok) (n, ts) = Some s"
  shows "net_ok s"
proof -
  from assms(2) obtain n' th' new where k: "k < length ts" and st: "thread_step ok (ts ! k) n = Some (n', th', new)"
    and s: "s = (n', ts[k := th'] @ new)" by (auto split: if_splits option.splits)
  note ok = assms(1) [unfolded net_ok_def prod.case]
  note t = thread_step_ok [OF _ st]
  have f: "fits n n'" using t ok by blast
  have "sum_list (map (owed n) ts) = owed n (ts ! k) + (sum_list (map (owed n) ts) - owed n (ts ! k))" by simp
  have "sum_list (map (owed n') (ts[k := th'] @ new)) = sum_list (map (owed n) ts) - owed n (ts ! k) + owed n th'"
    using t ok sum_owed_update [OF k, of "owed n"] sum_owed_zero [of new "owed n"] by (simp add: owed_fits [OF f])
  then have bal: "nt_active n' + sum_list (map (owed n') (ts[k := th'] @ new)) = counted_items n'"
    using t ok by (simp add: balance_def owed_fits [OF f])
  have pend: "list_all (\<lambda>th. \<not> holds_lock th) (ts[k := th'] @ new) \<and> counted_items n' \<le> counted_items n" if "nt_pending n \<noteq> None"
  proof -
    have l: "list_all (\<lambda>th. \<not> holds_lock th) ts" using ok that by blast
    then have h: "\<not> holds_lock (ts ! k)" using k by (simp add: list_all_length)
    then have "\<not> holds_lock th'" "\<forall>x \<in> set new. \<not> holds_lock x" "counted_items n' \<le> counted_items n"
      using t ok that by blast+
    then show ?thesis using l by (auto simp: list_all_iff dest!: set_update_subset_insert [THEN subsetD])
  qed
  have pos: "0 \<le> counted_items n'" by (simp add: counted_items_def)
  have p: "nt_pending n' = nt_pending n" "keys_ok n'" using f by (simp_all add: fits_def)
  have zero: "counted_items n' = 0" if "nt_pending n = Some False"
  proof -
    have "nt_pending n \<noteq> None" using that by simp
    then have "counted_items n' \<le> counted_items n" using pend by blast
    then show ?thesis using pos ok that by simp
  qed
  show ?thesis
    unfolding s net_ok_def prod.case p(1) using bal pend zero p(2) by blast
qed

lemma net_ok_same_items:
  assumes "net_ok (n, ts)" and "fits n n'" "nt_active n' = nt_active n" "counted_items n' = counted_items n"
    and "\<forall>x \<in> set new. owed n x = 0 \<and> \<not> holds_lock x"
  shows "net_ok (n', ts @ new)"
  using assms sum_owed_zero [of new "owed n"]
  by (auto simp: net_ok_def fits_def list_all_iff owed_fits [OF assms(2)])

lemma handleNetwork_idle:
  "handleNetwork t carrier r body n = Inr th \<Longrightarrow> owed n th = 0 \<and> \<not> holds_lock th"
  by (auto simp: handleNetwork_def owed_def holds_lock_def split: if_splits option.splits)

interpretation bridge_system: action_system net_init net_act net_ok
proof
  fix s
  assume "net_init s"
  then show "net_ok s" by (cases s) (simp add: net_init_def net_ok_def keys_ok_def counted_items_def)
next
  fix s a s'
  assume ok: "net_ok s" and act: "net_act a s = Some s'"
  obtain n ts where s: "s = (n, ts)" by (rule prod.exhaust)
  have keys: "keys_ok n" using ok by (simp add: s net_ok_def)
  note same = net_ok_same_items [OF ok [unfolded s] fits_refl [OF keys] refl refl]
  show "net_ok s'"
  proof (cases a)
    case (Run k b)
    then show ?thesis using net_run_ok ok act s by blast
  next
    case (Frame t carrier r body)
    then show ?thesis using act same [of "[]"] same [of "[th]" for th] handleNetwork_idle [of t carrier r body n]
      by (auto simp: s split: sum.splits)
  next
    case (Bind t carrier r raw)
    have idle: "owed n (Channel t i) = 0" "\<not> holds_lock (Channel t i)" "owed n Finished = 0" "\<not> holds_lock Finished" for i
      by (simp_all add: owed_def holds_lock_def)
    show ?thesis using act Bind same [of "[Finished]"] idle bind_fits [OF keys]
      by (auto simp: s handleReliableChannel_bind_def bridge_bind_def split: if_splits option.splits
          intro!: net_ok_same_items [OF ok [unfolded s]])
  next
    case (BindDatagrams t i)
    then show ?thesis using act same [of "[]"] bind_fits [OF keys] fits_refl [OF keys] ok
      by (auto simp: s bridge_bindDatagrams_def split: option.splits
          intro!: net_ok_same_items [OF ok [unfolded s], where new = "[]", simplified])
  next
    case (SocketEnd t)
    then show ?thesis using act same [of "[ClosingAll t]"] by (auto simp: s owed_def holds_lock_def)
  next
    case (BeginUpdate ignore)
    then have l: "list_all (\<lambda>th. \<not> holds_lock th) ts" and s': "s' = (fst (tryBeginUpdate ignore n), ts)"
      using act by (auto simp: s split: if_splits)
    have own: "owed (n\<lparr>nt_pending := x\<rparr>) = owed n" for x by (auto simp: owed_def is_counted_def fun_eq_iff split: thread.split)
    have cnt: "counted_items (n\<lparr>nt_pending := x\<rparr>) = counted_items n" for x by (simp add: counted_items_def is_counted_def)
    have "counted_items n = 0" if "nt_active n = 0"
      using that ok idle_threads_owe_nothing [OF l, of n] by (auto simp: s net_ok_def counted_items_def)
    then show ?thesis using ok l unfolding s'
      by (auto simp: s tryBeginUpdate_def net_ok_def own cnt)
  next
    case CancelUpdate
    have own: "owed (n\<lparr>nt_pending := x\<rparr>) = owed n" for x by (auto simp: owed_def is_counted_def fun_eq_iff split: thread.split)
    show ?thesis using ok act CancelUpdate
      by (auto simp: s cancelUpdate_def net_ok_def own counted_items_def is_counted_def)
  qed
qed

text \<open>
  C12: Whatever the goroutines, sockets and updates do and in whatever order: while an update that waited
  for the bridges is pending, no bridge of a counted table is open and none is being opened; while any
  update is pending none is being opened; and whenever no goroutine is in flight the counter of active
  bridges is the number of bridges in the counted tables.
\<close>

theorem updates_wait_for_bridges:
  assumes "reachable net_init net_act (n, ts)"
  shows "(nt_pending n = Some False \<longrightarrow> counted_items n = 0)
    \<and> (nt_pending n \<noteq> None \<longrightarrow> \<not> (\<exists>th. th \<in> set ts \<and> holds_lock th))
    \<and> (set ts \<subseteq> {Finished, Crashed} \<longrightarrow> nt_active n = counted_items n)"
proof -
  have ok: "net_ok (n, ts)" by (rule bridge_system.reachable_inv [OF assms])
  have "sum_list (map (owed n) ts) = 0" if "set ts \<subseteq> {Finished, Crashed}"
  proof (rule sum_owed_zero)
    show "\<forall>x \<in> set ts. owed n x = 0" using that by (auto simp: owed_def)
  qed
  with ok show ?thesis by (auto simp: net_ok_def list_all_iff)
qed

definition net_start :: "nat list \<Rightarrow> net_system" where
  "net_start tables =
     (\<lparr>nt_items = [], nt_counted = tables, nt_active = 0, nt_counter = 0, nt_fresh = 0, nt_open = {}, nt_pending = None\<rparr>, [])"

definition open_message :: message where
  "open_message = blank_message\<lparr>m_Type := ''net'', m_ID := ''r1'', m_Action := ''open'', m_Protocol := StrV ''tcp'',
     m_Host := ''example.org'', m_Port := 22\<rparr>"

definition bind_raw_message :: message where
  "bind_raw_message = blank_message\<lparr>m_Type := ''channel'', m_Action := ''bind'', m_Protocol := NumV 2, m_BridgeID := ''tcp_1'',
     m_Mode := ''raw''\<rparr>"

text \<open>A bridge opened on socket 7's table 1, bound to a raw channel (carrier 9). The forwarder (goroutine
  1) has read bytes and looked up the carrier when the channel (goroutine 2) ends and closes the bridge;
  the forwarder's write then fails.\<close>

definition crash_schedule :: "net_action list" where
  "crash_schedule =
     [Frame 1 7 open_message [], Run 0 True, Run 0 True, Run 0 True, Run 0 True, Run 0 True,
      Bind 1 9 bind_raw_message True, Run 1 True, Run 1 True, Run 2 False, Run 2 True, Run 1 False, Run 1 True]"

lemma net_start_init: "net_init (net_start tables)"
  by (simp add: net_init_def net_start_def)

lemma net_start_reachable: "reachable net_init net_act (net_start tables)"
  using net_start_init by (rule reachable.start)

lemma crash_run: "map_option snd (run_actions net_act crash_schedule (net_start [1])) = Some [Finished, Crashed, Finished]"
  by code_simp

text \<open>
  The agent can crash: when a raw channel ends while the goroutine that forwards its bridge is
  writing to it, both give the bridge up, and the one that comes second closes a nil connection.
\<close>

theorem bridge_giveup_race_crashes:
  "\<exists>n ts. reachable net_init net_act (n, ts) \<and> Crashed \<in> set ts"
proof -
  obtain n ts where r: "run_actions net_act crash_schedule (net_start [1]) = Some (n, ts)" and ts: "ts = [Finished, Crashed, Finished]"
    using crash_run by auto
  have "reachable net_init net_act (n, ts)" by (rule reachable_run [OF net_start_reachable r])
  then show ?thesis using ts by (intro exI [of _ n] exI [of _ ts] conjI) simp_all
qed

theorem updates_wait_for_bridges_witness:
  "\<exists>n ts. reachable net_init net_act (n, ts) \<and> nt_pending n = Some False \<and> counted_items n = 0"
proof -
  have "map_option (\<lambda>s. nt_pending (fst s)) (run_actions net_act [BeginUpdate False] (net_start [1])) = Some (Some False)"
    by code_simp
  then obtain n ts where r: "run_actions net_act [BeginUpdate False] (net_start [1]) = Some (n, ts)" and p: "nt_pending n = Some False"
    by auto
  have reach: "reachable net_init net_act (n, ts)" by (rule reachable_run [OF net_start_reachable r])
  from updates_wait_for_bridges [OF reach] p reach show ?thesis by blast
qed

text \<open>A bridge whose far end stops sending is taken out of its table but its connection is not closed:
  nothing in the agent can close it any more.\<close>

theorem ended_bridge_keeps_its_connection:
  "\<exists>n ts. reachable net_init net_act (n, ts) \<and> nt_items n = [] \<and> set ts \<subseteq> {Finished} \<and> nt_open n \<noteq> {}"
proof -
  let ?acts = "[Frame 1 7 open_message [], Run 0 True, Run 0 True, Run 0 True, Run 0 True, Run 0 True, Run 1 False, Run 1 True,
    SocketEnd 1, Run 2 True, Run 2 True]"
  have "map_option (\<lambda>s. (nt_items (fst s), snd s, 0 \<in> nt_open (fst s))) (run_actions net_act ?acts (net_start [1])) =
      Some ([], [Finished, Finished, Finished], True)"
    by code_simp
  then obtain n ts where r: "run_actions net_act ?acts (net_start [1]) = Some (n, ts)"
    and e: "nt_items n = []" "ts = [Finished, Finished, Finished]" "0 \<in> nt_open n" by auto
  have "reachable net_init net_act (n, ts)" by (rule reachable_run [OF net_start_reachable r])
  then show ?thesis using e by (intro exI [of _ n] exI [of _ ts] conjI) auto
qed

end
