(* ===== verification/Updater.thy ===== *)
theory Updater
  imports Bridges
begin

text \<open>
  The self-updater (\<open>shellagent/updater.go\<close>): which release is newer, which assets are taken, what a
  staged binary must pass, how long bridges may defer it, and the check that ties them together. The
  hash (\<open>sha\<close>, in lower-case hexadecimal), base64 decoding (\<open>b64\<close>), the Ed25519 check under the release
  key (\<open>ed_verify\<close>) and the platform's signature check (\<open>platform\<close>) are parameters.
\<close>

subsection \<open>Versions\<close>

definition normalizedReleaseVersion :: "string \<Rightarrow> string" where
  "normalizedReleaseVersion v =
     takeWhile (\<lambda>c. c \<noteq> CHR ''-'' \<and> c \<noteq> CHR ''+'') (trim_prefix (trim_space v) ''v'')"

definition isReleaseVersion :: "string \<Rightarrow> bool" where
  "isReleaseVersion v =
     (let parts = split_on (CHR ''.'') (normalizedReleaseVersion v) in
      length parts = 3 \<and> list_all (\<lambda>p. p \<noteq> [] \<and> list_all is_digit p) parts)"

text \<open>\<open>strconv.ParseInt\<close> of digits, whose result is the largest 64-bit integer when it overflows.\<close>

definition parse_digits :: "string \<Rightarrow> int" where
  "parse_digits s = min 9223372036854775807 (foldl (\<lambda>n c. n * 10 + (of_char c - 48)) 0 s)"

definition release_numbers :: "string \<Rightarrow> int list" where
  "release_numbers v = map parse_digits (split_on (CHR ''.'') (normalizedReleaseVersion v))"

fun newer_numbers :: "int list \<Rightarrow> int list \<Rightarrow> bool" where
  "newer_numbers (l # ls) (r # rs) = (if l \<noteq> r then l > r else newer_numbers ls rs)"
| "newer_numbers ls rs = False"

definition newerRelease :: "string \<Rightarrow> string \<Rightarrow> bool" where
  "newerRelease latest current \<longleftrightarrow>
     isReleaseVersion latest \<and> isReleaseVersion current
     \<and> newer_numbers (release_numbers latest) (release_numbers current)"

definition repository_char :: "char \<Rightarrow> bool" where
  "repository_char c \<longleftrightarrow> c = CHR ''-'' \<or> c = CHR ''_'' \<or> c = CHR ''.'' \<or> is_digit c \<or> is_upper c \<or> is_lower c"

definition validRepository :: "string \<Rightarrow> bool" where
  "validRepository repository =
     (let parts = split_on (CHR ''/'') repository in
      length parts = 2 \<and> list_all (\<lambda>p. p \<noteq> [] \<and> list_all repository_char p) parts)"

subsection \<open>Releases and assets\<close>

record githubAsset =
  ga_Name :: string
  ga_BrowserURL :: string
  ga_Size :: int

record githubRelease =
  gr_TagName :: string
  gr_Assets :: "githubAsset list"

record agentReleaseAssets =
  aa_Binary :: githubAsset
  aa_Checksum :: githubAsset
  aa_Signature :: githubAsset

definition maxAgentBinaryBytes :: nat where
  "maxAgentBinaryBytes = 256 * 1024 * 1024"

definition no_asset :: githubAsset where
  "no_asset = \<lparr>ga_Name = [], ga_BrowserURL = [], ga_Size = 0\<rparr>"

definition asset_base :: "string \<Rightarrow> string \<Rightarrow> string \<Rightarrow> string" where
  "asset_base goos goarch tag =
     ''dynapp-shell-agent-'' @ normalizedReleaseVersion tag @ ''-'' @ goos @ ''-'' @ goarch
     @ (if goos = ''windows'' then ''.exe'' else [])"

definition pick_asset :: "string \<Rightarrow> agentReleaseAssets \<Rightarrow> githubAsset \<Rightarrow> agentReleaseAssets" where
  "pick_asset base found asset =
     (if ga_Name asset = base then found\<lparr>aa_Binary := asset\<rparr>
      else if ga_Name asset = base @ ''.sha256'' then found\<lparr>aa_Checksum := asset\<rparr>
      else if ga_Name asset = base @ ''.sig'' then found\<lparr>aa_Signature := asset\<rparr>
      else found)"

definition selectAgentAssets :: "string \<Rightarrow> string \<Rightarrow> githubRelease \<Rightarrow> string + agentReleaseAssets" where
  "selectAgentAssets goos goarch release =
     (let found = foldl (pick_asset (asset_base goos goarch (gr_TagName release)))
        \<lparr>aa_Binary = no_asset, aa_Checksum = no_asset, aa_Signature = no_asset\<rparr> (gr_Assets release)
      in if ga_Name (aa_Binary found) = [] \<or> ga_Name (aa_Checksum found) = []
            \<or> ga_BrowserURL (aa_Binary found) = [] \<or> ga_BrowserURL (aa_Checksum found) = []
         then Inl ''binary or checksum sidecar is missing''
         else if ga_Name (aa_Signature found) = [] \<or> ga_BrowserURL (aa_Signature found) = []
         then Inl ''detached .sig signature asset is missing''
         else if ga_Size (aa_Binary found) \<le> 0 \<or> ga_Size (aa_Binary found) > int maxAgentBinaryBytes
         then Inl ''binary size is invalid''
         else Inr found)"

subsection \<open>Verification\<close>

definition verifyReleaseSignature ::
  "(string \<Rightarrow> bytes option) \<Rightarrow> (bytes \<Rightarrow> bytes \<Rightarrow> bool) \<Rightarrow> string \<Rightarrow> string \<Rightarrow> string option" where
  "verifyReleaseSignature b64 ed_verify sha256Hex signatureBase64 =
     (case b64 (trim_space signatureBase64) of
        None \<Rightarrow> Some ''release signature is malformed''
      | Some signature \<Rightarrow>
          if length signature \<noteq> 64 then Some ''release signature is malformed''
          else if \<not> ed_verify (bytes_of (to_lower sha256Hex)) signature
          then Some ''release signature does not match the binary''
          else None)"

record stagedExpectation =
  se_SHA256 :: string
  se_Signature :: string

text \<open>A file in the updates directory, found by its name: None when there is none. \<open>os.Stat\<close> follows a link, so
  a link to a regular file counts as one.\<close>

record disk_file =
  df_regular :: bool
  df_data :: bytes

type_synonym update_dir = "string \<rightharpoonup> disk_file"

record checkers =
  ck_sha :: "bytes \<Rightarrow> string"
  ck_b64 :: "string \<Rightarrow> bytes option"
  ck_ed :: "bytes \<Rightarrow> bytes \<Rightarrow> bool"
  ck_platform :: "bytes \<Rightarrow> string option"

definition verifyStagedAgent :: "checkers \<Rightarrow> disk_file option \<Rightarrow> stagedExpectation \<Rightarrow> string option" where
  "verifyStagedAgent ck file expected =
     (case file of
        None \<Rightarrow> Some ''no such file''
      | Some f \<Rightarrow>
          if \<not> df_regular f \<or> df_data f = [] \<or> length (df_data f) > maxAgentBinaryBytes
          then Some ''staged update is not a regular file''
          else
            (let actual = ck_sha ck (df_data f) in
             if \<not> equal_fold actual (se_SHA256 expected) then Some ''staged update checksum mismatch''
             else (case verifyReleaseSignature (ck_b64 ck) (ck_ed ck) actual (se_Signature expected) of
                     Some e \<Rightarrow> Some e
                   | None \<Rightarrow> ck_platform ck (df_data f))))"

subsection \<open>Downloads and staging\<close>

text \<open>A download: an error (the request, the status, the body), or the bytes of a success response.\<close>

definition hex_char :: "char \<Rightarrow> bool" where
  "hex_char c \<longleftrightarrow> is_digit c \<or> (CHR ''a'' \<le> c \<and> c \<le> CHR ''f'') \<or> (CHR ''A'' \<le> c \<and> c \<le> CHR ''F'')"

definition downloadChecksum :: "string + string \<Rightarrow> string + string" where
  "downloadChecksum response =
     (case response of
        Inl e \<Rightarrow> Inl e
      | Inr body \<Rightarrow>
          (case Go_Prelude.fields (take 4096 body) of
             [] \<Rightarrow> Inl ''checksum asset is invalid''
           | f # _ \<Rightarrow>
               if length f \<noteq> 64 then Inl ''checksum asset is invalid''
               else if \<not> list_all hex_char f then Inl ''checksum asset is not hexadecimal''
               else Inr f))"

definition downloadSignature :: "checkers \<Rightarrow> string + string \<Rightarrow> string + string" where
  "downloadSignature ck response =
     (case response of
        Inl e \<Rightarrow> Inl e
      | Inr body \<Rightarrow>
          (let signature = trim_space (take 4096 body) in
           case ck_b64 ck signature of
             None \<Rightarrow> Inl ''signature asset is invalid''
           | Some d \<Rightarrow> if length d \<noteq> 64 then Inl ''signature asset is invalid'' else Inr signature))"

text \<open>The declared length may be unknown (negative).\<close>

definition downloadAsset :: "string + int \<times> bytes \<Rightarrow> string + bytes" where
  "downloadAsset response =
     (case response of
        Inl e \<Rightarrow> Inl e
      | Inr (contentLength, body) \<Rightarrow>
          if contentLength > int maxAgentBinaryBytes then Inl ''asset is too large''
          else
            (let copied = take (maxAgentBinaryBytes + 1) body in
             if copied = [] \<or> length copied > maxAgentBinaryBytes then Inl ''asset size is invalid'' else Inr copied))"

text \<open>What answers at each URL, and the file operations that fail.\<close>

datatype staging_fault = Make_directory | Create_temporary | Write_temporary | Rename_temporary

record downloads =
  dl_text :: "string \<Rightarrow> string + string"
  dl_asset :: "string \<Rightarrow> string + int \<times> bytes"
  dl_fault :: "staging_fault \<Rightarrow> string option"

text \<open>Staging: the updates directory before and after, and what the file of that name must still satisfy. The
  temporary file is removed on every path and does not show here; Write_temporary is a failing copy, chmod or close.\<close>

definition stageAgentUpdate ::
  "checkers \<Rightarrow> downloads \<Rightarrow> agentReleaseAssets \<Rightarrow> update_dir \<Rightarrow> update_dir \<times> (string + string \<times> stagedExpectation)" where
  "stageAgentUpdate ck dl assets d =
     (case dl_fault dl Make_directory of
        Some e \<Rightarrow> (d, Inl e)
      | None \<Rightarrow>
     (case downloadChecksum (dl_text dl (ga_BrowserURL (aa_Checksum assets))) of
        Inl e \<Rightarrow> (d, Inl e)
      | Inr checksum \<Rightarrow>
     (case downloadSignature ck (dl_text dl (ga_BrowserURL (aa_Signature assets))) of
        Inl e \<Rightarrow> (d, Inl e)
      | Inr signature \<Rightarrow>
          (let expected = \<lparr>se_SHA256 = checksum, se_Signature = signature\<rparr>;
               path = ga_Name (aa_Binary assets);
               present = (case d path of Some f \<Rightarrow> df_regular f \<and> df_data f \<noteq> [] | None \<Rightarrow> False)
           in if present \<and> verifyStagedAgent ck (d path) expected = None then (d, Inr (path, expected))
              else
                (let d1 = (if present then d(path := None) else d) in
                 case dl_fault dl Create_temporary of
                   Some e \<Rightarrow> (d1, Inl e)
                 | None \<Rightarrow>
                (case downloadAsset (dl_asset dl (ga_BrowserURL (aa_Binary assets))) of
                   Inl e \<Rightarrow> (d1, Inl e)
                 | Inr data \<Rightarrow>
                (case dl_fault dl Write_temporary of
                   Some e \<Rightarrow> (d1, Inl e)
                 | None \<Rightarrow>
                     (let temporary = \<lparr>df_regular = True, df_data = data\<rparr> in
                      case verifyStagedAgent ck (Some temporary) expected of
                        Some e \<Rightarrow> (d1, Inl e)
                      | None \<Rightarrow>
                          (case dl_fault dl Rename_temporary of
                             Some e \<Rightarrow> (d1, Inl e)
                           | None \<Rightarrow> (d1(path \<mapsto> temporary), Inr (path, expected)))))))))))"

subsection \<open>Waiting for the bridges\<close>

datatype wait_event = Tick | Timeout | Stopped

text \<open>One round of the loop: whether the context had ended and the bridges active at its top, what the
  select received, and the context and bridges after that.\<close>

record wait_round =
  wr_ended :: bool
  wr_active :: nat
  wr_event :: wait_event
  wr_ended_after :: bool
  wr_active_after :: nat

text \<open>The result is (force, proceed); None while the rounds given do not end the wait.\<close>

fun wait_loop :: "wait_round list \<Rightarrow> (bool \<times> bool) option" where
  "wait_loop [] = None"
| "wait_loop (r # rest) =
     (if wr_ended r then Some (False, False)
      else if wr_active r = 0 then Some (False, True)
      else (case wr_event r of
              Stopped \<Rightarrow> Some (False, False)
            | Timeout \<Rightarrow> Some (if wr_ended_after r then (False, False) else (wr_active_after r \<noteq> 0, True))
            | Tick \<Rightarrow> wait_loop rest))"

definition waitForIdleBridges :: "nat \<Rightarrow> bool \<Rightarrow> int \<Rightarrow> nat \<Rightarrow> wait_round list \<Rightarrow> (bool \<times> bool) option" where
  "waitForIdleBridges active ended remaining active_now rounds =
     (if active = 0 then Some (False, True)
      else if ended then Some (False, False)
      else if remaining \<le> 0 then Some (active_now \<noteq> 0, True)
      else wait_loop rounds)"

subsection \<open>Attempts\<close>

record updateAttempt =
  ua_Version :: string
  ua_At :: int

definition updateAttemptBackoff :: int where
  "updateAttemptBackoff = 12 * 3600 * 1000000000"

definition recentUpdateAttempt :: "int \<Rightarrow> string \<Rightarrow> updateAttempt option \<Rightarrow> bool" where
  "recentUpdateAttempt now version attempt =
     (case attempt of
        None \<Rightarrow> False
      | Some a \<Rightarrow> ua_Version a = version \<and> now - ua_At a < updateAttemptBackoff)"

definition clearCompletedUpdateAttempt :: "string \<Rightarrow> updateAttempt option \<Rightarrow> updateAttempt option" where
  "clearCompletedUpdateAttempt current attempt =
     (case attempt of
        None \<Rightarrow> None
      | Some a \<Rightarrow> if normalizedReleaseVersion (ua_Version a) = normalizedReleaseVersion current then None else Some a)"

subsection \<open>The check\<close>

text \<open>What the world does during one check: the release fetched, the downloads, the wait, and the state
  of the updates directory and of the network when the wait is over; then the helper's answer.\<close>

record update_world =
  uw_release :: "string + githubRelease"
  uw_now :: int
  uw_downloads :: downloads
  uw_wait :: "(bool \<times> bool) option"
  uw_tampered :: "update_dir \<Rightarrow> update_dir"
  uw_net :: net
  uw_helper :: "string option"

text \<open>What is left: \<open>uo_installed\<close> is what the helper was called with, the name of the staged file, what it held when
  it was checked, and the version.\<close>

record update_outcome =
  uo_net :: net
  uo_disk :: update_dir
  uo_attempt :: "updateAttempt option"
  uo_installed :: "(string \<times> disk_file \<times> string) option"

definition checkSelfUpdate ::
  "string \<Rightarrow> string \<Rightarrow> checkers \<Rightarrow> string \<Rightarrow> string \<Rightarrow> update_world \<Rightarrow> update_dir \<Rightarrow> updateAttempt option \<Rightarrow> update_outcome" where
  "checkSelfUpdate goos goarch ck repository current w d attempt =
     (let stop = (\<lambda>d n. \<lparr>uo_net = n, uo_disk = d, uo_attempt = attempt, uo_installed = None\<rparr>) in
      if \<not> validRepository repository then stop d (uw_net w)
      else
        (case uw_release w of
           Inl _ \<Rightarrow> stop d (uw_net w)
         | Inr release \<Rightarrow>
             if \<not> newerRelease (gr_TagName release) current then stop d (uw_net w)
             else if recentUpdateAttempt (uw_now w) (normalizedReleaseVersion (gr_TagName release)) attempt
             then stop d (uw_net w)
             else
               (case selectAgentAssets goos goarch release of
                  Inl _ \<Rightarrow> stop d (uw_net w)
                | Inr assets \<Rightarrow>
                    (case stageAgentUpdate ck (uw_downloads w) assets d of
                       (d1, Inl _) \<Rightarrow> stop d1 (uw_net w)
                     | (d1, Inr (path, expected)) \<Rightarrow>
                         (case uw_wait w of
                            None \<Rightarrow> stop d1 (uw_net w)
                          | Some (force, proceed) \<Rightarrow>
                              if \<not> proceed then stop d1 (uw_net w)
                              else
                                (case tryBeginUpdate force (uw_net w) of
                                   (n, False) \<Rightarrow> stop d1 n
                                 | (n, True) \<Rightarrow>
                                     (let d2 = uw_tampered w d1 in
                                      case verifyStagedAgent ck (d2 path) expected of
                                        Some _ \<Rightarrow> stop (d2(path := None)) (cancelUpdate n)
                                      | None \<Rightarrow>
                                          (let version = normalizedReleaseVersion (gr_TagName release) in
                                           \<lparr>uo_net = (if uw_helper w = None then n else cancelUpdate n), uo_disk = d2,
                                            uo_attempt = Some \<lparr>ua_Version = version, ua_At = uw_now w\<rparr>,
                                            uo_installed = map_option (\<lambda>f. (path, f, version)) (d2 path)\<rparr>))))))))"

end
