(* ===== verification/Update_Properties.thy ===== *)
theory Update_Properties
  imports Updater
begin

text \<open>
  What the updater promises: an update is never a downgrade; whatever reaches the helper is a newer
  release's binary that passed every check after the wait, with the bridges reserved; a release that
  was tried recently is left alone.
\<close>

subsection \<open>Versions\<close>

lemma newer_numbers_lex: "length ls = length rs \<Longrightarrow> newer_numbers ls rs \<longleftrightarrow> rs < ls"
  by (induction ls rs rule: newer_numbers.induct) auto

lemma release_numbers_length: "isReleaseVersion v \<Longrightarrow> length (release_numbers v) = 3"
  by (simp add: isReleaseVersion_def release_numbers_def Let_def)

lemma newerRelease_lex:
  "newerRelease a b \<longleftrightarrow> isReleaseVersion a \<and> isReleaseVersion b \<and> release_numbers b < release_numbers a"
  by (auto simp: newerRelease_def newer_numbers_lex release_numbers_length)

text \<open>The numbers of a version before another, compared from left to right.\<close>

definition earlier_version :: "string \<Rightarrow> string \<Rightarrow> bool" where
  "earlier_version v w \<longleftrightarrow>
     (case (release_numbers v, release_numbers w) of
        ([major, minor, patch], [major', minor', patch']) \<Rightarrow>
          major < major' \<or> (major = major' \<and> (minor < minor' \<or> (minor = minor' \<and> patch < patch')))
      | _ \<Rightarrow> False)"

lemma earlier_trans: "earlier_version a b \<Longrightarrow> earlier_version b c \<Longrightarrow> earlier_version a c"
  by (auto simp: earlier_version_def split: list.splits)

lemma newer_earlier:
  assumes "newerRelease a b"
  shows "earlier_version b a"
proof -
  have "length (release_numbers a) = Suc (Suc (Suc 0))" "length (release_numbers b) = Suc (Suc (Suc 0))"
    using assms release_numbers_length by (auto simp: newerRelease_def)
  then obtain x y z x' y' z' where "release_numbers a = [x, y, z]" "release_numbers b = [x', y', z']"
    unfolding length_Suc_conv by auto
  with assms show ?thesis by (auto simp: newerRelease_lex earlier_version_def)
qed

lemma split_on_chars: "set s \<subseteq> insert c (\<Union>p \<in> set (split_on c s). set p)"
proof (induction c s rule: split_on.induct)
  case (2 c x xs)
  then show ?case by (cases "split_on c xs") auto
qed simp

text \<open>The version that is recorded and handed to the helper has the numbers of the release's tag.\<close>

lemma normalized_numbers:
  assumes "isReleaseVersion v"
  shows "normalizedReleaseVersion (normalizedReleaseVersion v) = normalizedReleaseVersion v"
proof -
  let ?n = "normalizedReleaseVersion v"
  have chars: "is_digit c \<or> c = CHR ''.''" if "c \<in> set ?n" for c
    using assms split_on_chars [of ?n "CHR ''.''"] that by (auto simp: isReleaseVersion_def Let_def list_all_iff)
  have ok: "\<not> is_space c \<and> c \<noteq> CHR ''v'' \<and> c \<noteq> CHR ''-'' \<and> c \<noteq> CHR ''+''" if "c \<in> set ?n" for c
    using chars [OF that] by (auto simp: is_digit_def is_space_def)
  have left: "trim_left is_space ?n = ?n" using ok by (cases ?n) (auto simp: trim_left_def)
  have right: "trim_right is_space ?n = ?n"
    using ok by (cases ?n rule: rev_cases) (auto simp: trim_right_def)
  have "\<not> has_prefix ?n ''v''" using ok by (cases ?n) (auto simp: prefix_def)
  then have "trim_prefix (trim_space ?n) ''v'' = ?n" by (simp add: trim_space_def left right trim_prefix_def)
  moreover have "takeWhile (\<lambda>c. c \<noteq> CHR ''-'' \<and> c \<noteq> CHR ''+'') ?n = ?n" using ok by (simp add: takeWhile_eq_all_conv)
  ultimately show ?thesis by (simp add: normalizedReleaseVersion_def)
qed

subsection \<open>A series of updates\<close>

text \<open>One check: the system, the repository, what the world does, and the updates directory and the attempt it
  starts from. A history of checks, each made by the version that was installed last; the result is the versions that
  a helper, called with them, installed.\<close>

record update_check =
  uk_goos :: string
  uk_goarch :: string
  uk_checkers :: checkers
  uk_repository :: string
  uk_world :: update_world
  uk_dir :: update_dir
  uk_attempt :: "updateAttempt option"

definition check_of :: "update_check \<Rightarrow> string \<Rightarrow> update_outcome" where
  "check_of k current =
     checkSelfUpdate (uk_goos k) (uk_goarch k) (uk_checkers k) (uk_repository k) current (uk_world k) (uk_dir k) (uk_attempt k)"

fun installed_versions :: "string \<Rightarrow> update_check list \<Rightarrow> string list" where
  "installed_versions current [] = []"
| "installed_versions current (k # ks) =
     (case uo_installed (check_of k current) of
        None \<Rightarrow> installed_versions current ks
      | Some (_, _, version) \<Rightarrow>
          if uw_helper (uk_world k) = None then version # installed_versions version ks else installed_versions current ks)"

lemma installed_is_newer:
  assumes "uo_installed (checkSelfUpdate goos goarch ck repository current w d attempt) = Some (name, f, version)"
  shows "earlier_version current version"
proof -
  obtain release where "uw_release w = Inr release"
    and r: "newerRelease (gr_TagName release) current" "version = normalizedReleaseVersion (gr_TagName release)"
    using assms unfolding checkSelfUpdate_def Let_def
    by (auto split: if_splits sum.splits option.splits prod.splits bool.splits)
  then have "release_numbers version = release_numbers (gr_TagName release)"
    using normalized_numbers by (simp add: newerRelease_def release_numbers_def)
  with newer_earlier [OF r(1)] show ?thesis by (simp add: earlier_version_def)
qed

text \<open>
  C13: Updates only go up. Whatever the releases, the downloads and the disk are at each check, and whichever
  helpers succeed in installing the version they were called with: in the series that starts with the running version and goes on with each
  version installed, every version has a smaller number than all that follow it, where numbers are compared by
  major, then minor, then patch.
\<close>

theorem updates_never_downgrade: "sorted_wrt earlier_version (current # installed_versions current checks)"
proof (induction checks arbitrary: current)
  case (Cons k ks)
  show ?case
  proof (cases "uo_installed (check_of k current)")
    case None
    with Cons.IH [of current] show ?thesis by simp
  next
    case (Some r)
    obtain name f version where r: "r = (name, f, version)" by (cases r)
    have up: "earlier_version current version"
      by (rule installed_is_newer) (use Some r in \<open>simp add: check_of_def\<close>)
    with Some r Cons.IH [of version] Cons.IH [of current] earlier_trans [OF up] show ?thesis by auto
  qed
qed simp

subsection \<open>The check\<close>

lemma verified_staged:
  assumes "verifyStagedAgent ck file expected = None"
  shows "\<exists>f signature. file = Some f \<and> df_regular f \<and> df_data f \<noteq> [] \<and> length (df_data f) \<le> maxAgentBinaryBytes
    \<and> equal_fold (ck_sha ck (df_data f)) (se_SHA256 expected)
    \<and> ck_b64 ck (trim_space (se_Signature expected)) = Some signature \<and> length signature = 64
    \<and> ck_ed ck (bytes_of (to_lower (ck_sha ck (df_data f)))) signature \<and> ck_platform ck (df_data f) = None"
  using assms
  by (auto simp: verifyStagedAgent_def verifyReleaseSignature_def Let_def split: option.splits if_splits)

lemma staged_expectation:
  assumes "stageAgentUpdate ck dl assets d = (d1, Inr (path, expected))"
  shows "path = ga_Name (aa_Binary assets)
    \<and> downloadChecksum (dl_text dl (ga_BrowserURL (aa_Checksum assets))) = Inr (se_SHA256 expected)
    \<and> downloadSignature ck (dl_text dl (ga_BrowserURL (aa_Signature assets))) = Inr (se_Signature expected)"
  using assms by (auto simp: stageAgentUpdate_def Let_def split: option.splits sum.splits if_splits)

text \<open>
  C14: Whatever the network, the disk and the bridges do: the file the update helper is called with belongs to the
  fetched release, which is newer than the running version and was not tried in the last twelve hours. At the check
  that follows the wait for the bridges the file of the release's binary was a regular file of at most 256 MiB, its
  hash was the one the release's checksum asset holds, the 64 bytes of the release's signature asset passed the Ed25519
  check of that hash under the release key, and the platform accepted it; and the update is pending, forced or with no
  bridge active, exactly when the helper succeeded. (The helper opens the file again by its name; what happens to it
  after the check is not covered, nor are changes while the check itself reads it.)
\<close>

theorem installed_update_is_verified:
  assumes "uo_installed (checkSelfUpdate goos goarch ck repository current w d attempt) = Some (name, f, version)"
  shows "\<exists>release assets checksum text signature force. uw_release w = Inr release \<and> newerRelease (gr_TagName release) current
      \<and> version = normalizedReleaseVersion (gr_TagName release) \<and> \<not> recentUpdateAttempt (uw_now w) version attempt
      \<and> selectAgentAssets goos goarch release = Inr assets \<and> name = ga_Name (aa_Binary assets)
      \<and> uo_disk (checkSelfUpdate goos goarch ck repository current w d attempt) name = Some f
      \<and> df_regular f \<and> df_data f \<noteq> [] \<and> length (df_data f) \<le> maxAgentBinaryBytes
      \<and> downloadChecksum (dl_text (uw_downloads w) (ga_BrowserURL (aa_Checksum assets))) = Inr checksum
      \<and> equal_fold (ck_sha ck (df_data f)) checksum
      \<and> downloadSignature ck (dl_text (uw_downloads w) (ga_BrowserURL (aa_Signature assets))) = Inr text
      \<and> ck_b64 ck (trim_space text) = Some signature \<and> length signature = 64
      \<and> ck_ed ck (bytes_of (to_lower (ck_sha ck (df_data f)))) signature \<and> ck_platform ck (df_data f) = None
      \<and> (force \<or> nt_active (uw_net w) = 0)
      \<and> nt_pending (uo_net (checkSelfUpdate goos goarch ck repository current w d attempt)) =
          (if uw_helper w = None then Some force else None)"
proof -
  let ?u = "checkSelfUpdate goos goarch ck repository current w d attempt"
  obtain release assets d1 path expected force n where
    r: "validRepository repository" "uw_release w = Inr release" "newerRelease (gr_TagName release) current"
      "\<not> recentUpdateAttempt (uw_now w) (normalizedReleaseVersion (gr_TagName release)) attempt"
      "selectAgentAssets goos goarch release = Inr assets" "stageAgentUpdate ck (uw_downloads w) assets d = (d1, Inr (path, expected))"
      "uw_wait w = Some (force, True)" "tryBeginUpdate force (uw_net w) = (n, True)"
      "verifyStagedAgent ck (uw_tampered w d1 path) expected = None"
    using assms unfolding checkSelfUpdate_def Let_def
    by (auto split: if_splits sum.splits option.splits prod.splits bool.splits)
  have u: "?u = \<lparr>uo_net = (if uw_helper w = None then n else cancelUpdate n), uo_disk = uw_tampered w d1,
      uo_attempt = Some \<lparr>ua_Version = normalizedReleaseVersion (gr_TagName release), ua_At = uw_now w\<rparr>,
      uo_installed = map_option (\<lambda>f. (path, f, normalizedReleaseVersion (gr_TagName release))) (uw_tampered w d1 path)\<rparr>"
    using r by (simp add: checkSelfUpdate_def Let_def)
  note st = staged_expectation [OF r(6)]
  from verified_staged [OF r(9)] obtain g signature where g: "uw_tampered w d1 path = Some g" "df_regular g" "df_data g \<noteq> []"
    "length (df_data g) \<le> maxAgentBinaryBytes" "equal_fold (ck_sha ck (df_data g)) (se_SHA256 expected)"
    "ck_b64 ck (trim_space (se_Signature expected)) = Some signature" "length signature = 64"
    "ck_ed ck (bytes_of (to_lower (ck_sha ck (df_data g)))) signature" "ck_platform ck (df_data g) = None" by blast
  have eq: "f = g" "version = normalizedReleaseVersion (gr_TagName release)" "name = path" using assms u g(1) by simp_all
  have n: "nt_pending n = Some force" "force \<or> nt_active (uw_net w) = 0"
    using r(8) by (auto simp: tryBeginUpdate_def split: if_splits)
  show ?thesis using r(2-5) g(1-9) n st
    by (intro exI [of _ release] exI [of _ assets] exI [of _ "se_SHA256 expected"] exI [of _ "se_Signature expected"]
        exI [of _ signature] exI [of _ force]) (simp add: u eq cancelUpdate_def)
qed

definition sample_checkers :: checkers where
  "sample_checkers = \<lparr>ck_sha = (\<lambda>_. replicate 64 (CHR ''0'')), ck_b64 = (\<lambda>_. Some (replicate 64 0)),
     ck_ed = (\<lambda>_ s. length s = 64), ck_platform = (\<lambda>_. None)\<rparr>"

definition sample_file :: disk_file where
  "sample_file = \<lparr>df_regular = True, df_data = [1]\<rparr>"

definition sample_expected :: stagedExpectation where
  "sample_expected = \<lparr>se_SHA256 = replicate 64 (CHR ''0''), se_Signature = ''sig''\<rparr>"

definition sample_release :: githubRelease where
  "sample_release = \<lparr>gr_TagName = ''v1.2.0'', gr_Assets =
     [\<lparr>ga_Name = ''dynapp-shell-agent-1.2.0-linux-amd64'', ga_BrowserURL = ''b'', ga_Size = 1\<rparr>,
      \<lparr>ga_Name = ''dynapp-shell-agent-1.2.0-linux-amd64.sha256'', ga_BrowserURL = ''c'', ga_Size = 1\<rparr>,
      \<lparr>ga_Name = ''dynapp-shell-agent-1.2.0-linux-amd64.sig'', ga_BrowserURL = ''s'', ga_Size = 1\<rparr>]\<rparr>"

definition sample_assets :: agentReleaseAssets where
  "sample_assets = \<lparr>aa_Binary = \<lparr>ga_Name = ''dynapp-shell-agent-1.2.0-linux-amd64'', ga_BrowserURL = ''b'', ga_Size = 1\<rparr>,
     aa_Checksum = \<lparr>ga_Name = ''dynapp-shell-agent-1.2.0-linux-amd64.sha256'', ga_BrowserURL = ''c'', ga_Size = 1\<rparr>,
     aa_Signature = \<lparr>ga_Name = ''dynapp-shell-agent-1.2.0-linux-amd64.sig'', ga_BrowserURL = ''s'', ga_Size = 1\<rparr>\<rparr>"

definition sample_downloads :: downloads where
  "sample_downloads = \<lparr>dl_text = (\<lambda>url. if url = ''c'' then Inr (replicate 64 (CHR ''0'')) else Inr ''sig''),
     dl_asset = (\<lambda>_. Inl ''offline''), dl_fault = (\<lambda>_. None)\<rparr>"

definition sample_dir :: update_dir where
  "sample_dir = [''dynapp-shell-agent-1.2.0-linux-amd64'' \<mapsto> sample_file]"

definition sample_world :: update_world where
  "sample_world = \<lparr>uw_release = Inr sample_release, uw_now = 0, uw_downloads = sample_downloads,
     uw_wait = Some (False, True), uw_tampered = (\<lambda>f. f),
     uw_net = \<lparr>nt_items = [], nt_counted = [], nt_active = 0, nt_counter = 0, nt_fresh = 0, nt_open = {}, nt_pending = None\<rparr>,
     uw_helper = None\<rparr>"

lemma sample_verified: "verifyStagedAgent sample_checkers (Some sample_file) sample_expected = None"
  by (simp add: verifyStagedAgent_def verifyReleaseSignature_def sample_checkers_def sample_file_def sample_expected_def
      maxAgentBinaryBytes_def equal_fold_def)

lemma sample_staged:
  "stageAgentUpdate sample_checkers sample_downloads sample_assets sample_dir
     = (sample_dir, Inr (''dynapp-shell-agent-1.2.0-linux-amd64'', sample_expected))"
proof -
  have "downloadChecksum (Inr (replicate 64 (CHR ''0''))) = Inr (replicate 64 (CHR ''0''))" by code_simp
  moreover have "downloadSignature sample_checkers (Inr ''sig'') = Inr ''sig''" by code_simp
  moreover have "df_regular sample_file" "df_data sample_file \<noteq> []" by (simp_all add: sample_file_def)
  ultimately show ?thesis using sample_verified
    by (simp add: stageAgentUpdate_def sample_downloads_def sample_assets_def sample_dir_def sample_expected_def Let_def)
qed

lemma sample_selected: "selectAgentAssets ''linux'' ''amd64'' sample_release = Inr sample_assets"
proof -
  have "asset_base ''linux'' ''amd64'' (gr_TagName sample_release) = ''dynapp-shell-agent-1.2.0-linux-amd64''" by code_simp
  then show ?thesis
    by (simp add: selectAgentAssets_def sample_release_def sample_assets_def pick_asset_def no_asset_def maxAgentBinaryBytes_def)
qed

lemma sample_newer:
  "validRepository ''o/r''" "newerRelease ''v1.2.0'' ''1.1.9''" "normalizedReleaseVersion ''v1.2.0'' = ''1.2.0''"
  by code_simp+

lemma sample_installed:
  "uo_installed (checkSelfUpdate ''linux'' ''amd64'' sample_checkers ''o/r'' ''1.1.9'' sample_world sample_dir None)
     = Some (''dynapp-shell-agent-1.2.0-linux-amd64'', sample_file, ''1.2.0'')"
proof -
  have t: "gr_TagName sample_release = ''v1.2.0''" by (simp add: sample_release_def)
  have w: "uw_release sample_world = Inr sample_release" "uw_wait sample_world = Some (False, True)"
    "uw_tampered sample_world = (\<lambda>f. f)" "nt_active (uw_net sample_world) = 0" "nt_pending (uw_net sample_world) = None"
    "uw_downloads sample_world = sample_downloads"
    by (simp_all add: sample_world_def)
  have d: "sample_dir ''dynapp-shell-agent-1.2.0-linux-amd64'' = Some sample_file" by (simp add: sample_dir_def)
  show ?thesis
    using sample_selected sample_staged sample_verified sample_newer w
    by (auto simp: checkSelfUpdate_def Let_def t d recentUpdateAttempt_def tryBeginUpdate_def)
qed

text \<open>A check that installs a release: the series of updates is not empty for want of cases.\<close>

lemma sample_series:
  "installed_versions ''1.1.9'' [\<lparr>uk_goos = ''linux'', uk_goarch = ''amd64'', uk_checkers = sample_checkers, uk_repository = ''o/r'',
     uk_world = sample_world, uk_dir = sample_dir, uk_attempt = None\<rparr>] = [''1.2.0'']"
  by (simp add: check_of_def sample_installed) (simp add: sample_world_def)

theorem installed_update_is_verified_witness:
  "newerRelease ''v1.2.0'' ''1.1.9'' \<and> length (df_data sample_file) \<le> maxAgentBinaryBytes"
  using installed_update_is_verified [OF sample_installed] by (auto simp: sample_world_def sample_release_def)

end
