(* ===== verification/Relay.thy ===== *)
theory Relay
  imports Wire Gate Identity
begin

text \<open>
  The relay client (\<open>shellagent/relay.go\<close>): the frames of the relay socket, end-to-end encryption
  (\<open>openRemoteFrame\<close> in \<open>shellagent/agent.go\<close>), the grant of a relayed browser, and the loop of
  \<open>handleRelaySocket\<close>. JSON decoding, SHA-256, base64 and AES-GCM are fields of \<open>relay_env\<close>.
\<close>

record relay_message = message +
  rm_TokenHash :: string
  rm_Token :: string
  rm_KeyID :: string
  rm_App :: "directLocalApp option"

record relay_env =
  re_accepted :: "string list"
  re_required :: bool
  re_envelope :: "bytes \<Rightarrow> (string \<times> string \<times> string) option"
  re_init :: "bytes \<Rightarrow> (string \<times> int \<times> string) option"
  re_sealed :: "bytes \<Rightarrow> (string \<times> int \<times> string \<times> string \<times> string) option"
  re_message :: "bytes \<Rightarrow> string + relay_message"
  re_b64 :: "bytes \<Rightarrow> string"
  re_unb64 :: "string \<Rightarrow> bytes option"
  re_sha :: "string \<Rightarrow> bytes"
  re_hex :: "bytes \<Rightarrow> string"
  re_gcm_open :: "bytes \<Rightarrow> bytes \<Rightarrow> bytes \<Rightarrow> bytes option"
  re_gcm_seal :: "bytes \<Rightarrow> bytes \<Rightarrow> bytes \<Rightarrow> bytes"
  re_marshal :: "string \<times> int \<times> string \<times> string \<times> string \<Rightarrow> bytes"
  re_identities :: "browserIdentity list"
  re_resolve :: "string \<Rightarrow> resolvedApp option"
  re_sprint :: "any \<Rightarrow> string"

subsection \<open>Frames and credentials\<close>

definition decodeRelayFrame :: "relay_env \<Rightarrow> kind \<Rightarrow> bytes \<Rightarrow> (bytes \<times> string) option" where
  "decodeRelayFrame env k wire =
     (if k = BinaryFrame \<and> length wire \<ge> 6 \<and> take 4 wire = bytes_of ''DRL1'' then
        (let len = be_nat 0 (take 2 (drop 4 wire)) in
         if len < 1 \<or> 6 + len > length wire then None
         else Some (drop (6 + len) wire, string_of (take len (drop 6 wire))))
      else
        (case re_envelope env wire of
           None \<Rightarrow> None
         | Some (ty, session, payload) \<Rightarrow>
             if ty \<noteq> ''dynapp-relay-frame'' \<or> session = [] then None else Some (bytes_of payload, session)))"

definition hex_digit :: "char \<Rightarrow> bool" where
  "hex_digit c \<longleftrightarrow> (CHR ''0'' \<le> c \<and> c \<le> CHR ''9'') \<or> (CHR ''a'' \<le> c \<and> c \<le> CHR ''f'') \<or> (CHR ''A'' \<le> c \<and> c \<le> CHR ''F'')"

definition normalizeAuthHash :: "relay_env \<Rightarrow> string \<Rightarrow> string" where
  "normalizeAuthHash env raw =
     (let v = trim_space raw in
      if length v = 64 then (if list_all hex_digit v then to_lower v else [])
      else if length v \<ge> 40 then re_hex env (re_sha env v)
      else [])"

definition remoteE2EEContext :: string where
  "remoteE2EEContext = ''dynapp-remote-e2ee-v1''"

definition remoteKeyID :: "relay_env \<Rightarrow> string \<Rightarrow> string" where
  "remoteKeyID env tokenHash = re_b64 env (re_sha env (remoteE2EEContext @ '':id:'' @ tokenHash))"

definition remoteTrafficKey :: "relay_env \<Rightarrow> string \<Rightarrow> bytes" where
  "remoteTrafficKey env tokenHash = re_sha env (remoteE2EEContext @ '':key:'' @ tokenHash)"

text \<open>The nonce is 12 random bytes, the tag the last 16 bytes of what GCM seals.\<close>

definition sealRemoteFrame :: "relay_env \<Rightarrow> bytes \<Rightarrow> string \<Rightarrow> bytes \<Rightarrow> bytes" where
  "sealRemoteFrame env nonce tokenHash payload =
     (let s = re_gcm_seal env (remoteTrafficKey env tokenHash) nonce payload;
          ciphertext = take (length s - 16) s; tag = drop (length s - 16) s
      in re_marshal env (''dynapp-e2ee'', 1, re_b64 env nonce, re_b64 env ciphertext, re_b64 env tag))"

definition openRemoteFrame :: "relay_env \<Rightarrow> string \<Rightarrow> bytes \<Rightarrow> bytes option" where
  "openRemoteFrame env tokenHash wire =
     (case re_sealed env wire of
        None \<Rightarrow> None
      | Some (ty, version, n, c, t) \<Rightarrow>
          if ty \<noteq> ''dynapp-e2ee'' \<or> version \<noteq> 1 then None
          else
            (case (re_unb64 env n, re_unb64 env c, re_unb64 env t) of
               (Some nonce, Some encoded, Some tag) \<Rightarrow>
                 if length nonce \<noteq> 12 \<or> length tag \<noteq> 16 \<or> encoded = [] then None
                 else re_gcm_open env (remoteTrafficKey env tokenHash) nonce (encoded @ tag)
             | _ \<Rightarrow> None))"

subsection \<open>The grant of a relayed browser\<close>

text \<open>\<open>base\<close> is a Go slice that may be nil (None): \<open>unionStrings\<close> and \<open>intersectStrings\<close> return nil
  when they keep nothing, \<open>normalizePermissionSet\<close> never does.\<close>

definition go_slice :: "'a list \<Rightarrow> 'a list option" where
  "go_slice xs = (if xs = [] then None else Some xs)"

definition slice_items :: "'a list option \<Rightarrow> 'a list" where
  "slice_items s = (case s of None \<Rightarrow> [] | Some xs \<Rightarrow> xs)"

record relay_match =
  rx_base :: "string list option"
  rx_matched :: bool
  rx_origin :: string
  rx_capabilities :: "string list"
  rx_connect :: connect_map

definition hello_matches :: "string \<Rightarrow> relay_message \<Rightarrow> browserIdentity \<Rightarrow> bool" where
  "hello_matches keyID hello i \<longleftrightarrow>
     bi_KeyID i = keyID \<and> \<not> bi_Authority i
     \<and> (case rm_App hello of None \<Rightarrow> True | Some a \<Rightarrow> bi_StoreID i = [] \<or> bi_StoreID i = trim_space (dla_StoreID a))"

definition add_connect :: "string \<times> string list \<Rightarrow> connect_map \<Rightarrow> connect_map" where
  "add_connect e m =
     AList.update (fst e) (unionStrings (case map_of m (fst e) of None \<Rightarrow> [] | Some ps \<Rightarrow> ps) (snd e)) m"

definition match_identity :: "string \<Rightarrow> relay_message \<Rightarrow> browserIdentity \<Rightarrow> relay_match \<Rightarrow> relay_match" where
  "match_identity keyID hello i x =
     (if \<not> hello_matches keyID hello i then x
      else x\<lparr>rx_base := go_slice (unionStrings (slice_items (rx_base x)) (bi_Capabilities i)), rx_matched := True,
             rx_origin := (if rx_origin x = [] then bi_Origin i else rx_origin x),
             rx_capabilities := (if rx_origin x = [] then bi_Capabilities i else rx_capabilities x),
             rx_connect := fold add_connect (bi_Connect i) (rx_connect x)\<rparr>)"

text \<open>The loop of a hello that names no identity; the first argument is \<open>index == 0\<close>.\<close>

fun common_grant :: "bool \<Rightarrow> string list option \<Rightarrow> browserIdentity list \<Rightarrow> string list option" where
  "common_grant first base [] = base"
| "common_grant first base (i # is) =
     (if bi_Authority i then common_grant False base is
      else if first \<or> base = None then common_grant False (Some (normalizePermissionSet (bi_Capabilities i))) is
      else common_grant False (go_slice (intersectStrings (slice_items base) (bi_Capabilities i))) is)"

definition match_identities :: "string \<Rightarrow> relay_message \<Rightarrow> browserIdentity list \<Rightarrow> relay_match" where
  "match_identities key hello ids =
     (let x0 = \<lparr>rx_base = None, rx_matched = False, rx_origin = [], rx_capabilities = [], rx_connect = []\<rparr>
      in if key = [] then x0 else fold (match_identity key hello) ids x0)"

definition relay_base :: "relay_match \<Rightarrow> browserIdentity list \<Rightarrow> string list option" where
  "relay_base x ids = (if rx_matched x then rx_base x else common_grant True (rx_base x) ids)"

text \<open>The app block of the hello.\<close>

definition relay_app :: "(string \<Rightarrow> resolvedApp option) \<Rightarrow> directLocalApp option \<Rightarrow> socketAuthentication \<Rightarrow> socketAuthentication" where
  "relay_app resolve app auth =
     (case app of
        None \<Rightarrow> auth
      | Some a \<Rightarrow>
          (let store = trim_space (dla_StoreID a) in
           if \<not> validStoreID store then auth
           else
             (let auth1 = auth\<lparr>sa_storeID := store, sa_appName := storeSlug store\<rparr> in
              case resolve store of
                None \<Rightarrow> auth1
              | Some r \<Rightarrow>
                  auth1\<lparr>sa_capabilities := normalizePermissionSet (intersectStrings (sa_capabilities auth1) (ra_Declared r)),
                    sa_declared := ra_Declared r, sa_connect := ra_Connect r, sa_appName := ra_Name r\<rparr>)))"

definition relayGrantFor :: "browserIdentity list \<Rightarrow> relay_message \<Rightarrow> (string \<Rightarrow> resolvedApp option) \<Rightarrow> socketAuthentication" where
  "relayGrantFor ids hello resolve =
     (let key = trim_space (rm_KeyID hello);
          x = match_identities key hello ids;
          caps = normalizePermissionSet (slice_items (relay_base x ids))
      in relay_app resolve (rm_App hello)
           (no_auth\<lparr>sa_capabilities := caps, sa_keyID := (if rx_matched x then key else []), sa_origin := rx_origin x,
              sa_stored := normalizePermissionSet (rx_capabilities x), sa_ok := True, sa_declared := caps,
              sa_connect := (if rx_matched x then rx_connect x else [])\<rparr>))"

subsection \<open>The loop\<close>

text \<open>What the socket keeps between frames; \<open>rs_cipher\<close> is its entry in \<open>connectionE2EE\<close>.\<close>

record relay_session =
  rs_session :: string
  rs_authenticated :: bool
  rs_negotiated :: int
  rs_granted :: socketAuthentication
  rs_token :: string
  rs_cipher :: "string option"

definition relay_start :: relay_session where
  "relay_start = \<lparr>rs_session = [], rs_authenticated = False, rs_negotiated = 0, rs_granted = no_auth, rs_token = [],
     rs_cipher = None\<rparr>"

text \<open>What a frame makes the agent do: close the session's bridges and programs, send a message (under
  the cipher given), or serve a request; \<open>RelayInvalid\<close> is \<open>Remote message is invalid\<close>.\<close>

datatype relay_output =
    SessionReset
  | RelayError "string option" string "string option"
  | RelayInvalid "string option"
  | E2EEReady "string option"
  | RelayHello int "string list" "string option"
  | Served turn "string option"

definition relay_reset :: "string \<Rightarrow> relay_session \<Rightarrow> relay_session \<times> relay_output list" where
  "relay_reset next_session st =
     (if rs_session st = next_session then (st, [])
      else (\<lparr>rs_session = next_session, rs_authenticated = False, rs_negotiated = 0, rs_granted = no_auth, rs_token = [],
             rs_cipher = None\<rparr>, [SessionReset]))"

text \<open>The loop never sets \<open>ProtocolName\<close> (its JSON tag is \<open>-\<close>), so it is empty here.\<close>

definition relay_dispatch :: "(any \<Rightarrow> string) \<Rightarrow> string list \<Rightarrow> message \<Rightarrow> string option \<Rightarrow> relay_output" where
  "relay_dispatch sprint caps request c =
     (let ty = m_Type request; i = m_ID request in
      if ty = ''ping'' then Served (Answer (Pong i)) c
      else if ty = ''fs'' then
        (let required = filesystemCapability (m_Method request) in
         if \<not> socketAllows caps required then Served (Answer (FsError i (permissionDeniedError required))) c
         else Served (ToFilesystem request) c)
      else if ty = ''exec'' then
        (let required = (if m_Command request \<noteq> [] then ''fs.exec'' else ''fs.execFile'') in
         if \<not> socketAllows caps required then Served (Answer (ExecError i (permissionDeniedError required))) c
         else Served (ToExec request) c)
      else if ty = ''process'' then Served (ToProcess request) c
      else if ty = ''rpc'' then
        (let required = rpcCapability sprint request in
         if \<not> socketAllows caps required
         then Served (Answer (RpcError i (m_Service request) (permissionDeniedError required))) c
         else Served (ToRPC request) c)
      else if ty = ''net'' then
        (let protocolName = [] in
         if \<not> socketAllows caps (''net.'' @ protocolName @ ''.connect'')
            \<and> \<not> socketAllows caps (''net.protocol.'' @ protocolName)
         then Served (Answer (FsError i (permissionDeniedError (networkCapability protocolName)))) c
         else Served (ToNetwork (request\<lparr>m_Protocol := NilV\<rparr>) protocolName True) c)
      else if ty = ''net-data'' then
        Served (ToNetwork (blank_message\<lparr>m_Action := ''data'', m_BridgeID := m_BridgeID request\<rparr>) [] True) c
      else if ty = ''net-close'' then
        Served (ToNetwork (blank_message\<lparr>m_Action := ''close'', m_BridgeID := m_BridgeID request\<rparr>) [] False) c
      else RelayError (Some i) ''Unknown remote request'' c)"

definition LegacyProtocolVersion :: int where
  "LegacyProtocolVersion = 1"

text \<open>A clear-text frame: decoding, the hello, and the requests of an authenticated session.\<close>

definition hello_ok :: "relay_env \<Rightarrow> relay_message \<Rightarrow> bool" where
  "hello_ok env r \<longleftrightarrow>
     (let h = normalizeAuthHash env (rm_TokenHash r);
          candidate = (if h = [] then normalizeAuthHash env (rm_Token r) else h);
          version = protocolNumber (m_Protocol r)
      in m_Type r = ''hello'' \<and> (version = LegacyProtocolVersion \<or> version = ProtocolVersion)
         \<and> candidate \<in> set (map to_lower (re_accepted env)))"

definition decode_request :: "relay_env \<Rightarrow> bytes \<Rightarrow> string + relay_message" where
  "decode_request env incoming =
     (if length incoming \<ge> 4 \<and> take 4 incoming = dfb1
      then map_sum id fst (decodeBinaryFrame (re_message env) incoming)
      else re_message env incoming)"

definition relay_serve :: "relay_env \<Rightarrow> bytes \<Rightarrow> relay_session \<Rightarrow> relay_session \<times> relay_output list" where
  "relay_serve env incoming st =
     (case decode_request env incoming of
        Inl _ \<Rightarrow> (st, [RelayInvalid (rs_cipher st)])
      | Inr r \<Rightarrow>
          if \<not> rs_authenticated st then
            (if \<not> hello_ok env r then (st, [RelayError None ''Pairing credential rejected'' (rs_cipher st)])
             else
               (let version = protocolNumber (m_Protocol r); granted = relayGrantFor (re_identities env) r (re_resolve env)
                in (st\<lparr>rs_authenticated := True, rs_negotiated := version, rs_granted := granted\<rparr>,
                    [RelayHello version (sa_capabilities granted) (rs_cipher st)])))
          else if sa_storeID (rs_granted st) \<noteq> [] \<and> \<not> appIDMatches (sa_storeID (rs_granted st)) (m_AppID r)
          then (st, [Served (Answer (frame_error (message.truncate r) ''Frame app id does not match the paired app'')) (rs_cipher st)])
          else (st, [relay_dispatch (re_sprint env) (sa_capabilities (rs_granted st)) (message.truncate r) (rs_cipher st)]))"

text \<open>\<open>e2eeToken\<close> is the first accepted hash with the key id of the init message, in the order of the
  list that stands for the Go map.\<close>

definition e2ee_token :: "relay_env \<Rightarrow> string \<Rightarrow> string" where
  "e2ee_token env keyID =
     (case find (\<lambda>candidate. remoteKeyID env candidate = keyID) (map to_lower (re_accepted env)) of
        None \<Rightarrow> [] | Some candidate \<Rightarrow> candidate)"

definition e2ee_init :: "relay_env \<Rightarrow> bytes \<Rightarrow> relay_session \<Rightarrow> relay_session \<times> relay_output list" where
  "e2ee_init env incoming st =
     (case re_init env incoming of
        None \<Rightarrow> (st, [RelayError None ''End-to-end encryption is required'' (rs_cipher st)])
      | Some (ty, version, keyID) \<Rightarrow>
          if ty \<noteq> ''dynapp-e2ee-init'' \<or> version \<noteq> 1
          then (st, [RelayError None ''End-to-end encryption is required'' (rs_cipher st)])
          else
            (let token = e2ee_token env keyID in
             if token = [] then (st, [RelayError None ''End-to-end encryption credential rejected'' (rs_cipher st)])
             else (st\<lparr>rs_token := token, rs_cipher := Some token\<rparr>, [E2EEReady None])))"

definition relay_step :: "relay_env \<Rightarrow> kind \<times> bytes \<Rightarrow> relay_session \<Rightarrow> relay_session \<times> relay_output list" where
  "relay_step env frame st =
     (case decodeRelayFrame env (fst frame) (snd frame) of
        None \<Rightarrow> (st, [])
      | Some (incoming, next_session) \<Rightarrow>
          (case relay_reset next_session st of
             (st1, out1) \<Rightarrow>
               if re_required env then
                 (if rs_token st1 = [] then map_prod id (append out1) (e2ee_init env incoming st1)
                  else
                    (case openRemoteFrame env (rs_token st1) incoming of
                       None \<Rightarrow> (st1, out1)
                     | Some clear \<Rightarrow> map_prod id (append out1) (relay_serve env clear st1)))
               else map_prod id (append out1) (relay_serve env incoming st1)))"

text \<open>\<open>runRelay\<close>: the identities the agent keeps after it was given a ticket.\<close>

definition relay_identities ::
  "(string \<Rightarrow> string) \<Rightarrow> browserIdentity list \<Rightarrow> browserIdentity list \<Rightarrow> browserIdentity list" where
  "relay_identities key_hash existing received =
     (case normalizeBrowserIdentities key_hash received of Inl _ \<Rightarrow> existing | Inr ids \<Rightarrow> ids)"

end
