(* ===== verification/Relay_Properties.thy ===== *)
theory Relay_Properties
  imports Relay Bridges Access
begin

text \<open>
  What a relayed browser may get: its grant, the hello every served request rests on, the sealing of
  replies, and what the relay cannot do (open a network bridge).
\<close>

subsection \<open>The grant\<close>

lemma slice_items_go [simp]: "slice_items (go_slice xs) = xs"
  by (simp add: slice_items_def go_slice_def)

lemma slice_items_None [simp]: "slice_items None = []"
  by (simp add: slice_items_def)

lemma slice_items_Some [simp]: "slice_items (Some xs) = xs"
  by (simp add: slice_items_def)

text \<open>The permissions of the identities of a list that satisfy a predicate.\<close>

definition held_by :: "(browserIdentity \<Rightarrow> bool) \<Rightarrow> browserIdentity list \<Rightarrow> string set" where
  "held_by P ids = (\<Union>i \<in> {i \<in> set ids. P i}. set (bi_Capabilities i))"

lemma match_fold:
  "set (slice_items (rx_base (fold (match_identity k hello) ids x))) - {[]}
     = (set (slice_items (rx_base x)) \<union> held_by (hello_matches k hello) ids) - {[]}
   \<and> (rx_matched (fold (match_identity k hello) ids x) \<longleftrightarrow> rx_matched x \<or> (\<exists>i \<in> set ids. hello_matches k hello i))"
proof (induction ids arbitrary: x)
  case (Cons i js)
  show ?case using Cons [of "match_identity k hello i x"]
    by (cases "hello_matches k hello i") (auto simp: match_identity_def held_by_def)
qed (simp add: held_by_def)

lemma match_held:
  "set (slice_items (rx_base (match_identities k hello ids))) - {[]}
     = (if rx_matched (match_identities k hello ids) then held_by (hello_matches k hello) ids else {}) - {[]}
   \<and> (rx_matched (match_identities k hello ids) \<longrightarrow> k \<noteq> [])"
proof (cases "k = []")
  case False
  let ?x = "\<lparr>rx_base = None, rx_matched = False, rx_origin = [], rx_capabilities = [], rx_connect = []\<rparr>"
  have "\<not> (\<exists>i \<in> set ids. hello_matches k hello i) \<Longrightarrow> held_by (hello_matches k hello) ids = {}"
    by (auto simp: held_by_def)
  then show ?thesis using False match_fold [of k hello ids ?x] by (auto simp: match_identities_def Let_def)
qed (simp add: match_identities_def)

lemma held_Cons:
  "held_by P (i # js) = (if P i then set (bi_Capabilities i) else {}) \<union> held_by P js"
  by (auto simp: held_by_def)

lemma held_mono: "(\<And>i. P i \<Longrightarrow> Q i) \<Longrightarrow> held_by P ids \<subseteq> held_by Q ids"
  by (auto simp: held_by_def)

lemma common_grant_held:
  "set (slice_items (common_grant first base ids))
     \<subseteq> set (slice_items base) \<union> trim_space ` held_by (\<lambda>i. \<not> bi_Authority i) ids"
proof (induction ids arbitrary: first base)
  case (Cons i js)
  show ?case
  proof (cases "bi_Authority i")
    case True
    then show ?thesis using Cons [of False base] by (simp add: held_Cons)
  next
    case False
    show ?thesis
    proof (cases "first \<or> base = None")
      case True
      then show ?thesis using False Cons [of False "Some (normalizePermissionSet (bi_Capabilities i))"]
        by (simp add: held_Cons image_Un) blast
    next
      case new: False
      then show ?thesis
        using False Cons [of False "go_slice (intersectStrings (slice_items base) (bi_Capabilities i))"]
        by (simp add: held_Cons image_Un) blast
    qed
  qed
qed simp

lemma relay_base_held:
  assumes "c \<in> set (slice_items (relay_base (match_identities k hello ids) ids))" and "trim_space c \<noteq> []"
  shows "trim_space c \<in> trim_space `
    held_by (\<lambda>i. \<not> bi_Authority i \<and> (rx_matched (match_identities k hello ids) \<longrightarrow> hello_matches k hello i)) ids"
proof (cases "rx_matched (match_identities k hello ids)")
  case True
  have "c \<noteq> []" using assms(2) by (auto simp: trim_space_empty)
  then have "c \<in> held_by (hello_matches k hello) ids"
    using True assms(1) match_held [of k hello ids] by (auto simp: relay_base_def)
  then show ?thesis using True by (auto simp: held_by_def hello_matches_def)
next
  case False
  let ?base = "rx_base (match_identities k hello ids)"
  have "set (slice_items ?base) \<subseteq> {[]}" using False match_held [of k hello ids] by auto
  moreover have "c \<noteq> []" using assms(2) by (auto simp: trim_space_empty)
  ultimately have "c \<in> trim_space ` held_by (\<lambda>i. \<not> bi_Authority i) ids"
    using False assms(1) common_grant_held [of True ?base ids] by (auto simp: relay_base_def)
  then show ?thesis using False by auto
qed

lemma relay_app_fields:
  "set (sa_capabilities (relay_app resolve app auth)) \<subseteq> trim_space ` set (sa_capabilities auth) \<union> set (sa_capabilities auth)"
  "sa_keyID (relay_app resolve app auth) = sa_keyID auth"
  by (auto simp: relay_app_def Let_def split: option.splits)

text \<open>
  C16: The grant of a relay hello is never more than the authority decided for some app: each of its
  permissions is one that a stored identity other than the authority holds, and of the very
  identities the hello names when its key matches one; when Dyner resolves the app the hello names,
  each is also declared by the app.
\<close>

theorem relay_grant_is_bounded:
  assumes "relayGrantFor ids hello resolve = auth"
  shows "set (sa_capabilities auth) \<subseteq> trim_space ` held_by (\<lambda>i. \<not> bi_Authority i) ids
    \<and> (sa_keyID auth \<noteq> [] \<longrightarrow>
        set (sa_capabilities auth) \<subseteq> trim_space ` held_by (hello_matches (sa_keyID auth) hello) ids)
    \<and> (rm_App hello = Some a \<longrightarrow> validStoreID (trim_space (dla_StoreID a)) \<longrightarrow> resolve (trim_space (dla_StoreID a)) = Some r
        \<longrightarrow> sa_storeID auth = trim_space (dla_StoreID a) \<and> set (sa_capabilities auth) \<subseteq> trim_space ` set (ra_Declared r))"
proof -
  define k where "k = trim_space (rm_KeyID hello)"
  define x where "x = match_identities k hello ids"
  define caps where "caps = normalizePermissionSet (slice_items (relay_base x ids))"
  have held: "set caps \<subseteq> trim_space ` held_by (\<lambda>i. \<not> bi_Authority i \<and> (rx_matched x \<longrightarrow> hello_matches k hello i)) ids"
    using relay_base_held [of _ k hello ids] by (auto simp: caps_def x_def)
  have "trim_space c = c" if "c \<in> set caps" for c using that by (auto simp: caps_def)
  then have trimmed: "trim_space ` set caps = set caps" by simp
  have caps: "set (sa_capabilities auth) \<subseteq> set caps" and key: "sa_keyID auth = (if rx_matched x then k else [])"
    using trimmed by (auto simp: assms [symmetric] relayGrantFor_def Let_def relay_app_fields k_def [symmetric]
        x_def [symmetric] caps_def [symmetric] dest!: subsetD [OF relay_app_fields(1)])
  have "set (sa_capabilities auth) \<subseteq> trim_space ` held_by (\<lambda>i. \<not> bi_Authority i) ids"
    using caps held by (fastforce simp: held_by_def)
  moreover have "sa_keyID auth \<noteq> [] \<longrightarrow>
      set (sa_capabilities auth) \<subseteq> trim_space ` held_by (hello_matches (sa_keyID auth) hello) ids"
    using caps held key by (fastforce simp: held_by_def)
  ultimately show ?thesis by (auto simp: assms [symmetric] relayGrantFor_def Let_def relay_app_def)
qed

definition relay_identity :: "string \<Rightarrow> string list \<Rightarrow> browserIdentity" where
  "relay_identity k caps =
     \<lparr>bi_KeyID = k, bi_KTY = [], bi_CRV = [], bi_X = [], bi_Y = [], bi_Origin = ''https://dyner.ai'', bi_Capabilities = caps,
      bi_StoreID = [], bi_Connect = [], bi_ApprovedAt = 0, bi_Declared = [], bi_Authority = False, bi_Client = empty_client\<rparr>"

definition relay_hello :: "string \<Rightarrow> relay_message" where
  "relay_hello k = message.extend (blank_message\<lparr>m_Type := ''hello'', m_Protocol := NumV 2\<rparr>)
     (relay_message.fields [] [] k None)"

theorem relay_grant_is_bounded_witness:
  "sa_capabilities (relayGrantFor [relay_identity ''k'' [''fs.list'']] (relay_hello ''k'') (\<lambda>_. None)) = [''fs.list'']
   \<and> set (sa_capabilities (relayGrantFor [relay_identity ''k'' [''fs.list'']] (relay_hello ''k'') (\<lambda>_. None)))
      \<subseteq> trim_space ` held_by (hello_matches ''k'' (relay_hello ''k'')) [relay_identity ''k'' [''fs.list'']]"
proof -
  let ?auth = "relayGrantFor [relay_identity ''k'' [''fs.list'']] (relay_hello ''k'') (\<lambda>_. None)"
  have "sa_keyID ?auth = ''k'' \<and> sa_capabilities ?auth = [''fs.list'']" by code_simp
  then show ?thesis using relay_grant_is_bounded [OF refl, of "[relay_identity ''k'' [''fs.list'']]" "relay_hello ''k''" "\<lambda>_. None"]
    by auto
qed

text \<open>
  A hello that names no identity is meant to get what every identity holds. It does not when the
  first two identities have nothing in common: the empty intersection is a nil slice, the next
  identity starts over, and the hello gets everything that one holds.
\<close>

theorem relay_unnamed_grant_widens:
  assumes "\<not> bi_Authority i" "\<not> bi_Authority j" "\<not> bi_Authority k"
    and "trim_space ` set (bi_Capabilities i) \<inter> set (bi_Capabilities j) \<subseteq> {[]}"
    and "trim_space (rm_KeyID hello) = []" "rm_App hello = None"
  shows "sa_capabilities (relayGrantFor [i, j, k] hello resolve) = normalizePermissionSet (bi_Capabilities k)"
proof -
  have "intersectStrings (normalizePermissionSet (bi_Capabilities i)) (bi_Capabilities j) = []"
    using assms(4) by (auto simp: filter_empty_conv intersectStrings_def)
  then have "common_grant True None [i, j, k] = Some (normalizePermissionSet (bi_Capabilities k))"
    using assms(1-3) by (simp add: go_slice_def)
  moreover have "normalizePermissionSet (normalizePermissionSet xs) = normalizePermissionSet xs" for xs
  proof -
    have "trim_space ` (trim_space ` set xs - {[]}) = trim_space ` set xs - {[]}"
      by (rule set_eqI) (auto intro: rev_image_eqI)
    then show ?thesis by (simp add: permission_set.norm_eq_iff)
  qed
  ultimately show ?thesis
    using assms(5,6) by (simp add: relayGrantFor_def match_identities_def relay_base_def relay_app_def Let_def)
qed

theorem relay_unnamed_grant_widens_witness:
  "sa_capabilities (relayGrantFor [relay_identity ''a'' [''fs.list''], relay_identity ''b'' [''clipboard.read''],
     relay_identity ''c'' [''fs.exec'']] (relay_hello []) (\<lambda>_. None)) = normalizePermissionSet [''fs.exec'']"
proof -
  have "sa_capabilities (relayGrantFor [relay_identity ''a'' [''fs.list''], relay_identity ''b'' [''clipboard.read''],
     relay_identity ''c'' [''fs.exec'']] (relay_hello []) (\<lambda>_. None))
     = normalizePermissionSet (bi_Capabilities (relay_identity ''c'' [''fs.exec'']))"
  proof (rule relay_unnamed_grant_widens)
    show "trim_space ` set (bi_Capabilities (relay_identity ''a'' [''fs.list'']))
      \<inter> set (bi_Capabilities (relay_identity ''b'' [''clipboard.read''])) \<subseteq> {[]}"
      by code_simp
    show "trim_space (rm_KeyID (relay_hello [])) = []" "rm_App (relay_hello []) = None" by code_simp+
  qed (simp_all add: relay_identity_def)
  then show ?thesis by (simp add: relay_identity_def)
qed

subsection \<open>Sessions\<close>

text \<open>The socket with the frames it has read.\<close>

definition relay_init :: "(kind \<times> bytes) list \<times> relay_session \<Rightarrow> bool" where
  "relay_init s \<longleftrightarrow> s = ([], relay_start)"

definition relay_act ::
  "relay_env \<Rightarrow> kind \<times> bytes \<Rightarrow> (kind \<times> bytes) list \<times> relay_session \<Rightarrow> ((kind \<times> bytes) list \<times> relay_session) option" where
  "relay_act env f s = Some (fst s @ [f], fst (relay_step env f (snd s)))"

definition frame_session :: "relay_env \<Rightarrow> kind \<times> bytes \<Rightarrow> string option" where
  "frame_session env f = map_option snd (decodeRelayFrame env (fst f) (snd f))"

definition accepted_token :: "relay_env \<Rightarrow> string \<Rightarrow> bool" where
  "accepted_token env token \<longleftrightarrow> token \<in> to_lower ` set (re_accepted env)"

text \<open>The request a frame carries, in the clear or, where encryption is required, sealed with a token.\<close>

definition carries :: "relay_env \<Rightarrow> kind \<times> bytes \<Rightarrow> relay_message \<Rightarrow> bool" where
  "carries env f r \<longleftrightarrow>
     (\<exists>incoming session. decodeRelayFrame env (fst f) (snd f) = Some (incoming, session)
        \<and> (if re_required env
           then \<exists>token clear. accepted_token env token \<and> openRemoteFrame env token incoming = Some clear
                  \<and> decode_request env clear = Inr r
           else decode_request env incoming = Inr r))"

text \<open>The frames hold an accepted hello of the session, and no frame of another session after it.\<close>

definition greeted :: "relay_env \<Rightarrow> (kind \<times> bytes) list \<Rightarrow> string \<Rightarrow> socketAuthentication \<Rightarrow> bool" where
  "greeted env fs session auth \<longleftrightarrow>
     (\<exists>pre g post r. fs = pre @ g # post \<and> frame_session env g = Some session \<and> carries env g r \<and> hello_ok env r
        \<and> auth = relayGrantFor (re_identities env) r (re_resolve env)
        \<and> (\<forall>h \<in> set post. frame_session env h \<in> {None, Some session}))"

lemma greeted_more:
  assumes "greeted env fs session auth" and "frame_session env f \<in> {None, Some session}"
  shows "greeted env (fs @ [f]) session auth"
proof -
  from assms(1) obtain pre g post r where "fs = pre @ g # post" "frame_session env g = Some session" "carries env g r"
      "hello_ok env r" "auth = relayGrantFor (re_identities env) r (re_resolve env)"
      "\<forall>h \<in> set post. frame_session env h \<in> {None, Some session}"
    unfolding greeted_def by blast
  with assms(2) show ?thesis
    unfolding greeted_def by (intro exI [of _ pre] exI [of _ g] exI [of _ "post @ [f]"] exI [of _ r]) auto
qed

lemma greeted_new:
  "frame_session env f = Some session \<Longrightarrow> carries env f r \<Longrightarrow> hello_ok env r \<Longrightarrow>
   greeted env (fs @ [f]) session (relayGrantFor (re_identities env) r (re_resolve env))"
  unfolding greeted_def by (intro exI [of _ fs] exI [of _ f] exI [of _ "[]"] exI [of _ r]) auto

definition relay_ok :: "relay_env \<Rightarrow> (kind \<times> bytes) list \<times> relay_session \<Rightarrow> bool" where
  "relay_ok env s \<longleftrightarrow>
     (case s of (fs, st) \<Rightarrow>
        (rs_token st \<noteq> [] \<longrightarrow> accepted_token env (rs_token st))
        \<and> rs_cipher st = (if rs_token st = [] then None else Some (rs_token st))
        \<and> (rs_authenticated st \<longrightarrow> greeted env fs (rs_session st) (rs_granted st)))"

lemma e2ee_token_accepted: "e2ee_token env keyID \<noteq> [] \<Longrightarrow> accepted_token env (e2ee_token env keyID)"
proof (cases "find (\<lambda>candidate. remoteKeyID env candidate = keyID) (map to_lower (re_accepted env))")
  case (Some token)
  then have "token \<in> set (map to_lower (re_accepted env))" by (metis find_Some_iff nth_mem)
  then show ?thesis by (simp add: e2ee_token_def accepted_token_def Some)
qed (simp add: e2ee_token_def)

lemma e2ee_init_cases:
  "(fst (e2ee_init env incoming st) = st \<or>
     (\<exists>token. accepted_token env token \<and> token \<noteq> []
        \<and> fst (e2ee_init env incoming st) = st\<lparr>rs_token := token, rs_cipher := Some token\<rparr>))
   \<and> Served t c \<notin> set (snd (e2ee_init env incoming st))"
proof (cases "re_init env incoming")
  case (Some p)
  obtain ty version keyID where p: "p = (ty, version, keyID)" by (rule prod_cases3)
  show ?thesis using e2ee_token_accepted [of env keyID] by (auto simp: e2ee_init_def Some p Let_def)
qed (simp add: e2ee_init_def)

text \<open>What one frame does, in the four ways it can end.\<close>

lemma relay_step_cases:
  assumes "relay_step env f st = (st', out)"
  obtains (skipped) "frame_session env f = None" "st' = st" "out = []"
  | (greeting) session st1 out1 where "frame_session env f = Some session" "relay_reset session st = (st1, out1)"
      "re_required env" "rs_token st1 = []"
      "st' = st1 \<or> (\<exists>token. accepted_token env token \<and> token \<noteq> [] \<and> st' = st1\<lparr>rs_token := token, rs_cipher := Some token\<rparr>)"
      "\<And>t c. Served t c \<notin> set out"
  | (unreadable) session st1 out1 where "frame_session env f = Some session" "relay_reset session st = (st1, out1)"
      "st' = st1" "out = out1"
  | (served) session st1 out1 incoming clear out2 where "frame_session env f = Some session"
      "relay_reset session st = (st1, out1)" "decodeRelayFrame env (fst f) (snd f) = Some (incoming, session)"
      "relay_serve env clear st1 = (st', out2)" "out = out1 @ out2"
      "if re_required env then rs_token st1 \<noteq> [] \<and> openRemoteFrame env (rs_token st1) incoming = Some clear else clear = incoming"
proof (cases "decodeRelayFrame env (fst f) (snd f)")
  case None
  then show ?thesis using assms skipped by (simp add: relay_step_def frame_session_def)
next
  case (Some p)
  then obtain incoming session st1 out1 where p: "p = (incoming, session)" and r: "relay_reset session st = (st1, out1)"
    by (metis prod.exhaust)
  have session: "frame_session env f = Some session" by (simp add: frame_session_def Some p)
  have quiet: "Served t c \<notin> set out1" for t c using r by (auto simp: relay_reset_def split: if_splits)
  consider (init) "re_required env" "rs_token st1 = []"
    | (sealed) "re_required env" "rs_token st1 \<noteq> []" | (clear) "\<not> re_required env" by blast
  then show ?thesis
  proof cases
    case init
    then have "st' = fst (e2ee_init env incoming st1)" "out = out1 @ snd (e2ee_init env incoming st1)"
      using assms by (auto simp: relay_step_def Some p r map_prod_def split: prod.splits)
    then show ?thesis using init quiet e2ee_init_cases [of env incoming st1] by (intro greeting [OF session r init]) auto
  next
    case sealed
    show ?thesis
    proof (cases "openRemoteFrame env (rs_token st1) incoming")
      case None
      then show ?thesis using assms sealed by (intro unreadable [OF session r]) (auto simp: relay_step_def Some p r)
    next
      case (Some clear)
      then show ?thesis using assms sealed \<open>decodeRelayFrame env (fst f) (snd f) = Some p\<close>
        by (intro served [OF session r, of incoming clear "snd (relay_serve env clear st1)"])
          (auto simp: relay_step_def p r map_prod_def split: prod.splits)
    qed
  next
    case clear
    then show ?thesis using assms Some
      by (intro served [OF session r, of incoming incoming "snd (relay_serve env incoming st1)"])
        (auto simp: relay_step_def p r map_prod_def split: prod.splits)
  qed
qed

lemma relay_serve_cases:
  assumes "relay_serve env clear st = (st', out)"
  shows "rs_token st' = rs_token st \<and> rs_cipher st' = rs_cipher st \<and> rs_session st' = rs_session st
    \<and> (st' = st \<or> (\<exists>r. decode_request env clear = Inr r \<and> hello_ok env r \<and> \<not> rs_authenticated st
          \<and> rs_granted st' = relayGrantFor (re_identities env) r (re_resolve env)))
    \<and> (Served t c \<in> set out \<longrightarrow> rs_authenticated st \<and> st' = st \<and> c = rs_cipher st)"
  using assms
  by (auto simp: relay_serve_def relay_dispatch_def Let_def split: sum.splits if_splits)

lemma relay_reset_cases:
  assumes "relay_reset session st = (st1, out1)"
  shows "rs_session st1 = session \<and> (st1 = st \<or> \<not> rs_authenticated st1 \<and> rs_token st1 = [] \<and> rs_cipher st1 = None)"
  using assms by (auto simp: relay_reset_def split: if_splits)

interpretation relay_system: action_system relay_init "relay_act env" "relay_ok env" for env
proof
  show "relay_ok env s" if "relay_init s" for s
    using that by (simp add: relay_init_def relay_ok_def relay_start_def)
next
  fix s f s'
  assume ok: "relay_ok env s" and act: "relay_act env f s = Some s'"
  obtain fs st where s: "s = (fs, st)" by (rule prod.exhaust)
  obtain st' out where step: "relay_step env f st = (st', out)" by (rule prod.exhaust)
  have s': "s' = (fs @ [f], st')" using act by (simp add: relay_act_def s step)
  have after: "relay_ok env (fs @ [f], st1)" if "frame_session env f = Some session" "relay_reset session st = (st1, out1)"
    for session st1 out1
    using ok that(1) relay_reset_cases [OF that(2)] by (auto simp: s relay_ok_def intro: greeted_more)
  from step show "relay_ok env s'"
  proof (cases rule: relay_step_cases)
    case skipped
    then show ?thesis using ok by (auto simp: s s' relay_ok_def intro: greeted_more)
  next
    case (greeting session st1 out1)
    then show ?thesis using after [OF greeting(1,2)] by (auto simp: s' relay_ok_def)
  next
    case (unreadable session st1 out1)
    then show ?thesis using after by (simp add: s')
  next
    case (served session st1 out1 incoming clear out2)
    have st1: "relay_ok env (fs @ [f], st1)" by (rule after [OF served(1,2)])
    have "carries env f r" if "decode_request env clear = Inr r" for r
      using served(3,6) st1 that by (auto simp: carries_def relay_ok_def split: if_splits)
    then have "st' = st1 \<or> greeted env (fs @ [f]) session (rs_granted st')"
      using relay_serve_cases [OF served(4)] greeted_new [OF served(1)] by metis
    then show ?thesis
      using st1 relay_serve_cases [OF served(4)] relay_reset_cases [OF served(2)] by (auto simp: s' relay_ok_def)
  qed
qed

text \<open>
  C15: Whatever frames the relay delivers, the agent serves a request of a session only after a hello
  with an accepted pairing credential arrived in that same session, with no frame of another session
  in between; it serves it with the grant of that hello, and where encryption is required, the reply
  is sealed with a key of an accepted credential.
\<close>

theorem relay_serves_after_hello:
  assumes "reachable relay_init (relay_act env) (fs, st)" and "Served t c \<in> set (snd (relay_step env f st))"
  shows "\<exists>session. frame_session env f = Some session \<and> greeted env fs session (rs_granted st)
    \<and> (re_required env \<longrightarrow> (\<exists>token. accepted_token env token \<and> c = Some token))"
proof -
  have ok: "relay_ok env (fs, st)" by (rule relay_system.reachable_inv [OF assms(1)])
  obtain st' out where step: "relay_step env f st = (st', out)" by (rule prod.exhaust)
  with assms(2) have out: "Served t c \<in> set out" by simp
  from step show ?thesis
  proof (cases rule: relay_step_cases)
    case (served session st1 out1 incoming clear out2)
    have "Served t c \<in> set out2" using out served(2,5) by (auto simp: relay_reset_def split: if_splits)
    then have "rs_authenticated st1" "c = rs_cipher st1" using relay_serve_cases [OF served(4)] by auto
    moreover have "st1 = st" "rs_session st1 = session"
      using \<open>rs_authenticated st1\<close> relay_reset_cases [OF served(2)] by auto
    ultimately show ?thesis using ok served(1,6) by (auto simp: relay_ok_def)
  qed (use out in \<open>auto simp: relay_reset_def split: if_splits\<close>)
qed

definition sample_relay :: relay_env where
  "sample_relay =
     \<lparr>re_accepted = [replicate 64 (CHR ''A'')], re_required = False, re_envelope = (\<lambda>_. None), re_init = (\<lambda>_. None),
      re_sealed = (\<lambda>_. None),
      re_message = (\<lambda>bs. Inr (if bs = [1] then relay_hello ''k'' \<lparr>rm_TokenHash := replicate 64 (CHR ''a'')\<rparr>
                             else relay_hello [] \<lparr>m_Type := ''ping''\<rparr>)),
      re_b64 = string_of, re_unb64 = (\<lambda>s. Some (bytes_of s)), re_sha = bytes_of, re_hex = string_of,
      re_gcm_open = (\<lambda>_ _ _. None), re_gcm_seal = (\<lambda>_ _ _. []), re_marshal = (\<lambda>_. []),
      re_identities = [relay_identity ''k'' [''fs.list'']], re_resolve = (\<lambda>_. None), re_sprint = (\<lambda>_. [])\<rparr>"

definition sample_relay_frame :: "byte \<Rightarrow> kind \<times> bytes" where
  "sample_relay_frame b = (BinaryFrame, bytes_of ''DRL1'' @ [0, 1] @ bytes_of ''s'' @ [b])"

theorem relay_serves_after_hello_witness:
  "greeted sample_relay [sample_relay_frame 1] ''s'' (rs_granted (fst (relay_step sample_relay (sample_relay_frame 1) relay_start)))"
proof -
  let ?st = "fst (relay_step sample_relay (sample_relay_frame 1) relay_start)"
  have "reachable relay_init (relay_act sample_relay) ([], relay_start)"
    by (rule reachable.start) (simp add: relay_init_def)
  then have "reachable relay_init (relay_act sample_relay) ([sample_relay_frame 1], ?st)"
    by (rule reachable.action [of _ _ _ "sample_relay_frame 1"]) (simp add: relay_act_def)
  moreover have "snd (relay_step sample_relay (sample_relay_frame 2) ?st) = [Served (Answer (Pong [])) None]"
    by code_simp
  moreover have "frame_session sample_relay (sample_relay_frame 2) = Some ''s''"
    by code_simp
  ultimately show ?thesis
    using relay_serves_after_hello [of sample_relay "[sample_relay_frame 1]" ?st "Answer (Pong [])" None "sample_relay_frame 2"]
    by auto
qed

subsection \<open>Sealed frames\<close>

text \<open>
  A frame sealed with a credential is opened with it again, for every payload that is not empty.
  What is assumed is documented of the libraries: AES-GCM opens what it sealed under a 12 byte nonce
  and appends a tag of 16 bytes, base64 decodes what it encoded, and JSON decodes what it encoded.
\<close>

theorem sealed_frame_round_trip:
  assumes "re_gcm_open env key nonce (re_gcm_seal env key nonce payload) = Some payload"
    and "length (re_gcm_seal env key nonce payload) = length payload + 16"
    and "re_unb64 env \<circ> re_b64 env = Some"
    and "\<forall>n c t. re_sealed env (re_marshal env (''dynapp-e2ee'', 1, n, c, t)) = Some (''dynapp-e2ee'', 1, n, c, t)"
    and "key = remoteTrafficKey env token" and "length nonce = 12" and "payload \<noteq> []"
  shows "openRemoteFrame env token (sealRemoteFrame env nonce token payload) = Some payload"
proof -
  have b: "re_unb64 env (re_b64 env x) = Some x" for x using assms(3) by (metis comp_apply)
  have "take (length payload) (re_gcm_seal env key nonce payload) \<noteq> []" using assms(2,7) by auto
  then show ?thesis
    using assms(1,2,4-7) by (simp add: openRemoteFrame_def sealRemoteFrame_def Let_def b)
qed

definition sample_marshal :: "string \<times> int \<times> string \<times> string \<times> string \<Rightarrow> bytes" where
  "sample_marshal e =
     (case e of (ty, v, n, c, t) \<Rightarrow> replicate (length n) 1 @ 0 # replicate (length c) 1 @ 0 # bytes_of (n @ c @ t))"

definition sample_unmarshal :: "bytes \<Rightarrow> (string \<times> int \<times> string \<times> string \<times> string) option" where
  "sample_unmarshal bs =
     (let a = length (takeWhile (\<lambda>b. b = 1) bs); r = drop (a + 1) bs; k = length (takeWhile (\<lambda>b. b = 1) r);
          s = string_of (drop (k + 1) r)
      in Some (''dynapp-e2ee'', 1, take a s, take k (drop a s), drop (a + k) s))"

lemma sample_unmarshal_marshal:
  "sample_unmarshal (sample_marshal (''dynapp-e2ee'', 1, n, c, t)) = Some (''dynapp-e2ee'', 1, n, c, t)"
  by (simp add: sample_unmarshal_def sample_marshal_def Let_def takeWhile_append takeWhile_replicate)

definition sample_sealing :: relay_env where
  "sample_sealing = sample_relay\<lparr>re_sealed := sample_unmarshal, re_marshal := sample_marshal,
     re_gcm_seal := (\<lambda>_ _ payload. payload @ replicate 16 7),
     re_gcm_open := (\<lambda>_ _ sealed. Some (take (length sealed - 16) sealed))\<rparr>"

theorem sealed_frame_round_trip_witness:
  "openRemoteFrame sample_sealing ''t'' (sealRemoteFrame sample_sealing (replicate 12 5) ''t'' [1, 2, 3]) = Some [1, 2, 3]"
proof (rule sealed_frame_round_trip [where key = "remoteTrafficKey sample_sealing ''t''" and nonce = "replicate 12 5"])
  show "re_unb64 sample_sealing \<circ> re_b64 sample_sealing = Some"
    by (rule ext) (simp add: sample_sealing_def sample_relay_def bytes_of_string_of)
qed (simp_all add: sample_sealing_def sample_relay_def sample_unmarshal_marshal)

subsection \<open>Networks\<close>

text \<open>
  No request of a relayed browser ever opens a network bridge: the loop does not read the protocol
  of a \<open>net\<close> frame, so it asks for the permission of a protocol without a name, and a request that
  passes is refused as invalid by the network service.
\<close>

theorem relay_never_opens_bridges:
  assumes "Served (ToNetwork q protocol b) c \<in> set (snd (relay_step env f st))"
  shows "protocol = [] \<and> handleNetwork t carrier q body n \<noteq> Inr (Opening t p carrier)
    \<and> (m_Action q = ''open'' \<longrightarrow> handleNetwork t carrier q body n = Inl (NetError (m_ID q) ''Remote network request is invalid''))"
proof -
  obtain st' out where step: "relay_step env f st = (st', out)" by (rule prod.exhaust)
  with assms have out: "Served (ToNetwork q protocol b) c \<in> set out" by simp
  from step have "protocol = [] \<and> (protocolString (m_Protocol q) = [] \<or> m_Action q \<noteq> ''open'')"
  proof (cases rule: relay_step_cases)
    case (served session st1 out1 incoming clear out2)
    have "Served (ToNetwork q protocol b) c \<in> set out2" using out served(2,5) by (auto simp: relay_reset_def split: if_splits)
    then show ?thesis using served(4)
      by (auto simp: relay_serve_def relay_dispatch_def Let_def protocolString_def split: sum.splits if_splits)
  qed (use out in \<open>auto simp: relay_reset_def split: if_splits\<close>)
  then show ?thesis by (auto simp: handleNetwork_def net_open_ok_def Let_def split: option.splits)
qed

definition sample_net_request :: relay_message where
  "sample_net_request = relay_hello []\<lparr>m_Type := ''net'', m_ID := ''n'', m_Action := ''open'', m_Protocol := StrV ''tcp'',
     m_Host := ''localhost'', m_Port := 22\<rparr>"

theorem relay_never_opens_bridges_witness:
  "\<forall>n. handleNetwork 0 0 (message.truncate sample_net_request\<lparr>m_Protocol := NilV\<rparr>) [] n
     = Inl (NetError ''n'' ''Remote network request is invalid'')"
proof
  fix n
  let ?env = "sample_relay\<lparr>re_message := (\<lambda>_. Inr sample_net_request)\<rparr>"
  let ?st = "relay_start\<lparr>rs_session := ''s'', rs_authenticated := True,
    rs_granted := no_auth\<lparr>sa_capabilities := [''net.protocol.'']\<rparr>\<rparr>"
  let ?q = "message.truncate sample_net_request\<lparr>m_Protocol := NilV\<rparr>"
  have "snd (relay_step ?env (sample_relay_frame 0) ?st) = [Served (ToNetwork ?q [] True) None]" by code_simp
  then have "Served (ToNetwork ?q [] True) None \<in> set (snd (relay_step ?env (sample_relay_frame 0) ?st))" by simp
  then have "m_Action ?q = ''open'' \<longrightarrow> handleNetwork 0 0 ?q [] n = Inl (NetError (m_ID ?q) ''Remote network request is invalid'')"
    by (rule relay_never_opens_bridges [THEN conjunct2, THEN conjunct2])
  moreover have "m_Action ?q = ''open''" "m_ID ?q = ''n''" by code_simp+
  ultimately show "handleNetwork 0 0 ?q [] n = Inl (NetError ''n'' ''Remote network request is invalid'')" by simp
qed

subsection \<open>Tickets\<close>

text \<open>A ticket replaces the stored identities by the list it comes with: an identity approved on this
  device, which \<open>mergeSyncedIdentities\<close> keeps, is gone unless the relay lists it.\<close>

theorem ticket_drops_local_approvals:
  "normalizeBrowserIdentities key_hash received = Inr ids \<Longrightarrow> i \<notin> set received \<Longrightarrow>
   i \<notin> set (relay_identities key_hash existing received)"
  using normalize_loop_subset by (fastforce simp: relay_identities_def normalizeBrowserIdentities_def)

end
