(* ===== verification/Rdp.thy ===== *)
theory Rdp
  imports Go_Prelude
begin

unbundle bit_operations_syntax

text \<open>
  The RDP bridge (\<open>shellagent/rdp/rdp.go\<close>): the DER reader and writer, RDCleanPath requests, responses
  and errors, TPKT packets, and the course of \<open>runRDPBridge\<close> with the answers of the network and of
  the TLS library given. Lengths are Go ints of 64 bits: a DER length of four bytes does not wrap.
\<close>

subsection \<open>DER\<close>

definition derLength :: "bytes \<Rightarrow> nat \<Rightarrow> string + nat \<times> nat" where
  "derLength data offset =
     (if offset \<ge> length data then Inl ''unexpected EOF''
      else
        (let first = unat (data ! offset) in
         if first < 128 then Inr (first, 1)
         else
           (let cnt = first mod 128 in
            if cnt < 1 \<or> cnt > 4 \<or> offset + 1 + cnt > length data then Inl ''invalid DER length''
            else Inr (be_nat 0 (take cnt (drop (offset + 1) data)), 1 + cnt))))"

definition derTLV :: "bytes \<Rightarrow> nat \<Rightarrow> string + byte \<times> bytes \<times> nat" where
  "derTLV data offset =
     (if offset \<ge> length data then Inl ''unexpected EOF''
      else
        (case derLength data (offset + 1) of
           Inl e \<Rightarrow> Inl e
         | Inr (len, lengthBytes) \<Rightarrow>
             (let start = offset + 1 + lengthBytes; stop = start + len in
              if stop > length data then Inl ''unexpected EOF''
              else Inr (data ! offset, take len (drop start data), stop))))"

lemma derTLV_progress: "derTLV data offset = Inr (t, v, following) \<Longrightarrow> offset < following \<and> following \<le> length data"
  by (auto simp: derTLV_def Let_def split: if_splits sum.splits prod.splits)

function derExplicit_from :: "bytes \<Rightarrow> byte \<Rightarrow> nat \<Rightarrow> bytes option" where
  "derExplicit_from root tag offset =
     (if offset \<ge> length root then None
      else
        (case derTLV root offset of
           Inl _ \<Rightarrow> None
         | Inr (current, v, following) \<Rightarrow> if current = tag then Some v else derExplicit_from root tag following))"
  by pat_completeness auto
termination
  by (relation "measure (\<lambda>(root, tag, offset). length root - offset)") (auto dest!: derTLV_progress sym [of _ "derTLV _ _"])

declare derExplicit_from.simps [simp del]

definition derExplicit :: "bytes \<Rightarrow> byte \<Rightarrow> bytes option" where
  "derExplicit root tag = derExplicit_from root tag 0"

definition derInner :: "bytes \<Rightarrow> byte \<Rightarrow> string + bytes" where
  "derInner v expected =
     (case derTLV v 0 of
        Inl _ \<Rightarrow> Inl ''invalid RDCleanPath field''
      | Inr (tag, inner, following) \<Rightarrow>
          if tag \<noteq> expected \<or> following \<noteq> length v then Inl ''invalid RDCleanPath field'' else Inr inner)"

definition derEncodeLength :: "nat \<Rightarrow> bytes" where
  "derEncodeLength len =
     (if len < 128 then [word_of_nat len]
      else if len \<le> 255 then [0x81, word_of_nat len]
      else [0x82, word_of_nat (len div 256), word_of_nat len])"

definition derEncode :: "byte \<Rightarrow> bytes \<Rightarrow> bytes" where
  "derEncode tag content = tag # derEncodeLength (length content) @ content"

definition derExplicitValue :: "byte \<Rightarrow> bytes \<Rightarrow> bytes" where
  "derExplicitValue tag inner = derEncode (0xa0 + tag) inner"

subsection \<open>RDCleanPath\<close>

record rdcCleanPathRequest =
  rq_Destination :: string
  rq_ProxyAuth :: string
  rq_X224 :: bytes

text \<open>The version is read into a 64-bit int.\<close>

definition version_number :: "bytes \<Rightarrow> 64 word" where
  "version_number = foldl (\<lambda>number b. push_bit 8 number OR ucast b) 0"

definition incomplete_request :: string where
  "incomplete_request = ''incomplete RDCleanPath request''"

definition parseRdcCleanPathRequest :: "bytes \<Rightarrow> string + rdcCleanPathRequest" where
  "parseRdcCleanPathRequest data =
     (case derTLV data 0 of
        Inl _ \<Rightarrow> Inl ''invalid RDCleanPath request''
      | Inr (tag, root, _) \<Rightarrow>
          if tag \<noteq> 0x30 then Inl ''invalid RDCleanPath request''
          else
            (case derExplicit root 0xa0 of
               None \<Rightarrow> Inl incomplete_request
             | Some versionField \<Rightarrow>
                 (case derInner versionField 0x02 of
                    Inl _ \<Rightarrow> Inl incomplete_request
                  | Inr version \<Rightarrow>
                      if version = [] then Inl incomplete_request
                      else if version_number version \<noteq> 3390 then Inl incomplete_request
                      else
                        (case derExplicit root 0xa2 of
                           None \<Rightarrow> Inl incomplete_request
                         | Some destinationField \<Rightarrow>
                             (case derInner destinationField 0x0c of
                                Inl e \<Rightarrow> Inl e
                              | Inr destination \<Rightarrow>
                                  (case derExplicit root 0xa6 of
                                     None \<Rightarrow> Inl incomplete_request
                                   | Some x224Field \<Rightarrow>
                                       (case derInner x224Field 0x04 of
                                          Inl e \<Rightarrow> Inl e
                                        | Inr x224 \<Rightarrow>
                                            Inr \<lparr>rq_Destination = string_of destination,
                                              rq_ProxyAuth =
                                                (case derExplicit root 0xa3 of
                                                   None \<Rightarrow> []
                                                 | Some field \<Rightarrow>
                                                     (case derInner field 0x0c of Inl _ \<Rightarrow> [] | Inr v \<Rightarrow> string_of v)),
                                              rq_X224 = x224\<rparr>)))))))"

definition encodeRdcCleanPathResponse :: "string \<Rightarrow> bytes \<Rightarrow> bytes list \<Rightarrow> bytes" where
  "encodeRdcCleanPathResponse address x224 certificates =
     (let chain = concat (map (derEncode 0x04) certificates) in
      derEncode 0x30
        (derExplicitValue 0 (derEncode 0x02 [0x0d, 0x3e])
         @ derExplicitValue 6 (derEncode 0x04 x224)
         @ derExplicitValue 7 (derEncode 0x30 chain)
         @ derExplicitValue 9 (derEncode 0x0c (bytes_of address))))"

definition wsa_bytes :: "16 word \<Rightarrow> bytes" where
  "wsa_bytes wsaError =
     (let v = [ucast (drop_bit 8 wsaError), ucast wsaError] in if v ! 0 AND 0x80 \<noteq> 0 then 0 # v else v)"

definition encodeRdcCleanPathError :: "16 word \<Rightarrow> bytes" where
  "encodeRdcCleanPathError wsaError =
     (let errorFields = derExplicitValue 0 (derEncode 0x02 [0x01])
            @ (if wsaError \<noteq> 0 then derExplicitValue 2 (derEncode 0x02 (wsa_bytes wsaError)) else [])
      in derEncode 0x30 (derExplicitValue 0 (derEncode 0x02 [0x0d, 0x3e]) @ derExplicitValue 1 (derEncode 0x30 errorFields)))"

text \<open>The errors \<open>rdpWSAError\<close> tells apart.\<close>

datatype dial_error =
    PermissionDenied | NetworkUnreachable | ConnectionReset | TimedOut | ConnectionRefused | HostDown | HostUnreachable
  | DNSFailure | OtherFailure

definition rdpWSAError :: "dial_error \<Rightarrow> 16 word" where
  "rdpWSAError e =
     (case e of
        PermissionDenied \<Rightarrow> 10013 | NetworkUnreachable \<Rightarrow> 10051 | ConnectionReset \<Rightarrow> 10054 | TimedOut \<Rightarrow> 10060
      | ConnectionRefused \<Rightarrow> 10061 | HostDown \<Rightarrow> 10064 | HostUnreachable \<Rightarrow> 10065 | DNSFailure \<Rightarrow> 11001 | OtherFailure \<Rightarrow> 0)"

subsection \<open>Streams\<close>

text \<open>A reader is the bytes that will arrive: the result has what was read and what is left.\<close>

definition readDER :: "nat \<Rightarrow> bytes \<Rightarrow> string + bytes \<times> bytes" where
  "readDER limit stream =
     (if length stream < 2 then Inl ''unexpected EOF''
      else
        (let cnt = (if stream ! 1 AND 0x80 \<noteq> 0 then unat (stream ! 1 AND 0x7f) else 0) in
         if stream ! 1 AND 0x80 \<noteq> 0 \<and> (cnt < 1 \<or> cnt > 4) then Inl ''invalid DER length''
         else if length stream < 2 + cnt then Inl ''unexpected EOF''
         else
           (let lengthBytes = take (1 + cnt) (drop 1 stream) in
            case derLength lengthBytes 0 of
              Inl e \<Rightarrow> Inl e
            | Inr (len, consumed) \<Rightarrow>
                if len > limit then Inl ''RDCleanPath request is too large''
                else if length stream < 2 + cnt + len then Inl ''unexpected EOF''
                else Inr (stream ! 0 # take consumed lengthBytes @ take len (drop (2 + cnt) stream),
                          drop (2 + cnt + len) stream))))"

definition readTPKT :: "bytes \<Rightarrow> string + bytes \<times> bytes" where
  "readTPKT stream =
     (if length stream < 4 then Inl ''unexpected EOF''
      else
        (let len = be_nat 0 (take 2 (drop 2 stream)) in
         if len < 4 \<or> len > 65535 then Inl ''invalid X.224 response''
         else if length stream < len then Inl ''unexpected EOF''
         else Inr (take 4 stream @ take (len - 4) (drop 4 stream), drop len stream)))"

subsection \<open>The compatibility retry\<close>

definition le_nat :: "bytes \<Rightarrow> nat" where
  "le_nat bs = be_nat 0 (rev bs)"

text \<open>The loop over \<open>offset\<close>; \<open>fuel\<close> bounds its rounds, and the length of the request is enough.\<close>

fun tls_only_loop :: "nat \<Rightarrow> nat \<Rightarrow> bytes \<Rightarrow> bytes" where
  "tls_only_loop 0 offset request = request"
| "tls_only_loop (Suc fuel) offset request =
     (if offset + 8 > length request then request
      else if request ! offset \<noteq> 0x01 \<or> le_nat (take 2 (drop (offset + 2) request)) \<noteq> 8
      then tls_only_loop fuel (offset + 1) request
      else
        (let protocols = le_nat (take 4 (drop (offset + 4) request)) in
         if protocols mod 2 = 0 then request
         else take (offset + 4) request @ [0x01, 0, 0, 0] @ drop (offset + 8) request))"

definition preferTLSOnlyRDPNegotiation :: "bytes \<Rightarrow> bytes" where
  "preferTLSOnlyRDPNegotiation v = tls_only_loop (length v) 11 v"

subsection \<open>The bridge\<close>

definition openRDPBridge_ok :: "string \<Rightarrow> int \<Rightarrow> bool" where
  "openRDPBridge_ok host port \<longleftrightarrow>
     \<not> (trim_space host = [] \<or> contains_any host [CHR '' '', CHR ''/'', CHR 0x5C, CHR ''?'', CHR ''#'', CHR 0x00]
        \<or> port < 1 \<or> port > 65535)"

text \<open>What the bridge does in its course.\<close>

datatype rdp_action =
    DialX224 string bytes
  | Handshake bool
  | WriteClient bytes
  | CloseTarget
  | CopyBoth

text \<open>A dial fails, or connects to a target whose answer is a stream of bytes; a handshake fails with the error
  it reports and whether that error is about the protocol version. \<open>rw_address\<close> is
  \<open>net.JoinHostPort(host, fmt.Sprint(port))\<close>.\<close>

record rdp_world =
  rw_address :: string
  rw_dial :: "dial_error + bytes"
  rw_tls :: "(bool \<times> dial_error) option"
  rw_legacy_dial :: "dial_error + bytes"
  rw_legacy_tls :: "dial_error option"
  rw_certificates :: "bytes list"
  rw_client_write :: bool

definition dialRDPX224 :: "dial_error + bytes \<Rightarrow> dial_error + bytes" where
  "dialRDPX224 connection =
     (case connection of
        Inl e \<Rightarrow> Inl e
      | Inr stream \<Rightarrow> (case readTPKT stream of Inl _ \<Rightarrow> Inl OtherFailure | Inr (packet, _) \<Rightarrow> Inr packet))"

definition write_error :: "dial_error \<Rightarrow> rdp_action" where
  "write_error e = WriteClient (encodeRdcCleanPathError (rdpWSAError e))"

definition finish_bridge :: "rdp_world \<Rightarrow> bytes \<Rightarrow> rdp_action list" where
  "finish_bridge w x224 =
     [WriteClient (encodeRdcCleanPathResponse (rw_address w) x224 (rw_certificates w))]
     @ (if rw_client_write w then [CopyBoth, CloseTarget] else [CloseTarget])"

definition runRDPBridge :: "string \<Rightarrow> string \<Rightarrow> rdp_world \<Rightarrow> bytes \<Rightarrow> rdp_action list" where
  "runRDPBridge host token w client =
     (case readDER (32 * 1024 * 1024) client of
        Inl _ \<Rightarrow> []
      | Inr (requestBytes, _) \<Rightarrow>
          (case parseRdcCleanPathRequest requestBytes of
             Inl _ \<Rightarrow> []
           | Inr request \<Rightarrow>
               if rq_ProxyAuth request \<noteq> token \<or> (rq_Destination request \<noteq> host \<and> rq_Destination request \<noteq> rw_address w)
               then []
               else
                 DialX224 (rw_address w) (rq_X224 request) #
                 (case dialRDPX224 (rw_dial w) of
                    Inl e \<Rightarrow> [write_error e]
                  | Inr x224 \<Rightarrow>
                      Handshake False #
                      (case rw_tls w of
                         None \<Rightarrow> finish_bridge w x224
                       | Some (version_error, e) \<Rightarrow>
                           CloseTarget #
                           (if \<not> version_error then [write_error e]
                            else
                              DialX224 (rw_address w) (preferTLSOnlyRDPNegotiation (rq_X224 request)) #
                              (case dialRDPX224 (rw_legacy_dial w) of
                                 Inl e2 \<Rightarrow> [write_error e2]
                               | Inr x224' \<Rightarrow>
                                   Handshake True #
                                   (case rw_legacy_tls w of
                                      Some e3 \<Rightarrow> [CloseTarget, write_error e3]
                                    | None \<Rightarrow> finish_bridge w x224')))))))"

end
