(* ===== verification/Rdp_Properties.thy ===== *)
theory Rdp_Properties
  imports Rdp
begin

text \<open>
  DER values written by the agent are read back, up to the length its encoder can write; requests in
  the RDCleanPath form are read off the stream; the bridge dials only for its own token and target.
\<close>

subsection \<open>DER values\<close>

lemma unat_word_of_nat_byte: "unat (word_of_nat n :: byte) = n mod 256"
  by (simp add: unat_of_nat)

lemma derEncodeLength_length: "length (derEncodeLength n) \<le> 3"
  by (simp add: derEncodeLength_def)

lemma derLength_encoded:
  assumes "n \<le> 65535"
  shows "derLength (pre @ derEncodeLength n @ rest) (length pre) = Inr (n, length (derEncodeLength n))"
proof -
  have "n div 256 * 256 + n mod 256 = n" "n div 256 mod 256 = n div 256" using assms by simp_all
  then show ?thesis using assms
    by (auto simp: derLength_def derEncodeLength_def nth_append unat_word_of_nat_byte Let_def)
qed

lemma derTLV_at:
  assumes "length c \<le> 65535"
  shows "derTLV (pre @ derEncode t c @ rest) (length pre) = Inr (t, c, length pre + length (derEncode t c))"
proof -
  have "derLength ((pre @ [t]) @ derEncodeLength (length c) @ (c @ rest)) (length (pre @ [t]))
      = Inr (length c, length (derEncodeLength (length c)))"
    by (rule derLength_encoded [OF assms])
  then show ?thesis by (simp add: derTLV_def derEncode_def nth_append Let_def)
qed

lemma derTLV_head:
  "length c \<le> 65535 \<Longrightarrow> derTLV (derEncode t c @ rest) 0 = Inr (t, c, length (derEncode t c))"
  "length c \<le> 65535 \<Longrightarrow> derTLV (derEncode t c) 0 = Inr (t, c, length (derEncode t c))"
  using derTLV_at [of c "[]" t rest] derTLV_at [of c "[]" t "[]"] by simp_all

lemma derLength_shift: "derLength (pre @ xs) (length pre + i) = derLength xs i"
  by (simp add: derLength_def nth_append Let_def)

lemma derTLV_shift:
  "derTLV (pre @ xs) (length pre + i) = map_sum id (\<lambda>(t, v, n). (t, v, length pre + n)) (derTLV xs i)"
  using derLength_shift [of pre xs "i + 1"]
  by (auto simp: derTLV_def nth_append Let_def add.assoc split: sum.split)

lemma derExplicit_from_shift: "derExplicit_from (pre @ xs) tag (length pre + i) = derExplicit_from xs tag i"
proof (induction xs tag i rule: derExplicit_from.induct)
  case (1 xs tag i)
  show ?case
  proof (cases "i < length xs")
    case True
    then show ?thesis
      using 1 by (simp add: derExplicit_from.simps [of _ _ "length pre + i"] derExplicit_from.simps [of xs tag i]
          derTLV_shift split: sum.split)
  next
    case False
    then show ?thesis by (simp add: derExplicit_from.simps)
  qed
qed

lemma derExplicit_encoded:
  assumes "length c \<le> 65535"
  shows "derExplicit (derEncode t c @ rest) tag = (if t = tag then Some c else derExplicit rest tag)"
proof -
  have "derEncode t c \<noteq> []" by (simp add: derEncode_def)
  then show ?thesis
    using derExplicit_from_shift [of "derEncode t c" rest tag 0] derTLV_head(1) [OF assms, of t rest]
    by (simp add: derExplicit_def derExplicit_from.simps [of "derEncode t c @ rest"])
qed

lemma derExplicit_single:
  "length c \<le> 65535 \<Longrightarrow> derExplicit (derEncode t c) tag = (if t = tag then Some c else None)"
  using derExplicit_encoded [of c t "[]" tag] by (simp add: derExplicit_def derExplicit_from.simps)

lemma derExplicit_nothing: "derExplicit [] tag = None"
  by (simp add: derExplicit_def derExplicit_from.simps)

lemma derInner_encoded: "length c \<le> 65535 \<Longrightarrow> derInner (derEncode t c) t = Inr c"
  by (simp add: derInner_def derTLV_head)

text \<open>The contract of self-delimiting encodings, for the values the encoder can write.\<close>

definition der_next :: "bytes \<Rightarrow> ((byte \<times> bytes) \<times> bytes) option" where
  "der_next data = (case derTLV data 0 of Inl _ \<Rightarrow> None | Inr (t, c, following) \<Rightarrow> Some ((t, c), drop following data))"

interpretation der: prefix_codec "\<lambda>(t, c). derEncode t c" der_next "\<lambda>(t, c). length c \<le> 65535"
  by unfold_locales (auto simp: der_next_def derTLV_head)

text \<open>
  DER values up to 65535 bytes are written so that they can be read back, one after the other and
  whatever follows: the values of a response, its certificate chain for instance, are the ones it was
  built from, and no two lists of values are written alike.
\<close>

theorem der_values_round_trip:
  assumes "list_all (\<lambda>(t, c). length c \<le> 65535) vs"
  shows "decode_many der_next (length vs) (concat (map (\<lambda>(t, c). derEncode t c) vs) @ rest) = Some (vs, rest)"
  by (rule der.decode_stream [OF assms])

theorem der_values_round_trip_witness:
  "decode_many der_next 2 (derEncode 4 (replicate 200 7) @ derEncode 0x0c [1] @ [9]) = Some ([(4, replicate 200 7), (0x0c, [1])], [9])"
  using der_values_round_trip [of "[(4, replicate 200 7), (0x0c, [1])]" "[9]"] by (simp add: numeral_2_eq_2)

text \<open>
  Longer values are written with a length that has lost its upper bytes: what is read back is only
  the first bytes of the value, so a certificate chain above 64 KiB does not arrive.
\<close>

theorem long_der_values_are_cut:
  assumes "65535 < length c"
  shows "derTLV (derEncode t c) 0 = Inr (t, take (length c mod 65536) c, 4 + length c mod 65536)"
proof -
  have "length c div 256 mod 256 * 256 + length c mod 256 = length c mod 65536"
    using mod_mult2_eq [of "length c" 256 256] by simp
  moreover have "derEncode t c = t # 0x82 # word_of_nat (length c div 256) # word_of_nat (length c) # c"
    using assms by (simp add: derEncode_def derEncodeLength_def)
  moreover have "length c mod 65536 \<le> length c" by simp
  ultimately show ?thesis by (simp add: derTLV_def derLength_def unat_word_of_nat_byte)
qed

subsection \<open>Requests\<close>

lemma high_bit: "(w :: byte) AND 0x80 = 0 \<longleftrightarrow> unat w < 128"
proof -
  have "w AND 2 ^ 7 = 0 \<longleftrightarrow> \<not> bit w 7" by (rule and_exp_eq_0_iff_not_bit)
  moreover have "bit w 7 \<longleftrightarrow> odd (unat w div 2 ^ 7)"
    using bit_iff_odd [of "unat w" 7] by (simp add: bit_unsigned_iff)
  moreover have "unat w div 128 < 2" using unat_byte_less [of w] by simp
  ultimately show ?thesis by (auto simp: less_2_cases_iff)
qed

lemma readDER_encoded:
  assumes "length c \<le> 65535"
  shows "readDER (32 * 1024 * 1024) (derEncode t c @ rest) = Inr (derEncode t c, rest)"
proof -
  have low: "word_of_nat n AND 0x80 = (0 :: byte) \<longleftrightarrow> n mod 256 < 128" for n
    by (simp add: high_bit unat_word_of_nat_byte)
  have "length c div 256 * 256 + length c mod 256 = length c" "length c div 256 mod 256 = length c div 256"
    using assms by simp_all
  with assms show ?thesis
    by (auto simp: readDER_def derLength_def derEncode_def derEncodeLength_def low unat_word_of_nat_byte Let_def
        take_Cons' drop_Cons')
qed

text \<open>The request of an RDCleanPath client, as it writes it.\<close>

definition cleanpath_request :: "string \<Rightarrow> string \<Rightarrow> bytes \<Rightarrow> bytes" where
  "cleanpath_request destination proxy x224 =
     derEncode 0x30
       (derExplicitValue 0 (derEncode 0x02 [0x0d, 0x3e]) @ derExplicitValue 2 (derEncode 0x0c (bytes_of destination))
        @ derExplicitValue 3 (derEncode 0x0c (bytes_of proxy)) @ derExplicitValue 6 (derEncode 0x04 x224))"

lemma derEncode_length: "length (derEncode t c) \<le> length c + 4"
  using derEncodeLength_length [of "length c"] by (simp add: derEncode_def)

lemma version_is_3390: "version_number [0x0d, 0x3e] = 3390"
  by (simp add: version_number_def)

text \<open>
  A request of an RDCleanPath client is read off the stream whole, whatever follows it, and parsed
  into the destination, the token and the X.224 packet it was made of.
\<close>

theorem cleanpath_request_round_trip:
  assumes "length destination + length proxy + length x224 \<le> 65000"
  shows "readDER (32 * 1024 * 1024) (cleanpath_request destination proxy x224 @ rest)
      = Inr (cleanpath_request destination proxy x224, rest)
    \<and> parseRdcCleanPathRequest (cleanpath_request destination proxy x224)
      = Inr \<lparr>rq_Destination = destination, rq_ProxyAuth = proxy, rq_X224 = x224\<rparr>"
proof -
  let ?d = "derEncode 0x0c (bytes_of destination)" and ?p = "derEncode 0x0c (bytes_of proxy)" and ?x = "derEncode 0x04 x224"
  let ?v = "derEncode 0x02 [0x0d, 0x3e]"
  let ?body = "derExplicitValue 0 ?v @ derExplicitValue 2 ?d @ derExplicitValue 3 ?p @ derExplicitValue 6 ?x"
  have l: "length ?d \<le> 65535" "length ?p \<le> 65535" "length ?x \<le> 65535" "length ?v \<le> 65535"
    using assms derEncode_length [of "0x0c" "bytes_of destination"] derEncode_length [of "0x0c" "bytes_of proxy"]
      derEncode_length [of "0x04" x224] derEncode_length [of "0x02" "[0x0d, 0x3e]"] by simp_all
  have body: "length ?body \<le> 65535"
    using assms derEncode_length [of "0x0c" "bytes_of destination"] derEncode_length [of "0x0c" "bytes_of proxy"]
      derEncode_length [of "0x04" x224] derEncode_length [of "0x02" "[0x0d, 0x3e]"]
      derEncode_length [of "0xa0 + 0" ?v] derEncode_length [of "0xa0 + 2" ?d] derEncode_length [of "0xa0 + 3" ?p]
      derEncode_length [of "0xa0 + 6" ?x]
    by (simp add: derExplicitValue_def)
  have inner: "derInner ?d 0x0c = Inr (bytes_of destination)" "derInner ?p 0x0c = Inr (bytes_of proxy)"
      "derInner ?x 0x04 = Inr x224" "derInner ?v 0x02 = Inr [0x0d, 0x3e]"
    using assms by (simp_all add: derInner_encoded)
  have fields: "derExplicit ?body 0xa0 = Some ?v" "derExplicit ?body 0xa2 = Some ?d" "derExplicit ?body 0xa3 = Some ?p"
      "derExplicit ?body 0xa6 = Some ?x"
    using l by (simp_all add: derExplicitValue_def derExplicit_encoded derExplicit_single)
  show ?thesis
    using readDER_encoded [OF body, where t = "0x30" and rest = rest] derTLV_head(2) [OF body, where t = "0x30"]
    by (simp add: cleanpath_request_def parseRdcCleanPathRequest_def fields inner version_is_3390)
qed

theorem cleanpath_request_round_trip_witness:
  "parseRdcCleanPathRequest (cleanpath_request ''pc:3389'' ''token'' [3, 0, 0, 4])
     = Inr \<lparr>rq_Destination = ''pc:3389'', rq_ProxyAuth = ''token'', rq_X224 = [3, 0, 0, 4]\<rparr>"
  using cleanpath_request_round_trip [of "''pc:3389''" "''token''" "[3, 0, 0, 4]"] by simp

subsection \<open>The bridge\<close>

text \<open>
  C17: The bridge touches the network only for a client that sends the bridge's own token and names its
  own target; it dials that target only, the first time with the client's packet as it is; and it
  starts copying only after a TLS handshake succeeded.
\<close>

theorem rdp_bridge_serves_its_token:
  assumes "runRDPBridge host token w client = acts" and "acts \<noteq> []"
  shows "(\<exists>request rest bytes. readDER (32 * 1024 * 1024) client = Inr (bytes, rest) \<and> parseRdcCleanPathRequest bytes = Inr request
        \<and> rq_ProxyAuth request = token \<and> rq_Destination request \<in> {host, rw_address w}
        \<and> hd acts = DialX224 (rw_address w) (rq_X224 request))
    \<and> (DialX224 address x \<in> set acts \<longrightarrow> address = rw_address w)
    \<and> (CopyBoth \<in> set acts \<longrightarrow> (Handshake False \<in> set acts \<and> rw_tls w = None) \<or> (Handshake True \<in> set acts \<and> rw_legacy_tls w = None))"
  using assms
  by (auto simp: runRDPBridge_def finish_bridge_def write_error_def split: sum.splits prod.splits if_splits option.splits)

definition sample_rdp :: rdp_world where
  "sample_rdp = \<lparr>rw_address = ''pc:3389'', rw_dial = Inr [3, 0, 0, 5, 9], rw_tls = Some (True, OtherFailure),
     rw_legacy_dial = Inr [3, 0, 0, 4], rw_legacy_tls = None, rw_certificates = [], rw_client_write = True\<rparr>"

lemma short_requests_stay: "length v < 19 \<Longrightarrow> preferTLSOnlyRDPNegotiation v = v"
  by (cases "length v") (simp_all add: preferTLSOnlyRDPNegotiation_def)

lemma sample_rdp_run:
  "runRDPBridge ''pc'' ''t'' sample_rdp (cleanpath_request ''pc:3389'' ''t'' [3, 0, 0, 4])
     = [DialX224 ''pc:3389'' [3, 0, 0, 4], Handshake False, CloseTarget, DialX224 ''pc:3389'' [3, 0, 0, 4], Handshake True,
        WriteClient (encodeRdcCleanPathResponse ''pc:3389'' [3, 0, 0, 4] []), CopyBoth, CloseTarget]"
  using cleanpath_request_round_trip [of "''pc:3389''" "''t''" "[3, 0, 0, 4]" "[]"]
  by (simp add: runRDPBridge_def sample_rdp_def dialRDPX224_def readTPKT_def short_requests_stay finish_bridge_def)

theorem rdp_bridge_serves_its_token_witness:
  "\<exists>acts. acts \<noteq> [] \<and> runRDPBridge ''pc'' ''t'' sample_rdp (cleanpath_request ''pc:3389'' ''t'' [3, 0, 0, 4]) = acts
     \<and> CopyBoth \<in> set acts \<and> (rw_tls sample_rdp = None \<or> rw_legacy_tls sample_rdp = None)"
  using rdp_bridge_serves_its_token [OF sample_rdp_run, of "''pc:3389''" "[3, 0, 0, 4]"] sample_rdp_run by auto

subsection \<open>Error replies\<close>

lemma wsa_bytes_value: "be_nat 0 (wsa_bytes e) = unat e \<and> wsa_bytes e \<noteq> [] \<and> unat (hd (wsa_bytes e)) < 128 \<and> length (wsa_bytes e) \<le> 3"
proof -
  have "unat e < 2 ^ LENGTH(16)" by (rule unsigned_less)
  then have e: "unat e < 65536" by simp
  have high: "unat (ucast (drop_bit 8 e) :: byte) = unat e div 256"
    using e by (simp add: unsigned_ucast_eq take_bit_eq_mod unat_drop_bit_eq drop_bit_eq_div unat_div)
  have low: "unat (ucast e :: byte) = unat e mod 256"
    by (simp add: unsigned_ucast_eq take_bit_eq_mod)
  show ?thesis using e by (auto simp: wsa_bytes_def Let_def high low high_bit)
qed

text \<open>What a client reads in an error reply: the Windows socket error as a DER integer, which is negative
  when its first bit is set.\<close>

definition cleanpath_error :: "bytes \<Rightarrow> nat option" where
  "cleanpath_error data =
     (case derTLV data 0 of
        Inl _ \<Rightarrow> None
      | Inr (_, root, _) \<Rightarrow>
          (case derExplicit root 0xa1 of
             None \<Rightarrow> None
           | Some field \<Rightarrow>
               (case derInner field 0x30 of
                  Inl _ \<Rightarrow> None
                | Inr fs \<Rightarrow>
                    (case derExplicit fs 0xa2 of
                       None \<Rightarrow> None
                     | Some code \<Rightarrow>
                         (case derInner code 0x02 of
                            Inl _ \<Rightarrow> None
                          | Inr v \<Rightarrow> if v \<noteq> [] \<and> unat (hd v) < 128 then Some (be_nat 0 v) else None)))))"

text \<open>
  An error reply carries the socket error as a positive integer, whatever its value: a client that
  parses it gets that very number, and none when the error has no number.
\<close>

theorem error_reply_carries_its_code:
  "cleanpath_error (encodeRdcCleanPathError e) = (if e = 0 then None else Some (unat e))"
proof -
  let ?fields = "derEncode (0xa0 + 0) (derEncode 0x02 [0x01])
    @ (if e \<noteq> 0 then derEncode (0xa0 + 2) (derEncode 0x02 (wsa_bytes e)) else [])"
  let ?root = "derEncode (0xa0 + 0) (derEncode 0x02 [0x0d, 0x3e]) @ derEncode (0xa0 + 1) (derEncode 0x30 ?fields)"
  note w = wsa_bytes_value [of e]
  have v: "length (derEncode 0x02 (wsa_bytes e)) \<le> 7" using w derEncode_length [of "0x02" "wsa_bytes e"] by simp
  have o: "length (derEncode 0x02 [0x01]) \<le> 5" "length (derEncode 0x02 [0x0d, 0x3e]) \<le> 6"
    using derEncode_length [of "0x02" "[0x01]"] derEncode_length [of "0x02" "[0x0d, 0x3e]"] by simp_all
  have f: "length ?fields \<le> 20"
    using v o derEncode_length [of "0xa0 + 0" "derEncode 0x02 [0x01]"]
      derEncode_length [of "0xa0 + 2" "derEncode 0x02 (wsa_bytes e)"] by simp
  have r: "length ?root \<le> 65535" "length (derEncode 0x30 ?fields) \<le> 24"
    using f o derEncode_length [of "0x30" ?fields] derEncode_length [of "0xa0 + 0" "derEncode 0x02 [0x0d, 0x3e]"]
      derEncode_length [of "0xa0 + 1" "derEncode 0x30 ?fields"] by simp_all
  have "derExplicit ?root 0xa1 = Some (derEncode 0x30 ?fields)"
    using o r by (simp add: derExplicit_encoded derExplicit_single)
  moreover have "derInner (derEncode 0x30 ?fields) 0x30 = Inr ?fields" using f by (intro derInner_encoded) simp
  moreover have "derExplicit ?fields 0xa2 = (if e = 0 then None else Some (derEncode 0x02 (wsa_bytes e)))"
    using o v by (auto simp: derExplicit_encoded derExplicit_single derExplicit_nothing)
  moreover have "derInner (derEncode 0x02 (wsa_bytes e)) 0x02 = Inr (wsa_bytes e)" using w by (intro derInner_encoded) simp
  ultimately show ?thesis
    using w derTLV_head(2) [OF r(1), where t = "0x30"]
    by (cases "e = 0") (simp_all add: cleanpath_error_def encodeRdcCleanPathError_def derExplicitValue_def)
qed

end
