(* ===== verification/Sessions.thy ===== *)
theory Sessions
  imports Json Frames Cap_Sets
begin

text \<open>
  The session service (\<open>shellagent/session_state.go\<close>): one file of session records per app, read and
  rewritten by each request. The disk maps the path of a file to its records (None: a file that does
  not parse or has another schema version); the digest that names the file, the errors of the
  disk and the clock are given.
\<close>

definition session_char :: "char \<Rightarrow> bool" where
  "session_char c \<longleftrightarrow> is_digit c \<or> is_upper c \<or> is_lower c"

definition sessionIDPattern :: "string \<Rightarrow> bool" where
  "sessionIDPattern i \<longleftrightarrow>
     (case i of
        [] \<Rightarrow> False
      | c # cs \<Rightarrow> session_char c \<and> length cs \<le> 127
          \<and> list_all (\<lambda>d. session_char d \<or> d \<in> {CHR ''.'', CHR ''_'', CHR '':'', CHR ''-''}) cs)"

record sessionRecord =
  sr_SessionID :: string
  sr_ProcessID :: any
  sr_Sequence :: int
  sr_Status :: string
  sr_Value :: obj
  sr_CreatedAt :: int
  sr_UpdatedAt :: int

type_synonym session_disk = "(string, sessionRecord list option) gomap"
type_synonym sessions = "(string, sessionRecord) gomap"

record session_os =
  so_dir :: "string option"
  so_path :: "string \<Rightarrow> string"
  so_write :: "string option"
  so_now :: int

definition sessionID :: "(any \<Rightarrow> string) \<Rightarrow> any \<Rightarrow> string + string" where
  "sessionID sprint v =
     (let i = StringValue sprint v in if \<not> sessionIDPattern i then Inl ''session id is invalid'' else Inr i)"

definition readSessions :: "session_os \<Rightarrow> string \<Rightarrow> session_disk \<Rightarrow> string + sessions" where
  "readSessions os appID disk =
     (case so_dir os of
        Some e \<Rightarrow> Inl e
      | None \<Rightarrow>
          (case map_of disk (so_path os appID) of
             None \<Rightarrow> Inr []
           | Some None \<Rightarrow> Inl ''session state is invalid''
           | Some (Some rs) \<Rightarrow>
               Inr (fold (\<lambda>r m. if sessionIDPattern (sr_SessionID r) then AList.update (sr_SessionID r) r m else m) rs [])))"

definition writeSessions :: "session_os \<Rightarrow> string \<Rightarrow> sessions \<Rightarrow> session_disk \<Rightarrow> session_disk \<times> string option" where
  "writeSessions os appID records disk =
     (case so_dir os of
        Some e \<Rightarrow> (disk, Some e)
      | None \<Rightarrow>
          (case so_write os of
             Some e \<Rightarrow> (disk, Some e)
           | None \<Rightarrow> (AList.update (so_path os appID) (Some (sort_key sr_SessionID (map snd records))) disk, None)))"

datatype session_reply =
    SessionList "sessionRecord list"
  | SessionGet string "sessionRecord option"
  | SessionStored sessionRecord
  | SessionRemoved string bool
  | SessionPruned "string list"

definition firstArg :: "any list \<Rightarrow> any" where
  "firstArg args = (case args of [] \<Rightarrow> NilV | v # _ \<Rightarrow> v)"

text \<open>The zero record that a missing map entry reads as.\<close>

definition no_session :: sessionRecord where
  "no_session = \<lparr>sr_SessionID = [], sr_ProcessID = NilV, sr_Sequence = 0, sr_Status = [], sr_Value = [], sr_CreatedAt = 0,
     sr_UpdatedAt = 0\<rparr>"

text \<open>The record of an upsert, or its error.\<close>

definition upsert_record ::
  "(any \<Rightarrow> string) \<Rightarrow> (rat \<Rightarrow> int) \<Rightarrow> (rat \<Rightarrow> string) \<Rightarrow> int \<Rightarrow> obj \<Rightarrow> sessions \<Rightarrow> string + sessionRecord" where
  "upsert_record sprint ovf num_text now input records =
     (case sessionID sprint (obj_get input ''sessionId'') of
        Inl e \<Rightarrow> Inl e
      | Inr i \<Rightarrow>
          (let previous = (case map_of records i of None \<Rightarrow> no_session | Some r \<Rightarrow> r) in
           case as_obj (obj_get input ''value'') of
             None \<Rightarrow> Inl ''session value must be an object''
           | Some v \<Rightarrow>
               if json_size num_text (ObjV v) > 64 * 1024 then Inl ''session value is limited to 65536 bytes''
               else
                 (let given = StringValue sprint (obj_get input ''status'');
                      status = (if given = [] then ''idle'' else given)
                  in if length status > 40 then Inl ''session status is invalid''
                     else
                       (let processID = (if obj_get input ''processId'' = NilV then sr_ProcessID previous
                                         else obj_get input ''processId'')
                        in if length (sprint processID) > 200 then Inl ''session process id is invalid''
                           else
                             (let sequence = integer64 ovf (obj_get input ''sequence'') in
                              Inr \<lparr>sr_SessionID = i, sr_ProcessID = processID,
                                sr_Sequence = (if sequence < 0 then sr_Sequence previous else sequence),
                                sr_Status = status, sr_Value = v,
                                sr_CreatedAt = (if sr_CreatedAt previous = 0 then now else sr_CreatedAt previous),
                                sr_UpdatedAt = now\<rparr>)))))"

definition stale :: "int \<Rightarrow> sessionRecord \<Rightarrow> bool" where
  "stale cutoff r \<longleftrightarrow> sr_UpdatedAt r < cutoff \<and> sr_Status r \<noteq> ''connecting'' \<and> sr_Status r \<noteq> ''running''"

definition finish_write :: "session_disk \<times> string option \<Rightarrow> session_reply \<Rightarrow> session_disk \<times> (string + session_reply)" where
  "finish_write w reply = (case w of (disk, None) \<Rightarrow> (disk, Inr reply) | (disk, Some e) \<Rightarrow> (disk, Inl e))"

definition handleSessionsRPC ::
  "(any \<Rightarrow> string) \<Rightarrow> (rat \<Rightarrow> int) \<Rightarrow> (rat \<Rightarrow> string) \<Rightarrow> session_os \<Rightarrow> message \<Rightarrow> session_disk
     \<Rightarrow> session_disk \<times> (string + session_reply)" where
  "handleSessionsRPC sprint ovf num_text os request disk =
     (if m_AppID request = [] then (disk, Inl ''app id is required'')
      else
        (case readSessions os (m_AppID request) disk of
           Inl e \<Rightarrow> (disk, Inl e)
         | Inr records \<Rightarrow>
             (let method = m_Method request; first = firstArg (m_Args request); write = writeSessions os (m_AppID request) in
              if method = ''list'' then (disk, Inr (SessionList (sort_key (\<lambda>r. - sr_UpdatedAt r) (map snd records))))
              else if method = ''get'' then
                (case sessionID sprint first of
                   Inl e \<Rightarrow> (disk, Inl e)
                 | Inr i \<Rightarrow> (disk, Inr (SessionGet i (map_of records i))))
              else if method = ''upsert'' then
                (case upsert_record sprint ovf num_text (so_now os) (ObjectArg (m_Args request) 0) records of
                   Inl e \<Rightarrow> (disk, Inl e)
                 | Inr r \<Rightarrow> finish_write (write (AList.update (sr_SessionID r) r records) disk) (SessionStored r))
              else if method = ''remove'' then
                (case sessionID sprint first of
                   Inl e \<Rightarrow> (disk, Inl e)
                 | Inr i \<Rightarrow>
                     if map_of records i = None then (disk, Inr (SessionRemoved i False))
                     else finish_write (write (AList.delete i records) disk) (SessionRemoved i True))
              else if method = ''prune'' then
                (let cutoff = integer64 ovf first in
                 if cutoff \<le> 0 then (disk, Inl ''session prune cutoff is invalid'')
                 else
                   (let removed = sort (map fst (filter (\<lambda>(_, r). stale cutoff r) records)) in
                    if removed = [] then (disk, Inr (SessionPruned []))
                    else finish_write (write (filter (\<lambda>(_, r). \<not> stale cutoff r) records) disk) (SessionPruned removed)))
              else (disk, Inl ''unsupported session method''))))"

end
