(* ===== verification/Session_Properties.thy ===== *)
theory Session_Properties
  imports Sessions Relay_Properties
begin

text \<open>
  The session service is a map per app: what its requests answer and change is what the operations of
  a map do. The relay does not bind the app id, so two relayed apps can reach the same map.
\<close>

text \<open>The abstraction: the sessions of an app, while its file can be read.\<close>

definition session_view :: "session_os \<Rightarrow> session_disk \<Rightarrow> string \<Rightarrow> (string \<rightharpoonup> sessionRecord) option" where
  "session_view os disk appID = (case readSessions os appID disk of Inl _ \<Rightarrow> None | Inr m \<Rightarrow> Some (map_of m))"

text \<open>The specification: what an answer says about the sessions before it, and how it changes them.\<close>

definition session_answer_ok :: "session_reply \<Rightarrow> (string \<rightharpoonup> sessionRecord) \<Rightarrow> bool" where
  "session_answer_ok reply m \<longleftrightarrow>
     (case reply of
        SessionList rs \<Rightarrow> set rs = ran m \<and> sorted (map (\<lambda>r. - sr_UpdatedAt r) rs)
      | SessionGet i r \<Rightarrow> r = m i
      | SessionStored r \<Rightarrow> (\<forall>old. m (sr_SessionID r) = Some old \<longrightarrow> sr_CreatedAt old \<noteq> 0 \<longrightarrow> sr_CreatedAt r = sr_CreatedAt old)
      | SessionRemoved i b \<Rightarrow> b \<longleftrightarrow> m i \<noteq> None
      | SessionPruned is \<Rightarrow> (\<forall>i \<in> set is. \<exists>r. m i = Some r \<and> sr_Status r \<notin> {''connecting'', ''running''}))"

definition session_effect :: "session_reply \<Rightarrow> (string \<rightharpoonup> sessionRecord) \<Rightarrow> (string \<rightharpoonup> sessionRecord)" where
  "session_effect reply m =
     (case reply of
        SessionStored r \<Rightarrow> m(sr_SessionID r \<mapsto> r)
      | SessionRemoved i b \<Rightarrow> m(i := None)
      | SessionPruned is \<Rightarrow> m |` (- set is)
      | _ \<Rightarrow> m)"

text \<open>The maps the service works on: every record under its own, valid id.\<close>

definition sessions_ok :: "sessions \<Rightarrow> bool" where
  "sessions_ok m \<longleftrightarrow> well_keyed m \<and> (\<forall>(i, r) \<in> set m. i = sr_SessionID r \<and> sessionIDPattern i)"

lemma sessions_ok_update:
  "sessions_ok m \<Longrightarrow> sessionIDPattern (sr_SessionID r) \<Longrightarrow> sessions_ok (AList.update (sr_SessionID r) r m)"
  using set_AList_update by (fastforce simp: sessions_ok_def)

definition store_record :: "sessionRecord \<Rightarrow> sessions \<Rightarrow> sessions" where
  "store_record r m = (if sessionIDPattern (sr_SessionID r) then AList.update (sr_SessionID r) r m else m)"

lemma fold_store_ok: "sessions_ok m \<Longrightarrow> sessions_ok (fold store_record rs m)"
  by (induction rs arbitrary: m) (auto simp: store_record_def sessions_ok_update)

lemma readSessions_ok: "readSessions os appID disk = Inr m \<Longrightarrow> sessions_ok m"
  using fold_store_ok [of "[]"]
  by (auto simp: readSessions_def sessions_ok_def store_record_def [abs_def] split: option.splits)

lemma fold_store_view:
  "distinct (map sr_SessionID rs) \<Longrightarrow> list_all (sessionIDPattern \<circ> sr_SessionID) rs \<Longrightarrow>
   map_of (fold store_record rs m) i
     = (case find (\<lambda>r. sr_SessionID r = i) rs of Some r \<Rightarrow> Some r | None \<Rightarrow> map_of m i)"
proof (induction rs arbitrary: m)
  case (Cons r rs)
  have "find (\<lambda>r'. sr_SessionID r' = sr_SessionID r) rs = None" using Cons.prems by (auto simp: find_None_iff) (metis image_eqI)
  with Cons show ?case by (auto simp: store_record_def map_of_update split: option.split)
qed simp

lemma sessions_find:
  assumes "sessions_ok m"
  shows "find (\<lambda>r. sr_SessionID r = i) (sort_key sr_SessionID (map snd m)) = map_of m i"
proof (cases "map_of m i")
  case None
  then have "i \<notin> sr_SessionID ` snd ` set m" using assms by (force simp: sessions_ok_def map_of_eq_None_iff)
  then show ?thesis using None by (auto simp: find_None_iff)
next
  case (Some r)
  then have r: "r \<in> snd ` set m" "sr_SessionID r = i" using assms map_of_SomeD [OF Some] by (force simp: sessions_ok_def)+
  have unique: "r' = r" if "r' \<in> snd ` set m" "sr_SessionID r' = i" for r'
  proof -
    from that assms have "(i, r') \<in> set m" by (force simp: sessions_ok_def)
    then show ?thesis using Some assms by (auto simp: sessions_ok_def well_keyed_def)
  qed
  show ?thesis
  proof (cases "find (\<lambda>r. sr_SessionID r = i) (sort_key sr_SessionID (map snd m))")
    case None
    then show ?thesis using r by (auto simp: find_None_iff)
  next
    case (Some r')
    then have "r' \<in> set (sort_key sr_SessionID (map snd m)) \<and> sr_SessionID r' = i"
      by (metis (mono_tags, lifting) find_Some_iff nth_mem)
    then have "r' \<in> snd ` set m" "sr_SessionID r' = i" by simp_all
    then show ?thesis using unique Some \<open>map_of m i = Some r\<close> by simp
  qed
qed

lemma sessions_distinct_ids: "sessions_ok m \<Longrightarrow> map sr_SessionID (map snd m) = map fst m"
  by (auto simp: sessions_ok_def)

lemma write_then_read:
  assumes "sessions_ok m" and "writeSessions os appID m disk = (disk', None)"
  shows "session_view os disk' appID = Some (map_of m)"
    and "so_path os other \<noteq> so_path os appID \<Longrightarrow> session_view os disk' other = session_view os disk other"
proof -
  let ?rs = "sort_key sr_SessionID (map snd m)"
  have disk': "so_dir os = None" "disk' = AList.update (so_path os appID) (Some ?rs) disk"
    using assms(2) by (auto simp: writeSessions_def split: option.splits)
  have "mset (map sr_SessionID ?rs) = mset (map sr_SessionID (map snd m))" by (simp only: mset_map mset_sort)
  then have d: "distinct (map sr_SessionID ?rs)"
    using assms(1) sessions_distinct_ids [OF assms(1)] by (metis mset_eq_imp_distinct_iff sessions_ok_def well_keyed_def)
  have v: "list_all (sessionIDPattern \<circ> sr_SessionID) ?rs" using assms(1) by (auto simp: list_all_iff sessions_ok_def)
  have "map_of (fold store_record ?rs []) = map_of m"
    by (rule ext) (simp add: fold_store_view [OF d v] sessions_find [OF assms(1)] split: option.split)
  then show "session_view os disk' appID = Some (map_of m)"
    by (simp add: session_view_def readSessions_def disk' map_of_update store_record_def [abs_def])
  show "session_view os disk' other = session_view os disk other" if "so_path os other \<noteq> so_path os appID"
    using that by (simp add: session_view_def readSessions_def disk' map_of_update)
qed

lemma finish_write_cases:
  assumes "finish_write (writeSessions os appID m disk) reply = (disk', result)"
  shows "(\<exists>e. result = Inl e \<and> disk' = disk) \<or> result = Inr reply \<and> writeSessions os appID m disk = (disk', None)"
  using assms by (auto simp: finish_write_def writeSessions_def split: option.splits prod.splits)

lemma upsert_record_id:
  "upsert_record sprint ovf num_text now input records = Inr r \<Longrightarrow>
   sessionIDPattern (sr_SessionID r)
   \<and> (\<forall>old. map_of records (sr_SessionID r) = Some old \<longrightarrow> sr_CreatedAt old \<noteq> 0 \<longrightarrow> sr_CreatedAt r = sr_CreatedAt old)"
  by (auto simp: upsert_record_def sessionID_def Let_def split: sum.splits option.splits if_splits)

lemma prune_view:
  assumes "sessions_ok m"
  shows "map_of (filter (\<lambda>(_, r). \<not> stale cutoff r) m) = map_of m |` (- set (map fst (filter (\<lambda>(_, r). stale cutoff r) m)))"
proof (rule ext)
  fix i
  have w: "well_keyed m" using assms by (simp add: sessions_ok_def)
  then have "i \<in> set (map fst (filter (\<lambda>(_, r). stale cutoff r) m)) \<longleftrightarrow> (\<exists>r. map_of m i = Some r \<and> stale cutoff r)"
    by (force simp: well_keyed_def)
  then show "map_of (filter (\<lambda>(_, r). \<not> stale cutoff r) m) i
      = (map_of m |` (- set (map fst (filter (\<lambda>(_, r). stale cutoff r) m)))) i"
    using w by (simp add: restrict_map_def map_of_filter_keyed split: option.split)
qed

lemma session_step_cases:
  assumes "handleSessionsRPC sprint ovf num_text os request disk = (disk', result)"
  obtains (failed) e where "result = Inl e" "disk' = disk"
  | (answered) m reply where "readSessions os (m_AppID request) disk = Inr m" "result = Inr reply" "disk' = disk"
      "session_answer_ok reply (map_of m)" "session_effect reply (map_of m) = map_of m"
  | (changed) m m' reply where "readSessions os (m_AppID request) disk = Inr m" "result = Inr reply"
      "writeSessions os (m_AppID request) m' disk = (disk', None)" "sessions_ok m'"
      "session_answer_ok reply (map_of m)" "session_effect reply (map_of m) = map_of m'"
proof (cases "m_AppID request = [] \<or> (\<exists>e. readSessions os (m_AppID request) disk = Inl e)")
  case True
  then show ?thesis using assms failed by (auto simp: handleSessionsRPC_def split: if_splits)
next
  case False
  then obtain m where m: "readSessions os (m_AppID request) disk = Inr m" by (cases "readSessions os (m_AppID request) disk") auto
  note ok = readSessions_ok [OF m]
  note step = assms [unfolded handleSessionsRPC_def m sum.case Let_def]
  have written: thesis
    if "finish_write (writeSessions os (m_AppID request) m' disk) reply = (disk', result)" "sessions_ok m'"
      "session_answer_ok reply (map_of m)" "session_effect reply (map_of m) = map_of m'" for m' reply
    using finish_write_cases [OF that(1)]
  proof
    assume "\<exists>e. result = Inl e \<and> disk' = disk"
    then show thesis using failed by blast
  next
    assume "result = Inr reply \<and> writeSessions os (m_AppID request) m' disk = (disk', None)"
    then show thesis using changed [OF m, of reply m'] that(2-4) by simp
  qed
  consider (l) "m_Method request = ''list''" | (g) "m_Method request = ''get''" | (u) "m_Method request = ''upsert''"
    | (r) "m_Method request = ''remove''" | (p) "m_Method request = ''prune''"
    | (x) "m_Method request \<notin> {''list'', ''get'', ''upsert'', ''remove'', ''prune''}" by blast
  then show ?thesis
  proof cases
    case l
    have "snd ` set m = ran (map_of m)" using ok by (auto simp: ran_distinct sessions_ok_def well_keyed_def)
    then show ?thesis using l False step
      by (intro answered [OF m, of "SessionList (sort_key (\<lambda>r. - sr_UpdatedAt r) (map snd m))"])
        (auto simp: session_answer_ok_def session_effect_def)
  next
    case g
    show ?thesis
    proof (cases "sessionID sprint (firstArg (m_Args request))")
      case (Inr i)
      then show ?thesis using g False step
        by (intro answered [OF m, of "SessionGet i (map_of m i)"]) (auto simp: session_answer_ok_def session_effect_def)
    qed (use g False step in \<open>auto intro: failed\<close>)
  next
    case u
    show ?thesis
    proof (cases "upsert_record sprint ovf num_text (so_now os) (ObjectArg (m_Args request) 0) m")
      case (Inr rec)
      note f = upsert_record_id [OF Inr]
      let ?m' = "AList.update (sr_SessionID rec) rec m"
      have "finish_write (writeSessions os (m_AppID request) ?m' disk) (SessionStored rec) = (disk', result)"
        using u False step by (simp add: Inr)
      then show ?thesis
        by (rule written) (use f in \<open>simp_all add: sessions_ok_update [OF ok] session_answer_ok_def session_effect_def\<close>)
    qed (use u False step in \<open>auto intro: failed\<close>)
  next
    case r
    show ?thesis
    proof (cases "sessionID sprint (firstArg (m_Args request))")
      case (Inr i)
      have gone: "sessions_ok (AList.delete i m)"
        using ok set_AList_delete by (fastforce simp: sessions_ok_def)
      show ?thesis
      proof (cases "map_of m i")
        case None
        then show ?thesis using r False step Inr
          by (intro answered [OF m, of "SessionRemoved i False"]) (auto simp: session_answer_ok_def session_effect_def fun_eq_iff)
      next
        case (Some old)
        then have "finish_write (writeSessions os (m_AppID request) (AList.delete i m) disk) (SessionRemoved i True) = (disk', result)"
          using r False step Inr by simp
        then show ?thesis
          by (rule written) (use Some gone in \<open>simp_all add: session_answer_ok_def session_effect_def\<close>)
      qed
    qed (use r False step in \<open>auto intro: failed\<close>)
  next
    case p
    define cutoff where "cutoff = integer64 ovf (firstArg (m_Args request))"
    let ?gone = "sort (map fst (filter (\<lambda>(_, r). stale cutoff r) m))"
    let ?m' = "filter (\<lambda>(_, r). \<not> stale cutoff r) m"
    have kept: "sessions_ok ?m'" using ok by (auto simp: sessions_ok_def)
    have answer: "session_answer_ok (SessionPruned ?gone) (map_of m)"
      using ok by (auto simp: session_answer_ok_def stale_def sessions_ok_def well_keyed_def)
    have effect: "session_effect (SessionPruned ?gone) (map_of m) = map_of ?m'"
      using prune_view [OF ok, of cutoff] by (simp add: session_effect_def)
    show ?thesis
    proof (cases "cutoff \<le> 0 \<or> ?gone = []")
      case True
      then show ?thesis
      proof
        assume "cutoff \<le> 0"
        then show ?thesis using p False step by (intro failed) (auto simp: cutoff_def)
      next
        assume g: "?gone = []"
        then have "session_effect (SessionPruned []) (map_of m) = map_of m"
          by (simp add: session_effect_def restrict_map_def fun_eq_iff)
        then show ?thesis using p False step g answer failed answered [OF m, of "SessionPruned []"]
          by (auto simp: cutoff_def split: if_splits)
      qed
    next
      case pruned: False
      then have "finish_write (writeSessions os (m_AppID request) ?m' disk) (SessionPruned ?gone) = (disk', result)"
        using p False step by (simp add: cutoff_def)
      then show ?thesis by (rule written [OF _ kept answer effect])
    qed
  next
    case x
    then show ?thesis using False step by (intro failed) auto
  qed
qed


definition sample_os :: "int \<Rightarrow> session_os" where
  "sample_os now = \<lparr>so_dir = None, so_path = id, so_write = None, so_now = now\<rparr>"

definition sample_upsert :: message where
  "sample_upsert = blank_message\<lparr>m_AppID := ''a/x'', m_Method := ''upsert'',
     m_Args := [ObjV [(''sessionId'', StrV ''s''), (''value'', ObjV [])]]\<rparr>"

definition sample_session :: sessionRecord where
  "sample_session = \<lparr>sr_SessionID = ''s'', sr_ProcessID = NilV, sr_Sequence = 0, sr_Status = ''idle'', sr_Value = [],
     sr_CreatedAt = 5, sr_UpdatedAt = 5\<rparr>"

lemma sample_upsert_run:
  "handleSessionsRPC (\<lambda>_. []) (\<lambda>_. 0) (\<lambda>_. []) (sample_os 5) sample_upsert []
     = ([(''a/x'', Some [sample_session])], Inr (SessionStored sample_session))"
proof -
  have "sessionIDPattern ''s''" by code_simp
  then have "upsert_record (\<lambda>_. []) (\<lambda>_. 0) (\<lambda>_. []) 5 [(''sessionId'', StrV ''s''), (''value'', ObjV [])] [] = Inr sample_session"
    by (simp add: upsert_record_def sessionID_def StringValue_def obj_get_def as_obj_def json_joined_def no_session_def
        integer64_def sample_session_def Let_def)
  then show ?thesis
    by (simp add: handleSessionsRPC_def sample_upsert_def sample_os_def readSessions_def ObjectArg_def as_obj_def
        writeSessions_def finish_write_def Let_def)
qed


subsection \<open>The relay\<close>

text \<open>
  On a direct socket the session service works for the app the socket is bound to, and two apps
  never meet. Over the relay the app id of the frame is passed on as it is, and a frame may name its app by
  the last part of its store id alone: two apps whose store ids end alike reach the same sessions.
\<close>

theorem relayed_apps_share_sessions:
  assumes "r = message.truncate q" "m_Type r = ''rpc''" "m_Service r = ''sessions''"
    and "storeSlug a = m_AppID r" "storeSlug b = m_AppID r" "a \<noteq> b" "a \<noteq> []" "b \<noteq> []" "m_AppID r \<noteq> []"
    and "decode_request env clear = Inr q" "rs_authenticated st"
    and "''sessions.manage'' \<in> set (sa_capabilities auth)"
  shows "snd (relay_serve env clear (st\<lparr>rs_granted := auth\<lparr>sa_storeID := a\<rparr>\<rparr>)) = [Served (ToRPC r) (rs_cipher st)]
    \<and> snd (relay_serve env clear (st\<lparr>rs_granted := auth\<lparr>sa_storeID := b\<rparr>\<rparr>)) = [Served (ToRPC r) (rs_cipher st)]
    \<and> serve_frame sprint (auth\<lparr>sa_storeID := a\<rparr>) True bind (Some r) = ToRPC (r\<lparr>m_AppID := a\<rparr>)
    \<and> serve_frame sprint (auth\<lparr>sa_storeID := b\<rparr>) True bind (Some r) = ToRPC (r\<lparr>m_AppID := b\<rparr>)"
proof -
  have cap: "rpcCapability sp r = ''sessions.manage''" for sp using assms(3) by (simp add: rpcCapability_def)
  have ok: "socketAllows (sa_capabilities auth) ''sessions.manage''" using assms(12) by (simp add: socketAllows_iff)
  have fields: "m_AppID q = m_AppID r" by (simp add: assms(1) message.truncate_def)
  have same: "appIDMatches a (m_AppID r)" "appIDMatches b (m_AppID r)"
    using assms(4-9) by (auto simp: appIDMatches_def equal_fold_def)
  show ?thesis
    using assms(2,3,7-11) same ok
    by (simp add: relay_serve_def relay_dispatch_def serve_frame_def dispatch_frame_def cap fields assms(1) [symmetric]
        presentation_services_def Let_def)
qed

definition sample_sessions_frame :: relay_message where
  "sample_sessions_frame = relay_hello []\<lparr>m_Type := ''rpc'', m_Service := ''sessions'', m_Method := ''list'', m_AppID := ''x''\<rparr>"

theorem relayed_apps_share_sessions_witness:
  "snd (relay_serve (sample_relay\<lparr>re_message := (\<lambda>_. Inr sample_sessions_frame)\<rparr>) []
      (relay_start\<lparr>rs_authenticated := True,
         rs_granted := no_auth\<lparr>sa_capabilities := [''sessions.manage''], sa_storeID := ''mallory/x''\<rparr>\<rparr>))
   = [Served (ToRPC (message.truncate sample_sessions_frame)) None]"
proof -
  let ?env = "sample_relay\<lparr>re_message := (\<lambda>_. Inr sample_sessions_frame)\<rparr>" and ?st = "relay_start\<lparr>rs_authenticated := True\<rparr>"
  let ?auth = "no_auth\<lparr>sa_capabilities := [''sessions.manage'']\<rparr>" and ?r = "message.truncate sample_sessions_frame"
  have "snd (relay_serve ?env [] (?st\<lparr>rs_granted := ?auth\<lparr>sa_storeID := ''mallory/x''\<rparr>\<rparr>)) = [Served (ToRPC ?r) (rs_cipher ?st)]
    \<and> snd (relay_serve ?env [] (?st\<lparr>rs_granted := ?auth\<lparr>sa_storeID := ''alice/x''\<rparr>\<rparr>)) = [Served (ToRPC ?r) (rs_cipher ?st)]
    \<and> serve_frame (\<lambda>_. []) (?auth\<lparr>sa_storeID := ''mallory/x''\<rparr>) True (\<lambda>_. False) (Some ?r) = ToRPC (?r\<lparr>m_AppID := ''mallory/x''\<rparr>)
    \<and> serve_frame (\<lambda>_. []) (?auth\<lparr>sa_storeID := ''alice/x''\<rparr>) True (\<lambda>_. False) (Some ?r) = ToRPC (?r\<lparr>m_AppID := ''alice/x''\<rparr>)"
  proof (rule relayed_apps_share_sessions [OF refl])
    show "storeSlug ''mallory/x'' = m_AppID ?r" "storeSlug ''alice/x'' = m_AppID ?r" "m_AppID ?r \<noteq> []" by code_simp+
    show "m_Type ?r = ''rpc''" "m_Service ?r = ''sessions''" by code_simp+
    show "decode_request ?env [] = Inr sample_sessions_frame" by (simp add: decode_request_def)
  qed simp_all
  then show ?thesis by (simp add: relay_start_def)
qed

end
