(* ===== verification/Project_Tree.thy ===== *)
theory Project_Tree
  imports Go_Prelude
begin

text \<open>
  The files of a project folder: directories list their entries by name, in the order of \<open>filepath.Walk\<close>, a
  file has its content and whether it is executable, and a symbolic link has a copy of what it leads to. Paths are
  lists of components.
\<close>

datatype source_node =
    SourceFile bytes bool
  | SourceLink "source_node option"
  | SourceDir "(string \<times> source_node) list"

lemma size_of_entry: "map_of entries p = Some n \<Longrightarrow> size n < size (SourceDir entries)"
  by (induction entries) (auto split: if_splits)

text \<open>What a path leads to, links followed.\<close>

function find_node :: "string list \<Rightarrow> source_node \<Rightarrow> source_node option" where
  "find_node path (SourceLink None) = None"
| "find_node path (SourceLink (Some n)) = find_node path n"
| "find_node [] (SourceFile d x) = Some (SourceFile d x)"
| "find_node [] (SourceDir entries) = Some (SourceDir entries)"
| "find_node (p # ps) (SourceFile d x) = None"
| "find_node (p # ps) (SourceDir entries) = (case map_of entries p of None \<Rightarrow> None | Some n \<Rightarrow> find_node ps n)"
  by pat_completeness auto

termination find_node
  by (relation "measure (\<lambda>(path, n). size n)") (auto dest: size_of_entry)

text \<open>The content of the file at a path, and whether it is executable.\<close>

definition file_at :: "string list \<Rightarrow> source_node \<Rightarrow> (bytes \<times> bool) option" where
  "file_at path n = (case find_node path n of Some (SourceFile d x) \<Rightarrow> Some (d, x) | _ \<Rightarrow> None)"

definition dir_at :: "string list \<Rightarrow> source_node \<Rightarrow> bool" where
  "dir_at path n \<longleftrightarrow> (case find_node path n of Some (SourceDir _) \<Rightarrow> True | _ \<Rightarrow> False)"

text \<open>A file is opened for writing and takes a content: an existing one keeps its mode, a new one is executable or not. None
  when the path does not lead to a file or to a directory that can hold one.\<close>

function put_node :: "bool \<Rightarrow> bytes \<Rightarrow> string list \<Rightarrow> source_node \<Rightarrow> source_node option" where
  "put_node x d path (SourceLink None) = None"
| "put_node x d path (SourceLink (Some n)) = map_option (\<lambda>n'. SourceLink (Some n')) (put_node x d path n)"
| "put_node x d [] (SourceFile old y) = Some (SourceFile d y)"
| "put_node x d [] (SourceDir entries) = None"
| "put_node x d (p # ps) (SourceFile old y) = None"
| "put_node x d (p # ps) (SourceDir entries) =
     (case map_of entries p of
        Some n \<Rightarrow> map_option (\<lambda>n'. SourceDir (AList.update p n' entries)) (put_node x d ps n)
      | None \<Rightarrow> if ps = [] then Some (SourceDir (insort_key fst (p, SourceFile d x) entries)) else None)"
  by pat_completeness auto

termination put_node
  by (relation "measure (\<lambda>(x, d, path, n). size n)") (auto dest: size_of_entry)

text \<open>\<open>os.WriteFile\<close> opens the file, which empties it, and writes. A fault is an error, with the number of bytes that
  reached the file if it could be opened. The result is the tree and the error.\<close>

type_synonym write_fault = "(string \<times> nat option) option"

definition os_write :: "write_fault \<Rightarrow> bool \<Rightarrow> bytes \<Rightarrow> string list \<Rightarrow> source_node \<Rightarrow> source_node \<times> string option" where
  "os_write fault x d path n =
     (case fault of
        None \<Rightarrow> (case put_node x d path n of None \<Rightarrow> (n, Some ''open error'') | Some n' \<Rightarrow> (n', None))
      | Some (e, None) \<Rightarrow> (n, Some e)
      | Some (e, Some k) \<Rightarrow>
          (case put_node x (take k d) path n of None \<Rightarrow> (n, Some ''open error'') | Some n' \<Rightarrow> (n', Some e)))"

text \<open>\<open>os.MkdirAll\<close>; None when something on the way is not a directory. A fault is an error, with the number of
  directories on the path that are there then.\<close>

function make_dirs :: "string list \<Rightarrow> source_node \<Rightarrow> source_node option" where
  "make_dirs path (SourceLink None) = None"
| "make_dirs path (SourceLink (Some n)) = map_option (\<lambda>n'. SourceLink (Some n')) (make_dirs path n)"
| "make_dirs path (SourceFile d x) = None"
| "make_dirs [] (SourceDir entries) = Some (SourceDir entries)"
| "make_dirs (p # ps) (SourceDir entries) =
     (case map_of entries p of
        Some n \<Rightarrow> map_option (\<lambda>n'. SourceDir (AList.update p n' entries)) (make_dirs ps n)
      | None \<Rightarrow> Some (SourceDir (insort_key fst (p, foldr (\<lambda>q n. SourceDir [(q, n)]) ps (SourceDir [])) entries)))"
  by pat_completeness auto

termination make_dirs
  by (relation "measure (\<lambda>(path, n). size n)") (auto dest: size_of_entry)

definition os_mkdir_all :: "(string \<times> nat) option \<Rightarrow> string list \<Rightarrow> source_node \<Rightarrow> source_node \<times> string option" where
  "os_mkdir_all fault path n =
     (case fault of
        None \<Rightarrow> (case make_dirs path n of None \<Rightarrow> (n, Some ''not a directory'') | Some n' \<Rightarrow> (n', None))
      | Some (e, k) \<Rightarrow> (case make_dirs (take k path) n of None \<Rightarrow> (n, Some e) | Some n' \<Rightarrow> (n', Some e)))"

text \<open>\<open>os.Remove\<close> of a file.\<close>

function drop_node :: "string list \<Rightarrow> source_node \<Rightarrow> source_node" where
  "drop_node path (SourceLink None) = SourceLink None"
| "drop_node path (SourceLink (Some n)) = SourceLink (Some (drop_node path n))"
| "drop_node [] (SourceFile d x) = SourceFile d x"
| "drop_node [] (SourceDir entries) = SourceDir entries"
| "drop_node (p # ps) (SourceFile d x) = SourceFile d x"
| "drop_node (p # ps) (SourceDir entries) =
     (case map_of entries p of
        None \<Rightarrow> SourceDir entries
      | Some n \<Rightarrow>
          if ps = [] then SourceDir (case n of SourceDir _ \<Rightarrow> entries | _ \<Rightarrow> AList.delete p entries)
          else SourceDir (AList.update p (drop_node ps n) entries))"
  by pat_completeness auto

termination drop_node
  by (relation "measure (\<lambda>(path, n). size n)") (auto dest: size_of_entry)

subsection \<open>Reading after writing\<close>

lemma map_of_insort_entry:
  "map_of entries p = None \<Longrightarrow> map_of (insort_key fst (p, n) entries) q = (if q = p then Some n else map_of entries q)"
  by (induction entries) (auto split: if_splits)

lemma file_at_link [simp]: "file_at path (SourceLink (Some n)) = file_at path n"
  by (simp add: file_at_def)

lemma file_at_entry: "file_at (p # ps) (SourceDir entries) = (case map_of entries p of None \<Rightarrow> None | Some n \<Rightarrow> file_at ps n)"
  by (simp add: file_at_def split: option.split)

lemma file_at_simps [simp]:
  "file_at [] (SourceFile d x) = Some (d, x)" "file_at [] (SourceDir entries) = None" "file_at path (SourceLink None) = None"
  "file_at (p # ps) (SourceFile d x) = None"
  by (simp_all add: file_at_def)

lemma file_at_put:
  "put_node x d path n = Some n' \<Longrightarrow>
   file_at q n' = (if q = path then Some (d, case file_at path n of None \<Rightarrow> x | Some (_, y) \<Rightarrow> y) else file_at q n)"
proof (induction x d path n arbitrary: q n' rule: put_node.induct)
  case (2 x d path n)
  then show ?case by auto
next
  case (3 x d old y)
  then show ?case by (cases q) auto
next
  case (6 x d p ps entries)
  show ?case
  proof (cases "map_of entries p")
    case None
    with 6(2) have "n' = SourceDir (insort_key fst (p, SourceFile d x) entries)" "ps = []" by (auto split: if_splits)
    then show ?thesis using None by (cases q) (auto simp: file_at_entry map_of_insort_entry neq_Nil_conv split: option.split)
  next
    case (Some n)
    then obtain m where m: "put_node x d ps n = Some m" "n' = SourceDir (AList.update p m entries)" using 6(2) by auto
    show ?thesis
    proof (cases q)
      case Nil
      then show ?thesis using m(2) by simp
    next
      case (Cons q1 qs)
      then show ?thesis using 6(1) [OF Some m(1), of qs] m(2) Some by (auto simp: file_at_entry split: option.split)
    qed
  qed
qed simp_all

text \<open>A path that leads to a file can be written.\<close>

lemma put_existing: "file_at path n \<noteq> None \<Longrightarrow> \<exists>n'. put_node x d path n = Some n'"
proof (induction x d path n rule: put_node.induct)
  case (6 x d p ps entries)
  then show ?case by (cases "map_of entries p") (auto simp: file_at_entry)
qed auto


subsection \<open>Removing what was written\<close>

text \<open>The last component of the path is a file itself, not a link.\<close>

function plain_at :: "string list \<Rightarrow> source_node \<Rightarrow> bool" where
  "plain_at path (SourceLink None) = False"
| "plain_at path (SourceLink (Some n)) = (path \<noteq> [] \<and> plain_at path n)"
| "plain_at [] (SourceFile d x) = True"
| "plain_at [] (SourceDir entries) = False"
| "plain_at (p # ps) (SourceFile d x) = False"
| "plain_at (p # ps) (SourceDir entries) = (case map_of entries p of None \<Rightarrow> False | Some n \<Rightarrow> plain_at ps n)"
  by pat_completeness auto

termination plain_at
  by (relation "measure (\<lambda>(path, n). size n)") (auto dest: size_of_entry)

lemma plain_file: "plain_at [] n \<Longrightarrow> \<exists>d x. n = SourceFile d x"
  by (cases n) (auto split: option.splits elim: plain_at.elims)

lemma file_at_drop:
  "plain_at path n \<Longrightarrow> path \<noteq> [] \<Longrightarrow> file_at q (drop_node path n) = (if q = path then None else file_at q n)"
proof (induction path n arbitrary: q rule: drop_node.induct)
  case (6 p ps entries)
  from 6(2) obtain m where m: "map_of entries p = Some m" "plain_at ps m" by (auto split: option.splits)
  show ?case
  proof (cases "ps = []")
    case True
    then obtain d x where "m = SourceFile d x" using m(2) plain_file by blast
    then show ?thesis using True m(1)
      by (cases q) (auto simp: file_at_entry delete_conv' neq_Nil_conv split: option.split)
  next
    case False
    then show ?thesis using m 6(1) [OF m(1) False m(2) False] by (cases q) (auto simp: file_at_entry split: option.split)
  qed
qed auto

lemma plain_put: "put_node x d q n = Some n' \<Longrightarrow> plain_at path n \<Longrightarrow> plain_at path n'"
proof (induction x d q n arbitrary: n' path rule: put_node.induct)
  case (2 x d q n)
  then show ?case by auto
next
  case (3 x d old y)
  then show ?case by (cases path) auto
next
  case (6 x d p ps entries)
  show ?case
  proof (cases "map_of entries p")
    case None
    with 6(2) have "n' = SourceDir (insort_key fst (p, SourceFile d x) entries)" by (auto split: if_splits)
    then show ?thesis using None 6(3) by (cases path) (auto simp: map_of_insort_entry split: option.splits)
  next
    case (Some m)
    then obtain m' where "put_node x d ps m = Some m'" "n' = SourceDir (AList.update p m' entries)" using 6(2) by auto
    then show ?thesis using 6(1) [OF Some] 6(3) Some by (cases path) (auto split: option.splits)
  qed
qed simp_all

lemma put_new_plain: "put_node x d path n = Some n' \<Longrightarrow> find_node path n = None \<Longrightarrow> plain_at path n' \<and> path \<noteq> []"
proof (induction x d path n arbitrary: n' rule: put_node.induct)
  case (6 x d p ps entries)
  then show ?case by (auto simp: map_of_insort_entry split: option.splits if_splits)
qed auto

subsection \<open>Making directories\<close>

lemma dir_at_link [simp]: "dir_at path (SourceLink (Some n)) = dir_at path n"
  by (simp add: dir_at_def)

lemma dir_at_simps [simp]:
  "\<not> dir_at path (SourceFile d x)" "dir_at [] (SourceDir entries)" "\<not> dir_at path (SourceLink None)"
  "dir_at (p # ps) (SourceDir entries) = (case map_of entries p of None \<Rightarrow> False | Some n \<Rightarrow> dir_at ps n)"
  by (cases path; simp add: dir_at_def) (simp_all add: dir_at_def split: option.split)

lemma new_dirs:
  "file_at q (foldr (\<lambda>q n. SourceDir [(q, n)]) ps (SourceDir [])) = None"
  "dir_at q (foldr (\<lambda>q n. SourceDir [(q, n)]) ps (SourceDir [])) \<longleftrightarrow> prefix q ps"
proof -
  show "file_at q (foldr (\<lambda>q n. SourceDir [(q, n)]) ps (SourceDir [])) = None"
  proof (induction ps arbitrary: q)
    case Nil
    then show ?case by (cases q) (auto simp: file_at_entry)
  next
    case (Cons p ps)
    then show ?case by (cases q) (auto simp: file_at_entry)
  qed
  show "dir_at q (foldr (\<lambda>q n. SourceDir [(q, n)]) ps (SourceDir [])) \<longleftrightarrow> prefix q ps"
  proof (induction ps arbitrary: q)
    case Nil
    then show ?case by (cases q) auto
  next
    case (Cons p ps)
    then show ?case by (cases q) auto
  qed
qed

lemma make_dirs_files: "make_dirs path n = Some n' \<Longrightarrow> file_at q n' = file_at q n"
proof (induction path n arbitrary: q n' rule: make_dirs.induct)
  case (5 p ps entries)
  show ?case
  proof (cases "map_of entries p")
    case None
    then show ?thesis using 5(2) by (cases q) (auto simp: file_at_entry map_of_insort_entry new_dirs split: option.split)
  next
    case (Some m)
    then obtain m' where "make_dirs ps m = Some m'" "n' = SourceDir (AList.update p m' entries)" using 5(2) by auto
    then show ?thesis using 5(1) [OF Some] Some by (cases q) (auto simp: file_at_entry split: option.split)
  qed
qed auto

lemma make_dirs_dirs: "make_dirs path n = Some n' \<Longrightarrow> dir_at q n' \<longleftrightarrow> dir_at q n \<or> prefix q path"
proof (induction path n arbitrary: q n' rule: make_dirs.induct)
  case (4 entries)
  then show ?case by (cases q) auto
next
  case (5 p ps entries)
  show ?case
  proof (cases "map_of entries p")
    case None
    then show ?thesis using 5(2) by (cases q) (auto simp: map_of_insort_entry new_dirs split: option.splits if_splits)
  next
    case (Some m)
    then obtain m' where "make_dirs ps m = Some m'" "n' = SourceDir (AList.update p m' entries)" using 5(2) by auto
    then show ?thesis using 5(1) [OF Some] Some by (cases q) (auto split: option.split)
  qed
qed auto

lemma put_dirs: "put_node x d path n = Some n' \<Longrightarrow> dir_at q n' = dir_at q n"
proof (induction x d path n arbitrary: q n' rule: put_node.induct)
  case (6 x d p ps entries)
  show ?case
  proof (cases "map_of entries p")
    case None
    then show ?thesis using 6(2) by (cases q) (auto simp: map_of_insort_entry split: option.split if_splits)
  next
    case (Some m)
    then obtain m' where "put_node x d ps m = Some m'" "n' = SourceDir (AList.update p m' entries)" using 6(2) by auto
    then show ?thesis using 6(1) [OF Some] Some by (cases q) (auto split: option.split)
  qed
qed auto

text \<open>What a write and a \<open>MkdirAll\<close> do to the files, whatever fails.\<close>

lemma os_write_result:
  assumes "os_write fault x d path n = (n', r)"
  shows "(q \<noteq> path \<longrightarrow> file_at q n' = file_at q n)
    \<and> (case r of
         None \<Rightarrow> fault = None \<and> file_at path n' = Some (d, case file_at path n of None \<Rightarrow> x | Some (_, y) \<Rightarrow> y)
       | Some e \<Rightarrow> file_at path n' = file_at path n \<or>
           (\<exists>k. file_at path n' = Some (take k d, case file_at path n of None \<Rightarrow> x | Some (_, y) \<Rightarrow> y)))"
  using assms unfolding os_write_def
  by (auto simp: file_at_put split: option.splits prod.splits)

lemma os_mkdir_all_files: "os_mkdir_all fault path n = (n', r) \<Longrightarrow> file_at q n' = file_at q n"
  by (auto simp: os_mkdir_all_def make_dirs_files split: option.splits)

subsection \<open>Trees without links\<close>

function linkless :: "source_node \<Rightarrow> bool" where
  "linkless (SourceLink t) = False"
| "linkless (SourceFile d x) = True"
| "linkless (SourceDir entries) = (\<forall>p n. map_of entries p = Some n \<longrightarrow> linkless n)"
  by pat_completeness auto

termination linkless
  by (relation "measure size") (auto dest: size_of_entry)

lemma linkless_dirs: "linkless (foldr (\<lambda>q n. SourceDir [(q, n)]) ps (SourceDir []))"
  by (induction ps) auto

text \<open>Directories can be made where no file is in the way.\<close>

lemma make_dirs_total:
  "linkless n \<Longrightarrow> \<forall>k \<le> length path. file_at (take k path) n = None \<Longrightarrow> \<exists>n'. make_dirs path n = Some n' \<and> linkless n'"
proof (induction path n rule: make_dirs.induct)
  case (3 path d x)
  then show ?case by (metis file_at_simps(1) le0 option.distinct(1) take0)
next
  case (5 p ps entries)
  show ?case
  proof (cases "map_of entries p")
    case None
    then show ?thesis using 5(2) by (auto simp: map_of_insort_entry linkless_dirs)
  next
    case (Some m)
    have "file_at (take k ps) m = None" if "k \<le> length ps" for k
      using 5(3) [rule_format, of "Suc k"] that Some by (simp add: file_at_entry)
    then obtain m' where "make_dirs ps m = Some m'" "linkless m'" using 5(1) [OF Some] 5(2) Some by auto
    then show ?thesis using Some 5(2) by auto
  qed
qed auto

lemma put_total:
  "linkless n \<Longrightarrow> path \<noteq> [] \<Longrightarrow> dir_at (butlast path) n \<Longrightarrow> \<not> dir_at path n \<Longrightarrow>
   \<exists>n'. put_node x d path n = Some n' \<and> linkless n'"
proof (induction x d path n rule: put_node.induct)
  case (6 x d p ps entries)
  show ?case
  proof (cases "map_of entries p")
    case None
    then have "ps = []" using 6(4) by (auto split: if_splits)
    then show ?thesis using None 6(2) by (auto simp: map_of_insort_entry)
  next
    case (Some m)
    show ?thesis
    proof (cases ps)
      case Nil
      with Some 6(5) have "\<not> dir_at [] m" by simp
      moreover have "linkless m" using 6(2) Some by auto
      ultimately obtain d' y where "m = SourceFile d' y" by (cases m) auto
      then show ?thesis using Some Nil 6(2) by auto
    next
      case (Cons q qs)
      then obtain m' where "put_node x d ps m = Some m'" "linkless m'"
        using 6(1) [OF Some] 6(2,4,5) Some by auto
      then show ?thesis using Some 6(2) by auto
    qed
  qed
qed auto

end
