(* ===== verification/Source_Pack.thy ===== *)
theory Source_Pack
  imports Project_Tree
begin

text \<open>
  Dyner source snapshots (\<open>shellagent/apphost/source_snapshot.go\<close>): digests, the pack codec, and the
  verification of a snapshot on its way to the disk. SHA-256, JSON, gzip and HTTP are given. Paths
  are Unix paths, as their components.
\<close>

record sourceSnapshotFile =
  sf_Path :: string
  sf_Digest :: string
  sf_Size :: int
  sf_Mode :: int

record sourceSnapshot =
  ss_SchemaVersion :: int
  ss_Algorithm :: string
  ss_PackURL :: string
  ss_Files :: "sourceSnapshotFile list"

subsection \<open>Digests\<close>

definition hex_nibble :: "nat \<Rightarrow> char" where
  "hex_nibble n = ''0123456789abcdef'' ! (n mod 16)"

definition hex_encode :: "bytes \<Rightarrow> string" where
  "hex_encode bs = concat (map (\<lambda>b. [hex_nibble (unat b div 16), hex_nibble (unat b)]) bs)"

definition nibble_value :: "char \<Rightarrow> nat option" where
  "nibble_value c =
     (if CHR ''0'' \<le> c \<and> c \<le> CHR ''9'' then Some (of_char c - 48)
      else if CHR ''a'' \<le> c \<and> c \<le> CHR ''f'' then Some (of_char c - 87)
      else if CHR ''A'' \<le> c \<and> c \<le> CHR ''F'' then Some (of_char c - 55)
      else None)"

fun hex_decode :: "string \<Rightarrow> bytes option" where
  "hex_decode [] = Some []"
| "hex_decode [c] = None"
| "hex_decode (c # d # s) =
     (case (nibble_value c, nibble_value d, hex_decode s) of
        (Some a, Some b, Some bs) \<Rightarrow> Some (word_of_nat (16 * a + b) # bs)
      | _ \<Rightarrow> None)"

text \<open>What \<open>DecodeString\<close> returns beside an error: the bytes before the first wrong digit.\<close>

fun hex_prefix :: "string \<Rightarrow> bytes" where
  "hex_prefix (c # d # s) =
     (case (nibble_value c, nibble_value d) of
        (Some a, Some b) \<Rightarrow> word_of_nat (16 * a + b) # hex_prefix s
      | _ \<Rightarrow> [])"
| "hex_prefix s = []"

definition sourceDigest :: "(bytes \<Rightarrow> bytes) \<Rightarrow> bytes \<Rightarrow> string" where
  "sourceDigest sha data = ''sha256:'' @ hex_encode (sha data)"

definition validSourceDigest :: "string \<Rightarrow> bool" where
  "validSourceDigest v \<longleftrightarrow> has_prefix v ''sha256:'' \<and> length v = 71 \<and> hex_decode (drop 7 v) \<noteq> None"

definition snapshotDigestMatches :: "(bytes \<Rightarrow> bytes) \<Rightarrow> string \<Rightarrow> bytes \<Rightarrow> bool" where
  "snapshotDigestMatches sha expected document \<longleftrightarrow>
     (let e = trim_prefix (to_lower (trim_space expected)) ''sha256:'' in
      length e = 64 \<and> hex_decode e \<noteq> None \<and> hex_encode (sha document) = e)"

subsection \<open>The pack\<close>

definition pack_magic :: bytes where
  "pack_magic = bytes_of ''DYNPACK1''"

definition pack_ended :: string where
  "pack_ended = ''Dyner source pack ended unexpectedly''"

text \<open>One object. \<open>uint64(offset)+size\<close> wraps; when it does, \<open>int(size)\<close> is negative, and so the slice
  \<open>pack[offset:offset+int(size)]\<close> ends before it starts: a panic.\<close>

definition pack_object :: "(bytes \<Rightarrow> bytes) \<Rightarrow> bytes \<Rightarrow> nat \<Rightarrow> (string, bytes) gomap \<Rightarrow> (nat \<times> (string, bytes) gomap) go_call" where
  "pack_object sha pack offset objects =
     (if offset + 40 > length pack then Failed pack_ended
      else
        (let digest = ''sha256:'' @ hex_encode (take 32 (drop offset pack));
             len = be_nat 0 (take 8 (drop (offset + 32) pack)); start = offset + 40
         in if (start + len) mod 2 ^ 64 > length pack then Failed pack_ended
            else if start + len \<ge> 2 ^ 64 then Panicked
            else
              (let data = take len (drop start pack) in
               if map_of objects digest \<noteq> None \<or> sourceDigest sha data \<noteq> digest
               then Failed (''Dyner source pack object failed verification: '' @ digest)
               else Returned (start + len, AList.update digest data objects))))"

fun pack_loop :: "(bytes \<Rightarrow> bytes) \<Rightarrow> nat \<Rightarrow> bytes \<Rightarrow> nat \<Rightarrow> (string, bytes) gomap \<Rightarrow> (nat \<times> (string, bytes) gomap) go_call" where
  "pack_loop sha 0 pack offset objects = Returned (offset, objects)"
| "pack_loop sha (Suc cnt) pack offset objects =
     (case pack_object sha pack offset objects of
        Returned (offset1, objects1) \<Rightarrow> pack_loop sha cnt pack offset1 objects1
      | Failed e \<Rightarrow> Failed e
      | Panicked \<Rightarrow> Panicked)"

definition decodeSourcePack :: "(bytes \<Rightarrow> bytes) \<Rightarrow> bytes \<Rightarrow> (string, bytes) gomap go_call" where
  "decodeSourcePack sha pack =
     (if length pack < 12 \<or> take 8 pack \<noteq> pack_magic then Failed ''Dyner returned an invalid source pack''
      else
        (case pack_loop sha (be_nat 0 (take 4 (drop 8 pack))) pack 12 [] of
           Returned (offset, objects) \<Rightarrow>
             if offset \<noteq> length pack then Failed ''Dyner source pack has trailing bytes'' else Returned objects
         | Failed e \<Rightarrow> Failed e
         | Panicked \<Rightarrow> Panicked))"

text \<open>\<open>copy(header, raw)\<close> keeps the first 40 bytes of the digest; the size overwrites the last 8.\<close>

definition pack_header :: "sourceSnapshotFile \<Rightarrow> bytes" where
  "pack_header f =
     (let raw = hex_prefix (trim_prefix (sf_Digest f) ''sha256:'')
      in take 32 (raw @ replicate 32 0) @ be64 (nat (sf_Size f mod 2 ^ 64)))"

definition encodeSourcePack :: "sourceSnapshotFile list \<Rightarrow> (string, bytes) gomap \<Rightarrow> bytes" where
  "encodeSourcePack files blobs =
     pack_magic @ be32 (length files mod 2 ^ 32)
     @ concat (map (\<lambda>f. pack_header f @ (case map_of blobs (sf_Digest f) of None \<Rightarrow> [] | Some d \<Rightarrow> d)) files)"

subsection \<open>Snapshots\<close>

definition unsafe_entry :: string where
  "unsafe_entry = ''Dyner returned an unsafe source snapshot entry''"

definition validateSnapshotPath :: "string \<Rightarrow> string option" where
  "validateSnapshotPath portable =
     (if portable = [] \<or> has_prefix portable ''/'' \<or> CHR 0x5C \<in> set portable then Some unsafe_entry
      else if \<exists>part \<in> set (split_on (CHR ''/'') portable). part \<in> {[], ''.'', ''..''} then Some unsafe_entry
      else None)"

text \<open>\<open>filepath.Join\<close> of a clean absolute path and a relative one: \<open>Clean\<close> drops empty and \<open>.\<close> components
  and lets \<open>..\<close> take the component before it.\<close>

definition clean_step :: "string \<Rightarrow> string list \<Rightarrow> string list" where
  "clean_step part path = (if part \<in> {[], ''.''} then path else if part = ''..'' then butlast path else path @ [part])"

definition join_path :: "string list \<Rightarrow> string \<Rightarrow> string list" where
  "join_path root portable = fold clean_step (split_on (CHR ''/'') portable) root"

text \<open>\<open>filepath.Rel\<close> of clean absolute paths starts with \<open>..\<close> unless the root is a prefix.\<close>

definition pathInside :: "string list \<Rightarrow> string list \<Rightarrow> bool" where
  "pathInside root target \<longleftrightarrow> take (length root) target = root"

text \<open>The checks of the file list, with the sizes recorded per digest.\<close>

fun check_files :: "sourceSnapshotFile list \<Rightarrow> (string, int) gomap \<Rightarrow> string option" where
  "check_files [] expected = None"
| "check_files (f # fs) expected =
     (case validateSnapshotPath (sf_Path f) of
        Some e \<Rightarrow> Some e
      | None \<Rightarrow>
          if \<not> validSourceDigest (sf_Digest f) \<or> sf_Size f < 0 then Some unsafe_entry
          else if (\<exists>previous. map_of expected (sf_Digest f) = Some previous \<and> previous \<noteq> sf_Size f)
          then Some (''Dyner source snapshot has conflicting sizes for '' @ sf_Digest f)
          else check_files fs (AList.update (sf_Digest f) (sf_Size f) expected))"

text \<open>What fails on the disk: the destination cannot be made, or at the file of that number its directory or the
  file itself.\<close>

record snapshot_disk =
  sd_root :: "string option"
  sd_dir :: "nat \<Rightarrow> (string \<times> nat) option"
  sd_file :: "nat \<Rightarrow> write_fault"

text \<open>The loop over the files, on the destination's tree; the result is the tree and the error that ended the loop.\<close>

fun write_files :: "(bytes \<Rightarrow> bytes) \<Rightarrow> snapshot_disk \<Rightarrow> string list \<Rightarrow> (string, bytes) gomap \<Rightarrow> nat \<Rightarrow> sourceSnapshotFile list
    \<Rightarrow> source_node \<Rightarrow> source_node \<times> string option" where
  "write_files sha disk root objects k [] tree = (tree, None)"
| "write_files sha disk root objects k (f # fs) tree =
     (case map_of objects (sf_Digest f) of
        None \<Rightarrow> (tree, Some (''Dyner source pack is missing object '' @ sf_Digest f))
      | Some data \<Rightarrow>
          if int (length data) \<noteq> sf_Size f \<or> sourceDigest sha data \<noteq> sf_Digest f
          then (tree, Some (''Dyner source blob failed verification: '' @ sf_Path f))
          else
            (let target = join_path root (sf_Path f); path = drop (length root) target in
             if \<not> pathInside root target then (tree, Some ''Dyner source snapshot escapes the destination'')
             else (case os_mkdir_all (sd_dir disk k) (butlast path) tree of
                     (tree1, Some e) \<Rightarrow> (tree1, Some e)
                   | (tree1, None) \<Rightarrow>
                       (case os_write (sd_file disk k) (sf_Mode f = 493) data path tree1 of
                          (tree2, Some e) \<Rightarrow> (tree2, Some e)
                        | (tree2, None) \<Rightarrow> write_files sha disk root objects (Suc k) fs tree2))))"

text \<open>What the network answers: the document and the pack (an error, or the body), whether the pack's
  encoding header says gzip, and what gunzip makes of a body.\<close>

record snapshot_net =
  sn_document :: "string + bytes"
  sn_parse :: "bytes \<Rightarrow> sourceSnapshot option"
  sn_pack :: "string + bytes"
  sn_gzip_header :: bool
  sn_gunzip :: "bytes \<Rightarrow> string + bytes"

definition pack_body :: "snapshot_net \<Rightarrow> string + bytes" where
  "pack_body n =
     (case sn_pack n of
        Inl e \<Rightarrow> Inl e
      | Inr body \<Rightarrow>
          (let packed = take (256 * 1024 * 1024) body in
           if sn_gzip_header n \<or> (length packed \<ge> 2 \<and> packed ! 0 = 0x1f \<and> packed ! 1 = 0x8b)
           then map_sum id (take (256 * 1024 * 1024)) (sn_gunzip n packed)
           else Inr packed))"

text \<open>\<open>MkdirAll\<close> of the destination.\<close>

definition make_destination :: "snapshot_disk \<Rightarrow> source_node option \<Rightarrow> string + source_node" where
  "make_destination disk dest =
     (case sd_root disk of
        Some e \<Rightarrow> Inl e
      | None \<Rightarrow> (case dest of
                  None \<Rightarrow> Inr (SourceDir [])
                | Some n \<Rightarrow> if dir_at [] n then Inr n else Inl ''not a directory''))"

text \<open>\<open>root\<close> is the destination's path and \<open>dest\<close> what is there (None: nothing); the result is what is there
  afterwards and how the function ends.\<close>

definition materializeSourceSnapshot ::
  "(bytes \<Rightarrow> bytes) \<Rightarrow> snapshot_net \<Rightarrow> snapshot_disk \<Rightarrow> string \<Rightarrow> string list \<Rightarrow> source_node option
     \<Rightarrow> source_node option \<times> unit go_call" where
  "materializeSourceSnapshot sha n disk expectedDigest root dest =
     (case sn_document n of
        Inl e \<Rightarrow> (dest, Failed e)
      | Inr document \<Rightarrow>
          if length document > 8 * 1024 * 1024 then (dest, Failed ''Dyner source snapshot is too large'')
          else if \<not> snapshotDigestMatches sha expectedDigest document
          then (dest, Failed ''Dyner source snapshot failed digest verification'')
          else
            (case sn_parse n document of
               None \<Rightarrow> (dest, Failed ''Dyner returned an invalid source snapshot'')
             | Some snapshot \<Rightarrow>
                 if ss_SchemaVersion snapshot \<noteq> 1 \<or> ss_Algorithm snapshot \<noteq> ''sha256'' \<or> ss_PackURL snapshot = []
                    \<or> ss_Files snapshot = []
                 then (dest, Failed ''Dyner returned an invalid source snapshot'')
                 else
                   (case check_files (ss_Files snapshot) [] of
                      Some e \<Rightarrow> (dest, Failed e)
                    | None \<Rightarrow>
                        (case pack_body n of
                           Inl e \<Rightarrow> (dest, Failed e)
                         | Inr packed \<Rightarrow>
                             (case decodeSourcePack sha packed of
                                Failed e \<Rightarrow> (dest, Failed e)
                              | Panicked \<Rightarrow> (dest, Panicked)
                              | Returned objects \<Rightarrow>
                                  (case make_destination disk dest of
                                     Inl e \<Rightarrow> (dest, Failed e)
                                   | Inr tree \<Rightarrow>
                                       (case write_files sha disk root objects 0 (ss_Files snapshot) tree of
                                          (tree', None) \<Rightarrow> (Some tree', Returned ())
                                        | (tree', Some e) \<Rightarrow> (Some tree', Failed e))))))))"

end
