(* ===== verification/Source_Properties.thy ===== *)
theory Source_Properties
  imports Source_Pack
begin

text \<open>
  Source snapshots: packs decode to what they were encoded from, what reaches the disk has been
  verified and stays below its root, and a pack that makes the decoder panic.
\<close>

subsection \<open>Hexadecimal digits\<close>

lemma nibble_round_trip: "n < 16 \<Longrightarrow> nibble_value (hex_nibble n) = Some n"
proof -
  assume "n < 16"
  then have "n \<in> set [0..<16]" by simp
  moreover have "list_all (\<lambda>n. nibble_value (hex_nibble n) = Some n) [0..<16]" by code_simp
  ultimately show ?thesis by (simp only: list_all_iff)
qed

lemma hex_nibble_mod: "hex_nibble (n mod 16) = hex_nibble n"
  by (simp add: hex_nibble_def)

lemma word_of_nat_byte_self: "word_of_nat (unat b) = (b :: byte)"
  by simp

lemma hex_round_trip [simp]: "hex_decode (hex_encode bs) = Some bs"
proof (induction bs)
  case (Cons b bs)
  have high: "nibble_value (hex_nibble (unat b div 16)) = Some (unat b div 16)"
    using unat_byte_less [of b] by (intro nibble_round_trip) simp
  have low: "nibble_value (hex_nibble (unat b)) = Some (unat b mod 16)"
    using nibble_round_trip [of "unat b mod 16"] by (simp add: hex_nibble_mod)
  have "16 * (unat b div 16) + unat b mod 16 = unat b" by simp
  then have "word_of_nat (16 * (unat b div 16) + unat b mod 16) = b" by (metis word_of_nat_byte_self)
  then show ?case using Cons high low by (simp add: hex_encode_def)
qed (simp add: hex_encode_def)

lemma hex_prefix_decoded: "hex_decode s = Some bs \<Longrightarrow> hex_prefix s = bs"
  by (induction s arbitrary: bs rule: hex_decode.induct) (auto split: option.splits)

lemma hex_prefix_encode [simp]: "hex_prefix (hex_encode bs) = bs"
  by (rule hex_prefix_decoded) simp

lemma hex_encode_inj: "hex_encode a = hex_encode b \<Longrightarrow> a = b"
  by (metis hex_round_trip option.inject)

subsection \<open>Packs\<close>

lemma trim_prefix_digest: "trim_prefix (sourceDigest sha data) ''sha256:'' = hex_encode (sha data)"
  unfolding sourceDigest_def by (rule trim_prefix_append)

lemma pack_header_digest:
  assumes "sf_Digest f = sourceDigest sha data" and "length (sha data) = 32"
    and "sf_Size f = int (length data)" and "length data < 2 ^ 64"
  shows "pack_header f = sha data @ be64 (length data)"
proof -
  have "sf_Size f mod 2 ^ 64 = int (length data)" using assms(3,4) by simp
  then show ?thesis using assms(1,2) by (simp add: pack_header_def trim_prefix_digest)
qed

text \<open>A blob of a file list is what its digest and its size say.\<close>

definition blob_ok :: "(bytes \<Rightarrow> bytes) \<Rightarrow> (string, bytes) gomap \<Rightarrow> sourceSnapshotFile \<Rightarrow> bool" where
  "blob_ok sha blobs f \<longleftrightarrow>
     (\<exists>data. map_of blobs (sf_Digest f) = Some data \<and> sf_Digest f = sourceDigest sha data \<and> sf_Size f = int (length data))"

definition pack_entry :: "(string, bytes) gomap \<Rightarrow> sourceSnapshotFile \<Rightarrow> bytes" where
  "pack_entry blobs f = pack_header f @ (case map_of blobs (sf_Digest f) of None \<Rightarrow> [] | Some d \<Rightarrow> d)"

lemma pack_loop_encoded:
  assumes "list_all (blob_ok sha blobs) files" and "distinct (map sf_Digest files)"
    and "\<And>x. length (sha x) = 32" and "length (pre @ concat (map (pack_entry blobs) files)) < 2 ^ 64"
    and "\<forall>f \<in> set files. map_of objects (sf_Digest f) = None"
  shows "\<exists>objects'. pack_loop sha (length files) (pre @ concat (map (pack_entry blobs) files)) (length pre) objects
      = Returned (length (pre @ concat (map (pack_entry blobs) files)), objects')
    \<and> map_of objects' = (\<lambda>d. if d \<in> sf_Digest ` set files then map_of blobs d else map_of objects d)"
  using assms
proof (induction files arbitrary: pre objects)
  case (Cons f fs)
  from Cons.prems(1) obtain data where data: "map_of blobs (sf_Digest f) = Some data"
      "sf_Digest f = sourceDigest sha data" "sf_Size f = int (length data)"
    by (auto simp: blob_ok_def)
  let ?rest = "concat (map (pack_entry blobs) fs)" and ?entry = "sha data @ be64 (length data) @ data"
  have sha: "length (sha data) = 32" by (rule Cons.prems(3))
  have "length data < 2 ^ 64" using Cons.prems(4) data(1) by (simp add: pack_entry_def)
  then have entry: "pack_entry blobs f = ?entry" and bound: "length data < 18446744073709551616"
    using pack_header_digest [OF data(2) sha data(3)] data(1) by (simp_all add: pack_entry_def)
  have size: "length (pre @ ?entry @ ?rest) < 18446744073709551616" using Cons.prems(4) entry by simp
  have step: "pack_object sha (pre @ ?entry @ ?rest) (length pre) objects
      = Returned (length (pre @ ?entry), AList.update (sf_Digest f) data objects)"
    using size sha bound Cons.prems(5) data(2)
    by (simp add: pack_object_def sourceDigest_def Let_def)
  have free: "map_of (AList.update (sf_Digest f) data objects) (sf_Digest g) = None" if "g \<in> set fs" for g
    using that Cons.prems(2,5) by auto (metis image_eqI)
  obtain objects' where "pack_loop sha (length fs) ((pre @ ?entry) @ ?rest) (length (pre @ ?entry)) (AList.update (sf_Digest f) data objects)
        = Returned (length ((pre @ ?entry) @ ?rest), objects')"
      "map_of objects' = (\<lambda>d. if d \<in> sf_Digest ` set fs then map_of blobs d else map_of (AList.update (sf_Digest f) data objects) d)"
    using Cons.IH [of "pre @ ?entry" "AList.update (sf_Digest f) data objects"] Cons.prems(1-3) size free by auto
  then show ?case using step data(1) by (auto simp: entry fun_eq_iff)
qed auto

lemma source_pack_decodes:
  assumes "list_all (blob_ok sha blobs) files" and "distinct (map sf_Digest files)" and "length files < 2 ^ 32"
    and "\<forall>x. length (sha x) = 32" and "length (encodeSourcePack files blobs) < 2 ^ 64"
  shows "\<exists>objects. decodeSourcePack sha (encodeSourcePack files blobs) = Returned objects
    \<and> map_of objects = map_of blobs |` (sf_Digest ` set files)"
proof -
  let ?pre = "pack_magic @ be32 (length files)" and ?body = "concat (map (pack_entry blobs) files)"
  have pack: "encodeSourcePack files blobs = ?pre @ ?body"
    using assms(3) by (simp add: encodeSourcePack_def pack_entry_def [abs_def])
  have pre: "length ?pre = 12" "length pack_magic = 8" by (simp_all add: pack_magic_def)
  obtain objects where "pack_loop sha (length files) (?pre @ ?body) (length ?pre) [] = Returned (length (?pre @ ?body), objects)"
      "map_of objects = (\<lambda>d. if d \<in> sf_Digest ` set files then map_of blobs d else map_of [] d)"
    using pack_loop_encoded [OF assms(1,2), of ?pre "[]"] assms(4,5) unfolding pack by (metis map_of.simps(1))
  moreover have "be_nat 0 (take 4 (drop 8 (?pre @ ?body))) = length files" using pre assms(3) by simp
  ultimately show ?thesis using pre
    by (auto simp: pack decodeSourcePack_def restrict_map_def fun_eq_iff)
qed

text \<open>
  A pack that was encoded from a list of files with distinct digests decodes to exactly the blobs of
  these files, whatever else the blob table held: the headers, the sizes and the digests survive.
\<close>

theorem source_pack_round_trip:
  assumes "list_all (blob_ok sha blobs) files" and "distinct (map sf_Digest files)" and "length files < 2 ^ 32"
    and "\<forall>x. length (sha x) = 32" and "length (encodeSourcePack files blobs) < 2 ^ 64"
  shows "\<exists>objects. decodeSourcePack sha (encodeSourcePack files blobs) = Returned objects
    \<and> map_of objects = map_of blobs |` (sf_Digest ` set files)"
  by (rule source_pack_decodes [OF assms])

definition sample_sha :: "bytes \<Rightarrow> bytes" where
  "sample_sha data = take 32 (data @ replicate 32 0)"

definition sample_source :: "bytes \<Rightarrow> sourceSnapshotFile" where
  "sample_source data = \<lparr>sf_Path = ''src/main.js'', sf_Digest = sourceDigest sample_sha data, sf_Size = int (length data), sf_Mode = 420\<rparr>"

lemma sample_pack:
  "list_all (blob_ok sample_sha [(sourceDigest sample_sha [1, 2], [1, 2])]) [sample_source [1, 2]]"
  "distinct (map sf_Digest [sample_source [1, 2]])" "length [sample_source [1, 2]] < 2 ^ 32"
  "\<forall>x. length (sample_sha x) = 32"
  "length (encodeSourcePack [sample_source [1, 2]] [(sourceDigest sample_sha [1, 2], [1, 2])]) < 2 ^ 64"
proof -
  show "list_all (blob_ok sample_sha [(sourceDigest sample_sha [1, 2], [1, 2])]) [sample_source [1, 2]]"
    by (simp add: blob_ok_def sample_source_def)
  show "\<forall>x. length (sample_sha x) = 32" by (simp add: sample_sha_def min_def)
  have "length (pack_header (sample_source [1, 2])) = 40"
    by (simp add: pack_header_def be64_def be32_def Let_def)
  then show "length (encodeSourcePack [sample_source [1, 2]] [(sourceDigest sample_sha [1, 2], [1, 2])]) < 2 ^ 64"
    by (simp add: encodeSourcePack_def pack_magic_def sample_source_def)
qed simp_all

theorem source_pack_round_trip_witness:
  "\<exists>objects. decodeSourcePack sample_sha (encodeSourcePack [sample_source [1, 2]] [(sourceDigest sample_sha [1, 2], [1, 2])])
     = Returned objects \<and> map_of objects (sourceDigest sample_sha [1, 2]) = Some [1, 2]"
  using source_pack_round_trip [OF sample_pack] by (auto simp: sample_source_def restrict_map_def)

text \<open>
  A pack that claims an object of 2^64 - 1 bytes makes the decoder panic, whatever follows: the sum
  of offset and size wraps around to a small number, passes the check, and the slice that is taken
  next ends before it starts.
\<close>

theorem huge_pack_object_panics:
  "decodeSourcePack sha (pack_magic @ be32 1 @ replicate 32 0 @ be64 (2 ^ 64 - 1) @ rest) = Panicked"
proof -
  let ?pack = "pack_magic @ be32 1 @ replicate 32 0 @ be64 (2 ^ 64 - 1) @ rest"
  have magic: "length pack_magic = 8" by (simp add: pack_magic_def)
  then have "take 8 (drop (12 + 32) ?pack) = be64 (2 ^ 64 - 1)" "take 8 ?pack = pack_magic" "52 \<le> length ?pack"
      "take 4 (drop 8 ?pack) = be32 1"
    by simp_all
  moreover have "be_nat 0 (be64 (2 ^ 64 - 1)) = 2 ^ 64 - 1" "be_nat 0 (be32 1) = 1" by simp_all
  ultimately have "pack_object sha ?pack 12 [] = Panicked" "pack_loop sha (be_nat 0 (take 4 (drop 8 ?pack))) ?pack 12 [] = Panicked"
    by (simp_all only: pack_object_def Let_def One_nat_def pack_loop.simps) (simp_all)
  then show ?thesis using \<open>52 \<le> length ?pack\<close> \<open>take 8 ?pack = pack_magic\<close>
    by (simp only: decodeSourcePack_def go_call.case) simp
qed

subsection \<open>What reaches the disk\<close>

lemma pack_loop_verified:
  "pack_loop sha cnt pack offset objects = Returned (offset', objects') \<Longrightarrow>
   \<forall>(d, data) \<in> set objects. sourceDigest sha data = d \<Longrightarrow> \<forall>(d, data) \<in> set objects'. sourceDigest sha data = d"
proof (induction cnt arbitrary: offset objects)
  case (Suc cnt)
  from Suc.prems(1) obtain o1 objects1 where step: "pack_object sha pack offset objects = Returned (o1, objects1)"
      "pack_loop sha cnt pack o1 objects1 = Returned (offset', objects')"
    by (auto split: go_call.splits)
  have "\<forall>(d, data) \<in> set objects1. sourceDigest sha data = d"
    using step(1) Suc.prems(2) set_AList_update by (fastforce simp: pack_object_def Let_def split: if_splits)
  then show ?case by (rule Suc.IH [OF step(2)])
qed simp

lemma validated_parts:
  "validateSnapshotPath p = None \<Longrightarrow> set (split_on (CHR ''/'') p) \<inter> {[], ''.'', ''..''} = {}"
  by (auto simp: validateSnapshotPath_def split: if_splits)

lemma join_plain: "set parts \<inter> {[], ''.'', ''..''} = {} \<Longrightarrow> fold clean_step parts root = root @ parts"
  by (induction parts arbitrary: root) (auto simp: clean_step_def)

lemma join_validated: "validateSnapshotPath p = None \<Longrightarrow> join_path root p = root @ split_on (CHR ''/'') p"
  by (simp add: join_path_def join_plain validated_parts)

lemma check_files_paths: "check_files fs expected = None \<Longrightarrow> f \<in> set fs \<Longrightarrow> validateSnapshotPath (sf_Path f) = None"
  by (induction fs arbitrary: expected) (auto split: option.splits if_splits)

definition snapshot_parts :: "sourceSnapshotFile \<Rightarrow> string list" where
  "snapshot_parts f = split_on (CHR ''/'') (sf_Path f)"

definition verified :: "(bytes \<Rightarrow> bytes) \<Rightarrow> sourceSnapshotFile \<Rightarrow> bytes \<Rightarrow> bool" where
  "verified sha f data \<longleftrightarrow> sourceDigest sha data = sf_Digest f \<and> int (length data) = sf_Size f"

text \<open>What became of the file at a path: a file of the document, verified, or the start of one.\<close>

definition placed :: "(bytes \<Rightarrow> bytes) \<Rightarrow> sourceSnapshotFile list \<Rightarrow> string list \<Rightarrow> bool \<Rightarrow> (bytes \<times> bool) option \<Rightarrow> bool" where
  "placed sha fs q whole now \<longleftrightarrow>
     (\<exists>f \<in> set fs. \<exists>data x k. q = snapshot_parts f \<and> verified sha f data \<and> now = Some (take k data, x) \<and> (whole \<longrightarrow> length data \<le> k))"

lemma placed_mono: "placed sha fs q whole now \<Longrightarrow> set fs \<subseteq> set gs \<Longrightarrow> placed sha gs q whole now"
  unfolding placed_def by blast

lemma placed_weaken: "placed sha fs q True now \<Longrightarrow> placed sha fs q whole now"
  unfolding placed_def by blast

lemma placed_here: "verified sha f data \<Longrightarrow> f \<in> set fs \<Longrightarrow> placed sha fs (snapshot_parts f) True (Some (data, x))"
  unfolding placed_def by (rule bexI [of _ f], rule exI [of _ data], rule exI [of _ x], rule exI [of _ "length data"]) simp_all

lemma placed_start: "verified sha f data \<Longrightarrow> f \<in> set fs \<Longrightarrow> placed sha fs (snapshot_parts f) False (Some (take k data, x))"
  unfolding placed_def by (rule bexI [of _ f], rule exI [of _ data], rule exI [of _ x], rule exI [of _ k]) simp_all

text \<open>One round of the loop.\<close>

lemma write_files_step:
  assumes "validateSnapshotPath (sf_Path f) = None" "write_files sha disk root objects k (f # fs) tree = (tree', r)"
  obtains (stopped) e where "r = Some e" "\<And>q. file_at q tree' = file_at q tree"
  | (partial) data e where "verified sha f data" "r = Some e" "\<And>q. q \<noteq> snapshot_parts f \<Longrightarrow> file_at q tree' = file_at q tree"
      "file_at (snapshot_parts f) tree' = file_at (snapshot_parts f) tree \<or> (\<exists>k x. file_at (snapshot_parts f) tree' = Some (take k data, x))"
  | (wrote) data tree1 tree2 where "map_of objects (sf_Digest f) = Some data" "verified sha f data" "sd_dir disk k = None" "sd_file disk k = None"
      "make_dirs (butlast (snapshot_parts f)) tree = Some tree1"
      "put_node (sf_Mode f = 493) data (snapshot_parts f) tree1 = Some tree2"
      "\<And>q. file_at q tree2 = (if q = snapshot_parts f then Some (data, case file_at q tree of None \<Rightarrow> sf_Mode f = 493 | Some (_, y) \<Rightarrow> y) else file_at q tree)"
      "write_files sha disk root objects (Suc k) fs tree2 = (tree', r)"
proof -
  have target: "join_path root (sf_Path f) = root @ snapshot_parts f"
    using join_validated [OF assms(1)] by (simp add: snapshot_parts_def)
  consider (missing) "map_of objects (sf_Digest f) = None"
    | (wrong) data where "map_of objects (sf_Digest f) = Some data" "\<not> verified sha f data"
    | (good) data where "map_of objects (sf_Digest f) = Some data" "verified sha f data"
    by (cases "map_of objects (sf_Digest f)") auto
  then show thesis
  proof cases
    case missing
    then show thesis using assms(2) by (auto intro: stopped)
  next
    case wrong
    then show thesis using assms(2) by (auto simp: verified_def intro: stopped)
  next
    case good
    obtain tree1 r1 where dir: "os_mkdir_all (sd_dir disk k) (butlast (snapshot_parts f)) tree = (tree1, r1)" by fastforce
    have same: "file_at q tree1 = file_at q tree" for q by (rule os_mkdir_all_files [OF dir])
    have run: "(tree', r) = (case r1 of Some e \<Rightarrow> (tree1, Some e)
        | None \<Rightarrow> (case os_write (sd_file disk k) (sf_Mode f = 493) data (snapshot_parts f) tree1 of
                     (tree2, Some e) \<Rightarrow> (tree2, Some e)
                   | (tree2, None) \<Rightarrow> write_files sha disk root objects (Suc k) fs tree2))"
      using assms(2) good dir by (simp add: target pathInside_def verified_def split: option.splits)
    show thesis
    proof (cases r1)
      case (Some e)
      then show thesis using run same by (auto intro: stopped)
    next
      case None
      then have made: "sd_dir disk k = None" "make_dirs (butlast (snapshot_parts f)) tree = Some tree1"
        using dir by (auto simp: os_mkdir_all_def split: option.splits)
      obtain tree2 r2 where w: "os_write (sd_file disk k) (sf_Mode f = 493) data (snapshot_parts f) tree1 = (tree2, r2)" by fastforce
      show thesis
      proof (cases r2)
        case (Some e)
        then have t: "tree' = tree2" "r = Some e" using run None w by simp_all
        have other: "file_at q tree' = file_at q tree" if "q \<noteq> snapshot_parts f" for q
          using os_write_result [OF w, of q] that same by (simp add: t)
        show thesis
          by (rule partial [OF good(2) t(2) other]) (use os_write_result [OF w] Some same t in auto)
      next
        case r2: None
        then have put: "sd_file disk k = None" "put_node (sf_Mode f = 493) data (snapshot_parts f) tree1 = Some tree2"
          using w by (auto simp: os_write_def split: option.splits)
        have rest: "write_files sha disk root objects (Suc k) fs tree2 = (tree', r)" using run None w r2 by simp
        show thesis
          by (rule wrote [OF good made(1) put(1) made(2) put(2) _ rest]) (simp add: file_at_put [OF put(2)] same)
      qed
    qed
  qed
qed

lemma write_files_placed:
  "\<forall>f \<in> set fs. validateSnapshotPath (sf_Path f) = None \<Longrightarrow> write_files sha disk root objects k fs tree = (tree', r) \<Longrightarrow>
   \<exists>bad. \<forall>q. file_at q tree' = file_at q tree \<or> placed sha fs q True (file_at q tree')
      \<or> r \<noteq> None \<and> q = bad \<and> placed sha fs q False (file_at q tree')"
proof (induction fs arbitrary: k tree)
  case (Cons f fs)
  have f: "validateSnapshotPath (sf_Path f) = None" using Cons.prems(1) by simp
  show ?case
  proof (cases rule: write_files_step [OF f Cons.prems(2), case_names stopped partial wrote])
    case (partial data e)
    then have "file_at q tree' = file_at q tree \<or> q = snapshot_parts f \<and> placed sha (f # fs) q False (file_at q tree')" for q
      using placed_start [OF partial(1), of "f # fs"] by (cases "q = snapshot_parts f") auto
    then show ?thesis using partial(2) by blast
  next
    case (wrote data tree1 tree2)
    obtain bad where bad: "\<forall>q. file_at q tree' = file_at q tree2 \<or> placed sha fs q True (file_at q tree')
        \<or> r \<noteq> None \<and> q = bad \<and> placed sha fs q False (file_at q tree')"
      using Cons.IH [OF _ wrote(8)] Cons.prems(1) by auto
    have "file_at q tree' = file_at q tree \<or> placed sha (f # fs) q True (file_at q tree')
        \<or> r \<noteq> None \<and> q = bad \<and> placed sha (f # fs) q False (file_at q tree')" for q
    proof -
      have mono: "placed sha fs q w now \<Longrightarrow> placed sha (f # fs) q w now" for w now by (erule placed_mono) auto
      have "file_at q tree2 = file_at q tree \<or> placed sha (f # fs) q True (file_at q tree2)"
        using wrote(7) [of q] placed_here [OF wrote(2), of "f # fs"] by (cases "q = snapshot_parts f") auto
      with bad [rule_format, of q] mono show ?thesis by metis
    qed
    then show ?thesis by blast
  qed auto
qed auto

lemma write_files_last:
  "\<forall>f \<in> set fs. validateSnapshotPath (sf_Path f) = None \<Longrightarrow> write_files sha disk root objects k fs tree = (tree', None) \<Longrightarrow>
   fs = pre @ f # post \<Longrightarrow> snapshot_parts f \<notin> snapshot_parts ` set post \<Longrightarrow>
   \<exists>data x. verified sha f data \<and> file_at (snapshot_parts f) tree' = Some (data, x)"
proof (induction fs arbitrary: k tree pre)
  case (Cons g gs)
  have g: "validateSnapshotPath (sf_Path g) = None" using Cons.prems(1) by simp
  show ?case
  proof (cases rule: write_files_step [OF g Cons.prems(2), case_names stopped partial wrote])
    case (wrote data tree1 tree2)
    show ?thesis
    proof (cases pre)
      case Nil
      then have fg: "g = f" "gs = post" using Cons.prems(3) by simp_all
      have "file_at (snapshot_parts f) tree' = file_at (snapshot_parts f) tree2"
        using write_files_placed [OF _ wrote(8), unfolded fg] Cons.prems(1,4) by (auto simp: fg placed_def image_iff)
      then show ?thesis using wrote(2,7) by (auto simp: fg)
    next
      case (Cons h hs)
      then show ?thesis using Cons.IH [OF _ wrote(8), of hs] Cons.prems by auto
    qed
  qed auto
qed simp

text \<open>
  C19: What a source snapshot download leaves on the disk, whatever the network answers and the disk refuses (a link in the
  destination is taken for what it leads to). If anything changed, Dyner's document has the digest the caller asked
  for; each file below the destination is then as it was, or one of the document's files, at its place and with the
  digest and the size the document gives it. Only if an error is reported may there be one file more, the start of such
  a file, whose write failed. When none is reported, every file of the document is there; of two at one path, the
  later.
\<close>

theorem written_sources_are_verified:
  assumes "materializeSourceSnapshot sha n disk expected root dest = (dest', outcome)"
  shows "dest' = dest \<and> outcome \<noteq> Returned () \<or>
    (\<exists>document snapshot tree tree' bad. sn_document n = Inr document \<and> sn_parse n document = Some snapshot
      \<and> snapshotDigestMatches sha expected document
      \<and> tree = (case dest of None \<Rightarrow> SourceDir [] | Some t \<Rightarrow> t) \<and> dest' = Some tree'
      \<and> (\<forall>f \<in> set (ss_Files snapshot). set (snapshot_parts f) \<inter> {[], ''.'', ''..''} = {})
      \<and> (\<forall>q. file_at q tree' = file_at q tree \<or> placed sha (ss_Files snapshot) q True (file_at q tree')
            \<or> outcome \<noteq> Returned () \<and> q = bad \<and> placed sha (ss_Files snapshot) q False (file_at q tree'))
      \<and> (outcome = Returned () \<longrightarrow>
           (\<forall>pre f post. ss_Files snapshot = pre @ f # post \<and> snapshot_parts f \<notin> snapshot_parts ` set post \<longrightarrow>
              (\<exists>data x. verified sha f data \<and> file_at (snapshot_parts f) tree' = Some (data, x)))))"
proof (cases "dest' = dest \<and> outcome \<noteq> Returned ()")
  case False
  with assms obtain document snapshot packed objects tree tree' r where run: "sn_document n = Inr document"
      "snapshotDigestMatches sha expected document" "sn_parse n document = Some snapshot"
      "check_files (ss_Files snapshot) [] = None" "decodeSourcePack sha packed = Returned objects"
      "make_destination disk dest = Inr tree" "write_files sha disk root objects 0 (ss_Files snapshot) tree = (tree', r)"
      "dest' = Some tree'" "outcome = (case r of None \<Rightarrow> Returned () | Some e \<Rightarrow> Failed e)"
    unfolding materializeSourceSnapshot_def
    by (auto split: sum.splits if_splits option.splits go_call.splits prod.splits)
  have paths: "\<forall>f \<in> set (ss_Files snapshot). validateSnapshotPath (sf_Path f) = None" using check_files_paths [OF run(4)] by blast
  have tree: "tree = (case dest of None \<Rightarrow> SourceDir [] | Some t \<Rightarrow> t)"
    using run(6) by (auto simp: make_destination_def split: option.splits if_splits)
  have ended: "outcome \<noteq> Returned () \<longleftrightarrow> r \<noteq> None" using run(9) by (auto split: option.splits)
  obtain bad where bad: "\<forall>q. file_at q tree' = file_at q tree \<or> placed sha (ss_Files snapshot) q True (file_at q tree')
      \<or> r \<noteq> None \<and> q = bad \<and> placed sha (ss_Files snapshot) q False (file_at q tree')"
    using write_files_placed [OF paths run(7)] by blast
  have "\<forall>f \<in> set (ss_Files snapshot). set (snapshot_parts f) \<inter> {[], ''.'', ''..''} = {}"
    using paths validated_parts by (auto simp: snapshot_parts_def)
  moreover have "outcome = Returned () \<longrightarrow> (\<forall>pre f post. ss_Files snapshot = pre @ f # post \<and> snapshot_parts f \<notin> snapshot_parts ` set post \<longrightarrow>
      (\<exists>data x. verified sha f data \<and> file_at (snapshot_parts f) tree' = Some (data, x)))"
  proof (cases r)
    case None
    show ?thesis using write_files_last [OF paths run(7) [unfolded None]] by blast
  qed (use ended in simp)
  moreover have "\<forall>q. file_at q tree' = file_at q tree \<or> placed sha (ss_Files snapshot) q True (file_at q tree')
      \<or> outcome \<noteq> Returned () \<and> q = bad \<and> placed sha (ss_Files snapshot) q False (file_at q tree')"
    using bad unfolding ended .
  ultimately show ?thesis using run(1-3,8) tree
    by (intro disjI2 exI [of _ document] exI [of _ snapshot] exI [of _ tree] exI [of _ tree'] exI [of _ bad] conjI)
qed simp

definition sample_snapshot :: sourceSnapshot where
  "sample_snapshot = \<lparr>ss_SchemaVersion = 1, ss_Algorithm = ''sha256'', ss_PackURL = ''https://dyner.ai/pack'',
     ss_Files = [sample_source [1, 2]]\<rparr>"

definition sample_snapshot_net :: snapshot_net where
  "sample_snapshot_net = \<lparr>sn_document = Inr [7], sn_parse = (\<lambda>_. Some sample_snapshot),
     sn_pack = Inr (encodeSourcePack [sample_source [1, 2]] [(sourceDigest sample_sha [1, 2], [1, 2])]),
     sn_gzip_header = False, sn_gunzip = Inr\<rparr>"

definition calm_disk :: snapshot_disk where
  "calm_disk = \<lparr>sd_root = None, sd_dir = (\<lambda>_. None), sd_file = (\<lambda>_. None)\<rparr>"

theorem written_sources_are_verified_witness:
  "\<exists>tree. materializeSourceSnapshot sample_sha sample_snapshot_net calm_disk (hex_encode (sample_sha [7])) [''srv''] None = (Some tree, Returned ())
     \<and> file_at [''src'', ''main.js''] tree = Some ([1, 2], False)"
proof -
  let ?d = "sourceDigest sample_sha [1, 2]"
  obtain objects where objects: "decodeSourcePack sample_sha (encodeSourcePack [sample_source [1, 2]] [(?d, [1, 2])]) = Returned objects"
      "map_of objects ?d = Some [1, 2]"
    using source_pack_decodes [OF sample_pack] by (auto simp: sample_source_def restrict_map_def)
  have "validateSnapshotPath ''src/main.js'' = None" "validSourceDigest ?d"
      "snapshotDigestMatches sample_sha (hex_encode (sample_sha [7])) [7]"
      "join_path [''srv''] ''src/main.js'' = [''srv'', ''src'', ''main.js'']"
    by code_simp+
  moreover have "pack_body sample_snapshot_net = Inr (encodeSourcePack [sample_source [1, 2]] [(?d, [1, 2])])"
  proof -
    have "pack_magic ! 0 = 0x44" "length pack_magic = 8" by code_simp+
    then have "encodeSourcePack [sample_source [1, 2]] [(?d, [1, 2])] ! 0 = 0x44" by (simp add: encodeSourcePack_def nth_append)
    moreover have "length (encodeSourcePack [sample_source [1, 2]] [(?d, [1, 2])]) \<le> 256 * 1024 * 1024"
      by (simp add: encodeSourcePack_def pack_magic_def sample_source_def pack_header_def be64_def be32_def Let_def)
    ultimately show ?thesis by (simp add: pack_body_def sample_snapshot_net_def Let_def)
  qed
  ultimately have run: "materializeSourceSnapshot sample_sha sample_snapshot_net calm_disk (hex_encode (sample_sha [7])) [''srv''] None
      = (Some (SourceDir [(''src'', SourceDir [(''main.js'', SourceFile [1, 2] False)])]), Returned ())"
    using objects by (simp add: materializeSourceSnapshot_def sample_snapshot_net_def sample_snapshot_def sample_source_def pathInside_def
        make_destination_def calm_disk_def os_mkdir_all_def os_write_def)
  have "snapshot_parts (sample_source [1, 2]) = [''src'', ''main.js'']" by code_simp
  then have "\<exists>data x. file_at [''src'', ''main.js''] (SourceDir [(''src'', SourceDir [(''main.js'', SourceFile [1, 2] False)])]) = Some (data, x)"
    using written_sources_are_verified [OF run] by (auto simp: sample_snapshot_net_def sample_snapshot_def Cons_eq_append_conv)
  then show ?thesis using run by (simp add: file_at_entry)
qed

end
