(* ===== verification/Trickle.thy ===== *)
theory Trickle
  imports Go_Prelude
begin

text \<open>
  ICE candidates (\<open>shellagent/ice.go\<close>): the trickler that posts the agent's own candidates, with its
  draining goroutines, and the browser's candidates. A candidate is its JSON text; the end of
  gathering is \<open>null\<close>. Posting is HTTP: each post succeeds or fails.
\<close>

text \<open>A draining goroutine: at the top of its loop, in a post of the list it took, or gone.\<close>

datatype drainer = AtTop | Posting "string list" | Gone

record trickler =
  tk_gathered :: "string list"
  tk_posted :: nat
  tk_ended :: bool
  tk_posting :: bool
  tk_drainers :: "drainer list"
  tk_sent :: "string list list"
  tk_failed :: bool

text \<open>\<open>tk_drainers\<close> are the goroutines started so far, \<open>tk_sent\<close> the lists Dyner has taken, \<open>tk_failed\<close> tells
  that \<open>onFailure\<close> was called.\<close>

definition newICECandidateTrickler :: trickler where
  "newICECandidateTrickler = \<lparr>tk_gathered = [], tk_posted = 0, tk_ended = False, tk_posting = False, tk_drainers = [],
     tk_sent = [], tk_failed = False\<rparr>"

definition null_text :: string where
  "null_text = ''null''"

text \<open>What \<open>add\<close> is called with: nil, or a candidate with the result of marshalling it.\<close>

datatype ice_candidate = EndOfCandidates | Candidate "string option"

definition trickler_add :: "ice_candidate \<Rightarrow> trickler \<Rightarrow> trickler" where
  "trickler_add candidate t =
     (if tk_ended t then t
      else
        (let append_text = (\<lambda>text t. t\<lparr>tk_gathered := tk_gathered t @ [text],
               tk_drainers := tk_drainers t @ (if tk_posting t then [] else [AtTop]), tk_posting := True\<rparr>)
         in case candidate of
              EndOfCandidates \<Rightarrow> append_text null_text (t\<lparr>tk_ended := True\<rparr>)
            | Candidate None \<Rightarrow> t
            | Candidate (Some encoded) \<Rightarrow> append_text encoded t))"

text \<open>One step of goroutine \<open>k\<close> in \<open>drain\<close>: between two locks. \<open>ok\<close> is the answer of the post.\<close>

definition trickler_drain :: "nat \<Rightarrow> bool \<Rightarrow> trickler \<Rightarrow> trickler option" where
  "trickler_drain k ok t =
     (if k \<ge> length (tk_drainers t) then None
      else
        (case tk_drainers t ! k of
           Gone \<Rightarrow> None
         | AtTop \<Rightarrow>
             Some (if tk_posted t \<ge> length (tk_gathered t)
                   then t\<lparr>tk_posting := False, tk_drainers := (tk_drainers t)[k := Gone]\<rparr>
                   else t\<lparr>tk_drainers := (tk_drainers t)[k := Posting (tk_gathered t)]\<rparr>)
         | Posting snapshot \<Rightarrow>
             Some (if ok
                   then t\<lparr>tk_posted := (if length snapshot > tk_posted t then length snapshot else tk_posted t),
                          tk_sent := tk_sent t @ [snapshot], tk_drainers := (tk_drainers t)[k := AtTop]\<rparr>
                   else t\<lparr>tk_posting := False, tk_ended := True, tk_failed := True,
                          tk_drainers := (tk_drainers t)[k := Gone]\<rparr>)))"

datatype trickle_action = Gather ice_candidate | Drain nat bool

fun trickle_act :: "trickle_action \<Rightarrow> trickler \<Rightarrow> trickler option" where
  "trickle_act (Gather c) t = Some (trickler_add c t)"
| "trickle_act (Drain k ok) t = trickler_drain k ok t"

definition trickle_init :: "trickler \<Rightarrow> bool" where
  "trickle_init t \<longleftrightarrow> t = newICECandidateTrickler"

subsection \<open>The browser's candidates\<close>

text \<open>\<open>parse\<close> is JSON: the candidate's text, which may be empty, or None. The result: the texts seen, the
  candidates added to the peer, and whether the browser has ended.\<close>

fun applyBrowserCandidates :: "(string \<Rightarrow> string option) \<Rightarrow> string list \<Rightarrow> string list \<Rightarrow> string list \<times> string list \<times> bool" where
  "applyBrowserCandidates parse seen [] = (seen, [], False)"
| "applyBrowserCandidates parse seen (raw # rest) =
     (if raw \<in> set seen then applyBrowserCandidates parse seen rest
      else if trim_space raw = null_text then (raw # seen, [], True)
      else
        (case applyBrowserCandidates parse (raw # seen) rest of
           (seen', added, ended) \<Rightarrow>
             (seen', (case parse raw of None \<Rightarrow> [] | Some c \<Rightarrow> if c = [] then [] else [c]) @ added, ended)))"

end
