(* ===== verification/Trickle_Properties.thy ===== *)
theory Trickle_Properties
  imports Trickle "HOL-Library.Sublist"
begin

text \<open>
  The trickler's promise: one goroutine posts at a time, each list it posts extends the one before, and as
  long as posting works nothing that was gathered is left behind.
\<close>

text \<open>All goroutines but the last are gone; the last is gone when the flag says that nobody posts.\<close>

definition one_drainer :: "trickler \<Rightarrow> drainer \<Rightarrow> bool" where
  "one_drainer t d \<longleftrightarrow>
     (\<exists>m. tk_drainers t = replicate m Gone @ (if tk_posting t then [d] else [])) \<and> (tk_posting t \<longleftrightarrow> d \<noteq> Gone)"

text \<open>What Dyner has taken: growing prefixes of what was gathered, the last of the recorded length.\<close>

definition sent_ok :: "trickler \<Rightarrow> bool" where
  "sent_ok t \<longleftrightarrow>
     (\<forall>snapshot \<in> set (tk_sent t). prefix snapshot (tk_gathered t))
     \<and> sorted_wrt (\<lambda>a b. length a < length b) (tk_sent t)
     \<and> tk_posted t = (if tk_sent t = [] then 0 else length (last (tk_sent t)))"

definition trickle_ok :: "trickler \<Rightarrow> bool" where
  "trickle_ok t \<longleftrightarrow>
     sent_ok t
     \<and> (\<exists>d. one_drainer t d
          \<and> (\<forall>snapshot. d = Posting snapshot \<longrightarrow> prefix snapshot (tk_gathered t) \<and> tk_posted t < length snapshot)
          \<and> (d = Gone \<longrightarrow> tk_failed t \<or> tk_posted t = length (tk_gathered t))
          \<and> (tk_failed t \<longrightarrow> d = Gone \<and> tk_ended t))"

lemma one_drainer_step:
  assumes "one_drainer t d" "k < length (tk_drainers t)" "tk_drainers t ! k \<noteq> Gone"
  shows "tk_posting t \<and> tk_drainers t ! k = d \<and> k = length (tk_drainers t) - 1
    \<and> (\<exists>m. \<forall>x. (tk_drainers t)[k := x] = replicate m Gone @ [x])"
proof -
  from assms(1) obtain m where m: "tk_drainers t = replicate m Gone @ (if tk_posting t then [d] else [])"
    by (auto simp: one_drainer_def)
  have p: "tk_posting t" using m assms(2,3) by (cases "tk_posting t") auto
  have "k = m"
  proof (rule ccontr)
    assume "k \<noteq> m"
    then have "k < m" using assms(2) m p by simp
    then show False using assms(3) m by (simp add: nth_append)
  qed
  then show ?thesis using m p by (auto simp: nth_append list_update_append intro!: exI [of _ m])
qed

lemma gone_snoc: "replicate m Gone @ [Gone] = replicate (Suc m) Gone"
  by (simp add: replicate_append_same)

lemma sent_ok_more:
  "sent_ok t \<Longrightarrow> prefix (tk_gathered t) (tk_gathered t') \<Longrightarrow> tk_sent t' = tk_sent t \<Longrightarrow> tk_posted t' = tk_posted t \<Longrightarrow> sent_ok t'"
  by (auto simp: sent_ok_def intro: prefix_order.trans)

lemma add_ok:
  assumes "trickle_ok t"
  shows "trickle_ok (trickler_add c t)"
proof (cases "tk_ended t \<or> c = Candidate None")
  case True
  then show ?thesis using assms by (auto simp: trickler_add_def Let_def)
next
  case False
  from assms obtain d where d: "sent_ok t" "one_drainer t d"
      "\<forall>snapshot. d = Posting snapshot \<longrightarrow> prefix snapshot (tk_gathered t) \<and> tk_posted t < length snapshot"
      "tk_failed t \<longrightarrow> tk_ended t"
    by (auto simp: trickle_ok_def)
  let ?t = "trickler_add c t" and ?d = "if tk_posting t then d else AtTop"
  obtain json where t': "tk_gathered ?t = tk_gathered t @ [json]" "tk_posting ?t" "tk_posted ?t = tk_posted t"
      "tk_sent ?t = tk_sent t" "tk_failed ?t = tk_failed t"
      "tk_drainers ?t = tk_drainers t @ (if tk_posting t then [] else [AtTop])"
    using False by (cases c) (auto simp: trickler_add_def Let_def)
  have "one_drainer ?t ?d" using d(2) t' by (auto simp: one_drainer_def)
  moreover have "sent_ok ?t" using t' by (intro sent_ok_more [OF d(1)]) simp_all
  ultimately show ?thesis using d(3,4) t' False
    by (auto simp: trickle_ok_def one_drainer_def intro!: exI [of _ ?d])
qed

lemma drain_ok:
  assumes "trickle_ok t" and "trickler_drain k ok t = Some t'"
  shows "trickle_ok t'"
proof -
  from assms(1) obtain d where d: "sent_ok t" "one_drainer t d"
      "\<forall>snapshot. d = Posting snapshot \<longrightarrow> prefix snapshot (tk_gathered t) \<and> tk_posted t < length snapshot"
      "tk_failed t \<longrightarrow> d = Gone"
    by (auto simp: trickle_ok_def)
  have k: "k < length (tk_drainers t)" "tk_drainers t ! k \<noteq> Gone"
    using assms(2) by (auto simp: trickler_drain_def split: if_splits)
  obtain m where m: "tk_posting t" "tk_drainers t ! k = d" "\<And>x. (tk_drainers t)[k := x] = replicate m Gone @ [x]"
    using one_drainer_step [OF d(2) k] by auto
  have fine: "\<not> tk_failed t" using d(4) k m by auto
  have posted: "tk_posted t \<le> length (tk_gathered t)"
    using d(1) by (auto simp: sent_ok_def dest: prefix_length_le)
  show ?thesis
  proof (cases d)
    case AtTop
    show ?thesis
    proof (cases "tk_posted t \<ge> length (tk_gathered t)")
      case True
      then have t': "t' = t\<lparr>tk_posting := False, tk_drainers := replicate (Suc m) Gone\<rparr>"
        using assms(2) k m AtTop by (simp add: trickler_drain_def gone_snoc)
      have "sent_ok t'" by (rule sent_ok_more [OF d(1)]) (simp_all add: t')
      then show ?thesis using True posted fine
        by (auto simp: trickle_ok_def one_drainer_def t' intro!: exI [of _ Gone] exI [of _ "Suc m"])
    next
      case False
      then have t': "t' = t\<lparr>tk_drainers := replicate m Gone @ [Posting (tk_gathered t)]\<rparr>"
        using assms(2) k m AtTop by (simp add: trickler_drain_def)
      have "sent_ok t'" by (rule sent_ok_more [OF d(1)]) (simp_all add: t')
      then show ?thesis using False m(1) fine
        by (auto simp: trickle_ok_def one_drainer_def t' intro!: exI [of _ "Posting (tk_gathered t)"])
    qed
  next
    case (Posting snapshot)
    then have p: "prefix snapshot (tk_gathered t)" "tk_posted t < length snapshot" using d(3) by auto
    show ?thesis
    proof (cases ok)
      case True
      then have t': "t' = t\<lparr>tk_posted := length snapshot, tk_sent := tk_sent t @ [snapshot],
          tk_drainers := replicate m Gone @ [AtTop]\<rparr>"
        using assms(2) k m Posting p by (simp add: trickler_drain_def)
      have "length a < length snapshot" if "a \<in> set (tk_sent t)" for a
      proof -
        have "length a \<le> tk_posted t"
        proof (cases "tk_sent t" rule: rev_cases)
          case (snoc xs x)
          then show ?thesis using that d(1) by (auto simp: sent_ok_def sorted_wrt_append)
        qed (use that in simp)
        with p(2) show ?thesis by simp
      qed
      then have "sent_ok t'" using d(1) p(1) by (auto simp: sent_ok_def t' sorted_wrt_append)
      then show ?thesis using m(1) fine
        by (auto simp: trickle_ok_def one_drainer_def t' intro!: exI [of _ AtTop])
    next
      case False
      then have t': "t' = t\<lparr>tk_posting := False, tk_ended := True, tk_failed := True, tk_drainers := replicate (Suc m) Gone\<rparr>"
        using assms(2) k m Posting by (simp add: trickler_drain_def gone_snoc)
      have "sent_ok t'" by (rule sent_ok_more [OF d(1)]) (simp_all add: t')
      then show ?thesis by (auto simp: trickle_ok_def one_drainer_def t' intro!: exI [of _ Gone] exI [of _ "Suc m"])
    qed
  qed (use k m in simp)
qed

interpretation trickle_system: action_system trickle_init trickle_act trickle_ok
proof
  show "trickle_ok t" if "trickle_init t" for t
    using that by (auto simp: trickle_init_def newICECandidateTrickler_def trickle_ok_def sent_ok_def one_drainer_def
        intro!: exI [of _ Gone])
  show "trickle_ok t'" if "trickle_ok t" "trickle_act a t = Some t'" for t a t'
    using that by (cases a) (auto intro: add_ok drain_ok)
qed

subsection \<open>Quiescence\<close>

text \<open>Nobody posts, and the last list sent is all that was gathered.\<close>

definition delivered :: "trickler \<Rightarrow> bool" where
  "delivered t \<longleftrightarrow> \<not> tk_posting t \<and> (tk_gathered t = [] \<or> tk_sent t \<noteq> [] \<and> last (tk_sent t) = tk_gathered t)"

lemma sent_all:
  assumes "sent_ok t" and "tk_posted t = length (tk_gathered t)"
  shows "tk_gathered t = [] \<or> tk_sent t \<noteq> [] \<and> last (tk_sent t) = tk_gathered t"
proof (cases "tk_sent t = []")
  case False
  then have "prefix (last (tk_sent t)) (tk_gathered t)" "length (last (tk_sent t)) = length (tk_gathered t)"
    using assms by (auto simp: sent_ok_def)
  then have "last (tk_sent t) = tk_gathered t" by (metis append_eq_append_conv append_Nil2 prefix_def)
  with False show ?thesis by simp
qed (use assms in \<open>auto simp: sent_ok_def\<close>)

text \<open>From the top of the loop, at most three steps of the goroutine finish the work.\<close>

lemma drained_from_top:
  assumes "trickle_ok t" "k < length (tk_drainers t)" "tk_drainers t ! k = AtTop"
  shows "\<exists>n t'. n \<le> 3 \<and> run_actions trickle_act (replicate n (Drain k True)) t = Some t'
    \<and> tk_gathered t' = tk_gathered t \<and> \<not> tk_posting t' \<and> \<not> tk_failed t' \<and> tk_posted t' = length (tk_gathered t)"
proof -
  have fine: "\<not> tk_failed t" and posted: "tk_posted t \<le> length (tk_gathered t)"
  proof -
    from assms(1) obtain d where d: "sent_ok t" "one_drainer t d" "tk_failed t \<longrightarrow> d = Gone" by (auto simp: trickle_ok_def)
    show "\<not> tk_failed t" using d(3) one_drainer_step [OF d(2) assms(2)] assms(3) by auto
    show "tk_posted t \<le> length (tk_gathered t)" using d(1) by (auto simp: sent_ok_def dest: prefix_length_le)
  qed
  show ?thesis
  proof (cases "length (tk_gathered t) \<le> tk_posted t")
    case True
    have "run_actions trickle_act (replicate 1 (Drain k True)) t
        = Some (t\<lparr>tk_posting := False, tk_drainers := (tk_drainers t)[k := Gone]\<rparr>)"
      using assms(2,3) True by (simp add: trickler_drain_def)
    then show ?thesis using fine posted True by (intro exI [of _ 1]) auto
  next
    case False
    have "run_actions trickle_act (replicate 3 (Drain k True)) t
        = Some (t\<lparr>tk_posted := length (tk_gathered t), tk_sent := tk_sent t @ [tk_gathered t], tk_posting := False,
            tk_drainers := (tk_drainers t)[k := Gone]\<rparr>)"
      using assms(2,3) False by (simp add: trickler_drain_def numeral_3_eq_3)
    then show ?thesis using fine by (intro exI [of _ 3]) auto
  qed
qed

lemma drained:
  assumes "trickle_ok t" and "\<not> tk_failed t"
  shows "\<exists>k n t'. n \<le> 4 \<and> run_actions trickle_act (replicate n (Drain k True)) t = Some t'
    \<and> tk_gathered t' = tk_gathered t \<and> \<not> tk_posting t' \<and> tk_posted t' = length (tk_gathered t)"
proof -
  from assms obtain d where d: "one_drainer t d" "d = Gone \<longrightarrow> tk_posted t = length (tk_gathered t)"
    by (auto simp: trickle_ok_def)
  show ?thesis
  proof (cases "tk_posting t")
    case False
    then show ?thesis using d by (intro exI [of _ 0]) (auto simp: one_drainer_def)
  next
    case True
    then obtain m where m: "tk_drainers t = replicate m Gone @ [d]" "d \<noteq> Gone" using d(1) by (auto simp: one_drainer_def)
    then have k: "m < length (tk_drainers t)" "tk_drainers t ! m = d" by (simp_all add: nth_append)
    show ?thesis
    proof (cases d)
      case AtTop
      then obtain n t' where "n \<le> 3" "run_actions trickle_act (replicate n (Drain m True)) t = Some t'"
          "tk_gathered t' = tk_gathered t" "\<not> tk_posting t'" "tk_posted t' = length (tk_gathered t)"
        using drained_from_top [OF assms(1) k(1)] k(2) by blast
      then show ?thesis by (intro exI [of _ m] exI [of _ n] exI [of _ t']) simp
    next
      case (Posting snapshot)
      obtain t1 where t1: "trickler_drain m True t = Some t1" "tk_gathered t1 = tk_gathered t"
          "m < length (tk_drainers t1)" "tk_drainers t1 ! m = AtTop"
        using k Posting by (auto simp: trickler_drain_def)
      obtain n t' where "n \<le> 3" "run_actions trickle_act (replicate n (Drain m True)) t1 = Some t'"
          "tk_gathered t' = tk_gathered t" "\<not> tk_posting t'" "tk_posted t' = length (tk_gathered t)"
        using drained_from_top [OF drain_ok [OF assms(1) t1(1)] t1(3,4)] t1(2) by auto
      then show ?thesis using t1(1) by (intro exI [of _ m] exI [of _ "Suc n"] exI [of _ t']) simp
    qed (use m in simp)
  qed
qed

text \<open>
  C20: Candidates reach Dyner: whatever was gathered and posted so far, as long as no post has failed and
  the next ones succeed, at most four steps of the posting goroutine (and there is never more than
  one) bring the trickler to rest with its last post being the complete list; and all along, each list
  that was posted begins with the one before.
\<close>

theorem candidates_are_delivered:
  assumes "reachable trickle_init trickle_act t" and "\<not> tk_failed t"
  shows "(\<exists>k n t'. n \<le> 4 \<and> run_actions trickle_act (replicate n (Drain k True)) t = Some t'
      \<and> tk_gathered t' = tk_gathered t \<and> delivered t')
    \<and> sorted_wrt (\<lambda>a b. length a < length b \<and> prefix a b) (tk_sent t)"
proof -
  have ok: "trickle_ok t" by (rule trickle_system.reachable_inv [OF assms(1)])
  then obtain k n t' where run: "n \<le> 4" "run_actions trickle_act (replicate n (Drain k True)) t = Some t'"
      "tk_gathered t' = tk_gathered t" "\<not> tk_posting t'" "tk_posted t' = length (tk_gathered t)"
    using drained [OF _ assms(2)] by blast
  have "trickle_ok t'" by (rule trickle_system.reachable_inv [OF reachable_run [OF assms(1) run(2)]])
  then have sent: "sent_ok t'" by (simp add: trickle_ok_def)
  have "delivered t'" using sent_all [OF sent] run(3-5) by (simp add: delivered_def)
  moreover have "sorted_wrt (\<lambda>a b. length a < length b \<and> prefix a b) (tk_sent t)"
  proof (rule sorted_wrt_mono_rel)
    show "sorted_wrt (\<lambda>a b. length a < length b) (tk_sent t)" using ok by (auto simp: trickle_ok_def sent_ok_def)
    show "length a < length b \<and> prefix a b" if "a \<in> set (tk_sent t)" "b \<in> set (tk_sent t)" "length a < length b" for a b
      using that ok prefix_length_prefix [of a "tk_gathered t" b] by (auto simp: trickle_ok_def sent_ok_def)
  qed
  ultimately show ?thesis using run(1-3) by blast
qed

definition sample_trickler :: trickler where
  "sample_trickler = \<lparr>tk_gathered = [''a'', ''b''], tk_posted = 0, tk_ended = False, tk_posting = True,
     tk_drainers = [Posting [''a'']], tk_sent = [], tk_failed = False\<rparr>"

theorem candidates_are_delivered_witness:
  "\<exists>k n t'. n \<le> 4 \<and> run_actions trickle_act (replicate n (Drain k True)) sample_trickler = Some t'
     \<and> tk_gathered t' = [''a'', ''b''] \<and> delivered t'"
proof -
  have "run_actions trickle_act [Gather (Candidate (Some ''a'')), Drain 0 True, Gather (Candidate (Some ''b''))] newICECandidateTrickler
      = Some sample_trickler"
    by (simp add: newICECandidateTrickler_def trickler_add_def trickler_drain_def sample_trickler_def Let_def)
  moreover have "reachable trickle_init trickle_act newICECandidateTrickler"
    by (rule reachable.start) (simp add: trickle_init_def)
  ultimately have "reachable trickle_init trickle_act sample_trickler" by (rule reachable_run [rotated])
  then show ?thesis using candidates_are_delivered [of sample_trickler] by (simp add: sample_trickler_def)
qed

end
