(* ===== verification/Url_Text.thy ===== *)
theory Url_Text
  imports Go_Url
begin

text \<open>
  Go's \<open>net/url\<close> beyond what \<open>Go_Url\<close> reads: a URL with the spelling of its path and fragment, its text
  (\<open>URL.String\<close>), and a reference resolved against it (\<open>URL.Parse\<close>). The agent decides on the text of a
  URL and then connects to the host of the URL itself; the lemmas of the last section show that the two
  agree.
\<close>

subsection \<open>Escapes\<close>

definition upper_hex :: "nat \<Rightarrow> char" where
  "upper_hex n = (if n < 10 then char_of (48 + n) else char_of (55 + n))"

definition should_escape :: "url_mode \<Rightarrow> char \<Rightarrow> bool" where
  "should_escape mode c \<longleftrightarrow>
     (if is_alnum c then False
      else if mode \<in> {HostMode, ZoneMode} \<and> (c \<in> set ''!$&()*+,;=:[]<>'' \<or> c = CHR 0x27 \<or> c = CHR 0x22) then False
      else if c \<in> set ''-_.~'' then False
      else if mode = PathMode \<and> c \<in> set ''$&+,/:;=@'' then False
      else if mode = UserMode \<and> c \<in> set ''$&+,;='' then False
      else if mode = FragmentMode \<and> c \<in> set ''$&+,/:;=?@!()*'' then False
      else True)"

definition escape :: "url_mode \<Rightarrow> string \<Rightarrow> string" where
  "escape mode s =
     concat (map (\<lambda>c. if should_escape mode c
                      then [CHR ''%'', upper_hex (of_char c div 16), upper_hex (of_char c mod 16)] else [c]) s)"

text \<open>\<open>validEncoded\<close>: a spelling that may be kept.\<close>

definition valid_encoded :: "url_mode \<Rightarrow> string \<Rightarrow> bool" where
  "valid_encoded mode s \<longleftrightarrow>
     list_all (\<lambda>c. c \<in> set ''!$&()*+,;=:@[]%'' \<or> c = CHR 0x27 \<or> \<not> should_escape mode c) s"

subsection \<open>A URL and its text\<close>

record wire_url =
  w_url :: url
  w_RawPath :: string
  w_User :: "(string \<times> string option) option"
  w_OmitHost :: bool
  w_ForceQuery :: bool
  w_RawFragment :: string

definition kept_spelling :: "url_mode \<Rightarrow> string \<Rightarrow> string \<Rightarrow> string option" where
  "kept_spelling mode raw plain =
     (if raw \<noteq> [] \<and> valid_encoded mode raw \<and> unescape mode raw = Some plain then Some raw else None)"

definition escaped_path :: "wire_url \<Rightarrow> string" where
  "escaped_path w =
     (case kept_spelling PathMode (w_RawPath w) (u_Path (w_url w)) of
        Some raw \<Rightarrow> raw
      | None \<Rightarrow> if u_Path (w_url w) = ''*'' then ''*'' else escape PathMode (u_Path (w_url w)))"

definition escaped_fragment :: "wire_url \<Rightarrow> string" where
  "escaped_fragment w =
     (case kept_spelling FragmentMode (w_RawFragment w) (u_Fragment (w_url w)) of
        Some raw \<Rightarrow> raw | None \<Rightarrow> escape FragmentMode (u_Fragment (w_url w)))"

definition user_text :: "string \<times> string option \<Rightarrow> string" where
  "user_text user = escape UserMode (fst user) @ (case snd user of None \<Rightarrow> [] | Some p \<Rightarrow> '':'' @ escape UserMode p)"

definition authority_text :: "wire_url \<Rightarrow> string" where
  "authority_text w =
     (case w_User w of None \<Rightarrow> [] | Some user \<Rightarrow> user_text user @ ''@'') @ escape HostMode (u_Host (w_url w))"

definition query_text :: "wire_url \<Rightarrow> string" where
  "query_text w =
     (if w_ForceQuery w \<or> u_RawQuery (w_url w) \<noteq> [] then ''?'' @ u_RawQuery (w_url w) else []) @
     (if u_Fragment (w_url w) \<noteq> [] then ''#'' @ escaped_fragment w else [])"

text \<open>\<open>URL.String\<close>. The URLs of the agent have a scheme.\<close>

definition url_text :: "wire_url \<Rightarrow> string" where
  "url_text w =
     (let u = w_url w; path = escaped_path w
      in (if u_Scheme u \<noteq> [] then u_Scheme u @ '':'' else []) @
         (if u_Opaque u \<noteq> [] then u_Opaque u
          else (if (u_Scheme u \<noteq> [] \<or> u_Host u \<noteq> [] \<or> w_User w \<noteq> None) \<and> \<not> (w_OmitHost w \<and> u_Host u = [] \<and> w_User w = None)
                then (if u_Host u \<noteq> [] \<or> u_Path u \<noteq> [] \<or> w_User w \<noteq> None then ''//'' else []) @ authority_text w
                else []) @
               (if path \<noteq> [] \<and> hd path \<noteq> CHR ''/'' \<and> u_Host u \<noteq> [] then ''/'' else []) @ path) @
         query_text w)"

text \<open>\<open>net.JoinHostPort\<close>.\<close>

definition join_host_port :: "string \<Rightarrow> string \<Rightarrow> string" where
  "join_host_port host port = (if CHR '':'' \<in> set host then ''['' @ host @ '']:'' @ port else host @ '':'' @ port)"

subsection \<open>Parsing and resolving\<close>

definition spelling_of :: "url_mode \<Rightarrow> string \<Rightarrow> string \<Rightarrow> string" where
  "spelling_of mode raw plain = (if raw = escape mode plain then [] else raw)"

definition parse_user :: "string \<Rightarrow> (string \<times> string option) option" where
  "parse_user authority =
     (if CHR ''@'' \<notin> set authority then None
      else (let (name, password, found) = cut_on (CHR '':'') (before_last (CHR ''@'') authority)
            in Some (case unescape UserMode name of None \<Rightarrow> [] | Some n \<Rightarrow> n, if found then unescape UserMode password else None)))"

definition wire_parse :: "string \<Rightarrow> wire_url option" where
  "wire_parse raw =
     (case url_parse raw of
        None \<Rightarrow> None
      | Some u \<Rightarrow>
          (let (front, frag, _) = cut_on (CHR ''#'') raw;
               rest0 = (case get_scheme front [] front of Some (_, r) \<Rightarrow> r | None \<Rightarrow> []);
               rest = fst (cut_query rest0);
               hier = has_prefix rest ''//'' \<and> (u_Scheme u \<noteq> [] \<or> \<not> has_prefix rest ''///'');
               authority = takeWhile (\<lambda>c. c \<noteq> CHR ''/'') (drop 2 rest);
               path = (if hier then dropWhile (\<lambda>c. c \<noteq> CHR ''/'') (drop 2 rest) else rest)
           in Some \<lparr>w_url = u, w_RawPath = spelling_of PathMode path (u_Path u),
                    w_User = (if hier then parse_user authority else None),
                    w_OmitHost = \<not> hier \<and> u_Scheme u \<noteq> [] \<and> has_prefix rest ''/'',
                    w_ForceQuery = has_suffix rest0 ''?'' \<and> length (filter (\<lambda>c. c = CHR ''?'') rest0) = 1,
                    w_RawFragment = spelling_of FragmentMode frag (u_Fragment u)\<rparr>))"

text \<open>\<open>resolvePath\<close>: the segments are written one by one behind a slash that stands at the front; a single
  or double dot as the last segment leaves a slash at the end.\<close>

fun resolve_segments :: "string list \<Rightarrow> bool \<Rightarrow> string \<Rightarrow> string" where
  "resolve_segments [] first dst = dst"
| "resolve_segments (elem # rest) first dst =
     (let last = (if rest = [] then ''/'' else [])
      in if elem = ''.'' then resolve_segments rest False (dst @ last)
         else if elem = ''..'' then
           (if CHR ''/'' \<in> set (drop 1 dst)
            then resolve_segments rest first (''/'' @ before_last (CHR ''/'') (drop 1 dst) @ last)
            else resolve_segments rest True (''/'' @ last))
         else resolve_segments rest False (dst @ (if first then [] else ''/'') @ elem))"

definition resolve_path :: "string \<Rightarrow> string \<Rightarrow> string" where
  "resolve_path base ref =
     (let full = (if ref = [] then base
                  else if hd ref \<noteq> CHR ''/'' then (if CHR ''/'' \<in> set base then before_last (CHR ''/'') base @ ''/'' else []) @ ref
                  else ref)
      in if full = [] then []
         else (let r = resolve_segments (split_on (CHR ''/'') full) True ''/''
               in if has_prefix r ''//'' then drop 1 r else r))"

definition set_path :: "string \<Rightarrow> wire_url \<Rightarrow> wire_url" where
  "set_path p w =
     (case unescape PathMode p of
        None \<Rightarrow> w
      | Some path \<Rightarrow> w\<lparr>w_url := (w_url w)\<lparr>u_Path := path\<rparr>, w_RawPath := spelling_of PathMode p path\<rparr>)"

text \<open>\<open>URL.Parse\<close>: a reference, seen from the URL it was found at.\<close>

definition wire_resolve :: "wire_url \<Rightarrow> string \<Rightarrow> wire_url option" where
  "wire_resolve base ref =
     (case wire_parse ref of
        None \<Rightarrow> None
      | Some r \<Rightarrow>
          (let b = w_url base; u = w_url r;
               u1 = (if u_Scheme u = [] then u\<lparr>u_Scheme := u_Scheme b\<rparr> else u)
           in if u_Scheme u \<noteq> [] \<or> u_Host u \<noteq> [] \<or> w_User r \<noteq> None
              then Some (set_path (resolve_path (escaped_path r) []) (r\<lparr>w_url := u1\<rparr>))
              else
                (let bare = u_Path u = [] \<and> \<not> w_ForceQuery r \<and> u_RawQuery u = [];
                     u2 = (if bare then u1\<lparr>u_RawQuery := u_RawQuery b\<rparr> else u1);
                     fragless = bare \<and> u_Fragment u = [];
                     u3 = (if fragless then u2\<lparr>u_Fragment := u_Fragment b\<rparr> else u2);
                     w = r\<lparr>w_RawFragment := (if fragless then w_RawFragment base else w_RawFragment r)\<rparr>
                 in if u_Path u = [] \<and> u_Opaque b \<noteq> []
                    then Some (w\<lparr>w_url := u3\<lparr>u_Opaque := u_Opaque b, u_Host := []\<rparr>, w_User := None\<rparr>)
                    else Some (set_path (resolve_path (escaped_path base) (escaped_path r))
                           (w\<lparr>w_url := u3\<lparr>u_Host := u_Host b\<rparr>, w_User := w_User base\<rparr>)))))"


subsection \<open>The text of a URL names its host\<close>

text \<open>What an escaped text stands for, whatever the place it is found in.\<close>

fun pct_decode :: "string \<Rightarrow> string" where
  "pct_decode [] = []"
| "pct_decode (c # cs) =
     (if c = CHR ''%'' then
        (case cs of
           a # b # rest \<Rightarrow>
             (case (hex_value a, hex_value b) of
                (Some x, Some y) \<Rightarrow> char_of (x * 16 + y) # pct_decode rest
              | _ \<Rightarrow> c # pct_decode cs)
         | _ \<Rightarrow> c # pct_decode cs)
      else c # pct_decode cs)"

text \<open>The three ways an unescaped text begins.\<close>

lemma unescape_cases:
  assumes "unescape mode s = Some r"
  obtains "s = []" "r = []"
    | a b rest x y r' where "s = CHR ''%'' # a # b # rest" "hex_value a = Some x" "hex_value b = Some y"
        "unescape mode rest = Some r'" "r = char_of (x * 16 + y) # r'"
    | c rest r' where "s = c # rest" "c \<noteq> CHR ''%''" "unescape mode rest = Some r'" "r = c # r'"
proof (cases s)
  case (Cons c cs)
  show thesis
  proof (cases "c = CHR ''%''")
    case True
    then show thesis using assms Cons that(2)
      by (cases cs; cases "tl cs") (auto split: option.splits if_splits)
  next
    case False
    then have "map_option ((#) c) (unescape mode cs) = Some r" using assms Cons by (simp split: if_splits)
    then show thesis using Cons False that(3) by auto
  qed
qed (use assms that(1) in simp)

lemma decode_append: "unescape mode a = Some r \<Longrightarrow> pct_decode (a @ b) = r @ pct_decode b"
proof (induction a arbitrary: r rule: length_induct)
  case (1 a)
  show ?case using "1.prems"
    by (rule unescape_cases) (use "1.IH" in \<open>simp_all\<close>)
qed

lemma unescape_decode: "unescape mode s = Some r \<Longrightarrow> pct_decode s = r"
  using decode_append [of mode s r "[]"] by simp

lemma hex_value_digit: "n < 16 \<Longrightarrow> hex_value (upper_hex n) = Some n"
proof -
  have "\<forall>n \<in> set [0..<16]. hex_value (upper_hex n) = Some n" by code_simp
  then show "n < 16 \<Longrightarrow> hex_value (upper_hex n) = Some n" by simp
qed

lemma of_char_hex: "(of_char c :: nat) div 16 < 16"
proof -
  have "(of_char c :: nat) < 256" by simp
  then show ?thesis by linarith
qed

lemma decode_escape: "pct_decode (escape mode s) = s"
proof (induction s)
  case (Cons c s)
  have "\<forall>m \<in> {PathMode, HostMode, ZoneMode, UserMode, FragmentMode}. should_escape m (CHR ''%'')" by code_simp
  then have pct: "should_escape mode (CHR ''%'')" by (cases mode) simp_all
  have "char_of (of_char c div 16 * 16 + of_char c mod 16 :: nat) = c" by simp
  then show ?case using Cons pct
    by (auto simp: escape_def hex_value_digit of_char_hex)
qed (simp add: escape_def)

text \<open>Where a literal character of an escaped text comes from.\<close>

lemma hex_digit_alnum: "n < 16 \<Longrightarrow> is_alnum (upper_hex n)"
proof -
  have "\<forall>n \<in> set [0..<16]. is_alnum (upper_hex n)" by code_simp
  then show "n < 16 \<Longrightarrow> is_alnum (upper_hex n)" by simp
qed

lemma escape_avoids: "should_escape mode c \<Longrightarrow> c \<noteq> CHR ''%'' \<Longrightarrow> \<not> is_alnum c \<Longrightarrow> c \<notin> set (escape mode s)"
  using hex_digit_alnum [OF of_char_hex] hex_digit_alnum [of "of_char _ mod 16"] by (auto simp: escape_def split: if_splits)

lemma before_after_last: "c \<in> set s \<Longrightarrow> before_last c s @ c # after_last c s = s"
proof -
  assume "c \<in> set s"
  then have "dropWhile (\<lambda>x. x \<noteq> c) (rev s) = c # drop 1 (dropWhile (\<lambda>x. x \<noteq> c) (rev s))"
    by (cases "dropWhile (\<lambda>x. x \<noteq> c) (rev s)") (auto dest: dropWhile_eq_Cons_conv [THEN iffD1])
  then have "rev (takeWhile (\<lambda>x. x \<noteq> c) (rev s) @ c # drop 1 (dropWhile (\<lambda>x. x \<noteq> c) (rev s))) = s"
    by (metis rev_rev_ident takeWhile_dropWhile_id)
  then show ?thesis by (simp add: before_last_def after_last_def)
qed

lemma cut_sub_append: "cut_sub p acc s = Some (a, b) \<Longrightarrow> rev acc @ s = a @ b"
  by (induction p acc s arbitrary: a b rule: cut_sub.induct) (subst (asm) cut_sub.simps, auto split: if_splits list.splits)

lemma parse_host_decodes: "parse_host s = Some h \<Longrightarrow> pct_decode s = h"
proof (cases "has_prefix s ''['' \<and> CHR '']'' \<in> set s \<and> cut_sub ''%25'' [] (before_last (CHR '']'') s) \<noteq> None")
  case True
  then obtain a z where cut: "cut_sub ''%25'' [] (before_last (CHR '']'') s) = Some (a, z)" and bracket: "CHR '']'' \<in> set s" by auto
  let ?tail = "CHR '']'' # after_last (CHR '']'') s"
  have "s = a @ z @ ?tail" using before_after_last [OF bracket] cut_sub_append [OF cut] by simp
  moreover assume "parse_host s = Some h"
  then obtain x y t where "unescape HostMode a = Some x" "unescape ZoneMode z = Some y" "unescape HostMode ?tail = Some t" "h = x @ y @ t"
    using True cut by (auto simp: parse_host_def Let_def split: if_splits option.splits)
  ultimately show ?thesis by (metis decode_append unescape_decode)
next
  case False
  assume "parse_host s = Some h"
  then have "unescape HostMode s = Some h" using False by (auto simp: parse_host_def Let_def split: if_splits option.splits)
  then show ?thesis by (rule unescape_decode)
qed


text \<open>What \<open>Parse\<close> gives: a lower-case scheme, and no host beside an opaque part.\<close>

definition scheme_char :: "char \<Rightarrow> bool" where
  "scheme_char c \<longleftrightarrow> is_lower c \<or> is_digit c \<or> c \<in> set ''+-.''"

definition scheme_ok :: "string \<Rightarrow> bool" where
  "scheme_ok s \<longleftrightarrow> (case s of [] \<Rightarrow> False | c # cs \<Rightarrow> is_lower c \<and> list_all scheme_char cs)"

definition url_ok :: "url \<Rightarrow> bool" where
  "url_ok u \<longleftrightarrow> (u_Opaque u = [] \<or> u_Host u = [] \<and> u_Scheme u \<noteq> []) \<and> (u_Scheme u = [] \<or> scheme_ok (u_Scheme u))"

lemma lower_scheme_char: "is_upper c \<or> is_lower c \<Longrightarrow> is_lower (lower_char c)"
  by (auto simp: lower_char_def is_upper_def is_lower_def less_eq_char_def of_char_char_of_small)

lemma scheme_char_lower: "is_upper c \<or> is_lower c \<or> is_digit c \<or> c \<in> set ''+-.'' \<Longrightarrow> scheme_char (lower_char c)"
  using lower_scheme_char [of c] by (auto simp: scheme_char_def lower_char_def)

lemma get_scheme_shape:
  "get_scheme raw acc s = Some (scheme, rest) \<Longrightarrow> acc = [] \<or> scheme_ok (to_lower (rev acc)) \<Longrightarrow>
   scheme = [] \<or> scheme_ok (to_lower scheme)"
proof (induction raw acc s rule: get_scheme.induct)
  case (2 raw acc c cs)
  have snoc: "scheme_ok (to_lower (rev (c # acc)))" if "acc \<noteq> []" "is_upper c \<or> is_lower c \<or> is_digit c \<or> c \<in> set ''+-.''"
    using "2.prems"(2) that(1) scheme_char_lower [OF that(2)]
    by (cases "rev acc") (auto simp: scheme_ok_def to_lower_def)
  have one: "scheme_ok (to_lower [c])" if "is_upper c \<or> is_lower c"
    using lower_scheme_char [OF that] by (simp add: scheme_ok_def to_lower_def)
  show ?case
  proof (cases "is_upper c \<or> is_lower c")
    case True
    then show ?thesis using 2(1) "2.prems" snoc one by (cases "acc = []") auto
  next
    case False
    then show ?thesis using 2(2) "2.prems" snoc by (auto split: if_splits)
  qed
qed auto

lemma hierarchical_ok:
  "parse_hierarchical scheme query rest = Some u \<Longrightarrow> u_Scheme u = scheme \<and> (u_Opaque u = [] \<or> u_Host u = [] \<and> scheme \<noteq> [])"
  by (auto simp: parse_hierarchical_def empty_url_def Let_def split: if_splits option.splits)

lemma url_parse_ok: "url_parse raw = Some u \<Longrightarrow> url_ok u"
proof -
  have front: "url_ok p" if parse: "parse_no_fragment front = Some p" for front p
  proof (cases "front = ''*''")
    case True
    then show ?thesis using parse by (auto simp: parse_no_fragment_def url_ok_def empty_url_def split: if_splits)
  next
    case False
    then obtain scheme rest0 where got: "get_scheme front [] front = Some (scheme, rest0)"
        and "parse_hierarchical (to_lower scheme) (snd (cut_query rest0)) (fst (cut_query rest0)) = Some p"
      using parse by (auto simp: parse_no_fragment_def split: if_splits option.splits prod.splits)
    then show ?thesis using get_scheme_shape [OF got] hierarchical_ok [of "to_lower scheme"]
      by (auto simp: url_ok_def to_lower_def)
  qed
  assume "url_parse raw = Some u"
  then obtain p f where "parse_no_fragment (fst (cut_on (CHR ''#'') raw)) = Some p" "u = p \<or> u = p\<lparr>u_Fragment := f\<rparr>"
    by (auto simp: url_parse_def split: if_splits option.splits prod.splits)
  then show ?thesis using front [of _ p] by (elim disjE) (simp_all add: url_ok_def)
qed

lemma wire_parse_ok: "wire_parse raw = Some w \<Longrightarrow> url_ok (w_url w)"
  by (auto simp: wire_parse_def Let_def split: option.splits prod.splits dest: url_parse_ok)

lemma set_path_url [simp]:
  "u_Scheme (w_url (set_path p w)) = u_Scheme (w_url w)" "u_Host (w_url (set_path p w)) = u_Host (w_url w)"
  "u_Opaque (w_url (set_path p w)) = u_Opaque (w_url w)"
  by (simp_all add: set_path_def split: option.splits)

lemma wire_resolve_ok:
  assumes "wire_resolve b ref = Some w" "url_ok (w_url b)" "u_Scheme (w_url b) \<noteq> []"
  shows "url_ok (w_url w) \<and> u_Scheme (w_url w) \<noteq> []"
proof -
  obtain r where r: "wire_parse ref = Some r" using assms(1) by (auto simp: wire_resolve_def split: option.splits)
  have ok: "url_ok (w_url r)" using wire_parse_ok [OF r] .
  show ?thesis
  proof (cases "u_Scheme (w_url r) \<noteq> [] \<or> u_Host (w_url r) \<noteq> [] \<or> w_User r \<noteq> None")
    case True
    then have "w = set_path (resolve_path (escaped_path r) [])
        (r\<lparr>w_url := if u_Scheme (w_url r) = [] then (w_url r)\<lparr>u_Scheme := u_Scheme (w_url b)\<rparr> else w_url r\<rparr>)"
      using assms(1) r by (simp add: wire_resolve_def Let_def split: if_splits)
    then show ?thesis using ok assms(2,3) by (auto simp: url_ok_def)
  next
    case False
    then have "u_Opaque (w_url r) = []" using ok by (simp add: url_ok_def)
    moreover have "u_Scheme (w_url w) = u_Scheme (w_url b) \<and> (u_Host (w_url w) = [] \<or> u_Opaque (w_url w) = u_Opaque (w_url r))"
      using assms(1) r False by (auto simp: wire_resolve_def Let_def split: if_splits)
    ultimately show ?thesis using assms(2,3) by (auto simp: url_ok_def)
  qed
qed


lemma get_scheme_scan: "list_all scheme_char s \<Longrightarrow> acc \<noteq> [] \<Longrightarrow> get_scheme raw acc (s @ CHR '':'' # t) = Some (rev acc @ s, t)"
proof (induction s arbitrary: acc)
  case Nil
  then show ?case by (simp add: is_upper_def is_lower_def is_digit_def)
next
  case (Cons c s)
  then show ?case by (auto simp: scheme_char_def)
qed

lemma get_scheme_text: "scheme_ok s \<Longrightarrow> get_scheme raw [] (s @ '':'' @ t) = Some (s, t)"
  using get_scheme_scan by (auto simp: scheme_ok_def split: list.splits)

lemma scheme_ok_lower: "scheme_ok s \<Longrightarrow> to_lower s = s"
proof -
  have "\<not> is_upper c" if "scheme_char c" for c
    using that by (auto simp: scheme_char_def is_upper_def is_lower_def is_digit_def less_eq_char_def)
  moreover assume "scheme_ok s"
  then have "list_all scheme_char s" by (auto simp: scheme_ok_def scheme_char_def split: list.splits)
  ultimately show ?thesis by (auto simp: to_lower_def lower_char_def list_all_iff intro: map_idI)
qed

lemma scheme_ok_chars: "scheme_ok s \<Longrightarrow> c \<in> set s \<Longrightarrow> c \<noteq> CHR ''#'' \<and> c \<noteq> CHR ''?'' \<and> c \<noteq> CHR ''/''"
proof -
  assume "scheme_ok s" "c \<in> set s"
  then have "scheme_char c" by (auto simp: scheme_ok_def scheme_char_def list_all_iff split: list.splits)
  moreover have "\<forall>d \<in> set ''#?/''. \<not> scheme_char d" by code_simp
  ultimately show ?thesis by auto
qed

text \<open>The authority of a text ends where its path, its query or its fragment begins.\<close>

lemma authority_chars: "c \<in> set ''#?/'' \<Longrightarrow> c \<notin> set (authority_text w)"
proof -
  have esc: "\<forall>m \<in> {UserMode, HostMode}. \<forall>c \<in> set ''#?/''. should_escape m c \<and> c \<noteq> CHR ''%'' \<and> \<not> is_alnum c" by code_simp
  assume c: "c \<in> set ''#?/''"
  then have "c \<notin> set (escape m s)" if "m \<in> {UserMode, HostMode}" for m s
    using esc that by (intro escape_avoids) blast+
  moreover have "c \<noteq> CHR '':'' \<and> c \<noteq> CHR ''@''" using c by auto
  ultimately show ?thesis by (auto simp: authority_text_def user_text_def split: option.splits)
qed

definition ends_authority :: "string \<Rightarrow> bool" where
  "ends_authority t \<longleftrightarrow> t = [] \<or> hd t \<in> set ''/?#''"

lemma url_text_parts:
  assumes "u_Scheme (w_url w) \<noteq> []" "u_Host (w_url w) \<noteq> []" "u_Opaque (w_url w) = []"
  obtains t where "url_text w = u_Scheme (w_url w) @ ''://'' @ authority_text w @ t" "ends_authority t"
proof -
  let ?path = "escaped_path w"
  let ?t = "(if ?path \<noteq> [] \<and> hd ?path \<noteq> CHR ''/'' then ''/'' else []) @ ?path @ query_text w"
  have "url_text w = u_Scheme (w_url w) @ ''://'' @ authority_text w @ ?t"
    using assms by (simp add: url_text_def Let_def)
  moreover have "ends_authority ?t" by (cases ?path) (auto simp: ends_authority_def query_text_def)
  ultimately show thesis by (rule that)
qed

lemma take_until: "c \<notin> set a \<Longrightarrow> takeWhile (\<lambda>x. x \<noteq> c) (a @ t) = a @ takeWhile (\<lambda>x. x \<noteq> c) t"
  by (rule takeWhile_append2) auto

lemma drop_until: "c \<notin> set a \<Longrightarrow> dropWhile (\<lambda>x. x \<noteq> c) (a @ t) = dropWhile (\<lambda>x. x \<noteq> c) t"
  by (rule dropWhile_append2) auto

lemma reparsed_front:
  assumes "parse_no_fragment (s @ ''://'' @ a @ t) = Some p" "scheme_ok s" "CHR ''?'' \<notin> set a" "CHR ''/'' \<notin> set a"
    and "t = [] \<or> hd t \<in> set ''/?''"
  shows "u_Scheme p = s \<and> (\<exists>user. parse_authority a = Some (user, u_Host p) \<and> u_HasUser p = user)"
proof -
  let ?rest = "fst (cut_query (''//'' @ a @ t))" and ?t = "takeWhile (\<lambda>c. c \<noteq> CHR ''?'') t"
  have "s @ ''://'' @ a @ t \<noteq> ''*''" using assms(2) by (auto simp: scheme_ok_def is_lower_def split: list.splits)
  moreover have "get_scheme raw [] (s @ ''://'' @ a @ t) = Some (s, ''//'' @ a @ t)" for raw
    using get_scheme_text [OF assms(2), of raw "''//'' @ a @ t"] by simp
  ultimately have parse: "parse_hierarchical s (snd (cut_query (''//'' @ a @ t))) ?rest = Some p"
    using assms(1) by (auto simp: parse_no_fragment_def scheme_ok_lower [OF assms(2)] split: if_splits prod.splits)
  have rest: "?rest = ''//'' @ a @ ?t"
    using take_until [of "CHR ''?''" "''//'' @ a" t] assms(3) by (simp add: cut_query_def cut_on_def)
  have "takeWhile (\<lambda>c. c \<noteq> CHR ''/'') ?t = []" using assms(5) by (cases t) auto
  then have authority: "takeWhile (\<lambda>c. c \<noteq> CHR ''/'') (drop 2 ?rest) = a"
    unfolding rest using take_until [OF assms(4), of ?t] by simp
  have "s \<noteq> []" using assms(2) by (auto simp: scheme_ok_def)
  moreover have "prefix ''/'' ?rest" "prefix ''//'' ?rest" unfolding rest by simp_all
  ultimately show ?thesis using parse unfolding parse_hierarchical_def authority Let_def
    by (auto simp: empty_url_def split: option.splits)
qed

text \<open>The text of a URL with a host, read again, has the same scheme and the same host, or a user.\<close>

lemma text_names_host:
  assumes "url_parse (url_text w) = Some u" "\<not> u_HasUser u"
    and "scheme_ok (u_Scheme (w_url w))" "u_Host (w_url w) \<noteq> []" "u_Opaque (w_url w) = []"
  shows "u_Scheme u = u_Scheme (w_url w) \<and> u_Host u = u_Host (w_url w)"
proof -
  let ?s = "u_Scheme (w_url w)" and ?a = "authority_text w"
  have "?s \<noteq> []" using assms(3) by (auto simp: scheme_ok_def)
  then obtain t where t: "url_text w = ?s @ ''://'' @ ?a @ t" "ends_authority t"
    using assms(4,5) by (rule url_text_parts)
  let ?t = "takeWhile (\<lambda>c. c \<noteq> CHR ''#'') t"
  have chars: "CHR ''#'' \<notin> set ?a" "CHR ''?'' \<notin> set ?a" "CHR ''/'' \<notin> set ?a" by (rule authority_chars, simp)+
  have "CHR ''#'' \<notin> set (?s @ ''://'' @ ?a)" using chars(1) scheme_ok_chars [OF assms(3)] by auto
  then have front: "fst (cut_on (CHR ''#'') (url_text w)) = ?s @ ''://'' @ ?a @ ?t"
    unfolding t(1) cut_on_def using take_until [of "CHR ''#''" "?s @ ''://'' @ ?a" t] by simp
  obtain p f where p: "parse_no_fragment (?s @ ''://'' @ ?a @ ?t) = Some p" "u = p \<or> u = p\<lparr>u_Fragment := f\<rparr>"
    using assms(1) front by (auto simp: url_parse_def split: if_splits option.splits prod.splits)
  have "?t = [] \<or> hd ?t \<in> set ''/?''" using t(2) by (cases t) (auto simp: ends_authority_def)
  from reparsed_front [OF p(1) assms(3) chars(2,3) this]
  have host: "u_Scheme p = ?s" "parse_authority ?a = Some (False, u_Host p)" using p(2) assms(2) by auto
  then have "CHR ''@'' \<notin> set ?a" by (auto simp: parse_authority_def Let_def split: if_splits option.splits prod.splits)
  moreover from this have "?a = escape HostMode (u_Host (w_url w))" by (auto simp: authority_text_def split: option.splits)
  ultimately have "parse_host (escape HostMode (u_Host (w_url w))) = Some (u_Host p)"
    using host(2) by (simp add: parse_authority_def)
  from parse_host_decodes [OF this] have "u_Host p = u_Host (w_url w)" by (simp add: decode_escape)
  then show ?thesis using host(1) p(2) by auto
qed

end
