(* ===== verification/Paths.thy ===== *)
theory Paths
  imports Go_Prelude
begin

text \<open>
  The \<open>path/filepath\<close> functions the agent uses, as they are on Unix. A path is a string; a clean path is
  described by whether it is rooted and by its components, none of which is empty, \<open>.\<close> or holds a
  separator.
\<close>

subsection \<open>Components\<close>

definition join_slash :: "string list \<Rightarrow> string" where
  "join_slash parts = (case parts of [] \<Rightarrow> [] | p # ps \<Rightarrow> p @ concat (map (\<lambda>q. CHR ''/'' # q) ps))"

definition rooted :: "string \<Rightarrow> bool" where
  "rooted path \<longleftrightarrow> has_prefix path ''/''"

text \<open>The stack of \<open>Clean\<close>, last component first.\<close>

definition push_part :: "bool \<Rightarrow> string \<Rightarrow> string list \<Rightarrow> string list" where
  "push_part root part stack =
     (if part \<in> {[], ''.''} then stack
      else if part = ''..''
      then (case stack of
              [] \<Rightarrow> (if root then [] else [part])
            | q # qs \<Rightarrow> if q = ''..'' then part # stack else qs)
      else part # stack)"

definition parts_of :: "string \<Rightarrow> string list" where
  "parts_of path = rev (fold (push_part (rooted path)) (split_on (CHR ''/'') path) [])"

definition print_path :: "bool \<Rightarrow> string list \<Rightarrow> string" where
  "print_path root parts =
     (if root then CHR ''/'' # join_slash parts else if parts = [] then ''.'' else join_slash parts)"

definition path_clean :: "string \<Rightarrow> string" where
  "path_clean path = print_path (rooted path) (parts_of path)"

definition path_join :: "string \<Rightarrow> string \<Rightarrow> string" where
  "path_join dir name =
     (if dir \<noteq> [] then path_clean (dir @ ''/'' @ name) else if name \<noteq> [] then path_clean name else [])"

definition path_abs :: "string \<Rightarrow> string \<Rightarrow> string" where
  "path_abs cwd path = (if rooted path then path_clean path else path_join cwd path)"

definition path_base :: "string \<Rightarrow> string" where
  "path_base path =
     (if path = [] then ''.''
      else let p = trim_right (\<lambda>c. c = CHR ''/'') path
           in if p = [] then ''/'' else after_last (CHR ''/'') p)"

definition path_dir :: "string \<Rightarrow> string" where
  "path_dir path = path_clean (rev (dropWhile (\<lambda>c. c \<noteq> CHR ''/'') (rev path)))"

definition path_ext :: "string \<Rightarrow> string" where
  "path_ext path =
     (let base = after_last (CHR ''/'') path
      in if CHR ''.'' \<in> set base then CHR ''.'' # after_last (CHR ''.'') base else [])"

subsection \<open>Relative paths\<close>

fun strip_common :: "string list \<Rightarrow> string list \<Rightarrow> string list \<times> string list" where
  "strip_common (x # xs) (y # ys) = (if x = y then strip_common xs ys else (x # xs, y # ys))"
| "strip_common xs ys = (xs, ys)"

text \<open>\<open>filepath.Rel\<close>; None stands for its error. A target that is \<open>.\<close> keeps that component.\<close>

definition path_rel :: "string \<Rightarrow> string \<Rightarrow> string option" where
  "path_rel base target =
     (let b = path_clean base; t = path_clean target
      in if t = b then Some ''.''
         else if rooted b \<noteq> rooted t then None
         else
           (let bs = parts_of b; ts = (if t = ''.'' then [''.''] else parts_of t); (b', t') = strip_common bs ts
            in if b' \<noteq> [] \<and> hd b' = ''..'' then None
               else Some (join_slash (replicate (length b') ''..'' @ t'))))"

text \<open>A relative path that does not leave its base; the code tests it this way in several places.\<close>

definition rel_inside :: "string \<Rightarrow> bool" where
  "rel_inside relative \<longleftrightarrow> relative \<noteq> ''..'' \<and> \<not> has_prefix relative ''../''"

subsection \<open>Clean rooted paths\<close>

definition plain_part :: "string \<Rightarrow> bool" where
  "plain_part p \<longleftrightarrow> p \<noteq> [] \<and> p \<noteq> ''.'' \<and> p \<noteq> ''..'' \<and> CHR ''/'' \<notin> set p"

lemma push_plain [simp]: "plain_part p \<Longrightarrow> push_part root p stack = p # stack"
  by (simp add: push_part_def plain_part_def)

lemma push_rooted_plain:
  "list_all plain_part stack \<Longrightarrow> CHR ''/'' \<notin> set p \<Longrightarrow> list_all plain_part (push_part True p stack)"
  by (auto simp: push_part_def plain_part_def split: list.splits)

lemma fold_push_plain:
  "list_all plain_part stack \<Longrightarrow> \<forall>p \<in> set ps. CHR ''/'' \<notin> set p \<Longrightarrow> list_all plain_part (fold (push_part True) ps stack)"
  by (induction ps arbitrary: stack) (auto intro: push_rooted_plain)

lemma parts_plain: "rooted path \<Longrightarrow> list_all plain_part (parts_of path)"
  unfolding parts_of_def list_all_rev by (simp add: fold_push_plain split_on_no_sep)

lemma split_join_slash:
  "\<forall>p \<in> set ps. CHR ''/'' \<notin> set p \<Longrightarrow> split_on (CHR ''/'') (join_slash ps) = (if ps = [] then [[]] else ps)"
proof (induction ps)
  case (Cons p ps)
  show ?case
  proof (cases ps)
    case Nil
    then show ?thesis using Cons.prems by (simp add: join_slash_def split_on_none)
  next
    case (Cons q qs)
    then have "join_slash (p # ps) = p @ CHR ''/'' # join_slash ps" by (simp add: join_slash_def)
    then show ?thesis using Cons.IH Cons.prems Cons by (simp add: split_on_append)
  qed
qed (simp add: join_slash_def)

lemma fold_push_plains: "list_all plain_part ps \<Longrightarrow> fold (push_part root) ps stack = rev ps @ stack"
  by (induction ps arbitrary: stack) auto

lemma rooted_print [simp]: "rooted (print_path True ps)"
  by (simp add: rooted_def print_path_def)

lemma parts_print [simp]:
  assumes "list_all plain_part ps"
  shows "parts_of (print_path True ps) = ps"
proof -
  have "\<forall>p \<in> set ps. CHR ''/'' \<notin> set p" using assms by (auto simp: list_all_iff plain_part_def)
  then have "split_on (CHR ''/'') (print_path True ps) = [] # (if ps = [] then [[]] else ps)"
    by (simp add: print_path_def split_join_slash)
  then show ?thesis
    by (simp add: parts_of_def fold_push_plains [OF assms] push_part_def [of _ "[]"])
qed

lemma rooted_clean [simp]: "rooted path \<Longrightarrow> rooted (path_clean path)"
  by (simp add: path_clean_def)

lemma parts_clean [simp]: "rooted path \<Longrightarrow> parts_of (path_clean path) = parts_of path"
  by (simp add: path_clean_def parts_plain)

lemma clean_clean [simp]: "rooted path \<Longrightarrow> path_clean (path_clean path) = path_clean path"
  by (simp add: path_clean_def parts_plain)

lemma clean_eq_iff: "rooted p \<Longrightarrow> rooted q \<Longrightarrow> path_clean p = path_clean q \<longleftrightarrow> parts_of p = parts_of q"
proof -
  assume r: "rooted p" "rooted q"
  then have "path_clean p = print_path True (parts_of p)" "path_clean q = print_path True (parts_of q)"
    by (simp_all add: path_clean_def)
  then show ?thesis using parts_print [OF parts_plain [OF r(1)]] parts_print [OF parts_plain [OF r(2)]] by metis
qed

lemma clean_print [simp]: "list_all plain_part ps \<Longrightarrow> path_clean (print_path True ps) = print_path True ps"
  by (simp add: path_clean_def)

lemma strip_common_prefix: "fst (strip_common xs ys) = [] \<longleftrightarrow> prefix xs ys"
  by (induction xs ys rule: strip_common.induct) auto

lemma strip_common_parts: "\<exists>zs. xs = zs @ fst (strip_common xs ys) \<and> ys = zs @ snd (strip_common xs ys)"
proof (induction xs ys rule: strip_common.induct)
  case (1 x xs y ys)
  show ?case
  proof (cases "x = y")
    case True
    with 1 obtain zs where "xs = zs @ fst (strip_common xs ys)" "ys = zs @ snd (strip_common xs ys)" by blast
    then show ?thesis using True by (intro exI [of _ "y # zs"]) simp
  qed simp
qed simp_all

lemma join_slash_dots: "join_slash (''..'' # ps) = (if ps = [] then ''..'' else ''../'' @ join_slash ps)"
  by (cases ps) (simp_all add: join_slash_def)

lemma join_slash_inside: "plain_part p \<Longrightarrow> rel_inside (join_slash (p # ps))"
  by (cases p; cases "tl p"; cases "tl (tl p)"; cases ps)
    (auto simp: join_slash_def rel_inside_def plain_part_def prefix_def append_eq_Cons_conv)

text \<open>On clean rooted paths \<open>Rel\<close> says whether one is below the other.\<close>

theorem rel_inside_iff:
  assumes "rooted base" "rooted target"
  shows "\<exists>r. path_rel base target = Some r \<and> (rel_inside r \<longleftrightarrow> prefix (parts_of base) (parts_of target))"
proof (cases "parts_of base = parts_of target")
  case True
  then have "path_rel base target = Some ''.''" using assms by (simp add: path_rel_def clean_eq_iff)
  then show ?thesis using True by (simp add: rel_inside_def)
next
  case False
  obtain b t where s: "strip_common (parts_of base) (parts_of target) = (b, t)" by force
  obtain zs where zs: "parts_of base = zs @ b" "parts_of target = zs @ t"
    using strip_common_parts [of "parts_of base" "parts_of target"] s by auto
  have plain: "list_all plain_part b" "list_all plain_part t"
    using parts_plain [OF assms(1)] parts_plain [OF assms(2)] by (simp_all add: zs)
  have "path_clean target \<noteq> ''.''" using rooted_clean [OF assms(2)] by (auto simp: rooted_def)
  moreover have "\<not> (b \<noteq> [] \<and> hd b = ''..'')" using plain by (cases b) (auto simp: plain_part_def)
  ultimately have r: "path_rel base target = Some (join_slash (replicate (length b) ''..'' @ t))"
    using False assms s by (simp add: path_rel_def clean_eq_iff)
  show ?thesis
  proof (cases b)
    case Nil
    then obtain p ps where "t = p # ps" using False zs by (cases t) auto
    then show ?thesis using r Nil plain zs by (simp add: join_slash_inside)
  next
    case (Cons x xs)
    then have "\<not> prefix (parts_of base) (parts_of target)"
      using s strip_common_prefix [of "parts_of base" "parts_of target"] by simp
    moreover have "\<not> rel_inside (join_slash (replicate (length b) ''..'' @ t))"
      using Cons by (auto simp: join_slash_dots rel_inside_def)
    ultimately show ?thesis using r by simp
  qed
qed

text \<open>Joining a plain name to a clean directory.\<close>

lemma join_plain_name:
  assumes "list_all plain_part ds" "plain_part name"
  shows "path_join (print_path True ds) name = print_path True (ds @ [name])"
proof -
  have sep: "\<forall>p \<in> set (ds @ [name]). CHR ''/'' \<notin> set p" using assms by (auto simp: list_all_iff plain_part_def)
  have "print_path True ds @ ''/'' @ name = (if ds = [] then ''//'' @ name else print_path True (ds @ [name]))"
    by (cases ds) (simp_all add: print_path_def join_slash_def)
  moreover have "path_clean (''//'' @ name) = print_path True [name]"
    using assms(2) by (simp add: path_clean_def rooted_def parts_of_def split_on_none plain_part_def push_part_def)
  ultimately show ?thesis using assms by (simp add: path_join_def print_path_def [of _ ds])
qed

end
