(* ===== verification/Disk.thy ===== *)
theory Disk
  imports Paths
begin

text \<open>
  The part of a Unix filesystem that the agent's file services rely on: names of files and directories,
  and the contents of files under numbers, because an open file outlives its name and two names or two
  open files may share one. Symbolic links and permissions are not part of it; an operation that the
  operating system refuses for such a reason is an extra outcome of the call that makes it.
\<close>

datatype disk_entry = FileAt nat | DirAt

record disk =
  dk_names :: "(string, disk_entry) gomap"
  dk_data :: "nat \<Rightarrow> bytes"
  dk_fresh :: nat

record file_info =
  fi_IsDir :: bool
  fi_Size :: int

definition disk_stat :: "disk \<Rightarrow> string \<Rightarrow> file_info option" where
  "disk_stat d path =
     (case map_of (dk_names d) path of
        None \<Rightarrow> None
      | Some DirAt \<Rightarrow> Some \<lparr>fi_IsDir = True, fi_Size = 4096\<rparr>
      | Some (FileAt n) \<Rightarrow> Some \<lparr>fi_IsDir = False, fi_Size = int (length (dk_data d n))\<rparr>)"

definition disk_read :: "disk \<Rightarrow> string \<Rightarrow> bytes option" where
  "disk_read d path = (case map_of (dk_names d) path of Some (FileAt n) \<Rightarrow> Some (dk_data d n) | _ \<Rightarrow> None)"

text \<open>\<open>OpenFile\<close> with \<open>O_CREATE|O_TRUNC\<close>, and without either.\<close>

definition disk_create :: "string \<Rightarrow> disk \<Rightarrow> string + nat \<times> disk" where
  "disk_create path d =
     (case map_of (dk_names d) path of
        Some DirAt \<Rightarrow> Inl ''is a directory''
      | Some (FileAt n) \<Rightarrow> Inr (n, d\<lparr>dk_data := (dk_data d)(n := [])\<rparr>)
      | None \<Rightarrow>
          if map_of (dk_names d) (path_dir path) \<noteq> Some DirAt then Inl ''no such file or directory''
          else (let n = dk_fresh d
                in Inr (n, d\<lparr>dk_names := AList.update path (FileAt n) (dk_names d), dk_data := (dk_data d)(n := []),
                              dk_fresh := Suc n\<rparr>)))"

definition disk_open :: "string \<Rightarrow> disk \<Rightarrow> string + nat" where
  "disk_open path d =
     (case map_of (dk_names d) path of
        None \<Rightarrow> Inl ''no such file or directory''
      | Some DirAt \<Rightarrow> Inl ''is a directory''
      | Some (FileAt n) \<Rightarrow> Inr n)"

text \<open>\<open>WriteAt\<close>: a hole before the offset reads as zeros, and nothing happens for an empty slice.\<close>

definition pwrite :: "bytes \<Rightarrow> nat \<Rightarrow> bytes \<Rightarrow> bytes" where
  "pwrite data offset raw =
     (if raw = [] then data
      else take offset (data @ replicate (offset - length data) 0) @ raw @ drop (offset + length raw) data)"

definition disk_write :: "nat \<Rightarrow> nat \<Rightarrow> bytes \<Rightarrow> disk \<Rightarrow> disk" where
  "disk_write n offset raw d = d\<lparr>dk_data := (dk_data d)(n := pwrite (dk_data d n) offset raw)\<rparr>"

definition disk_remove :: "string \<Rightarrow> disk \<Rightarrow> disk" where
  "disk_remove path d = d\<lparr>dk_names := AList.delete path (dk_names d)\<rparr>"

text \<open>\<open>MkdirAll\<close>: every prefix of the path is made a directory, or is one.\<close>

fun make_dirs :: "string list \<Rightarrow> disk \<Rightarrow> string + disk" where
  "make_dirs [] d = Inr d"
| "make_dirs (path # paths) d =
     (case map_of (dk_names d) path of
        None \<Rightarrow> make_dirs paths (d\<lparr>dk_names := AList.update path DirAt (dk_names d)\<rparr>)
      | Some DirAt \<Rightarrow> make_dirs paths d
      | Some (FileAt n) \<Rightarrow> Inl ''not a directory'')"

definition disk_mkdir_all :: "string \<Rightarrow> disk \<Rightarrow> string + disk" where
  "disk_mkdir_all path d = make_dirs (map (print_path True) (prefixes (parts_of path))) d"

subsection \<open>Well-formed disks\<close>

text \<open>Names are distinct, and numbers from \<open>dk_fresh\<close> on are free.\<close>

definition disk_ok :: "disk \<Rightarrow> bool" where
  "disk_ok d \<longleftrightarrow> well_keyed (dk_names d) \<and> (\<forall>p n. map_of (dk_names d) p = Some (FileAt n) \<longrightarrow> n < dk_fresh d)"

lemma disk_ok_create: "disk_ok d \<Longrightarrow> disk_create path d = Inr (n, d') \<Longrightarrow> disk_ok d'"
  by (auto simp: disk_create_def disk_ok_def Let_def less_Suc_eq split: option.splits disk_entry.splits if_splits)

lemma disk_ok_write [simp]: "disk_ok (disk_write n offset raw d) = disk_ok d"
  by (simp add: disk_ok_def disk_write_def)

lemma disk_ok_remove [simp]: "disk_ok d \<Longrightarrow> disk_ok (disk_remove path d)"
  by (simp add: disk_ok_def disk_remove_def)

lemma disk_ok_make_dirs: "disk_ok d \<Longrightarrow> make_dirs paths d = Inr d' \<Longrightarrow> disk_ok d'"
  by (induction paths d rule: make_dirs.induct)
    (auto simp: disk_ok_def split: option.splits disk_entry.splits if_splits)

text \<open>Directories are added and nothing else changes.\<close>

definition adds_dirs :: "disk \<Rightarrow> disk \<Rightarrow> bool" where
  "adds_dirs d d' \<longleftrightarrow> dk_data d' = dk_data d \<and> dk_fresh d' = dk_fresh d
     \<and> (\<forall>p. map_of (dk_names d') p = map_of (dk_names d) p
          \<or> map_of (dk_names d) p = None \<and> map_of (dk_names d') p = Some DirAt)"

lemma adds_dirs_refl [simp]: "adds_dirs d d"
  by (simp add: adds_dirs_def)

lemma adds_dirs_trans: "adds_dirs d d1 \<Longrightarrow> adds_dirs d1 d2 \<Longrightarrow> adds_dirs d d2"
  unfolding adds_dirs_def by metis

lemma adds_dirs_one: "map_of (dk_names d) p = None \<Longrightarrow> adds_dirs d (d\<lparr>dk_names := AList.update p DirAt (dk_names d)\<rparr>)"
  by (simp add: adds_dirs_def)

lemma adds_dirs_file: "adds_dirs d d' \<Longrightarrow> map_of (dk_names d') p = Some (FileAt n) \<longleftrightarrow> map_of (dk_names d) p = Some (FileAt n)"
  unfolding adds_dirs_def by (metis disk_entry.distinct(1) option.distinct(1) option.inject)

lemma adds_dirs_dir: "adds_dirs d d' \<Longrightarrow> map_of (dk_names d) p = Some DirAt \<Longrightarrow> map_of (dk_names d') p = Some DirAt"
  unfolding adds_dirs_def by (metis option.distinct(1))

lemma make_dirs_adds: "make_dirs paths d = Inr d' \<Longrightarrow> adds_dirs d d'"
  by (induction paths d rule: make_dirs.induct)
    (auto split: option.splits disk_entry.splits intro: adds_dirs_trans adds_dirs_one)

lemma make_dirs_made: "make_dirs paths d = Inr d' \<Longrightarrow> p \<in> set paths \<Longrightarrow> map_of (dk_names d') p = Some DirAt"
proof (induction paths d rule: make_dirs.induct)
  case (2 path paths d)
  show ?case
  proof (cases "map_of (dk_names d) path")
    case None
    with 2 have run: "make_dirs paths (d\<lparr>dk_names := AList.update path DirAt (dk_names d)\<rparr>) = Inr d'" by simp
    show ?thesis
    proof (cases "p \<in> set paths")
      case True
      then show ?thesis using 2(1) [OF None run] by simp
    next
      case False
      then show ?thesis using adds_dirs_dir [OF make_dirs_adds [OF run], of path] 2(4) by simp
    qed
  next
    case (Some e)
    with 2 have run: "make_dirs paths d = Inr d'" "e = DirAt" by (cases e; simp)+
    then show ?thesis using 2 Some adds_dirs_dir [OF make_dirs_adds [OF run(1)], of path] by auto
  qed
qed simp

lemma make_dirs_idle: "\<forall>p \<in> set paths. map_of (dk_names d) p = Some DirAt \<Longrightarrow> make_dirs paths d = Inr d"
  by (induction paths) auto

lemma mkdir_all_made: "disk_mkdir_all path d = Inr d' \<Longrightarrow> rooted path \<Longrightarrow> map_of (dk_names d') (path_clean path) = Some DirAt"
  using make_dirs_made [of "map (print_path True) (prefixes (parts_of path))" d d' "path_clean path"]
  by (simp add: disk_mkdir_all_def path_clean_def)

lemma mkdir_all_adds: "disk_mkdir_all path d = Inr d' \<Longrightarrow> adds_dirs d d'"
  by (simp add: disk_mkdir_all_def make_dirs_adds)

subsection \<open>Writes\<close>

lemma pwrite_append [simp]: "pwrite data (length data) raw = data @ raw"
  by (simp add: pwrite_def)

lemma length_pwrite: "length (pwrite data offset raw) = (if raw = [] then length data else max (length data) (offset + length raw))"
  by (auto simp: pwrite_def max_def)

lemma pwrite_reads_back: "take (length raw) (drop offset (pwrite data offset raw)) = raw"
  by (simp add: pwrite_def)

lemma pwrite_elsewhere:
  "i < length data \<Longrightarrow> \<not> (offset \<le> i \<and> i < offset + length raw) \<Longrightarrow> pwrite data offset raw ! i = data ! i"
  by (auto simp: pwrite_def nth_append)

text \<open>Chunks written one after the other.\<close>

fun write_chunks :: "bytes list \<Rightarrow> bytes \<Rightarrow> bytes" where
  "write_chunks [] data = data"
| "write_chunks (c # cs) data = write_chunks cs (pwrite data (length data) c)"

lemma write_chunks_concat: "write_chunks cs data = data @ concat cs"
  by (induction cs arbitrary: data) simp_all

lemma disk_write_data [simp]:
  "dk_data (disk_write n offset raw d) m = (if m = n then pwrite (dk_data d n) offset raw else dk_data d m)"
  "dk_names (disk_write n offset raw d) = dk_names d"
  "dk_fresh (disk_write n offset raw d) = dk_fresh d"
  by (simp_all add: disk_write_def)

lemma disk_remove_data [simp]:
  "dk_data (disk_remove path d) = dk_data d"
  "map_of (dk_names (disk_remove path d)) p = (if p = path then None else map_of (dk_names d) p)"
  "dk_fresh (disk_remove path d) = dk_fresh d"
  by (simp_all add: disk_remove_def)

lemma disk_create_at: "disk_create path d = Inr (n, d') \<Longrightarrow> map_of (dk_names d') path = Some (FileAt n) \<and> dk_data d' n = []"
  by (auto simp: disk_create_def Let_def split: option.splits disk_entry.splits if_splits)

lemma disk_create_dirs:
  "disk_create path d = Inr (n, d') \<Longrightarrow> map_of (dk_names d) p = Some DirAt \<Longrightarrow> map_of (dk_names d') p = Some DirAt"
  by (auto simp: disk_create_def Let_def split: option.splits disk_entry.splits if_splits)

lemma disk_create_others:
  "disk_create path d = Inr (n, d') \<Longrightarrow> p \<noteq> path \<Longrightarrow> map_of (dk_names d') p = map_of (dk_names d) p"
  "disk_create path d = Inr (n, d') \<Longrightarrow> m \<noteq> n \<Longrightarrow> dk_data d' m = dk_data d m"
  by (auto simp: disk_create_def Let_def split: option.splits disk_entry.splits if_splits)

text \<open>A directory that was made once stays made while files come and go.\<close>

lemma mkdir_all_again:
  assumes "disk_mkdir_all path d = Inr d0" "\<And>p. map_of (dk_names d0) p = Some DirAt \<Longrightarrow> map_of (dk_names d1) p = Some DirAt"
  shows "disk_mkdir_all path d1 = Inr d1"
  using assms make_dirs_made make_dirs_idle unfolding disk_mkdir_all_def by metis

end
