(* ===== verification/Http.thy ===== *)
theory Http
  imports Url_Text Config Disk
begin

text \<open>
  The HTTP service (\<open>shellagent/http_provider.go\<close>): which destinations an app may reach, the addresses a
  connection may go to, the course of a request through its redirects, and downloads onto the disk of
  \<open>Disk\<close>. The network is a parameter: how names resolve, whether an address answers, what a server says, and
  the proxy of the environment. Request headers are not modelled; a request that the HTTP library will not
  send is an answer \<open>Broken\<close>.
\<close>

subsection \<open>Destinations\<close>

definition httpAllowlistFor :: "socketAuthentication option \<Rightarrow> string \<Rightarrow> obj \<Rightarrow> string + string list" where
  "httpAllowlistFor auth scheme options =
     (case auth of
        Some a \<Rightarrow>
          if sa_keyID a \<noteq> [] then
            (let patterns = (case map_of (sa_connect a) scheme of None \<Rightarrow> [] | Some ps \<Rightarrow> ps)
             in if patterns = [] then Inl ''HTTP destination is not in the app's declared connect list'' else Inr patterns)
          else httpConnectPatterns (httpConnectEntries (obj_get options ''connect'')) scheme
      | None \<Rightarrow> httpConnectPatterns (httpConnectEntries (obj_get options ''connect'')) scheme)"

definition plain_host :: "string \<Rightarrow> string" where
  "plain_host hostname = to_lower (trim_set ''[]'' hostname)"

definition hostNamedByAllowlist :: "string \<Rightarrow> string list \<Rightarrow> bool" where
  "hostNamedByAllowlist hostname patterns \<longleftrightarrow>
     (\<exists>pat \<in> set patterns.
        case url_parse pat of None \<Rightarrow> False | Some parsed \<Rightarrow> plain_host (url_hostname parsed) = plain_host hostname)"

definition ip_is_multicast_link_local :: "nat list \<Rightarrow> bool" where
  "ip_is_multicast_link_local ip =
     (case to4 ip of
        Some q \<Rightarrow> q ! 0 = 224 \<and> q ! 1 = 0 \<and> q ! 2 = 0
      | None \<Rightarrow> ip ! 0 = 255 \<and> ip ! 1 mod 16 = 2)"

definition ip_is_unspecified :: "nat list \<Rightarrow> bool" where
  "ip_is_unspecified ip \<longleftrightarrow> to4 ip = Some [0, 0, 0, 0] \<or> ip = replicate 16 0"

definition restrictedDialIP :: "nat list option \<Rightarrow> bool" where
  "restrictedDialIP ip =
     (case ip of
        None \<Rightarrow> True
      | Some a \<Rightarrow> ip_is_loopback a \<or> ip_is_private a \<or> ip_is_link_local a \<or> ip_is_multicast_link_local a \<or> ip_is_unspecified a)"

definition restrictedHostname :: "string \<Rightarrow> bool" where
  "restrictedHostname hostname \<longleftrightarrow>
     (if loopbackHostname hostname then True
      else (case parse_ip (trim_set ''[]'' hostname) of Some ip \<Rightarrow> restrictedDialIP (Some ip) | None \<Rightarrow> False))"

definition assertHTTPTargetAllowed :: "wire_url \<Rightarrow> string list \<Rightarrow> string + unit" where
  "assertHTTPTargetAllowed target patterns =
     (case assertURLAllowedByHTTPConnect (url_text target) patterns of
        Inl e \<Rightarrow> Inl e
      | Inr _ \<Rightarrow>
          (let hostname = url_hostname (w_url target)
           in if restrictedHostname hostname \<and> \<not> hostNamedByAllowlist hostname patterns
              then Inl (''HTTP destination '' @ hostname @ '' is a local or private address that the app did not declare'')
              else Inr ()))"

subsection \<open>Connections\<close>

record http_response =
  hr_Status :: int
  hr_Headers :: "(string, string list) gomap"
  hr_Body :: bytes
  hr_Fault :: "string option" \<comment> \<open>the connection breaks after the body\<close>

datatype http_answer = Broken string | Moved string | Final http_response

record http_net =
  hn_resolve :: "string \<Rightarrow> string + nat list list"
  hn_dial :: "nat list \<Rightarrow> string \<Rightarrow> string option"
  hn_ascii :: "string \<Rightarrow> string" \<comment> \<open>the ASCII form of an international name\<close>
  hn_proxy :: "wire_url \<Rightarrow> string option"
  hn_answer :: "nat \<Rightarrow> wire_url \<Rightarrow> nat list \<Rightarrow> http_answer"

text \<open>\<open>DialContext\<close> of \<open>safeHTTPTransport\<close>: the addresses of a name in turn.\<close>

fun dial_loop ::
  "http_net \<Rightarrow> bool \<Rightarrow> string \<Rightarrow> string \<Rightarrow> nat list list \<Rightarrow> string option \<Rightarrow> string + nat list" where
  "dial_loop net named host port [] failure =
     Inl (case failure of None \<Rightarrow> ''HTTP destination '' @ host @ '' has no usable address'' | Some e \<Rightarrow> e)"
| "dial_loop net named host port (candidate # rest) failure =
     (if restrictedDialIP (Some candidate) \<and> \<not> named
      then dial_loop net named host port rest
             (Some (''HTTP destination '' @ host @ '' resolves to a local or private address''))
      else (case hn_dial net candidate port of
              None \<Rightarrow> Inr candidate
            | Some e \<Rightarrow> dial_loop net named host port rest (Some e)))"

definition safeHTTPTransport :: "http_net \<Rightarrow> string list \<Rightarrow> string \<Rightarrow> string + nat list" where
  "safeHTTPTransport net patterns address =
     (case split_host_port address of
        None \<Rightarrow> Inl (''address '' @ address @ '': missing port in address'')
      | Some (host, port) \<Rightarrow>
          (case hn_resolve net host of
             Inl e \<Rightarrow> Inl e
           | Inr addresses \<Rightarrow> dial_loop net (hostNamedByAllowlist host patterns) host port addresses None))"

text \<open>What the HTTP library asks it to dial: the host of the URL and its port, or the proxy.\<close>

definition is_ascii :: "string \<Rightarrow> bool" where
  "is_ascii s \<longleftrightarrow> list_all (\<lambda>c. of_char c < (128 :: nat)) s"

definition canonical_address :: "http_net \<Rightarrow> wire_url \<Rightarrow> string" where
  "canonical_address net w =
     (let host = url_hostname (w_url w); port = url_port (w_url w)
      in join_host_port (if is_ascii host then host else hn_ascii net host)
           (if port \<noteq> [] then port else if u_Scheme (w_url w) = ''https'' then ''443'' else ''80''))"

definition dialled_address :: "http_net \<Rightarrow> wire_url \<Rightarrow> string" where
  "dialled_address net w = (case hn_proxy net w of None \<Rightarrow> canonical_address net w | Some proxy \<Rightarrow> proxy)"

subsection \<open>Redirects\<close>

definition check_redirect :: "string list \<Rightarrow> wire_url list \<Rightarrow> wire_url \<Rightarrow> string option" where
  "check_redirect patterns via w =
     (if length via \<ge> 10 then Some ''too many HTTP redirects''
      else (case assertHTTPTargetAllowed w patterns of Inl e \<Rightarrow> Some e | Inr _ \<Rightarrow> None))"

text \<open>\<open>NewRequest\<close> reads the text of the URL again and drops an empty port.\<close>

definition remove_empty_port :: "string \<Rightarrow> string" where
  "remove_empty_port host =
     (if length (after_last (CHR '':'') host) < length (after_last (CHR '']'') host) then trim_suffix host '':'' else host)"

definition new_request :: "wire_url \<Rightarrow> wire_url option" where
  "new_request parsed =
     map_option (\<lambda>w. w\<lparr>w_url := (w_url w)\<lparr>u_Host := remove_empty_port (u_Host (w_url w))\<rparr>\<rparr>) (wire_parse (url_text parsed))"

text \<open>\<open>Client.Do\<close>: the contacts it makes, each a URL and the address it was asked of, and how it ends.\<close>

type_synonym contacts = "(wire_url \<times> nat list) list"

function client_do :: "http_net \<Rightarrow> string list \<Rightarrow> wire_url list \<Rightarrow> wire_url \<Rightarrow> contacts \<times> (string + http_response \<times> wire_url)" where
  "client_do net patterns via w =
     (if u_Host (w_url w) = [] then ([], Inl ''http: no Host in request URL'')
      else (case safeHTTPTransport net patterns (dialled_address net w) of
              Inl e \<Rightarrow> ([], Inl e)
            | Inr ip \<Rightarrow>
                (case hn_answer net (length via) w ip of
                   Broken e \<Rightarrow> ([(w, ip)], Inl e)
                 | Final r \<Rightarrow> ([(w, ip)], Inr (r, w))
                 | Moved location \<Rightarrow>
                     (case wire_resolve w location of
                        None \<Rightarrow> ([(w, ip)], Inl ''failed to parse Location header'')
                      | Some w' \<Rightarrow>
                          (case check_redirect patterns (via @ [w]) w' of
                             Some e \<Rightarrow> ([(w, ip)], Inl e)
                           | None \<Rightarrow> (let (cs, r) = client_do net patterns (via @ [w]) w' in ((w, ip) # cs, r)))))))"
  by pat_completeness auto
termination
  by (relation "measure (\<lambda>(net, patterns, via, w). 10 - length via)") (auto simp: check_redirect_def split: if_splits)

declare client_do.simps [simp del]


subsection \<open>The service\<close>

record http_env =
  he_sprint :: "any \<Rightarrow> string"
  he_ovf :: "rat \<Rightarrow> int" \<comment> \<open>Go's conversion of a number that does not fit\<close>
  he_net :: "int \<Rightarrow> http_net" \<comment> \<open>what the network does within a time, in nanoseconds\<close>
  he_random :: string \<comment> \<open>the random part of a temporary name\<close>
  he_copy_fault :: "string option"
  he_close_fault :: "string option"
  he_rename_fault :: "string option"

datatype http_reply =
    Responded int bool string "(string, string list) gomap" bytes bool \<comment> \<open>status, ok, URL, headers, body, binary\<close>
  | Downloaded int string "(string, string list) gomap" int string

definition Second :: int where
  "Second = 1000000000"

text \<open>The time a request is given; the product wraps around like any \<open>int64\<close>.\<close>

definition http_timeout :: "(rat \<Rightarrow> int) \<Rightarrow> string \<Rightarrow> obj \<Rightarrow> int" where
  "http_timeout ovf method options =
     (let asked = sint (word_of_int (integer64 ovf (obj_get options ''timeoutMs'') * 1000000) :: 64 word);
          timeout = (if asked < Second then 30 * Second else asked);
          maximum = (if method = ''download'' then 600 * Second else 60 * Second)
      in if timeout > maximum then maximum else timeout)"

definition method_token :: "string \<Rightarrow> bool" where
  "method_token m \<longleftrightarrow> m \<noteq> [] \<and> list_all (\<lambda>c. is_alnum c \<or> c \<in> set ''!#$%&*+-.^_`|~'' \<or> c = CHR 0x27) m"

definition response_limit :: "bool \<Rightarrow> int" where
  "response_limit binary = (if binary then 32 * 1024 * 1024 else 8 * 1024 * 1024)"

definition http_respond :: "obj \<Rightarrow> http_response \<Rightarrow> wire_url \<Rightarrow> string + http_reply" where
  "http_respond options r w =
     (let binary = (case obj_get options ''binary'' of BoolV b \<Rightarrow> b | _ \<Rightarrow> False);
          limit = response_limit binary;
          data = take (nat (limit + 1)) (hr_Body r)
      in if hr_Fault r \<noteq> None \<and> int (length (hr_Body r)) \<le> limit then Inl (the (hr_Fault r))
         else if int (length data) > limit then Inl ''HTTP response is too large''
         else Inr (Responded (hr_Status r) (200 \<le> hr_Status r \<and> hr_Status r < 300) (url_text w) (hr_Headers r) data binary))"

text \<open>\<open>os.Rename\<close> of a file.\<close>

definition rename_file :: "string \<Rightarrow> string \<Rightarrow> disk \<Rightarrow> string + disk" where
  "rename_file src dst d =
     (case map_of (dk_names d) src of
        Some (FileAt n) \<Rightarrow>
          if map_of (dk_names d) dst = Some DirAt then Inl ''file exists''
          else if src = dst then Inr d
          else if map_of (dk_names d) (path_dir dst) \<noteq> Some DirAt then Inl ''no such file or directory''
          else Inr (d\<lparr>dk_names := AList.update dst (FileAt n) (AList.delete src (dk_names d))\<rparr>)
      | _ \<Rightarrow> Inl ''no such file or directory'')"

definition MaxDownloadBytes :: int where
  "MaxDownloadBytes = 512 * 1024 * 1024"

definition download_limit :: "http_env \<Rightarrow> obj \<Rightarrow> int" where
  "download_limit env options =
     (let m = integer64 (he_ovf env) (obj_get options ''maxBytes'')
      in if m \<le> 0 \<or> m > MaxDownloadBytes then MaxDownloadBytes else m)"

text \<open>A download goes to a temporary file beside its target. The file is removed in the end under the name it
  was made with; a file that was renamed has left that name.\<close>

definition http_download :: "http_env \<Rightarrow> obj \<Rightarrow> http_response \<Rightarrow> wire_url \<Rightarrow> disk \<Rightarrow> disk \<times> (string + http_reply)" where
  "http_download env options r w d =
     (let target = StringValue (he_sprint env) (obj_get options ''targetPath'');
          limit = download_limit env options
      in if \<not> rooted target then (d, Inl ''download target path must be absolute'')
         else (case disk_mkdir_all (path_dir target) d of
                 Inl e \<Rightarrow> (d, Inl e)
               | Inr d1 \<Rightarrow>
                   (let temporary = path_join (path_dir target) (''.download-'' @ he_random env)
                    in if map_of (dk_names d1) temporary \<noteq> None then (d1, Inl ''file exists'')
                       else (case disk_create temporary d1 of
                               Inl e \<Rightarrow> (d1, Inl e)
                             | Inr (n, d2) \<Rightarrow>
                                 (let data = take (nat (limit + 1)) (hr_Body r);
                                      d3 = disk_write n 0 data d2;
                                      failure = (if he_copy_fault env \<noteq> None then he_copy_fault env
                                                 else if hr_Fault r \<noteq> None \<and> int (length (hr_Body r)) \<le> limit then hr_Fault r
                                                 else if he_close_fault env \<noteq> None then he_close_fault env
                                                 else if int (length data) > limit then Some ''HTTP download exceeds its size limit''
                                                 else he_rename_fault env)
                                  in case failure of
                                       Some e \<Rightarrow> (disk_remove temporary d3, Inl e)
                                     | None \<Rightarrow>
                                         (case rename_file temporary (path_clean target) d3 of
                                            Inl e \<Rightarrow> (disk_remove temporary d3, Inl e)
                                          | Inr d4 \<Rightarrow>
                                              (disk_remove temporary d4,
                                               Inr (Downloaded (hr_Status r) (url_text w) (hr_Headers r) (int (length data)) target))))))))"

definition handleHTTPRPC ::
  "http_env \<Rightarrow> socketAuthentication option \<Rightarrow> message \<Rightarrow> disk \<Rightarrow> contacts \<times> disk \<times> (string + http_reply)" where
  "handleHTTPRPC env auth request d =
     (let options = ObjectArg (m_Args request) 0; method = m_Method request in
      case wire_parse (StringValue (he_sprint env) (obj_get options ''url'')) of
        None \<Rightarrow> ([], d, Inl ''HTTP URL is invalid'')
      | Some parsed \<Rightarrow>
          if u_Host (w_url parsed) = [] \<or> u_Scheme (w_url parsed) \<noteq> ''http'' \<and> u_Scheme (w_url parsed) \<noteq> ''https''
          then ([], d, Inl ''HTTP URL is invalid'')
          else (case httpAllowlistFor auth (u_Scheme (w_url parsed)) options of
                  Inl e \<Rightarrow> ([], d, Inl e)
                | Inr patterns \<Rightarrow>
                    (case assertHTTPTargetAllowed parsed patterns of
                       Inl e \<Rightarrow> ([], d, Inl e)
                     | Inr _ \<Rightarrow>
                         if method = ''download'' \<and> \<not> (case auth of None \<Rightarrow> True | Some a \<Rightarrow> socketAllows (sa_capabilities a) ''fs.writeBase64'')
                         then ([], d, Inl ''http.download requires fs.writeBase64'')
                         else if int (length (StringValue (he_sprint env) (obj_get options ''body''))) > 1024 * 1024
                         then ([], d, Inl ''HTTP request body is limited to 1 MiB'')
                         else
                           (let verb = to_upper (StringValue (he_sprint env) (obj_get options ''method''))
                            in if verb \<noteq> [] \<and> \<not> method_token verb then ([], d, Inl (''net/http: invalid method '' @ verb))
                               else (case new_request parsed of
                                       None \<Rightarrow> ([], d, Inl ''parse error'')
                                     | Some first \<Rightarrow>
                                         (case client_do (he_net env (http_timeout (he_ovf env) method options)) patterns [] first of
                                            (cs, Inl e) \<Rightarrow> (cs, d, Inl e)
                                          | (cs, Inr (r, w)) \<Rightarrow>
                                              if method = ''request'' then (cs, d, http_respond options r w)
                                              else if method \<noteq> ''download'' then (cs, d, Inl ''unsupported HTTP method'')
                                              else (let (d', res) = http_download env options r w d in (cs, d', res))))))))"

end
