(* ===== verification/Http_Properties.thy ===== *)
theory Http_Properties
  imports Http
begin

text \<open>
  The HTTP service: a request and all its redirects stay with the destinations the app declared; what the
  check of addresses at dial time amounts to; and downloads are whole or leave every file alone.
\<close>

subsection \<open>Destinations\<close>

text \<open>A pattern names the target of a request: the same scheme and host, up to an empty port.\<close>

definition names_target :: "string \<Rightarrow> url \<Rightarrow> bool" where
  "names_target pat u \<longleftrightarrow>
     (\<exists>p. url_parse pat = Some p \<and> u_Scheme p = u_Scheme u \<and> (u_Host u = u_Host p \<or> u_Host u = remove_empty_port (u_Host p)))"

lemma colon_split: "CHR '':'' \<notin> set a \<Longrightarrow> CHR '':'' \<notin> set b \<Longrightarrow> a @ CHR '':'' # x = b @ CHR '':'' # y \<Longrightarrow> a = b \<and> x = y"
  by (metis cut_on_append prod.inject)

lemma scheme_no_colon: "url_ok u \<Longrightarrow> CHR '':'' \<notin> set (u_Scheme u)"
  by (auto simp: url_ok_def scheme_ok_def scheme_char_def list_all_iff is_lower_def is_digit_def split: list.splits)

lemma same_origin: "url_ok u \<Longrightarrow> url_ok v \<Longrightarrow> url_origin u = url_origin v \<Longrightarrow> u_Scheme u = u_Scheme v \<and> u_Host u = u_Host v"
  using colon_split [OF scheme_no_colon scheme_no_colon, of u v "''//'' @ u_Host u" "''//'' @ u_Host v"]
  by (simp add: url_origin_def)

lemma allowed_target:
  assumes "assertHTTPTargetAllowed w patterns = Inr ()" "url_ok (w_url w)" "u_Scheme (w_url w) \<noteq> []" "u_Host (w_url w) \<noteq> []"
  obtains pat p where "pat \<in> set patterns" "url_parse pat = Some p" "u_Scheme p = u_Scheme (w_url w)" "u_Host p = u_Host (w_url w)"
proof -
  have "urlAllowedByHTTPConnect (url_text w) patterns"
    using assms(1) by (auto simp: assertHTTPTargetAllowed_def assertURLAllowedByHTTPConnect_def split: if_splits sum.splits)
  then obtain u d pat where u: "url_parse (url_text w) = Some u" "\<not> u_HasUser u" and pat: "pat \<in> set patterns" "pattern_allows (url_origin u) d pat"
    unfolding url_allowed_unfold by blast
  have "scheme_ok (u_Scheme (w_url w))" "u_Opaque (w_url w) = []" using assms(2-4) by (auto simp: url_ok_def)
  then have same: "u_Scheme u = u_Scheme (w_url w)" "u_Host u = u_Host (w_url w)"
    using text_names_host [OF u _ assms(4)] by simp_all
  obtain p where p: "url_parse pat = Some p" "url_origin p = url_origin u"
    using pat(2) by (auto simp: pattern_allows_def split: option.splits)
  from same_origin [OF url_parse_ok [OF p(1)] url_parse_ok [OF u(1)] p(2)] show thesis
    using that [OF pat(1) p(1)] same by simp
qed

text \<open>One connection.\<close>

lemma dial_loop_address:
  "dial_loop net named host port addresses failure = Inr ip \<Longrightarrow> ip \<in> set addresses \<and> (named \<or> \<not> restrictedDialIP (Some ip))"
  by (induction net named host port addresses failure rule: dial_loop.induct) (auto split: if_splits option.splits)

text \<open>A request and its redirects.\<close>

lemma checked_redirect:
  assumes "check_redirect patterns via w = None" "url_ok (w_url w)" "u_Scheme (w_url w) \<noteq> []" "u_Host (w_url w) \<noteq> []"
  shows "\<exists>pat \<in> set patterns. names_target pat (w_url w)"
proof -
  have "assertHTTPTargetAllowed w patterns = Inr ()" using assms(1) by (auto simp: check_redirect_def split: if_splits sum.splits)
  then show ?thesis using allowed_target [OF _ assms(2-4)] unfolding names_target_def by metis
qed

lemma client_contacts:
  assumes "client_do net patterns via w = (cs, r)" "url_ok (w_url w)" "u_Scheme (w_url w) \<noteq> []" "length via < 10"
    and "u_Host (w_url w) \<noteq> [] \<longrightarrow> (\<exists>pat \<in> set patterns. names_target pat (w_url w))"
  shows "length cs + length via \<le> 10 \<and> (\<forall>(w, ip) \<in> set cs. \<exists>pat \<in> set patterns. names_target pat (w_url w))"
  using assms
proof (induction net patterns via w arbitrary: cs r rule: client_do.induct)
  case (1 net patterns via w)
  consider "cs = []" | ip where "cs = [(w, ip)]" "u_Host (w_url w) \<noteq> []"
    | ip location w' cs' where "safeHTTPTransport net patterns (dialled_address net w) = Inr ip" "u_Host (w_url w) \<noteq> []"
        "hn_answer net (length via) w ip = Moved location" "wire_resolve w location = Some w'"
        "check_redirect patterns (via @ [w]) w' = None" "client_do net patterns (via @ [w]) w' = (cs', r)" "cs = (w, ip) # cs'"
    using "1.prems"(1) by (subst (asm) client_do.simps)
      (auto split: if_splits sum.splits http_answer.splits option.splits prod.splits)
  then show ?case
  proof cases
    case 3
    have ok: "url_ok (w_url w') \<and> u_Scheme (w_url w') \<noteq> []"
      using wire_resolve_ok [OF 3(4)] "1.prems"(2,3) .
    have "length (via @ [w]) < 10" using 3(5) by (auto simp: check_redirect_def split: if_splits)
    then have "length cs' + length (via @ [w]) \<le> 10 \<and> (\<forall>(w, ip) \<in> set cs'. \<exists>pat \<in> set patterns. names_target pat (w_url w))"
      using "1.IH" [OF 3(2,1,3,4,5,6)] ok checked_redirect [OF 3(5)] by blast
    then show ?thesis using 3(2,7) "1.prems"(5) by simp
  qed (use "1.prems"(4,5) in auto)
qed


lemma wire_parse_url: "wire_parse raw = Some w \<Longrightarrow> url_parse raw = Some (w_url w)"
  by (auto simp: wire_parse_def Let_def split: option.splits prod.splits)

lemma remove_empty_port_Nil [simp]: "remove_empty_port [] = []"
  by (simp add: remove_empty_port_def after_last_def)

lemma first_request:
  assumes "new_request parsed = Some w" "assertHTTPTargetAllowed parsed patterns = Inr ()"
    and "url_ok (w_url parsed)" "u_Scheme (w_url parsed) \<noteq> []" "u_Host (w_url parsed) \<noteq> []"
  shows "url_ok (w_url w) \<and> u_Scheme (w_url w) = u_Scheme (w_url parsed) \<and> (\<exists>pat \<in> set patterns. names_target pat (w_url w))"
proof -
  obtain v where v: "wire_parse (url_text parsed) = Some v" "w_url w = (w_url v)\<lparr>u_Host := remove_empty_port (u_Host (w_url v))\<rparr>"
    using assms(1) by (auto simp: new_request_def)
  note url = wire_parse_url [OF v(1)]
  have "\<not> u_HasUser (w_url v)"
    using assms(2) url by (auto simp: assertHTTPTargetAllowed_def assertURLAllowedByHTTPConnect_def url_allowed_unfold split: if_splits sum.splits)
  moreover have "scheme_ok (u_Scheme (w_url parsed))" "u_Opaque (w_url parsed) = []" using assms(3-5) by (auto simp: url_ok_def)
  ultimately have same: "u_Scheme (w_url v) = u_Scheme (w_url parsed)" "u_Host (w_url v) = u_Host (w_url parsed)"
    using text_names_host [OF url _ _ assms(5)] by simp_all
  have "url_ok (w_url w)" using wire_parse_ok [OF v(1)] v(2) by (auto simp: url_ok_def)
  moreover obtain pat p where "pat \<in> set patterns" "url_parse pat = Some p" "u_Scheme p = u_Scheme (w_url parsed)" "u_Host p = u_Host (w_url parsed)"
    by (rule allowed_target [OF assms(2-5)])
  then have "names_target pat (w_url w)" "pat \<in> set patterns" using same v(2) by (simp_all add: names_target_def)
  ultimately show ?thesis using same v(2) by auto
qed

text \<open>A service call: what it contacts, when it contacts anything.\<close>

lemma service_contacts:
  assumes "handleHTTPRPC env auth request d = (cs, d', r)" "cs \<noteq> []"
  obtains scheme options patterns where "scheme \<in> {''http'', ''https''}" "httpAllowlistFor auth scheme options = Inr patterns"
    "length cs \<le> 10" "\<forall>(w, ip) \<in> set cs. \<exists>pat \<in> set patterns. names_target pat (w_url w)"
proof -
  obtain parsed patterns first net res where parsed: "wire_parse (StringValue (he_sprint env) (obj_get (ObjectArg (m_Args request) 0) ''url'')) = Some parsed"
      "u_Host (w_url parsed) \<noteq> []" "u_Scheme (w_url parsed) = ''http'' \<or> u_Scheme (w_url parsed) = ''https''"
      "httpAllowlistFor auth (u_Scheme (w_url parsed)) (ObjectArg (m_Args request) 0) = Inr patterns"
      "assertHTTPTargetAllowed parsed patterns = Inr ()" "new_request parsed = Some first"
      "client_do net patterns [] first = (cs, res)"
    using assms by (auto simp: handleHTTPRPC_def Let_def split: option.splits if_splits sum.splits unit.splits prod.splits)
  have "u_Scheme (w_url parsed) \<noteq> []" using parsed(3) by auto
  from first_request [OF parsed(6,5) wire_parse_ok [OF parsed(1)] this parsed(2)]
  have "url_ok (w_url first)" "u_Scheme (w_url first) \<noteq> []" "\<exists>pat \<in> set patterns. names_target pat (w_url first)"
    using \<open>u_Scheme (w_url parsed) \<noteq> []\<close> by simp_all
  then show thesis using client_contacts [OF parsed(7)] parsed(3,4) by (intro that) auto
qed


text \<open>
  C21: An HTTP request of a paired app stays with what the app declared: every request that goes out,
  the first one and each redirect, is for a URL whose scheme and host are those of a pattern in the
  identity's connect list (an empty port aside), and at most ten go out. The check works on the text of a
  URL, the connection on the URL itself: the two name the same host.
\<close>

theorem http_requests_stay_on_the_list:
  assumes "handleHTTPRPC env (Some a) request d = (cs, d', r)" "sa_keyID a \<noteq> []"
  shows "length cs \<le> 10 \<and> (\<exists>scheme \<in> {''http'', ''https''}. \<forall>(w, ip) \<in> set cs.
           \<exists>patterns. map_of (sa_connect a) scheme = Some patterns \<and> (\<exists>pat \<in> set patterns. names_target pat (w_url w)))"
proof (cases "cs = []")
  case False
  from assms(1) this obtain scheme options patterns where s: "scheme \<in> {''http'', ''https''}"
      "httpAllowlistFor (Some a) scheme options = Inr patterns"
      "length cs \<le> 10" "\<forall>(w, ip) \<in> set cs. \<exists>pat \<in> set patterns. names_target pat (w_url w)"
    by (rule service_contacts)
  then have "map_of (sa_connect a) scheme = Some patterns"
    using assms(2) by (auto simp: httpAllowlistFor_def Let_def split: if_splits option.splits)
  then show ?thesis using s by auto
qed auto

definition sample_net :: http_net where
  "sample_net = \<lparr>hn_resolve = (\<lambda>_. Inr [map_v4 [169, 254, 169, 254]]), hn_dial = (\<lambda>_ _. None), hn_ascii = id,
     hn_proxy = (\<lambda>_. None),
     hn_answer = (\<lambda>n w ip. if n = 0 then Moved ''/b'' else Broken ''connection reset'')\<rparr>"

definition sample_http_env :: http_env where
  "sample_http_env = \<lparr>he_sprint = (\<lambda>_. []), he_ovf = (\<lambda>_. 0), he_net = (\<lambda>_. sample_net), he_random = ''42'',
     he_copy_fault = None, he_close_fault = None, he_rename_fault = None\<rparr>"

definition sample_fetch :: message where
  "sample_fetch = blank_message\<lparr>m_Method := ''request'', m_Args := [ObjV [(''url'', StrV ''http://a/a'')]]\<rparr>"

definition sample_paired :: socketAuthentication where
  "sample_paired = no_auth\<lparr>sa_keyID := ''k'', sa_connect := [(''http'', [''http://a/''])]\<rparr>"

definition sample_http_disk :: disk where
  "sample_http_disk = \<lparr>dk_names = [(''/'', DirAt)], dk_data = (\<lambda>_. []), dk_fresh = 0\<rparr>"

definition sample_target :: wire_url where
  "sample_target = \<lparr>w_url = empty_url\<lparr>u_Scheme := ''http'', u_Host := ''a'', u_Path := ''/a''\<rparr>, w_RawPath = [], w_User = None,
     w_OmitHost = False, w_ForceQuery = False, w_RawFragment = []\<rparr>"

lemma sample_runs:
  "wire_parse ''http://a/a'' = Some sample_target" "new_request sample_target = Some sample_target"
  "assertHTTPTargetAllowed sample_target [''http://a/''] = Inr ()"
  "length (fst (client_do sample_net [''http://a/''] [] sample_target)) = 2"
  by code_simp+

definition sample_contacts :: contacts where
  "sample_contacts = fst (client_do sample_net [''http://a/''] [] sample_target)"

lemma sample_call:
  "\<exists>d' r. handleHTTPRPC sample_http_env (Some sample_paired) sample_fetch sample_http_disk = (sample_contacts, d', r)"
proof -
  obtain r where "client_do sample_net [''http://a/''] [] sample_target = (sample_contacts, r)"
    unfolding sample_contacts_def by (metis prod.collapse)
  moreover have "httpAllowlistFor (Some sample_paired) ''http'' options = Inr [''http://a/'']" for options
    by (simp add: httpAllowlistFor_def sample_paired_def)
  moreover have "u_Scheme (w_url sample_target) = ''http''" "u_Host (w_url sample_target) = ''a''"
    by (simp_all add: sample_target_def)
  ultimately show ?thesis
    by (cases r) (auto simp: handleHTTPRPC_def sample_http_env_def sample_fetch_def ObjectArg_def as_obj_def obj_get_def
        StringValue_def to_upper_def sample_runs blank_message_def Let_def)
qed

lemma http_requests_stay_on_the_list_witness:
  "length sample_contacts = 2 \<and> names_target ''http://a/'' (w_url (fst (sample_contacts ! 1)))"
proof -
  obtain d' r where run: "handleHTTPRPC sample_http_env (Some sample_paired) sample_fetch sample_http_disk = (sample_contacts, d', r)"
    using sample_call by blast
  have two: "length sample_contacts = 2" unfolding sample_contacts_def by (rule sample_runs)
  obtain w ip where contact: "sample_contacts ! 1 = (w, ip)" by (cases "sample_contacts ! 1")
  then have "(w, ip) \<in> set sample_contacts" using two nth_mem [of 1 sample_contacts] by simp
  moreover have "sa_keyID sample_paired \<noteq> []" by (simp add: sample_paired_def)
  ultimately have "names_target ''http://a/'' (w_url w)"
    using http_requests_stay_on_the_list [OF run] by (force simp: sample_paired_def split: if_splits)
  then show ?thesis using two contact by simp
qed

text \<open>
  The check of addresses at dial time never refuses a destination that passed the check of the URL:
  the URL's host is then named by a pattern, and a named host may be any address. Whatever address the
  resolver gives for a declared host, a loopback, private or link-local one included, is dialled when it
  answers, so a declared public name that resolves to such an address reaches it.
\<close>

theorem declared_hosts_skip_the_address_check:
  assumes "assertHTTPTargetAllowed w patterns = Inr ()" "url_ok (w_url w)" "u_Scheme (w_url w) \<noteq> []" "u_Host (w_url w) \<noteq> []"
    and "split_host_port address = Some (url_hostname (w_url w), port)"
    and "hn_resolve net (url_hostname (w_url w)) = Inr (ip # others)" "hn_dial net ip port = None"
  shows "safeHTTPTransport net patterns address = Inr ip"
proof -
  obtain pat p where p: "pat \<in> set patterns" "url_parse pat = Some p" "u_Host p = u_Host (w_url w)"
    by (rule allowed_target [OF assms(1-4)])
  then have "url_hostname p = url_hostname (w_url w)" by (simp add: url_hostname_def)
  then have "hostNamedByAllowlist (url_hostname (w_url w)) patterns"
    using p by (auto simp: hostNamedByAllowlist_def intro!: bexI [of _ pat])
  then show ?thesis using assms(5-7) by (simp add: safeHTTPTransport_def)
qed

lemma declared_hosts_skip_the_address_check_witness:
  "restrictedDialIP (Some (map_v4 [169, 254, 169, 254]))
   \<and> safeHTTPTransport sample_net [''http://a/''] (dialled_address sample_net sample_target) = Inr (map_v4 [169, 254, 169, 254])"
proof (intro conjI)
  show "restrictedDialIP (Some (map_v4 [169, 254, 169, 254]))" by code_simp
  show "safeHTTPTransport sample_net [''http://a/''] (dialled_address sample_net sample_target) = Inr (map_v4 [169, 254, 169, 254])"
  proof (rule declared_hosts_skip_the_address_check)
    show "assertHTTPTargetAllowed sample_target [''http://a/''] = Inr ()" by code_simp
    show "url_ok (w_url sample_target)" by code_simp
    show "u_Scheme (w_url sample_target) \<noteq> []" by code_simp
    show "u_Host (w_url sample_target) \<noteq> []" by code_simp
    show "split_host_port (dialled_address sample_net sample_target) = Some (url_hostname (w_url sample_target), ''80'')" by code_simp
    show "hn_resolve sample_net (url_hostname (w_url sample_target)) = Inr [map_v4 [169, 254, 169, 254]]"
      "hn_dial sample_net (map_v4 [169, 254, 169, 254]) ''80'' = None" by (simp_all add: sample_net_def)
  qed
qed

text \<open>Behind a proxy the agent resolves and checks the proxy's name, never the target's.\<close>

lemma proxied_targets_are_not_resolved:
  assumes "hn_proxy net w = Some proxy" "hn_proxy net' w = Some proxy" "hn_dial net = hn_dial net'"
    and "\<And>host port. split_host_port proxy = Some (host, port) \<Longrightarrow> hn_resolve net host = hn_resolve net' host"
  shows "safeHTTPTransport net patterns (dialled_address net w) = safeHTTPTransport net' patterns (dialled_address net' w)"
proof -
  have "dial_loop net named host port as failure = dial_loop net' named host port as failure" for named host port as failure
    by (induction "as" arbitrary: failure) (auto simp: assms(3) split: option.splits)
  then show ?thesis using assms(1,2,4) by (auto simp: dialled_address_def safeHTTPTransport_def split: option.splits sum.splits)
qed

subsection \<open>Times and sizes\<close>

lemma http_timeout_bounds:
  "Second \<le> http_timeout ovf method options \<and> http_timeout ovf method options \<le> (if method = ''download'' then 600 else 60) * Second"
  by (auto simp: http_timeout_def Let_def Second_def)

lemma responses_are_bounded:
  "http_respond options r w = Inr (Responded status ok url headers data binary) \<Longrightarrow>
   data = hr_Body r \<and> int (length data) \<le> response_limit binary"
  by (auto simp: http_respond_def Let_def response_limit_def split: if_splits any.splits)


subsection \<open>Downloads\<close>

definition same_files :: "disk \<Rightarrow> disk \<Rightarrow> bool" where
  "same_files d d' \<longleftrightarrow> (\<forall>p. disk_read d' p = disk_read d p)"

lemma adds_dirs_read: "adds_dirs d d' \<Longrightarrow> disk_read d' p = disk_read d p"
  unfolding adds_dirs_def disk_read_def by (elim conjE allE [of _ p] disjE) (simp_all cong: option.case_cong disk_entry.case_cong)

text \<open>A file made under a free name, filled, and either removed again or renamed.\<close>

lemma disk_ok_data: "disk_ok d \<Longrightarrow> n \<ge> dk_fresh d \<Longrightarrow> map_of (dk_names d) p \<noteq> Some (FileAt n)"
  unfolding disk_ok_def using not_le by blast

lemma fresh_file:
  assumes "disk_ok d" "map_of (dk_names d) t = None" "disk_create t d = Inr (n, d1)"
  shows "n = dk_fresh d" "map_of (dk_names (disk_write n 0 data d1)) = (map_of (dk_names d))(t \<mapsto> FileAt n)"
    and "dk_data (disk_write n 0 data d1) = (dk_data d)(n := data)"
  using assms by (auto simp: disk_create_def Let_def pwrite_def fun_eq_iff split: if_splits)

lemma temporary_removed:
  assumes "disk_ok d" "map_of (dk_names d) t = None" "disk_create t d = Inr (n, d1)"
  shows "disk_read (disk_remove t (disk_write n 0 data d1)) p = disk_read d p"
  using fresh_file [OF assms] assms(2) disk_ok_data [OF assms(1), of n p]
  by (auto simp: disk_read_def split: option.splits disk_entry.splits)

lemma temporary_renamed:
  assumes "disk_ok d" "map_of (dk_names d) t = None" "disk_create t d = Inr (n, d1)"
    and "rename_file t q (disk_write n 0 data d1) = Inr d2" "t \<noteq> q"
  shows "disk_read (disk_remove t d2) p = (if p = q then Some data else disk_read d p)"
  using fresh_file [OF assms(1-3)] assms(2,4,5) disk_ok_data [OF assms(1), of n p]
  by (auto simp: disk_read_def rename_file_def split: option.splits disk_entry.splits if_splits)

text \<open>
  A download is all or nothing. When the agent reports one, the target holds the whole body of the
  response, which arrived without an error and within the limit, and every other file reads as before; when
  it reports an error, whichever it is, every file reads as before and the target is not touched.
\<close>

theorem downloads_are_whole_or_nothing:
  assumes "http_download env options r w d = (d', res)" "disk_ok d"
    and "target = StringValue (he_sprint env) (obj_get options ''targetPath'')"
    and "path_join (path_dir target) (''.download-'' @ he_random env) \<noteq> path_clean target"
  shows "case res of
           Inl e \<Rightarrow> same_files d d'
         | Inr reply \<Rightarrow> disk_read d' (path_clean target) = Some (hr_Body r)
             \<and> int (length (hr_Body r)) \<le> download_limit env options \<and> hr_Fault r = None
             \<and> (\<forall>p. p \<noteq> path_clean target \<longrightarrow> disk_read d' p = disk_read d p)"
proof -
  let ?t = "path_join (path_dir target) (''.download-'' @ he_random env)"
  let ?data = "take (nat (download_limit env options + 1)) (hr_Body r)"
  consider "d' = d" "\<exists>e. res = Inl e" | d1 where "disk_mkdir_all (path_dir target) d = Inr d1" "d' = d1" "\<exists>e. res = Inl e"
    | d1 n d2 where "disk_mkdir_all (path_dir target) d = Inr d1" "map_of (dk_names d1) ?t = None" "disk_create ?t d1 = Inr (n, d2)"
        "d' = disk_remove ?t (disk_write n 0 ?data d2)" "\<exists>e. res = Inl e"
    | d1 n d2 d4 rep where "disk_mkdir_all (path_dir target) d = Inr d1" "map_of (dk_names d1) ?t = None" "disk_create ?t d1 = Inr (n, d2)"
        "rename_file ?t (path_clean target) (disk_write n 0 ?data d2) = Inr d4" "d' = disk_remove ?t d4" "res = Inr rep"
        "hr_Fault r = None \<or> int (length (hr_Body r)) > download_limit env options" "int (length ?data) \<le> download_limit env options"
    using assms(1) unfolding http_download_def Let_def assms(3) [symmetric]
    by (auto split: if_splits sum.splits prod.splits option.splits)
  then show ?thesis
  proof cases
    case 1
    then show ?thesis by (auto simp: same_files_def)
  next
    case 2
    then show ?thesis using adds_dirs_read [OF mkdir_all_adds [OF 2(1)]] by (auto simp: same_files_def)
  next
    case 3
    have "disk_ok d1" using 3(1) assms(2) by (auto simp: disk_mkdir_all_def intro: disk_ok_make_dirs)
    then show ?thesis using 3(5) temporary_removed [OF _ 3(2,3)] adds_dirs_read [OF mkdir_all_adds [OF 3(1)]]
      by (auto simp: same_files_def 3(4))
  next
    case 4
    have "disk_ok d1" using 4(1) assms(2) by (auto simp: disk_mkdir_all_def intro: disk_ok_make_dirs)
    note read = temporary_renamed [OF this 4(2,3,4) assms(4)]
    have "0 \<le> download_limit env options" by (simp add: download_limit_def Let_def MaxDownloadBytes_def)
    then have "int (length (hr_Body r)) \<le> download_limit env options" using 4(8) by (auto simp: min_def split: if_splits)
    moreover from this have "?data = hr_Body r" by simp
    ultimately show ?thesis using 4(5-7) read adds_dirs_read [OF mkdir_all_adds [OF 4(1)]] by auto
  qed
qed


definition sample_download :: obj where
  "sample_download = [(''targetPath'', StrV ''/x''), (''maxBytes'', NumV 5)]"

definition sample_body :: http_response where
  "sample_body = \<lparr>hr_Status = 200, hr_Headers = [], hr_Body = [1, 2], hr_Fault = None\<rparr>"

lemma downloads_are_whole_or_nothing_witness:
  "disk_read (fst (http_download sample_http_env sample_download sample_body sample_target sample_http_disk)) ''/x'' = Some [1, 2]"
proof -
  let ?run = "http_download sample_http_env sample_download sample_body sample_target sample_http_disk"
  have res: "snd ?run = Inr (Downloaded 200 ''http://a/a'' [] 2 ''/x'')" by code_simp
  have "case snd ?run of
           Inl e \<Rightarrow> same_files sample_http_disk (fst ?run)
         | Inr reply \<Rightarrow> disk_read (fst ?run) (path_clean ''/x'') = Some (hr_Body sample_body)
             \<and> int (length (hr_Body sample_body)) \<le> download_limit sample_http_env sample_download \<and> hr_Fault sample_body = None
             \<and> (\<forall>p. p \<noteq> path_clean ''/x'' \<longrightarrow> disk_read (fst ?run) p = disk_read sample_http_disk p)"
  proof (rule downloads_are_whole_or_nothing)
    show "?run = (fst ?run, snd ?run)" by simp
    show "disk_ok sample_http_disk" by (auto simp: disk_ok_def sample_http_disk_def well_keyed_def split: if_splits)
    show "''/x'' = StringValue (he_sprint sample_http_env) (obj_get sample_download ''targetPath'')" by code_simp
    show "path_join (path_dir ''/x'') (''.download-'' @ he_random sample_http_env) \<noteq> path_clean ''/x''" by code_simp
  qed
  moreover have "path_clean ''/x'' = ''/x''" by code_simp
  ultimately show ?thesis unfolding res by (simp add: sample_body_def)
qed

end
