(* ===== verification/File_Imports.thy ===== *)
theory File_Imports
  imports Any_Value Frames Disk
begin

text \<open>
  Files an app hands to the agent in chunks: imported files (\<open>shellagent/file_import.go\<close>) and the files of
  the clipboard (the file half of \<open>shellagent/clipboard.go\<close>). Both keep one directory per app in the
  state directory, and an app names a file by its SHA-256 digest and its name.
\<close>

record import_env =
  im_root :: string \<comment> \<open>the state directory, a clean rooted path\<close>
  im_cwd :: string
  im_sprint :: "any \<Rightarrow> string"
  im_ovf :: "rat \<Rightarrow> int"
  im_unb64 :: "string \<Rightarrow> bytes option"
  im_fault :: "string option" \<comment> \<open>why the operating system refuses, apart from what the disk says\<close>

datatype import_reply =
    Allocated string string int string bool \<comment> \<open>path, name, size, MIME type, existing\<close>
  | ChunkWritten string int int \<comment> \<open>path, offset, bytes\<close>

definition maxImportedFileBytes :: int where
  "maxImportedFileBytes = 67108864"

definition importDigestPattern :: "string \<Rightarrow> bool" where
  "importDigestPattern s \<longleftrightarrow> length s = 64 \<and> list_all (\<lambda>c. is_digit c \<or> CHR ''a'' \<le> c \<and> c \<le> CHR ''f'') s"

definition file_name_arg :: "(any \<Rightarrow> string) \<Rightarrow> obj \<Rightarrow> string" where
  "file_name_arg sprint v = path_base (filter (\<lambda>c. c \<noteq> CHR 0x00) (StringValue sprint (obj_get v ''name'')))"

definition metadata_ok :: "string \<Rightarrow> string \<Rightarrow> int \<Rightarrow> bool" where
  "metadata_ok name digest n \<longleftrightarrow>
     name \<notin> {[], ''.'', ''/''} \<and> importDigestPattern digest \<and> 0 \<le> n \<and> n \<le> maxImportedFileBytes"

subsection \<open>The two halves that both services share\<close>

text \<open>A file of the wanted size is taken for the wanted file; otherwise an empty one is made.\<close>

definition allocate_in :: "import_env \<Rightarrow> string \<Rightarrow> string \<Rightarrow> string \<Rightarrow> int \<Rightarrow> string \<Rightarrow> disk \<Rightarrow> disk \<times> (string + import_reply)" where
  "allocate_in env directory name digest n mime d =
     (let path = path_join directory (take 16 digest @ ''-'' @ name)
      in case disk_stat d path of
           Some info \<Rightarrow>
             if fi_Size info = n then (d, Inr (Allocated path name n mime True))
             else (case im_fault env of
                     Some e \<Rightarrow> (d, Inl e)
                   | None \<Rightarrow> (case disk_create path d of Inl e \<Rightarrow> (d, Inl e) | Inr (_, d') \<Rightarrow> (d', Inr (Allocated path name n mime False))))
         | None \<Rightarrow>
             (case im_fault env of
                Some e \<Rightarrow> (d, Inl e)
              | None \<Rightarrow> (case disk_create path d of Inl e \<Rightarrow> (d, Inl e) | Inr (_, d') \<Rightarrow> (d', Inr (Allocated path name n mime False)))))"

definition write_at_path :: "import_env \<Rightarrow> string \<Rightarrow> int \<Rightarrow> bytes \<Rightarrow> disk \<Rightarrow> disk \<times> (string + import_reply)" where
  "write_at_path env path offset raw d =
     (case im_fault env of
        Some e \<Rightarrow> (d, Inl e)
      | None \<Rightarrow>
          (case disk_open path d of
             Inl e \<Rightarrow> (d, Inl e)
           | Inr n \<Rightarrow> (disk_write n (nat offset) raw d, Inr (ChunkWritten path offset (int (length raw))))))"

subsection \<open>Imported files\<close>

definition import_directory :: "import_env \<Rightarrow> string \<Rightarrow> string" where
  "import_directory env appID = path_join (path_join (im_root env) ''file-imports'') (SafeName appID)"

definition writeImportedFileChunk :: "import_env \<Rightarrow> message \<Rightarrow> disk \<Rightarrow> disk \<times> (string + import_reply)" where
  "writeImportedFileChunk env request d =
     (let offset = NumberArg (m_Args request) 1 0 maxImportedFileBytes
      in case im_unb64 env (StringArg (m_Args request) 2) of
           None \<Rightarrow> (d, Inl ''imported file chunk is invalid'')
         | Some raw \<Rightarrow>
             if length raw > 245760 then (d, Inl ''imported file chunk is invalid'')
             else
               (let absolute = path_abs (im_cwd env) (StringArg (m_Args request) 0)
                in case path_rel (import_directory env (m_AppID request)) absolute of
                     None \<Rightarrow> (d, Inl ''imported file path is outside app state'')
                   | Some relative \<Rightarrow>
                       if \<not> rel_inside relative then (d, Inl ''imported file path is outside app state'')
                       else
                         (case disk_open absolute d of
                            Inl e \<Rightarrow> (d, Inl e)
                          | Inr _ \<Rightarrow>
                              if offset + int (length raw) > maxImportedFileBytes then (d, Inl ''imported file exceeds the size limit'')
                              else write_at_path env absolute offset raw d)))"

definition handleFileImportRPC :: "import_env \<Rightarrow> message \<Rightarrow> disk \<Rightarrow> disk \<times> (string + import_reply)" where
  "handleFileImportRPC env request d =
     (if m_Method request = ''write'' then writeImportedFileChunk env request d
      else if m_Method request \<noteq> ''allocate'' then (d, Inl ''unsupported file-import method'')
      else
        (let v = ObjectArg (m_Args request) 0; name = file_name_arg (im_sprint env) v;
             digest = to_lower (StringValue (im_sprint env) (obj_get v ''digest'')); n = integer64 (im_ovf env) (obj_get v ''size'')
         in if \<not> metadata_ok name digest n then (d, Inl ''imported file metadata is invalid'')
            else
              (case disk_mkdir_all (import_directory env (m_AppID request)) d of
                 Inl e \<Rightarrow> (d, Inl e)
               | Inr d' \<Rightarrow>
                   allocate_in env (import_directory env (m_AppID request)) name digest n
                     (StringValue (im_sprint env) (obj_get v ''mimeType'')) d')))"

subsection \<open>Clipboard files\<close>

definition clipboardDirectory :: "import_env \<Rightarrow> string \<Rightarrow> string" where
  "clipboardDirectory env appID =
     (let name = SafeName appID
      in path_join (path_join (im_root env) ''clipboard-files'') (if name = [] then ''app'' else name))"

definition ownedClipboardPath :: "import_env \<Rightarrow> string \<Rightarrow> string \<Rightarrow> disk \<Rightarrow> disk \<times> (string + string)" where
  "ownedClipboardPath env appID path d =
     (case disk_mkdir_all (clipboardDirectory env appID) d of
        Inl e \<Rightarrow> (d, Inl e)
      | Inr d' \<Rightarrow>
          (let absolute = path_abs (im_cwd env) path
           in case path_rel (clipboardDirectory env appID) absolute of
                None \<Rightarrow> (d', Inl ''clipboard file path is outside app state'')
              | Some relative \<Rightarrow>
                  if rel_inside relative then (d', Inr absolute) else (d', Inl ''clipboard file path is outside app state'')))"

definition allocateClipboardFile :: "import_env \<Rightarrow> message \<Rightarrow> disk \<Rightarrow> disk \<times> (string + import_reply)" where
  "allocateClipboardFile env request d =
     (let v = ObjectArg (m_Args request) 0; name = file_name_arg (im_sprint env) v;
          digest = to_lower (StringValue (im_sprint env) (obj_get v ''digest'')); n = integer64 (im_ovf env) (obj_get v ''size'')
      in if \<not> metadata_ok name digest n then (d, Inl ''clipboard file metadata is invalid'')
         else
           (case disk_mkdir_all (clipboardDirectory env (m_AppID request)) d of
              Inl e \<Rightarrow> (d, Inl e)
            | Inr d' \<Rightarrow>
                allocate_in env (clipboardDirectory env (m_AppID request)) name digest n
                  (StringValue (im_sprint env) (obj_get v ''mimeType'')) d'))"

definition writeClipboardFileChunk :: "import_env \<Rightarrow> message \<Rightarrow> disk \<Rightarrow> disk \<times> (string + import_reply)" where
  "writeClipboardFileChunk env request d =
     (case ownedClipboardPath env (m_AppID request) (StringArg (m_Args request) 0) d of
        (d', Inl e) \<Rightarrow> (d', Inl e)
      | (d', Inr path) \<Rightarrow>
          (let offset = NumberArg (m_Args request) 1 0 maxImportedFileBytes
           in case im_unb64 env (StringArg (m_Args request) 2) of
                None \<Rightarrow> (d', Inl ''clipboard file chunk is invalid'')
              | Some raw \<Rightarrow>
                  if length raw > 245760 then (d', Inl ''clipboard file chunk is invalid'')
                  else if offset + int (length raw) > maxImportedFileBytes then (d', Inl ''clipboard file exceeds the size limit'')
                  else write_at_path env path offset raw d'))"

text \<open>The paths handed to the platform's clipboard; the platform's answer is the fault of the environment.\<close>

fun owned_paths :: "import_env \<Rightarrow> string \<Rightarrow> any list \<Rightarrow> disk \<Rightarrow> disk \<times> (string + string list)" where
  "owned_paths env appID [] d = (d, Inr [])"
| "owned_paths env appID (v # vs) d =
     (case ownedClipboardPath env appID (StringValue (im_sprint env) v) d of
        (d1, Inl e) \<Rightarrow> (d1, Inl e)
      | (d1, Inr path) \<Rightarrow>
          if disk_stat d1 path = None then (d1, Inl ''no such file or directory'')
          else (case owned_paths env appID vs d1 of
                  (d2, Inl e) \<Rightarrow> (d2, Inl e)
                | (d2, Inr paths) \<Rightarrow> (d2, Inr (path # paths))))"

definition publishClipboardFiles :: "import_env \<Rightarrow> message \<Rightarrow> disk \<Rightarrow> disk \<times> (string + string list)" where
  "publishClipboardFiles env request d =
     (let vs = SliceArg (m_Args request) 0
      in if vs = [] \<or> length vs > 32 then (d, Inl ''clipboard.writeFiles requires between 1 and 32 files'')
         else
           (case owned_paths env (m_AppID request) vs d of
              (d', Inl e) \<Rightarrow> (d', Inl e)
            | (d', Inr paths) \<Rightarrow> (case im_fault env of Some e \<Rightarrow> (d', Inl e) | None \<Rightarrow> (d', Inr paths))))"

text \<open>The script that puts the files on the clipboard of macOS.\<close>

fun replace_char :: "char \<Rightarrow> string \<Rightarrow> string \<Rightarrow> string" where
  "replace_char c by [] = []"
| "replace_char c by (x # xs) = (if x = c then by else [x]) @ replace_char c by xs"

definition appleScriptString :: "string \<Rightarrow> string" where
  "appleScriptString s =
     CHR 0x22 # replace_char (CHR 0x22) [CHR 0x5C, CHR 0x22] (replace_char (CHR 0x5C) [CHR 0x5C, CHR 0x5C] s) @ [CHR 0x22]"

fun join_with :: "string \<Rightarrow> string list \<Rightarrow> string" where
  "join_with sep [] = []"
| "join_with sep [x] = x"
| "join_with sep (x # xs) = x @ sep @ join_with sep xs"

definition macClipboardScript :: "string list \<Rightarrow> string" where
  "macClipboardScript paths =
     (if length paths = 1 then ''set the clipboard to POSIX file '' @ appleScriptString (hd paths)
      else ''set the clipboard to {'' @ join_with '', '' (map (\<lambda>p. ''POSIX file '' @ appleScriptString p) paths) @ ''}'')"

end
