(* ===== verification/Chunk_Store.thy ===== *)
theory Chunk_Store
  imports Disk
begin

text \<open>
  The contract of a file that is written in chunks, which imported files, clipboard promises and the
  filesystem service share: a chunk overwrites its place in the file and nothing else. A client that
  writes pieces of a content until all of it is covered gets that content, whatever the order of the
  pieces and however often one is sent.
\<close>

text \<open>A piece of the content: where it goes and its bytes.\<close>

definition piece_of :: "bytes \<Rightarrow> nat \<times> bytes \<Rightarrow> bool" where
  "piece_of content w \<longleftrightarrow> snd w \<noteq> [] \<and> take (length (snd w)) (drop (fst w) content) = snd w"

definition covered :: "(nat \<times> bytes) list \<Rightarrow> nat set" where
  "covered ws = (\<Union>w \<in> set ws. {fst w ..< fst w + length (snd w)})"

definition write_pieces :: "(nat \<times> bytes) list \<Rightarrow> bytes \<Rightarrow> bytes" where
  "write_pieces ws data = fold (\<lambda>w data. pwrite data (fst w) (snd w)) ws data"

lemma piece_of_fits: "piece_of content w \<Longrightarrow> fst w + length (snd w) \<le> length content"
  unfolding piece_of_def by (cases "snd w") (auto dest!: arg_cong [where f = length])

lemma piece_of_nth: "piece_of content w \<Longrightarrow> i < length (snd w) \<Longrightarrow> snd w ! i = content ! (fst w + i)"
proof -
  assume a: "piece_of content w" "i < length (snd w)"
  then have "snd w ! i = take (length (snd w)) (drop (fst w) content) ! i" by (simp add: piece_of_def)
  then show ?thesis using a piece_of_fits [OF a(1)] by simp
qed

lemma pwrite_nth: "j < length raw \<Longrightarrow> pwrite data offset raw ! (offset + j) = raw ! j"
proof -
  assume j: "j < length raw"
  have "length (take offset (data @ replicate (offset - length data) 0)) = offset" by simp
  then show ?thesis using j unfolding pwrite_def by (auto simp: nth_append simp del: take_append)
qed

lemma pwrite_piece_nth:
  assumes "piece_of content w" "i \<in> K \<longrightarrow> data ! i = content ! i"
    and "i \<in> K \<union> {fst w ..< fst w + length (snd w)}" "K \<subseteq> {..< length data}"
  shows "pwrite data (fst w) (snd w) ! i = content ! i"
proof (cases "i \<in> {fst w ..< fst w + length (snd w)}")
  case True
  then obtain j where "i = fst w + j" "j < length (snd w)" by (auto simp: le_iff_add)
  then show ?thesis using piece_of_nth [OF assms(1)] by (simp add: pwrite_nth)
next
  case False
  then have "i \<in> K" "i < length data" using assms(3,4) by auto
  then show ?thesis using False assms(2) pwrite_elsewhere [of i data "fst w" "snd w"] by auto
qed

lemma pieces_invariant:
  assumes "\<forall>w \<in> set ws. piece_of content w" "length data \<le> length content"
    and "\<forall>i \<in> K. data ! i = content ! i" "K \<subseteq> {..< length data}"
  shows "length (write_pieces ws data) \<le> length content \<and> K \<union> covered ws \<subseteq> {..< length (write_pieces ws data)}
    \<and> (\<forall>i \<in> K \<union> covered ws. write_pieces ws data ! i = content ! i)"
  using assms
proof (induction ws arbitrary: data K)
  case Nil
  then show ?case by (simp add: write_pieces_def covered_def)
next
  case (Cons w ws)
  let ?data = "pwrite data (fst w) (snd w)" and ?K = "K \<union> {fst w ..< fst w + length (snd w)}"
  have w: "piece_of content w" and fits: "fst w + length (snd w) \<le> length content" "snd w \<noteq> []"
    using Cons.prems(1) piece_of_fits [of content w] by (auto simp: piece_of_def)
  have len: "length ?data \<le> length content" "?K \<subseteq> {..< length ?data}"
    using Cons.prems(2,4) fits by (auto simp: length_pwrite)
  have "\<forall>i \<in> ?K. ?data ! i = content ! i"
    using pwrite_piece_nth [OF w _ _ Cons.prems(4)] Cons.prems(3) by simp
  moreover have "\<forall>w \<in> set ws. piece_of content w" using Cons.prems(1) by simp
  ultimately have "length (write_pieces ws ?data) \<le> length content \<and> ?K \<union> covered ws \<subseteq> {..< length (write_pieces ws ?data)}
      \<and> (\<forall>i \<in> ?K \<union> covered ws. write_pieces ws ?data ! i = content ! i)"
    using Cons.IH [of ?data ?K] len by blast
  moreover have "write_pieces (w # ws) data = write_pieces ws ?data" by (simp add: write_pieces_def)
  moreover have "?K \<union> covered ws = K \<union> covered (w # ws)" by (auto simp: covered_def)
  ultimately show ?case by simp
qed

text \<open>All pieces of a content, in any order, make the content.\<close>

lemma pieces_complete:
  assumes "\<forall>w \<in> set ws. piece_of content w" "covered ws = {..< length content}"
  shows "write_pieces ws [] = content"
proof -
  have "length (write_pieces ws []) \<le> length content \<and> covered ws \<subseteq> {..< length (write_pieces ws [])}
      \<and> (\<forall>i \<in> covered ws. write_pieces ws [] ! i = content ! i)"
    using pieces_invariant [OF assms(1), of "[]" "{}"] by simp
  then show ?thesis using assms(2) by (intro nth_equalityI) (auto simp: lessThan_subset_iff)
qed

locale chunk_store =
  fixes put :: "nat \<Rightarrow> bytes \<Rightarrow> 's \<Rightarrow> 's"
    and content :: "'s \<Rightarrow> bytes option"
    and accepts :: "nat \<Rightarrow> bytes \<Rightarrow> bool"
  assumes put_content: "content s = Some data \<Longrightarrow> accepts offset raw \<Longrightarrow> content (put offset raw s) = Some (pwrite data offset raw)"
begin

lemma puts_content:
  "content s = Some data \<Longrightarrow> \<forall>w \<in> set ws. accepts (fst w) (snd w) \<Longrightarrow>
   content (fold (\<lambda>w. put (fst w) (snd w)) ws s) = Some (write_pieces ws data)"
  by (induction ws arbitrary: s data) (auto simp: write_pieces_def put_content)

lemma puts_complete:
  assumes "content s = Some []" "\<forall>w \<in> set ws. accepts (fst w) (snd w) \<and> piece_of whole w" "covered ws = {..< length whole}"
  shows "content (fold (\<lambda>w. put (fst w) (snd w)) ws s) = Some whole"
  using assms puts_content [of s "[]" ws] pieces_complete [of ws whole] by simp

lemma put_reads_back:
  "content s = Some data \<Longrightarrow> accepts offset raw \<Longrightarrow>
   map_option (\<lambda>data. take (length raw) (drop offset data)) (content (put offset raw s)) = Some raw"
  by (simp add: put_content pwrite_reads_back)

end

end
