(* ===== verification/Import_Properties.thy ===== *)
theory Import_Properties
  imports File_Imports Chunk_Store Relay_Properties
begin

text \<open>
  Imported and clipboard files: an app with an ordinary id reaches only its own directory, chunks in any
  order make the file, and what the code does when the id is not ordinary or a file was only half
  written.
\<close>

subsection \<open>Directories\<close>

text \<open>A state directory: clean and rooted.\<close>

definition state_root :: "string list \<Rightarrow> import_env \<Rightarrow> bool" where
  "state_root rs env \<longleftrightarrow> list_all plain_part rs \<and> im_root env = print_path True rs"

lemma plain_literals [simp]: "plain_part ''file-imports''" "plain_part ''clipboard-files''" "plain_part ''app''"
  by (simp_all add: plain_part_def)

lemma safe_no_slash: "safe_char c \<Longrightarrow> c \<noteq> CHR ''/''"
  by (auto simp: safe_char_def is_digit_def is_upper_def is_lower_def less_eq_char_def)

lemma SafeName_plain: "SafeName s \<notin> {[], ''.'', ''..''} \<Longrightarrow> plain_part (SafeName s)"
  using SafeName_safe [of s] safe_no_slash by (auto simp: plain_part_def list_all_iff)

lemma import_directory_plain:
  "state_root rs env \<Longrightarrow> SafeName appID \<notin> {[], ''.'', ''..''} \<Longrightarrow>
   import_directory env appID = print_path True (rs @ [''file-imports'', SafeName appID])"
  using SafeName_plain [of appID]
  by (simp add: import_directory_def state_root_def join_plain_name)

lemma clipboard_directory_plain:
  "state_root rs env \<Longrightarrow> SafeName appID \<notin> {''.'', ''..''} \<Longrightarrow>
   clipboardDirectory env appID
     = print_path True (rs @ [''clipboard-files'', if SafeName appID = [] then ''app'' else SafeName appID])"
  using SafeName_plain [of appID]
  by (auto simp: clipboardDirectory_def state_root_def join_plain_name Let_def)

lemma join_parent:
  assumes "list_all plain_part ds" "plain_part name"
  shows "path_join (print_path True (ds @ [name])) ''..'' = print_path True ds"
proof -
  let ?p = "print_path True (ds @ [name])"
  have split: "split_on (CHR ''/'') (?p @ ''/..'') = split_on (CHR ''/'') ?p @ [''..'']"
    using split_on_snoc [of "CHR ''/''" "''..''" ?p] by simp
  have "rooted (?p @ ''/..'')" by (simp add: rooted_def print_path_def)
  moreover have "fold (push_part True) (split_on (CHR ''/'') ?p) [] = rev (ds @ [name])"
    using parts_print [of "ds @ [name]"] assms by (simp add: parts_of_def rev_swap)
  ultimately have "parts_of (?p @ ''/..'') = ds"
    using assms(2) by (simp add: parts_of_def split push_part_def plain_part_def)
  then show ?thesis using \<open>rooted (?p @ ''/..'')\<close> by (simp add: path_join_def path_clean_def print_path_def [of _ "ds @ [name]"])
qed

text \<open>The base of a path is one plain component, apart from four special names.\<close>

lemma after_last_no: "c \<notin> set (after_last c s)"
  by (auto simp: after_last_def dest: set_takeWhileD)

lemma path_base_slash: "CHR ''/'' \<in> set (path_base p) \<Longrightarrow> path_base p = ''/''"
  using after_last_no [of "CHR ''/''"] by (auto simp: path_base_def Let_def split: if_splits)

lemma short_dots: "16 < length x \<Longrightarrow> x \<notin> {[], ''.'', ''..''}"
  by auto

lemma stored_name_plain:
  assumes "metadata_ok name digest n" "name = path_base p"
  shows "plain_part (take 16 digest @ ''-'' @ name)"
proof -
  have "CHR ''/'' \<notin> set name" using assms path_base_slash [of p] by (auto simp: metadata_ok_def)
  moreover have "CHR ''/'' \<notin> set digest"
    using assms(1) by (auto simp: metadata_ok_def importDigestPattern_def list_all_iff is_digit_def less_eq_char_def)
  then have "CHR ''/'' \<notin> set (take 16 digest)" by (meson in_set_takeD)
  moreover have "16 < length (take 16 digest @ ''-'' @ name)"
    using assms(1) by (simp add: metadata_ok_def importDigestPattern_def)
  then have "take 16 digest @ ''-'' @ name \<notin> {[], ''.'', ''..''}"
    using short_dots by blast
  ultimately show ?thesis by (auto simp: plain_part_def)
qed

subsection \<open>What a request may touch\<close>

text \<open>A change of the disk below a directory: directories may be added on the way, and every file that is
  new or changed has a name below it.\<close>

definition changes_below :: "string list \<Rightarrow> disk \<Rightarrow> disk \<Rightarrow> bool" where
  "changes_below ds d d' \<longleftrightarrow>
     (\<forall>n. dk_data d' n \<noteq> dk_data d n \<longrightarrow>
        (\<exists>p. rooted p \<and> prefix ds (parts_of p) \<and> map_of (dk_names d') p = Some (FileAt n)))
   \<and> (\<forall>p n. map_of (dk_names d') p = Some (FileAt n) \<longrightarrow> map_of (dk_names d) p \<noteq> Some (FileAt n) \<longrightarrow>
        rooted p \<and> prefix ds (parts_of p))
   \<and> (\<forall>p. map_of (dk_names d) p \<noteq> None \<longrightarrow> map_of (dk_names d') p = map_of (dk_names d) p)"

lemma changes_below_refl [simp]: "changes_below ds d d"
  by (simp add: changes_below_def)

lemma changes_below_dirs: "adds_dirs d d' \<Longrightarrow> changes_below ds d d'"
  unfolding changes_below_def using adds_dirs_file [of d d'] by (auto simp: adds_dirs_def)

lemma changes_below_dirs_first:
  assumes "adds_dirs d d1" "changes_below ds d1 d2"
  shows "changes_below ds d d2"
proof -
  have "dk_data d1 = dk_data d" using assms(1) by (simp add: adds_dirs_def)
  moreover have "map_of (dk_names d) p \<noteq> None \<Longrightarrow> map_of (dk_names d1) p = map_of (dk_names d) p" for p
    using assms(1) unfolding adds_dirs_def by metis
  ultimately show ?thesis using assms(2) adds_dirs_file [OF assms(1)] by (simp add: changes_below_def)
qed

lemma changes_below_create:
  assumes "disk_create p d = Inr (n, d')" "rooted p" "prefix ds (parts_of p)"
  shows "changes_below ds d d'"
proof -
  have at: "map_of (dk_names d') p = Some (FileAt n)" using disk_create_at [OF assms(1)] by simp
  moreover have "map_of (dk_names d) p = None \<or> map_of (dk_names d) p = Some (FileAt n)"
    using assms(1) by (auto simp: disk_create_def split: option.splits disk_entry.splits)
  ultimately show ?thesis
    using disk_create_others [OF assms(1)] assms(2,3) unfolding changes_below_def by metis
qed

lemma changes_below_write:
  "map_of (dk_names d) p = Some (FileAt n) \<Longrightarrow> rooted p \<Longrightarrow> prefix ds (parts_of p) \<Longrightarrow> changes_below ds d (disk_write n offset raw d)"
  by (auto simp: changes_below_def)

lemma disk_open_at: "disk_open p d = Inr n \<longleftrightarrow> map_of (dk_names d) p = Some (FileAt n)"
  by (auto simp: disk_open_def split: option.splits disk_entry.splits)

lemma write_at_path_below:
  "write_at_path env p offset raw d = (d', result) \<Longrightarrow> rooted p \<Longrightarrow> prefix ds (parts_of p) \<Longrightarrow> changes_below ds d d'"
  by (auto simp: write_at_path_def disk_open_at split: option.splits sum.splits intro: changes_below_write)

lemma allocate_in_below:
  assumes "allocate_in env (print_path True ds) name digest n mime d = (d', result)" "list_all plain_part ds"
    and "metadata_ok name digest n" "name = path_base q"
  shows "changes_below ds d d'"
proof -
  let ?s = "take 16 digest @ CHR ''-'' # name"
  have s: "plain_part ?s" using stored_name_plain [OF assms(3,4)] by simp
  have path: "path_join (print_path True ds) ?s = print_path True (ds @ [?s])" by (rule join_plain_name [OF assms(2) s])
  have "prefix ds (parts_of (print_path True (ds @ [?s])))" using assms(2) s by simp
  then show ?thesis using assms(1)
    by (auto simp: allocate_in_def path [simplified] Let_def split: option.splits sum.splits if_splits prod.splits
        intro: changes_below_create [of "print_path True (ds @ [?s])"])
qed

lemma rooted_abs: "rooted cwd \<Longrightarrow> rooted (path_abs cwd path)"
proof -
  assume cwd: "rooted cwd"
  then have "rooted (cwd @ ''/'' @ path)" "cwd \<noteq> []" by (auto simp: rooted_def prefix_def)
  then show ?thesis by (simp add: path_abs_def path_join_def del: append_Cons)
qed

lemma rel_insideD:
  "path_rel (print_path True ds) p = Some r \<Longrightarrow> rel_inside r \<Longrightarrow> list_all plain_part ds \<Longrightarrow> rooted p \<Longrightarrow> prefix ds (parts_of p)"
  using rel_inside_iff [of "print_path True ds" p] by auto

lemma import_write_below:
  assumes "state_root rs env" "rooted (im_cwd env)" "SafeName (m_AppID request) \<notin> {[], ''.'', ''..''}"
  shows "changes_below (rs @ [''file-imports'', SafeName (m_AppID request)]) d (fst (writeImportedFileChunk env request d))"
proof -
  let ?p = "path_abs (im_cwd env) (StringArg (m_Args request) 0)"
  let ?ds = "rs @ [''file-imports'', SafeName (m_AppID request)]"
  have ds: "list_all plain_part ?ds" using assms SafeName_plain by (simp add: state_root_def)
  have p: "rooted ?p" using assms(2) by (rule rooted_abs)
  have "write_at_path env ?p offset raw d = (d', result) \<Longrightarrow> path_rel (print_path True ?ds) ?p = Some r \<Longrightarrow> rel_inside r
      \<Longrightarrow> changes_below ?ds d d'" for offset raw d' result r
    using write_at_path_below [OF _ p] rel_insideD [OF _ _ ds p] by blast
  then have "path_rel (print_path True ?ds) ?p = Some r \<Longrightarrow> rel_inside r
      \<Longrightarrow> changes_below ?ds d (fst (write_at_path env ?p offset raw d))" for offset raw r
    by (metis prod.collapse)
  then show ?thesis
    by (auto simp: writeImportedFileChunk_def import_directory_plain [OF assms(1,3)] Let_def split: option.splits sum.splits)
qed

lemma import_below:
  assumes "state_root rs env" "rooted (im_cwd env)" "SafeName (m_AppID request) \<notin> {[], ''.'', ''..''}"
  shows "changes_below (rs @ [''file-imports'', SafeName (m_AppID request)]) d (fst (handleFileImportRPC env request d))"
proof -
  let ?ds = "rs @ [''file-imports'', SafeName (m_AppID request)]"
  have ds: "list_all plain_part ?ds" using assms SafeName_plain by (simp add: state_root_def)
  have "changes_below ?ds d (fst (allocate_in env (print_path True ?ds) (path_base q) digest n mime d1))"
    if "adds_dirs d d1" "metadata_ok (path_base q) digest n" for q digest n mime d1
    using changes_below_dirs_first [OF that(1)] allocate_in_below [OF _ ds that(2) refl] by (metis prod.collapse)
  then show ?thesis using import_write_below [OF assms]
    by (auto simp: handleFileImportRPC_def import_directory_plain [OF assms(1,3)] file_name_arg_def Let_def
        split: sum.splits dest!: mkdir_all_adds)
qed

lemma owned_path_below:
  assumes "state_root rs env" "rooted (im_cwd env)" "SafeName appID \<notin> {''.'', ''..''}"
    and "ownedClipboardPath env appID path d = (d1, result)"
  shows "adds_dirs d d1 \<and> (\<forall>p. result = Inr p \<longrightarrow> rooted p \<and>
    prefix (rs @ [''clipboard-files'', if SafeName appID = [] then ''app'' else SafeName appID]) (parts_of p))"
proof -
  let ?ds = "rs @ [''clipboard-files'', if SafeName appID = [] then ''app'' else SafeName appID]"
  have ds: "list_all plain_part ?ds" using assms SafeName_plain [of appID] by (auto simp: state_root_def)
  have p: "rooted (path_abs (im_cwd env) path)" using assms(2) by (rule rooted_abs)
  show ?thesis using assms(4) p rel_insideD [OF _ _ ds p]
    by (auto simp: ownedClipboardPath_def clipboard_directory_plain [OF assms(1,3)] Let_def
        split: sum.splits option.splits if_splits dest!: mkdir_all_adds)
qed

lemma clipboard_below:
  assumes "state_root rs env" "rooted (im_cwd env)" "SafeName (m_AppID request) \<notin> {''.'', ''..''}"
    and ds_def: "ds = rs @ [''clipboard-files'', if SafeName (m_AppID request) = [] then ''app'' else SafeName (m_AppID request)]"
  shows "changes_below ds d (fst (allocateClipboardFile env request d))"
    and "changes_below ds d (fst (writeClipboardFileChunk env request d))"
proof -
  have ds: "list_all plain_part ds" using assms SafeName_plain [of "m_AppID request"] by (auto simp: state_root_def)
  have "changes_below ds d (fst (allocate_in env (print_path True ds) (path_base q) digest n mime d1))"
    if "adds_dirs d d1" "metadata_ok (path_base q) digest n" for q digest n mime d1
    using changes_below_dirs_first [OF that(1)] allocate_in_below [OF _ ds that(2) refl] by (metis prod.collapse)
  then show "changes_below ds d (fst (allocateClipboardFile env request d))"
    by (auto simp: allocateClipboardFile_def clipboard_directory_plain [OF assms(1,3)] ds_def [symmetric] file_name_arg_def
        Let_def split: sum.splits dest!: mkdir_all_adds)
  obtain d1 result where owned: "ownedClipboardPath env (m_AppID request) (StringArg (m_Args request) 0) d = (d1, result)"
    by (rule prod.exhaust)
  note below = owned_path_below [OF assms(1-3) owned, folded ds_def]
  show "changes_below ds d (fst (writeClipboardFileChunk env request d))"
  proof (cases result)
    case (Inl e)
    then show ?thesis using below changes_below_dirs by (simp add: writeClipboardFileChunk_def owned)
  next
    case (Inr p)
    then have p: "rooted p" "prefix ds (parts_of p)" using below by simp_all
    have "changes_below ds d (fst (write_at_path env p offset raw d1))" for offset raw
      using changes_below_dirs_first [OF conjunct1 [OF below]] write_at_path_below [OF _ p] by (metis prod.collapse)
    then show ?thesis using below changes_below_dirs
      by (simp add: writeClipboardFileChunk_def owned Inr Let_def split: option.splits)
  qed
qed

text \<open>
  C22: Whatever an app asks of the import service or of the clipboard's file service, the disk changes
  only in the directory that belongs to its app id: no file outside is made, changed or replaced,
  and no name is taken away. The app id must not be empty or made of dots only.
\<close>

theorem app_files_stay_below:
  assumes "state_root rs env" "rooted (im_cwd env)" "SafeName (m_AppID request) \<notin> {[], ''.'', ''..''}"
  shows "changes_below (rs @ [''file-imports'', SafeName (m_AppID request)]) d (fst (handleFileImportRPC env request d))
    \<and> changes_below (rs @ [''clipboard-files'', SafeName (m_AppID request)]) d (fst (allocateClipboardFile env request d))
    \<and> changes_below (rs @ [''clipboard-files'', SafeName (m_AppID request)]) d (fst (writeClipboardFileChunk env request d))"
  using import_below [OF assms] clipboard_below [OF assms(1,2) _ refl, of request] assms(3) by simp

definition sample_import_env :: import_env where
  "sample_import_env = \<lparr>im_root = ''/state'', im_cwd = ''/'', im_sprint = (\<lambda>_. []), im_ovf = (\<lambda>_. 0),
     im_unb64 = (\<lambda>s. Some (bytes_of s)), im_fault = None\<rparr>"

definition sample_disk :: disk where
  "sample_disk = \<lparr>dk_names = [(''/state'', DirAt), (''/state/config.json'', FileAt 0)], dk_data = (\<lambda>_. [1, 2, 3]), dk_fresh = 1\<rparr>"

definition import_write :: "string \<Rightarrow> string \<Rightarrow> nat \<Rightarrow> string \<Rightarrow> message" where
  "import_write appID path offset b64 = blank_message\<lparr>m_Type := ''rpc'', m_Service := ''fileImport'', m_Method := ''write'',
     m_AppID := appID, m_Args := [StrV path, NumV (of_nat offset), StrV b64]\<rparr>"

lemma sample_root: "state_root [''state''] sample_import_env" "rooted (im_cwd sample_import_env)"
  by (simp_all add: state_root_def sample_import_env_def plain_part_def print_path_def join_slash_def rooted_def)

theorem app_files_stay_below_witness:
  "changes_below [''state'', ''file-imports'', ''alice_x''] sample_disk
     (fst (handleFileImportRPC sample_import_env (import_write ''alice/x'' ''/state/file-imports/alice_x/f'' 0 ''hi'') sample_disk))"
proof -
  have "SafeName (m_AppID (import_write ''alice/x'' ''/state/file-imports/alice_x/f'' 0 ''hi'')) = ''alice_x''" by code_simp
  then show ?thesis
    using app_files_stay_below [OF sample_root, of "import_write ''alice/x'' ''/state/file-imports/alice_x/f'' 0 ''hi''" sample_disk]
    by simp
qed

subsection \<open>App ids made of dots\<close>

lemma import_directory_dots:
  assumes "state_root rs env"
  shows "import_directory env ''..'' = print_path True rs"
proof -
  have "path_join (print_path True rs) ''file-imports'' = print_path True (rs @ [''file-imports''])"
    using assms by (simp add: state_root_def join_plain_name [OF _ plain_literals(1)])
  moreover have "SafeName ''..'' = ''..''" by code_simp
  moreover have "list_all plain_part rs" using assms by (simp add: state_root_def)
  then have "path_join (print_path True (rs @ [''file-imports''])) ''..'' = print_path True rs"
    by (rule join_parent) simp
  ultimately show ?thesis using assms by (simp add: import_directory_def state_root_def)
qed

text \<open>
  The relay does not bind the app id of a browser whose hello named no app. With the app id \<open>..\<close> the
  import directory is the state directory itself: a browser that holds nothing but \<open>file.import\<close>
  overwrites any file of the agent's state, the configuration with its permissions included.
\<close>

theorem dotted_app_id_reaches_the_state:
  assumes "state_root rs env" "im_fault env = None" "rooted p" "path_clean p = p" "prefix rs (parts_of p)"
    and "map_of (dk_names d) p = Some (FileAt n)" "im_unb64 env b = Some raw" "length raw \<le> 245760"
    and "sa_storeID (rs_granted st) = []" "sa_capabilities (rs_granted st) = [''file.import'']" "rs_authenticated st"
    and "decode_request renv clear = Inr q" "message.truncate q = import_write ''..'' p 0 b"
  shows "snd (relay_serve renv clear st) = [Served (ToRPC (import_write ''..'' p 0 b)) (rs_cipher st)]
    \<and> handleFileImportRPC env (import_write ''..'' p 0 b) d
        = (disk_write n 0 raw d, Inr (ChunkWritten p 0 (int (length raw))))"
proof
  have m: "m_Type (import_write ''..'' p 0 b) = ''rpc''" "m_Service (import_write ''..'' p 0 b) = ''fileImport''"
      "m_Method (import_write ''..'' p 0 b) = ''write''" "m_AppID (import_write ''..'' p 0 b) = ''..''"
      "m_Args (import_write ''..'' p 0 b) = [StrV p, NumV 0, StrV b]"
    by (simp_all add: import_write_def)
  have cap: "rpcCapability sp (import_write ''..'' p 0 b) = ''file.import''" for sp by (simp add: rpcCapability_def m)
  have "socketAllows [''file.import''] ''file.import''" by (simp add: socketAllows_iff)
  then show "snd (relay_serve renv clear st) = [Served (ToRPC (import_write ''..'' p 0 b)) (rs_cipher st)]"
    using assms(9-13) by (simp add: relay_serve_def relay_dispatch_def m cap Let_def)
  have rs: "list_all plain_part rs" using assms(1) by (simp add: state_root_def)
  obtain r where "path_rel (print_path True rs) p = Some r" "rel_inside r"
    using rel_inside_iff [of "print_path True rs" p] assms(3,5) rs by auto
  moreover have "disk_open p d = Inr n" using assms(6) by (simp add: disk_open_at)
  ultimately show "handleFileImportRPC env (import_write ''..'' p 0 b) d
        = (disk_write n 0 raw d, Inr (ChunkWritten p 0 (int (length raw))))"
    using assms(2-8)
    by (simp add: handleFileImportRPC_def writeImportedFileChunk_def m import_directory_dots [OF assms(1)] path_abs_def
        StringArg_def as_str_def NumberArg_def as_num_def trunc_rat_def maxImportedFileBytes_def write_at_path_def Let_def)
qed

theorem dotted_app_id_reaches_the_state_witness:
  "handleFileImportRPC sample_import_env (import_write ''..'' ''/state/config.json'' 0 ''evil'') sample_disk
     = (disk_write 0 0 (bytes_of ''evil'') sample_disk, Inr (ChunkWritten ''/state/config.json'' 0 4))"
proof -
  let ?r = "import_write ''..'' ''/state/config.json'' 0 ''evil''"
  let ?q = "message.extend ?r \<lparr>rm_TokenHash = [], rm_Token = [], rm_KeyID = [], rm_App = None\<rparr>"
  have "snd (relay_serve (sample_relay\<lparr>re_message := (\<lambda>_. Inr ?q)\<rparr>) []
        (relay_start\<lparr>rs_authenticated := True, rs_granted := no_auth\<lparr>sa_capabilities := [''file.import''], sa_storeID := []\<rparr>\<rparr>))
      = [Served (ToRPC ?r) (rs_cipher (relay_start\<lparr>rs_authenticated := True,
          rs_granted := no_auth\<lparr>sa_capabilities := [''file.import''], sa_storeID := []\<rparr>\<rparr>))]
    \<and> handleFileImportRPC sample_import_env ?r sample_disk
      = (disk_write 0 0 (bytes_of ''evil'') sample_disk, Inr (ChunkWritten ''/state/config.json'' 0 (int (length (bytes_of ''evil'')))))"
  proof (rule dotted_app_id_reaches_the_state [OF sample_root(1)])
    show "path_clean ''/state/config.json'' = ''/state/config.json''" "rooted ''/state/config.json''"
        "prefix [''state''] (parts_of ''/state/config.json'')" by code_simp+
    show "decode_request (sample_relay\<lparr>re_message := (\<lambda>_. Inr ?q)\<rparr>) [] = Inr ?q" by (simp add: decode_request_def)
    show "message.truncate ?q = ?r" by (simp add: message.defs)
  qed (simp_all add: sample_import_env_def sample_disk_def)
  then show ?thesis by simp
qed

subsection \<open>Chunks\<close>

definition import_put :: "import_env \<Rightarrow> (bytes \<Rightarrow> string) \<Rightarrow> string \<Rightarrow> string \<Rightarrow> nat \<Rightarrow> bytes \<Rightarrow> disk \<Rightarrow> disk" where
  "import_put env b64 appID path offset raw d = fst (handleFileImportRPC env (import_write appID path offset (b64 raw)) d)"

definition import_accepts :: "import_env \<Rightarrow> (bytes \<Rightarrow> string) \<Rightarrow> string \<Rightarrow> string \<Rightarrow> nat \<Rightarrow> bytes \<Rightarrow> bool" where
  "import_accepts env b64 appID path offset raw \<longleftrightarrow>
     im_fault env = None \<and> im_unb64 env (b64 raw) = Some raw \<and> length raw \<le> 245760 \<and> offset + length raw \<le> 67108864
     \<and> rooted path \<and> path_clean path = path
     \<and> (case path_rel (import_directory env appID) path of None \<Rightarrow> False | Some r \<Rightarrow> rel_inside r)"

lemma offset_argument: "offset \<le> 67108864 \<Longrightarrow> NumberArg [a, NumV (of_nat offset), b] (Suc 0) 0 67108864 = int offset"
proof -
  assume "offset \<le> 67108864"
  then have "(of_nat offset :: rat) \<le> of_nat 67108864" by (rule of_nat_mono)
  then show ?thesis by (simp add: NumberArg_def as_num_def trunc_rat_def not_less)
qed

lemma import_put_runs:
  assumes "import_accepts env b64 appID path offset raw" "map_of (dk_names d) path = Some (FileAt n)"
  shows "import_put env b64 appID path offset raw d = disk_write n offset raw d"
proof -
  obtain r where "path_rel (import_directory env appID) path = Some r" "rel_inside r"
    using assms(1) by (auto simp: import_accepts_def split: option.splits)
  moreover have "disk_open path d = Inr n" using assms(2) by (simp add: disk_open_at)
  moreover have "offset \<le> 67108864" using assms(1) by (simp add: import_accepts_def)
  ultimately show ?thesis using assms(1)
    by (simp add: import_put_def import_accepts_def handleFileImportRPC_def writeImportedFileChunk_def import_write_def
        blank_message_def offset_argument StringArg_def as_str_def path_abs_def write_at_path_def maxImportedFileBytes_def Let_def)
qed

interpretation imported: chunk_store "import_put env b64 appID path" "\<lambda>d. disk_read d path" "import_accepts env b64 appID path"
  for env b64 appID path
proof
  fix d data offset raw
  assume data: "disk_read d path = Some data" and ok: "import_accepts env b64 appID path offset raw"
  then obtain n where n: "map_of (dk_names d) path = Some (FileAt n)" "data = dk_data d n"
    by (auto simp: disk_read_def split: option.splits disk_entry.splits)
  show "disk_read (import_put env b64 appID path offset raw d) path = Some (pwrite data offset raw)"
    by (simp add: import_put_runs [OF ok n(1)] disk_read_def n)
qed

lemma allocate_in_new:
  assumes "allocate_in env dir name digest n mime d = (d1, Inr (Allocated path name' m mime' False))"
  shows "im_fault env = None \<and> disk_read d1 path = Some [] \<and> path = path_join dir (take 16 digest @ ''-'' @ name)
    \<and> (name', m, mime') = (name, n, mime)"
  using assms
  by (auto simp: allocate_in_def disk_read_def Let_def split: option.splits if_splits sum.splits dest!: disk_create_at)

lemma allocated:
  assumes "handleFileImportRPC env alloc d = (d1, Inr (Allocated path name n mime existing))"
  obtains v digest d0 where "v = ObjectArg (m_Args alloc) 0" "name = file_name_arg (im_sprint env) v" "metadata_ok name digest n"
    "disk_mkdir_all (import_directory env (m_AppID alloc)) d = Inr d0"
    "digest = to_lower (StringValue (im_sprint env) (obj_get v ''digest''))" "n = integer64 (im_ovf env) (obj_get v ''size'')"
    "mime = StringValue (im_sprint env) (obj_get v ''mimeType'')" "m_Method alloc = ''allocate''"
    "allocate_in env (import_directory env (m_AppID alloc)) name digest n mime d0 = (d1, Inr (Allocated path name n mime existing))"
proof -
  have w: "writeImportedFileChunk env alloc d \<noteq> (d1, Inr (Allocated path name n mime existing))"
    by (auto simp: writeImportedFileChunk_def write_at_path_def Let_def split: option.splits sum.splits)
  have a: "allocate_in env dir name' digest n' mime' d0 = (d1, Inr (Allocated path name n mime existing)) \<Longrightarrow>
      name' = name \<and> n' = n \<and> mime' = mime" for dir name' digest n' mime' d0
    by (auto simp: allocate_in_def Let_def split: option.splits if_splits sum.splits)
  show thesis using assms w
    by (auto simp: handleFileImportRPC_def Let_def split: if_splits sum.splits dest: a intro: that)
qed

lemma fresh_import_accepts:
  assumes "state_root rs env" "SafeName (m_AppID alloc) \<notin> {[], ''.'', ''..''}"
    and "handleFileImportRPC env alloc d = (d1, Inr (Allocated path name n mime False))"
  shows "im_fault env = None \<and> disk_read d1 path = Some [] \<and> rooted path \<and> path_clean path = path
    \<and> (case path_rel (import_directory env (m_AppID alloc)) path of None \<Rightarrow> False | Some r \<Rightarrow> rel_inside r)"
proof -
  let ?ds = "rs @ [''file-imports'', SafeName (m_AppID alloc)]"
  have ds: "list_all plain_part ?ds" using assms(1,2) SafeName_plain by (simp add: state_root_def)
  note dir = import_directory_plain [OF assms(1,2)]
  obtain digest d0 where a: "metadata_ok name digest n" "name = file_name_arg (im_sprint env) (ObjectArg (m_Args alloc) 0)"
      "allocate_in env (import_directory env (m_AppID alloc)) name digest n mime d0 = (d1, Inr (Allocated path name n mime False))"
    using allocated [OF assms(3)] by metis
  let ?s = "take 16 digest @ CHR ''-'' # name"
  have s: "plain_part ?s" using stored_name_plain [OF a(1) a(2) [unfolded file_name_arg_def]] by simp
  have new: "im_fault env = None" "disk_read d1 path = Some []" "path = print_path True (?ds @ [?s])"
    using allocate_in_new [OF a(3)] join_plain_name [OF ds s] by (auto simp: dir)
  have p: "rooted path" "path_clean path = path" "prefix ?ds (parts_of path)" using ds s by (simp_all add: new(3))
  moreover obtain r where "path_rel (import_directory env (m_AppID alloc)) path = Some r" "rel_inside r"
    using rel_inside_iff [of "print_path True ?ds" path] p ds by (auto simp: dir)
  ultimately show ?thesis using new(1,2) by simp
qed

text \<open>
  An import is complete when its pieces have arrived, in whatever order: after the allocation of a new
  file, every list of chunks that are pieces of a content, none above 240 KiB, and that cover it
  leaves exactly that content in the file.
\<close>

theorem import_upload_is_complete:
  assumes "state_root rs env" "SafeName (m_AppID alloc) \<notin> {[], ''.'', ''..''}"
    and "handleFileImportRPC env alloc d = (d1, Inr (Allocated path name n mime False))"
    and "\<forall>w \<in> set ws. piece_of whole w \<and> length (snd w) \<le> 245760 \<and> im_unb64 env (b64 (snd w)) = Some (snd w)"
    and "covered ws = {..< length whole}" "length whole \<le> 67108864"
  shows "disk_read (fold (\<lambda>w. import_put env b64 (m_AppID alloc) path (fst w) (snd w)) ws d1) path = Some whole"
proof -
  note accepts = fresh_import_accepts [OF assms(1-3)]
  then have "import_accepts env b64 (m_AppID alloc) path (fst w) (snd w)" if "w \<in> set ws" for w
    using assms(4,6) that piece_of_fits [of whole w] by (auto simp: import_accepts_def)
  then show ?thesis using assms(4,5) accepts by (intro imported.puts_complete) simp_all
qed

definition sample_alloc :: "any \<Rightarrow> message" where
  "sample_alloc n = blank_message\<lparr>m_Service := ''fileImport'', m_Method := ''allocate'', m_AppID := ''alice/x'',
     m_Args := [ObjV [(''name'', StrV ''f''), (''digest'', StrV (replicate 64 (CHR ''a''))), (''size'', n)]]\<rparr>"

definition sample_path :: string where
  "sample_path = ''/state/file-imports/alice_x/aaaaaaaaaaaaaaaa-f''"

lemma sample_safe: "SafeName (m_AppID (sample_alloc n)) \<notin> {[], ''.'', ''..''}"
proof -
  have "SafeName ''alice/x'' = ''alice_x''" by code_simp
  then show ?thesis by (simp add: sample_alloc_def)
qed

lemma sample_allocated:
  "\<exists>d1. handleFileImportRPC sample_import_env (sample_alloc n) sample_disk
     = (d1, Inr (Allocated sample_path ''f'' (integer64 (\<lambda>_. 0) n) [] False))"
  if "0 \<le> integer64 (\<lambda>_. 0) n" "integer64 (\<lambda>_. 0) n \<le> maxImportedFileBytes"
proof -
  have "import_directory sample_import_env ''alice/x'' = ''/state/file-imports/alice_x''"
      "path_join ''/state/file-imports/alice_x'' ''aaaaaaaaaaaaaaaa-f'' = sample_path"
      "path_dir sample_path = ''/state/file-imports/alice_x''" "path_base ''f'' = ''f''"
      "importDigestPattern (to_lower (replicate 64 (CHR ''a'')))"
      "take 16 (to_lower (replicate 64 (CHR ''a''))) @ ''-'' @ ''f'' = ''aaaaaaaaaaaaaaaa-f''"
      "map (print_path True) (prefixes (parts_of ''/state/file-imports/alice_x''))
        = [''/'', ''/state'', ''/state/file-imports'', ''/state/file-imports/alice_x'']"
    by code_simp+
  moreover have "sample_path \<notin> {''/'', ''/state'', ''/state/file-imports'', ''/state/file-imports/alice_x'', ''/state/config.json''}"
    by code_simp
  ultimately show ?thesis using that
    by (simp add: handleFileImportRPC_def sample_alloc_def blank_message_def ObjectArg_def as_obj_def file_name_arg_def obj_get_def
        StringValue_def metadata_ok_def disk_mkdir_all_def sample_disk_def allocate_in_def disk_stat_def disk_create_def
        sample_import_env_def Let_def)
qed

lemma sample_size: "integer64 (\<lambda>_. 0) (NumV 2) = 2"
  by (simp add: integer64_def trunc_rat_def)

theorem import_upload_is_complete_witness:
  "\<exists>d1. snd (handleFileImportRPC sample_import_env (sample_alloc (NumV 2)) sample_disk) = Inr (Allocated sample_path ''f'' 2 [] False)
     \<and> disk_read (import_put sample_import_env string_of ''alice/x'' sample_path 0 [7]
          (import_put sample_import_env string_of ''alice/x'' sample_path 1 [8] d1)) sample_path = Some [7, 8]"
proof -
  obtain d1 where run: "handleFileImportRPC sample_import_env (sample_alloc (NumV 2)) sample_disk
      = (d1, Inr (Allocated sample_path ''f'' 2 [] False))"
    using sample_allocated [of "NumV 2"] by (auto simp: sample_size maxImportedFileBytes_def)
  have "disk_read (fold (\<lambda>w. import_put sample_import_env string_of (m_AppID (sample_alloc (NumV 2))) sample_path (fst w) (snd w))
      [(1, [8]), (0, [7])] d1) sample_path = Some [7, 8]"
  proof (rule import_upload_is_complete [OF sample_root(1) sample_safe run])
    show "covered [(1, [8]), (0, [7])] = {..< length [7 :: byte, 8]}" by (auto simp: covered_def)
  qed (simp_all add: piece_of_def sample_import_env_def)
  then show ?thesis using run by (intro exI [of _ d1]) (simp add: sample_alloc_def)
qed

text \<open>
  A file is taken for the imported one by its size alone. When a transfer breaks off after its last
  byte has arrived before the others, the next allocation of the same file reports it as existing,
  and what is there is zeros.
\<close>

theorem half_written_import_exists:
  assumes "state_root rs env" "SafeName (m_AppID alloc) \<notin> {[], ''.'', ''..''}" "0 < n" "im_unb64 env (b64 [x]) = Some [x]"
    and "handleFileImportRPC env alloc d = (d1, Inr (Allocated path name n mime False))"
  shows "snd (handleFileImportRPC env alloc (import_put env b64 (m_AppID alloc) path (nat n - 1) [x] d1))
      = Inr (Allocated path name n mime True)
    \<and> disk_read (import_put env b64 (m_AppID alloc) path (nat n - 1) [x] d1) path = Some (replicate (nat n - 1) 0 @ [x])"
proof -
  let ?dir = "import_directory env (m_AppID alloc)"
  obtain v digest d0 where a: "v = ObjectArg (m_Args alloc) 0" "name = file_name_arg (im_sprint env) v" "metadata_ok name digest n"
      "disk_mkdir_all ?dir d = Inr d0" "digest = to_lower (StringValue (im_sprint env) (obj_get v ''digest''))"
      "n = integer64 (im_ovf env) (obj_get v ''size'')" "mime = StringValue (im_sprint env) (obj_get v ''mimeType'')"
      "m_Method alloc = ''allocate''" "allocate_in env ?dir name digest n mime d0 = (d1, Inr (Allocated path name n mime False))"
    by (rule allocated [OF assms(5)])
  note accepts = fresh_import_accepts [OF assms(1,2,5)]
  have fits: "nat n - 1 + 1 \<le> 67108864" using a(3) assms(3) by (simp add: metadata_ok_def maxImportedFileBytes_def nat_le_iff)
  obtain k where k: "map_of (dk_names d1) path = Some (FileAt k)" "dk_data d1 k = []"
    using accepts by (auto simp: disk_read_def split: option.splits disk_entry.splits)
  have "import_accepts env b64 (m_AppID alloc) path (nat n - 1) [x]"
    using accepts fits assms(4) by (simp add: import_accepts_def)
  note put = import_put_runs [OF this k(1)]
  have "\<And>p. map_of (dk_names d0) p = Some DirAt \<Longrightarrow> map_of (dk_names d1) p = Some DirAt"
    using a(9) disk_create_dirs by (auto simp: allocate_in_def Let_def split: option.splits if_splits sum.splits)
  then have dirs: "disk_mkdir_all ?dir (disk_write k (nat n - 1) [x] d1) = Inr (disk_write k (nat n - 1) [x] d1)"
    by (intro mkdir_all_again [OF a(4)]) simp
  have path: "path_join ?dir (take 16 digest @ CHR ''-'' # name) = path" using allocate_in_new [OF a(9)] by simp
  have data: "pwrite [] (nat n - 1) [x] = replicate (nat n - 1) 0 @ [x]" by (simp add: pwrite_def)
  have "allocate_in env ?dir name digest n mime (disk_write k (nat n - 1) [x] d1)
      = (disk_write k (nat n - 1) [x] d1, Inr (Allocated path name n mime True))"
    using accepts assms(3) path length_pwrite [of "[]" "nat n - 1" "[x]"] by (simp add: allocate_in_def disk_stat_def k Let_def)
  then show ?thesis
    using a(3,8) dirs
    by (simp add: put [unfolded One_nat_def] handleFileImportRPC_def a(1) [symmetric] a(2,5-7) [symmetric] disk_read_def k data [unfolded One_nat_def] Let_def)
qed

theorem half_written_import_exists_witness:
  "\<exists>d1. snd (handleFileImportRPC sample_import_env (sample_alloc (NumV 2))
        (import_put sample_import_env string_of ''alice/x'' sample_path 1 [8] d1)) = Inr (Allocated sample_path ''f'' 2 [] True)
     \<and> disk_read (import_put sample_import_env string_of ''alice/x'' sample_path 1 [8] d1) sample_path = Some [0, 8]"
proof -
  obtain d1 where run: "handleFileImportRPC sample_import_env (sample_alloc (NumV 2)) sample_disk
      = (d1, Inr (Allocated sample_path ''f'' 2 [] False))"
    using sample_allocated [of "NumV 2"] by (auto simp: sample_size maxImportedFileBytes_def)
  show ?thesis
    using half_written_import_exists [OF sample_root(1) sample_safe _ _ run, of string_of 8]
    by (intro exI [of _ d1]) (simp add: sample_alloc_def sample_import_env_def)
qed

end
