(* ===== verification/Clipboard.thy ===== *)
theory Clipboard
  imports File_Imports
begin

text \<open>
  File promises (\<open>shellagent/clipboard.go\<close>, \<open>file_promise.go\<close>, \<open>drag.go\<close>): an app offers files without
  their contents; a paste opens the destination and asks the app, which then writes the content in
  chunks and finishes. The table of promises is shared by all sockets; each critical section of
  \<open>promiseMu\<close> is one function here. Sockets and helper processes are numbers, an open file is the number
  of its contents on the disk. What the operating system and the helper answer are arguments.
\<close>

record clipboardPromise =
  cp_id :: string
  cp_appID :: string
  cp_service :: string
  cp_sourceID :: string
  cp_name :: string
  cp_size :: int
  cp_socket :: "nat option"
  cp_destinationSocket :: "nat option"
  cp_destinationAppID :: string
  cp_path :: string
  cp_file :: "nat option"

record filePromiseDescriptor =
  pd_ID :: string
  pd_Name :: string
  pd_Size :: int

text \<open>The server's fields: the table, the helper process and the disk.\<close>

record promise_state =
  ps_promises :: "(string, clipboardPromise) gomap"
  ps_bridge :: "nat option"
  ps_disk :: disk

datatype promise_output =
    PromiseRequested nat string string string string int \<comment> \<open>to the offering socket: service, id, source, name, size\<close>
  | DragEnded nat string
  | PromiseCompleted nat string string string int string string \<comment> \<open>to the pasting socket: id, path, name, size, app, error\<close>
  | HelperPublish nat "filePromiseDescriptor list"
  | HelperDrag nat "filePromiseDescriptor list"
  | HelperSize nat string int
  | HelperComplete nat string string

text \<open>What is outside the agent: the platform, the random ids, and how its calls turn out.\<close>

record promise_env =
  pe_os :: string
  pe_supported :: bool \<comment> \<open>\<open>platformFilePromisesSupported\<close>\<close>
  pe_newID :: "nat \<Rightarrow> string"
  pe_start :: "nat \<Rightarrow> string + nat" \<comment> \<open>starting the helper, per attempt\<close>
  pe_send :: "nat \<Rightarrow> string option" \<comment> \<open>the error of writing to the helper, per attempt\<close>
  pe_close :: "string option" \<comment> \<open>of \<open>Sync\<close> and \<open>Close\<close>\<close>
  pe_looked :: "(string, clipboardPromise) gomap" \<comment> \<open>the table when a paste looks its promise up\<close>
  pe_chosen :: disk \<comment> \<open>the disk when it chooses a name\<close>
  pe_imports :: import_env

abbreviation "pe_sprint env \<equiv> im_sprint (pe_imports env)"
abbreviation "pe_fault env \<equiv> im_fault (pe_imports env)"

definition maxPromiseSize :: int where
  "maxPromiseSize = 9007199254740991"

subsection \<open>The helper process\<close>

definition ensureFilePromiseBridge :: "promise_env \<Rightarrow> nat \<Rightarrow> promise_state \<Rightarrow> promise_state \<times> (string + nat)" where
  "ensureFilePromiseBridge env attempt st =
     (case ps_bridge st of
        Some b \<Rightarrow> (st, Inr b)
      | None \<Rightarrow>
          if \<not> pe_supported env then (st, Inl ''native file promises are not supported on this platform'')
          else (case pe_start env attempt of
                  Inl e \<Rightarrow> (st, Inl e)
                | Inr b \<Rightarrow> (st\<lparr>ps_bridge := Some b\<rparr>, Inr b)))"

definition discardFilePromiseBridge :: "nat \<Rightarrow> promise_state \<Rightarrow> promise_state" where
  "discardFilePromiseBridge b st = (if ps_bridge st = Some b then st\<lparr>ps_bridge := None\<rparr> else st)"

fun bridge_attempts :: "promise_env \<Rightarrow> bool \<Rightarrow> filePromiseDescriptor list \<Rightarrow> nat list \<Rightarrow> string \<Rightarrow> promise_state
    \<Rightarrow> promise_state \<times> promise_output list \<times> nat go_call" where
  "bridge_attempts env drag entries [] err st = (st, [], Failed err)"
| "bridge_attempts env drag entries (attempt # rest) err st =
     (case ensureFilePromiseBridge env attempt st of
        (st1, Inl e) \<Rightarrow> (st1, [], Failed e)
      | (st1, Inr b) \<Rightarrow>
          (case pe_send env attempt of
             None \<Rightarrow> (st1, [if drag then HelperDrag b entries else HelperPublish b entries], Returned (length entries))
           | Some e \<Rightarrow> bridge_attempts env drag entries rest e (discardFilePromiseBridge b st1)))"

subsection \<open>Offers\<close>

fun register_promises :: "promise_env \<Rightarrow> nat option \<Rightarrow> string \<Rightarrow> string \<Rightarrow> nat \<Rightarrow> any list \<Rightarrow> (string, clipboardPromise) gomap
    \<Rightarrow> (string, clipboardPromise) gomap \<times> (string + filePromiseDescriptor list)" where
  "register_promises env sock appID service i [] promises = (promises, Inr [])"
| "register_promises env sock appID service i (item # items) promises =
     (case as_obj item of
        None \<Rightarrow> (promises, Inl ''clipboard promise metadata is invalid'')
      | Some v \<Rightarrow>
          (let name = file_name_arg (pe_sprint env) v; sourceID = StringValue (pe_sprint env) (obj_get v ''sourceId'');
               unknown = (obj_get v ''sizeUnknown'' = BoolV True);
               n = (if unknown then -1 else NumberArg [obj_get v ''size''] 0 0 maxPromiseSize); i_d = pe_newID env i
           in if unknown \<and> pe_os env \<noteq> ''darwin'' then (promises, Inl ''clipboard files with deferred sizes require macOS'')
              else if name \<in> {[], ''.''} \<or> sourceID = [] then (promises, Inl ''clipboard promise metadata is invalid'')
              else
                (case register_promises env sock appID service (Suc i) items
                        (AList.update i_d \<lparr>cp_id = i_d, cp_appID = appID, cp_service = service, cp_sourceID = sourceID, cp_name = name,
                           cp_size = n, cp_socket = sock, cp_destinationSocket = None, cp_destinationAppID = [], cp_path = [],
                           cp_file = None\<rparr> promises) of
                   (promises1, Inl e) \<Rightarrow> (promises1, Inl e)
                 | (promises1, Inr entries) \<Rightarrow> (promises1, Inr (\<lparr>pd_ID = i_d, pd_Name = name, pd_Size = n\<rparr> # entries)))))"

definition publishFilePromises :: "promise_env \<Rightarrow> nat option \<Rightarrow> message \<Rightarrow> string \<Rightarrow> bool \<Rightarrow> promise_state
    \<Rightarrow> promise_state \<times> promise_output list \<times> nat go_call" where
  "publishFilePromises env sock request service drag st =
     (case m_Args request of
        [] \<Rightarrow> (st, [], Panicked)
      | arg # _ \<Rightarrow>
          (case as_arr arg of
             None \<Rightarrow> (st, [], Failed ''clipboard promises require between 1 and 32 files'')
           | Some raw \<Rightarrow>
               if raw = [] \<or> length raw > 32 then (st, [], Failed ''clipboard promises require between 1 and 32 files'')
               else
                 (let kept = filter (\<lambda>(_, p). \<not> (cp_appID p = m_AppID request \<and> cp_service p = service \<and> cp_file p = None))
                               (ps_promises st)
                  in case register_promises env sock (m_AppID request) service 0 raw kept of
                       (promises, Inl e) \<Rightarrow> (st\<lparr>ps_promises := promises\<rparr>, [], Failed e)
                     | (promises, Inr entries) \<Rightarrow> bridge_attempts env drag entries [0, 1] [] (st\<lparr>ps_promises := promises\<rparr>))))"

subsection \<open>Pastes\<close>

definition requestFilePromise :: "promise_env \<Rightarrow> string \<Rightarrow> string \<Rightarrow> nat option \<Rightarrow> string \<Rightarrow> promise_state
    \<Rightarrow> promise_state \<times> promise_output list \<times> string option" where
  "requestFilePromise env i path dest destApp st =
     (case map_of (ps_promises st) i of
        None \<Rightarrow> (st, [], Some ''clipboard promise is not active'')
      | Some p \<Rightarrow>
          if cp_file p \<noteq> None then (st, [], Some ''clipboard promise is already being pasted'')
          else
            (case (case pe_fault env of Some e \<Rightarrow> Inl e | None \<Rightarrow> disk_create path (ps_disk st)) of
               Inl e \<Rightarrow> (st\<lparr>ps_promises := AList.update i (p\<lparr>cp_path := path\<rparr>) (ps_promises st)\<rparr>, [], Some e)
             | Inr (n, d) \<Rightarrow>
                 (st\<lparr>ps_promises := AList.update i (p\<lparr>cp_path := path, cp_file := Some n, cp_destinationSocket := dest,
                        cp_destinationAppID := destApp\<rparr>) (ps_promises st), ps_disk := d\<rparr>,
                  (case cp_socket p of
                     None \<Rightarrow> []
                   | Some s \<Rightarrow> [PromiseRequested s (if cp_service p = [] then ''clipboard'' else cp_service p) i (cp_sourceID p) (cp_name p) (cp_size p)]),
                  None)))"

text \<open>A paste by the platform: the helper asks, and learns of a failure at once.\<close>

definition handleFilePromiseRequest :: "promise_env \<Rightarrow> string \<Rightarrow> string \<Rightarrow> promise_state \<Rightarrow> promise_state \<times> promise_output list" where
  "handleFilePromiseRequest env i path st =
     (case requestFilePromise env i path None [] st of
        (st1, out, None) \<Rightarrow> (st1, out)
      | (st1, out, Some e) \<Rightarrow> (st1, out @ (case ps_bridge st1 of None \<Rightarrow> [] | Some b \<Rightarrow> [HelperComplete b i e])))"

fun drag_ids :: "string list \<Rightarrow> (string, clipboardPromise) gomap \<Rightarrow> nat list \<Rightarrow> (string, clipboardPromise) gomap \<times> nat list" where
  "drag_ids [] promises apps = (promises, apps)"
| "drag_ids (i # ids) promises apps =
     (case map_of promises i of
        None \<Rightarrow> drag_ids ids promises apps
      | Some p \<Rightarrow>
          if cp_service p \<noteq> ''drag'' then drag_ids ids promises apps
          else drag_ids ids (if cp_file p = None then AList.delete i promises else promises)
                 (case cp_socket p of None \<Rightarrow> apps | Some s \<Rightarrow> List.insert s apps))"

definition handleFilePromiseDragEnd :: "string list \<Rightarrow> string \<Rightarrow> promise_state \<Rightarrow> promise_state \<times> promise_output list" where
  "handleFilePromiseDragEnd ids operation st =
     (case drag_ids ids (ps_promises st) [] of
        (promises, apps) \<Rightarrow> (st\<lparr>ps_promises := promises\<rparr>, map (\<lambda>s. DragEnded s operation) apps))"

definition listClipboardPromises :: "promise_state \<Rightarrow> (string \<times> string \<times> string \<times> int) list" where
  "listClipboardPromises st =
     map (\<lambda>(i, p). (i, cp_sourceID p, cp_name p, cp_size p)) (filter (\<lambda>(_, p). cp_file p = None) (ps_promises st))"

function free_copy :: "disk \<Rightarrow> string \<Rightarrow> string \<Rightarrow> string \<Rightarrow> nat \<Rightarrow> string option" where
  "free_copy d directory stem extension index =
     (if 10000 \<le> index then None
      else
        (let candidate = path_join directory (stem @ '' '' @ fmt_uint 10 index @ extension)
         in if disk_stat d candidate = None then Some candidate else free_copy d directory stem extension (Suc index)))"
  by pat_completeness auto
termination by (relation "measure (\<lambda>(d, directory, stem, extension, index). 10000 - index)") auto

declare free_copy.simps [simp del]

definition clipboardAvailablePath :: "import_env \<Rightarrow> string \<Rightarrow> string \<Rightarrow> disk \<Rightarrow> string + string" where
  "clipboardAvailablePath env directory name d =
     (if directory = [] \<or> name \<in> {[], ''.'', ''..''} \<or> path_base name \<noteq> name then Inl ''clipboard destination is invalid''
      else
        (let dir = path_abs (im_cwd env) directory
         in case disk_stat d dir of
              None \<Rightarrow> Inl ''no such file or directory''
            | Some info \<Rightarrow>
                if \<not> fi_IsDir info then Inl ''clipboard destination is not a directory''
                else
                  (let candidate = path_join dir name; extension = path_ext name
                   in if disk_stat d candidate = None then Inr candidate
                      else (case free_copy d dir (trim_suffix name extension) extension 2 of
                              None \<Rightarrow> Inl ''could not choose a free clipboard destination''
                            | Some path \<Rightarrow> Inr path))))"

text \<open>A paste by another app looks the promise up, chooses a free name on the disk and opens it. The lock is
  given up between these, so the table and the disk of the first two are others than those it opens the file in.\<close>

definition choose_destination :: "promise_env \<Rightarrow> message \<Rightarrow> string + string" where
  "choose_destination env request =
     (case map_of (pe_looked env) (StringArg (m_Args request) 0) of
        None \<Rightarrow> Inl ''clipboard promise is not active''
      | Some p \<Rightarrow>
          if cp_file p \<noteq> None then Inl ''clipboard promise is not active''
          else clipboardAvailablePath (pe_imports env) (StringArg (m_Args request) 1) (cp_name p) (pe_chosen env))"

definition requestClipboardPromise :: "promise_env \<Rightarrow> nat option \<Rightarrow> message \<Rightarrow> promise_state
    \<Rightarrow> promise_state \<times> promise_output list \<times> (string + string)" where
  "requestClipboardPromise env sock request st =
     (case choose_destination env request of
        Inl e \<Rightarrow> (st, [], Inl e)
      | Inr path \<Rightarrow>
          (case requestFilePromise env (StringArg (m_Args request) 0) path sock (m_AppID request) st of
             (st1, out, Some e) \<Rightarrow> (st1, out, Inl e)
           | (st1, out, None) \<Rightarrow> (st1, out, Inr path)))"

subsection \<open>The content\<close>

definition ownedPromise :: "message \<Rightarrow> promise_state \<Rightarrow> string + clipboardPromise \<times> nat" where
  "ownedPromise request st =
     (case map_of (ps_promises st) (StringArg (m_Args request) 0) of
        None \<Rightarrow> Inl ''clipboard promise is not active''
      | Some p \<Rightarrow>
          (case cp_file p of
             None \<Rightarrow> Inl ''clipboard promise is not active''
           | Some n \<Rightarrow> if cp_appID p \<noteq> m_AppID request then Inl ''clipboard promise is not active'' else Inr (p, n)))"

definition write_promise_at :: "promise_env \<Rightarrow> message \<Rightarrow> nat \<Rightarrow> bytes \<Rightarrow> promise_state \<Rightarrow> promise_state \<times> (string + int)" where
  "write_promise_at env request n raw st =
     (case pe_fault env of
        Some e \<Rightarrow> (st, Inl e)
      | None \<Rightarrow>
          (st\<lparr>ps_disk := disk_write n (nat (NumberArg (m_Args request) 1 0 maxPromiseSize)) raw (ps_disk st)\<rparr>, Inr (int (length raw))))"

definition writeClipboardPromise :: "promise_env \<Rightarrow> message \<Rightarrow> promise_state \<Rightarrow> promise_state \<times> (string + int)" where
  "writeClipboardPromise env request st =
     (case ownedPromise request st of
        Inl e \<Rightarrow> (st, Inl e)
      | Inr (p, n) \<Rightarrow>
          (case im_unb64 (pe_imports env) (StringArg (m_Args request) 2) of
             None \<Rightarrow> (st, Inl ''clipboard promise chunk is invalid'')
           | Some raw \<Rightarrow>
               if length raw > 245760 then (st, Inl ''clipboard promise chunk is invalid'')
               else write_promise_at env request n raw st))"

definition writeClipboardPromiseBinary :: "promise_env \<Rightarrow> message \<Rightarrow> bytes \<Rightarrow> promise_state \<Rightarrow> promise_state \<times> (string + int)" where
  "writeClipboardPromiseBinary env request raw st =
     (case ownedPromise request st of
        Inl e \<Rightarrow> (st, Inl e)
      | Inr (p, n) \<Rightarrow>
          if raw = [] \<or> length raw > 4194304 then (st, Inl ''clipboard promise binary chunk is invalid'')
          else write_promise_at env request n raw st)"

definition clipboardPromiseStatus :: "promise_env \<Rightarrow> message \<Rightarrow> promise_state \<Rightarrow> string + int \<times> int \<times> string" where
  "clipboardPromiseStatus env request st =
     (case ownedPromise request st of
        Inl e \<Rightarrow> Inl e
      | Inr (p, n) \<Rightarrow>
          (case pe_fault env of
             Some e \<Rightarrow> Inl e
           | None \<Rightarrow> Inr (int (length (dk_data (ps_disk st) n)), cp_size p, cp_path p)))"

definition setClipboardPromiseSize :: "promise_env \<Rightarrow> message \<Rightarrow> promise_state \<Rightarrow> promise_state \<times> promise_output list \<times> (string + int)" where
  "setClipboardPromiseSize env request st =
     (case ownedPromise request st of
        Inl e \<Rightarrow> (st, [], Inl e)
      | Inr (p, n) \<Rightarrow>
          (case m_Args request of
             i # v # _ \<Rightarrow>
               (case as_num v of
                  None \<Rightarrow> (st, [], Inl ''clipboard file size is invalid'')
                | Some r \<Rightarrow>
                    if r < 0 \<or> r > of_int maxPromiseSize \<or> of_int (trunc_rat r) \<noteq> r then (st, [], Inl ''clipboard file size is invalid'')
                    else if cp_size p \<ge> 0 \<and> cp_size p \<noteq> trunc_rat r then (st, [], Inl ''clipboard file size is already set'')
                    else
                      (let st1 = st\<lparr>ps_promises := AList.update (cp_id p) (p\<lparr>cp_size := trunc_rat r\<rparr>) (ps_promises st)\<rparr>
                       in case ps_bridge st of
                            Some b \<Rightarrow>
                              if pe_os env = ''darwin''
                              then (case pe_send env 0 of
                                      Some e \<Rightarrow> (st1, [], Inl e)
                                    | None \<Rightarrow> (st1, [HelperSize b (cp_id p) (trunc_rat r)], Inr (trunc_rat r)))
                              else (st1, [], Inr (trunc_rat r))
                          | None \<Rightarrow> (st1, [], Inr (trunc_rat r))))
           | _ \<Rightarrow> (st, [], Inl ''clipboard file size is required'')))"

text \<open>The outcome of a paste: a close error, the error the app reports (which replaces it), or the wrong size.\<close>

definition finish_error :: "promise_env \<Rightarrow> message \<Rightarrow> clipboardPromise \<Rightarrow> disk \<Rightarrow> string option" where
  "finish_error env request p d =
     (let reported = (case m_Args request of
                        i # v # _ \<Rightarrow> (case as_obj v of None \<Rightarrow> [] | Some options \<Rightarrow> StringValue (pe_sprint env) (obj_get options ''error''))
                      | _ \<Rightarrow> [])
      in if reported \<noteq> [] then Some reported
         else
           (case pe_close env of
              Some e \<Rightarrow> Some e
            | None \<Rightarrow>
                (case disk_stat d (cp_path p) of
                   None \<Rightarrow> Some ''no such file or directory''
                 | Some info \<Rightarrow> if fi_Size info \<noteq> cp_size p then Some ''clipboard promise size does not match'' else None)))"

definition finishClipboardPromise :: "promise_env \<Rightarrow> message \<Rightarrow> promise_state
    \<Rightarrow> promise_state \<times> promise_output list \<times> (string + string \<times> int)" where
  "finishClipboardPromise env request st =
     (case ownedPromise request st of
        Inl e \<Rightarrow> (st, [], Inl e)
      | Inr (p, n) \<Rightarrow>
          (let err = finish_error env request p (ps_disk st); message = (case err of None \<Rightarrow> [] | Some e \<Rightarrow> e);
               st1 = st\<lparr>ps_promises := AList.delete (cp_id p) (ps_promises st),
                        ps_disk := (if err = None then ps_disk st else disk_remove (cp_path p) (ps_disk st))\<rparr>;
               out = (case ps_bridge st of None \<Rightarrow> [] | Some b \<Rightarrow> [HelperComplete b (cp_id p) message])
                 @ (case cp_destinationSocket p of
                      None \<Rightarrow> []
                    | Some s \<Rightarrow> [PromiseCompleted s (cp_id p) (cp_path p) (cp_name p) (cp_size p) (cp_destinationAppID p) message])
           in (st1, out, (case err of Some e \<Rightarrow> Inl e | None \<Rightarrow> Inr (cp_path p, cp_size p)))))"

text \<open>Cancelling tells the helper of every promise, whether there is a helper or not.\<close>

definition cancels :: "message \<Rightarrow> string \<Rightarrow> clipboardPromise \<Rightarrow> bool" where
  "cancels request service p \<longleftrightarrow>
     cp_appID p = m_AppID request \<and> (cp_service p = service \<or> cp_service p = [] \<and> service = ''clipboard'')"

definition cancelFilePromises :: "message \<Rightarrow> string \<Rightarrow> promise_state \<Rightarrow> promise_state \<times> promise_output list \<times> nat go_call" where
  "cancelFilePromises request service st =
     (let gone = filter (\<lambda>(_, p). cancels request service p) (ps_promises st);
          st1 = st\<lparr>ps_promises := filter (\<lambda>(_, p). \<not> cancels request service p) (ps_promises st),
                   ps_disk := fold (\<lambda>(_, p) d. if cp_file p = None then d else disk_remove (cp_path p) d) gone (ps_disk st)\<rparr>
      in if gone = [] then (st1, [], Returned 0)
         else (case ps_bridge st of
                 None \<Rightarrow> (st1, [], Panicked)
               | Some b \<Rightarrow> (st1, map (\<lambda>(i, _). HelperComplete b i ''clipboard promise cancelled'') gone, Returned (length gone))))"

subsection \<open>The services\<close>

datatype clipboard_reply =
    FileReply import_reply
  | FilesPublished nat
  | TextWritten nat
  | Offered nat
  | Offers "(string \<times> string \<times> string \<times> int) list"
  | Pasting string
  | Written int
  | Progress int int string
  | SizeSet int
  | Finished string int
  | Cancelled nat

definition as_call :: "('a \<Rightarrow> 'b) \<Rightarrow> string + 'a \<Rightarrow> 'b go_call" where
  "as_call f r = (case r of Inl e \<Rightarrow> Failed e | Inr x \<Rightarrow> Returned (f x))"

definition map_call :: "('a \<Rightarrow> 'b) \<Rightarrow> 'a go_call \<Rightarrow> 'b go_call" where
  "map_call f r = (case r of Failed e \<Rightarrow> Failed e | Returned x \<Rightarrow> Returned (f x) | Panicked \<Rightarrow> Panicked)"

type_synonym clipboard_step = "promise_state \<times> promise_output list \<times> clipboard_reply go_call"

definition on_disk :: "(disk \<Rightarrow> disk \<times> (string + 'a)) \<Rightarrow> ('a \<Rightarrow> clipboard_reply) \<Rightarrow> promise_state \<Rightarrow> clipboard_step" where
  "on_disk f g st = (case f (ps_disk st) of (d, r) \<Rightarrow> (st\<lparr>ps_disk := d\<rparr>, [], as_call g r))"

definition handleClipboardRPCWithSocket :: "promise_env \<Rightarrow> nat option \<Rightarrow> message \<Rightarrow> bytes \<Rightarrow> promise_state \<Rightarrow> clipboard_step" where
  "handleClipboardRPCWithSocket env sock request body st =
     (let m = m_Method request in
      if m = ''allocate'' then on_disk (allocateClipboardFile (pe_imports env) request) FileReply st
      else if m = ''write'' then on_disk (writeClipboardFileChunk (pe_imports env) request) FileReply st
      else if m = ''publish'' then on_disk (publishClipboardFiles (pe_imports env) request) (FilesPublished \<circ> length) st
      else if m = ''writeText''
      then (st, [], (case pe_fault env of Some e \<Rightarrow> Failed e | None \<Rightarrow> Returned (TextWritten (length (StringArg (m_Args request) 0)))))
      else if m = ''publishPromises''
      then (case publishFilePromises env sock request ''clipboard'' False st of (st1, out, r) \<Rightarrow> (st1, out, map_call Offered r))
      else if m = ''listPromises'' then (st, [], Returned (Offers (listClipboardPromises st)))
      else if m = ''requestPromise''
      then (case requestClipboardPromise env sock request st of (st1, out, r) \<Rightarrow> (st1, out, as_call Pasting r))
      else if m = ''writePromise'' then (case writeClipboardPromise env request st of (st1, r) \<Rightarrow> (st1, [], as_call Written r))
      else if m = ''writePromiseBinary'' then (case writeClipboardPromiseBinary env request body st of (st1, r) \<Rightarrow> (st1, [], as_call Written r))
      else if m = ''promiseStatus'' then (st, [], as_call (\<lambda>(a, b, c). Progress a b c) (clipboardPromiseStatus env request st))
      else if m = ''setPromiseSize'' then (case setClipboardPromiseSize env request st of (st1, out, r) \<Rightarrow> (st1, out, as_call SizeSet r))
      else if m = ''finishPromise''
      then (case finishClipboardPromise env request st of (st1, out, r) \<Rightarrow> (st1, out, as_call (\<lambda>(a, b). Finished a b) r))
      else if m = ''cancelPromises''
      then (case cancelFilePromises request ''clipboard'' st of (st1, out, r) \<Rightarrow> (st1, out, map_call Cancelled r))
      else (st, [], Failed ''unsupported clipboard method''))"

definition handleDragRPC :: "promise_env \<Rightarrow> nat option \<Rightarrow> message \<Rightarrow> bytes \<Rightarrow> promise_state \<Rightarrow> clipboard_step" where
  "handleDragRPC env sock request body st =
     (let m = m_Method request in
      if m = ''startPromises''
      then (if pe_os env \<noteq> ''darwin'' then (st, [], Failed ''native file dragging is available only on macOS'')
            else (case publishFilePromises env sock request ''drag'' True st of (st1, out, r) \<Rightarrow> (st1, out, map_call Offered r)))
      else if m = ''writePromiseBinary'' then (case writeClipboardPromiseBinary env request body st of (st1, r) \<Rightarrow> (st1, [], as_call Written r))
      else if m = ''promiseStatus'' then (st, [], as_call (\<lambda>(a, b, c). Progress a b c) (clipboardPromiseStatus env request st))
      else if m = ''setPromiseSize'' then (case setClipboardPromiseSize env request st of (st1, out, r) \<Rightarrow> (st1, out, as_call SizeSet r))
      else if m = ''finishPromise''
      then (case finishClipboardPromise env request st of (st1, out, r) \<Rightarrow> (st1, out, as_call (\<lambda>(a, b). Finished a b) r))
      else if m = ''cancelPromises''
      then (case cancelFilePromises request ''drag'' st of (st1, out, r) \<Rightarrow> (st1, out, map_call Cancelled r))
      else (st, [], Failed ''unsupported drag method''))"

end
