(* ===== verification/Clipboard_Properties.thy ===== *)
theory Clipboard_Properties
  imports Clipboard Chunk_Store
begin

text \<open>
  File promises: what an app may do to the promises of others, what a finished paste means, that a paste
  delivers the offered content, and three ways in which the table goes wrong.
\<close>

subsection \<open>The table\<close>

text \<open>Promises stand under their own id, sizes are known or -1, and open files are files of the disk.\<close>

definition promise_ok :: "disk \<Rightarrow> string \<times> clipboardPromise \<Rightarrow> bool" where
  "promise_ok d e \<longleftrightarrow> cp_id (snd e) = fst e \<and> -1 \<le> cp_size (snd e) \<and> cp_size (snd e) \<le> maxPromiseSize
     \<and> (\<forall>n. cp_file (snd e) = Some n \<longrightarrow> n < dk_fresh d)"

definition clip_ok :: "promise_state \<Rightarrow> bool" where
  "clip_ok st \<longleftrightarrow> well_keyed (ps_promises st) \<and> disk_ok (ps_disk st) \<and> list_all (promise_ok (ps_disk st)) (ps_promises st)"

definition fresh_ids :: "promise_env \<Rightarrow> promise_state \<Rightarrow> bool" where
  "fresh_ids env st \<longleftrightarrow> (\<forall>i. map_of (ps_promises st) (pe_newID env i) = None)"

lemma promise_id: "clip_ok st \<Longrightarrow> map_of (ps_promises st) i = Some p \<Longrightarrow> cp_id p = i"
  by (auto simp: clip_ok_def list_all_iff promise_ok_def dest!: map_of_SomeD)

lemma promise_file: "clip_ok st \<Longrightarrow> map_of (ps_promises st) i = Some p \<Longrightarrow> cp_file p = Some n \<Longrightarrow> n < dk_fresh (ps_disk st)"
  by (fastforce simp: clip_ok_def list_all_iff promise_ok_def dest!: map_of_SomeD)

lemma ownedD:
  "ownedPromise request st = Inr (p, n) \<Longrightarrow>
     map_of (ps_promises st) (StringArg (m_Args request) 0) = Some p \<and> cp_file p = Some n \<and> cp_appID p = m_AppID request"
  by (auto simp: ownedPromise_def split: option.splits if_splits)

subsection \<open>One app's requests\<close>

text \<open>What a request of an app leaves alone: the promises of other apps, and every file and name that is not
  open in a promise of its own.\<close>

definition others_kept :: "string \<Rightarrow> promise_state \<Rightarrow> promise_state \<Rightarrow> bool" where
  "others_kept appID st st' \<longleftrightarrow>
     (\<forall>i p. map_of (ps_promises st) i = Some p \<longrightarrow> cp_appID p \<noteq> appID \<longrightarrow> map_of (ps_promises st') i = Some p)
   \<and> (\<forall>n. dk_data (ps_disk st') n \<noteq> dk_data (ps_disk st) n \<longrightarrow>
        (\<exists>i p. map_of (ps_promises st) i = Some p \<and> cp_appID p = appID \<and> cp_file p = Some n))
   \<and> (\<forall>path. map_of (dk_names (ps_disk st')) path \<noteq> map_of (dk_names (ps_disk st)) path \<longrightarrow>
        (\<exists>i p. map_of (ps_promises st) i = Some p \<and> cp_appID p = appID \<and> cp_file p \<noteq> None \<and> cp_path p = path))"

lemma others_kept_refl [simp]: "others_kept appID st st"
  by (simp add: others_kept_def)

lemma others_kept_write:
  assumes "map_of (ps_promises st) i = Some p" "cp_appID p = appID" "cp_file p = Some n"
  shows "others_kept appID st (st\<lparr>ps_disk := disk_write n offset raw (ps_disk st)\<rparr>)"
  using assms by (auto simp: others_kept_def)

lemma write_kept: "writeClipboardPromise env request st = (st', r) \<Longrightarrow> others_kept (m_AppID request) st st'"
  by (auto simp: writeClipboardPromise_def write_promise_at_def split: sum.splits option.splits if_splits
      dest!: ownedD intro: others_kept_write)

lemma write_binary_kept: "writeClipboardPromiseBinary env request raw st = (st', r) \<Longrightarrow> others_kept (m_AppID request) st st'"
  by (auto simp: writeClipboardPromiseBinary_def write_promise_at_def split: sum.splits option.splits if_splits
      dest!: ownedD intro: others_kept_write)

lemma others_kept_entry:
  assumes "map_of (ps_promises st) i = Some p" "cp_appID p = appID"
  shows "others_kept appID st (st\<lparr>ps_promises := AList.update i q (ps_promises st)\<rparr>)"
  using assms by (auto simp: others_kept_def)

lemma set_size_kept:
  assumes "clip_ok st" "setClipboardPromiseSize env request st = (st', out, r)"
  shows "others_kept (m_AppID request) st st'"
proof (cases "ownedPromise request st")
  case (Inr pn)
  obtain p n where pn: "pn = (p, n)" by (cases pn)
  note owned = ownedD [OF Inr [unfolded pn]]
  then have "cp_id p = StringArg (m_Args request) 0" using promise_id [OF assms(1)] by blast
  then have "others_kept (m_AppID request) st (st\<lparr>ps_promises := AList.update (cp_id p) q (ps_promises st)\<rparr>)" for q
    using owned others_kept_entry by metis
  then show ?thesis using assms(2)
    by (auto simp: setClipboardPromiseSize_def Inr pn Let_def split: list.splits option.splits if_splits)
qed (use assms(2) in \<open>simp add: setClipboardPromiseSize_def\<close>)

lemma others_kept_delete:
  assumes "map_of (ps_promises st) i = Some p" "cp_appID p = appID" "cp_file p \<noteq> None"
    and "d = ps_disk st \<or> d = disk_remove (cp_path p) (ps_disk st)"
  shows "others_kept appID st (st\<lparr>ps_promises := AList.delete i (ps_promises st), ps_disk := d\<rparr>)"
proof -
  have "map_of (dk_names d) path = map_of (dk_names (ps_disk st)) path \<or> path = cp_path p" for path
    using assms(4) by auto
  moreover have "dk_data d = dk_data (ps_disk st)" using assms(4) by auto
  ultimately show ?thesis using assms(1-3) unfolding others_kept_def by auto
qed

lemma finish_kept:
  assumes "clip_ok st" "finishClipboardPromise env request st = (st', out, r)"
  shows "others_kept (m_AppID request) st st'"
proof (cases "ownedPromise request st")
  case (Inr pn)
  obtain p n where pn: "pn = (p, n)" by (cases pn)
  note owned = ownedD [OF Inr [unfolded pn]]
  then have "cp_id p = StringArg (m_Args request) 0" using promise_id [OF assms(1)] by blast
  moreover have "st' = st\<lparr>ps_promises := AList.delete (cp_id p) (ps_promises st),
      ps_disk := (if finish_error env request p (ps_disk st) = None then ps_disk st else disk_remove (cp_path p) (ps_disk st))\<rparr>"
    using assms(2) by (simp add: finishClipboardPromise_def Inr pn Let_def)
  ultimately show ?thesis using owned others_kept_delete [of st "cp_id p" p "m_AppID request"] by simp
qed (use assms(2) in \<open>simp add: finishClipboardPromise_def\<close>)

lemma removed_names:
  "map_of (dk_names (fold (\<lambda>(_, p) d. if cp_file p = None then d else disk_remove (cp_path p) d) gone d)) path
     = (if \<exists>e \<in> set gone. cp_file (snd e) \<noteq> None \<and> cp_path (snd e) = path then None else map_of (dk_names d) path)"
  by (induction gone arbitrary: d) auto

lemma removed_data:
  "dk_data (fold (\<lambda>(_, p) d. if cp_file p = None then d else disk_remove (cp_path p) d) gone d) = dk_data d"
  by (induction gone arbitrary: d) auto

lemma cancel_kept:
  assumes "clip_ok st" "cancelFilePromises request service st = (st', out, r)"
  shows "others_kept (m_AppID request) st st'"
proof -
  let ?gone = "filter (\<lambda>(_, p). cancels request service p) (ps_promises st)"
  have keyed: "well_keyed (ps_promises st)" using assms(1) by (simp add: clip_ok_def)
  have st': "st' = st\<lparr>ps_promises := filter (\<lambda>(_, p). \<not> cancels request service p) (ps_promises st),
      ps_disk := fold (\<lambda>(_, p) d. if cp_file p = None then d else disk_remove (cp_path p) d) ?gone (ps_disk st)\<rparr>"
    using assms(2) by (auto simp: cancelFilePromises_def Let_def split: if_splits option.splits)
  have "map_of (ps_promises st) i = Some p \<and> cp_appID p = m_AppID request" if "(i, p) \<in> set ?gone" for i p
    using that keyed by (simp add: cancels_def well_keyed_def)
  then have "\<exists>i p. map_of (ps_promises st) i = Some p \<and> cp_appID p = m_AppID request \<and> cp_file p \<noteq> None \<and> cp_path p = path"
    if "\<exists>e \<in> set ?gone. cp_file (snd e) \<noteq> None \<and> cp_path (snd e) = path" for path
    using that by (metis prod.collapse)
  moreover have "map_of (ps_promises st') i = Some p" if "map_of (ps_promises st) i = Some p" "cp_appID p \<noteq> m_AppID request" for i p
    using that by (simp add: st' map_of_filter_keyed [OF keyed] cancels_def)
  ultimately show ?thesis unfolding others_kept_def by (auto simp: st' removed_names removed_data)
qed

lemma register_keeps:
  "(\<And>k. pe_newID env k \<noteq> i) \<Longrightarrow> map_of (fst (register_promises env sock appID service k items promises)) i = map_of promises i"
proof (induction items arbitrary: k promises)
  case (Cons item items)
  have ih: "map_of P1 i = map_of P i" if "register_promises env sock appID service (Suc k) items P = (P1, x)" for P P1 x
    using Cons.IH [OF Cons.prems, of "Suc k" P] that by simp
  have "pe_newID env k \<noteq> i" by (rule Cons.prems)
  then show ?case by (auto simp: Let_def split: option.splits prod.splits sum.splits dest: ih)
qed simp

lemma bridge_attempts_keep:
  "bridge_attempts env drag entries as err st = (st', out, r) \<Longrightarrow> ps_promises st' = ps_promises st \<and> ps_disk st' = ps_disk st"
proof (induction env drag entries as err st rule: bridge_attempts.induct)
  case (2 env drag entries a rest err st)
  have ensured: "ensureFilePromiseBridge env a st = (st1, x) \<Longrightarrow> ps_promises st1 = ps_promises st \<and> ps_disk st1 = ps_disk st" for st1 x
    by (auto simp: ensureFilePromiseBridge_def split: option.splits if_splits sum.splits)
  obtain st1 x where e: "ensureFilePromiseBridge env a st = (st1, x)" by (rule prod.exhaust)
  show ?case
  proof (cases x)
    case (Inl e')
    then show ?thesis using 2(2) ensured [OF e] e by simp
  next
    case (Inr b)
    show ?thesis
    proof (cases "pe_send env a")
      case None
      then show ?thesis using 2(2) ensured [OF e] e Inr by simp
    next
      case (Some f)
      then have "bridge_attempts env drag entries rest f (discardFilePromiseBridge b st1) = (st', out, r)" using 2(2) e Inr by simp
      then show ?thesis using 2(1) [OF e [symmetric] Inr Some] ensured [OF e] by (simp add: discardFilePromiseBridge_def split: if_splits)
    qed
  qed
qed simp

definition kept_offers :: "message \<Rightarrow> string \<Rightarrow> promise_state \<Rightarrow> (string, clipboardPromise) gomap" where
  "kept_offers request service st =
     filter (\<lambda>(_, p). \<not> (cp_appID p = m_AppID request \<and> cp_service p = service \<and> cp_file p = None)) (ps_promises st)"

lemma publish_promises:
  assumes "publishFilePromises env sock request service drag st = (st', out, r)"
  shows "ps_disk st' = ps_disk st \<and> (ps_promises st' = ps_promises st \<or>
    (\<exists>raw. ps_promises st' = fst (register_promises env sock (m_AppID request) service 0 raw (kept_offers request service st))))"
proof (cases "\<exists>raw rest. m_Args request = ArrV raw # rest \<and> raw \<noteq> [] \<and> length raw \<le> 32")
  case True
  then obtain raw rest where args: "m_Args request = ArrV raw # rest" "raw \<noteq> []" "length raw \<le> 32" by blast
  obtain promises x where reg: "register_promises env sock (m_AppID request) service 0 raw (kept_offers request service st) = (promises, x)"
    by (rule prod.exhaust)
  show ?thesis
  proof (cases x)
    case (Inl e)
    then have "st' = st\<lparr>ps_promises := promises\<rparr>"
      using assms args reg by (simp add: publishFilePromises_def kept_offers_def as_arr_def)
    then have "ps_promises st' = fst (register_promises env sock (m_AppID request) service 0 raw (kept_offers request service st))"
        "ps_disk st' = ps_disk st"
      using reg by simp_all
    then show ?thesis by blast
  next
    case (Inr entries)
    then have "bridge_attempts env drag entries [0, 1] [] (st\<lparr>ps_promises := promises\<rparr>) = (st', out, r)"
      using assms args reg by (simp add: publishFilePromises_def kept_offers_def as_arr_def)
    note after = bridge_attempts_keep [OF this]
    have "ps_promises st' = fst (register_promises env sock (m_AppID request) service 0 raw (kept_offers request service st))"
      using after reg by simp
    then show ?thesis using after by auto
  qed
next
  case False
  then have "st' = st" using assms
    by (auto simp: publishFilePromises_def as_arr_def split: list.splits any.splits if_splits)
  then show ?thesis by simp
qed

lemma publish_kept:
  assumes "clip_ok st" "fresh_ids env st" "publishFilePromises env sock request service drag st = (st', out, r)"
  shows "others_kept (m_AppID request) st st'"
proof -
  have keyed: "well_keyed (ps_promises st)" using assms(1) by (simp add: clip_ok_def)
  have "map_of (ps_promises st') i = Some p" if "map_of (ps_promises st) i = Some p" "cp_appID p \<noteq> m_AppID request" for i p
  proof -
    have "\<And>k. pe_newID env k \<noteq> i" using assms(2) that(1) by (metis fresh_ids_def option.distinct(1))
    then show ?thesis using publish_promises [OF assms(3)] that
      by (auto simp: register_keeps kept_offers_def map_of_filter_keyed [OF keyed])
  qed
  then show ?thesis using publish_promises [OF assms(3)] by (simp add: others_kept_def)
qed

lemma promise_requests_kept:
  assumes "clip_ok st" "fresh_ids env st"
    and "m_Method request \<in> {''publishPromises'', ''listPromises'', ''writePromise'', ''writePromiseBinary'', ''promiseStatus'',
           ''setPromiseSize'', ''finishPromise'', ''cancelPromises''}"
    and "handleClipboardRPCWithSocket env sock request body st = (st', out, r)"
  shows "others_kept (m_AppID request) st st'"
proof -
  note kept = write_kept write_binary_kept set_size_kept [OF assms(1)] finish_kept [OF assms(1)] cancel_kept [OF assms(1)]
    publish_kept [OF assms(1,2)]
  show ?thesis using assms(3)
  proof (elim insertE emptyE)
  qed (use assms(4) in \<open>auto simp: handleClipboardRPCWithSocket_def split: prod.splits dest: kept\<close>)
qed

text \<open>
  C23: An app that offers, writes, measures, finishes or cancels promises never touches those of another
  app: their entries stay as they are, and no content and no name on the disk changes other than
  those its own open promises stand for.
\<close>

theorem promise_requests_stay_with_their_app:
  assumes "clip_ok st" "fresh_ids env st"
    and "m_Method request \<in> {''publishPromises'', ''listPromises'', ''writePromise'', ''writePromiseBinary'', ''promiseStatus'',
           ''setPromiseSize'', ''finishPromise'', ''cancelPromises''}"
    and "handleClipboardRPCWithSocket env sock request body st = (st', out, r)"
  shows "others_kept (m_AppID request) st st'"
  using promise_requests_kept [OF assms] .

definition sample_promise :: "string \<Rightarrow> string \<Rightarrow> clipboardPromise" where
  "sample_promise i appID = \<lparr>cp_id = i, cp_appID = appID, cp_service = ''clipboard'', cp_sourceID = ''s'', cp_name = ''f'', cp_size = 2,
     cp_socket = Some 1, cp_destinationSocket = None, cp_destinationAppID = [], cp_path = [], cp_file = None\<rparr>"

definition sample_promises :: promise_state where
  "sample_promises = \<lparr>ps_promises = [(''a'', sample_promise ''a'' ''alice/x''), (''b'', sample_promise ''b'' ''bob/y'')], ps_bridge = None,
     ps_disk = \<lparr>dk_names = [(''/d'', DirAt)], dk_data = (\<lambda>_. []), dk_fresh = 0\<rparr>\<rparr>"

definition sample_promise_env :: promise_env where
  "sample_promise_env = \<lparr>pe_os = ''linux'', pe_supported = False, pe_newID = (\<lambda>i. ''new'' @ fmt_uint 10 i), pe_start = (\<lambda>_. Inl []),
     pe_send = (\<lambda>_. None), pe_close = None,
     pe_looked = ps_promises sample_promises, pe_chosen = ps_disk sample_promises,
     pe_imports = \<lparr>im_root = ''/state'', im_cwd = ''/'', im_sprint = (\<lambda>_. []), im_ovf = (\<lambda>_. 0),
       im_unb64 = (\<lambda>s. Some (bytes_of s)), im_fault = None\<rparr>\<rparr>"

definition promise_request :: "string \<Rightarrow> string \<Rightarrow> any list \<Rightarrow> message" where
  "promise_request method appID args = blank_message\<lparr>m_Type := ''rpc'', m_Service := ''clipboard'', m_Method := method,
     m_AppID := appID, m_Args := args\<rparr>"

lemma sample_clip_ok: "clip_ok sample_promises"
  by (simp add: clip_ok_def sample_promises_def sample_promise_def well_keyed_def disk_ok_def promise_ok_def maxPromiseSize_def)

lemma sample_fresh_ids: "fresh_ids sample_promise_env sample_promises"
  by (simp add: fresh_ids_def sample_promise_env_def sample_promises_def)

theorem promise_requests_stay_with_their_app_witness:
  "others_kept ''alice/x'' sample_promises
     (fst (handleClipboardRPCWithSocket sample_promise_env None (promise_request ''cancelPromises'' ''alice/x'' []) [] sample_promises))"
proof -
  let ?r = "promise_request ''cancelPromises'' ''alice/x'' []"
  obtain st' out r where run: "handleClipboardRPCWithSocket sample_promise_env None ?r [] sample_promises = (st', out, r)"
    by (rule prod_cases3)
  have "m_Method ?r = ''cancelPromises''" "m_AppID ?r = ''alice/x''" by (simp_all add: promise_request_def)
  then show ?thesis
    using promise_requests_stay_with_their_app [OF sample_clip_ok sample_fresh_ids _ run] by (simp add: run)
qed

subsection \<open>Finishing a paste\<close>

definition paste_message :: "string + 'a \<Rightarrow> string" where
  "paste_message r = (case r of Inl e \<Rightarrow> e | Inr _ \<Rightarrow> [])"

text \<open>
  However a paste ends, its promise is gone. A success means that the file at the pasted path has the
  announced size and the disk is as the app left it; after a failure there is nothing at that path.
  The helper and the app that pasted are each told once, and of the same outcome.
\<close>

theorem a_finished_paste_is_whole:
  assumes "clip_ok st" "ownedPromise request st = Inr (p, n)" "finishClipboardPromise env request st = (st', out, r)"
  shows "map_of (ps_promises st') (StringArg (m_Args request) 0) = None
    \<and> (case r of
         Inr (path, k) \<Rightarrow> path = cp_path p \<and> k = cp_size p \<and> ps_disk st' = ps_disk st
           \<and> map_option fi_Size (disk_stat (ps_disk st') path) = Some k
       | Inl e \<Rightarrow> disk_stat (ps_disk st') (cp_path p) = None)
    \<and> out = (case ps_bridge st of None \<Rightarrow> [] | Some b \<Rightarrow> [HelperComplete b (cp_id p) (paste_message r)])
        @ (case cp_destinationSocket p of
             None \<Rightarrow> []
           | Some s \<Rightarrow> [PromiseCompleted s (cp_id p) (cp_path p) (cp_name p) (cp_size p) (cp_destinationAppID p) (paste_message r)])"
proof -
  have i: "cp_id p = StringArg (m_Args request) 0" using ownedD [OF assms(2)] promise_id [OF assms(1)] by blast
  show ?thesis
  proof (cases "finish_error env request p (ps_disk st)")
    case None
    then obtain info where "disk_stat (ps_disk st) (cp_path p) = Some info" "fi_Size info = cp_size p"
      by (auto simp: finish_error_def Let_def split: if_splits option.splits)
    then show ?thesis using assms(3) None i
      by (cases "ps_bridge st"; cases "cp_destinationSocket p") (auto simp: finishClipboardPromise_def assms(2) paste_message_def Let_def)
  next
    case (Some e)
    then show ?thesis using assms(3) i
      by (cases "ps_bridge st"; cases "cp_destinationSocket p") (auto simp: finishClipboardPromise_def assms(2) paste_message_def disk_stat_def Let_def)
  qed
qed

subsection \<open>A whole paste\<close>

lemma free_copy_free: "free_copy d directory stem extension index = Some path \<Longrightarrow> disk_stat d path = None"
proof (induction d directory stem extension index rule: free_copy.induct)
  case (1 d directory stem extension index)
  then show ?case by (subst (asm) (2) free_copy.simps) (auto simp: Let_def split: if_splits)
qed

lemma available_path_free: "clipboardAvailablePath env directory name d = Inr path \<Longrightarrow> disk_stat d path = None"
  by (auto simp: clipboardAvailablePath_def Let_def split: if_splits option.splits dest: free_copy_free)

text \<open>The chosen path was free at the time of the choice.\<close>

lemma chosen_path_free: "choose_destination env request = Inr path \<Longrightarrow> disk_stat (pe_chosen env) path = None"
  by (auto simp: choose_destination_def split: option.splits if_splits dest: available_path_free)

lemma stat_none: "disk_stat d path = None \<longleftrightarrow> map_of (dk_names d) path = None"
  by (auto simp: disk_stat_def split: option.splits disk_entry.splits)

lemma request_opens:
  assumes "requestFilePromise env i path dest destApp st = (st', out, None)"
  obtains p n d where "map_of (ps_promises st) i = Some p" "cp_file p = None" "disk_create path (ps_disk st) = Inr (n, d)"
    "st' = st\<lparr>ps_promises := AList.update i (p\<lparr>cp_path := path, cp_file := Some n, cp_destinationSocket := dest,
        cp_destinationAppID := destApp\<rparr>) (ps_promises st), ps_disk := d\<rparr>"
  using assms by (auto simp: requestFilePromise_def split: option.splits if_splits sum.splits prod.splits)

text \<open>The file of a promise, for the app that offered it.\<close>

definition promise_content :: "string \<Rightarrow> string \<Rightarrow> promise_state \<Rightarrow> bytes option" where
  "promise_content i appID st =
     (case map_of (ps_promises st) i of
        None \<Rightarrow> None
      | Some p \<Rightarrow> (case cp_file p of None \<Rightarrow> None | Some n \<Rightarrow> if cp_appID p = appID then Some (dk_data (ps_disk st) n) else None))"

definition promise_put :: "promise_env \<Rightarrow> string \<Rightarrow> string \<Rightarrow> nat \<Rightarrow> bytes \<Rightarrow> promise_state \<Rightarrow> promise_state" where
  "promise_put env i appID offset raw st =
     fst (writeClipboardPromiseBinary env (promise_request ''writePromiseBinary'' appID [StrV i, NumV (of_nat offset)]) raw st)"

definition promise_accepts :: "promise_env \<Rightarrow> nat \<Rightarrow> bytes \<Rightarrow> bool" where
  "promise_accepts env offset raw \<longleftrightarrow>
     pe_fault env = None \<and> raw \<noteq> [] \<and> length raw \<le> 4194304 \<and> int offset \<le> maxPromiseSize"

lemma promise_offset: "int offset \<le> maxPromiseSize \<Longrightarrow> NumberArg [a, NumV (of_nat offset)] (Suc 0) 0 maxPromiseSize = int offset"
proof -
  assume "int offset \<le> maxPromiseSize"
  then have "(of_int (int offset) :: rat) \<le> of_int maxPromiseSize" by (simp only: of_int_le_iff)
  then show ?thesis by (simp add: NumberArg_def as_num_def trunc_rat_def not_less)
qed

lemma promise_put_runs:
  assumes "map_of (ps_promises st) i = Some p" "cp_file p = Some n" "cp_appID p = appID" "promise_accepts env offset raw"
  shows "promise_put env i appID offset raw st = st\<lparr>ps_disk := disk_write n offset raw (ps_disk st)\<rparr>"
  using assms
  by (simp add: promise_put_def promise_accepts_def writeClipboardPromiseBinary_def ownedPromise_def write_promise_at_def
      promise_request_def StringArg_def as_str_def promise_offset)

interpretation promised: chunk_store "promise_put env i appID" "promise_content i appID" "promise_accepts env" for env i appID
proof
  fix st data offset raw
  assume a: "promise_content i appID st = Some data" and ok: "promise_accepts env offset raw"
  then obtain p n where p: "map_of (ps_promises st) i = Some p" "cp_file p = Some n" "cp_appID p = appID" "data = dk_data (ps_disk st) n"
    by (auto simp: promise_content_def split: option.splits if_splits)
  show "promise_content i appID (promise_put env i appID offset raw st) = Some (pwrite data offset raw)"
    by (simp add: promise_put_runs [OF p(1-3) ok]) (simp add: promise_content_def p)
qed

subsection \<open>What others do during a paste\<close>

text \<open>Steps that open no file: the table stays well-formed, open promises are not exchanged, and names only go away.\<close>

definition tame :: "promise_state \<Rightarrow> promise_state \<Rightarrow> bool" where
  "tame st st' \<longleftrightarrow> clip_ok st'
     \<and> (\<forall>j q'. map_of (ps_promises st') j = Some q' \<longrightarrow> cp_file q' \<noteq> None \<longrightarrow>
          (\<exists>q. map_of (ps_promises st) j = Some q \<and> cp_file q = cp_file q' \<and> cp_path q = cp_path q'))
     \<and> (\<forall>path x. map_of (dk_names (ps_disk st')) path = Some x \<longrightarrow> map_of (dk_names (ps_disk st)) path = Some x)"

lemma tame_refl: "clip_ok st \<Longrightarrow> tame st st"
  by (simp add: tame_def)

lemma list_all_keyed: "well_keyed m \<Longrightarrow> list_all P m \<longleftrightarrow> (\<forall>i p. map_of m i = Some p \<longrightarrow> P (i, p))"
  by (auto simp: list_all_iff well_keyed_def)

lemma clip_okI:
  assumes "clip_ok st" "well_keyed (ps_promises st')" "disk_ok (ps_disk st')" "dk_fresh (ps_disk st) \<le> dk_fresh (ps_disk st')"
    and "\<And>i p. map_of (ps_promises st') i = Some p \<Longrightarrow> map_of (ps_promises st) i = Some p \<or> promise_ok (ps_disk st') (i, p)"
  shows "clip_ok st'"
proof -
  have "promise_ok (ps_disk st') (i, p)" if "map_of (ps_promises st') i = Some p" for i p
  proof -
    from assms(5) [OF that] show ?thesis
    proof
      assume "map_of (ps_promises st) i = Some p"
      then have "promise_ok (ps_disk st) (i, p)" using assms(1) by (auto simp: clip_ok_def list_all_iff dest: map_of_SomeD)
      then show ?thesis using assms(4) by (auto simp: promise_ok_def)
    qed
  qed
  then show ?thesis using assms(2,3) by (simp add: clip_ok_def list_all_keyed)
qed

lemma clip_okD: "clip_ok st \<Longrightarrow> well_keyed (ps_promises st) \<and> disk_ok (ps_disk st)"
  by (simp add: clip_ok_def)

lemma tame_write: "clip_ok st \<Longrightarrow> tame st (st\<lparr>ps_disk := disk_write n offset raw (ps_disk st)\<rparr>)"
  unfolding tame_def by (auto simp: disk_write_def [of _ _ _ "ps_disk st"] dest: clip_okD intro!: clip_okI [of st])
    (auto simp: disk_ok_def clip_ok_def)

lemma tame_binary: "clip_ok st \<Longrightarrow> writeClipboardPromiseBinary env request raw st = (st', r) \<Longrightarrow> tame st st'"
  by (auto simp: writeClipboardPromiseBinary_def write_promise_at_def tame_refl tame_write split: sum.splits option.splits if_splits)

lemma tame_text: "clip_ok st \<Longrightarrow> writeClipboardPromise env request st = (st', r) \<Longrightarrow> tame st st'"
  by (auto simp: writeClipboardPromise_def write_promise_at_def tame_refl tame_write split: sum.splits option.splits if_splits)

lemma tame_removes:
  assumes "clip_ok st" "ps_disk st' = d" "disk_ok d" "dk_fresh d = dk_fresh (ps_disk st)" "well_keyed (ps_promises st')"
    and "\<And>path x. map_of (dk_names d) path = Some x \<Longrightarrow> map_of (dk_names (ps_disk st)) path = Some x"
    and "\<And>i p. map_of (ps_promises st') i = Some p \<Longrightarrow> map_of (ps_promises st) i = Some p
      \<or> promise_ok d (i, p) \<and> (\<forall>n. cp_file p = Some n \<longrightarrow> (\<exists>q. map_of (ps_promises st) i = Some q \<and> cp_file q = Some n \<and> cp_path q = cp_path p))"
  shows "tame st st'"
proof -
  have "clip_ok st'" using assms(7) by (intro clip_okI [OF assms(1)]) (auto simp: assms(2-5))
  moreover have "\<exists>q. map_of (ps_promises st) j = Some q \<and> cp_file q = cp_file q' \<and> cp_path q = cp_path q'"
    if "map_of (ps_promises st') j = Some q'" "cp_file q' \<noteq> None" for j q'
    using assms(7) [OF that(1)] that(2) by auto
  ultimately show ?thesis unfolding tame_def using assms(2,6) by blast
qed

lemma tame_size:
  assumes "clip_ok st" "setClipboardPromiseSize env request st = (st', out, r)"
  shows "tame st st'"
proof (cases "ownedPromise request st")
  case (Inr pn)
  obtain p n where pn: "pn = (p, n)" by (cases pn)
  note owned = ownedD [OF Inr [unfolded pn]]
  then have p: "map_of (ps_promises st) (cp_id p) = Some p" "n < dk_fresh (ps_disk st)"
    using promise_id [OF assms(1)] promise_file [OF assms(1)] by auto
  have "tame st (st\<lparr>ps_promises := AList.update (cp_id p) (p\<lparr>cp_size := trunc_rat v\<rparr>) (ps_promises st)\<rparr>)"
    if v: "\<not> (v < 0 \<or> v > of_int maxPromiseSize \<or> of_int (trunc_rat v) \<noteq> v)" for v
  proof -
    have "0 \<le> trunc_rat v" "trunc_rat v \<le> maxPromiseSize" using v by (metis not_less of_int_0_le_iff, metis not_less of_int_le_iff)
    then show ?thesis using p owned
      by (intro tame_removes [OF assms(1) refl]) (use clip_okD [OF assms(1)] in \<open>auto simp: promise_ok_def split: if_splits\<close>)
  qed
  then show ?thesis using assms tame_refl
    by (auto simp: setClipboardPromiseSize_def Inr pn Let_def split: list.splits option.splits if_splits)
qed (use assms in \<open>simp add: setClipboardPromiseSize_def tame_refl\<close>)

lemma tame_finish:
  assumes "clip_ok st" "finishClipboardPromise env request st = (st', out, r)"
  shows "tame st st'"
proof (cases "ownedPromise request st")
  case (Inr pn)
  obtain p n where pn: "pn = (p, n)" by (cases pn)
  have st': "st' = st\<lparr>ps_promises := AList.delete (cp_id p) (ps_promises st),
      ps_disk := (if finish_error env request p (ps_disk st) = None then ps_disk st else disk_remove (cp_path p) (ps_disk st))\<rparr>"
    using assms(2) by (simp add: finishClipboardPromise_def Inr pn Let_def)
  show ?thesis unfolding st'
    by (intro tame_removes [OF assms(1) refl])
      (use clip_okD [OF assms(1)] in \<open>auto simp: disk_remove_def split: if_splits\<close>, auto simp: disk_ok_def split: if_splits)
qed (use assms in \<open>simp add: finishClipboardPromise_def tame_refl\<close>)

lemma removed_disk:
  "disk_ok d \<Longrightarrow> disk_ok (fold (\<lambda>(_, p) d. if cp_file p = None then d else disk_remove (cp_path p) d) gone d)
     \<and> dk_fresh (fold (\<lambda>(_, p) d. if cp_file p = None then d else disk_remove (cp_path p) d) gone d) = dk_fresh d"
proof (induction gone arbitrary: d)
  case (Cons e gone)
  then have "disk_ok (if cp_file (snd e) = None then d else disk_remove (cp_path (snd e)) d)" by simp
  from Cons.IH [OF this] show ?case by (cases e) (auto simp: disk_remove_def)
qed simp

lemma tame_cancel:
  assumes "clip_ok st" "cancelFilePromises request service st = (st', out, r)"
  shows "tame st st'"
proof -
  let ?gone = "filter (\<lambda>(_, p). cancels request service p) (ps_promises st)"
  note ok = clip_okD [OF assms(1)]
  have st': "st' = st\<lparr>ps_promises := filter (\<lambda>(_, p). \<not> cancels request service p) (ps_promises st),
      ps_disk := fold (\<lambda>(_, p) d. if cp_file p = None then d else disk_remove (cp_path p) d) ?gone (ps_disk st)\<rparr>"
    using assms(2) by (auto simp: cancelFilePromises_def Let_def split: if_splits option.splits)
  show ?thesis
  proof (rule tame_removes [OF assms(1) refl])
    show "well_keyed (ps_promises st')" using ok by (simp add: st')
    fix i p assume "map_of (ps_promises st') i = Some p"
    then have "map_of (ps_promises st) i = Some p"
      using map_of_filter_keyed [OF conjunct1 [OF ok]] by (auto simp: st' split: option.splits if_splits)
    then show "map_of (ps_promises st) i = Some p \<or> promise_ok (ps_disk st') (i, p)
        \<and> (\<forall>n. cp_file p = Some n \<longrightarrow> (\<exists>q. map_of (ps_promises st) i = Some q \<and> cp_file q = Some n \<and> cp_path q = cp_path p))" ..
  qed (use ok removed_disk in \<open>auto simp: st' removed_names split: if_splits\<close>)
qed

lemma register_offers:
  "well_keyed promises \<Longrightarrow> well_keyed (fst (register_promises env sock appID service k items promises))
     \<and> (\<forall>i p. map_of (fst (register_promises env sock appID service k items promises)) i = Some p \<longrightarrow>
          map_of promises i = Some p \<or> promise_ok d (i, p) \<and> cp_file p = None)"
proof (induction items arbitrary: k promises)
  case (Cons item items)
  let ?run = "\<lambda>k items promises. fst (register_promises env sock appID service k items promises)"
  have size: "0 \<le> NumberArg args 0 0 maxPromiseSize \<and> NumberArg args 0 0 maxPromiseSize \<le> maxPromiseSize" for args
    by (rule NumberArg_bounds) (simp_all add: maxPromiseSize_def)
  have "?run k (item # items) promises = promises \<or> (\<exists>q. promise_ok d (pe_newID env k, q) \<and> cp_file q = None
      \<and> ?run k (item # items) promises = ?run (Suc k) items (AList.update (pe_newID env k) q promises))"
    (is "?stop \<or> (\<exists>q. ?new q)")
  proof (cases "as_obj item")
    case (Some v)
    let ?unknown = "obj_get v ''sizeUnknown'' = BoolV True"
    define q where "q = \<lparr>cp_id = pe_newID env k, cp_appID = appID, cp_service = service,
      cp_sourceID = StringValue (pe_sprint env) (obj_get v ''sourceId''), cp_name = file_name_arg (pe_sprint env) v,
      cp_size = (if ?unknown then -1 else NumberArg [obj_get v ''size''] 0 0 maxPromiseSize), cp_socket = sock,
      cp_destinationSocket = None, cp_destinationAppID = [], cp_path = [], cp_file = None\<rparr>"
    have "promise_ok d (pe_newID env k, q) \<and> cp_file q = None"
      using size [of "[obj_get v ''size'']"] by (simp add: q_def promise_ok_def maxPromiseSize_def)
    moreover have "?stop \<or> ?run k (item # items) promises = ?run (Suc k) items (AList.update (pe_newID env k) q promises)"
      by (simp add: Some q_def [symmetric] Let_def split: prod.split sum.split)
    ultimately show ?thesis by blast
  qed simp
  then show ?case
  proof (elim disjE exE conjE)
    fix q assume q: "promise_ok d (pe_newID env k, q)" "cp_file q = None"
      and run: "?run k (item # items) promises = ?run (Suc k) items (AList.update (pe_newID env k) q promises)"
    have "well_keyed (AList.update (pe_newID env k) q promises)" using Cons.prems by simp
    from Cons.IH [OF this, of "Suc k"] show ?thesis unfolding run using q by (auto split: if_splits)
  qed (use Cons.prems in simp)
qed simp

lemma tame_publish:
  assumes "clip_ok st" "publishFilePromises env sock request service drag st = (st', out, r)"
  shows "tame st st'"
proof (rule tame_removes [OF assms(1) refl])
  note ok = clip_okD [OF assms(1)] and out = publish_promises [OF assms(2)]
  have kept: "well_keyed (kept_offers request service st)" using ok by (simp add: kept_offers_def)
  note reg = register_offers [OF kept, of env sock "m_AppID request" service 0 _ "ps_disk st"]
  show "well_keyed (ps_promises st')" using out reg ok by auto
  fix i p assume p: "map_of (ps_promises st') i = Some p"
  have "map_of (ps_promises st) i = Some p" if "map_of (kept_offers request service st) i = Some p"
    using that map_of_filter_keyed [OF conjunct1 [OF ok]] by (auto simp: kept_offers_def split: option.splits if_splits)
  then have "map_of (ps_promises st) i = Some p \<or> promise_ok (ps_disk st) (i, p) \<and> cp_file p = None" using out reg p by metis
  then show "map_of (ps_promises st) i = Some p \<or> promise_ok (ps_disk st') (i, p)
      \<and> (\<forall>n. cp_file p = Some n \<longrightarrow> (\<exists>q. map_of (ps_promises st) i = Some q \<and> cp_file q = Some n \<and> cp_path q = cp_path p))"
    using out by auto
qed (use clip_okD [OF assms(1)] publish_promises [OF assms(2)] in auto)

lemma drag_ids_keep:
  "well_keyed promises \<Longrightarrow> drag_ids ids promises apps = (promises', apps') \<Longrightarrow> well_keyed promises'
     \<and> (\<forall>j q. map_of promises' j = Some q \<longrightarrow> map_of promises j = Some q)
     \<and> (\<forall>j q. map_of promises j = Some q \<longrightarrow> cp_file q \<noteq> None \<longrightarrow> map_of promises' j = Some q)"
proof (induction ids promises apps rule: drag_ids.induct)
  case (2 i ids promises apps)
  show ?case
  proof (cases "map_of promises i")
    case None
    then have "drag_ids ids promises apps = (promises', apps')" using 2(5) by simp
    then show ?thesis by (rule 2(1) [OF None 2(4)])
  next
    case (Some p)
    let ?kept = "if cp_file p = None then AList.delete i promises else promises"
    show ?thesis
    proof (cases "cp_service p \<noteq> ''drag''")
      case True
      then have "drag_ids ids promises apps = (promises', apps')" using 2(5) Some by simp
      then show ?thesis by (rule 2(2) [OF Some True 2(4)])
    next
      case False
      then have run: "drag_ids ids ?kept (case cp_socket p of None \<Rightarrow> apps | Some s \<Rightarrow> List.insert s apps) = (promises', apps')"
        using 2(5) Some by simp
      have keyed: "well_keyed ?kept" using 2(4) by simp
      note IH = 2(3) [OF Some False keyed run]
      have "map_of promises j = Some q" if "map_of ?kept j = Some q" for j q using that by (auto split: if_splits)
      moreover have "map_of ?kept j = Some q" if "map_of promises j = Some q" "cp_file q \<noteq> None" for j q
        using that Some by auto
      ultimately show ?thesis using IH by meson
    qed
  qed
qed simp

lemma tame_drop:
  assumes "clip_ok st" "handleFilePromiseDragEnd ids operation st = (st', out)"
  shows "tame st st' \<and> ps_disk st' = ps_disk st
    \<and> (\<forall>j q. map_of (ps_promises st) j = Some q \<longrightarrow> cp_file q \<noteq> None \<longrightarrow> map_of (ps_promises st') j = Some q)"
proof -
  obtain promises apps where run: "drag_ids ids (ps_promises st) [] = (promises, apps)" "st' = st\<lparr>ps_promises := promises\<rparr>"
    using assms(2) by (auto simp: handleFilePromiseDragEnd_def split: prod.splits)
  note kept = drag_ids_keep [OF conjunct1 [OF clip_okD [OF assms(1)]] run(1)]
  have table: "ps_promises st' = promises" by (simp add: run(2))
  have "tame st st'"
  proof (rule tame_removes [OF assms(1) refl])
    show "well_keyed (ps_promises st')" using kept by (simp add: run(2))
    fix j q assume "map_of (ps_promises st') j = Some q"
    then have "map_of (ps_promises st) j = Some q" using kept unfolding table by blast
    then show "map_of (ps_promises st) j = Some q \<or> promise_ok (ps_disk st') (j, q)
        \<and> (\<forall>n. cp_file q = Some n \<longrightarrow> (\<exists>q'. map_of (ps_promises st) j = Some q' \<and> cp_file q' = Some n \<and> cp_path q' = cp_path q))" ..
  qed (use clip_okD [OF assms(1)] in \<open>simp_all add: run(2)\<close>)
  moreover have "ps_disk st' = ps_disk st" by (simp add: run(2))
  moreover have "\<forall>j q. map_of (ps_promises st) j = Some q \<longrightarrow> cp_file q \<noteq> None \<longrightarrow> map_of (ps_promises st') j = Some q"
    using kept unfolding table by blast
  ultimately show ?thesis by blast
qed

subsection \<open>A paste among others\<close>

text \<open>The promise \<open>p\<close> is being pasted: it is open, its path is the only name of its file, and no other open promise has either.\<close>

definition pasting :: "string \<Rightarrow> clipboardPromise \<Rightarrow> nat \<Rightarrow> promise_state \<Rightarrow> bool" where
  "pasting i p n st \<longleftrightarrow> clip_ok st \<and> map_of (ps_promises st) i = Some p \<and> cp_file p = Some n
     \<and> map_of (dk_names (ps_disk st)) (cp_path p) = Some (FileAt n)
     \<and> (\<forall>path. map_of (dk_names (ps_disk st)) path = Some (FileAt n) \<longrightarrow> path = cp_path p)
     \<and> (\<forall>j q. map_of (ps_promises st) j = Some q \<longrightarrow> j \<noteq> i \<longrightarrow> cp_file q \<noteq> None \<longrightarrow> cp_file q \<noteq> Some n \<and> cp_path q \<noteq> cp_path p)"

text \<open>What does not touch the promise: its content stays too.\<close>

lemma pasting_kept:
  assumes "pasting i p n st" "tame st st'" "others_kept appID st st'" "cp_appID p \<noteq> appID"
  shows "pasting i p n st' \<and> dk_data (ps_disk st') n = dk_data (ps_disk st) n"
proof -
  have here: "map_of (ps_promises st') i = Some p" using assms by (simp add: pasting_def others_kept_def)
  have mine: "q = p" if "map_of (ps_promises st) j = Some q" "cp_file q = Some n \<or> cp_file q \<noteq> None \<and> cp_path q = cp_path p" for j q
    using assms(1) that by (cases "j = i") (auto simp: pasting_def)
  have "dk_data (ps_disk st') n = dk_data (ps_disk st) n"
    using assms(3,4) mine unfolding others_kept_def by blast
  moreover have "map_of (dk_names (ps_disk st')) (cp_path p) = map_of (dk_names (ps_disk st)) (cp_path p)"
    using assms(3,4) mine unfolding others_kept_def by blast
  moreover have "cp_file q \<noteq> Some n \<and> cp_path q \<noteq> cp_path p"
    if q: "map_of (ps_promises st') j = Some q" "j \<noteq> i" "cp_file q \<noteq> None" for j q
  proof -
    obtain q0 where q0: "map_of (ps_promises st) j = Some q0" "cp_file q0 = cp_file q" "cp_path q0 = cp_path q"
      using assms(2) q unfolding tame_def by blast
    then have "cp_file q0 \<noteq> Some n \<and> cp_path q0 \<noteq> cp_path p" using assms(1) q(2,3) q0(2) unfolding pasting_def by metis
    then show ?thesis by (simp add: q0)
  qed
  ultimately show ?thesis using assms(1,2) here unfolding pasting_def tame_def by auto
qed

lemma others_kept_drop:
  assumes "map_of (ps_promises st) i = Some p" "cp_file p \<noteq> None" "ps_disk st' = ps_disk st"
    and "\<forall>j q. map_of (ps_promises st) j = Some q \<longrightarrow> cp_file q \<noteq> None \<longrightarrow> map_of (ps_promises st') j = Some q"
    and "pasting i p n st" "tame st st'"
  shows "pasting i p n st' \<and> dk_data (ps_disk st') n = dk_data (ps_disk st) n"
proof -
  have "cp_file q \<noteq> Some n \<and> cp_path q \<noteq> cp_path p"
    if q: "map_of (ps_promises st') j = Some q" "j \<noteq> i" "cp_file q \<noteq> None" for j q
  proof -
    obtain q0 where q0: "map_of (ps_promises st) j = Some q0" "cp_file q0 = cp_file q" "cp_path q0 = cp_path q"
      using assms(6) q unfolding tame_def by blast
    then have "cp_file q0 \<noteq> Some n \<and> cp_path q0 \<noteq> cp_path p" using assms(5) q(2,3) q0(2) unfolding pasting_def by metis
    then show ?thesis by (simp add: q0)
  qed
  moreover have "map_of (ps_promises st') i = Some p" "clip_ok st'" using assms(1,2,4,6) unfolding tame_def by blast+
  ultimately show ?thesis using assms(3,5) unfolding pasting_def by auto
qed

lemma pasting_put:
  assumes "pasting i p n st" "promise_accepts env offset raw"
  shows "pasting i p n (promise_put env i (cp_appID p) offset raw st)
    \<and> dk_data (ps_disk (promise_put env i (cp_appID p) offset raw st)) n = pwrite (dk_data (ps_disk st) n) offset raw"
proof -
  have run: "promise_put env i (cp_appID p) offset raw st = st\<lparr>ps_disk := disk_write n offset raw (ps_disk st)\<rparr>"
    using assms by (intro promise_put_runs) (auto simp: pasting_def)
  have "clip_ok (st\<lparr>ps_disk := disk_write n offset raw (ps_disk st)\<rparr>)" using tame_write assms(1) by (auto simp: pasting_def tame_def)
  then show ?thesis using assms(1) unfolding run by (auto simp: pasting_def disk_write_def)
qed

lemma pasting_open:
  assumes "pasting i p n st" "j \<noteq> i" "path \<noteq> cp_path p" "requestFilePromise env j path sock a st = (st', out, r)"
  shows "pasting i p n st' \<and> dk_data (ps_disk st') n = dk_data (ps_disk st) n"
proof (cases "map_of (ps_promises st) j")
  case None
  then show ?thesis using assms by (simp add: requestFilePromise_def)
next
  case (Some q)
  have ok: "clip_ok st" using assms(1) by (simp add: pasting_def)
  have q: "promise_ok (ps_disk st) (j, q)" using ok Some by (auto simp: clip_ok_def list_all_iff dest: map_of_SomeD)
  show ?thesis
  proof (cases "cp_file q \<noteq> None")
    case True
    then show ?thesis using assms(1,4) Some by (auto simp: requestFilePromise_def)
  next
    case closed: False
    show ?thesis
    proof (cases "case pe_fault env of Some e \<Rightarrow> Inl e | None \<Rightarrow> disk_create path (ps_disk st)")
      case (Inl e)
      then have st': "st' = st\<lparr>ps_promises := AList.update j (q\<lparr>cp_path := path\<rparr>) (ps_promises st)\<rparr>"
        using assms(4) Some closed by (simp add: requestFilePromise_def)
      have "clip_ok st'" unfolding st' using ok q by (intro clip_okI [OF ok]) (auto simp: promise_ok_def clip_ok_def split: if_splits)
      then show ?thesis using assms(1,2) closed unfolding st' by (auto simp: pasting_def)
    next
      case (Inr md)
      obtain m d where md: "md = (m, d)" by (cases md)
      then have create: "disk_create path (ps_disk st) = Inr (m, d)" using Inr by (simp split: option.splits)
      have st': "st' = st\<lparr>ps_promises := AList.update j (q\<lparr>cp_path := path, cp_file := Some m, cp_destinationSocket := sock,
          cp_destinationAppID := a\<rparr>) (ps_promises st), ps_disk := d\<rparr>"
        using assms(4) Some closed Inr md by (simp add: requestFilePromise_def)
      have fresh: "n < dk_fresh (ps_disk st)" using promise_file [OF ok, of i p n] assms(1) unfolding pasting_def by blast
      have apart: "map_of (dk_names (ps_disk st)) path \<noteq> Some (FileAt n)"
        using assms(1,3) unfolding pasting_def by blast
      have names: "\<forall>q k. map_of (dk_names (ps_disk st)) q = Some (FileAt k) \<longrightarrow> k < dk_fresh (ps_disk st)"
        using clip_okD [OF ok] by (simp add: disk_ok_def)
      have d: "m \<noteq> n \<and> dk_data d n = dk_data (ps_disk st) n \<and> m < dk_fresh d \<and> dk_fresh (ps_disk st) \<le> dk_fresh d
          \<and> (\<forall>q. map_of (dk_names d) q = (if q = path then Some (FileAt m) else map_of (dk_names (ps_disk st)) q))"
      proof (cases "map_of (dk_names (ps_disk st)) path")
        case None
        then show ?thesis using create fresh by (auto simp: disk_create_def Let_def split: if_splits)
      next
        case (Some x)
        then show ?thesis using create apart names by (cases x) (auto simp: disk_create_def)
      qed
      have "disk_ok d" using disk_ok_create [OF _ create] clip_okD [OF ok] by blast
      then have "clip_ok st'" unfolding st' using clip_okD [OF ok] q d
        by (intro clip_okI [OF ok]) (auto simp: promise_ok_def split: if_splits)
      then show ?thesis using assms(1-3) d unfolding st' by (auto simp: pasting_def split: if_splits)
    qed
  qed
qed

lemma pasting_begins:
  assumes "clip_ok st" "map_of (ps_promises st) i = Some q" "disk_stat (ps_disk st) path = None"
    and "\<forall>e \<in> set (ps_promises st). cp_file (snd e) \<noteq> None \<longrightarrow> cp_path (snd e) \<noteq> path"
    and "requestFilePromise env i path sock a st = (st1, out, None)"
  shows "\<exists>n. pasting i (q\<lparr>cp_path := path, cp_file := Some n, cp_destinationSocket := sock, cp_destinationAppID := a\<rparr>) n st1
    \<and> dk_data (ps_disk st1) n = []"
proof -
  obtain n d where n: "disk_create path (ps_disk st) = Inr (n, d)" "cp_file q = None"
      "st1 = st\<lparr>ps_promises := AList.update i (q\<lparr>cp_path := path, cp_file := Some n, cp_destinationSocket := sock,
        cp_destinationAppID := a\<rparr>) (ps_promises st), ps_disk := d\<rparr>"
    using assms(2,5) by (auto elim: request_opens)
  have d: "n = dk_fresh (ps_disk st)" "dk_names d = AList.update path (FileAt n) (dk_names (ps_disk st))"
      "dk_data d = (dk_data (ps_disk st))(n := [])" "dk_fresh d = Suc n"
    using n(1) assms(3) by (auto simp: stat_none disk_create_def Let_def split: if_splits)
  note ok = clip_okD [OF assms(1)]
  have q: "promise_ok (ps_disk st) (i, q)" using assms(1,2) by (auto simp: clip_ok_def list_all_iff dest: map_of_SomeD)
  have "disk_ok d" using disk_ok_create [OF _ n(1)] ok by blast
  then have "clip_ok st1" unfolding n(3) using ok q d(1,4)
    by (intro clip_okI [OF assms(1)]) (auto simp: promise_ok_def split: if_splits)
  moreover have "m < n" if "map_of (dk_names (ps_disk st)) path' = Some (FileAt m)" for path' m
    using ok that by (auto simp: disk_ok_def d(1))
  moreover have "cp_file q' \<noteq> Some n \<and> cp_path q' \<noteq> path" if "map_of (ps_promises st) j = Some q'" "cp_file q' \<noteq> None" for j q'
    using promise_file [OF assms(1) that(1), of n] map_of_SomeD [OF that(1)] assms(4) that(2) by (auto simp: d(1))
  ultimately show ?thesis by (intro exI [of _ n]) (auto simp: pasting_def n(3) d(2,3))
qed

text \<open>A paste under way: pieces by the app that offered, and between them whatever other apps and pastes do with promises.\<close>

definition promise_methods :: "string set" where
  "promise_methods = {''publishPromises'', ''listPromises'', ''writePromise'', ''writePromiseBinary'', ''promiseStatus'',
     ''setPromiseSize'', ''finishPromise'', ''cancelPromises''}"

inductive paste_trace :: "promise_env \<Rightarrow> string \<Rightarrow> string \<Rightarrow> string \<Rightarrow> promise_state \<Rightarrow> (nat \<times> bytes) list \<Rightarrow> promise_state \<Rightarrow> bool"
  for env i owner path st0 where
  opened: "paste_trace env i owner path st0 [] st0"
| piece: "paste_trace env i owner path st0 ws st \<Longrightarrow> promise_accepts env offset raw \<Longrightarrow>
    paste_trace env i owner path st0 (ws @ [(offset, raw)]) (promise_put env i owner offset raw st)"
| asked: "paste_trace env i owner path st0 ws st \<Longrightarrow> m_AppID request \<noteq> owner \<Longrightarrow> m_Method request \<in> promise_methods \<Longrightarrow>
    fresh_ids other st \<Longrightarrow> handleClipboardRPCWithSocket other sock request body st = (st', out, r) \<Longrightarrow>
    paste_trace env i owner path st0 ws st'"
| dragged: "paste_trace env i owner path st0 ws st \<Longrightarrow> m_AppID request \<noteq> owner \<Longrightarrow> fresh_ids other st \<Longrightarrow>
    handleDragRPC other sock request body st = (st', out, r) \<Longrightarrow> paste_trace env i owner path st0 ws st'"
| pasted: "paste_trace env i owner path st0 ws st \<Longrightarrow> j \<noteq> i \<Longrightarrow> another \<noteq> path \<Longrightarrow>
    requestFilePromise other j another sock a st = (st', out, r) \<Longrightarrow> paste_trace env i owner path st0 ws st'"
| dropped: "paste_trace env i owner path st0 ws st \<Longrightarrow> handleFilePromiseDragEnd ids operation st = (st', out) \<Longrightarrow>
    paste_trace env i owner path st0 ws st'"

lemma asked_tame:
  assumes "clip_ok st" "m_Method request \<in> promise_methods" "handleClipboardRPCWithSocket env sock request body st = (st', out, r)"
  shows "tame st st'"
  using assms(2) unfolding promise_methods_def
proof (elim insertE emptyE)
qed (use assms(1,3) in \<open>auto simp: handleClipboardRPCWithSocket_def tame_refl split: prod.splits
  dest: tame_binary tame_text tame_size tame_finish tame_cancel tame_publish\<close>)

lemma dragged_tame:
  assumes "clip_ok st" "fresh_ids env st" "handleDragRPC env sock request body st = (st', out, r)"
  shows "tame st st' \<and> others_kept (m_AppID request) st st'"
proof (cases "m_Method request \<in> {''startPromises'', ''writePromiseBinary'', ''promiseStatus'', ''setPromiseSize'', ''finishPromise'', ''cancelPromises''}")
  case True
  then show ?thesis
  proof (elim insertE emptyE)
  qed (use assms in \<open>auto simp: handleDragRPC_def tame_refl split: prod.splits if_splits
    dest: tame_binary tame_size tame_finish tame_cancel tame_publish write_binary_kept set_size_kept finish_kept cancel_kept publish_kept\<close>)
next
  case False
  then have "st' = st" using assms(3) by (simp add: handleDragRPC_def)
  then show ?thesis using tame_refl [OF assms(1)] by simp
qed

lemma traced:
  "paste_trace env i (cp_appID p) (cp_path p) st0 ws st \<Longrightarrow> pasting i p n st0 \<Longrightarrow> dk_data (ps_disk st0) n = [] \<Longrightarrow>
   pasting i p n st \<and> dk_data (ps_disk st) n = write_pieces ws []"
proof (induction rule: paste_trace.induct)
  case opened
  then show ?case by (simp add: write_pieces_def)
next
  case (piece ws st offset raw)
  then show ?case using pasting_put [of i p n st env offset raw] by (simp add: write_pieces_def)
next
  case (asked ws st request other sock body st' out r)
  then have now: "pasting i p n st" "clip_ok st" unfolding pasting_def by blast+
  have "others_kept (m_AppID request) st st'"
    using promise_requests_kept [OF now(2) asked.hyps(4) _ asked.hyps(5)] asked.hyps(3) by (simp add: promise_methods_def)
  from pasting_kept [OF now(1) asked_tame [OF now(2) asked.hyps(3,5)] this] show ?case using asked by simp
next
  case (dragged ws st request other sock body st' out r)
  then have now: "pasting i p n st" "clip_ok st" unfolding pasting_def by blast+
  note step = dragged_tame [OF now(2) dragged.hyps(3,4)]
  from pasting_kept [OF now(1) conjunct1 [OF step] conjunct2 [OF step]] show ?case using dragged by simp
next
  case (pasted ws st j another other sock a st' out r)
  then show ?case using pasting_open [OF _ pasted.hyps(2,3,4)] by simp
next
  case (dropped ws st ids operation st' out)
  then have now: "pasting i p n st" "clip_ok st" unfolding pasting_def by blast+
  have "map_of (ps_promises st) i = Some p" "cp_file p \<noteq> None" using now(1) by (simp_all add: pasting_def)
  from others_kept_drop [OF this _ _ now(1)] tame_drop [OF now(2) dropped.hyps(2)] show ?case using dropped by simp
qed

text \<open>
  C24: A paste delivers what was offered, also while others are at work. Let the file of a promise be opened at a path that is
  free then and that no other open promise stands for. Between that and the end the app that offered writes pieces of a
  content of the announced size, in any order and with repetitions, until all of it is covered, and each is written without
  an error. In between, other apps may make any promise request of the clipboard service and any of the drag service, under
  ids not yet in use, other promises may be opened at other paths, and drags may end. Then, if closing the file does not fail,
  finishing answers with the path and the announced size, the file at the path has exactly the content, the promise is gone, and
  the app that pasted is told so without an error.
\<close>

theorem a_paste_delivers_the_offer:
  assumes "clip_ok st" "map_of (ps_promises st) i = Some q" "disk_stat (ps_disk st) path = None"
    and "\<forall>e \<in> set (ps_promises st). cp_file (snd e) \<noteq> None \<longrightarrow> cp_path (snd e) \<noteq> path"
    and "requestFilePromise env i path sock a st = (st1, out, None)"
    and "paste_trace env i (cp_appID q) path st1 ws st2"
    and "\<forall>w \<in> set ws. piece_of whole w" "covered ws = {..< length whole}" "int (length whole) = cp_size q" "pe_close env = None"
    and "finishClipboardPromise env (promise_request ''finishPromise'' (cp_appID q) [StrV i]) st2 = (st3, out3, r)"
  shows "r = Inr (path, cp_size q) \<and> disk_read (ps_disk st3) path = Some whole \<and> map_of (ps_promises st3) i = None
    \<and> (\<forall>s. sock = Some s \<longrightarrow> PromiseCompleted s i path (cp_name q) (cp_size q) a [] \<in> set out3)"
proof -
  let ?p = "\<lambda>n. q\<lparr>cp_path := path, cp_file := Some n, cp_destinationSocket := sock, cp_destinationAppID := a\<rparr>"
  obtain n where n: "pasting i (?p n) n st1" "dk_data (ps_disk st1) n = []" using pasting_begins [OF assms(1-5)] by blast
  have "pasting i (?p n) n st2 \<and> dk_data (ps_disk st2) n = write_pieces ws []"
    using traced [OF _ n] assms(6) by simp
  then have st2: "pasting i (?p n) n st2" "dk_data (ps_disk st2) n = whole" using pieces_complete [OF assms(7,8)] by simp_all
  let ?r = "promise_request ''finishPromise'' (cp_appID q) [StrV i]"
  have id: "cp_id q = i" using promise_id [OF assms(1,2)] .
  have owned: "ownedPromise ?r st2 = Inr (?p n, n)"
    using st2(1) by (simp add: ownedPromise_def promise_request_def StringArg_def as_str_def pasting_def)
  have "disk_stat (ps_disk st2) path = Some \<lparr>fi_IsDir = False, fi_Size = cp_size q\<rparr>"
    using st2 by (simp add: disk_stat_def pasting_def assms(9))
  then have "finish_error env ?r (?p n) (ps_disk st2) = None"
    by (simp add: finish_error_def promise_request_def assms(10))
  moreover have "disk_read (ps_disk st2) path = Some whole" using st2 by (simp add: disk_read_def pasting_def)
  ultimately show ?thesis using assms(11)
    by (auto simp: finishClipboardPromise_def owned id Let_def split: option.splits)
qed

definition paste_request :: "string \<Rightarrow> message" where
  "paste_request i = promise_request ''requestPromise'' ''bob/y'' [StrV i, StrV ''/d'']"

lemma sample_choice: "choose_destination sample_promise_env (paste_request ''a'') = Inr ''/d/f''"
    "choose_destination sample_promise_env (paste_request ''b'') = Inr ''/d/f''"
proof -
  have "path_abs ''/'' ''/d'' = ''/d''" "path_join ''/d'' ''f'' = ''/d/f''" "path_base ''f'' = ''f''" by code_simp+
  then show "choose_destination sample_promise_env (paste_request ''a'') = Inr ''/d/f''"
      "choose_destination sample_promise_env (paste_request ''b'') = Inr ''/d/f''"
    by (simp_all add: choose_destination_def clipboardAvailablePath_def paste_request_def promise_request_def StringArg_def as_str_def
        sample_promises_def sample_promise_def sample_promise_env_def disk_stat_def Let_def)
qed

lemma sample_opened:
  "\<exists>st1 out. requestFilePromise sample_promise_env i ''/d/f'' sock appID sample_promises = (st1, out, None)
     \<and> map_option cp_file (map_of (ps_promises st1) i) = Some (Some 0)
     \<and> ps_promises st1 = AList.update i (the (map_of (ps_promises st1) i)) (ps_promises sample_promises)
     \<and> map_of (dk_names (ps_disk st1)) ''/d/f'' = Some (FileAt 0)"
  if "i \<in> {''a'', ''b''}"
proof -
  have "path_dir ''/d/f'' = ''/d''" by code_simp
  then show ?thesis using that
    by (auto simp: requestFilePromise_def sample_promises_def sample_promise_def sample_promise_env_def disk_create_def Let_def)
qed

text \<open>Between the two pieces the other app cancels its own promises.\<close>

theorem a_paste_delivers_the_offer_witness:
  "let st1 = fst (requestFilePromise sample_promise_env ''a'' ''/d/f'' (Some 2) ''bob/y'' sample_promises);
       put = promise_put sample_promise_env ''a'' ''alice/x'';
       cancel = fst \<circ> handleClipboardRPCWithSocket sample_promise_env None (promise_request ''cancelPromises'' ''bob/y'' []) []
   in snd (snd (finishClipboardPromise sample_promise_env (promise_request ''finishPromise'' ''alice/x'' [StrV ''a''])
        (put 0 [7] (cancel (put 1 [8] st1))))) = Inr (''/d/f'', 2)"
proof -
  let ?env = sample_promise_env and ?q = "sample_promise ''a'' ''alice/x''" and ?cancel = "promise_request ''cancelPromises'' ''bob/y'' []"
  obtain st1 out where run: "requestFilePromise ?env ''a'' ''/d/f'' (Some 2) ''bob/y'' sample_promises = (st1, out, None)"
      and st1: "ps_promises st1 = AList.update ''a'' (the (map_of (ps_promises st1) ''a'')) (ps_promises sample_promises)"
    using sample_opened [of "''a''"] by blast
  let ?put = "promise_put ?env ''a'' ''alice/x''"
  have accepts: "promise_accepts ?env 1 [8]" "promise_accepts ?env 0 [7]"
    by (simp_all add: promise_accepts_def sample_promise_env_def maxPromiseSize_def)
  obtain st2 out2 r2 where cancel: "handleClipboardRPCWithSocket ?env None ?cancel [] (?put 1 [8] st1) = (st2, out2, r2)" by (rule prod_cases3)
  have "ps_promises (?put 1 [8] st1) = ps_promises st1"
    by (auto simp: promise_put_def writeClipboardPromiseBinary_def write_promise_at_def split: sum.split option.split)
  then have "map_of (ps_promises (?put 1 [8] st1)) (pe_newID ?env k) = None" for k
    by (simp only:, subst st1) (simp add: sample_promises_def sample_promise_env_def)
  then have fresh: "fresh_ids ?env (?put 1 [8] st1)" by (simp add: fresh_ids_def)
  have "paste_trace ?env ''a'' ''alice/x'' ''/d/f'' st1 [] st1" by (rule paste_trace.opened)
  from paste_trace.piece [OF this accepts(1)]
  have "paste_trace ?env ''a'' ''alice/x'' ''/d/f'' st1 [(1, [8])] (?put 1 [8] st1)" by simp
  from paste_trace.asked [OF this _ _ fresh cancel]
  have "paste_trace ?env ''a'' ''alice/x'' ''/d/f'' st1 [(1, [8])] st2" by (simp add: promise_request_def promise_methods_def)
  from paste_trace.piece [OF this accepts(2)]
  have trace: "paste_trace ?env ''a'' (cp_appID ?q) ''/d/f'' st1 [(1, [8]), (0, [7])] (?put 0 [7] st2)" by (simp add: sample_promise_def)
  obtain st3 out3 r where fin: "finishClipboardPromise ?env (promise_request ''finishPromise'' (cp_appID ?q) [StrV ''a'']) (?put 0 [7] st2) = (st3, out3, r)"
    by (rule prod_cases3)
  have "r = Inr (''/d/f'', cp_size ?q)"
  proof (rule a_paste_delivers_the_offer [OF sample_clip_ok _ _ _ run trace _ _ _ _ fin, THEN conjunct1])
    show "covered [(1, [8]), (0, [7])] = {..< length [7 :: byte, 8]}" by (auto simp: covered_def)
    show "\<forall>w \<in> set [(1, [8]), (0, [7])]. piece_of [7, 8] w" by (simp add: piece_of_def)
  qed (simp_all add: sample_promises_def sample_promise_def sample_promise_env_def disk_stat_def)
  then show ?thesis using fin by (simp add: run cancel [unfolded One_nat_def] Let_def sample_promise_def)
qed

theorem a_finished_paste_is_whole_witness:
  "disk_stat (ps_disk (fst (finishClipboardPromise sample_promise_env (promise_request ''finishPromise'' ''alice/x'' [StrV ''a''])
     (fst (requestFilePromise sample_promise_env ''a'' ''/d/f'' None [] sample_promises))))) ''/d/f'' = None"
proof -
  let ?env = sample_promise_env and ?r = "promise_request ''finishPromise'' ''alice/x'' [StrV ''a'']"
  have "path_dir ''/d/f'' = ''/d''" by code_simp
  then obtain st1 out where run: "requestFilePromise ?env ''a'' ''/d/f'' None [] sample_promises = (st1, out, None)"
      and st1: "clip_ok st1" "map_of (ps_promises st1) ''a'' = Some ((sample_promise ''a'' ''alice/x'')\<lparr>cp_path := ''/d/f'', cp_file := Some 0\<rparr>)"
        "disk_stat (ps_disk st1) ''/d/f'' = Some \<lparr>fi_IsDir = False, fi_Size = 0\<rparr>"
    by (auto simp: requestFilePromise_def sample_promises_def sample_promise_def sample_promise_env_def disk_create_def Let_def
        clip_ok_def well_keyed_def disk_ok_def promise_ok_def maxPromiseSize_def disk_stat_def)
  obtain st2 out2 r where fin: "finishClipboardPromise ?env ?r st1 = (st2, out2, r)" by (rule prod_cases3)
  have owned: "ownedPromise ?r st1 = Inr ((sample_promise ''a'' ''alice/x'')\<lparr>cp_path := ''/d/f'', cp_file := Some 0\<rparr>, 0)"
    by (simp add: ownedPromise_def promise_request_def StringArg_def as_str_def st1 sample_promise_def)
  have "finish_error ?env ?r ((sample_promise ''a'' ''alice/x'')\<lparr>cp_path := ''/d/f'', cp_file := Some 0\<rparr>) (ps_disk st1)
      = Some ''clipboard promise size does not match''"
    by (simp add: finish_error_def promise_request_def sample_promise_env_def st1(3) sample_promise_def)
  then have "r = Inl ''clipboard promise size does not match''" using fin
    by (simp add: finishClipboardPromise_def owned Let_def)
  then show ?thesis using a_finished_paste_is_whole [OF st1(1) owned fin] by (simp add: run fin)
qed

subsection \<open>What goes wrong\<close>

lemma register_adds:
  "register_promises env sock appID service k items promises = (promises1, Inr entries) \<Longrightarrow>
   items \<noteq> [] \<or> (\<exists>e \<in> set promises. cp_appID (snd e) = appID \<and> cp_service (snd e) = service) \<Longrightarrow>
   \<exists>e \<in> set promises1. cp_appID (snd e) = appID \<and> cp_service (snd e) = service"
proof (induction items arbitrary: k promises promises1 entries)
  case (Cons item items)
  have new: "\<exists>e \<in> set (AList.update j p P). cp_appID (snd e) = appID \<and> cp_service (snd e) = service"
    if "cp_appID p = appID" "cp_service p = service" for j p and P :: "(string, clipboardPromise) gomap"
    using that by (intro bexI [of _ "(j, p)"]) (auto intro: map_of_SomeD)
  show ?case using Cons.prems(1)
    by (auto simp: Let_def split: option.splits if_splits prod.splits sum.splits dest!: Cons.IH [OF _ disjI2 [OF new]])
qed simp

text \<open>
  Where the platform has no file promises, an offer fails but stays in the table, and the app that then
  cancels its offers makes the agent call a method of a helper that does not exist: it panics.
\<close>

theorem cancel_without_helper_panics:
  assumes "\<not> pe_supported env" "ps_bridge st = None" "m_Args request = [ArrV raw]" "raw \<noteq> []" "length raw \<le> 32"
    and "register_promises env sock (m_AppID request) service 0 raw (kept_offers request service st) = (promises, Inr entries)"
    and "publishFilePromises env sock request service drag st = (st1, out, r)"
  shows "r = Failed ''native file promises are not supported on this platform''
    \<and> snd (cancelFilePromises request service st1) = ([], Panicked)"
proof -
  have attempts: "bridge_attempts env drag entries [0, 1] [] (st\<lparr>ps_promises := promises\<rparr>) = (st1, out, r)"
    using assms(3-7) by (simp add: publishFilePromises_def kept_offers_def as_arr_def)
  have run: "st1 = st\<lparr>ps_promises := promises\<rparr>" "r = Failed ''native file promises are not supported on this platform''"
    using attempts assms(1,2) by (auto simp: ensureFilePromiseBridge_def)
  obtain i p where "(i, p) \<in> set promises" "cancels request service p"
    using register_adds [OF assms(6)] assms(4) by (auto simp: cancels_def)
  then have "filter (\<lambda>(_, p). cancels request service p) promises \<noteq> []"
    by (auto simp: filter_empty_conv intro!: bexI [of _ "(i, p)"])
  then show ?thesis using assms(2) by (simp add: run cancelFilePromises_def Let_def)
qed

theorem cancel_without_helper_panics_witness:
  "snd (cancelFilePromises (promise_request ''publishPromises'' ''alice/x'' [ArrV [ObjV [(''name'', StrV ''f''), (''sourceId'', StrV ''s'')]]]) ''clipboard''
     (fst (publishFilePromises sample_promise_env None
       (promise_request ''publishPromises'' ''alice/x'' [ArrV [ObjV [(''name'', StrV ''f''), (''sourceId'', StrV ''s'')]]]) ''clipboard'' False
       sample_promises))) = ([], Panicked)"
proof -
  let ?raw = "[ObjV [(''name'', StrV ''f''), (''sourceId'', StrV ''s'')]]"
  let ?r = "promise_request ''publishPromises'' ''alice/x'' [ArrV ?raw]"
  obtain st1 out r where run: "publishFilePromises sample_promise_env None ?r ''clipboard'' False sample_promises = (st1, out, r)"
    by (rule prod_cases3)
  have "path_base ''f'' = ''f''" by code_simp
  then obtain promises entries where reg: "register_promises sample_promise_env None (m_AppID ?r) ''clipboard'' 0 ?raw
      (kept_offers ?r ''clipboard'' sample_promises) = (promises, Inr entries)"
    by (auto simp: as_obj_def file_name_arg_def obj_get_def StringValue_def Let_def)
  have "snd (cancelFilePromises ?r ''clipboard'' st1) = ([], Panicked)"
    by (rule cancel_without_helper_panics [OF _ _ _ _ _ reg run, THEN conjunct2])
      (simp_all add: sample_promise_env_def sample_promises_def promise_request_def)
  then show ?thesis by (simp only: run fst_conv)
qed

text \<open>
  The free name of a paste is chosen before the promise is opened, outside the lock. Two pastes of files
  of one name into one directory can choose the same path; both are then open on the same file, and
  the second empties what the first has received.
\<close>

theorem two_pastes_share_a_file:
  assumes "i \<noteq> j" "choose_destination env r1 = Inr path" "choose_destination env r2 = Inr path"
    and "StringArg (m_Args r1) 0 = i" "StringArg (m_Args r2) 0 = j"
    and "requestFilePromise env i path s1 a1 st = (st1, out1, None)"
    and "d = disk_write n offset raw (ps_disk st1)" "map_option cp_file (map_of (ps_promises st1) i) = Some (Some n)"
    and "requestFilePromise env j path s2 a2 (st1\<lparr>ps_disk := d\<rparr>) = (st2, out2, None)"
  shows "map_option cp_file (map_of (ps_promises st2) i) = Some (Some n) \<and> map_option cp_file (map_of (ps_promises st2) j) = Some (Some n)
    \<and> dk_data (ps_disk st2) n = []"
proof -
  obtain p m d1 where p: "map_of (ps_promises st) i = Some p" "cp_file p = None" "disk_create path (ps_disk st) = Inr (m, d1)"
      "st1 = st\<lparr>ps_promises := AList.update i (p\<lparr>cp_path := path, cp_file := Some m, cp_destinationSocket := s1,
        cp_destinationAppID := a1\<rparr>) (ps_promises st), ps_disk := d1\<rparr>"
    using assms(6) by (rule request_opens)
  have m: "m = n" using assms(8) by (simp add: p(4))
  have at: "map_of (dk_names d) path = Some (FileAt n)" using disk_create_at [OF p(3)] by (simp add: assms(7) p(4) m)
  obtain q k d2 where q: "disk_create path d = Inr (k, d2)"
      "st2 = st1\<lparr>ps_promises := AList.update j (q\<lparr>cp_path := path, cp_file := Some k, cp_destinationSocket := s2,
        cp_destinationAppID := a2\<rparr>) (ps_promises st1), ps_disk := d2\<rparr>"
    using assms(9) by (rule request_opens) simp
  have "k = n" "dk_data d2 n = []" using q(1) at by (auto simp: disk_create_def)
  then show ?thesis using assms(1) by (simp add: q(2) p(4) m)
qed

theorem two_pastes_share_a_file_witness:
  "let st1 = fst (requestFilePromise sample_promise_env ''a'' ''/d/f'' None [] sample_promises);
       st2 = fst (requestFilePromise sample_promise_env ''b'' ''/d/f'' None [] (st1\<lparr>ps_disk := disk_write 0 0 [7, 8] (ps_disk st1)\<rparr>))
   in map_option cp_file (map_of (ps_promises st2) ''a'') = Some (Some 0) \<and> map_option cp_file (map_of (ps_promises st2) ''b'') = Some (Some 0)
     \<and> dk_data (ps_disk st2) 0 = []"
proof -
  let ?env = sample_promise_env
  have arg: "StringArg (m_Args (paste_request i)) 0 = i" for i
    by (simp add: paste_request_def promise_request_def StringArg_def as_str_def)
  obtain st1 out1 where run1: "requestFilePromise ?env ''a'' ''/d/f'' None [] sample_promises = (st1, out1, None)"
      and st1: "map_option cp_file (map_of (ps_promises st1) ''a'') = Some (Some 0)"
        "ps_promises st1 = AList.update ''a'' (the (map_of (ps_promises st1) ''a'')) (ps_promises sample_promises)"
        "map_of (dk_names (ps_disk st1)) ''/d/f'' = Some (FileAt 0)"
    using sample_opened [of "''a''" None "[]"] by blast
  let ?st = "st1\<lparr>ps_disk := disk_write 0 0 [7, 8] (ps_disk st1)\<rparr>"
  have b: "map_of (ps_promises st1) ''b'' = Some (sample_promise ''b'' ''bob/y'')"
    by (subst st1(2)) (simp add: sample_promises_def)
  obtain st2 out2 where run2: "requestFilePromise ?env ''b'' ''/d/f'' None [] ?st = (st2, out2, None)"
    using b st1(3) by (simp add: requestFilePromise_def sample_promise_def sample_promise_env_def disk_create_def)
  show ?thesis
    using two_pastes_share_a_file [OF _ sample_choice(1,2) arg arg run1 refl st1(1) run2] by (simp add: run1 run2 Let_def)
qed

end
