(* ===== verification/Search.thy ===== *)
theory Search
  imports Any_Value Frames Paths
begin

text \<open>
  File search (\<open>shellagent/services.go\<close>): the index of the configured roots, queries on it, and the live
  search for one file name. The index file is the list of its entries, because a line that was
  written is read back as the entry it was made of (entries fit the scanner's buffer of two megabytes); clocks, the directory tree and the order in which
  concurrent listings arrive are given. Paths are Unix paths; \<open>os\<close> is \<open>runtime.GOOS\<close>.
\<close>

record searchConfig =
  sc_Roots :: "string list"
  sc_Exclusions :: "string list"
  sc_Count :: nat
  sc_UpdatedAt :: string

record searchEntry =
  se_Path :: string
  se_Name :: string
  se_Ext :: string
  se_IsDir :: bool
  se_Size :: int
  se_MtimeMs :: int

text \<open>A directory entry: \<open>Info\<close> fails for an entry that has vanished.\<close>

record dirent =
  de_Name :: string
  de_IsDir :: bool
  de_Symlink :: bool
  de_Regular :: bool
  de_Info :: "(int \<times> int) option"

subsection \<open>Roots\<close>

text \<open>\<open>appendUniqueSearchRoot\<close>: the roots and the keys seen.\<close>

definition search_key :: "string \<Rightarrow> string \<Rightarrow> string" where
  "search_key os path = (if os = ''windows'' then to_lower path else path)"

definition appendUniqueSearchRoot :: "string \<Rightarrow> string \<Rightarrow> string list \<times> string list \<Rightarrow> string list \<times> string list" where
  "appendUniqueSearchRoot os v acc =
     (let path = path_clean v; key = search_key os path
      in if \<not> rooted path \<or> key \<in> set (snd acc) then acc else (fst acc @ [path], snd acc @ [key]))"

fun unique_root_paths :: "string \<Rightarrow> string list \<Rightarrow> string list \<Rightarrow> string list" where
  "unique_root_paths os seen [] = []"
| "unique_root_paths os seen (r # rs) =
     (let path = path_clean r; key = search_key os path
      in if path \<in> {''.'', []} \<or> key \<in> set seen then unique_root_paths os seen rs
         else path # unique_root_paths os (key # seen) rs)"

definition drive_root :: "string \<Rightarrow> bool" where
  "drive_root path \<longleftrightarrow> length path = 3 \<and> path ! 1 = CHR '':'' \<and> path ! 2 \<in> {CHR 0x5C, CHR ''/''}"

definition defaultFileSearchRootsFrom :: "string \<Rightarrow> string \<Rightarrow> string list \<Rightarrow> string list" where
  "defaultFileSearchRootsFrom platform home roots =
     (if platform = ''android'' then [home]
      else
        (let paths = unique_root_paths platform [] roots; drives = filter drive_root paths
         in if platform = ''windows'' \<and> drives \<noteq> [] then drives else if paths = [] then [home] else paths))"

definition liveVolumeRoots :: "string \<Rightarrow> string list" where
  "liveVolumeRoots os =
     (if os = ''windows'' then [] else if os = ''darwin'' then [''/Volumes''] else [''/mnt'', ''/media'', ''/run/media''])"

definition liveFileSearchRoots :: "string \<Rightarrow> string \<Rightarrow> string list \<Rightarrow> searchConfig \<Rightarrow> string list" where
  "liveFileSearchRoots os home defaults config =
     fst (fold (appendUniqueSearchRoot os)
       (map (path_join home) [''Downloads'', ''Videos'', ''Desktop'', ''Documents'', ''Movies'']
        @ liveVolumeRoots os @ sc_Roots config @ defaults) ([], []))"

definition liveSearchSkipDirName :: "string \<Rightarrow> bool" where
  "liveSearchSkipDirName name \<longleftrightarrow>
     name \<in> {''node_modules'', ''.git'', ''.hg'', ''.svn'', ''.cache'', ''.npm'', ''.yarn'', ''.pnpm-store'', ''.Trash'', ''$Recycle.Bin'',
       ''$RECYCLE.BIN'', ''System Volume Information'', ''Caches'', ''DerivedData'', ''__pycache__''}"

definition liveSearchSkipDir :: "string \<Rightarrow> string \<Rightarrow> string \<Rightarrow> string \<Rightarrow> bool" where
  "liveSearchSkipDir os home path name \<longleftrightarrow>
     (if liveSearchSkipDirName name then True
      else if os = ''windows''
      then to_lower name \<in> {''windows'', ''program files'', ''program files (x86)'', ''programdata''} \<and> length (path_dir (path_clean path)) \<le> 3
      else equal_fold (path_clean path) (path_join home ''Library'')
        \<or> path_clean path \<in> {''/System'', ''/Library'', ''/private'', ''/dev'', ''/usr'', ''/bin'', ''/sbin'', ''/opt'', ''/cores'', ''/Network'',
            ''/proc'', ''/var'', ''/Applications'', ''/lost+found''})"

text \<open>\<open>stringSlice\<close>: the absolute paths of an argument, without repetition.\<close>

fun slice_paths :: "(any \<Rightarrow> string) \<Rightarrow> string list \<Rightarrow> any list \<Rightarrow> string list" where
  "slice_paths sprint seen [] = []"
| "slice_paths sprint seen (v # vs) =
     (let path = path_clean (StringValue sprint v)
      in if rooted path \<and> path \<notin> set seen then path # slice_paths sprint (path # seen) vs else slice_paths sprint seen vs)"

definition stringSlice :: "(any \<Rightarrow> string) \<Rightarrow> any \<Rightarrow> string list" where
  "stringSlice sprint v = (case as_arr v of None \<Rightarrow> [] | Some vs \<Rightarrow> slice_paths sprint [] vs)"

definition withinPath :: "string \<Rightarrow> string \<Rightarrow> bool" where
  "withinPath candidate parent =
     (case path_rel parent candidate of None \<Rightarrow> False | Some relative \<Rightarrow> relative = ''.'' \<or> rel_inside relative)"

subsection \<open>The index\<close>

text \<open>What \<open>WalkDir\<close> meets below a root: an entry and what \<open>ReadDir\<close> lists there, in its order.\<close>

datatype dir_tree = DirTree dirent "dir_tree list"

fun tree_entry :: "dir_tree \<Rightarrow> dirent" where
  "tree_entry (DirTree e _) = e"

definition search_ext :: "string \<Rightarrow> string" where
  "search_ext name = trim_prefix (to_lower (path_ext name)) ''.''"

definition index_entry :: "string \<Rightarrow> dirent \<Rightarrow> searchEntry list" where
  "index_entry path e =
     (case de_Info e of
        None \<Rightarrow> []
      | Some (n, mtime) \<Rightarrow> [\<lparr>se_Path = path, se_Name = de_Name e, se_Ext = search_ext (de_Name e), se_IsDir = de_IsDir e, se_Size = n,
                             se_MtimeMs = mtime\<rparr>])"

text \<open>An excluded directory is skipped with all below it, an excluded file alone.\<close>

fun walk_index :: "string list \<Rightarrow> string \<Rightarrow> dir_tree \<Rightarrow> searchEntry list" where
  "walk_index exclusions path (DirTree e children) =
     (if \<exists>x \<in> set exclusions. withinPath path x then []
      else index_entry path e
        @ concat (map (\<lambda>child. walk_index exclusions (path_join path (de_Name (tree_entry child))) child) children))"

record search_env =
  sv_os :: string
  sv_home :: string
  sv_roots :: "string list" \<comment> \<open>\<open>defaultFileSearchRoots\<close>\<close>
  sv_tree :: "string \<Rightarrow> dir_tree option"
  sv_list :: "string \<Rightarrow> dirent list" \<comment> \<open>\<open>ReadDir\<close>, which lists nothing where it fails\<close>
  sv_arrive :: "(string \<times> dirent list) list \<Rightarrow> (string \<times> dirent list) list"
  sv_expired :: "nat \<Rightarrow> bool" \<comment> \<open>the deadline, at each look\<close>
  sv_now :: string
  sv_sprint :: "any \<Rightarrow> string"
  sv_unreadable :: "string option" \<comment> \<open>of reading the configuration\<close>
  sv_fault :: "string option" \<comment> \<open>of opening the index to write\<close>
  sv_config_fault :: "string option" \<comment> \<open>of writing the configuration\<close>

record search_state =
  st_config :: "searchConfig option"
  st_index :: "searchEntry list option"

definition loadSearchConfig :: "search_env \<Rightarrow> search_state \<Rightarrow> string + searchConfig" where
  "loadSearchConfig env st =
     (case st_config st of
        None \<Rightarrow> Inr \<lparr>sc_Roots = sv_roots env, sc_Exclusions = [], sc_Count = 0, sc_UpdatedAt = []\<rparr>
      | Some c \<Rightarrow> (case sv_unreadable env of Some e \<Rightarrow> Inl e | None \<Rightarrow> Inr c))"

definition search_options :: "(any \<Rightarrow> string) \<Rightarrow> obj \<Rightarrow> searchConfig \<Rightarrow> searchConfig" where
  "search_options sprint options config =
     (let roots = stringSlice sprint (obj_get options ''roots'');
          config1 = (if roots = [] then config else config\<lparr>sc_Roots := roots\<rparr>)
      in case map_of options ''exclusions'' of
           None \<Rightarrow> config1
         | Some v \<Rightarrow> config1\<lparr>sc_Exclusions := stringSlice sprint v\<rparr>)"

definition index_entries_of :: "search_env \<Rightarrow> searchConfig \<Rightarrow> searchEntry list" where
  "index_entries_of env config =
     concat (map (\<lambda>root. case sv_tree env root of None \<Rightarrow> [] | Some t \<Rightarrow> walk_index (sc_Exclusions config) root t) (sc_Roots config))"

definition rebuildSearch :: "search_env \<Rightarrow> obj \<Rightarrow> search_state \<Rightarrow> search_state \<times> (string + searchConfig)" where
  "rebuildSearch env options st =
     (case loadSearchConfig env st of
        Inl e \<Rightarrow> (st, Inl e)
      | Inr config0 \<Rightarrow>
          (case sv_fault env of
             Some e \<Rightarrow> (st, Inl e)
           | None \<Rightarrow>
               (let config1 = search_options (sv_sprint env) options config0; entries = index_entries_of env config1;
                    config = config1\<lparr>sc_Count := length entries, sc_UpdatedAt := sv_now env\<rparr>
                in case sv_config_fault env of
                     Some e \<Rightarrow> (st\<lparr>st_index := Some entries\<rparr>, Inl e)
                   | None \<Rightarrow> (\<lparr>st_config = Some config, st_index = Some entries\<rparr>, Inr config))))"

subsection \<open>Live search\<close>

definition validExactFileName :: "string \<Rightarrow> bool" where
  "validExactFileName v =
     (let name = trim_space v
      in name \<notin> {[], ''.'', ''..''} \<and> length name \<le> 255 \<and> \<not> contains_any name [CHR 0x00, CHR ''/'', CHR 0x5C])"

text \<open>One listing: directories are queued, matches are collected, and a full list ends the listing.\<close>

fun scan_listing :: "search_env \<Rightarrow> searchConfig \<Rightarrow> string \<Rightarrow> nat \<Rightarrow> string \<Rightarrow> dirent list \<Rightarrow> string list \<Rightarrow> searchEntry list
    \<Rightarrow> string list \<times> searchEntry list" where
  "scan_listing env config name limit dir [] queue results = (queue, results)"
| "scan_listing env config name limit dir (e # es) queue results =
     (let path = path_join dir (de_Name e)
      in if (\<exists>x \<in> set (sc_Exclusions config). withinPath path x) \<or> de_Symlink e
         then scan_listing env config name limit dir es queue results
         else
           (let queue1 = (if de_IsDir e \<and> \<not> liveSearchSkipDir (sv_os env) (sv_home env) path (de_Name e) then queue @ [path] else queue)
            in if \<not> equal_fold (de_Name e) name \<or> de_Info e = None \<or> (\<not> de_IsDir e \<and> \<not> de_Regular e)
               then scan_listing env config name limit dir es queue1 results
               else
                 (let results1 = results @ index_entry path e
                  in if limit \<le> length results1 then (queue1, results1)
                     else scan_listing env config name limit dir es queue1 results1)))"

text \<open>The listings of a batch, as they arrive; the clock is looked at before each.\<close>

fun scan_batch :: "search_env \<Rightarrow> searchConfig \<Rightarrow> string \<Rightarrow> nat \<Rightarrow> (string \<times> dirent list) list \<Rightarrow> nat \<Rightarrow> string list \<Rightarrow> searchEntry list
    \<Rightarrow> nat \<times> string list \<times> searchEntry list \<times> bool" where
  "scan_batch env config name limit [] tick queue results = (tick, queue, results, False)"
| "scan_batch env config name limit ((dir, es) # rest) tick queue results =
     (if sv_expired env tick then (tick, queue, results, True)
      else (case scan_listing env config name limit dir es queue results of
              (queue1, results1) \<Rightarrow> scan_batch env config name limit rest (Suc tick) queue1 results1))"

text \<open>The directories of a batch that are read: not yet visited and not skipped.\<close>

fun launch_batch :: "search_env \<Rightarrow> string list \<Rightarrow> string list \<Rightarrow> string list \<times> (string \<times> dirent list) list" where
  "launch_batch env visited [] = (visited, [])"
| "launch_batch env visited (dir # dirs) =
     (let key = search_key (sv_os env) dir
      in if key \<in> set visited \<or> liveSearchSkipDir (sv_os env) (sv_home env) dir (path_base dir) then launch_batch env visited dirs
         else (case launch_batch env (key # visited) dirs of (visited1, launched) \<Rightarrow> (visited1, (dir, sv_list env dir) # launched)))"

definition live_round :: "search_env \<Rightarrow> searchConfig \<Rightarrow> string \<Rightarrow> nat \<Rightarrow> string list \<Rightarrow> string list \<Rightarrow> nat \<Rightarrow> searchEntry list
    \<Rightarrow> string list \<times> nat \<times> string list \<times> searchEntry list \<times> bool" where
  "live_round env config name limit visited queue tick results =
     (case launch_batch env visited (take 32 queue) of
        (visited1, launched) \<Rightarrow>
          (visited1, scan_batch env config name limit (sv_arrive env launched) (Suc tick) (drop 32 queue) results))"

text \<open>The loop, which may not end when directories never do.\<close>

partial_function (option) live_loop :: "search_env \<Rightarrow> searchConfig \<Rightarrow> string \<Rightarrow> nat \<Rightarrow> string list \<Rightarrow> string list \<Rightarrow> nat
    \<Rightarrow> searchEntry list \<Rightarrow> (searchEntry list \<times> bool) option" where
  [code]: "live_loop env config name limit visited queue tick results =
     (if queue = [] \<or> limit \<le> length results then Some (results, False)
      else if sv_expired env tick then Some (results, True)
      else
        (case live_round env config name limit visited queue tick results of
           (visited1, tick1, queue1, results1, timedOut) \<Rightarrow>
             if timedOut then Some (results1, True)
             else if results1 \<noteq> [] then Some (results1, False)
             else live_loop env config name limit visited1 queue1 tick1 results1))"

definition liveExactFileSearch :: "search_env \<Rightarrow> searchConfig \<Rightarrow> string \<Rightarrow> int \<Rightarrow> (searchEntry list \<times> bool) option" where
  "liveExactFileSearch env config name limit =
     (if \<not> validExactFileName name \<or> limit \<le> 0 then Some ([], False)
      else live_loop env config name (nat limit) [] (liveFileSearchRoots (sv_os env) (sv_home env) (sv_roots env) config) 0 [])"

subsection \<open>Queries\<close>

fun term_matches :: "searchEntry \<Rightarrow> bool \<Rightarrow> string \<Rightarrow> bool" where
  "term_matches entry caseSensitive raw =
     (let fold_case = (if caseSensitive then (\<lambda>s. s) else to_lower);
          negative = has_prefix raw ''-''; t0 = trim_prefix raw ''-'';
          (target, t1) = (if has_prefix t0 ''file:'' then (se_Name entry, trim_prefix t0 ''file:'')
                          else if has_prefix t0 ''ext:'' then (se_Ext entry, trim_prefix t0 ''ext:'')
                          else (se_Path entry, t0));
          t2 = trim_right (\<lambda>c. c \<in> {CHR ''*'', CHR 0x22}) (trim_left (\<lambda>c. c \<in> {CHR ''*'', CHR 0x22}) (fold_case t1));
          matched = (t2 = [] \<or> contains_sub (fold_case target) t2)
      in negative \<noteq> matched)"

definition searchMatch :: "searchEntry \<Rightarrow> string list \<Rightarrow> bool \<Rightarrow> bool" where
  "searchMatch entry terms caseSensitive = list_all (term_matches entry caseSensitive) terms"

record search_answer =
  sa_total :: nat
  sa_results :: "searchEntry list"
  sa_live :: bool
  sa_timedOut :: bool

definition query_limit :: "obj \<Rightarrow> int" where
  "query_limit options =
     (case as_num (obj_get options ''limit'') of
        None \<Rightarrow> 250
      | Some v \<Rightarrow> if 0 < v \<and> v \<le> 5000 then trunc_rat v else 250)"

definition live_limit :: "obj \<Rightarrow> int" where
  "live_limit options =
     (case as_num (obj_get options ''limit'') of
        None \<Rightarrow> 20
      | Some v \<Rightarrow> if 0 < v \<and> v < 20 then trunc_rat v else 20)"

fun add_fresh :: "int \<Rightarrow> searchEntry list \<Rightarrow> string list \<Rightarrow> searchEntry list \<Rightarrow> nat \<Rightarrow> searchEntry list \<times> nat" where
  "add_fresh limit [] seen results tot = (results, tot)"
| "add_fresh limit (r # rs) seen results tot =
     (let key = to_lower (se_Path r)
      in if key \<in> set seen \<or> limit \<le> int (length results) then add_fresh limit rs seen results tot
         else add_fresh limit rs (key # seen) (results @ [r]) (Suc tot))"

definition flag_of :: "obj \<Rightarrow> string \<Rightarrow> bool" where
  "flag_of options key = (obj_get options key = BoolV True)"

text \<open>The query on an index that exists. None: the live search does not end.\<close>

definition query_index :: "search_env \<Rightarrow> searchConfig \<Rightarrow> string \<Rightarrow> obj \<Rightarrow> searchEntry list \<Rightarrow> search_answer option" where
  "query_index env config q options index =
     (let exact = trim_space (StringValue (sv_sprint env) (obj_get options ''exactName'')); limit = query_limit options;
          matches = filter (\<lambda>entry. searchMatch entry (Go_Prelude.fields q) (flag_of options ''caseSensitive'')) index;
          results = sort_key (\<lambda>r. to_lower (se_Name r)) (take (nat limit) matches)
      in if flag_of options ''live'' \<and> validExactFileName exact \<and> \<not> (\<exists>r \<in> set results. equal_fold (se_Name r) exact)
         then (case liveExactFileSearch env config exact limit of
                 None \<Rightarrow> None
               | Some (fresh, timedOut) \<Rightarrow>
                   (case add_fresh limit fresh (map (\<lambda>r. to_lower (se_Path r)) results) results (length matches) of
                      (results1, tot) \<Rightarrow> Some \<lparr>sa_total = tot, sa_results = results1, sa_live = True, sa_timedOut = timedOut\<rparr>))
         else Some \<lparr>sa_total = length matches, sa_results = results, sa_live = False, sa_timedOut = False\<rparr>)"

definition querySearch :: "search_env \<Rightarrow> searchConfig \<Rightarrow> string \<Rightarrow> obj \<Rightarrow> search_state \<Rightarrow> search_state \<times> (string + search_answer) option" where
  "querySearch env config q options st =
     (let exact = trim_space (StringValue (sv_sprint env) (obj_get options ''exactName''))
      in case st_index st of
           Some index \<Rightarrow> (st, map_option Inr (query_index env config q options index))
         | None \<Rightarrow>
             if flag_of options ''live'' \<and> validExactFileName exact
             then (st, map_option (\<lambda>(results, timedOut).
                     Inr \<lparr>sa_total = length results, sa_results = results, sa_live = True, sa_timedOut = timedOut\<rparr>)
                     (liveExactFileSearch env config exact (live_limit options)))
             else
               (case rebuildSearch env [] st of
                  (st1, Inl e) \<Rightarrow> (st1, Some (Inl e))
                | (st1, Inr _) \<Rightarrow> (st1, map_option Inr (query_index env config q options (the (st_index st1))))))"

subsection \<open>The service\<close>

datatype search_reply =
    Status searchConfig
  | Answer_Of search_answer
  | Details "(string \<times> (bool \<times> int \<times> int) option) list"
  | Repaired bool "string list" "searchConfig option"
  | NotCancelled
  | Opened string bool

text \<open>\<open>allows\<close> is the capability test of the frame, \<open>stat\<close> the operating system's, \<open>launch\<close> the error of opening a
  path with the desktop.\<close>

definition handleFileSearchRPC :: "search_env \<Rightarrow> (string \<Rightarrow> bool) \<Rightarrow> (string \<Rightarrow> (bool \<times> int \<times> int) option) \<Rightarrow> string option
    \<Rightarrow> message \<Rightarrow> search_state \<Rightarrow> search_state \<times> search_reply go_call option" where
  "handleFileSearchRPC env allows stat launch request st =
     (case loadSearchConfig env st of Inl e \<Rightarrow> (st, Some (Failed e)) | Inr config \<Rightarrow>
      let m = m_Method request; args = m_Args request; str = StringValue (sv_sprint env) in
      if m = ''status'' then (st, Some (Returned (Status config)))
      else if m = ''search''
      then (case args of
              [] \<Rightarrow> (st, Some Panicked)
            | q # _ \<Rightarrow>
                (case querySearch env config (str q) (ObjectArg args 1) st of
                   (st1, None) \<Rightarrow> (st1, None)
                 | (st1, Some (Inl e)) \<Rightarrow> (st1, Some (Failed e))
                 | (st1, Some (Inr a)) \<Rightarrow> (st1, Some (Returned (Answer_Of a)))))
      else if m = ''details'' then (st, Some (Returned (Details (map (\<lambda>v. (str v, stat (str v))) (SliceArg args 0)))))
      else if m \<in> {''configure'', ''rebuild''}
      then (if \<not> allows ''fs.list'' then (st, Some (Failed ''configuring search roots requires fs.list''))
            else (case rebuildSearch env (ObjectArg args 0) st of
                    (st1, Inl e) \<Rightarrow> (st1, Some (Failed e))
                  | (st1, Inr c) \<Rightarrow> (st1, Some (Returned (Status c)))))
      else if m = ''repair''
      then (case rebuildSearch env [] st of
              (st1, Inl e) \<Rightarrow> (st1, Some (Failed e))
            | (st1, Inr c) \<Rightarrow> (st1, Some (Returned (Repaired True (sc_Roots config) (Some c)))))
      else if m = ''cancel'' then (st, Some (Returned NotCancelled))
      else if m \<in> {''open'', ''reveal''}
      then (if \<not> allows ''fs.openPath'' then (st, Some (Failed ''opening search results requires fs.openPath''))
            else (case args of
                    [] \<Rightarrow> (st, Some (Failed ''file path is required''))
                  | p # _ \<Rightarrow>
                      (case launch of
                         Some e \<Rightarrow> (st, Some (Failed e))
                       | None \<Rightarrow> (st, Some (Returned (Opened (str p) (m = ''reveal'')))))))
      else (st, Some (Failed ''unsupported file-search method'')))"

end
