(* ===== verification/Search_Properties.thy ===== *)
theory Search_Properties
  imports Search "HOL-Library.Multiset"
begin

text \<open>
  File search: the index holds everything that is not excluded and a query finds it; the live search ends,
  reports only what it was asked for, and how far it may exceed its limit.
\<close>

subsection \<open>Being within a path\<close>

lemma push_part_solid:
  "list_all (\<lambda>q. q \<noteq> [] \<and> CHR ''/'' \<notin> set q) stack \<Longrightarrow> CHR ''/'' \<notin> set p \<Longrightarrow>
   list_all (\<lambda>q. q \<noteq> [] \<and> CHR ''/'' \<notin> set q) (push_part top_path p stack)"
  by (auto simp: push_part_def split: list.splits)

lemma parts_solid: "list_all (\<lambda>q. q \<noteq> [] \<and> CHR ''/'' \<notin> set q) (parts_of path)"
proof -
  have "list_all (\<lambda>q. q \<noteq> [] \<and> CHR ''/'' \<notin> set q) (fold (push_part top_path) ps stack)"
    if "list_all (\<lambda>q. q \<noteq> [] \<and> CHR ''/'' \<notin> set q) stack" "\<forall>p \<in> set ps. CHR ''/'' \<notin> set p" for top_path ps stack
    using that by (induction ps arbitrary: stack) (auto intro: push_part_solid)
  then show ?thesis unfolding parts_of_def list_all_rev by (simp add: split_on_no_sep)
qed

lemma rooted_clean_iff [simp]: "rooted (path_clean path) \<longleftrightarrow> rooted path"
proof (cases "rooted path")
  case False
  have "\<not> rooted (join_slash (q # qs))" if "q \<noteq> []" "CHR ''/'' \<notin> set q" for q qs
    using that by (cases q) (auto simp: join_slash_def rooted_def)
  then show ?thesis using False parts_solid [of path]
    by (cases "parts_of path") (auto simp: path_clean_def print_path_def rooted_def)
qed simp

lemma withinPath_iff:
  assumes "rooted candidate"
  shows "withinPath candidate parent \<longleftrightarrow> rooted parent \<and> prefix (parts_of parent) (parts_of candidate)"
proof (cases "rooted parent")
  case True
  have "rel_inside ''.''" by (simp add: rel_inside_def)
  then show ?thesis using rel_inside_iff [OF True assms] True by (auto simp: withinPath_def)
next
  case False
  then have "path_clean candidate \<noteq> path_clean parent" using assms by (metis rooted_clean_iff)
  then show ?thesis using False assms by (simp add: withinPath_def path_rel_def)
qed

lemma parts_join:
  assumes "rooted dir" "path_clean dir = dir" "plain_part name"
  shows "rooted (path_join dir name) \<and> path_clean (path_join dir name) = path_join dir name
    \<and> parts_of (path_join dir name) = parts_of dir @ [name]"
proof -
  have "dir = print_path True (parts_of dir)" using assms(1,2) by (simp add: path_clean_def)
  moreover note plain = parts_plain [OF assms(1)]
  ultimately have "path_join dir name = print_path True (parts_of dir @ [name])"
    using join_plain_name [OF plain assms(3)] by simp
  then show ?thesis using plain assms(3) by simp
qed

subsection \<open>The index\<close>

text \<open>All that a walk would meet, and trees whose names are names.\<close>

fun tree_nodes :: "string \<Rightarrow> dir_tree \<Rightarrow> (string \<times> dirent) list" where
  "tree_nodes path (DirTree e children) =
     (path, e) # concat (map (\<lambda>child. tree_nodes (path_join path (de_Name (tree_entry child))) child) children)"

fun names_ok :: "dir_tree \<Rightarrow> bool" where
  "names_ok (DirTree e children) \<longleftrightarrow> list_all (\<lambda>child. plain_part (de_Name (tree_entry child)) \<and> names_ok child) children"

lemma nodes_below:
  "rooted path \<Longrightarrow> path_clean path = path \<Longrightarrow> names_ok t \<Longrightarrow> (q, e) \<in> set (tree_nodes path t) \<Longrightarrow>
   rooted q \<and> prefix (parts_of path) (parts_of q)"
proof (induction path t arbitrary: q e rule: tree_nodes.induct)
  case (1 path e0 children)
  show ?case
  proof (cases "q = path")
    case False
    then obtain child where child: "child \<in> set children" "(q, e) \<in> set (tree_nodes (path_join path (de_Name (tree_entry child))) child)"
      using 1 by auto
    then have names: "plain_part (de_Name (tree_entry child))" "names_ok child" using 1 by (auto simp: list_all_iff)
    note join = parts_join [OF 1(2,3) names(1)]
    from 1(1) [OF child(1) _ _ names(2) child(2)] join have "rooted q" "prefix (parts_of path @ [de_Name (tree_entry child)]) (parts_of q)"
      by simp_all
    then show ?thesis by (auto dest: append_prefixD)
  qed (use 1 in simp)
qed

text \<open>Skipping an excluded directory loses only what is excluded itself.\<close>

lemma walk_index_filter:
  assumes "rooted path" "path_clean path = path" "names_ok t"
  shows "walk_index exclusions path t
    = concat (map (\<lambda>(q, e). if \<exists>x \<in> set exclusions. withinPath q x then [] else index_entry q e) (tree_nodes path t))"
  using assms
proof (induction exclusions path t rule: walk_index.induct)
  case (1 exclusions path e children)
  show ?case
  proof (cases "\<exists>x \<in> set exclusions. withinPath path x")
    case True
    then obtain x where x: "x \<in> set exclusions" "rooted x" "prefix (parts_of x) (parts_of path)"
      using withinPath_iff [OF 1(2)] by blast
    have "withinPath q x" if "(q, d) \<in> set (tree_nodes path (DirTree e children))" for q d
      using nodes_below [OF 1(2-4) that] x by (auto simp: withinPath_iff)
    then have "concat (map (\<lambda>(q, e). if \<exists>x \<in> set exclusions. withinPath q x then [] else index_entry q e)
        (tree_nodes path (DirTree e children))) = []"
      using x(1) by (force simp del: tree_nodes.simps simp: concat_eq_Nil_conv)
    then show ?thesis using True by simp
  next
    case False
    have "walk_index exclusions (path_join path (de_Name (tree_entry child))) child
        = concat (map (\<lambda>(q, e). if \<exists>x \<in> set exclusions. withinPath q x then [] else index_entry q e)
            (tree_nodes (path_join path (de_Name (tree_entry child))) child))" if "child \<in> set children" for child
    proof -
      have names: "plain_part (de_Name (tree_entry child))" "names_ok child" using 1(4) that by (auto simp: list_all_iff)
      show ?thesis using 1(1) [OF False that] parts_join [OF 1(2,3) names(1)] names(2) by blast
    qed
    moreover have "concat (concat (map f xs)) = concat (map (\<lambda>x. concat (f x)) xs)" for f :: "dir_tree \<Rightarrow> searchEntry list list" and xs
      by (induction xs) simp_all
    ultimately show ?thesis using False by (simp add: map_concat comp_def cong: map_cong)
  qed
qed

text \<open>The entries a search may find: below a root, with attributes, not excluded, and matching the query.\<close>

definition searchable :: "search_env \<Rightarrow> searchConfig \<Rightarrow> string list \<Rightarrow> bool \<Rightarrow> searchEntry set" where
  "searchable env config terms caseSensitive =
     {r. (\<exists>root t q e. root \<in> set (sc_Roots config) \<and> sv_tree env root = Some t \<and> (q, e) \<in> set (tree_nodes root t)
            \<and> r \<in> set (index_entry q e) \<and> (\<forall>x \<in> set (sc_Exclusions config). \<not> withinPath q x))
         \<and> list_all (term_matches r caseSensitive) terms}"

definition roots_ok :: "search_env \<Rightarrow> searchConfig \<Rightarrow> bool" where
  "roots_ok env config \<longleftrightarrow>
     list_all (\<lambda>root. rooted root \<and> path_clean root = root \<and> (\<forall>t. sv_tree env root = Some t \<longrightarrow> names_ok t)) (sc_Roots config)"

lemma in_kept:
  "r \<in> set (concat (map (\<lambda>(q, e). if \<exists>x \<in> set exclusions. withinPath q x then [] else index_entry q e) nodes)) \<longleftrightarrow>
   (\<exists>q e. (q, e) \<in> set nodes \<and> r \<in> set (index_entry q e) \<and> (\<forall>x \<in> set exclusions. \<not> withinPath q x))"
  by (induction nodes) auto

lemma index_entries_searchable:
  assumes "roots_ok env config"
  shows "{r \<in> set (index_entries_of env config). list_all (term_matches r cs) terms} = searchable env config terms cs"
proof -
  have "r \<in> set (index_entries_of env config) \<longleftrightarrow>
    (\<exists>root t q e. root \<in> set (sc_Roots config) \<and> sv_tree env root = Some t \<and> (q, e) \<in> set (tree_nodes root t)
       \<and> r \<in> set (index_entry q e) \<and> (\<forall>x \<in> set (sc_Exclusions config). \<not> withinPath q x))" for r
  proof -
    have "r \<in> set (index_entries_of env config) \<longleftrightarrow>
        (\<exists>root t. root \<in> set (sc_Roots config) \<and> sv_tree env root = Some t \<and> r \<in> set (walk_index (sc_Exclusions config) root t))"
      by (force simp: index_entries_of_def split: option.splits)
    also have "\<dots> \<longleftrightarrow> (\<exists>root t. root \<in> set (sc_Roots config) \<and> sv_tree env root = Some t \<and> r \<in> set (concat (map
        (\<lambda>(q, e). if \<exists>x \<in> set (sc_Exclusions config). withinPath q x then [] else index_entry q e) (tree_nodes root t))))"
      by (intro iff_exI conj_cong refl) (use assms in \<open>simp only: roots_ok_def list_all_iff walk_index_filter\<close>)
    also have "\<dots> \<longleftrightarrow> (\<exists>root t q e. root \<in> set (sc_Roots config) \<and> sv_tree env root = Some t \<and> (q, e) \<in> set (tree_nodes root t)
       \<and> r \<in> set (index_entry q e) \<and> (\<forall>x \<in> set (sc_Exclusions config). \<not> withinPath q x))"
      unfolding in_kept by blast
    finally show ?thesis .
  qed
  then show ?thesis by (auto simp: searchable_def)
qed


text \<open>A world with one root, a file and an excluded directory.\<close>

definition one_root :: search_env where
  "one_root = \<lparr>sv_os = ''linux'', sv_home = ''/h'', sv_roots = [''/r''],
     sv_tree = (\<lambda>p. if p = ''/r'' then Some (DirTree \<lparr>de_Name = ''r'', de_IsDir = True, de_Symlink = False, de_Regular = False, de_Info = None\<rparr>
        [DirTree \<lparr>de_Name = ''a.Txt'', de_IsDir = False, de_Symlink = False, de_Regular = True, de_Info = Some (3, 9)\<rparr> []]) else None),
     sv_list = (\<lambda>p. if p = ''/r'' then [\<lparr>de_Name = ''a.Txt'', de_IsDir = False, de_Symlink = False, de_Regular = True, de_Info = Some (3, 9)\<rparr>]
        else []), sv_arrive = (\<lambda>xs. xs), sv_expired = (\<lambda>k. 50 \<le> k), sv_now = ''now'', sv_sprint = (\<lambda>_. []), sv_unreadable = None,
     sv_fault = None, sv_config_fault = None\<rparr>"

definition one_index :: searchConfig where
  "one_index = \<lparr>sc_Roots = [''/r''], sc_Exclusions = [], sc_Count = 1, sc_UpdatedAt = ''now''\<rparr>"

definition one_entry :: searchEntry where
  "one_entry = \<lparr>se_Path = ''/r/a.Txt'', se_Name = ''a.Txt'', se_Ext = ''txt'', se_IsDir = False, se_Size = 3, se_MtimeMs = 9\<rparr>"

lemma one_rebuilt:
  "rebuildSearch one_root [] \<lparr>st_config = None, st_index = None\<rparr> = (\<lparr>st_config = Some one_index, st_index = Some [one_entry]\<rparr>, Inr one_index)"
  by code_simp

lemma one_roots_ok: "roots_ok one_root one_index"
  unfolding roots_ok_def one_index_def one_root_def by (simp add: plain_part_def) code_simp

lemma one_query:
  "querySearch one_root one_index ''ext:txt'' [] \<lparr>st_config = Some one_index, st_index = Some [one_entry]\<rparr>
   = (\<lparr>st_config = Some one_index, st_index = Some [one_entry]\<rparr>,
      Some (Inr \<lparr>sa_total = 1, sa_results = [one_entry], sa_live = False, sa_timedOut = False\<rparr>))"
  by code_simp


subsection \<open>The live search\<close>

definition live_visible :: "searchConfig \<Rightarrow> string \<Rightarrow> dirent \<Rightarrow> bool" where
  "live_visible config dir e \<longleftrightarrow> \<not> de_Symlink e \<and> (\<forall>x \<in> set (sc_Exclusions config). \<not> withinPath (path_join dir (de_Name e)) x)"

text \<open>What the live search for a name is to find in a directory, and the directories it is to enter.\<close>

definition live_match :: "searchConfig \<Rightarrow> string \<Rightarrow> string \<Rightarrow> dirent \<Rightarrow> bool" where
  "live_match config name dir e \<longleftrightarrow>
     live_visible config dir e \<and> equal_fold (de_Name e) name \<and> de_Info e \<noteq> None \<and> (de_IsDir e \<or> de_Regular e)"

definition live_enters :: "search_env \<Rightarrow> searchConfig \<Rightarrow> string \<Rightarrow> dirent \<Rightarrow> bool" where
  "live_enters env config dir e \<longleftrightarrow> live_visible config dir e \<and> de_IsDir e
     \<and> \<not> liveSearchSkipDir (sv_os env) (sv_home env) (path_join dir (de_Name e)) (de_Name e)"

definition live_skips :: "search_env \<Rightarrow> string \<Rightarrow> bool" where
  "live_skips env dir = liveSearchSkipDir (sv_os env) (sv_home env) dir (path_base dir)"

inductive live_reach :: "search_env \<Rightarrow> searchConfig \<Rightarrow> string list \<Rightarrow> string \<Rightarrow> bool" for env config roots where
  live_reach_root: "dir \<in> set roots \<Longrightarrow> \<not> live_skips env dir \<Longrightarrow> live_reach env config roots dir"
| live_reach_below: "live_reach env config roots dir \<Longrightarrow> e \<in> set (sv_list env dir) \<Longrightarrow> live_enters env config dir e \<Longrightarrow>
    \<not> live_skips env (path_join dir (de_Name e)) \<Longrightarrow> live_reach env config roots (path_join dir (de_Name e))"

lemma scan_step:
  "scan_listing env config name limit dir (e # es) queue results =
   (let queue1 = (if live_enters env config dir e then queue @ [path_join dir (de_Name e)] else queue)
    in if live_match config name dir e
       then (if limit \<le> length (results @ index_entry (path_join dir (de_Name e)) e)
             then (queue1, results @ index_entry (path_join dir (de_Name e)) e)
             else scan_listing env config name limit dir es queue1 (results @ index_entry (path_join dir (de_Name e)) e))
       else scan_listing env config name limit dir es queue1 results)"
  by (cases "live_visible config dir e") (auto simp: Let_def live_match_def live_enters_def live_visible_def)

declare scan_listing.simps(2) [simp del]

lemma index_entry_one: "de_Info e \<noteq> None \<Longrightarrow> length (index_entry path e) = 1 \<and> index_entry path e \<noteq> []"
  by (auto simp: index_entry_def)

lemma scan_listing_adds:
  "scan_listing env config name limit dir es queue results = (queue1, results1) \<Longrightarrow>
   set queue \<subseteq> set queue1 \<and> length results1 \<le> max limit (Suc (length results))
   \<and> (\<forall>r \<in> set results1. r \<in> set results \<or> (\<exists>e \<in> set es. live_match config name dir e \<and> r \<in> set (index_entry (path_join dir (de_Name e)) e)))"
proof (induction es arbitrary: queue results)
  case (Cons e es)
  let ?q = "if live_enters env config dir e then queue @ [path_join dir (de_Name e)] else queue"
  let ?rs = "results @ index_entry (path_join dir (de_Name e)) e"
  have sub: "set queue \<subseteq> set ?q" by auto
  show ?case
  proof (cases "live_match config name dir e")
    case False
    then have "scan_listing env config name limit dir es ?q results = (queue1, results1)" using Cons.prems by (simp add: scan_step Let_def)
    from Cons.IH [OF this] sub show ?thesis by fastforce
  next
    case True
    then have len: "length ?rs = Suc (length results)" by (simp add: index_entry_one live_match_def)
    show ?thesis
    proof (cases "limit \<le> length ?rs")
      case full: True
      then have "queue1 = ?q" "results1 = ?rs" using Cons.prems True by (simp_all add: scan_step Let_def split: if_splits)
      then show ?thesis using sub len True by auto
    next
      case False
      then have "scan_listing env config name limit dir es ?q ?rs = (queue1, results1)" using Cons.prems True by (simp add: scan_step Let_def)
      from Cons.IH [OF this] sub len False True show ?thesis by fastforce
    qed
  qed
qed simp

lemma scan_listing_none:
  "scan_listing env config name limit dir es queue results = (queue1, []) \<Longrightarrow>
   results = [] \<and> (\<forall>e \<in> set es. \<not> live_match config name dir e \<and> (live_enters env config dir e \<longrightarrow> path_join dir (de_Name e) \<in> set queue1))"
proof (induction es arbitrary: queue results)
  case (Cons e es)
  let ?q = "if live_enters env config dir e then queue @ [path_join dir (de_Name e)] else queue"
  let ?rs = "results @ index_entry (path_join dir (de_Name e)) e"
  have "\<not> live_match config name dir e"
  proof
    assume match: "live_match config name dir e"
    then have "?rs \<noteq> []" by (simp add: index_entry_one live_match_def)
    then show False using Cons.prems Cons.IH [of ?q ?rs] match by (auto simp: scan_step Let_def split: if_splits)
  qed
  then have "scan_listing env config name limit dir es ?q results = (queue1, [])" using Cons.prems by (simp add: scan_step Let_def)
  with Cons.IH [OF this] scan_listing_adds [OF this] \<open>\<not> live_match config name dir e\<close> show ?case by (auto split: if_splits)
qed simp

definition live_found :: "search_env \<Rightarrow> searchConfig \<Rightarrow> string \<Rightarrow> searchEntry \<Rightarrow> bool" where
  "live_found env config name r \<longleftrightarrow>
     (\<exists>dir e. e \<in> set (sv_list env dir) \<and> live_match config name dir e \<and> r \<in> set (index_entry (path_join dir (de_Name e)) e))"

lemma scan_batch_adds:
  "scan_batch env config name limit listings tick queue results = (tick1, queue1, results1, out) \<Longrightarrow>
   \<forall>(dir, es) \<in> set listings. es = sv_list env dir \<Longrightarrow> list_all (live_found env config name) results \<Longrightarrow>
   set queue \<subseteq> set queue1 \<and> tick \<le> tick1 \<and> list_all (live_found env config name) results1
   \<and> length results1 \<le> max limit (length results) + length listings"
proof (induction listings arbitrary: tick queue results)
  case (Cons l ls)
  obtain dir es where l: "l = (dir, es)" by force
  then have es: "es = sv_list env dir" using Cons.prems(2) by simp
  show ?case
  proof (cases "sv_expired env tick")
    case False
    obtain queue2 results2 where scan: "scan_listing env config name limit dir es queue results = (queue2, results2)" by force
    note adds = scan_listing_adds [OF scan]
    have "list_all (live_found env config name) results2"
      using adds Cons.prems(3) es unfolding list_all_iff live_found_def by blast
    moreover have "scan_batch env config name limit ls (Suc tick) queue2 results2 = (tick1, queue1, results1, out)"
      using Cons.prems(1) False scan l by simp
    ultimately show ?thesis using Cons.IH [of "Suc tick" queue2 results2] Cons.prems(2) adds by fastforce
  qed (use Cons.prems l in auto)
qed auto

lemma scan_batch_none:
  "scan_batch env config name limit listings tick queue results = (tick1, queue1, [], False) \<Longrightarrow>
   results = [] \<and> (\<forall>(dir, es) \<in> set listings. \<forall>e \<in> set es. \<not> live_match config name dir e
     \<and> (live_enters env config dir e \<longrightarrow> path_join dir (de_Name e) \<in> set queue1)) \<and> set queue \<subseteq> set queue1"
proof (induction listings arbitrary: tick queue results)
  case (Cons l ls)
  obtain dir es where l: "l = (dir, es)" by force
  obtain queue2 results2 where scan: "scan_listing env config name limit dir es queue results = (queue2, results2)" by force
  have rest: "scan_batch env config name limit ls (Suc tick) queue2 results2 = (tick1, queue1, [], False)"
    using Cons.prems scan l by (simp split: if_splits)
  from Cons.IH [OF rest] scan have none: "scan_listing env config name limit dir es queue results = (queue2, [])" by simp
  show ?case using Cons.IH [OF rest] scan_listing_none [OF none] scan_listing_adds [OF none] l by auto
qed simp

lemma launch_batch_reads:
  assumes "launch_batch env visited dirs = (visited1, launched)" "sv_os env \<noteq> ''windows''"
  shows "(\<forall>(dir, es) \<in> set launched. es = sv_list env dir) \<and> length launched \<le> length dirs
    \<and> set visited1 = set visited \<union> fst ` set launched \<and> (\<forall>dir \<in> set dirs. dir \<in> set visited1 \<or> live_skips env dir)"
  using assms(1)
proof (induction dirs arbitrary: visited visited1 launched)
  case (Cons dir dirs)
  show ?case
  proof (cases "dir \<in> set visited \<or> live_skips env dir")
    case True
    then have "launch_batch env visited dirs = (visited1, launched)"
      using Cons.prems assms(2) by (auto simp: search_key_def live_skips_def)
    from Cons.IH [OF this] True show ?thesis by fastforce
  next
    case False
    then obtain launched2 where two: "launch_batch env (dir # visited) dirs = (visited1, launched2)" "launched = (dir, sv_list env dir) # launched2"
      using Cons.prems assms(2) by (auto simp: search_key_def live_skips_def split: prod.splits)
    show ?thesis using Cons.IH [OF two(1)] unfolding two(2) by auto
  qed
qed simp

text \<open>What the loop keeps: a start is queued, read or skipped, and what was read held no match and queued its directories.\<close>

definition live_inv :: "search_env \<Rightarrow> searchConfig \<Rightarrow> string \<Rightarrow> string list \<Rightarrow> string list \<Rightarrow> string list \<Rightarrow> bool" where
  "live_inv env config name starts visited queue \<longleftrightarrow>
     (\<forall>dir \<in> set starts. dir \<in> set visited \<union> set queue \<or> live_skips env dir)
     \<and> (\<forall>dir \<in> set visited. \<forall>e \<in> set (sv_list env dir). \<not> live_match config name dir e
          \<and> (live_enters env config dir e \<longrightarrow> path_join dir (de_Name e) \<in> set visited \<union> set queue \<or> live_skips env (path_join dir (de_Name e))))"

lemma live_inv_end:
  assumes "live_reach env config starts dir" "live_inv env config name starts visited []"
  shows "dir \<in> set visited"
  using assms by (induction rule: live_reach.induct) (auto simp: live_inv_def)

lemma live_round_keeps:
  assumes "live_round env config name limit visited queue tick [] = (visited1, tick1, queue1, results1, out)"
    and "sv_os env \<noteq> ''windows''" "\<And>xs. mset (sv_arrive env xs) = mset xs" "live_inv env config name starts visited queue" "0 < limit"
  shows "tick < tick1 \<and> list_all (live_found env config name) results1 \<and> length results1 \<le> limit + 32
    \<and> (results1 = [] \<longrightarrow> \<not> out \<longrightarrow> live_inv env config name starts visited1 queue1)"
proof -
  obtain launched where launch: "launch_batch env visited (take 32 queue) = (visited1, launched)"
    and scan: "scan_batch env config name limit (sv_arrive env launched) (Suc tick) (drop 32 queue) [] = (tick1, queue1, results1, out)"
    using assms(1) by (auto simp: live_round_def split: prod.splits)
  have same: "set (sv_arrive env launched) = set launched" "length (sv_arrive env launched) = length launched"
    using assms(3) [of launched] by (metis set_mset_mset, metis size_mset)
  note reads = launch_batch_reads [OF launch assms(2)]
  have adds: "set (drop 32 queue) \<subseteq> set queue1 \<and> Suc tick \<le> tick1 \<and> list_all (live_found env config name) results1
      \<and> length results1 \<le> limit + length launched"
    using scan_batch_adds [OF scan] reads same by auto
  have "live_inv env config name starts visited1 queue1" if none: "results1 = []" "\<not> out"
  proof -
    have all: "\<forall>(dir, es) \<in> set launched. \<forall>e \<in> set es. \<not> live_match config name dir e
        \<and> (live_enters env config dir e \<longrightarrow> path_join dir (de_Name e) \<in> set queue1)"
      using scan_batch_none [of env config name limit _ "Suc tick"] scan none same by auto
    have "set queue = set (take 32 queue) \<union> set (drop 32 queue)" by (simp flip: set_append)
    then have queue: "dir \<in> set visited1 \<union> set queue1 \<or> live_skips env dir" if "dir \<in> set visited \<union> set queue" for dir
      using that reads adds by blast
    have "\<not> live_match config name dir e
        \<and> (live_enters env config dir e \<longrightarrow> path_join dir (de_Name e) \<in> set visited1 \<union> set queue1 \<or> live_skips env (path_join dir (de_Name e)))"
      if "dir \<in> set visited1" "e \<in> set (sv_list env dir)" for dir e
    proof (cases "dir \<in> set visited")
      case True
      then show ?thesis using assms(4) that(2) queue unfolding live_inv_def by blast
    next
      case False
      then obtain es where "(dir, es) \<in> set launched" using reads \<open>dir \<in> set visited1\<close> by auto
      moreover from this have "es = sv_list env dir" using reads by auto
      ultimately have "\<not> live_match config name dir e \<and> (live_enters env config dir e \<longrightarrow> path_join dir (de_Name e) \<in> set queue1)"
        using all that(2) by auto
      then show ?thesis by simp
    qed
    then show ?thesis using assms(4) queue unfolding live_inv_def by blast
  qed
  moreover have "length launched \<le> 32" using reads by simp
  ultimately show ?thesis using adds by simp
qed

definition live_starts :: "search_env \<Rightarrow> searchConfig \<Rightarrow> string list" where
  "live_starts env config = liveFileSearchRoots (sv_os env) (sv_home env) (sv_roots env) config"

lemma live_loop_ends:
  assumes "sv_os env \<noteq> ''windows''" "\<And>xs. mset (sv_arrive env xs) = mset xs" "\<And>k. deadline \<le> k \<Longrightarrow> sv_expired env k" "0 < limit"
  shows "live_inv env config name starts visited queue \<Longrightarrow>
    \<exists>results out. live_loop env config name limit visited queue tick [] = Some (results, out)
      \<and> list_all (live_found env config name) results \<and> length results \<le> limit + 32
      \<and> (results = [] \<longrightarrow> \<not> out \<longrightarrow> (\<exists>visited1. live_inv env config name starts visited1 []))"
proof (induction "deadline - tick" arbitrary: visited queue tick rule: less_induct)
  case less
  obtain visited1 tick1 queue1 results1 out
    where round: "live_round env config name limit visited queue tick [] = (visited1, tick1, queue1, results1, out)"
    by (rule prod_cases5 [of "live_round env config name limit visited queue tick []"])
  note keeps = live_round_keeps [OF round assms(1,2) less.prems assms(4)]
  note loop = live_loop.simps [of env config name limit visited queue tick "[]"]
  consider "queue = []" | "queue \<noteq> []" "sv_expired env tick" | "queue \<noteq> []" "\<not> sv_expired env tick" "out \<or> results1 \<noteq> []"
    | "queue \<noteq> []" "\<not> sv_expired env tick" "\<not> out" "results1 = []" by blast
  then show ?case
  proof cases
    case 1
    then show ?thesis using less.prems loop by auto
  next
    case 2
    then show ?thesis using loop assms(4) by auto
  next
    case 3
    then have "live_loop env config name limit visited queue tick [] = Some (results1, out)"
      using loop assms(4) round by auto
    then show ?thesis using keeps 3(3) by auto
  next
    case 4
    then have "tick < deadline" using assms(3) not_less by blast
    moreover have "live_loop env config name limit visited queue tick [] = live_loop env config name limit visited1 queue1 tick1 []"
      using loop 4 assms(4) round by simp
    ultimately show ?thesis using less.hyps [of tick1 visited1 queue1] keeps 4 by auto
  qed
qed

text \<open>
  C26: The live search ends: when its deadline passes at some time, whatever the directories are, it
  returns. What it returns has the wanted name, lies within no exclusion, is no symbolic link and stands
  in a directory that was read; it is at most 32 entries more than the limit, which the loop checks only
  within a listing; and when it returns nothing before the deadline, there is no such entry in any
  directory that can be reached from the places it starts at.
\<close>

theorem live_search_ends:
  assumes "sv_os env \<noteq> ''windows''" "\<And>xs. mset (sv_arrive env xs) = mset xs" "\<forall>k \<ge> deadline. sv_expired env k"
    and "validExactFileName name" "0 < limit"
  shows "\<exists>results out. liveExactFileSearch env config name limit = Some (results, out)
    \<and> list_all (live_found env config name) results \<and> int (length results) \<le> limit + 32
    \<and> (results = [] \<longrightarrow> \<not> out \<longrightarrow>
        (\<forall>dir e. live_reach env config (live_starts env config) dir \<longrightarrow> e \<in> set (sv_list env dir) \<longrightarrow> \<not> live_match config name dir e))"
proof -
  have clock: "\<And>k. deadline \<le> k \<Longrightarrow> sv_expired env k" using assms(3) by blast
  have "live_inv env config name (live_starts env config) [] (live_starts env config)" by (simp add: live_inv_def)
  moreover have "0 < nat limit" using assms(5) by simp
  ultimately obtain results out
    where r: "live_loop env config name (nat limit) [] (live_starts env config) 0 [] = Some (results, out)"
      "list_all (live_found env config name) results" "length results \<le> nat limit + 32"
      "results = [] \<longrightarrow> \<not> out \<longrightarrow> (\<exists>visited1. live_inv env config name (live_starts env config) visited1 [])"
    using live_loop_ends [OF assms(1,2) clock] by blast
  have "\<not> live_match config name dir e"
    if "results = []" "\<not> out" "live_reach env config (live_starts env config) dir" "e \<in> set (sv_list env dir)" for dir e
  proof -
    from r(4) that obtain visited1 where inv: "live_inv env config name (live_starts env config) visited1 []" by blast
    then show ?thesis using live_inv_end [OF that(3) inv] that(4) unfolding live_inv_def by blast
  qed
  then show ?thesis using r assms(4,5) by (auto simp: liveExactFileSearch_def live_starts_def)
qed

theorem live_search_ends_witness:
  "liveExactFileSearch one_root one_index ''A.TXT'' 5 = Some ([one_entry], False)
   \<and> liveExactFileSearch one_root one_index ''b'' 5 = Some ([], False)"
proof -
  have os: "sv_os one_root \<noteq> ''windows''" by code_simp
  have arrive: "mset (sv_arrive one_root xs) = mset xs" for xs by (simp add: one_root_def)
  have clock: "\<forall>k \<ge> 50. sv_expired one_root k" by (simp add: one_root_def)
  have name: "validExactFileName ''A.TXT''" by code_simp
  have limit: "0 < (5 :: int)" by simp
  from live_search_ends [where config = one_index, OF os arrive clock name limit]
  have "liveExactFileSearch one_root one_index ''A.TXT'' 5 \<noteq> None" by (elim exE conjE) simp
  moreover have "liveExactFileSearch one_root one_index ''A.TXT'' 5 = Some ([one_entry], False)" by code_simp
  moreover have "liveExactFileSearch one_root one_index ''b'' 5 = Some ([], False)" by code_simp
  ultimately show ?thesis by simp
qed

end
