(* ===== verification/Files.thy ===== *)
theory Files
  imports Any_Value Frames Disk
begin

text \<open>
  The filesystem service (\<open>shellagent/fs/call.go\<close>, \<open>fs/helpers.go\<close>, and \<open>handleFilesystem\<close> in
  \<open>shellagent/agent.go\<close>) on the files and directories of \<open>Disk\<close>. Times and modes are not part of replies.
  What the operating system refuses beyond what the disk says is \<open>fe_refuses\<close>, by path; the desktop's
  openers, the trash, zip archives and the snapshot of a watched directory are the host's, \<open>fe_host\<close>.
\<close>

record fs_env =
  fe_home :: string
  fe_cwd :: string
  fe_unb64 :: "string \<Rightarrow> bytes option"
  fe_ovf :: "rat \<Rightarrow> int" \<comment> \<open>Go's conversion of a number that does not fit\<close>
  fe_refuses :: "string \<Rightarrow> string option"
  fe_vanishes :: bool \<comment> \<open>the file is removed by another program between being read and being looked at\<close>
  fe_host :: "string \<Rightarrow> any list \<Rightarrow> disk \<Rightarrow> disk \<times> string option"

datatype fs_reply =
    HomeIs string
  | RootsAre "(string \<times> string) list"
  | Entries string "(string \<times> file_info) list"
  | StatIs "file_info option"
  | Content bytes int bool \<comment> \<open>bytes, size, truncated\<close>
  | Base64 bytes int bool
  | Written string int
  | Usage int nat nat \<comment> \<open>bytes, files, directories\<close>
  | ChunkRead bytes int int bool \<comment> \<open>bytes, their number, size, end of file\<close>
  | ChunkPut string int int
  | Done
  | FromHost

definition MaxReadBytes :: int where
  "MaxReadBytes = 20 * 1024 * 1024"

definition MaxWriteBytes :: int where
  "MaxWriteBytes = 20 * 1024 * 1024"

definition MaxChunkBytes :: int where
  "MaxChunkBytes = 320 * 1024"

subsection \<open>Paths and the tree below them\<close>

definition fs_at :: "fs_env \<Rightarrow> string \<Rightarrow> string" where
  "fs_at env path = path_abs (fe_cwd env) path"

definition below :: "string \<Rightarrow> string \<Rightarrow> bool" where
  "below path q \<longleftrightarrow> prefix (parts_of path) (parts_of q)"

text \<open>\<open>ReadDir\<close>: the names in a directory, sorted.\<close>

definition disk_children :: "disk \<Rightarrow> string \<Rightarrow> string list" where
  "disk_children d path = sort (map path_base (filter (\<lambda>p. p \<noteq> path \<and> path_dir p = path) (map fst (dk_names d))))"

definition pathArg :: "any list \<Rightarrow> nat \<Rightarrow> string \<Rightarrow> string + string" where
  "pathArg args index label =
     (if length args \<le> index then Inl (label @ '' is invalid'')
      else (case as_str (args ! index) of
              None \<Rightarrow> Inl (label @ '' is invalid'')
            | Some v \<Rightarrow> if trim_space v = [] \<or> CHR 0x00 \<in> set v then Inl (label @ '' is invalid'') else Inr v))"

text \<open>\<open>NumberArg\<close> up to the largest integer, whose floating-point value is one more.\<close>

definition offset_arg :: "(rat \<Rightarrow> int) \<Rightarrow> any list \<Rightarrow> nat \<Rightarrow> int" where
  "offset_arg ovf args index =
     (if length args \<le> index then 0
      else (case as_num (args ! index) of
              None \<Rightarrow> 0
            | Some v \<Rightarrow> if v < 0 then 0 else if v > 2 ^ 63 then 2 ^ 63 - 1 else if v = 2 ^ 63 then ovf v else trunc_rat v))"

subsection \<open>Operations\<close>

text \<open>The operating system's part of a call at a path.\<close>

definition refusing :: "fs_env \<Rightarrow> string \<Rightarrow> disk \<Rightarrow> disk \<times> 'a go_call \<Rightarrow> disk \<times> 'a go_call" where
  "refusing env path d r = (case fe_refuses env (fs_at env path) of Some e \<Rightarrow> (d, Failed e) | None \<Rightarrow> r)"

definition listDir :: "fs_env \<Rightarrow> string \<Rightarrow> disk \<Rightarrow> fs_reply go_call" where
  "listDir env path d =
     (let resolved = fs_at env path
      in case map_of (dk_names d) resolved of
           None \<Rightarrow> Failed ''no such file or directory''
         | Some (FileAt _) \<Rightarrow> Failed ''not a directory''
         | Some DirAt \<Rightarrow>
             Returned (Entries resolved
               (map (\<lambda>name. (name, case disk_stat d (path_join resolved name) of None \<Rightarrow> \<lparr>fi_IsDir = False, fi_Size = 0\<rparr> | Some i \<Rightarrow> i))
                 (disk_children d resolved))))"

definition readAtMost :: "fs_env \<Rightarrow> string \<Rightarrow> int \<Rightarrow> disk \<Rightarrow> string + bytes" where
  "readAtMost env path cap d =
     (case map_of (dk_names d) (fs_at env path) of
        None \<Rightarrow> Inl ''no such file or directory''
      | Some DirAt \<Rightarrow> Inl ''is a directory''
      | Some (FileAt n) \<Rightarrow> Inr (take (nat cap) (dk_data d n)))"

text \<open>The size is asked for after the file was read, and no answer is a nil dereference.\<close>

definition read_whole :: "fs_env \<Rightarrow> string \<Rightarrow> int \<Rightarrow> (bytes \<Rightarrow> int \<Rightarrow> bool \<Rightarrow> fs_reply) \<Rightarrow> disk \<Rightarrow> disk \<times> fs_reply go_call" where
  "read_whole env path cap mk d =
     (case readAtMost env path cap d of
        Inl e \<Rightarrow> (d, Failed e)
      | Inr data \<Rightarrow>
          (let d1 = (if fe_vanishes env then disk_remove (fs_at env path) d else d)
           in case disk_stat d1 (fs_at env path) of
                None \<Rightarrow> (d1, Panicked)
              | Some info \<Rightarrow> (d1, Returned (mk data (fi_Size info) (fi_Size info > int (length data))))))"

definition readChunk :: "fs_env \<Rightarrow> string \<Rightarrow> int \<Rightarrow> int \<Rightarrow> disk \<Rightarrow> fs_reply go_call" where
  "readChunk env path offset len d =
     (case map_of (dk_names d) (fs_at env path) of
        None \<Rightarrow> Failed ''no such file or directory''
      | Some DirAt \<Rightarrow> Failed ''is a directory''
      | Some (FileAt n) \<Rightarrow>
          if offset < 0 then Failed ''invalid argument''
          else
            (let whole = dk_data d n; data = take (nat len) (drop (nat offset) whole)
             in Returned (ChunkRead data (int (length data)) (int (length whole)) (int (length whole) \<le> offset + int (length data)))))"

text \<open>\<open>os.WriteFile\<close>, and a chunk, which creates the file if there is none and empties it on request.\<close>

definition write_file :: "fs_env \<Rightarrow> string \<Rightarrow> bytes \<Rightarrow> disk \<Rightarrow> string + disk" where
  "write_file env path data d =
     (case disk_create (fs_at env path) d of Inl e \<Rightarrow> Inl e | Inr (n, d1) \<Rightarrow> Inr (disk_write n 0 data d1))"

definition writeChunk :: "fs_env \<Rightarrow> string \<Rightarrow> int \<Rightarrow> bytes \<Rightarrow> bool \<Rightarrow> disk \<Rightarrow> disk \<times> string option" where
  "writeChunk env path offset data trunc d =
     (case (if trunc \<or> map_of (dk_names d) (fs_at env path) = None then disk_create (fs_at env path) d
            else (case disk_open (fs_at env path) d of Inl e \<Rightarrow> Inl e | Inr n \<Rightarrow> Inr (n, d))) of
        Inl e \<Rightarrow> (d, Some e)
      | Inr (n, d1) \<Rightarrow> if offset < 0 then (d1, Some ''negative offset'') else (disk_write n (nat offset) data d1, None))"

text \<open>\<open>WalkDir\<close> passes over what it cannot read: a missing root has no size.\<close>

definition dirSize :: "fs_env \<Rightarrow> string \<Rightarrow> disk \<Rightarrow> fs_reply" where
  "dirSize env path d =
     (let entries = filter (\<lambda>e. below (fs_at env path) (fst e)) (if map_of (dk_names d) (fs_at env path) = None then [] else dk_names d);
          sizes = List.map_filter (\<lambda>e. case snd e of DirAt \<Rightarrow> None | FileAt n \<Rightarrow> Some (int (length (dk_data d n)))) entries
      in Usage (sum_list sizes) (length sizes) (length (filter (\<lambda>e. snd e = DirAt) entries)))"

definition ends_with_dot :: "string \<Rightarrow> bool" where
  "ends_with_dot path \<longleftrightarrow> path = ''.'' \<or> has_suffix path ''/.''"

definition remove_all :: "fs_env \<Rightarrow> string \<Rightarrow> disk \<Rightarrow> string + disk" where
  "remove_all env path d =
     (if ends_with_dot path then Inl ''invalid argument''
      else Inr (d\<lparr>dk_names := filter (\<lambda>e. \<not> below (fs_at env path) (fst e)) (dk_names d)\<rparr>))"

text \<open>\<open>os.Rename\<close>.\<close>

definition moved_name :: "string \<Rightarrow> string \<Rightarrow> string \<Rightarrow> string" where
  "moved_name src dst p = print_path True (parts_of dst @ drop (length (parts_of src)) (parts_of p))"

definition move_names :: "string \<Rightarrow> string \<Rightarrow> disk \<Rightarrow> disk" where
  "move_names src dst d =
     d\<lparr>dk_names := map (\<lambda>(p, e). (if below src p then moved_name src dst p else p, e)) (AList.delete dst (dk_names d))\<rparr>"

definition rename_path :: "fs_env \<Rightarrow> string \<Rightarrow> string \<Rightarrow> disk \<Rightarrow> string + disk" where
  "rename_path env oldname newname d =
     (let src = fs_at env oldname; dst = fs_at env newname
      in case map_of (dk_names d) src of
           None \<Rightarrow> Inl ''no such file or directory''
         | Some e \<Rightarrow>
             if map_of (dk_names d) dst = Some DirAt
             then (if newname = oldname \<or> dst \<noteq> src then Inl ''file exists'' else Inr d)
             else if src = dst then Inr d
             else if map_of (dk_names d) (path_dir dst) \<noteq> Some DirAt then Inl ''no such file or directory''
             else if e = DirAt \<and> below src dst then Inl ''invalid argument''
             else if e = DirAt \<and> map_of (dk_names d) dst \<noteq> None then Inl ''not a directory''
             else Inr (move_names src dst d))"

text \<open>\<open>copyPath\<close>. A directory is walked while its copy is made: its names are read after the directory of the
  copy was created. The loop keeps the paths still to visit.\<close>

definition copy_destination :: "string \<Rightarrow> string \<Rightarrow> string \<Rightarrow> string" where
  "copy_destination source target path = path_join target (case path_rel source path of None \<Rightarrow> [] | Some r \<Rightarrow> r)"

definition copy_children :: "fs_env \<Rightarrow> string \<Rightarrow> disk \<Rightarrow> (string \<times> bool) list" where
  "copy_children env path d =
     map (\<lambda>name. (path_join path name, map_of (dk_names d) (path_join (fs_at env path) name) = Some DirAt)) (disk_children d (fs_at env path))"

definition copy_step :: "fs_env \<Rightarrow> string \<Rightarrow> string \<Rightarrow> string \<Rightarrow> bool \<Rightarrow> disk \<Rightarrow> string + disk" where
  "copy_step env source target path isDir d =
     (let destination = copy_destination source target path
      in case fe_refuses env (fs_at env destination) of
           Some e \<Rightarrow> Inl e
         | None \<Rightarrow>
             if isDir then disk_mkdir_all (fs_at env destination) d
             else (case disk_read d (fs_at env path) of
                     None \<Rightarrow> Inl ''no such file or directory''
                   | Some data \<Rightarrow> write_file env destination data d))"

partial_function (option) copy_walk :: "fs_env \<Rightarrow> string \<Rightarrow> string \<Rightarrow> (string \<times> bool) list \<Rightarrow> disk \<Rightarrow> (disk \<times> string option) option" where
  [code]: "copy_walk env source target work d =
     (case work of
        [] \<Rightarrow> Some (d, None)
      | (path, isDir) # rest \<Rightarrow>
          (case copy_step env source target path isDir d of
             Inl e \<Rightarrow> Some (d, Some e)
           | Inr d1 \<Rightarrow> copy_walk env source target ((if isDir then copy_children env path d1 else []) @ rest) d1))"

definition copyPath :: "fs_env \<Rightarrow> string \<Rightarrow> string \<Rightarrow> disk \<Rightarrow> (disk \<times> string option) option" where
  "copyPath env source target d =
     (case map_of (dk_names d) (fs_at env source) of
        None \<Rightarrow> Some (d, Some ''no such file or directory'')
      | Some (FileAt n) \<Rightarrow>
          (case fe_refuses env (fs_at env target) of
             Some e \<Rightarrow> Some (d, Some e)
           | None \<Rightarrow> (case write_file env target (dk_data d n) d of Inl e \<Rightarrow> Some (d, Some e) | Inr d1 \<Rightarrow> Some (d1, None)))
      | Some DirAt \<Rightarrow> copy_walk env source target [(source, True)] d)"

subsection \<open>The dispatch\<close>

definition bytes_arg :: "fs_env \<Rightarrow> any list \<Rightarrow> nat \<Rightarrow> bytes option \<Rightarrow> string + bytes" where
  "bytes_arg env args index body =
     (case body of
        Some raw \<Rightarrow> Inr raw
      | None \<Rightarrow> (case fe_unb64 env (StringArg args index) of None \<Rightarrow> Inl ''Base64 data is invalid'' | Some raw \<Rightarrow> Inr raw))"

definition done_with :: "disk \<Rightarrow> string + disk \<Rightarrow> disk \<times> fs_reply go_call" where
  "done_with d r = (case r of Inl e \<Rightarrow> (d, Failed e) | Inr d1 \<Rightarrow> (d1, Returned Done))"

definition with_path :: "any list \<Rightarrow> nat \<Rightarrow> string \<Rightarrow> disk \<Rightarrow> (string \<Rightarrow> (disk \<times> fs_reply go_call) option) \<Rightarrow> (disk \<times> fs_reply go_call) option" where
  "with_path args index label d k = (case pathArg args index label of Inl e \<Rightarrow> Some (d, Failed e) | Inr v \<Rightarrow> k v)"

definition from_host :: "fs_env \<Rightarrow> string \<Rightarrow> any list \<Rightarrow> disk \<Rightarrow> (disk \<times> fs_reply go_call) option" where
  "from_host env method args d =
     (case fe_host env method args d of (d1, Some e) \<Rightarrow> Some (d1, Failed e) | (d1, None) \<Rightarrow> Some (d1, Returned FromHost))"

text \<open>\<open>Call\<close>; None is a copy that does not end.\<close>

definition Call :: "fs_env \<Rightarrow> string \<Rightarrow> any list \<Rightarrow> bytes option \<Rightarrow> disk \<Rightarrow> (disk \<times> fs_reply go_call) option" where
  "Call env method args body d =
     (if method = ''home'' then Some (d, Returned (HomeIs (fe_home env)))
      else if method = ''roots'' then Some (d, Returned (RootsAre [(fe_home env, ''~''), (''/'', ''/'')]))
      else if method = ''list''
      then with_path args 0 ''Directory path'' d (\<lambda>v. Some (refusing env v d (d, listDir env v d)))
      else if method = ''stat''
      then with_path args 0 ''Path'' d (\<lambda>v. Some (refusing env v d (d, Returned (StatIs (disk_stat d (fs_at env v))))))
      else if method = ''readText''
      then with_path args 0 ''File path'' d (\<lambda>v. Some (refusing env v d (read_whole env v (NumberArg args 1 2000000 MaxReadBytes) Content d)))
      else if method = ''writeText''
      then with_path args 0 ''File path'' d
             (\<lambda>v. Some (refusing env v d (done_with d (write_file env v (bytes_of (StringArg args 1)) d))))
      else if method = ''readBase64''
      then with_path args 0 ''File path'' d (\<lambda>v. Some (refusing env v d (read_whole env v (NumberArg args 1 MaxReadBytes MaxReadBytes) Base64 d)))
      else if method = ''writeBase64''
      then with_path args 0 ''File path'' d
             (\<lambda>v. case bytes_arg env args 1 body of
                    Inl e \<Rightarrow> Some (d, Failed e)
                  | Inr raw \<Rightarrow>
                      if int (length raw) > MaxWriteBytes then Some (d, Failed ''Remote filesystem write is too large'')
                      else Some (refusing env v d
                             (case write_file env v raw d of Inl e \<Rightarrow> (d, Failed e) | Inr d1 \<Rightarrow> (d1, Returned (Written v (int (length raw)))))))
      else if method = ''mkdir''
      then with_path args 0 ''Directory path'' d (\<lambda>v. Some (refusing env v d (done_with d (disk_mkdir_all (fs_at env v) d))))
      else if method = ''copy''
      then with_path args 0 ''Source path'' d (\<lambda>v. with_path args 1 ''Target path'' d
             (\<lambda>t. case copyPath env v t d of
                    None \<Rightarrow> None
                  | Some (d1, Some e) \<Rightarrow> Some (d1, Failed e)
                  | Some (d1, None) \<Rightarrow> Some (d1, Returned Done)))
      else if method = ''move''
      then with_path args 0 ''Source path'' d (\<lambda>v. with_path args 1 ''Target path'' d
             (\<lambda>t. Some (refusing env t d (done_with d (rename_path env v t d)))))
      else if method = ''remove''
      then with_path args 0 ''Target path'' d (\<lambda>v. Some (refusing env v d (done_with d (remove_all env v d))))
      else if method = ''dirSize''
      then with_path args 0 ''Directory path'' d (\<lambda>v. Some (d, Returned (dirSize env v d)))
      else if method \<in> {''readChunk'', ''readChunkBinary''}
      then with_path args 0 ''File path'' d
             (\<lambda>v. Some (refusing env v d (d, readChunk env v (offset_arg (fe_ovf env) args 1) (NumberArg args 2 1000000 MaxReadBytes) d)))
      else if method \<in> {''writeChunk'', ''writeChunkBinary''}
      then with_path args 0 ''File path'' d
             (\<lambda>v. let offset = offset_arg (fe_ovf env) args 1
                  in case bytes_arg env args 2 body of
                       Inl e \<Rightarrow> Some (d, Failed e)
                     | Inr raw \<Rightarrow>
                         if int (length raw) > MaxChunkBytes then Some (d, Failed ''Remote filesystem write chunk is too large'')
                         else Some (refusing env v d
                                (case writeChunk env v offset raw (BoolArg args 3) d of
                                   (d1, Some e) \<Rightarrow> (d1, Failed e)
                                 | (d1, None) \<Rightarrow> (d1, Returned (ChunkPut v offset (int (length raw)))))))
      else if method \<in> {''diskUsage'', ''trash'', ''openPath'', ''openWith'', ''watchSnapshot''}
      then with_path args 0 (if method \<in> {''diskUsage'', ''watchSnapshot''} then ''Directory path'' else ''Target path'') d
             (\<lambda>v. from_host env method args d)
      else if method \<in> {''openWithOptions'', ''execTerminal''} then from_host env method args d
      else if method = ''packZip''
      then (if length args < 2 then Some (d, Failed ''archive request is invalid'')
            else with_path args 1 ''Archive path'' d (\<lambda>v. from_host env method args d))
      else Some (d, Failed ''Remote filesystem method is not supported''))"

subsection \<open>The answer\<close>

datatype fs_frame = FsErrorFrame string string | FsResultFrame string fs_reply | FsBinaryFrame string fs_reply

text \<open>\<open>handleFilesystem\<close>: the frames the carrier took, which tells by \<open>accepts\<close> whether it takes one. None: the agent
  panics or never answers.\<close>

definition undelivered :: string where
  "undelivered = ''Remote filesystem response could not be delivered over this connection''"

definition deliver :: "(fs_frame \<Rightarrow> bool) \<Rightarrow> fs_frame \<Rightarrow> fs_frame list" where
  "deliver accepts f = (if accepts f then [f] else [])"

definition handleFilesystem :: "fs_env \<Rightarrow> (fs_frame \<Rightarrow> bool) \<Rightarrow> message \<Rightarrow> bytes option \<Rightarrow> disk \<Rightarrow> (disk \<times> fs_frame list) option" where
  "handleFilesystem env accepts request body d =
     (let i = m_ID request in
      if i = [] then Some (d, deliver accepts (FsErrorFrame [] ''Remote filesystem request is invalid''))
      else
        (case Call env (m_Method request) (m_Args request) body d of
           None \<Rightarrow> None
         | Some (d1, Panicked) \<Rightarrow> None
         | Some (d1, Failed e) \<Rightarrow> Some (d1, deliver accepts (FsErrorFrame i e))
         | Some (d1, Returned r) \<Rightarrow>
             if m_Method request \<in> {''readBase64'', ''readChunk'', ''readChunkBinary''} then Some (d1, deliver accepts (FsBinaryFrame i r))
             else if accepts (FsResultFrame i r) then Some (d1, [FsResultFrame i r])
             else Some (d1, deliver accepts (FsErrorFrame i undelivered))))"

end
