(* ===== verification/Files_Properties.thy ===== *)
theory Files_Properties
  imports Files Chunk_Store
begin

text \<open>
  The filesystem service: a call changes nothing outside the paths it names, what is uploaded in chunks is
  what is read back, and copying a directory into itself never ends.
\<close>

subsection \<open>Clean names\<close>

definition clean_name :: "string \<Rightarrow> bool" where
  "clean_name p \<longleftrightarrow> rooted p \<and> path_clean p = p"

lemma clean_nameE:
  assumes "clean_name p"
  obtains ps where "p = print_path True ps" "list_all plain_part ps" "parts_of p = ps"
  using assms parts_plain [of p] unfolding clean_name_def by (metis path_clean_def)

lemma clean_name_print [simp]: "list_all plain_part ps \<Longrightarrow> clean_name (print_path True ps)"
  by (simp add: clean_name_def)

lemma clean_name_eq: "clean_name p \<Longrightarrow> clean_name q \<Longrightarrow> parts_of p = parts_of q \<longleftrightarrow> p = q"
  by (metis clean_nameE)

lemma at_clean [simp]: "clean_name p \<Longrightarrow> fs_at env p = p"
  by (simp add: fs_at_def path_abs_def clean_name_def)

lemma plain_last_no: "plain_part x \<Longrightarrow> CHR ''/'' \<notin> set x"
  by (simp add: plain_part_def)

lemma print_snoc: "print_path True (ps @ [x]) = (if ps = [] then ''/'' @ x else print_path True ps @ ''/'' @ x)"
  by (cases ps) (simp_all add: print_path_def join_slash_def)

lemma print_one: "print_path True [x] = CHR ''/'' # x"
  by (simp add: print_path_def join_slash_def)

lemma print_eq_iff: "list_all plain_part ps \<Longrightarrow> list_all plain_part qs \<Longrightarrow> print_path True ps = print_path True qs \<longleftrightarrow> ps = qs"
  by (metis parts_print)

lemma parts_trailing:
  assumes "list_all plain_part ps"
  shows "parts_of (print_path True ps @ ''/'') = ps"
proof -
  have "rooted (print_path True ps @ ''/'')" by (simp add: print_path_def rooted_def)
  then have "parts_of (print_path True ps @ ''/'') = rev (push_part True [] (fold (push_part True) (split_on (CHR ''/'') (print_path True ps)) []))"
    using split_on_snoc [of "CHR ''/''" "[]" "print_path True ps"] by (simp add: parts_of_def)
  also have "\<dots> = parts_of (print_path True ps)" by (simp add: parts_of_def push_part_def [of _ "[]"])
  finally show ?thesis using assms by simp
qed

lemma dir_print:
  assumes "list_all plain_part (ps @ [x])"
  shows "path_dir (print_path True (ps @ [x])) = print_path True ps"
proof -
  have x: "CHR ''/'' \<notin> set x" and ps: "list_all plain_part ps" using assms by (simp_all add: plain_last_no)
  have drop: "rev (dropWhile (\<lambda>c. c \<noteq> CHR ''/'') (rev (u @ CHR ''/'' # x))) = u @ ''/''" for u
  proof -
    have "dropWhile (\<lambda>c. c \<noteq> CHR ''/'') (rev x @ ys) = dropWhile (\<lambda>c. c \<noteq> CHR ''/'') ys" for ys
      by (rule dropWhile_append2) (use x in auto)
    then show ?thesis by simp
  qed
  show ?thesis
  proof (cases "ps = []")
    case True
    have "path_clean ''/'' = print_path True []" by code_simp
    then show ?thesis using True drop [of "[]"] by (simp add: print_one path_dir_def)
  next
    case False
    have "rooted (print_path True ps @ ''/'')" by (simp add: print_path_def rooted_def)
    then show ?thesis using False drop [of "print_path True ps"] parts_trailing [OF ps]
      by (simp add: print_snoc path_dir_def path_clean_def)
  qed
qed

lemma base_print:
  assumes "list_all plain_part (ps @ [x])"
  shows "path_base (print_path True (ps @ [x])) = x"
proof -
  have x: "CHR ''/'' \<notin> set x" "x \<noteq> []" using assms by (simp_all add: plain_part_def)
  have "last x \<noteq> CHR ''/''" using x last_in_set by metis
  then have kept: "trim_right (\<lambda>c. c = CHR ''/'') (u @ CHR ''/'' # x) = u @ CHR ''/'' # x" for u
    using x by (cases x rule: rev_cases) (simp_all add: trim_right_def)
  have "takeWhile (\<lambda>c. c \<noteq> CHR ''/'') (rev x @ ys) = rev x @ takeWhile (\<lambda>c. c \<noteq> CHR ''/'') ys" for ys
    by (rule takeWhile_append2) (use x(1) in auto)
  then have last: "after_last (CHR ''/'') (u @ CHR ''/'' # x) = x" for u by (simp add: after_last_def)
  show ?thesis using kept [of "[]"] last [of "[]"] kept [of "print_path True ps"] last [of "print_path True ps"]
    by (cases "ps = []") (simp_all add: print_one print_snoc path_base_def Let_def)
qed

lemma dir_clean_root: "path_dir ''/'' = ''/''"
  by code_simp

lemma below_refl [simp]: "below p p"
  by (simp add: below_def)

lemma below_trans: "below p q \<Longrightarrow> below q r \<Longrightarrow> below p r"
  unfolding below_def by (rule prefix_order.trans)

text \<open>What is in a directory.\<close>

lemma disk_children_iff:
  assumes "clean_name path" "\<forall>p. map_of (dk_names d) p \<noteq> None \<longrightarrow> clean_name p"
  shows "name \<in> set (disk_children d path) \<longleftrightarrow>
    plain_part name \<and> map_of (dk_names d) (print_path True (parts_of path @ [name])) \<noteq> None"
proof -
  obtain ps where ps: "path = print_path True ps" "list_all plain_part ps" "parts_of path = ps" using assms(1) by (rule clean_nameE)
  have eq: "p \<noteq> path \<and> path_dir p = path \<and> path_base p = name \<longleftrightarrow> plain_part name \<and> p = print_path True (ps @ [name])"
    if clean: "clean_name p" for p
  proof -
    obtain qs where qs: "p = print_path True qs" "list_all plain_part qs" "parts_of p = qs" using clean by (rule clean_nameE)
    show ?thesis
    proof (cases qs rule: rev_cases)
      case Nil
      then have "path_dir p = p" using qs by (simp add: print_path_def join_slash_def dir_clean_root)
      moreover have "p \<noteq> print_path True (ps @ [name])" if "plain_part name"
        using Nil qs that ps(2) by (simp add: print_eq_iff)
      ultimately show ?thesis by auto
    next
      case (snoc rs x)
      then have p: "path_dir p = print_path True rs" "path_base p = x" "list_all plain_part rs" "plain_part x"
        using qs dir_print [of rs x] base_print [of rs x] by simp_all
      have "path_dir p = path \<longleftrightarrow> rs = ps" using p ps by (simp add: print_eq_iff)
      moreover have "plain_part name \<longrightarrow> (p = print_path True (ps @ [name]) \<longleftrightarrow> rs = ps \<and> x = name)"
        using qs snoc ps(2) by (simp add: print_eq_iff)
      moreover have "rs = ps \<longrightarrow> p \<noteq> path" using qs snoc ps by (simp add: print_eq_iff)
      ultimately show ?thesis using p(2,4) by (cases "rs = ps"; cases "x = name") auto
    qed
  qed
  have "name \<in> set (disk_children d path) \<longleftrightarrow>
      (\<exists>p \<in> fst ` set (dk_names d). p \<noteq> path \<and> path_dir p = path \<and> path_base p = name)"
    by (auto simp: disk_children_def)
  also have "\<dots> \<longleftrightarrow> (\<exists>p \<in> fst ` set (dk_names d). plain_part name \<and> p = print_path True (ps @ [name]))"
    using assms(2) by (intro bex_cong refl eq) (auto simp: map_of_eq_None_iff)
  finally show ?thesis using ps(3) by (auto simp: map_of_eq_None_iff)
qed

subsection \<open>What a call may touch\<close>

text \<open>A tree: clean names, each with a file of its own.\<close>

definition tree_ok :: "disk \<Rightarrow> bool" where
  "tree_ok d \<longleftrightarrow> disk_ok d \<and> (\<forall>p. map_of (dk_names d) p \<noteq> None \<longrightarrow> clean_name p)
     \<and> (\<forall>p q n. map_of (dk_names d) p = Some (FileAt n) \<longrightarrow> map_of (dk_names d) q = Some (FileAt n) \<longrightarrow> p = q)"

text \<open>What stands at a path: nothing, a directory, or a file with its content.\<close>

definition look :: "disk \<Rightarrow> string \<Rightarrow> bytes option option" where
  "look d p = (case map_of (dk_names d) p of None \<Rightarrow> None | Some DirAt \<Rightarrow> Some None | Some (FileAt n) \<Rightarrow> Some (Some (dk_data d n)))"

lemma look_same: "map_of (dk_names d1) p = map_of (dk_names d) p \<Longrightarrow> dk_data d1 = dk_data d \<Longrightarrow> look d1 p = look d p"
  unfolding look_def by (simp only:)

text \<open>Nothing changes outside a path, but directories on the way to it may be made.\<close>

definition confined :: "string set \<Rightarrow> disk \<Rightarrow> disk \<Rightarrow> bool" where
  "confined paths d d1 \<longleftrightarrow>
     (\<forall>p. (\<exists>t \<in> paths. below t p) \<or> look d1 p = look d p
        \<or> look d p = None \<and> look d1 p = Some None \<and> (\<exists>t \<in> paths. below p t))"

lemma confined_refl [simp]: "confined paths d d"
  by (simp add: confined_def)

lemma confined_trans:
  assumes "confined paths d d1" "confined paths d1 d2"
  shows "confined paths d d2"
  unfolding confined_def
proof
  fix p
  show "(\<exists>t \<in> paths. below t p) \<or> look d2 p = look d p \<or> look d p = None \<and> look d2 p = Some None \<and> (\<exists>t \<in> paths. below p t)"
    using assms [unfolded confined_def, rule_format, of p] by auto
qed

lemma confined_one: "(\<And>p. \<not> below t p \<Longrightarrow> look d1 p = look d p) \<Longrightarrow> t \<in> paths \<Longrightarrow> confined paths d d1"
  unfolding confined_def by blast

lemma write_file_kept:
  assumes "tree_ok d" "write_file env path data d = Inr d1" "clean_name (fs_at env path)"
  shows "tree_ok d1 \<and> (\<forall>p. p \<noteq> fs_at env path \<longrightarrow> look d1 p = look d p) \<and> look d1 (fs_at env path) = Some (Some data)
    \<and> (\<forall>p. map_of (dk_names d) p = Some DirAt \<longrightarrow> map_of (dk_names d1) p = Some DirAt)"
proof -
  obtain n d0 where create: "disk_create (fs_at env path) d = Inr (n, d0)" and d1: "d1 = disk_write n 0 data d0"
    using assms(2) by (auto simp: write_file_def split: sum.splits)
  have ok: "disk_ok d" using assms(1) by (simp add: tree_ok_def)
  note at = disk_create_at [OF create] and others = disk_create_others [OF create]
  have fresh: "map_of (dk_names d) p = Some (FileAt m) \<Longrightarrow> p \<noteq> fs_at env path \<Longrightarrow> m \<noteq> n" for p m
    using create assms(1) by (auto simp: disk_create_def Let_def tree_ok_def disk_ok_def split: option.splits disk_entry.splits if_splits)
  have "tree_ok d1"
    unfolding tree_ok_def
  proof (intro conjI allI impI)
    show "disk_ok d1" using disk_ok_create [OF ok create] by (simp add: d1)
    show "clean_name p" if "map_of (dk_names d1) p \<noteq> None" for p
      using that assms(1,3) others(1) [of p] by (cases "p = fs_at env path") (auto simp: d1 tree_ok_def)
    fix p q m
    assume "map_of (dk_names d1) p = Some (FileAt m)" "map_of (dk_names d1) q = Some (FileAt m)"
    then show "p = q" using fresh others(1) at assms(1) unfolding tree_ok_def d1 disk_write_data
      by (metis disk_entry.inject option.inject)
  qed
  moreover have "look d1 p = look d p" if "p \<noteq> fs_at env path" for p
    using that fresh others by (auto simp: look_def d1 split: option.splits disk_entry.splits)
  moreover have "look d1 (fs_at env path) = Some (Some data)" using at by (simp add: look_def d1 pwrite_def)
  ultimately show ?thesis using disk_create_dirs [OF create] by (simp add: d1)
qed

lemma make_dirs_others: "make_dirs paths d = Inr d1 \<Longrightarrow> p \<notin> set paths \<Longrightarrow> map_of (dk_names d1) p = map_of (dk_names d) p"
  by (induction paths d rule: make_dirs.induct) (auto split: option.splits disk_entry.splits)

lemma mkdir_kept:
  assumes "tree_ok d" "disk_mkdir_all path d = Inr d1" "clean_name path"
  shows "tree_ok d1 \<and> (\<forall>p. look d1 p = look d p \<or> look d p = None \<and> look d1 p = Some None \<and> below p path)
    \<and> look d1 path = Some None"
proof -
  obtain ps where ps: "path = print_path True ps" "list_all plain_part ps" "parts_of path = ps" using assms(3) by (rule clean_nameE)
  note adds = mkdir_all_adds [OF assms(2)]
  have way: "clean_name p \<and> below p path" if "map_of (dk_names d1) p \<noteq> map_of (dk_names d) p" for p
  proof -
    have "p \<in> set (map (print_path True) (prefixes ps))"
      using that make_dirs_others assms(2) unfolding disk_mkdir_all_def ps(3) by blast
    then obtain qs where "p = print_path True qs" "prefix qs ps" by auto
    moreover from this have "list_all plain_part qs" using ps(2) by (auto simp: prefix_def)
    ultimately show ?thesis using ps by (simp add: below_def)
  qed
  have "tree_ok d1"
    unfolding tree_ok_def
  proof (intro conjI allI impI)
    show "disk_ok d1" using disk_ok_make_dirs assms(1,2) unfolding tree_ok_def disk_mkdir_all_def by blast
    show "clean_name p" if "map_of (dk_names d1) p \<noteq> None" for p
      using that way [of p] assms(1) unfolding tree_ok_def by metis
    fix p q n
    assume "map_of (dk_names d1) p = Some (FileAt n)" "map_of (dk_names d1) q = Some (FileAt n)"
    then show "p = q" using assms(1) adds_dirs_file [OF adds] unfolding tree_ok_def by blast
  qed
  moreover have "look d1 p = look d p \<or> look d p = None \<and> look d1 p = Some None \<and> below p path" for p
  proof (cases "map_of (dk_names d1) p = map_of (dk_names d) p")
    case True
    then show ?thesis using adds look_same unfolding adds_dirs_def by blast
  next
    case False
    then have "map_of (dk_names d) p = None \<and> map_of (dk_names d1) p = Some DirAt" using adds unfolding adds_dirs_def by blast
    then show ?thesis using way [OF False] by (simp add: look_def)
  qed
  moreover have "look d1 path = Some None" using mkdir_all_made [OF assms(2)] assms(3) by (simp add: look_def clean_name_def)
  ultimately show ?thesis by blast
qed

lemma mkdir_confined: "tree_ok d \<Longrightarrow> disk_mkdir_all path d = Inr d1 \<Longrightarrow> clean_name path \<Longrightarrow> path \<in> paths \<Longrightarrow> confined paths d d1"
  using mkdir_kept unfolding confined_def by blast

lemma write_file_confined:
  "tree_ok d \<Longrightarrow> write_file env path data d = Inr d1 \<Longrightarrow> clean_name path \<Longrightarrow> path \<in> paths \<Longrightarrow> confined paths d d1"
  by (rule confined_one [of path]) (use write_file_kept [of d env path data d1] below_refl [of path] in \<open>metis at_clean\<close>)

lemma map_of_filter_key: "map_of (filter (\<lambda>e. P (fst e)) xs) p = (if P p then map_of xs p else None)"
  by (induction xs) auto

lemma remove_all_confined: "remove_all env path d = Inr d1 \<Longrightarrow> clean_name path \<Longrightarrow> path \<in> paths \<Longrightarrow> confined paths d d1"
  by (rule confined_one [of path], rule look_same)
    (auto simp: remove_all_def map_of_filter_key [where P = "\<lambda>k. \<not> below path k"] split: if_splits)

lemma map_of_renamed:
  "\<not> B p \<Longrightarrow> \<forall>k \<in> fst ` set xs. B k \<longrightarrow> f k \<noteq> p \<Longrightarrow> map_of (map (\<lambda>(k, e). (if B k then f k else k, e)) xs) p = map_of xs p"
  by (induction xs) auto

lemma moved_below:
  assumes "clean_name dst" "list_all plain_part (parts_of p)"
  shows "below dst (moved_name src dst p)"
proof -
  have "list_all plain_part (parts_of dst @ drop n (parts_of p))" for n
    using assms by (auto simp: list_all_iff elim!: clean_nameE dest: in_set_dropD)
  then show ?thesis by (simp add: moved_name_def below_def)
qed

lemma confined_two:
  "(\<And>p. \<not> below s p \<Longrightarrow> \<not> below t p \<Longrightarrow> look d1 p = look d p) \<Longrightarrow> s \<in> paths \<Longrightarrow> t \<in> paths \<Longrightarrow> confined paths d d1"
  unfolding confined_def by blast

lemma rename_confined:
  assumes "tree_ok d" "rename_path env s t d = Inr d1" "clean_name s" "clean_name t" "s \<in> paths" "t \<in> paths"
  shows "confined paths d d1"
proof (rule confined_two [of s t])
  fix p
  assume away: "\<not> below s p" "\<not> below t p"
  have "look (move_names s t d) p = look d p"
  proof -
    have "map_of (map (\<lambda>(k, e). (if below s k then moved_name s t k else k, e)) (AList.delete t (dk_names d))) p
        = map_of (AList.delete t (dk_names d)) p"
    proof (intro map_of_renamed away(1) ballI impI)
      fix k
      assume "k \<in> fst ` set (AList.delete t (dk_names d))"
      then have "map_of (AList.delete t (dk_names d)) k \<noteq> None" by (metis map_of_eq_None_iff)
      then have "map_of (dk_names d) k \<noteq> None" by (simp add: delete_conv' split: if_splits)
      then have "rooted k" using assms(1) by (auto simp: tree_ok_def clean_name_def)
      then show "moved_name s t k \<noteq> p" using moved_below [OF assms(4) parts_plain] away(2) by metis
    qed
    also have "\<dots> = map_of (dk_names d) p" using away(2) by (cases "p = t") (auto simp: delete_conv')
    finally show ?thesis by (intro look_same) (simp_all add: move_names_def)
  qed
  then show "look d1 p = look d p" using assms(2-4) by (auto simp: rename_path_def Let_def split: option.splits if_splits)
qed (use assms in simp_all)

lemma writeChunk_confined:
  assumes "tree_ok d" "writeChunk env path offset data trunc d = (d1, e)" "clean_name path" "path \<in> paths"
  shows "confined paths d d1"
proof (rule confined_one [of path])
  fix p
  assume "\<not> below path p"
  then have p: "p \<noteq> path" by auto
  have uniq: "map_of (dk_names d) p = Some (FileAt n) \<Longrightarrow> map_of (dk_names d) path \<noteq> Some (FileAt n)" for n
    using assms(1) p unfolding tree_ok_def by blast
  have create: "look d2 p = look d p \<and> look (disk_write n k data d2) p = look d p" if "disk_create path d = Inr (n, d2)" for n d2 k
  proof -
    have "write_file env path data d = Inr (disk_write n 0 data d2)" "write_file env path [] d = Inr (disk_write n 0 [] d2)"
      using that assms(3) by (simp_all add: write_file_def)
    have "map_of (dk_names d) p = Some (FileAt m) \<Longrightarrow> m \<noteq> n" for m
      using that uniq assms(1) by (auto simp: disk_create_def Let_def tree_ok_def disk_ok_def split: option.splits disk_entry.splits if_splits)
    then show ?thesis using disk_create_others [OF that] p by (auto simp: look_def split: option.splits disk_entry.splits)
  qed
  have kept: "look (disk_write n k data d) p = look d p" if "disk_open path d = Inr n" for n k
    using that uniq by (auto simp: disk_open_def look_def split: option.splits disk_entry.splits)
  show "look d1 p = look d p"
    using assms(2,3) create kept by (auto simp: writeChunk_def split: sum.splits if_splits)
qed (rule assms(4))

subsection \<open>Copies\<close>

lemma strip_common_append: "strip_common ps (ps @ rs) = ([], rs)"
  by (induction ps) auto

lemma rel_print:
  assumes "list_all plain_part (ps @ rs)"
  shows "path_rel (print_path True ps) (print_path True (ps @ rs)) = Some (if rs = [] then ''.'' else join_slash rs)"
proof -
  have plain: "list_all plain_part ps" "list_all plain_part rs" using assms by simp_all
  have "print_path True (ps @ rs) \<noteq> ''.''" by (simp add: print_path_def)
  then show ?thesis using plain by (simp add: path_rel_def print_eq_iff strip_common_append)
qed

lemma parts_snoc:
  assumes "rooted u" "plain_part t"
  shows "parts_of (u @ CHR ''/'' # t) = parts_of u @ [t]"
proof -
  have "rooted (u @ CHR ''/'' # t)" using assms(1) by (cases u) (auto simp: rooted_def)
  then show ?thesis using assms split_on_snoc [of "CHR ''/''" t u] by (simp add: parts_of_def plain_last_no)
qed

lemma join_print:
  assumes "list_all plain_part (ps @ rs)"
  shows "path_join (print_path True ps) (if rs = [] then ''.'' else join_slash rs) = print_path True (ps @ rs)"
proof -
  have root: "rooted (print_path True ps @ u)" for u by (simp add: print_path_def rooted_def)
  have parts: "parts_of (print_path True ps @ CHR ''/'' # join_slash rs) = ps @ rs" if "rs \<noteq> []"
    using assms that
  proof (induction rs rule: rev_induct)
    case (snoc x rs)
    show ?case
    proof (cases "rs = []")
      case True
      then show ?thesis using snoc.prems parts_snoc [of "print_path True ps" x] by (simp add: join_slash_def)
    next
      case False
      then have "join_slash (rs @ [x]) = join_slash rs @ CHR ''/'' # x" by (cases rs) (simp_all add: join_slash_def)
      then show ?thesis using snoc False parts_snoc [of "print_path True ps @ CHR ''/'' # join_slash rs" x] root by simp
    qed
  qed simp
  have dot: "parts_of (print_path True ps @ ''/.'') = ps" if "rs = []"
  proof -
    have "parts_of (print_path True ps @ ''/.'') = rev (push_part True ''.'' (rev (parts_of (print_path True ps))))"
      using root [of "''/.''"] split_on_snoc [of "CHR ''/''" "''.''" "print_path True ps"] by (simp add: parts_of_def)
    then show ?thesis using assms that by (simp add: push_part_def)
  qed
  show ?thesis
  proof (cases "rs = []")
    case True
    then show ?thesis using dot root [of "''/.''"] by (simp add: path_join_def path_clean_def) (simp add: print_path_def)
  next
    case False
    then show ?thesis using parts root by (simp add: path_join_def path_clean_def) (simp add: print_path_def)
  qed
qed

lemma copy_destination_print:
  assumes "list_all plain_part (ps @ rs)" "list_all plain_part ts"
  shows "copy_destination (print_path True ps) (print_path True ts) (print_path True (ps @ rs)) = print_path True (ts @ rs)"
  using rel_print [OF assms(1)] join_print [of ts rs] assms by (simp add: copy_destination_def)

lemma confined_above:
  assumes "confined {t} d d1" "below s t"
  shows "confined {s} d d1"
  unfolding confined_def
proof
  fix p
  have "below t p \<Longrightarrow> below s p" using assms(2) below_trans by blast
  moreover have "below p t \<Longrightarrow> below s p \<or> below p s" using assms(2) unfolding below_def by (metis prefix_same_cases)
  ultimately show "(\<exists>t \<in> {s}. below t p) \<or> look d1 p = look d p \<or> look d p = None \<and> look d1 p = Some None \<and> (\<exists>t \<in> {s}. below p t)"
    using assms(1) [unfolded confined_def, rule_format, of p] by auto
qed

text \<open>The paths a copy still has to visit lie below its source.\<close>

definition copy_work_ok :: "string \<Rightarrow> (string \<times> bool) list \<Rightarrow> bool" where
  "copy_work_ok src work \<longleftrightarrow> list_all (\<lambda>(p, b). clean_name p \<and> below src p) work"

lemma copy_children_ok:
  assumes "tree_ok d" "clean_name path"
  shows "(p, b) \<in> set (copy_children env path d) \<Longrightarrow> clean_name p \<and> below path p"
proof -
  assume "(p, b) \<in> set (copy_children env path d)"
  then obtain name where name: "name \<in> set (disk_children d path)" "p = path_join path name"
    using assms(2) by (auto simp: copy_children_def)
  have "plain_part name" using name(1) disk_children_iff [OF assms(2)] assms(1) unfolding tree_ok_def by blast
  moreover obtain ps where ps: "path = print_path True ps" "list_all plain_part ps" "parts_of path = ps"
    using assms(2) by (rule clean_nameE)
  ultimately show ?thesis using name(2) join_plain_name [of ps name] by (simp add: below_def)
qed

lemma copy_step_confined:
  assumes "tree_ok d" "copy_step env src dst path isDir d = Inr d1" "clean_name path" "below src path" "clean_name src" "clean_name dst"
  shows "tree_ok d1 \<and> confined {dst} d d1"
proof -
  obtain ps where ps: "src = print_path True ps" "list_all plain_part ps" "parts_of src = ps" using assms(5) by (rule clean_nameE)
  obtain ts where ts: "dst = print_path True ts" "list_all plain_part ts" "parts_of dst = ts" using assms(6) by (rule clean_nameE)
  obtain rs where rs: "path = print_path True (ps @ rs)" "list_all plain_part rs"
  proof -
    obtain qs where "path = print_path True qs" "list_all plain_part qs" "parts_of path = qs" using assms(3) by (rule clean_nameE)
    then show ?thesis using assms(4) ps that by (auto simp: below_def prefix_def)
  qed
  have dest: "copy_destination src dst path = print_path True (ts @ rs)"
    using ps ts rs by (simp add: copy_destination_print)
  have clean: "clean_name (print_path True (ts @ rs))" and below: "below dst (print_path True (ts @ rs))"
    using ts rs by (simp_all add: below_def)
  have "tree_ok d1 \<and> confined {print_path True (ts @ rs)} d d1"
    using assms(2) write_file_kept [OF assms(1)] write_file_confined [OF assms(1)] mkdir_kept [OF assms(1)] mkdir_confined [OF assms(1)] clean
    by (auto simp: copy_step_def dest Let_def split: option.splits if_splits)
  then show ?thesis using confined_above [OF _ below] by blast
qed

lemma copy_walk_confined:
  "copy_walk env src dst work d = Some r \<Longrightarrow>
   tree_ok d \<longrightarrow> copy_work_ok src work \<longrightarrow> clean_name src \<longrightarrow> clean_name dst \<longrightarrow> confined {dst} d (fst r)"
proof (rule copy_walk.raw_induct [rotated], assumption, intro impI)
  fix walk env src dst work d r
  assume IH: "\<And>env src dst work d r. walk env src dst work d = Some r \<Longrightarrow>
      tree_ok d \<longrightarrow> copy_work_ok src work \<longrightarrow> clean_name src \<longrightarrow> clean_name dst \<longrightarrow> confined {dst} d (fst r)"
    and body: "(case work of [] \<Rightarrow> Some (d, None)
      | (path, isDir) # rest \<Rightarrow> (case copy_step env src dst path isDir d of
          Inl e \<Rightarrow> Some (d, Some e)
        | Inr d1 \<Rightarrow> walk env src dst ((if isDir then copy_children env path d1 else []) @ rest) d1)) = Some r"
    and ok: "tree_ok d" "copy_work_ok src work" "clean_name src" "clean_name dst"
  show "confined {dst} d (fst r)"
  proof (cases work)
    case Nil
    then show ?thesis using body by auto
  next
    case (Cons w rest)
    obtain path isDir where w: "w = (path, isDir)" by force
    have path: "clean_name path" "below src path" and rest: "copy_work_ok src rest" using ok(2) Cons w by (simp_all add: copy_work_ok_def)
    show ?thesis
    proof (cases "copy_step env src dst path isDir d")
      case (Inl e)
      then show ?thesis using body Cons w by auto
    next
      case (Inr d1)
      note step = copy_step_confined [OF ok(1) Inr path ok(3,4)]
      have "copy_work_ok src ((if isDir then copy_children env path d1 else []) @ rest)"
      proof -
        have "clean_name p \<and> below src p" if "(p, b) \<in> set (copy_children env path d1)" for p b
          using copy_children_ok [OF _ path(1) that] step below_trans [OF path(2)] by blast
        then show ?thesis using rest by (auto simp: copy_work_ok_def list_all_iff)
      qed
      moreover have "walk env src dst ((if isDir then copy_children env path d1 else []) @ rest) d1 = Some r"
        using body Cons w Inr by simp
      ultimately have "confined {dst} d1 (fst r)" using IH step ok(3,4) by blast
      then show ?thesis using step confined_trans by blast
    qed
  qed
qed

subsection \<open>Calls\<close>

text \<open>The paths a method is given, and the methods the host answers.\<close>

definition path_args :: "string \<Rightarrow> any list \<Rightarrow> any list" where
  "path_args method args = take (if method \<in> {''copy'', ''move''} then 2 else 1) args"

definition host_methods :: "string list" where
  "host_methods = [''diskUsage'', ''trash'', ''openPath'', ''openWith'', ''watchSnapshot'', ''openWithOptions'', ''execTerminal'', ''packZip'']"

lemma pathArg_in: "pathArg args i label = Inr v \<Longrightarrow> i < length args \<and> args ! i = StrV v"
  by (auto simp: pathArg_def as_str_def split: if_splits option.splits any.splits)

lemma path_arg_first: "pathArg args 0 label = Inr v \<Longrightarrow> StrV v \<in> set (path_args method args)"
  using pathArg_in [of args 0 label v] by (cases args) (auto simp: path_args_def)

lemma path_arg_second: "pathArg args 1 label = Inr v \<Longrightarrow> method \<in> {''copy'', ''move''} \<Longrightarrow> StrV v \<in> set (path_args method args)"
  using pathArg_in [of args 1 label v] by (cases args; cases "tl args") (auto simp: path_args_def numeral_2_eq_2)

lemma with_path_cases:
  assumes "with_path args i label d k = Some (d1, r)" "\<And>v. pathArg args i label = Inr v \<Longrightarrow> k v = Some (d1, r) \<Longrightarrow> confined P d d1"
  shows "confined P d d1"
  using assms by (cases "pathArg args i label") (auto simp: with_path_def)

lemma refusing_cases: "refusing env v d (d2, r2) = (d1, r) \<Longrightarrow> confined P d d2 \<Longrightarrow> confined P d d1"
  by (auto simp: refusing_def split: option.splits)

lemma done_with_cases: "done_with d res = (d1, r) \<Longrightarrow> (\<And>d2. res = Inr d2 \<Longrightarrow> confined P d d2) \<Longrightarrow> confined P d d1"
  by (auto simp: done_with_def split: sum.splits)

lemma read_whole_confined:
  assumes "read_whole env v cap mk d = (d1, r)" "clean_name v" "v \<in> P"
  shows "confined P d d1"
proof (rule confined_one [of v])
  fix p
  assume "\<not> below v p"
  then have "p \<noteq> v" by auto
  then have "look (disk_remove v d) p = look d p" by (intro look_same) simp_all
  then show "look d1 p = look d p"
    using assms by (auto simp: read_whole_def Let_def split: sum.splits option.splits if_splits)
qed (rule assms(3))

lemma copyPath_confined:
  assumes "copyPath env src dst d = Some (d1, e)" "tree_ok d" "clean_name src" "clean_name dst" "dst \<in> P"
  shows "confined P d d1"
proof -
  have "confined {dst} d d1"
  proof (cases "map_of (dk_names d) src")
    case (Some x)
    show ?thesis
    proof (cases x)
      case (FileAt n)
      then show ?thesis using Some assms write_file_confined [OF assms(2) _ assms(4), of env "dk_data d n" _ "{dst}"]
        by (auto simp: copyPath_def split: option.splits sum.splits)
    next
      case DirAt
      then have "copy_walk env src dst [(src, True)] d = Some (d1, e)" using Some assms by (simp add: copyPath_def)
      from copy_walk_confined [OF this] show ?thesis using assms by (simp add: copy_work_ok_def)
    qed
  qed (use assms in \<open>simp add: copyPath_def\<close>)
  then show ?thesis using assms(5) unfolding confined_def by blast
qed

text \<open>The confinement of a call, by the kind of its method: calls that read a file, calls that write at one
  path, and the two that take two paths. The other methods leave the disk alone.\<close>

abbreviation call_paths :: "string \<Rightarrow> any list \<Rightarrow> string set" where
  "call_paths method args \<equiv> {v. StrV v \<in> set (path_args method args)}"

lemma first_call_path:
  "\<lbrakk>\<forall>v \<in> call_paths method args. clean_name v; pathArg args 0 label = Inr v\<rbrakk>
    \<Longrightarrow> v \<in> call_paths method args \<and> clean_name v"
  using path_arg_first [of args label v "method"] by blast

lemma second_call_path:
  "\<lbrakk>\<forall>v \<in> call_paths method args. clean_name v; pathArg args 1 label = Inr v; method \<in> {''copy'', ''move''}\<rbrakk>
    \<Longrightarrow> v \<in> call_paths method args \<and> clean_name v"
  using path_arg_second [of args label v "method"] by blast

lemma whole_file_calls_confined:
  assumes "Call env method args body d = Some (d1, r)" "tree_ok d" "\<forall>v \<in> call_paths method args. clean_name v"
    and "method \<in> {''readText'', ''readBase64'', ''writeText'', ''writeBase64''}"
  shows "confined (call_paths method args) d d1"
proof -
  note first = first_call_path [OF assms(3)] and second = second_call_path [OF assms(3)]
  consider "method \<in> {''readText'', ''readBase64''}" | "method = ''writeText''" | "method = ''writeBase64''" using assms(4) by fast
  then show ?thesis
  proof cases
    case 1
    then obtain cap mk where "with_path args 0 ''File path'' d (\<lambda>v. Some (refusing env v d (read_whole env v cap mk d))) = Some (d1, r)"
      using assms(1) by (auto simp: Call_def)
    moreover have "confined (call_paths method args) d d1" if "pathArg args 0 label = Inr v" "refusing env v d (read_whole env v cap mk d) = (d1, r)" for v label
      using that(2) first [OF that(1)] read_whole_confined [of env v cap mk d]
      by (cases "read_whole env v cap mk d") (auto simp: refusing_def split: option.splits)
    ultimately show ?thesis by (rule with_path_cases) auto
  next
    case 2
    then have "with_path args 0 ''File path'' d
        (\<lambda>v. Some (refusing env v d (done_with d (write_file env v (bytes_of (StringArg args 1)) d)))) = Some (d1, r)"
      using assms(1) by (simp add: Call_def)
    then show ?thesis
      by (rule with_path_cases) (use first write_file_confined [OF assms(2)] in \<open>force simp: refusing_def done_with_def split: option.splits sum.splits\<close>)
  next
    case 3
    have "confined (call_paths method args) d d1" if "pathArg args 0 label = Inr v" "bytes_arg env args 1 body = Inr raw" "refusing env v d
        (case write_file env v raw d of Inl e \<Rightarrow> (d, Failed e) | Inr d2 \<Rightarrow> (d2, Returned (Written v (int (length raw))))) = (d1, r)" for v raw label
      using that(3) first [OF that(1)] write_file_confined [OF assms(2)] by (auto simp: refusing_def split: option.splits sum.splits)
    then show ?thesis using assms(1) 3 by (auto simp: Call_def with_path_def split: sum.splits if_splits)
  qed
qed

lemma one_path_calls_confined:
  assumes "Call env method args body d = Some (d1, r)" "tree_ok d" "\<forall>v \<in> call_paths method args. clean_name v"
    and "method \<in> {''mkdir'', ''remove'', ''writeChunk'', ''writeChunkBinary''}"
  shows "confined (call_paths method args) d d1"
proof -
  note first = first_call_path [OF assms(3)] and second = second_call_path [OF assms(3)]
  consider "method = ''mkdir''" | "method = ''remove''" | "method \<in> {''writeChunk'', ''writeChunkBinary''}" using assms(4) by fast
  then show ?thesis
  proof cases
    case 1
    then have "with_path args 0 ''Directory path'' d
        (\<lambda>v. Some (refusing env v d (done_with d (disk_mkdir_all (fs_at env v) d)))) = Some (d1, r)"
      using assms(1) by (simp add: Call_def)
    then show ?thesis
      by (rule with_path_cases) (use first mkdir_confined [OF assms(2)] in \<open>force simp: refusing_def done_with_def split: option.splits sum.splits\<close>)
  next
    case 2
    then have "with_path args 0 ''Target path'' d (\<lambda>v. Some (refusing env v d (done_with d (remove_all env v d)))) = Some (d1, r)"
      using assms(1) by (simp add: Call_def)
    then show ?thesis
      by (rule with_path_cases) (use first remove_all_confined in \<open>force simp: refusing_def done_with_def split: option.splits sum.splits\<close>)
  next
    case 3
    have "confined (call_paths method args) d d1" if "pathArg args 0 label = Inr v" "refusing env v d
        (case writeChunk env v offset raw b d of (d2, Some e) \<Rightarrow> (d2, Failed e) | (d2, None) \<Rightarrow> (d2, Returned rep)) = (d1, r)" for v label offset raw b rep
      using that(2) first [OF that(1)] writeChunk_confined [OF assms(2)] by (auto simp: refusing_def split: option.splits prod.splits)
    then show ?thesis using assms(1) 3 by (auto simp: Call_def with_path_def Let_def split: sum.splits if_splits)
  qed
qed

lemma two_path_calls_confined:
  assumes "Call env method args body d = Some (d1, r)" "tree_ok d" "\<forall>v \<in> call_paths method args. clean_name v"
    and "method \<in> {''copy'', ''move''}"
  shows "confined (call_paths method args) d d1"
proof -
  note first = first_call_path [OF assms(3)] and second = second_call_path [OF assms(3)]
  consider "method = ''copy''" | "method = ''move''" using assms(4) by fast
  then show ?thesis
  proof cases
    case 1
    have "confined (call_paths method args) d d1" if "pathArg args 0 label = Inr v" "pathArg args 1 label' = Inr t" "copyPath env v t d = Some (d1, e)" for v t e label label'
      using copyPath_confined [OF that(3) assms(2)] first [OF that(1)] second [OF that(2)] 1 by simp
    then show ?thesis using assms(1) 1 by (auto simp: Call_def with_path_def split: sum.splits option.splits)
  next
    case 2
    have "confined (call_paths method args) d d1" if "pathArg args 0 label = Inr v" "pathArg args 1 label' = Inr t"
        "refusing env t d (done_with d (rename_path env v t d)) = (d1, r)" for v t label label'
      using that(3) rename_confined [OF assms(2), of env v t _ "call_paths method args"] first [OF that(1)] second [OF that(2)] 2
      by (auto simp: refusing_def done_with_def split: option.splits sum.splits)
    then show ?thesis using assms(1) 2 by (auto simp: Call_def with_path_def split: sum.splits)
  qed
qed


subsection \<open>Uploads and downloads\<close>

definition usable :: "fs_env \<Rightarrow> string \<Rightarrow> bool" where
  "usable env path \<longleftrightarrow> clean_name path \<and> CHR 0x00 \<notin> set path \<and> trim_space path \<noteq> [] \<and> fe_refuses env path = None"

definition fs_put :: "fs_env \<Rightarrow> string \<Rightarrow> nat \<Rightarrow> bytes \<Rightarrow> disk \<Rightarrow> disk" where
  "fs_put env path offset raw d =
     fst (the (Call env ''writeChunkBinary'' [StrV path, NumV (of_nat offset), NilV, BoolV False] (Some raw) d))"

definition fs_content :: "fs_env \<Rightarrow> string \<Rightarrow> disk \<Rightarrow> bytes option" where
  "fs_content env path d = (if usable env path then disk_read d path else None)"

definition fs_accepts :: "nat \<Rightarrow> bytes \<Rightarrow> bool" where
  "fs_accepts offset raw \<longleftrightarrow> int offset < 2 ^ 63 \<and> int (length raw) \<le> MaxChunkBytes"

lemma offset_arg_nat:
  assumes "int offset < 2 ^ 63" "i < length args" "args ! i = NumV (of_nat offset)"
  shows "offset_arg ovf args i = int offset"
proof -
  have "(of_nat offset :: rat) < 2 ^ 63" using assms(1) by (metis of_int_less_iff of_int_of_nat_eq of_int_numeral of_int_power)
  then show ?thesis using assms by (simp add: offset_arg_def as_num_def trunc_rat_def)
qed

lemma usable_arg: "usable env path \<Longrightarrow> pathArg (StrV path # args) 0 label = Inr path"
  by (simp add: usable_def pathArg_def as_str_def)

interpretation uploaded: chunk_store "fs_put env path" "fs_content env path" fs_accepts for env path
proof unfold_locales
  fix d data offset raw
  assume "fs_content env path d = Some data" "fs_accepts offset raw"
  then have use: "usable env path" and read: "disk_read d path = Some data" and ok: "int offset < 2 ^ 63" "int (length raw) \<le> MaxChunkBytes"
    by (auto simp: fs_content_def fs_accepts_def split: if_splits)
  obtain n where n: "map_of (dk_names d) path = Some (FileAt n)" "dk_data d n = data"
    using read by (auto simp: disk_read_def split: option.splits disk_entry.splits)
  have "disk_open path d = Inr n" "fs_at env path = path" using n use by (simp_all add: disk_open_def usable_def)
  then have "writeChunk env path (int offset) raw False d = (disk_write n offset raw d, None)"
    using n by (simp add: writeChunk_def)
  then have "fs_put env path offset raw d = disk_write n offset raw d"
    using use ok usable_arg [OF use] offset_arg_nat [OF ok(1), of 1]
    by (simp add: fs_put_def Call_def with_path_def bytes_arg_def refusing_def BoolArg_def Let_def) (simp add: usable_def)
  then show "fs_content env path (fs_put env path offset raw d) = Some (pwrite data offset raw)"
    using use n by (simp add: fs_content_def disk_read_def)
qed

text \<open>
  C28: What is uploaded is what is downloaded. After a file was emptied, the chunks of a content, written in
  any order until they cover it, make the file; then a chunk read at any place gives the content's
  bytes of that place, with its size, and says that the end is reached exactly when nothing follows.
\<close>

theorem upload_then_download:
  assumes "Call env ''writeBase64'' [StrV path] (Some []) d = Some (d0, Returned w)" "tree_ok d" "clean_name path"
    and "\<forall>(k, raw) \<in> set ws. piece_of content (k, raw) \<and> int (length raw) \<le> MaxChunkBytes" "covered ws = {..< length content}"
    and "int (length content) < 2 ^ 63" "int offset < 2 ^ 63" "int n \<le> MaxReadBytes"
  shows "let d1 = fold (\<lambda>(k, raw). fs_put env path k raw) ws d0
    in Call env ''readChunkBinary'' [StrV path, NumV (of_nat offset), NumV (of_nat n)] None d1 =
      Some (d1, Returned (ChunkRead (take n (drop offset content)) (int (length (take n (drop offset content)))) (int (length content))
        (length content \<le> offset + n)))"
proof -
  have use: "usable env path"
    using assms(1,3) by (auto simp: Call_def with_path_def pathArg_def as_str_def bytes_arg_def refusing_def usable_def
        split: if_splits option.splits)
  have "write_file env path [] d = Inr d0"
    using assms(1) use usable_arg [OF use]
    by (auto simp: Call_def with_path_def bytes_arg_def refusing_def usable_def MaxWriteBytes_def split: sum.splits)
  from write_file_kept [OF assms(2) this] have "look d0 path = Some (Some [])" using assms(3) by simp
  then have empty: "fs_content env path d0 = Some []"
    using use by (auto simp: look_def fs_content_def disk_read_def split: option.splits disk_entry.splits)
  have "fs_accepts (fst w) (snd w) \<and> piece_of content w" if "w \<in> set ws" for w
    using assms(4,6) that piece_of_fits [of content w] by (auto simp: fs_accepts_def)
  then have "fs_content env path (fold (\<lambda>w. fs_put env path (fst w) (snd w)) ws d0) = Some content"
    using uploaded.puts_complete [OF empty _ assms(5)] by blast
  then obtain m where m: "map_of (dk_names (fold (\<lambda>w. fs_put env path (fst w) (snd w)) ws d0)) path = Some (FileAt m)"
      "dk_data (fold (\<lambda>w. fs_put env path (fst w) (snd w)) ws d0) m = content"
    by (auto simp: fs_content_def disk_read_def split: if_splits option.splits disk_entry.splits)
  have "NumberArg [StrV path, NumV (of_nat offset), NumV (of_nat n)] 2 1000000 MaxReadBytes = int n"
  proof -
    have "\<not> of_int MaxReadBytes < (of_nat n :: rat)" using assms(8) by (metis not_le of_int_le_iff of_int_of_nat_eq)
    then show ?thesis by (simp add: NumberArg_def as_num_def trunc_rat_def)
  qed
  moreover have "readChunk env path (int offset) (int n) (fold (\<lambda>w. fs_put env path (fst w) (snd w)) ws d0)
      = Returned (ChunkRead (take n (drop offset content)) (int (length (take n (drop offset content)))) (int (length content))
        (length content \<le> offset + n))"
    using m use by (auto simp: readChunk_def usable_def Let_def)
  ultimately show ?thesis
    using use usable_arg [OF use] offset_arg_nat [OF assms(7), of 1]
    by (simp add: Call_def with_path_def refusing_def Let_def case_prod_unfold) (simp add: usable_def)
qed

subsection \<open>A copy that does not end\<close>

lemma make_dirs_append: "make_dirs (ps @ qs) d = (case make_dirs ps d of Inl e \<Rightarrow> Inl e | Inr d1 \<Rightarrow> make_dirs qs d1)"
  by (induction ps d rule: make_dirs.induct) (auto split: option.splits disk_entry.splits)

text \<open>All directories on the way to a path exist and it is empty.\<close>

definition empty_at :: "disk \<Rightarrow> string list \<Rightarrow> bool" where
  "empty_at d xs \<longleftrightarrow> tree_ok d \<and> (\<forall>ys. prefix ys xs \<longrightarrow> map_of (dk_names d) (print_path True ys) = Some DirAt)
     \<and> (\<forall>p. map_of (dk_names d) p \<noteq> None \<longrightarrow> prefix xs (parts_of p) \<longrightarrow> p = print_path True xs)"

lemma mkdir_below:
  assumes "empty_at d xs" "list_all plain_part (xs @ [b])"
  shows "\<exists>d1 more. disk_mkdir_all (print_path True (xs @ [b])) d = Inr d1 \<and> empty_at d1 (xs @ [b])
    \<and> disk_children d1 (print_path True xs) = b # more"
proof -
  let ?new = "print_path True (xs @ [b])" and ?d1 = "d\<lparr>dk_names := AList.update (print_path True (xs @ [b])) DirAt (dk_names d)\<rparr>"
  have plain: "list_all plain_part xs" "plain_part b" using assms(2) by simp_all
  have tree: "tree_ok d" and way: "prefix ys xs \<Longrightarrow> map_of (dk_names d) (print_path True ys) = Some DirAt"
    and empty: "map_of (dk_names d) p \<noteq> None \<Longrightarrow> prefix xs (parts_of p) \<Longrightarrow> p = print_path True xs" for ys p
    using assms(1) unfolding empty_at_def by blast+
  have free: "map_of (dk_names d) (print_path True (xs @ [name])) = None" if "plain_part name" for name
    using empty [of "print_path True (xs @ [name])"] plain that by (cases "map_of (dk_names d) (print_path True (xs @ [name]))") (auto simp: print_eq_iff)
  have "make_dirs (map (print_path True) (prefixes xs)) d = Inr d" by (rule make_dirs_idle) (use way in auto)
  then have mkdir: "disk_mkdir_all ?new d = Inr ?d1"
    using assms(2) free [OF plain(2)] by (simp add: disk_mkdir_all_def make_dirs_append)
  have d1: "map_of (dk_names ?d1) p = (if p = ?new then Some DirAt else map_of (dk_names d) p)" for p
    by (simp add: update_conv')
  have "tree_ok ?d1" using mkdir_kept [OF tree mkdir] assms(2) by simp
  moreover have "map_of (dk_names ?d1) (print_path True ys) = Some DirAt" if "prefix ys (xs @ [b])" for ys
    using that way [of ys] unfolding d1 by (auto simp: prefix_snoc)
  moreover have "p = ?new" if "map_of (dk_names ?d1) p \<noteq> None" "prefix (xs @ [b]) (parts_of p)" for p
  proof (rule ccontr)
    assume "p \<noteq> ?new"
    then have "p = print_path True xs" using that empty [of p] append_prefixD unfolding d1 by (auto split: if_splits)
    then show False using that(2) plain by simp
  qed
  ultimately have "empty_at ?d1 (xs @ [b])" unfolding empty_at_def by blast
  moreover have "name \<in> set (disk_children ?d1 (print_path True xs)) \<longleftrightarrow> name = b" for name
  proof -
    have "name \<in> set (disk_children ?d1 (print_path True xs)) \<longleftrightarrow>
        plain_part name \<and> map_of (dk_names ?d1) (print_path True (xs @ [name])) \<noteq> None"
    proof -
      have "\<forall>p. map_of (dk_names ?d1) p \<noteq> None \<longrightarrow> clean_name p" using \<open>tree_ok ?d1\<close> unfolding tree_ok_def by blast
      from disk_children_iff [OF clean_name_print [OF plain(1)] this, of name] show ?thesis using plain(1) by (simp only: parts_print)
    qed
    also have "\<dots> \<longleftrightarrow> name = b" unfolding d1 using free [of name] plain by (cases "plain_part name") (auto simp: print_eq_iff)
    finally show ?thesis .
  qed
  then have "\<exists>more. disk_children ?d1 (print_path True xs) = b # more"
    by (cases "disk_children ?d1 (print_path True xs)") (metis list.set_intros(1) empty_iff list.set(1), metis list.set_intros(1))
  ultimately show ?thesis using mkdir by blast
qed

lemma copy_step_deeper:
  assumes "empty_at d (xs @ replicate k b)" "list_all plain_part (xs @ [b])" "\<And>p. fe_refuses env p = None"
  shows "\<exists>d1 more. copy_step env (print_path True xs) (print_path True (xs @ [b])) (print_path True (xs @ replicate k b)) True d = Inr d1
    \<and> empty_at d1 (xs @ replicate (Suc k) b)
    \<and> copy_children env (print_path True (xs @ replicate k b)) d1 = (print_path True (xs @ replicate (Suc k) b), True) # more"
proof -
  have deeper: "(xs @ [b]) @ replicate k b = xs @ replicate (Suc k) b" "(xs @ replicate k b) @ [b] = xs @ replicate (Suc k) b"
    by (simp_all add: replicate_append_same)
  have plain: "list_all plain_part (xs @ replicate n b)" for n using assms(2) by (auto simp: list_all_iff)
  obtain d1 more where d1: "disk_mkdir_all (print_path True (xs @ replicate (Suc k) b)) d = Inr d1" "empty_at d1 (xs @ replicate (Suc k) b)"
      "disk_children d1 (print_path True (xs @ replicate k b)) = b # more"
    using mkdir_below [OF assms(1), of b] plain [of "Suc k"] unfolding deeper by blast
  have join: "path_join (print_path True (xs @ replicate k b)) b = print_path True (xs @ replicate (Suc k) b)"
    using join_plain_name [OF plain [of k], of b] assms(2) unfolding deeper by simp
  have dest: "copy_destination (print_path True xs) (print_path True (xs @ [b])) (print_path True (xs @ replicate k b))
      = print_path True (xs @ replicate (Suc k) b)"
    using copy_destination_print [OF plain [of k] assms(2)] unfolding deeper .
  have "map_of (dk_names d1) (print_path True (xs @ replicate (Suc k) b)) = Some DirAt"
    using d1(2) unfolding empty_at_def by blast
  then have "copy_children env (print_path True (xs @ replicate k b)) d1 = (print_path True (xs @ replicate (Suc k) b), True) #
      map (\<lambda>name. (path_join (print_path True (xs @ replicate k b)) name,
        map_of (dk_names d1) (path_join (print_path True (xs @ replicate k b)) name) = Some DirAt)) more"
    using d1(3) plain [of k] join by (simp add: copy_children_def)
  moreover have "copy_step env (print_path True xs) (print_path True (xs @ [b])) (print_path True (xs @ replicate k b)) True d = Inr d1"
    using d1(1) plain [of "Suc k"] by (simp add: copy_step_def dest assms(3))
  ultimately show ?thesis using d1(2) by blast
qed

lemma copy_walk_deeper:
  "copy_walk env src dst work d = Some r \<Longrightarrow> (\<forall>p. fe_refuses env p = None) \<longrightarrow>
   (\<forall>xs b k rest. list_all plain_part (xs @ [b]) \<longrightarrow> src = print_path True xs \<longrightarrow> dst = print_path True (xs @ [b]) \<longrightarrow>
      work = (print_path True (xs @ replicate k b), True) # rest \<longrightarrow> \<not> empty_at d (xs @ replicate k b))"
proof (rule copy_walk.raw_induct [rotated], assumption, intro impI allI notI)
  fix walk env src dst work d r xs b k rest
  assume IH: "\<And>env src dst work d r. walk env src dst work d = Some r \<Longrightarrow> (\<forall>p. fe_refuses env p = None) \<longrightarrow>
   (\<forall>xs b k rest. list_all plain_part (xs @ [b]) \<longrightarrow> src = print_path True xs \<longrightarrow> dst = print_path True (xs @ [b]) \<longrightarrow>
      work = (print_path True (xs @ replicate k b), True) # rest \<longrightarrow> \<not> empty_at d (xs @ replicate k b))"
    and body: "(case work of [] \<Rightarrow> Some (d, None)
      | (path, isDir) # rest \<Rightarrow> (case copy_step env src dst path isDir d of
          Inl e \<Rightarrow> Some (d, Some e)
        | Inr d1 \<Rightarrow> walk env src dst ((if isDir then copy_children env path d1 else []) @ rest) d1)) = Some r"
    and here: "\<forall>p. fe_refuses env p = None" "list_all plain_part (xs @ [b])" "src = print_path True xs" "dst = print_path True (xs @ [b])"
      "work = (print_path True (xs @ replicate k b), True) # rest" "empty_at d (xs @ replicate k b)"
  obtain d1 more where step: "copy_step env src dst (print_path True (xs @ replicate k b)) True d = Inr d1"
      "empty_at d1 (xs @ replicate (Suc k) b)"
      "copy_children env (print_path True (xs @ replicate k b)) d1 = (print_path True (xs @ replicate (Suc k) b), True) # more"
    using copy_step_deeper [OF here(6,2), of env] here(1,3,4) by blast
  then have "walk env src dst ((print_path True (xs @ replicate (Suc k) b), True) # more @ rest) d1 = Some r"
    using body here(5) by simp
  then show False using IH here step(2) by blast
qed

lemma trim_slash [simp]: "trim_space (print_path True ps) \<noteq> []"
  by (auto simp: print_path_def trim_space_def trim_left_def trim_right_def is_space_def dropWhile_eq_Nil_conv)

text \<open>
  Copying an empty directory into itself does not end: the walk reads the names of a directory after it
  has made the copy there, so it always finds one more directory to copy, as long as the operating
  system refuses none of the paths.
\<close>

theorem copy_into_itself_never_ends:
  assumes "empty_at d xs" "list_all plain_part (xs @ [b])" "CHR 0x00 \<notin> set (print_path True (xs @ [b]))" "\<And>p. fe_refuses env p = None"
  shows "Call env ''copy'' [StrV (print_path True xs), StrV (print_path True (xs @ [b]))] body d = None"
proof -
  have dir: "map_of (dk_names d) (print_path True xs) = Some DirAt" using assms(1) unfolding empty_at_def by blast
  have "copy_walk env (print_path True xs) (print_path True (xs @ [b])) [(print_path True xs, True)] d = None"
  proof (cases "copy_walk env (print_path True xs) (print_path True (xs @ [b])) [(print_path True xs, True)] d")
    case (Some r)
    have "\<not> empty_at d (xs @ replicate 0 b)"
      using copy_walk_deeper [OF Some, rule_format, OF assms(4,2) refl refl, of 0 "[]"] by simp
    then show ?thesis using assms(1) by simp
  qed
  then have "copyPath env (print_path True xs) (print_path True (xs @ [b])) d = None"
    using dir assms(2) by (simp add: copyPath_def)
  moreover have nul: "CHR 0x00 \<notin> set (print_path True xs)"
    using assms(3) by (cases "xs = []") (auto simp: print_snoc, simp add: print_path_def join_slash_def)
  moreover have "pathArg [StrV (print_path True xs), StrV (print_path True (xs @ [b]))] 0 label = Inr (print_path True xs)"
    "pathArg [StrV (print_path True xs), StrV (print_path True (xs @ [b]))] 1 label = Inr (print_path True (xs @ [b]))" for label
    using assms(3) nul by (simp_all add: pathArg_def as_str_def)
  ultimately show ?thesis by (simp add: Call_def with_path_def)
qed

subsection \<open>Answers\<close>

text \<open>A result that the carrier refuses is reported, except that of a read, which is dropped.\<close>

theorem refused_results_are_reported:
  assumes "m_ID request \<noteq> []" "Call env (m_Method request) (m_Args request) body d = Some (d1, Returned r)"
    and "\<not> accepts (FsResultFrame (m_ID request) r)" "accepts (FsErrorFrame (m_ID request) undelivered)"
    and "m_Method request \<notin> {''readBase64'', ''readChunk'', ''readChunkBinary''}"
  shows "handleFilesystem env accepts request body d = Some (d1, [FsErrorFrame (m_ID request) undelivered])"
  using assms by (simp add: handleFilesystem_def Let_def deliver_def)

theorem refused_reads_are_dropped:
  assumes "m_ID request \<noteq> []" "Call env (m_Method request) (m_Args request) body d = Some (d1, Returned r)"
    and "\<not> accepts (FsBinaryFrame (m_ID request) r)" "m_Method request \<in> {''readBase64'', ''readChunk'', ''readChunkBinary''}"
  shows "handleFilesystem env accepts request body d = Some (d1, [])"
  using assms by (auto simp: handleFilesystem_def Let_def deliver_def)

text \<open>The service panics only when a file disappears while it is read.\<close>

theorem calls_panic_on_vanished_files:
  assumes "Call env method args body d = Some (d1, Panicked)"
  shows "fe_vanishes env \<and> method \<in> {''readText'', ''readBase64''}"
proof -
  have "fe_vanishes env" if "read_whole env v cap mk d = (d2, Panicked)" for v cap mk d2
    using that by (auto simp: read_whole_def Let_def readAtMost_def disk_stat_def split: sum.splits option.splits disk_entry.splits if_splits)
  moreover have "read_whole env v cap mk d = (d1, Panicked)" if "refusing env v d (read_whole env v cap mk d) = (d1, Panicked)" for v cap mk
    using that by (auto simp: refusing_def split: option.splits)
  moreover have "listDir env v d \<noteq> Panicked" "readChunk env v k n d \<noteq> Panicked" "done_with d res \<noteq> (d1, Panicked)" for v k n res
    by (auto simp: listDir_def readChunk_def done_with_def Let_def split: option.splits disk_entry.splits sum.splits)
  ultimately show ?thesis
    using assms by (auto simp: Call_def with_path_def from_host_def Let_def refusing_def
        split: if_splits sum.splits option.splits prod.splits)
qed

subsection \<open>Witnesses\<close>

definition calm_fs :: fs_env where
  "calm_fs = \<lparr>fe_home = ''/h'', fe_cwd = ''/'', fe_unb64 = (\<lambda>_. None), fe_ovf = (\<lambda>_. 0), fe_refuses = (\<lambda>_. None), fe_vanishes = False,
     fe_host = (\<lambda>_ _ d. (d, None))\<rparr>"

definition small_tree :: disk where
  "small_tree = \<lparr>dk_names = [(''/'', DirAt), (''/a'', DirAt), (''/f'', FileAt 0)], dk_data = (\<lambda>n. if n = 0 then [1, 2] else []), dk_fresh = 1\<rparr>"

lemma small_tree_ok: "tree_ok small_tree"
proof -
  have "clean_name ''/''" "clean_name ''/a''" "clean_name ''/f''" by code_simp+
  moreover have "disk_ok small_tree" by (auto simp: small_tree_def disk_ok_def well_keyed_def split: if_splits)
  ultimately show ?thesis by (auto simp: tree_ok_def small_tree_def split: if_splits)
qed

lemma small_clean: "clean_name ''/f''" "clean_name ''/a/g''"
  by code_simp+


theorem upload_then_download_witness:
  "\<exists>d1. Call calm_fs ''readChunkBinary'' [StrV ''/f'', NumV 1, NumV 5] None d1 = Some (d1, Returned (ChunkRead [8, 9] 2 3 True))"
proof -
  have "map_option snd (Call calm_fs ''writeBase64'' [StrV ''/f''] (Some []) small_tree) = Some (Returned (Written ''/f'' 0))" by code_simp
  then obtain d0 where start: "Call calm_fs ''writeBase64'' [StrV ''/f''] (Some []) small_tree = Some (d0, Returned (Written ''/f'' 0))" by auto
  have "\<forall>(k, raw) \<in> set [(1, [8, 9]), (0, [7, 8 :: byte])]. piece_of [7, 8, 9] (k, raw) \<and> int (length raw) \<le> MaxChunkBytes"
    by (simp add: piece_of_def MaxChunkBytes_def)
  moreover have "covered [(1, [8, 9]), (0, [7, 8 :: byte])] = {..< length [7, 8, 9 :: byte]}"
    by (auto simp: covered_def)
  ultimately show ?thesis
    using upload_then_download [OF start small_tree_ok small_clean(1), of "[(1, [8, 9]), (0, [7, 8])]" "[7, 8, 9]" 1 5]
    by (simp add: MaxReadBytes_def Let_def) blast
qed

theorem copy_into_itself_never_ends_witness:
  "Call calm_fs ''copy'' [StrV ''/a'', StrV ''/a/b''] None small_tree = None"
proof -
  have print: "print_path True [''a''] = ''/a''" "print_path True [''a'', ''b''] = ''/a/b''" by code_simp+
  have "parts_of ''/'' = []" "parts_of ''/a'' = [''a'']" "parts_of ''/f'' = [''f'']" by code_simp+
  moreover have "print_path True [] = ''/''" by code_simp
  ultimately have "empty_at small_tree [''a'']"
    using small_tree_ok print by (auto simp: empty_at_def small_tree_def prefix_Cons split: if_splits)
  then show ?thesis
    using copy_into_itself_never_ends [of small_tree "[''a'']" "''b''" calm_fs None] print by (simp add: plain_part_def calm_fs_def)
qed

end
