(* ===== verification/Agents.thy ===== *)
theory Agents
  imports Any_Value Frames
begin

text \<open>
  Coding agents (\<open>shellagent/agent_sessions.go\<close>, \<open>claude_sessions.go\<close>, \<open>mcp_proxy.go\<close>): the sessions of a
  socket, the calls an app makes through them, and what the agents' processes write. Each operation of a
  goroutine between two waits is one definition. Lines are decoded JSON; the processes, their pipes, random
  tokens, and the decision to stop waiting are given. JSON fields are matched by their exact names.
\<close>

subsection \<open>Calls that wait for one answer\<close>

text \<open>The table of waiting calls, and the buffered channel of each: a channel holds one value at most.\<close>

record ('k, 'v) calls =
  cl_open :: "'k list"
  cl_box :: "('k, 'v) gomap"

definition no_calls :: "('k, 'v) calls" where
  "no_calls = \<lparr>cl_open = [], cl_box = []\<rparr>"

definition call_open :: "'k \<Rightarrow> ('k, 'v) calls \<Rightarrow> ('k, 'v) calls" where
  "call_open k c = c\<lparr>cl_open := k # cl_open c, cl_box := AList.delete k (cl_box c)\<rparr>"

text \<open>An answer takes the call out of the table; an offer leaves it in and is refused by a full channel.\<close>

definition call_answer :: "'k \<Rightarrow> 'v \<Rightarrow> ('k, 'v) calls \<Rightarrow> ('k, 'v) calls" where
  "call_answer k v c =
     (if k \<in> set (cl_open c) then c\<lparr>cl_open := filter (\<lambda>x. x \<noteq> k) (cl_open c), cl_box := AList.update k v (cl_box c)\<rparr> else c)"

definition call_offer :: "'k \<Rightarrow> 'v \<Rightarrow> ('k, 'v) calls \<Rightarrow> ('k, 'v) calls \<times> bool" where
  "call_offer k v c =
     (if k \<in> set (cl_open c) \<and> map_of (cl_box c) k = None then (c\<lparr>cl_box := AList.update k v (cl_box c)\<rparr>, True) else (c, False))"

definition call_take :: "'k \<Rightarrow> ('k, 'v) calls \<Rightarrow> 'v option \<times> ('k, 'v) calls" where
  "call_take k c = (map_of (cl_box c) k, c\<lparr>cl_box := AList.delete k (cl_box c)\<rparr>)"

definition call_drop :: "'k \<Rightarrow> ('k, 'v) calls \<Rightarrow> ('k, 'v) calls" where
  "call_drop k c = c\<lparr>cl_open := filter (\<lambda>x. x \<noteq> k) (cl_open c)\<rparr>"

definition call_close :: "'v \<Rightarrow> ('k, 'v) calls \<Rightarrow> ('k, 'v) calls" where
  "call_close v c = (fold (\<lambda>k c. fst (call_offer k v c)) (cl_open c) c)\<lparr>cl_open := []\<rparr>"

subsection \<open>Choosing an agent\<close>

fun select_agent :: "string \<Rightarrow> (string \<times> bool) list \<Rightarrow> string \<Rightarrow> string" where
  "select_agent requested [] selected = selected"
| "select_agent requested ((provider, available) # rest) selected =
     (if available \<and> (selected = [] \<or> provider = requested)
      then (if provider = requested then provider else select_agent requested rest provider)
      else select_agent requested rest selected)"

definition model_efforts :: "(any \<Rightarrow> string) \<Rightarrow> any \<Rightarrow> any list" where
  "model_efforts sprint v =
     (case as_arr v of
        None \<Rightarrow> []
      | Some items \<Rightarrow>
          List.map_filter
            (\<lambda>item.
               let (effort, description) =
                     (case as_obj item of
                        None \<Rightarrow> (StringValue sprint item, [])
                      | Some e \<Rightarrow> (StringValue sprint (obj_get e ''reasoningEffort''), StringValue sprint (obj_get e ''description'')))
               in if effort = [] then None
                  else Some (ObjV [(''id'', StrV effort), (''label'', StrV effort), (''description'', StrV description)]))
            items)"

definition normalizeAgentModels :: "(any \<Rightarrow> string) \<Rightarrow> obj list \<Rightarrow> obj list" where
  "normalizeAgentModels sprint models =
     List.map_filter
       (\<lambda>m.
          let id0 = StringValue sprint (obj_get m ''model'');
              i = (if id0 = [] then StringValue sprint (obj_get m ''id'') else id0);
              label0 = StringValue sprint (obj_get m ''displayName'')
          in if i = [] \<or> obj_get m ''hidden'' = BoolV True \<or> contains_sub (to_lower i) ''fast'' then None
             else Some [(''id'', StrV i), (''label'', StrV (if label0 = [] then i else label0)),
                        (''description'', StrV (StringValue sprint (obj_get m ''description''))),
                        (''isDefault'', BoolV (obj_get m ''isDefault'' = BoolV True)),
                        (''efforts'', ArrV (model_efforts sprint (obj_get m ''supportedReasoningEfforts''))),
                        (''defaultEffort'', obj_get m ''defaultReasoningEffort'')])
       models"

subsection \<open>Codex sessions\<close>

datatype agent_response = AgentResult any | AgentProblem any

record agentSession =
  cx_id :: string
  cx_appID :: string
  cx_threadID :: string
  cx_turnID :: string
  cx_model :: string
  cx_effort :: string
  cx_next :: nat
  cx_calls :: "(int, agent_response) calls"
  cx_stdin :: bool \<comment> \<open>the process still reads\<close>
  cx_written :: "obj list"
  cx_events :: "obj list" \<comment> \<open>published to the socket\<close>

definition new_codex :: "string \<Rightarrow> string \<Rightarrow> string \<Rightarrow> string \<Rightarrow> agentSession" where
  "new_codex i appID model effort =
     \<lparr>cx_id = i, cx_appID = appID, cx_threadID = [], cx_turnID = [], cx_model = model, cx_effort = effort, cx_next = 0,
      cx_calls = no_calls, cx_stdin = True, cx_written = [], cx_events = []\<rparr>"

definition codex_write :: "obj \<Rightarrow> agentSession \<Rightarrow> agentSession \<times> string option" where
  "codex_write v s = (if cx_stdin s then (s\<lparr>cx_written := cx_written s @ [v]\<rparr>, None) else (s, Some ''write failed''))"

definition codex_publish :: "obj \<Rightarrow> agentSession \<Rightarrow> agentSession" where
  "codex_publish event s = s\<lparr>cx_events := cx_events s @ [event @ [(''sessionId'', StrV (cx_id s))]]\<rparr>"

text \<open>\<open>call\<close>, up to its wait. A call whose line cannot be written stays in the table.\<close>

definition call_begin :: "string \<Rightarrow> any \<Rightarrow> agentSession \<Rightarrow> agentSession \<times> (string + nat)" where
  "call_begin name params s =
     (let i = Suc (cx_next s); s1 = s\<lparr>cx_next := i, cx_calls := call_open (int i) (cx_calls s)\<rparr>
      in case codex_write [(''id'', NumV (of_nat i)), (''method'', StrV name), (''params'', params)] s1 of
           (s2, Some e) \<Rightarrow> (s2, Inl e)
         | (s2, None) \<Rightarrow> (s2, Inr i))"

text \<open>\<open>call\<close>, when its answer has come. None: it waits on.\<close>

definition call_end :: "(any \<Rightarrow> string) \<Rightarrow> nat \<Rightarrow> agentSession \<Rightarrow> (agentSession \<times> (string + any)) option" where
  "call_end sprint i s =
     (case call_take (int i) (cx_calls s) of
        (None, _) \<Rightarrow> None
      | (Some (AgentProblem p), c) \<Rightarrow> Some (s\<lparr>cx_calls := c\<rparr>, Inl (''agent request failed: '' @ sprint p))
      | (Some (AgentResult r), c) \<Rightarrow> Some (s\<lparr>cx_calls := c\<rparr>, Inr r))"

text \<open>One line that the process wrote (\<open>readOutput\<close>): an answer, a request or a notification.\<close>

definition ev :: "string \<Rightarrow> obj \<Rightarrow> obj" where
  "ev kind rest = (''type'', StrV kind) # rest"

definition codex_notified :: "(any \<Rightarrow> string) \<Rightarrow> obj \<Rightarrow> agentSession \<Rightarrow> agentSession" where
  "codex_notified sprint m s =
     (let params = (case as_obj (obj_get m ''params'') of Some p \<Rightarrow> p | None \<Rightarrow> []); name = StringValue sprint (obj_get m ''method'') in
      if map_of m ''id'' \<noteq> None \<and> name \<noteq> []
      then (if name = ''item/tool/call''
            then codex_publish (ev ''tool-call'' [(''requestId'', obj_get m ''id''), (''tool'', obj_get params ''tool''),
                   (''arguments'', obj_get params ''arguments'')]) s
            else fst (codex_write [(''id'', obj_get m ''id''),
                   (''result'', ObjV [(''decision'', StrV ''decline''), (''success'', BoolV False), (''contentItems'', ArrV [])])] s))
      else if name = ''item/agentMessage/delta'' then codex_publish (ev ''delta'' [(''text'', obj_get params ''delta'')]) s
      else if name = ''turn/started''
      then codex_publish (ev ''status'' [(''status'', StrV ''running'')])
             (case as_obj (obj_get params ''turn'') of None \<Rightarrow> s | Some turn \<Rightarrow> s\<lparr>cx_turnID := StringValue sprint (obj_get turn ''id'')\<rparr>)
      else if name = ''turn/completed''
      then codex_publish (ev ''status'' [(''status'', StrV ''ready'')])
             (codex_publish (ev ''turn-end'' [(''status'', StrV (case as_obj (obj_get params ''turn'') of
                  None \<Rightarrow> ''completed'' | Some turn \<Rightarrow> StringValue sprint (obj_get turn ''status'')))])
               (s\<lparr>cx_turnID := []\<rparr>))
      else if name = ''error'' then codex_publish (ev ''error'' [(''message'', obj_get params ''message'')]) s
      else s)"

definition codex_receive :: "(any \<Rightarrow> string) \<Rightarrow> (rat \<Rightarrow> int) \<Rightarrow> obj \<Rightarrow> agentSession \<Rightarrow> agentSession" where
  "codex_receive sprint ovf m s =
     (if as_num (obj_get m ''id'') \<noteq> None \<and> (obj_get m ''result'' \<noteq> NilV \<or> obj_get m ''error'' \<noteq> NilV)
      then s\<lparr>cx_calls := call_answer (integer64 ovf (obj_get m ''id''))
               (if obj_get m ''error'' \<noteq> NilV then AgentProblem (obj_get m ''error'') else AgentResult (obj_get m ''result'')) (cx_calls s)\<rparr>
      else codex_notified sprint m s)"

text \<open>The turn in an answer, as \<open>json.Unmarshal\<close> reads it into the fields \<open>turn.id\<close> and \<open>turnId\<close>.\<close>

definition string_field :: "obj \<Rightarrow> string \<Rightarrow> string option" where
  "string_field m k = (case obj_get m k of NilV \<Rightarrow> Some [] | StrV s \<Rightarrow> Some s | _ \<Rightarrow> None)"

definition object_field :: "obj \<Rightarrow> string \<Rightarrow> obj option" where
  "object_field m k = (case obj_get m k of NilV \<Rightarrow> Some [] | ObjV x \<Rightarrow> Some x | _ \<Rightarrow> None)"

definition inner_or_outer :: "string \<Rightarrow> string \<Rightarrow> any \<Rightarrow> string option" where
  "inner_or_outer inner outer r =
     (case r of
        NilV \<Rightarrow> Some []
      | ObjV m \<Rightarrow>
          (case object_field m inner of
             None \<Rightarrow> None
           | Some x \<Rightarrow>
               (case (string_field x ''id'', string_field m outer) of
                  (Some a, Some b) \<Rightarrow> Some (if a = [] then b else a)
                | _ \<Rightarrow> None))
      | _ \<Rightarrow> None)"

text \<open>\<open>prompt\<close> up to its call, and after it. None: there is nothing to say.\<close>

definition prompt_params :: "(any \<Rightarrow> string) \<Rightarrow> string \<Rightarrow> any list \<Rightarrow> agentSession \<Rightarrow> any" where
  "prompt_params sprint txt images s =
     ObjV ([(''threadId'', StrV (cx_threadID s)),
            (''input'', ArrV (ObjV [(''type'', StrV ''text''), (''text'', StrV txt)]
               # map (\<lambda>image. ObjV [(''type'', StrV ''localImage''), (''path'', StrV (StringValue sprint image)), (''detail'', StrV ''auto'')]) images)),
            (''approvalPolicy'', StrV ''never''), (''sandboxPolicy'', ObjV [(''type'', StrV ''workspaceWrite'')]), (''serviceTier'', StrV ''default'')]
           @ (if cx_model s = [] then [] else [(''model'', StrV (cx_model s))])
           @ (if cx_effort s = [] then [] else [(''effort'', StrV (cx_effort s))]))"

definition codex_prompt :: "(any \<Rightarrow> string) \<Rightarrow> any list \<Rightarrow> agentSession \<Rightarrow> agentSession \<times> (string + nat) option" where
  "codex_prompt sprint args s =
     (let v = ObjectArg args 0; txt = StringValue sprint (obj_get v ''text'');
          images = (case as_arr (obj_get v ''images'') of Some xs \<Rightarrow> xs | None \<Rightarrow> [])
      in if trim_space txt = [] then (s, None)
         else (case call_begin ''turn/start'' (prompt_params sprint txt images s) s of (s1, r) \<Rightarrow> (s1, Some r)))"

definition codex_prompted :: "(any \<Rightarrow> string) \<Rightarrow> nat \<Rightarrow> agentSession \<Rightarrow> (agentSession \<times> (string + string)) option" where
  "codex_prompted sprint i s =
     (case call_end sprint i s of
        None \<Rightarrow> None
      | Some (s1, Inl e) \<Rightarrow> Some (s1, Inl e)
      | Some (s1, Inr r) \<Rightarrow>
          (case inner_or_outer ''turn'' ''turnId'' r of
             None \<Rightarrow> Some (s1, Inl ''json: cannot unmarshal'')
           | Some turn \<Rightarrow> Some (s1\<lparr>cx_turnID := turn\<rparr>, Inr turn)))"

text \<open>\<open>listModels\<close> after its call.\<close>

definition codex_listed :: "(any \<Rightarrow> string) \<Rightarrow> nat \<Rightarrow> agentSession \<Rightarrow> (agentSession \<times> (string + obj list)) option" where
  "codex_listed sprint i s =
     (case call_end sprint i s of
        None \<Rightarrow> None
      | Some (s1, Inl e) \<Rightarrow> Some (s1, Inl e)
      | Some (s1, Inr r) \<Rightarrow>
          (case r of
             NilV \<Rightarrow> Some (s1, Inr [])
           | ObjV m \<Rightarrow>
               (case obj_get m ''data'' of
                  NilV \<Rightarrow> Some (s1, Inr [])
                | ArrV xs \<Rightarrow>
                    if list_all (\<lambda>x. x = NilV \<or> as_obj x \<noteq> None) xs
                    then Some (s1, Inr (normalizeAgentModels sprint (map (\<lambda>x. case as_obj x of Some y \<Rightarrow> y | None \<Rightarrow> []) xs)))
                    else Some (s1, Inl ''json: cannot unmarshal'')
                | _ \<Rightarrow> Some (s1, Inl ''json: cannot unmarshal''))
           | _ \<Rightarrow> Some (s1, Inl ''json: cannot unmarshal'')))"

text \<open>\<open>interrupt\<close> up to its call; None: no turn runs.\<close>

definition codex_interrupt :: "agentSession \<Rightarrow> agentSession \<times> (string + nat) option" where
  "codex_interrupt s =
     (if cx_turnID s = [] then (s, None)
      else (case call_begin ''turn/interrupt'' (ObjV [(''threadId'', StrV (cx_threadID s)), (''turnId'', StrV (cx_turnID s))]) s of
              (s1, r) \<Rightarrow> (s1, Some r)))"

definition codex_set_model :: "(any \<Rightarrow> string) \<Rightarrow> any list \<Rightarrow> agentSession \<Rightarrow> agentSession" where
  "codex_set_model sprint args s =
     (if args = [] then s
      else (case as_obj (args ! 0) of
              None \<Rightarrow> s
            | Some v \<Rightarrow> s\<lparr>cx_model := StringValue sprint (obj_get v ''model''), cx_effort := StringValue sprint (obj_get v ''effort'')\<rparr>))"

definition codex_respond :: "(any \<Rightarrow> string) \<Rightarrow> any list \<Rightarrow> agentSession \<Rightarrow> agentSession \<times> string option" where
  "codex_respond sprint args s =
     (if length args < 2 then (s, Some ''tool result is invalid'')
      else
        (let outcome = ObjectArg args 1
         in codex_write [(''id'', args ! 0), (''result'', ObjV [(''success'', BoolV (obj_get outcome ''ok'' \<noteq> BoolV False)),
              (''contentItems'', ArrV [ObjV [(''type'', StrV ''inputText''), (''text'', StrV (StringValue sprint (obj_get outcome ''text'')))]])])] s))"

subsection \<open>Claude sessions\<close>

record claudeSession =
  cd_id :: string
  cd_appID :: string
  cd_model :: string
  cd_effort :: string
  cd_toolDefs :: "obj list"
  cd_controls :: "(string, string option) calls" \<comment> \<open>the answer is an error or none\<close>
  cd_tools :: "(string, obj) calls"
  cd_closed :: bool
  cd_stdin :: bool
  cd_written :: "obj list"
  cd_events :: "obj list"

definition new_claude :: "(any \<Rightarrow> string) \<Rightarrow> string \<Rightarrow> string \<Rightarrow> obj \<Rightarrow> claudeSession" where
  "new_claude sprint i appID options =
     \<lparr>cd_id = i, cd_appID = appID, cd_model = StringValue sprint (obj_get options ''model''),
      cd_effort = StringValue sprint (obj_get options ''effort''),
      cd_toolDefs = (case as_arr (obj_get options ''tools'') of None \<Rightarrow> [] | Some xs \<Rightarrow> List.map_filter as_obj xs),
      cd_controls = no_calls, cd_tools = no_calls, cd_closed = False, cd_stdin = True, cd_written = [], cd_events = []\<rparr>"

definition claude_write :: "obj \<Rightarrow> claudeSession \<Rightarrow> claudeSession \<times> string option" where
  "claude_write v s = (if cd_stdin s then (s\<lparr>cd_written := cd_written s @ [v]\<rparr>, None) else (s, Some ''write failed''))"

definition publishClaude :: "obj \<Rightarrow> claudeSession \<Rightarrow> claudeSession" where
  "publishClaude event s = s\<lparr>cd_events := cd_events s @ [event @ [(''sessionId'', StrV (cd_id s))]]\<rparr>"

text \<open>\<open>control\<close> up to its wait, under a fresh random id, and when it is answered.\<close>

definition control_begin :: "string \<Rightarrow> obj \<Rightarrow> claudeSession \<Rightarrow> claudeSession \<times> string option" where
  "control_begin i request s =
     claude_write [(''type'', StrV ''control_request''), (''request_id'', StrV i), (''request'', ObjV request)]
       (s\<lparr>cd_controls := call_open i (cd_controls s)\<rparr>)"

definition control_end :: "string \<Rightarrow> claudeSession \<Rightarrow> (claudeSession \<times> string option) option" where
  "control_end i s =
     (case call_take i (cd_controls s) of (None, _) \<Rightarrow> None | (Some r, c) \<Rightarrow> Some (s\<lparr>cd_controls := c\<rparr>, r))"

definition sub_obj :: "obj \<Rightarrow> string \<Rightarrow> obj" where
  "sub_obj m k = (case as_obj (obj_get m k) of Some x \<Rightarrow> x | None \<Rightarrow> [])"

text \<open>One line that the process wrote (\<open>readClaudeOutput\<close>).\<close>

definition readClaudeOutput :: "(any \<Rightarrow> string) \<Rightarrow> obj \<Rightarrow> claudeSession \<Rightarrow> claudeSession" where
  "readClaudeOutput sprint m s =
     (let kind = obj_get m ''type'' in
      if kind = StrV ''control_response''
      then (let response = sub_obj m ''response''
            in s\<lparr>cd_controls := call_answer (StringValue sprint (obj_get response ''request_id''))
                   (if obj_get response ''subtype'' = StrV ''success'' then None else Some (StringValue sprint (obj_get response ''error'')))
                   (cd_controls s)\<rparr>)
      else if kind = StrV ''stream_event''
      then (let event = sub_obj m ''event''; delta = sub_obj event ''delta''
            in if obj_get event ''type'' = StrV ''content_block_delta'' \<and> obj_get delta ''type'' = StrV ''text_delta''
               then publishClaude (ev ''delta'' [(''text'', obj_get delta ''text'')]) s else s)
      else
        (let s1 = (if kind = StrV ''assistant'' \<and> obj_get m ''error'' \<noteq> NilV
                   then publishClaude (ev ''error'' [(''message'', StrV (''Claude: '' @ StringValue sprint (obj_get m ''error'')))]) s else s)
         in if kind = StrV ''result''
            then (let failed = (obj_get m ''subtype'' \<noteq> StrV ''success'' \<or> obj_get m ''is_error'' = BoolV True);
                      s2 = (if failed then publishClaude (ev ''error''
                              [(''message'', StrV (''Claude turn ended with '' @ StringValue sprint (obj_get m ''subtype'')))]) s1 else s1)
                  in publishClaude (ev ''status'' [(''status'', StrV ''ready'')])
                       (publishClaude (ev ''turn-end'' [(''status'', StrV (if failed then ''failed'' else ''completed''))]) s2))
            else s1))"

text \<open>The tool server: a call of a tool becomes an event, waits for the app's answer, and leaves the table when it ends.\<close>

definition tool_begin :: "string \<Rightarrow> string \<Rightarrow> obj \<Rightarrow> claudeSession \<Rightarrow> claudeSession" where
  "tool_begin i name arguments s =
     publishClaude (ev ''tool-call'' [(''requestId'', StrV i), (''tool'', StrV name), (''arguments'', ObjV arguments)])
       (s\<lparr>cd_tools := call_open i (cd_tools s)\<rparr>)"

definition tool_timeout :: obj where
  "tool_timeout = [(''ok'', BoolV False), (''text'', StrV ''The app did not answer the tool call within 120 seconds.'')]"

text \<open>The handler's answer: the app's, or none when the caller went away, or the timeout's.\<close>

definition tool_end :: "bool \<Rightarrow> string \<Rightarrow> claudeSession \<Rightarrow> claudeSession \<times> obj option" where
  "tool_end gone i s =
     (case call_take i (cd_tools s) of
        (Some r, c) \<Rightarrow> (s\<lparr>cd_tools := call_drop i c\<rparr>, Some r)
      | (None, c) \<Rightarrow> (s\<lparr>cd_tools := call_drop i c\<rparr>, if gone then None else Some tool_timeout))"

definition respondTool :: "string \<Rightarrow> obj \<Rightarrow> claudeSession \<Rightarrow> claudeSession \<times> bool" where
  "respondTool i outcome s = (case call_offer i outcome (cd_tools s) of (c, ok) \<Rightarrow> (s\<lparr>cd_tools := c\<rparr>, ok))"

definition closeToolServer :: "claudeSession \<Rightarrow> claudeSession" where
  "closeToolServer s =
     s\<lparr>cd_tools := call_close [(''ok'', BoolV False), (''text'', StrV ''The agent session closed before the app answered.'')] (cd_tools s),
       cd_controls := call_close (Some ''the agent session closed'') (cd_controls s)\<rparr>"

text \<open>\<open>prompt\<close>; \<open>read\<close> is \<open>os.ReadFile\<close>, \<open>b64\<close> its base64 text. None: there is nothing to say.\<close>

definition image_media :: "string \<Rightarrow> string" where
  "image_media path =
     (let e = to_lower path in
      if e \<in> {''.jpg'', ''.jpeg''} then ''image/jpeg'' else if e = ''.gif'' then ''image/gif'' else if e = ''.webp'' then ''image/webp'' else ''image/png'')"

fun prompt_images :: "(string \<Rightarrow> string + string) \<Rightarrow> (string \<Rightarrow> string) \<Rightarrow> (any \<Rightarrow> string) \<Rightarrow> any list \<Rightarrow> string + any list" where
  "prompt_images read ext sprint [] = Inr []"
| "prompt_images read ext sprint (img # images) =
     (let path = StringValue sprint img
      in case read path of
           Inl e \<Rightarrow> Inl e
         | Inr b64 \<Rightarrow>
             (case prompt_images read ext sprint images of
                Inl e \<Rightarrow> Inl e
              | Inr rest \<Rightarrow> Inr (ObjV [(''type'', StrV ''image''), (''source'', ObjV [(''type'', StrV ''base64''),
                    (''media_type'', StrV (image_media (ext path))), (''data'', StrV b64)])] # rest)))"

definition claude_prompt :: "(string \<Rightarrow> string + string) \<Rightarrow> (string \<Rightarrow> string) \<Rightarrow> (any \<Rightarrow> string) \<Rightarrow> string \<Rightarrow> any list \<Rightarrow> claudeSession
    \<Rightarrow> claudeSession \<times> (string + string option)" where
  "claude_prompt read ext sprint turn args s =
     (let v = ObjectArg args 0; txt = trim_space (StringValue sprint (obj_get v ''text''));
          images = (case as_arr (obj_get v ''images'') of Some xs \<Rightarrow> xs | None \<Rightarrow> [])
      in if txt = [] then (s, Inr None)
         else
           (case prompt_images read ext sprint images of
              Inl e \<Rightarrow> (s, Inl e)
            | Inr content \<Rightarrow>
                (case claude_write [(''type'', StrV ''user''), (''message'', ObjV [(''role'', StrV ''user''),
                    (''content'', ArrV (ObjV [(''type'', StrV ''text''), (''text'', StrV txt)] # content))]),
                    (''parent_tool_use_id'', NilV), (''session_id'', StrV (cd_id s)), (''uuid'', StrV turn)] s of
                   (s1, Some e) \<Rightarrow> (s1, Inl e)
                 | (s1, None) \<Rightarrow> (s1, Inr (Some turn)))))"

subsection \<open>The sessions of a socket\<close>

record agentService =
  ag_next :: nat
  ag_sessions :: "(string, agentSession) gomap"
  ag_claude :: "(string, claudeSession) gomap"
  ag_running :: "string list" \<comment> \<open>processes that were started and neither killed nor gone\<close>

definition newAgentService :: agentService where
  "newAgentService = \<lparr>ag_next = 0, ag_sessions = [], ag_claude = [], ag_running = []\<rparr>"

definition agent_app :: "string \<Rightarrow> string" where
  "agent_app appID = (if appID = [] then ''pwa'' else appID)"

text \<open>\<open>start\<close> and \<open>startClaude\<close> once the process runs; Claude's number is taken before.\<close>

definition start_codex :: "(any \<Rightarrow> string) \<Rightarrow> string \<Rightarrow> obj \<Rightarrow> agentService \<Rightarrow> agentService \<times> string" where
  "start_codex sprint appID options a =
     (let n = Suc (ag_next a); i = ''agent_'' @ fmt_uint 36 n;
          session = new_codex i (agent_app appID) (StringValue sprint (obj_get options ''model'')) (StringValue sprint (obj_get options ''effort''))
      in (a\<lparr>ag_next := n, ag_sessions := AList.update i session (ag_sessions a), ag_running := i # ag_running a\<rparr>, i))"

definition number_claude :: "agentService \<Rightarrow> agentService \<times> string" where
  "number_claude a = (let n = Suc (ag_next a) in (a\<lparr>ag_next := n\<rparr>, ''claude_'' @ fmt_uint 36 n))"

definition start_claude :: "(any \<Rightarrow> string) \<Rightarrow> string \<Rightarrow> string \<Rightarrow> obj \<Rightarrow> agentService \<Rightarrow> agentService" where
  "start_claude sprint i appID options a =
     a\<lparr>ag_claude := AList.update i (new_claude sprint i (agent_app appID) options) (ag_claude a), ag_running := i # ag_running a\<rparr>"

text \<open>\<open>stop\<close> and \<open>stopClaude\<close>: the session leaves its table and its process is killed; whoever waits for Claude is answered.\<close>

definition stop_codex :: "string \<Rightarrow> agentService \<Rightarrow> agentService \<times> bool" where
  "stop_codex i a =
     (case map_of (ag_sessions a) i of
        None \<Rightarrow> (a, False)
      | Some _ \<Rightarrow> (a\<lparr>ag_sessions := AList.delete i (ag_sessions a), ag_running := filter (\<lambda>x. x \<noteq> i) (ag_running a)\<rparr>, True))"

definition stopClaude :: "string \<Rightarrow> agentService \<Rightarrow> agentService \<times> claudeSession option" where
  "stopClaude i a =
     (case map_of (ag_claude a) i of
        None \<Rightarrow> (a, None)
      | Some s \<Rightarrow>
          (a\<lparr>ag_claude := AList.delete i (ag_claude a), ag_running := filter (\<lambda>x. x \<noteq> i) (ag_running a)\<rparr>,
           Some (if cd_closed s then s else closeToolServer (s\<lparr>cd_closed := True\<rparr>))))"

text \<open>\<open>closeAll\<close>: the names are collected first, then stopped one by one.\<close>

definition close_agents :: "agentService \<Rightarrow> agentService" where
  "close_agents a =
     (let a1 = fold (\<lambda>i a. fst (stop_codex i a)) (map fst (ag_sessions a)) a
      in fold (\<lambda>i a. fst (stopClaude i a)) (map fst (ag_claude a1)) a1)"

subsection \<open>Requests\<close>

datatype agent_answer =
    AgentValue any
  | AgentError string
  | AwaitCall string nat \<comment> \<open>a call of this Codex session\<close>
  | AwaitControl string string
  | StartAgent string string obj \<comment> \<open>the chosen agent, the app and the options\<close>

definition claude_efforts :: any where
  "claude_efforts = ArrV (map (\<lambda>i. ObjV [(''id'', StrV i), (''label'', StrV i)]) [''low'', ''medium'', ''high'', ''xhigh'', ''max''])"

definition claude_model :: "string \<Rightarrow> string \<Rightarrow> string \<Rightarrow> bool \<Rightarrow> any" where
  "claude_model i label description preferred =
     ObjV ([(''id'', StrV i), (''label'', StrV label), (''description'', StrV description)]
           @ (if preferred then [(''isDefault'', BoolV True)] else [])
           @ [(''defaultEffort'', StrV ''medium''), (''efforts'', claude_efforts)])"

definition claudeModels :: any where
  "claudeModels = ArrV
     [claude_model ''opus'' ''Auto'' ''Uses the latest Opus model (currently Opus 5).'' True,
      claude_model ''claude-opus-5'' ''Opus 5'' ''Claude Opus 5.'' False,
      claude_model ''claude-fable-5'' ''Fable 5'' ''Claude Fable 5.'' False,
      claude_model ''claude-opus-4-8'' ''Opus 4.8'' ''Claude Opus 4.8.'' False,
      claude_model ''claude-sonnet-5'' ''Sonnet 5'' ''Claude Sonnet 5.'' False]"

text \<open>What the requests read of their surroundings; \<open>ae_random\<close> is the next random token.\<close>

record agent_env =
  ae_sprint :: "any \<Rightarrow> string"
  ae_providers :: "(string \<times> bool) list"
  ae_rows :: any
  ae_read :: "string \<Rightarrow> string + string"
  ae_ext :: "string \<Rightarrow> string"
  ae_random :: string

definition awaiting :: "('s \<times> string option) \<Rightarrow> agent_answer \<Rightarrow> 's \<times> agent_answer" where
  "awaiting r answer = (case r of (s, Some e) \<Rightarrow> (s, AgentError e) | (s, None) \<Rightarrow> (s, answer))"

text \<open>\<open>handleClaude\<close> up to its first wait; \<open>setModel\<close> sends the effort after the answer (\<open>claude_effort\<close>).\<close>

definition handleClaude :: "agent_env \<Rightarrow> message \<Rightarrow> claudeSession \<Rightarrow> claudeSession \<times> agent_answer" where
  "handleClaude env request s =
     (let m = m_Method request; args = m_Args request; sprint = ae_sprint env; wait = AwaitControl (cd_id s) (ae_random env) in
      if m = ''listModels'' then (s, AgentValue claudeModels)
      else if m = ''setModel''
      then (let v = ObjectArg args 0;
                s1 = s\<lparr>cd_model := StringValue sprint (obj_get v ''model''), cd_effort := StringValue sprint (obj_get v ''effort'')\<rparr>
            in awaiting (control_begin (ae_random env) [(''subtype'', StrV ''set_model''), (''model'', StrV (cd_model s1))] s1) wait)
      else if m = ''prompt''
      then (case claude_prompt (ae_read env) (ae_ext env) sprint (ae_random env) args s of
              (s1, Inl e) \<Rightarrow> (s1, AgentError e)
            | (s1, Inr None) \<Rightarrow> (s1, AgentValue NilV)
            | (s1, Inr (Some turn)) \<Rightarrow> (s1, AgentValue (ObjV [(''turnId'', StrV turn)])))
      else if m = ''interrupt''
      then awaiting (control_begin (ae_random env) [(''subtype'', StrV ''interrupt''), (''cancel_queued'', BoolV True)] s) wait
      else if m = ''respondTool''
      then (if length args < 2 then (s, AgentError ''tool result is invalid'')
            else (case respondTool (StringValue sprint (args ! 0)) (ObjectArg args 1) s of (s1, ok) \<Rightarrow> (s1, AgentValue (BoolV ok))))
      else (s, AgentError ''unsupported agent method''))"

definition claude_effort :: "string \<Rightarrow> claudeSession \<Rightarrow> claudeSession \<times> agent_answer" where
  "claude_effort i s =
     awaiting (control_begin i [(''subtype'', StrV ''apply_flag_settings''), (''settings'', ObjV [(''effortLevel'', StrV (cd_effort s))])] s)
       (AwaitControl (cd_id s) i)"

definition called :: "string \<Rightarrow> agentSession \<times> (string + nat) option \<Rightarrow> any \<Rightarrow> agentSession \<times> agent_answer" where
  "called i r idle =
     (case r of
        (s, None) \<Rightarrow> (s, AgentValue idle)
      | (s, Some (Inl e)) \<Rightarrow> (s, AgentError e)
      | (s, Some (Inr n)) \<Rightarrow> (s, AwaitCall i n))"

definition handle_codex :: "agent_env \<Rightarrow> message \<Rightarrow> agentSession \<Rightarrow> agentSession \<times> agent_answer" where
  "handle_codex env request s =
     (let m = m_Method request; args = m_Args request; sprint = ae_sprint env in
      if m = ''listModels'' then (case call_begin ''model/list'' (ObjV []) s of (s1, r) \<Rightarrow> called (cx_id s) (s1, Some r) NilV)
      else if m = ''setModel''
      then (let s1 = codex_set_model sprint args s
            in (s1, AgentValue (ObjV [(''model'', StrV (cx_model s1)), (''effort'', StrV (cx_effort s1))])))
      else if m = ''prompt'' then called (cx_id s) (codex_prompt sprint args s) NilV
      else if m = ''interrupt'' then called (cx_id s) (codex_interrupt s) (BoolV False)
      else if m = ''respondTool'' then awaiting (codex_respond sprint args s) (AgentValue (BoolV True))
      else (s, AgentError ''unsupported agent method''))"

text \<open>\<open>handle\<close>, up to the first wait; the frame's session id is given beside the frame.\<close>

definition agents_handle :: "agent_env \<Rightarrow> string \<Rightarrow> message \<Rightarrow> agentService \<Rightarrow> agentService \<times> agent_answer" where
  "agents_handle env sessionID request a =
     (let m = m_Method request; args = m_Args request in
      if m = ''listAgents'' then (a, AgentValue (ae_rows env))
      else if m = ''start''
      then (let options = ObjectArg args 0;
                selected = select_agent (StringValue (ae_sprint env) (obj_get options ''agentId'')) (ae_providers env) []
            in if selected = []
               then (a, AgentError ''no configured coding agent was found; install and sign in to Codex or Claude Code first'')
               else (a, StartAgent selected (agent_app (m_AppID request)) options))
      else
        (case map_of (ag_claude a) sessionID of
           Some s \<Rightarrow>
             if m = ''stop'' then (case stopClaude sessionID a of (a1, r) \<Rightarrow> (a1, AgentValue (BoolV (r \<noteq> None))))
             else (case handleClaude env request s of (s1, answer) \<Rightarrow> (a\<lparr>ag_claude := AList.update sessionID s1 (ag_claude a)\<rparr>, answer))
         | None \<Rightarrow>
             (case map_of (ag_sessions a) sessionID of
                None \<Rightarrow> (a, AgentError ''the agent session is no longer available'')
              | Some s \<Rightarrow>
                  if m = ''stop'' then (case stop_codex sessionID a of (a1, r) \<Rightarrow> (a1, AgentValue (BoolV r)))
                  else (case handle_codex env request s of (s1, answer) \<Rightarrow>
                          (a\<lparr>ag_sessions := AList.update sessionID s1 (ag_sessions a)\<rparr>, answer)))))"

subsection \<open>The MCP proxy\<close>

text \<open>One line of the proxy's input; \<open>call\<close> is the HTTP call of the parent. None: nothing is written.\<close>

definition mcp_result :: "string \<Rightarrow> bool \<Rightarrow> any" where
  "mcp_result txt failed = ObjV [(''content'', ArrV [ObjV [(''type'', StrV ''text''), (''text'', StrV txt)]]), (''isError'', BoolV failed)]"

definition mcp_answer :: "(any \<Rightarrow> string) \<Rightarrow> (any \<Rightarrow> any \<Rightarrow> string + obj) \<Rightarrow> obj list \<Rightarrow> obj \<Rightarrow> obj option" where
  "mcp_answer sprint call tools m =
     (case map_of m ''id'' of
        None \<Rightarrow> None
      | Some i \<Rightarrow>
          (let name = StringValue sprint (obj_get m ''method''); params = sub_obj m ''params'';
               head = [(''jsonrpc'', StrV ''2.0''), (''id'', i)]
           in Some
             (if name = ''initialize''
              then head @ [(''result'', ObjV [(''protocolVersion'', StrV ''2025-06-18''), (''capabilities'', ObjV [(''tools'', ObjV [])]),
                     (''serverInfo'', ObjV [(''name'', StrV ''dynapp''), (''version'', StrV ''1.0.0'')])])]
              else if name = ''ping'' then head @ [(''result'', ObjV [])]
              else if name = ''tools/list''
              then head @ [(''result'', ObjV [(''tools'', ArrV (map (\<lambda>t. ObjV [(''name'', obj_get t ''name''),
                     (''description'', obj_get t ''description''), (''inputSchema'', obj_get t ''inputSchema'')]) tools))])]
              else if name = ''tools/call''
              then (case call (obj_get params ''name'') (obj_get params ''arguments'') of
                      Inl e \<Rightarrow> head @ [(''result'', mcp_result e True)]
                    | Inr outcome \<Rightarrow>
                        head @ [(''result'', mcp_result (StringValue sprint (obj_get outcome ''text'')) (obj_get outcome ''ok'' = BoolV False))])
              else head @ [(''error'', ObjV [(''code'', NumV (- 32601)), (''message'', StrV ''Method not found'')])])))"

definition mcp_run :: "(any \<Rightarrow> string) \<Rightarrow> (any \<Rightarrow> any \<Rightarrow> string + obj) \<Rightarrow> obj list \<Rightarrow> obj option list \<Rightarrow> obj list" where
  "mcp_run sprint call tools input =
     List.map_filter (\<lambda>line. case line of None \<Rightarrow> None | Some m \<Rightarrow> mcp_answer sprint call tools m) input"

end
