(* ===== verification/Agents_Properties.thy ===== *)
theory Agents_Properties
  imports Agents
begin

text \<open>
  Coding agents: a waiting call gets the first answer to it and no other, whatever else is going on; every
  process belongs to one session and closing kills them all; how a turn that has ended comes back.
\<close>

subsection \<open>One answer per call\<close>

text \<open>The contract of a table of waiting calls: the first answer to an open call stays its answer.\<close>

locale one_answer =
  fixes answer :: "'k \<Rightarrow> 'v \<Rightarrow> 's \<Rightarrow> 's"
    and opened :: "'s \<Rightarrow> 'k set"
    and box :: "'s \<Rightarrow> 'k \<Rightarrow> 'v option"
    and good :: "'s \<Rightarrow> bool"
  assumes answer_good: "good s \<Longrightarrow> good (answer k v s)"
    and answer_box: "good s \<Longrightarrow> box (answer k v s) j = (if j = k \<and> k \<in> opened s \<and> box s k = None then Some v else box s j)"
    and answer_opened: "good s \<Longrightarrow> j \<noteq> k \<Longrightarrow> j \<in> opened (answer k v s) \<longleftrightarrow> j \<in> opened s"
    and answer_closed: "good s \<Longrightarrow> j \<notin> opened s \<Longrightarrow> j \<notin> opened (answer k v s)"
begin

lemma answers_good: "good s \<Longrightarrow> good (fold (\<lambda>(k, v). answer k v) kvs s)"
  by (induction kvs arbitrary: s) (auto simp: answer_good)

lemma answer_kept: "good s \<Longrightarrow> box s k = Some v \<Longrightarrow> box (fold (\<lambda>(k, v). answer k v) kvs s) k = Some v"
proof (induction kvs arbitrary: s)
  case (Cons kv kvs)
  obtain j w where kv: "kv = (j, w)" by force
  have "box (answer j w s) k = Some v" using Cons.prems by (auto simp: answer_box)
  then show ?case using Cons.IH [OF answer_good [OF Cons.prems(1)]] kv by simp
qed simp

lemma first_answer:
  "good s \<Longrightarrow> k \<in> opened s \<Longrightarrow> box s k = None \<Longrightarrow> box (fold (\<lambda>(k, v). answer k v) kvs s) k = map_of kvs k"
proof (induction kvs arbitrary: s)
  case (Cons kv kvs)
  obtain j v where kv: "kv = (j, v)" by force
  have good: "good (answer j v s)" using Cons.prems(1) by (rule answer_good)
  show ?case
  proof (cases "j = k")
    case True
    then have "box (answer j v s) k = Some v" using Cons.prems by (simp add: answer_box)
    then show ?thesis using answer_kept [OF good] True kv by simp
  next
    case False
    then have "k \<in> opened (answer j v s)" "box (answer j v s) k = None"
      using Cons.prems answer_opened [of s k j v] by (simp_all add: answer_box)
    then show ?thesis using Cons.IH [OF good] False kv by simp
  qed
qed simp

text \<open>What a channel holds depends on nothing but the call's own state and its own answers.\<close>

lemma answers_box:
  "good s \<Longrightarrow> box (fold (\<lambda>(k, v). answer k v) kvs s) k =
    (case box s k of Some v \<Rightarrow> Some v | None \<Rightarrow> if k \<in> opened s then map_of kvs k else None)"
proof (cases "box s k")
  case None
  assume good: "good s"
  show ?thesis
  proof (cases "k \<in> opened s")
    case False
    then have "box (fold (\<lambda>(k, v). answer k v) kvs s) k = None" using good None
    proof (induction kvs arbitrary: s)
      case (Cons kv kvs)
      obtain j w where kv: "kv = (j, w)" by force
      have "box (answer j w s) k = None" using Cons.prems by (auto simp: answer_box)
      moreover have "k \<notin> opened (answer j w s)" using Cons.prems answer_closed [of s k j w] by simp
      ultimately show ?case using Cons.IH [OF _ answer_good [OF Cons.prems(2)]] kv by simp
    qed simp
    then show ?thesis using None False by simp
  qed (use None good first_answer in simp)
qed (use answer_kept in simp)

end

definition calls_ok :: "('k, 'v) calls \<Rightarrow> bool" where
  "calls_ok c \<longleftrightarrow> (\<forall>k \<in> set (cl_open c). map_of (cl_box c) k = None)"

interpretation answered: one_answer call_answer "\<lambda>c. set (cl_open c)" "\<lambda>c. map_of (cl_box c)" calls_ok
  by unfold_locales (auto simp: call_answer_def calls_ok_def)

interpretation offered: one_answer "\<lambda>k v c. fst (call_offer k v c)" "\<lambda>c. set (cl_open c)" "\<lambda>c. map_of (cl_box c)" "\<lambda>_. True"
  by unfold_locales (auto simp: call_offer_def)

subsection \<open>The course of a Codex session\<close>

datatype codex_action =
    ReadLine obj
  | BeginCall string any
  | BeginPrompt "any list"
  | BeginInterrupt
  | EndCall nat
  | EndPrompt nat
  | SetModel "any list"
  | RespondTool "any list"
  | StdinCloses

fun codex_act :: "(any \<Rightarrow> string) \<Rightarrow> (rat \<Rightarrow> int) \<Rightarrow> codex_action \<Rightarrow> agentSession \<Rightarrow> agentSession option" where
  "codex_act sprint ovf (ReadLine m) s = Some (codex_receive sprint ovf m s)"
| "codex_act sprint ovf (BeginCall name params) s = Some (fst (call_begin name params s))"
| "codex_act sprint ovf (BeginPrompt args) s = Some (fst (codex_prompt sprint args s))"
| "codex_act sprint ovf BeginInterrupt s = Some (fst (codex_interrupt s))"
| "codex_act sprint ovf (EndCall i) s = map_option fst (call_end sprint i s)"
| "codex_act sprint ovf (EndPrompt i) s = map_option fst (codex_prompted sprint i s)"
| "codex_act sprint ovf (SetModel args) s = Some (codex_set_model sprint args s)"
| "codex_act sprint ovf (RespondTool args) s = Some (fst (codex_respond sprint args s))"
| "codex_act sprint ovf StdinCloses s = Some (s\<lparr>cx_stdin := False\<rparr>)"

text \<open>The answer in a line, if it is one.\<close>

definition line_answer :: "(rat \<Rightarrow> int) \<Rightarrow> obj \<Rightarrow> (int \<times> agent_response) option" where
  "line_answer ovf m =
     (if as_num (obj_get m ''id'') \<noteq> None \<and> (obj_get m ''result'' \<noteq> NilV \<or> obj_get m ''error'' \<noteq> NilV)
      then Some (integer64 ovf (obj_get m ''id''),
             if obj_get m ''error'' \<noteq> NilV then AgentProblem (obj_get m ''error'') else AgentResult (obj_get m ''result''))
      else None)"

fun answers_in :: "(rat \<Rightarrow> int) \<Rightarrow> codex_action list \<Rightarrow> (int \<times> agent_response) list" where
  "answers_in ovf [] = []"
| "answers_in ovf (ReadLine m # es) = (case line_answer ovf m of None \<Rightarrow> answers_in ovf es | Some a \<Rightarrow> a # answers_in ovf es)"
| "answers_in ovf (_ # es) = answers_in ovf es"

text \<open>No two calls share a number: open calls and answers not yet taken have numbers given out.\<close>

definition codex_ok :: "agentSession \<Rightarrow> bool" where
  "codex_ok s \<longleftrightarrow> calls_ok (cx_calls s)
     \<and> (\<forall>k. k \<in> set (cl_open (cx_calls s)) \<or> map_of (cl_box (cx_calls s)) k \<noteq> None \<longrightarrow> k \<le> int (cx_next s))"

lemma codex_notified_calls [simp]:
  "cx_calls (codex_notified sprint m s) = cx_calls s" "cx_next (codex_notified sprint m s) = cx_next s"
  by (simp_all add: codex_notified_def codex_publish_def codex_write_def Let_def split: option.splits)

lemma codex_receive_calls:
  "cx_calls (codex_receive sprint ovf m s) = (case line_answer ovf m of None \<Rightarrow> cx_calls s | Some (k, v) \<Rightarrow> call_answer k v (cx_calls s))"
  "cx_next (codex_receive sprint ovf m s) = cx_next s"
  by (simp_all add: codex_receive_def line_answer_def)

lemma call_begin_calls:
  "cx_calls (fst (call_begin name params s)) = call_open (int (Suc (cx_next s))) (cx_calls s)"
  "cx_next (fst (call_begin name params s)) = Suc (cx_next s)"
  by (simp_all add: call_begin_def codex_write_def Let_def)

lemma call_end_calls: "call_end sprint i s = Some (s1, r) \<Longrightarrow> cx_calls s1 = snd (call_take (int i) (cx_calls s)) \<and> cx_next s1 = cx_next s"
  by (auto simp: call_end_def call_take_def split: option.splits agent_response.splits)

lemma codex_prompted_calls:
  "codex_prompted sprint i s = Some (s1, r) \<Longrightarrow> cx_calls s1 = snd (call_take (int i) (cx_calls s)) \<and> cx_next s1 = cx_next s"
  by (auto simp: codex_prompted_def dest!: call_end_calls split: option.splits sum.splits)

text \<open>What an action does to the calls: nothing, or it opens one, takes an answer, or reads one.\<close>

definition opens_one :: "agentSession \<Rightarrow> agentSession \<Rightarrow> bool" where
  "opens_one s s1 \<longleftrightarrow> cx_calls s1 = call_open (int (Suc (cx_next s))) (cx_calls s) \<and> cx_next s1 = Suc (cx_next s)"

lemma call_begin_opens: "call_begin name params s = (s1, r) \<Longrightarrow> opens_one s s1"
  using call_begin_calls [of name params s] by (simp add: opens_one_def)

lemma act_effect:
  assumes "codex_act sprint ovf e s = Some s1"
  shows "(answers_in ovf [e] = [] \<and> (opens_one s s1 \<or> cx_next s1 = cx_next s \<and> (cx_calls s1 = cx_calls s
        \<or> (\<exists>i. e \<in> {EndCall i, EndPrompt i} \<and> cx_calls s1 = snd (call_take (int i) (cx_calls s))))))
    \<or> (\<exists>k v. answers_in ovf [e] = [(k, v)] \<and> cx_calls s1 = call_answer k v (cx_calls s) \<and> cx_next s1 = cx_next s)"
proof (cases e)
  case (ReadLine m)
  then show ?thesis using assms codex_receive_calls [of sprint ovf m s] by (cases "line_answer ovf m") auto
next
  case (BeginPrompt args)
  then show ?thesis using assms by (auto simp: codex_prompt_def Let_def split: prod.splits if_splits dest!: call_begin_opens)
next
  case BeginInterrupt
  then show ?thesis using assms by (auto simp: codex_interrupt_def split: prod.splits if_splits dest!: call_begin_opens)
next
  case (SetModel args)
  then show ?thesis using assms by (auto simp: codex_set_model_def split: option.splits if_splits)
next
  case (RespondTool args)
  then show ?thesis using assms by (auto simp: codex_respond_def codex_write_def Let_def split: if_splits)
qed (use assms call_begin_calls call_end_calls codex_prompted_calls in \<open>auto simp: opens_one_def\<close>)

lemma answers_cons: "answers_in ovf (e # es) = answers_in ovf [e] @ answers_in ovf es"
  by (cases e) (auto split: option.splits)

lemma codex_ok_new [simp]: "codex_ok (new_codex i appID model effort)"
  by (simp add: codex_ok_def calls_ok_def new_codex_def no_calls_def)

lemma codex_ok_act:
  assumes "codex_ok s" "codex_act sprint ovf e s = Some s1"
  shows "codex_ok s1"
  using act_effect [OF assms(2)]
proof (elim disjE conjE exE)
  assume "opens_one s s1"
  then show ?thesis using assms(1) unfolding opens_one_def codex_ok_def
    by (fastforce simp: call_open_def calls_ok_def)
next
  fix i
  assume "cx_next s1 = cx_next s" "cx_calls s1 = snd (call_take (int i) (cx_calls s))"
  then show ?thesis using assms(1) unfolding codex_ok_def by (auto simp: call_take_def calls_ok_def)
next
  fix k v
  assume "cx_calls s1 = call_answer k v (cx_calls s)" "cx_next s1 = cx_next s"
  then show ?thesis using assms(1) answered.answer_good [of "cx_calls s" k v] unfolding codex_ok_def
    by (auto simp: call_answer_def split: if_splits)
qed (use assms(1) in \<open>simp add: codex_ok_def\<close>)

interpretation codex: action_system "\<lambda>s. \<exists>i appID model effort. s = new_codex i appID model effort" "codex_act sprint ovf" codex_ok for sprint ovf
  by unfold_locales (auto intro: codex_ok_act)

text \<open>While call \<open>i\<close> waits, other calls and their answers leave its channel alone.\<close>

definition channel :: "int \<Rightarrow> (int \<times> agent_response) list \<Rightarrow> agentSession \<Rightarrow> agent_response option" where
  "channel k kvs s = map_of (cl_box (fold (\<lambda>(k, v). call_answer k v) kvs (cx_calls s))) k"

lemma channel_eq:
  "codex_ok s \<Longrightarrow> channel k kvs s =
    (case map_of (cl_box (cx_calls s)) k of Some v \<Rightarrow> Some v | None \<Rightarrow> if k \<in> set (cl_open (cx_calls s)) then map_of kvs k else None)"
  unfolding channel_def by (rule answered.answers_box) (simp add: codex_ok_def)

lemma channel_act:
  assumes "codex_act sprint ovf e s = Some s1" "codex_ok s" "i \<le> cx_next s" "e \<noteq> EndCall i" "e \<noteq> EndPrompt i"
  shows "channel (int i) (answers_in ovf [e] @ kvs) s = channel (int i) kvs s1"
  using act_effect [OF assms(1)]
proof (elim disjE conjE exE)
  assume "answers_in ovf [e] = []" "opens_one s s1"
  then show ?thesis using assms(3) channel_eq [OF assms(2)] channel_eq [OF codex_ok_act [OF assms(2,1)]]
    by (simp add: opens_one_def call_open_def)
next
  fix j
  assume "answers_in ovf [e] = []" "e \<in> {EndCall j, EndPrompt j}" "cx_calls s1 = snd (call_take (int j) (cx_calls s))"
  moreover from this have "i \<noteq> j" using assms(4,5) by auto
  ultimately show ?thesis using channel_eq [OF assms(2)] channel_eq [OF codex_ok_act [OF assms(2,1)]] by (simp add: call_take_def)
next
  fix k v
  assume "answers_in ovf [e] = [(k, v)]" "cx_calls s1 = call_answer k v (cx_calls s)"
  then show ?thesis by (simp add: channel_def)
qed (simp add: channel_def)

lemma waiting_run:
  "run_actions (codex_act sprint ovf) es s = Some s2 \<Longrightarrow> codex_ok s \<Longrightarrow> i \<le> cx_next s \<Longrightarrow> EndCall i \<notin> set es \<Longrightarrow> EndPrompt i \<notin> set es \<Longrightarrow>
   map_of (cl_box (cx_calls s2)) (int i) = channel (int i) (answers_in ovf es) s"
proof (induction es arbitrary: s)
  case (Cons e es)
  obtain s1 where s1: "codex_act sprint ovf e s = Some s1" "run_actions (codex_act sprint ovf) es s1 = Some s2"
    using Cons.prems(1) by (auto split: option.splits)
  have "cx_next s \<le> cx_next s1" using act_effect [OF s1(1)] by (auto simp: opens_one_def)
  then have "map_of (cl_box (cx_calls s2)) (int i) = channel (int i) (answers_in ovf es) s1"
    using Cons.IH [OF s1(2) codex_ok_act [OF Cons.prems(2) s1(1)]] Cons.prems by simp
  moreover have "e \<noteq> EndCall i" "e \<noteq> EndPrompt i" using Cons.prems(4,5) by auto
  ultimately show ?case using channel_act [OF s1(1) Cons.prems(2,3), of "answers_in ovf es"] answers_cons [of ovf e es] by simp
qed (simp add: channel_def)

text \<open>
  C29: A call of a Codex session gets its own answer: however the lines of the process, other calls, prompts and
  interrupts interleave while it waits, what it will receive is the first line the process writes with
  its number, and nothing as long as there is none. Later lines with that number and the answers to
  other calls never reach it.
\<close>

theorem calls_get_their_first_answer:
  assumes "reachable (\<lambda>s. \<exists>i appID model effort. s = new_codex i appID model effort) (codex_act sprint ovf) s"
    and "call_begin name params s = (s1, r)" "run_actions (codex_act sprint ovf) es s1 = Some s2"
    and "EndCall (Suc (cx_next s)) \<notin> set es" "EndPrompt (Suc (cx_next s)) \<notin> set es"
  shows "fst (call_take (int (Suc (cx_next s))) (cx_calls s2)) = map_of (answers_in ovf es) (int (Suc (cx_next s)))"
proof -
  have "codex_ok s" using assms(1) by (rule codex.reachable_inv)
  moreover have begins: "codex_act sprint ovf (BeginCall name params) s = Some s1" using assms(2) by simp
  ultimately have ok: "codex_ok s1" by (rule codex_ok_act)
  have one: "opens_one s s1" using call_begin_opens [OF assms(2)] .
  then have "map_of (cl_box (cx_calls s2)) (int (Suc (cx_next s))) = channel (int (Suc (cx_next s))) (answers_in ovf es) s1"
    using waiting_run [OF assms(3) ok _ assms(4,5)] by (simp add: opens_one_def)
  then show ?thesis using one channel_eq [OF ok] by (simp add: opens_one_def call_open_def call_take_def)
qed

text \<open>A session whose second call is answered before the first, twice, with another call in between.\<close>

definition idle_codex :: agentSession where
  "idle_codex = new_codex ''agent_1'' ''notes'' [] []"

definition answer_line :: "nat \<Rightarrow> string \<Rightarrow> obj" where
  "answer_line i txt = [(''id'', NumV (of_nat i)), (''result'', StrV txt)]"

theorem calls_get_their_first_answer_witness:
  "\<exists>s2. run_actions (codex_act (\<lambda>_. []) (\<lambda>_. 0))
      [BeginCall ''b'' NilV, ReadLine (answer_line 2 ''two''), EndCall 2, ReadLine (answer_line 1 ''one''), ReadLine (answer_line 1 ''more'')]
      (fst (call_begin ''a'' NilV idle_codex)) = Some s2
    \<and> fst (call_take 1 (cx_calls s2)) = Some (AgentResult (StrV ''one''))"
proof -
  let ?es = "[BeginCall ''b'' NilV, ReadLine (answer_line 2 ''two''), EndCall 2, ReadLine (answer_line 1 ''one''), ReadLine (answer_line 1 ''more'')]"
  have "run_actions (codex_act (\<lambda>_. []) (\<lambda>_. 0)) ?es (fst (call_begin ''a'' NilV idle_codex)) \<noteq> None" by code_simp
  then obtain s2 where run: "run_actions (codex_act (\<lambda>_. []) (\<lambda>_. 0)) ?es (fst (call_begin ''a'' NilV idle_codex)) = Some s2" by auto
  have start: "reachable (\<lambda>s. \<exists>i appID model effort. s = new_codex i appID model effort) (codex_act (\<lambda>_. []) (\<lambda>_. 0)) idle_codex"
    by (rule reachable.start) (auto simp: idle_codex_def)
  have number: "Suc (cx_next idle_codex) = 1" by code_simp
  have begin_it: "call_begin ''a'' NilV idle_codex = (fst (call_begin ''a'' NilV idle_codex), snd (call_begin ''a'' NilV idle_codex))" by simp
  have "map_of (answers_in (\<lambda>_. 0) ?es) 1 = Some (AgentResult (StrV ''one''))" by code_simp
  moreover have "fst (call_take 1 (cx_calls s2)) = map_of (answers_in (\<lambda>_. 0) ?es) 1"
    using calls_get_their_first_answer [OF start begin_it run] unfolding number by simp
  ultimately show ?thesis using run by simp
qed

text \<open>
  A turn that has ended comes back: the answer to \<open>turn/start\<close> and the notification that the turn is
  complete are read before the prompt goes on, which then stores the turn of the answer. The session
  keeps a turn that is over, and an interrupt is sent for it.
\<close>

definition hello_prompt :: "any list" where
  "hello_prompt = [ObjV [(''text'', StrV ''hello'')]]"

theorem completed_turn_comes_back:
  "case run_actions (codex_act (\<lambda>_. []) (\<lambda>_. 0))
      [BeginPrompt hello_prompt,
       ReadLine [(''id'', NumV 1), (''result'', ObjV [(''turn'', ObjV [(''id'', StrV ''t1'')])])],
       ReadLine [(''method'', StrV ''turn/started''), (''params'', ObjV [(''turn'', ObjV [(''id'', StrV ''t1'')])])],
       ReadLine [(''method'', StrV ''turn/completed''), (''params'', ObjV [(''turn'', ObjV [(''id'', StrV ''t1'')])])],
       EndPrompt 1, BeginInterrupt] idle_codex of
     None \<Rightarrow> False
   | Some s \<Rightarrow> cx_turnID s = ''t1'' \<and> length (cx_written s) = 2
       \<and> obj_get (last (cx_written s)) ''method'' = StrV ''turn/interrupt''"
  by code_simp

text \<open>An answer whose result is null is no answer to the code: the call waits until it gives up.\<close>

theorem null_results_are_ignored:
  "obj_get m ''result'' = NilV \<Longrightarrow> obj_get m ''error'' = NilV \<Longrightarrow> cx_calls (codex_receive sprint ovf m s) = cx_calls s"
  by (simp add: codex_receive_def)

subsection \<open>Tool calls\<close>

text \<open>The app's first answer to a tool call is the one the tool gets; later ones are refused.\<close>

theorem tool_answers_are_final:
  assumes "respondTool i outcome (tool_begin i name arguments s) = (s1, ok)"
  shows "ok \<and> snd (respondTool i other s1) = False \<and> snd (tool_end gone i (fst (respondTool i other s1))) = Some outcome"
proof -
  have "s1 = (tool_begin i name arguments s)\<lparr>cd_tools := fst (call_offer i outcome (cd_tools (tool_begin i name arguments s)))\<rparr>" "ok"
    using assms by (auto simp: respondTool_def tool_begin_def publishClaude_def call_offer_def call_open_def split: prod.splits)
  then show ?thesis
    by (simp add: respondTool_def tool_end_def tool_begin_def publishClaude_def call_offer_def call_open_def call_take_def)
qed

text \<open>Closing the tool server answers everyone who waits, and keeps the answers already given.\<close>

lemma call_close_box:
  "map_of (cl_box (call_close v c)) k =
    (case map_of (cl_box c) k of Some w \<Rightarrow> Some w | None \<Rightarrow> if k \<in> set (cl_open c) then Some v else None)"
proof -
  have opened: "cl_open (fold (\<lambda>k c. fst (call_offer k v c)) ks c) = cl_open c" for ks
    by (induction ks arbitrary: c) (auto simp: call_offer_def)
  have fold: "fold (\<lambda>k c. fst (call_offer k v c)) ks c = fold (\<lambda>(k, v) c. fst (call_offer k v c)) (map (\<lambda>k. (k, v)) ks) c" for ks
    by (induction ks arbitrary: c) simp_all
  have "map_of (map (\<lambda>k. (k, v)) ks) k = (if k \<in> set ks then Some v else None)" for ks
    by (induction ks) auto
  then show ?thesis using offered.answers_box [where s = c and kvs = "map (\<lambda>k. (k, v)) (cl_open c)" and k = k]
    by (simp add: call_close_def fold case_prod_unfold split: option.splits)
qed

subsection \<open>Sessions and processes\<close>

text \<open>The service with the numbers that Claude sessions have been given before their process runs.\<close>

datatype service_action =
    StartCodex string obj
  | NumberClaude
  | StartClaude string string obj
  | StopCodex string
  | StopClaude string
  | Request agent_env string message
  | CloseAll

type_synonym service_state = "agentService \<times> string list"

fun service_act :: "(any \<Rightarrow> string) \<Rightarrow> service_action \<Rightarrow> service_state \<Rightarrow> service_state option" where
  "service_act sprint (StartCodex app options) (a, waiting) = Some (fst (start_codex sprint app options a), waiting)"
| "service_act sprint NumberClaude (a, waiting) = (case number_claude a of (a1, i) \<Rightarrow> Some (a1, i # waiting))"
| "service_act sprint (StartClaude i app options) (a, waiting) =
     (if i \<in> set waiting then Some (start_claude sprint i app options a, filter (\<lambda>x. x \<noteq> i) waiting) else None)"
| "service_act sprint (StopCodex i) (a, waiting) = Some (fst (stop_codex i a), waiting)"
| "service_act sprint (StopClaude i) (a, waiting) = Some (fst (stopClaude i a), waiting)"
| "service_act sprint (Request env i request) (a, waiting) = Some (fst (agents_handle env i request a), waiting)"
| "service_act sprint CloseAll (a, waiting) = Some (close_agents a, waiting)"

definition numbered :: "nat \<Rightarrow> string set" where
  "numbered n = (\<lambda>k. ''agent_'' @ fmt_uint 36 k) ` {..n} \<union> (\<lambda>k. ''claude_'' @ fmt_uint 36 k) ` {..n}"

text \<open>Every process belongs to one session, and numbers are given once.\<close>

definition service_ok :: "service_state \<Rightarrow> bool" where
  "service_ok st \<longleftrightarrow>
     (let a = fst st; waiting = snd st in
      distinct (ag_running a) \<and> set (ag_running a) = fst ` set (ag_sessions a) \<union> fst ` set (ag_claude a)
     \<and> fst ` set (ag_sessions a) \<inter> fst ` set (ag_claude a) = {}
     \<and> set waiting \<inter> set (ag_running a) = {}
     \<and> set waiting \<union> set (ag_running a) \<subseteq> numbered (ag_next a))"

lemma numbered_mono: "n \<le> m \<Longrightarrow> numbered n \<subseteq> numbered m"
  unfolding numbered_def by (intro Un_mono image_mono) auto

lemma numbered_fresh:
  "''agent_'' @ fmt_uint 36 (Suc n) \<notin> numbered n" "''claude_'' @ fmt_uint 36 (Suc n) \<notin> numbered n"
  using fmt_uint_inj [of 36 "Suc n"] by (fastforce simp: numbered_def)+

lemma numbered_given:
  "''agent_'' @ fmt_uint 36 (Suc n) \<in> numbered (Suc n)" "''claude_'' @ fmt_uint 36 (Suc n) \<in> numbered (Suc n)"
  by (auto simp: numbered_def)

lemma keys_delete [simp]: "fst ` set (AList.delete k m) = fst ` set m - {k}"
  by (induction m) auto

declare keys_update [simp]

lemma stop_codex_eq:
  "fst (stop_codex i a) = (if i \<in> fst ` set (ag_sessions a)
     then a\<lparr>ag_sessions := AList.delete i (ag_sessions a), ag_running := filter (\<lambda>x. x \<noteq> i) (ag_running a)\<rparr> else a)"
  unfolding stop_codex_def by (cases "map_of (ag_sessions a) i") (metis fst_conv map_of_eq_None_iff option.simps(3,4,5))+

lemma stopClaude_eq:
  "fst (stopClaude i a) = (if i \<in> fst ` set (ag_claude a)
     then a\<lparr>ag_claude := AList.delete i (ag_claude a), ag_running := filter (\<lambda>x. x \<noteq> i) (ag_running a)\<rparr> else a)"
  unfolding stopClaude_def by (cases "map_of (ag_claude a) i") (metis fst_conv map_of_eq_None_iff option.simps(3,4,5))+

lemma stop_codex_ok:
  assumes "service_ok (a, waiting)"
  shows "service_ok (fst (stop_codex i a), waiting)"
proof (cases "i \<in> fst ` set (ag_sessions a)")
  case True
  then show ?thesis using assms by (auto simp: service_ok_def stop_codex_eq Let_def)
qed (use assms in \<open>simp add: stop_codex_eq\<close>)

lemma stopClaude_ok:
  assumes "service_ok (a, waiting)"
  shows "service_ok (fst (stopClaude i a), waiting)"
proof (cases "i \<in> fst ` set (ag_claude a)")
  case True
  then show ?thesis using assms by (auto simp: service_ok_def stopClaude_eq Let_def)
qed (use assms in \<open>simp add: stopClaude_eq\<close>)

lemma close_agents_ok: "service_ok (a, waiting) \<Longrightarrow> service_ok (close_agents a, waiting)"
proof -
  have codex: "service_ok (fold (\<lambda>i a. fst (stop_codex i a)) js a, waiting)" if "service_ok (a, waiting)" for js a
    using that by (induction js arbitrary: a) (auto intro: stop_codex_ok)
  have claude: "service_ok (fold (\<lambda>i a. fst (stopClaude i a)) js a, waiting)" if "service_ok (a, waiting)" for js a
    using that by (induction js arbitrary: a) (auto intro: stopClaude_ok)
  assume "service_ok (a, waiting)"
  then show ?thesis unfolding close_agents_def Let_def by (intro claude codex)
qed

lemma agents_handle_keeps:
  "fst (agents_handle env i request a) \<in> {a, fst (stop_codex i a), fst (stopClaude i a)}
   \<or> (\<exists>s. i \<in> fst ` set (ag_claude a) \<and> fst (agents_handle env i request a) = a\<lparr>ag_claude := AList.update i s (ag_claude a)\<rparr>)
   \<or> (\<exists>s. i \<in> fst ` set (ag_sessions a) \<and> fst (agents_handle env i request a) = a\<lparr>ag_sessions := AList.update i s (ag_sessions a)\<rparr>)"
  by (auto simp: agents_handle_def Let_def split: option.splits prod.splits dest: map_of_SomeD intro: image_eqI [rotated])

lemma service_ok_started:
  assumes "service_ok (a, waiting)" "i \<notin> set waiting \<union> set (ag_running a)" "i \<in> numbered n" "numbered (ag_next a) \<subseteq> numbered n"
  shows "service_ok (a\<lparr>ag_next := n, ag_sessions := AList.update i s (ag_sessions a), ag_running := i # ag_running a\<rparr>, waiting)"
  using assms unfolding service_ok_def Let_def by simp blast

lemma service_ok_numbered:
  assumes "service_ok (a, waiting)" "i \<notin> set (ag_running a)" "i \<in> numbered n" "numbered (ag_next a) \<subseteq> numbered n"
  shows "service_ok (a\<lparr>ag_next := n\<rparr>, i # waiting)"
  using assms unfolding service_ok_def Let_def by simp blast

lemma service_ok_claude:
  assumes "service_ok (a, waiting)" "i \<in> set waiting"
  shows "service_ok (a\<lparr>ag_claude := AList.update i s (ag_claude a), ag_running := i # ag_running a\<rparr>, filter (\<lambda>x. x \<noteq> i) waiting)"
proof -
  have "i \<notin> set (ag_running a)" using assms unfolding service_ok_def Let_def by auto
  then show ?thesis using assms unfolding service_ok_def Let_def by auto
qed

lemma service_ok_act:
  assumes "service_ok st" "service_act sprint e st = Some st1"
  shows "service_ok st1"
proof -
  obtain a waiting where st: "st = (a, waiting)" by force
  have ok: "distinct (ag_running a)" "set (ag_running a) = fst ` set (ag_sessions a) \<union> fst ` set (ag_claude a)"
      "fst ` set (ag_sessions a) \<inter> fst ` set (ag_claude a) = {}" "set waiting \<inter> set (ag_running a) = {}"
      "set waiting \<union> set (ag_running a) \<subseteq> numbered (ag_next a)"
    using assms(1) [unfolded st service_ok_def Let_def fst_conv snd_conv] by blast+
  note fresh = numbered_fresh [of "ag_next a"] and given = numbered_given [of "ag_next a"]
  have "numbered (ag_next a) \<subseteq> numbered (Suc (ag_next a))" by (rule numbered_mono) simp
  note later = this
  show ?thesis
  proof (cases e)
    case (StartCodex app options)
    have "''agent_'' @ fmt_uint 36 (Suc (ag_next a)) \<notin> set waiting \<union> set (ag_running a)" using ok(5) fresh by blast
    from service_ok_started [OF _ this given(1) later] show ?thesis using assms StartCodex st by (auto simp: start_codex_def Let_def)
  next
    case NumberClaude
    have "''claude_'' @ fmt_uint 36 (Suc (ag_next a)) \<notin> set (ag_running a)" using ok(5) fresh by blast
    from service_ok_numbered [OF _ this given(2) later] show ?thesis using assms NumberClaude st by (auto simp: number_claude_def Let_def)
  next
    case (StartClaude i app options)
    then show ?thesis using assms st service_ok_claude [of a waiting i] by (auto simp: start_claude_def split: if_splits)
  next
    case (Request env i request)
    then have st1: "st1 = (fst (agents_handle env i request a), waiting)" using assms(2) st by simp
    show ?thesis
      using agents_handle_keeps [of env i request a]
    proof (elim disjE exE conjE)
      assume "fst (agents_handle env i request a) \<in> {a, fst (stop_codex i a), fst (stopClaude i a)}"
      then show ?thesis using assms(1) st st1 stop_codex_ok stopClaude_ok by auto
    next
      fix s
      assume "i \<in> fst ` set (ag_claude a)" "fst (agents_handle env i request a) = a\<lparr>ag_claude := AList.update i s (ag_claude a)\<rparr>"
      then show ?thesis using assms(1) st st1 by (auto simp: service_ok_def Let_def)
    next
      fix s
      assume "i \<in> fst ` set (ag_sessions a)" "fst (agents_handle env i request a) = a\<lparr>ag_sessions := AList.update i s (ag_sessions a)\<rparr>"
      then show ?thesis using assms(1) st st1 by (auto simp: service_ok_def Let_def)
    qed
  qed (use assms st stop_codex_ok stopClaude_ok close_agents_ok in auto)
qed

interpretation service: action_system "\<lambda>st. st = (newAgentService, [])" "service_act sprint" service_ok for sprint
  by unfold_locales (simp add: service_ok_def newAgentService_def, rule service_ok_act)

lemma stop_codex_keys:
  "fst ` set (ag_sessions (fold (\<lambda>i a. fst (stop_codex i a)) js a)) = fst ` set (ag_sessions a) - set js
   \<and> ag_claude (fold (\<lambda>i a. fst (stop_codex i a)) js a) = ag_claude a"
  by (induction js arbitrary: a) (auto simp: stop_codex_eq)

lemma stopClaude_keys:
  "fst ` set (ag_claude (fold (\<lambda>i a. fst (stopClaude i a)) js a)) = fst ` set (ag_claude a) - set js
   \<and> ag_sessions (fold (\<lambda>i a. fst (stopClaude i a)) js a) = ag_sessions a"
  by (induction js arbitrary: a) (auto simp: stopClaude_eq)

lemma close_agents_empties: "ag_sessions (close_agents a) = [] \<and> ag_claude (close_agents a) = []"
proof -
  let ?a1 = "fold (\<lambda>i a. fst (stop_codex i a)) (map fst (ag_sessions a)) a"
  have "fst ` set (ag_sessions ?a1) = {}" using stop_codex_keys [of "map fst (ag_sessions a)" a] by simp
  then have "ag_sessions ?a1 = []" by simp
  moreover have "fst ` set (ag_claude (close_agents a)) = {}" "ag_sessions (close_agents a) = ag_sessions ?a1"
    using stopClaude_keys [of "map fst (ag_claude ?a1)" ?a1] by (simp_all add: close_agents_def Let_def)
  ultimately show ?thesis by simp
qed



text \<open>A start that was under way when the socket closed leaves a process that nobody stops.\<close>

theorem late_start_survives_the_close: "ag_running (fst (start_codex sprint app options (close_agents a))) \<noteq> []"
  by (simp add: start_codex_def Let_def)

subsection \<open>Choosing an agent\<close>

lemma select_chosen: "selected \<noteq> [] \<Longrightarrow> list_all (\<lambda>p. fst p \<noteq> []) ps \<Longrightarrow>
  select_agent requested ps selected = (if (requested, True) \<in> set ps then requested else selected)"
  by (induction requested ps selected rule: select_agent.induct) auto

text \<open>The agent asked for is started if it is available, otherwise the first one that is.\<close>

theorem requested_agent_is_selected:
  assumes "list_all (\<lambda>p. fst p \<noteq> []) ps"
  shows "select_agent requested ps [] =
    (if (requested, True) \<in> set ps then requested
     else case find snd ps of None \<Rightarrow> [] | Some p \<Rightarrow> fst p)"
  using assms
proof (induction ps)
  case (Cons p ps)
  obtain provider available where p: "p = (provider, available)" by force
  then show ?case using Cons select_chosen [of provider ps requested] by auto
qed simp

subsection \<open>The MCP proxy\<close>

text \<open>Every request is answered once and in order, under its own id, and nothing else is.\<close>

theorem mcp_requests_are_answered:
  "map (\<lambda>answer. obj_get answer ''id'') (mcp_run sprint call tools input)
   = List.map_filter (\<lambda>line. case line of None \<Rightarrow> None | Some m \<Rightarrow> map_of m ''id'') input"
proof -
  have one: "map_option (\<lambda>answer. obj_get answer ''id'') (mcp_answer sprint call tools m) = map_of m ''id''" for m
    by (cases "map_of m ''id''") (auto simp: mcp_answer_def Let_def obj_get_def split: sum.splits)
  show ?thesis
  proof (induction input)
    case (Cons line input)
    show ?case
    proof (cases line)
      case (Some m)
      then show ?thesis using Cons one [of m]
        by (cases "mcp_answer sprint call tools m"; cases "map_of m ''id''") (simp_all add: mcp_run_def map_filter_simps)
    qed (use Cons in \<open>simp add: mcp_run_def map_filter_simps\<close>)
  qed (simp add: mcp_run_def map_filter_simps)
qed

end
