(* ===== verification/Dyner_Api.thy ===== *)
theory Dyner_Api
  imports Url_Text Json Config
begin

text \<open>
  The agent's requests to the Dyner service (\<open>shellagent/registration.go\<close>): how a request is put together and
  what its answer is read as. The service is a parameter: it sees the requests sent so far and the new
  one, and answers with a status and a body, or not at all. Every request that leaves is recorded.
\<close>

record dyner_request =
  dr_Method :: string
  dr_URL :: string
  dr_Bearer :: string
  dr_Body :: "any option"

text \<open>A body that is not JSON is None.\<close>

type_synonym dyner_service = "dyner_request list \<Rightarrow> dyner_request \<Rightarrow> string + int \<times> any option"

definition dynerJSON ::
  "dyner_service \<Rightarrow> string \<Rightarrow> string \<Rightarrow> string \<Rightarrow> any option \<Rightarrow> dyner_request list \<Rightarrow>
   dyner_request list \<times> (string + int \<times> any option)" where
  "dynerJSON service verb rawURL bearer body sent =
     (case wire_parse rawURL of
        None \<Rightarrow> (sent, Inl ''parse error'')
      | Some _ \<Rightarrow>
          (let request = \<lparr>dr_Method = verb, dr_URL = rawURL, dr_Bearer = bearer, dr_Body = body\<rparr>
           in (sent @ [request], service sent request)))"

definition dynerAPIURL :: "string \<Rightarrow> string \<Rightarrow> string + string" where
  "dynerAPIURL base path =
     (case wire_parse (trim_right_slash base) of
        None \<Rightarrow> Inl ''parse error''
      | Some parsed \<Rightarrow>
          Inr (url_text (parsed\<lparr>w_url := (w_url parsed)\<lparr>u_Path := trim_right_slash (u_Path (w_url parsed)) @ path,
                                                     u_RawQuery := [], u_Fragment := []\<rparr>\<rparr>)))"

text \<open>\<open>url.PathEscape\<close>.\<close>

definition path_escape :: "string \<Rightarrow> string" where
  "path_escape s =
     concat (map (\<lambda>c. if is_alnum c \<or> c \<in> set ''-_.~$&+:=@'' then [c]
                      else [CHR ''%'', upper_hex (of_char c div 16), upper_hex (of_char c mod 16)]) s)"

definition ok_status :: "int \<Rightarrow> bool" where
  "ok_status status \<longleftrightarrow> 200 \<le> status \<and> status < 300"

subsection \<open>Answers\<close>

record remoteEnvironmentRecord =
  re_ID :: string
  re_Name :: string
  re_Endpoint :: string
  re_State :: string
  re_Capabilities :: "string list"
  re_Transport :: obj

definition no_environment :: remoteEnvironmentRecord where
  "no_environment = \<lparr>re_ID = [], re_Name = [], re_Endpoint = [], re_State = [], re_Capabilities = [], re_Transport = []\<rparr>"

record registerEnvironmentResponse =
  rr_Environment :: remoteEnvironmentRecord
  rr_DeviceCredential :: string

definition decode_strings :: "string list decoder" where
  "decode_strings v old = (case v of ArrV xs \<Rightarrow> collect (map (\<lambda>x. decode_string x []) xs) | NilV \<Rightarrow> Inr [] | _ \<Rightarrow> Inl json_mismatch)"

definition decode_object :: "obj decoder" where
  "decode_object v old = (case v of ObjV m \<Rightarrow> Inr (AList.merge old m) | NilV \<Rightarrow> Inr [] | _ \<Rightarrow> Inl json_mismatch)"

definition environment_field :: "string \<Rightarrow> any \<Rightarrow> remoteEnvironmentRecord \<Rightarrow> string + remoteEnvironmentRecord" where
  "environment_field k v r =
     (if k = ''id'' then map_sum id (\<lambda>x. r\<lparr>re_ID := x\<rparr>) (decode_string v (re_ID r))
      else if k = ''name'' then map_sum id (\<lambda>x. r\<lparr>re_Name := x\<rparr>) (decode_string v (re_Name r))
      else if k = ''endpoint'' then map_sum id (\<lambda>x. r\<lparr>re_Endpoint := x\<rparr>) (decode_string v (re_Endpoint r))
      else if k = ''state'' then map_sum id (\<lambda>x. r\<lparr>re_State := x\<rparr>) (decode_string v (re_State r))
      else if k = ''capabilities'' then map_sum id (\<lambda>x. r\<lparr>re_Capabilities := x\<rparr>) (decode_strings v (re_Capabilities r))
      else if k = ''transport'' then map_sum id (\<lambda>x. r\<lparr>re_Transport := x\<rparr>) (decode_object v (re_Transport r))
      else Inr r)"

definition register_field :: "string \<Rightarrow> any \<Rightarrow> registerEnvironmentResponse \<Rightarrow> string + registerEnvironmentResponse" where
  "register_field k v r =
     (if k = ''environment''
      then map_sum id (\<lambda>x. r\<lparr>rr_Environment := x\<rparr>) (decode_struct environment_field v (rr_Environment r))
      else if k = ''devicecredential'' then map_sum id (\<lambda>x. r\<lparr>rr_DeviceCredential := x\<rparr>) (decode_string v (rr_DeviceCredential r))
      else Inr r)"

text \<open>The list of environments.\<close>

definition list_field :: "string \<Rightarrow> any \<Rightarrow> remoteEnvironmentRecord list \<Rightarrow> string + remoteEnvironmentRecord list" where
  "list_field k v old =
     (if k = ''environments'' then (case v of ArrV xs \<Rightarrow> collect (map (\<lambda>x. decode_struct environment_field x no_environment) xs) | NilV \<Rightarrow> Inr [] | _ \<Rightarrow> Inl json_mismatch)
      else Inr old)"

subsection \<open>Operations\<close>

text \<open>The two ways an update can fail that the agent tells apart.\<close>

datatype update_error = EnvironmentNotFound | UpdateFailed string

definition environments_path :: string where
  "environments_path = ''/api/v1/remote-environments''"

definition failed_status :: "string \<Rightarrow> int \<Rightarrow> string" where
  "failed_status what status = ''Dyner environment '' @ what @ '' failed: HTTP '' @ fmt_uint 10 (nat status)"

definition RegisterRemoteEnvironment ::
  "dyner_service \<Rightarrow> string \<Rightarrow> string \<Rightarrow> obj \<Rightarrow> dyner_request list \<Rightarrow> dyner_request list \<times> (string + registerEnvironmentResponse)" where
  "RegisterRemoteEnvironment service baseURL bearer body sent =
     (case dynerAPIURL baseURL environments_path of
        Inl e \<Rightarrow> (sent, Inl e)
      | Inr endpoint \<Rightarrow>
          (case dynerJSON service ''POST'' endpoint bearer (Some (ObjV body)) sent of
             (sent', Inl e) \<Rightarrow> (sent', Inl e)
           | (sent', Inr (status, data)) \<Rightarrow>
               (sent',
                if \<not> ok_status status then Inl (failed_status ''registration'' status)
                else (case data of
                        None \<Rightarrow> Inl ''invalid JSON''
                      | Some v \<Rightarrow>
                          (case decode_struct register_field v \<lparr>rr_Environment = no_environment, rr_DeviceCredential = []\<rparr> of
                             Inl e \<Rightarrow> Inl e
                           | Inr payload \<Rightarrow>
                               if re_ID (rr_Environment payload) = [] \<or> rr_DeviceCredential payload = []
                               then Inl ''Dyner did not return a device credential'' else Inr payload)))))"

definition UpdateRemoteEnvironment ::
  "dyner_service \<Rightarrow> string \<Rightarrow> string \<Rightarrow> string \<Rightarrow> obj \<Rightarrow> dyner_request list \<Rightarrow> dyner_request list \<times> update_error option" where
  "UpdateRemoteEnvironment service baseURL bearer environmentID body sent =
     (case dynerAPIURL baseURL (environments_path @ ''/'' @ path_escape environmentID) of
        Inl e \<Rightarrow> (sent, Some (UpdateFailed e))
      | Inr endpoint \<Rightarrow>
          (case dynerJSON service ''PATCH'' endpoint bearer (Some (ObjV body)) sent of
             (sent', Inl e) \<Rightarrow> (sent', Some (UpdateFailed e))
           | (sent', Inr (status, data)) \<Rightarrow>
               (sent', if status = 404 then Some EnvironmentNotFound
                       else if \<not> ok_status status then Some (UpdateFailed (failed_status ''update'' status)) else None)))"

definition MergeRemoteEnvironment ::
  "dyner_service \<Rightarrow> string \<Rightarrow> string \<Rightarrow> string \<Rightarrow> string \<Rightarrow> dyner_request list \<Rightarrow> dyner_request list \<times> string option" where
  "MergeRemoteEnvironment service baseURL bearer target source sent =
     (case dynerAPIURL baseURL (environments_path @ ''/'' @ path_escape target @ ''/merge'') of
        Inl e \<Rightarrow> (sent, Some e)
      | Inr endpoint \<Rightarrow>
          (case dynerJSON service ''POST'' endpoint bearer (Some (ObjV [(''sourceEnvironmentId'', StrV source)])) sent of
             (sent', Inl e) \<Rightarrow> (sent', Some e)
           | (sent', Inr (status, data)) \<Rightarrow>
               (sent', if \<not> ok_status status then Some (failed_status ''merge'' status) else None)))"

definition RevokeRemoteEnvironment ::
  "dyner_service \<Rightarrow> string \<Rightarrow> string \<Rightarrow> string \<Rightarrow> dyner_request list \<Rightarrow> dyner_request list \<times> string option" where
  "RevokeRemoteEnvironment service baseURL bearer environmentID sent =
     (if environmentID = [] then (sent, None)
      else (case dynerAPIURL baseURL (environments_path @ ''/'' @ path_escape environmentID) of
              Inl e \<Rightarrow> (sent, Some e)
            | Inr endpoint \<Rightarrow>
                (case dynerJSON service ''DELETE'' endpoint bearer None sent of
                   (sent', Inl e) \<Rightarrow> (sent', Some e)
                 | (sent', Inr (status, data)) \<Rightarrow>
                     (sent', if status < 200 \<or> (status \<ge> 300 \<and> status \<noteq> 404 \<and> status \<noteq> 410)
                             then Some (failed_status ''revoke'' status) else None))))"

definition ListRemoteEnvironments ::
  "dyner_service \<Rightarrow> string \<Rightarrow> string \<Rightarrow> dyner_request list \<Rightarrow> dyner_request list \<times> (string + remoteEnvironmentRecord list)" where
  "ListRemoteEnvironments service baseURL bearer sent =
     (case dynerAPIURL baseURL environments_path of
        Inl e \<Rightarrow> (sent, Inl e)
      | Inr endpoint \<Rightarrow>
          (case dynerJSON service ''GET'' endpoint bearer None sent of
             (sent', Inl e) \<Rightarrow> (sent', Inl e)
           | (sent', Inr (status, data)) \<Rightarrow>
               (sent',
                if \<not> ok_status status then Inl (failed_status ''list'' status)
                else (case data of None \<Rightarrow> Inl ''invalid JSON'' | Some v \<Rightarrow> decode_struct list_field v []))))"

subsection \<open>What an operation does to the record of requests\<close>

text \<open>It adds at most one request; a registration that succeeds has its environment from that request's answer.\<close>

lemma dynerJSON_sent: "dynerJSON service verb url bearer body sent = (sent', r) \<Longrightarrow> prefix sent sent' \<and> length sent' \<le> Suc (length sent)"
  by (auto simp: dynerJSON_def Let_def split: option.splits)

end
