(* ===== verification/Listener.thy ===== *)
theory Listener
  imports Dyner_Api "HOL-Library.Product_Lexorder"
begin

text \<open>
  The listener of the agent and its registration with Dyner (\<open>shellagent/lan_rpc.go\<close>, the operations of
  \<open>shellagent/registration.go\<close>, \<open>SaveConfig\<close> and \<open>restartLAN\<close>): the state an operation works on is the
  configuration in memory, the one on disk, the account token, the requests sent to Dyner and whether the
  listener runs. Opening the listener, the network interfaces and faults of the disk are parameters.
\<close>

record listener_env =
  le_service :: dyner_service
  le_key_hash :: "string \<Rightarrow> string"
  le_save_fault :: "config \<Rightarrow> string option"
  le_hash :: "string + any" \<comment> \<open>the hash of the listener's certificate\<close>
  le_interfaces :: "string list" \<comment> \<open>the IPv4 addresses of the interfaces that are up\<close>
  le_url :: string
  le_name :: string
  le_capabilities :: "string list"
  le_start :: "config \<Rightarrow> string option"
  le_address :: string

record listener_state =
  ls_Config :: config
  ls_Saved :: "config option"
  ls_Token :: string
  ls_Sent :: "dyner_request list"
  ls_Running :: bool

subsection \<open>Addresses\<close>

definition hostFromAddress :: "string \<Rightarrow> string" where
  "hostFromAddress address = (case split_host_port address of None \<Rightarrow> address | Some (host, _) \<Rightarrow> host)"

definition ipv4_text :: "nat list \<Rightarrow> string" where
  "ipv4_text q = (case map (fmt_uint 10) q of [] \<Rightarrow> [] | d # ds \<Rightarrow> d @ concat (map (\<lambda>x. CHR ''.'' # x) ds))"

definition preferredLanHost :: "string \<Rightarrow> string" where
  "preferredLanHost dynerBase =
     (case url_parse (trim_space dynerBase) of
        None \<Rightarrow> []
      | Some parsed \<Rightarrow>
          (case Option.bind (parse_ip (url_hostname parsed)) to4 of None \<Rightarrow> [] | Some q \<Rightarrow> ipv4_text q))"

definition lanHostRank :: "string \<Rightarrow> string \<Rightarrow> nat" where
  "lanHostRank host preferred =
     (case parse_ip host of
        None \<Rightarrow> 100
      | Some ip \<Rightarrow>
          if ip_is_loopback ip \<or> ip_is_link_local ip then 100
          else if preferred \<noteq> [] \<and> host = preferred then 0
          else (case to4 ip of
                  None \<Rightarrow> 90
                | Some v4 \<Rightarrow>
                    if v4 ! 0 = 100 \<and> v4 ! 1 \<ge> 64 \<and> v4 ! 1 \<le> 127 then 70
                    else if ip_is_private ip then
                      (if v4 ! 0 = 192 \<and> v4 ! 1 = 168 then 10 else if v4 ! 0 = 10 then 20 else 30)
                    else 50))"

definition sortLanHosts :: "string list \<Rightarrow> string \<Rightarrow> string list" where
  "sortLanHosts hosts preferred =
     sort_key (\<lambda>host. (lanHostRank host preferred, host)) (dedup_keep id (\<lambda>h. h = []) [] hosts)"

definition RemotePath :: string where
  "RemotePath = ''/dynapp-remote''"

definition DefaultAddress :: string where
  "DefaultAddress = ''127.0.0.1:9011''"

definition endpoint_at :: "string \<Rightarrow> int \<Rightarrow> string" where
  "endpoint_at host port = ''https://'' @ join_host_port host (fmt_uint 10 (nat port)) @ RemotePath"

definition lanEndpoints :: "string list \<Rightarrow> string \<Rightarrow> int \<Rightarrow> string \<Rightarrow> string list" where
  "lanEndpoints interfaces address port dynerBase =
     (let host = hostFromAddress address;
          hosts = (if host = ''0.0.0.0'' \<or> host = ''::'' \<or> host = [] then interfaces else [host])
      in map (\<lambda>candidate. endpoint_at candidate port) (sortLanHosts hosts (preferredLanHost dynerBase)))"

definition ListenerEndpoint :: "string list \<Rightarrow> config \<Rightarrow> string" where
  "ListenerEndpoint interfaces c =
     (let port = portFromAddress (cf_LANAddress c);
          endpoints = (if cf_ListenerMode c = ''lan'' then lanEndpoints interfaces (cf_LANAddress c) port (cf_DynerBaseURL c) else [])
      in case endpoints of e # _ \<Rightarrow> e | [] \<Rightarrow> endpoint_at ''127.0.0.1'' port)"

subsection \<open>Saving\<close>

definition SaveConfig :: "listener_env \<Rightarrow> config \<Rightarrow> listener_state \<Rightarrow> listener_state \<times> string option" where
  "SaveConfig env c0 st =
     (let c = c0\<lparr>cf_SchemaVersion := ConfigSchemaVersion\<rparr>
      in case validate_config (le_key_hash env) c of
           Inl e \<Rightarrow> (st, Some e)
         | Inr _ \<Rightarrow>
             (case le_save_fault env c of
                Some e \<Rightarrow> (st, Some e)
              | None \<Rightarrow> (st\<lparr>ls_Saved := Some c\<rparr>, None)))"

definition set_config :: "(config \<Rightarrow> config) \<Rightarrow> listener_state \<Rightarrow> listener_state" where
  "set_config f st = st\<lparr>ls_Config := f (ls_Config st)\<rparr>"

definition save_changed :: "listener_env \<Rightarrow> (config \<Rightarrow> config) \<Rightarrow> listener_state \<Rightarrow> listener_state \<times> string option" where
  "save_changed env f st = (let st1 = set_config f st in SaveConfig env (ls_Config st1) st1)"

definition clear_hosted :: "config \<Rightarrow> config" where
  "clear_hosted c = c\<lparr>cf_HostedEnvironmentID := [], cf_HostedDeviceCredential := [], cf_HostedName := []\<rparr>"

definition clear_device :: "config \<Rightarrow> config" where
  "clear_device c = c\<lparr>cf_EnvironmentID := [], cf_DeviceCredential := []\<rparr>"

subsection \<open>Registration\<close>

definition listed :: "string list \<Rightarrow> any" where
  "listed xs = ArrV (map StrV xs)"

text \<open>\<open>MergeRemoteEnvironment\<close> into the given environment, then what follows.\<close>

definition merge_then ::
  "listener_env \<Rightarrow> config \<Rightarrow> bool \<Rightarrow> string \<Rightarrow> string \<Rightarrow> (listener_state \<Rightarrow> listener_state \<times> string option) \<Rightarrow>
   listener_state \<Rightarrow> listener_state \<times> string option" where
  "merge_then env c wanted target source continue st =
     (if wanted \<and> source \<noteq> [] \<and> source \<noteq> target
      then (case MergeRemoteEnvironment (le_service env) (cf_DynerBaseURL c) (ls_Token st) target source (ls_Sent st) of
              (sent, Some e) \<Rightarrow> (st\<lparr>ls_Sent := sent\<rparr>, Some e)
            | (sent, None) \<Rightarrow> continue (st\<lparr>ls_Sent := sent\<rparr>))
      else continue st)"

definition register_listener :: "listener_env \<Rightarrow> config \<Rightarrow> string \<Rightarrow> obj \<Rightarrow> listener_state \<Rightarrow> listener_state \<times> string option" where
  "register_listener env c name body st =
     (case RegisterRemoteEnvironment (le_service env) (cf_DynerBaseURL c) (ls_Token st) body (ls_Sent st) of
        (sent, Inl e) \<Rightarrow> (st\<lparr>ls_Sent := sent\<rparr>, Some e)
      | (sent, Inr created) \<Rightarrow>
          (let r = rr_Environment created;
               st1 = set_config (\<lambda>k. k\<lparr>cf_EnvironmentID := re_ID r, cf_DeviceCredential := rr_DeviceCredential created,
                                       cf_ListenerName := if re_Name r = [] then name else re_Name r\<rparr>) (st\<lparr>ls_Sent := sent\<rparr>)
           in case SaveConfig env (ls_Config st1) st1 of
                (st2, Some e) \<Rightarrow> (st2, Some e)
              | (st2, None) \<Rightarrow>
                  merge_then env c (cf_RelayEnabled c) (re_ID r) (cf_HostedEnvironmentID (ls_Config st1)) (save_changed env clear_hosted) st2))"

text \<open>What a listener tells Dyner of itself.\<close>

definition listener_body :: "listener_env \<Rightarrow> config \<Rightarrow> string \<Rightarrow> any \<Rightarrow> obj" where
  "listener_body env c name hash =
     (let endpoint = ListenerEndpoint (le_interfaces env) c;
          relay = (if cf_RelayEnabled c then [(''relay'', ObjV [(''provider'', StrV ''cloudflare''), (''shellEnabled'', BoolV True)])] else []);
          transport = [(''kind'', StrV ''lan''), (''endpoint'', StrV endpoint), (''serverCertificateHashes'', ArrV [hash])] @ relay
      in [(''name'', StrV name), (''endpoint'', StrV endpoint), (''transport'', ObjV transport),
          (''serverCertificateHashes'', ArrV [hash]), (''capabilities'', listed (le_capabilities env))])"

text \<open>The record the agent has; one that Dyner no longer knows is replaced.\<close>

definition update_listener :: "listener_env \<Rightarrow> config \<Rightarrow> string \<Rightarrow> obj \<Rightarrow> listener_state \<Rightarrow> listener_state \<times> string option" where
  "update_listener env c name body st =
     (case UpdateRemoteEnvironment (le_service env) (cf_DynerBaseURL c) (ls_Token st) (cf_EnvironmentID c) body (ls_Sent st) of
        (sent, None) \<Rightarrow>
          (if cf_RelayEnabled c \<and> cf_HostedEnvironmentID c \<noteq> [] \<and> cf_HostedEnvironmentID c \<noteq> cf_EnvironmentID c
           then merge_then env c True (cf_EnvironmentID c) (cf_HostedEnvironmentID c) (save_changed env clear_hosted) (st\<lparr>ls_Sent := sent\<rparr>)
           else (st\<lparr>ls_Sent := sent\<rparr>, None))
      | (sent, Some (UpdateFailed e)) \<Rightarrow> (st\<lparr>ls_Sent := sent\<rparr>, Some e)
      | (sent, Some EnvironmentNotFound) \<Rightarrow> register_listener env c name body (set_config clear_device (st\<lparr>ls_Sent := sent\<rparr>)))"

definition ensureListenerRegistration :: "listener_env \<Rightarrow> listener_state \<Rightarrow> listener_state \<times> string option" where
  "ensureListenerRegistration env st =
     (let c = ls_Config st in
      if cf_ListenerMode c = ''off'' \<or> ls_Token st = [] \<or> cf_DynerBaseURL c = [] then (st, None)
      else (case le_hash env of
              Inl e \<Rightarrow> (st, Some e)
            | Inr hash \<Rightarrow>
                (let name = (if cf_ListenerName c = [] then le_name env else cf_ListenerName c);
                     register = (if cf_EnvironmentID c \<noteq> [] \<and> cf_DeviceCredential c \<noteq> [] then update_listener else register_listener)
                 in register env c name (listener_body env c name hash) st)))"

definition hosted_name :: "listener_env \<Rightarrow> config \<Rightarrow> string \<Rightarrow> string" where
  "hosted_name env c name =
     (if trim_space name \<noteq> [] then name
      else if cf_ListenerName c \<noteq> [] then cf_ListenerName c
      else if cf_HostedName c \<noteq> [] then cf_HostedName c else le_name env)"

text \<open>The record the relay is to use: the listener's, else the one of the relay before, else a new one.\<close>

definition hosted_target :: "listener_env \<Rightarrow> config \<Rightarrow> bool \<Rightarrow> string \<Rightarrow> listener_state \<Rightarrow>
    dyner_request list \<times> (string + string \<times> string)" where
  "hosted_target env c enabled name st =
     (let own = cf_EnvironmentID c \<noteq> [] \<and> cf_DeviceCredential c \<noteq> [];
          targetID = (if own then cf_EnvironmentID c else cf_HostedEnvironmentID c);
          credential = (if own then cf_DeviceCredential c else cf_HostedDeviceCredential c);
          caps = listed (le_capabilities env)
      in if targetID = [] \<or> credential = []
         then (case RegisterRemoteEnvironment (le_service env) (cf_DynerBaseURL c) (ls_Token st)
                      [(''name'', StrV name),
                       (''transport'', ObjV [(''kind'', StrV ''relay''), (''provider'', StrV ''cloudflare''), (''shellEnabled'', BoolV enabled)]),
                       (''capabilities'', caps)] (ls_Sent st) of
                 (sent, Inl e) \<Rightarrow> (sent, Inl e)
               | (sent, Inr created) \<Rightarrow> (sent, Inr (re_ID (rr_Environment created), rr_DeviceCredential created)))
         else (case UpdateRemoteEnvironment (le_service env) (cf_DynerBaseURL c) (ls_Token st) targetID
                      [(''name'', StrV name), (''capabilities'', caps), (''relayShellEnabled'', BoolV enabled)] (ls_Sent st) of
                 (sent, None) \<Rightarrow> (sent, Inr (targetID, credential))
               | (sent, Some EnvironmentNotFound) \<Rightarrow> (sent, Inl ''Dyner environment update failed: HTTP 404 (environment no longer exists)'')
               | (sent, Some (UpdateFailed e)) \<Rightarrow> (sent, Inl e)))"

definition ensureHostedRegistration :: "listener_env \<Rightarrow> bool \<Rightarrow> string \<Rightarrow> listener_state \<Rightarrow> listener_state \<times> string option" where
  "ensureHostedRegistration env enabled name0 st =
     (let c = ls_Config st in
      if ls_Token st = [] \<or> cf_DynerBaseURL c = [] then (st, Some ''sign in to Dyner first'')
      else
        (let name = hosted_name env c name0
         in case hosted_target env c enabled name st of
              (sent, Inl e) \<Rightarrow> (st\<lparr>ls_Sent := sent\<rparr>, Some e)
            | (sent, Inr (targetID, credential)) \<Rightarrow>
                merge_then env c True targetID (cf_HostedEnvironmentID c)
                  (save_changed env (\<lambda>k. clear_hosted (k\<lparr>cf_RelayEnabled := enabled, cf_EnvironmentID := targetID,
                                                         cf_DeviceCredential := credential, cf_ListenerName := name\<rparr>)))
                  (st\<lparr>ls_Sent := sent\<rparr>)))"


subsection \<open>The listener\<close>

definition restartLAN :: "listener_env \<Rightarrow> listener_state \<Rightarrow> listener_state \<times> string option" where
  "restartLAN env st =
     (let c = ls_Config st; st1 = st\<lparr>ls_Running := False\<rparr>
      in if \<not> cf_LANEnabled c \<or> cf_ListenerMode c = ''off'' then (st1, None)
         else (case le_start env c of Some e \<Rightarrow> (st1, Some e) | None \<Rightarrow> (st1\<lparr>ls_Running := True\<rparr>, None)))"

record lan_status =
  lst_enabled :: bool
  lst_running :: bool
  lst_mode :: string
  lst_host :: string
  lst_port :: int
  lst_direct :: string
  lst_endpoints :: "string list"
  lst_hash :: any

definition lanStatus :: "listener_env \<Rightarrow> listener_state \<Rightarrow> string + lan_status" where
  "lanStatus env st =
     (case le_hash env of
        Inl e \<Rightarrow> Inl e
      | Inr hash \<Rightarrow>
          (let c = ls_Config st; mode = resolvedListenerMode c;
               address = (if cf_LANAddress c \<noteq> [] then cf_LANAddress c else if mode = ''lan'' then ''0.0.0.0:9011'' else DefaultAddress);
               port = portFromAddress address
           in Inr \<lparr>lst_enabled = (mode \<noteq> ''off''), lst_running = ls_Running st, lst_mode = mode, lst_host = hostFromAddress address,
                   lst_port = port, lst_direct = endpoint_at ''127.0.0.1'' port,
                   lst_endpoints = (if mode = ''lan'' then lanEndpoints (le_interfaces env) address port (cf_DynerBaseURL c) else []),
                   lst_hash = hash\<rparr>))"

text \<open>The configuration \<open>setListener\<close> asks for, and what it does once the listener is off.\<close>

definition listener_config :: "listener_env \<Rightarrow> string \<Rightarrow> string \<Rightarrow> config \<Rightarrow> config" where
  "listener_config env mode name c =
     (let c1 = (if trim_space name \<noteq> [] then c\<lparr>cf_ListenerName := trim_space name\<rparr> else c)
      in ApplyListenerDefaults (le_url env) (le_name env) (if le_address env = [] then DefaultAddress else le_address env)
           (mode = ''lan'') (c1\<lparr>cf_ListenerMode := mode\<rparr>))"

definition listener_off :: "listener_env \<Rightarrow> listener_state \<Rightarrow> listener_state \<times> string option" where
  "listener_off env st =
     (let c = ls_Config st; token = ls_Token st in
      if cf_RelayEnabled c \<and> cf_EnvironmentID c \<noteq> []
      then (if token = [] then (st, None)
            else (case UpdateRemoteEnvironment (le_service env) (cf_DynerBaseURL c) token (cf_EnvironmentID c)
                         [(''name'', StrV (cf_ListenerName c)),
                          (''transport'', ObjV [(''kind'', StrV ''relay''), (''provider'', StrV ''cloudflare''), (''shellEnabled'', BoolV True)]),
                          (''capabilities'', listed (le_capabilities env))] (ls_Sent st) of
                    (sent, None) \<Rightarrow> (st\<lparr>ls_Sent := sent\<rparr>, None)
                  | (sent, Some EnvironmentNotFound) \<Rightarrow>
                      (st\<lparr>ls_Sent := sent\<rparr>, Some ''Dyner environment update failed: HTTP 404 (environment no longer exists)'')
                  | (sent, Some (UpdateFailed e)) \<Rightarrow> (st\<lparr>ls_Sent := sent\<rparr>, Some e)))
      else (let st1 = (if token \<noteq> [] \<and> cf_EnvironmentID c \<noteq> []
                       then st\<lparr>ls_Sent := fst (RevokeRemoteEnvironment (le_service env) (cf_DynerBaseURL c) token (cf_EnvironmentID c) (ls_Sent st))\<rparr>
                       else st)
            in (fst (save_changed env clear_device st1), None)))"

definition setListener :: "listener_env \<Rightarrow> string \<Rightarrow> string \<Rightarrow> listener_state \<Rightarrow> listener_state \<times> (string + lan_status)" where
  "setListener env mode0 name st =
     (let mode = (if trim_space mode0 = [] then ''local'' else trim_space mode0)
      in case save_changed env (listener_config env mode name) st of
           (st1, Some e) \<Rightarrow> (st1, Inl e)
         | (st1, None) \<Rightarrow>
             (case restartLAN env st1 of
                (st2, Some e) \<Rightarrow> (st2, Inl e)
              | (st2, None) \<Rightarrow>
                  (case (if mode = ''off'' then listener_off env st2 else ensureListenerRegistration env st2) of
                     (st3, Some e) \<Rightarrow> (st3, Inl e)
                   | (st3, None) \<Rightarrow> (st3, lanStatus env st3))))"

definition setLANEnabled :: "listener_env \<Rightarrow> bool \<Rightarrow> listener_state \<Rightarrow> listener_state \<times> (string + lan_status)" where
  "setLANEnabled env enabled st =
     setListener env (if \<not> enabled then ''off'' else if cf_ListenerMode (ls_Config st) = ''lan'' then ''lan'' else ''local'')
       (cf_ListenerName (ls_Config st)) st"

definition handleLANRPC :: "listener_env \<Rightarrow> message \<Rightarrow> listener_state \<Rightarrow> listener_state \<times> (string + lan_status)" where
  "handleLANRPC env request st =
     (let args = m_Args request; verb = m_Method request in
      if verb = ''status'' then (st, lanStatus env st)
      else if verb = ''setEnabled'' then
        (let options = ObjectArg args 1;
             asked = (case as_str (obj_get options ''listenerMode'') of Some v \<Rightarrow> v | None \<Rightarrow> []);
             mode = (if asked \<noteq> [] then asked else ''local'');
             name = (case as_str (obj_get options ''name'') of Some v \<Rightarrow> v | None \<Rightarrow> [])
         in setListener env (if \<not> BoolArg args 0 then ''off'' else if mode = ''off'' then ''local'' else mode) name st)
      else if verb = ''createPairing'' \<or> verb = ''revokePairing'' then (st, Inl ''LAN browser trust is managed through Dyner pairing'')
      else (st, Inl ''unsupported LAN method''))"

end
