(* ===== verification/Listener_Properties.thy ===== *)
theory Listener_Properties
  imports Listener
begin

text \<open>
  The listener and its registration: whatever is asked of the agent, its configuration stays valid in memory and
  on disk; and a record at Dyner that the agent forgets has been merged into the one it keeps.
\<close>

subsection \<open>Hosts\<close>

lemma sortLanHosts_spec:
  "set (sortLanHosts hosts preferred) = set hosts - {[]} \<and> distinct (sortLanHosts hosts preferred)
   \<and> sorted (map (\<lambda>host. (lanHostRank host preferred, host)) (sortLanHosts hosts preferred))"
  by (auto simp: sortLanHosts_def set_dedup_keep distinct_dedup_keep)

subsection \<open>Valid configurations\<close>

definition valid_config :: "listener_env \<Rightarrow> config \<Rightarrow> bool" where
  "valid_config env c \<longleftrightarrow> validate_config (le_key_hash env) (c\<lparr>cf_SchemaVersion := ConfigSchemaVersion\<rparr>) = Inr ()"

text \<open>The base URL as \<open>ApplyListenerDefaults\<close> leaves it at the start of the agent.\<close>

definition settled_url :: "config \<Rightarrow> bool" where
  "settled_url c \<longleftrightarrow> trim_space (cf_DynerBaseURL c) \<noteq> [] \<and> trim_right_slash (trim_space (cf_DynerBaseURL c)) = cf_DynerBaseURL c"

definition listener_ok :: "listener_env \<Rightarrow> listener_state \<Rightarrow> bool" where
  "listener_ok env st \<longleftrightarrow> valid_config env (ls_Config st) \<and> settled_url (ls_Config st)
     \<and> (case ls_Saved st of None \<Rightarrow> True | Some c \<Rightarrow> validate_config (le_key_hash env) c = Inr ())"

text \<open>Dyner's device credentials are the environment's id, a dot and a secret.\<close>

definition issues_good_credentials :: "listener_env \<Rightarrow> bool" where
  "issues_good_credentials env \<longleftrightarrow>
     (\<forall>base bearer body sent sent' created. RegisterRemoteEnvironment (le_service env) base bearer body sent = (sent', Inr created)
        \<longrightarrow> validateDeviceCredential (re_ID (rr_Environment created)) (rr_DeviceCredential created) = Inr ())"

lemma valid_config_iff:
  "valid_config env c \<longleftrightarrow>
     cf_ListenerMode c \<in> {'''', ''off'', ''local'', ''lan''}
     \<and> (cf_LANEnabled c \<or> cf_ListenerMode c = ''local'' \<or> cf_ListenerMode c = ''lan'' \<longrightarrow> cf_LANAddress c \<noteq> [])
     \<and> (\<exists>u. validate_identities (le_key_hash env) (cf_BrowserIdentities c) = Inr u)
     \<and> (cf_DynerBaseURL c \<noteq> [] \<longrightarrow> AllowedDynerBaseURL (cf_DynerBaseURL c))
     \<and> validateDeviceCredential (cf_EnvironmentID c) (cf_DeviceCredential c) = Inr ()
     \<and> validateDeviceCredential (cf_HostedEnvironmentID c) (cf_HostedDeviceCredential c) = Inr ()
     \<and> (cf_DeviceCredential c \<noteq> [] \<or> cf_HostedDeviceCredential c \<noteq> [] \<longrightarrow> cf_DynerBaseURL c \<noteq> [])"
  unfolding valid_config_def validate_config_def
  by (auto split: sum.splits if_splits)

lemma no_credential [simp]: "validateDeviceCredential [] [] = Inr ()"
  by (simp add: validateDeviceCredential_def)

text \<open>Each part of an operation.\<close>

lemma listener_ok_sent [simp]:
  "listener_ok env (st\<lparr>ls_Sent := sent\<rparr>) = listener_ok env st"
  "listener_ok env (st\<lparr>ls_Running := running\<rparr>) = listener_ok env st"
  by (simp_all add: listener_ok_def)

lemma ok_set_config:
  "listener_ok env st \<Longrightarrow> valid_config env (f (ls_Config st)) \<Longrightarrow> settled_url (f (ls_Config st)) \<Longrightarrow> listener_ok env (set_config f st)"
  by (simp add: listener_ok_def set_config_def)

lemma ok_save: "listener_ok env st \<Longrightarrow> listener_ok env (fst (SaveConfig env c st))"
  by (auto simp: listener_ok_def SaveConfig_def Let_def split: sum.splits option.splits)

lemma save_config_config: "ls_Config (fst (SaveConfig env c st)) = ls_Config st"
  by (simp add: SaveConfig_def Let_def split: sum.split option.split)

lemma ok_save_changed:
  "listener_ok env st \<Longrightarrow> valid_config env (f (ls_Config st)) \<Longrightarrow> settled_url (f (ls_Config st)) \<Longrightarrow>
   listener_ok env (fst (save_changed env f st))"
  by (simp add: save_changed_def Let_def ok_save ok_set_config)

lemma ok_merge_then:
  assumes "listener_ok env st" "\<And>sent. listener_ok env (fst (continue (st\<lparr>ls_Sent := sent\<rparr>)))"
  shows "listener_ok env (fst (merge_then env c wanted target source continue st))"
proof -
  have "listener_ok env (fst (continue st))" using assms(2) [of "ls_Sent st"] by simp
  then show ?thesis using assms by (auto simp: merge_then_def split: prod.split option.split)
qed

lemmas config_parts = valid_config_iff settled_url_def clear_hosted_def clear_device_def

lemma ok_parts: "listener_ok env st \<Longrightarrow> valid_config env (ls_Config st) \<and> settled_url (ls_Config st)"
  by (simp add: listener_ok_def)

lemma settled_nonempty: "settled_url c \<Longrightarrow> cf_DynerBaseURL c \<noteq> []"
  by (auto simp: settled_url_def trim_right_slash_def trim_right_def)

lemma ok_register:
  assumes "issues_good_credentials env" "listener_ok env st"
  shows "listener_ok env (fst (register_listener env c name body st))"
proof (cases "RegisterRemoteEnvironment (le_service env) (cf_DynerBaseURL c) (ls_Token st) body (ls_Sent st)")
  case (Pair sent res)
  show ?thesis
  proof (cases res)
    case (Inr created)
    then have good: "validateDeviceCredential (re_ID (rr_Environment created)) (rr_DeviceCredential created) = Inr ()"
      using assms(1) Pair by (auto simp: issues_good_credentials_def)
    let ?f = "\<lambda>k. k\<lparr>cf_EnvironmentID := re_ID (rr_Environment created), cf_DeviceCredential := rr_DeviceCredential created,
        cf_ListenerName := if re_Name (rr_Environment created) = [] then name else re_Name (rr_Environment created)\<rparr>"
    let ?st1 = "set_config ?f (st\<lparr>ls_Sent := sent\<rparr>)"
    note parts = ok_parts [OF assms(2)] settled_nonempty
    have st1: "listener_ok env ?st1"
      by (rule ok_set_config) (use assms(2) good parts in \<open>auto simp: config_parts\<close>)
    have "listener_ok env (fst (merge_then env c w t src (save_changed env clear_hosted) (fst (SaveConfig env (ls_Config ?st1) ?st1))))" for w t src
      using st1 parts good
      by (intro ok_merge_then ok_save_changed) (auto simp: ok_save save_config_config set_config_def config_parts)
    then show ?thesis using Pair Inr st1 ok_save [OF st1, of "ls_Config ?st1"]
      by (auto simp: register_listener_def Let_def split: prod.split option.split)
  qed (use assms(2) Pair in \<open>simp add: register_listener_def\<close>)
qed

lemma ok_ensure_listener:
  assumes "issues_good_credentials env" "listener_ok env st"
  shows "listener_ok env (fst (ensureListenerRegistration env st))"
proof -
  note parts = ok_parts [OF assms(2)]
  have merged: "listener_ok env (fst (merge_then env c w t src (save_changed env clear_hosted) (st\<lparr>ls_Sent := sent\<rparr>)))" for c w t src sent
    by (intro ok_merge_then ok_save_changed) (use assms(2) parts in \<open>auto simp: config_parts\<close>)
  have cleared: "listener_ok env (set_config clear_device (st\<lparr>ls_Sent := sent\<rparr>))" for sent
    by (rule ok_set_config) (use assms(2) parts in \<open>auto simp: config_parts\<close>)
  have "listener_ok env (fst (update_listener env c name body st))" for c name body
    using assms(2) merged ok_register [OF assms(1) cleared]
    by (simp add: update_listener_def split: prod.split option.split update_error.split)
  then show ?thesis
    using assms(2) ok_register [OF assms] by (simp add: ensureListenerRegistration_def Let_def split: sum.split)
qed

lemma hosted_target_good:
  assumes "issues_good_credentials env" "listener_ok env st" "hosted_target env (ls_Config st) enabled name st = (sent, Inr (i, credential))"
  shows "validateDeviceCredential i credential = Inr ()"
proof -
  let ?c = "ls_Config st"
  let ?own = "cf_EnvironmentID ?c \<noteq> [] \<and> cf_DeviceCredential ?c \<noteq> []"
  have stored: "validateDeviceCredential (if ?own then cf_EnvironmentID ?c else cf_HostedEnvironmentID ?c)
      (if ?own then cf_DeviceCredential ?c else cf_HostedDeviceCredential ?c) = Inr ()"
    using ok_parts [OF assms(2)] by (simp add: valid_config_iff)
  consider created body where "RegisterRemoteEnvironment (le_service env) (cf_DynerBaseURL ?c) (ls_Token st) body (ls_Sent st) = (sent, Inr created)"
      "i = re_ID (rr_Environment created)" "credential = rr_DeviceCredential created"
    | "i = (if ?own then cf_EnvironmentID ?c else cf_HostedEnvironmentID ?c)"
      "credential = (if ?own then cf_DeviceCredential ?c else cf_HostedDeviceCredential ?c)"
    using assms(3) unfolding hosted_target_def Let_def
    by (simp only: split: if_split_asm prod.split_asm sum.split_asm option.split_asm update_error.split_asm)
      (simp_all only: prod.inject sum.inject sum.distinct simp_thms if_True if_False)
  then show ?thesis
  proof cases
    case 1
    then show ?thesis using assms(1) by (auto simp: issues_good_credentials_def)
  next
    case 2
    then show ?thesis using stored by simp
  qed
qed

lemma ok_ensure_hosted:
  assumes "issues_good_credentials env" "listener_ok env st"
  shows "listener_ok env (fst (ensureHostedRegistration env enabled name st))"
proof -
  note parts = ok_parts [OF assms(2)] settled_nonempty
  have kept: "listener_ok env (fst (merge_then env c True i src (save_changed env (\<lambda>k. clear_hosted (k\<lparr>cf_RelayEnabled := enabled,
      cf_EnvironmentID := i, cf_DeviceCredential := credential, cf_ListenerName := n\<rparr>))) (st\<lparr>ls_Sent := sent\<rparr>)))"
    if "validateDeviceCredential i credential = Inr ()" for c i src credential n sent
    by (intro ok_merge_then ok_save_changed) (use assms(2) parts that in \<open>auto simp: config_parts\<close>)
  show ?thesis unfolding ensureHostedRegistration_def Let_def
    using assms(2) kept hosted_target_good [OF assms] by (auto split: prod.split sum.split)
qed

lemma defaults_parts:
  assumes "settled_url c"
  shows "cf_DynerBaseURL (ApplyListenerDefaults url n address lan c) = cf_DynerBaseURL c"
    "cf_BrowserIdentities (ApplyListenerDefaults url n address lan c) = cf_BrowserIdentities c"
    "cf_EnvironmentID (ApplyListenerDefaults url n address lan c) = cf_EnvironmentID c"
    "cf_DeviceCredential (ApplyListenerDefaults url n address lan c) = cf_DeviceCredential c"
    "cf_HostedEnvironmentID (ApplyListenerDefaults url n address lan c) = cf_HostedEnvironmentID c"
    "cf_HostedDeviceCredential (ApplyListenerDefaults url n address lan c) = cf_HostedDeviceCredential c"
  using assms by (simp_all add: settled_url_def ApplyListenerDefaults_def Let_def)

lemma defaults_listener:
  "cf_ListenerMode (ApplyListenerDefaults url n address lan c) \<in> {''off'', ''local'', ''lan''}
   \<and> (cf_LANEnabled (ApplyListenerDefaults url n address lan c) \<or> cf_ListenerMode (ApplyListenerDefaults url n address lan c) = ''local''
        \<or> cf_ListenerMode (ApplyListenerDefaults url n address lan c) = ''lan'' \<longrightarrow> cf_LANAddress (ApplyListenerDefaults url n address lan c) \<noteq> [])"
proof -
  have addresses: "lanAddressForPort p \<noteq> []" "loopbackAddressForPort p \<noteq> []" for p
    by (simp_all add: lanAddressForPort_def loopbackAddressForPort_def)
  obtain c4 where "ApplyListenerDefaults url n address lan c =
     (let port = (if address \<noteq> [] then portFromAddress address else 9011)
      in if cf_ListenerMode c4 = ''lan'' then c4\<lparr>cf_LANEnabled := True, cf_LANAddress := lanAddressForPort port\<rparr>
         else if cf_ListenerMode c4 = ''off'' then c4\<lparr>cf_LANEnabled := False\<rparr>
         else c4\<lparr>cf_ListenerMode := ''local'', cf_LANEnabled := True, cf_LANAddress := loopbackAddressForPort port\<rparr>)"
    unfolding ApplyListenerDefaults_def Let_def by blast
  then show ?thesis using addresses by (simp add: Let_def)
qed

lemma valid_defaults:
  assumes "valid_config env c" "settled_url c"
  shows "valid_config env (ApplyListenerDefaults url n address lan (c\<lparr>cf_ListenerMode := mode\<rparr>))
    \<and> settled_url (ApplyListenerDefaults url n address lan (c\<lparr>cf_ListenerMode := mode\<rparr>))"
proof -
  have "settled_url (c\<lparr>cf_ListenerMode := mode\<rparr>)" using assms(2) by (simp add: settled_url_def)
  from defaults_parts [OF this, of url n address lan] show ?thesis
    using assms defaults_listener [of url n address lan "c\<lparr>cf_ListenerMode := mode\<rparr>"]
    unfolding valid_config_iff settled_url_def by auto
qed

lemma ok_listener_config:
  assumes "listener_ok env st"
  shows "listener_ok env (fst (save_changed env (listener_config env mode name) st))"
proof -
  let ?c = "if trim_space name \<noteq> [] then (ls_Config st)\<lparr>cf_ListenerName := trim_space name\<rparr> else ls_Config st"
  have "valid_config env ?c" "settled_url ?c" using ok_parts [OF assms] by (simp_all add: valid_config_iff settled_url_def)
  note valid_defaults [OF this]
  then show ?thesis unfolding listener_config_def Let_def by (intro ok_save_changed assms) blast+
qed

lemma ok_restart: "listener_ok env st \<Longrightarrow> listener_ok env (fst (restartLAN env st))"
  by (simp add: restartLAN_def Let_def split: option.split)

lemma ok_listener_off:
  assumes "listener_ok env st"
  shows "listener_ok env (fst (listener_off env st))"
proof -
  have "listener_ok env (fst (save_changed env clear_device (if b then st\<lparr>ls_Sent := sent\<rparr> else st)))" for b sent
    by (intro ok_save_changed) (use assms ok_parts [OF assms] settled_nonempty in \<open>auto simp: config_parts\<close>)
  then show ?thesis using assms
    by (simp add: listener_off_def Let_def split: prod.split option.split update_error.split)
qed

lemma ok_then:
  "listener_ok env (fst p) \<Longrightarrow> (\<And>s. listener_ok env s \<Longrightarrow> listener_ok env (fst (continue s))) \<Longrightarrow>
   listener_ok env (fst (case p of (s, Some e) \<Rightarrow> (s, Inl e) | (s, None) \<Rightarrow> continue s))"
  by (cases p) (auto split: option.split)

lemma ok_set_listener:
  assumes "issues_good_credentials env" "listener_ok env st"
  shows "listener_ok env (fst (setListener env mode name st))"
  unfolding setListener_def Let_def
  by (intro ok_then ok_listener_config assms) (simp_all add: ok_restart ok_listener_off ok_ensure_listener assms)

text \<open>What may be asked of the agent.\<close>

datatype listener_op =
    SetListener string string
  | SetLANEnabled bool
  | LanRequest message
  | EnsureListener
  | EnsureHosted bool string

definition listener_step :: "listener_env \<Rightarrow> listener_state \<Rightarrow> listener_op \<Rightarrow> listener_state" where
  "listener_step env st oper =
     (case oper of
        SetListener mode name \<Rightarrow> fst (setListener env mode name st)
      | SetLANEnabled enabled \<Rightarrow> fst (setLANEnabled env enabled st)
      | LanRequest request \<Rightarrow> fst (handleLANRPC env request st)
      | EnsureListener \<Rightarrow> fst (ensureListenerRegistration env st)
      | EnsureHosted enabled name \<Rightarrow> fst (ensureHostedRegistration env enabled name st))"

lemma ok_listener_step:
  assumes "issues_good_credentials env" "listener_ok env st"
  shows "listener_ok env (listener_step env st oper)"
proof (cases oper)
  case (LanRequest request)
  then show ?thesis using ok_set_listener [OF assms] assms(2) by (simp add: listener_step_def handleLANRPC_def Let_def)
qed (simp_all add: listener_step_def ok_set_listener setLANEnabled_def ok_ensure_listener ok_ensure_hosted assms)

interpretation listener: invariant_machine "\<lambda>(env, st) oper. (env, listener_step env st oper)" "\<lambda>_. True"
  "\<lambda>(env, st). issues_good_credentials env \<and> listener_ok env st"
  by unfold_locales (auto simp: ok_listener_step)

lemma listener_runs: "foldl (\<lambda>(env, st) oper. (env, listener_step env st oper)) (env, st) ops = (env, foldl (listener_step env) st ops)"
  by (induction ops arbitrary: st) simp_all

text \<open>The file is written through \<open>SaveConfig\<close> only, which refuses what is not valid, whatever is in memory.\<close>

definition saved_ok :: "listener_env \<Rightarrow> listener_state \<Rightarrow> bool" where
  "saved_ok env st \<longleftrightarrow> (case ls_Saved st of None \<Rightarrow> True | Some c \<Rightarrow> validate_config (le_key_hash env) c = Inr ())"

lemma saved_ok_fields [simp]:
  "saved_ok env (st\<lparr>ls_Sent := sent\<rparr>) = saved_ok env st"
  "saved_ok env (st\<lparr>ls_Running := running\<rparr>) = saved_ok env st"
  "saved_ok env (set_config f st) = saved_ok env st"
  by (simp_all add: saved_ok_def set_config_def)

lemma saved_save: "saved_ok env st \<Longrightarrow> saved_ok env (fst (SaveConfig env c st))"
  by (auto simp: saved_ok_def SaveConfig_def Let_def split: sum.splits option.splits)

lemma saved_save_changed: "saved_ok env st \<Longrightarrow> saved_ok env (fst (save_changed env f st))"
  by (simp add: save_changed_def Let_def saved_save)

lemma saved_merge_then:
  assumes "saved_ok env st" "\<And>s. saved_ok env s \<Longrightarrow> saved_ok env (fst (continue s))"
  shows "saved_ok env (fst (merge_then env c wanted target source continue st))"
  using assms by (auto simp: merge_then_def split: prod.split option.split)

lemma saved_merge_save: "saved_ok env st \<Longrightarrow> saved_ok env (fst (merge_then env c w t src (save_changed env f) st))"
  by (rule saved_merge_then) (simp_all add: saved_save_changed)

lemma saved_register: "saved_ok env st \<Longrightarrow> saved_ok env (fst (register_listener env c name body st))"
proof -
  assume ok: "saved_ok env st"
  have saved: "saved_ok env st2" if "SaveConfig env c' st1 = (st2, r)" "saved_ok env st1" for c' st1 st2 r
    using saved_save [OF that(2), of c'] that(1) by simp
  show ?thesis using ok
    by (auto simp: register_listener_def Let_def intro!: saved_merge_save split: prod.split sum.split option.split dest!: saved)
qed

lemma saved_ensure_listener: "saved_ok env st \<Longrightarrow> saved_ok env (fst (ensureListenerRegistration env st))"
  by (auto simp: ensureListenerRegistration_def Let_def update_listener_def
      intro!: saved_merge_save saved_register split: sum.split prod.split option.split update_error.split)

lemma saved_ensure_hosted: "saved_ok env st \<Longrightarrow> saved_ok env (fst (ensureHostedRegistration env enabled name st))"
  by (auto simp: ensureHostedRegistration_def Let_def intro!: saved_merge_save split: prod.split sum.split)

lemma saved_then:
  "saved_ok env (fst p) \<Longrightarrow> (\<And>s. saved_ok env s \<Longrightarrow> saved_ok env (fst (continue s))) \<Longrightarrow>
   saved_ok env (fst (case p of (s, Some e) \<Rightarrow> (s, Inl e) | (s, None) \<Rightarrow> continue s))"
  by (cases p) (auto split: option.split)

lemma saved_restart: "saved_ok env st \<Longrightarrow> saved_ok env (fst (restartLAN env st))"
  by (simp add: restartLAN_def Let_def split: option.split)

lemma saved_off: "saved_ok env st \<Longrightarrow> saved_ok env (fst (listener_off env st))"
  by (auto simp: listener_off_def Let_def intro!: saved_save_changed split: prod.split option.split update_error.split)

lemma saved_set_listener: "saved_ok env st \<Longrightarrow> saved_ok env (fst (setListener env mode name st))"
  unfolding setListener_def Let_def
  by (intro saved_then saved_save_changed) (simp_all add: saved_restart saved_off saved_ensure_listener)

lemma saved_step: "saved_ok env st \<Longrightarrow> saved_ok env (listener_step env st oper)"
  by (cases oper) (auto simp: listener_step_def saved_set_listener setLANEnabled_def handleLANRPC_def Let_def
      saved_ensure_listener saved_ensure_hosted)

lemma saved_steps: "saved_ok env st \<Longrightarrow> saved_ok env (foldl (listener_step env) st ops)"
  by (induction ops arbitrary: st) (simp_all add: saved_step)

text \<open>
  C33: The configuration stays well formed, whatever is asked of the listener and of its registrations, in any order, with
  names and modes that need not make sense. If the file holds a valid configuration, it does so afterwards, whatever
  is in memory and whatever Dyner answers. If the configuration in memory is valid too, its Dyner address is set and in
  the form \<open>ApplyListenerDefaults\<close> gives it, and the credentials Dyner issues have their documented form (each is the
  id of its environment, a dot and a secret), then the configuration in memory afterwards is valid, with such an
  address: it may be saved.
\<close>

theorem listener_operations_keep_the_configuration_valid:
  assumes "saved_ok env st"
  shows "saved_ok env (foldl (listener_step env) st ops)
    \<and> (valid_config env (ls_Config st) \<and> settled_url (ls_Config st) \<and> issues_good_credentials env \<longrightarrow>
         valid_config env (ls_Config (foldl (listener_step env) st ops)) \<and> settled_url (ls_Config (foldl (listener_step env) st ops)))"
proof -
  have "listener_ok env (foldl (listener_step env) st ops)" if "issues_good_credentials env" "listener_ok env st"
    using listener.run_good [of "(env, st)" ops] that unfolding listener_runs by (simp add: list_all_iff)
  then show ?thesis using assms saved_steps [OF assms] by (simp add: listener_ok_def saved_ok_def)
qed

text \<open>Both conditions on the memory are needed: without an address of its own the configuration takes the default one,
  which \<open>ApplyListenerDefaults\<close> does not look at.\<close>

lemma unset_address_takes_any_default:
  assumes "cf_DynerBaseURL c = []"
  shows "cf_DynerBaseURL (ApplyListenerDefaults ''ftp://x'' n address lan c) = ''ftp://x''"
  using assms by (simp add: ApplyListenerDefaults_def Let_def)

definition sample_answer :: any where
  "sample_answer = ObjV [(''environment'', ObjV [(''id'', StrV ''e''), (''name'', StrV ''desk'')]),
     (''deviceCredential'', StrV (''e.'' @ replicate 40 (CHR ''x'')))]"

definition sample_listener_env :: listener_env where
  "sample_listener_env = \<lparr>le_service = (\<lambda>_ _. Inr (200, Some sample_answer)), le_key_hash = id, le_save_fault = (\<lambda>_. None),
     le_hash = Inr (StrV ''hash''), le_interfaces = [''192.168.1.5''], le_url = ''https://d'', le_name = ''host'',
     le_capabilities = [''fs.read''], le_start = (\<lambda>_. None), le_address = []\<rparr>"

definition listener_sample_config :: config where
  "listener_sample_config = \<lparr>cf_SchemaVersion = 1, cf_DynerBaseURL = ''https://d'', cf_EnvironmentID = [], cf_DeviceCredential = [],
     cf_ListenerName = ''desk'', cf_ListenerMode = ''local'', cf_RelayEnabled = False, cf_LANEnabled = True,
     cf_LANAddress = ''127.0.0.1:9011'', cf_HostedEnvironmentID = ''h'', cf_HostedDeviceCredential = ''h.'' @ replicate 40 (CHR ''x''),
     cf_HostedName = [], cf_BrowserIdentities = [], cf_AppDomain = [], cf_AuthorityOrigins = [], cf_CatalogAppID = [],
     cf_NativeApps = [], cf_NativeAppsEnabled = False\<rparr>"

definition sample_listener :: listener_state where
  "sample_listener = \<lparr>ls_Config = listener_sample_config, ls_Saved = None, ls_Token = ''t'', ls_Sent = [], ls_Running = True\<rparr>"

lemma sample_created:
  "decode_struct register_field sample_answer \<lparr>rr_Environment = no_environment, rr_DeviceCredential = []\<rparr> =
   Inr \<lparr>rr_Environment = no_environment\<lparr>re_ID := ''e'', re_Name := ''desk''\<rparr>, rr_DeviceCredential = ''e.'' @ replicate 40 (CHR ''x'')\<rparr>"
  by code_simp

lemma sample_issues: "issues_good_credentials sample_listener_env"
proof -
  have "validateDeviceCredential ''e'' (''e.'' @ replicate 40 (CHR ''x'')) = Inr ()" by code_simp
  then show ?thesis
    by (auto simp: issues_good_credentials_def RegisterRemoteEnvironment_def sample_listener_env_def dynerJSON_def ok_status_def sample_created
        split: sum.splits option.splits prod.splits if_splits)
qed

lemma sample_listener_ok: "listener_ok sample_listener_env sample_listener"
proof -
  have "valid_config sample_listener_env listener_sample_config" "settled_url listener_sample_config" by code_simp+
  then show ?thesis by (simp add: listener_ok_def sample_listener_def)
qed

lemma listener_operations_keep_the_configuration_valid_witness:
  "valid_config sample_listener_env (ls_Config (foldl (listener_step sample_listener_env) sample_listener
     [SetListener ''lan'' ''desk'', EnsureHosted True ''x'', SetListener ''bogus'' [], SetLANEnabled False]))"
proof -
  have "saved_ok sample_listener_env sample_listener" by (simp add: saved_ok_def sample_listener_def)
  from listener_operations_keep_the_configuration_valid [OF this] sample_listener_ok sample_issues show ?thesis
    unfolding listener_ok_def by blast
qed

text \<open>A credential of another form makes the configuration one that can no longer be saved.\<close>

lemma bad_credentials_block_saving:
  assumes "RegisterRemoteEnvironment (le_service env) (cf_DynerBaseURL c) (ls_Token st) body (ls_Sent st) = (sent, Inr created)"
    and "validateDeviceCredential (re_ID (rr_Environment created)) (rr_DeviceCredential created) \<noteq> Inr ()"
  shows "ls_Saved (fst (register_listener env c name body st)) = ls_Saved st
    \<and> \<not> valid_config env (ls_Config (fst (register_listener env c name body st)))"
proof -
  let ?st1 = "set_config (\<lambda>k. k\<lparr>cf_EnvironmentID := re_ID (rr_Environment created), cf_DeviceCredential := rr_DeviceCredential created,
      cf_ListenerName := if re_Name (rr_Environment created) = [] then name else re_Name (rr_Environment created)\<rparr>) (st\<lparr>ls_Sent := sent\<rparr>)"
  have bad: "\<not> valid_config env (ls_Config ?st1)" using assms(2) by (simp add: valid_config_iff set_config_def)
  then obtain e where "SaveConfig env (ls_Config ?st1) ?st1 = (?st1, Some e)"
    by (cases "validate_config (le_key_hash env) ((ls_Config ?st1)\<lparr>cf_SchemaVersion := ConfigSchemaVersion\<rparr>)")
      (simp_all add: SaveConfig_def Let_def valid_config_def)
  then have "register_listener env c name body st = (?st1, Some e)"
    using assms(1) by (simp add: register_listener_def Let_def)
  then show ?thesis using bad by (simp add: set_config_def)
qed

subsection \<open>Forgotten records\<close>

text \<open>A request in a stretch of the record that merged another environment and was answered well.\<close>

definition merged_in :: "listener_env \<Rightarrow> dyner_request list \<Rightarrow> dyner_request list \<Rightarrow> string \<Rightarrow> bool" where
  "merged_in env sent sent' h \<longleftrightarrow>
     (\<exists>i < length sent'. length sent \<le> i \<and> dr_Method (sent' ! i) = ''POST''
        \<and> dr_Body (sent' ! i) = Some (ObjV [(''sourceEnvironmentId'', StrV h)])
        \<and> (\<exists>status data. le_service env (take i sent') (sent' ! i) = Inr (status, data) \<and> ok_status status))"

lemma register_sent: "RegisterRemoteEnvironment service base token body sent = (sent', r) \<Longrightarrow> prefix sent sent'"
  by (auto simp: RegisterRemoteEnvironment_def split: sum.splits prod.splits dest: dynerJSON_sent)

lemma update_sent: "UpdateRemoteEnvironment service base token i body sent = (sent', r) \<Longrightarrow> prefix sent sent'"
  by (auto simp: UpdateRemoteEnvironment_def split: sum.splits prod.splits dest: dynerJSON_sent)

lemma merge_merges:
  assumes "MergeRemoteEnvironment (le_service env) base token target h sent1 = (sent2, None)" "prefix sent sent1"
  shows "merged_in env sent sent2 h"
proof -
  obtain url status data where "dynerJSON (le_service env) ''POST'' url token (Some (ObjV [(''sourceEnvironmentId'', StrV h)])) sent1 = (sent2, Inr (status, data))"
      and ok: "ok_status status"
    using assms(1) by (auto simp: MergeRemoteEnvironment_def split: sum.splits prod.splits if_splits)
  then have sent2: "sent2 = sent1 @ [\<lparr>dr_Method = ''POST'', dr_URL = url, dr_Bearer = token, dr_Body = Some (ObjV [(''sourceEnvironmentId'', StrV h)])\<rparr>]"
      and "le_service env sent1 (last sent2) = Inr (status, data)"
    by (auto simp: dynerJSON_def Let_def split: option.splits)
  then show ?thesis unfolding merged_in_def
    by (intro exI [of _ "length sent1"]) (use ok prefix_length_le [OF assms(2)] in auto)
qed

text \<open>The record is still there, was merged, or is the one the agent keeps.\<close>

definition accounted :: "listener_env \<Rightarrow> dyner_request list \<Rightarrow> string \<Rightarrow> listener_state \<Rightarrow> bool" where
  "accounted env sent h st' \<longleftrightarrow>
     cf_HostedEnvironmentID (ls_Config st') = h \<or> merged_in env sent (ls_Sent st') h \<or> cf_EnvironmentID (ls_Config st') = h"

lemma save_changed_parts [simp]:
  "ls_Config (fst (save_changed env f st)) = f (ls_Config st)" "ls_Sent (fst (save_changed env f st)) = ls_Sent st"
  by (simp_all add: save_changed_def SaveConfig_def set_config_def Let_def split: sum.split option.split)

lemma accounted_merge:
  assumes "cf_HostedEnvironmentID (ls_Config st) = h" "h \<noteq> []" "cf_EnvironmentID (f (ls_Config st)) = target"
    and "prefix sent (ls_Sent st)"
  shows "accounted env sent h (fst (merge_then env c True target h (save_changed env f) st))"
proof (cases "h = target")
  case True
  then show ?thesis using assms(3) by (simp add: merge_then_def accounted_def)
next
  case False
  obtain sent2 r where m: "MergeRemoteEnvironment (le_service env) (cf_DynerBaseURL c) (ls_Token st) target h (ls_Sent st) = (sent2, r)"
    by (cases "MergeRemoteEnvironment (le_service env) (cf_DynerBaseURL c) (ls_Token st) target h (ls_Sent st)")
  then show ?thesis using False assms(1,2) merge_merges [OF _ assms(4)]
    by (cases r) (auto simp: merge_then_def accounted_def)
qed

lemma accounted_register:
  assumes "cf_RelayEnabled c" "cf_HostedEnvironmentID (ls_Config st) = h" "h \<noteq> []" "prefix sent (ls_Sent st)"
  shows "accounted env sent h (fst (register_listener env c name body st))"
proof -
  obtain sent2 r where reg: "RegisterRemoteEnvironment (le_service env) (cf_DynerBaseURL c) (ls_Token st) body (ls_Sent st) = (sent2, r)"
    by (cases "RegisterRemoteEnvironment (le_service env) (cf_DynerBaseURL c) (ls_Token st) body (ls_Sent st)")
  show ?thesis
  proof (cases r)
    case (Inr created)
    let ?st1 = "set_config (\<lambda>k. k\<lparr>cf_EnvironmentID := re_ID (rr_Environment created), cf_DeviceCredential := rr_DeviceCredential created,
        cf_ListenerName := if re_Name (rr_Environment created) = [] then name else re_Name (rr_Environment created)\<rparr>) (st\<lparr>ls_Sent := sent2\<rparr>)"
    obtain st2 e where save: "SaveConfig env (ls_Config ?st1) ?st1 = (st2, e)" by (cases "SaveConfig env (ls_Config ?st1) ?st1")
    have st2: "ls_Config st2 = ls_Config ?st1" "ls_Sent st2 = sent2"
      using save by (auto simp: SaveConfig_def set_config_def Let_def split: sum.splits option.splits)
    have "prefix sent sent2" using assms(4) register_sent [OF reg] by simp
    then have "accounted env sent h (fst (merge_then env c True (re_ID (rr_Environment created)) h (save_changed env clear_hosted) st2))"
      using assms(2,3) st2 by (intro accounted_merge) (simp_all add: set_config_def clear_hosted_def)
    then show ?thesis using reg Inr save assms(1,2) st2
      by (cases e) (simp_all add: register_listener_def Let_def set_config_def accounted_def)
  qed (use reg assms(2) in \<open>simp add: register_listener_def accounted_def\<close>)
qed

lemma accounted_ensure_listener:
  assumes "cf_RelayEnabled (ls_Config st)" "cf_HostedEnvironmentID (ls_Config st) = h" "h \<noteq> []" "prefix sent (ls_Sent st)"
  shows "accounted env sent h (fst (ensureListenerRegistration env st))"
proof -
  have idle: "accounted env sent h (st\<lparr>ls_Sent := s\<rparr>)" for s using assms(2) by (simp add: accounted_def)
  have "accounted env sent h (fst (update_listener env (ls_Config st) name body st))" for name body
  proof -
    obtain sent2 r where up: "UpdateRemoteEnvironment (le_service env) (cf_DynerBaseURL (ls_Config st)) (ls_Token st)
        (cf_EnvironmentID (ls_Config st)) body (ls_Sent st) = (sent2, r)"
      by (cases "UpdateRemoteEnvironment (le_service env) (cf_DynerBaseURL (ls_Config st)) (ls_Token st)
        (cf_EnvironmentID (ls_Config st)) body (ls_Sent st)")
    have sent2: "prefix sent sent2" using assms(4) update_sent [OF up] by simp
    have "accounted env sent h (fst (merge_then env (ls_Config st) True (cf_EnvironmentID (ls_Config st)) h (save_changed env clear_hosted) (st\<lparr>ls_Sent := sent2\<rparr>)))"
      using assms(2,3) sent2 by (intro accounted_merge) (simp_all add: clear_hosted_def)
    moreover have "accounted env sent h (fst (register_listener env (ls_Config st) name body (set_config clear_device (st\<lparr>ls_Sent := sent2\<rparr>))))"
      using assms(1-3) sent2 by (intro accounted_register) (simp_all add: set_config_def clear_device_def)
    ultimately show ?thesis using up idle assms(2)
      by (auto simp: update_listener_def split: option.split update_error.split)
  qed
  then show ?thesis using accounted_register [OF assms(1-4)] idle [of "ls_Sent st"]
    by (simp add: ensureListenerRegistration_def Let_def split: sum.split)
qed


text \<open>The other operations leave the hosted record alone.\<close>

lemma accounted_hosted:
  assumes "cf_HostedEnvironmentID (ls_Config st) = h" "h \<noteq> []"
  shows "accounted env (ls_Sent st) h (fst (ensureHostedRegistration env enabled name st))"
proof -
  let ?c = "ls_Config st"
  have idle: "accounted env (ls_Sent st) h (st\<lparr>ls_Sent := s\<rparr>)" for s using assms(1) by (simp add: accounted_def)
  obtain sent2 r where target: "hosted_target env ?c enabled (hosted_name env ?c name) st = (sent2, r)"
    by (cases "hosted_target env ?c enabled (hosted_name env ?c name) st")
  have "prefix (ls_Sent st) sent2"
    using target unfolding hosted_target_def Let_def
    by (auto split: if_splits prod.splits sum.splits option.splits update_error.splits dest: register_sent update_sent)
  then have "accounted env (ls_Sent st) h (fst (merge_then env ?c True i h (save_changed env (\<lambda>k. clear_hosted (k\<lparr>cf_RelayEnabled := enabled,
      cf_EnvironmentID := i, cf_DeviceCredential := credential, cf_ListenerName := n\<rparr>))) (st\<lparr>ls_Sent := sent2\<rparr>)))" for i credential n
    using assms by (intro accounted_merge) (simp_all add: clear_hosted_def)
  then show ?thesis using target idle assms(1) idle [of "ls_Sent st"]
    by (cases r) (auto simp: ensureHostedRegistration_def Let_def split: prod.split)
qed

lemma defaults_hosted:
  "cf_HostedEnvironmentID (listener_config env mode name c) = cf_HostedEnvironmentID c"
  "cf_RelayEnabled (listener_config env mode name c) = cf_RelayEnabled c"
  by (simp_all add: listener_config_def ApplyListenerDefaults_def Let_def)

lemma restart_parts: "ls_Config (fst (restartLAN env st)) = ls_Config st" "ls_Sent (fst (restartLAN env st)) = ls_Sent st"
  by (simp_all add: restartLAN_def Let_def split: option.split)

lemma off_hosted: "cf_HostedEnvironmentID (ls_Config (fst (listener_off env st))) = cf_HostedEnvironmentID (ls_Config st)"
  by (simp add: listener_off_def clear_device_def Let_def split: prod.split option.split update_error.split)

lemma accounted_then:
  "accounted env sent h (fst p) \<Longrightarrow> (snd p = None \<Longrightarrow> accounted env sent h (fst (continue (fst p)))) \<Longrightarrow>
   accounted env sent h (fst (case p of (s, Some e) \<Rightarrow> (s, Inl e) | (s, None) \<Rightarrow> continue s))"
  by (cases p) (auto split: option.split)

lemma accounted_set_listener:
  assumes "cf_RelayEnabled (ls_Config st)" "cf_HostedEnvironmentID (ls_Config st) = h" "h \<noteq> []"
  shows "accounted env (ls_Sent st) h (fst (setListener env mode name st))"
proof -
  define m where "m = (if trim_space mode = [] then ''local'' else trim_space mode)"
  let ?st1 = "fst (save_changed env (listener_config env m name) st)"
  let ?st2 = "fst (restartLAN env ?st1)"
  have st2: "cf_RelayEnabled (ls_Config ?st2)" "cf_HostedEnvironmentID (ls_Config ?st2) = h" "ls_Sent ?st2 = ls_Sent st"
    using assms by (simp_all add: restart_parts defaults_hosted)
  have either: "accounted env s h (fst (if b then p else q))" if "accounted env s h (fst p)" "accounted env s h (fst q)"
    for s b and p q :: "listener_state \<times> string option"
    using that by simp
  have "accounted env (ls_Sent st) h (fst (ensureListenerRegistration env ?st2))"
    using accounted_ensure_listener [OF st2(1,2) assms(3), of "ls_Sent st" env] st2(3) by simp
  moreover have "accounted env (ls_Sent st) h (fst (listener_off env ?st2))" using st2(2) by (simp add: accounted_def off_hosted)
  ultimately have "accounted env (ls_Sent st) h (fst (if m = ''off'' then listener_off env ?st2 else ensureListenerRegistration env ?st2))"
    by (intro either)
  moreover have "accounted env (ls_Sent st) h ?st1" "accounted env (ls_Sent st) h ?st2"
    using assms(2) st2(2) by (simp_all add: accounted_def defaults_hosted)
  ultimately show ?thesis unfolding setListener_def Let_def m_def [symmetric]
    by (intro accounted_then) simp_all
qed

text \<open>
  C34: While the relay is enabled the agent forgets the record of the hosted environment only after Dyner
  has merged it into another one, or because it becomes the record of the agent itself: after any
  operation on the listener or its registration, successful or not, the record is still in the
  configuration, or a merge of it was sent and answered with success, or it is the agent's own.
\<close>

theorem forgotten_records_are_merged:
  assumes "cf_RelayEnabled (ls_Config st)" "cf_HostedEnvironmentID (ls_Config st) = h" "h \<noteq> []"
  shows "cf_HostedEnvironmentID (ls_Config (listener_step env st oper)) = h
    \<or> merged_in env (ls_Sent st) (ls_Sent (listener_step env st oper)) h
    \<or> cf_EnvironmentID (ls_Config (listener_step env st oper)) = h"
proof -
  have "accounted env (ls_Sent st) h (listener_step env st oper)"
  proof (cases oper)
    case (LanRequest request)
    then show ?thesis using accounted_set_listener [OF assms] assms(2)
      by (simp add: listener_step_def handleLANRPC_def Let_def) (simp add: accounted_def)
  qed (simp_all add: listener_step_def accounted_set_listener setLANEnabled_def accounted_ensure_listener accounted_hosted assms)
  then show ?thesis unfolding accounted_def .
qed

lemma forgotten_records_are_merged_witness:
  "let st = set_config (\<lambda>c. c\<lparr>cf_RelayEnabled := True\<rparr>) sample_listener; st' = listener_step sample_listener_env st EnsureListener
   in cf_HostedEnvironmentID (ls_Config st') = ''h'' \<or> merged_in sample_listener_env (ls_Sent st) (ls_Sent st') ''h''
      \<or> cf_EnvironmentID (ls_Config st') = ''h''"
  unfolding Let_def
  by (rule forgotten_records_are_merged) (simp_all add: set_config_def sample_listener_def listener_sample_config_def)

text \<open>With the relay off a new registration drops the hosted record without a merge.\<close>

lemma relay_off_forgets_the_hosted_record:
  assumes "RegisterRemoteEnvironment (le_service env) (cf_DynerBaseURL c) (ls_Token st) body (ls_Sent st) = (sent, Inr created)"
    and "\<not> cf_RelayEnabled c" "snd (register_listener env c name body st) = None"
  shows "cf_HostedEnvironmentID (ls_Config (fst (register_listener env c name body st))) = []
    \<and> ls_Sent (fst (register_listener env c name body st)) = sent"
proof -
  have sent: "ls_Sent (fst (SaveConfig env k s)) = ls_Sent s" for k s
    by (simp add: SaveConfig_def Let_def split: sum.split option.split)
  have "snd (case p of (s, Some e) \<Rightarrow> (s, Some e) | (s, None) \<Rightarrow> save_changed env clear_hosted s) = None \<Longrightarrow>
      fst (case p of (s, Some e) \<Rightarrow> (s, Some e) | (s, None) \<Rightarrow> save_changed env clear_hosted s) = fst (save_changed env clear_hosted (fst p))" for p
    by (cases p) (auto split: option.splits)
  then show ?thesis using assms
    by (simp add: register_listener_def merge_then_def Let_def sent set_config_def clear_hosted_def)
qed

end
