(* ===== verification/Settings.thy ===== *)
theory Settings
  imports Listener
begin

text \<open>
  The settings pages (\<open>shellagent/settings_http.go\<close>, \<open>settings_login.go\<close>, \<open>account.go\<close>): who may ask, the sign-in
  through Dyner, the handlers of \<open>registerSettingsHandlers\<close>, and the files of the page. A request is what
  \<open>net/http\<close> has decoded of it; the mux hands on clean paths. Random numbers, the clock, the account
  file's faults, the files of a checkout and the host of the page's files are parameters.
\<close>

datatype web_body = NoBody | BadBody string | JsonBody any

record web_request =
  wr_Method :: string
  wr_Path :: string
  wr_Host :: string
  wr_Remote :: string
  wr_Origin :: string
  wr_MediaType :: string \<comment> \<open>what \<open>mime.ParseMediaType\<close> makes of the Content-Type header\<close>
  wr_Csrf :: string
  wr_Query :: "(string, string) gomap" \<comment> \<open>the first value of each parameter\<close>
  wr_RawQuery :: string
  wr_Body :: web_body

record settings_env =
  sn_listener :: listener_env
  sn_now :: int \<comment> \<open>nanoseconds\<close>
  sn_random :: "string option" \<comment> \<open>random bytes in base64 for the token of the page, None when there are none\<close>
  sn_state :: "string option" \<comment> \<open>and for the state of a sign-in\<close>
  sn_account_fault :: "(string \<times> bool) option" \<comment> \<open>writing the account file fails; it may be torn then\<close>
  sn_content :: "string \<Rightarrow> string option" \<comment> \<open>\<open>loadDynerContentFile\<close>\<close>
  sn_fetch :: "string \<Rightarrow> string + string"
  sn_ui_origin :: string

text \<open>The account file: token and email.\<close>

datatype account_file = NoAccount | TornAccount string | Account string string

record settings_state =
  se_listener :: listener_state
  se_csrf :: string
  se_logins :: "(string, int) gomap"
  se_account :: account_file
  se_assets :: "(string, string \<times> string) gomap"
  se_origin :: string

subsection \<open>The account file\<close>

definition LoadDynerAccountToken :: "account_file \<Rightarrow> string + string" where
  "LoadDynerAccountToken account =
     (case account of
        NoAccount \<Rightarrow> Inr []
      | TornAccount e \<Rightarrow> Inl e
      | Account token email \<Rightarrow> Inr (if trim_space token = [] \<or> email = [] then [] else trim_space token))"

definition ResolveAccountToken :: "string \<Rightarrow> string \<Rightarrow> account_file \<Rightarrow> string + string" where
  "ResolveAccountToken explicit environment account =
     (if trim_space explicit \<noteq> [] then Inr (trim_space explicit)
      else if trim_space environment \<noteq> [] then Inr (trim_space environment)
      else LoadDynerAccountToken account)"

subsection \<open>Who may ask\<close>

definition settingsCSRFToken :: "settings_env \<Rightarrow> settings_state \<Rightarrow> settings_state" where
  "settingsCSRFToken env st =
     (if se_csrf st = [] then (case sn_random env of None \<Rightarrow> st | Some raw \<Rightarrow> st\<lparr>se_csrf := raw\<rparr>) else st)"

definition requestPort :: "string \<Rightarrow> string" where
  "requestPort host = (case split_host_port host of None \<Rightarrow> [] | Some (_, port) \<Rightarrow> port)"

definition ownOrigin :: "web_request \<Rightarrow> string \<Rightarrow> bool" where
  "ownOrigin r origin \<longleftrightarrow>
     (case parseOrigin origin of
        None \<Rightarrow> False
      | Some parsed \<Rightarrow>
          if u_Scheme parsed \<noteq> ''http'' \<or> \<not> loopbackHostname (url_hostname parsed) then False
          else equal_fold (u_Host parsed) (wr_Host r) \<or> url_port parsed = requestPort (wr_Host r))"

definition loopbackRequest :: "web_request \<Rightarrow> bool" where
  "loopbackRequest r \<longleftrightarrow>
     (let host = (case split_host_port (wr_Remote r) of Some (h, _) \<Rightarrow> h | None \<Rightarrow> wr_Remote r)
      in case parse_ip host of None \<Rightarrow> False | Some ip \<Rightarrow> ip_is_loopback ip)"

datatype web_reply =
    HttpError nat string
  | NothingWritten
  | StatusOnly nat
  | NotFound
  | Page string string \<comment> \<open>content type and text\<close>
  | StatusOf bool string config
  | LoginAt string
  | SignedIn string
  | Listening lan_status
  | Environments "remoteEnvironmentRecord list" lan_status config
  | SavedReply
  | Forwarded int "any option"

text \<open>None lets the request pass.\<close>

definition guardSettingsRequest :: "settings_env \<Rightarrow> web_request \<Rightarrow> bool \<Rightarrow> settings_state \<Rightarrow> settings_state \<times> web_reply option" where
  "guardSettingsRequest env r mutating st =
     (let origin = trim_space (wr_Origin r) in
      if \<not> loopbackRequest r \<or> \<not> loopbackHostHeader (wr_Host r)
      then (st, Some (HttpError 403 ''settings are only available on loopback''))
      else if origin \<noteq> [] \<and> origin \<noteq> ''null'' \<and> \<not> ownOrigin r origin
      then (st, Some (HttpError 403 ''origin is not allowed to use agent settings''))
      else if \<not> mutating then (st, None)
      else if wr_MediaType r \<noteq> ''application/json''
      then (st, Some (HttpError 415 ''mutating settings requests must send application/json''))
      else if origin \<noteq> []
      then (let st1 = settingsCSRFToken env st; token = se_csrf st1; provided = trim_space (wr_Csrf r)
            in if token = [] \<or> provided = [] \<or> token \<noteq> provided
               then (st1, Some (HttpError 403 ''settings CSRF token is missing or invalid''))
               else (st1, None))
      else (st, None))"

definition requireSettingsLoopback :: "settings_env \<Rightarrow> web_request \<Rightarrow> settings_state \<Rightarrow> settings_state \<times> web_reply option" where
  "requireSettingsLoopback env r st =
     guardSettingsRequest env r (wr_Method r \<notin> {''GET'', ''HEAD'', ''OPTIONS''}) st"

text \<open>How most handlers begin: a request that passes with another method than theirs gets no answer.\<close>

definition settings_handler ::
  "settings_env \<Rightarrow> string \<Rightarrow> (settings_state \<Rightarrow> settings_state \<times> web_reply) \<Rightarrow> web_request \<Rightarrow> settings_state \<Rightarrow> settings_state \<times> web_reply" where
  "settings_handler env verb handle r st =
     (case requireSettingsLoopback env r st of
        (st1, Some refusal) \<Rightarrow> (st1, refusal)
      | (st1, None) \<Rightarrow> if wr_Method r \<noteq> verb then (st1, NothingWritten) else handle st1)"

definition se_config :: "settings_state \<Rightarrow> config" where
  "se_config st = ls_Config (se_listener st)"

definition on_listener :: "(listener_state \<Rightarrow> listener_state \<times> 'a) \<Rightarrow> settings_state \<Rightarrow> settings_state \<times> 'a" where
  "on_listener f st = (let (l, x) = f (se_listener st) in (st\<lparr>se_listener := l\<rparr>, x))"

text \<open>One call of Dyner on behalf of the page, recorded with the listener's.\<close>

definition on_sent :: "(dyner_request list \<Rightarrow> dyner_request list \<times> 'a) \<Rightarrow> settings_state \<Rightarrow> settings_state \<times> 'a" where
  "on_sent f st = on_listener (\<lambda>l. let (sent, x) = f (ls_Sent l) in (l\<lparr>ls_Sent := sent\<rparr>, x)) st"

subsection \<open>Signing in\<close>

definition settingsLoginStateTTL :: int where
  "settingsLoginStateTTL = 600 * 1000000000"

definition query_escape :: "string \<Rightarrow> string" where
  "query_escape s =
     concat (map (\<lambda>c. if is_alnum c \<or> c \<in> set ''-_.~'' then [c] else if c = CHR '' '' then ''+''
                      else [CHR ''%'', upper_hex (of_char c div 16), upper_hex (of_char c mod 16)]) s)"

definition login_callback :: "string \<Rightarrow> string \<Rightarrow> string" where
  "login_callback host state =
     url_text \<lparr>w_url = empty_url\<lparr>u_Scheme := ''http'', u_Host := host, u_Path := ''/api/settings/login/callback'',
                                  u_RawQuery := ''state='' @ query_escape state\<rparr>,
               w_RawPath = [], w_User = None, w_OmitHost = False, w_ForceQuery = False, w_RawFragment = []\<rparr>"

definition login_start :: "settings_env \<Rightarrow> web_request \<Rightarrow> settings_state \<Rightarrow> settings_state \<times> web_reply" where
  "login_start env r st =
     (let base = cf_DynerBaseURL (se_config st) in
      if base = [] then (st, HttpError 400 ''Dyner server is not configured.'')
      else (case sn_state env of
              None \<Rightarrow> (st, HttpError 500 ''no random bytes'')
            | Some state \<Rightarrow>
                (let fresh = filter (\<lambda>(_, issued). \<not> sn_now env - issued > settingsLoginStateTTL) (se_logins st)
                 in (st\<lparr>se_logins := AList.update state (sn_now env) fresh\<rparr>,
                     LoginAt (trim_right_slash base @ ''/api/cli/login?callback='' @ query_escape (login_callback (wr_Host r) state))))))"

definition handleSettingsLoginStart :: "settings_env \<Rightarrow> web_request \<Rightarrow> settings_state \<Rightarrow> settings_state \<times> web_reply" where
  "handleSettingsLoginStart env r = settings_handler env ''POST'' (login_start env r) r"

definition consumeLoginState :: "settings_env \<Rightarrow> string \<Rightarrow> settings_state \<Rightarrow> settings_state \<times> bool" where
  "consumeLoginState env state st =
     (case map_of (se_logins st) state of
        None \<Rightarrow> (st, False)
      | Some issued \<Rightarrow> (st\<lparr>se_logins := AList.delete state (se_logins st)\<rparr>, sn_now env - issued \<le> settingsLoginStateTTL))"

definition email_field :: "string \<Rightarrow> any \<Rightarrow> string \<Rightarrow> string + string" where
  "email_field k v old = (if k = ''email'' then decode_string v old else Inr old)"

definition me_field :: "string \<Rightarrow> any \<Rightarrow> string \<Rightarrow> string + string" where
  "me_field k v old = (if k = ''user'' then decode_struct email_field v old else Inr old)"

text \<open>The email Dyner gives for a token.\<close>

definition account_email :: "int \<Rightarrow> any option \<Rightarrow> string + string" where
  "account_email status data =
     (if status div 100 \<noteq> 2 then Inl (''Dyner rejected the sign-in token: HTTP '' @ fmt_uint 10 (nat status))
      else (case data of
              None \<Rightarrow> Inl ''invalid JSON''
            | Some v \<Rightarrow>
                (case decode_struct me_field v [] of
                   Inl e \<Rightarrow> Inl e
                 | Inr email \<Rightarrow>
                     if email = [] then Inl ''Dyner did not return an account email for the sign-in token'' else Inr email)))"

definition storeAccountToken :: "settings_env \<Rightarrow> string \<Rightarrow> string \<Rightarrow> settings_state \<Rightarrow> settings_state \<times> (string + string)" where
  "storeAccountToken env base token st =
     (case dynerAPIURL base ''/api/v1/me'' of
        Inl e \<Rightarrow> (st, Inl e)
      | Inr endpoint \<Rightarrow>
          (case on_sent (dynerJSON (le_service (sn_listener env)) ''GET'' endpoint token None) st of
             (st1, Inl e) \<Rightarrow> (st1, Inl e)
           | (st1, Inr (status, data)) \<Rightarrow>
               (case account_email status data of
                  Inl e \<Rightarrow> (st1, Inl e)
                | Inr email \<Rightarrow>
                    (case sn_account_fault env of
                       Some (e, torn) \<Rightarrow> (if torn then st1\<lparr>se_account := TornAccount e\<rparr> else st1, Inl e)
                     | None \<Rightarrow> (st1\<lparr>se_account := Account token email, se_listener := (se_listener st1)\<lparr>ls_Token := token\<rparr>\<rparr>, Inr email)))))"

definition query_value :: "web_request \<Rightarrow> string \<Rightarrow> string" where
  "query_value r k = (case map_of (wr_Query r) k of None \<Rightarrow> [] | Some v \<Rightarrow> v)"

definition login_callback_handler :: "settings_env \<Rightarrow> web_request \<Rightarrow> settings_state \<Rightarrow> settings_state \<times> web_reply" where
  "login_callback_handler env r st =
     (let token = trim_space (query_value r ''token'');
          incomplete = HttpError 400 ''Dyner sign-in did not complete. Start again from the settings page.''
      in if token = [] then (st, incomplete)
         else (case consumeLoginState env (query_value r ''state'') st of
                 (st1, False) \<Rightarrow> (st1, incomplete)
               | (st1, True) \<Rightarrow>
                   (case storeAccountToken env (cf_DynerBaseURL (se_config st1)) token st1 of
                      (st2, Inl e) \<Rightarrow> (st2, HttpError 502 e)
                    | (st2, Inr email) \<Rightarrow> (st2, SignedIn email))))"

definition handleSettingsLoginCallback :: "settings_env \<Rightarrow> web_request \<Rightarrow> settings_state \<Rightarrow> settings_state \<times> web_reply" where
  "handleSettingsLoginCallback env r = settings_handler env ''GET'' (login_callback_handler env r) r"


subsection \<open>The files of the page\<close>

text \<open>The regular expression \<open>^[A-Za-z0-9_-]+\.(js|css)$\<close>.\<close>

definition settingsAssetName :: "string \<Rightarrow> bool" where
  "settingsAssetName name \<longleftrightarrow>
     (\<exists>ext \<in> {''.js'', ''.css''}. has_suffix name ext \<and> trim_suffix name ext \<noteq> []
        \<and> list_all (\<lambda>c. is_alnum c \<or> c = CHR ''_'' \<or> c = CHR ''-'') (trim_suffix name ext))"

definition slug_field :: "string \<Rightarrow> any \<Rightarrow> string \<Rightarrow> string + string" where
  "slug_field k v old = (if k = ''hostname_slug'' then decode_string v old else Inr old)"

definition app_slug_field :: "string \<Rightarrow> any \<Rightarrow> string \<times> string \<Rightarrow> string + string \<times> string" where
  "app_slug_field k v old =
     (if k = ''app'' then map_sum id (\<lambda>x. (x, snd old)) (decode_struct slug_field v (fst old))
      else if k = ''hostname_slug'' then map_sum id (\<lambda>x. (fst old, x)) (decode_string v (snd old))
      else Inr old)"

definition hosted_origin_of :: "url \<Rightarrow> int \<Rightarrow> any option \<Rightarrow> string + string" where
  "hosted_origin_of parsed status data =
     (if status div 100 \<noteq> 2 then Inl (''Dyner app lookup failed: HTTP '' @ fmt_uint 10 (nat status))
      else (case data of
              None \<Rightarrow> Inl ''invalid JSON''
            | Some v \<Rightarrow>
                (case decode_struct app_slug_field v ([], []) of
                   Inl e \<Rightarrow> Inl e
                 | Inr (app_slug, top_slug) \<Rightarrow>
                     (let slug = (if app_slug = [] then top_slug else app_slug); port = url_port parsed
                      in if slug = [] then Inl ''Dyner did not report a hosted hostname for its client app''
                         else Inr (u_Scheme parsed @ ''://'' @ slug @ ''.'' @ trim_prefix (url_hostname parsed) ''www.'' @
                                   (if port \<noteq> [] then '':'' @ port else []))))))"

definition hostedDynerOrigin :: "settings_env \<Rightarrow> settings_state \<Rightarrow> settings_state \<times> (string + string)" where
  "hostedDynerOrigin env st =
     (if se_origin st \<noteq> [] then (st, Inr (se_origin st))
      else if trim_space (sn_ui_origin env) \<noteq> [] then (st, Inr (trim_right_slash (trim_space (sn_ui_origin env))))
      else
        (let base = cf_DynerBaseURL (se_config st) in
         case url_parse (trim_right_slash base) of
           None \<Rightarrow> (st, Inl ''Dyner base URL is not configured'')
         | Some parsed \<Rightarrow>
             if u_Host parsed = [] then (st, Inl ''Dyner base URL is not configured'')
             else (case dynerAPIURL base (''/api/v1/apps/'' @ DefaultCatalogAppID) of
                     Inl e \<Rightarrow> (st, Inl e)
                   | Inr endpoint \<Rightarrow>
                       (case on_sent (dynerJSON (le_service (sn_listener env)) ''GET'' endpoint [] None) st of
                          (st1, Inl e) \<Rightarrow> (st1, Inl e)
                        | (st1, Inr (status, data)) \<Rightarrow>
                            (case hosted_origin_of parsed status data of
                               Inl e \<Rightarrow> (st1, Inl e)
                             | Inr origin \<Rightarrow> (st1\<lparr>se_origin := origin\<rparr>, Inr origin))))))"

text \<open>None is \<open>os.ErrNotExist\<close>.\<close>

definition settingsAssetContent ::
  "settings_env \<Rightarrow> string \<Rightarrow> settings_state \<Rightarrow> settings_state \<times> (string + string \<times> string) option" where
  "settingsAssetContent env name st =
     (if \<not> settingsAssetName name then (st, None)
      else
        (let kind = (if has_suffix name ''.css'' then ''text/css; charset=utf-8'' else ''text/javascript; charset=utf-8'')
         in case sn_content env name of
              Some data \<Rightarrow> (st, Some (Inr (kind, data)))
            | None \<Rightarrow>
                (case map_of (se_assets st) name of
                   Some asset \<Rightarrow> (st, Some (Inr asset))
                 | None \<Rightarrow>
                     (case hostedDynerOrigin env st of
                        (st1, Inl e) \<Rightarrow> (st1, Some (Inl e))
                      | (st1, Inr origin) \<Rightarrow>
                          (case sn_fetch env (origin @ ''/'' @ name) of
                             Inl e \<Rightarrow> (st1, Some (Inl e))
                           | Inr data \<Rightarrow> (st1\<lparr>se_assets := AList.update name (kind, data) (se_assets st1)\<rparr>, Some (Inr (kind, data))))))))"

definition when_allowed ::
  "settings_env \<Rightarrow> web_request \<Rightarrow> (settings_state \<Rightarrow> settings_state \<times> web_reply) \<Rightarrow> settings_state \<Rightarrow> settings_state \<times> web_reply" where
  "when_allowed env r handle st =
     (case requireSettingsLoopback env r st of (st1, Some refusal) \<Rightarrow> (st1, refusal) | (st1, None) \<Rightarrow> handle st1)"

text \<open>The page carries the token; its text around the token is left out.\<close>

definition handleSettingsIndex :: "settings_env \<Rightarrow> web_request \<Rightarrow> settings_state \<Rightarrow> settings_state \<times> web_reply" where
  "handleSettingsIndex env r =
     when_allowed env r (\<lambda>st.
       if wr_Path r \<noteq> ''/'' \<and> wr_Path r \<noteq> ''/settings'' then (st, NotFound)
       else (let st1 = settingsCSRFToken env st in (st1, Page ''text/html; charset=utf-8'' (se_csrf st1))))"

definition handleSettingsAsset :: "settings_env \<Rightarrow> web_request \<Rightarrow> settings_state \<Rightarrow> settings_state \<times> web_reply" where
  "handleSettingsAsset env r =
     when_allowed env r (\<lambda>st.
       let name = trim_prefix (wr_Path r) ''/ui/'' in
       if name = ''bridge.js'' then (st, Page ''text/javascript; charset=utf-8'' name)
       else (case settingsAssetContent env name st of
               (st1, None) \<Rightarrow> (st1, NotFound)
             | (st1, Some (Inl e)) \<Rightarrow> (st1, HttpError 502 (''Dyner settings assets were not found: '' @ e))
             | (st1, Some (Inr (kind, data))) \<Rightarrow> (st1, Page kind data)))"

subsection \<open>The settings API\<close>

definition handleSettingsStatus :: "settings_env \<Rightarrow> web_request \<Rightarrow> settings_state \<Rightarrow> settings_state \<times> web_reply" where
  "handleSettingsStatus env r st =
     (case requireSettingsLoopback env r st of
        (st1, Some refusal) \<Rightarrow> (st1, refusal)
      | (st1, None) \<Rightarrow>
          if wr_Method r \<noteq> ''GET'' then (st1, StatusOnly 405)
          else (st1, StatusOf (ls_Token (se_listener st1) \<noteq> []) (cf_DynerBaseURL (se_config st1)) (se_config st1)))"

definition settingsRemotePayload :: "settings_env \<Rightarrow> settings_state \<Rightarrow> settings_state \<times> (string + web_reply)" where
  "settingsRemotePayload env st =
     (case lanStatus (sn_listener env) (se_listener st) of
        Inl e \<Rightarrow> (st, Inl e)
      | Inr server \<Rightarrow>
          (let c = se_config st; token = ls_Token (se_listener st)
           in if token = [] \<or> cf_DynerBaseURL c = [] then (st, Inr (Environments [] server c))
              else (case on_sent (ListRemoteEnvironments (le_service (sn_listener env)) (cf_DynerBaseURL c) token) st of
                      (st1, Inl e) \<Rightarrow> (st1, Inl e)
                    | (st1, Inr found) \<Rightarrow> (st1, Inr (Environments found server c)))))"

definition or_bad_gateway :: "settings_state \<times> (string + web_reply) \<Rightarrow> settings_state \<times> web_reply" where
  "or_bad_gateway res = (case res of (st, Inl e) \<Rightarrow> (st, HttpError 502 e) | (st, Inr reply) \<Rightarrow> (st, reply))"

definition handleSettingsRemoteList :: "settings_env \<Rightarrow> web_request \<Rightarrow> settings_state \<Rightarrow> settings_state \<times> web_reply" where
  "handleSettingsRemoteList env r = settings_handler env ''GET'' (\<lambda>st. or_bad_gateway (settingsRemotePayload env st)) r"

text \<open>A body is a struct; the ones of the first two handlers may be missing.\<close>

definition decode_body :: "bool \<Rightarrow> (string \<Rightarrow> any \<Rightarrow> 'a \<Rightarrow> string + 'a) \<Rightarrow> 'a \<Rightarrow> web_body \<Rightarrow> string + 'a" where
  "decode_body optional field zero body =
     (case body of
        NoBody \<Rightarrow> if optional then Inr zero else Inl ''EOF''
      | BadBody e \<Rightarrow> Inl e
      | JsonBody v \<Rightarrow> decode_struct field v zero)"

definition server_field :: "string \<Rightarrow> any \<Rightarrow> bool \<times> string \<times> string \<Rightarrow> string + bool \<times> string \<times> string" where
  "server_field k v old =
     (let (enabled, mode, name) = old in
      if k = ''enabled'' then map_sum id (\<lambda>x. (x, mode, name)) (decode_bool v enabled)
      else if k = ''listenermode'' then map_sum id (\<lambda>x. (enabled, x, name)) (decode_string v mode)
      else if k = ''name'' then map_sum id (\<lambda>x. (enabled, mode, x)) (decode_string v name)
      else Inr old)"

definition relay_field :: "string \<Rightarrow> any \<Rightarrow> bool \<times> string \<Rightarrow> string + bool \<times> string" where
  "relay_field k v old =
     (if k = ''enabled'' then map_sum id (\<lambda>x. (x, snd old)) (decode_bool v (fst old))
      else if k = ''name'' then map_sum id (\<lambda>x. (fst old, x)) (decode_string v (snd old))
      else Inr old)"

definition rename_field :: "string \<Rightarrow> any \<Rightarrow> string \<times> string \<Rightarrow> string + string \<times> string" where
  "rename_field k v old =
     (if k = ''id'' then map_sum id (\<lambda>x. (x, snd old)) (decode_string v (fst old))
      else if k = ''name'' then map_sum id (\<lambda>x. (fst old, x)) (decode_string v (snd old))
      else Inr old)"

definition remove_field :: "string \<Rightarrow> any \<Rightarrow> string \<Rightarrow> string + string" where
  "remove_field k v old = (if k = ''id'' then decode_string v old else Inr old)"

definition set_server :: "settings_env \<Rightarrow> web_request \<Rightarrow> settings_state \<Rightarrow> settings_state \<times> web_reply" where
  "set_server env r st =
     (case decode_body True server_field (False, [], []) (wr_Body r) of
        Inl e \<Rightarrow> (st, HttpError 400 e)
      | Inr (enabled, asked, name) \<Rightarrow>
          (let mode = (if \<not> enabled then ''off'' else if asked = [] \<or> asked = ''off'' then ''local'' else asked)
           in case on_listener (setListener (sn_listener env) mode name) st of
                (st1, Inl e) \<Rightarrow> (st1, HttpError 502 e)
              | (st1, Inr status) \<Rightarrow> (st1, Listening status)))"

definition handleSettingsSetServer :: "settings_env \<Rightarrow> web_request \<Rightarrow> settings_state \<Rightarrow> settings_state \<times> web_reply" where
  "handleSettingsSetServer env r = settings_handler env ''POST'' (set_server env r) r"

definition set_relay :: "settings_env \<Rightarrow> web_request \<Rightarrow> settings_state \<Rightarrow> settings_state \<times> web_reply" where
  "set_relay env r st =
     (case decode_body True relay_field (False, []) (wr_Body r) of
        Inl e \<Rightarrow> (st, HttpError 400 e)
      | Inr (enabled, name) \<Rightarrow>
          (case on_listener (ensureHostedRegistration (sn_listener env) enabled name) st of
             (st1, Some e) \<Rightarrow> (st1, HttpError 502 e)
           | (st1, None) \<Rightarrow> or_bad_gateway (settingsRemotePayload env st1)))"

definition handleSettingsSetRelay :: "settings_env \<Rightarrow> web_request \<Rightarrow> settings_state \<Rightarrow> settings_state \<times> web_reply" where
  "handleSettingsSetRelay env r = settings_handler env ''POST'' (set_relay env r) r"

definition handleSettingsTailscale :: "settings_env \<Rightarrow> web_request \<Rightarrow> settings_state \<Rightarrow> settings_state \<times> web_reply" where
  "handleSettingsTailscale env r =
     when_allowed env r (\<lambda>st. (st, HttpError 501 ''Tailscale is not available in the headless Shell agent yet.''))"

definition update_text :: "update_error \<Rightarrow> string" where
  "update_text e =
     (case e of EnvironmentNotFound \<Rightarrow> ''Dyner environment update failed: HTTP 404 (environment no longer exists)'' | UpdateFailed t \<Rightarrow> t)"

text \<open>The names the agent keeps follow; a configuration that cannot be saved is not reported.\<close>

definition rename_local :: "settings_env \<Rightarrow> config \<Rightarrow> string \<Rightarrow> string \<Rightarrow> settings_state \<Rightarrow> settings_state" where
  "rename_local env c i name st =
     (let save = (\<lambda>f s. fst (on_listener (save_changed (sn_listener env) f) s));
          st1 = (if i = cf_EnvironmentID c then save (\<lambda>k. k\<lparr>cf_ListenerName := name, cf_HostedName := name\<rparr>) st else st)
      in if i = cf_HostedEnvironmentID c then save (\<lambda>k. k\<lparr>cf_HostedName := name\<rparr>) st1 else st1)"

definition rename_environment :: "settings_env \<Rightarrow> web_request \<Rightarrow> settings_state \<Rightarrow> settings_state \<times> web_reply" where
  "rename_environment env r st =
     (case decode_body False rename_field ([], []) (wr_Body r) of
        Inl e \<Rightarrow> (st, HttpError 400 e)
      | Inr (i, name) \<Rightarrow>
          (let c = se_config st
           in case on_sent (UpdateRemoteEnvironment (le_service (sn_listener env)) (cf_DynerBaseURL c) (ls_Token (se_listener st)) i
                              [(''name'', StrV name)]) st of
                (st1, Some e) \<Rightarrow> (st1, HttpError 502 (update_text e))
              | (st1, None) \<Rightarrow> (rename_local env c i name st1, SavedReply)))"

definition handleSettingsRename :: "settings_env \<Rightarrow> web_request \<Rightarrow> settings_state \<Rightarrow> settings_state \<times> web_reply" where
  "handleSettingsRename env r = settings_handler env ''POST'' (rename_environment env r) r"

definition remove_environment :: "settings_env \<Rightarrow> web_request \<Rightarrow> settings_state \<Rightarrow> settings_state \<times> web_reply" where
  "remove_environment env r st =
     (case decode_body False remove_field [] (wr_Body r) of
        Inl e \<Rightarrow> (st, HttpError 400 e)
      | Inr i \<Rightarrow>
          (case on_sent (RevokeRemoteEnvironment (le_service (sn_listener env)) (cf_DynerBaseURL (se_config st)) (ls_Token (se_listener st)) i) st of
             (st1, Some e) \<Rightarrow> (st1, HttpError 502 e)
           | (st1, None) \<Rightarrow> (st1, SavedReply)))"

definition handleSettingsRemove :: "settings_env \<Rightarrow> web_request \<Rightarrow> settings_state \<Rightarrow> settings_state \<times> web_reply" where
  "handleSettingsRemove env r = settings_handler env ''POST'' (remove_environment env r) r"

text \<open>Requests for workspaces are handed on to Dyner with the account's token.\<close>

definition proxy_body :: "web_request \<Rightarrow> string + any option" where
  "proxy_body r =
     (if wr_Method r \<in> {''GET'', ''HEAD'', ''DELETE''} then Inr None
      else (case wr_Body r of
              NoBody \<Rightarrow> Inr None
            | BadBody e \<Rightarrow> Inl e
            | JsonBody v \<Rightarrow> Inr (if v = NilV then None else Some v)))"

definition forward_workspaces :: "settings_env \<Rightarrow> web_request \<Rightarrow> settings_state \<Rightarrow> settings_state \<times> web_reply" where
  "forward_workspaces env r st =
     (if \<not> has_prefix (wr_Path r) ''/api/v1/workspaces'' then (st, NotFound)
      else
        (let base = cf_DynerBaseURL (se_config st); token = ls_Token (se_listener st) in
         if token = [] \<or> base = [] then (st, HttpError 401 ''Sign in to Dyner first.'')
         else (case dynerAPIURL base (wr_Path r) of
                 Inl e \<Rightarrow> (st, HttpError 400 e)
               | Inr endpoint \<Rightarrow>
                   (case proxy_body r of
                      Inl e \<Rightarrow> (st, HttpError 400 e)
                    | Inr body \<Rightarrow>
                        (case on_sent (dynerJSON (le_service (sn_listener env)) (wr_Method r)
                                 (endpoint @ (if wr_RawQuery r \<noteq> [] then ''?'' @ wr_RawQuery r else [])) token body) st of
                           (st1, Inl e) \<Rightarrow> (st1, HttpError 502 e)
                         | (st1, Inr (status, data)) \<Rightarrow> (st1, Forwarded status data))))))"

definition handleSettingsDynerProxy :: "settings_env \<Rightarrow> web_request \<Rightarrow> settings_state \<Rightarrow> settings_state \<times> web_reply" where
  "handleSettingsDynerProxy env r = when_allowed env r (forward_workspaces env r)"

text \<open>\<open>registerSettingsHandlers\<close>: what the mux makes of a path.\<close>

definition settings_serve :: "settings_env \<Rightarrow> web_request \<Rightarrow> settings_state \<Rightarrow> settings_state \<times> web_reply" where
  "settings_serve env r =
     (let path = wr_Path r; api = ''/api/settings/'' in
      if path = api @ ''status'' then handleSettingsStatus env r
      else if path = api @ ''login/start'' then handleSettingsLoginStart env r
      else if path = api @ ''login/callback'' then handleSettingsLoginCallback env r
      else if path = api @ ''remote-environments'' then handleSettingsRemoteList env r
      else if path = api @ ''remote-environments/server'' then handleSettingsSetServer env r
      else if path = api @ ''remote-environments/relay'' then handleSettingsSetRelay env r
      else if path = api @ ''remote-environments/tailscale'' then handleSettingsTailscale env r
      else if path = api @ ''remote-environments/rename'' then handleSettingsRename env r
      else if path = api @ ''remote-environments/remove'' then handleSettingsRemove env r
      else if has_prefix path ''/api/v1/'' then handleSettingsDynerProxy env r
      else if has_prefix path ''/ui/'' then handleSettingsAsset env r
      else handleSettingsIndex env r)"

end
