(* ===== verification/Settings_Properties.thy ===== *)
theory Settings_Properties
  imports Settings Listener_Properties
begin

text \<open>
  The settings pages: only the agent's own page and programs of the machine change anything, and the
  account is changed only by a sign-in that one of them has started.
\<close>

subsection \<open>Who asks\<close>

definition local_request :: "web_request \<Rightarrow> bool" where
  "local_request r \<longleftrightarrow> loopbackRequest r \<and> loopbackHostHeader (wr_Host r)"

definition page_origin :: "web_request \<Rightarrow> bool" where
  "page_origin r \<longleftrightarrow> (let origin = trim_space (wr_Origin r) in origin = [] \<or> origin = ''null'' \<or> ownOrigin r origin)"

text \<open>A request of the page that has the token, or of a program that is no browser.\<close>

definition may_change :: "string \<Rightarrow> web_request \<Rightarrow> bool" where
  "may_change token r \<longleftrightarrow> local_request r \<and> page_origin r \<and> wr_MediaType r = ''application/json''
     \<and> (trim_space (wr_Origin r) = [] \<or> token \<noteq> [] \<and> trim_space (wr_Csrf r) = token)"

text \<open>What a request may do without more ado: make the token, ask Dyner, and fill the caches.\<close>

definition token_kept :: "settings_state \<Rightarrow> settings_state \<Rightarrow> bool" where
  "token_kept st st' \<longleftrightarrow> se_csrf st = [] \<or> se_csrf st' = se_csrf st"

definition settings_core :: "settings_state \<Rightarrow> listener_state \<times> (string \<times> int) list \<times> account_file" where
  "settings_core st = ((se_listener st)\<lparr>ls_Sent := []\<rparr>, se_logins st, se_account st)"

definition quiet :: "settings_state \<Rightarrow> settings_state \<Rightarrow> bool" where
  "quiet st st' \<longleftrightarrow> token_kept st st' \<and> settings_core st' = settings_core st"

definition signed :: "settings_state \<Rightarrow> settings_state \<Rightarrow> bool" where
  "signed st st' \<longleftrightarrow> token_kept st st' \<and> se_logins st' = se_logins st \<and> se_account st' = se_account st
     \<and> ls_Token (se_listener st') = ls_Token (se_listener st)"

lemma token_kept_trans: "token_kept a b \<Longrightarrow> token_kept b c \<Longrightarrow> token_kept a c"
  by (auto simp: token_kept_def)

lemma quiet_refl [simp]: "quiet st st" and signed_refl [simp]: "signed st st"
  by (simp_all add: quiet_def signed_def token_kept_def)

lemma quiet_trans: "quiet a b \<Longrightarrow> quiet b c \<Longrightarrow> quiet a c"
  by (auto simp: quiet_def intro: token_kept_trans)

lemma signed_trans: "signed a b \<Longrightarrow> signed b c \<Longrightarrow> signed a c"
  by (auto simp: signed_def intro: token_kept_trans)

lemma quiet_signed: "quiet st st' \<Longrightarrow> signed st st'"
proof -
  assume "quiet st st'"
  then have kept: "token_kept st st'" and core: "settings_core st' = settings_core st" by (simp_all add: quiet_def)
  have "(se_listener st')\<lparr>ls_Sent := []\<rparr> = (se_listener st)\<lparr>ls_Sent := []\<rparr>" using core by (simp add: settings_core_def)
  from arg_cong [OF this, of ls_Token] have "ls_Token (se_listener st') = ls_Token (se_listener st)" by simp
  with kept core show ?thesis by (simp add: signed_def settings_core_def)
qed

lemma may_change_kept: "may_change (se_csrf st) r \<Longrightarrow> token_kept st st' \<Longrightarrow> may_change (se_csrf st') r"
  by (auto simp: may_change_def token_kept_def)

lemma quiet_token [simp]: "quiet st (settingsCSRFToken env st)"
  by (simp add: settingsCSRFToken_def quiet_def token_kept_def settings_core_def split: option.split)

lemma quiet_caches [simp]: "quiet st (st\<lparr>se_assets := a\<rparr>)" "quiet st (st\<lparr>se_origin := u\<rparr>)"
  by (simp_all add: quiet_def token_kept_def settings_core_def)

lemma on_sent_quiet: "on_sent f st = (st', x) \<Longrightarrow> quiet st st'"
  by (auto simp: on_sent_def on_listener_def quiet_def token_kept_def settings_core_def split: prod.splits)

lemma guard_quiet: "requireSettingsLoopback env r st = (st', reply) \<Longrightarrow> quiet st st'"
  unfolding requireSettingsLoopback_def guardSettingsRequest_def Let_def by (auto split: if_splits)

lemma guard_passed:
  assumes "requireSettingsLoopback env r st = (st', None)"
  shows "local_request r" "page_origin r" "wr_Method r \<notin> {''GET'', ''HEAD'', ''OPTIONS''} \<Longrightarrow> may_change (se_csrf st') r"
  using assms unfolding requireSettingsLoopback_def guardSettingsRequest_def Let_def
  by (auto simp: local_request_def page_origin_def may_change_def Let_def split: if_splits)

subsection \<open>What each handler does to the state\<close>

lemma then_quiet:
  "quiet st (fst p) \<Longrightarrow> (\<And>e. snd p = Inl e \<Longrightarrow> quiet (fst p) (fst (f (fst p) e))) \<Longrightarrow>
   (\<And>x. snd p = Inr x \<Longrightarrow> quiet (fst p) (fst (g (fst p) x))) \<Longrightarrow>
   quiet st (fst (case p of (s, Inl e) \<Rightarrow> f s e | (s, Inr x) \<Rightarrow> g s x))"
  by (cases p) (auto split: sum.split intro: quiet_trans)

lemma sent_quiet [simp]: "quiet st (fst (on_sent f st))"
  by (cases "on_sent f st") (simp add: on_sent_quiet)

lemma remote_quiet: "quiet st (fst (settingsRemotePayload env st))"
  unfolding settingsRemotePayload_def Let_def
  by (auto split: sum.split intro!: then_quiet)

lemma answered_quiet [simp]: "fst (or_bad_gateway p) = fst p"
  by (cases p) (simp add: or_bad_gateway_def split: sum.split)

lemma origin_quiet: "quiet st (fst (hostedDynerOrigin env st))"
proof -
  have "quiet st (fst (case on_sent f st of (st1, Inl e) \<Rightarrow> (st1, Inl e)
      | (st1, Inr (status, data)) \<Rightarrow> (case hosted_origin_of parsed status data of
          Inl e \<Rightarrow> (st1, Inl e) | Inr u \<Rightarrow> (st1\<lparr>se_origin := u\<rparr>, Inr u))))" for f parsed
    by (rule then_quiet) (auto split: prod.split sum.split)
  then show ?thesis unfolding hostedDynerOrigin_def Let_def by (auto split: option.split sum.split)
qed

lemma asset_quiet: "quiet st (fst (settingsAssetContent env name st))"
proof -
  have "quiet st (fst (case hostedDynerOrigin env st of (st1, Inl e) \<Rightarrow> (st1, Some (Inl e))
      | (st1, Inr u) \<Rightarrow> (case sn_fetch env (u @ CHR ''/'' # name) of Inl e \<Rightarrow> (st1, Some (Inl e))
          | Inr data \<Rightarrow> (st1\<lparr>se_assets := AList.update name (kind, data) (se_assets st1)\<rparr>, Some (Inr (kind, data))))))" for kind
    by (rule then_quiet) (auto split: sum.split simp: origin_quiet)
  then show ?thesis by (simp add: settingsAssetContent_def Let_def split: option.split)
qed

lemma workspaces_quiet: "quiet st (fst (forward_workspaces env r st))"
proof -
  have "quiet st (fst (case on_sent f st of (st1, Inl e) \<Rightarrow> (st1, HttpError 502 e)
      | (st1, Inr (status, data)) \<Rightarrow> (st1, Forwarded status data)))" for f
    by (rule then_quiet) (auto split: prod.split)
  then show ?thesis unfolding forward_workspaces_def Let_def by (auto split: option.split sum.split)
qed

lemma remove_quiet: "quiet st (fst (remove_environment env r st))"
proof -
  have "quiet st (fst (case on_sent f st of (st1, Some e) \<Rightarrow> (st1, HttpError 502 e) | (st1, None) \<Rightarrow> (st1, SavedReply)))" for f
    using sent_quiet [of st f] by (cases "on_sent f st") (auto split: option.split)
  then show ?thesis unfolding remove_environment_def Let_def by (auto split: sum.split)
qed

text \<open>The handlers that change the listener leave the account alone.\<close>

lemma token_save [simp]: "ls_Token (fst (SaveConfig env c st)) = ls_Token st"
  by (simp add: SaveConfig_def Let_def split: sum.split option.split)

lemma token_save_changed [simp]: "ls_Token (fst (save_changed env f st)) = ls_Token st"
  by (simp add: save_changed_def set_config_def Let_def)

lemma token_merge: "(\<And>s. ls_Token (fst (continue s)) = ls_Token s) \<Longrightarrow> ls_Token (fst (merge_then env c w t i continue st)) = ls_Token st"
  by (simp add: merge_then_def split: prod.split option.split)

lemma token_register: "ls_Token (fst (register_listener env c name body st)) = ls_Token st"
proof -
  have "ls_Token (fst (case p of (s, Some e) \<Rightarrow> (s, Some e) | (s, None) \<Rightarrow> merge_then env c w t i (save_changed env clear_hosted) s)) =
      ls_Token (fst p)" for p w t i
    by (cases p) (simp add: token_merge split: option.split)
  then show ?thesis by (simp add: register_listener_def Let_def set_config_def split: prod.split sum.split)
qed

lemma token_ensure_listener: "ls_Token (fst (ensureListenerRegistration env st)) = ls_Token st"
proof -
  have "ls_Token (fst (update_listener env c name body st)) = ls_Token st" for c name body
    by (simp add: update_listener_def token_merge token_register set_config_def split: prod.split option.split update_error.split)
  then show ?thesis by (simp add: ensureListenerRegistration_def Let_def token_register split: sum.split)
qed

lemma token_ensure_hosted: "ls_Token (fst (ensureHostedRegistration env enabled name st)) = ls_Token st"
  by (simp add: ensureHostedRegistration_def Let_def token_merge split: prod.split sum.split)

lemma token_set_listener: "ls_Token (fst (setListener env mode name st)) = ls_Token st"
proof -
  have off: "ls_Token (fst (listener_off env s)) = ls_Token s" for s
    by (simp add: listener_off_def Let_def split: prod.split option.split update_error.split)
  have restart: "ls_Token (fst (restartLAN env s)) = ls_Token s" for s
    by (simp add: restartLAN_def Let_def split: option.split)
  have pass: "ls_Token (fst (case p of (s, Some e) \<Rightarrow> (s, Inl e) | (s, None) \<Rightarrow> continue s)) = t"
    if "ls_Token (fst p) = t" "ls_Token (fst (continue (fst p))) = t" for p t and continue :: "listener_state \<Rightarrow> listener_state \<times> (string + lan_status)"
    using that by (cases p) (auto split: option.split)
  show ?thesis unfolding setListener_def Let_def
    by (intro pass) (simp_all add: off restart token_ensure_listener)
qed

lemma on_listener_signed: "(\<And>l. ls_Token (fst (f l)) = ls_Token l) \<Longrightarrow> signed st (fst (on_listener f st))"
  by (simp add: on_listener_def signed_def token_kept_def split: prod.split) (metis fst_conv)

lemma set_server_signed: "signed st (fst (set_server env r st))"
proof -
  have "signed st (fst (case on_listener (setListener l mode name) st of (st1, Inl e) \<Rightarrow> (st1, HttpError 502 e)
      | (st1, Inr status) \<Rightarrow> (st1, Listening status)))" for l mode name
    using on_listener_signed [of "setListener l mode name" st] token_set_listener
    by (cases "on_listener (setListener l mode name) st") (auto split: sum.split)
  then show ?thesis unfolding set_server_def Let_def by (auto split: sum.split)
qed

lemma set_relay_signed: "signed st (fst (set_relay env r st))"
proof -
  have "signed st (fst (case on_listener (ensureHostedRegistration l b name) st of (st1, Some e) \<Rightarrow> (st1, HttpError 502 e)
      | (st1, None) \<Rightarrow> or_bad_gateway (settingsRemotePayload env st1)))" for l b name
    using on_listener_signed [of "ensureHostedRegistration l b name" st] token_ensure_hosted quiet_signed [OF remote_quiet]
    by (cases "on_listener (ensureHostedRegistration l b name) st") (auto split: option.split intro: signed_trans)
  then show ?thesis unfolding set_relay_def by (auto split: sum.split)
qed

lemma rename_signed: "signed st (fst (rename_environment env r st))"
proof -
  have save: "signed a (fst (on_listener (save_changed l f) b))" if "signed a b" for l f a b
    using that by (rule signed_trans) (simp add: on_listener_signed)
  have loc: "signed s (rename_local env c i name s)" for c i name s
    unfolding rename_local_def Let_def by (cases "i = cf_EnvironmentID c"; cases "i = cf_HostedEnvironmentID c") (simp_all add: save)
  have "signed st (fst (case on_sent f st of (st1, Some e) \<Rightarrow> (st1, HttpError 502 (update_text e))
      | (st1, None) \<Rightarrow> (rename_local env c i name st1, SavedReply)))" for f c i name
    using quiet_signed [OF sent_quiet [of st f]] loc by (cases "on_sent f st") (auto split: option.split intro: signed_trans)
  then show ?thesis unfolding rename_environment_def Let_def by (auto split: sum.split)
qed

subsection \<open>The cases of a request\<close>

text \<open>
  A request that is served does no more than ask, or it is a POST or a callback that has passed the guard and
  then does what its handler does.
\<close>

definition passed :: "settings_env \<Rightarrow> string \<Rightarrow> web_request \<Rightarrow> settings_state \<Rightarrow> settings_state \<Rightarrow> bool" where
  "passed env verb r st st1 \<longleftrightarrow> requireSettingsLoopback env r st = (st1, None) \<and> wr_Method r = verb"

lemma handler_cases:
  assumes "settings_handler env verb handle r st = (st', reply)"
  shows "quiet st st' \<or> (\<exists>st1. passed env verb r st st1 \<and> handle st1 = (st', reply))"
proof (cases "requireSettingsLoopback env r st")
  case (Pair st1 refusal)
  then show ?thesis using assms guard_quiet [OF Pair]
    by (cases refusal) (auto simp: settings_handler_def passed_def split: if_splits)
qed

lemma allowed_quiet: "(\<And>s. quiet s (fst (handle s))) \<Longrightarrow> quiet st (fst (when_allowed env r handle st))"
  by (cases "requireSettingsLoopback env r st") (auto simp: when_allowed_def split: option.split dest: guard_quiet intro: quiet_trans)

lemma get_quiet:
  "quiet st (fst (handleSettingsStatus env r st))" "quiet st (fst (handleSettingsRemoteList env r st))"
  "quiet st (fst (handleSettingsTailscale env r st))" "quiet st (fst (handleSettingsRemove env r st))"
  "quiet st (fst (handleSettingsDynerProxy env r st))" "quiet st (fst (handleSettingsAsset env r st))"
  "quiet st (fst (handleSettingsIndex env r st))"
proof -
  have handler: "(\<And>s. quiet s (fst (handle s))) \<Longrightarrow> quiet st (fst (settings_handler env verb handle r st))" for verb handle
    by (cases "requireSettingsLoopback env r st") (auto simp: settings_handler_def split: option.split dest: guard_quiet intro: quiet_trans)
  show "quiet st (fst (handleSettingsStatus env r st))"
    by (cases "requireSettingsLoopback env r st") (auto simp: handleSettingsStatus_def split: option.split dest: guard_quiet)
  show "quiet st (fst (handleSettingsRemoteList env r st))"
    unfolding handleSettingsRemoteList_def by (rule handler) (simp add: remote_quiet)
  show "quiet st (fst (handleSettingsRemove env r st))"
    unfolding handleSettingsRemove_def by (rule handler) (rule remove_quiet)
  show "quiet st (fst (handleSettingsTailscale env r st))"
    unfolding handleSettingsTailscale_def by (rule allowed_quiet) simp
  show "quiet st (fst (handleSettingsDynerProxy env r st))"
    unfolding handleSettingsDynerProxy_def by (rule allowed_quiet) (rule workspaces_quiet)
  show "quiet st (fst (handleSettingsIndex env r st))"
    unfolding handleSettingsIndex_def by (rule allowed_quiet) (simp add: Let_def)
  have asset: "quiet s (fst (case settingsAssetContent env name s of (st1, None) \<Rightarrow> (st1, NotFound)
      | (st1, Some (Inl e)) \<Rightarrow> (st1, HttpError 502 (f e)) | (st1, Some (Inr (kind, data))) \<Rightarrow> (st1, Page kind data)))" for s name f
    using asset_quiet [of s env name] by (cases "settingsAssetContent env name s") (auto split: option.split sum.split)
  show "quiet st (fst (handleSettingsAsset env r st))"
    unfolding handleSettingsAsset_def by (rule allowed_quiet) (simp add: Let_def asset)
qed

lemma settings_serve_cases:
  assumes "settings_serve env r st = (st', reply)"
  obtains (Asked) "quiet st st'"
    | (Changed) st1 where "passed env ''POST'' r st st1" "signed st1 st'"
    | (Started) st1 where "wr_Path r = ''/api/settings/login/start''" "passed env ''POST'' r st st1" "login_start env r st1 = (st', reply)"
    | (CalledBack) st1 where "wr_Path r = ''/api/settings/login/callback''" "passed env ''GET'' r st st1"
        "login_callback_handler env r st1 = (st', reply)"
proof -
  have asked: thesis if "f st = (st', reply)" "quiet st (fst (f st))" for f using that Asked by simp
  have posted: thesis if "settings_handler env ''POST'' h r st = (st', reply)" "\<And>s. signed s (fst (h s))" for h
    using handler_cases [OF that(1)] that(2) Asked Changed by (metis fst_conv)
  have start: thesis if "handleSettingsLoginStart env r st = (st', reply)" "wr_Path r = ''/api/settings/login/start''"
    using handler_cases that Asked Started unfolding handleSettingsLoginStart_def by metis
  have callback: thesis if "handleSettingsLoginCallback env r st = (st', reply)" "wr_Path r = ''/api/settings/login/callback''"
    using handler_cases that Asked CalledBack unfolding handleSettingsLoginCallback_def by metis
  have posts: thesis if "handleSettingsSetServer env r st = (st', reply) \<or> handleSettingsSetRelay env r st = (st', reply)
      \<or> handleSettingsRename env r st = (st', reply)"
    using that posted [of "set_server env r"] posted [of "set_relay env r"] posted [of "rename_environment env r"]
      set_server_signed set_relay_signed rename_signed
    unfolding handleSettingsSetServer_def handleSettingsSetRelay_def handleSettingsRename_def by blast
  show thesis
    using assms start callback posts get_quiet [of st env r] asked
    unfolding settings_serve_def Let_def by (simp split: if_splits) 
qed

text \<open>What a sign-in does.\<close>

lemma start_effect:
  assumes "login_start env r st = (st', reply)"
  shows "st' = st \<or> (\<exists>s url. sn_state env = Some s \<and> reply = LoginAt url
    \<and> st' = st\<lparr>se_logins := AList.update s (sn_now env) (filter (\<lambda>(_, issued). \<not> sn_now env - issued > settingsLoginStateTTL) (se_logins st))\<rparr>)"
  using assms by (auto simp: login_start_def Let_def split: if_splits option.splits)

definition token_of :: "web_request \<Rightarrow> string" where
  "token_of r = trim_space (query_value r ''token'')"

text \<open>Dyner has given an email for the token.\<close>

definition confirmed :: "settings_env \<Rightarrow> string \<Rightarrow> string \<Rightarrow> dyner_request list \<Rightarrow> bool" where
  "confirmed env token email sent \<longleftrightarrow>
     (\<exists>before url status data. sent = before @ [\<lparr>dr_Method = ''GET'', dr_URL = url, dr_Bearer = token, dr_Body = None\<rparr>]
        \<and> le_service (sn_listener env) before (last sent) = Inr (status, data) \<and> account_email status data = Inr email)"

lemma store_effect:
  assumes "storeAccountToken env base token st = (st', res)"
  shows "token_kept st st'" "se_logins st' = se_logins st"
    and "res = Inl e \<Longrightarrow> ls_Token (se_listener st') = ls_Token (se_listener st) \<and> LoadDynerAccountToken (se_account st') \<in> {LoadDynerAccountToken (se_account st)} \<union> range Inl"
    and "res = Inr email \<Longrightarrow> ls_Token (se_listener st') = token \<and> se_account st' = Account token email \<and> email \<noteq> []
      \<and> confirmed env token email (ls_Sent (se_listener st'))"
proof -
  have parts: "se_csrf st1 = se_csrf st \<and> se_logins st1 = se_logins st \<and> se_account st1 = se_account st
      \<and> ls_Token (se_listener st1) = ls_Token (se_listener st)
      \<and> (\<forall>status data. x = Inr (status, data) \<longrightarrow> (\<exists>before. ls_Sent (se_listener st1) =
            before @ [\<lparr>dr_Method = ''GET'', dr_URL = url, dr_Bearer = token, dr_Body = None\<rparr>]
          \<and> le_service (sn_listener env) before (last (ls_Sent (se_listener st1))) = Inr (status, data)))"
    if "on_sent (dynerJSON (le_service (sn_listener env)) ''GET'' url token None) st = (st1, x)" for url st1 x
    using that by (auto simp: on_sent_def on_listener_def dynerJSON_def Let_def split: option.splits prod.splits)
  have email: "account_email status data = Inr m \<Longrightarrow> m \<noteq> []" for status data m
    by (auto simp: account_email_def split: if_splits option.splits sum.splits)
  show "token_kept st st'" "se_logins st' = se_logins st"
    using assms by (auto simp: storeAccountToken_def token_kept_def split: sum.splits prod.splits option.splits if_splits dest!: parts)
  show "res = Inl e \<Longrightarrow> ls_Token (se_listener st') = ls_Token (se_listener st) \<and> LoadDynerAccountToken (se_account st') \<in> {LoadDynerAccountToken (se_account st)} \<union> range Inl"
    using assms by (auto simp: storeAccountToken_def LoadDynerAccountToken_def split: sum.splits prod.splits option.splits if_splits dest!: parts)
  show "res = Inr email \<Longrightarrow> ls_Token (se_listener st') = token \<and> se_account st' = Account token email \<and> email \<noteq> []
      \<and> confirmed env token email (ls_Sent (se_listener st'))"
    using assms by (fastforce simp: storeAccountToken_def confirmed_def split: sum.splits prod.splits option.splits if_splits
        dest!: parts dest: email)
qed

lemma callback_effect:
  assumes "login_callback_handler env r st = (st', reply)"
  shows "st' = st \<and> (\<forall>email. reply \<noteq> SignedIn email) \<or>
    (\<exists>issued. map_of (se_logins st) (query_value r ''state'') = Some issued
      \<and> se_logins st' = AList.delete (query_value r ''state'') (se_logins st) \<and> token_kept st st'
      \<and> (sn_now env - issued \<le> settingsLoginStateTTL \<and>
           (\<exists>email. reply = SignedIn email \<and> ls_Token (se_listener st') = token_of r \<and> se_account st' = Account (token_of r) email \<and> email \<noteq> [] \<and> token_of r \<noteq> []
              \<and> confirmed env (token_of r) email (ls_Sent (se_listener st')))
         \<or> (\<forall>email. reply \<noteq> SignedIn email) \<and> ls_Token (se_listener st') = ls_Token (se_listener st)
              \<and> LoadDynerAccountToken (se_account st') \<in> {LoadDynerAccountToken (se_account st)} \<union> range Inl))"
proof (cases "token_of r = [] \<or> map_of (se_logins st) (query_value r ''state'') = None")
  case True
  then show ?thesis using assms
    by (auto simp: login_callback_handler_def token_of_def consumeLoginState_def Let_def split: if_splits)
next
  case False
  then obtain issued where token: "token_of r \<noteq> []" and issued: "map_of (se_logins st) (query_value r ''state'') = Some issued" by auto
  let ?st1 = "st\<lparr>se_logins := AList.delete (query_value r ''state'') (se_logins st)\<rparr>"
  obtain st2 res where store: "storeAccountToken env (cf_DynerBaseURL (se_config ?st1)) (token_of r) ?st1 = (st2, res)"
    by (cases "storeAccountToken env (cf_DynerBaseURL (se_config ?st1)) (token_of r) ?st1")
  note effect = store_effect [OF store]
  show ?thesis
  proof (cases "sn_now env - issued \<le> settingsLoginStateTTL")
    case True
    then show ?thesis using assms store token issued effect
      by (cases res) (auto simp: login_callback_handler_def token_of_def consumeLoginState_def Let_def token_kept_def)
  qed (use assms token issued in \<open>auto simp: login_callback_handler_def token_of_def consumeLoginState_def Let_def token_kept_def\<close>)
qed

lemma key_of: "map_of xs k = Some v \<Longrightarrow> k \<in> fst ` set xs"
  by (metis map_of_SomeD fst_conv image_eqI)

lemma callback_cases:
  assumes "login_callback_handler env r st = (st', reply)"
  obtains (Ignored) "st' = st" "\<And>email. reply \<noteq> SignedIn email"
    | (Used) issued where "map_of (se_logins st) (query_value r ''state'') = Some issued"
        "se_logins st' = AList.delete (query_value r ''state'') (se_logins st)" "token_kept st st'"
  using callback_effect [OF assms] by blast

subsection \<open>The properties\<close>

text \<open>
  C31: No request changes the configuration, the pending sign-ins or the account unless it comes from a
  loopback address with a loopback Host, and its Origin is absent, opaque or the agent's own. Moreover it
  is then a POST of JSON that carries the token of the page (or no Origin at all: a program of the
  machine), or it is the GET of the callback with the state of a pending sign-in.
\<close>

theorem settings_change_for_the_page_only:
  assumes "settings_serve env r st = (st', reply)" "settings_core st' \<noteq> settings_core st"
  shows "local_request r \<and> page_origin r
    \<and> (wr_Method r = ''POST'' \<and> may_change (se_csrf st') r
       \<or> wr_Method r = ''GET'' \<and> wr_Path r = ''/api/settings/login/callback'' \<and> query_value r ''state'' \<in> fst ` set (se_logins st))"
proof -
  have post: "local_request r \<and> page_origin r \<and> wr_Method r = ''POST'' \<and> may_change (se_csrf st') r"
    if "passed env ''POST'' r st st1" "token_kept st1 st'" for st1
    using that guard_passed [of env r st st1] may_change_kept by (auto simp: passed_def)
  from assms(1) show ?thesis
  proof (cases rule: settings_serve_cases)
    case Asked
    then show ?thesis using assms(2) by (simp add: quiet_def)
  next
    case (Changed st1)
    then show ?thesis using post by (simp add: signed_def)
  next
    case (Started st1)
    then show ?thesis using post start_effect [OF Started(3)] by (auto simp: token_kept_def)
  next
    case (CalledBack st1)
    then have guard: "local_request r" "page_origin r" "wr_Method r = ''GET''" "settings_core st1 = settings_core st"
      using guard_passed [of env r st st1] guard_quiet [of env r st st1 None] by (auto simp: passed_def quiet_def)
    then have "st' \<noteq> st1" using assms(2) by auto
    then have "query_value r ''state'' \<in> fst ` set (se_logins st1)"
      using key_of by (cases rule: callback_cases [OF CalledBack(3)]) auto
    then show ?thesis using guard CalledBack(1) by (simp add: settings_core_def)
  qed
qed

text \<open>The requests the agent has served, the last one first, each with what the world was then.\<close>

type_synonym settings_event = "settings_env \<times> web_request \<times> web_reply"

inductive settings_run :: "settings_state \<Rightarrow> settings_event list \<Rightarrow> settings_state \<Rightarrow> bool" for start :: settings_state where
  none: "settings_run start [] start"
| served: "settings_run start events st \<Longrightarrow> settings_serve env r st = (st', reply) \<Longrightarrow>
    settings_run start ((env, r, reply) # events) st'"

inductive_cases settings_runE: "settings_run start (e # events) st"

text \<open>A sign-in the page or a program has started, which was given a state; and one that has ended.\<close>

definition started :: "string \<Rightarrow> string \<Rightarrow> settings_event \<Rightarrow> bool" where
  "started token state event \<longleftrightarrow>
     (case event of (env, r, reply) \<Rightarrow>
        wr_Path r = ''/api/settings/login/start'' \<and> wr_Method r = ''POST'' \<and> may_change token r
        \<and> sn_state env = Some state \<and> (\<exists>url. reply = LoginAt url))"

definition signed_in :: "string \<Rightarrow> settings_event \<Rightarrow> bool" where
  "signed_in state event \<longleftrightarrow>
     (case event of (env, r, reply) \<Rightarrow>
        wr_Path r = ''/api/settings/login/callback'' \<and> query_value r ''state'' = state \<and> (\<exists>email. reply = SignedIn email))"

lemma started_kept: "started (se_csrf st) s e \<Longrightarrow> token_kept st st' \<Longrightarrow> started (se_csrf st') s e"
  by (auto simp: started_def may_change_kept split: prod.splits)

text \<open>Pending sign-ins have been started, and no more have ended than were started.\<close>

definition logins_started :: "settings_event list \<Rightarrow> settings_state \<Rightarrow> bool" where
  "logins_started events st \<longleftrightarrow>
     (\<forall>(s, issued) \<in> set (se_logins st). \<exists>(env, r, reply) \<in> set events. started (se_csrf st) s (env, r, reply) \<and> sn_now env = issued)"

definition count_events :: "(settings_event \<Rightarrow> bool) \<Rightarrow> settings_event list \<Rightarrow> nat" where
  "count_events p events = length (filter p events)"

definition pending_count :: "settings_state \<Rightarrow> string \<Rightarrow> nat" where
  "pending_count st s = (if s \<in> fst ` set (se_logins st) then 1 else 0)"

definition sign_ins_started :: "settings_event list \<Rightarrow> settings_state \<Rightarrow> bool" where
  "sign_ins_started events st \<longleftrightarrow>
     (\<forall>s. count_events (signed_in s) events + pending_count st s \<le> count_events (started (se_csrf st) s) events)"

lemma count_mono: "(\<And>e. p e \<Longrightarrow> q e) \<Longrightarrow> count_events p events \<le> count_events q events"
  by (induction events) (auto simp: count_events_def)

lemma count_Cons: "count_events p (e # events) = (if p e then 1 else 0) + count_events p events"
  by (simp add: count_events_def)

lemma set_update_subset: "set (AList.update k v xs) \<subseteq> insert (k, v) (set xs)"
  by (induction xs) auto

lemma set_delete: "set (AList.delete k xs) = {x \<in> set xs. fst x \<noteq> k}"
  by (auto simp: AList.delete_eq)

text \<open>How one request moves the pending sign-ins.\<close>

lemma logins_step:
  assumes "settings_serve env r st = (st', reply)"
  obtains (Kept) "set (se_logins st') \<subseteq> set (se_logins st)" "token_kept st st'" "\<And>s. \<not> signed_in s (env, r, reply)"
    | (Issued) s where "set (se_logins st') \<subseteq> insert (s, sn_now env) (set (se_logins st))" "token_kept st st'"
        "started (se_csrf st') s (env, r, reply)" "\<And>s. \<not> signed_in s (env, r, reply)"
    | (Used) s where "s \<in> fst ` set (se_logins st)" "set (se_logins st') = {x \<in> set (se_logins st). fst x \<noteq> s}" "token_kept st st'"
        "\<And>s'. signed_in s' (env, r, reply) \<Longrightarrow> s' = s"
proof -
  have called: "\<exists>st1. passed env ''GET'' r st st1 \<and> login_callback_handler env r st1 = (st', reply)" if "signed_in s (env, r, reply)" for s
  proof -
    have "handleSettingsLoginCallback env r st = (st', reply)" "\<exists>email. reply = SignedIn email"
      using that assms by (auto simp: signed_in_def settings_serve_def Let_def)
    then show ?thesis
      unfolding handleSettingsLoginCallback_def settings_handler_def passed_def requireSettingsLoopback_def guardSettingsRequest_def Let_def
      by (auto split: prod.splits option.splits if_splits)
  qed
  have used: thesis if "passed env ''GET'' r st st1" "login_callback_handler env r st1 = (st', reply)" for st1
  proof -
    have "quiet st st1" using that(1) guard_quiet by (auto simp: passed_def)
    then have same: "token_kept st st1" "se_logins st1 = se_logins st" by (simp_all add: quiet_def settings_core_def)
    from that(2) show thesis
    proof (cases rule: callback_cases)
      case Ignored
      then show thesis using same Kept by (auto simp: signed_in_def)
    next
      case used: (Used issued)
      show thesis
        using used same key_of [OF used(1)] token_kept_trans [OF same(1) used(3)]
        by (intro Used [of "query_value r ''state''"]) (auto simp: set_delete signed_in_def)
    qed
  qed
  have silent: thesis if "se_logins st' = se_logins st" "token_kept st st'"
  proof (cases "\<exists>s. signed_in s (env, r, reply)")
    case True
    then show thesis using called used by blast
  next
    case False
    then show thesis using that Kept by auto
  qed
  from assms show thesis
  proof (cases rule: settings_serve_cases)
    case Asked
    then show thesis using silent by (simp add: quiet_def settings_core_def)
  next
    case (Changed st1)
    then have "quiet st st1" using guard_quiet by (auto simp: passed_def)
    then show thesis using silent Changed token_kept_trans by (auto simp: quiet_def settings_core_def signed_def)
  next
    case (Started st1)
    then have q: "quiet st st1" and may: "may_change (se_csrf st1) r" "wr_Method r = ''POST''"
      using guard_quiet guard_passed(3) by (auto simp: passed_def)
    from start_effect [OF Started(3)] show thesis
    proof
      assume "st' = st1"
      then show thesis using silent q by (simp add: quiet_def settings_core_def)
    next
      assume "\<exists>s url. sn_state env = Some s \<and> reply = LoginAt url \<and>
        st' = st1\<lparr>se_logins := AList.update s (sn_now env) (filter (\<lambda>(_, issued). \<not> sn_now env - issued > settingsLoginStateTTL) (se_logins st1))\<rparr>"
      then obtain s url where new: "sn_state env = Some s" "reply = LoginAt url"
        "st' = st1\<lparr>se_logins := AList.update s (sn_now env) (filter (\<lambda>(_, issued). \<not> sn_now env - issued > settingsLoginStateTTL) (se_logins st1))\<rparr>"
        by blast
      then have "set (se_logins st') \<subseteq> insert (s, sn_now env) (set (se_logins st))"
        using set_update_subset q by (force simp: quiet_def settings_core_def)
      moreover have "token_kept st st'" using q new(3) by (auto simp: quiet_def token_kept_def)
      moreover have "started (se_csrf st') s (env, r, reply)" using new may Started(1) by (simp add: started_def)
      ultimately show thesis using Issued [of s] new(2) by (auto simp: signed_in_def)
    qed
  next
    case (CalledBack st1)
    then show thesis using used by blast
  qed
qed

lemma run_logins_started: "settings_run start events st \<Longrightarrow> se_logins start = [] \<Longrightarrow> logins_started events st"
proof (induction rule: settings_run.induct)
  case none
  then show ?case by (simp add: logins_started_def)
next
  case (served events st env r st' reply)
  have kept: "\<exists>(env, r, reply) \<in> set events. started (se_csrf st') s (env, r, reply) \<and> sn_now env = issued"
    if "(s, issued) \<in> set (se_logins st)" "token_kept st st'" for s issued
    using served that started_kept unfolding logins_started_def by fast
  from served(2) show ?case
  proof (cases rule: logins_step)
    case Kept
    then show ?thesis using kept by (fastforce simp: logins_started_def)
  next
    case (Issued s)
    then show ?thesis using kept by (fastforce simp: logins_started_def)
  next
    case (Used s)
    then show ?thesis using kept by (fastforce simp: logins_started_def)
  qed
qed

lemma run_sign_ins_started: "settings_run start events st \<Longrightarrow> se_logins start = [] \<Longrightarrow> sign_ins_started events st"
proof (induction rule: settings_run.induct)
  case none
  then show ?case by (simp add: sign_ins_started_def pending_count_def count_events_def)
next
  case (served events st env r st' reply)
  have before: "count_events (signed_in s) events + pending_count st s \<le> count_events (started (se_csrf st') s) events"
    if "token_kept st st'" for s
    using served count_mono [of "started (se_csrf st) s" "started (se_csrf st') s" events] started_kept that
    by (fastforce simp: sign_ins_started_def intro: order_trans)
  have "count_events (signed_in s) ((env, r, reply) # events) + pending_count st' s
      \<le> count_events (started (se_csrf st') s) ((env, r, reply) # events)" for s
    using served(2)
  proof (cases rule: logins_step)
    case Kept
    then have "pending_count st' s \<le> pending_count st s" by (auto simp: pending_count_def)
    then show ?thesis using before [OF Kept(2), of s] Kept(3) by (simp add: count_Cons)
  next
    case (Issued new)
    then have "pending_count st' s \<le> pending_count st s + (if s = new then 1 else 0)" by (auto simp: pending_count_def)
    then show ?thesis using before [OF Issued(2), of s] Issued(3,4) by (auto simp: count_Cons split: if_splits)
  next
    case (Used old)
    have "pending_count st' s + (if signed_in s (env, r, reply) then 1 else 0) \<le> pending_count st s"
      using Used(1,2) Used(4) [of s] by (auto simp: pending_count_def)
    then show ?thesis using before [OF Used(3), of s] by (simp add: count_Cons)
  qed
  then show ?case by (simp add: sign_ins_started_def)
qed

text \<open>
  C32: The account changes only by a sign-in somebody entitled to has begun: whatever requests the agent has
  served since its start, if one more changes the account's token, in memory or in the file, then it is a
  local request to the callback whose state was handed out by an earlier POST of the page or of a program of
  the machine, no more than ten minutes ago; the new token is the one Dyner has just confirmed with an email,
  and its state cannot be used again.
\<close>

theorem account_changes_by_sign_ins:
  assumes "settings_run start events st" "se_logins start = []" "settings_serve env r st = (st', reply)"
    and "ls_Token (se_listener st') \<noteq> ls_Token (se_listener st)
      \<or> LoadDynerAccountToken (se_account st') = Inr t \<and> LoadDynerAccountToken (se_account st) \<noteq> Inr t"
  shows "wr_Path r = ''/api/settings/login/callback'' \<and> wr_Method r = ''GET'' \<and> local_request r \<and> page_origin r
    \<and> (\<exists>(env0, r0, reply0) \<in> set events. started (se_csrf st) (query_value r ''state'') (env0, r0, reply0)
         \<and> sn_now env - sn_now env0 \<le> settingsLoginStateTTL)
    \<and> (\<exists>email. reply = SignedIn email \<and> se_account st' = Account (token_of r) email \<and> ls_Token (se_listener st') = token_of r
         \<and> confirmed env (token_of r) email (ls_Sent (se_listener st')))
    \<and> query_value r ''state'' \<notin> fst ` set (se_logins st')"
proof -
  have same: ?thesis if "ls_Token (se_listener st') = ls_Token (se_listener st)"
      "LoadDynerAccountToken (se_account st') \<in> {LoadDynerAccountToken (se_account st)} \<union> range Inl"
  proof -
    have "LoadDynerAccountToken (se_account st') = LoadDynerAccountToken (se_account st) \<or> LoadDynerAccountToken (se_account st') \<noteq> Inr t"
      using that(2) by (elim UnE imageE) simp_all
    then have False using that(1) assms(4) by (elim disjE conjE) simp_all
    then show ?thesis ..
  qed
  have unchanged: ?thesis if "signed st st'"
    using that by (intro same) (simp_all add: signed_def)
  from assms(3) show ?thesis
  proof (cases rule: settings_serve_cases)
    case Asked
    then show ?thesis by (intro unchanged quiet_signed)
  next
    case (Changed st1)
    then have "quiet st st1" using guard_quiet by (auto simp: passed_def)
    then show ?thesis using Changed(2) by (intro unchanged) (rule signed_trans [OF quiet_signed])
  next
    case (Started st1)
    then have q: "signed st st1" using guard_quiet quiet_signed by (auto simp: passed_def)
    show ?thesis by (rule same) (use start_effect [OF Started(3)] q in \<open>auto simp: signed_def\<close>)
  next
    case (CalledBack st1)
    then have guard: "local_request r" "page_origin r" "wr_Method r = ''GET''" and q: "signed st st1"
      using guard_passed guard_quiet quiet_signed by (auto simp: passed_def)
    show ?thesis
    proof (cases "\<forall>email. reply \<noteq> SignedIn email")
      case True
      then show ?thesis using callback_effect [OF CalledBack(3)] q by (intro same) (auto simp: signed_def)
    next
      case False
      then obtain issued email where issued: "map_of (se_logins st) (query_value r ''state'') = Some issued"
      and effect: "se_logins st' = AList.delete (query_value r ''state'') (se_logins st1)" "sn_now env - issued \<le> settingsLoginStateTTL"
        "reply = SignedIn email" "ls_Token (se_listener st') = token_of r" "se_account st' = Account (token_of r) email"
        "confirmed env (token_of r) email (ls_Sent (se_listener st'))"
      using callback_effect [OF CalledBack(3)] q by (auto simp: signed_def)
    have "\<exists>(env0, r0, reply0) \<in> set events. started (se_csrf st) (query_value r ''state'') (env0, r0, reply0) \<and> sn_now env0 = issued"
      using run_logins_started [OF assms(1,2)] map_of_SomeD [OF issued] unfolding logins_started_def by fast
    then show ?thesis using guard effect CalledBack(1) by (auto simp: set_delete)
    qed
  qed
qed

text \<open>
  Every sign-in has a start of its own: however requests come in, no more sign-ins with a state have
  succeeded than POSTs of the page or of a program were given that state, so a callback that is replayed, or one
  that a foreign page makes up, signs nobody in.
\<close>

theorem sign_ins_are_used_once:
  assumes "settings_run start events st" "se_logins start = []"
  shows "count_events (signed_in s) events \<le> count_events (started (se_csrf st) s) events"
  using run_sign_ins_started [OF assms] unfolding sign_ins_started_def by (meson add_leD1)

subsection \<open>Examples\<close>

definition sample_me :: any where
  "sample_me = ObjV [(''user'', ObjV [(''email'', StrV ''a@b'')])]"

definition sample_settings_env :: settings_env where
  "sample_settings_env = \<lparr>sn_listener = sample_listener_env\<lparr>le_service := \<lambda>_ _. Inr (200, Some sample_me)\<rparr>, sn_now = 5,
     sn_random = Some ''rnd'', sn_state = Some ''s1'', sn_account_fault = None, sn_content = (\<lambda>_. None),
     sn_fetch = (\<lambda>_. Inl ''no''), sn_ui_origin = []\<rparr>"

definition sample_settings :: settings_state where
  "sample_settings = \<lparr>se_listener = sample_listener\<lparr>ls_Token := []\<rparr>, se_csrf = [], se_logins = [], se_account = NoAccount,
     se_assets = [], se_origin = []\<rparr>"

definition sample_start_request :: web_request where
  "sample_start_request = \<lparr>wr_Method = ''POST'', wr_Path = ''/api/settings/login/start'', wr_Host = ''127.0.0.1:9011'',
     wr_Remote = ''127.0.0.1:5000'', wr_Origin = [], wr_MediaType = ''application/json'', wr_Csrf = [], wr_Query = [],
     wr_RawQuery = [], wr_Body = NoBody\<rparr>"

definition sample_callback_request :: web_request where
  "sample_callback_request = sample_start_request\<lparr>wr_Method := ''GET'', wr_Path := ''/api/settings/login/callback'',
     wr_MediaType := [], wr_Query := [(''state'', ''s1''), (''token'', ''t'')]\<rparr>"

definition sample_started :: "settings_state \<times> web_reply" where
  "sample_started = settings_serve sample_settings_env sample_start_request sample_settings"

definition sample_ended :: "settings_state \<times> web_reply" where
  "sample_ended = settings_serve sample_settings_env sample_callback_request (fst sample_started)"

lemma sample_guard: "loopbackRequest sample_start_request" "loopbackHostHeader (wr_Host sample_start_request)" "loopbackRequest sample_callback_request"
  by code_simp+

lemma sample_request [simp]:
  "wr_Method sample_start_request = ''POST''" "wr_Path sample_start_request = ''/api/settings/login/start''"
  "wr_Origin sample_start_request = []" "wr_MediaType sample_start_request = ''application/json''"
  "wr_Method sample_callback_request = ''GET''" "wr_Path sample_callback_request = ''/api/settings/login/callback''"
  "wr_Origin sample_callback_request = []" "wr_Host sample_callback_request = wr_Host sample_start_request"
  "wr_Remote sample_callback_request = wr_Remote sample_start_request"
  "query_value sample_callback_request ''state'' = ''s1''" "query_value sample_callback_request ''token'' = ''t''"
  by (simp_all add: sample_start_request_def sample_callback_request_def query_value_def)

lemma sample_state [simp]:
  "se_logins sample_settings = []" "ls_Token (se_listener sample_settings) = []" "cf_DynerBaseURL (se_config sample_settings) = ''https://d''"
  "sn_state sample_settings_env = Some ''s1''" "sn_now sample_settings_env = 5"
  by (simp_all add: sample_settings_def sample_settings_env_def sample_listener_def listener_sample_config_def se_config_def)

lemma sample_passed:
  "requireSettingsLoopback env sample_start_request st = (st, None)" "requireSettingsLoopback env sample_callback_request st = (st, None)"
  using sample_guard by (simp_all add: requireSettingsLoopback_def guardSettingsRequest_def)

lemma sample_started_parts:
  "se_logins (fst sample_started) = [(''s1'', 5)] \<and> ls_Token (se_listener (fst sample_started)) = []
   \<and> cf_DynerBaseURL (se_config (fst sample_started)) = ''https://d''"
proof -
  have "se_config (sample_settings\<lparr>se_logins := x\<rparr>) = se_config sample_settings" for x by (simp add: se_config_def)
  then show ?thesis
    by (simp add: sample_started_def settings_serve_def handleSettingsLoginStart_def settings_handler_def login_start_def sample_passed)
qed

lemma sample_email: "account_email 200 (Some sample_me) = Inr ''a@b''"
  by code_simp

lemma sample_me_url: "case dynerAPIURL ''https://d'' ''/api/v1/me'' of Inl e \<Rightarrow> False | Inr url \<Rightarrow> wire_parse url \<noteq> None"
  by code_simp

lemma sample_ended_parts: "ls_Token (se_listener (fst sample_ended)) = ''t'' \<and> snd sample_ended = SignedIn ''a@b''"
proof -
  obtain url u where url: "dynerAPIURL ''https://d'' ''/api/v1/me'' = Inr url" "wire_parse url = Some u"
    using sample_me_url by (auto split: sum.splits)
  have "storeAccountToken sample_settings_env ''https://d'' ''t'' st =
    (let st1 = st\<lparr>se_listener := (se_listener st)\<lparr>ls_Sent := ls_Sent (se_listener st) @ [\<lparr>dr_Method = ''GET'', dr_URL = url, dr_Bearer = ''t'', dr_Body = None\<rparr>]\<rparr>\<rparr>
     in (st1\<lparr>se_account := Account ''t'' ''a@b'', se_listener := (se_listener st1)\<lparr>ls_Token := ''t''\<rparr>\<rparr>, Inr ''a@b''))" for st
    using url sample_email
    by (simp add: storeAccountToken_def on_sent_def on_listener_def dynerJSON_def Let_def sample_settings_env_def)
  moreover have "se_config (st\<lparr>se_logins := x\<rparr>) = se_config st" for st x by (simp add: se_config_def)
  moreover have "trim_space ''t'' = ''t''" by code_simp
  ultimately show ?thesis using sample_started_parts
    by (simp add: sample_ended_def settings_serve_def handleSettingsLoginCallback_def settings_handler_def login_callback_handler_def
        consumeLoginState_def settingsLoginStateTTL_def sample_passed Let_def)
qed

lemma sample_run: "settings_run sample_settings [(sample_settings_env, sample_start_request, snd sample_started)] (fst sample_started)"
  by (rule settings_run.served [OF settings_run.none]) (simp add: sample_started_def)

lemma sample_run2:
  "settings_run sample_settings [(sample_settings_env, sample_callback_request, snd sample_ended),
     (sample_settings_env, sample_start_request, snd sample_started)] (fst sample_ended)"
  by (rule settings_run.served [OF sample_run]) (simp add: sample_ended_def)

lemma settings_change_for_the_page_only_witness:
  "local_request sample_start_request \<and> page_origin sample_start_request
    \<and> (wr_Method sample_start_request = ''POST'' \<and> may_change (se_csrf (fst sample_started)) sample_start_request
       \<or> wr_Method sample_start_request = ''GET'' \<and> wr_Path sample_start_request = ''/api/settings/login/callback''
         \<and> query_value sample_start_request ''state'' \<in> fst ` set (se_logins sample_settings))"
proof (rule settings_change_for_the_page_only)
  show "settings_serve sample_settings_env sample_start_request sample_settings = (fst sample_started, snd sample_started)"
    by (simp add: sample_started_def)
  show "settings_core (fst sample_started) \<noteq> settings_core sample_settings"
    using sample_started_parts by (auto simp: settings_core_def)
qed

lemma account_changes_by_sign_ins_witness:
  "wr_Path sample_callback_request = ''/api/settings/login/callback''
    \<and> confirmed sample_settings_env ''t'' ''a@b'' (ls_Sent (se_listener (fst sample_ended)))"
proof -
  have serve: "settings_serve sample_settings_env sample_callback_request (fst sample_started) = (fst sample_ended, snd sample_ended)"
    by (simp add: sample_ended_def)
  have "token_of sample_callback_request = ''t''" by code_simp
  then show ?thesis
    using account_changes_by_sign_ins [OF sample_run sample_state(1) serve] sample_started_parts sample_ended_parts by auto
qed

lemma sign_ins_are_used_once_witness:
  "count_events (signed_in ''s1'') [(sample_settings_env, sample_callback_request, snd sample_ended),
     (sample_settings_env, sample_start_request, snd sample_started)]
   \<le> count_events (started (se_csrf (fst sample_ended)) ''s1'') [(sample_settings_env, sample_callback_request, snd sample_ended),
     (sample_settings_env, sample_start_request, snd sample_started)]"
  by (rule sign_ins_are_used_once [OF sample_run2]) simp

text \<open>After a sign-in the agent starts with the same token.\<close>

lemma sign_in_survives_a_restart:
  assumes "login_callback_handler env r st = (st', SignedIn email)"
  shows "ResolveAccountToken explicit environment (se_account st') =
    Inr (if trim_space explicit \<noteq> [] then trim_space explicit
         else if trim_space environment \<noteq> [] then trim_space environment else ls_Token (se_listener st'))"
  using callback_effect [OF assms]
  by (auto simp: ResolveAccountToken_def LoadDynerAccountToken_def token_of_def)

text \<open>The names of the files of the page have no separators and no leading dot.\<close>

lemma asset_names_stay_in_their_directory:
  "settingsAssetName name \<Longrightarrow> CHR ''/'' \<notin> set name \<and> CHR 0x5C \<notin> set name \<and> \<not> has_prefix name ''.''"
proof -
  assume "settingsAssetName name"
  then obtain ext where ext: "ext \<in> {''.js'', ''.css''}" "has_suffix name ext" "trim_suffix name ext \<noteq> []"
    and stem: "list_all (\<lambda>c. is_alnum c \<or> c = CHR ''_'' \<or> c = CHR ''-'') (trim_suffix name ext)"
    by (auto simp: settingsAssetName_def)
  have name: "name = trim_suffix name ext @ ext"
    using ext(2) append_take_drop_id [of "length name - length ext" name] by (simp add: trim_suffix_def has_suffix_def)
  obtain c cs where stem2: "trim_suffix name ext = c # cs" using ext(3) by (cases "trim_suffix name ext") auto
  have bad: "\<not> is_alnum (CHR ''/'')" "\<not> is_alnum (CHR 0x5C)" "\<not> is_alnum (CHR ''.'')" by code_simp+
  have "name = c # cs @ ext" using name stem2 by simp
  moreover have "CHR ''/'' \<notin> set (c # cs)" "CHR 0x5C \<notin> set (c # cs)" "c \<noteq> CHR ''.''"
    using stem bad unfolding stem2 by (auto simp: list_all_iff)
  ultimately show ?thesis using ext(1) by (auto simp: has_prefix_def)
qed

end
