(* ===== verification/Device_Sync.thy ===== *)
theory Device_Sync
  imports Listener Relay
begin

text \<open>
  The agent as a device of Dyner (\<open>shellagent/dyner.go\<close>, the sync loop of \<open>agent.go\<close>, \<open>runRelay\<close> of \<open>relay.go\<close> and the
  sessions of \<open>ice.go\<close>): tickets for the relay, the periodic synchronisation of identities, when the relay
  runs, and which ICE sessions are answered. Dyner's answers, the clock and faults of the disk are parameters;
  a peer connection is the goroutine that answers it, and a context is a number that may be cancelled.
\<close>

subsection \<open>What Dyner sends\<close>

definition decode_list :: "'a decoder \<Rightarrow> 'a \<Rightarrow> 'a list decoder" where
  "decode_list dec zero v old = (case v of ArrV xs \<Rightarrow> collect (map (\<lambda>x. dec x zero) xs) | NilV \<Rightarrow> Inr [] | _ \<Rightarrow> Inl json_mismatch)"

text \<open>Integers are written without fraction or exponent.\<close>

definition decode_int64 :: "int decoder" where
  "decode_int64 v old =
     (case v of
        NumV r \<Rightarrow> if of_int (floor r) = r \<and> - (2 ^ 63) \<le> floor r \<and> floor r < 2 ^ 63 then Inr (floor r) else Inl json_mismatch
      | NilV \<Rightarrow> Inr old
      | _ \<Rightarrow> Inl json_mismatch)"

fun decode_lists :: "obj \<Rightarrow> connect_map \<Rightarrow> string + connect_map" where
  "decode_lists [] old = Inr old"
| "decode_lists ((k, v) # m) old =
     (case decode_strings v [] of Inl e \<Rightarrow> Inl e | Inr xs \<Rightarrow> decode_lists m (AList.update k xs old))"

definition decode_connect :: "connect_map decoder" where
  "decode_connect v old = (case v of ObjV m \<Rightarrow> decode_lists m old | NilV \<Rightarrow> Inr [] | _ \<Rightarrow> Inl json_mismatch)"

definition jwk_field :: "string \<Rightarrow> any \<Rightarrow> browserIdentity \<Rightarrow> string + browserIdentity" where
  "jwk_field k v i =
     (if k = ''kty'' then map_sum id (\<lambda>x. i\<lparr>bi_KTY := x\<rparr>) (decode_string v (bi_KTY i))
      else if k = ''crv'' then map_sum id (\<lambda>x. i\<lparr>bi_CRV := x\<rparr>) (decode_string v (bi_CRV i))
      else if k = ''x'' then map_sum id (\<lambda>x. i\<lparr>bi_X := x\<rparr>) (decode_string v (bi_X i))
      else if k = ''y'' then map_sum id (\<lambda>x. i\<lparr>bi_Y := x\<rparr>) (decode_string v (bi_Y i))
      else Inr i)"

definition client_field :: "string \<Rightarrow> any \<Rightarrow> browserClient \<Rightarrow> string + browserClient" where
  "client_field k v c =
     (if k = ''browser'' then map_sum id (\<lambda>x. c\<lparr>bc_Browser := x\<rparr>) (decode_string v (bc_Browser c))
      else if k = ''version'' then map_sum id (\<lambda>x. c\<lparr>bc_Version := x\<rparr>) (decode_string v (bc_Version c))
      else if k = ''platform'' then map_sum id (\<lambda>x. c\<lparr>bc_Platform := x\<rparr>) (decode_string v (bc_Platform c))
      else if k = ''mobile'' then map_sum id (\<lambda>x. c\<lparr>bc_Mobile := x\<rparr>) (decode_bool v (bc_Mobile c))
      else if k = ''mode'' then map_sum id (\<lambda>x. c\<lparr>bc_Mode := x\<rparr>) (decode_string v (bc_Mode c))
      else if k = ''label'' then map_sum id (\<lambda>x. c\<lparr>bc_Label := x\<rparr>) (decode_string v (bc_Label c))
      else Inr c)"

definition identity_field :: "string \<Rightarrow> any \<Rightarrow> browserIdentity \<Rightarrow> string + browserIdentity" where
  "identity_field k v i =
     (if k = ''keyid'' then map_sum id (\<lambda>x. i\<lparr>bi_KeyID := x\<rparr>) (decode_string v (bi_KeyID i))
      else if k = ''publickeyjwk'' then decode_struct jwk_field v i
      else if k = ''origin'' then map_sum id (\<lambda>x. i\<lparr>bi_Origin := x\<rparr>) (decode_string v (bi_Origin i))
      else if k = ''capabilities'' then map_sum id (\<lambda>x. i\<lparr>bi_Capabilities := x\<rparr>) (decode_strings v (bi_Capabilities i))
      else if k = ''storeid'' then map_sum id (\<lambda>x. i\<lparr>bi_StoreID := x\<rparr>) (decode_string v (bi_StoreID i))
      else if k = ''connect'' then map_sum id (\<lambda>x. i\<lparr>bi_Connect := x\<rparr>) (decode_connect v (bi_Connect i))
      else if k = ''approvedat'' then map_sum id (\<lambda>x. i\<lparr>bi_ApprovedAt := x\<rparr>) (decode_int64 v (bi_ApprovedAt i))
      else if k = ''declared'' then map_sum id (\<lambda>x. i\<lparr>bi_Declared := x\<rparr>) (decode_strings v (bi_Declared i))
      else if k = ''authority'' then map_sum id (\<lambda>x. i\<lparr>bi_Authority := x\<rparr>) (decode_bool v (bi_Authority i))
      else if k = ''client'' then map_sum id (\<lambda>x. i\<lparr>bi_Client := x\<rparr>) (decode_struct client_field v (bi_Client i))
      else Inr i)"

definition blank_identity :: browserIdentity where
  "blank_identity =
     \<lparr>bi_KeyID = [], bi_KTY = [], bi_CRV = [], bi_X = [], bi_Y = [], bi_Origin = [], bi_Capabilities = [], bi_StoreID = [],
      bi_Connect = [], bi_ApprovedAt = 0, bi_Declared = [], bi_Authority = False, bi_Client = empty_client\<rparr>"

definition decode_identities :: "browserIdentity list decoder" where
  "decode_identities = decode_list (decode_struct identity_field) blank_identity"

record relayConnection =
  rc_Carrier :: string
  rc_Endpoint :: string
  rc_Ticket :: string
  rc_Protocol :: int
  rc_Hashes :: "string list"
  rc_Identities :: "browserIdentity list"
  rc_Kind :: string
  rc_E2EE :: bool
  rc_Enabled :: "bool option"

definition no_connection :: relayConnection where
  "no_connection = \<lparr>rc_Carrier = [], rc_Endpoint = [], rc_Ticket = [], rc_Protocol = 0, rc_Hashes = [], rc_Identities = [],
     rc_Kind = [], rc_E2EE = False, rc_Enabled = None\<rparr>"

definition transport_field :: "string \<Rightarrow> any \<Rightarrow> relayConnection \<Rightarrow> string + relayConnection" where
  "transport_field k v c =
     (if k = ''kind'' then map_sum id (\<lambda>x. c\<lparr>rc_Kind := x\<rparr>) (decode_string v (rc_Kind c))
      else if k = ''e2eencryption'' then map_sum id (\<lambda>x. c\<lparr>rc_E2EE := x\<rparr>) (decode_bool v (rc_E2EE c))
      else if k = ''shellenabled'' then map_sum id (\<lambda>x. c\<lparr>rc_Enabled := x\<rparr>) (decode_bool_pointer v (rc_Enabled c))
      else Inr c)"

definition connection_field :: "string \<Rightarrow> any \<Rightarrow> relayConnection \<Rightarrow> string + relayConnection" where
  "connection_field k v c =
     (if k = ''carrier'' then map_sum id (\<lambda>x. c\<lparr>rc_Carrier := x\<rparr>) (decode_string v (rc_Carrier c))
      else if k = ''endpoint'' then map_sum id (\<lambda>x. c\<lparr>rc_Endpoint := x\<rparr>) (decode_string v (rc_Endpoint c))
      else if k = ''ticket'' then map_sum id (\<lambda>x. c\<lparr>rc_Ticket := x\<rparr>) (decode_string v (rc_Ticket c))
      else if k = ''ticketexpiresat'' then map_sum id (\<lambda>_. c) (decode_string v [])
      else if k = ''protocol'' then map_sum id (\<lambda>x. c\<lparr>rc_Protocol := x\<rparr>) (decode_int64 v (rc_Protocol c))
      else if k = ''acceptedauthtokenhashes'' then map_sum id (\<lambda>x. c\<lparr>rc_Hashes := x\<rparr>) (decode_strings v (rc_Hashes c))
      else if k = ''browseridentities'' then map_sum id (\<lambda>x. c\<lparr>rc_Identities := x\<rparr>) (decode_identities v (rc_Identities c))
      else if k = ''transport'' then decode_struct transport_field v c
      else Inr c)"

definition ticket_field :: "string \<Rightarrow> any \<Rightarrow> relayConnection \<Rightarrow> string + relayConnection" where
  "ticket_field k v c = (if k = ''connection'' then decode_struct connection_field v c else Inr c)"

definition dynerRelayProtocolVersion :: int where
  "dynerRelayProtocolVersion = 1"

definition validate_connection :: "relayConnection \<Rightarrow> string + unit" where
  "validate_connection c =
     (if rc_Carrier c \<noteq> ''websocket'' \<or> rc_Protocol c \<noteq> dynerRelayProtocolVersion \<or> rc_Ticket c = []
      then Inl ''Dyner returned an invalid relay connection''
      else (case url_parse (rc_Endpoint c) of
              None \<Rightarrow> Inl ''Dyner returned an invalid relay endpoint''
            | Some endpoint \<Rightarrow>
                if u_Host endpoint = [] \<or> (u_Scheme endpoint \<noteq> ''wss'' \<and> u_Scheme endpoint \<noteq> ''ws'')
                then Inl ''Dyner returned an invalid relay endpoint'' else Inr ()))"

record ice_session =
  is_ID :: string
  is_Offer :: "(string \<times> string) option" \<comment> \<open>type and text\<close>
  is_Answer :: "(string \<times> string) option"
  is_Candidates :: "any list"
  is_Expires :: string

definition description_field :: "string \<Rightarrow> any \<Rightarrow> string \<times> string \<Rightarrow> string + string \<times> string" where
  "description_field k v d =
     (if k = ''type'' then map_sum id (\<lambda>x. (x, snd d)) (decode_string v (fst d))
      else if k = ''sdp'' then map_sum id (\<lambda>x. (fst d, x)) (decode_string v (snd d))
      else Inr d)"

definition decode_description :: "(string \<times> string) option decoder" where
  "decode_description v old =
     (if v = NilV then Inr None
      else map_sum id Some (decode_struct description_field v (case old of None \<Rightarrow> ([], []) | Some d \<Rightarrow> d)))"

definition session_field :: "string \<Rightarrow> any \<Rightarrow> ice_session \<Rightarrow> string + ice_session" where
  "session_field k v s =
     (if k = ''id'' then map_sum id (\<lambda>x. s\<lparr>is_ID := x\<rparr>) (decode_string v (is_ID s))
      else if k = ''offer'' then map_sum id (\<lambda>x. s\<lparr>is_Offer := x\<rparr>) (decode_description v (is_Offer s))
      else if k = ''answer'' then map_sum id (\<lambda>x. s\<lparr>is_Answer := x\<rparr>) (decode_description v (is_Answer s))
      else if k = ''browsercandidates'' then map_sum id (\<lambda>x. s\<lparr>is_Candidates := x\<rparr>) (decode_list (\<lambda>x _. Inr x) NilV v (is_Candidates s))
      else if k = ''expiresat'' then map_sum id (\<lambda>x. s\<lparr>is_Expires := x\<rparr>) (decode_string v (is_Expires s))
      else Inr s)"

definition no_session :: ice_session where
  "no_session = \<lparr>is_ID = [], is_Offer = None, is_Answer = None, is_Candidates = [], is_Expires = []\<rparr>"

record remoteEnvironmentState =
  es_Identities :: "browserIdentity list"
  es_Sessions :: "ice_session list"
  es_RelayRequested :: bool

definition state_field :: "string \<Rightarrow> any \<Rightarrow> remoteEnvironmentState \<Rightarrow> string + remoteEnvironmentState" where
  "state_field k v s =
     (if k = ''browseridentities'' then map_sum id (\<lambda>x. s\<lparr>es_Identities := x\<rparr>) (decode_identities v (es_Identities s))
      else if k = ''pendingicesessions''
      then map_sum id (\<lambda>x. s\<lparr>es_Sessions := x\<rparr>) (decode_list (decode_struct session_field) no_session v (es_Sessions s))
      else if k = ''relayrequested'' then map_sum id (\<lambda>x. s\<lparr>es_RelayRequested := x\<rparr>) (decode_bool v (es_RelayRequested s))
      else Inr s)"

definition no_state :: remoteEnvironmentState where
  "no_state = \<lparr>es_Identities = [], es_Sessions = [], es_RelayRequested = False\<rparr>"

subsection \<open>The device's requests\<close>

record device_request =
  dq_Method :: string
  dq_URL :: string
  dq_Credential :: string
  dq_Body :: "any option"

type_synonym device_service = "device_request list \<Rightarrow> device_request \<Rightarrow> string + int \<times> any option"

text \<open>The address of something under the device's own record; the query of the base stays.\<close>

definition device_url :: "config \<Rightarrow> string \<Rightarrow> string option" where
  "device_url c what =
     (case wire_parse (cf_DynerBaseURL c) of
        None \<Rightarrow> None
      | Some base \<Rightarrow>
          Some (url_text (base\<lparr>w_url := (w_url base)\<lparr>u_Path :=
            trim_right_slash (u_Path (w_url base)) @ environments_path @ ''/'' @ path_escape (cf_EnvironmentID c) @ what\<rparr>\<rparr>)))"

definition iceURL :: "config \<Rightarrow> string \<Rightarrow> string option" where
  "iceURL c what = device_url c (''/ice/sessions'' @ what)"

definition device_send ::
  "device_service \<Rightarrow> config \<Rightarrow> string \<Rightarrow> string option \<Rightarrow> any option \<Rightarrow> device_request list \<Rightarrow>
   device_request list \<times> (string + int \<times> any option)" where
  "device_send service c verb address body sent =
     (case Option.bind address (\<lambda>a. if wire_parse a = None then None else Some a) of
        None \<Rightarrow> (sent, Inl ''parse error'')
      | Some a \<Rightarrow>
          (let request = \<lparr>dq_Method = verb, dq_URL = a, dq_Credential = cf_DeviceCredential c, dq_Body = body\<rparr>
           in (sent @ [request], service sent request)))"

definition decode_answer :: "(string \<Rightarrow> any \<Rightarrow> 'a \<Rightarrow> string + 'a) \<Rightarrow> 'a \<Rightarrow> any option \<Rightarrow> string + 'a" where
  "decode_answer field zero data = (case data of None \<Rightarrow> Inl ''invalid JSON'' | Some v \<Rightarrow> decode_struct field v zero)"

definition IssueRelayTicket ::
  "(string \<Rightarrow> string) \<Rightarrow> device_service \<Rightarrow> config \<Rightarrow> device_request list \<Rightarrow> device_request list \<times> (string + relayConnection)" where
  "IssueRelayTicket key_hash service c sent =
     (case validate_config key_hash c of
        Inl e \<Rightarrow> (sent, Inl e)
      | Inr _ \<Rightarrow>
          if \<not> cf_RelayEnabled c then (sent, Inl ''relay is disabled in local agent configuration'')
          else (case device_send service c ''POST'' (device_url c ''/ticket'') (Some (ObjV [])) sent of
                  (sent', Inl e) \<Rightarrow> (sent', Inl e)
                | (sent', Inr (status, data)) \<Rightarrow>
                    (sent',
                     if \<not> ok_status status then Inl (''Dyner device ticket failed: HTTP '' @ fmt_uint 10 (nat status))
                     else (case decode_answer ticket_field no_connection data of
                             Inl e \<Rightarrow> Inl e
                           | Inr connection \<Rightarrow> map_sum id (\<lambda>_. connection) (validate_connection connection)))))"

text \<open>Two kinds of failure: \<open>dynerHTTPError\<close> with its status, and the others.\<close>

datatype sync_failure = SyncStatus int | SyncFailed string

definition SyncRemoteEnvironmentState ::
  "(string \<Rightarrow> string) \<Rightarrow> device_service \<Rightarrow> config \<Rightarrow> device_request list \<Rightarrow>
   device_request list \<times> (sync_failure + remoteEnvironmentState)" where
  "SyncRemoteEnvironmentState key_hash service c sent =
     (case validate_config key_hash c of
        Inl e \<Rightarrow> (sent, Inl (SyncFailed e))
      | Inr _ \<Rightarrow>
          if cf_DeviceCredential c = [] \<or> cf_EnvironmentID c = [] then (sent, Inl (SyncFailed ''agent is not enrolled with Dyner''))
          else (case device_send service c ''GET'' (device_url c ''/browser-identities'') None sent of
                  (sent', Inl e) \<Rightarrow> (sent', Inl (SyncFailed e))
                | (sent', Inr (status, data)) \<Rightarrow>
                    (sent',
                     if \<not> ok_status status then Inl (SyncStatus status)
                     else (case decode_answer state_field no_state data of
                             Inl e \<Rightarrow> Inl (SyncFailed e)
                           | Inr payload \<Rightarrow>
                               (case normalizeBrowserIdentities key_hash (es_Identities payload) of
                                  Inl e \<Rightarrow> Inl (SyncFailed e)
                                | Inr identities \<Rightarrow> Inr (payload\<lparr>es_Identities := identities\<rparr>))))))"

definition SyncBrowserIdentities ::
  "(string \<Rightarrow> string) \<Rightarrow> device_service \<Rightarrow> config \<Rightarrow> device_request list \<Rightarrow>
   device_request list \<times> (sync_failure + browserIdentity list)" where
  "SyncBrowserIdentities key_hash service c sent =
     map_prod id (map_sum id es_Identities) (SyncRemoteEnvironmentState key_hash service c sent)"

definition ice_session_field :: "string \<Rightarrow> any \<Rightarrow> ice_session \<Rightarrow> string + ice_session" where
  "ice_session_field k v s = (if k = ''session'' then decode_struct session_field v s else Inr s)"

definition fetchICESession ::
  "device_service \<Rightarrow> config \<Rightarrow> string \<Rightarrow> device_request list \<Rightarrow> device_request list \<times> (string + ice_session)" where
  "fetchICESession service c i sent =
     (case device_send service c ''GET'' (iceURL c (''/'' @ path_escape i)) None sent of
        (sent', Inl e) \<Rightarrow> (sent', Inl e)
      | (sent', Inr (status, data)) \<Rightarrow>
          (sent', if status div 100 \<noteq> 2 then Inl (''Dyner ICE session fetch failed: HTTP '' @ fmt_uint 10 (nat status))
                  else decode_answer ice_session_field no_session data))"

definition postICE ::
  "device_service \<Rightarrow> config \<Rightarrow> string \<Rightarrow> any \<Rightarrow> device_request list \<Rightarrow> device_request list \<times> string option" where
  "postICE service c what body sent =
     (case device_send service c ''POST'' (iceURL c (''/'' @ what)) (Some body) sent of
        (sent', Inl e) \<Rightarrow> (sent', Some e)
      | (sent', Inr (status, data)) \<Rightarrow>
          (sent', if status div 100 \<noteq> 2 then Some (''Dyner ICE update failed: HTTP '' @ fmt_uint 10 (nat status)) else None))"

subsection \<open>The server's side\<close>

record sync_env =
  sx_service :: device_service
  sx_listener :: listener_env
  sx_now :: int \<comment> \<open>nanoseconds\<close>

text \<open>
  Goroutines: \<open>PeerStarter\<close> is \<open>startPendingICESessions\<close> past its first lock, \<open>PeerAnswer\<close> the goroutine of a session with
  its generation and context, \<open>PeerStopper\<close> is \<open>stopICE\<close> before and after the table is emptied, with the context it will cancel.
\<close>

datatype ice_thread =
    PeerStarter nat "ice_session list"
  | PeerAnswer string nat nat
  | PeerStopper bool "nat option"
  | PeerEnded

record sync_state =
  sy_listener :: listener_state
  sy_sent :: "device_request list"
  sy_relay :: "config option" \<comment> \<open>\<open>relayCancel\<close>: the configuration the relay runs with\<close>
  sy_wantedAt :: int
  sy_activityAt :: int
  sy_context :: "nat option" \<comment> \<open>\<open>iceContext\<close> and \<open>iceCancel\<close>\<close>
  sy_fresh :: nat
  sy_cancelled :: "nat set"
  sy_generation :: nat
  sy_active :: "(string, nat) gomap"
  sy_threads :: "ice_thread list"

definition sy_config :: "sync_state \<Rightarrow> config" where
  "sy_config st = ls_Config (sy_listener st)"

definition sync_key_hash :: "sync_env \<Rightarrow> string \<Rightarrow> string" where
  "sync_key_hash env = le_key_hash (sx_listener env)"

definition set_sync_identities :: "browserIdentity list \<Rightarrow> sync_state \<Rightarrow> sync_state" where
  "set_sync_identities ids st = st\<lparr>sy_listener := set_config (\<lambda>c. c\<lparr>cf_BrowserIdentities := ids\<rparr>) (sy_listener st)\<rparr>"

text \<open>A configuration that cannot be saved is not reported.\<close>

definition save_identities :: "sync_env \<Rightarrow> browserIdentity list \<Rightarrow> sync_state \<Rightarrow> sync_state" where
  "save_identities env ids st =
     (let st1 = set_sync_identities ids st
      in st1\<lparr>sy_listener := fst (SaveConfig (sx_listener env) (sy_config st1) (sy_listener st1))\<rparr>)"

paragraph \<open>The relay\<close>

definition startRelay :: "sync_state \<Rightarrow> sync_state" where
  "startRelay st =
     (if sy_relay st \<noteq> None then st
      else (let c = relayTicketConfig (sy_config st)
            in if \<not> cf_RelayEnabled c \<or> cf_DeviceCredential c = [] then st else st\<lparr>sy_relay := Some c\<rparr>))"

definition stopRelay :: "sync_state \<Rightarrow> sync_state" where
  "stopRelay st = st\<lparr>sy_relay := None\<rparr>"

definition relayIdleGrace :: int where
  "relayIdleGrace = 90 * 1000000000"

definition applyRelayRequest :: "int \<Rightarrow> bool \<Rightarrow> sync_state \<Rightarrow> sync_state" where
  "applyRelayRequest now requested st =
     (if requested then startRelay (st\<lparr>sy_wantedAt := now\<rparr>)
      else if sy_relay st = None then st
      else if now - sy_wantedAt st < relayIdleGrace \<or> now - sy_activityAt st < relayIdleGrace then st
      else stopRelay st)"

definition noteRelayActivity :: "int \<Rightarrow> sync_state \<Rightarrow> sync_state" where
  "noteRelayActivity now st = st\<lparr>sy_activityAt := now\<rparr>"

text \<open>One round of \<open>runRelay\<close> up to the dialling: the configuration it goes on with and the ticket.\<close>

definition relay_round :: "sync_env \<Rightarrow> config \<Rightarrow> sync_state \<Rightarrow> sync_state \<times> config \<times> relayConnection option" where
  "relay_round env c st =
     (case IssueRelayTicket (sync_key_hash env) (sx_service env) c (sy_sent st) of
        (sent, Inl e) \<Rightarrow> (st\<lparr>sy_sent := sent\<rparr>, c, None)
      | (sent, Inr connection) \<Rightarrow>
          (let st1 = st\<lparr>sy_sent := sent\<rparr>
           in case normalizeBrowserIdentities (sync_key_hash env) (rc_Identities connection) of
                Inl e \<Rightarrow> (st1, c, Some connection)
              | Inr ids \<Rightarrow> (save_identities env ids st1, c\<lparr>cf_BrowserIdentities := ids\<rparr>, Some connection)))"

paragraph \<open>Peer sessions\<close>

text \<open>\<open>startPendingICESessions\<close> up to its first unlock; None when the record is not the one asked for.\<close>

definition ice_begin :: "config \<Rightarrow> sync_state \<Rightarrow> (sync_state \<times> nat) option" where
  "ice_begin c st =
     (let current = relayTicketConfig (sy_config st) in
      if \<not> cf_RelayEnabled current \<or> cf_EnvironmentID current \<noteq> cf_EnvironmentID c
         \<or> cf_DeviceCredential current \<noteq> cf_DeviceCredential c then None
      else (case sy_context st of
              Some ctx \<Rightarrow> Some (st, ctx)
            | None \<Rightarrow> Some (st\<lparr>sy_context := Some (sy_fresh st), sy_fresh := sy_fresh st + 1\<rparr>, sy_fresh st)))"

text \<open>One turn of its loop: a session that is not active yet gets a goroutine.\<close>

definition ice_register :: "nat \<Rightarrow> ice_session \<Rightarrow> sync_state \<Rightarrow> sync_state" where
  "ice_register ctx session st =
     (if is_Offer session = None \<or> is_Answer session \<noteq> None then st
      else if map_of (sy_active st) (is_ID session) \<noteq> None then st
      else st\<lparr>sy_active := AList.update (is_ID session) (sy_generation st) (sy_active st),
              sy_threads := sy_threads st @ [PeerAnswer (is_ID session) (sy_generation st) ctx]\<rparr>)"

definition startPendingICESessions :: "config \<Rightarrow> ice_session list \<Rightarrow> sync_state \<Rightarrow> sync_state" where
  "startPendingICESessions c sessions st =
     (case ice_begin c st of None \<Rightarrow> st | Some (st1, ctx) \<Rightarrow> fold (ice_register ctx) sessions st1)"

text \<open>The deferred function of a session's goroutine; a missing key reads as generation 0.\<close>

definition ice_finish :: "string \<Rightarrow> nat \<Rightarrow> sync_state \<Rightarrow> sync_state" where
  "ice_finish i generation st =
     (if (case map_of (sy_active st) i of None \<Rightarrow> 0 | Some g \<Rightarrow> g) = generation
      then st\<lparr>sy_active := AList.delete i (sy_active st)\<rparr> else st)"

definition stop_take :: "sync_state \<Rightarrow> sync_state \<times> nat option" where
  "stop_take st = (st\<lparr>sy_context := None\<rparr>, sy_context st)"

definition stop_clear :: "sync_state \<Rightarrow> sync_state" where
  "stop_clear st = st\<lparr>sy_generation := sy_generation st + 1, sy_active := []\<rparr>"

definition stop_cancel :: "nat option \<Rightarrow> sync_state \<Rightarrow> sync_state" where
  "stop_cancel taken st = (case taken of None \<Rightarrow> st | Some ctx \<Rightarrow> st\<lparr>sy_cancelled := insert ctx (sy_cancelled st)\<rparr>)"

definition stopICE :: "sync_state \<Rightarrow> sync_state" where
  "stopICE st = (let (st1, taken) = stop_take st in stop_cancel taken (stop_clear st1))"

text \<open>
  What may happen between two locks: the settings change the configuration, a sync asks for sessions,
  somebody stops them, or a goroutine goes on.
\<close>

datatype ice_action =
    Reconfigure config
  | AskSessions config "ice_session list"
  | AskStop
  | Go nat

definition thread_put :: "nat \<Rightarrow> ice_thread \<Rightarrow> sync_state \<Rightarrow> sync_state" where
  "thread_put k th st = st\<lparr>sy_threads := (sy_threads st)[k := th]\<rparr>"

definition thread_go :: "nat \<Rightarrow> sync_state \<Rightarrow> sync_state option" where
  "thread_go k st =
     (if length (sy_threads st) \<le> k then None
      else (case sy_threads st ! k of
              PeerStarter ctx [] \<Rightarrow> Some (thread_put k PeerEnded st)
            | PeerStarter ctx (s # rest) \<Rightarrow> Some (ice_register ctx s (thread_put k (PeerStarter ctx rest) st))
            | PeerAnswer i g ctx \<Rightarrow> Some (ice_finish i g (thread_put k PeerEnded st))
            | PeerStopper False taken \<Rightarrow> Some (stop_clear (thread_put k (PeerStopper True taken) st))
            | PeerStopper True taken \<Rightarrow> Some (stop_cancel taken (thread_put k PeerEnded st))
            | PeerEnded \<Rightarrow> None))"

fun ice_act :: "ice_action \<Rightarrow> sync_state \<Rightarrow> sync_state option" where
  "ice_act (Reconfigure c) st = Some (st\<lparr>sy_listener := set_config (\<lambda>_. c) (sy_listener st)\<rparr>)"
| "ice_act (AskSessions c sessions) st =
     (case ice_begin c st of
        None \<Rightarrow> None
      | Some (st1, ctx) \<Rightarrow> Some (st1\<lparr>sy_threads := sy_threads st1 @ [PeerStarter ctx sessions]\<rparr>))"
| "ice_act AskStop st = (let (st1, taken) = stop_take st in Some (st1\<lparr>sy_threads := sy_threads st1 @ [PeerStopper False taken]\<rparr>))"
| "ice_act (Go k) st = thread_go k st"

paragraph \<open>The sync\<close>

text \<open>What the answer does to the identities: a device Dyner has removed keeps only local approvals.\<close>

definition sync_gone :: "sync_failure \<Rightarrow> bool" where
  "sync_gone e \<longleftrightarrow> (case e of SyncStatus status \<Rightarrow> status = 401 \<or> status = 404 \<or> status = 410 | SyncFailed _ \<Rightarrow> False)"

definition sync_apply :: "sync_env \<Rightarrow> config \<Rightarrow> sync_failure + remoteEnvironmentState \<Rightarrow> sync_state \<Rightarrow> sync_state" where
  "sync_apply env c answer st =
     (let merge = (\<lambda>fresh. save_identities env (mergeSyncedIdentities (sync_key_hash env) (cf_BrowserIdentities (sy_config st)) fresh) st)
      in case answer of
           Inl e \<Rightarrow> if sync_gone e then merge [] else st
         | Inr state \<Rightarrow>
             (let st1 = merge (es_Identities state)
              in if cf_RelayEnabled c
                 then applyRelayRequest (sx_now env) (es_RelayRequested state) (startPendingICESessions c (es_Sessions state) st1)
                 else st1))"

definition syncBrowserIdentitiesOnce :: "sync_env \<Rightarrow> sync_state \<Rightarrow> sync_state" where
  "syncBrowserIdentitiesOnce env st =
     (let c = relayTicketConfig (sy_config st);
          (sent, answer) = SyncRemoteEnvironmentState (sync_key_hash env) (sx_service env) c (sy_sent st)
      in sync_apply env c answer (st\<lparr>sy_sent := sent\<rparr>))"

text \<open>
  The hello of a peer session: a key the agent does not know is looked up at Dyner once. The configuration is
  that of the session, \<open>resolve\<close> what Dyner makes of the app. The identities are not saved here.
\<close>

definition authenticateICEHello ::
  "sync_env \<Rightarrow> (string \<Rightarrow> resolvedApp option) \<Rightarrow> config \<Rightarrow> relay_message \<Rightarrow> sync_state \<Rightarrow> sync_state \<times> socketAuthentication" where
  "authenticateICEHello env resolve c hello st =
     (let grant = (\<lambda>s. let g = relayGrantFor (cf_BrowserIdentities (sy_config s)) hello resolve in g\<lparr>sa_ok := (sa_keyID g \<noteq> [])\<rparr>)
      in if sa_keyID (grant st) \<noteq> [] \<or> trim_space (rm_KeyID hello) = [] then (st, grant st)
         else (case SyncRemoteEnvironmentState (sync_key_hash env) (sx_service env) c (sy_sent st) of
                 (sent, Inl e) \<Rightarrow> (st\<lparr>sy_sent := sent\<rparr>, grant st)
               | (sent, Inr state) \<Rightarrow>
                   (let st1 = set_sync_identities (mergeSyncedIdentities (sync_key_hash env) (cf_BrowserIdentities (sy_config st))
                                (es_Identities state)) (st\<lparr>sy_sent := sent\<rparr>)
                    in (st1, grant st1))))"

end
