(* ===== verification/Sync_Properties.thy ===== *)
theory Sync_Properties
  imports Device_Sync Listener_Properties Relay_Properties Identity_Properties
begin

text \<open>
  The agent as a device: what a sync does to the stored pairings, who may open a peer session, when the relay
  runs, and that peer sessions are answered once and end when they are stopped.
\<close>

subsection \<open>Identities\<close>

lemma subseq_subset: "subseq xs ys \<Longrightarrow> set xs \<subseteq> set ys"
  by (induction rule: list_emb.induct) auto

definition sync_ids :: "sync_state \<Rightarrow> browserIdentity list" where
  "sync_ids st = cf_BrowserIdentities (sy_config st)"

lemma sync_config_parts [simp]:
  "sy_config (st\<lparr>sy_sent := a\<rparr>) = sy_config st" "sy_config (st\<lparr>sy_relay := b\<rparr>) = sy_config st"
  "sy_config (st\<lparr>sy_wantedAt := t\<rparr>) = sy_config st" "sy_config (st\<lparr>sy_context := x\<rparr>) = sy_config st"
  "sy_config (st\<lparr>sy_context := x, sy_fresh := y\<rparr>) = sy_config st"
  "sy_config (st\<lparr>sy_active := m, sy_threads := ts\<rparr>) = sy_config st"
  by (simp_all add: sy_config_def)

lemma ids_saved [simp]: "sync_ids (save_identities env ids st) = ids"
  by (simp add: save_identities_def sync_ids_def sy_config_def set_sync_identities_def save_config_config set_config_def Let_def)

lemma ids_set [simp]: "sync_ids (set_sync_identities ids st) = ids"
  by (simp add: sync_ids_def sy_config_def set_sync_identities_def set_config_def)

lemma ids_register: "sy_config (fold (ice_register ctx) sessions st) = sy_config st"
  by (induction sessions arbitrary: st) (simp_all add: ice_register_def)

lemma ids_started [simp]: "sync_ids (startPendingICESessions c sessions st) = sync_ids st"
  by (auto simp: startPendingICESessions_def ice_begin_def sync_ids_def ids_register Let_def split: option.splits if_splits)

lemma ids_relay [simp]: "sync_ids (applyRelayRequest now requested st) = sync_ids st"
  by (simp add: applyRelayRequest_def startRelay_def stopRelay_def sync_ids_def Let_def)

lemma ids_sent [simp]: "sync_ids (st\<lparr>sy_sent := sent\<rparr>) = sync_ids st"
  by (simp add: sync_ids_def)

lemma sync_result:
  assumes "SyncRemoteEnvironmentState h service c sent = (sent', Inr state)"
  shows "(\<forall>i \<in> set (es_Identities state). validate_identity h i = Inr ()) \<and> distinct (map identity_key (es_Identities state))"
proof -
  obtain payload ids where payload: "normalizeBrowserIdentities h (es_Identities payload) = Inr ids" "state = payload\<lparr>es_Identities := ids\<rparr>"
    using assms by (auto simp: SyncRemoteEnvironmentState_def split: sum.splits if_splits prod.splits)
  then have "distinct (map identity_key ids) \<and> subseq ids (es_Identities payload) \<and> (\<forall>i \<in> set (es_Identities payload). validate_identity h i = Inr ())"
    using normalize_loop_result [of h "[]" "es_Identities payload" ids] by (simp add: normalizeBrowserIdentities_def)
  then show ?thesis using payload(2) subseq_subset by fastforce
qed

lemma normalize_loop_prefix:
  assumes "\<forall>i \<in> set xs. validate_identity h i = Inr ()" "distinct (map identity_key xs)" "identity_key ` set xs \<inter> set seen = {}"
    and "normalize_loop h (rev (map identity_key xs) @ seen) ys = Inr r"
  shows "normalize_loop h seen (xs @ ys) = Inr (xs @ r)"
  using assms
proof (induction xs arbitrary: seen)
  case (Cons x xs)
  then show ?case using Cons.IH [of "identity_key x # seen"] by auto
qed simp

lemma normalize_loop_filter:
  assumes "\<forall>i \<in> set ys. validate_identity h i = Inr ()" "distinct (map identity_key ys)"
  shows "normalize_loop h seen ys = Inr (filter (\<lambda>i. identity_key i \<notin> set seen) ys)"
  using assms
proof (induction ys arbitrary: seen)
  case (Cons y ys)
  have "filter (\<lambda>i. identity_key i \<notin> set (identity_key y # seen)) ys = filter (\<lambda>i. identity_key i \<notin> set seen) ys"
    using Cons.prems(2) by (intro filter_cong refl) (auto simp: image_iff)
  with Cons show ?case by simp
qed simp

lemma merge_prefers_local:
  assumes "\<forall>i \<in> set existing \<union> set fresh. validate_identity h i = Inr ()"
    and "distinct (map identity_key existing)" "distinct (map identity_key fresh)"
  shows "mergeSyncedIdentities h existing fresh =
    (let kept = filter (\<lambda>i. bi_ApprovedAt i > 0) existing in
     kept @ filter (\<lambda>i. identity_key i \<notin> identity_key ` set kept) fresh)"
proof -
  let ?kept = "filter (\<lambda>i. bi_ApprovedAt i > 0) existing"
  have kept: "\<forall>i \<in> set ?kept. validate_identity h i = Inr ()" "distinct (map identity_key ?kept)"
    using assms(1,2) by (auto simp: distinct_map_filter)
  have "normalize_loop h [] (?kept @ fresh) = Inr (?kept @ filter (\<lambda>i. identity_key i \<notin> identity_key ` set ?kept) fresh)"
    by (rule normalize_loop_prefix [OF kept]) (use normalize_loop_filter [OF _ assms(3)] assms(1) in simp_all)
  then show ?thesis by (simp add: mergeSyncedIdentities_def normalizeBrowserIdentities_def Let_def)
qed


text \<open>An approval that Dyner sends with an identity counts as one made on this machine: it outlives the next sync.\<close>

lemma sent_approvals_stay:
  assumes "validate_identity h i = Inr ()" "bi_ApprovedAt i > 0"
  shows "mergeSyncedIdentities h (mergeSyncedIdentities h [] [i]) [] = [i]"
  using assms by (simp add: mergeSyncedIdentities_def normalizeBrowserIdentities_def)

subsection \<open>Hellos of peer sessions\<close>

lemma relay_key: 
  assumes "sa_keyID (relayGrantFor ids hello resolve) \<noteq> []"
  shows "sa_keyID (relayGrantFor ids hello resolve) = trim_space (rm_KeyID hello) \<and> (\<exists>i \<in> set ids. hello_matches (trim_space (rm_KeyID hello)) hello i)
    \<and> set (sa_capabilities (relayGrantFor ids hello resolve)) \<subseteq> trim_space ` held_by (hello_matches (trim_space (rm_KeyID hello)) hello) ids"
proof -
  let ?k = "trim_space (rm_KeyID hello)"
  let ?x = "match_identities ?k hello ids"
  let ?caps = "normalizePermissionSet (slice_items (relay_base ?x ids))"
  let ?auth = "no_auth\<lparr>sa_capabilities := ?caps, sa_keyID := (if rx_matched ?x then ?k else []), sa_origin := rx_origin ?x,
      sa_stored := normalizePermissionSet (rx_capabilities ?x), sa_ok := True, sa_declared := ?caps,
      sa_connect := (if rx_matched ?x then rx_connect ?x else [])\<rparr>"
  have grant: "relayGrantFor ids hello resolve = relay_app resolve (rm_App hello) ?auth" by (simp add: relayGrantFor_def Let_def)
  then have matched: "rx_matched ?x" "?k \<noteq> []" using assms by (auto simp: relay_app_fields split: if_splits)
  then have matching: "\<exists>i \<in> set ids. hello_matches ?k hello i"
    using match_fold [of ?k hello ids "\<lparr>rx_base = None, rx_matched = False, rx_origin = [], rx_capabilities = [], rx_connect = []\<rparr>"]
    by (simp add: match_identities_def)
  have held: "set ?caps \<subseteq> trim_space ` held_by (\<lambda>i. \<not> bi_Authority i \<and> hello_matches ?k hello i) ids"
    using relay_base_held [of _ ?k hello ids] matched(1) by auto
  have trimmed: "trim_space ` set ?caps = set ?caps"
  proof -
    have "trim_space ` set ?caps = id ` set ?caps"
    proof (rule image_cong [OF refl])
      fix c
      assume "c \<in> set ?caps"
      then have "trim_space c = c" by auto
      then show "trim_space c = id c" by (simp only: id_apply)
    qed
    then show ?thesis by (simp only: image_id id_apply)
  qed
  have caps: "set (sa_capabilities (relayGrantFor ids hello resolve)) \<subseteq> trim_space ` set ?caps \<union> set ?caps"
    using relay_app_fields(1) [of resolve "rm_App hello" ?auth] unfolding grant by simp
  have weaker: "held_by (\<lambda>i. \<not> bi_Authority i \<and> hello_matches ?k hello i) ids \<subseteq> held_by (hello_matches ?k hello) ids"
    by (rule held_mono) simp
  have key: "sa_keyID (relayGrantFor ids hello resolve) = ?k" unfolding grant using matched(1) by (simp add: relay_app_fields(2))
  have "set (sa_capabilities (relayGrantFor ids hello resolve)) \<subseteq> set ?caps" using caps trimmed by simp
  then have "set (sa_capabilities (relayGrantFor ids hello resolve)) \<subseteq> trim_space ` held_by (hello_matches ?k hello) ids"
    using held image_mono [OF weaker, of trim_space] by (meson subset_trans)
  then show ?thesis using key matching by simp
qed

text \<open>
  C36: A peer session is opened only for a browser whose key is paired: the hello must name the key of an identity
  that is stored, after at most one sync, that is not the authority's and is not bound to another app; and the
  permissions it gets are among those of such identities.
\<close>

theorem peer_hello_needs_a_pairing:
  assumes "authenticateICEHello env resolve c hello st = (st', auth)" "sa_ok auth"
  shows "sa_keyID auth = trim_space (rm_KeyID hello) \<and> sa_keyID auth \<noteq> []
    \<and> (\<exists>i \<in> set (sync_ids st'). hello_matches (sa_keyID auth) hello i)
    \<and> set (sa_capabilities auth) \<subseteq> trim_space ` held_by (hello_matches (sa_keyID auth) hello) (sync_ids st')"
proof -
  let ?grant = "relayGrantFor (sync_ids st') hello resolve"
  have "auth = ?grant\<lparr>sa_ok := (sa_keyID ?grant \<noteq> [])\<rparr>"
    using assms(1) by (auto simp: authenticateICEHello_def Let_def sync_ids_def [symmetric] split: if_splits prod.splits sum.splits)
  moreover from this have "sa_keyID ?grant \<noteq> []" using assms(2) by simp
  ultimately show ?thesis using relay_key [of "sync_ids st'" hello resolve] by simp
qed

subsection \<open>The relay\<close>

text \<open>The relay stays up while it is used, whatever the syncs say, and goes down when nobody wants it.\<close>

definition relay_polls :: "(int \<times> bool) list \<Rightarrow> sync_state \<Rightarrow> sync_state" where
  "relay_polls = fold (\<lambda>(now, requested). applyRelayRequest now requested)"

lemma relay_stays_in_use:
  "sy_relay st = Some c \<Longrightarrow> list_all (\<lambda>(now, _). now - sy_activityAt st < relayIdleGrace) polls \<Longrightarrow>
   sy_relay (relay_polls polls st) = Some c"
proof (induction polls arbitrary: st)
  case (Cons p ps)
  obtain now requested where p: "p = (now, requested)" by fastforce
  let ?st1 = "applyRelayRequest now requested st"
  have "sy_relay ?st1 = Some c" "sy_activityAt ?st1 = sy_activityAt st"
    using Cons.prems p by (auto simp: applyRelayRequest_def startRelay_def)
  then show ?case using Cons.IH [of ?st1] Cons.prems p by (simp add: relay_polls_def)
qed (simp add: relay_polls_def)

lemma idle_relay_is_closed:
  "sy_wantedAt st \<le> now - relayIdleGrace \<Longrightarrow> sy_activityAt st \<le> now - relayIdleGrace \<Longrightarrow>
   sy_relay (applyRelayRequest now False st) = None"
  by (simp add: applyRelayRequest_def stopRelay_def)

subsection \<open>Peer sessions\<close>

definition placed :: "ice_thread list \<Rightarrow> nat \<Rightarrow> ice_thread \<Rightarrow> bool" where
  "placed ts k th \<longleftrightarrow> k < length ts \<and> ts ! k = th"

abbreviation at_thread :: "sync_state \<Rightarrow> nat \<Rightarrow> ice_thread \<Rightarrow> bool" where
  "at_thread st \<equiv> placed (sy_threads st)"

lemma placed_append [simp]: "placed (ts @ [new]) k th \<longleftrightarrow> placed ts k th \<or> k = length ts \<and> th = new"
  by (auto simp: placed_def nth_append less_Suc_eq)

lemma placed_update [simp]: "placed (ts[j := new]) k th \<longleftrightarrow> (if k = j then k < length ts \<and> th = new else placed ts k th)"
  by (auto simp: placed_def)

lemma placed_length: "placed ts k th \<Longrightarrow> k < length ts" by (simp add: placed_def)

lemma placed_unique: "placed ts k th \<Longrightarrow> placed ts k th' \<Longrightarrow> th = th'" by (simp add: placed_def)

definition context_of :: "ice_thread \<Rightarrow> nat option" where
  "context_of th = (case th of PeerStarter ctx _ \<Rightarrow> Some ctx | PeerAnswer _ _ ctx \<Rightarrow> Some ctx | _ \<Rightarrow> None)"

definition answers_ok :: "sync_state \<Rightarrow> bool" where
  "answers_ok st \<longleftrightarrow>
     (\<forall>k i g ctx. at_thread st k (PeerAnswer i g ctx) \<longrightarrow> g \<le> sy_generation st \<and> (g = sy_generation st \<longrightarrow> map_of (sy_active st) i = Some g))
     \<and> (\<forall>i g. map_of (sy_active st) i = Some g \<longrightarrow> g = sy_generation st)
     \<and> (\<forall>j k i g c1 c2. at_thread st j (PeerAnswer i g c1) \<longrightarrow> at_thread st k (PeerAnswer i g c2) \<longrightarrow> j = k)"

definition sync_init :: "sync_state \<Rightarrow> bool" where
  "sync_init st \<longleftrightarrow> sy_threads st = [] \<and> sy_active st = []"

text \<open>The invariants depend on the tables alone.\<close>

lemma begin_parts:
  assumes "ice_begin c st = Some (st1, ctx)"
  shows "sy_threads st1 = sy_threads st" "sy_active st1 = sy_active st" "sy_generation st1 = sy_generation st"
    "sy_cancelled st1 = sy_cancelled st" "sy_context st1 = Some ctx" "sy_context st = None \<or> sy_context st = Some ctx"
  using assms by (auto simp: ice_begin_def Let_def split: if_splits option.splits)

text \<open>A step of a goroutine: what becomes of its place and of the tables.\<close>

lemma go_cases:
  assumes "thread_go k st = Some st'"
  obtains (Quiet) ctx rest rest' where "at_thread st k (PeerStarter ctx rest)" "st' = thread_put k (PeerStarter ctx rest') st"
    | (Over) ctx where "at_thread st k (PeerStarter ctx [])" "st' = thread_put k PeerEnded st"
    | (Registered) ctx s rest where "at_thread st k (PeerStarter ctx (s # rest))" "map_of (sy_active st) (is_ID s) = None"
      "st' = st\<lparr>sy_active := AList.update (is_ID s) (sy_generation st) (sy_active st),
                sy_threads := (sy_threads st)[k := PeerStarter ctx rest] @ [PeerAnswer (is_ID s) (sy_generation st) ctx]\<rparr>"
    | (Finished) i g ctx where "at_thread st k (PeerAnswer i g ctx)" "st' = ice_finish i g (thread_put k PeerEnded st)"
    | (Cleared) taken where "at_thread st k (PeerStopper False taken)" "st' = stop_clear (thread_put k (PeerStopper True taken) st)"
    | (Cancelled) taken where "at_thread st k (PeerStopper True taken)" "st' = stop_cancel taken (thread_put k PeerEnded st)"
proof (cases "sy_threads st ! k")
  case (PeerStarter ctx sessions)
  have k: "k < length (sy_threads st)" using assms by (simp add: thread_go_def split: if_splits)
  then have here: "at_thread st k (PeerStarter ctx sessions)" using PeerStarter by (simp add: placed_def)
  show thesis
  proof (cases sessions)
    case Nil
    then show thesis using assms k PeerStarter here Over by (simp add: thread_go_def)
  next
    case (Cons s rest)
    then have st': "st' = ice_register ctx s (thread_put k (PeerStarter ctx rest) st)" using assms k PeerStarter by (simp add: thread_go_def)
    show thesis
    proof (cases "is_Offer s = None \<or> is_Answer s \<noteq> None \<or> map_of (sy_active st) (is_ID s) \<noteq> None")
      case True
      then have "st' = thread_put k (PeerStarter ctx rest) st" by (auto simp: st' ice_register_def thread_put_def)
      with here show thesis by (rule Quiet)
    next
      case False
      show thesis
      proof (rule Registered)
        show "at_thread st k (PeerStarter ctx (s # rest))" using here Cons by simp
      qed (use False in \<open>auto simp: st' ice_register_def thread_put_def\<close>)
    qed
  qed
qed (use assms that(4-6) in \<open>auto simp: thread_go_def placed_def split: if_splits bool.splits\<close>)

lemma finish_parts [simp]:
  "sy_threads (ice_finish i g st) = sy_threads st" "sy_generation (ice_finish i g st) = sy_generation st"
  "sy_cancelled (ice_finish i g st) = sy_cancelled st" "sy_context (ice_finish i g st) = sy_context st"
  by (simp_all add: ice_finish_def)

lemma finish_active:
  "map_of (sy_active (ice_finish i g st)) j =
     (if j = i \<and> map_of (sy_active st) i = Some g then None else map_of (sy_active st) j)"
  by (auto simp: ice_finish_def delete_conv' split: option.splits)

lemma answers_mono:
  assumes "answers_ok st" "\<And>j i g c. at_thread st' j (PeerAnswer i g c) \<Longrightarrow> at_thread st j (PeerAnswer i g c)"
    "sy_active st' = sy_active st" "sy_generation st' = sy_generation st"
  shows "answers_ok st'"
  using assms unfolding answers_ok_def by metis

lemma put_answer:
  "\<not> (\<exists>i g c. th = PeerAnswer i g c) \<Longrightarrow> at_thread (thread_put k th st) j (PeerAnswer i g c) \<longleftrightarrow> at_thread st j (PeerAnswer i g c) \<and> j \<noteq> k"
  by (auto simp: thread_put_def)

lemma answers_put:
  assumes "answers_ok st" "\<not> (\<exists>i g c. th = PeerAnswer i g c)"
  shows "answers_ok (thread_put k th st)"
  using assms(1) by (rule answers_mono) (simp_all add: put_answer [OF assms(2)], simp_all add: thread_put_def)

lemma answers_go:
  assumes ok: "answers_ok st" and go: "thread_go k st = Some st'"
  shows "answers_ok st'"
  using go
proof (cases rule: go_cases)
  case (Registered ctx s rest)
  have th: "at_thread st' j (PeerAnswer i g c) \<longleftrightarrow>
      at_thread st j (PeerAnswer i g c) \<or> j = length (sy_threads st) \<and> i = is_ID s \<and> g = sy_generation st \<and> c = ctx" for j i g c
  proof -
    have "\<not> at_thread st k (PeerAnswer i g c)" using placed_unique [OF Registered(1)] by blast
    then show ?thesis by (auto simp: Registered(3))
  qed
  have bound: "j < length (sy_threads st)" if "at_thread st j t" for j t using that by (rule placed_length)
  have tables: "map_of (sy_active st') = (map_of (sy_active st))(is_ID s \<mapsto> sy_generation st)" "sy_generation st' = sy_generation st"
    by (simp_all add: Registered(3))
  have place: "g \<le> sy_generation st \<and> (g = sy_generation st \<longrightarrow> map_of (sy_active st) i = Some g)" if "at_thread st j (PeerAnswer i g c)" for j i g c
    using ok that unfolding answers_ok_def by blast
  have old: "i \<noteq> is_ID s" if "at_thread st j (PeerAnswer i (sy_generation st) c)" for j i c
    using place [OF that] Registered(2) by auto
  have entry: "g = sy_generation st" if "map_of (sy_active st) i = Some g" for i g
    using ok that unfolding answers_ok_def by blast
  have one: "j = l" if "at_thread st j (PeerAnswer i g c1)" "at_thread st l (PeerAnswer i g c2)" for j l i g c1 c2
    using ok that unfolding answers_ok_def by blast
  show ?thesis unfolding answers_ok_def th tables
  proof (intro conjI allI impI)
    show "g \<le> sy_generation st" if "at_thread st j (PeerAnswer i g c) \<or> j = length (sy_threads st) \<and> i = is_ID s \<and> g = sy_generation st \<and> c = ctx" for j i g c
      using that place by auto
    show "((map_of (sy_active st))(is_ID s \<mapsto> sy_generation st)) i = Some g"
      if "at_thread st j (PeerAnswer i g c) \<or> j = length (sy_threads st) \<and> i = is_ID s \<and> g = sy_generation st \<and> c = ctx" "g = sy_generation st" for j i g c
      using that place by auto
    show "g = sy_generation st" if "((map_of (sy_active st))(is_ID s \<mapsto> sy_generation st)) i = Some g" for i g
      using that entry by (auto split: if_splits)
    show "j = l" if "at_thread st j (PeerAnswer i g c1) \<or> j = length (sy_threads st) \<and> i = is_ID s \<and> g = sy_generation st \<and> c1 = ctx"
      "at_thread st l (PeerAnswer i g c2) \<or> l = length (sy_threads st) \<and> i = is_ID s \<and> g = sy_generation st \<and> c2 = ctx" for j l i g c1 c2
      using that one old by blast
  qed
next
  case (Finished i g ctx)
  let ?st1 = "thread_put k PeerEnded st"
  have ok1: "answers_ok ?st1" by (rule answers_put [OF ok]) simp
  have none: "\<not> at_thread ?st1 j (PeerAnswer i g c)" for j c
    using ok Finished(1) put_answer [of PeerEnded k st j i g c] unfolding answers_ok_def by blast
  have same: "at_thread (ice_finish i g ?st1) = at_thread ?st1" by simp
  have place: "g' \<le> sy_generation ?st1 \<and> (g' = sy_generation ?st1 \<longrightarrow> map_of (sy_active ?st1) i' = Some g')"
    if "at_thread ?st1 j (PeerAnswer i' g' c)" for j i' g' c
    using ok1 that unfolding answers_ok_def by blast
  have entry: "g' = sy_generation ?st1" if "map_of (sy_active ?st1) i' = Some g'" for i' g'
    using ok1 that unfolding answers_ok_def by blast
  show ?thesis unfolding Finished(2) answers_ok_def same finish_parts finish_active
  proof (intro conjI allI impI)
    show "g' \<le> sy_generation ?st1" if "at_thread ?st1 j (PeerAnswer i' g' c)" for j i' g' c using place [OF that] by simp
    show "(if i' = i \<and> map_of (sy_active ?st1) i = Some g then None else map_of (sy_active ?st1) i') = Some g'"
      if "at_thread ?st1 j (PeerAnswer i' g' c)" "g' = sy_generation ?st1" for j i' g' c
    proof -
      have now: "map_of (sy_active ?st1) i' = Some g'" using place [OF that(1)] that(2) by blast
      have "\<not> (i' = i \<and> map_of (sy_active ?st1) i = Some g)"
      proof
        assume "i' = i \<and> map_of (sy_active ?st1) i = Some g"
        then have "at_thread ?st1 j (PeerAnswer i g c)" using that(1) now by simp
        then show False using none by blast
      qed
      then show ?thesis using now by simp
    qed
    show "g' = sy_generation ?st1" if "(if i' = i \<and> map_of (sy_active ?st1) i = Some g then None else map_of (sy_active ?st1) i') = Some g'" for i' g'
      using that entry by (simp split: if_splits)
    show "j = l" if "at_thread ?st1 j (PeerAnswer i' g' c1)" "at_thread ?st1 l (PeerAnswer i' g' c2)" for j l i' g' c1 c2
      using ok1 that unfolding answers_ok_def by blast
  qed
next
  case (Cleared taken)
  have ok1: "answers_ok (thread_put k (PeerStopper True taken) st)" by (rule answers_put [OF ok]) simp
  have same: "at_thread (stop_clear s) = at_thread s" for s by (simp add: stop_clear_def)
  show ?thesis using ok1 unfolding Cleared(2) answers_ok_def same by (fastforce simp: stop_clear_def)
next
  case (Cancelled taken)
  have "answers_ok (thread_put k PeerEnded st)" by (rule answers_put [OF ok]) simp
  then show ?thesis unfolding Cancelled(2)
    by (rule answers_mono) (auto simp: stop_cancel_def placed_def split: option.splits)
qed (use answers_put [OF ok] in auto)

lemma answers_step:
  assumes ok: "answers_ok st" and act: "ice_act a st = Some st'"
  shows "answers_ok st'"
proof (cases a)
  case (Reconfigure c)
  show ?thesis by (rule answers_mono [OF ok]) (use act Reconfigure in auto)
next
  case (AskSessions c sessions)
  then obtain st1 ctx where started: "ice_begin c st = Some (st1, ctx)" "st' = st1\<lparr>sy_threads := sy_threads st1 @ [PeerStarter ctx sessions]\<rparr>"
    using act by (auto split: option.splits)
  then have th: "at_thread st' j (PeerAnswer i g c) \<longleftrightarrow> at_thread st j (PeerAnswer i g c)" for j i g c
    by (simp add: started(2) begin_parts(1) [OF started(1)])
  show ?thesis by (rule answers_mono [OF ok]) (simp_all only: th, simp_all add: started(2) begin_parts(2,3) [OF started(1)])
next
  case AskStop
  then have st': "st' = st\<lparr>sy_context := None, sy_threads := sy_threads st @ [PeerStopper False (sy_context st)]\<rparr>"
    using act by (simp add: stop_take_def)
  then have th: "at_thread st' j (PeerAnswer i g c) \<longleftrightarrow> at_thread st j (PeerAnswer i g c)" for j i g c
    by (simp add: st')
  show ?thesis by (rule answers_mono [OF ok]) (simp_all only: th, simp_all add: st')
next
  case (Go k)
  then show ?thesis using act answers_go [OF ok] by simp
qed

text \<open>The context of a goroutine is cancelled, the current one, or held by a stop under way.\<close>

definition context_held :: "sync_state \<Rightarrow> nat \<Rightarrow> bool" where
  "context_held st ctx \<longleftrightarrow> (\<exists>k th. at_thread st k th \<and> context_of th = Some ctx)"

definition context_known :: "sync_state \<Rightarrow> nat \<Rightarrow> bool" where
  "context_known st ctx \<longleftrightarrow> ctx \<in> sy_cancelled st \<or> sy_context st = Some ctx \<or> (\<exists>k b. at_thread st k (PeerStopper b (Some ctx)))"

definition contexts_ok :: "sync_state \<Rightarrow> bool" where
  "contexts_ok st \<longleftrightarrow> (\<forall>ctx. context_held st ctx \<longrightarrow> context_known st ctx)"

lemma heldI: "at_thread st k th \<Longrightarrow> context_of th = Some ctx \<Longrightarrow> context_held st ctx"
  by (auto simp: context_held_def)

lemma held_put:
  assumes "at_thread st k old" "context_of th = None \<or> context_of th = context_of old" "context_held (thread_put k th st) ctx"
  shows "context_held st ctx"
proof -
  obtain j t where "at_thread (thread_put k th st) j t" "context_of t = Some ctx" using assms(3) by (auto simp: context_held_def)
  then show ?thesis using assms(1,2) unfolding context_held_def
    by (cases "j = k") (auto simp: thread_put_def)
qed

lemma known_put:
  assumes "at_thread st k old" "\<And>b c. old = PeerStopper b c \<Longrightarrow> th = PeerStopper True c" "context_known st ctx"
  shows "context_known (thread_put k th st) ctx"
proof -
  have "\<exists>j b. placed ((sy_threads st)[k := th]) j (PeerStopper b (Some ctx))" if stop: "at_thread st j (PeerStopper b (Some ctx))" for j b
  proof (cases "j = k")
    case True
    then have "th = PeerStopper True (Some ctx)" using assms(1,2) stop placed_unique by blast
    then show ?thesis using placed_length [OF assms(1)] by (intro exI [of _ k] exI [of _ True]) simp
  next
    case False
    then show ?thesis using stop by (intro exI [of _ j] exI [of _ b]) simp
  qed
  then have "(\<exists>j b. at_thread st j (PeerStopper b (Some ctx))) \<Longrightarrow> \<exists>j b. placed ((sy_threads st)[k := th]) j (PeerStopper b (Some ctx))"
    by blast
  then show ?thesis using assms(3) by (simp add: context_known_def thread_put_def del: placed_update) blast
qed

lemma contexts_put:
  assumes "contexts_ok st" "at_thread st k old" "context_of th = None \<or> context_of th = context_of old"
    "\<And>b c. old = PeerStopper b c \<Longrightarrow> th = PeerStopper True c"
  shows "contexts_ok (thread_put k th st)"
  using assms(1) held_put [OF assms(2,3)] known_put [OF assms(2,4)] unfolding contexts_ok_def by blast

lemma contexts_append:
  assumes "contexts_ok st" "\<And>ctx. context_of new = Some ctx \<Longrightarrow> context_known st ctx"
  shows "contexts_ok (st\<lparr>sy_active := m, sy_threads := sy_threads st @ [new]\<rparr>)"
  using assms by (fastforce simp: contexts_ok_def context_held_def context_known_def)

lemma contexts_go:
  assumes ok: "contexts_ok st" and go: "thread_go k st = Some st'"
  shows "contexts_ok st'"
  using go
proof (cases rule: go_cases)
  case (Quiet ctx rest rest')
  show ?thesis unfolding Quiet(2) by (rule contexts_put [OF ok Quiet(1)]) (simp_all add: context_of_def)
next
  case (Over ctx)
  show ?thesis unfolding Over(2) by (rule contexts_put [OF ok Over(1)]) (simp_all add: context_of_def)
next
  case (Registered ctx s rest)
  let ?st1 = "thread_put k (PeerStarter ctx rest) st"
  have ok1: "contexts_ok ?st1" by (rule contexts_put [OF ok Registered(1)]) (simp_all add: context_of_def)
  have "context_held st ctx" by (rule heldI [OF Registered(1)]) (simp add: context_of_def)
  then have "context_known ?st1 ctx" using ok known_put [OF Registered(1), of "PeerStarter ctx rest" ctx] by (simp add: contexts_ok_def)
  then have "contexts_ok (?st1\<lparr>sy_active := AList.update (is_ID s) (sy_generation st) (sy_active st),
      sy_threads := sy_threads ?st1 @ [PeerAnswer (is_ID s) (sy_generation st) ctx]\<rparr>)"
    by (intro contexts_append [OF ok1]) (simp add: context_of_def)
  then show ?thesis unfolding Registered(3) by (simp add: thread_put_def)
next
  case (Finished i g ctx)
  have "contexts_ok (thread_put k PeerEnded st)" by (rule contexts_put [OF ok Finished(1)]) (simp_all add: context_of_def)
  then show ?thesis by (simp add: Finished(2) contexts_ok_def context_held_def context_known_def)
next
  case (Cleared taken)
  have "contexts_ok (thread_put k (PeerStopper True taken) st)" by (rule contexts_put [OF ok Cleared(1)]) (simp_all add: context_of_def)
  then show ?thesis by (simp add: Cleared(2) contexts_ok_def context_held_def context_known_def stop_clear_def)
next
  case (Cancelled taken)
  have held: "context_held st ctx" if "context_held st' ctx" for ctx
    by (rule held_put [OF Cancelled(1)])
      (use that in \<open>auto simp: Cancelled(2) context_held_def context_of_def stop_cancel_def split: option.splits\<close>)
  have known: "context_known st' ctx" if "context_known st ctx" for ctx
    using that placed_unique [OF Cancelled(1)]
    by (cases taken) (fastforce simp: Cancelled(2) context_known_def stop_cancel_def thread_put_def)+
  show ?thesis using ok held known unfolding contexts_ok_def by blast
qed

lemma contexts_step:
  assumes ok: "contexts_ok st" and act: "ice_act a st = Some st'"
  shows "contexts_ok st'"
proof (cases a)
  case (Reconfigure c)
  then have st': "st' = st\<lparr>sy_listener := set_config (\<lambda>_. c) (sy_listener st)\<rparr>" using act by simp
  have "context_held st' = context_held st" "context_known st' = context_known st"
    by (simp_all add: st' context_held_def context_known_def fun_eq_iff)
  then show ?thesis using ok by (simp add: contexts_ok_def)
next
  case (AskSessions c sessions)
  then obtain st1 ctx where started: "ice_begin c st = Some (st1, ctx)" "st' = st1\<lparr>sy_threads := sy_threads st1 @ [PeerStarter ctx sessions]\<rparr>"
    using act by (auto split: option.splits)
  note parts = begin_parts [OF started(1)]
  have "context_held st1 = context_held st" by (simp add: context_held_def parts(1) fun_eq_iff)
  moreover have "context_known st x \<Longrightarrow> context_known st1 x" for x
    using parts(6) by (auto simp: context_known_def parts(1,4,5))
  ultimately have "contexts_ok st1" using ok by (simp add: contexts_ok_def)
  then have "contexts_ok (st1\<lparr>sy_active := sy_active st1, sy_threads := sy_threads st1 @ [PeerStarter ctx sessions]\<rparr>)"
    by (rule contexts_append) (simp add: context_of_def context_known_def parts(5))
  then show ?thesis by (simp add: started(2))
next
  case AskStop
  then have st': "st' = st\<lparr>sy_context := None, sy_threads := sy_threads st @ [PeerStopper False (sy_context st)]\<rparr>"
    using act by (simp add: stop_take_def)
  have "context_held st' x \<Longrightarrow> context_held st x" for x by (auto simp: st' context_held_def context_of_def)
  moreover have "context_known st' x" if "context_known st x" for x
  proof (cases "sy_context st = Some x")
    case True
    then have "at_thread st' (length (sy_threads st)) (PeerStopper False (Some x))" by (simp add: st')
    then show ?thesis unfolding context_known_def by blast
  qed (use that in \<open>auto simp: st' context_known_def\<close>)
  ultimately show ?thesis using ok unfolding contexts_ok_def by blast
next
  case (Go k)
  then show ?thesis using act contexts_go [OF ok] by simp
qed

interpretation peers: action_system sync_init ice_act "\<lambda>st. answers_ok st \<and> contexts_ok st"
proof
  fix st a st'
  show "sync_init st \<Longrightarrow> answers_ok st \<and> contexts_ok st"
    by (simp add: sync_init_def answers_ok_def contexts_ok_def context_held_def placed_def)
  show "answers_ok st \<and> contexts_ok st \<Longrightarrow> ice_act a st = Some st' \<Longrightarrow> answers_ok st' \<and> contexts_ok st'"
    using answers_step contexts_step by blast
qed

text \<open>
  C37: However syncs, stops, changes of the configuration and the goroutines of peer sessions interleave, two goroutines that
  answer the same session were started with a stop between them, a session that is being answered since the
  last stop is in the table that keeps it from being answered again, and no stopped session lives on: once the
  stops under way are through and no new sessions have been asked for, every goroutine's context is cancelled.
\<close>

theorem peer_sessions_are_answered_once_and_stopped:
  assumes "reachable sync_init ice_act st"
  shows "(at_thread st j (PeerAnswer i g c1) \<and> at_thread st k (PeerAnswer i g c2) \<longrightarrow> j = k)
    \<and> (at_thread st j (PeerAnswer i (sy_generation st) c1) \<longrightarrow> map_of (sy_active st) i = Some (sy_generation st))
    \<and> (sy_context st = None \<and> (\<forall>l b x. \<not> at_thread st l (PeerStopper b x)) \<longrightarrow>
         at_thread st j (PeerAnswer i g c1) \<or> at_thread st j (PeerStarter c1 sessions) \<longrightarrow> c1 \<in> sy_cancelled st)"
proof -
  have ok: "answers_ok st" "contexts_ok st" using peers.reachable_inv [OF assms] by auto
  have "context_held st c1" if "at_thread st j (PeerAnswer i g c1) \<or> at_thread st j (PeerStarter c1 sessions)"
    using that by (elim disjE) (erule heldI, simp add: context_of_def)+
  then have "c1 \<in> sy_cancelled st" if "sy_context st = None \<and> (\<forall>l b x. \<not> at_thread st l (PeerStopper b x))"
      "at_thread st j (PeerAnswer i g c1) \<or> at_thread st j (PeerStarter c1 sessions)"
    using ok(2) that by (auto simp: contexts_ok_def context_known_def)
  moreover have "at_thread st j (PeerAnswer i g c1) \<Longrightarrow> at_thread st k (PeerAnswer i g c2) \<Longrightarrow> j = k"
    "at_thread st j (PeerAnswer i (sy_generation st) c1) \<Longrightarrow> map_of (sy_active st) i = Some (sy_generation st)"
    using ok(1) unfolding answers_ok_def by blast+
  ultimately show ?thesis by blast
qed


subsection \<open>Examples\<close>

definition peer_session :: ice_session where
  "peer_session = no_session\<lparr>is_ID := ''p'', is_Offer := Some (''offer'', ''sdp'')\<rparr>"

definition peer_config :: config where
  "peer_config = listener_sample_config\<lparr>cf_RelayEnabled := True\<rparr>"

definition sample_sync :: sync_state where
  "sample_sync = \<lparr>sy_listener = sample_listener\<lparr>ls_Config := peer_config\<rparr>, sy_sent = [], sy_relay = None, sy_wantedAt = 0,
     sy_activityAt = 0, sy_context = None, sy_fresh = 0, sy_cancelled = {}, sy_generation = 0, sy_active = [], sy_threads = []\<rparr>"

definition peer_record :: config where
  "peer_record = relayTicketConfig peer_config"

lemma peer_begin:
  "sy_config st = peer_config \<Longrightarrow> ice_begin peer_record st =
    (case sy_context st of Some ctx \<Rightarrow> Some (st, ctx)
     | None \<Rightarrow> Some (st\<lparr>sy_context := Some (sy_fresh st), sy_fresh := sy_fresh st + 1\<rparr>, sy_fresh st))"
  by (simp add: ice_begin_def peer_record_def relayTicketConfig_def peer_config_def listener_sample_config_def)

text \<open>
  A stop does its two halves under different locks. When a sync comes in between, the session it starts is
  forgotten by the second half and the next sync starts it again: two live goroutines answer it.
\<close>

definition race :: "ice_action list" where
  "race = [AskStop, AskSessions peer_record [peer_session], Go 1, Go 0, AskSessions peer_record [peer_session], Go 3, Go 0]"

lemma stop_race_answers_twice:
  "\<exists>st. run_actions ice_act race sample_sync = Some st \<and> sy_cancelled st = {}
     \<and> at_thread st 2 (PeerAnswer ''p'' 0 0) \<and> at_thread st 4 (PeerAnswer ''p'' 1 0)"
  by (simp add: race_def peer_begin sy_config_def stop_take_def thread_go_def thread_put_def ice_register_def stop_clear_def stop_cancel_def
      sample_sync_def peer_session_def no_session_def placed_def)

lemma sample_reachable:
  "reachable sync_init ice_act sample_sync"
  by (rule reachable.start) (simp add: sync_init_def sample_sync_def)

definition peer_state :: sync_state where
  "peer_state = the (run_actions ice_act [AskSessions peer_record [peer_session], Go 0] sample_sync)"

lemma peer_state_run:
  "run_actions ice_act [AskSessions peer_record [peer_session], Go 0] sample_sync = Some peer_state \<and> at_thread peer_state 1 (PeerAnswer ''p'' 0 0)
   \<and> sy_generation peer_state = 0"
  by (simp add: peer_state_def peer_begin sy_config_def thread_go_def thread_put_def ice_register_def
      sample_sync_def peer_session_def no_session_def placed_def)

lemma peer_sessions_are_answered_once_and_stopped_witness:
  "map_of (sy_active peer_state) ''p'' = Some 0"
proof -
  have "reachable sync_init ice_act peer_state" using reachable_run [OF sample_reachable] peer_state_run by blast
  from peer_sessions_are_answered_once_and_stopped [OF this, of 1 "''p''" 0 0] peer_state_run show ?thesis by auto
qed

definition gone_env :: sync_env where
  "gone_env = \<lparr>sx_service = (\<lambda>_ _. Inr (404, None)), sx_listener = sample_listener_env\<lparr>le_key_hash := \<lambda>_. key43\<rparr>, sx_now = 0\<rparr>"

definition gone_config :: config where
  "gone_config = listener_sample_config\<lparr>cf_BrowserIdentities := [valid_identity ''https://x.io'' 3, valid_identity ''https://y.io'' 0]\<rparr>"

definition gone_state :: sync_state where
  "gone_state = sample_sync\<lparr>sy_listener := sample_listener\<lparr>ls_Config := gone_config\<rparr>\<rparr>"

lemma gone_answer:
  "snd (SyncRemoteEnvironmentState (\<lambda>_. key43) (\<lambda>_ _. Inr (404, None)) (relayTicketConfig gone_config) []) = Inl (SyncStatus 404)"
  by code_simp


definition hello_state :: sync_state where
  "hello_state = sample_sync\<lparr>sy_listener := sample_listener\<lparr>ls_Config := listener_sample_config\<lparr>cf_BrowserIdentities := [relay_identity ''k'' [''fs.list'']]\<rparr>\<rparr>\<rparr>"

lemma peer_hello_needs_a_pairing_witness:
  "\<exists>st' auth. authenticateICEHello gone_env (\<lambda>_. None) listener_sample_config (relay_hello ''k'') hello_state = (st', auth)
     \<and> sa_ok auth \<and> set (sa_capabilities auth) \<subseteq> trim_space ` held_by (hello_matches (sa_keyID auth) (relay_hello ''k'')) (sync_ids st')"
proof -
  let ?auth = "relayGrantFor [relay_identity ''k'' [''fs.list'']] (relay_hello ''k'') (\<lambda>_. None)"
  have key: "sa_keyID ?auth = ''k''" by code_simp
  then have call: "authenticateICEHello gone_env (\<lambda>_. None) listener_sample_config (relay_hello ''k'') hello_state = (hello_state, ?auth\<lparr>sa_ok := True\<rparr>)"
    by (simp add: authenticateICEHello_def hello_state_def sy_config_def)
  have ok: "sa_ok (?auth\<lparr>sa_ok := True\<rparr>)" by simp
  from peer_hello_needs_a_pairing [OF call ok] show ?thesis using call ok by blast
qed

end
