(* ===== verification/External_Open.thy ===== *)
theory External_Open
  imports Settings Cap_Sets Paths Frames Wire "HOL-Library.Multiset"
begin

text \<open>
  Files opened for an app from outside (\<open>shellagent/external_open.go\<close>): the launcher queues paths over the local HTTP
  server, or in files when the agent does not run, and the app takes them. The opened files themselves, random
  names and faults of the disk are parameters; that JSON replaces what is no UTF-8 in a path is not modelled.
\<close>

datatype opened_file = MissingFile | OpenedDirectory | OpenedFile "string option" \<comment> \<open>None: it cannot be read\<close>

record external_env =
  xe_settings :: settings_env
  xe_temp :: "string list \<Rightarrow> string" \<comment> \<open>the name \<open>CreateTemp\<close> finds beside those in use\<close>
  xe_create_fault :: "string option" \<comment> \<open>why a directory or a queue file cannot be made\<close>
  xe_write_fault :: "string option"
  xe_listable :: "string list \<Rightarrow> bool"
  xe_readable :: "string \<Rightarrow> bool"
  xe_removable :: "string \<Rightarrow> bool"
  xe_file :: "string \<Rightarrow> opened_file"
  xe_mime :: "string \<Rightarrow> string"

text \<open>The paths in memory by app id, and the files of the state directory, by directory below it: each has a name and
  the paths that its JSON lists (None when it is not JSON, as an empty file), sorted by name.\<close>

type_synonym queue_files = "(string \<times> string list option) list"

record external_state =
  xs_settings :: settings_state
  xs_opens :: "(string, string list) gomap"
  xs_files :: "(string list, queue_files) gomap"

definition opens_at :: "external_state \<Rightarrow> string \<Rightarrow> string list" where
  "opens_at st key = (case map_of (xs_opens st) key of None \<Rightarrow> [] | Some paths \<Rightarrow> paths)"

definition files_at :: "external_state \<Rightarrow> string list \<Rightarrow> queue_files" where
  "files_at st dir = (case map_of (xs_files st) dir of None \<Rightarrow> [] | Some files \<Rightarrow> files)"

definition set_files :: "string list \<Rightarrow> queue_files \<Rightarrow> external_state \<Rightarrow> external_state" where
  "set_files dir files st = st\<lparr>xs_files := AList.update dir files (xs_files st)\<rparr>"

text \<open>\<open>filepath.Join(root, "external-open", id)\<close>, below the root, for an id without a slash: two dots lead back to
  the root itself.\<close>

definition queue_dir :: "string \<Rightarrow> string list" where
  "queue_dir i = (if i = [] \<or> i = ''.'' then [''external-open''] else if i = ''..'' then [] else [''external-open'', i])"

definition absolute_paths :: "string list \<Rightarrow> string list" where
  "absolute_paths values = filter rooted (map path_clean values)"

subsection \<open>Queueing\<close>

datatype external_reply = Refused web_reply | GivenStatus nat | Queued nat

definition open_field :: "string \<Rightarrow> any \<Rightarrow> string \<times> string list \<Rightarrow> string + string \<times> string list" where
  "open_field k v old =
     (if k = ''appid'' then map_sum id (\<lambda>x. (x, snd old)) (decode_string v (fst old))
      else if k = ''paths'' then map_sum id (\<lambda>x. (fst old, x)) (decode_strings v (snd old))
      else Inr old)"

definition add_opens :: "string \<Rightarrow> string list \<Rightarrow> external_state \<Rightarrow> external_state" where
  "add_opens key paths st = st\<lparr>xs_opens := AList.update key (opens_at st key @ paths) (xs_opens st)\<rparr>"

definition handleExternalOpenHTTP :: "external_env \<Rightarrow> web_request \<Rightarrow> external_state \<Rightarrow> external_state \<times> external_reply" where
  "handleExternalOpenHTTP env r st =
     (if wr_Method r \<noteq> ''POST'' then (st, GivenStatus 403)
      else (case guardSettingsRequest (xe_settings env) r True (xs_settings st) of
              (s1, Some refusal) \<Rightarrow> (st\<lparr>xs_settings := s1\<rparr>, Refused refusal)
            | (s1, None) \<Rightarrow>
                (let st1 = st\<lparr>xs_settings := s1\<rparr>
                 in case decode_body False open_field ([], []) (wr_Body r) of
                      Inl _ \<Rightarrow> (st1, GivenStatus 400)
                    | Inr (appID, paths) \<Rightarrow>
                        if SafeName appID \<noteq> appID \<or> length paths > 64 then (st1, GivenStatus 400)
                        else (let valid = absolute_paths paths in (add_opens appID valid st1, Queued (length valid))))))"

text \<open>A queue file is made empty and then written. Whoever lists the directory in between finds it empty and removes
  it; what is written then is lost, and no failure is seen.\<close>

definition queue_create :: "external_env \<Rightarrow> string \<Rightarrow> external_state \<Rightarrow> external_state \<times> (string + string)" where
  "queue_create env appID st =
     (if SafeName appID \<noteq> appID \<or> appID = [] then (st, Inl ''app id is invalid'')
      else (case xe_create_fault env of
              Some e \<Rightarrow> (st, Inl e)
            | None \<Rightarrow>
                (let dir = queue_dir appID; name = xe_temp env (map fst (files_at st dir))
                 in (set_files dir (insort_key fst (name, None) (files_at st dir)) st, Inr name))))"

definition queue_write :: "external_env \<Rightarrow> string \<Rightarrow> string \<Rightarrow> string list \<Rightarrow> external_state \<Rightarrow> external_state \<times> string option" where
  "queue_write env appID name paths st =
     (let dir = queue_dir appID; files = files_at st dir
      in case xe_write_fault env of
           Some e \<Rightarrow> (set_files dir (filter (\<lambda>f. fst f \<noteq> name) files) st, Some e)
         | None \<Rightarrow> (set_files dir (map (\<lambda>f. if fst f = name then (name, Some (absolute_paths paths)) else f) files) st, None))"

text \<open>The result is the failure, if any.\<close>

definition QueueExternalOpenFallback :: "external_env \<Rightarrow> string \<Rightarrow> string list \<Rightarrow> external_state \<Rightarrow> external_state \<times> string option" where
  "QueueExternalOpenFallback env appID paths st =
     (case queue_create env appID st of
        (st1, Inl e) \<Rightarrow> (st1, Some e)
      | (st1, Inr name) \<Rightarrow> queue_write env appID name paths st1)"

text \<open>\<open>queueDraftOpen\<close> of \<open>apps.go\<close>: a draft is queued both ways.\<close>

definition queueDraftOpen :: "external_env \<Rightarrow> string \<Rightarrow> string \<Rightarrow> external_state \<Rightarrow> external_state" where
  "queueDraftOpen env appID projectRoot st =
     fst (QueueExternalOpenFallback env appID [projectRoot] (add_opens appID [projectRoot] st))"

subsection \<open>Taking\<close>

definition takePersistedExternalOpens :: "external_env \<Rightarrow> string \<Rightarrow> external_state \<Rightarrow> external_state \<times> string list" where
  "takePersistedExternalOpens env key st =
     (let dir = queue_dir (SafeName key); files = files_at st dir in
      if \<not> xe_listable env dir then (st, [])
      else (set_files dir (filter (\<lambda>(name, _). \<not> xe_removable env name) files) st,
            concat (map (\<lambda>(name, content). case content of Some paths \<Rightarrow> if xe_readable env name then paths else [] | None \<Rightarrow> []) files)))"

definition take_memory :: "string \<Rightarrow> external_state \<Rightarrow> external_state \<times> string list" where
  "take_memory key st = (st\<lparr>xs_opens := AList.delete key (xs_opens st)\<rparr>, opens_at st key)"

text \<open>The loops over the keys.\<close>

fun take_each :: "(string \<Rightarrow> external_state \<Rightarrow> external_state \<times> string list) \<Rightarrow> string list \<Rightarrow> external_state \<Rightarrow> external_state \<times> string list" where
  "take_each take_one [] st = (st, [])"
| "take_each take_one (key # keys) st =
     (let (st1, paths) = take_one key st; (st2, more) = take_each take_one keys st1 in (st2, paths @ more))"

definition open_keys :: "string \<Rightarrow> string list" where
  "open_keys appID = (if storeSlug appID \<noteq> appID then [appID, storeSlug appID] else [appID])"

definition take_paths :: "external_env \<Rightarrow> string \<Rightarrow> external_state \<Rightarrow> external_state \<times> string list" where
  "take_paths env appID st =
     (let (st1, live) = take_each take_memory (open_keys appID) st;
          (st2, persisted) = take_each (takePersistedExternalOpens env) (open_keys appID) st1
      in (st2, live @ persisted))"

datatype open_record =
    DirectoryRecord string string
  | FileRecord string string string string string \<comment> \<open>path, name, extension, MIME type and content\<close>

definition open_record_of :: "external_env \<Rightarrow> string \<Rightarrow> open_record list" where
  "open_record_of env path =
     (case xe_file env path of
        OpenedDirectory \<Rightarrow> [DirectoryRecord path (path_base path)]
      | OpenedFile (Some data) \<Rightarrow>
          if length data > maxReadBytes then []
          else [FileRecord path (path_base path) (trim_prefix (to_lower (path_ext path)) ''.'') (xe_mime env data) data]
      | _ \<Rightarrow> [])"

definition handleExternalOpenRPC :: "external_env \<Rightarrow> message \<Rightarrow> external_state \<Rightarrow> external_state \<times> (string + open_record list)" where
  "handleExternalOpenRPC env request st =
     (if m_Method request \<noteq> ''takeData'' \<or> m_AppID request = [] then (st, Inl ''unsupported external-open method'')
      else (let (st1, paths) = take_paths env (m_AppID request) st in (st1, Inr (concat (map (open_record_of env) paths)))))"

text \<open>The launcher's request to the agent.\<close>

definition QueueExternalOpen :: "(string \<Rightarrow> any \<Rightarrow> string + int \<times> string) \<Rightarrow> string \<Rightarrow> string \<Rightarrow> string list \<Rightarrow> string option" where
  "QueueExternalOpen send address appID paths =
     (case send (''http://'' @ address @ ''/external-open'') (ObjV [(''appId'', StrV appID), (''paths'', listed paths)]) of
        Inl e \<Rightarrow> Some e
      | Inr (status, detail) \<Rightarrow> if status \<noteq> 200 then Some (''Shell agent rejected external open: '' @ take 1024 detail) else None)"

end
