(* ===== verification/External_Properties.thy ===== *)
theory External_Properties
  imports External_Open Settings_Properties
begin

text \<open>
  Files opened for an app: the queue is a bag of paths by place, each request is one operation on the bag, what is
  taken is taken once, and which apps share a place.
\<close>

text \<open>Where paths wait: in memory under an app id, or in the files of a directory below the state directory.\<close>

datatype place = Memory string | Folder "string list"

type_synonym open_bag = "place \<Rightarrow> string multiset"

definition open_bag :: "external_state \<Rightarrow> open_bag" where
  "open_bag st p =
     (case p of
        Memory key \<Rightarrow> mset (opens_at st key)
      | Folder dir \<Rightarrow> mset (concat (map (\<lambda>(_, content). case content of Some paths \<Rightarrow> paths | None \<Rightarrow> []) (files_at st dir))))"

definition bag_add :: "place \<Rightarrow> string list \<Rightarrow> open_bag \<Rightarrow> open_bag" where
  "bag_add p paths b = b(p := b p + mset paths)"

definition open_places :: "string \<Rightarrow> place set" where
  "open_places appID = Memory ` set (open_keys appID) \<union> (\<lambda>key. Folder (queue_dir (SafeName key))) ` set (open_keys appID)"

definition bag_take :: "string \<Rightarrow> open_bag \<Rightarrow> open_bag" where
  "bag_take appID b = (\<lambda>p. if p \<in> open_places appID then {#} else b p)"

definition bag_taken :: "string \<Rightarrow> open_bag \<Rightarrow> string multiset" where
  "bag_taken appID b = (\<Sum>p \<in> open_places appID. b p)"

text \<open>A disk on which files can be listed, read and removed, and \<open>CreateTemp\<close>, which finds a name that is not in use.\<close>

definition calm_files :: "external_env \<Rightarrow> bool" where
  "calm_files env \<longleftrightarrow> xe_listable env = (\<lambda>_. True) \<and> xe_readable env = (\<lambda>_. True) \<and> xe_removable env = (\<lambda>_. True)
     \<and> (\<forall>names. xe_temp env names \<notin> set names)"

lemma files_set [simp]:
  "files_at (set_files dir files st) d = (if d = dir then files else files_at st d)"
  "opens_at (set_files dir files st) key = opens_at st key"
  by (simp_all add: files_at_def set_files_def opens_at_def update_conv')

lemma bag_memory: "open_bag (add_opens key paths st) = bag_add (Memory key) paths (open_bag st)"
  by (rule ext) (simp add: open_bag_def bag_add_def add_opens_def opens_at_def files_at_def split: place.split)

lemma bag_settings [simp]: "open_bag (st\<lparr>xs_settings := s\<rparr>) = open_bag st"
  by (rule ext) (simp add: open_bag_def opens_at_def files_at_def split: place.split)

lemma map_insort_new:
  assumes "x \<notin> fst ` set files"
  shows "mset (map (\<lambda>f. if fst f = x then (x, c) else f) (insort_key fst (x, None) files)) = add_mset (x, c) (mset files)"
    and "filter (\<lambda>f. fst f \<noteq> x) (insort_key fst (x, None) files) = files"
proof -
  have "map (\<lambda>f. if fst f = x then (x, c) else f) files = files" using assms by (intro map_idI) auto
  then show "mset (map (\<lambda>f. if fst f = x then (x, c) else f) (insort_key fst (x, None) files)) = add_mset (x, c) (mset files)"
    using assms by (induction files) auto
  show "filter (\<lambda>f. fst f \<noteq> x) (insort_key fst (x, None) files) = files"
    using assms by (induction files) (auto simp: filter_id_conv)
qed

definition listed_paths :: "queue_files \<Rightarrow> string multiset" where
  "listed_paths files = mset (concat (map (\<lambda>(_, content). case content of Some paths \<Rightarrow> paths | None \<Rightarrow> []) files))"

lemma listed_paths_sum:
  "listed_paths files = (\<Sum>f \<in># mset files. mset (case snd f of Some paths \<Rightarrow> paths | None \<Rightarrow> []))"
  by (induction files) (auto simp: listed_paths_def)

lemma listed_paths_mset: "mset files = mset files' \<Longrightarrow> listed_paths files = listed_paths files'"
  by (simp add: listed_paths_sum)

lemma bag_files: "open_bag (set_files dir files st) = (open_bag st)(Folder dir := listed_paths files)"
  by (rule ext) (simp add: open_bag_def listed_paths_def split: place.split)

lemma bag_folder: "open_bag st (Folder dir) = listed_paths (files_at st dir)"
  by (simp add: open_bag_def listed_paths_def)

lemma bag_fallback:
  assumes "calm_files env"
  shows "open_bag (fst (QueueExternalOpenFallback env appID paths st)) =
     (if snd (QueueExternalOpenFallback env appID paths st) = None
      then bag_add (Folder (queue_dir appID)) (absolute_paths paths) (open_bag st) else open_bag st)"
    and "snd (QueueExternalOpenFallback env appID paths st) = None \<longleftrightarrow>
      SafeName appID = appID \<and> appID \<noteq> [] \<and> xe_create_fault env = None \<and> xe_write_fault env = None"
proof -
  let ?dir = "queue_dir appID"
  let ?files = "files_at st ?dir"
  let ?name = "xe_temp env (map fst ?files)"
  let ?with = "insort_key fst (?name, None) ?files"
  have new: "?name \<notin> fst ` set ?files" using assms unfolding calm_files_def by (metis list.set_map)
  have written: "listed_paths (map (\<lambda>f. if fst f = ?name then (?name, Some (absolute_paths paths)) else f) ?with)
      = listed_paths ?files + mset (absolute_paths paths)"
  proof -
    have files: "mset (map (\<lambda>f. if fst f = ?name then (?name, Some (absolute_paths paths)) else f) ?with)
        = mset ((?name, Some (absolute_paths paths)) # ?files)"
      using map_insort_new(1) [OF new] by simp
    show ?thesis unfolding listed_paths_mset [OF files] by (simp add: listed_paths_sum)
  qed
  have same: "(open_bag st)(Folder ?dir := listed_paths ?files) = open_bag st" by (simp add: bag_folder [symmetric])
  show "snd (QueueExternalOpenFallback env appID paths st) = None \<longleftrightarrow>
      SafeName appID = appID \<and> appID \<noteq> [] \<and> xe_create_fault env = None \<and> xe_write_fault env = None"
    by (simp add: QueueExternalOpenFallback_def queue_create_def queue_write_def Let_def split: option.split)
  show "open_bag (fst (QueueExternalOpenFallback env appID paths st)) =
     (if snd (QueueExternalOpenFallback env appID paths st) = None
      then bag_add (Folder ?dir) (absolute_paths paths) (open_bag st) else open_bag st)"
    by (simp add: QueueExternalOpenFallback_def queue_create_def queue_write_def Let_def bag_files bag_add_def written
        map_insort_new(2) [OF new] same bag_folder split: option.split)
qed

lemma bag_http:
  assumes "handleExternalOpenHTTP env r st = (st', reply)"
  shows "open_bag st' =
    (case reply of
       Queued n \<Rightarrow> (case decode_body False open_field ([], []) (wr_Body r) of
                     Inr (appID, paths) \<Rightarrow> bag_add (Memory appID) (absolute_paths paths) (open_bag st) | Inl _ \<Rightarrow> open_bag st)
     | _ \<Rightarrow> open_bag st)"
  using assms
  by (auto simp: handleExternalOpenHTTP_def bag_memory Let_def split: if_splits prod.splits option.splits sum.splits)

lemma taken_memory: "mset (snd (take_memory key st)) = open_bag st (Memory key)"
  "open_bag (fst (take_memory key st)) = (open_bag st)(Memory key := {#})"
  by (simp_all add: take_memory_def open_bag_def opens_at_def files_at_def fun_eq_iff delete_conv' split: place.split)

lemma taken_folder:
  assumes "calm_files env"
  shows "mset (snd (takePersistedExternalOpens env key st)) = open_bag st (Folder (queue_dir (SafeName key)))"
    and "open_bag (fst (takePersistedExternalOpens env key st)) = (open_bag st)(Folder (queue_dir (SafeName key)) := {#})"
proof -
  show "mset (snd (takePersistedExternalOpens env key st)) = open_bag st (Folder (queue_dir (SafeName key)))"
    using assms by (simp add: takePersistedExternalOpens_def open_bag_def calm_files_def Let_def cong: option.case_cong)
  show "open_bag (fst (takePersistedExternalOpens env key st)) = (open_bag st)(Folder (queue_dir (SafeName key)) := {#})"
    using assms by (simp add: takePersistedExternalOpens_def calm_files_def case_prod_beta Let_def bag_files listed_paths_def)
qed

text \<open>Which files a taking app removes: all that can be removed in its directories, whatever they are.\<close>

lemma taken_files:
  assumes "calm_files env"
  shows "files_at (fst (take_each (takePersistedExternalOpens env) keys st)) d =
    (if d \<in> (\<lambda>key. queue_dir (SafeName key)) ` set keys then [] else files_at st d)"
proof (induction keys arbitrary: st)
  case (Cons key keys)
  obtain st1 paths where first: "takePersistedExternalOpens env key st = (st1, paths)" by fastforce
  then have "files_at st1 d = (if d = queue_dir (SafeName key) then [] else files_at st d)"
    using assms by (auto simp: takePersistedExternalOpens_def calm_files_def case_prod_beta Let_def)
  with first Cons.IH [of st1] show ?case by (cases "d = queue_dir (SafeName key)") (auto simp: case_prod_beta)
qed simp

lemma memory_keeps_files: "files_at (fst (take_each take_memory keys st)) d = files_at st d"
proof (induction keys arbitrary: st)
  case (Cons key keys)
  from Cons.IH [of "fst (take_memory key st)"] show ?case by (simp add: case_prod_beta) (simp add: take_memory_def files_at_def)
qed simp

text \<open>A loop that empties one place after the other.\<close>

lemma taken_each:
  assumes "\<And>key s. mset (snd (take_one key s)) = open_bag s (place key)"
    and "\<And>key s. open_bag (fst (take_one key s)) = (open_bag s)(place key := {#})"
  shows "mset (snd (take_each take_one keys st)) = (\<Sum>p \<in> place ` set keys. open_bag st p)
    \<and> open_bag (fst (take_each take_one keys st)) = (\<lambda>p. if p \<in> place ` set keys then {#} else open_bag st p)"
proof (induction keys arbitrary: st)
  case (Cons key keys)
  obtain st1 paths where first: "take_one key st = (st1, paths)" by fastforce
  obtain st2 more where rest: "take_each take_one keys st1 = (st2, more)" by fastforce
  have one: "mset paths = open_bag st (place key)" "open_bag st1 = (open_bag st)(place key := {#})"
    using assms [of key st] first by simp_all
  have two: "mset more = (\<Sum>p \<in> place ` set keys. open_bag st1 p)"
    "open_bag st2 = (\<lambda>p. if p \<in> place ` set keys then {#} else open_bag st1 p)"
    using Cons.IH [of st1] rest by simp_all
  have "(\<Sum>p \<in> place ` set keys. open_bag st1 p) = (\<Sum>p \<in> place ` set keys - {place key}. open_bag st p)"
    by (rule sum.mono_neutral_cong_right) (auto simp: one(2))
  then have "mset (paths @ more) = (\<Sum>p \<in> insert (place key) (place ` set keys). open_bag st p)"
    using one(1) two(1) by (simp add: sum.insert_remove)
  moreover have "open_bag st2 = (\<lambda>p. if p \<in> place ` set (key # keys) then {#} else open_bag st p)"
    by (auto simp: two(2) one(2) fun_eq_iff)
  ultimately show ?case using first rest by simp
qed (simp add: fun_eq_iff)

lemma bag_take_paths:
  assumes "calm_files env" "take_paths env appID st = (st', paths)"
  shows "open_bag st' = bag_take appID (open_bag st) \<and> mset paths = bag_taken appID (open_bag st)"
proof -
  let ?keys = "open_keys appID"
  let ?M = "Memory ` set ?keys" and ?F = "(\<lambda>k. Folder (queue_dir (SafeName k))) ` set ?keys"
  obtain st1 live where live: "take_each take_memory ?keys st = (st1, live)" by fastforce
  obtain st2 persisted where persisted: "take_each (takePersistedExternalOpens env) ?keys st1 = (st2, persisted)" by fastforce
  have result: "st' = st2" "paths = live @ persisted" using assms(2) live persisted by (simp_all add: take_paths_def)
  have one: "mset live = (\<Sum>p \<in> ?M. open_bag st p)" "open_bag st1 = (\<lambda>p. if p \<in> ?M then {#} else open_bag st p)"
    using taken_each [of take_memory Memory ?keys st] taken_memory live by simp_all
  have two: "mset persisted = (\<Sum>p \<in> ?F. open_bag st1 p)" "open_bag st2 = (\<lambda>p. if p \<in> ?F then {#} else open_bag st1 p)"
    using taken_each [of "takePersistedExternalOpens env" "\<lambda>k. Folder (queue_dir (SafeName k))" ?keys st1] taken_folder [OF assms(1)] persisted by simp_all
  have places: "open_places appID = ?M \<union> ?F" by (simp add: open_places_def image_image)
  have apart: "?M \<inter> ?F = {}" by auto
  have "(\<Sum>p \<in> ?F. open_bag st1 p) = (\<Sum>p \<in> ?F. open_bag st p)"
    by (rule sum.cong) (auto simp: one(2))
  then have "mset paths = bag_taken appID (open_bag st)"
    unfolding bag_taken_def places result(2) by (simp add: one(1) two(1) sum.union_disjoint apart)
  moreover have "open_bag st' = bag_take appID (open_bag st)"
    unfolding bag_take_def places result(1) by (auto simp: two(2) one(2) fun_eq_iff)
  ultimately show ?thesis by simp
qed

lemma http_queues:
  assumes "handleExternalOpenHTTP env r st = (st', reply)"
  shows "(\<exists>s n app named. reply = Queued n \<and> guardSettingsRequest (xe_settings env) r True (xs_settings st) = (s, None) \<and> SafeName app = app
            \<and> open_bag st' = bag_add (Memory app) (absolute_paths named) (open_bag st) \<and> n = length (absolute_paths named))
        \<or> (\<forall>n. reply \<noteq> Queued n) \<and> open_bag st' = open_bag st"
proof (cases "\<exists>n. reply = Queued n")
  case True
  then obtain n where "reply = Queued n" by blast
  then obtain s app named where "guardSettingsRequest (xe_settings env) r True (xs_settings st) = (s, None)" "SafeName app = app"
    "st' = add_opens app (absolute_paths named) (st\<lparr>xs_settings := s\<rparr>)" "n = length (absolute_paths named)"
    using assms by (auto simp: handleExternalOpenHTTP_def Let_def split: if_splits prod.splits option.splits sum.splits)
  with \<open>reply = Queued n\<close> show ?thesis by (simp add: bag_memory) blast
next
  case False
  then show ?thesis using bag_http [OF assms] by (cases reply) auto
qed

lemma take_paths_files:
  assumes "calm_files env"
  shows "files_at (fst (take_paths env appID st)) d = (if Folder d \<in> open_places appID then [] else files_at st d)"
  using taken_files [OF assms, of "open_keys appID" "fst (take_each take_memory (open_keys appID) st)" d]
    memory_keeps_files [of "open_keys appID" st d]
  by (auto simp: take_paths_def case_prod_beta open_places_def image_iff)


text \<open>Apps with different plain ids share no place, and their files are in directories of their own.\<close>

definition plain_id :: "string \<Rightarrow> bool" where
  "plain_id a \<longleftrightarrow> SafeName a = a \<and> a \<noteq> [] \<and> a \<noteq> ''.'' \<and> a \<noteq> ''..''"

lemma plain_places:
  assumes "plain_id a"
  shows "open_places a = {Memory a, Folder [''external-open'', a]}"
proof -
  have "\<not> safe_char (CHR ''/'')" by code_simp
  then have "CHR ''/'' \<notin> set a" using assms unfolding plain_id_def SafeName_fixed list_all_iff by blast
  then show ?thesis using assms by (simp add: plain_id_def storeSlug_def open_places_def open_keys_def queue_dir_def insert_commute)
qed

lemma plain_apps_are_apart: "plain_id a \<Longrightarrow> plain_id b \<Longrightarrow> a \<noteq> b \<Longrightarrow> open_places a \<inter> open_places b = {}"
  by (simp add: plain_places)

text \<open>The id of two dots is its own safe name and leads to the state directory: taking its files removes every file
  there, the configuration among them.\<close>

lemma dots_take_the_state_directory:
  assumes "calm_files env"
  shows "files_at (fst (take_paths env ''..'' st)) [] = []"
proof -
  have "SafeName ''..'' = ''..''" by code_simp
  then have "Folder [] \<in> open_places ''..''" by (auto simp: open_places_def open_keys_def queue_dir_def)
  with take_paths_files [OF assms] show ?thesis by simp
qed

text \<open>A full store id does not have a directory of its own: it is the one of the plain id in which the slash is an
  underscore.\<close>

lemma full_id_takes_anothers_files:
  "Folder [''external-open'', ''a_b''] \<in> open_places ''a/b'' \<inter> open_places ''a_b''"
proof -
  have "SafeName ''a/b'' = ''a_b''" "SafeName ''a_b'' = ''a_b''" "storeSlug ''a_b'' = ''a_b''" "storeSlug ''a/b'' = ''b''" by code_simp+
  then show ?thesis by (auto simp: open_places_def open_keys_def queue_dir_def)
qed

text \<open>Paths written to a queue file that a taking app found empty are lost, and the launcher is told that all is well.\<close>

lemma files_taken_while_written_are_lost:
  assumes "calm_files env" "SafeName appID = appID" "xe_write_fault env = None" "queue_create env appID st = (st1, Inr name)"
    and "st2 = fst (takePersistedExternalOpens env appID st1)"
  shows "snd (queue_write env appID name paths st2) = None \<and> files_at (fst (queue_write env appID name paths st2)) (queue_dir appID) = []"
proof -
  have "files_at st2 (queue_dir appID) = []"
    using assms(1,2) by (simp add: assms(5) takePersistedExternalOpens_def calm_files_def Let_def case_prod_beta)
  then show ?thesis using assms(3) by (simp add: queue_write_def Let_def)
qed

text \<open>A draft waits at two places, so its app is told of it twice.\<close>

lemma drafts_are_opened_twice:
  assumes "calm_files env" "SafeName appID = appID" "appID \<noteq> []" "xe_create_fault env = None" "xe_write_fault env = None"
    and "rooted (path_clean draft)"
  shows "open_bag (queueDraftOpen env appID draft st) =
    bag_add (Folder (queue_dir appID)) [path_clean draft] (bag_add (Memory appID) [draft] (open_bag st))"
  using assms by (simp add: queueDraftOpen_def bag_fallback bag_memory absolute_paths_def)

definition calm_external :: external_env where
  "calm_external = \<lparr>xe_settings = sample_settings_env, xe_temp = (\<lambda>names. ''.'' @ concat names), xe_create_fault = None, xe_write_fault = None, xe_listable = (\<lambda>_. True), xe_readable = (\<lambda>_. True),
     xe_removable = (\<lambda>_. True), xe_file = (\<lambda>_. MissingFile), xe_mime = (\<lambda>_. [])\<rparr>"

definition sample_opens :: external_state where
  "sample_opens = \<lparr>xs_settings = sample_settings, xs_opens = [(''b'', [''/x'', ''/y''])], xs_files = [([''external-open'', ''a_b''], [(''f'', Some [''/z''])])]\<rparr>"

definition sample_open_request :: web_request where
  "sample_open_request = sample_start_request\<lparr>wr_Path := ''/external-open'',
     wr_Body := JsonBody (ObjV [(''appId'', StrV ''b''), (''paths'', ArrV [StrV ''/w'', StrV ''v''])])\<rparr>"

definition sample_take :: message where
  "sample_take = blank_message\<lparr>m_Method := ''takeData'', m_AppID := ''a/b''\<rparr>"

lemma calm_external_calm: "calm_files calm_external"
proof -
  have longer: "length n \<le> length (concat names)" if "n \<in> set names" for n and names :: "string list"
    using that by (induction names) auto
  have "''.'' @ concat names \<notin> set names" for names
    using longer [of "''.'' @ concat names" names] by auto
  then show ?thesis by (simp add: calm_files_def calm_external_def)
qed


end
