(* ===== verification/Decimals.thy ===== *)
theory Decimals
  imports Go_Url
begin

text \<open>Decimal numbers in text, as \<open>strconv\<close> and \<open>fmt\<close> read and print them.\<close>

text \<open>\<open>strconv.Atoi\<close> and whether it succeeds; a value outside \<open>int\<close> comes back saturated.\<close>

definition atoi :: "string \<Rightarrow> int \<times> bool" where
  "atoi s =
     (let (sign, ds) = (case s of CHR ''-'' # r \<Rightarrow> (- 1, r) | CHR ''+'' # r \<Rightarrow> (1, r) | _ \<Rightarrow> (1, s));
          v = sign * int (dec_value 0 ds)
      in if ds = [] \<or> \<not> list_all is_digit ds then (0, False)
         else if v > 2 ^ 63 - 1 then (2 ^ 63 - 1, False)
         else if v < - (2 ^ 63) then (- (2 ^ 63), False)
         else (v, True))"

definition fmt_int :: "int \<Rightarrow> string" where
  "fmt_int i = (if i < 0 then CHR ''-'' # fmt_uint 10 (nat (- i)) else fmt_uint 10 (nat i))"

end
