(* ===== verification/System_Services.thy ===== *)
theory System_Services
  imports Gate Config Paths Decimals "HOL-Library.List_Lexorder" "HOL-Library.Char_ord"
begin

text \<open>
  Smaller services: the list of ports and the end of a process (\<open>shellagent/system_services.go\<close>), secrets
  (\<open>shellagent/services.go\<close>) and the dispatch of requests to services (\<open>shellagent/rpc.go\<close>). The output of the system's
  tools, the credential store and faults of the disk are parameters.
\<close>

subsection \<open>Ports\<close>

record portListener =
  pl_Address :: string
  pl_Port :: int
  pl_Protocol :: string
  pl_PID :: "int option"
  pl_ProcessName :: string
  pl_Executable :: string

fun before_arrow :: "string \<Rightarrow> string" where
  "before_arrow [] = []"
| "before_arrow (c # cs) = (if has_prefix (c # cs) ''->'' then [] else c # before_arrow cs)"

definition parseEndpoint :: "string \<Rightarrow> (string \<times> int) option" where
  "parseEndpoint value0 =
     (let value = before_arrow value0 in
      if CHR '':'' \<notin> set value then None
      else (let text = after_last (CHR '':'') value; (port, ok) = atoi text;
                address = trim_set ''[]'' (take (length value - length text - 1) value)
            in if \<not> ok \<or> port < 1 \<or> port > 65535 then None
               else Some (if address = [] then ''*'' else address, port)))"

text \<open>\<open>bufio.Scanner\<close>: the lines without their ends, up to the first that does not fit its buffer.\<close>

definition scan_lines :: "string \<Rightarrow> string list" where
  "scan_lines output =
     map (\<lambda>l. if has_suffix l [CHR 0x0D] then butlast l else l) (takeWhile (\<lambda>l. length l < 65536) (split_on (CHR 0x0A) output))"

text \<open>The variables of the loop over the output of \<open>lsof\<close>.\<close>

record lsof_state =
  lf_pid :: int
  lf_name :: string
  lf_protocol :: string
  lf_endpoint :: string
  lf_found :: "portListener list"

definition lsof_flush :: "lsof_state \<Rightarrow> lsof_state" where
  "lsof_flush st =
     (let st1 = st\<lparr>lf_protocol := [], lf_endpoint := []\<rparr>
      in case parseEndpoint (lf_endpoint st) of
           None \<Rightarrow> st1
         | Some (address, port) \<Rightarrow>
             if lf_pid st > 0 \<and> \<not> contains_sub (lf_endpoint st) ''->''
             then st1\<lparr>lf_found := lf_found st @ [\<lparr>pl_Address = address, pl_Port = port, pl_Protocol = to_lower (lf_protocol st),
                        pl_PID = Some (lf_pid st), pl_ProcessName = lf_name st, pl_Executable = []\<rparr>]\<rparr>
             else st1)"

definition lsof_line :: "string \<Rightarrow> lsof_state \<Rightarrow> lsof_state" where
  "lsof_line line st =
     (case line of
        [] \<Rightarrow> st
      | c # rest \<Rightarrow>
          if c = CHR ''p'' then (lsof_flush st)\<lparr>lf_pid := fst (atoi rest)\<rparr>
          else if c = CHR ''c'' then st\<lparr>lf_name := rest\<rparr>
          else if c = CHR ''f'' then lsof_flush st
          else if c = CHR ''P'' then st\<lparr>lf_protocol := rest\<rparr>
          else if c = CHR ''n'' then st\<lparr>lf_endpoint := rest\<rparr>
          else st)"

definition port_key :: "portListener \<Rightarrow> string" where
  "port_key v = pl_Protocol v @ '':'' @ pl_Address v @ '':'' @ fmt_int (pl_Port v) @ '':'' @
     (case pl_PID v of None \<Rightarrow> ''unknown'' | Some pid \<Rightarrow> fmt_int pid)"

fun first_of_key :: "string list \<Rightarrow> portListener list \<Rightarrow> portListener list" where
  "first_of_key seen [] = []"
| "first_of_key seen (v # rest) =
     (if port_key v \<in> set seen then first_of_key seen rest else v # first_of_key (port_key v # seen) rest)"

text \<open>\<open>sort.Slice\<close> may order equal ports in any way; here they keep their order.\<close>

definition uniquePorts :: "portListener list \<Rightarrow> portListener list" where
  "uniquePorts values = sort_key pl_Port (first_of_key [] values)"

definition parseLsofPorts :: "string \<Rightarrow> portListener list" where
  "parseLsofPorts output =
     uniquePorts (lf_found (lsof_flush (fold lsof_line (scan_lines output)
       \<lparr>lf_pid = 0, lf_name = [], lf_protocol = [], lf_endpoint = [], lf_found = []\<rparr>)))"

text \<open>The matches of \<open>"([^"]+)",pid=(\d+)\<close>, from the left and apart from each other.\<close>

function ss_owners :: "string \<Rightarrow> (string \<times> string) list" where
  "ss_owners [] = []"
| "ss_owners (c # cs) =
     (let name = takeWhile (\<lambda>x. x \<noteq> CHR 0x22) cs; rest = drop 1 (dropWhile (\<lambda>x. x \<noteq> CHR 0x22) cs);
          digits = takeWhile is_digit (drop 5 rest)
      in if c = CHR 0x22 \<and> CHR 0x22 \<in> set cs \<and> name \<noteq> [] \<and> has_prefix rest '',pid='' \<and> digits \<noteq> []
         then (name, digits) # ss_owners (dropWhile is_digit (drop 5 rest))
         else ss_owners cs)"
  by pat_completeness auto

lemma length_after_match: "length (dropWhile p (drop n (dropWhile q cs))) < Suc (length cs)"
proof -
  have "length (dropWhile p xs) \<le> length xs" for p and xs :: "'b list" by (induction xs) auto
  then show ?thesis by (metis (no_types) diff_le_self le_imp_less_Suc length_drop order_trans)
qed

termination ss_owners
  by (relation "measure length") (simp_all add: length_after_match)

definition ss_line :: "string \<Rightarrow> portListener list" where
  "ss_line line =
     (let parts = Go_Prelude.fields line in
      if length parts < 5 then []
      else
        (let protocol = to_lower (parts ! 0); state = to_upper (parts ! 1) in
         if (protocol \<noteq> ''tcp'' \<and> protocol \<noteq> ''udp'') \<or> (protocol = ''tcp'' \<and> state \<noteq> ''LISTEN'') then []
         else (case parseEndpoint (parts ! 4) of
                 None \<Rightarrow> []
               | Some (address, port) \<Rightarrow>
                   (let listener = (\<lambda>pid name. \<lparr>pl_Address = address, pl_Port = port, pl_Protocol = protocol, pl_PID = pid,
                                                pl_ProcessName = name, pl_Executable = []\<rparr>)
                    in if ss_owners line = [] then [listener None ''Unavailable'']
                       else map (\<lambda>(name, pid). listener (Some (fst (atoi pid))) name) (ss_owners line)))))"

definition parseSSPorts :: "string \<Rightarrow> portListener list" where
  "parseSSPorts output = uniquePorts (concat (map ss_line (scan_lines output)))"

text \<open>The records PowerShell prints; a single one is not a list.\<close>

definition windows_listener :: "(rat \<Rightarrow> int) \<Rightarrow> (any \<Rightarrow> string) \<Rightarrow> any \<Rightarrow> portListener list" where
  "windows_listener ovf sprint item =
     (let m = (case as_obj item of None \<Rightarrow> [] | Some m \<Rightarrow> m); text = (\<lambda>k. StringValue sprint (obj_get m k));
          pid = integer64 ovf (obj_get m ''pid''); port = integer64 ovf (obj_get m ''port'')
      in if pid < 1 \<or> port < 1 then []
         else [\<lparr>pl_Address = text ''address'', pl_Port = port, pl_Protocol = text ''protocol'', pl_PID = Some pid,
                pl_ProcessName = text ''processName'', pl_Executable = text ''executable''\<rparr>])"

definition listWindowsPorts :: "(rat \<Rightarrow> int) \<Rightarrow> (any \<Rightarrow> string) \<Rightarrow> string + any \<Rightarrow> string + portListener list" where
  "listWindowsPorts ovf sprint output =
     map_sum id (\<lambda>raw. uniquePorts (concat (map (windows_listener ovf sprint) (case raw of ArrV xs \<Rightarrow> xs | _ \<Rightarrow> [raw])))) output"

record system_env =
  sm_goos :: string
  sm_lsof :: "string + string"
  sm_ss :: "string + string"
  sm_powershell :: "string + any"
  sm_ovf :: "rat \<Rightarrow> int"
  sm_sprint :: "any \<Rightarrow> string"
  sm_pid :: int
  sm_kill :: "int \<Rightarrow> string option" \<comment> \<open>why a process cannot be killed\<close>

definition listSystemPorts :: "system_env \<Rightarrow> string + portListener list" where
  "listSystemPorts env =
     (if sm_goos env = ''windows'' then listWindowsPorts (sm_ovf env) (sm_sprint env) (sm_powershell env)
      else (case sm_lsof env of
              Inr output \<Rightarrow> Inr (parseLsofPorts output)
            | Inl e \<Rightarrow> if sm_goos env \<noteq> ''linux'' then Inl e else map_sum id parseSSPorts (sm_ss env)))"

datatype system_reply = PortList "portListener list" | Killed int

text \<open>The result comes with the process that was killed, if one was.\<close>

definition handleSystemRPC :: "system_env \<Rightarrow> message \<Rightarrow> int option \<times> (string + system_reply)" where
  "handleSystemRPC env request =
     (if m_Method request = ''listPorts'' then (None, map_sum id PortList (listSystemPorts env))
      else if m_Method request = ''terminate'' then
        (let pid = integer64 (sm_ovf env) (case m_Args request of [] \<Rightarrow> NilV | x # _ \<Rightarrow> x) in
         if pid < 1 then (None, Inl ''a valid process id is required'')
         else if pid = sm_pid env then (None, Inl ''DynApp cannot terminate its own shell process'')
         else (case listSystemPorts env of
                 Inl e \<Rightarrow> (None, Inl e)
               | Inr listeners \<Rightarrow>
                   if \<not> list_ex (\<lambda>l. pl_PID l = Some pid) listeners
                   then (None, Inl (''process '' @ fmt_int pid @ '' is no longer listening on a port''))
                   else (case sm_kill env pid of
                           Some e \<Rightarrow> (None, Inl e)
                         | None \<Rightarrow> (Some pid, Inr (Killed pid)))))
      else (None, Inl ''unsupported system method''))"

subsection \<open>Secrets\<close>

record secret_state =
  sc_store :: "(string \<times> string, string) gomap" \<comment> \<open>the credential store, by service and name\<close>
  sc_metadata :: "(string, (string \<times> string) list) gomap" \<comment> \<open>the metadata files: names and times\<close>

definition secret_service :: "string \<Rightarrow> string" where
  "secret_service appID = ''DynApp/'' @ appID"

lemma secret_service_inj [simp]: "secret_service a = secret_service b \<longleftrightarrow> a = b"
  by (simp add: secret_service_def)

record secret_env =
  sc_now :: string
  sc_sprint :: "any \<Rightarrow> string"
  sc_load_fault :: "string option"
  sc_save_fault :: "string option"
  sc_set_fault :: "string option"
  sc_delete_fault :: bool

definition validSecretName :: "string \<Rightarrow> bool" where
  "validSecretName name \<longleftrightarrow>
     (case name of
        [] \<Rightarrow> False
      | c # cs \<Rightarrow>
          length name \<le> 128 \<and> (is_upper c \<or> is_lower c \<or> is_digit c)
          \<and> list_all (\<lambda>r. is_upper r \<or> is_lower r \<or> is_digit r \<or> r \<in> set ''._-'') cs)"

definition loadSecretMetadata :: "secret_env \<Rightarrow> string \<Rightarrow> secret_state \<Rightarrow> string + (string \<times> string) list" where
  "loadSecretMetadata env appID st =
     (case sc_load_fault env of
        Some e \<Rightarrow> Inl e
      | None \<Rightarrow> Inr (case map_of (sc_metadata st) (SafeName appID) of None \<Rightarrow> [] | Some values \<Rightarrow> values))"

definition saveSecretMetadata :: "secret_env \<Rightarrow> string \<Rightarrow> (string \<times> string) list \<Rightarrow> secret_state \<Rightarrow> secret_state \<times> string option" where
  "saveSecretMetadata env appID values st =
     (case sc_save_fault env of
        Some e \<Rightarrow> (st, Some e)
      | None \<Rightarrow> (st\<lparr>sc_metadata := AList.update (SafeName appID) values (sc_metadata st)\<rparr>, None))"

datatype secret_reply = SecretNames "(string \<times> string) list" | SecretSet string string | SecretRemoved bool | SecretPanic

definition with_secret :: "string \<Rightarrow> string \<Rightarrow> (string \<times> string) list \<Rightarrow> (string \<times> string) list" where
  "with_secret name now metadata =
     (let stamped = map (\<lambda>(n, t). if n = name then (n, now) else (n, t)) metadata
      in sort_key fst (if list_ex (\<lambda>(n, _). n = name) metadata then stamped else stamped @ [(name, now)]))"

definition secret_configure :: "secret_env \<Rightarrow> string \<Rightarrow> any list \<Rightarrow> (string \<times> string) list \<Rightarrow> secret_state \<Rightarrow> secret_state \<times> (string + secret_reply)" where
  "secret_configure env appID args metadata st =
     (if length args < 2 then (st, Inl ''secret value is required'')
      else (let name = StringValue (sc_sprint env) (args ! 0); value = StringValue (sc_sprint env) (args ! 1) in
            if \<not> validSecretName name \<or> value = [] \<or> length value > 64 * 1024 then (st, Inl ''secret is invalid'')
            else (case sc_set_fault env of
                    Some e \<Rightarrow> (st, Inl e)
                  | None \<Rightarrow>
                      (let st1 = st\<lparr>sc_store := AList.update (secret_service appID, name) value (sc_store st)\<rparr>
                       in case saveSecretMetadata env appID (with_secret name (sc_now env) metadata) st1 of
                            (st2, Some e) \<Rightarrow> (st2, Inl e)
                          | (st2, None) \<Rightarrow> (st2, Inr (SecretSet name (sc_now env)))))))"

text \<open>The failure of the credential store is ignored; without arguments the handler panics.\<close>

definition secret_remove :: "secret_env \<Rightarrow> string \<Rightarrow> any list \<Rightarrow> (string \<times> string) list \<Rightarrow> secret_state \<Rightarrow> secret_state \<times> (string + secret_reply)" where
  "secret_remove env appID args metadata st =
     (case args of
        [] \<Rightarrow> (st, Inr SecretPanic)
      | arg # _ \<Rightarrow>
          (let name = StringValue (sc_sprint env) arg;
               st1 = (if sc_delete_fault env then st else st\<lparr>sc_store := AList.delete (secret_service appID, name) (sc_store st)\<rparr>)
           in case saveSecretMetadata env appID (filter (\<lambda>(n, _). n \<noteq> name) metadata) st1 of
                (st2, Some e) \<Rightarrow> (st2, Inl e)
              | (st2, None) \<Rightarrow> (st2, Inr (SecretRemoved (list_ex (\<lambda>(n, _). n = name) metadata)))))"

definition handleSecretsRPC :: "secret_env \<Rightarrow> message \<Rightarrow> secret_state \<Rightarrow> secret_state \<times> (string + secret_reply)" where
  "handleSecretsRPC env request st =
     (let appID = m_AppID request in
      if appID = [] then (st, Inl ''app id is required'')
      else (case loadSecretMetadata env appID st of
              Inl e \<Rightarrow> (st, Inl e)
            | Inr metadata \<Rightarrow>
                if m_Method request = ''listMetadata'' then (st, Inr (SecretNames metadata))
                else if m_Method request = ''configure'' then secret_configure env appID (m_Args request) metadata st
                else if m_Method request = ''remove'' then secret_remove env appID (m_Args request) metadata st
                else (st, Inl ''unsupported secrets method'')))"

subsection \<open>The dispatch\<close>

datatype rpc_service =
    AgentRPC | CalendarRPC | FileSearchRPC | SecretsRPC | NetworkFileRPC | ExternalOpenRPC | AssociationsRPC | FileImportRPC
  | ClipboardRPC | DragRPC | LanRPC | SessionsRPC | SystemRPC | HttpRPC | AppsRPC | PermissionsRPC

definition rpc_services :: "(string \<times> rpc_service) list" where
  "rpc_services =
     [(''agent'', AgentRPC), (''calendar'', CalendarRPC), (''fileSearch'', FileSearchRPC), (''secrets'', SecretsRPC),
      (''ftp'', NetworkFileRPC), (''sftp'', NetworkFileRPC), (''externalOpen'', ExternalOpenRPC),
      (''associations'', AssociationsRPC), (''fileImport'', FileImportRPC), (''clipboard'', ClipboardRPC), (''drag'', DragRPC),
      (''lan'', LanRPC), (''sessions'', SessionsRPC), (''system'', SystemRPC), (''http'', HttpRPC), (''apps'', AppsRPC),
      (''permissions'', PermissionsRPC)]"

datatype 'r rpc_answer = RpcResult string string 'r | RpcFailed reply

text \<open>The handlers are those of the services' theories.\<close>

definition handleRPC :: "(rpc_service \<Rightarrow> message \<Rightarrow> 's \<Rightarrow> 's \<times> (string + 'r)) \<Rightarrow> message \<Rightarrow> 's \<Rightarrow> 's \<times> 'r rpc_answer" where
  "handleRPC handlers request st =
     (let fail = (\<lambda>e. RpcFailed (RpcError (m_ID request) (m_Service request) e))
      in case map_of rpc_services (m_Service request) of
           None \<Rightarrow> (st, fail ''unsupported Shell service'')
         | Some service \<Rightarrow>
             (case handlers service request st of
                (st1, Inl e) \<Rightarrow> (st1, fail e)
              | (st1, Inr result) \<Rightarrow> (st1, RpcResult (m_ID request) (m_Service request) result)))"

text \<open>What a request of a network filesystem needs beside the permission of its service.\<close>

definition network_file_check :: "(any \<Rightarrow> string) \<Rightarrow> message \<Rightarrow> (string \<Rightarrow> bool) \<Rightarrow> string option" where
  "network_file_check sprint request allows =
     (if m_Args request = [] then Some ''network connection is required''
      else if m_Method request = ''copyToLocal'' \<and> \<not> allows ''fs.writeBase64'' then Some ''copyToLocal requires fs.writeBase64''
      else if m_Method request = ''copyFromLocal'' \<and> \<not> allows ''fs.readBase64'' then Some ''copyFromLocal requires fs.readBase64''
      else if trim_space (StringValue sprint (obj_get (ObjectArg (m_Args request) 0) ''identityFile'')) \<noteq> [] \<and> \<not> allows ''fs.readText''
      then Some ''identityFile requires fs.readText'' else None)"

end
