(* ===== verification/System_Properties.thy ===== *)
theory System_Properties
  imports System_Services
begin

text \<open>
  The smaller services: which process may be ended, what a list of ports looks like, that the metadata of an
  app's secrets names what the credential store holds, and that every dispatched service has its permission.
\<close>

subsection \<open>Ports and processes\<close>

lemma killed_processes_listen:
  assumes "handleSystemRPC env request = (Some pid, reply)"
  shows "m_Method request = ''terminate'' \<and> 1 \<le> pid \<and> pid \<noteq> sm_pid env
    \<and> (\<exists>listeners. listSystemPorts env = Inr listeners \<and> (\<exists>l \<in> set listeners. pl_PID l = Some pid)) \<and> reply = Inr (Killed pid)"
  using assms unfolding handleSystemRPC_def Let_def list_ex_iff
  by (auto split: if_splits sum.splits option.splits)

lemma first_of_key_result:
  "set (first_of_key seen vs) \<subseteq> set vs \<and> distinct (map port_key (first_of_key seen vs))
   \<and> port_key ` set (first_of_key seen vs) = port_key ` set vs - set seen"
  by (induction seen vs rule: first_of_key.induct) auto

lemma uniquePorts_result:
  "sorted (map pl_Port (uniquePorts vs)) \<and> distinct (map port_key (uniquePorts vs))
   \<and> port_key ` set (uniquePorts vs) = port_key ` set vs \<and> set (uniquePorts vs) \<subseteq> set vs"
  using first_of_key_result [of "[]" vs] by (auto simp: uniquePorts_def distinct_map)

lemma endpoint_port: "parseEndpoint e = Some (address, port) \<Longrightarrow> 1 \<le> port \<and> port \<le> 65535 \<and> address \<noteq> []"
  by (auto simp: parseEndpoint_def Let_def split: if_splits prod.splits)

definition plausible :: "portListener \<Rightarrow> bool" where
  "plausible l \<longleftrightarrow> 1 \<le> pl_Port l \<and> pl_Port l \<le> 65535 \<and> pl_Address l \<noteq> []"

lemma flush_plausible: "list_all plausible (lf_found st) \<Longrightarrow> list_all plausible (lf_found (lsof_flush st))"
  by (auto simp: lsof_flush_def plausible_def Let_def split: option.split dest!: endpoint_port)

lemma line_plausible: "list_all plausible (lf_found st) \<Longrightarrow> list_all plausible (lf_found (lsof_line line st))"
  by (auto simp: lsof_line_def flush_plausible split: list.split)

lemma listed_ports_are_ports:
  "\<forall>l \<in> set (parseLsofPorts output). plausible l" "\<forall>l \<in> set (parseSSPorts output). plausible l"
proof -
  have "list_all plausible (lf_found (fold lsof_line ls st))" if "list_all plausible (lf_found st)" for ls st
    using that by (induction ls arbitrary: st) (simp_all add: line_plausible)
  then have "list_all plausible (lf_found (lsof_flush (fold lsof_line (scan_lines output)
      \<lparr>lf_pid = 0, lf_name = [], lf_protocol = [], lf_endpoint = [], lf_found = []\<rparr>)))"
    by (intro flush_plausible) simp
  then show "\<forall>l \<in> set (parseLsofPorts output). plausible l"
    unfolding parseLsofPorts_def list_all_iff using uniquePorts_result by blast
  have "\<forall>l \<in> set (ss_line line). plausible l" for line
    by (auto simp: ss_line_def plausible_def Let_def split: option.split dest!: endpoint_port endpoint_port [OF sym])
  then show "\<forall>l \<in> set (parseSSPorts output). plausible l"
    unfolding parseSSPorts_def using uniquePorts_result [of "concat (map ss_line (scan_lines output))"] by fastforce
qed

subsection \<open>Secrets\<close>

definition secret_names :: "secret_state \<Rightarrow> string \<Rightarrow> string set" where
  "secret_names st appID = fst ` set (case map_of (sc_metadata st) (SafeName appID) of None \<Rightarrow> [] | Some vs \<Rightarrow> vs)"

definition stored_names :: "secret_state \<Rightarrow> string \<Rightarrow> string set" where
  "stored_names st appID = {name. map_of (sc_store st) (secret_service appID, name) \<noteq> None}"

definition secrets_match :: "string set \<Rightarrow> secret_state \<Rightarrow> bool" where
  "secrets_match apps st \<longleftrightarrow> (\<forall>a \<in> apps. secret_names st a = stored_names st a)"

definition calm_secrets :: "secret_env \<Rightarrow> bool" where
  "calm_secrets env \<longleftrightarrow> sc_load_fault env = None \<and> sc_save_fault env = None \<and> \<not> sc_delete_fault env"

lemma with_secret_names: "fst ` set (with_secret name now metadata) = insert name (fst ` set metadata)"
proof -
  have "fst ` set (map (\<lambda>(n, t). if n = name then (n, now) else (n, t)) metadata) = fst ` set metadata"
    by (induction metadata) auto
  then show ?thesis by (force simp: with_secret_def Let_def list_ex_iff)
qed

lemma stored_after:
  "stored_names (st\<lparr>sc_store := AList.update (secret_service a, n) v (sc_store st), sc_metadata := m\<rparr>) b =
     (if a = b then insert n (stored_names st b) else stored_names st b)"
  "stored_names (st\<lparr>sc_store := AList.delete (secret_service a, n) (sc_store st), sc_metadata := m\<rparr>) b =
     (if a = b then stored_names st b - {n} else stored_names st b)"
  by (auto simp: stored_names_def delete_conv')

lemma names_after:
  assumes "inj_on SafeName apps" "a \<in> apps" "b \<in> apps"
  shows "secret_names (st\<lparr>sc_store := s, sc_metadata := AList.update (SafeName a) vs (sc_metadata st)\<rparr>) b =
    (if a = b then fst ` set vs else secret_names st b)"
  using inj_onD [OF assms(1) _ assms(2,3)] by (auto simp: secret_names_def)

text \<open>
  As long as nothing fails, the metadata of every app names exactly the secrets the credential store holds for
  it, provided no two of the apps have the same file name.
\<close>

lemma secrets_stay_matched:
  assumes inj: "inj_on SafeName apps" and app: "m_AppID request \<in> apps" and calm: "calm_secrets env" and match: "secrets_match apps st"
  shows "secrets_match apps (fst (handleSecretsRPC env request st))"
proof -
  let ?a = "m_AppID request"
  define metadata where "metadata = (case map_of (sc_metadata st) (SafeName ?a) of None \<Rightarrow> [] | Some vs \<Rightarrow> vs)"
  have names: "fst ` set metadata = stored_names st ?a"
    using match app by (simp add: secrets_match_def secret_names_def metadata_def)
  have removed: "fst ` {x \<in> set metadata. case x of (n, _) \<Rightarrow> n \<noteq> name} = fst ` set metadata - {name}" for name by force
  have set: "secrets_match apps (st\<lparr>sc_store := AList.update (secret_service ?a, n) v (sc_store st),
      sc_metadata := AList.update (SafeName ?a) (with_secret n now metadata) (sc_metadata st)\<rparr>)" for n v now
    using match names_after [OF inj app] by (simp add: secrets_match_def stored_after with_secret_names names)
  have remove: "secrets_match apps (st\<lparr>sc_store := AList.delete (secret_service ?a, n) (sc_store st),
      sc_metadata := AList.update (SafeName ?a) (filter (\<lambda>(n', _). n' \<noteq> n) metadata) (sc_metadata st)\<rparr>)" for n
    using match names_after [OF inj app] by (simp add: secrets_match_def stored_after removed names)
  have "secrets_match apps (fst (secret_configure env ?a args metadata st))" for args
    using calm match set by (simp add: secret_configure_def saveSecretMetadata_def calm_secrets_def Let_def split: option.split)
  moreover have "secrets_match apps (fst (secret_remove env ?a args metadata st))" for args
    using calm match remove by (cases args) (simp_all add: secret_remove_def saveSecretMetadata_def calm_secrets_def Let_def)
  ultimately show ?thesis using match calm
    by (simp add: handleSecretsRPC_def loadSecretMetadata_def calm_secrets_def metadata_def [symmetric] Let_def)
qed

text \<open>A failure of the credential store is not noticed: the name is gone and the secret stays.\<close>

lemma removed_secrets_may_stay:
  assumes "sc_delete_fault env" "sc_save_fault env = None"
  shows "sc_store (fst (secret_remove env appID [StrV name] metadata st)) = sc_store st
    \<and> name \<notin> secret_names (fst (secret_remove env appID [StrV name] metadata st)) appID"
  using assms by (auto simp: secret_remove_def saveSecretMetadata_def secret_names_def StringValue_def Let_def)

subsection \<open>The dispatch\<close>

lemma dispatched_services_need_permissions:
  assumes "map_of rpc_services (m_Service request) = Some service"
  shows "rpcCapability sprint request \<in> set (capabilities goos presentation screen) \<union> {''drag.files'', ''remoteEnv.manage'', permissionsManage}
    \<or> has_prefix (rpcCapability sprint request) ''net.protocol.''"
proof -
  have "m_Service request \<in> fst ` set rpc_services" using assms by (metis map_of_SomeD fst_conv image_eqI)
  then have "m_Service request \<in> {''agent'', ''calendar'', ''fileSearch'', ''secrets'', ''ftp'', ''sftp'', ''externalOpen'', ''associations'',
      ''fileImport'', ''clipboard'', ''drag'', ''lan'', ''sessions'', ''system'', ''http'', ''apps'', ''permissions''}"
    by (simp add: rpc_services_def)
  then show ?thesis
    by (elim insertE emptyE) (simp_all add: rpcCapability_def capabilities_def has_prefix_def permissionsManage_def Let_def split: option.split if_split)
qed

end
