(* ===== verification/Publishing.thy ===== *)
theory Publishing
  imports Source_Pack Project_Tree Dyner_Api Decimals Paths
    "HOL-Library.List_Lexorder" "HOL-Library.Char_ord"
begin

text \<open>
  Publishing a project (\<open>shellagent/apps_publish.go\<close>): its version is raised in up to four files, its source files
  are collected and those Dyner lacks are uploaded as a pack, and a revision is posted with the archive of its
  content; when something fails the version files are restored. Dyner's answers, JSON, SHA-256 and faults of the
  disk are parameters; an archive is its list of entries.
\<close>

record publishSourceFile =
  pf_Path :: string
  pf_Digest :: string
  pf_Size :: int
  pf_Mode :: int

datatype publish_body =
    NoContent
  | BlobList "(string \<times> int) list"
  | PackBody bytes
  | RevisionForm string string string obj "publishSourceFile list" "(string \<times> bytes) list"
      \<comment> \<open>id, version, message, manifest, source files and archive\<close>

record publish_request =
  pq_URL :: string
  pq_Bearer :: string
  pq_Body :: publish_body

record publish_env =
  pe_cwd :: string
  pe_token :: "string + string"
  pe_base :: string
  pe_sha :: "bytes \<Rightarrow> bytes"
  pe_sprint :: "any \<Rightarrow> string"
  pe_parse :: "bytes \<Rightarrow> string + any"
  pe_print :: "obj \<Rightarrow> bytes"
  pe_answer :: "publish_request list \<Rightarrow> publish_request \<Rightarrow> string + int \<times> obj" \<comment> \<open>a body that is no object is empty\<close>
  pe_read_fault :: "string \<Rightarrow> string option"
  pe_list_fault :: "string \<Rightarrow> string option"
  pe_write_fault :: "string \<Rightarrow> write_fault"
  pe_restore_fault :: "string \<Rightarrow> write_fault" \<comment> \<open>for a file that is removed: the removal fails\<close>

record publish_state =
  pb_projects :: "(string, source_node) gomap" \<comment> \<open>the folders, by absolute path\<close>
  pb_sent :: "publish_request list"

subsection \<open>The source files\<close>

definition excluded_name :: "bool \<Rightarrow> string \<Rightarrow> bool" where
  "excluded_name includeContent name \<longleftrightarrow>
     name \<in> {''.dymaker'', ''.git'', ''.hg'', ''.svn'', ''node_modules'', ''.cache'', ''.vite''} \<or> name = ''content'' \<and> \<not> includeContent"

definition source_file_of :: "publish_env \<Rightarrow> string \<Rightarrow> bytes \<Rightarrow> bool \<Rightarrow> publishSourceFile" where
  "source_file_of env rel data executable =
     \<lparr>pf_Path = rel, pf_Digest = sourceDigest (pe_sha env) data, pf_Size = int (length data), pf_Mode = (if executable then 493 else 420)\<rparr>"

text \<open>The walk: the function sees a directory with the failure to list it, before its entries.\<close>

function walk_source :: "publish_env \<Rightarrow> bool \<Rightarrow> string \<Rightarrow> string \<Rightarrow> source_node \<Rightarrow> string + publishSourceFile list"
  and walk_entries :: "publish_env \<Rightarrow> bool \<Rightarrow> string \<Rightarrow> (string \<times> source_node) list \<Rightarrow> string + publishSourceFile list" where
  "walk_source env inc rel name (SourceLink target) = Inl (''Source symlinks are not supported: '' @ rel)"
| "walk_source env inc rel name (SourceFile data executable) =
     (if excluded_name inc name then Inr []
      else (case pe_read_fault env rel of Some e \<Rightarrow> Inl e | None \<Rightarrow> Inr [source_file_of env rel data executable]))"
| "walk_source env inc rel name (SourceDir entries) =
     (case pe_list_fault env rel of
        Some e \<Rightarrow> Inl e
      | None \<Rightarrow> if excluded_name inc name then Inr [] else walk_entries env inc (rel @ ''/'') entries)"
| "walk_entries env inc dir [] = Inr []"
| "walk_entries env inc dir ((name, node) # rest) =
     (case walk_source env inc (dir @ name) name node of
        Inl e \<Rightarrow> Inl e
      | Inr files \<Rightarrow> map_sum id (\<lambda>more. files @ more) (walk_entries env inc dir rest))"
  by pat_completeness auto

termination
  by (relation "measure (case_sum (\<lambda>(_, _, _, _, n). 2 * size n) (\<lambda>(_, _, _, es). 2 * size (SourceDir es) - 1))") auto

text \<open>A root that is a link is not followed: the walk sees only the link.\<close>

definition collectPublishSource :: "publish_env \<Rightarrow> source_node \<Rightarrow> bool \<Rightarrow> string + publishSourceFile list" where
  "collectPublishSource env tree inc =
     map_sum id (sort_key pf_Path)
       (case tree of
          SourceDir entries \<Rightarrow> (case pe_list_fault env ''.'' of Some e \<Rightarrow> Inl e | None \<Rightarrow> walk_entries env inc [] entries)
        | _ \<Rightarrow> Inr [])"

definition manifestSourceRootIsContent :: "publish_env \<Rightarrow> obj \<Rightarrow> bool" where
  "manifestSourceRootIsContent env manifest =
     (let source = (case as_obj (obj_get manifest ''source'') of None \<Rightarrow> [] | Some m \<Rightarrow> m);
          slashed = map (\<lambda>c. if c = CHR 0x5C then CHR ''/'' else c) (StringValue (pe_sprint env) (obj_get source ''root''))
      in trim_prefix (trim_set '' /'' slashed) ''./'' = ''content'')"

subsection \<open>The archive of the content\<close>

text \<open>An entry of the root folder as it is, without following it.\<close>

fun find_entry :: "string \<Rightarrow> source_node \<Rightarrow> source_node option" where
  "find_entry name (SourceDir entries) = map_of entries name"
| "find_entry name (SourceLink (Some n)) = find_entry name n"
| "find_entry name _ = None"

function zip_node :: "publish_env \<Rightarrow> string \<Rightarrow> source_node \<Rightarrow> string + (string \<times> bytes) list"
  and zip_entries :: "publish_env \<Rightarrow> string \<Rightarrow> (string \<times> source_node) list \<Rightarrow> string + (string \<times> bytes) list" where
  "zip_node env rel (SourceLink target) =
     (case pe_read_fault env (''content/'' @ rel) of
        Some e \<Rightarrow> Inl e
      | None \<Rightarrow> (case file_at [] (SourceLink target) of None \<Rightarrow> Inl ''read error'' | Some (data, _) \<Rightarrow> Inr [(rel, data)]))"
| "zip_node env rel (SourceFile data executable) =
     (case pe_read_fault env (''content/'' @ rel) of Some e \<Rightarrow> Inl e | None \<Rightarrow> Inr [(rel, data)])"
| "zip_node env rel (SourceDir entries) =
     (case pe_list_fault env (''content/'' @ rel) of Some e \<Rightarrow> Inl e | None \<Rightarrow> zip_entries env (rel @ ''/'') entries)"
| "zip_entries env dir [] = Inr []"
| "zip_entries env dir ((name, node) # rest) =
     (case zip_node env (dir @ name) node of
        Inl e \<Rightarrow> Inl e
      | Inr files \<Rightarrow> map_sum id (\<lambda>more. files @ more) (zip_entries env dir rest))"
  by pat_completeness auto

termination
  by (relation "measure (case_sum (\<lambda>(_, _, n). 2 * size n) (\<lambda>(_, _, es). 2 * size (SourceDir es) - 1))") auto

text \<open>The folder \<open>content\<close> must be a directory itself: a link to one cannot be copied.\<close>

definition zipPublishContent :: "publish_env \<Rightarrow> source_node option \<Rightarrow> string \<Rightarrow> string + (string \<times> bytes) list" where
  "zipPublishContent env content notes =
     map_sum id (\<lambda>files. if notes \<noteq> [] then files @ [(''VERSION_NOTES.txt'', bytes_of (trim_space notes @ [CHR 0x0A]))] else files)
       (case content of
          Some (SourceDir entries) \<Rightarrow>
            (case pe_list_fault env ''content'' of Some e \<Rightarrow> Inl e | None \<Rightarrow> zip_entries env [] entries)
        | _ \<Rightarrow> Inl ''read error'')"

subsection \<open>Versions\<close>

definition plain_number :: "string \<Rightarrow> int option" where
  "plain_number s = (case atoi s of (v, ok) \<Rightarrow> if ok \<and> fmt_int v = s then Some v else None)"

text \<open>\<open>Sscanf\<close> and the comparison with what \<open>Sprintf\<close> makes of the numbers; the sum wraps.\<close>

definition bumpPatch :: "string \<Rightarrow> string + string" where
  "bumpPatch version =
     (let bad = Inl (''Cannot bump invalid semantic version '' @ version)
      in case split_on (CHR ''.'') version of
           [x, y, z] \<Rightarrow>
             (case (plain_number x, plain_number y, plain_number z) of
                (Some a, Some b, Some c) \<Rightarrow>
                  Inr (fmt_int a @ ''.'' @ fmt_int b @ ''.'' @ fmt_int (if c = 2 ^ 63 - 1 then - (2 ^ 63) else c + 1))
              | _ \<Rightarrow> bad)
         | _ \<Rightarrow> bad)"

definition firstString :: "publish_env \<Rightarrow> any \<Rightarrow> string \<Rightarrow> string" where
  "firstString env value fallback =
     (let t = trim_space (StringValue (pe_sprint env) value) in if t \<noteq> [] then t else fallback)"

definition publishError :: "publish_env \<Rightarrow> obj \<Rightarrow> int \<Rightarrow> string" where
  "publishError env payload status =
     (if firstString env (obj_get payload ''error'') [] \<noteq> [] then firstString env (obj_get payload ''error'') []
      else if firstString env (obj_get payload ''message'') [] \<noteq> [] then firstString env (obj_get payload ''message'') []
      else ''Dyner publish failed: HTTP '' @ fmt_int status)"

subsection \<open>The version files\<close>

definition slash_parts :: "string \<Rightarrow> string list" where
  "slash_parts = split_on (CHR ''/'')"

datatype json_file = NoFile | UnreadFile string | BadFile bytes string | JsonFile bytes "obj option"

definition readPublishJSON :: "publish_env \<Rightarrow> source_node \<Rightarrow> string \<Rightarrow> json_file" where
  "readPublishJSON env tree path =
     (case find_node (slash_parts path) tree of
        None \<Rightarrow> NoFile
      | Some node \<Rightarrow>
          (case (pe_read_fault env path, node) of
             (None, SourceFile data _) \<Rightarrow>
               (case pe_parse env data of
                  Inl e \<Rightarrow> BadFile data e
                | Inr NilV \<Rightarrow> JsonFile data None
                | Inr (ObjV m) \<Rightarrow> JsonFile data (Some m)
                | Inr _ \<Rightarrow> BadFile data json_mismatch)
           | (Some e, _) \<Rightarrow> UnreadFile e
           | _ \<Rightarrow> UnreadFile ''read error''))"

definition json_object :: "json_file \<Rightarrow> obj option" where
  "json_object f = (case f of JsonFile _ m \<Rightarrow> m | _ \<Rightarrow> None)"

definition json_text :: "json_file \<Rightarrow> bytes option" where
  "json_text f = (case f of JsonFile d _ \<Rightarrow> Some d | BadFile d _ \<Rightarrow> Some d | _ \<Rightarrow> None)"

definition writePublishJSON :: "publish_env \<Rightarrow> string \<Rightarrow> obj \<Rightarrow> source_node \<Rightarrow> source_node \<times> string option" where
  "writePublishJSON env path v tree = os_write (pe_write_fault env path) False (pe_print env v @ [0x0A]) (slash_parts path) tree"

text \<open>The loop over the writes: a failure leaves the files written before it, and its own as the failed write left it.\<close>

fun write_versions :: "publish_env \<Rightarrow> (string \<times> obj) list \<Rightarrow> source_node \<Rightarrow> source_node \<times> string option" where
  "write_versions env [] tree = (tree, None)"
| "write_versions env ((path, v) # rest) tree =
     (case writePublishJSON env path v tree of
        (tree', Some e) \<Rightarrow> (tree', Some e)
      | (tree', None) \<Rightarrow> write_versions env rest tree')"

text \<open>The version of the root package in a lock file.\<close>

definition lock_version :: "string \<Rightarrow> obj \<Rightarrow> obj" where
  "lock_version version lock =
     (let lock1 = AList.update ''version'' (StrV version) lock
      in case obj_get lock1 ''packages'' of
           ObjV packages \<Rightarrow>
             (case obj_get packages [] of
                ObjV main \<Rightarrow>
                  AList.update ''packages'' (ObjV (AList.update [] (ObjV (AList.update ''version'' (StrV version) main)) packages)) lock1
              | _ \<Rightarrow> lock1)
         | _ \<Rightarrow> lock1)"

record version_files =
  vf_manifest :: json_file
  vf_content :: json_file
  vf_package :: json_file
  vf_lock :: json_file

definition read_versions :: "publish_env \<Rightarrow> source_node \<Rightarrow> version_files" where
  "read_versions env tree =
     \<lparr>vf_manifest = readPublishJSON env tree ''app.json'', vf_content = readPublishJSON env tree ''content/version.json'',
      vf_package = readPublishJSON env tree ''package.json'', vf_lock = readPublishJSON env tree ''package-lock.json''\<rparr>"

definition or_empty :: "obj option \<Rightarrow> obj" where
  "or_empty m = (case m of None \<Rightarrow> [] | Some m \<Rightarrow> m)"

definition version_writes :: "string \<Rightarrow> version_files \<Rightarrow> (string \<times> obj) list" where
  "version_writes version vf =
     (let stamped = AList.update ''version'' (StrV version)
      in [(''app.json'', stamped (or_empty (json_object (vf_manifest vf)))),
          (''content/version.json'', stamped (or_empty (json_object (vf_content vf))))]
         @ (case json_object (vf_package vf) of None \<Rightarrow> [] | Some m \<Rightarrow> [(''package.json'', stamped m)])
         @ (case json_object (vf_lock vf) of None \<Rightarrow> [] | Some m \<Rightarrow> [(''package-lock.json'', lock_version version m)]))"

text \<open>The deferred function: a failure of one restoration does not stop the others.\<close>

definition restore_text :: "publish_env \<Rightarrow> string \<Rightarrow> bytes option \<Rightarrow> source_node \<Rightarrow> source_node" where
  "restore_text env path original tree =
     (case original of
        None \<Rightarrow> tree
      | Some data \<Rightarrow> fst (os_write (pe_restore_fault env path) False data (slash_parts path) tree))"

definition restore_versions :: "publish_env \<Rightarrow> version_files \<Rightarrow> source_node \<Rightarrow> source_node" where
  "restore_versions env vf tree =
     (let t1 = restore_text env ''app.json'' (json_text (vf_manifest vf)) tree;
          t2 = (if json_text (vf_content vf) = None
                then (if pe_restore_fault env ''content/version.json'' = None then drop_node (slash_parts ''content/version.json'') t1 else t1)
                else restore_text env ''content/version.json'' (json_text (vf_content vf)) t1);
          t3 = restore_text env ''package.json'' (json_text (vf_package vf)) t2
      in restore_text env ''package-lock.json'' (json_text (vf_lock vf)) t3)"

subsection \<open>Requests\<close>

type_synonym 'a sending = "publish_request list \<times> (string + 'a)"

definition publish_send :: "publish_env \<Rightarrow> string \<Rightarrow> string \<Rightarrow> publish_body \<Rightarrow> publish_request list \<Rightarrow> obj sending" where
  "publish_send env token url body sent =
     (let request = \<lparr>pq_URL = url, pq_Bearer = token, pq_Body = body\<rparr>
      in (sent @ [request],
          (case pe_answer env sent request of
             Inl e \<Rightarrow> Inl e
           | Inr (status, payload) \<Rightarrow> if ok_status status then Inr payload else Inl (publishError env payload status))))"

text \<open>The pack: the missing digests with the content of the last file that has each.\<close>

definition pack_entry_of :: "publish_env \<Rightarrow> source_node \<Rightarrow> publishSourceFile list \<Rightarrow> string \<Rightarrow> string + bytes" where
  "pack_entry_of env tree files digest =
     (case map_of (rev (map (\<lambda>f. (pf_Digest f, f)) files)) digest of
        None \<Rightarrow> Inl ''Dyner requested an unknown source blob''
      | Some f \<Rightarrow>
          (case (pe_read_fault env (pf_Path f), file_at (slash_parts (pf_Path f)) tree) of
             (Some e, _) \<Rightarrow> Inl e
           | (None, None) \<Rightarrow> Inl ''read error''
           | (None, Some (data, _)) \<Rightarrow>
               Inr (hex_prefix (trim_prefix (pf_Digest f) ''sha256:'') @ be64 (nat (pf_Size f)) @ data)))"

definition uploadPublishSources :: "publish_env \<Rightarrow> string \<Rightarrow> string \<Rightarrow> source_node \<Rightarrow> publishSourceFile list \<Rightarrow> publish_request list \<Rightarrow> unit sending" where
  "uploadPublishSources env base token tree files sent =
     (case publish_send env token (base @ ''/api/v1/source/blobs/check'') (BlobList (map (\<lambda>f. (pf_Digest f, pf_Size f)) files)) sent of
        (sent1, Inl e) \<Rightarrow> (sent1, Inl e)
      | (sent1, Inr checked) \<Rightarrow>
          (let missing = (case as_arr (obj_get checked ''missing'') of None \<Rightarrow> [] | Some xs \<Rightarrow> xs) in
           if missing = [] then (sent1, Inr ())
           else (case collect (map (\<lambda>item. pack_entry_of env tree files (StringValue (pe_sprint env) item)) missing) of
                   Inl e \<Rightarrow> (sent1, Inl e)
                 | Inr entries \<Rightarrow>
                     map_prod id (map_sum id (\<lambda>_. ()))
                       (publish_send env token (base @ ''/api/v1/source/packs'')
                         (PackBody (pack_magic @ be32 (length missing mod 2 ^ 32) @ concat entries)) sent1))))"

subsection \<open>Publishing\<close>

record publish_result =
  pr_StoreID :: string
  pr_RevisionID :: any
  pr_Version :: string
  pr_Message :: string

definition draft_id :: "string \<Rightarrow> bool" where
  "draft_id v \<longleftrightarrow>
     (case v of
        [] \<Rightarrow> False
      | c # cs \<Rightarrow> (is_lower c \<or> is_digit c) \<and> list_all (\<lambda>r. is_lower r \<or> is_digit r \<or> r \<in> set ''._-'') cs)"

text \<open>From the request for the account to the answer to the revision.\<close>

definition publish_remote :: "publish_env \<Rightarrow> obj \<Rightarrow> string \<Rightarrow> string \<Rightarrow> obj \<Rightarrow> string \<Rightarrow> source_node \<Rightarrow> publish_request list \<Rightarrow> publish_result sending" where
  "publish_remote env input token appID manifest version tree sent =
     (let base = (let b = trim_right_slash (pe_base env) in if b = [] then compiledDynerBaseURL else b);
          field = (\<lambda>m k. StringValue (pe_sprint env) (obj_get m k));
          object = (\<lambda>m k. or_empty (as_obj (obj_get m k)))
      in case publish_send env token (base @ ''/api/v1/me'') NoContent sent of
           (sent1, Inl e) \<Rightarrow> (sent1, Inl e)
         | (sent1, Inr account) \<Rightarrow>
             (let owner = trim_space (field (object account ''user'') ''id''); storeID = owner @ ''/'' @ appID in
              if owner = [] then (sent1, Inl ''The signed-in Dyner account has no publishing id'')
              else if trim_space (field (object manifest ''updates'') ''storeId'') \<noteq> storeID
              then (sent1, Inl (''app.json updates.storeId must be \"'' @ storeID @ ''\" before publishing''))
              else (case collectPublishSource env tree (manifestSourceRootIsContent env manifest) of
                      Inl e \<Rightarrow> (sent1, Inl e)
                    | Inr files \<Rightarrow>
                        (case uploadPublishSources env base token tree files sent1 of
                           (sent2, Inl e) \<Rightarrow> (sent2, Inl e)
                         | (sent2, Inr _) \<Rightarrow>
                             (case zipPublishContent env (find_entry ''content'' tree) (trim_space (field input ''releaseNotes'')) of
                                Inl e \<Rightarrow> (sent2, Inl e)
                              | Inr runnable \<Rightarrow>
                                  (let given = trim_space (field input ''message'');
                                       message = (if given \<noteq> [] then given
                                                  else ''Published '' @ field manifest ''name'' @ '' v'' @ version @ '' from DyMaker.'')
                                   in case publish_send env token (base @ ''/api/v1/revisions'')
                                             (RevisionForm storeID version message manifest files runnable) sent2 of
                                        (sent3, Inl e) \<Rightarrow> (sent3, Inl e)
                                      | (sent3, Inr payload) \<Rightarrow>
                                          (let revision = object payload ''revision''; app = object payload ''app'' in
                                           if field revision ''id'' = []
                                           then (sent3, Inl ''Dyner returned an invalid publish response'')
                                           else (sent3, Inr \<lparr>pr_StoreID = firstString env (obj_get app ''id'') storeID,
                                                  pr_RevisionID = obj_get revision ''id'',
                                                  pr_Version = firstString env (obj_get revision ''version'') version,
                                                  pr_Message = firstString env (obj_get revision ''message'') message\<rparr>))))))))"

definition publish_project :: "publish_env \<Rightarrow> obj \<Rightarrow> string \<Rightarrow> source_node \<Rightarrow> publish_request list \<Rightarrow> source_node \<times> publish_result sending" where
  "publish_project env input token tree sent =
     (let field = (\<lambda>m k. StringValue (pe_sprint env) (obj_get m k)); bump = field input ''bumpVersion'';
          vf = read_versions env tree; manifest = or_empty (json_object (vf_manifest vf));
          appID = trim_space (field manifest ''id''); fail = (\<lambda>e. (tree, sent, Inl e))
      in case vf_manifest vf of
           NoFile \<Rightarrow> fail ''app.json is invalid: no such file''
         | UnreadFile e \<Rightarrow> fail (''app.json is invalid: '' @ e)
         | BadFile _ e \<Rightarrow> fail (''app.json is invalid: '' @ e)
         | JsonFile _ _ \<Rightarrow>
             if \<not> draft_id appID then fail ''app.json has an invalid DynApp id''
             else if find_node [''content'', ''index.html''] tree = None
             then fail ''Build the app before publishing; content/index.html is missing''
             else if (case vf_content vf of UnreadFile _ \<Rightarrow> True | BadFile _ _ \<Rightarrow> True | _ \<Rightarrow> False)
             then fail (''content/version.json is invalid: '' @ (case vf_content vf of UnreadFile e \<Rightarrow> e | BadFile _ e \<Rightarrow> e | _ \<Rightarrow> []))
             else
               (let version0 = trim_space (field manifest ''version'');
                    version = (if version0 = [] then trim_space (field (or_empty (json_object (vf_content vf))) ''version'') else version0)
                in if bump \<noteq> [] \<and> bump \<noteq> ''patch'' then fail ''bumpVersion must be \"patch\" when provided''
                   else if bump \<noteq> ''patch'' then (tree, publish_remote env input token appID manifest version tree sent)
                   else (case bumpPatch version of
                           Inl e \<Rightarrow> fail e
                         | Inr raised \<Rightarrow>
                             (case write_versions env (version_writes raised vf) tree of
                                (tree1, Some e) \<Rightarrow> (tree1, sent, Inl e)
                              | (tree1, None) \<Rightarrow>
                                  (case publish_remote env input token appID (AList.update ''version'' (StrV raised) manifest) raised tree1 sent of
                                     (sent1, Inl e) \<Rightarrow> (restore_versions env vf tree1, sent1, Inl e)
                                   | (sent1, Inr result) \<Rightarrow> (tree1, sent1, Inr result))))))"

definition publishAppProject :: "publish_env \<Rightarrow> obj \<Rightarrow> publish_state \<Rightarrow> publish_state \<times> (string + publish_result)" where
  "publishAppProject env input st =
     (let root = path_abs (pe_cwd env) (trim_space (StringValue (pe_sprint env) (obj_get input ''projectRoot''))) in
      if root = [] then (st, Inl ''A DynApp project folder is required'')
      else (case map_of (pb_projects st) root of
              None \<Rightarrow> (st, Inl ''The DynApp project folder does not exist'')
            | Some tree \<Rightarrow>
                if \<not> dir_at [] tree then (st, Inl ''The DynApp project folder does not exist'')
                else (case pe_token env of
                        Inl _ \<Rightarrow> (st, Inl ''Sign in to Dyner before publishing'')
                      | Inr token \<Rightarrow>
                          if token = [] then (st, Inl ''Sign in to Dyner before publishing'')
                          else (case publish_project env input token tree (pb_sent st) of
                                  (tree', sent, result) \<Rightarrow>
                                    (\<lparr>pb_projects = AList.update root tree' (pb_projects st), pb_sent = sent\<rparr>, result)))))"

end
