(* ===== verification/Publish_Properties.thy ===== *)
theory Publish_Properties
  imports Publishing Source_Properties
begin

text \<open>
  Publishing: a failed publication leaves the project as it was, what is collected is every file outside the
  excluded folders, and what is published comes back byte for byte when the snapshot is opened as a draft.
\<close>

subsection \<open>What is collected\<close>

definition good_name :: "string \<Rightarrow> bool" where
  "good_name p \<longleftrightarrow> plain_part p \<and> CHR 0x5C \<notin> set p"

lemma size_of_member: "(p, n) \<in> set entries \<Longrightarrow> size n < size (SourceDir entries)"
  by (induction entries) auto

text \<open>A folder as a filesystem has it, without backslashes in names.\<close>

function names_ok :: "source_node \<Rightarrow> bool" where
  "names_ok (SourceFile d x) = True"
| "names_ok (SourceLink None) = True"
| "names_ok (SourceLink (Some t)) = names_ok t"
| "names_ok (SourceDir entries) = (distinct (map fst entries) \<and> (\<forall>(p, n) \<in> set entries. good_name p \<and> names_ok n))"
  by pat_completeness auto

termination names_ok
  by (relation "measure size") (auto dest: size_of_member)

definition below_path :: "string list \<Rightarrow> string" where
  "below_path ps = concat (map (\<lambda>q. CHR ''/'' # q) ps)"

lemma join_below: "join_slash (p # ps) = p @ below_path ps"
  by (simp add: join_slash_def below_path_def)

definition kept :: "bool \<Rightarrow> string list \<Rightarrow> bool" where
  "kept inc ps \<longleftrightarrow> list_all (\<lambda>p. \<not> excluded_name inc p) ps"

lemma kept_simps [simp]: "kept inc []" "kept inc (p # ps) \<longleftrightarrow> \<not> excluded_name inc p \<and> kept inc ps"
  by (simp_all add: kept_def)

definition found :: "publish_env \<Rightarrow> bool \<Rightarrow> string \<Rightarrow> source_node \<Rightarrow> publishSourceFile set" where
  "found env inc rel n = {source_file_of env (rel @ below_path ps) d x | ps d x. file_at ps n = Some (d, x) \<and> kept inc ps}"

definition found_in :: "publish_env \<Rightarrow> bool \<Rightarrow> string \<Rightarrow> (string \<times> source_node) list \<Rightarrow> publishSourceFile set" where
  "found_in env inc dir entries =
     {source_file_of env (dir @ join_slash ps) d x | ps d x. file_at ps (SourceDir entries) = Some (d, x) \<and> kept inc ps}"

lemma map_sum_Inr: "map_sum f g s = Inr y \<longleftrightarrow> (\<exists>x. s = Inr x \<and> y = g x)"
  by (cases s) auto

lemma foundI: "file_at ps n = Some (d, x) \<Longrightarrow> kept inc ps \<Longrightarrow> f = source_file_of env (rel @ below_path ps) d x \<Longrightarrow> f \<in> found env inc rel n"
  by (auto simp: found_def)

lemma found_inI: "file_at ps (SourceDir entries) = Some (d, x) \<Longrightarrow> kept inc ps \<Longrightarrow> f = source_file_of env (dir @ join_slash ps) d x \<Longrightarrow>
    f \<in> found_in env inc dir entries"
  by (auto simp: found_in_def)

lemma found_in_entries:
  assumes "distinct (map fst entries)"
  shows "found_in env inc dir entries = (\<Union>(p, n) \<in> set entries. if excluded_name inc p then {} else found env inc (dir @ p) n)"
proof -
  have entry: "file_at (p # qs) (SourceDir entries) = Some r \<longleftrightarrow> (\<exists>n. (p, n) \<in> set entries \<and> file_at qs n = Some r)" for p qs r
    unfolding map_of_eq_Some_iff [OF assms, symmetric] by (simp add: file_at_entry split: option.split)
  have "f \<in> found_in env inc dir entries \<longleftrightarrow>
      (\<exists>p n. (p, n) \<in> set entries \<and> \<not> excluded_name inc p \<and> f \<in> found env inc (dir @ p) n)" for f
  proof
    assume "f \<in> found_in env inc dir entries"
    then obtain ps d x where f: "f = source_file_of env (dir @ join_slash ps) d x" "file_at ps (SourceDir entries) = Some (d, x)" "kept inc ps"
      by (auto simp: found_in_def)
    then obtain p qs where ps: "ps = p # qs" by (cases ps) auto
    then obtain n where "(p, n) \<in> set entries" "file_at qs n = Some (d, x)" using f(2) entry by auto
    moreover have "f \<in> found env inc (dir @ p) n"
      by (rule foundI [of qs n d x]) (use f ps calculation in \<open>auto simp: join_below\<close>)
    ultimately show "\<exists>p n. (p, n) \<in> set entries \<and> \<not> excluded_name inc p \<and> f \<in> found env inc (dir @ p) n"
      using f(3) ps by auto
  next
    assume "\<exists>p n. (p, n) \<in> set entries \<and> \<not> excluded_name inc p \<and> f \<in> found env inc (dir @ p) n"
    then obtain p n qs d x where f: "(p, n) \<in> set entries" "\<not> excluded_name inc p" "f = source_file_of env ((dir @ p) @ below_path qs) d x"
        "file_at qs n = Some (d, x)" "kept inc qs"
      by (auto simp: found_def)
    show "f \<in> found_in env inc dir entries"
      by (rule found_inI [of "p # qs" entries d x]) (use f entry in \<open>auto simp: join_below\<close>)
  qed
  moreover have "f \<in> (\<Union>(p, n) \<in> set entries. if excluded_name inc p then {} else found env inc (dir @ p) n) \<longleftrightarrow>
      (\<exists>p n. (p, n) \<in> set entries \<and> \<not> excluded_name inc p \<and> f \<in> found env inc (dir @ p) n)" for f
    by (auto split: if_splits) (blast, erule rev_bexI, simp)
  ultimately show ?thesis by (intro set_eqI) (simp only:)
qed

lemma found_dir: "found env inc rel (SourceDir entries) = found_in env inc (rel @ ''/'') entries"
proof -
  have "rel @ below_path ps = (rel @ ''/'') @ join_slash ps" if "file_at ps (SourceDir entries) = Some r" for ps r
    using that by (cases ps) (simp_all add: join_below below_path_def)
  then have "(\<exists>ps d x. f = source_file_of env (rel @ below_path ps) d x \<and> file_at ps (SourceDir entries) = Some (d, x) \<and> kept inc ps) \<longleftrightarrow>
      (\<exists>ps d x. f = source_file_of env ((rel @ ''/'') @ join_slash ps) d x \<and> file_at ps (SourceDir entries) = Some (d, x) \<and> kept inc ps)" for f
    by (intro ex_cong1) auto
  then show ?thesis unfolding found_def found_in_def by simp
qed

lemma walk_finds:
  "walk_source env inc rel name n = Inr files \<Longrightarrow> names_ok n \<Longrightarrow>
     set files = (if excluded_name inc name then {} else found env inc rel n)"
  "walk_entries env inc dir entries = Inr files' \<Longrightarrow> (\<forall>(p, n) \<in> set entries. names_ok n) \<Longrightarrow>
     set files' = (\<Union>(p, n) \<in> set entries. if excluded_name inc p then {} else found env inc (dir @ p) n)"
proof (induction env inc rel name n and env inc dir entries arbitrary: files and files' rule: walk_source_walk_entries.induct)
  case (2 env inc rel name data x)
  have "file_at ps (SourceFile data x) = Some r \<longleftrightarrow> ps = [] \<and> r = (data, x)" for ps r by (cases ps) auto
  then show ?case using 2 by (auto simp: found_def below_path_def split: if_splits option.splits)
next
  case (3 env inc rel name entries)
  then show ?case by (auto simp: found_dir found_in_entries split: option.splits if_splits)
next
  case (5 env inc dir name node rest)
  then obtain fs more where "walk_source env inc (dir @ name) name node = Inr fs" "walk_entries env inc dir rest = Inr more" "files' = fs @ more"
    using 5(3) by (auto simp: map_sum_Inr split: sum.splits)
  then show ?case using 5(1,2,4) by auto
qed auto

lemma collected:
  assumes "collectPublishSource env (SourceDir entries) inc = Inr files" "names_ok (SourceDir entries)"
  shows "set files = found_in env inc [] entries"
proof -
  obtain fs where fs: "walk_entries env inc [] entries = Inr fs" "files = sort_key pf_Path fs"
    using assms(1) by (auto simp: collectPublishSource_def map_sum_Inr split: option.splits sum.splits)
  have "set fs = found_in env inc [] entries"
    using assms(2) by (subst walk_finds(2) [OF fs(1)]) (auto simp: found_in_entries)
  then show ?thesis using fs(2) by simp
qed

lemma walk_reads:
  "walk_source env inc rel name n = Inr files \<Longrightarrow> \<forall>f \<in> set files. pe_read_fault env (pf_Path f) = None"
  "walk_entries env inc dir entries = Inr files' \<Longrightarrow> \<forall>f \<in> set files'. pe_read_fault env (pf_Path f) = None"
proof (induction env inc rel name n and env inc dir entries arbitrary: files and files' rule: walk_source_walk_entries.induct)
  case (2 env inc rel name data x)
  then show ?case by (auto simp: source_file_of_def split: if_splits option.splits)
next
  case (3 env inc rel name entries)
  then show ?case by (auto split: option.splits if_splits)
next
  case (5 env inc dir name node rest)
  then obtain fs more where "walk_source env inc (dir @ name) name node = Inr fs" "walk_entries env inc dir rest = Inr more" "files' = fs @ more"
    using 5(3) by (auto simp: map_sum_Inr split: sum.splits)
  then show ?case using 5(1,2) by auto
qed auto

lemma file_at_good: "names_ok n \<Longrightarrow> find_node ps n = Some m \<Longrightarrow> list_all good_name ps"
proof (induction ps n rule: find_node.induct)
  case (6 p ps entries)
  then obtain n where n: "map_of entries p = Some n" "find_node ps n = Some m" by (auto split: option.splits)
  then have "(p, n) \<in> set entries" by (simp add: map_of_SomeD)
  then show ?case using 6(1) [OF n(1) _ n(2)] 6(2) by auto
qed auto

lemma collected_member:
  assumes "collectPublishSource env (SourceDir entries) inc = Inr files" "names_ok (SourceDir entries)" "f \<in> set files"
  shows "\<exists>ps d x. ps \<noteq> [] \<and> list_all good_name ps \<and> f = source_file_of env (join_slash ps) d x
    \<and> file_at ps (SourceDir entries) = Some (d, x) \<and> pe_read_fault env (join_slash ps) = None"
proof -
  obtain ps d x where f: "f = source_file_of env (join_slash ps) d x" "file_at ps (SourceDir entries) = Some (d, x)"
    using collected [OF assms(1,2)] assms(3) by (auto simp: found_in_def)
  obtain fs where fs: "walk_entries env inc [] entries = Inr fs" "files = sort_key pf_Path fs"
    using assms(1) by (auto simp: collectPublishSource_def map_sum_Inr split: option.splits sum.splits)
  have "pf_Path f = join_slash ps" by (simp add: f(1) source_file_of_def)
  then have "pe_read_fault env (join_slash ps) = None" using walk_reads(2) [OF fs(1)] assms(3) fs(2) by auto
  moreover have "ps \<noteq> []" using f(2) by (cases ps) auto
  moreover have "list_all good_name ps"
    using file_at_good [OF assms(2)] f(2) by (auto simp: file_at_def split: option.splits)
  ultimately show ?thesis using f by blast
qed

subsection \<open>The snapshot of a publication\<close>

definition snapshot_file :: "publishSourceFile \<Rightarrow> sourceSnapshotFile" where
  "snapshot_file f = \<lparr>sf_Path = pf_Path f, sf_Digest = pf_Digest f, sf_Size = pf_Size f, sf_Mode = pf_Mode f\<rparr>"

lemma good_path:
  assumes "ps \<noteq> []" "list_all good_name ps"
  shows "slash_parts (join_slash ps) = ps" "validateSnapshotPath (join_slash ps) = None"
proof -
  have sep: "\<forall>p \<in> set ps. CHR ''/'' \<notin> set p" "\<forall>p \<in> set ps. plain_part p" "\<forall>p \<in> set ps. CHR 0x5C \<notin> set p"
    using assms(2) by (auto simp: list_all_iff good_name_def plain_part_def)
  then have split: "split_on (CHR ''/'') (join_slash ps) = ps" using split_join_slash [of ps] assms(1) by simp
  then show "slash_parts (join_slash ps) = ps" by (simp add: slash_parts_def)
  obtain p qs where ps: "ps = p # qs" using assms(1) by (cases ps) auto
  then obtain c cs where p: "p = c # cs" "c \<noteq> CHR ''/''" using sep by (cases p) (auto simp: plain_part_def)
  have "CHR 0x5C \<notin> set (join_slash ps)" using sep(3) ps by (auto simp: join_below below_path_def)
  moreover have "\<not> (\<exists>part \<in> set (split_on (CHR ''/'') (join_slash ps)). part \<in> {[], ''.'', ''..''})"
    unfolding split using sep(2) by (auto simp: plain_part_def)
  moreover have "\<not> has_prefix (join_slash ps) ''/''" "join_slash ps \<noteq> []"
    using ps p by (auto simp: join_below has_prefix_def)
  ultimately show "validateSnapshotPath (join_slash ps) = None" by (simp add: validateSnapshotPath_def)
qed

lemma length_hex: "length (hex_encode bs) = 2 * length bs"
  by (induction bs) (simp_all add: hex_encode_def)

lemma digest_valid: "length (sha d) = 32 \<Longrightarrow> validSourceDigest (sourceDigest sha d)"
  by (simp add: validSourceDigest_def sourceDigest_def has_prefix_def length_hex)

lemma checked:
  assumes "\<forall>f \<in> set fs. validateSnapshotPath (sf_Path f) = None \<and> validSourceDigest (sf_Digest f) \<and> 0 \<le> sf_Size f \<and> sf_Size f = size_of (sf_Digest f)"
    and "\<forall>d s. map_of expected d = Some s \<longrightarrow> s = size_of d"
  shows "check_files fs expected = None"
  using assms
proof (induction fs arbitrary: expected)
  case (Cons f fs)
  have "check_files fs (AList.update (sf_Digest f) (sf_Size f) expected) = None"
    using Cons.prems by (intro Cons.IH) (auto split: if_splits)
  then show ?case using Cons.prems by auto
qed simp

text \<open>The file the upload picks for a digest, and its content.\<close>

definition picked :: "publishSourceFile list \<Rightarrow> string \<Rightarrow> publishSourceFile" where
  "picked files g = the (map_of (rev (map (\<lambda>f. (pf_Digest f, f)) files)) g)"

definition blob_of :: "source_node \<Rightarrow> publishSourceFile list \<Rightarrow> string \<Rightarrow> bytes" where
  "blob_of tree files g = fst (the (file_at (slash_parts (pf_Path (picked files g))) tree))"

definition blob_entry :: "(bytes \<Rightarrow> bytes) \<Rightarrow> bytes \<Rightarrow> bytes" where
  "blob_entry sha d = sha d @ be64 (length d) @ d"

lemma picked_blob:
  assumes "collectPublishSource env tree inc = Inr files" "tree = SourceDir entries" "names_ok tree" "g \<in> pf_Digest ` set files"
  shows "picked files g \<in> set files \<and> pf_Digest (picked files g) = g \<and> g = sourceDigest (pe_sha env) (blob_of tree files g)
    \<and> pf_Size (picked files g) = int (length (blob_of tree files g))
    \<and> pack_entry_of env tree files g = Inr (blob_entry (pe_sha env) (blob_of tree files g))
    \<and> (\<exists>ps x. file_at ps tree = Some (blob_of tree files g, x))"
proof -
  let ?table = "rev (map (\<lambda>f. (pf_Digest f, f)) files)"
  have "map_of ?table g \<noteq> None" using assms(4) by (auto simp: map_of_eq_None_iff image_iff)
  then obtain f where f: "map_of ?table g = Some f" by auto
  then have mem: "f \<in> set files" "pf_Digest f = g" by (auto dest: map_of_SomeD)
  obtain ps d x where ps: "ps \<noteq> []" "list_all good_name ps" "f = source_file_of env (join_slash ps) d x"
      "file_at ps tree = Some (d, x)" "pe_read_fault env (join_slash ps) = None"
    using collected_member [of env entries inc files f] assms(1-3) mem(1) by auto
  have path: "pf_Path f = join_slash ps" "pf_Size f = int (length d)" "pf_Digest f = sourceDigest (pe_sha env) d"
    by (simp_all add: ps(3) source_file_of_def)
  have picked: "picked files g = f" by (simp add: picked_def f)
  have blob: "blob_of tree files g = d" by (simp add: blob_of_def picked path good_path [OF ps(1,2)] ps(4))
  have "pack_entry_of env tree files g = Inr (blob_entry (pe_sha env) d)"
    using f by (simp add: pack_entry_of_def path good_path [OF ps(1,2)] ps(4,5) trim_prefix_digest blob_entry_def)
  then show ?thesis using mem path ps(4) by (auto simp: picked blob)
qed

lemma collect_Inr: "\<forall>x \<in> set xs. f x = Inr (g x) \<Longrightarrow> collect (map f xs) = Inr (map g xs)"
  by (induction xs) auto

subsection \<open>Writing a snapshot into an empty folder\<close>

lemma find_node_append:
  "find_node (p @ r) n = (case find_node p n of None \<Rightarrow> None | Some m \<Rightarrow> find_node r m)"
proof (induction p n rule: find_node.induct)
  case (6 p ps entries)
  then show ?case by (simp split: option.split)
qed auto

text \<open>No file is on the way to another.\<close>

lemma file_paths_apart:
  assumes "file_at p n = Some a" "file_at q n = Some b"
  shows "\<not> strict_prefix p q"
proof
  assume "strict_prefix p q"
  then obtain r rs where q: "q = p @ r # rs" by (auto elim: strict_prefixE')
  obtain d x where "find_node p n = Some (SourceFile d x)" using assms(1) by (auto simp: file_at_def split: option.splits source_node.splits)
  then have "find_node q n = None" by (simp add: q find_node_append)
  then show False using assms(2) by (simp add: file_at_def)
qed

text \<open>What has been written at the places \<open>D\<close>, with the contents \<open>F\<close>.\<close>

definition half_written :: "(string list \<Rightarrow> (bytes \<times> bool) option) \<Rightarrow> string list set \<Rightarrow> source_node \<Rightarrow> bool" where
  "half_written F D t \<longleftrightarrow> linkless t \<and> dir_at [] t \<and> (\<forall>q. file_at q t = (if q \<in> D then F q else None))
     \<and> (\<forall>q. dir_at q t \<longrightarrow> q = [] \<or> (\<exists>p \<in> D. strict_prefix q p))"

lemma write_next:
  assumes t: "half_written F D t" and apart: "\<forall>p \<in> D. \<not> strict_prefix p path \<and> \<not> strict_prefix path p" and path: "path \<noteq> []"
    and F: "F path = Some (d, x)"
  shows "\<exists>t1 t2. make_dirs (butlast path) t = Some t1 \<and> put_node x d path t1 = Some t2 \<and> half_written F (insert path D) t2"
proof -
  have up: "strict_prefix (take k (butlast path)) path" for k
  proof -
    have "prefix (take k (butlast path)) (butlast path)" by (rule take_is_prefix)
    then obtain rest where "butlast path = take k (butlast path) @ rest" by (auto elim: prefixE)
    then have "path = take k (butlast path) @ (rest @ [last path])" using append_butlast_last_id [OF path] by (metis append_assoc)
    then show ?thesis by (metis append_is_Nil_conv list.distinct(1) prefix_order.le_less prefixI same_append_eq self_append_conv)
  qed
  have free: "file_at (take k (butlast path)) t = None" for k
    using t apart up by (auto simp: half_written_def)
  obtain t1 where t1: "make_dirs (butlast path) t = Some t1" "linkless t1"
    using make_dirs_total [of t "butlast path"] t free by (auto simp: half_written_def)
  note dirs = make_dirs_dirs [OF t1(1)] and files = make_dirs_files [OF t1(1)]
  have "length (butlast path) < length path" using path by simp
  then have "\<not> prefix path (butlast path)" using prefix_length_le by fastforce
  then have "\<not> dir_at path t1" using dirs t apart path by (auto simp: half_written_def)
  then obtain t2 where t2: "put_node x d path t1 = Some t2" "linkless t2"
    using put_total [OF t1(2) path] dirs by blast
  have "file_at q t2 = (if q \<in> insert path D then F q else None)" for q
    using file_at_put [OF t2(1), of q] files t F by (auto simp: half_written_def split: option.split)
  moreover have "dir_at q t2 \<longrightarrow> q = [] \<or> (\<exists>p \<in> insert path D. strict_prefix q p)" for q
  proof
    assume "dir_at q t2"
    then have "dir_at q t \<or> prefix q (butlast path)" using put_dirs [OF t2(1)] dirs by blast
    moreover have "strict_prefix q path" if "prefix q (butlast path)"
      using that up [of "length path"] by (metis prefix_order.le_less_trans take_all_iff length_butlast diff_le_self)
    ultimately show "q = [] \<or> (\<exists>p \<in> insert path D. strict_prefix q p)" using t by (auto simp: half_written_def)
  qed
  moreover have "dir_at [] t2" using put_dirs [OF t2(1)] dirs t by (simp add: half_written_def)
  ultimately show ?thesis using t1(1) t2 by (auto simp: half_written_def)
qed

lemma written_all:
  assumes "sd_dir disk = (\<lambda>_. None)" "sd_file disk = (\<lambda>_. None)"
    and "\<forall>f \<in> set fs. validateSnapshotPath (sf_Path f) = None \<and> (\<exists>d. map_of objects (sf_Digest f) = Some d \<and> int (length d) = sf_Size f
        \<and> sourceDigest sha d = sf_Digest f \<and> F (snapshot_parts f) = Some (d, sf_Mode f = 493))"
    and "\<forall>p \<in> D \<union> snapshot_parts ` set fs. \<forall>q \<in> D \<union> snapshot_parts ` set fs. \<not> strict_prefix p q"
    and "half_written F D t"
  shows "\<exists>t'. write_files sha disk folder objects k fs t = (t', None) \<and> half_written F (D \<union> snapshot_parts ` set fs) t'"
  using assms(3-)
proof (induction fs arbitrary: D t k)
  case (Cons f fs)
  obtain d where d: "map_of objects (sf_Digest f) = Some d" "int (length d) = sf_Size f" "sourceDigest sha d = sf_Digest f"
      "F (snapshot_parts f) = Some (d, sf_Mode f = 493)" and f: "validateSnapshotPath (sf_Path f) = None"
    using Cons.prems(1) by auto
  have parts: "snapshot_parts f \<noteq> []" by (simp add: snapshot_parts_def)
  have "\<forall>p \<in> D. \<not> strict_prefix p (snapshot_parts f) \<and> \<not> strict_prefix (snapshot_parts f) p" using Cons.prems(2) by simp
  from write_next [OF Cons.prems(3) this parts d(4)] obtain t1 t2 where t: "make_dirs (butlast (snapshot_parts f)) t = Some t1"
      "put_node (sf_Mode f = 493) d (snapshot_parts f) t1 = Some t2" "half_written F (insert (snapshot_parts f) D) t2"
    by blast
  have step: "write_files sha disk folder objects k (f # fs) t = write_files sha disk folder objects (Suc k) fs t2"
    using d t(1,2) assms(1,2) join_validated [OF f, of folder]
    by (simp add: snapshot_parts_def pathInside_def os_mkdir_all_def os_write_def)
  have "\<exists>t'. write_files sha disk folder objects (Suc k) fs t2 = (t', None)
      \<and> half_written F (insert (snapshot_parts f) D \<union> snapshot_parts ` set fs) t'"
    by (rule Cons.IH [OF _ _ t(3)]) (use Cons.prems(1,2) in auto)
  then show ?case unfolding step by simp
qed simp

lemma empty_folder: "half_written F {} (SourceDir [])"
proof -
  have "file_at q (SourceDir []) = None" "dir_at q (SourceDir []) \<longrightarrow> q = []" for q by (cases q; simp add: file_at_entry)+
  then show ?thesis by (simp add: half_written_def)
qed

subsection \<open>Packs\<close>

text \<open>The pack that holds the content of every digest in a list.\<close>

definition blob_pack :: "(bytes \<Rightarrow> bytes) \<Rightarrow> (string \<Rightarrow> bytes) \<Rightarrow> string list \<Rightarrow> bytes" where
  "blob_pack sha blob digests = pack_magic @ be32 (length digests mod 2 ^ 32) @ concat (map (\<lambda>g. blob_entry sha (blob g)) digests)"

lemma blob_pack_size: "12 + 40 * length gs \<le> length (blob_pack sha blob gs)"
  if "\<forall>x. length (sha x) = 32"
proof -
  have "40 * length gs \<le> length (concat (map (\<lambda>g. blob_entry sha (blob g)) gs))"
    by (induction gs) (simp_all add: blob_entry_def that)
  then show ?thesis by (simp add: blob_pack_def pack_magic_def)
qed

lemma length_blob_pack: "length (blob_pack sha blob gs) = 12 + (\<Sum>g \<leftarrow> gs. 40 + length (blob g))" if "\<forall>x. length (sha x) = 32"
  by (induction gs) (simp_all add: blob_pack_def pack_magic_def blob_entry_def that)

lemma blob_pack_part: "g \<in> set gs \<Longrightarrow> length (blob g) \<le> length (blob_pack sha blob gs)"
proof -
  assume "g \<in> set gs"
  then have "length (blob g) \<le> length (concat (map (\<lambda>g. blob_entry sha (blob g)) gs))"
    by (induction gs) (auto simp: blob_entry_def)
  then show ?thesis by (simp add: blob_pack_def)
qed

lemma blob_pack_decodes:
  assumes sha: "\<forall>x. length (sha x) = 32" and gs: "distinct gs" "\<forall>g \<in> set gs. g = sourceDigest sha (blob g)"
    and size: "length (blob_pack sha blob gs) \<le> 256 * 1024 * 1024"
  shows "\<exists>objects. decodeSourcePack sha (blob_pack sha blob gs) = Returned objects \<and> (\<forall>g \<in> set gs. map_of objects g = Some (blob g))"
proof -
  define entry where "entry = (\<lambda>g. \<lparr>sf_Path = [], sf_Digest = g, sf_Size = int (length (blob g)), sf_Mode = 0\<rparr>)"
  let ?fs = "map entry gs" and ?blobs = "map (\<lambda>g. (g, blob g)) gs"
  have table: "map_of ?blobs g = Some (blob g)" if "g \<in> set gs" for g
    using that by (simp add: map_of_map_restrict)
  have "pack_header (entry g) @ (case map_of ?blobs (sf_Digest (entry g)) of None \<Rightarrow> [] | Some d \<Rightarrow> d) = blob_entry sha (blob g)"
    if "g \<in> set gs" for g
  proof -
    have "length (blob g) < 2 ^ 64" by (rule le_less_trans [OF order_trans [OF blob_pack_part [OF that] size]]) simp
    then have "pack_header (entry g) = sha (blob g) @ be64 (length (blob g))"
      using pack_header_digest [of "entry g" sha "blob g"] gs(2) that sha by (simp add: entry_def)
    then show ?thesis by (simp add: entry_def table [OF that] blob_entry_def)
  qed
  then have pack: "encodeSourcePack ?fs ?blobs = blob_pack sha blob gs"
    unfolding encodeSourcePack_def blob_pack_def by (simp add: o_def cong: map_cong)
  have "length gs < 2 ^ 32" using blob_pack_size [OF sha, of gs blob] size by simp
  moreover have "list_all (blob_ok sha ?blobs) ?fs" using gs(2) table by (auto simp: list_all_iff blob_ok_def entry_def)
  moreover have "map sf_Digest ?fs = gs" by (simp add: entry_def o_def)
  moreover have "length (blob_pack sha blob gs) < 2 ^ 64" using size by simp
  ultimately obtain objects where objects: "decodeSourcePack sha (blob_pack sha blob gs) = Returned objects"
      "map_of objects = map_of ?blobs |` (sf_Digest ` set ?fs)"
    using source_pack_decodes [of sha ?blobs ?fs] gs(1) sha pack by auto
  then have "map_of objects g = Some (blob g)" if "g \<in> set gs" for g
    using that table by (simp add: entry_def image_image restrict_map_def)
  then show ?thesis using objects(1) by blast
qed

subsection \<open>Publishing and opening a draft\<close>

text \<open>Dyner hands out a snapshot of these files with this pack.\<close>

definition serves :: "(bytes \<Rightarrow> bytes) \<Rightarrow> publishSourceFile list \<Rightarrow> bytes \<Rightarrow> string \<Rightarrow> snapshot_net \<Rightarrow> bool" where
  "serves sha files pack expected n \<longleftrightarrow>
     (\<exists>document url. sn_document n = Inr document \<and> length document \<le> 8 * 1024 * 1024 \<and> snapshotDigestMatches sha expected document
        \<and> url \<noteq> [] \<and> sn_pack n = Inr pack \<and> \<not> sn_gzip_header n
        \<and> sn_parse n document = Some \<lparr>ss_SchemaVersion = 1, ss_Algorithm = ''sha256'', ss_PackURL = url, ss_Files = map snapshot_file files\<rparr>)"

lemma drafted_back:
  assumes coll: "collectPublishSource env tree inc = Inr files" "tree = SourceDir entries" "names_ok tree" "files \<noteq> []"
    and sha: "\<forall>x. length (pe_sha env x) = 32" "inj_on (pe_sha env) {d. \<exists>ps x. file_at ps tree = Some (d, x)}"
    and gs: "distinct gs" "set gs = pf_Digest ` set files"
    and pack: "pack = blob_pack (pe_sha env) (blob_of tree files) gs" "length pack \<le> 256 * 1024 * 1024"
    and n: "serves (pe_sha env) files pack expected n"
    and disk: "sd_root disk = None" "sd_dir disk = (\<lambda>_. None)" "sd_file disk = (\<lambda>_. None)"
  shows "\<exists>draft. materializeSourceSnapshot (pe_sha env) n disk expected folder None = (Some draft, Returned ())
    \<and> (\<forall>q. file_at q draft = (if kept inc q then file_at q tree else None))"
proof -
  let ?sha = "pe_sha env" and ?blob = "blob_of tree files" and ?F = "\<lambda>q. file_at q tree"
  have digests: "\<forall>g \<in> set gs. g = sourceDigest ?sha (?blob g)" using picked_blob [OF coll(1-3)] gs(2) by blast
  obtain objects where objects: "decodeSourcePack ?sha pack = Returned objects" "\<forall>g \<in> set gs. map_of objects g = Some (?blob g)"
    using blob_pack_decodes [OF sha(1) gs(1) digests] pack by blast
  have each: "validateSnapshotPath (pf_Path f) = None \<and> validSourceDigest (pf_Digest f) \<and> pf_Size f = int (length (?blob (pf_Digest f)))
      \<and> sourceDigest ?sha (?blob (pf_Digest f)) = pf_Digest f
      \<and> file_at (snapshot_parts (snapshot_file f)) tree = Some (?blob (pf_Digest f), pf_Mode f = 493)"
    if f: "f \<in> set files" for f
  proof -
    obtain ps d x where ps: "ps \<noteq> []" "list_all good_name ps" "f = source_file_of env (join_slash ps) d x" "file_at ps tree = Some (d, x)"
      using collected_member [of env entries inc files f] coll(1-3) f by auto
    have path: "pf_Path f = join_slash ps" "pf_Size f = int (length d)" "pf_Digest f = sourceDigest ?sha d" "pf_Mode f = (if x then 493 else 420)"
      by (simp_all add: ps(3) source_file_of_def)
    obtain qs y where blob: "pf_Digest f = sourceDigest ?sha (?blob (pf_Digest f))" "file_at qs tree = Some (?blob (pf_Digest f), y)"
      using picked_blob [OF coll(1-3), of "pf_Digest f"] f by auto
    have "?sha d = ?sha (?blob (pf_Digest f))" using path(3) blob(1) hex_encode_inj by (simp add: sourceDigest_def)
    then have "?blob (pf_Digest f) = d" using inj_onD [OF sha(2)] ps(4) blob(2) by (metis (mono_tags, lifting) mem_Collect_eq)
    moreover have "snapshot_parts (snapshot_file f) = ps"
      using good_path [OF ps(1,2)] by (simp add: snapshot_parts_def snapshot_file_def path slash_parts_def)
    ultimately show ?thesis using good_path [OF ps(1,2)] digest_valid [of ?sha d] sha(1) path ps(4) by simp
  qed
  have places: "snapshot_parts ` set (map snapshot_file files) = {ps. file_at ps tree \<noteq> None \<and> kept inc ps}"
  proof -
    have members: "set files = {source_file_of env (join_slash ps) d x | ps d x. file_at ps tree = Some (d, x) \<and> kept inc ps}"
      using collected [of env entries inc files] coll(1-3) by (simp add: found_in_def)
    have "snapshot_parts (snapshot_file (source_file_of env (join_slash ps) d x)) = ps" if "file_at ps tree = Some (d, x)" for ps d x
    proof -
      have "ps \<noteq> []" using that coll(2) by (cases ps) auto
      moreover have "list_all good_name ps" using file_at_good [OF coll(3)] that by (auto simp: file_at_def split: option.splits)
      ultimately show ?thesis using good_path [of ps] by (simp add: snapshot_parts_def snapshot_file_def source_file_of_def slash_parts_def)
    qed
    then show ?thesis unfolding set_map image_image members by force
  qed
  have checks: "check_files (map snapshot_file files) [] = None"
    by (rule checked [where size_of = "\<lambda>g. int (length (?blob g))"]) (use each in \<open>auto simp: snapshot_file_def\<close>)
  have run: "\<exists>t. write_files ?sha disk folder objects 0 (map snapshot_file files) (SourceDir []) = (t, None)
      \<and> half_written ?F ({} \<union> snapshot_parts ` set (map snapshot_file files)) t"
  proof (rule written_all [OF disk(2,3) _ _ empty_folder])
    show "\<forall>f \<in> set (map snapshot_file files). validateSnapshotPath (sf_Path f) = None \<and>
        (\<exists>d. map_of objects (sf_Digest f) = Some d \<and> int (length d) = sf_Size f \<and> sourceDigest ?sha d = sf_Digest f
          \<and> file_at (snapshot_parts f) tree = Some (d, sf_Mode f = 493))"
      using each objects(2) gs(2) by (auto simp: snapshot_file_def snapshot_parts_def)
    show "\<forall>p \<in> {} \<union> snapshot_parts ` set (map snapshot_file files). \<forall>q \<in> {} \<union> snapshot_parts ` set (map snapshot_file files).
        \<not> strict_prefix p q"
      unfolding places using file_paths_apart [of _ tree] by auto
  qed
  obtain t where t: "write_files ?sha disk folder objects 0 (map snapshot_file files) (SourceDir []) = (t, None)"
      "\<forall>q. file_at q t = (if file_at q tree \<noteq> None \<and> kept inc q then file_at q tree else None)"
    using run unfolding half_written_def places by auto
  have "file_at q t = (if kept inc q then file_at q tree else None)" for q using t(2) by (cases "file_at q tree") auto
  moreover have "pack_body n = Inr pack"
  proof -
    have "pack_magic ! 0 = 0x44" "length pack_magic = 8" by code_simp+
    then have "pack ! 0 = 0x44" by (simp add: pack(1) blob_pack_def nth_append)
    then show ?thesis using n pack(2) by (auto simp: serves_def pack_body_def Let_def)
  qed
  ultimately show ?thesis using n objects(1) coll(4) checks t(1)
    by (auto simp: serves_def materializeSourceSnapshot_def make_destination_def disk(1))
qed

lemma upload_runs:
  assumes coll: "collectPublishSource env tree inc = Inr files" "tree = SourceDir entries" "names_ok tree" "files \<noteq> []"
    and check: "check = \<lparr>pq_URL = base @ ''/api/v1/source/blobs/check'', pq_Bearer = token, pq_Body = BlobList (map (\<lambda>f. (pf_Digest f, pf_Size f)) files)\<rparr>"
    and answer: "pe_answer env sent check = Inr (status, payload)" "obj_get payload ''missing'' = ArrV (map StrV gs)" "ok_status status"
    and gs: "set gs = pf_Digest ` set files"
  shows "uploadPublishSources env base token tree files sent =
    map_prod id (map_sum id (\<lambda>_. ())) (publish_send env token (base @ ''/api/v1/source/packs'')
      (PackBody (blob_pack (pe_sha env) (blob_of tree files) gs)) (sent @ [check]))"
proof -
  have "gs \<noteq> []" using gs coll(4) by auto
  moreover have "collect (map (\<lambda>g. pack_entry_of env tree files g) gs) = Inr (map (\<lambda>g. blob_entry (pe_sha env) (blob_of tree files g)) gs)"
    using picked_blob [OF coll(1-3)] gs by (intro collect_Inr) blast
  moreover have "publish_send env token (base @ ''/api/v1/source/blobs/check'') (BlobList (map (\<lambda>f. (pf_Digest f, pf_Size f)) files)) sent =
      (sent @ [check], Inr payload)"
    using answer(1,3) by (simp add: publish_send_def check [symmetric])
  ultimately show ?thesis using answer(2)
    by (simp add: uploadPublishSources_def as_arr_def StringValue_def o_def blob_pack_def)
qed

lemma uploaded_pack:
  assumes coll: "collectPublishSource env tree inc = Inr files" "tree = SourceDir entries" "names_ok tree" "files \<noteq> []"
    and up: "uploadPublishSources env base token tree files sent = (sent', Inr ())"
    and check: "check = \<lparr>pq_URL = base @ ''/api/v1/source/blobs/check'', pq_Bearer = token, pq_Body = BlobList (map (\<lambda>f. (pf_Digest f, pf_Size f)) files)\<rparr>"
    and answer: "pe_answer env sent check = Inr (status, payload)" "obj_get payload ''missing'' = ArrV (map StrV gs)"
    and gs: "set gs = pf_Digest ` set files"
  shows "sent' = sent @ [check, \<lparr>pq_URL = base @ ''/api/v1/source/packs'', pq_Bearer = token,
      pq_Body = PackBody (blob_pack (pe_sha env) (blob_of tree files) gs)\<rparr>]"
proof -
  have "ok_status status"
    using up answer(1) by (auto simp: uploadPublishSources_def publish_send_def check [symmetric] Let_def split: if_splits)
  from up [unfolded upload_runs [OF coll check answer this gs]] show ?thesis by (auto simp: publish_send_def Let_def)
qed

text \<open>
  C39: What is published comes back. Of a project folder whose names are those of a filesystem and hold no backslash, and
  which has at least one file to publish, exactly the files outside the excluded folders are collected. Let the upload
  succeed with Dyner asking for every content once, let SHA-256 be of 32 bytes and without collision between the contents
  of the project, and let Dyner then hand out, not compressed, a document of at most 8 MiB with the digest asked for that
  lists these files, and the pack that was uploaded, of at most 256 MiB. Then opening that snapshot in a new folder, on a
  disk without faults, succeeds, and the folder has exactly the files of the project outside the excluded folders, each
  with its content and its executable mark.
\<close>

theorem published_sources_come_back:
  assumes "collectPublishSource env tree inc = Inr files" "tree = SourceDir entries" "names_ok tree" "files \<noteq> []"
    and "\<forall>x. length (pe_sha env x) = 32" "inj_on (pe_sha env) {d. \<exists>ps x. file_at ps tree = Some (d, x)}"
    and "uploadPublishSources env base token tree files sent = (sent', Inr ())"
    and "check = \<lparr>pq_URL = base @ ''/api/v1/source/blobs/check'', pq_Bearer = token, pq_Body = BlobList (map (\<lambda>f. (pf_Digest f, pf_Size f)) files)\<rparr>"
    and "pe_answer env sent check = Inr (status, payload)" "obj_get payload ''missing'' = ArrV (map StrV gs)"
    and "distinct gs" "set gs = pf_Digest ` set files"
    and "sd_root disk = None" "sd_dir disk = (\<lambda>_. None)" "sd_file disk = (\<lambda>_. None)"
  shows "set files = {source_file_of env (join_slash ps) d x | ps d x. file_at ps tree = Some (d, x) \<and> kept inc ps}
    \<and> (\<exists>pack. pq_Body (List.last sent') = PackBody pack
        \<and> (\<forall>n expected folder. length pack \<le> 256 * 1024 * 1024 \<longrightarrow> serves (pe_sha env) files pack expected n \<longrightarrow>
             (\<exists>draft. materializeSourceSnapshot (pe_sha env) n disk expected folder None = (Some draft, Returned ())
               \<and> (\<forall>q. file_at q draft = (if kept inc q then file_at q tree else None)))))"
proof (rule conjI)
  show "set files = {source_file_of env (join_slash ps) d x | ps d x. file_at ps tree = Some (d, x) \<and> kept inc ps}"
    using collected [of env entries inc files] assms(1-3) by (simp add: found_in_def)
  let ?pack = "blob_pack (pe_sha env) (blob_of tree files) gs"
  have "pq_Body (List.last sent') = PackBody ?pack"
    using uploaded_pack [OF assms(1-4,7-10,12)] by simp
  moreover have "\<exists>draft. materializeSourceSnapshot (pe_sha env) n disk expected folder None = (Some draft, Returned ())
      \<and> (\<forall>q. file_at q draft = (if kept inc q then file_at q tree else None))"
    if "length ?pack \<le> 256 * 1024 * 1024" "serves (pe_sha env) files ?pack expected n" for n expected folder
    by (rule drafted_back [OF assms(1-6,11,12) refl that assms(13-15)])
  ultimately show "\<exists>pack. pq_Body (List.last sent') = PackBody pack
      \<and> (\<forall>n expected folder. length pack \<le> 256 * 1024 * 1024 \<longrightarrow> serves (pe_sha env) files pack expected n \<longrightarrow>
           (\<exists>draft. materializeSourceSnapshot (pe_sha env) n disk expected folder None = (Some draft, Returned ())
             \<and> (\<forall>q. file_at q draft = (if kept inc q then file_at q tree else None))))"
    by blast
qed

subsection \<open>Failed publications\<close>

lemma find_put: "put_node x d p n = Some n' \<Longrightarrow> find_node q n = None \<Longrightarrow> q \<noteq> p \<Longrightarrow> find_node q n' = None"
proof (induction x d p n arbitrary: q n' rule: put_node.induct)
  case (2 x d path n)
  then show ?case by auto
next
  case (3 x d old y)
  then show ?case by (cases q) auto
next
  case (6 x d p ps entries)
  then obtain q1 qs where q: "q = q1 # qs" by (cases q) auto
  show ?case
  proof (cases "map_of entries p")
    case None
    with 6(2) have "n' = SourceDir (insort_key fst (p, SourceFile d x) entries)" "ps = []" by (auto split: if_splits)
    then show ?thesis using None 6(3,4) q by (cases qs) (auto simp: map_of_insort_entry split: option.splits)
  next
    case (Some m)
    then obtain m' where "put_node x d ps m = Some m'" "n' = SourceDir (AList.update p m' entries)" using 6(2) by auto
    then show ?thesis using 6(1) [OF Some] 6(3,4) Some q by (auto split: option.splits)
  qed
qed simp_all

text \<open>Every file of the first tree is still there, with some content.\<close>

definition rewritten :: "source_node \<Rightarrow> source_node \<Rightarrow> bool" where
  "rewritten t0 t \<longleftrightarrow> (\<forall>q d x. file_at q t0 = Some (d, x) \<longrightarrow> (\<exists>d'. file_at q t = Some (d', x)))"

lemma rewritten_put: "rewritten t0 t \<Longrightarrow> put_node x d p t = Some t' \<Longrightarrow> rewritten t0 t'"
  by (fastforce simp: rewritten_def file_at_put)

lemma write_outcome:
  "os_write fault x d p t = (t', r) \<Longrightarrow> t' = t \<and> r \<noteq> None \<or> (\<exists>d'. put_node x d' p t = Some t' \<and> (r = None \<longrightarrow> fault = None \<and> d' = d))"
  unfolding os_write_def by (auto split: option.splits prod.splits)

lemma writes_rewrite:
  "write_versions env ws t = (t', r) \<Longrightarrow> rewritten t0 t \<Longrightarrow>
     rewritten t0 t' \<and> (\<forall>q. q \<notin> (\<lambda>w. slash_parts (fst w)) ` set ws \<longrightarrow> file_at q t' = file_at q t)
     \<and> (\<forall>q. plain_at q t \<longrightarrow> plain_at q t')
     \<and> (r = None \<longrightarrow> (\<forall>w \<in> set ws. find_node (slash_parts (fst w)) t = None \<longrightarrow> plain_at (slash_parts (fst w)) t'))"
proof (induction env ws t rule: write_versions.induct)
  case (2 env path v rest t)
  obtain t1 r1 where t1: "writePublishJSON env path v t = (t1, r1)" by (cases "writePublishJSON env path v t")
  note out = write_outcome [OF t1 [unfolded writePublishJSON_def]]
  show ?case
  proof (cases r1)
    case (Some e)
    then have "t' = t1" "r = Some e" using 2(2) t1 by auto
    then show ?thesis using out 2(3) by (auto simp: file_at_put intro: rewritten_put plain_put)
  next
    case None
    then have more: "write_versions env rest t1 = (t', r)" using 2(2) t1 by simp
    obtain d where put: "put_node False d (slash_parts path) t = Some t1" using out None by auto
    note IH = 2(1) [OF t1 [unfolded None, symmetric] refl more rewritten_put [OF 2(3) put]]
    have "plain_at (slash_parts (fst w)) t'"
      if "r = None" "w \<in> set ((path, v) # rest)" "find_node (slash_parts (fst w)) t = None" for w
    proof (cases "slash_parts (fst w) = slash_parts path")
      case True
      then show ?thesis using IH put_new_plain [OF put] that(3) by auto
    next
      case False
      then show ?thesis using IH find_put [OF put that(3)] that(1,2) by auto
    qed
    then show ?thesis using IH plain_put [OF put] file_at_put [OF put] by (auto simp: image_iff)
  qed
qed auto

lemma restored:
  assumes "rewritten t0 t" "\<forall>d. original = Some d \<longrightarrow> (\<exists>x. file_at (slash_parts p) t0 = Some (d, x))"
  shows "rewritten t0 (restore_text env p original t)"
    and "q \<noteq> slash_parts p \<Longrightarrow> file_at q (restore_text env p original t) = file_at q t"
    and "pe_restore_fault env p = None \<Longrightarrow> file_at (slash_parts p) (restore_text env p original t)
          = (if original = None then file_at (slash_parts p) t else file_at (slash_parts p) t0)"
    and "plain_at q t \<Longrightarrow> plain_at q (restore_text env p original t)"
proof -
  have kept: "rewritten t0 (restore_text env p original t)
      \<and> (q \<noteq> slash_parts p \<longrightarrow> file_at q (restore_text env p original t) = file_at q t)
      \<and> (plain_at q t \<longrightarrow> plain_at q (restore_text env p original t))"
  proof (cases original)
    case (Some d)
    obtain t' r where w: "os_write (pe_restore_fault env p) False d (slash_parts p) t = (t', r)" by fastforce
    then show ?thesis using write_outcome [OF w] Some assms(1)
      by (auto simp: restore_text_def file_at_put intro: rewritten_put plain_put)
  qed (simp add: restore_text_def assms(1))
  then show "rewritten t0 (restore_text env p original t)"
    "q \<noteq> slash_parts p \<Longrightarrow> file_at q (restore_text env p original t) = file_at q t"
    "plain_at q t \<Longrightarrow> plain_at q (restore_text env p original t)" by blast+
  show "file_at (slash_parts p) (restore_text env p original t)
      = (if original = None then file_at (slash_parts p) t else file_at (slash_parts p) t0)"
    if "pe_restore_fault env p = None"
  proof (cases original)
    case (Some d)
    then obtain x where d: "file_at (slash_parts p) t0 = Some (d, x)" using assms(2) by blast
    then obtain d' where d': "file_at (slash_parts p) t = Some (d', x)" using assms(1) unfolding rewritten_def by blast
    then obtain t' where "put_node False d (slash_parts p) t = Some t'" using put_existing [of "slash_parts p" t False d] by auto
    then show ?thesis using d d' Some that by (simp add: restore_text_def os_write_def file_at_put)
  qed (simp add: restore_text_def)
qed

definition version_names :: "string list" where
  "version_names = [''app.json'', ''content/version.json'', ''package.json'', ''package-lock.json'']"

lemma json_text_file:
  "json_text (readPublishJSON env t p) = Some d \<Longrightarrow> \<exists>x. file_at (slash_parts p) t = Some (d, x)"
  by (auto simp: json_text_def readPublishJSON_def file_at_def split: option.splits source_node.splits sum.splits any.splits)

lemma json_object_text: "json_object f \<noteq> None \<Longrightarrow> json_text f \<noteq> None"
  by (cases f) (simp_all add: json_object_def json_text_def)

lemma version_paths:
  "slash_parts ''app.json'' = [''app.json'']" "slash_parts ''content/version.json'' = [''content'', ''version.json'']"
  "slash_parts ''package.json'' = [''package.json'']" "slash_parts ''package-lock.json'' = [''package-lock.json'']"
  by code_simp+

lemma not_there: "readPublishJSON env t p = NoFile \<Longrightarrow> find_node (slash_parts p) t = None"
  by (auto simp: readPublishJSON_def split: option.splits source_node.splits sum.splits any.splits)

lemma writes_named: "(\<lambda>w. slash_parts (fst w)) ` set (version_writes v vf) \<subseteq> slash_parts ` set version_names"
  by (auto simp: version_writes_def version_names_def Let_def split: option.splits)

lemma restored_all:
  assumes writes: "write_versions env (version_writes v vf) t0 = (t1, None)" and vf: "vf = read_versions env t0"
    and content: "json_text (vf_content vf) = None \<Longrightarrow> vf_content vf = NoFile" and manifest: "json_text (vf_manifest vf) \<noteq> None"
  shows "q \<notin> slash_parts ` set version_names \<Longrightarrow> file_at q (restore_versions env vf t1) = file_at q t0"
    and "p \<in> set version_names \<Longrightarrow> pe_restore_fault env p = None \<Longrightarrow>
      file_at (slash_parts p) (restore_versions env vf t1) = file_at (slash_parts p) t0"
proof -
  let ?app = "''app.json''" and ?con = "''content/version.json''" and ?pkg = "''package.json''" and ?lock = "''package-lock.json''"
  have olds: "\<forall>d. json_text (vf_manifest vf) = Some d \<longrightarrow> (\<exists>x. file_at (slash_parts ?app) t0 = Some (d, x))"
    "\<forall>d. json_text (vf_content vf) = Some d \<longrightarrow> (\<exists>x. file_at (slash_parts ?con) t0 = Some (d, x))"
    "\<forall>d. json_text (vf_package vf) = Some d \<longrightarrow> (\<exists>x. file_at (slash_parts ?pkg) t0 = Some (d, x))"
    "\<forall>d. json_text (vf_lock vf) = Some d \<longrightarrow> (\<exists>x. file_at (slash_parts ?lock) t0 = Some (d, x))"
    unfolding vf read_versions_def version_files.simps by (intro allI impI, erule json_text_file)+
  have "rewritten t0 t0" by (simp add: rewritten_def)
  note all = writes_rewrite [OF writes this]
  have same: "file_at q t1 = file_at q t0" if "q \<notin> (\<lambda>w. slash_parts (fst w)) ` set (version_writes v vf)" for q using all that by blast
  have unwritten: "file_at (slash_parts ?pkg) t1 = file_at (slash_parts ?pkg) t0" if "json_text (vf_package vf) = None"
  proof (rule same)
    have "json_object (vf_package vf) = None" using that json_object_text by blast
    then show "slash_parts ?pkg \<notin> (\<lambda>w. slash_parts (fst w)) ` set (version_writes v vf)"
      by (auto simp: version_writes_def version_paths Let_def split: option.splits)
  qed
  have unwritten': "file_at (slash_parts ?lock) t1 = file_at (slash_parts ?lock) t0" if "json_text (vf_lock vf) = None"
  proof (rule same)
    have "json_object (vf_lock vf) = None" using that json_object_text by blast
    then show "slash_parts ?lock \<notin> (\<lambda>w. slash_parts (fst w)) ` set (version_writes v vf)"
      by (auto simp: version_writes_def version_paths Let_def split: option.splits)
  qed
  have "(?con, AList.update ''version'' (StrV v) (or_empty (json_object (vf_content vf)))) \<in> set (version_writes v vf)"
    by (simp add: version_writes_def Let_def)
  then have plain1: "plain_at (slash_parts ?con) t1" if "json_text (vf_content vf) = None"
    using all not_there [of env t0 ?con] content that vf by (force simp: read_versions_def)
  define s1 where "s1 = restore_text env ?app (json_text (vf_manifest vf)) t1"
  note s1 = restored [where env = env and p = ?app and original = "json_text (vf_manifest vf)", OF conjunct1 [OF all] olds(1), folded s1_def]
  define s2 where "s2 = (if json_text (vf_content vf) = None then (if pe_restore_fault env ?con = None then drop_node (slash_parts ?con) s1 else s1)
    else restore_text env ?con (json_text (vf_content vf)) s1)"
  have s2: "rewritten t0 s2 \<and> (\<forall>q. q \<noteq> slash_parts ?con \<longrightarrow> file_at q s2 = file_at q s1)
      \<and> (pe_restore_fault env ?con = None \<longrightarrow> file_at (slash_parts ?con) s2 = file_at (slash_parts ?con) t0)"
  proof (cases "json_text (vf_content vf) = None")
    case True
    then have none: "find_node (slash_parts ?con) t0 = None" using content not_there [of env t0 ?con] vf by (simp add: read_versions_def)
    then have "file_at (slash_parts ?con) t0 = None" by (simp add: file_at_def)
    moreover have "file_at q s2 = (if q = slash_parts ?con then None else file_at q s1)" if "pe_restore_fault env ?con = None" for q
      using True that file_at_drop [OF s1(4) [OF plain1 [OF True]]] by (simp add: s2_def version_paths)
    ultimately show ?thesis using s1(1) True by (cases "pe_restore_fault env ?con") (auto simp: rewritten_def s2_def)
  next
    case False
    then have "s2 = restore_text env ?con (json_text (vf_content vf)) s1" unfolding s2_def by (rule if_not_P)
    then show ?thesis using restored [where env = env and p = ?con and original = "json_text (vf_content vf)", OF s1(1) olds(2)] False by simp
  qed
  define s3 where "s3 = restore_text env ?pkg (json_text (vf_package vf)) s2"
  note s3 = restored [where env = env and p = ?pkg and original = "json_text (vf_package vf)", OF conjunct1 [OF s2] olds(3), folded s3_def]
  define s4 where "s4 = restore_text env ?lock (json_text (vf_lock vf)) s3"
  note s4 = restored [where env = env and p = ?lock and original = "json_text (vf_lock vf)", OF s3(1) olds(4), folded s4_def]
  have final: "restore_versions env vf t1 = s4" by (simp add: restore_versions_def s1_def s2_def s3_def s4_def Let_def)
  have others: "file_at q s4 = file_at q t1" if "q \<notin> slash_parts ` set version_names" for q
    using that s4(2) s3(2) s2 s1(2) by (simp add: version_names_def)
  show "file_at q (restore_versions env vf t1) = file_at q t0" if "q \<notin> slash_parts ` set version_names"
    using others [OF that] same [OF contra_subsetD [OF writes_named that]] final by simp
  have "pe_restore_fault env ?app = None \<Longrightarrow> file_at (slash_parts ?app) s4 = file_at (slash_parts ?app) t0"
    using s4(2) [of "slash_parts ?app"] s3(2) [of "slash_parts ?app"] s2 s1(3) manifest by (simp add: version_paths)
  moreover have "pe_restore_fault env ?con = None \<Longrightarrow> file_at (slash_parts ?con) s4 = file_at (slash_parts ?con) t0"
    using s4(2) [of "slash_parts ?con"] s3(2) [of "slash_parts ?con"] s2 by (simp add: version_paths)
  moreover have "pe_restore_fault env ?pkg = None \<Longrightarrow> file_at (slash_parts ?pkg) s4 = file_at (slash_parts ?pkg) t0"
    using s4(2) [of "slash_parts ?pkg"] s3(3) s2 s1(2) [of "slash_parts ?pkg"] unwritten by (simp add: version_paths)
  moreover have "pe_restore_fault env ?lock = None \<Longrightarrow> file_at (slash_parts ?lock) s4 = file_at (slash_parts ?lock) t0"
    using s4(3) s3(2) [of "slash_parts ?lock"] s2 s1(2) [of "slash_parts ?lock"] unwritten' by (simp add: version_paths)
  ultimately show "file_at (slash_parts p) (restore_versions env vf t1) = file_at (slash_parts p) t0"
    if "p \<in> set version_names" "pe_restore_fault env p = None"
    using that unfolding final by (auto simp: version_names_def)
qed

text \<open>
  C40: A publication that fails leaves every file of the project as it was, except for the four version files
  (\<open>app.json\<close>, \<open>content/version.json\<close>, \<open>package.json\<close> and \<open>package-lock.json\<close>), whatever failed. Of these each is as it was too
  unless its own restoration failed: a restoration that fails does not keep the others from theirs. The one exception is
  a version file that could not be written in the first place: then nothing was sent, and the files are as the writes up to
  that failure left them, the one that failed with what had reached it. (Paths that reach one file by links are seen as
  files of their own.)
\<close>

theorem failed_publications_leave_the_project:
  assumes "publish_project env input token tree sent = (tree', sent', Inl e)"
  shows "(\<forall>path. path \<notin> slash_parts ` set version_names \<longrightarrow> file_at path tree' = file_at path tree)
    \<and> ((\<forall>p \<in> set version_names. pe_restore_fault env p = None \<longrightarrow> file_at (slash_parts p) tree' = file_at (slash_parts p) tree)
       \<or> sent' = sent \<and> (\<exists>raised. write_versions env (version_writes raised (read_versions env tree)) tree = (tree', Some e)))"
proof (cases "tree' = tree")
  case False
  let ?vf = "read_versions env tree"
  have facts: "json_text (vf_manifest ?vf) \<noteq> None \<and> (json_text (vf_content ?vf) = None \<longrightarrow> vf_content ?vf = NoFile)
    \<and> (\<exists>raised tree1 failed. write_versions env (version_writes raised ?vf) tree = (tree1, failed)
        \<and> (failed = None \<and> tree' = restore_versions env ?vf tree1 \<or> failed = Some e \<and> tree' = tree1 \<and> sent' = sent))"
    using assms(1) False
    by (auto simp: publish_project_def Let_def json_text_def split: json_file.splits if_splits sum.splits prod.splits option.splits)
  obtain raised tree1 failed where run: "write_versions env (version_writes raised ?vf) tree = (tree1, failed)
      \<and> (failed = None \<and> tree' = restore_versions env ?vf tree1 \<or> failed = Some e \<and> tree' = tree1 \<and> sent' = sent)"
    using conjunct2 [OF conjunct2 [OF facts]] by (elim exE) (rule that)
  show ?thesis
  proof (cases failed)
    case None
    then have writes: "write_versions env (version_writes raised ?vf) tree = (tree1, None)" and "tree' = restore_versions env ?vf tree1"
      using run by auto
    then show ?thesis
      using restored_all [OF writes refl mp [OF conjunct1 [OF conjunct2 [OF facts]]] conjunct1 [OF facts]] by simp
  next
    case (Some _)
    then have writes: "write_versions env (version_writes raised ?vf) tree = (tree', Some e)" and "sent' = sent" using run by auto
    moreover have "rewritten tree tree" by (simp add: rewritten_def)
    note writes_rewrite [OF writes this]
    ultimately show ?thesis using writes_named by blast
  qed
qed simp

text \<open>A version file that cannot be written leaves the ones before it raised: a lock file, for one.\<close>

lemma half_raised_versions_stay:
  assumes "publish_project env input token tree sent = (tree', sent', r)"
    and "write_versions env (version_writes raised (read_versions env tree)) tree = (tree1, Some e)"
    and "StringValue (pe_sprint env) (obj_get input ''bumpVersion'') = ''patch''"
    and "vf_manifest (read_versions env tree) = JsonFile d (Some m)"
    and "draft_id (trim_space (StringValue (pe_sprint env) (obj_get m ''id'')))"
    and "find_node [''content'', ''index.html''] tree \<noteq> None"
    and "vf_content (read_versions env tree) = NoFile"
    and "trim_space (StringValue (pe_sprint env) (obj_get m ''version'')) = version" "version \<noteq> []" "bumpPatch version = Inr raised"
  shows "tree' = tree1 \<and> r = Inl e"
  using assms by (auto simp: publish_project_def Let_def or_empty_def json_object_def)

text \<open>A project whose folder is a link is published without its source files.\<close>

lemma linked_projects_lose_their_sources: "collectPublishSource env (SourceLink t) inc = Inr []"
  by (simp add: collectPublishSource_def)

text \<open>An empty folder name is the agent's working directory.\<close>

lemma no_folder_is_the_working_directory:
  assumes "obj_get input ''projectRoot'' = NilV" "rooted (pe_cwd env)"
  shows "path_abs (pe_cwd env) (trim_space (StringValue (pe_sprint env) (obj_get input ''projectRoot''))) = path_clean (pe_cwd env @ ''/'')"
  using assms by (auto simp: path_abs_def path_join_def rooted_def has_prefix_def StringValue_def trim_space_def trim_left_def trim_right_def)

text \<open>A file with a backslash in its name can be published, but no draft can be opened from it.\<close>

lemma backslash_names_do_not_come_back:
  assumes "CHR 0x5C \<in> set (pf_Path f)" "f \<in> set files"
  shows "check_files (map snapshot_file files) expected \<noteq> None"
proof
  assume "check_files (map snapshot_file files) expected = None"
  from check_files_paths [OF this, of "snapshot_file f"] have "validateSnapshotPath (pf_Path f) = None"
    using assms(2) by (simp add: snapshot_file_def)
  then show False using assms(1) by (simp add: validateSnapshotPath_def split: if_splits)
qed

subsection \<open>Examples\<close>

definition sample_project :: source_node where
  "sample_project = SourceDir [(''app.json'', SourceFile [1] False), (''content'', SourceDir [(''index.html'', SourceFile [2] False)]),
     (''run.sh'', SourceFile [3] True)]"

definition sample_publish :: publish_env where
  "sample_publish = \<lparr>pe_cwd = ''/'', pe_token = Inr ''t'', pe_base = ''https://d'', pe_sha = sample_sha, pe_sprint = (\<lambda>_. []),
     pe_parse = (\<lambda>_. Inr (ObjV [(''id'', StrV ''app''), (''version'', StrV ''1.2.3'')])), pe_print = (\<lambda>_. [9]),
     pe_answer = (\<lambda>_ r. case pq_Body r of
         NoContent \<Rightarrow> Inl ''offline''
       | BlobList bs \<Rightarrow> Inr (200, [(''missing'', ArrV (map (\<lambda>b. StrV (fst b)) bs))])
       | _ \<Rightarrow> Inr (200, [])),
     pe_read_fault = (\<lambda>_. None), pe_list_fault = (\<lambda>_. None), pe_write_fault = (\<lambda>_. None), pe_restore_fault = (\<lambda>_. None)\<rparr>"

definition sample_files :: "publishSourceFile list" where
  "sample_files = [source_file_of sample_publish ''app.json'' [1] False, source_file_of sample_publish ''run.sh'' [3] True]"

definition sample_check :: publish_request where
  "sample_check = \<lparr>pq_URL = ''https://d'' @ ''/api/v1/source/blobs/check'', pq_Bearer = ''t'',
     pq_Body = BlobList (map (\<lambda>f. (pf_Digest f, pf_Size f)) sample_files)\<rparr>"

definition sample_upload :: "publish_request list \<times> (string + unit)" where
  "sample_upload = uploadPublishSources sample_publish ''https://d'' ''t'' sample_project sample_files []"

definition sample_upload_pack :: bytes where
  "sample_upload_pack = (case pq_Body (List.last (fst sample_upload)) of PackBody p \<Rightarrow> p | _ \<Rightarrow> [])"

definition sample_served :: snapshot_net where
  "sample_served = \<lparr>sn_document = Inr [7], sn_parse = (\<lambda>_. Some \<lparr>ss_SchemaVersion = 1, ss_Algorithm = ''sha256'', ss_PackURL = ''u'',
       ss_Files = map snapshot_file sample_files\<rparr>), sn_pack = Inr sample_upload_pack, sn_gzip_header = False, sn_gunzip = Inr\<rparr>"

lemma file_at_leaf: "file_at ps (SourceFile d x) = Some (a, b) \<Longrightarrow> a = d"
  by (cases ps) auto

lemma file_at_index: "file_at ps (SourceDir [(n, SourceFile d x)]) = Some (a, b) \<Longrightarrow> a = d"
  by (cases ps) (auto simp: file_at_entry dest: file_at_leaf split: if_splits)

lemma sample_contents: "{d. \<exists>ps x. file_at ps sample_project = Some (d, x)} \<subseteq> {[1], [2], [3]}"
proof -
  have "file_at ps sample_project = Some (d, x) \<Longrightarrow> d \<in> {[1], [2], [3]}" for ps d x
    unfolding sample_project_def by (cases ps) (auto simp: file_at_entry dest: file_at_leaf file_at_index split: if_splits)
  then show ?thesis by blast
qed

lemma published_sources_come_back_witness:
  "\<exists>draft. materializeSourceSnapshot sample_sha sample_served calm_disk (hex_encode (sample_sha [7])) [''d''] None = (Some draft, Returned ())
     \<and> file_at [''app.json''] draft = Some ([1], False) \<and> file_at [''run.sh''] draft = Some ([3], True)
     \<and> file_at [''content'', ''index.html''] draft = None"
proof -
  let ?gs = "map pf_Digest sample_files"
  have files: "collectPublishSource sample_publish sample_project False = Inr sample_files" by code_simp
  have ok: "names_ok sample_project" by (simp add: sample_project_def good_name_def plain_part_def)
  have sha: "\<forall>x. length (pe_sha sample_publish x) = 32" by (simp add: sample_publish_def sample_sha_def min_def)
  have "inj_on sample_sha {[1], [2], [3]}" by (simp add: sample_sha_def)
  then have inj: "inj_on (pe_sha sample_publish) {d. \<exists>ps x. file_at ps sample_project = Some (d, x)}"
    using inj_on_subset [OF _ sample_contents] by (simp add: sample_publish_def)
  have tree: "sample_project = SourceDir [(''app.json'', SourceFile [1] False), (''content'', SourceDir [(''index.html'', SourceFile [2] False)]),
     (''run.sh'', SourceFile [3] True)]" by (rule sample_project_def)
  have gs: "distinct ?gs" "sample_files \<noteq> []" by code_simp+
  have answer: "pe_answer sample_publish [] sample_check = Inr (200, [(''missing'', ArrV (map StrV ?gs))])"
    by (simp add: sample_publish_def sample_check_def)
  have missing: "obj_get [(''missing'', ArrV (map StrV ?gs))] ''missing'' = ArrV (map StrV ?gs)" by (simp add: obj_get_def)
  have up: "uploadPublishSources sample_publish ''https://d'' ''t'' sample_project sample_files [] = (fst sample_upload, Inr ())"
    unfolding sample_upload_def upload_runs [OF files tree ok gs(2) sample_check_def answer missing _ set_map, unfolded ok_status_def, simplified]
    by (simp add: publish_send_def sample_publish_def ok_status_def)
  have disk: "sd_root calm_disk = None" "sd_dir calm_disk = (\<lambda>_. None)" "sd_file calm_disk = (\<lambda>_. None)" by (simp_all add: calm_disk_def)
  from published_sources_come_back [OF files tree ok gs(2) sha inj up sample_check_def answer missing gs(1) set_map disk]
  obtain pack where pack: "pq_Body (List.last (fst sample_upload)) = PackBody pack"
      "\<forall>n expected folder. length pack \<le> 256 * 1024 * 1024 \<longrightarrow> serves sample_sha sample_files pack expected n \<longrightarrow>
         (\<exists>draft. materializeSourceSnapshot sample_sha n calm_disk expected folder None = (Some draft, Returned ())
           \<and> (\<forall>q. file_at q draft = (if kept False q then file_at q sample_project else None)))"
    by (auto simp: sample_publish_def)
  have "pack = sample_upload_pack" by (simp add: sample_upload_pack_def pack(1))
  moreover have "length sample_upload_pack \<le> 256 * 1024 * 1024"
  proof -
    have blobs: "(\<Sum>g \<leftarrow> ?gs. 40 + length (blob_of sample_project sample_files g)) = 82" by code_simp
    have "sample_upload_pack = blob_pack (pe_sha sample_publish) (blob_of sample_project sample_files) ?gs"
      using uploaded_pack [OF files tree ok gs(2) up sample_check_def answer missing set_map] by (simp add: sample_upload_pack_def)
    then show ?thesis using length_blob_pack [OF sha, of "blob_of sample_project sample_files" ?gs] unfolding blobs by simp
  qed
  moreover have "snapshotDigestMatches sample_sha (hex_encode (sample_sha [7])) [7]" by code_simp
  ultimately obtain draft where "materializeSourceSnapshot sample_sha sample_served calm_disk (hex_encode (sample_sha [7])) [''d''] None
        = (Some draft, Returned ())"
      "\<forall>q. file_at q draft = (if kept False q then file_at q sample_project else None)"
  proof -
    assume small: "pack = sample_upload_pack" "length sample_upload_pack \<le> 256 * 1024 * 1024"
      and "snapshotDigestMatches sample_sha (hex_encode (sample_sha [7])) [7]"
    then have "serves sample_sha sample_files pack (hex_encode (sample_sha [7])) sample_served" by (simp add: serves_def sample_served_def)
    then show ?thesis using that pack(2) small by blast
  qed
  moreover have "kept False [''app.json'']" "kept False [''run.sh'']" "\<not> kept False [''content'', ''index.html'']" by code_simp+
  ultimately show ?thesis by (simp add: sample_project_def file_at_entry)
qed

definition sample_failed :: "source_node \<times> publish_result sending" where
  "sample_failed = publish_project sample_publish [(''bumpVersion'', StrV ''patch'')] ''t'' sample_project []"

lemma failed_publications_leave_the_project_witness:
  "snd (snd sample_failed) = Inl ''offline'' \<and> file_at [''app.json''] (fst sample_failed) = Some ([1], False)
   \<and> file_at [''content'', ''version.json''] (fst sample_failed) = None"
proof -
  have run: "publish_project sample_publish [(''bumpVersion'', StrV ''patch'')] ''t'' sample_project [] = (fst sample_failed, fst (snd sample_failed), Inl ''offline'')"
    "fst (snd sample_failed) \<noteq> []" "snd (snd sample_failed) = Inl ''offline''"
    by code_simp+
  have calm: "pe_restore_fault sample_publish p = None" for p by (simp add: sample_publish_def)
  have "file_at path (fst sample_failed) = file_at path sample_project" for path
    using failed_publications_leave_the_project [OF run(1)] run(2) calm by (cases "path \<in> slash_parts ` set version_names") auto
  moreover have "file_at [''app.json''] sample_project = Some ([1], False)" "file_at [''content'', ''version.json''] sample_project = None"
    by code_simp+
  ultimately show ?thesis using run(3) by simp
qed

end
