(* ===== verification/Spec2Isabelle.thy ===== *)
theory Spec2Isabelle
  imports Identity_Properties Gate_Properties Wire_Properties Exec_Properties
    Presentation_Properties Bridge_Properties Update_Properties
    Relay_Properties Rdp_Properties Session_Properties Source_Properties Trickle_Properties
    Http_Properties Import_Properties Clipboard_Properties Search_Properties Files_Properties Agents_Properties
    Listener_Properties Settings_Properties Sync_Properties External_Properties System_Properties
    Publish_Properties
begin

text \<open>
  The DynApp shell agent (\<open>src/\<close>, Go): a program on the user's machine that serves web apps. A browser
  connects by a WebSocket, by WebTransport, by a WebRTC channel or through Dyner's relay, proves who
  it is, and then asks for files, programs, network bridges and services; the agent serves what the
  user has granted to that browser and that app. File names below are those under \<open>src/shellagent/\<close>.

  \<^bold>\<open>Parts and how they interact.\<close>

  A socket's first frame is a hello. \<open>Identity\<close> (\<open>browser_identity.go\<close>, \<open>browser_client.go\<close>) turns it into an
  authentication: it checks the signature, resolves the app with Dyner (\<open>App_Resolution\<close>, \<open>app_resolution.go\<close>),
  finds a stored identity or asks the authority, the browser that may decide, through the pending table of
  \<open>Registry\<close> (\<open>permissions.go\<close>). Identities and native apps (\<open>Native_Apps\<close>: \<open>native_apps.go\<close>, \<open>native_host.go\<close>) are part of
  the configuration (\<open>Config\<close>: \<open>config.go\<close>). \<open>Access\<close> composes these into the server's state and its steps. Every later
  frame passes the gate (\<open>Gate\<close> over the messages of \<open>Frames\<close>: the loop of \<open>agent.go\<close>): its app id must be the socket's,
  its capability must be granted (\<open>Cap_Sets\<close>, \<open>Catalog\<close>: \<open>catalog/permission_catalog.go\<close>), and it goes to a service.
  Over the relay the loop of \<open>Relay\<close> (\<open>relay.go\<close>) takes the place of the handshake and of the gate.

  The services: program execution (\<open>Exec\<close>: \<open>proc/process.go\<close>), the presentation helper with trays and shortcuts
  (\<open>Presentation\<close>: \<open>desktop/presentation_model.go\<close>), network bridges (\<open>Bridges\<close>, \<open>Datagrams\<close>: \<open>network_bridge.go\<close>), RDP bridges
  (\<open>Rdp\<close>: \<open>rdp/rdp.go\<close>), HTTP requests under the app's allowlist (\<open>Http\<close>: \<open>http_provider.go\<close>, \<open>Connect\<close>: \<open>connect/http_connect.go\<close>),
  files (\<open>Files\<close>: \<open>fs/call.go\<close>, \<open>fs/helpers.go\<close>), file search (\<open>Search\<close>: \<open>services.go\<close>), session records (\<open>Sessions\<close>:
  \<open>session_state.go\<close>), imported and clipboard files (\<open>File_Imports\<close>: \<open>file_import.go\<close>, \<open>clipboard.go\<close>), file promises (\<open>Clipboard\<close>:
  \<open>clipboard.go\<close>, \<open>file_promise.go\<close>, \<open>drag.go\<close>), files opened from outside (\<open>External_Open\<close>: \<open>external_open.go\<close>), ports and
  secrets, and the dispatch of requests (\<open>System_Services\<close>: \<open>system_services.go\<close>, \<open>services.go\<close>, \<open>rpc.go\<close>), and coding agents (\<open>Agents\<close>: \<open>agent_sessions.go\<close>, \<open>claude_sessions.go\<close>, \<open>mcp_proxy.go\<close>).
  Frames travel in the encodings of \<open>Wire\<close> (\<open>agent.go\<close>, \<open>lan.go\<close>, \<open>ice.go\<close>); \<open>Trickle\<close> posts ICE candidates (\<open>ice.go\<close>).

  Beside the sockets: the listener and its registration with Dyner (\<open>Listener\<close> over the requests of \<open>Dyner_Api\<close>: \<open>lan_rpc.go\<close>,
  \<open>registration.go\<close>), the synchronisation with Dyner that brings identities, opens the relay and answers peer sessions (\<open>Device_Sync\<close>:
  \<open>dyner.go\<close>, \<open>agent.go\<close>, \<open>ice.go\<close>), the settings pages and the sign-in (\<open>Settings\<close>: \<open>settings_http.go\<close>, \<open>settings_login.go\<close>, \<open>account.go\<close>), the
  self-updater (\<open>Updater\<close>: \<open>updater.go\<close>) and the source snapshots of hosted apps (\<open>Source_Pack\<close>: \<open>apphost/source_snapshot.go\<close>).

  \<^bold>\<open>Shared layers.\<close> \<open>Go_Prelude\<close> holds the Go library (strings, maps as association lists, byte order) and
  three contracts: \<open>invariant_machine\<close> and \<open>action_system\<close> for stateful and concurrent components,
  \<open>prefix_codec\<close> for encodings. \<open>Cap_Sets\<close> has the contract of capability sets. \<open>Any_Value\<close> is decoded JSON, \<open>Json\<close>
  its text and the decoding of structs; \<open>Go_Url\<close> and \<open>Url_Text\<close> are the parts of \<open>net/url\<close> and \<open>net\<close> that decide anything,
  \<open>Paths\<close> is \<open>path/filepath\<close> on Unix, \<open>Disk\<close> the part of a filesystem the services use, and
  \<open>Chunk_Store\<close> the contract of files written in chunks. \<open>Agents_Properties\<close> has the contract of a table of waiting
  calls. Every contract is interpreted on the code's own definitions.

  \<^bold>\<open>How the code is rendered.\<close> A struct is a record with the code's field names behind a prefix, a string is a list of
  bytes, a Go map an association list with distinct keys, a 64-bit or 32-bit count an int or word that wraps where
  the code may reach its bounds, an error the left of a sum. An operation takes the state and returns the new one.
  What runs in several goroutines is a system of actions (the bridge tables, the pending calls, the candidate
  trickler), each action what one goroutine does under one lock; its properties hold for every interleaving.
  What the code does not decide itself is a parameter gathered in an environment record: the answers of HTTP
  servers, proxies and name servers, of Dyner, of the operating system and its faults, of helper processes and of
  the user, random bytes and clocks, and the cryptographic primitives (SHA-256, AES-GCM, ECDSA, Ed25519). An
  assumption about one of them is a hypothesis of the theorem that needs it, and a witness meets it.

  \<^bold>\<open>What the lemmas show.\<close>
  \<^item> \<open>Access_Properties\<close>, \<open>Identity_Properties\<close>, \<open>Gate_Properties\<close>, \<open>Relay_Properties\<close>: who gets which permission. Requests change
    the permissions only for the authority, a socket's grant stays within what was stored, asked and declared, decisions
    go to the socket that asked, and no frame reaches a service without its permission.
  \<^item> \<open>Wire_Properties\<close>, \<open>Source_Properties\<close>, \<open>Rdp_Properties\<close>: encodings are read back, also cut into fragments and datagrams that
    arrive in any order; what is written to disk was verified.
  \<^item> \<open>Exec_Properties\<close>, \<open>Presentation_Properties\<close>, \<open>Session_Properties\<close>, \<open>Import_Properties\<close>, \<open>Clipboard_Properties\<close>, \<open>Search_Properties\<close>,
    \<open>Files_Properties\<close>, \<open>Http_Properties\<close>, \<open>External_Properties\<close>, \<open>System_Properties\<close>: what each service promises, and that it stays within its paths, its destinations and
    its app.
  \<^item> \<open>Bridge_Properties\<close>, \<open>Agents_Properties\<close>, \<open>Trickle_Properties\<close>, \<open>Sync_Properties\<close>: what holds under every interleaving; the last
    also says what a sync does to the pairings and who may open a peer session.
  \<^item> \<open>Update_Properties\<close>: what an update installs. \<open>Listener_Properties\<close>, \<open>Settings_Properties\<close>: the configuration stays valid, records
    at Dyner are not forgotten, and the settings and the account change only for those who may.
  \<^item> Some theorems show what the code does and should not do; their text says so.

  \<^bold>\<open>Bounds and fuel.\<close> Recursion is structural or has a measure: redirects of an HTTP request count down from ten, the
  decoders consume their input. Two loops may go on for ever and are partial functions: the live search (shown to end on
  every finite tree) and the copying of directories (shown not to end for a copy into itself). \<open>free_copy\<close> tries the
  ten thousand names the code tries. The fragment and chunk sizes are those of the code.

  \<^bold>\<open>Not modelled.\<close> Start-up and shutdown, the HTTP servers and the sockets themselves, and logging. The network
  filesystems, Node hosting, the app store and publishing, zip archives and directory watches: they drive third-party
  libraries or child processes. The platform adapters, the Windows host, file associations, installers and the command
  line: calls of the operating system. The headers of HTTP requests, symbolic links and permission bits of files,
  and letters outside ASCII in case folding.
\<close>

end
